(* ===== verification/Prelude.thy ===== *)
theory Prelude
  imports Main "HOL-Library.Word"
begin

unbundle bit_operations_syntax

text \<open>
  Shared vocabulary of the development: the machine integer types of the Rust sources
  (\<open>u8\<close>, \<open>u16\<close>, \<open>u32\<close>, \<open>u64\<close> as words of that width, \<open>i32\<close>/\<open>i64\<close> as the same words read
  with \<open>sint\<close>), the result type of fallible operations, and the generic facts about bits of
  words, options and lists that the component theories use.

  Arithmetic on words wraps around. The sources write \<open>wrapping_add\<close> where a wrap is meant; a
  plain \<open>+\<close> on \<open>u64\<close> wraps in the release profile (no \<open>overflow-checks\<close> is configured in
  \<open>Cargo.toml\<close>), which is the behaviour modelled here.
\<close>

type_synonym u8 = "8 word"
type_synonym u16 = "16 word"
type_synonym u32 = "32 word"
type_synonym u64 = "64 word"
type_synonym i32 = "32 word"
type_synonym i64 = "64 word"

named_theorems bitfield "rewrite rules that turn shift-and-mask code into single bits"

subsection \<open>Single bits\<close>

text \<open>The code tests bit \<open>n\<close> of a register as \<open>(w >> n) & 1 == 1\<close> and clears or sets it with
  \<open>!(1 << n)\<close> and \<open>1 << n\<close>. These rules give the meaning of each idiom.\<close>

lemma and_one_eq: "(w :: 'a::len word) AND 1 = of_bool (bit w 0)"
  by (rule bit_word_eqI) (auto simp: bit_simps)

lemma drop_and_one [bitfield]: "drop_bit n w AND (1 :: 'a::len word) = of_bool (bit w n)"
  by (simp add: and_one_eq bit_simps)

lemma of_bool_word_eq_one [bitfield]: "(of_bool b = (1 :: 'a::len word)) = b"
  by simp

lemma bit_push_one [bitfield]:
  "bit (push_bit n (1 :: 'a::len word)) m = (m = n \<and> n < LENGTH('a))"
  by (auto simp: bit_simps)

lemma bit_push_of_bool [bitfield]:
  "bit (push_bit n (of_bool b :: 'a::len word)) m = (m = n \<and> n < LENGTH('a) \<and> b)"
  by (auto simp: bit_simps)

lemma and_push_one_eq_0 [bitfield]:
  "(w AND push_bit n (1 :: 'a::len word) = 0) = (n < LENGTH('a) \<longrightarrow> \<not> bit w n)"
proof -
  have "(w AND push_bit n 1 = 0) = (\<forall>m. \<not> bit (w AND push_bit n (1 :: 'a word)) m)"
    by (metis bit_0_eq bot_apply bot_bool_def bit_word_eqI)
  also have "\<dots> = (n < LENGTH('a) \<longrightarrow> \<not> bit w n)"
    by (auto simp: bit_simps)
  finally show ?thesis .
qed

lemma not_bit_push_low: "n < k \<Longrightarrow> \<not> bit (push_bit k (w :: 'a::len word)) n"
  by (simp add: bit_simps)

lemma bit_imp_exp_le_unat: "bit (w :: 'a::len word) n \<Longrightarrow> 2 ^ n \<le> unat w"
proof -
  assume "bit w n"
  then have "odd (unat w div 2 ^ n)"
    by (simp add: bit_unsigned_iff bit_iff_odd [symmetric])
  then have "unat w div 2 ^ n \<noteq> 0" by (metis even_zero)
  then show ?thesis by (metis div_less not_le)
qed

lemma bit_high_64: "64 \<le> n \<Longrightarrow> \<not> bit (w :: u64) n"
  using bit_imp_le_length [of w n] by auto

text \<open>Two words that agree on every bit below the width are equal.\<close>

lemma u64_eqI: "(\<And>n. n < 64 \<Longrightarrow> bit v n = bit (w :: u64) n) \<Longrightarrow> v = w"
  by (rule bit_word_eqI) simp

lemma u32_eqI: "(\<And>n. n < 32 \<Longrightarrow> bit v n = bit (w :: u32) n) \<Longrightarrow> v = w"
  by (rule bit_word_eqI) simp

subsection \<open>Constants that are masks of the low bits\<close>

text \<open>The simplifier reduces a bit of a word literal to a bit of the integer or natural number
  with that value, so the rules are stated for those.\<close>

lemma bit_low_masks_int [bitfield]:
  "bit (0x3 :: int) n = (n < 2)"
  "bit (0x7 :: int) n = (n < 3)"
  "bit (0xF :: int) n = (n < 4)"
  "bit (0x1F :: int) n = (n < 5)"
  "bit (0x3F :: int) n = (n < 6)"
  "bit (0x7F :: int) n = (n < 7)"
  "bit (0xFF :: int) n = (n < 8)"
  "bit (0x1FF :: int) n = (n < 9)"
  "bit (0x3FF :: int) n = (n < 10)"
  "bit (0xFFF :: int) n = (n < 12)"
  "bit (0xFFFF :: int) n = (n < 16)"
  "bit (0xFFFFFFFF :: int) n = (n < 32)"
proof -
  have m: "i = mask k \<Longrightarrow> bit i n = (n < k)" for i :: int and k
    by (simp add: bit_simps)
  show "bit (0x3 :: int) n = (n < 2)" by (rule m) (simp add: mask_eq_exp_minus_1)
  show "bit (0x7 :: int) n = (n < 3)" by (rule m) (simp add: mask_eq_exp_minus_1)
  show "bit (0xF :: int) n = (n < 4)" by (rule m) (simp add: mask_eq_exp_minus_1)
  show "bit (0x1F :: int) n = (n < 5)" by (rule m) (simp add: mask_eq_exp_minus_1)
  show "bit (0x3F :: int) n = (n < 6)" by (rule m) (simp add: mask_eq_exp_minus_1)
  show "bit (0x7F :: int) n = (n < 7)" by (rule m) (simp add: mask_eq_exp_minus_1)
  show "bit (0xFF :: int) n = (n < 8)" by (rule m) (simp add: mask_eq_exp_minus_1)
  show "bit (0x1FF :: int) n = (n < 9)" by (rule m) (simp add: mask_eq_exp_minus_1)
  show "bit (0x3FF :: int) n = (n < 10)" by (rule m) (simp add: mask_eq_exp_minus_1)
  show "bit (0xFFF :: int) n = (n < 12)" by (rule m) (simp add: mask_eq_exp_minus_1)
  show "bit (0xFFFF :: int) n = (n < 16)" by (rule m) (simp add: mask_eq_exp_minus_1)
  show "bit (0xFFFFFFFF :: int) n = (n < 32)" by (rule m) (simp add: mask_eq_exp_minus_1)
qed

lemma bit_low_masks_nat [bitfield]:
  "bit (0x3 :: nat) n = (n < 2)"
  "bit (0x7 :: nat) n = (n < 3)"
  "bit (0xF :: nat) n = (n < 4)"
  "bit (0x1F :: nat) n = (n < 5)"
  "bit (0x3F :: nat) n = (n < 6)"
  "bit (0x7F :: nat) n = (n < 7)"
  "bit (0xFF :: nat) n = (n < 8)"
  "bit (0x1FF :: nat) n = (n < 9)"
  "bit (0x3FF :: nat) n = (n < 10)"
  "bit (0xFFF :: nat) n = (n < 12)"
  "bit (0xFFFF :: nat) n = (n < 16)"
  "bit (0xFFFFFFFF :: nat) n = (n < 32)"
proof -
  have m: "i = mask k \<Longrightarrow> bit i n = (n < k)" for i :: nat and k
    by (simp add: bit_simps)
  show "bit (0x3 :: nat) n = (n < 2)" by (rule m) (simp add: mask_eq_exp_minus_1)
  show "bit (0x7 :: nat) n = (n < 3)" by (rule m) (simp add: mask_eq_exp_minus_1)
  show "bit (0xF :: nat) n = (n < 4)" by (rule m) (simp add: mask_eq_exp_minus_1)
  show "bit (0x1F :: nat) n = (n < 5)" by (rule m) (simp add: mask_eq_exp_minus_1)
  show "bit (0x3F :: nat) n = (n < 6)" by (rule m) (simp add: mask_eq_exp_minus_1)
  show "bit (0x7F :: nat) n = (n < 7)" by (rule m) (simp add: mask_eq_exp_minus_1)
  show "bit (0xFF :: nat) n = (n < 8)" by (rule m) (simp add: mask_eq_exp_minus_1)
  show "bit (0x1FF :: nat) n = (n < 9)" by (rule m) (simp add: mask_eq_exp_minus_1)
  show "bit (0x3FF :: nat) n = (n < 10)" by (rule m) (simp add: mask_eq_exp_minus_1)
  show "bit (0xFFF :: nat) n = (n < 12)" by (rule m) (simp add: mask_eq_exp_minus_1)
  show "bit (0xFFFF :: nat) n = (n < 16)" by (rule m) (simp add: mask_eq_exp_minus_1)
  show "bit (0xFFFFFFFF :: nat) n = (n < 32)" by (rule m) (simp add: mask_eq_exp_minus_1)
qed

lemma bit_high_half [bitfield]:
  "bit (0xFFFFFFFF00000000 :: int) n = (32 \<le> n \<and> n < 64)"
  "bit (0xFFFFFFFF00000000 :: nat) n = (32 \<le> n \<and> n < 64)"
proof -
  have "(0xFFFFFFFF00000000 :: int) = push_bit 32 (mask 32)"
    "(0xFFFFFFFF00000000 :: nat) = push_bit 32 (mask 32)"
    by (simp_all add: mask_eq_exp_minus_1 push_bit_eq_mult)
  then show "bit (0xFFFFFFFF00000000 :: int) n = (32 \<le> n \<and> n < 64)"
    "bit (0xFFFFFFFF00000000 :: nat) n = (32 \<le> n \<and> n < 64)"
    by (simp_all only: bit_push_bit_iff bit_mask_iff) auto
qed

subsection \<open>Two-bit fields\<close>

lemma and_three_word: "v AND (3 :: u64) = of_bool (bit v 0) + 2 * of_bool (bit v 1)"
proof -
  have "(3 :: u64) = mask 2" by (simp add: mask_eq_exp_minus_1)
  then have "v AND 3 = take_bit 2 v" by (simp only: take_bit_eq_mask)
  also have "\<dots> = of_bool (odd v) + 2 * of_bool (odd (v div 2))"
    by (simp add: numeral_2_eq_2 take_bit_Suc mod_2_eq_odd)
  finally show ?thesis by (simp add: bit_0 bit_Suc)
qed

lemma bit_push_3: "bit (push_bit k 3 :: u64) n = (n < 64 \<and> (n = k \<or> n = Suc k))"
  by (simp only: bit_push_bit_iff) (auto simp: bitfield)

text \<open>Used with \<open>simp only:\<close>, so that the shifted literals are not evaluated first.\<close>

lemmas bit_fields =
  bit_and_iff bit_or_iff bit_not_iff possible_bit_word bit_push_one bit_push_of_bool bit_push_3
  drop_and_one

subsection \<open>The first element of a list that satisfies a test\<close>

lemma find_unique:
  assumes "x \<in> set xs" "P x" "\<And>y. y \<in> set xs \<Longrightarrow> P y \<Longrightarrow> y = x"
  shows "find P xs = Some x"
  using assms
proof (induction xs)
  case (Cons y ys)
  show ?case
  proof (cases "P y")
    case True
    with Cons.prems(3) [of y] show ?thesis by simp
  next
    case False
    with Cons.prems(1,2) have "x \<in> set ys" by auto
    then have "find P ys = Some x"
      using Cons.IH Cons.prems(2,3) by (meson list.set_intros(2))
    with False show ?thesis by simp
  qed
qed simp

lemma find_SomeD: "find P xs = Some x \<Longrightarrow> x \<in> set xs \<and> P x"
  by (induction xs) (auto split: if_splits)

subsection \<open>Case analysis on a chain of tests\<close>

text \<open>Elimination rule for a \<open>match\<close> written as nested conditionals; with \<open>elim\<close> it walks the
  chain once, where splitting by simplification would revisit it for every arm.\<close>

lemma if_eqE:
  assumes "(if P then a else b) = c"
  obtains (then_branch) "P" "c = a" | (else_branch) "\<not> P" "b = c"
  using assms by (auto split: if_splits)

end
