(* ===== verification/Vm_Error.thy ===== *)
theory Vm_Error
  imports Prelude
begin

text \<open>
  The error type of the virtual machine (\<open>crates/virtual-machine/src/error.rs\<close>) and the way a
  Rust method \<open>fn f(&mut self, ..) -> Result<T, VmError>\<close> is modelled: a function from the state
  to a pair of the result and the new state. The state is returned on the error path too,
  because what a method wrote before it failed stays written. \<open>sbind\<close> is the \<open>?\<close> operator.
\<close>

datatype vm_error =
    BusError u64
  | WriteToRom
  | InstructionAccessFault u64
  | LoadAccessFault u64
  | StoreAccessFault u64
  | IllegalInstruction u32
  | Ecall
  | Ebreak
  | InstructionPageFault u64
  | LoadPageFault u64
  | StorePageFault u64
  | Mret
  | Sret
  | Other string

type_synonym 'a result = "vm_error + 'a"
type_synonym ('s, 'a) action = "'s \<Rightarrow> 'a result \<times> 's"

definition sreturn :: "'a \<Rightarrow> ('s, 'a) action" where
  "sreturn a s = (Inr a, s)"

definition sfail :: "vm_error \<Rightarrow> ('s, 'a) action" where
  "sfail e s = (Inl e, s)"

definition sbind :: "('s, 'a) action \<Rightarrow> ('a \<Rightarrow> ('s, 'b) action) \<Rightarrow> ('s, 'b) action" where
  "sbind m f s = (case m s of (Inl e, s') \<Rightarrow> (Inl e, s') | (Inr a, s') \<Rightarrow> f a s')"

text \<open>\<open>Result::map_err\<close>.\<close>

definition smap_err :: "(vm_error \<Rightarrow> vm_error) \<Rightarrow> ('s, 'a) action \<Rightarrow> ('s, 'a) action" where
  "smap_err g m s = (case m s of (Inl e, s') \<Rightarrow> (Inl (g e), s') | (Inr a, s') \<Rightarrow> (Inr a, s'))"

lemma sbind_Inr [simp]: "m s = (Inr a, s') \<Longrightarrow> sbind m f s = f a s'"
  by (simp add: sbind_def)

lemma sbind_Inl [simp]: "m s = (Inl e, s') \<Longrightarrow> sbind m f s = (Inl e, s')"
  by (simp add: sbind_def)

lemma sbind_sreturn [simp]: "sbind (sreturn a) f = f a"
  by (simp add: sbind_def sreturn_def fun_eq_iff)

lemma sbind_sfail [simp]: "sbind (sfail e) f = sfail e"
  by (simp add: sbind_def sfail_def fun_eq_iff)

lemma sbind_assoc: "sbind (sbind m f) g = sbind m (\<lambda>a. sbind (f a) g)"
  by (auto simp: sbind_def fun_eq_iff split: prod.splits sum.splits)

lemma sbind_eq_Inr:
  "sbind m f s = (Inr b, s'') \<longleftrightarrow> (\<exists>a s'. m s = (Inr a, s') \<and> f a s' = (Inr b, s''))"
  by (auto simp: sbind_def split: prod.splits sum.splits)

lemma smap_err_Inr [simp]: "m s = (Inr a, s') \<Longrightarrow> smap_err g m s = (Inr a, s')"
  by (simp add: smap_err_def)

lemma smap_err_Inl [simp]: "m s = (Inl e, s') \<Longrightarrow> smap_err g m s = (Inl (g e), s')"
  by (simp add: smap_err_def)

lemma smap_err_eq_Inr: "smap_err g m s = (Inr a, s') \<longleftrightarrow> m s = (Inr a, s')"
  by (auto simp: smap_err_def split: prod.splits sum.splits)

end
