(* ===== verification/Registers.thy ===== *)
theory Registers
  imports Vm_Error
begin

text \<open>
  The register file of \<open>crates/virtual-machine/src/cpu/registers.rs\<close>: thirty-two integer
  registers with \<open>x0\<close> hardwired to zero, thirty-two floating-point registers held as raw bits,
  the program counter and the privilege mode. A register number out of range panics in the
  source; the callers pass five-bit fields, so the model keeps the arrays as lists of length
  \<open>32\<close> and the invariant \<open>regs_wf\<close> records that length.
\<close>

datatype privilege_mode = User | Supervisor | Machine

text \<open>The discriminants of the enum, used by the code with \<open>as u64\<close>.\<close>

fun priv_num :: "privilege_mode \<Rightarrow> u64" where
  "priv_num User = 0"
| "priv_num Supervisor = 1"
| "priv_num Machine = 3"

abbreviation CANONICAL_NAN_BOXED :: u64 where
  "CANONICAL_NAN_BOXED \<equiv> 0xFFFFFFFF7FC00000"

abbreviation NAN_BOX_UPPER :: u64 where
  "NAN_BOX_UPPER \<equiv> 0xFFFFFFFF00000000"

record registers =
  x_regs :: "u64 list"
  f_regs :: "u64 list"
  reg_pc :: u64
  priv_mode :: privilege_mode

definition registers_new :: registers where
  "registers_new =
     \<lparr>x_regs = replicate 32 0, f_regs = replicate 32 CANONICAL_NAN_BOXED,
      reg_pc = 0, priv_mode = Machine\<rparr>"

definition read_x :: "registers \<Rightarrow> nat \<Rightarrow> u64" where
  "read_x r n = (if n = 0 then 0 else x_regs r ! n)"

definition write_x :: "nat \<Rightarrow> u64 \<Rightarrow> registers \<Rightarrow> registers" where
  "write_x n v r = (if n \<noteq> 0 then r\<lparr>x_regs := (x_regs r)[n := v]\<rparr> else r)"

definition read_f_bits :: "registers \<Rightarrow> nat \<Rightarrow> u64" where
  "read_f_bits r n = f_regs r ! n"

definition write_f_bits :: "nat \<Rightarrow> u64 \<Rightarrow> registers \<Rightarrow> registers" where
  "write_f_bits n v r = r\<lparr>f_regs := (f_regs r)[n := v]\<rparr>"

text \<open>An \<open>f32\<close> is modelled by its bit pattern; \<open>f32::NAN\<close> is the quiet NaN \<open>0x7FC00000\<close>.\<close>

definition read_f32 :: "registers \<Rightarrow> nat \<Rightarrow> u32" where
  "read_f32 r n =
     (let bits = f_regs r ! n in
      if bits AND NAN_BOX_UPPER \<noteq> NAN_BOX_UPPER then 0x7FC00000 else ucast bits)"

definition write_f32 :: "nat \<Rightarrow> u32 \<Rightarrow> registers \<Rightarrow> registers" where
  "write_f32 n v r = r\<lparr>f_regs := (f_regs r)[n := NAN_BOX_UPPER OR ucast v]\<rparr>"

definition read_f64 :: "registers \<Rightarrow> nat \<Rightarrow> u64" where
  "read_f64 r n = f_regs r ! n"

definition write_f64 :: "nat \<Rightarrow> u64 \<Rightarrow> registers \<Rightarrow> registers" where
  "write_f64 n v r = r\<lparr>f_regs := (f_regs r)[n := v]\<rparr>"

definition regs_wf :: "registers \<Rightarrow> bool" where
  "regs_wf r \<longleftrightarrow> length (x_regs r) = 32 \<and> length (f_regs r) = 32"

lemma regs_wf_new: "regs_wf registers_new"
  by (simp add: regs_wf_def registers_new_def)

lemma regs_wf_write_x [simp]: "regs_wf (write_x n v r) = regs_wf r"
  by (simp add: regs_wf_def write_x_def)

lemma regs_wf_write_f_bits [simp]: "regs_wf (write_f_bits n v r) = regs_wf r"
  by (simp add: regs_wf_def write_f_bits_def)

lemma regs_wf_updates [simp]:
  "regs_wf (r\<lparr>reg_pc := p\<rparr>) = regs_wf r" "regs_wf (r\<lparr>priv_mode := m\<rparr>) = regs_wf r"
  by (simp_all add: regs_wf_def)

lemma read_x_zero [simp]: "read_x r 0 = 0"
  by (simp add: read_x_def)

lemma write_x_zero [simp]: "write_x 0 v r = r"
  by (simp add: write_x_def)

lemma read_x_write_x:
  "regs_wf r \<Longrightarrow> m < 32 \<Longrightarrow>
   read_x (write_x m v r) n = (if n = m \<and> m \<noteq> 0 then v else read_x r n)"
  by (auto simp: read_x_def write_x_def regs_wf_def nth_list_update)

lemma read_f_bits_write_f_bits:
  "regs_wf r \<Longrightarrow> m < 32 \<Longrightarrow>
   read_f_bits (write_f_bits m v r) n = (if n = m then v else read_f_bits r n)"
  by (auto simp: read_f_bits_def write_f_bits_def regs_wf_def nth_list_update)

lemma read_x_write_f_bits [simp]: "read_x (write_f_bits m v r) n = read_x r n"
  by (simp add: read_x_def write_f_bits_def)

lemma read_f_bits_write_x [simp]: "read_f_bits (write_x m v r) n = read_f_bits r n"
  by (simp add: read_f_bits_def write_x_def)

lemma reg_pc_writes [simp]:
  "reg_pc (write_x n v r) = reg_pc r" "reg_pc (write_f_bits n v r) = reg_pc r"
  "priv_mode (write_x n v r) = priv_mode r" "priv_mode (write_f_bits n v r) = priv_mode r"
  by (simp_all add: write_x_def write_f_bits_def)

text \<open>Every operation of the register file refines a pair of total maps: an integer write
  changes that register and nothing else, \<open>x0\<close> always reads zero, and the two files do not
  overlap.\<close>

lemma ucast_or_box: "ucast (NAN_BOX_UPPER OR ucast (v :: u32)) = v"
proof (rule u32_eqI)
  fix n :: nat
  assume n: "n < 32"
  have "\<not> bit (0xFFFFFFFF00000000 :: u64) n"
    using not_bit_push_low [OF n, of "0xFFFFFFFF :: u64"] by simp
  then show "bit (ucast (NAN_BOX_UPPER OR ucast v :: u64) :: u32) n = bit v n"
    using n by (simp add: bit_simps)
qed

lemma and_or_box: "(NAN_BOX_UPPER OR w) AND NAN_BOX_UPPER = NAN_BOX_UPPER"
  by (rule u64_eqI) (auto simp: bit_simps)

end
