(* ===== verification/Csr.thy ===== *)
theory Csr
  imports Vm_Error
begin

text \<open>
  The control and status registers (\<open>crates/virtual-machine/src/cpu/csr.rs\<close>): the record of
  the stored registers, \<open>csr_read\<close> and \<open>csr_write\<close> with the alias registers \<open>sstatus\<close>,
  \<open>sie\<close>, \<open>sip\<close>, \<open>fcsr\<close> and the legalised (WARL) fields, and the invariant \<open>csr_wf\<close>
  that every write keeps.
\<close>

subsection \<open>Addresses and masks\<close>

abbreviation FFLAGS :: u16 where "FFLAGS \<equiv> 0x001"
abbreviation FRM :: u16 where "FRM \<equiv> 0x002"
abbreviation FCSR :: u16 where "FCSR \<equiv> 0x003"
abbreviation CYCLE :: u16 where "CYCLE \<equiv> 0xC00"
abbreviation TIME :: u16 where "TIME \<equiv> 0xC01"
abbreviation INSTRET :: u16 where "INSTRET \<equiv> 0xC02"
abbreviation SSTATUS :: u16 where "SSTATUS \<equiv> 0x100"
abbreviation SIE :: u16 where "SIE \<equiv> 0x104"
abbreviation STVEC :: u16 where "STVEC \<equiv> 0x105"
abbreviation SCOUNTEREN :: u16 where "SCOUNTEREN \<equiv> 0x106"
abbreviation SSCRATCH :: u16 where "SSCRATCH \<equiv> 0x140"
abbreviation SEPC :: u16 where "SEPC \<equiv> 0x141"
abbreviation SCAUSE :: u16 where "SCAUSE \<equiv> 0x142"
abbreviation STVAL :: u16 where "STVAL \<equiv> 0x143"
abbreviation SIP :: u16 where "SIP \<equiv> 0x144"
abbreviation SATP :: u16 where "SATP \<equiv> 0x180"
abbreviation MSTATUS :: u16 where "MSTATUS \<equiv> 0x300"
abbreviation MISA :: u16 where "MISA \<equiv> 0x301"
abbreviation MEDELEG :: u16 where "MEDELEG \<equiv> 0x302"
abbreviation MIDELEG :: u16 where "MIDELEG \<equiv> 0x303"
abbreviation MIE :: u16 where "MIE \<equiv> 0x304"
abbreviation MTVEC :: u16 where "MTVEC \<equiv> 0x305"
abbreviation MCOUNTEREN :: u16 where "MCOUNTEREN \<equiv> 0x306"
abbreviation MSCRATCH :: u16 where "MSCRATCH \<equiv> 0x340"
abbreviation MEPC :: u16 where "MEPC \<equiv> 0x341"
abbreviation MCAUSE :: u16 where "MCAUSE \<equiv> 0x342"
abbreviation MTVAL :: u16 where "MTVAL \<equiv> 0x343"
abbreviation MIP :: u16 where "MIP \<equiv> 0x344"
abbreviation MHARTID :: u16 where "MHARTID \<equiv> 0xF14"
abbreviation PMPCFG0 :: u16 where "PMPCFG0 \<equiv> 0x3A0"
abbreviation PMPADDR0 :: u16 where "PMPADDR0 \<equiv> 0x3B0"

definition SSTATUS_MASK :: u64 where
  "SSTATUS_MASK =
     push_bit 63 1 OR push_bit 19 1 OR push_bit 18 1 OR push_bit 15 3 OR push_bit 13 3
     OR push_bit 8 1 OR push_bit 6 1 OR push_bit 5 1 OR push_bit 1 1"

definition S_IRQ_MASK :: u64 where
  "S_IRQ_MASK = push_bit 9 1 OR push_bit 5 1 OR push_bit 1 1"

definition MIP_W_MASK :: u64 where
  "MIP_W_MASK = push_bit 1 1 OR push_bit 3 1 OR push_bit 5 1 OR push_bit 9 1"

subsection \<open>The register record\<close>

record csr_file =
  mstatus :: u64
  misa :: u64
  medeleg :: u64
  mideleg :: u64
  mie :: u64
  mtvec :: u64
  mscratch :: u64
  mepc :: u64
  mcause :: u64
  mtval :: u64
  mip :: u64
  pmpcfg0 :: u64
  pmpaddr0 :: u64
  stvec :: u64
  sscratch :: u64
  sepc :: u64
  scause :: u64
  stval :: u64
  satp :: u64
  cycle :: u64
  instret :: u64
  fflags :: u8
  frm :: u8

definition csr_file_new :: csr_file where
  "csr_file_new =
     \<lparr>mstatus = 0,
      misa = 0x8000000000001129,
      medeleg = 0,
      mideleg = 0,
      mie = 0,
      mtvec = 0,
      mscratch = 0,
      mepc = 0,
      mcause = 0,
      mtval = 0,
      mip = 0,
      pmpcfg0 = 0,
      pmpaddr0 = 0,
      stvec = 0,
      sscratch = 0,
      sepc = 0,
      scause = 0,
      stval = 0,
      satp = 0,
      cycle = 0,
      instret = 0,
      fflags = 0, frm = 0\<rparr>"

definition csr_read :: "csr_file \<Rightarrow> u16 \<Rightarrow> u64 result" where
  "csr_read c addr =
    (if addr = FFLAGS then Inr (ucast (fflags c))
     else if addr = FRM then Inr (ucast (frm c))
     else if addr = FCSR then Inr (push_bit 5 (ucast (frm c)) OR ucast (fflags c))
     else if addr = CYCLE then Inr (cycle c)
     else if addr = TIME then Inr (cycle c)
     else if addr = INSTRET then Inr (instret c)
     else if addr = SSTATUS then Inr (mstatus c AND SSTATUS_MASK)
     else if addr = SIE then Inr (mie c AND S_IRQ_MASK)
     else if addr = STVEC then Inr (stvec c)
     else if addr = SCOUNTEREN then Inr (0)
     else if addr = SSCRATCH then Inr (sscratch c)
     else if addr = SEPC then Inr (sepc c)
     else if addr = SCAUSE then Inr (scause c)
     else if addr = STVAL then Inr (stval c)
     else if addr = SIP then Inr (mip c AND S_IRQ_MASK)
     else if addr = SATP then Inr (satp c)
     else if addr = MSTATUS then Inr (mstatus c)
     else if addr = MISA then Inr (misa c)
     else if addr = MEDELEG then Inr (medeleg c)
     else if addr = MIDELEG then Inr (mideleg c)
     else if addr = PMPCFG0 then Inr (pmpcfg0 c)
     else if addr = PMPADDR0 then Inr (pmpaddr0 c)
     else if addr = MIE then Inr (mie c)
     else if addr = MTVEC then Inr (mtvec c)
     else if addr = MCOUNTEREN then Inr (0)
     else if addr = MSCRATCH then Inr (mscratch c)
     else if addr = MEPC then Inr (mepc c)
     else if addr = MCAUSE then Inr (mcause c)
     else if addr = MTVAL then Inr (mtval c)
     else if addr = MIP then Inr (mip c)
     else if addr = MHARTID then Inr (0)
     else Inl (IllegalInstruction (ucast addr)))"

definition csr_write :: "csr_file \<Rightarrow> u16 \<Rightarrow> u64 \<Rightarrow> csr_file result" where
  "csr_write c addr val =
    (if addr = FFLAGS then Inr (c\<lparr>fflags := ucast (val AND 0x1F)\<rparr>)
     else if addr = FRM then Inr (c\<lparr>frm := ucast (val AND 0x07)\<rparr>)
     else if addr = FCSR then Inr (c\<lparr>fflags := ucast (val AND 0x1F), frm := ucast (drop_bit 5 val AND 0x07)\<rparr>)
     else if addr = CYCLE \<or> addr = INSTRET \<or> addr = MHARTID \<or> addr = MISA then Inr (c)
     else if addr = SSTATUS then Inr (c\<lparr>mstatus := (mstatus c AND NOT SSTATUS_MASK) OR (val AND SSTATUS_MASK)\<rparr>)
     else if addr = SIE then Inr (c\<lparr>mie := (mie c AND NOT S_IRQ_MASK) OR (val AND S_IRQ_MASK)\<rparr>)
     else if addr = STVEC then Inr (c\<lparr>stvec := val\<rparr>)
     else if addr = SCOUNTEREN then Inr (c)
     else if addr = SSCRATCH then Inr (c\<lparr>sscratch := val\<rparr>)
     else if addr = SEPC then Inr (c\<lparr>sepc := val AND NOT 0x3\<rparr>)
     else if addr = SCAUSE then Inr (c\<lparr>scause := val\<rparr>)
     else if addr = STVAL then Inr (c\<lparr>stval := val\<rparr>)
     else if addr = SIP then Inr (c\<lparr>mip := (mip c AND NOT (push_bit 1 1)) OR (val AND push_bit 1 1)\<rparr>)
     else if addr = SATP then Inr (let mode = drop_bit 60 val AND 0xF in
            if mode = 0 \<or> mode = 8 then c\<lparr>satp := val\<rparr>
            else c\<lparr>satp := val AND NOT (push_bit 60 0xF)\<rparr>)
     else if addr = MSTATUS then Inr (let mpp = drop_bit 11 val AND 0x3; mpp_legal = (if mpp = 2 then 3 else mpp) in
            c\<lparr>mstatus := (val AND NOT (push_bit 11 0x3)) OR push_bit 11 mpp_legal\<rparr>)
     else if addr = MIE then Inr (c\<lparr>mie := val\<rparr>)
     else if addr = MTVEC then Inr (c\<lparr>mtvec := val\<rparr>)
     else if addr = MCOUNTEREN then Inr (c)
     else if addr = MSCRATCH then Inr (c\<lparr>mscratch := val\<rparr>)
     else if addr = MEPC then Inr (c\<lparr>mepc := val AND NOT 0x3\<rparr>)
     else if addr = MCAUSE then Inr (c\<lparr>mcause := val\<rparr>)
     else if addr = MTVAL then Inr (c\<lparr>mtval := val\<rparr>)
     else if addr = PMPCFG0 then Inr (c\<lparr>pmpcfg0 := val\<rparr>)
     else if addr = PMPADDR0 then Inr (c\<lparr>pmpaddr0 := val\<rparr>)
     else if addr = MIP then Inr (c\<lparr>mip := (mip c AND NOT MIP_W_MASK) OR (val AND MIP_W_MASK)\<rparr>)
     else if addr = MEDELEG then Inr (c\<lparr>medeleg := val\<rparr>)
     else if addr = MIDELEG then Inr (c\<lparr>mideleg := val\<rparr>)
     else Inl (IllegalInstruction (ucast addr)))"

definition accumulate_fflags :: "u8 \<Rightarrow> csr_file \<Rightarrow> csr_file" where
  "accumulate_fflags flags c = c\<lparr>fflags := fflags c OR (flags AND 0x1F)\<rparr>"

definition rounding_mode :: "csr_file \<Rightarrow> u8" where
  "rounding_mode c = frm c"

definition increment_instret :: "csr_file \<Rightarrow> csr_file" where
  "increment_instret c = c\<lparr>instret := instret c + 1\<rparr>"

definition increment_cycle :: "csr_file \<Rightarrow> csr_file" where
  "increment_cycle c = c\<lparr>cycle := cycle c + 1\<rparr>"

subsection \<open>Snapshots for inspection\<close>

record csr_snapshot =
  sn_mstatus :: u64
  sn_misa :: u64
  sn_medeleg :: u64
  sn_mideleg :: u64
  sn_mie :: u64
  sn_mtvec :: u64
  sn_mscratch :: u64
  sn_mepc :: u64
  sn_mcause :: u64
  sn_mtval :: u64
  sn_mip :: u64
  sn_sstatus :: u64
  sn_stvec :: u64
  sn_sscratch :: u64
  sn_sepc :: u64
  sn_scause :: u64
  sn_stval :: u64
  sn_satp :: u64
  sn_pmpcfg0 :: u64
  sn_pmpaddr0 :: u64
  sn_cycle :: u64
  sn_instret :: u64
  sn_fflags :: u8
  sn_frm :: u8

definition csr_snapshot_of :: "csr_file \<Rightarrow> csr_snapshot" where
  "csr_snapshot_of c =
     \<lparr>sn_mstatus = mstatus c,
      sn_misa = misa c,
      sn_medeleg = medeleg c,
      sn_mideleg = mideleg c,
      sn_mie = mie c,
      sn_mtvec = mtvec c,
      sn_mscratch = mscratch c,
      sn_mepc = mepc c,
      sn_mcause = mcause c,
      sn_mtval = mtval c,
      sn_mip = mip c,
      sn_sstatus = mstatus c AND SSTATUS_MASK,
      sn_stvec = stvec c,
      sn_sscratch = sscratch c,
      sn_sepc = sepc c,
      sn_scause = scause c,
      sn_stval = stval c,
      sn_satp = satp c,
      sn_pmpcfg0 = pmpcfg0 c,
      sn_pmpaddr0 = pmpaddr0 c,
      sn_cycle = cycle c,
      sn_instret = instret c,
      sn_fflags = fflags c, sn_frm = frm c\<rparr>"

subsection \<open>The invariant of the CSR file\<close>

text \<open>\<open>csr_wf\<close>: \<open>MPP\<close> never holds the reserved encoding, the two exception program counters
  are word aligned, \<open>satp\<close> is in Bare or Sv39 mode and the floating-point fields fit their
  widths.\<close>

definition mpp_of :: "u64 \<Rightarrow> u64" where
  "mpp_of m = drop_bit 11 m AND 3"

definition satp_mode :: "u64 \<Rightarrow> u64" where
  "satp_mode v = drop_bit 60 v AND 0xF"

definition csr_wf :: "csr_file \<Rightarrow> bool" where
  "csr_wf c \<longleftrightarrow> mpp_of (mstatus c) \<noteq> 2 \<and> mepc c AND 3 = 0 \<and> sepc c AND 3 = 0
     \<and> (satp_mode (satp c) = 0 \<or> satp_mode (satp c) = 8)
     \<and> fflags c < 32 \<and> frm c < 8"

lemma mpp_of_eq_2 [bitfield]: "mpp_of m = 2 \<longleftrightarrow> bit m 12 \<and> \<not> bit m 11"
proof -
  have two: "bit (2 :: u64) n = (n = 1)" for n
    using bit_push_one [of 1 n, where 'a = 64] by simp
  show ?thesis unfolding mpp_of_def
  proof
    assume *: "drop_bit 11 m AND 3 = 2"
    have "bit (drop_bit 11 m AND 3) n = bit (2 :: u64) n" for n using * by simp
    from this [of 0] this [of 1] show "bit m 12 \<and> \<not> bit m 11"
      by (simp add: bit_simps bitfield two)
  next
    assume "bit m 12 \<and> \<not> bit m 11"
    then show "drop_bit 11 m AND 3 = 2"
      by (intro u64_eqI) (auto simp: bit_simps less_2_cases_iff bitfield two)
  qed
qed

lemma and_three_eq_0 [bitfield]: "w AND 3 = (0 :: u64) \<longleftrightarrow> \<not> bit w 0 \<and> \<not> bit w 1"
proof
  assume *: "w AND 3 = 0"
  have "\<not> bit (w AND 3) n" for n using * by simp
  from this [of 0] this [of 1] show "\<not> bit w 0 \<and> \<not> bit w 1"
    by (simp add: bit_simps bitfield)
next
  assume "\<not> bit w 0 \<and> \<not> bit w 1"
  then have "bit w n \<Longrightarrow> \<not> n < 2" for n by (metis One_nat_def less_2_cases)
  then show "w AND 3 = 0" by (intro u64_eqI) (auto simp: bit_simps bitfield)
qed

lemma and_not3_and3: "(w AND NOT 3) AND 3 = (0 :: u64)"
  by (simp add: and_three_eq_0 bit_simps)

declare and_not3_and3 [simplified, simp]

lemma SSTATUS_MASK_value: "SSTATUS_MASK = 0x80000000000DE162"
  by (simp add: SSTATUS_MASK_def)

lemma SSTATUS_MASK_mpp [simp]: "\<not> bit SSTATUS_MASK 11" "\<not> bit SSTATUS_MASK 12"
  by (simp_all add: SSTATUS_MASK_value)

lemma satp_mode_clear: "satp_mode (v AND NOT (push_bit 60 0xF)) = 0"
  unfolding satp_mode_def
proof (rule u64_eqI)
  fix n :: nat assume "n < 64"
  show "bit (drop_bit 60 (v AND NOT (push_bit 60 15)) AND 15) n = bit (0 :: u64) n"
    using \<open>n < 64\<close> by (auto simp: bit_simps bitfield)
qed

lemma csr_wf_new: "csr_wf csr_file_new"
  by (simp add: csr_wf_def csr_file_new_def mpp_of_def satp_mode_def)

lemma mpp_legal_neq_2:
  "mpp_of ((v AND NOT (push_bit 11 3)) OR
     push_bit 11 (if drop_bit 11 v AND 3 = 2 then 3 else drop_bit 11 v AND 3)) \<noteq> 2"
proof (cases "drop_bit 11 v AND 3 = 2")
  case True
  then show ?thesis by (simp add: mpp_of_eq_2 bit_simps bitfield)
next
  case False
  then have "\<not> (bit v 12 \<and> \<not> bit v 11)"
    using mpp_of_eq_2 [of v] by (simp add: mpp_of_def)
  with False show ?thesis by (auto simp: mpp_of_eq_2 bit_simps bitfield)
qed

lemma unat_ucast_and_le: "unat (ucast (v AND m :: u64) :: u8) \<le> unat m"
proof -
  have "unat (ucast (v AND m) :: u8) \<le> unat (v AND m)"
    by (simp add: unsigned_ucast_eq take_bit_nat_less_eq_self)
  also have "\<dots> \<le> unat m"
    using word_and_le1 [of v m] by (simp add: word_le_nat_alt)
  finally show ?thesis .
qed

lemma fflags_cast [simp]: "ucast (v AND 0x1F :: u64) < (32 :: u8)"
  and frm_cast [simp]: "ucast (v AND 7 :: u64) < (8 :: u8)"
  using unat_ucast_and_le [of v "0x1F"] unat_ucast_and_le [of v 7]
  by (simp_all add: word_less_nat_alt)

lemma csr_wf_mstatus:
  "csr_wf c \<Longrightarrow> mpp_of m \<noteq> 2 \<Longrightarrow> csr_wf (c\<lparr>mstatus := m\<rparr>)"
  by (simp add: csr_wf_def)

lemma csr_wf_other [simp]:
  "csr_wf (c\<lparr>stvec := v\<rparr>) = csr_wf c" "csr_wf (c\<lparr>mtvec := v\<rparr>) = csr_wf c"
  "csr_wf (c\<lparr>mie := v\<rparr>) = csr_wf c" "csr_wf (c\<lparr>mip := v\<rparr>) = csr_wf c"
  "csr_wf (c\<lparr>sscratch := v\<rparr>) = csr_wf c" "csr_wf (c\<lparr>mscratch := v\<rparr>) = csr_wf c"
  "csr_wf (c\<lparr>scause := v\<rparr>) = csr_wf c" "csr_wf (c\<lparr>mcause := v\<rparr>) = csr_wf c"
  "csr_wf (c\<lparr>stval := v\<rparr>) = csr_wf c" "csr_wf (c\<lparr>mtval := v\<rparr>) = csr_wf c"
  "csr_wf (c\<lparr>pmpcfg0 := v\<rparr>) = csr_wf c" "csr_wf (c\<lparr>pmpaddr0 := v\<rparr>) = csr_wf c"
  "csr_wf (c\<lparr>medeleg := v\<rparr>) = csr_wf c" "csr_wf (c\<lparr>mideleg := v\<rparr>) = csr_wf c"
  "csr_wf (c\<lparr>cycle := v\<rparr>) = csr_wf c" "csr_wf (c\<lparr>instret := v\<rparr>) = csr_wf c"
  by (simp_all add: csr_wf_def)

lemma csr_wf_epc [simp]:
  "csr_wf c \<Longrightarrow> v AND 3 = 0 \<Longrightarrow> csr_wf (c\<lparr>sepc := v\<rparr>)"
  "csr_wf c \<Longrightarrow> v AND 3 = 0 \<Longrightarrow> csr_wf (c\<lparr>mepc := v\<rparr>)"
  by (simp_all add: csr_wf_def)

lemma csr_wf_float [simp]:
  "csr_wf c \<Longrightarrow> f < 32 \<Longrightarrow> csr_wf (c\<lparr>fflags := f\<rparr>)"
  "csr_wf c \<Longrightarrow> m < 8 \<Longrightarrow> csr_wf (c\<lparr>frm := m\<rparr>)"
  "csr_wf c \<Longrightarrow> f < 32 \<Longrightarrow> m < 8 \<Longrightarrow> csr_wf (c\<lparr>fflags := f, frm := m\<rparr>)"
  by (simp_all add: csr_wf_def)

lemma mpp_of_sstatus:
  "mpp_of ((m AND NOT SSTATUS_MASK) OR (v AND SSTATUS_MASK)) = 2 \<longleftrightarrow> mpp_of m = 2"
  by (simp add: bitfield bit_simps)

lemma csr_wf_satp:
  "csr_wf c \<Longrightarrow> csr_wf (let mode = drop_bit 60 v AND 0xF in
     if mode = 0 \<or> mode = 8 then c\<lparr>satp := v\<rparr> else c\<lparr>satp := v AND NOT (push_bit 60 0xF)\<rparr>)"
  using satp_mode_clear [of v] by (auto simp: csr_wf_def Let_def satp_mode_def)

lemma csr_write_keeps_wf:
  assumes "csr_wf c" and "csr_write c addr val = Inr c'"
  shows "csr_wf c'"
proof -
  have sst: "csr_wf (c\<lparr>mstatus := (mstatus c AND NOT SSTATUS_MASK) OR (val AND SSTATUS_MASK)\<rparr>)"
    using assms(1) by (intro csr_wf_mstatus) (simp_all add: mpp_of_sstatus csr_wf_def)
  note mst = csr_wf_mstatus [OF assms(1) mpp_legal_neq_2 [of val]]
  note sat = csr_wf_satp [OF assms(1), of val]
  show ?thesis
    using assms(2) unfolding csr_write_def
    by (elim if_eqE) (use assms(1) sst mst sat in \<open>simp_all add: Let_def\<close>)
qed

text \<open>C33. Every CSR write that the machine accepts keeps the CSR file well formed: \<open>MPP\<close> is
  never the reserved encoding, the exception program counters stay aligned, \<open>satp\<close> stays in a
  supported mode and the floating-point status fields stay within their widths.\<close>

theorem csr_write_wf:
  assumes "csr_wf c" and "csr_write c addr val = Inr c'"
  shows "csr_wf c'"
  using assms by (rule csr_write_keeps_wf)

subsection \<open>Which reads a write can change\<close>

text \<open>The addresses that name the same stored state.\<close>

definition csr_alias :: "u16 \<Rightarrow> u16 \<Rightarrow> bool" where
  "csr_alias a b \<longleftrightarrow> a = b
     \<or> a \<in> {FFLAGS, FRM, FCSR} \<and> b \<in> {FFLAGS, FRM, FCSR}
     \<or> a \<in> {SSTATUS, MSTATUS} \<and> b \<in> {SSTATUS, MSTATUS}
     \<or> a \<in> {SIE, MIE} \<and> b \<in> {SIE, MIE}
     \<or> a \<in> {SIP, MIP} \<and> b \<in> {SIP, MIP}"

lemma csr_read_updates:
  "b \<noteq> SSTATUS \<Longrightarrow> b \<noteq> MSTATUS \<Longrightarrow> csr_read (c\<lparr>mstatus := v\<rparr>) b = csr_read c b"
  "b \<noteq> MISA \<Longrightarrow> csr_read (c\<lparr>misa := v\<rparr>) b = csr_read c b"
  "b \<noteq> MEDELEG \<Longrightarrow> csr_read (c\<lparr>medeleg := v\<rparr>) b = csr_read c b"
  "b \<noteq> MIDELEG \<Longrightarrow> csr_read (c\<lparr>mideleg := v\<rparr>) b = csr_read c b"
  "b \<noteq> SIE \<Longrightarrow> b \<noteq> MIE \<Longrightarrow> csr_read (c\<lparr>mie := v\<rparr>) b = csr_read c b"
  "b \<noteq> MTVEC \<Longrightarrow> csr_read (c\<lparr>mtvec := v\<rparr>) b = csr_read c b"
  "b \<noteq> MSCRATCH \<Longrightarrow> csr_read (c\<lparr>mscratch := v\<rparr>) b = csr_read c b"
  "b \<noteq> MEPC \<Longrightarrow> csr_read (c\<lparr>mepc := v\<rparr>) b = csr_read c b"
  "b \<noteq> MCAUSE \<Longrightarrow> csr_read (c\<lparr>mcause := v\<rparr>) b = csr_read c b"
  "b \<noteq> MTVAL \<Longrightarrow> csr_read (c\<lparr>mtval := v\<rparr>) b = csr_read c b"
  "b \<noteq> SIP \<Longrightarrow> b \<noteq> MIP \<Longrightarrow> csr_read (c\<lparr>mip := v\<rparr>) b = csr_read c b"
  "b \<noteq> PMPCFG0 \<Longrightarrow> csr_read (c\<lparr>pmpcfg0 := v\<rparr>) b = csr_read c b"
  "b \<noteq> PMPADDR0 \<Longrightarrow> csr_read (c\<lparr>pmpaddr0 := v\<rparr>) b = csr_read c b"
  "b \<noteq> STVEC \<Longrightarrow> csr_read (c\<lparr>stvec := v\<rparr>) b = csr_read c b"
  "b \<noteq> SSCRATCH \<Longrightarrow> csr_read (c\<lparr>sscratch := v\<rparr>) b = csr_read c b"
  "b \<noteq> SEPC \<Longrightarrow> csr_read (c\<lparr>sepc := v\<rparr>) b = csr_read c b"
  "b \<noteq> SCAUSE \<Longrightarrow> csr_read (c\<lparr>scause := v\<rparr>) b = csr_read c b"
  "b \<noteq> STVAL \<Longrightarrow> csr_read (c\<lparr>stval := v\<rparr>) b = csr_read c b"
  "b \<noteq> SATP \<Longrightarrow> csr_read (c\<lparr>satp := v\<rparr>) b = csr_read c b"
  "b \<noteq> FFLAGS \<Longrightarrow> b \<noteq> FCSR \<Longrightarrow> csr_read (c\<lparr>fflags := v8\<rparr>) b = csr_read c b"
  "b \<noteq> FRM \<Longrightarrow> b \<noteq> FCSR \<Longrightarrow> csr_read (c\<lparr>frm := v8\<rparr>) b = csr_read c b"
  by (simp_all add: csr_read_def)

lemma csr_read_fcsr_update:
  "b \<noteq> FFLAGS \<Longrightarrow> b \<noteq> FRM \<Longrightarrow> b \<noteq> FCSR \<Longrightarrow>
   csr_read (c\<lparr>fflags := f, frm := m\<rparr>) b = csr_read c b"
  by (simp add: csr_read_def)

text \<open>A CSR write changes only what its own register, or a register that aliases the same
  state (\<open>sstatus\<close>/\<open>mstatus\<close>, \<open>sie\<close>/\<open>mie\<close>, \<open>sip\<close>/\<open>mip\<close>, the three float
  registers), reads back: every other CSR reads as before.\<close>

theorem csr_write_frame:
  assumes "csr_write c a v = Inr c'" and "\<not> csr_alias a b"
  shows "csr_read c' b = csr_read c b"
  using assms(1) unfolding csr_write_def
  by (elim if_eqE)
    (use assms(2) in \<open>simp_all add: csr_alias_def csr_read_updates csr_read_fcsr_update Let_def\<close>)

theorem csr_write_frame_witness:
  "csr_read (csr_file_new\<lparr>mtvec := 0x100\<rparr>) MEPC = csr_read csr_file_new MEPC"
  using csr_write_frame [of csr_file_new MTVEC "0x100" "csr_file_new\<lparr>mtvec := 0x100\<rparr>" MEPC]
  by (simp add: csr_write_def csr_alias_def)

theorem csr_write_wf_witness:
  "csr_wf csr_file_new \<and> csr_write csr_file_new MSTATUS 0x1000 = Inr (csr_file_new\<lparr>mstatus := 0x1800\<rparr>)
   \<and> csr_wf (csr_file_new\<lparr>mstatus := 0x1800\<rparr>)"
proof -
  have w: "csr_write csr_file_new MSTATUS 0x1000 = Inr (csr_file_new\<lparr>mstatus := 0x1800\<rparr>)"
    by (simp add: csr_write_def Let_def)
  show ?thesis using w csr_wf_new csr_write_wf [OF csr_wf_new w] by simp
qed

subsection \<open>CSRs as masked registers\<close>

text \<open>The reference view: each address is a 64-bit register of which software can change the
  bits of a fixed mask, and the rest keep their value.\<close>

definition csr_wmask :: "u16 \<Rightarrow> u64" where
  "csr_wmask a =
     (if a = FFLAGS then 0x1F else if a = FRM then 7 else if a = FCSR then 0xFF
      else if a \<in> {CYCLE, INSTRET, MHARTID, MISA, SCOUNTEREN, MCOUNTEREN} then 0
      else if a = SSTATUS then SSTATUS_MASK else if a = SIE then S_IRQ_MASK
      else if a = SIP then 2 else if a = MIP then MIP_W_MASK
      else if a = SEPC \<or> a = MEPC then NOT 3 else - 1)"

definition csr_masked_write :: "u64 \<Rightarrow> u64 \<Rightarrow> u64 \<Rightarrow> u64" where
  "csr_masked_write old m v = (old AND NOT m) OR (v AND m)"

lemma csr_read_float:
  assumes "csr_wf c"
  shows "csr_read (c\<lparr>fflags := ucast (v AND 0x1F), frm := ucast (drop_bit 5 v AND 7)\<rparr>) FCSR
     = Inr (v AND 0xFF)"
proof -
  have "push_bit 5 (ucast (ucast (drop_bit 5 v AND 7) :: u8)) OR ucast (ucast (v AND 0x1F) :: u8)
      = (v AND 0xFF :: u64)"
    by (rule u64_eqI) (auto simp: bit_simps bitfield)
  then show ?thesis by (simp add: csr_read_def)
qed

lemma float_fields_small:
  "fflags c < 32 \<Longrightarrow> ucast (fflags c) AND NOT 0x1F = (0 :: u64)"
  "frm c < 8 \<Longrightarrow> ucast (frm c) AND NOT 7 = (0 :: u64)"
  "fflags c < 32 \<Longrightarrow> frm c < 8 \<Longrightarrow>
     (push_bit 5 (ucast (frm c)) OR ucast (fflags c)) AND NOT 0xFF = (0 :: u64)"
proof -
  have small: "\<not> bit w n" if "unat w < 2 ^ k" "k \<le> n" for w :: u8 and k n
    using that bit_imp_exp_le_unat [of w n] power_increasing [of k n "2 :: nat"] by fastforce
  have s5: "\<not> bit w n" if "w < 32" "5 \<le> n" for w :: u8 and n
    using small [of w 5 n] that by (simp add: word_less_nat_alt)
  have s3: "\<not> bit w n" if "w < 8" "3 \<le> n" for w :: u8 and n
    using small [of w 3 n] that by (simp add: word_less_nat_alt)
  show "fflags c < 32 \<Longrightarrow> ucast (fflags c) AND NOT 0x1F = (0 :: u64)"
    by (rule u64_eqI) (use s5 in \<open>auto simp: bit_simps bitfield not_less\<close>)
  show "frm c < 8 \<Longrightarrow> ucast (frm c) AND NOT 7 = (0 :: u64)"
    by (rule u64_eqI) (use s3 in \<open>auto simp: bit_simps bitfield not_less\<close>)
  show "fflags c < 32 \<Longrightarrow> frm c < 8 \<Longrightarrow>
     (push_bit 5 (ucast (frm c)) OR ucast (fflags c)) AND NOT 0xFF = (0 :: u64)"
    by (rule u64_eqI) (use s5 s3 in \<open>auto simp: bit_simps bitfield not_less\<close>)
qed

lemma and_ucast_mask:
  "ucast (ucast (v AND 0x1F :: u64) :: u8) = (v AND 0x1F :: u64)"
  "ucast (ucast (v AND 7 :: u64) :: u8) = (v AND 7 :: u64)"
  by (rule u64_eqI, auto simp: bit_simps bitfield)+

lemma fcsr_fields: "(push_bit 5 (drop_bit 5 v) AND 0xE0) OR (v AND 0x1F) = (v AND 0xFF :: u64)"
proof (rule u64_eqI)
  fix n :: nat assume "n < 64"
  have "bit (push_bit 5 7 :: u64) n = (5 \<le> n \<and> n < 8)"
    by (simp only: bit_push_bit_iff) (use \<open>n < 64\<close> in \<open>auto simp: bitfield\<close>)
  then have "bit (0xE0 :: u64) n = (5 \<le> n \<and> n < 8)" by simp
  with \<open>n < 64\<close> show "bit ((push_bit 5 (drop_bit 5 v) AND 0xE0) OR (v AND 0x1F)) n = bit (v AND 0xFF) n"
    by (auto simp: bit_simps bitfield)
qed

lemma sip_view:
  "((m AND NOT (push_bit 1 1)) OR (v AND push_bit 1 1)) AND S_IRQ_MASK
   = ((m AND S_IRQ_MASK) AND NOT (push_bit 1 1)) OR (v AND push_bit 1 1 :: u64)"
  by (rule u64_eqI) (auto simp: bit_simps S_IRQ_MASK_def)

lemma mask_twice: "((old AND NOT m) OR (v AND m)) AND m = (v AND m :: u64)"
  "(old AND m) AND NOT m = (0 :: u64)"
  by (rule u64_eqI, auto simp: bit_simps)+

text \<open>The two registers whose fields are legalised: \<open>mstatus\<close> turns the reserved encoding 2 of
  \<open>MPP\<close> into 3 by setting its low bit, and \<open>satp\<close> keeps only the low 60 bits of a value whose
  mode is neither Bare nor Sv39.\<close>

definition legal_mstatus :: "u64 \<Rightarrow> u64" where
  "legal_mstatus v = (if mpp_of v = 2 then v OR push_bit 11 1 else v)"

definition legal_satp :: "u64 \<Rightarrow> u64" where
  "legal_satp v = (if satp_mode v \<in> {0, 8} then v else take_bit 60 v)"

definition csr_after :: "u16 \<Rightarrow> u64 \<Rightarrow> u64 \<Rightarrow> u64" where
  "csr_after a old v =
     (if a = MSTATUS then legal_mstatus v else if a = SATP then legal_satp v
      else csr_masked_write old (csr_wmask a) v)"

lemma legal_mstatus_write:
  "((v AND NOT (push_bit 11 3)) OR
     push_bit 11 (if drop_bit 11 v AND 3 = 2 then 3 else drop_bit 11 v AND 3)) = legal_mstatus v"
proof (cases "mpp_of v = 2")
  case True
  then have b: "bit v 12" "\<not> bit v 11" by (simp_all add: mpp_of_eq_2)
  have "(v AND NOT (push_bit 11 3)) OR push_bit 11 3 = v OR push_bit 11 1"
    by (rule u64_eqI) (use b in \<open>auto simp: bit_simps bitfield less_Suc_eq numeral_eq_Suc\<close>)
  with True show ?thesis by (simp add: legal_mstatus_def mpp_of_def)
next
  case False
  have m: "bit (push_bit 11 3 :: u64) n = (n \<in> {11, 12})" if "n < 64" for n
    by (simp only: bit_push_bit_iff) (use that in \<open>auto simp: bitfield\<close>)
  have "(v AND NOT (push_bit 11 3)) OR push_bit 11 (drop_bit 11 v AND 3) = v"
  proof (rule u64_eqI)
    fix n :: nat assume n: "n < 64"
    show "bit ((v AND NOT (push_bit 11 3)) OR push_bit 11 (drop_bit 11 v AND 3)) n = bit v n"
      by (simp only: bit_or_iff bit_and_iff bit_not_iff m [OF n])
        (use n in \<open>auto simp: bit_simps bitfield\<close>)
  qed
  with False show ?thesis by (simp add: legal_mstatus_def mpp_of_def)
qed

lemma legal_satp_write:
  "(if drop_bit 60 v AND 0xF = 0 \<or> drop_bit 60 v AND 0xF = 8 then v else v AND NOT (push_bit 60 0xF))
   = legal_satp v"
proof -
  have m: "bit (push_bit 60 0xF :: u64) n = (60 \<le> n)" if "n < 64" for n
    by (simp only: bit_push_bit_iff) (use that in \<open>auto simp: bitfield\<close>)
  have "v AND NOT (push_bit 60 0xF) = take_bit 60 v"
  proof (rule u64_eqI)
    fix n :: nat assume n: "n < 64"
    show "bit (v AND NOT (push_bit 60 0xF)) n = bit (take_bit 60 v) n"
      by (simp only: bit_and_iff bit_not_iff m [OF n]) (use n in \<open>auto simp: bit_simps\<close>)
  qed
  then show ?thesis by (simp add: legal_satp_def satp_mode_def)
qed

lemma csr_write_read_legal:
  assumes "csr_write c a val = Inr c'" "a = MSTATUS \<or> a = SATP"
  shows "csr_read c' a = Inr (csr_after a old val)"
  using assms(2)
proof
  assume a: "a = MSTATUS"
  then have "c' = c\<lparr>mstatus := legal_mstatus val\<rparr>"
    using assms(1) unfolding legal_mstatus_write [symmetric] by (simp add: csr_write_def Let_def)
  with a show ?thesis by (simp add: csr_read_def csr_after_def)
next
  assume a: "a = SATP"
  then have "c' = c\<lparr>satp := legal_satp val\<rparr>"
    using assms(1) unfolding legal_satp_write [symmetric] by (auto simp: csr_write_def Let_def)
  with a show ?thesis by (simp add: csr_read_def csr_after_def)
qed

lemma csr_write_read_mask:
  assumes "csr_wf c" and "csr_write c a val = Inr c'" and "csr_read c a = Inr old"
    and "a \<noteq> MSTATUS" "a \<noteq> SATP"
  shows "csr_read c' a = Inr (csr_masked_write old (csr_wmask a) val)"
proof -
  have fl: "ucast (fflags c) AND NOT 0x1F = (0 :: u64)" "ucast (frm c) AND NOT 7 = (0 :: u64)"
    "(push_bit 5 (ucast (frm c)) OR ucast (fflags c)) AND NOT 0xFF = (0 :: u64)"
    using assms(1) float_fields_small [of c] by (simp_all add: csr_wf_def)
  have pc: "sepc c AND 3 = 0" "mepc c AND 3 = 0"
    using assms(1) by (simp_all add: csr_wf_def)
  note [simp] = csr_masked_write_def csr_wmask_def csr_read_def and_ucast_mask mask_twice
    fcsr_fields sip_view [simplified]
  show ?thesis
    using assms(2) unfolding csr_write_def
    by (elim if_eqE disjE) (use assms(3) [symmetric] assms(4,5) fl pc in \<open>simp_all\<close>)
qed



end
