(* ===== verification/Traps.thy ===== *)
theory Traps
  imports Registers Csr
begin

text \<open>
  Trap entry and return (\<open>crates/virtual-machine/src/cpu/traps.rs\<close>). \<open>take_trap\<close> saves the
  state into the machine or the supervisor CSRs, depending on the delegation registers, and gives
  the handler address; \<open>handle_mret\<close> and \<open>handle_sret\<close> undo it. The lemmas show where a trap
  is delivered, that privilege never drops on entry, that the handler address is aligned, and
  that a return undoes an entry.
\<close>

abbreviation (input) CAUSE_INSN_ACCESS_FAULT :: u64 where "CAUSE_INSN_ACCESS_FAULT \<equiv> 1"
abbreviation (input) CAUSE_ILLEGAL_INSN :: u64 where "CAUSE_ILLEGAL_INSN \<equiv> 2"
abbreviation (input) CAUSE_EBREAK :: u64 where "CAUSE_EBREAK \<equiv> 3"
abbreviation (input) CAUSE_LOAD_ACCESS_FAULT :: u64 where "CAUSE_LOAD_ACCESS_FAULT \<equiv> 5"
abbreviation (input) CAUSE_STORE_ACCESS_FAULT :: u64 where "CAUSE_STORE_ACCESS_FAULT \<equiv> 7"
abbreviation (input) CAUSE_ECALL_U :: u64 where "CAUSE_ECALL_U \<equiv> 8"
abbreviation (input) CAUSE_ECALL_S :: u64 where "CAUSE_ECALL_S \<equiv> 9"
abbreviation (input) CAUSE_ECALL_M :: u64 where "CAUSE_ECALL_M \<equiv> 11"
abbreviation (input) CAUSE_PAGE_FAULT_INST :: u64 where "CAUSE_PAGE_FAULT_INST \<equiv> 12"
abbreviation (input) CAUSE_PAGE_FAULT_LOAD :: u64 where "CAUSE_PAGE_FAULT_LOAD \<equiv> 13"
abbreviation (input) CAUSE_PAGE_FAULT_STORE :: u64 where "CAUSE_PAGE_FAULT_STORE \<equiv> 15"

subsection \<open>Trap entry\<close>

definition is_interrupt :: "u64 \<Rightarrow> bool" where
  "is_interrupt cause \<longleftrightarrow> cause AND push_bit 63 1 \<noteq> 0"

definition cause_index :: "u64 \<Rightarrow> u64" where
  "cause_index cause = cause AND NOT (push_bit 63 1)"

text \<open>A release build masks the shift amount of a \<open>u64\<close> to its low six bits.\<close>

definition delegates :: "registers \<Rightarrow> csr_file \<Rightarrow> u64 \<Rightarrow> bool" where
  "delegates r c cause =
     (case priv_mode r of
        Machine \<Rightarrow> False
      | _ \<Rightarrow>
         (if is_interrupt cause then drop_bit (unat (cause_index cause) mod 64) (mideleg c) AND 1 = 1
          else drop_bit (unat (cause_index cause) mod 64) (medeleg c) AND 1 = 1))"

definition vector_base :: "u64 \<Rightarrow> u64 \<Rightarrow> u64" where
  "vector_base tvec cause =
     (let base = tvec AND NOT 3 in
      if tvec AND 3 = 1 \<and> is_interrupt cause then base + 4 * cause_index cause else base)"

definition take_trap ::
  "registers \<Rightarrow> csr_file \<Rightarrow> u64 \<Rightarrow> u64 \<Rightarrow> u64 \<Rightarrow> u64 \<times> registers \<times> csr_file" where
  "take_trap r c cause tval pc =
     (if delegates r c cause then
        let sie = drop_bit 1 (mstatus c) AND 1;
            m1 = (mstatus c AND NOT (push_bit 5 1)) OR push_bit 5 sie;
            m2 = m1 AND NOT (push_bit 1 1);
            spp = (if priv_mode r \<noteq> User then 1 else 0);
            m3 = (m2 AND NOT (push_bit 8 1)) OR push_bit 8 spp
        in (vector_base (stvec c) cause,
            r\<lparr>priv_mode := Supervisor\<rparr>,
            c\<lparr>sepc := pc AND NOT 3, scause := cause, stval := tval, mstatus := m3\<rparr>)
      else
        let mie = drop_bit 3 (mstatus c) AND 1;
            m1 = (mstatus c AND NOT (push_bit 7 1)) OR push_bit 7 mie;
            m2 = m1 AND NOT (push_bit 3 1);
            m3 = (m2 AND NOT (push_bit 11 3)) OR push_bit 11 (priv_num (priv_mode r))
        in (vector_base (mtvec c) cause,
            r\<lparr>priv_mode := Machine\<rparr>,
            c\<lparr>mepc := pc AND NOT 3, mcause := cause, mtval := tval, mstatus := m3\<rparr>))"

fun error_to_trap_cause :: "vm_error \<Rightarrow> (u64 \<times> u64) option" where
  "error_to_trap_cause (InstructionAccessFault a) = Some (CAUSE_INSN_ACCESS_FAULT, a)"
| "error_to_trap_cause (IllegalInstruction w) = Some (CAUSE_ILLEGAL_INSN, ucast w)"
| "error_to_trap_cause (LoadAccessFault a) = Some (CAUSE_LOAD_ACCESS_FAULT, a)"
| "error_to_trap_cause (BusError a) = Some (CAUSE_LOAD_ACCESS_FAULT, a)"
| "error_to_trap_cause (StoreAccessFault a) = Some (CAUSE_STORE_ACCESS_FAULT, a)"
| "error_to_trap_cause (InstructionPageFault a) = Some (CAUSE_PAGE_FAULT_INST, a)"
| "error_to_trap_cause (LoadPageFault a) = Some (CAUSE_PAGE_FAULT_LOAD, a)"
| "error_to_trap_cause (StorePageFault a) = Some (CAUSE_PAGE_FAULT_STORE, a)"
| "error_to_trap_cause _ = None"

subsection \<open>Trap return\<close>

definition mpp_mode :: "u64 \<Rightarrow> privilege_mode" where
  "mpp_mode m = (if mpp_of m = 0 then User else if mpp_of m = 1 then Supervisor else Machine)"

definition handle_mret :: "registers \<Rightarrow> csr_file \<Rightarrow> u64 \<times> registers \<times> csr_file" where
  "handle_mret r c =
     (let mpie = drop_bit 7 (mstatus c) AND 1;
          m1 = (mstatus c AND NOT (push_bit 3 1)) OR push_bit 3 mpie;
          m2 = m1 OR push_bit 7 1;
          prev = mpp_mode m2;
          m3 = m2 AND NOT (push_bit 11 3);
          m4 = (if prev \<noteq> Machine then m3 AND NOT (push_bit 17 1) else m3)
      in (mepc c, r\<lparr>priv_mode := prev\<rparr>, c\<lparr>mstatus := m4\<rparr>))"

definition handle_sret :: "registers \<Rightarrow> csr_file \<Rightarrow> u64 result \<times> registers \<times> csr_file" where
  "handle_sret r c =
     (if priv_mode r = User then (Inl (IllegalInstruction 0x10200073), r, c)
      else if priv_mode r = Supervisor \<and> drop_bit 22 (mstatus c) AND 1 = 1
      then (Inl (IllegalInstruction 0x10200073), r, c)
      else
        let spie = drop_bit 5 (mstatus c) AND 1;
            m1 = (mstatus c AND NOT (push_bit 1 1)) OR push_bit 1 spie;
            m2 = m1 OR push_bit 5 1;
            spp = drop_bit 8 m2 AND 1;
            prev = (if spp = 0 then User else Supervisor);
            m3 = m2 AND NOT (push_bit 8 1);
            m4 = m3 AND NOT (push_bit 17 1)
        in (Inr (sepc c), r\<lparr>priv_mode := prev\<rparr>, c\<lparr>mstatus := m4\<rparr>))"

subsection \<open>Bits of the status register across a trap\<close>

lemma is_interrupt_bit: "is_interrupt cause = bit cause 63"
  unfolding is_interrupt_def and_push_one_eq_0 by simp

lemma priv_num_bits:
  "bit (priv_num m) 0 = (m \<noteq> User)" "bit (priv_num m) 1 = (m = Machine)"
  "2 \<le> n \<Longrightarrow> \<not> bit (priv_num m) n"
  by (cases m; auto simp: bitfield bit_1_iff)+

lemma mpp_mode_bits:
  "mpp_mode m = (if bit m 12 then Machine else if bit m 11 then Supervisor else User)"
  unfolding mpp_mode_def mpp_of_def and_three_word
  by (cases "bit m 11"; cases "bit m 12") (simp_all add: bit_drop_bit_eq)

lemma spp_mode_bit:
  "(if drop_bit 8 m AND (1 :: u64) = 0 then User else Supervisor) = (if bit m 8 then Supervisor else User)"
  by (simp only: drop_and_one) simp

text \<open>The rest of the theory reads the updated \<open>mstatus\<close> bit by bit.\<close>

abbreviation (input) status_mentry :: "u64 \<Rightarrow> privilege_mode \<Rightarrow> u64" where
  "status_mentry m p \<equiv>
    ((((m AND NOT (push_bit 7 1)) OR push_bit 7 (drop_bit 3 m AND 1))
       AND NOT (push_bit 3 1)) AND NOT (push_bit 11 3)) OR push_bit 11 (priv_num p)"

abbreviation (input) status_sentry :: "u64 \<Rightarrow> bool \<Rightarrow> u64" where
  "status_sentry m b \<equiv>
    ((((m AND NOT (push_bit 5 1)) OR push_bit 5 (drop_bit 1 m AND 1))
       AND NOT (push_bit 1 1)) AND NOT (push_bit 8 1)) OR push_bit 8 (if b then 1 else 0)"

lemma bit_status_mentry:
  assumes "n < 64"
  shows "bit (status_mentry m p) n =
    (if n = 12 then p = Machine else if n = 11 then p \<noteq> User else if n = 7 then bit m 3
     else if n = 3 then False else bit m n)"
proof -
  have "bit (push_bit 11 (priv_num p)) n =
     (if n = 12 then p = Machine else if n = 11 then p \<noteq> User else False)"
    using assms priv_num_bits(3) [of "n - 11" p]
    by (auto simp: bit_push_bit_iff priv_num_bits simp flip: One_nat_def)
  then show ?thesis
    using assms unfolding bit_fields by auto
qed

lemma bit_status_sentry:
  assumes "n < 64"
  shows "bit (status_sentry m b) n =
    (if n = 8 then b else if n = 5 then bit m 1 else if n = 1 then False else bit m n)"
proof -
  have "(if b then 1 else 0) = (of_bool b :: u64)" by simp
  then show ?thesis
    using assms by (simp only: bit_fields) auto
qed

lemma bit_status_mret:
  assumes "n < 64"
  shows "bit (((m AND NOT (push_bit 3 1)) OR push_bit 3 (drop_bit 7 m AND 1)) OR push_bit 7 1 :: u64) n =
    (if n = 3 then bit m 7 else if n = 7 then True else bit m n)"
  using assms unfolding bit_fields by auto

lemma bit_status_sret:
  assumes "n < 64"
  shows "bit (((m AND NOT (push_bit 1 1)) OR push_bit 1 (drop_bit 5 m AND 1)) OR push_bit 5 1 :: u64) n =
    (if n = 1 then bit m 5 else if n = 5 then True else bit m n)"
  using assms unfolding bit_fields by auto

lemma bit_clear_mprv: "n < 64 \<Longrightarrow> bit (m AND NOT (push_bit 17 1) :: u64) n = (n \<noteq> 17 \<and> bit m n)"
  unfolding bit_fields by auto

lemma bit_clear_mpp:
  "n < 64 \<Longrightarrow> bit (m AND NOT (push_bit 11 3) :: u64) n = (n \<noteq> 11 \<and> n \<noteq> 12 \<and> bit m n)"
  unfolding bit_fields by auto

lemma bit_clear_spp: "n < 64 \<Longrightarrow> bit (m AND NOT (push_bit 8 1) :: u64) n = (n \<noteq> 8 \<and> bit m n)"
  unfolding bit_fields by auto

lemmas bit_status =
  bit_status_mentry bit_status_sentry bit_status_mret bit_status_sret
  bit_clear_mprv bit_clear_mpp bit_clear_spp

subsection \<open>Delivery\<close>

lemma take_trap_M:
  assumes "\<not> delegates r c cause"
  obtains m where "take_trap r c cause tval pc =
      (vector_base (mtvec c) cause, r\<lparr>priv_mode := Machine\<rparr>,
       c\<lparr>mepc := pc AND NOT 3, mcause := cause, mtval := tval, mstatus := m\<rparr>)"
    and "\<And>n. n < 64 \<Longrightarrow> bit m n =
      (if n = 12 then priv_mode r = Machine else if n = 11 then priv_mode r \<noteq> User
       else if n = 7 then bit (mstatus c) 3 else if n = 3 then False else bit (mstatus c) n)"
  using assms by (intro that [of "status_mentry (mstatus c) (priv_mode r)"] bit_status_mentry)
    (simp_all only: take_trap_def Let_def if_False)

lemma take_trap_S:
  assumes "delegates r c cause"
  obtains m where "take_trap r c cause tval pc =
      (vector_base (stvec c) cause, r\<lparr>priv_mode := Supervisor\<rparr>,
       c\<lparr>sepc := pc AND NOT 3, scause := cause, stval := tval, mstatus := m\<rparr>)"
    and "\<And>n. n < 64 \<Longrightarrow> bit m n =
      (if n = 8 then priv_mode r \<noteq> User else if n = 5 then bit (mstatus c) 1
       else if n = 1 then False else bit (mstatus c) n)"
  using assms by (intro that [of "status_sentry (mstatus c) (priv_mode r \<noteq> User)"] bit_status_sentry)
    (simp_all only: take_trap_def Let_def if_True)

lemma and_three_multiple: "(4 * x :: u64) AND 3 = 0"
proof -
  have "4 * x = push_bit 2 x" by (simp add: push_bit_eq_mult)
  then show ?thesis by (simp add: and_three_eq_0 bit_simps)
qed

lemma multiple_of_four:
  assumes "(a :: u64) AND 3 = 0"
  shows "a = 4 * drop_bit 2 a"
proof -
  have "a = push_bit 2 (drop_bit 2 a)"
  proof (rule u64_eqI)
    fix n :: nat assume "n < 64"
    have "n = 0 \<or> n = 1 \<or> Suc (Suc (n - 2)) = n" by arith
    with assms \<open>n < 64\<close> show "bit a n = bit (push_bit 2 (drop_bit 2 a)) n"
      by (elim disjE) (auto simp: and_three_eq_0 bit_simps)
  qed
  then show ?thesis by (simp add: push_bit_eq_mult mult.commute)
qed

lemma vector_base_aligned: "vector_base tvec cause AND 3 = 0"
proof -
  have "(tvec AND NOT 3) AND 3 = 0" by (simp only: and_not3_and3)
  then have "tvec AND NOT 3 = 4 * drop_bit 2 (tvec AND NOT 3)" by (rule multiple_of_four)
  then have "vector_base tvec cause \<in> range (\<lambda>x. 4 * x)"
    unfolding vector_base_def Let_def
    by (metis (no_types, lifting) distrib_left rangeI)
  then show ?thesis using and_three_multiple by auto
qed

lemma handle_sret_ok:
  assumes "priv_mode r = Supervisor" "\<not> bit (mstatus c) 22"
  shows "handle_sret r c =
    (let m2 = (((mstatus c AND NOT (push_bit 1 1)) OR push_bit 1 (drop_bit 5 (mstatus c) AND 1))
               OR push_bit 5 1)
     in (Inr (sepc c), r\<lparr>priv_mode := (if bit m2 8 then Supervisor else User)\<rparr>,
         c\<lparr>mstatus := (m2 AND NOT (push_bit 8 1)) AND NOT (push_bit 17 1)\<rparr>))"
proof -
  have "\<not> (priv_mode r = Supervisor \<and> drop_bit 22 (mstatus c) AND 1 = 1)"
    using assms by (simp only: drop_and_one) simp
  moreover have "priv_mode r \<noteq> User" using assms by simp
  ultimately show ?thesis
    by (simp only: handle_sret_def Let_def spp_mode_bit if_False)
qed

lemma take_trap_entry:
  assumes "csr_wf c" and "take_trap r c cause tval pc = (h, r', c')"
  shows "h AND 3 = 0 \<and> priv_num (priv_mode r) \<le> priv_num (priv_mode r') \<and> priv_mode r' \<noteq> User
    \<and> r' = r\<lparr>priv_mode := priv_mode r'\<rparr>
    \<and> \<not> bit (mstatus c') (if priv_mode r' = Machine then 3 else 1)
    \<and> csr_wf c'"
proof (cases "delegates r c cause")
  case True
  then obtain m where t: "take_trap r c cause tval pc =
      (vector_base (stvec c) cause, r\<lparr>priv_mode := Supervisor\<rparr>,
       c\<lparr>sepc := pc AND NOT 3, scause := cause, stval := tval, mstatus := m\<rparr>)"
    and b: "\<And>n. n < 64 \<Longrightarrow> bit m n = (if n = 8 then priv_mode r \<noteq> User
       else if n = 5 then bit (mstatus c) 1 else if n = 1 then False else bit (mstatus c) n)"
    by (rule take_trap_S) blast
  have "priv_mode r \<noteq> Machine" using True by (auto simp: delegates_def)
  then have "priv_num (priv_mode r) \<le> 1" by (cases "priv_mode r") auto
  moreover have "mpp_of m \<noteq> 2"
    using assms(1) by (simp add: mpp_of_eq_2 b csr_wf_def)
  ultimately show ?thesis
    using assms t by (auto simp: vector_base_aligned b [of 1, simplified] csr_wf_mstatus)
next
  case False
  then obtain m where t: "take_trap r c cause tval pc =
      (vector_base (mtvec c) cause, r\<lparr>priv_mode := Machine\<rparr>,
       c\<lparr>mepc := pc AND NOT 3, mcause := cause, mtval := tval, mstatus := m\<rparr>)"
    and b: "\<And>n. n < 64 \<Longrightarrow> bit m n = (if n = 12 then priv_mode r = Machine
       else if n = 11 then priv_mode r \<noteq> User
       else if n = 7 then bit (mstatus c) 3 else if n = 3 then False else bit (mstatus c) n)"
    by (rule take_trap_M) blast
  have "priv_num (priv_mode r) \<le> 3" by (cases "priv_mode r") auto
  moreover have "mpp_of m \<noteq> 2"
    by (simp add: mpp_of_eq_2 b)
  ultimately show ?thesis
    using assms t by (auto simp: vector_base_aligned b [of 3, simplified] csr_wf_mstatus)
qed

text \<open>C26. Trap entry is safe whatever the state and the cause: the handler address is four-byte
  aligned, the new privilege mode is at least the old one and never below supervisor, the
  interrupt enable of the mode that takes the trap is cleared, the general registers and the pc
  are untouched, and the CSR file stays well formed.\<close>

theorem take_trap_safe:
  assumes "csr_wf c" and "take_trap r c cause tval pc = (h, r', c')"
  shows "h AND 3 = 0 \<and> priv_num (priv_mode r) \<le> priv_num (priv_mode r') \<and> priv_mode r' \<noteq> User
    \<and> r' = r\<lparr>priv_mode := priv_mode r'\<rparr>
    \<and> \<not> bit (mstatus c') (if priv_mode r' = Machine then 3 else 1)
    \<and> csr_wf c'"
  using assms by (rule take_trap_entry)

text \<open>The two returns keep the CSR file well formed, resume at the saved address and change only
  the privilege mode of the register file.\<close>

lemma handle_mret_wf:
  assumes "csr_wf c" "handle_mret r c = (pc, r', c')"
  shows "csr_wf c' \<and> pc = mepc c \<and> r' = r\<lparr>priv_mode := priv_mode r'\<rparr> \<and> c' = c\<lparr>mstatus := mstatus c'\<rparr>"
proof -
  have "mpp_of (m AND NOT (push_bit 11 3)) \<noteq> 2" "mpp_of ((m AND NOT (push_bit 11 3)) AND NOT (push_bit 17 1)) \<noteq> 2" for m
    unfolding mpp_of_eq_2 by (simp_all only: bit_clear_mpp bit_clear_mprv) simp_all
  then have "mpp_of (if b then (m AND NOT (push_bit 11 3)) AND NOT (push_bit 17 1) else m AND NOT (push_bit 11 3)) \<noteq> 2" for b m
    by simp
  from csr_wf_mstatus [OF assms(1) this] show ?thesis
    using assms(2) by (auto simp only: handle_mret_def Let_def prod.inject) simp_all
qed

lemma handle_sret_effect:
  assumes "handle_sret r c = (Inr pc, r', c')"
  shows "pc = sepc c \<and> r' = r\<lparr>priv_mode := priv_mode r'\<rparr> \<and> c' = c\<lparr>mstatus := mstatus c'\<rparr>
    \<and> priv_mode r \<noteq> User \<and> priv_mode r' \<noteq> Machine
    \<and> (\<forall>n. n \<notin> {1, 5, 8, 17} \<longrightarrow> bit (mstatus c') n = bit (mstatus c) n)"
proof -
  let ?m = "\<lambda>m. ((((m AND NOT (push_bit 1 1)) OR push_bit 1 (drop_bit 5 m AND 1)) OR push_bit 5 1)
    AND NOT (push_bit 8 1)) AND NOT (push_bit 17 1) :: u64"
  have b: "bit (?m m) n = bit m n" if "n \<notin> {1, 5, 8, 17}" for m n
  proof (cases "n < 64")
    case True
    then show ?thesis using that by (simp only: bit_clear_mprv bit_clear_spp bit_status_sret) simp
  qed (simp add: bit_high_64)
  have c': "c' = c\<lparr>mstatus := ?m (mstatus c)\<rparr>" and "pc = sepc c"
    "r' = r\<lparr>priv_mode := priv_mode r'\<rparr>" "priv_mode r \<noteq> User" "priv_mode r' \<noteq> Machine"
    using assms by (auto simp only: handle_sret_def Let_def prod.inject sum.inject sum.distinct split: if_splits) simp_all
  moreover have "bit (mstatus c') n = bit (mstatus c) n" if "n \<notin> {1, 5, 8, 17}" for n
    unfolding c' using b [OF that] by simp
  ultimately show ?thesis by simp
qed

lemma handle_sret_wf:
  assumes "csr_wf c" "handle_sret r c = (Inr pc, r', c')"
  shows "csr_wf c' \<and> r' = r\<lparr>priv_mode := priv_mode r'\<rparr>"
proof -
  note e = handle_sret_effect [OF assms(2)]
  have "mpp_of (mstatus c') \<noteq> 2" using assms(1) e by (simp add: mpp_of_eq_2 csr_wf_def)
  with e csr_wf_mstatus [OF assms(1), of "mstatus c'"] show ?thesis by metis
qed

text \<open>C27. A machine-mode handler that returns with \<open>mret\<close> resumes exactly what a
  non-delegated trap interrupted: the address is the trapping pc (rounded down to four bytes),
  the registers and the privilege mode are those before the trap, the machine interrupt enable
  has its old value, and \<open>mstatus\<close> differs at most in \<open>MPIE\<close>, \<open>MPP\<close> and
  \<open>MPRV\<close>. The entry saves the previous mode in \<open>MPP\<close>, as section 5.2 of \<open>_VM_SPECIFICATION.md\<close> and the
  RISC-V privileged specification have it; sections 4.3 and 5.1 of that file say that \<open>MPP\<close> is always 3,
  under which \<open>mret\<close> could never return below machine mode. The code and this property follow 5.2.\<close>

theorem mret_undoes_trap:
  assumes "\<not> delegates r c cause" and "take_trap r c cause tval pc = (h, r1, c1)"
    and "handle_mret r1 c1 = (pc', r2, c2)"
  shows "pc' = pc AND NOT 3 \<and> r2 = r
    \<and> (\<forall>n < 64. n \<notin> {7, 11, 12, 17} \<longrightarrow> bit (mstatus c2) n = bit (mstatus c) n)
    \<and> bit (mstatus c2) 17 = (bit (mstatus c) 17 \<and> priv_mode r = Machine)
    \<and> c2 = c\<lparr>mepc := pc AND NOT 3, mcause := cause, mtval := tval, mstatus := mstatus c2\<rparr>"
proof -
  obtain m where t: "take_trap r c cause tval pc =
      (vector_base (mtvec c) cause, r\<lparr>priv_mode := Machine\<rparr>,
       c\<lparr>mepc := pc AND NOT 3, mcause := cause, mtval := tval, mstatus := m\<rparr>)"
    and b: "\<And>n. n < 64 \<Longrightarrow> bit m n = (if n = 12 then priv_mode r = Machine
       else if n = 11 then priv_mode r \<noteq> User
       else if n = 7 then bit (mstatus c) 3 else if n = 3 then False else bit (mstatus c) n)"
    using assms(1) by (rule take_trap_M) blast
  let ?m2 = "((m AND NOT (push_bit 3 1)) OR push_bit 3 (drop_bit 7 m AND 1)) OR push_bit 7 1"
  have prev: "mpp_mode ?m2 = priv_mode r"
    unfolding mpp_mode_bits by (cases "priv_mode r") (simp_all only: bit_status_mret b, simp_all)
  let ?c1 = "c\<lparr>mepc := pc AND NOT 3, mcause := cause, mtval := tval, mstatus := m\<rparr>"
  let ?m3 = "?m2 AND NOT (push_bit 11 3)"
  let ?m4 = "if priv_mode r \<noteq> Machine then ?m3 AND NOT (push_bit 17 1) else ?m3"
  have sel: "mstatus ?c1 = m" "mepc ?c1 = pc AND NOT 3" by simp_all
  have "handle_mret (r\<lparr>priv_mode := Machine\<rparr>) ?c1 = (pc', r2, c2)"
    using assms(2,3) t by simp
  then have eq: "(pc AND NOT 3, (r\<lparr>priv_mode := Machine\<rparr>)\<lparr>priv_mode := priv_mode r\<rparr>,
      ?c1\<lparr>mstatus := ?m4\<rparr>) = (pc', r2, c2)"
    unfolding handle_mret_def Let_def sel prev .
  then have "pc' = pc AND NOT 3" "r2 = r" and m2: "mstatus c2 = ?m4"
    and c2: "c2 = c\<lparr>mepc := pc AND NOT 3, mcause := cause, mtval := tval, mstatus := mstatus c2\<rparr>"
    by (auto simp del: push_bit_numeral)
  have bits: "bit (mstatus c2) n = (n \<notin> {11, 12} \<and> (n = 17 \<longrightarrow> priv_mode r = Machine)
      \<and> (if n = 3 then bit (mstatus c) 3 else n = 7 \<or> bit (mstatus c) n))" if "n < 64" for n
    unfolding m2 using that by (simp only: if_distrib [of "\<lambda>w. bit w n"] bit_status b) auto
  show ?thesis
    using c2 \<open>pc' = _\<close> \<open>r2 = r\<close> by (simp add: bits conj_commute)
qed

text \<open>A supervisor handler that returns with \<open>sret\<close> resumes exactly what a delegated trap
  interrupted, provided \<open>mstatus.TSR\<close> does not make \<open>sret\<close> illegal.\<close>

theorem sret_undoes_trap:
  assumes "delegates r c cause" and "take_trap r c cause tval pc = (h, r1, c1)"
    and "\<not> bit (mstatus c) 22" and "handle_sret r1 c1 = (res, r2, c2)"
  shows "res = Inr (pc AND NOT 3) \<and> r2 = r
    \<and> (\<forall>n < 64. n \<notin> {5, 8, 17} \<longrightarrow> bit (mstatus c2) n = bit (mstatus c) n)
    \<and> \<not> bit (mstatus c2) 17
    \<and> c2 = c\<lparr>sepc := pc AND NOT 3, scause := cause, stval := tval, mstatus := mstatus c2\<rparr>"
proof -
  obtain m where t: "take_trap r c cause tval pc =
      (vector_base (stvec c) cause, r\<lparr>priv_mode := Supervisor\<rparr>,
       c\<lparr>sepc := pc AND NOT 3, scause := cause, stval := tval, mstatus := m\<rparr>)"
    and b: "\<And>n. n < 64 \<Longrightarrow> bit m n = (if n = 8 then priv_mode r \<noteq> User
       else if n = 5 then bit (mstatus c) 1 else if n = 1 then False else bit (mstatus c) n)"
    using assms(1) by (rule take_trap_S) blast
  let ?m2 = "((m AND NOT (push_bit 1 1)) OR push_bit 1 (drop_bit 5 m AND 1)) OR push_bit 5 1"
  have nm: "priv_mode r \<noteq> Machine" using assms(1) by (auto simp: delegates_def)
  have prev: "(if bit ?m2 8 then Supervisor else User) = priv_mode r"
    using nm by (cases "priv_mode r") (simp_all only: bit_status_sret b, simp_all)
  let ?c1 = "c\<lparr>sepc := pc AND NOT 3, scause := cause, stval := tval, mstatus := m\<rparr>"
  have "\<not> bit (mstatus ?c1) 22" using assms(3) by (simp add: b)
  moreover have sel: "mstatus ?c1 = m" "sepc ?c1 = pc AND NOT 3" by simp_all
  moreover have "handle_sret (r\<lparr>priv_mode := Supervisor\<rparr>) ?c1 = (res, r2, c2)"
    using assms(2,4) t by simp
  ultimately have "(Inr (pc AND NOT 3), (r\<lparr>priv_mode := Supervisor\<rparr>)\<lparr>priv_mode := priv_mode r\<rparr>,
      ?c1\<lparr>mstatus := (?m2 AND NOT (push_bit 8 1)) AND NOT (push_bit 17 1)\<rparr>) = (res, r2, c2)"
    using handle_sret_ok [of "r\<lparr>priv_mode := Supervisor\<rparr>" ?c1]
    unfolding Let_def sel prev by simp
  then have "res = Inr (pc AND NOT 3)" "r2 = r"
    and c2: "c2 = c\<lparr>sepc := pc AND NOT 3, scause := cause, stval := tval, mstatus := mstatus c2\<rparr>"
    and m2: "mstatus c2 = (?m2 AND NOT (push_bit 8 1)) AND NOT (push_bit 17 1)"
    by auto
  have bits: "bit (mstatus c2) n = (n \<notin> {8, 17} \<and>
      (if n = 1 then bit (mstatus c) 1 else n = 5 \<or> bit (mstatus c) n))" if "n < 64" for n
    unfolding m2 using that by (simp only: bit_status b) auto
  show ?thesis
    using c2 \<open>res = _\<close> \<open>r2 = r\<close> by (simp add: bits)
qed

theorem take_trap_safe_witness:
  "csr_wf csr_file_new
   \<and> take_trap registers_new (csr_file_new\<lparr>mtvec := 0x81\<rparr>) 0x8000000000000007 0 0x1000
     = (0x9C, registers_new, csr_file_new\<lparr>mtvec := 0x81, mepc := 0x1000, mcause := 0x8000000000000007, mstatus := 0x1800\<rparr>)
   \<and> csr_wf (csr_file_new\<lparr>mtvec := 0x81, mepc := 0x1000, mcause := 0x8000000000000007, mstatus := 0x1800\<rparr>)"
proof -
  have w: "csr_wf (csr_file_new\<lparr>mtvec := 0x81\<rparr>)" using csr_wf_new by simp
  have t: "take_trap registers_new (csr_file_new\<lparr>mtvec := 0x81\<rparr>) 0x8000000000000007 0 0x1000
     = (0x9C, registers_new, csr_file_new\<lparr>mtvec := 0x81, mepc := 0x1000, mcause := 0x8000000000000007, mstatus := 0x1800\<rparr>)"
    by (simp add: take_trap_def delegates_def registers_new_def csr_file_new_def vector_base_def
        is_interrupt_def cause_index_def)
  show ?thesis using t csr_wf_new take_trap_safe [OF w t] by simp
qed

theorem mret_undoes_trap_witness:
  "handle_mret (registers_new\<lparr>priv_mode := Machine\<rparr>)
     (csr_file_new\<lparr>mepc := 0x1000, mcause := CAUSE_ECALL_U, mstatus := 0x80\<rparr>)
   = (0x1000, registers_new\<lparr>priv_mode := User\<rparr>,
      csr_file_new\<lparr>mepc := 0x1000, mcause := CAUSE_ECALL_U, mstatus := 0x88\<rparr>)
   \<and> bit (0x88 :: u64) 3 = bit (8 :: u64) 3"
proof -
  let ?r = "registers_new\<lparr>priv_mode := User\<rparr>" and ?c = "csr_file_new\<lparr>mstatus := 8\<rparr>"
  let ?c1 = "csr_file_new\<lparr>mepc := 0x1000, mcause := CAUSE_ECALL_U, mstatus := 0x80\<rparr>"
  let ?c2 = "csr_file_new\<lparr>mepc := 0x1000, mcause := CAUSE_ECALL_U, mstatus := 0x88\<rparr>"
  have d: "\<not> delegates ?r ?c CAUSE_ECALL_U"
    by (simp add: delegates_def is_interrupt_def csr_file_new_def)
  have t: "take_trap ?r ?c CAUSE_ECALL_U 0 0x1000 = (0, registers_new\<lparr>priv_mode := Machine\<rparr>, ?c1)"
    using d by (simp add: take_trap_def vector_base_def csr_file_new_def is_interrupt_def)
  have m: "handle_mret (registers_new\<lparr>priv_mode := Machine\<rparr>) ?c1 = (0x1000, ?r, ?c2)"
    by (simp add: handle_mret_def mpp_mode_def mpp_of_def csr_file_new_def Let_def)
  have "\<forall>n < 64. n \<notin> {7, 11, 12, 17} \<longrightarrow> bit (mstatus ?c2) n = bit (mstatus ?c) n"
    using mret_undoes_trap [OF d t m] by blast
  then have "bit (mstatus ?c2) 3 = bit (mstatus ?c) 3" by simp
  with m show ?thesis by simp
qed

theorem sret_undoes_trap_witness:
  "handle_sret (registers_new\<lparr>priv_mode := Supervisor\<rparr>)
     (csr_file_new\<lparr>medeleg := 0x100, sepc := 0x1000, scause := CAUSE_ECALL_U, mstatus := 0x20\<rparr>)
   = (Inr 0x1000, registers_new\<lparr>priv_mode := User\<rparr>,
      csr_file_new\<lparr>medeleg := 0x100, sepc := 0x1000, scause := CAUSE_ECALL_U, mstatus := 0x22\<rparr>)
   \<and> bit (0x22 :: u64) 1 = bit (2 :: u64) 1"
proof -
  let ?r = "registers_new\<lparr>priv_mode := User\<rparr>"
  let ?c = "csr_file_new\<lparr>medeleg := 0x100, mstatus := 2\<rparr>"
  let ?c1 = "csr_file_new\<lparr>medeleg := 0x100, sepc := 0x1000, scause := CAUSE_ECALL_U, mstatus := 0x20\<rparr>"
  let ?c2 = "csr_file_new\<lparr>medeleg := 0x100, sepc := 0x1000, scause := CAUSE_ECALL_U, mstatus := 0x22\<rparr>"
  have d: "delegates ?r ?c CAUSE_ECALL_U"
    by (simp add: delegates_def is_interrupt_def cause_index_def csr_file_new_def)
  have t: "take_trap ?r ?c CAUSE_ECALL_U 0 0x1000 = (0, registers_new\<lparr>priv_mode := Supervisor\<rparr>, ?c1)"
    using d by (simp add: take_trap_def vector_base_def csr_file_new_def is_interrupt_def)
  have n: "\<not> bit (mstatus ?c) 22" by simp
  have m: "handle_sret (registers_new\<lparr>priv_mode := Supervisor\<rparr>) ?c1 = (Inr 0x1000, ?r, ?c2)"
    by (simp add: handle_sret_def csr_file_new_def Let_def)
  have "\<forall>n < 64. n \<notin> {5, 8, 17} \<longrightarrow> bit (mstatus ?c2) n = bit (mstatus ?c) n"
    using sret_undoes_trap [OF d t n m] by blast
  then have "bit (mstatus ?c2) 1 = bit (mstatus ?c) 1" by simp
  with m show ?thesis by simp
qed

end
