(* ===== verification/Memory.thy ===== *)
theory Memory
  imports Vm_Error
begin

text \<open>
  The memory interface (\<open>crates/virtual-machine/src/memory.rs\<close>) and its two leaf
  implementations, \<open>memory/ram.rs\<close> and \<open>memory/rom.rs\<close>. The trait \<open>MemoryAccess\<close> is a record
  of its eight methods over a state type; the \<open>default_\<close> functions are the bodies the trait
  supplies. The locale \<open>byte_mem\<close> states what a memory level promises: through an invariant
  and a view (the trait \<open>PeekByteRaw\<close>), byte reads return the view and byte writes update
  it, an unmapped address is an error that changes nothing, and the mapping is uniform on
  64-byte blocks. \<open>Ram\<close> is shown to provide it.
\<close>

record 'm mem_ops =
  read_byte :: "u64 \<Rightarrow> ('m, u8) action"
  read_halfword :: "u64 \<Rightarrow> ('m, u16) action"
  read_word :: "u64 \<Rightarrow> ('m, u32) action"
  read_doubleword :: "u64 \<Rightarrow> ('m, u64) action"
  write_byte :: "u64 \<Rightarrow> u8 \<Rightarrow> ('m, unit) action"
  write_halfword :: "u64 \<Rightarrow> u16 \<Rightarrow> ('m, unit) action"
  write_word :: "u64 \<Rightarrow> u32 \<Rightarrow> ('m, unit) action"
  write_doubleword :: "u64 \<Rightarrow> u64 \<Rightarrow> ('m, unit) action"

subsection \<open>Default methods of the trait\<close>

definition default_read_halfword :: "(u64 \<Rightarrow> ('m, u8) action) \<Rightarrow> u64 \<Rightarrow> ('m, u16) action" where
  "default_read_halfword rb addr =
     sbind (rb addr) (\<lambda>lo. sbind (rb (addr + 1)) (\<lambda>hi.
       sreturn (ucast lo OR push_bit 8 (ucast hi))))"

definition default_read_word :: "(u64 \<Rightarrow> ('m, u16) action) \<Rightarrow> u64 \<Rightarrow> ('m, u32) action" where
  "default_read_word rh addr =
     sbind (rh addr) (\<lambda>lo. sbind (rh (addr + 2)) (\<lambda>hi.
       sreturn (ucast lo OR push_bit 16 (ucast hi))))"

definition default_read_doubleword :: "(u64 \<Rightarrow> ('m, u32) action) \<Rightarrow> u64 \<Rightarrow> ('m, u64) action" where
  "default_read_doubleword rw addr =
     sbind (rw addr) (\<lambda>lo. sbind (rw (addr + 4)) (\<lambda>hi.
       sreturn (ucast lo OR push_bit 32 (ucast hi))))"

definition default_write_halfword ::
  "(u64 \<Rightarrow> u8 \<Rightarrow> ('m, unit) action) \<Rightarrow> u64 \<Rightarrow> u16 \<Rightarrow> ('m, unit) action" where
  "default_write_halfword wb addr v =
     sbind (wb addr (ucast v)) (\<lambda>_. wb (addr + 1) (ucast (drop_bit 8 v)))"

definition default_write_word ::
  "(u64 \<Rightarrow> u16 \<Rightarrow> ('m, unit) action) \<Rightarrow> u64 \<Rightarrow> u32 \<Rightarrow> ('m, unit) action" where
  "default_write_word wh addr v =
     sbind (wh addr (ucast v)) (\<lambda>_. wh (addr + 2) (ucast (drop_bit 16 v)))"

definition default_write_doubleword ::
  "(u64 \<Rightarrow> u32 \<Rightarrow> ('m, unit) action) \<Rightarrow> u64 \<Rightarrow> u64 \<Rightarrow> ('m, unit) action" where
  "default_write_doubleword ww addr v =
     sbind (ww addr (ucast v)) (\<lambda>_. ww (addr + 4) (ucast (drop_bit 32 v)))"

text \<open>The methods of a type that implements only \<open>read_byte\<close> and \<open>write_byte\<close>.\<close>

definition byte_ops ::
  "(u64 \<Rightarrow> ('m, u8) action) \<Rightarrow> (u64 \<Rightarrow> u8 \<Rightarrow> ('m, unit) action) \<Rightarrow> 'm mem_ops" where
  "byte_ops rb wb =
     (let rh = default_read_halfword rb; rw = default_read_word rh;
          wh = default_write_halfword wb; ww = default_write_word wh
      in \<lparr>read_byte = rb, read_halfword = rh, read_word = rw,
          read_doubleword = default_read_doubleword rw,
          write_byte = wb, write_halfword = wh, write_word = ww,
          write_doubleword = default_write_doubleword ww\<rparr>)"

subsection \<open>RAM\<close>

record ram =
  ram_data :: "u8 list"
  ram_base :: u64
  ram_size :: u64

definition ram_new :: "u64 \<Rightarrow> nat \<Rightarrow> ram" where
  "ram_new base size_bytes =
     \<lparr>ram_data = replicate size_bytes 0, ram_base = base, ram_size = of_nat size_bytes\<rparr>"

definition ram_contains :: "ram \<Rightarrow> u64 \<Rightarrow> bool" where
  "ram_contains m addr \<longleftrightarrow> addr \<ge> ram_base m \<and> addr < ram_base m + ram_size m"

definition ram_index :: "ram \<Rightarrow> u64 \<Rightarrow> nat option" where
  "ram_index m addr = (if ram_contains m addr then Some (unat (addr - ram_base m)) else None)"

definition ram_peek_byte :: "ram \<Rightarrow> u64 \<Rightarrow> u8 option" where
  "ram_peek_byte m addr = map_option (\<lambda>idx. ram_data m ! idx) (ram_index m addr)"

definition ram_read_byte :: "u64 \<Rightarrow> (ram, u8) action" where
  "ram_read_byte addr m =
     (case ram_index m addr of
        Some idx \<Rightarrow> (Inr (ram_data m ! idx), m)
      | None \<Rightarrow> (Inl (BusError addr), m))"

definition ram_read_halfword :: "u64 \<Rightarrow> (ram, u16) action" where
  "ram_read_halfword addr =
     sbind (ram_read_byte addr) (\<lambda>b0. sbind (ram_read_byte (addr + 1)) (\<lambda>b1.
       sreturn (ucast b0 OR push_bit 8 (ucast b1))))"

definition ram_read_word :: "u64 \<Rightarrow> (ram, u32) action" where
  "ram_read_word addr =
     sbind (ram_read_byte addr) (\<lambda>b0. sbind (ram_read_byte (addr + 1)) (\<lambda>b1.
     sbind (ram_read_byte (addr + 2)) (\<lambda>b2. sbind (ram_read_byte (addr + 3)) (\<lambda>b3.
       sreturn (ucast b0 OR push_bit 8 (ucast b1) OR push_bit 16 (ucast b2)
                OR push_bit 24 (ucast b3))))))"

definition ram_read_doubleword :: "u64 \<Rightarrow> (ram, u64) action" where
  "ram_read_doubleword addr =
     sbind (ram_read_word addr) (\<lambda>lo. sbind (ram_read_word (addr + 4)) (\<lambda>hi.
       sreturn (ucast lo OR push_bit 32 (ucast hi))))"

definition ram_write_byte :: "u64 \<Rightarrow> u8 \<Rightarrow> (ram, unit) action" where
  "ram_write_byte addr v m =
     (case ram_index m addr of
        Some idx \<Rightarrow> (Inr (), m\<lparr>ram_data := (ram_data m)[idx := v]\<rparr>)
      | None \<Rightarrow> (Inl (BusError addr), m))"

definition ram_write_halfword :: "u64 \<Rightarrow> u16 \<Rightarrow> (ram, unit) action" where
  "ram_write_halfword addr v =
     sbind (ram_write_byte addr (ucast v)) (\<lambda>_.
       ram_write_byte (addr + 1) (ucast (drop_bit 8 v)))"

definition ram_write_word :: "u64 \<Rightarrow> u32 \<Rightarrow> (ram, unit) action" where
  "ram_write_word addr v =
     sbind (ram_write_byte addr (ucast v)) (\<lambda>_.
     sbind (ram_write_byte (addr + 1) (ucast (drop_bit 8 v))) (\<lambda>_.
     sbind (ram_write_byte (addr + 2) (ucast (drop_bit 16 v))) (\<lambda>_.
       ram_write_byte (addr + 3) (ucast (drop_bit 24 v)))))"

definition ram_write_doubleword :: "u64 \<Rightarrow> u64 \<Rightarrow> (ram, unit) action" where
  "ram_write_doubleword addr v =
     sbind (ram_write_word addr (ucast v)) (\<lambda>_.
       ram_write_word (addr + 4) (ucast (drop_bit 32 v)))"

definition ram_ops :: "ram mem_ops" where
  "ram_ops =
     \<lparr>read_byte = ram_read_byte, read_halfword = ram_read_halfword,
      read_word = ram_read_word, read_doubleword = ram_read_doubleword,
      write_byte = ram_write_byte, write_halfword = ram_write_halfword,
      write_word = ram_write_word, write_doubleword = ram_write_doubleword\<rparr>"

text \<open>\<open>RamImage for Ram\<close>. Both directions panic unless the buffer has the length of the RAM;
  the callers size it with \<open>ram_len\<close>.\<close>

definition ram_len :: "ram \<Rightarrow> nat" where
  "ram_len m = length (ram_data m)"

definition ram_write_image_into :: "ram \<Rightarrow> u8 list \<Rightarrow> u8 list" where
  "ram_write_image_into m buf = ram_data m"

definition ram_load_image :: "u8 list \<Rightarrow> ram \<Rightarrow> ram" where
  "ram_load_image bytes m = m\<lparr>ram_data := bytes\<rparr>"

subsection \<open>ROM\<close>

record rom =
  rom_data :: "u8 list"
  rom_base :: u64
  rom_size :: u64

definition rom_new :: "u64 \<Rightarrow> u8 list \<Rightarrow> rom" where
  "rom_new base bytes = \<lparr>rom_data = bytes, rom_base = base, rom_size = of_nat (length bytes)\<rparr>"

definition rom_contains :: "rom \<Rightarrow> u64 \<Rightarrow> bool" where
  "rom_contains m addr \<longleftrightarrow> addr \<ge> rom_base m \<and> addr < rom_base m + rom_size m"

definition rom_index :: "rom \<Rightarrow> u64 \<Rightarrow> nat option" where
  "rom_index m addr = (if rom_contains m addr then Some (unat (addr - rom_base m)) else None)"

definition rom_peek_byte :: "rom \<Rightarrow> u64 \<Rightarrow> u8 option" where
  "rom_peek_byte m addr = map_option (\<lambda>idx. rom_data m ! idx) (rom_index m addr)"

definition rom_read_byte :: "u64 \<Rightarrow> (rom, u8) action" where
  "rom_read_byte addr m =
     (case rom_index m addr of
        Some idx \<Rightarrow> (Inr (rom_data m ! idx), m)
      | None \<Rightarrow> (Inl (BusError addr), m))"

definition rom_read_halfword :: "u64 \<Rightarrow> (rom, u16) action" where
  "rom_read_halfword addr =
     sbind (rom_read_byte addr) (\<lambda>b0. sbind (rom_read_byte (addr + 1)) (\<lambda>b1.
       sreturn (ucast b0 OR push_bit 8 (ucast b1))))"

definition rom_read_word :: "u64 \<Rightarrow> (rom, u32) action" where
  "rom_read_word addr =
     sbind (rom_read_byte addr) (\<lambda>b0. sbind (rom_read_byte (addr + 1)) (\<lambda>b1.
     sbind (rom_read_byte (addr + 2)) (\<lambda>b2. sbind (rom_read_byte (addr + 3)) (\<lambda>b3.
       sreturn (ucast b0 OR push_bit 8 (ucast b1) OR push_bit 16 (ucast b2)
                OR push_bit 24 (ucast b3))))))"

definition rom_read_doubleword :: "u64 \<Rightarrow> (rom, u64) action" where
  "rom_read_doubleword addr =
     sbind (rom_read_word addr) (\<lambda>lo. sbind (rom_read_word (addr + 4)) (\<lambda>hi.
       sreturn (ucast lo OR push_bit 32 (ucast hi))))"

definition rom_ops :: "rom mem_ops" where
  "rom_ops =
     \<lparr>read_byte = rom_read_byte, read_halfword = rom_read_halfword,
      read_word = rom_read_word, read_doubleword = rom_read_doubleword,
      write_byte = (\<lambda>_ _. sfail WriteToRom), write_halfword = (\<lambda>_ _. sfail WriteToRom),
      write_word = (\<lambda>_ _. sfail WriteToRom), write_doubleword = (\<lambda>_ _. sfail WriteToRom)\<rparr>"

subsection \<open>What a memory level promises\<close>

text \<open>Two addresses in the same 64-byte block.\<close>

definition same_block :: "u64 \<Rightarrow> u64 \<Rightarrow> bool" where
  "same_block a b \<longleftrightarrow> drop_bit 6 a = drop_bit 6 b"

locale byte_mem =
  fixes ops :: "'m mem_ops"
    and view :: "'m \<Rightarrow> u64 \<Rightarrow> u8 option"
    and minv :: "'m \<Rightarrow> bool"
  assumes rd_mapped: "minv m \<Longrightarrow> view m a = Some v \<Longrightarrow>
      \<exists>m'. read_byte ops a m = (Inr v, m') \<and> minv m' \<and> view m' = view m"
    and rd_unmapped: "minv m \<Longrightarrow> view m a = None \<Longrightarrow>
      \<exists>e m'. read_byte ops a m = (Inl e, m') \<and> minv m' \<and> view m' = view m"
    and wr_mapped: "minv m \<Longrightarrow> view m a \<noteq> None \<Longrightarrow>
      \<exists>m'. write_byte ops a v m = (Inr (), m') \<and> minv m' \<and> view m' = (view m)(a \<mapsto> v)"
    and wr_unmapped: "minv m \<Longrightarrow> view m a = None \<Longrightarrow>
      \<exists>e m'. write_byte ops a v m = (Inl e, m') \<and> minv m' \<and> view m' = view m"
    and block_uniform: "minv m \<Longrightarrow> same_block a b \<Longrightarrow> view m a = None \<Longrightarrow> view m b = None"

subsection \<open>RAM provides it\<close>

definition ram_wf :: "ram \<Rightarrow> bool" where
  "ram_wf m \<longleftrightarrow> length (ram_data m) = unat (ram_size m)
     \<and> unat (ram_base m) + unat (ram_size m) < 2 ^ 64
     \<and> ram_base m AND 63 = 0 \<and> ram_size m AND 63 = 0"

lemma and_63_eq_0: "(w AND 63 = 0) = (64 dvd unat (w :: u64))"
proof -
  have m: "(63 :: u64) = mask 6" by (simp add: mask_eq_exp_minus_1)
  have "(w AND 63 = 0) = (unat (take_bit 6 w) = 0)"
    unfolding m take_bit_eq_mask [symmetric] by (simp add: unat_eq_0)
  also have "unat (take_bit 6 w) = unat w mod 64"
    by (simp add: take_bit_eq_mod unat_mod)
  finally show ?thesis by (simp add: dvd_eq_mod_eq_0)
qed

lemma same_block_nat: "same_block a b \<longleftrightarrow> unat a div 64 = unat b div 64"
proof -
  have u: "unat (drop_bit 6 w) = unat w div 64" for w :: u64
    by (simp add: drop_bit_eq_div unat_div)
  show ?thesis unfolding same_block_def by (metis u word_unat_eq_iff)
qed

lemma ram_contains_nat:
  assumes "ram_wf m"
  shows "ram_contains m a \<longleftrightarrow>
    unat (ram_base m) \<le> unat a \<and> unat a < unat (ram_base m) + unat (ram_size m)"
proof -
  have "unat (ram_base m + ram_size m) = unat (ram_base m) + unat (ram_size m)"
    using assms unat_add_lem [of "ram_base m" "ram_size m"] by (simp add: ram_wf_def)
  then show ?thesis
    by (simp add: ram_contains_def word_le_nat_alt word_less_nat_alt)
qed

lemma ram_index_less: "ram_wf m \<Longrightarrow> ram_index m a = Some i \<Longrightarrow> i < length (ram_data m)"
  by (auto simp: ram_index_def ram_contains_nat ram_wf_def unat_sub word_le_nat_alt split: if_splits)

lemma ram_index_inj: "ram_index m a = Some i \<Longrightarrow> ram_index m b = Some i \<Longrightarrow> a = b"
  by (auto simp: ram_index_def word_unat_eq_iff [symmetric] split: if_splits)

lemma ram_view_update:
  assumes "ram_wf m" "ram_index m a = Some i"
  shows "ram_peek_byte (m\<lparr>ram_data := (ram_data m)[i := v]\<rparr>) = (ram_peek_byte m)(a \<mapsto> v)"
proof
  fix b
  have idx: "ram_index (m\<lparr>ram_data := d\<rparr>) = ram_index m" for d
    by (simp add: fun_eq_iff ram_index_def ram_contains_def)
  show "ram_peek_byte (m\<lparr>ram_data := (ram_data m)[i := v]\<rparr>) b = ((ram_peek_byte m)(a \<mapsto> v)) b"
    using assms ram_index_less [OF assms] ram_index_inj [of m a i b]
    by (cases "ram_index m b") (auto simp: ram_peek_byte_def idx nth_list_update)
qed

lemma ram_block_uniform:
  assumes "ram_wf m" "same_block a b" "ram_contains m b"
  shows "ram_contains m a"
proof -
  have d: "64 dvd unat (ram_base m)" "64 dvd unat (ram_base m) + unat (ram_size m)"
    using assms(1) by (simp_all add: ram_wf_def and_63_eq_0)
  have ge: "k \<le> x \<longleftrightarrow> k div 64 \<le> x div 64" if "64 dvd k" for k x :: nat
    using that by (metis div_le_mono dvd_div_mult_self dual_order.trans
        div_times_less_eq_dividend mult_le_mono1)
  have lt: "x < k \<longleftrightarrow> x div 64 < k div 64" if "64 dvd k" for k x :: nat
    using ge [OF that, of x] by linarith
  show ?thesis
    using assms(2,3) ge [OF d(1)] lt [OF d(2)]
    by (simp add: ram_contains_nat [OF assms(1)] same_block_nat)
qed

lemma ram_peek_None: "ram_peek_byte m a = None \<longleftrightarrow> \<not> ram_contains m a"
  by (simp add: ram_peek_byte_def ram_index_def)

lemma ram_wf_update: "ram_wf m \<Longrightarrow> ram_wf (m\<lparr>ram_data := (ram_data m)[i := v]\<rparr>)"
  by (simp add: ram_wf_def)

interpretation ram_mem: byte_mem ram_ops ram_peek_byte ram_wf
proof unfold_locales
  fix m a v
  assume "ram_wf m" "ram_peek_byte m a = Some v"
  then show "\<exists>m'. read_byte ram_ops a m = (Inr v, m') \<and> ram_wf m' \<and> ram_peek_byte m' = ram_peek_byte m"
    by (auto simp: ram_ops_def ram_read_byte_def ram_peek_byte_def)
next
  fix m a
  assume "ram_wf m" "ram_peek_byte m a = None"
  then show "\<exists>e m'. read_byte ram_ops a m = (Inl e, m') \<and> ram_wf m' \<and> ram_peek_byte m' = ram_peek_byte m"
    by (auto simp: ram_ops_def ram_read_byte_def ram_peek_byte_def)
next
  fix m a v
  assume m: "ram_wf m" "ram_peek_byte m a \<noteq> None"
  then obtain i where "ram_index m a = Some i" by (auto simp: ram_peek_byte_def)
  with m show "\<exists>m'. write_byte ram_ops a v m = (Inr (), m') \<and> ram_wf m'
      \<and> ram_peek_byte m' = (ram_peek_byte m)(a \<mapsto> v)"
    by (auto simp: ram_ops_def ram_write_byte_def ram_view_update ram_wf_update)
next
  fix m a and v :: u8
  assume "ram_wf m" "ram_peek_byte m a = None"
  then show "\<exists>e m'. write_byte ram_ops a v m = (Inl e, m') \<and> ram_wf m' \<and> ram_peek_byte m' = ram_peek_byte m"
    by (auto simp: ram_ops_def ram_write_byte_def ram_peek_byte_def)
next
  fix m a b
  assume "ram_wf m" "same_block a b" "ram_peek_byte m a = None"
  then show "ram_peek_byte m b = None"
    using ram_block_uniform [of m a b] by (auto simp: ram_peek_None)
qed

end
