(* ===== verification/Cache.thy ===== *)
theory Cache
  imports Memory
begin

text \<open>
  The set-associative write-back cache (\<open>crates/virtual-machine/src/memory/cache.rs\<close>), generic
  in the level below it. The state is the record \<open>cache\<close> over the state of the next level, and
  every operation takes the next level's methods (\<open>mem_ops\<close>). The lemmas live in the context of
  the locale \<open>byte_mem\<close>: over any next level that keeps its promise, the cache keeps the same
  promise, with the view of \<open>peek_byte_raw\<close>. Stacking three caches on RAM is then three
  interpretations.
\<close>

subsection \<open>Data\<close>

record cache_params =
  cp_size :: nat
  cp_block_size :: nat
  cp_associativity :: nat
  cp_write_back :: bool
  cp_read_only :: bool

record cache_line =
  cl_valid :: bool
  cl_dirty :: bool
  cl_tag :: u64
  cl_data :: "u8 list"
  cl_lru_age :: u64

record cache_set =
  ways :: "cache_line list"

record cache_stats =
  read_hits :: u64
  read_misses :: u64
  write_hits :: u64
  write_misses :: u64

record 'n cache =
  c_params :: cache_params
  c_sets :: "cache_set list"
  c_next :: 'n
  c_stats :: cache_stats
  block_bits :: nat
  set_bits :: nat
  access_tick :: u64

text \<open>\<open>usize::ilog2\<close>.\<close>

fun ilog2 :: "nat \<Rightarrow> nat" where
  "ilog2 n = (if n < 2 then 0 else Suc (ilog2 (n div 2)))"

declare ilog2.simps [simp del]

definition cache_stats_default :: cache_stats where
  "cache_stats_default = \<lparr>read_hits = 0, read_misses = 0, write_hits = 0, write_misses = 0\<rparr>"

definition cache_new :: "cache_params \<Rightarrow> 'n \<Rightarrow> 'n cache" where
  "cache_new p nxt =
     (let nsets = cp_size p div (cp_block_size p * cp_associativity p) in
      \<lparr>c_params = p,
       c_sets = replicate nsets
         \<lparr>ways = replicate (cp_associativity p)
            \<lparr>cl_valid = False, cl_dirty = False, cl_tag = 0,
             cl_data = replicate (cp_block_size p) 0, cl_lru_age = 0\<rparr>\<rparr>,
       c_next = nxt,
       c_stats = cache_stats_default,
       block_bits = ilog2 (cp_block_size p),
       set_bits = ilog2 nsets,
       access_tick = 0\<rparr>)"

subsection \<open>Addresses\<close>

definition address_fields :: "'n cache \<Rightarrow> u64 \<Rightarrow> u64 \<times> u64 \<times> u64" where
  "address_fields c addr =
     (drop_bit (block_bits c + set_bits c) addr,
      drop_bit (block_bits c) addr AND (push_bit (set_bits c) 1 - 1),
      addr AND (push_bit (block_bits c) 1 - 1))"

definition line_base_address :: "'n cache \<Rightarrow> u64 \<Rightarrow> u64 \<Rightarrow> u64" where
  "line_base_address c tag index =
     push_bit (block_bits c + set_bits c) tag OR push_bit (block_bits c) index"

subsection \<open>Resolving a line\<close>

text \<open>\<open>Iterator::position\<close> and \<open>min_by_key\<close> (the first of several minima).\<close>

fun position :: "('a \<Rightarrow> bool) \<Rightarrow> 'a list \<Rightarrow> nat option" where
  "position P [] = None"
| "position P (x # xs) = (if P x then Some 0 else map_option Suc (position P xs))"

fun min_age_index :: "cache_line list \<Rightarrow> nat option" where
  "min_age_index [] = None"
| "min_age_index (w # ws) =
     (case min_age_index ws of
        None \<Rightarrow> Some 0
      | Some j \<Rightarrow> if cl_lru_age w \<le> cl_lru_age (ws ! j) then Some 0 else Some (Suc j))"

definition victim_way :: "cache_line list \<Rightarrow> nat" where
  "victim_way ws =
     (case position (\<lambda>w. \<not> cl_valid w) ws of
        Some i \<Rightarrow> i
      | None \<Rightarrow> (case min_age_index ws of Some i \<Rightarrow> i | None \<Rightarrow> 0))"

definition get_line :: "'n cache \<Rightarrow> nat \<Rightarrow> nat \<Rightarrow> cache_line" where
  "get_line c si wi = ways (c_sets c ! si) ! wi"

definition upd_line :: "nat \<Rightarrow> nat \<Rightarrow> (cache_line \<Rightarrow> cache_line) \<Rightarrow> 'n cache \<Rightarrow> 'n cache" where
  "upd_line si wi f c =
     c\<lparr>c_sets := (c_sets c)[si := (c_sets c ! si)\<lparr>ways :=
         (ways (c_sets c ! si))[wi := f (ways (c_sets c ! si) ! wi)]\<rparr>]\<rparr>"

definition lift_next :: "('n, 'a) action \<Rightarrow> ('n cache, 'a) action" where
  "lift_next m c = (case m (c_next c) of (r, n') \<Rightarrow> (r, c\<lparr>c_next := n'\<rparr>))"

text \<open>The loop that writes the bytes of a line to the next level, from byte \<open>i\<close> on, and the
  loop that fetches \<open>k\<close> bytes.\<close>

fun write_bytes :: "'n mem_ops \<Rightarrow> u64 \<Rightarrow> nat \<Rightarrow> u8 list \<Rightarrow> ('n, unit) action" where
  "write_bytes ops base i [] = sreturn ()"
| "write_bytes ops base i (b # bs) =
     sbind (write_byte ops (base + of_nat i) b) (\<lambda>_. write_bytes ops base (Suc i) bs)"

fun read_bytes :: "'n mem_ops \<Rightarrow> u64 \<Rightarrow> nat \<Rightarrow> nat \<Rightarrow> ('n, u8 list) action" where
  "read_bytes ops base i 0 = sreturn []"
| "read_bytes ops base i (Suc k) =
     sbind (read_byte ops (base + of_nat i)) (\<lambda>b.
       sbind (read_bytes ops base (Suc i) k) (\<lambda>bs. sreturn (b # bs)))"

definition install_line ::
  "nat \<Rightarrow> nat \<Rightarrow> u64 \<Rightarrow> u8 list \<Rightarrow> 'n cache \<Rightarrow> 'n cache" where
  "install_line si wi tag new_data c =
     (let tick = access_tick c + 1 in
      upd_line si wi
        (\<lambda>_. \<lparr>cl_valid = True, cl_dirty = False, cl_tag = tag, cl_data = new_data, cl_lru_age = tick\<rparr>)
        (c\<lparr>access_tick := tick\<rparr>))"

definition resolve_line ::
  "'n mem_ops \<Rightarrow> u64 \<Rightarrow> ('n cache, nat \<times> nat \<times> bool) action" where
  "resolve_line ops addr c =
     (case address_fields c addr of (tag, index, _) \<Rightarrow>
      let set_idx = unat index; ws = ways (c_sets c ! set_idx) in
      case position (\<lambda>w. cl_valid w \<and> cl_tag w = tag) ws of
        Some way_idx \<Rightarrow>
          let tick = access_tick c + 1 in
          (Inr (set_idx, way_idx, False),
           upd_line set_idx way_idx (\<lambda>l. l\<lparr>cl_lru_age := tick\<rparr>) (c\<lparr>access_tick := tick\<rparr>))
      | None \<Rightarrow>
          let victim_idx = victim_way ws; line = ws ! victim_idx;
              fetch_base = addr AND NOT (of_nat (cp_block_size (c_params c)) - 1)
          in sbind
               (if cl_valid line \<and> cl_dirty line
                then lift_next (write_bytes ops (line_base_address c (cl_tag line) index) 0 (cl_data line))
                else sreturn ())
               (\<lambda>_. sbind (lift_next (read_bytes ops fetch_base 0 (cp_block_size (c_params c))))
               (\<lambda>new_data c1. (Inr (set_idx, victim_idx, True),
                   install_line set_idx victim_idx tag new_data c1))) c)"

subsection \<open>Accesses of one to eight bytes\<close>

definition count_read :: "bool \<Rightarrow> ('n cache, unit) action" where
  "count_read miss c =
     (Inr (), c\<lparr>c_stats := (if miss then (c_stats c)\<lparr>read_misses := read_misses (c_stats c) + 1\<rparr>
                           else (c_stats c)\<lparr>read_hits := read_hits (c_stats c) + 1\<rparr>)\<rparr>)"

definition count_write :: "bool \<Rightarrow> ('n cache, unit) action" where
  "count_write miss c =
     (Inr (), c\<lparr>c_stats := (if miss then (c_stats c)\<lparr>write_misses := write_misses (c_stats c) + 1\<rparr>
                           else (c_stats c)\<lparr>write_hits := write_hits (c_stats c) + 1\<rparr>)\<rparr>)"

text \<open>\<open>u64::from_le_bytes\<close> on a buffer whose bytes past the list are zero, and the first
  \<open>n\<close> bytes of \<open>u64::to_le_bytes\<close>.\<close>

fun from_le_bytes :: "u8 list \<Rightarrow> u64" where
  "from_le_bytes [] = 0"
| "from_le_bytes (b # bs) = ucast b OR push_bit 8 (from_le_bytes bs)"

definition to_le_bytes :: "nat \<Rightarrow> u64 \<Rightarrow> u8 list" where
  "to_le_bytes n v = map (\<lambda>i. ucast (drop_bit (i * 8) v)) [0..<n]"

fun read_n_loop ::
  "'n mem_ops \<Rightarrow> u64 \<Rightarrow> nat \<Rightarrow> nat \<Rightarrow> u64 \<Rightarrow> nat \<Rightarrow> nat \<Rightarrow> u64 \<Rightarrow> ('n cache, u64) action" where
  "read_n_loop ops addr i 0 last_block last_set last_way result = sreturn result"
| "read_n_loop ops addr i (Suc k) last_block last_set last_way result = (\<lambda>c.
     let byte_addr = addr + of_nat i;
         block = byte_addr AND NOT (push_bit (block_bits c) 1 - 1);
         offset = unat (byte_addr AND (push_bit (block_bits c) 1 - 1))
     in sbind
          (if block \<noteq> last_block
           then sbind (resolve_line ops byte_addr) (\<lambda>(si, wi, miss).
                  sbind (count_read miss) (\<lambda>_. sreturn (si, wi)))
           else sreturn (last_set, last_way))
          (\<lambda>(si, wi) c1. read_n_loop ops addr (Suc i) k block si wi
             (result OR push_bit (i * 8) (ucast (cl_data (get_line c1 si wi) ! offset))) c1) c)"

definition read_n :: "'n mem_ops \<Rightarrow> u64 \<Rightarrow> nat \<Rightarrow> ('n cache, u64) action" where
  "read_n ops addr n =
     (if 1 < n \<and> addr AND (of_nat n - 1) = 0 then
        sbind (resolve_line ops addr) (\<lambda>(si, wi, miss).
        sbind (count_read miss) (\<lambda>_ c.
          let offset = unat (addr AND (push_bit (block_bits c) 1 - 1)) in
          (Inr (from_le_bytes (take n (drop offset (cl_data (get_line c si wi))))), c)))
      else read_n_loop ops addr 0 n (- 1) 0 0 0)"

definition set_bytes :: "nat \<Rightarrow> u8 list \<Rightarrow> cache_line \<Rightarrow> cache_line" where
  "set_bytes offset bs l =
     l\<lparr>cl_data := take offset (cl_data l) @ bs @ drop (offset + length bs) (cl_data l)\<rparr>"

fun write_n_loop ::
  "'n mem_ops \<Rightarrow> u64 \<Rightarrow> u64 \<Rightarrow> nat \<Rightarrow> nat \<Rightarrow> u64 \<Rightarrow> nat \<Rightarrow> nat \<Rightarrow> ('n cache, unit) action" where
  "write_n_loop ops addr v i 0 last_block last_set last_way = sreturn ()"
| "write_n_loop ops addr v i (Suc k) last_block last_set last_way = (\<lambda>c.
     let byte_addr = addr + of_nat i;
         block = byte_addr AND NOT (push_bit (block_bits c) 1 - 1);
         offset = unat (byte_addr AND (push_bit (block_bits c) 1 - 1));
         b = ucast (drop_bit (i * 8) v AND 0xFF)
     in sbind
          (if block \<noteq> last_block
           then sbind (resolve_line ops byte_addr) (\<lambda>(si, wi, miss).
                  sbind (count_write miss) (\<lambda>_. sreturn (si, wi)))
           else sreturn (last_set, last_way))
          (\<lambda>(si, wi) c1.
             let c2 = upd_line si wi (\<lambda>l. l\<lparr>cl_data := (cl_data l)[offset := b]\<rparr>) c1 in
             if cp_write_back (c_params c2)
             then write_n_loop ops addr v (Suc i) k block si wi
                    (upd_line si wi (\<lambda>l. l\<lparr>cl_dirty := True\<rparr>) c2)
             else sbind (lift_next (write_byte ops byte_addr b))
                    (\<lambda>_. write_n_loop ops addr v (Suc i) k block si wi) c2) c)"

definition write_n :: "'n mem_ops \<Rightarrow> u64 \<Rightarrow> u64 \<Rightarrow> nat \<Rightarrow> ('n cache, unit) action" where
  "write_n ops addr v n c =
     (if cp_read_only (c_params c) then (Inl WriteToRom, c)
      else if 1 < n \<and> addr AND (of_nat n - 1) = 0 then
        sbind (resolve_line ops addr) (\<lambda>(si, wi, miss).
        sbind (count_write miss) (\<lambda>_ c1.
          let offset = unat (addr AND (push_bit (block_bits c1) 1 - 1));
              c2 = upd_line si wi (set_bytes offset (to_le_bytes n v)) c1
          in if cp_write_back (c_params c2)
             then (Inr (), upd_line si wi (\<lambda>l. l\<lparr>cl_dirty := True\<rparr>) c2)
             else lift_next
                    (if n = 2 then write_halfword ops addr (ucast v)
                     else if n = 4 then write_word ops addr (ucast v)
                     else if n = 8 then write_doubleword ops addr v
                     else write_bytes ops addr 0 (to_le_bytes n v)) c2)) c
      else write_n_loop ops addr v 0 n (- 1) 0 0 c)"

definition cache_ops :: "'n mem_ops \<Rightarrow> 'n cache mem_ops" where
  "cache_ops ops =
     \<lparr>read_byte = (\<lambda>addr. sbind (read_n ops addr 1) (\<lambda>v. sreturn (ucast v))),
      read_halfword = (\<lambda>addr. sbind (read_n ops addr 2) (\<lambda>v. sreturn (ucast v))),
      read_word = (\<lambda>addr. sbind (read_n ops addr 4) (\<lambda>v. sreturn (ucast v))),
      read_doubleword = (\<lambda>addr. read_n ops addr 8),
      write_byte = (\<lambda>addr v. write_n ops addr (ucast v) 1),
      write_halfword = (\<lambda>addr v. write_n ops addr (ucast v) 2),
      write_word = (\<lambda>addr v. write_n ops addr (ucast v) 4),
      write_doubleword = (\<lambda>addr v. write_n ops addr v 8)\<rparr>"

subsection \<open>Inspection, flushing and images\<close>

definition cache_peek_byte_raw ::
  "('n \<Rightarrow> u64 \<Rightarrow> u8 option) \<Rightarrow> 'n cache \<Rightarrow> u64 \<Rightarrow> u8 option" where
  "cache_peek_byte_raw peek c addr =
     (case address_fields c addr of (tag, index, offset) \<Rightarrow>
        let hit = (if unat index < length (c_sets c)
                   then find (\<lambda>l. cl_valid l \<and> cl_tag l = tag) (ways (c_sets c ! unat index))
                   else None)
        in case hit of
             Some l \<Rightarrow> (if unat offset < length (cl_data l) then Some (cl_data l ! unat offset) else None)
           | None \<Rightarrow> peek (c_next c) addr)"

definition clear_line :: "cache_line \<Rightarrow> cache_line" where
  "clear_line l = l\<lparr>cl_valid := False, cl_dirty := False, cl_tag := 0, cl_lru_age := 0\<rparr>"

text \<open>\<open>flush_and_invalidate\<close> ignores the errors of the next level (\<open>let _ =\<close>); the write
  loop does not stop at one.\<close>

fun flush_bytes :: "'n mem_ops \<Rightarrow> u64 \<Rightarrow> nat \<Rightarrow> u8 list \<Rightarrow> 'n \<Rightarrow> 'n" where
  "flush_bytes ops base i [] n = n"
| "flush_bytes ops base i (b # bs) n =
     flush_bytes ops base (Suc i) bs (snd (write_byte ops (base + of_nat i) b n))"

definition flush_line :: "'n mem_ops \<Rightarrow> nat \<Rightarrow> nat \<Rightarrow> 'n cache \<Rightarrow> 'n cache" where
  "flush_line ops si wi c =
     (let l = get_line c si wi;
          c1 = (if cl_valid l \<and> cl_dirty l
                then c\<lparr>c_next := flush_bytes ops (line_base_address c (cl_tag l) (of_nat si)) 0
                                   (cl_data l) (c_next c)\<rparr>
                else c)
      in upd_line si wi clear_line c1)"

definition flush_and_invalidate :: "'n mem_ops \<Rightarrow> 'n cache \<Rightarrow> 'n cache" where
  "flush_and_invalidate ops c =
     (let c1 = fold (\<lambda>si c. fold (\<lambda>wi. flush_line ops si wi) [0..<length (ways (c_sets c ! si))] c)
                 [0..<length (c_sets c)] c
      in c1\<lparr>c_stats := cache_stats_default, access_tick := 0\<rparr>)"

definition overlay_line :: "'n cache \<Rightarrow> u64 \<Rightarrow> nat \<Rightarrow> cache_line \<Rightarrow> u8 list \<Rightarrow> u8 list" where
  "overlay_line c base si l buf =
     (if cl_valid l \<and> cl_dirty l then
        let addr = line_base_address c (cl_tag l) (of_nat si); off = unat (addr - base) in
        if addr \<ge> base \<and> off + length (cl_data l) \<le> length buf
        then take off buf @ cl_data l @ drop (off + length (cl_data l)) buf else buf
      else buf)"

definition cache_write_image_into ::
  "('n \<Rightarrow> u8 list \<Rightarrow> u8 list) \<Rightarrow> ('n \<Rightarrow> u64) \<Rightarrow> 'n cache \<Rightarrow> u8 list \<Rightarrow> u8 list" where
  "cache_write_image_into img base_of c buf =
     fold (\<lambda>si. fold (overlay_line c (base_of (c_next c)) si) (ways (c_sets c ! si)))
       [0..<length (c_sets c)] (img (c_next c) buf)"

definition cache_load_image ::
  "(u8 list \<Rightarrow> 'n \<Rightarrow> 'n) \<Rightarrow> u8 list \<Rightarrow> 'n cache \<Rightarrow> 'n cache" where
  "cache_load_image load bytes c =
     c\<lparr>c_next := load bytes (c_next c),
       c_sets := map (\<lambda>s. s\<lparr>ways := map clear_line (ways s)\<rparr>) (c_sets c)\<rparr>"

end
