(* ===== verification/Cache_Address.thy ===== *)
theory Cache_Address
  imports Cache
begin

text \<open>
  The arithmetic of cache addresses: an address is its tag, its set index and its offset in the
  block, and the addresses of one line are exactly the block of its base address.
\<close>

definition tag_of :: "'n cache \<Rightarrow> u64 \<Rightarrow> u64" where
  "tag_of c a = drop_bit (block_bits c + set_bits c) a"

definition index_of :: "'n cache \<Rightarrow> u64 \<Rightarrow> u64" where
  "index_of c a = drop_bit (block_bits c) a AND mask (set_bits c)"

definition set_of :: "'n cache \<Rightarrow> u64 \<Rightarrow> nat" where
  "set_of c a = unat (index_of c a)"

definition off_of :: "'n cache \<Rightarrow> u64 \<Rightarrow> nat" where
  "off_of c a = unat (a AND mask (block_bits c))"

definition base_of :: "'n cache \<Rightarrow> u64 \<Rightarrow> u64" where
  "base_of c a = a AND NOT (mask (block_bits c))"

lemma push_one_minus_one: "push_bit n 1 - 1 = (mask n :: 'a::len word)"
  by (simp add: mask_eq_exp_minus_1)

lemma address_fields_eq:
  "address_fields c a = (tag_of c a, index_of c a, a AND mask (block_bits c))"
  by (simp add: address_fields_def tag_of_def index_of_def mask_eq_exp_minus_1)

text \<open>Bit \<open>n\<close> of an address belongs to the offset, the index or the tag.\<close>

lemma same_line_iff:
  assumes "block_bits c + set_bits c < 64"
  shows "tag_of c a = tag_of c b \<and> set_of c a = set_of c b \<longleftrightarrow> base_of c a = base_of c b"
proof
  assume "base_of c a = base_of c b"
  then have b: "bit (base_of c a) n = bit (base_of c b) n" for n by simp
  have eq: "block_bits c \<le> n \<Longrightarrow> bit a n = bit b n" for n
    using b [of n] by (cases "n < 64") (simp_all add: base_of_def bit_simps bit_high_64)
  have "tag_of c a = tag_of c b"
    unfolding tag_of_def by (rule u64_eqI) (simp add: bit_drop_bit_eq eq)
  moreover have "index_of c a = index_of c b"
    unfolding index_of_def by (rule u64_eqI) (simp add: bit_drop_bit_eq bit_and_iff eq)
  ultimately show "tag_of c a = tag_of c b \<and> set_of c a = set_of c b" by (simp add: set_of_def)
next
  assume ab: "tag_of c a = tag_of c b \<and> set_of c a = set_of c b"
  then have ti: "tag_of c a = tag_of c b" "index_of c a = index_of c b"
    by (simp_all add: set_of_def word_unat_eq_iff)
  have "bit a n = bit b n" if n: "n < 64" "block_bits c \<le> n" for n
  proof (cases "n < block_bits c + set_bits c")
    case True
    then have "bit (index_of c w) (n - block_bits c) = bit w n" for w
      using n by (auto simp: index_of_def bit_simps)
    then show ?thesis using ti(2) by metis
  next
    case False
    then have "bit (tag_of c w) (n - (block_bits c + set_bits c)) = bit w n" for w
      using n by (simp add: tag_of_def bit_simps)
    then show ?thesis using ti(1) by metis
  qed
  then show "base_of c a = base_of c b"
    unfolding base_of_def by (intro u64_eqI) (auto simp: bit_simps)
qed

lemma line_base_of:
  assumes "block_bits c + set_bits c < 64"
  shows "line_base_address c (tag_of c a) (index_of c a) = base_of c a"
proof (rule u64_eqI)
  fix n :: nat assume "n < 64"
  then show "bit (line_base_address c (tag_of c a) (index_of c a)) n = bit (base_of c a) n"
    by (cases "n < block_bits c"; cases "n < block_bits c + set_bits c")
      (auto simp: line_base_address_def tag_of_def index_of_def base_of_def bit_simps)
qed

lemma unat_and_mask: "unat (w AND mask k :: u64) = unat w mod 2 ^ k"
proof -
  have "w AND mask k = take_bit k w" by (rule take_bit_eq_mask [symmetric])
  then have "unat (w AND mask k) = take_bit k (unat w)" by (simp only: unsigned_take_bit_eq)
  then show ?thesis by (simp only: take_bit_eq_mod)
qed

lemma set_of_less: "set_of c a < 2 ^ set_bits c"
  unfolding set_of_def index_of_def unat_and_mask by simp

lemma off_of_less: "off_of c a < 2 ^ block_bits c"
  unfolding off_of_def unat_and_mask by simp

lemma base_plus_off: "base_of c a + of_nat (off_of c a) = a"
proof -
  have "base_of c a + (a AND mask (block_bits c)) = base_of c a OR (a AND mask (block_bits c))"
    by (rule disjunctive_add_eq_or, rule u64_eqI) (auto simp: base_of_def bit_simps)
  also have "\<dots> = a"
    by (rule u64_eqI) (auto simp: base_of_def bit_simps)
  finally show ?thesis by (simp add: off_of_def)
qed

lemma unat_of_nat_small: "k < 2 ^ b \<Longrightarrow> b < 64 \<Longrightarrow> unat (of_nat k :: u64) = k"
proof -
  assume k: "k < 2 ^ b" "b < 64"
  have "(2::nat) ^ b < 2 ^ 64" using k(2) by (intro power_strict_increasing) auto
  with k(1) have "k < 2 ^ 64" by linarith
  then show ?thesis by (simp add: unsigned_of_nat take_bit_nat_eq_self)
qed

lemma and_mask_of_nat:
  "k < 2 ^ b \<Longrightarrow> b < 64 \<Longrightarrow> of_nat k AND mask b = (of_nat k :: u64)"
proof -
  assume k: "k < 2 ^ b" "b < 64"
  have "unat (of_nat k :: u64) = k" using k by (rule unat_of_nat_small)
  with k(1) have "unat (of_nat k AND mask b :: u64) = unat (of_nat k :: u64)"
    by (simp only: unat_and_mask) simp
  then show ?thesis by (simp only: word_unat_eq_iff)
qed

lemma base_add:
  assumes "k < 2 ^ block_bits c" "block_bits c < 64"
  shows "base_of c (base_of c a + of_nat k) = base_of c a"
    and "off_of c (base_of c a + of_nat k) = k"
proof -
  let ?m = "mask (block_bits c) :: u64"
  have m: "of_nat k AND ?m = of_nat k" using assms by (rule and_mask_of_nat)
  have kb: "bit (of_nat k :: u64) n \<Longrightarrow> n < block_bits c" for n
    using m by (metis bit_and_iff bit_mask_iff)
  have "base_of c a + of_nat k = base_of c a OR of_nat k"
    by (rule disjunctive_add_eq_or, rule u64_eqI)
      (auto simp: base_of_def bit_and_iff bit_not_iff bit_mask_iff dest: kb)
  moreover have "(base_of c a OR of_nat k) AND NOT ?m = base_of c a"
    by (rule u64_eqI) (auto simp: base_of_def bit_and_iff bit_or_iff bit_not_iff bit_mask_iff dest: kb)
  moreover have "(base_of c a OR of_nat k) AND ?m = of_nat k"
    by (rule u64_eqI) (auto simp: base_of_def bit_and_iff bit_or_iff bit_not_iff bit_mask_iff dest: kb)
  moreover have "unat (of_nat k :: u64) = k"
    using assms by (rule unat_of_nat_small)
  ultimately show "base_of c (base_of c a + of_nat k) = base_of c a"
    and "off_of c (base_of c a + of_nat k) = k"
    by (simp_all add: base_of_def off_of_def)
qed

lemma same_block_base:
  assumes "base_of c a = base_of c b" "block_bits c \<le> 6"
  shows "same_block a b"
  unfolding same_block_def
proof (rule u64_eqI)
  fix n :: nat assume "n < 64"
  have "bit (base_of c a) (6 + n) = bit (base_of c b) (6 + n)" using assms(1) by simp
  then show "bit (drop_bit 6 a) n = bit (drop_bit 6 b) n"
    using assms(2) by (cases "6 + n < 64") (auto simp: base_of_def bit_simps bit_high_64)
qed

text \<open>An access of \<open>2 ^ j\<close> bytes at a multiple of \<open>2 ^ j\<close> stays inside one block.\<close>

lemma aligned_in_block:
  assumes "a AND mask j = 0" "j \<le> block_bits c" "block_bits c < 64"
  shows "off_of c a + 2 ^ j \<le> 2 ^ block_bits c"
proof -
  have "off_of c a mod 2 ^ j = unat (a AND mask j)"
    unfolding off_of_def unat_and_mask
    by (rule mod_mod_cancel) (use assms(2) in \<open>simp add: le_imp_power_dvd\<close>)
  then have "2 ^ j dvd off_of c a" using assms(1) by (simp add: dvd_eq_mod_eq_0)
  moreover have "(2::nat) ^ j dvd 2 ^ block_bits c" using assms(2) by (rule le_imp_power_dvd)
  ultimately have d: "2 ^ j dvd 2 ^ block_bits c - off_of c a" by (metis dvd_diff_nat)
  moreover have "off_of c a < 2 ^ block_bits c" by (rule off_of_less)
  ultimately have "2 ^ j \<le> 2 ^ block_bits c - off_of c a" by (intro dvd_imp_le) auto
  then show ?thesis using \<open>off_of c a < _\<close> by linarith
qed

lemma add_in_block:
  assumes "off_of c a + i < 2 ^ block_bits c" "block_bits c < 64"
  shows "base_of c (a + of_nat i) = base_of c a" "off_of c (a + of_nat i) = off_of c a + i"
proof -
  have "a + of_nat i = (base_of c a + of_nat (off_of c a)) + of_nat i"
    by (simp only: base_plus_off)
  then have "a + of_nat i = base_of c a + of_nat (off_of c a + i)" by (simp add: add.assoc)
  then show "base_of c (a + of_nat i) = base_of c a" "off_of c (a + of_nat i) = off_of c a + i"
    by (simp_all only: base_add [OF assms])
qed

end
