(* ===== verification/Cache_Correct.thy ===== *)
theory Cache_Correct
  imports Cache_Address
begin

text \<open>
  Correctness of the cache. \<open>cache_wf\<close> is the invariant: the geometry, at most one valid line
  per block, every valid line backed by mapped memory, and every clean line equal to the next
  level. The lemmas of the context \<open>byte_mem\<close> show that, over a next level that keeps the
  contract, resolving a line changes neither the view nor the invariant, reads return the view
  and writes update it, so that the cache keeps the contract too.
\<close>

subsection \<open>The invariant\<close>

definition nways :: "'n cache \<Rightarrow> nat \<Rightarrow> nat" where
  "nways c si = length (ways (c_sets c ! si))"

definition cache_geom :: "'n cache \<Rightarrow> bool" where
  "cache_geom c \<longleftrightarrow> 3 \<le> block_bits c \<and> block_bits c \<le> 6 \<and> block_bits c + set_bits c < 64
     \<and> cp_block_size (c_params c) = 2 ^ block_bits c
     \<and> cp_write_back (c_params c) \<and> \<not> cp_read_only (c_params c)
     \<and> length (c_sets c) = 2 ^ set_bits c
     \<and> (\<forall>si < 2 ^ set_bits c. nways c si \<noteq> 0
          \<and> (\<forall>wi < nways c si. length (cl_data (get_line c si wi)) = 2 ^ block_bits c))"

definition holds :: "'n cache \<Rightarrow> nat \<Rightarrow> cache_line \<Rightarrow> u64 \<Rightarrow> bool" where
  "holds c si l a \<longleftrightarrow> cl_valid l \<and> cl_tag l = tag_of c a \<and> set_of c a = si"

definition line_ok :: "('n \<Rightarrow> u64 \<Rightarrow> u8 option) \<Rightarrow> 'n cache \<Rightarrow> nat \<Rightarrow> cache_line \<Rightarrow> bool" where
  "line_ok view c si l \<longleftrightarrow> (cl_valid l \<longrightarrow> (\<exists>a. holds c si l a))
     \<and> (\<forall>a. holds c si l a \<longrightarrow> view (c_next c) a \<noteq> None
            \<and> (\<not> cl_dirty l \<longrightarrow> view (c_next c) a = Some (cl_data l ! off_of c a)))"

definition unique_tags :: "'n cache \<Rightarrow> bool" where
  "unique_tags c \<longleftrightarrow> (\<forall>si < 2 ^ set_bits c. \<forall>wi < nways c si. \<forall>wj < nways c si.
     cl_valid (get_line c si wi) \<longrightarrow> cl_valid (get_line c si wj) \<longrightarrow>
     cl_tag (get_line c si wi) = cl_tag (get_line c si wj) \<longrightarrow> wi = wj)"

definition cache_wf :: "('n \<Rightarrow> u64 \<Rightarrow> u8 option) \<Rightarrow> ('n \<Rightarrow> bool) \<Rightarrow> 'n cache \<Rightarrow> bool" where
  "cache_wf view minv c \<longleftrightarrow> cache_geom c \<and> minv (c_next c) \<and> unique_tags c
     \<and> (\<forall>si < 2 ^ set_bits c. \<forall>wi < nways c si. line_ok view c si (get_line c si wi))"

subsection \<open>Updating one line\<close>

lemma upd_line_fields [simp]:
  "block_bits (upd_line si wi f c) = block_bits c" "set_bits (upd_line si wi f c) = set_bits c"
  "c_params (upd_line si wi f c) = c_params c" "c_next (upd_line si wi f c) = c_next c"
  "c_stats (upd_line si wi f c) = c_stats c" "access_tick (upd_line si wi f c) = access_tick c"
  "length (c_sets (upd_line si wi f c)) = length (c_sets c)"
  by (simp_all add: upd_line_def)

lemma nways_upd [simp]: "nways (upd_line si wi f c) sj = nways c sj"
  by (cases "si < length (c_sets c)")
    (auto simp: nways_def upd_line_def nth_list_update list_update_beyond)

lemma get_line_upd:
  "si < length (c_sets c) \<Longrightarrow> wi < nways c si \<Longrightarrow>
   get_line (upd_line si wi f c) sj wj = (if sj = si \<and> wj = wi then f (get_line c si wi) else get_line c sj wj)"
  by (auto simp: get_line_def upd_line_def nways_def nth_list_update)

lemma fields_cong:
  assumes "block_bits c' = block_bits c" "set_bits c' = set_bits c"
  shows "tag_of c' = tag_of c" "set_of c' = set_of c" "off_of c' = off_of c" "base_of c' = base_of c"
    "index_of c' = index_of c"
  using assms by (auto simp: fun_eq_iff tag_of_def set_of_def index_of_def off_of_def base_of_def)

lemma holds_cong:
  "block_bits c' = block_bits c \<Longrightarrow> set_bits c' = set_bits c \<Longrightarrow> holds c' = holds c"
  using fields_cong [of c' c] by (auto simp: fun_eq_iff holds_def)

lemmas fields_upd [simp] =
  fields_cong [OF upd_line_fields(1,2)] holds_cong [OF upd_line_fields(1,2)]

lemma nways_c_next [simp]:
  "nways (c\<lparr>c_next := n\<rparr>) = nways c" "nways (c\<lparr>c_stats := s\<rparr>) = nways c"
  "nways (c\<lparr>access_tick := t\<rparr>) = nways c"
  by (simp_all add: fun_eq_iff nways_def)

lemma get_line_c_next [simp]:
  "get_line (c\<lparr>c_next := n\<rparr>) = get_line c" "get_line (c\<lparr>c_stats := s\<rparr>) = get_line c"
  "get_line (c\<lparr>access_tick := t\<rparr>) = get_line c"
  by (simp_all add: fun_eq_iff get_line_def)

lemma fields_other [simp]:
  "tag_of (c\<lparr>c_next := n\<rparr>) = tag_of c" "set_of (c\<lparr>c_next := n\<rparr>) = set_of c"
  "off_of (c\<lparr>c_next := n\<rparr>) = off_of c" "base_of (c\<lparr>c_next := n\<rparr>) = base_of c"
  "index_of (c\<lparr>c_next := n\<rparr>) = index_of c" "holds (c\<lparr>c_next := n\<rparr>) = holds c"
  "tag_of (c\<lparr>c_stats := s\<rparr>) = tag_of c" "set_of (c\<lparr>c_stats := s\<rparr>) = set_of c"
  "off_of (c\<lparr>c_stats := s\<rparr>) = off_of c" "holds (c\<lparr>c_stats := s\<rparr>) = holds c"
  "tag_of (c\<lparr>access_tick := t\<rparr>) = tag_of c" "set_of (c\<lparr>access_tick := t\<rparr>) = set_of c"
  "off_of (c\<lparr>access_tick := t\<rparr>) = off_of c" "holds (c\<lparr>access_tick := t\<rparr>) = holds c"
  "base_of (c\<lparr>c_stats := s\<rparr>) = base_of c" "base_of (c\<lparr>access_tick := t\<rparr>) = base_of c"
  by (rule fields_cong holds_cong; simp)+

subsection \<open>The view through one set\<close>

lemma peek_hit:
  assumes "cache_geom c" "unique_tags c" "wi < nways c (set_of c a)"
    and h: "holds c (set_of c a) (get_line c (set_of c a) wi) a"
  shows "cache_peek_byte_raw view c a = Some (cl_data (get_line c (set_of c a) wi) ! off_of c a)"
proof -
  let ?si = "set_of c a" and ?l = "get_line c (set_of c a) wi"
  let ?P = "\<lambda>l. cl_valid l \<and> cl_tag l = tag_of c a"
  have si: "?si < 2 ^ set_bits c" by (rule set_of_less)
  have "find ?P (ways (c_sets c ! ?si)) = Some ?l"
  proof (rule find_unique)
    show "?l \<in> set (ways (c_sets c ! ?si))"
      using assms(3) by (simp add: get_line_def nways_def)
    show "?P ?l" using h by (simp add: holds_def)
    fix y assume "y \<in> set (ways (c_sets c ! ?si))" "?P y"
    then obtain wj where "wj < nways c ?si" "y = get_line c ?si wj"
      by (auto simp: in_set_conv_nth nways_def get_line_def)
    with assms(2,3) si h \<open>?P y\<close> show "y = ?l"
      by (metis unique_tags_def holds_def)
  qed
  moreover have "?si < length (c_sets c)" "length (cl_data ?l) = 2 ^ block_bits c"
    using assms(1,3) si by (auto simp: cache_geom_def)
  ultimately show ?thesis
    using off_of_less [of c a]
    by (simp add: cache_peek_byte_raw_def address_fields_eq set_of_def [symmetric] off_of_def [symmetric])
qed

lemma peek_miss:
  assumes "\<And>wi. wi < nways c (set_of c a) \<Longrightarrow> \<not> holds c (set_of c a) (get_line c (set_of c a) wi) a"
  shows "cache_peek_byte_raw view c a = view (c_next c) a"
proof -
  let ?P = "\<lambda>l. cl_valid l \<and> cl_tag l = tag_of c a"
  have "find ?P (ways (c_sets c ! set_of c a)) = None"
    using assms by (auto simp: find_None_iff in_set_conv_nth nways_def get_line_def holds_def)
  then show ?thesis
    by (simp add: cache_peek_byte_raw_def address_fields_eq set_of_def [symmetric])
qed

lemma peek_cases:
  assumes "cache_wf view minv c"
  obtains (hit) wi where "wi < nways c (set_of c a)"
      "holds c (set_of c a) (get_line c (set_of c a) wi) a"
      "cache_peek_byte_raw view c a = Some (cl_data (get_line c (set_of c a) wi) ! off_of c a)"
  | (miss) "\<And>wi. wi < nways c (set_of c a) \<Longrightarrow> \<not> holds c (set_of c a) (get_line c (set_of c a) wi) a"
      "cache_peek_byte_raw view c a = view (c_next c) a"
  using assms peek_hit [of c _ a view] peek_miss [of c a view] unfolding cache_wf_def by blast

lemma cache_wfD:
  assumes "cache_wf view minv c"
  shows "cache_geom c" "minv (c_next c)" "unique_tags c"
    "si < 2 ^ set_bits c \<Longrightarrow> wi < nways c si \<Longrightarrow> line_ok view c si (get_line c si wi)"
  using assms by (auto simp: cache_wf_def)

lemma holds_unique:
  assumes "unique_tags c" "wi < nways c si" "wj < nways c sj"
    "holds c si (get_line c si wi) a" "holds c sj (get_line c sj wj) a"
  shows "si = sj \<and> wi = wj"
  using assms set_of_less [of c a] by (auto simp: holds_def unique_tags_def)

text \<open>Anything that keeps the next level and the contents of the lines keeps the invariant and
  the view: statistics, ticks and ages do not matter.\<close>

definition same_lines :: "'n cache \<Rightarrow> 'n cache \<Rightarrow> bool" where
  "same_lines c c' \<longleftrightarrow> block_bits c' = block_bits c \<and> set_bits c' = set_bits c
     \<and> c_params c' = c_params c \<and> c_next c' = c_next c \<and> length (c_sets c') = length (c_sets c)
     \<and> (\<forall>si < length (c_sets c). nways c' si = nways c si \<and> (\<forall>wi < nways c si.
          cl_valid (get_line c' si wi) = cl_valid (get_line c si wi)
          \<and> cl_dirty (get_line c' si wi) = cl_dirty (get_line c si wi)
          \<and> cl_tag (get_line c' si wi) = cl_tag (get_line c si wi)
          \<and> cl_data (get_line c' si wi) = cl_data (get_line c si wi)))"

lemma same_lines_wf:
  assumes "cache_wf view minv c" "same_lines c c'"
  shows "cache_wf view minv c'"
proof -
  have f: "tag_of c' = tag_of c" "set_of c' = set_of c" "off_of c' = off_of c" "holds c' = holds c"
    using assms(2) fields_cong [of c' c] holds_cong [of c' c] by (auto simp: same_lines_def)
  have n: "length (c_sets c) = 2 ^ set_bits c"
    using assms(1) by (simp add: cache_wf_def cache_geom_def)
  have g: "cache_geom c'" "unique_tags c'"
    using assms n by (auto simp: same_lines_def cache_wf_def cache_geom_def unique_tags_def)
  have "line_ok view c' si (get_line c' si wi)"
    if "si < 2 ^ set_bits c" "wi < nways c si" for si wi
  proof -
    have "holds c si (get_line c' si wi) = holds c si (get_line c si wi)"
      using assms(2) that n by (auto simp: same_lines_def holds_def fun_eq_iff)
    then show ?thesis
      using cache_wfD(4) [OF assms(1) that] assms(2) that n
      unfolding line_ok_def f by (simp add: same_lines_def)
  qed
  with g assms show ?thesis by (auto simp: cache_wf_def same_lines_def n)
qed

lemma same_lines_peek:
  assumes "cache_wf view minv c" "same_lines c c'"
  shows "cache_peek_byte_raw view c' = cache_peek_byte_raw view c"
proof
  fix a
  have f: "tag_of c' = tag_of c" "set_of c' = set_of c" "off_of c' = off_of c" "holds c' = holds c"
    using assms(2) fields_cong [of c' c] holds_cong [of c' c] by (auto simp: same_lines_def)
  have n: "set_of c a < length (c_sets c)"
    using assms(1) set_of_less [of c a] by (simp add: cache_wf_def cache_geom_def)
  note wf' = same_lines_wf [OF assms]
  have h: "holds c (set_of c a) (get_line c' (set_of c a) wi) a
      = holds c (set_of c a) (get_line c (set_of c a) wi) a" if "wi < nways c (set_of c a)" for wi
    using assms(2) that n by (auto simp: same_lines_def holds_def)
  from assms(1) show "cache_peek_byte_raw view c' a = cache_peek_byte_raw view c a"
  proof (cases rule: peek_cases [where a = a])
    case (hit wi)
    with h [of wi] have "cache_peek_byte_raw view c' a
        = Some (cl_data (get_line c' (set_of c a) wi) ! off_of c a)"
      using assms(2) n peek_hit [OF cache_wfD(1,3) [OF wf'], of wi a view]
      by (simp add: f same_lines_def)
    with hit show ?thesis using assms(2) n by (simp add: same_lines_def)
  next
    case miss
    then have "cache_peek_byte_raw view c' a = view (c_next c') a"
      using assms(2) n h by (intro peek_miss) (simp add: f same_lines_def)
    with miss show ?thesis using assms(2) by (simp add: same_lines_def)
  qed
qed

subsection \<open>Writing a victim back\<close>

lemma synced_next:
  assumes wf: "cache_wf view minv c" and i: "si < 2 ^ set_bits c" "wi < nways c si"
    and n: "minv n'" "\<And>a. view n' a = (if holds c si (get_line c si wi) a
              then Some (cl_data (get_line c si wi) ! off_of c a) else view (c_next c) a)"
  shows "cache_wf view minv (c\<lparr>c_next := n'\<rparr>)"
    and "cache_peek_byte_raw view (c\<lparr>c_next := n'\<rparr>) = cache_peek_byte_raw view c"
proof -
  let ?c = "c\<lparr>c_next := n'\<rparr>"
  have g: "cache_geom ?c" "unique_tags ?c"
    using cache_wfD(1,3) [OF wf] by (simp_all add: cache_geom_def unique_tags_def)
  have "line_ok view ?c sj (get_line c sj wj)" if j: "sj < 2 ^ set_bits c" "wj < nways c sj" for sj wj
    using cache_wfD(4) [OF wf j] holds_unique [OF cache_wfD(3) [OF wf] i(2) j(2)]
    by (auto simp: line_ok_def n(2))
  with g n(1) show wf': "cache_wf view minv ?c" by (simp add: cache_wf_def)
  show "cache_peek_byte_raw view ?c = cache_peek_byte_raw view c"
  proof
    fix a
    from wf show "cache_peek_byte_raw view ?c a = cache_peek_byte_raw view c a"
    proof (cases rule: peek_cases [where a = a])
      case (hit wj)
      then show ?thesis using peek_hit [OF g, of wj a view] by simp
    next
      case miss
      then have "cache_peek_byte_raw view ?c a = view n' a"
        using peek_miss [of ?c a view] by simp
      also have "\<dots> = view (c_next c) a"
        using miss(1) [of wi] i(2) by (auto simp: n(2) holds_def)
      finally show ?thesis using miss(2) by simp
    qed
  qed
qed

subsection \<open>Replacing a line\<close>

text \<open>One lemma for both ways a line changes: \<open>l'\<close> replaces line \<open>(si, wi)\<close>, which holds
  nothing the next level does not have unless \<open>l'\<close> holds the same block.\<close>

lemma replace_line:
  assumes wf: "cache_wf view minv c" and i: "si < 2 ^ set_bits c" "wi < nways c si"
    and len: "length (cl_data l') = 2 ^ block_bits c"
    and ok: "line_ok view c si l'"
    and fresh: "\<And>a wj. holds c si l' a \<Longrightarrow> wj < nways c si \<Longrightarrow> wj \<noteq> wi \<Longrightarrow>
                  \<not> holds c si (get_line c si wj) a"
    and out: "\<And>a. holds c si (get_line c si wi) a \<Longrightarrow> \<not> holds c si l' a \<Longrightarrow>
                view (c_next c) a = Some (cl_data (get_line c si wi) ! off_of c a)"
  shows "cache_wf view minv (upd_line si wi (\<lambda>_. l') c)"
    and "cache_peek_byte_raw view (upd_line si wi (\<lambda>_. l') c) a =
      (if holds c si l' a then Some (cl_data l' ! off_of c a) else cache_peek_byte_raw view c a)"
proof -
  let ?c = "upd_line si wi (\<lambda>_. l') c"
  have si: "si < length (c_sets c)" using wf i by (simp add: cache_wf_def cache_geom_def)
  note gl = get_line_upd [OF si i(2), of "\<lambda>_. l'"]
  have g: "cache_geom ?c"
    using cache_wfD(1) [OF wf] len by (auto simp: cache_geom_def gl)
  have u: "unique_tags ?c"
    unfolding unique_tags_def
  proof (intro allI impI, goal_cases)
    case (1 sj wj wk)
    show ?case
    proof (cases "sj = si \<and> cl_valid l' \<and> (wj = wi \<or> wk = wi)")
      case True
      then obtain a where a: "holds c si l' a" using ok by (auto simp: line_ok_def)
      have no: "\<not> (cl_valid (get_line c si w) \<and> cl_tag (get_line c si w) = cl_tag l')"
        if "w < nways c si" "w \<noteq> wi" for w
        using fresh [OF a that] a by (auto simp: holds_def)
      from True 1 no [of wj] no [of wk] show ?thesis
        by (cases "wj = wi"; cases "wk = wi") (simp_all add: gl)
    next
      case False
      with 1 cache_wfD(3) [OF wf] show ?thesis
        by (auto simp: gl unique_tags_def split: if_splits)
    qed
  qed
  have "line_ok view ?c sj (get_line ?c sj wj)" if "sj < 2 ^ set_bits c" "wj < nways c sj" for sj wj
    using cache_wfD(4) [OF wf that] ok by (simp add: gl line_ok_def)
  with g u cache_wfD(2) [OF wf] show "cache_wf view minv ?c" by (simp add: cache_wf_def)
  show "cache_peek_byte_raw view ?c a =
      (if holds c si l' a then Some (cl_data l' ! off_of c a) else cache_peek_byte_raw view c a)"
  proof (cases "holds c si l' a")
    case True
    then have "set_of c a = si" by (simp add: holds_def)
    with True i show ?thesis using peek_hit [OF g u, of wi a view] by (simp add: gl)
  next
    case False
    from wf show ?thesis
    proof (cases rule: peek_cases [where a = a])
      case (hit wj)
      show ?thesis
      proof (cases "set_of c a = si \<and> wj = wi")
        case True
        have "\<not> holds c si (get_line ?c si w) a" if "w < nways c si" for w
          using False True that hit(1,2) holds_unique [OF cache_wfD(3) [OF wf], of wi si w si a]
          by (cases "w = wi") (auto simp: gl)
        then have "cache_peek_byte_raw view ?c a = view (c_next c) a"
          using peek_miss [of ?c a view] True by simp
        with True False hit out [of a] show ?thesis by simp
      next
        case other: False
        with hit False show ?thesis using peek_hit [OF g u, of wj a view] by (auto simp: gl)
      qed
    next
      case miss
      then have "cache_peek_byte_raw view ?c a = view (c_next c) a"
        using peek_miss [of ?c a view] False by (auto simp: gl)
      with miss False show ?thesis by simp
    qed
  qed
qed

lemma store_data:
  assumes wf: "cache_wf view minv c" and i: "wi < nways c (set_of c a)"
    and h: "holds c (set_of c a) (get_line c (set_of c a) wi) a"
    and len: "length d = 2 ^ block_bits c"
  defines "c' \<equiv> upd_line (set_of c a) wi (\<lambda>l. l\<lparr>cl_data := d, cl_dirty := True\<rparr>) c"
  shows "cache_wf view minv c'"
    and "cache_peek_byte_raw view c' x =
      (if base_of c x = base_of c a then Some (d ! off_of c x) else cache_peek_byte_raw view c x)"
proof -
  let ?l = "get_line c (set_of c a) wi"
  let ?l' = "?l\<lparr>cl_data := d, cl_dirty := True\<rparr>"
  have si: "set_of c a < 2 ^ set_bits c" by (rule set_of_less)
  have geo: "block_bits c + set_bits c < 64" using wf by (simp add: cache_wf_def cache_geom_def)
  have hold: "holds c (set_of c a) ?l' x = holds c (set_of c a) ?l x" for x
    by (simp add: holds_def)
  have c': "c' = upd_line (set_of c a) wi (\<lambda>_. ?l') c"
    by (simp add: c'_def upd_line_def get_line_def)
  have same: "holds c (set_of c a) ?l x \<longleftrightarrow> base_of c x = base_of c a" for x
    using h same_line_iff [OF geo, of x a] by (auto simp: holds_def)
  have ok: "line_ok view c (set_of c a) ?l'"
    using cache_wfD(4) [OF wf si i] by (simp add: line_ok_def hold)
  have fr: "\<And>x wj. holds c (set_of c a) ?l' x \<Longrightarrow> wj < nways c (set_of c a) \<Longrightarrow> wj \<noteq> wi \<Longrightarrow>
                  \<not> holds c (set_of c a) (get_line c (set_of c a) wj) x"
    using holds_unique [OF cache_wfD(3) [OF wf] i] by (auto simp: hold)
  note r = replace_line [OF wf si i, of ?l', OF _ ok fr]
  show "cache_wf view minv c'"
    unfolding c' using len by (intro r(1)) (simp_all add: hold)
  show "cache_peek_byte_raw view c' x =
      (if base_of c x = base_of c a then Some (d ! off_of c x) else cache_peek_byte_raw view c x)"
    unfolding c' using len by (subst r(2)) (simp_all add: hold same)
qed

lemma install_line_ok:
  assumes wf: "cache_wf view minv c" and i: "wi < nways c (set_of c addr)"
    and none: "\<And>wj. wj < nways c (set_of c addr) \<Longrightarrow>
        \<not> holds c (set_of c addr) (get_line c (set_of c addr) wj) addr"
    and sync: "\<And>a. holds c (set_of c addr) (get_line c (set_of c addr) wi) a \<Longrightarrow>
        view (c_next c) a = Some (cl_data (get_line c (set_of c addr) wi) ! off_of c a)"
    and len: "length d = 2 ^ block_bits c"
    and d: "\<And>a. base_of c a = base_of c addr \<Longrightarrow> view (c_next c) a = Some (d ! off_of c a)"
  defines "c' \<equiv> install_line (set_of c addr) wi (tag_of c addr) d c"
  shows "cache_wf view minv c'"
    and "cache_peek_byte_raw view c' = cache_peek_byte_raw view c"
proof -
  let ?si = "set_of c addr" and ?tick = "access_tick c + 1"
  let ?l' = "\<lparr>cl_valid = True, cl_dirty = False, cl_tag = tag_of c addr, cl_data = d, cl_lru_age = ?tick\<rparr>"
  let ?c1 = "c\<lparr>access_tick := ?tick\<rparr>"
  have geo: "block_bits c + set_bits c < 64" using wf by (simp add: cache_wf_def cache_geom_def)
  have si: "?si < 2 ^ set_bits c" by (rule set_of_less)
  have hold: "holds c ?si ?l' a \<longleftrightarrow> base_of c a = base_of c addr" for a
    using same_line_iff [OF geo, of a addr] by (auto simp: holds_def)
  have sl: "same_lines c ?c1" by (simp add: same_lines_def)
  note wf1 = same_lines_wf [OF wf sl] and pk1 = same_lines_peek [OF wf sl]
  have c': "c' = upd_line ?si wi (\<lambda>_. ?l') ?c1"
    by (simp add: c'_def install_line_def Let_def)
  have noline: "\<not> holds c ?si (get_line c ?si wj) a"
    if "base_of c a = base_of c addr" "wj < nways c ?si" for a wj
    using none [OF that(2)] same_line_iff [OF geo, of a addr] that(1) by (auto simp: holds_def)
  have ok: "line_ok view ?c1 ?si ?l'"
    using d hold [of addr] by (auto simp: line_ok_def hold)
  have fr: "\<And>a wj. holds ?c1 ?si ?l' a \<Longrightarrow> wj < nways ?c1 ?si \<Longrightarrow> wj \<noteq> wi \<Longrightarrow>
                  \<not> holds ?c1 ?si (get_line ?c1 ?si wj) a"
    using noline by (simp add: hold)
  have out: "\<And>a. holds ?c1 ?si (get_line ?c1 ?si wi) a \<Longrightarrow> \<not> holds ?c1 ?si ?l' a \<Longrightarrow>
                view (c_next ?c1) a = Some (cl_data (get_line ?c1 ?si wi) ! off_of ?c1 a)"
    using sync by simp
  note r = replace_line [OF wf1 _ _ _ ok fr out]
  show "cache_wf view minv c'"
    unfolding c' using len i si by (intro r(1)) simp_all
  show "cache_peek_byte_raw view c' = cache_peek_byte_raw view c"
  proof
    fix a
    have "cache_peek_byte_raw view c' a = (if holds ?c1 ?si ?l' a then Some (cl_data ?l' ! off_of ?c1 a)
        else cache_peek_byte_raw view ?c1 a)"
      unfolding c' using len i si by (intro r(2)) simp_all
    also have "\<dots> = cache_peek_byte_raw view c a"
    proof (cases "base_of c a = base_of c addr")
      case True
      then have "set_of c a = ?si" using same_line_iff [OF geo, of a addr] by simp
      then have "cache_peek_byte_raw view c a = view (c_next c) a"
        using noline [OF True] peek_miss [of c a view] by simp
      with True d show ?thesis by (simp add: hold)
    next
      case False
      then show ?thesis by (simp add: hold pk1)
    qed
    finally show "cache_peek_byte_raw view c' a = cache_peek_byte_raw view c a" .
  qed
qed

subsection \<open>Positions and victims\<close>

lemma position_SomeD: "position P xs = Some i \<Longrightarrow> i < length xs \<and> P (xs ! i)"
  by (induction xs arbitrary: i) (auto split: if_splits)

lemma position_NoneD: "position P xs = None \<Longrightarrow> i < length xs \<Longrightarrow> \<not> P (xs ! i)"
proof (induction xs arbitrary: i)
  case (Cons x xs)
  then show ?case by (cases i) (auto split: if_splits)
qed simp

lemma min_age_index_less: "min_age_index ws = Some i \<Longrightarrow> i < length ws"
  by (induction ws arbitrary: i) (auto split: option.splits if_splits)

lemma min_age_index_None: "min_age_index ws = None \<longleftrightarrow> ws = []"
  by (cases ws) (auto split: option.splits)

lemma victim_way_less: "ws \<noteq> [] \<Longrightarrow> victim_way ws < length ws"
  by (auto simp: victim_way_def min_age_index_None dest: position_SomeD min_age_index_less
      split: option.splits)

subsection \<open>Moving blocks to and from the next level\<close>

context byte_mem
begin

lemma write_bytes_mapped:
  assumes "minv n" "\<And>k. k < length bs \<Longrightarrow> view n (B + of_nat (i + k)) \<noteq> None"
    and "i + length bs \<le> 2 ^ 63"
  shows "\<exists>n'. write_bytes ops B i bs n = (Inr (), n') \<and> minv n'
    \<and> (\<forall>k < length bs. view n' (B + of_nat (i + k)) = Some (bs ! k))
    \<and> (\<forall>a. (\<forall>k < length bs. a \<noteq> B + of_nat (i + k)) \<longrightarrow> view n' a = view n a)"
  using assms
proof (induction bs arbitrary: i n)
  case (Cons b bs)
  from Cons.prems(2) [of 0] have "view n (B + of_nat i) \<noteq> None" by simp
  from wr_mapped [OF Cons.prems(1) this]
  obtain n1 where n1: "write_byte ops (B + of_nat i) b n = (Inr (), n1)" "minv n1"
    and v1: "view n1 = (view n)(B + of_nat i \<mapsto> b)" by blast
  have dist: "B + of_nat i \<noteq> B + of_nat (Suc i + k)" if "k < length bs" for k
  proof -
    have "unat (of_nat i :: u64) = i" "unat (of_nat (Suc i + k) :: u64) = Suc i + k"
      using that Cons.prems(3) by (intro unat_of_nat_small [where b = 63]; simp)+
    then show ?thesis by (metis add_left_cancel less_add_Suc1 less_irrefl)
  qed
  have "view n1 (B + of_nat (Suc i + k)) \<noteq> None" if "k < length bs" for k
    using Cons.prems(2) [of "Suc k"] that by (simp add: v1)
  from Cons.IH [OF n1(2) this]
  obtain n' where n': "write_bytes ops B (Suc i) bs n1 = (Inr (), n')" "minv n'"
    and in': "\<forall>k < length bs. view n' (B + of_nat (Suc i + k)) = Some (bs ! k)"
    and out': "\<forall>a. (\<forall>k < length bs. a \<noteq> B + of_nat (Suc i + k)) \<longrightarrow> view n' a = view n1 a"
    using Cons.prems(3) by auto
  have "view n' (B + of_nat (i + k)) = Some ((b # bs) ! k)" if "k < length (b # bs)" for k
  proof (cases k)
    case 0
    then show ?thesis using out' dist by (simp add: v1)
  next
    case (Suc j)
    then show ?thesis using in' that by simp
  qed
  moreover have "view n' a = view n a" if a: "\<forall>k < length (b # bs). a \<noteq> B + of_nat (i + k)" for a
  proof -
    have "\<forall>k < length bs. a \<noteq> B + of_nat (Suc i + k)"
      using a by (metis add_Suc_shift length_Cons Suc_mono)
    moreover have "a \<noteq> B + of_nat i" using a by (metis add_0_right length_Cons zero_less_Suc)
    ultimately show ?thesis using out' by (simp add: v1)
  qed
  ultimately show ?case using n1 n' by auto
qed (simp add: sreturn_def)

lemma read_bytes_mapped:
  assumes "minv n" "\<And>k. k < m \<Longrightarrow> view n (B + of_nat (i + k)) = Some (d k)"
  shows "\<exists>n'. read_bytes ops B i m n = (Inr (map d [0..<m]), n') \<and> minv n' \<and> view n' = view n"
  using assms
proof (induction m arbitrary: i n d)
  case (Suc m)
  from Suc.prems(2) [of 0] have "view n (B + of_nat i) = Some (d 0)" by simp
  from rd_mapped [OF Suc.prems(1) this]
  obtain n1 where n1: "read_byte ops (B + of_nat i) n = (Inr (d 0), n1)" "minv n1" "view n1 = view n"
    by blast
  have "view n1 (B + of_nat (Suc i + k)) = Some (d (Suc k))" if "k < m" for k
    using Suc.prems(2) [of "Suc k"] that n1(3) by simp
  from Suc.IH [OF n1(2) this]
  obtain n' where n': "read_bytes ops B (Suc i) m n1 = (Inr (map (\<lambda>k. d (Suc k)) [0..<m]), n')"
    "minv n'" "view n' = view n1" by blast
  have "[0..<Suc m] = 0 # map Suc [0..<m]" by (simp add: map_Suc_upt upt_conv_Cons)
  then have "map d [0..<Suc m] = d 0 # map (\<lambda>k. d (Suc k)) [0..<m]" by (simp add: comp_def)
  then show ?case using n1 n' by (auto simp: sreturn_def)
qed (simp add: sreturn_def)

lemma read_bytes_unmapped:
  assumes "minv n" "view n B = None" "0 < m"
  shows "\<exists>e n'. read_bytes ops B 0 m n = (Inl e, n') \<and> minv n' \<and> view n' = view n"
proof -
  obtain k where "m = Suc k" using assms(3) by (cases m) auto
  then show ?thesis using rd_unmapped [OF assms(1,2)] by auto
qed

end

end
