(* ===== verification/Cache_Level.thy ===== *)
theory Cache_Level
  imports Cache_Correct
begin

text \<open>
  A cache over a level that keeps the contract \<open>byte_mem\<close> keeps it itself: \<open>resolve_line\<close>
  changes neither the view nor the invariant, reads of any width return the little-endian
  bytes of the view and writes update them. The interpretations at the end stack the three
  caches of the machine on RAM.
\<close>

declare read_n_loop.simps(2) [simp del] write_n_loop.simps(2) [simp del]

lemma lift_next_eq:
  "m (c_next c) = (r, n') \<Longrightarrow> lift_next m c = (r, c\<lparr>c_next := n'\<rparr>)"
  by (simp add: lift_next_def)

lemma fetch_mask:
  assumes "cache_geom c"
  shows "addr AND NOT (of_nat (cp_block_size (c_params c)) - 1) = base_of c addr"
proof -
  have "(of_nat (2 ^ block_bits c) - 1 :: u64) = mask (block_bits c)"
    by (simp add: mask_eq_exp_minus_1)
  then show ?thesis using assms by (simp add: base_of_def cache_geom_def)
qed

text \<open>The loops keep the line of the last block they resolved.\<close>

definition last_line :: "'n cache \<Rightarrow> u64 \<Rightarrow> nat \<Rightarrow> nat \<Rightarrow> bool" where
  "last_line c lb ls lw \<longleftrightarrow>
     (\<forall>a. base_of c a = lb \<longrightarrow> ls = set_of c a \<and> lw < nways c ls \<and> holds c ls (get_line c ls lw) a)"

definition same_geom :: "'n cache \<Rightarrow> 'n cache \<Rightarrow> bool" where
  "same_geom c c' \<longleftrightarrow> block_bits c' = block_bits c \<and> set_bits c' = set_bits c \<and> c_params c' = c_params c"

definition touch ::
  "'n mem_ops \<Rightarrow> (bool \<Rightarrow> ('n cache, unit) action) \<Rightarrow> u64 \<Rightarrow> u64 \<Rightarrow> nat \<Rightarrow> nat \<Rightarrow> u64 \<Rightarrow> ('n cache, nat \<times> nat) action" where
  "touch ops cnt block lb ls lw a =
     (if block \<noteq> lb
      then sbind (resolve_line ops a) (\<lambda>(si, wi, miss). sbind (cnt miss) (\<lambda>_. sreturn (si, wi)))
      else sreturn (ls, lw))"

subsection \<open>Flat byte memory, the reference\<close>

text \<open>The bytes \<open>a, a + 1, \<dots>\<close> of a view, and the view after storing a list of bytes there.\<close>

definition flat_bytes :: "(u64 \<Rightarrow> u8 option) \<Rightarrow> u64 \<Rightarrow> nat \<Rightarrow> u8 list" where
  "flat_bytes m a n = map (\<lambda>j. the (m (a + of_nat j))) [0..<n]"

fun flat_store :: "(u64 \<Rightarrow> u8 option) \<Rightarrow> u64 \<Rightarrow> u8 list \<Rightarrow> u64 \<Rightarrow> u8 option" where
  "flat_store m a [] = m"
| "flat_store m a (b # bs) = flat_store (m(a \<mapsto> b)) (a + 1) bs"

definition all_mapped :: "(u64 \<Rightarrow> u8 option) \<Rightarrow> u64 \<Rightarrow> nat \<Rightarrow> bool" where
  "all_mapped m a n \<longleftrightarrow> (\<forall>j < n. m (a + of_nat j) \<noteq> None)"

lemma flat_store_nth:
  assumes "length bs \<le> 2 ^ 63"
  shows "k < length bs \<Longrightarrow> flat_store m a bs (a + of_nat k) = Some (bs ! k)"
    and "(\<And>k. k < length bs \<Longrightarrow> x \<noteq> a + of_nat k) \<Longrightarrow> flat_store m a bs x = m x"
proof -
  have out: "(\<And>k. k < length bs \<Longrightarrow> x \<noteq> a + of_nat k) \<Longrightarrow> flat_store m a bs x = m x" for m a bs x
  proof (induction bs arbitrary: m a)
    case (Cons b bs)
    have "x \<noteq> (a + 1) + of_nat k" if "k < length bs" for k
      using Cons.prems [of "Suc k"] that by (simp add: add.assoc)
    moreover have "x \<noteq> a" using Cons.prems [of 0] by simp
    ultimately show ?case using Cons.IH [of "a + 1"] by simp
  qed simp
  then show "(\<And>k. k < length bs \<Longrightarrow> x \<noteq> a + of_nat k) \<Longrightarrow> flat_store m a bs x = m x" .
  show "k < length bs \<Longrightarrow> flat_store m a bs (a + of_nat k) = Some (bs ! k)"
    using assms
  proof (induction bs arbitrary: m a k)
    case (Cons b bs)
    show ?case
    proof (cases k)
      case 0
      have "a \<noteq> (a + 1) + of_nat j" if "j < length bs" for j
      proof -
        have "unat (of_nat (Suc j) :: u64) = Suc j"
          using that Cons.prems(2) by (intro unat_of_nat_small [where b = 63]) auto
        then have "(of_nat (Suc j) :: u64) \<noteq> 0" by (metis nat.distinct(1) unat_0)
        then show ?thesis by (simp add: add.assoc)
      qed
      then show ?thesis using 0 out [of bs a "a + 1"] by simp
    next
      case (Suc j)
      have "a + of_nat (Suc j) = (a + 1) + of_nat j" by (simp add: add.assoc)
      moreover have "flat_store (m(a \<mapsto> b)) (a + 1) bs ((a + 1) + of_nat j) = Some (bs ! j)"
        using Suc Cons.prems by (intro Cons.IH) simp_all
      ultimately show ?thesis using Suc by (simp only: flat_store.simps nth_Cons_Suc)
    qed
  qed simp
qed

lemma ucast_u8_u64 [simp]: "ucast (ucast (b :: u8) :: u64) = b"
  by (rule bit_word_eqI) (simp add: bit_simps)

lemma sbind_counted:
  "sbind (sbind m (\<lambda>(si, wi, miss). sbind (cnt miss) (\<lambda>_. sreturn (si, wi)))) (\<lambda>(si, wi). g si wi)
   = sbind m (\<lambda>(si, wi, miss). sbind (cnt miss) (\<lambda>_. g si wi))"
  by (simp add: sbind_assoc split_def)

context byte_mem
begin

abbreviation cwf :: "'m cache \<Rightarrow> bool" where
  "cwf \<equiv> cache_wf view minv"

abbreviation cview :: "'m cache \<Rightarrow> u64 \<Rightarrow> u8 option" where
  "cview \<equiv> cache_peek_byte_raw view"

subsection \<open>Resolving a line\<close>

lemma evict_line:
  fixes addr :: u64 and wi :: nat
  assumes wf: "cwf c" and wi: "wi < nways c (set_of c addr)"
  defines "l \<equiv> get_line c (set_of c addr) wi"
  shows "\<exists>n'. (if cl_valid l \<and> cl_dirty l
      then lift_next (write_bytes ops (line_base_address c (cl_tag l) (index_of c addr)) 0 (cl_data l))
      else sreturn ()) c = (Inr (), c\<lparr>c_next := n'\<rparr>)
    \<and> cwf (c\<lparr>c_next := n'\<rparr>) \<and> cview (c\<lparr>c_next := n'\<rparr>) = cview c
    \<and> (\<forall>a. holds c (set_of c addr) l a \<longrightarrow> view n' a = Some (cl_data l ! off_of c a))"
proof (cases "cl_valid l \<and> cl_dirty l")
  case False
  have "line_ok view c (set_of c addr) l"
    unfolding l_def by (rule cache_wfD(4) [OF wf set_of_less wi])
  with False have "holds c (set_of c addr) l a \<longrightarrow> view (c_next c) a = Some (cl_data l ! off_of c a)" for a
    by (auto simp: line_ok_def holds_def)
  then show ?thesis
    using False wf by (intro exI [of _ "c_next c"]) (auto simp: sreturn_def)
next
  case True
  note g = cache_wfD(1) [OF wf]
  have geo: "block_bits c + set_bits c < 64" "block_bits c < 64" "block_bits c \<le> 6"
    using g by (simp_all add: cache_geom_def)
  have ok: "line_ok view c (set_of c addr) l"
    unfolding l_def by (rule cache_wfD(4) [OF wf set_of_less wi])
  then obtain a0 where a0: "holds c (set_of c addr) l a0" using True by (auto simp: line_ok_def)
  then have "index_of c a0 = index_of c addr" by (simp add: holds_def set_of_def word_unat_eq_iff)
  with a0 have base: "line_base_address c (cl_tag l) (index_of c addr) = base_of c a0"
    using line_base_of [OF geo(1), of a0] by (simp add: holds_def)
  have hold: "holds c (set_of c addr) l a \<longleftrightarrow> base_of c a = base_of c a0" for a
    using a0 same_line_iff [OF geo(1), of a a0] by (auto simp: holds_def)
  have len: "length (cl_data l) = 2 ^ block_bits c"
    using g wi set_of_less [of c addr] by (simp add: cache_geom_def l_def)
  have "(2::nat) ^ block_bits c \<le> 2 ^ 63" using geo(3) by (intro power_increasing) auto
  moreover have "view (c_next c) (base_of c a0 + of_nat k) \<noteq> None" if "k < 2 ^ block_bits c" for k
    using ok base_add(1) [OF that geo(2), of a0] by (simp add: line_ok_def hold)
  ultimately obtain n' where
      n': "write_bytes ops (base_of c a0) 0 (cl_data l) (c_next c) = (Inr (), n')" "minv n'"
    and inb: "\<And>k. k < 2 ^ block_bits c \<Longrightarrow> view n' (base_of c a0 + of_nat k) = Some (cl_data l ! k)"
    and outb: "\<And>a. (\<forall>k < 2 ^ block_bits c. a \<noteq> base_of c a0 + of_nat k) \<Longrightarrow> view n' a = view (c_next c) a"
    using write_bytes_mapped [OF cache_wfD(2) [OF wf], of "cl_data l" "base_of c a0" 0]
    by (auto simp: len)
  have v: "view n' a = (if holds c (set_of c addr) l a then Some (cl_data l ! off_of c a)
      else view (c_next c) a)" for a
  proof (cases "base_of c a = base_of c a0")
    case True
    then show ?thesis using inb [OF off_of_less, of a] base_plus_off [of c a] by (simp add: hold)
  next
    case False
    then have "\<forall>k < 2 ^ block_bits c. a \<noteq> base_of c a0 + of_nat k"
      using base_add(1) [OF _ geo(2), of _ a0] by metis
    with False show ?thesis by (simp add: hold outb)
  qed
  have "lift_next (write_bytes ops (line_base_address c (cl_tag l) (index_of c addr)) 0 (cl_data l)) c
      = (Inr (), c\<lparr>c_next := n'\<rparr>)"
    unfolding base using n'(1) by (rule lift_next_eq)
  moreover note synced_next [where view = view, OF wf set_of_less [of c addr] wi n'(2), OF v [unfolded l_def]]
  ultimately show ?thesis using True v by (intro exI [of _ n']) (simp add: l_def)
qed

lemma resolve_hit:
  assumes wf: "cwf c"
    and p: "position (\<lambda>w. cl_valid w \<and> cl_tag w = tag_of c addr) (ways (c_sets c ! set_of c addr)) = Some wi"
  shows "\<exists>c'. resolve_line ops addr c = (Inr (set_of c addr, wi, False), c')
    \<and> cwf c' \<and> cview c' = cview c \<and> same_lines c c'
    \<and> wi < nways c' (set_of c addr)
    \<and> holds c' (set_of c addr) (get_line c' (set_of c addr) wi) addr"
proof -
  let ?si = "set_of c addr" and ?t = "access_tick c + 1"
  let ?c' = "upd_line ?si wi (\<lambda>l. l\<lparr>cl_lru_age := ?t\<rparr>) (c\<lparr>access_tick := ?t\<rparr>)"
  have wi: "wi < nways c ?si" "cl_valid (get_line c ?si wi)" "cl_tag (get_line c ?si wi) = tag_of c addr"
    using position_SomeD [OF p] by (simp_all add: nways_def get_line_def)
  have si: "?si < length (c_sets c)"
    using set_of_less [of c addr] cache_wfD(1) [OF wf] by (simp add: cache_geom_def)
  note gl = get_line_upd [where c = "c\<lparr>access_tick := ?t\<rparr>" and f = "\<lambda>l. l\<lparr>cl_lru_age := ?t\<rparr>", simplified, OF si wi(1)]
  have sl: "same_lines c ?c'" by (auto simp: same_lines_def gl)
  have "resolve_line ops addr c = (Inr (?si, wi, False), ?c')"
    using p by (simp add: resolve_line_def address_fields_eq set_of_def [symmetric] Let_def)
  then show ?thesis
    using same_lines_wf [OF wf sl] same_lines_peek [OF wf sl] sl wi by (auto simp: gl holds_def)
qed

lemma resolve_miss_unfold:
  assumes wf: "cwf c"
    and p: "position (\<lambda>w. cl_valid w \<and> cl_tag w = tag_of c addr) (ways (c_sets c ! set_of c addr)) = None"
  shows "\<exists>wi n1. wi < nways c (set_of c addr)
    \<and> resolve_line ops addr c = sbind (lift_next (read_bytes ops (base_of c addr) 0 (2 ^ block_bits c)))
         (\<lambda>d c1. (Inr (set_of c addr, wi, True), install_line (set_of c addr) wi (tag_of c addr) d c1))
         (c\<lparr>c_next := n1\<rparr>)
    \<and> cwf (c\<lparr>c_next := n1\<rparr>) \<and> cview (c\<lparr>c_next := n1\<rparr>) = cview c
    \<and> (\<forall>a. holds c (set_of c addr) (get_line c (set_of c addr) wi) a \<longrightarrow>
          view n1 a = Some (cl_data (get_line c (set_of c addr) wi) ! off_of c a))"
proof -
  let ?si = "set_of c addr" and ?wi = "victim_way (ways (c_sets c ! set_of c addr))"
  note g = cache_wfD(1) [OF wf]
  have "nways c ?si \<noteq> 0" using g set_of_less [of c addr] by (simp add: cache_geom_def)
  then have wi: "?wi < nways c ?si" using victim_way_less by (simp add: nways_def)
  from evict_line [OF wf wi] obtain n1 where n1:
    "(if cl_valid (get_line c ?si ?wi) \<and> cl_dirty (get_line c ?si ?wi)
      then lift_next (write_bytes ops (line_base_address c (cl_tag (get_line c ?si ?wi)) (index_of c addr))
             0 (cl_data (get_line c ?si ?wi)))
      else sreturn ()) c = (Inr (), c\<lparr>c_next := n1\<rparr>)"
    "cwf (c\<lparr>c_next := n1\<rparr>)" "cview (c\<lparr>c_next := n1\<rparr>) = cview c"
    "\<forall>a. holds c ?si (get_line c ?si ?wi) a \<longrightarrow> view n1 a = Some (cl_data (get_line c ?si ?wi) ! off_of c a)"
    by blast
  have bs: "cp_block_size (c_params c) = 2 ^ block_bits c" using g by (simp add: cache_geom_def)
  have "resolve_line ops addr c = sbind (lift_next (read_bytes ops (base_of c addr) 0 (2 ^ block_bits c)))
         (\<lambda>d c1. (Inr (?si, ?wi, True), install_line ?si ?wi (tag_of c addr) d c1)) (c\<lparr>c_next := n1\<rparr>)"
    unfolding resolve_line_def address_fields_eq prod.case Let_def
      set_of_def [symmetric] p option.case get_line_def [symmetric] fetch_mask [OF g]
    unfolding bs by (rule sbind_Inr, rule n1(1))
  with wi n1 show ?thesis by blast
qed

lemma resolve_mapped:
  assumes wf: "cwf c" and m: "cview c addr \<noteq> None"
  shows "\<exists>wi miss c'. resolve_line ops addr c = (Inr (set_of c addr, wi, miss), c')
    \<and> cwf c' \<and> cview c' = cview c
    \<and> block_bits c' = block_bits c \<and> set_bits c' = set_bits c \<and> c_params c' = c_params c
    \<and> wi < nways c' (set_of c addr)
    \<and> holds c' (set_of c addr) (get_line c' (set_of c addr) wi) addr"
proof (cases "position (\<lambda>w. cl_valid w \<and> cl_tag w = tag_of c addr) (ways (c_sets c ! set_of c addr))")
  case (Some wi)
  from resolve_hit [OF wf Some] show ?thesis by (auto simp: same_lines_def)
next
  case None
  let ?si = "set_of c addr"
  from resolve_miss_unfold [OF wf None] obtain wi n1 where
    wi: "wi < nways c ?si" and r: "resolve_line ops addr c =
        sbind (lift_next (read_bytes ops (base_of c addr) 0 (2 ^ block_bits c)))
         (\<lambda>d c1. (Inr (?si, wi, True), install_line ?si wi (tag_of c addr) d c1)) (c\<lparr>c_next := n1\<rparr>)"
    and wf1: "cwf (c\<lparr>c_next := n1\<rparr>)" and v1: "cview (c\<lparr>c_next := n1\<rparr>) = cview c"
    and sync: "\<forall>a. holds c ?si (get_line c ?si wi) a \<longrightarrow> view n1 a = Some (cl_data (get_line c ?si wi) ! off_of c a)"
    by blast
  note g = cache_wfD(1) [OF wf]
  have geo: "block_bits c + set_bits c < 64" "block_bits c < 64" "block_bits c \<le> 6"
    using g by (simp_all add: cache_geom_def)
  have none: "\<not> holds c ?si (get_line c ?si wj) addr" if "wj < nways c ?si" for wj
    using position_NoneD [OF None, of wj] that by (auto simp: holds_def nways_def get_line_def)
  have "cview (c\<lparr>c_next := n1\<rparr>) addr = view n1 addr"
    using peek_miss [of "c\<lparr>c_next := n1\<rparr>" addr view] none by simp
  then have ma: "view n1 addr \<noteq> None" using m v1 by simp
  have inv1: "minv n1" using cache_wfD(2) [OF wf1] by simp
  have mapped: "view n1 a \<noteq> None" if "base_of c a = base_of c addr" for a
    using block_uniform [OF inv1 same_block_base [OF that geo(3)]] ma by blast
  let ?d = "\<lambda>k. the (view n1 (base_of c addr + of_nat k))"
  have "view n1 (base_of c addr + of_nat (0 + k)) = Some (?d k)" if "k < 2 ^ block_bits c" for k
    using mapped [OF base_add(1) [OF that geo(2)]] by simp
  from read_bytes_mapped [OF inv1 this] obtain n2 where
    n2: "read_bytes ops (base_of c addr) 0 (2 ^ block_bits c) n1 = (Inr (map ?d [0..<2 ^ block_bits c]), n2)"
      "minv n2" "view n2 = view n1" by blast
  let ?D = "map ?d [0..<2 ^ block_bits c]" and ?c2 = "c\<lparr>c_next := n2\<rparr>"
  let ?c' = "install_line ?si wi (tag_of c addr) ?D ?c2"
  have res: "resolve_line ops addr c = (Inr (?si, wi, True), ?c')"
    unfolding r using n2(1) by (subst sbind_Inr) (auto simp: lift_next_def)
  have "cwf ?c2 \<and> cview ?c2 = cview c"
    using synced_next [where view = view, OF wf1, of ?si wi n2] n2 wi set_of_less [of c addr] sync v1 by auto
  then have wf2: "cwf ?c2" and v2: "cview ?c2 = cview c" by auto
  have D: "view (c_next ?c2) a = Some (?D ! off_of c a)" if "base_of c a = base_of c addr" for a
    using mapped [OF that] off_of_less [of c a] base_plus_off [of c a] that by (simp add: n2(3))
  note inst = install_line_ok [OF wf2, where addr = addr and wi = wi and d = ?D, simplified,
      OF wi none, unfolded n2(3)]
  have "cwf ?c'" "cview ?c' = cview ?c2"
    using inst sync D by (simp_all add: n2(3))
  moreover have "wi < nways ?c' ?si" using wi by (simp add: install_line_def Let_def)
  moreover have "holds ?c' ?si (get_line ?c' ?si wi) addr"
    using wi set_of_less [of c addr] g
    by (simp add: install_line_def Let_def get_line_upd holds_def cache_geom_def)
  moreover have "block_bits ?c' = block_bits c \<and> set_bits ?c' = set_bits c \<and> c_params ?c' = c_params c"
    by (simp add: install_line_def Let_def)
  ultimately show ?thesis
    using res v2 by (intro exI [of _ wi] exI [of _ True] exI [of _ ?c']) simp
qed

lemma resolve_unmapped:
  assumes wf: "cwf c" and m: "cview c addr = None"
  shows "\<exists>e c'. resolve_line ops addr c = (Inl e, c') \<and> cwf c' \<and> cview c' = cview c"
proof (cases "position (\<lambda>w. cl_valid w \<and> cl_tag w = tag_of c addr) (ways (c_sets c ! set_of c addr))")
  case (Some wi)
  then have "wi < nways c (set_of c addr)" "holds c (set_of c addr) (get_line c (set_of c addr) wi) addr"
    using position_SomeD [OF Some] by (simp_all add: nways_def get_line_def holds_def)
  then show ?thesis using peek_hit [OF cache_wfD(1,3) [OF wf]] m by fastforce
next
  case None
  let ?si = "set_of c addr"
  from resolve_miss_unfold [OF wf None] obtain wi n1 where
    wi: "wi < nways c ?si" and r: "resolve_line ops addr c =
        sbind (lift_next (read_bytes ops (base_of c addr) 0 (2 ^ block_bits c)))
         (\<lambda>d c1. (Inr (?si, wi, True), install_line ?si wi (tag_of c addr) d c1)) (c\<lparr>c_next := n1\<rparr>)"
    and wf1: "cwf (c\<lparr>c_next := n1\<rparr>)" and v1: "cview (c\<lparr>c_next := n1\<rparr>) = cview c"
    and sync: "\<forall>a. holds c ?si (get_line c ?si wi) a \<longrightarrow> view n1 a = Some (cl_data (get_line c ?si wi) ! off_of c a)"
    by blast
  have geo: "block_bits c \<le> 6" using cache_wfD(1) [OF wf] by (simp add: cache_geom_def)
  have none: "\<not> holds c ?si (get_line c ?si wj) addr" if "wj < nways c ?si" for wj
    using position_NoneD [OF None, of wj] that by (auto simp: holds_def nways_def get_line_def)
  have inv1: "minv n1" using cache_wfD(2) [OF wf1] by simp
  have "view n1 addr = None"
    using peek_miss [of "c\<lparr>c_next := n1\<rparr>" addr view] none m v1 by simp
  moreover have "base_of c addr = base_of c (base_of c addr)" by (simp add: base_of_def)
  ultimately have "view n1 (base_of c addr) = None"
    using block_uniform [OF inv1 same_block_base [of c addr "base_of c addr", OF _ geo]] by simp
  from read_bytes_unmapped [OF inv1 this, of "2 ^ block_bits c"] obtain e n2 where
    n2: "read_bytes ops (base_of c addr) 0 (2 ^ block_bits c) n1 = (Inl e, n2)" "minv n2" "view n2 = view n1"
    by auto
  have "cwf (c\<lparr>c_next := n2\<rparr>) \<and> cview (c\<lparr>c_next := n2\<rparr>) = cview c"
    using synced_next [where view = view, OF wf1, of ?si wi n2] n2 wi set_of_less [of c addr] sync v1 by auto
  moreover have "resolve_line ops addr c = (Inl e, c\<lparr>c_next := n2\<rparr>)"
    unfolding r using n2(1) by (subst sbind_Inl) (auto simp: lift_next_def)
  ultimately show ?thesis by blast
qed

subsection \<open>Touching the line of one byte\<close>

lemma last_line_initial: "cache_geom c \<Longrightarrow> last_line c (- 1) ls lw"
proof -
  assume g: "cache_geom c"
  have "\<not> bit (base_of c a) 0" for a
    using g by (simp add: base_of_def bit_simps cache_geom_def)
  moreover have "bit (- 1 :: u64) 0" by simp
  ultimately have "base_of c a \<noteq> - 1" for a by metis
  then show ?thesis by (simp add: last_line_def)
qed

lemma last_line_holds:
  assumes "cache_geom c" "wi < nways c (set_of c a)" "holds c (set_of c a) (get_line c (set_of c a) wi) a"
  shows "last_line c (base_of c a) (set_of c a) wi"
proof -
  have "block_bits c + set_bits c < 64" using assms(1) by (simp add: cache_geom_def)
  note sl = same_line_iff [OF this]
  show ?thesis
    unfolding last_line_def
  proof (intro allI impI)
    fix x assume "base_of c x = base_of c a"
    then have "tag_of c x = tag_of c a" "set_of c x = set_of c a" using sl [of x a] by auto
    with assms show "set_of c a = set_of c x \<and> wi < nways c (set_of c a)
        \<and> holds c (set_of c a) (get_line c (set_of c a) wi) x" by (simp add: holds_def)
  qed
qed

lemma in_line:
  assumes "cache_geom c" "wi < nways c (set_of c a)" "holds c (set_of c a) (get_line c (set_of c a) wi) a"
    and i: "off_of c a + i < 2 ^ block_bits c"
  shows "set_of c (a + of_nat i) = set_of c a" "base_of c (a + of_nat i) = base_of c a"
    "off_of c (a + of_nat i) = off_of c a + i"
    "holds c (set_of c a) (get_line c (set_of c a) wi) (a + of_nat i)"
proof -
  have "block_bits c < 64" using assms(1) by (simp add: cache_geom_def)
  from add_in_block [OF i this]
  show b: "base_of c (a + of_nat i) = base_of c a" and "off_of c (a + of_nat i) = off_of c a + i" .
  show "set_of c (a + of_nat i) = set_of c a"
    "holds c (set_of c a) (get_line c (set_of c a) wi) (a + of_nat i)"
    using last_line_holds [OF assms(1-3)] b unfolding last_line_def by metis+
qed

lemma touch_mapped:
  assumes wf: "cwf c" and ll: "last_line c lb ls lw" and m: "cview c a \<noteq> None"
    and cnt: "\<And>miss c. \<exists>s. cnt miss c = (Inr (), c\<lparr>c_stats := s\<rparr>)"
  shows "\<exists>wi c1. touch ops cnt (base_of c a) lb ls lw a c = (Inr (set_of c a, wi), c1)
    \<and> cwf c1 \<and> cview c1 = cview c \<and> same_geom c c1
    \<and> wi < nways c1 (set_of c a) \<and> holds c1 (set_of c a) (get_line c1 (set_of c a) wi) a"
proof (cases "base_of c a = lb")
  case True
  then have "ls = set_of c a \<and> lw < nways c ls \<and> holds c ls (get_line c ls lw) a"
    using ll unfolding last_line_def by blast
  then show ?thesis
    using True wf by (auto simp: touch_def sreturn_def same_geom_def)
next
  case False
  from resolve_mapped [OF wf m] obtain wi miss c1 where
    r: "resolve_line ops a c = (Inr (set_of c a, wi, miss), c1)"
    and c1: "cwf c1" "cview c1 = cview c"
      "block_bits c1 = block_bits c" "set_bits c1 = set_bits c" "c_params c1 = c_params c"
      "wi < nways c1 (set_of c a)" "holds c1 (set_of c a) (get_line c1 (set_of c a) wi) a"
    by blast
  obtain s where s: "cnt miss c1 = (Inr (), c1\<lparr>c_stats := s\<rparr>)" using cnt by blast
  have sl: "same_lines c1 (c1\<lparr>c_stats := s\<rparr>)" by (simp add: same_lines_def)
  have "touch ops cnt (base_of c a) lb ls lw a c = (Inr (set_of c a, wi), c1\<lparr>c_stats := s\<rparr>)"
    using False r s by (simp add: touch_def sreturn_def)
  then show ?thesis
    using same_lines_wf [OF c1(1) sl] same_lines_peek [OF c1(1) sl] c1 by (auto simp: same_geom_def)
qed

lemma touch_unmapped:
  assumes wf: "cwf c" and ll: "last_line c lb ls lw" and m: "cview c a = None"
  shows "\<exists>e c1. touch ops cnt (base_of c a) lb ls lw a c = (Inl e, c1) \<and> cwf c1 \<and> cview c1 = cview c"
proof (cases "base_of c a = lb")
  case True
  then have "ls = set_of c a \<and> lw < nways c ls \<and> holds c ls (get_line c ls lw) a"
    using ll unfolding last_line_def by blast
  then have False using peek_hit [OF cache_wfD(1,3) [OF wf], of lw a view] m by auto
  then show ?thesis ..
next
  case False
  with resolve_unmapped [OF wf m] show ?thesis by (auto simp: touch_def)
qed

lemma line_byte:
  assumes "cwf c" "wi < nways c (set_of c a)" "holds c (set_of c a) (get_line c (set_of c a) wi) a"
  shows "cview c a = Some (cl_data (get_line c (set_of c a) wi) ! off_of c a)"
  using peek_hit [OF cache_wfD(1,3) [OF assms(1)] assms(2,3)] .

subsection \<open>Reads\<close>

lemma read_n_loop_Suc:
  "read_n_loop ops addr i (Suc k) lb ls lw res c =
     sbind (touch ops count_read (base_of c (addr + of_nat i)) lb ls lw (addr + of_nat i))
       (\<lambda>(si, wi) c1. read_n_loop ops addr (Suc i) k (base_of c (addr + of_nat i)) si wi
          (res OR push_bit (i * 8) (ucast (cl_data (get_line c1 si wi) ! off_of c (addr + of_nat i)))) c1) c"
  unfolding read_n_loop.simps Let_def touch_def base_of_def off_of_def push_one_minus_one ..

lemma count_read_stats: "\<exists>s. count_read miss c = (Inr (), c\<lparr>c_stats := s\<rparr>)"
  by (auto simp: count_read_def)

lemma count_write_stats: "\<exists>s. count_write miss c = (Inr (), c\<lparr>c_stats := s\<rparr>)"
  by (auto simp: count_write_def)

lemmas touch_read = touch_mapped [where cnt = count_read, OF _ _ _ count_read_stats]
lemmas touch_write = touch_mapped [where cnt = count_write, OF _ _ _ count_write_stats]

lemma read_n_loop_mapped:
  assumes "cwf c" "last_line c lb ls lw" "\<And>j. j < k \<Longrightarrow> cview c (addr + of_nat (i + j)) \<noteq> None"
  shows "\<exists>c'. read_n_loop ops addr i k lb ls lw res c =
      (Inr (res OR push_bit (i * 8) (from_le_bytes
         (map (\<lambda>j. the (cview c (addr + of_nat (i + j)))) [0..<k]))), c')
    \<and> cwf c' \<and> cview c' = cview c \<and> same_geom c c'"
  using assms
proof (induction k arbitrary: i lb ls lw res c)
  case 0
  then show ?case by (simp add: sreturn_def same_geom_def)
next
  case (Suc k)
  let ?a = "addr + of_nat i"
  have "cview c ?a \<noteq> None" using Suc.prems(3) [of 0] by simp
  from touch_read [OF Suc.prems(1,2) this] obtain wi c1 where
    t: "touch ops count_read (base_of c ?a) lb ls lw ?a c = (Inr (set_of c ?a, wi), c1)"
    and c1: "cwf c1" "cview c1 = cview c" and g: "same_geom c c1"
      and h: "wi < nways c1 (set_of c ?a)" "holds c1 (set_of c ?a) (get_line c1 (set_of c ?a) wi) ?a"
    by blast
  have f: "base_of c1 = base_of c" "set_of c1 = set_of c" "off_of c1 = off_of c"
    using g fields_cong [of c1 c] by (simp_all add: same_geom_def)
  let ?b = "cl_data (get_line c1 (set_of c ?a) wi) ! off_of c ?a"
  have b: "the (cview c ?a) = ?b"
    using line_byte [OF c1(1), of wi ?a] h c1(2) by (simp add: f)
  have ll: "last_line c1 (base_of c ?a) (set_of c ?a) wi"
    using last_line_holds [OF cache_wfD(1) [OF c1(1)], of wi ?a] h by (simp add: f)
  have "cview c1 (addr + of_nat (Suc i + j)) \<noteq> None" if "j < k" for j
    using Suc.prems(3) [of "Suc j"] that c1(2) by simp
  from Suc.IH [OF c1(1) ll this, of "res OR push_bit (i * 8) (ucast ?b)"] obtain c' where
    l: "read_n_loop ops addr (Suc i) k (base_of c ?a) (set_of c ?a) wi (res OR push_bit (i * 8) (ucast ?b)) c1
      = (Inr ((res OR push_bit (i * 8) (ucast ?b)) OR push_bit (Suc i * 8) (from_le_bytes
         (map (\<lambda>j. the (cview c1 (addr + of_nat (Suc i + j)))) [0..<k]))), c')"
      "cwf c'" "cview c' = cview c1" "same_geom c1 c'" by blast
  have "[0..<Suc k] = 0 # map Suc [0..<k]" by (simp add: map_Suc_upt upt_conv_Cons)
  then have bytes: "map (\<lambda>j. the (cview c (addr + of_nat (i + j)))) [0..<Suc k] =
      ?b # map (\<lambda>j. the (cview c1 (addr + of_nat (Suc i + j)))) [0..<k]"
    by (simp add: comp_def b c1(2) ac_simps)
  have "read_n_loop ops addr i (Suc k) lb ls lw res c = (Inr (res OR push_bit (i * 8) (from_le_bytes
      (map (\<lambda>j. the (cview c (addr + of_nat (i + j)))) [0..<Suc k]))), c')"
    unfolding read_n_loop_Suc bytes from_le_bytes.simps
    using l(1) t by (simp add: push_bit_or or.assoc push_bit_push_bit add.commute)
  then show ?case using l c1(2) g by (auto simp: same_geom_def)
qed

lemma read_n_loop_unmapped:
  assumes "cwf c" "last_line c lb ls lw" "j < k" "cview c (addr + of_nat (i + j)) = None"
  shows "\<exists>e c'. read_n_loop ops addr i k lb ls lw res c = (Inl e, c') \<and> cwf c' \<and> cview c' = cview c"
  using assms
proof (induction k arbitrary: i j lb ls lw res c)
  case (Suc k)
  let ?a = "addr + of_nat i"
  show ?case
  proof (cases "cview c ?a")
    case None
    from touch_unmapped [OF Suc.prems(1,2) None, of count_read] obtain e c1 where
      t: "touch ops count_read (base_of c ?a) lb ls lw ?a c = (Inl e, c1)" and "cwf c1" "cview c1 = cview c"
      by blast
    then show ?thesis by (simp add: read_n_loop_Suc t)
  next
    case (Some b)
    then have "cview c ?a \<noteq> None" by simp
    from touch_read [OF Suc.prems(1,2) this] obtain wi c1 where
      t: "touch ops count_read (base_of c ?a) lb ls lw ?a c = (Inr (set_of c ?a, wi), c1)"
      and c1: "cwf c1" "cview c1 = cview c" and g: "same_geom c c1"
        and h: "wi < nways c1 (set_of c ?a)" "holds c1 (set_of c ?a) (get_line c1 (set_of c ?a) wi) ?a"
      by blast
    have f: "base_of c1 = base_of c" "set_of c1 = set_of c"
      using g fields_cong [of c1 c] by (simp_all add: same_geom_def)
    have ll: "last_line c1 (base_of c ?a) (set_of c ?a) wi"
      using last_line_holds [OF cache_wfD(1) [OF c1(1)], of wi ?a] h by (simp add: f)
    obtain j' where "j = Suc j'" using Some Suc.prems(4) by (cases j) auto
    then have "j' < k" "cview c1 (addr + of_nat (Suc i + j')) = None"
      using Suc.prems(3,4) c1(2) by simp_all
    from Suc.IH [OF c1(1) ll this] obtain e c' where
      "read_n_loop ops addr (Suc i) k (base_of c ?a) (set_of c ?a) wi
         (res OR push_bit (i * 8) (ucast (cl_data (get_line c1 (set_of c ?a) wi) ! off_of c ?a))) c1 = (Inl e, c')"
      "cwf c'" "cview c' = cview c1" by blast
    then show ?thesis using c1(2) by (simp add: read_n_loop_Suc t)
  qed
qed simp

lemma aligned_mask:
  "n = 2 ^ j \<Longrightarrow> (of_nat n - 1 :: u64) = mask j"
  by (simp add: mask_eq_exp_minus_1)

lemma aligned_same_block:
  assumes g: "cache_geom c" and n: "n = 2 ^ j" "n \<le> 8" and al: "addr AND (of_nat n - 1) = 0"
  shows "off_of c addr + n \<le> 2 ^ block_bits c"
proof -
  have geo: "3 \<le> block_bits c" "block_bits c < 64" using g by (simp_all add: cache_geom_def)
  have "(2::nat) ^ j \<le> 2 ^ 3" using n by simp
  then have "j \<le> 3" by (rule power_le_imp_le_exp [rotated]) simp
  then show ?thesis
    using aligned_in_block [of addr j c] al geo n aligned_mask [OF n(1)] by simp
qed

lemma block_uniform_view:
  assumes wf: "cwf c" and ab: "same_block a b" and none: "cview c a = None"
  shows "cview c b = None"
proof (rule ccontr)
  assume b: "cview c b \<noteq> None"
  have mapped: "view (c_next c) x \<noteq> None" if "cview c x \<noteq> None" for x
    using wf
  proof (cases rule: peek_cases [where a = x])
    case (hit wi)
    then show ?thesis
      using cache_wfD(4) [OF wf set_of_less hit(1)] by (auto simp: line_ok_def)
  next
    case miss
    then show ?thesis using that by simp
  qed
  have "view (c_next c) a \<noteq> None"
    using block_uniform [OF cache_wfD(2) [OF wf] ab] mapped [OF b] by blast
  moreover from wf have "view (c_next c) a = None"
    by (cases rule: peek_cases [where a = a]) (use none in auto)
  ultimately show False by simp
qed

theorem read_n_mapped:
  assumes wf: "cwf c" and n: "n = 2 ^ j" "n \<le> 8" and m: "all_mapped (cview c) addr n"
  shows "\<exists>c'. read_n ops addr n c = (Inr (from_le_bytes (flat_bytes (cview c) addr n)), c')
    \<and> cwf c' \<and> cview c' = cview c \<and> same_geom c c'"
proof (cases "1 < n \<and> addr AND (of_nat n - 1) = 0")
  case False
  have "cview c (addr + of_nat (0 + i)) \<noteq> None" if "i < n" for i
    using m that by (simp add: all_mapped_def)
  from read_n_loop_mapped [OF wf last_line_initial [OF cache_wfD(1) [OF wf]] this, where res = 0]
  have "\<exists>c'. read_n_loop ops addr 0 n (- 1) 0 0 0 c = (Inr (from_le_bytes (flat_bytes (cview c) addr n)), c')
    \<and> cwf c' \<and> cview c' = cview c \<and> same_geom c c'" by (simp add: flat_bytes_def)
  with False show ?thesis by (auto simp: read_n_def)
next
  case True
  note g = cache_wfD(1) [OF wf]
  have ma: "cview c addr \<noteq> None" using m True by (force simp: all_mapped_def)
  have "\<not> base_of c addr = - 1"
    using last_line_initial [OF g, of "Suc (set_of c addr)" 0] by (auto simp: last_line_def)
  then have tt: "touch ops count_read (base_of c addr) (- 1) 0 0 addr =
     sbind (resolve_line ops addr) (\<lambda>(si, wi, miss). sbind (count_read miss) (\<lambda>_. sreturn (si, wi)))"
    by (simp add: touch_def)
  from touch_read [OF wf last_line_initial [OF g] ma] obtain wi c1 where
    t: "touch ops count_read (base_of c addr) (- 1) 0 0 addr c = (Inr (set_of c addr, wi), c1)"
    and c1: "cwf c1" "cview c1 = cview c" and sg: "same_geom c c1"
    and h: "wi < nways c1 (set_of c addr)" "holds c1 (set_of c addr) (get_line c1 (set_of c addr) wi) addr"
    by blast
  have f: "base_of c1 = base_of c" "set_of c1 = set_of c" "off_of c1 = off_of c" "block_bits c1 = block_bits c"
    using sg fields_cong [of c1 c] by (simp_all add: same_geom_def)
  let ?d = "cl_data (get_line c1 (set_of c addr) wi)"
  have inb: "off_of c addr + n \<le> 2 ^ block_bits c"
    using aligned_same_block [OF g n] True by simp
  have len: "length ?d = 2 ^ block_bits c"
    using cache_wfD(1) [OF c1(1)] h(1) set_of_less [of c addr] sg
    by (simp add: cache_geom_def same_geom_def)
  have byte: "cview c (addr + of_nat i) = Some (?d ! (off_of c addr + i))" if "i < n" for i
    using line_byte [OF c1(1), of wi "addr + of_nat i"] in_line [OF cache_wfD(1) [OF c1(1)], of wi addr i]
      h inb that by (simp add: f c1(2))
  have "flat_bytes (cview c) addr n = take n (drop (off_of c addr) ?d)"
    using inb len by (intro nth_equalityI) (simp_all add: flat_bytes_def byte)
  moreover have "read_n ops addr n c = (Inr (from_le_bytes (take n (drop (off_of c addr) ?d))), c1)"
  proof -
    have "read_n ops addr n = sbind (touch ops count_read (base_of c addr) (- 1) 0 0 addr)
       (\<lambda>(si, wi) c. (Inr (from_le_bytes (take n (drop (off_of c addr) (cl_data (get_line c si wi))))), c))"
      unfolding tt read_n_def if_P [OF True] Let_def off_of_def push_one_minus_one
      by (rule sbind_counted [symmetric])
    then show ?thesis using t by (simp add: f)
  qed
  ultimately show ?thesis using c1 sg by auto
qed

lemma aligned_unmapped:
  assumes wf: "cwf c" and n: "n = 2 ^ j" "n \<le> 8" and al: "addr AND (of_nat n - 1) = 0"
    and m: "\<not> all_mapped (cview c) addr n"
  shows "cview c addr = None"
proof -
  note g = cache_wfD(1) [OF wf]
  obtain i where i: "i < n" "cview c (addr + of_nat i) = None" using m by (auto simp: all_mapped_def)
  have "base_of c (addr + of_nat i) = base_of c addr"
    using add_in_block [of c addr i] aligned_same_block [OF g n al] i(1) g by (simp add: cache_geom_def)
  then have "same_block (addr + of_nat i) addr"
    using g by (intro same_block_base [of c]) (simp_all add: cache_geom_def)
  then show ?thesis using block_uniform_view [OF wf _ i(2)] by blast
qed

theorem read_n_unmapped:
  assumes wf: "cwf c" and n: "n = 2 ^ j" "n \<le> 8" and m: "\<not> all_mapped (cview c) addr n"
  shows "\<exists>e c'. read_n ops addr n c = (Inl e, c') \<and> cwf c' \<and> cview c' = cview c"
proof (cases "1 < n \<and> addr AND (of_nat n - 1) = 0")
  case False
  obtain i where i: "i < n" "cview c (addr + of_nat (0 + i)) = None" using m by (auto simp: all_mapped_def)
  from read_n_loop_unmapped [OF wf last_line_initial [OF cache_wfD(1) [OF wf]] i, of 0 0 0]
  show ?thesis using False by (auto simp: read_n_def)
next
  case True
  with aligned_unmapped [OF wf n _ m] have "cview c addr = None" by simp
  from resolve_unmapped [OF wf this] obtain e c' where
    "resolve_line ops addr c = (Inl e, c')" "cwf c'" "cview c' = cview c" by blast
  with True show ?thesis by (simp add: read_n_def)
qed

subsection \<open>Writes\<close>

lemma store_bytes:
  assumes wf: "cwf c" and i: "wi < nways c (set_of c a)"
    and h: "holds c (set_of c a) (get_line c (set_of c a) wi) a"
    and len: "off_of c a + length bs \<le> 2 ^ block_bits c"
  defines "c' \<equiv> upd_line (set_of c a) wi (\<lambda>l. (set_bytes (off_of c a) bs l)\<lparr>cl_dirty := True\<rparr>) c"
  shows "cwf c'" "cview c' = flat_store (cview c) a bs" "same_geom c c'"
    "wi < nways c' (set_of c a)" "holds c' (set_of c a) (get_line c' (set_of c a) wi) a"
proof -
  let ?l = "get_line c (set_of c a) wi"
  let ?d = "take (off_of c a) (cl_data ?l) @ bs @ drop (off_of c a + length bs) (cl_data ?l)"
  note g = cache_wfD(1) [OF wf]
  have si: "set_of c a < length (c_sets c)" "set_of c a < 2 ^ set_bits c"
    using g set_of_less [of c a] by (simp_all add: cache_geom_def)
  have ld: "length (cl_data ?l) = 2 ^ block_bits c" using g i si by (simp add: cache_geom_def)
  have c': "c' = upd_line (set_of c a) wi (\<lambda>l. l\<lparr>cl_data := ?d, cl_dirty := True\<rparr>) c"
    by (simp add: c'_def upd_line_def get_line_def set_bytes_def)
  have lend: "length ?d = 2 ^ block_bits c" using ld len by simp
  note st = store_data [OF wf i h lend, folded c']
  show "cwf c'" by (rule st(1))
  show "same_geom c c'" by (simp add: c' same_geom_def)
  show "wi < nways c' (set_of c a)" using i by (simp add: c')
  show "holds c' (set_of c a) (get_line c' (set_of c a) wi) a"
    using h by (simp add: c' get_line_upd [OF si(1) i] holds_def)
  have small: "length bs \<le> 2 ^ 63"
  proof -
    have "(2::nat) ^ block_bits c \<le> 2 ^ 63" using g by (intro power_increasing) (auto simp: cache_geom_def)
    then show ?thesis using len by linarith
  qed
  have within: "base_of c (a + of_nat k) = base_of c a" "off_of c (a + of_nat k) = off_of c a + k"
    if "k < length bs" for k
    using in_line [OF g i h, of k] that len by simp_all
  show "cview c' = flat_store (cview c) a bs"
  proof
    fix x
    show "cview c' x = flat_store (cview c) a bs x"
    proof (cases "\<exists>k < length bs. x = a + of_nat k")
      case True
      then obtain k where k: "k < length bs" "x = a + of_nat k" by blast
      have "?d ! (off_of c a + k) = bs ! k" using k(1) ld len by (simp add: nth_append)
      then show ?thesis using k within [OF k(1)] flat_store_nth(1) [OF small k(1)] by (simp add: st(2))
    next
      case False
      then have fs: "flat_store (cview c) a bs x = cview c x"
        using flat_store_nth(2) [OF small] by blast
      show ?thesis
      proof (cases "base_of c x = base_of c a")
        case True
        then have "set_of c x = set_of c a" "holds c (set_of c a) ?l x"
          using last_line_holds [OF g i h] True unfolding last_line_def by metis+
        then have cx: "cview c x = Some (cl_data ?l ! off_of c x)"
          using line_byte [OF wf, of wi x] i by simp
        have "\<not> (off_of c a \<le> off_of c x \<and> off_of c x < off_of c a + length bs)"
        proof
          assume r: "off_of c a \<le> off_of c x \<and> off_of c x < off_of c a + length bs"
          let ?k = "off_of c x - off_of c a"
          have "a + of_nat ?k = base_of c a + of_nat (off_of c a) + of_nat ?k"
            by (simp only: base_plus_off)
          also have "\<dots> = base_of c x + of_nat (off_of c x)"
            using r True by (simp add: add.assoc of_nat_add [symmetric] del: of_nat_add)
          finally have "x = a + of_nat ?k" by (simp only: base_plus_off)
          moreover have "?k < length bs" using r by linarith
          ultimately show False using False by blast
        qed
        then have "?d ! off_of c x = cl_data ?l ! off_of c x"
          using ld off_of_less [of c x] len by (auto simp: nth_append)
        with True cx fs show ?thesis by (simp add: st(2))
      next
        case other: False
        then show ?thesis using fs by (simp add: st(2))
      qed
    qed
  qed
qed

lemma write_n_loop_Suc:
  assumes "\<And>si wi c1. touch ops count_write (base_of c (addr + of_nat i)) lb ls lw (addr + of_nat i) c
      = (Inr (si, wi), c1) \<Longrightarrow> cp_write_back (c_params c1) \<and> si < length (c_sets c1) \<and> wi < nways c1 si
        \<and> off_of c (addr + of_nat i) < length (cl_data (get_line c1 si wi))"
  shows "write_n_loop ops addr v i (Suc k) lb ls lw c =
     sbind (touch ops count_write (base_of c (addr + of_nat i)) lb ls lw (addr + of_nat i))
       (\<lambda>(si, wi) c1. write_n_loop ops addr v (Suc i) k (base_of c (addr + of_nat i)) si wi
          (upd_line si wi (\<lambda>l. (set_bytes (off_of c (addr + of_nat i))
              [ucast (drop_bit (i * 8) v AND 0xFF)] l)\<lparr>cl_dirty := True\<rparr>) c1)) c"
proof (cases "touch ops count_write (base_of c (addr + of_nat i)) lb ls lw (addr + of_nat i) c")
  case (Pair r c1)
  show ?thesis
  proof (cases r)
    case (Inl e)
    with Pair show ?thesis
      unfolding write_n_loop.simps Let_def push_one_minus_one base_of_def [symmetric]
        touch_def [symmetric] by simp
  next
    case (Inr sw)
    obtain si wi where sw: "sw = (si, wi)" by (cases sw)
    let ?o = "off_of c (addr + of_nat i)" and ?b = "ucast (drop_bit (i * 8) v AND 0xFF) :: u8"
    have a: "cp_write_back (c_params c1)" "si < length (c_sets c1)" "wi < nways c1 si"
      "?o < length (cl_data (get_line c1 si wi))"
      using assms [of si wi c1] Pair Inr sw by auto
    have "set_bytes ?o [?b] (ways (c_sets c1 ! si) ! wi) = (ways (c_sets c1 ! si) ! wi)
        \<lparr>cl_data := (cl_data (ways (c_sets c1 ! si) ! wi))[?o := ?b]\<rparr>"
      using a(4) by (simp add: get_line_def set_bytes_def upd_conv_take_nth_drop)
    then have "upd_line si wi (\<lambda>l. l\<lparr>cl_dirty := True\<rparr>) (upd_line si wi (\<lambda>l. l\<lparr>cl_data := (cl_data l)[?o := ?b]\<rparr>) c1)
        = upd_line si wi (\<lambda>l. (set_bytes ?o [?b] l)\<lparr>cl_dirty := True\<rparr>) c1"
      using a(2,3) by (simp add: upd_line_def nways_def)
    with Pair Inr sw a(1) show ?thesis
      unfolding write_n_loop.simps Let_def push_one_minus_one base_of_def [symmetric]
        off_of_def [symmetric] touch_def [symmetric] by simp
  qed
qed

lemma touch_write_ready:
  assumes wf: "cwf c1" and g: "same_geom c c1" and wi: "wi < nways c1 (set_of c a)"
  shows "cp_write_back (c_params c1)" "set_of c a < length (c_sets c1)"
    "off_of c x < length (cl_data (get_line c1 (set_of c a) wi))"
  using cache_wfD(1) [OF wf] g wi set_of_less [of c a] off_of_less [of c x]
  by (simp_all add: cache_geom_def same_geom_def)

lemma write_step:
  fixes addr v :: u64 and i :: nat
  defines "a \<equiv> addr + of_nat i" and "b \<equiv> ucast (drop_bit (i * 8) v) :: u8"
  assumes wf: "cwf c" and ll: "last_line c lb ls lw" and m: "cview c a \<noteq> None"
  shows "\<exists>wi c2. write_n_loop ops addr v i (Suc k) lb ls lw c =
      write_n_loop ops addr v (Suc i) k (base_of c a) (set_of c a) wi c2
    \<and> cwf c2 \<and> cview c2 = (cview c)(a \<mapsto> b) \<and> same_geom c c2
    \<and> last_line c2 (base_of c a) (set_of c a) wi"
proof -
  have b: "ucast (drop_bit (i * 8) v AND 0xFF) = b"
    unfolding b_def by (rule bit_word_eqI) (auto simp: bit_simps bitfield)
  from touch_write [OF wf ll m] obtain wi c1 where
    t: "touch ops count_write (base_of c a) lb ls lw a c = (Inr (set_of c a, wi), c1)"
    and c1: "cwf c1" "cview c1 = cview c" and g: "same_geom c c1"
    and h: "wi < nways c1 (set_of c a)" "holds c1 (set_of c a) (get_line c1 (set_of c a) wi) a"
    by blast
  have f: "base_of c1 = base_of c" "set_of c1 = set_of c" "off_of c1 = off_of c" "block_bits c1 = block_bits c"
    using g fields_cong [of c1 c] by (simp_all add: same_geom_def)
  note ready = touch_write_ready [OF c1(1) g h(1)]
  let ?c2 = "upd_line (set_of c a) wi (\<lambda>l. (set_bytes (off_of c a) [b] l)\<lparr>cl_dirty := True\<rparr>) c1"
  have "off_of c1 a + length [b] \<le> 2 ^ block_bits c1"
    using off_of_less [of c a] by (simp add: f)
  note st = store_bytes [OF c1(1), of wi a, unfolded f(2,3), OF h this [unfolded f(3)], simplified]
  have "last_line ?c2 (base_of c a) (set_of c a) wi"
    using last_line_holds [OF cache_wfD(1) [OF st(1)], of wi a] st(3-5) h(1) by (simp add: f)
  moreover have "write_n_loop ops addr v i (Suc k) lb ls lw c =
      write_n_loop ops addr v (Suc i) k (base_of c a) (set_of c a) wi ?c2"
    using t ready h(1) unfolding a_def
    by (subst write_n_loop_Suc) (auto simp: b [unfolded b_def] b_def)
  moreover have "same_geom c ?c2" using g by (simp add: same_geom_def)
  ultimately show ?thesis using st c1 by (intro exI [of _ wi] exI [of _ ?c2]) simp
qed

lemma write_n_loop_mapped:
  assumes "cwf c" "last_line c lb ls lw" "\<And>j. j < k \<Longrightarrow> cview c (addr + of_nat (i + j)) \<noteq> None"
  shows "\<exists>c'. write_n_loop ops addr v i k lb ls lw c = (Inr (), c') \<and> cwf c'
    \<and> cview c' = flat_store (cview c) (addr + of_nat i) (map (\<lambda>j. ucast (drop_bit ((i + j) * 8) v)) [0..<k])
    \<and> same_geom c c'"
  using assms
proof (induction k arbitrary: i lb ls lw c)
  case 0
  then show ?case by (simp add: sreturn_def same_geom_def)
next
  case (Suc k)
  let ?a = "addr + of_nat i" and ?b = "ucast (drop_bit (i * 8) v) :: u8"
  have "cview c ?a \<noteq> None" using Suc.prems(3) [of 0] by simp
  from write_step [OF Suc.prems(1,2) this] obtain wi c2 where
    s: "write_n_loop ops addr v i (Suc k) lb ls lw c =
      write_n_loop ops addr v (Suc i) k (base_of c ?a) (set_of c ?a) wi c2"
    and c2: "cwf c2" "cview c2 = (cview c)(?a \<mapsto> ?b)" "same_geom c c2"
      "last_line c2 (base_of c ?a) (set_of c ?a) wi" by blast
  have "cview c2 (addr + of_nat (Suc i + j)) \<noteq> None" if "j < k" for j
    using Suc.prems(3) [of "Suc j"] that c2(2) by simp
  from Suc.IH [OF c2(1,4) this] obtain c' where
    l: "write_n_loop ops addr v (Suc i) k (base_of c ?a) (set_of c ?a) wi c2 = (Inr (), c')" "cwf c'"
      "cview c' = flat_store (cview c2) (addr + of_nat (Suc i))
         (map (\<lambda>j. ucast (drop_bit ((Suc i + j) * 8) v)) [0..<k])" "same_geom c2 c'" by blast
  have "[0..<Suc k] = 0 # map Suc [0..<k]" by (simp add: map_Suc_upt upt_conv_Cons)
  then have "map (\<lambda>j. ucast (drop_bit ((i + j) * 8) v) :: u8) [0..<Suc k] =
      ?b # map (\<lambda>j. ucast (drop_bit ((Suc i + j) * 8) v)) [0..<k]" by (simp add: comp_def ac_simps)
  moreover have "addr + of_nat (Suc i) = ?a + 1" by (simp add: ac_simps)
  ultimately show ?case
    using s l c2 by (intro exI [of _ c']) (simp add: same_geom_def ac_simps del: upt_Suc)
qed

lemma write_n_loop_unmapped:
  assumes "cwf c" "last_line c lb ls lw" "j < k" "cview c (addr + of_nat (i + j)) = None"
    and "\<And>j'. j' < j \<Longrightarrow> cview c (addr + of_nat (i + j')) \<noteq> None" "i + k \<le> 2 ^ 63"
  shows "\<exists>e c'. write_n_loop ops addr v i k lb ls lw c = (Inl e, c') \<and> cwf c'
    \<and> cview c' = flat_store (cview c) (addr + of_nat i) (map (\<lambda>j. ucast (drop_bit ((i + j) * 8) v)) [0..<j])"
  using assms
proof (induction k arbitrary: i j lb ls lw c)
  case (Suc k)
  let ?a = "addr + of_nat i" and ?b = "ucast (drop_bit (i * 8) v) :: u8"
  show ?case
  proof (cases j)
    case 0
    then have none: "cview c ?a = None" using Suc.prems(4) by simp
    from touch_unmapped [OF Suc.prems(1,2) none, of count_write] obtain e c1 where
      t: "touch ops count_write (base_of c ?a) lb ls lw ?a c = (Inl e, c1)" "cwf c1" "cview c1 = cview c"
      by blast
    then have "write_n_loop ops addr v i (Suc k) lb ls lw c = (Inl e, c1)"
      by (subst write_n_loop_Suc) auto
    then show ?thesis using 0 t by simp
  next
    case (Suc j')
    have "cview c ?a \<noteq> None" using Suc.prems(5) [of 0] Suc by simp
    from write_step [OF Suc.prems(1,2) this] obtain wi c2 where
      s: "write_n_loop ops addr v i (Suc k) lb ls lw c =
        write_n_loop ops addr v (Suc i) k (base_of c ?a) (set_of c ?a) wi c2"
      and c2: "cwf c2" "cview c2 = (cview c)(?a \<mapsto> ?b)" "same_geom c c2"
        "last_line c2 (base_of c ?a) (set_of c ?a) wi" by blast
    have ne: "?a \<noteq> addr + of_nat (Suc i + j')"
    proof -
      have "unat (of_nat i :: u64) = i" "unat (of_nat (Suc i + j') :: u64) = Suc i + j'"
        using Suc.prems(3,6) Suc by (intro unat_of_nat_small [where b = 63]; simp)+
      then show ?thesis by (metis add_left_cancel less_add_Suc1 less_irrefl)
    qed
    have "j' < k" "cview c2 (addr + of_nat (Suc i + j')) = None"
      using Suc.prems(3,4) ne by (simp_all add: c2(2) Suc)
    moreover have "cview c2 (addr + of_nat (Suc i + x)) \<noteq> None" if "x < j'" for x
      using Suc.prems(5) [of "Suc x"] that Suc by (simp add: c2(2))
    ultimately obtain e c' where
      l: "write_n_loop ops addr v (Suc i) k (base_of c ?a) (set_of c ?a) wi c2 = (Inl e, c')" "cwf c'"
        "cview c' = flat_store (cview c2) (addr + of_nat (Suc i))
           (map (\<lambda>j. ucast (drop_bit ((Suc i + j) * 8) v)) [0..<j'])"
      using Suc.IH [OF c2(1,4), of j' "Suc i"] Suc.prems(6) by (metis add_Suc add_Suc_right)
    have "[0..<Suc j'] = 0 # map Suc [0..<j']" by (simp add: map_Suc_upt upt_conv_Cons)
    then have "map (\<lambda>j. ucast (drop_bit ((i + j) * 8) v) :: u8) [0..<Suc j'] =
        ?b # map (\<lambda>j. ucast (drop_bit ((Suc i + j) * 8) v)) [0..<j']" by (simp add: comp_def ac_simps)
    moreover have "addr + of_nat (Suc i) = ?a + 1" by (simp add: ac_simps)
    ultimately show ?thesis
      using s l c2 Suc by (intro exI [of _ e] exI [of _ c']) (simp add: same_geom_def ac_simps del: upt_Suc)
  qed
qed simp

text \<open>Aligned writes resolve one line and store all bytes at once.\<close>

lemma aligned_write:
  assumes wf: "cwf c" and n: "n = 2 ^ j" "n \<le> 8" "1 < n" and al: "addr AND (of_nat n - 1) = 0"
    and m: "cview c addr \<noteq> None"
  shows "\<exists>c'. write_n ops addr v n c = (Inr (), c') \<and> cwf c'
    \<and> cview c' = flat_store (cview c) addr (to_le_bytes n v) \<and> same_geom c c'"
proof -
  note g = cache_wfD(1) [OF wf]
  have "\<not> base_of c addr = - 1"
    using last_line_initial [OF g, of "Suc (set_of c addr)" 0] by (auto simp: last_line_def)
  then have tt: "touch ops count_write (base_of c addr) (- 1) 0 0 addr =
     sbind (resolve_line ops addr) (\<lambda>(si, wi, miss). sbind (count_write miss) (\<lambda>_. sreturn (si, wi)))"
    by (simp add: touch_def)
  from touch_write [OF wf last_line_initial [OF g] m] obtain wi c1 where
    t: "touch ops count_write (base_of c addr) (- 1) 0 0 addr c = (Inr (set_of c addr, wi), c1)"
    and c1: "cwf c1" "cview c1 = cview c" and sg: "same_geom c c1"
    and h: "wi < nways c1 (set_of c addr)" "holds c1 (set_of c addr) (get_line c1 (set_of c addr) wi) addr"
    by blast
  have f: "set_of c1 = set_of c" "off_of c1 = off_of c" "block_bits c1 = block_bits c"
    using sg fields_cong [of c1 c] by (simp_all add: same_geom_def)
  note ready = touch_write_ready [OF c1(1) sg h(1)]
  let ?bs = "to_le_bytes n v"
  let ?c' = "upd_line (set_of c addr) wi (\<lambda>l. (set_bytes (off_of c addr) ?bs l)\<lparr>cl_dirty := True\<rparr>) c1"
  have "off_of c1 addr + length ?bs \<le> 2 ^ block_bits c1"
    using aligned_same_block [OF g n(1,2) al] by (simp add: f to_le_bytes_def)
  note st = store_bytes [OF c1(1), of wi addr, unfolded f(1,2), OF h this [unfolded f(2)]]
  define fin where "fin = (\<lambda>si wi c1.
     let c2 = upd_line si wi (set_bytes (off_of c1 addr) ?bs) c1
     in if cp_write_back (c_params c2)
        then (Inr (), upd_line si wi (\<lambda>l. l\<lparr>cl_dirty := True\<rparr>) c2)
        else lift_next
               (if n = 2 then write_halfword ops addr (ucast v)
                else if n = 4 then write_word ops addr (ucast v)
                else if n = 8 then write_doubleword ops addr v
                else write_bytes ops addr 0 ?bs) c2)"
  have "write_n ops addr v n c =
      sbind (touch ops count_write (base_of c addr) (- 1) 0 0 addr) (\<lambda>(si, wi). fin si wi) c"
    using g n(3) al unfolding tt sbind_counted
    by (simp add: write_n_def cache_geom_def fin_def off_of_def mask_eq_exp_minus_1 Let_def)
  also have "\<dots> = fin (set_of c addr) wi c1" using t by simp
  also have "\<dots> = (Inr (), ?c')"
    using ready h(1) by (simp add: fin_def f upd_line_def nways_def Let_def)
  finally show ?thesis using st c1 sg by (intro exI [of _ ?c']) (simp add: same_geom_def)
qed

theorem write_n_mapped:
  assumes wf: "cwf c" and n: "n = 2 ^ j" "n \<le> 8" and m: "all_mapped (cview c) addr n"
  shows "\<exists>c'. write_n ops addr v n c = (Inr (), c') \<and> cwf c'
    \<and> cview c' = flat_store (cview c) addr (to_le_bytes n v) \<and> same_geom c c'"
proof (cases "1 < n \<and> addr AND (of_nat n - 1) = 0")
  case True
  have "cview c addr \<noteq> None" using m True by (force simp: all_mapped_def)
  with True aligned_write [OF wf n] show ?thesis by blast
next
  case False
  note g = cache_wfD(1) [OF wf]
  have "cview c (addr + of_nat (0 + i)) \<noteq> None" if "i < n" for i
    using m that by (simp add: all_mapped_def)
  from write_n_loop_mapped [OF wf last_line_initial [OF g] this, of n v 0 0]
  obtain c' where "write_n_loop ops addr v 0 n (- 1) 0 0 c = (Inr (), c')" "cwf c'"
    "cview c' = flat_store (cview c) addr (to_le_bytes n v)" "same_geom c c'"
    by (auto simp: to_le_bytes_def)
  moreover have "write_n ops addr v n c = write_n_loop ops addr v 0 n (- 1) 0 0 c"
    using g False by (auto simp: write_n_def cache_geom_def)
  ultimately show ?thesis by auto
qed

text \<open>A write that reaches an unmapped byte fails, after having stored exactly the bytes before
  the first unmapped one.\<close>

theorem write_n_unmapped:
  assumes wf: "cwf c" and n: "n = 2 ^ j" "n \<le> 8" and m: "\<not> all_mapped (cview c) addr n"
  shows "\<exists>e c' i. write_n ops addr v n c = (Inl e, c') \<and> cwf c' \<and> i < n
    \<and> all_mapped (cview c) addr i \<and> cview c (addr + of_nat i) = None
    \<and> cview c' = flat_store (cview c) addr (take i (to_le_bytes n v))"
proof (cases "1 < n \<and> addr AND (of_nat n - 1) = 0")
  case True
  with aligned_unmapped [OF wf n _ m] have none: "cview c addr = None" by simp
  from resolve_unmapped [OF wf none] obtain e c' where
    r: "resolve_line ops addr c = (Inl e, c')" "cwf c'" "cview c' = cview c" by blast
  have "write_n ops addr v n c = (Inl e, c')"
    using True r(1) cache_wfD(1) [OF wf] by (simp add: write_n_def cache_geom_def)
  with r none True show ?thesis by (intro exI [of _ e] exI [of _ c'] exI [of _ 0]) (simp add: all_mapped_def)
next
  case False
  note g = cache_wfD(1) [OF wf]
  define i where "i = (LEAST i. i < n \<and> cview c (addr + of_nat i) = None)"
  have ex: "\<exists>i. i < n \<and> cview c (addr + of_nat i) = None" using m by (auto simp: all_mapped_def)
  have i: "i < n" "cview c (addr + of_nat i) = None"
    using LeastI_ex [OF ex] unfolding i_def by auto
  have before: "cview c (addr + of_nat i') \<noteq> None" if "i' < i" for i'
    using not_less_Least [of i' "\<lambda>i. i < n \<and> cview c (addr + of_nat i) = None"] that i(1)
    unfolding i_def [symmetric] by auto
  have "0 + n \<le> (2 :: nat) ^ 63" "cview c (addr + of_nat (0 + i)) = None"
    "\<And>i'. i' < i \<Longrightarrow> cview c (addr + of_nat (0 + i')) \<noteq> None"
    using n(2) i(2) before by simp_all
  from write_n_loop_unmapped [OF wf last_line_initial [OF g] i(1) this(2,3,1), of v 0 0]
  obtain e c' where l: "write_n_loop ops addr v 0 n (- 1) 0 0 c = (Inl e, c')" "cwf c'"
    "cview c' = flat_store (cview c) addr (map (\<lambda>j. ucast (drop_bit (j * 8) v)) [0..<i])"
    by auto
  moreover have "write_n ops addr v n c = write_n_loop ops addr v 0 n (- 1) 0 0 c"
    using g False by (auto simp: write_n_def cache_geom_def)
  moreover have "take i (to_le_bytes n v) = map (\<lambda>j. ucast (drop_bit (j * 8) v)) [0..<i]"
    using i(1) by (simp add: to_le_bytes_def take_map)
  ultimately show ?thesis
    using i before by (intro exI [of _ e] exI [of _ c'] exI [of _ i]) (simp add: all_mapped_def)
qed

subsection \<open>The cache keeps the contract of its next level\<close>

lemma cache_is_byte_mem: "byte_mem (cache_ops ops) cview cwf"
proof unfold_locales
  fix c a b
  assume wf: "cwf c" and "cview c a = Some b"
  then have "all_mapped (cview c) a 1" "flat_bytes (cview c) a 1 = [b]"
    by (simp_all add: all_mapped_def flat_bytes_def)
  with read_n_mapped [OF wf, of 1 0 a] obtain c' where
    "read_n ops a 1 c = (Inr (ucast b), c')" "cwf c'" "cview c' = cview c" by auto
  then show "\<exists>c'. read_byte (cache_ops ops) a c = (Inr b, c') \<and> cwf c' \<and> cview c' = cview c"
    by (simp add: cache_ops_def sreturn_def)
next
  fix c a
  assume wf: "cwf c" and "cview c a = None"
  then have "\<not> all_mapped (cview c) a 1" by (simp add: all_mapped_def)
  with read_n_unmapped [OF wf, of 1 0 a] obtain e c' where
    "read_n ops a 1 c = (Inl e, c')" "cwf c'" "cview c' = cview c" by auto
  then show "\<exists>e c'. read_byte (cache_ops ops) a c = (Inl e, c') \<and> cwf c' \<and> cview c' = cview c"
    by (simp add: cache_ops_def)
next
  fix c a and b :: u8
  assume wf: "cwf c" and "cview c a \<noteq> None"
  then have "all_mapped (cview c) a 1" by (simp add: all_mapped_def)
  with write_n_mapped [OF wf, of 1 0 a "ucast b"] show
    "\<exists>c'. write_byte (cache_ops ops) a b c = (Inr (), c') \<and> cwf c' \<and> cview c' = (cview c)(a \<mapsto> b)"
    by (simp add: cache_ops_def to_le_bytes_def) blast
next
  fix c a and b :: u8
  assume wf: "cwf c" and "cview c a = None"
  then have "\<not> all_mapped (cview c) a 1" by (simp add: all_mapped_def)
  with write_n_unmapped [OF wf, of 1 0 a "ucast b"] show
    "\<exists>e c'. write_byte (cache_ops ops) a b c = (Inl e, c') \<and> cwf c' \<and> cview c' = cview c"
    by (auto simp: cache_ops_def)
next
  fix c a b
  assume "cwf c" "same_block a b" "cview c a = None"
  then show "cview c b = None" by (rule block_uniform_view)
qed

end

subsection \<open>The hierarchy of the machine\<close>

interpretation l3_mem: byte_mem "cache_ops ram_ops" "cache_peek_byte_raw ram_peek_byte"
  "cache_wf ram_peek_byte ram_wf"
  by (rule ram_mem.cache_is_byte_mem)

interpretation l2_mem: byte_mem "cache_ops (cache_ops ram_ops)"
  "cache_peek_byte_raw (cache_peek_byte_raw ram_peek_byte)"
  "cache_wf (cache_peek_byte_raw ram_peek_byte) (cache_wf ram_peek_byte ram_wf)"
  by (rule l3_mem.cache_is_byte_mem)

interpretation l1_mem: byte_mem "cache_ops (cache_ops (cache_ops ram_ops))"
  "cache_peek_byte_raw (cache_peek_byte_raw (cache_peek_byte_raw ram_peek_byte))"
  "cache_wf (cache_peek_byte_raw (cache_peek_byte_raw ram_peek_byte))
     (cache_wf (cache_peek_byte_raw ram_peek_byte) (cache_wf ram_peek_byte ram_wf))"
  by (rule l2_mem.cache_is_byte_mem)

end
