(* ===== verification/Hierarchy.thy ===== *)
theory Hierarchy
  imports Cache_Level
begin

text \<open>
  The three-level cache hierarchy that \<open>SystemBus::new\<close> (\<open>crates/virtual-machine/src/bus.rs\<close>)
  builds over RAM, and the theorem that it is transparent: any sequence of loads and stores of
  any width and alignment returns what flat byte memory returns.
\<close>

type_synonym hierarchy = "ram cache cache cache"

definition l3_params :: cache_params where
  "l3_params = \<lparr>cp_size = 8 * 1024 * 1024, cp_block_size = 64, cp_associativity = 16,
     cp_write_back = True, cp_read_only = False\<rparr>"

definition l2_params :: cache_params where
  "l2_params = \<lparr>cp_size = 256 * 1024, cp_block_size = 64, cp_associativity = 8,
     cp_write_back = True, cp_read_only = False\<rparr>"

definition l1_params :: cache_params where
  "l1_params = \<lparr>cp_size = 4096, cp_block_size = 64, cp_associativity = 2,
     cp_write_back = True, cp_read_only = False\<rparr>"

abbreviation RAM_BASE :: u64 where "RAM_BASE \<equiv> 0x80000000"
abbreviation RAM_SIZE_DEFAULT :: nat where "RAM_SIZE_DEFAULT \<equiv> 128 * 1024 * 1024"

definition hierarchy_new :: hierarchy where
  "hierarchy_new =
     cache_new l1_params (cache_new l2_params (cache_new l3_params (ram_new RAM_BASE RAM_SIZE_DEFAULT)))"

definition hier_ops :: "hierarchy mem_ops" where
  "hier_ops = cache_ops (cache_ops (cache_ops ram_ops))"

definition hier_peek_byte_raw :: "hierarchy \<Rightarrow> u64 \<Rightarrow> u8 option" where
  "hier_peek_byte_raw = cache_peek_byte_raw (cache_peek_byte_raw (cache_peek_byte_raw ram_peek_byte))"

definition hier_wf :: "hierarchy \<Rightarrow> bool" where
  "hier_wf = cache_wf (cache_peek_byte_raw (cache_peek_byte_raw ram_peek_byte))
     (cache_wf (cache_peek_byte_raw ram_peek_byte) (cache_wf ram_peek_byte ram_wf))"

subsection \<open>Well-formedness at start\<close>

lemma ilog2_pow: "ilog2 (2 ^ k) = k"
  by (induction k) (simp_all add: ilog2.simps)

lemma cache_new_wf:
  assumes "minv n" "cp_block_size p = 2 ^ b" "cp_size p div (cp_block_size p * cp_associativity p) = 2 ^ s"
    and "3 \<le> b" "b \<le> 6" "b + s < 64" "cp_associativity p \<noteq> 0" "cp_write_back p" "\<not> cp_read_only p"
  shows "cache_wf view minv (cache_new p n)"
    and "cache_peek_byte_raw view (cache_new p n) = view n"
proof -
  let ?c = "cache_new p n"
  have f: "block_bits ?c = b" "set_bits ?c = s" "c_params ?c = p" "c_next ?c = n"
    "length (c_sets ?c) = 2 ^ s"
    using assms(2,3) by (simp_all add: cache_new_def Let_def ilog2_pow)
  have nw: "nways ?c si = cp_associativity p" if "si < 2 ^ s" for si
    using that assms(3) by (simp add: nways_def cache_new_def Let_def)
  have line: "get_line ?c si wi = \<lparr>cl_valid = False, cl_dirty = False, cl_tag = 0,
      cl_data = replicate (2 ^ b) 0, cl_lru_age = 0\<rparr>" if "si < 2 ^ s" "wi < cp_associativity p" for si wi
    using that assms(2,3) by (simp add: get_line_def cache_new_def Let_def)
  show "cache_wf view minv ?c"
    using assms by (simp add: cache_wf_def cache_geom_def unique_tags_def line_ok_def holds_def f nw line)
  have "\<not> holds ?c (set_of ?c a) (get_line ?c (set_of ?c a) wi) a"
    if "wi < nways ?c (set_of ?c a)" for a wi
    using that set_of_less [of ?c a] by (simp add: f nw line holds_def)
  then show "cache_peek_byte_raw view ?c = view n"
    using peek_miss [of ?c _ view] by (simp add: fun_eq_iff f)
qed

lemma ram_new_wf: "ram_wf (ram_new RAM_BASE RAM_SIZE_DEFAULT)"
  by (simp add: ram_wf_def ram_new_def)

lemma l3_new:
  "cache_wf ram_peek_byte ram_wf (cache_new l3_params (ram_new RAM_BASE RAM_SIZE_DEFAULT))"
  "cache_peek_byte_raw ram_peek_byte (cache_new l3_params (ram_new RAM_BASE RAM_SIZE_DEFAULT))
     = ram_peek_byte (ram_new RAM_BASE RAM_SIZE_DEFAULT)"
  using ram_new_wf by (intro cache_new_wf [where b = 6 and s = 13]; simp add: l3_params_def)+

abbreviation new_l3 :: "ram cache" where
  "new_l3 \<equiv> cache_new l3_params (ram_new RAM_BASE RAM_SIZE_DEFAULT)"

lemma l2_new:
  "cache_wf (cache_peek_byte_raw ram_peek_byte) (cache_wf ram_peek_byte ram_wf) (cache_new l2_params new_l3)"
  "cache_peek_byte_raw (cache_peek_byte_raw ram_peek_byte) (cache_new l2_params new_l3)
     = cache_peek_byte_raw ram_peek_byte new_l3"
  by (rule cache_new_wf [where minv = "cache_wf ram_peek_byte ram_wf" and b = 6 and s = 9],
      rule l3_new(1); simp add: l2_params_def)+

lemma hierarchy_new_wf: "hier_wf hierarchy_new"
  unfolding hier_wf_def hierarchy_new_def
  by (rule cache_new_wf [where b = 6 and s = 5 and minv =
        "cache_wf (cache_peek_byte_raw ram_peek_byte) (cache_wf ram_peek_byte ram_wf)"],
      rule l2_new(1); simp add: l1_params_def)

lemma hierarchy_new_view:
  "hier_peek_byte_raw hierarchy_new = ram_peek_byte (ram_new RAM_BASE RAM_SIZE_DEFAULT)"
proof -
  have "hier_peek_byte_raw hierarchy_new
      = cache_peek_byte_raw (cache_peek_byte_raw ram_peek_byte) (cache_new l2_params new_l3)"
    unfolding hier_peek_byte_raw_def hierarchy_new_def
    by (rule cache_new_wf [where b = 6 and s = 5 and minv =
        "cache_wf (cache_peek_byte_raw ram_peek_byte) (cache_wf ram_peek_byte ram_wf)"],
      rule l2_new(1); simp add: l1_params_def)
  then show ?thesis by (simp only: l2_new(2) l3_new(2))
qed

subsection \<open>Requests\<close>

datatype width = W8 | W16 | W32 | W64

fun nbytes :: "width \<Rightarrow> nat" where
  "nbytes W8 = 1" | "nbytes W16 = 2" | "nbytes W32 = 4" | "nbytes W64 = 8"

datatype request = Load width u64 | Store width u64 u64

text \<open>One request through the methods of a memory level: the value read, zero extended, or
  \<open>0\<close> for a store; \<open>None\<close> when the access fails.\<close>

definition answer :: "('a \<Rightarrow> u64) \<Rightarrow> 'a result \<times> 's \<Rightarrow> u64 option \<times> 's" where
  "answer f rs = (case rs of (Inl e, s) \<Rightarrow> (None, s) | (Inr a, s) \<Rightarrow> (Some (f a), s))"

fun serve :: "'s mem_ops \<Rightarrow> request \<Rightarrow> 's \<Rightarrow> u64 option \<times> 's" where
  "serve ops (Load W8 a) s = answer ucast (read_byte ops a s)"
| "serve ops (Load W16 a) s = answer ucast (read_halfword ops a s)"
| "serve ops (Load W32 a) s = answer ucast (read_word ops a s)"
| "serve ops (Load W64 a) s = answer id (read_doubleword ops a s)"
| "serve ops (Store W8 a v) s = answer (\<lambda>_. 0) (write_byte ops a (ucast v) s)"
| "serve ops (Store W16 a v) s = answer (\<lambda>_. 0) (write_halfword ops a (ucast v) s)"
| "serve ops (Store W32 a v) s = answer (\<lambda>_. 0) (write_word ops a (ucast v) s)"
| "serve ops (Store W64 a v) s = answer (\<lambda>_. 0) (write_doubleword ops a v s)"

fun serve_all :: "'s mem_ops \<Rightarrow> request list \<Rightarrow> 's \<Rightarrow> u64 option list \<times> 's" where
  "serve_all ops [] s = ([], s)"
| "serve_all ops (r # rs) s =
     (case serve ops r s of (x, s') \<Rightarrow> case serve_all ops rs s' of (xs, s'') \<Rightarrow> (x # xs, s''))"

text \<open>The reference: flat byte memory. A load needs all its bytes mapped; a store proceeds
  byte by byte and stops at the first unmapped one.\<close>

fun flat_try_store :: "(u64 \<Rightarrow> u8 option) \<Rightarrow> u64 \<Rightarrow> u8 list \<Rightarrow> bool \<times> (u64 \<Rightarrow> u8 option)" where
  "flat_try_store m a [] = (True, m)"
| "flat_try_store m a (b # bs) =
     (if m a = None then (False, m) else flat_try_store (m(a \<mapsto> b)) (a + 1) bs)"

fun flat_serve :: "request \<Rightarrow> (u64 \<Rightarrow> u8 option) \<Rightarrow> u64 option \<times> (u64 \<Rightarrow> u8 option)" where
  "flat_serve (Load w a) m =
     ((if all_mapped m a (nbytes w)
       then Some (from_le_bytes (flat_bytes m a (nbytes w))) else None), m)"
| "flat_serve (Store w a v) m =
     (case flat_try_store m a (to_le_bytes (nbytes w) v) of
        (ok, m') \<Rightarrow> (if ok then Some 0 else None, m'))"

fun flat_serve_all ::
  "request list \<Rightarrow> (u64 \<Rightarrow> u8 option) \<Rightarrow> u64 option list \<times> (u64 \<Rightarrow> u8 option)" where
  "flat_serve_all [] m = ([], m)"
| "flat_serve_all (r # rs) m =
     (case flat_serve r m of (x, m') \<Rightarrow> case flat_serve_all rs m' of (xs, m'') \<Rightarrow> (x # xs, m''))"

subsection \<open>Flat stores, mapped or not\<close>

lemma all_mapped_Suc: "all_mapped m a (Suc n) \<longleftrightarrow> m a \<noteq> None \<and> all_mapped m (a + 1) n"
  unfolding all_mapped_def
  by (auto simp: less_Suc_eq_0_disj ac_simps)

lemma all_mapped_upd: "all_mapped m a n \<Longrightarrow> all_mapped (m(x \<mapsto> b)) a n"
  by (simp add: all_mapped_def)

lemma flat_try_store_mapped:
  "all_mapped m a (length bs) \<Longrightarrow> flat_try_store m a bs = (True, flat_store m a bs)"
  by (induction bs arbitrary: m a) (auto simp: all_mapped_Suc all_mapped_upd)

lemma flat_try_store_unmapped:
  "i < length bs \<Longrightarrow> all_mapped m a i \<Longrightarrow> m (a + of_nat i) = None \<Longrightarrow> length bs \<le> 8 \<Longrightarrow>
   flat_try_store m a bs = (False, flat_store m a (take i bs))"
proof (induction bs arbitrary: m a i)
  case (Cons b bs)
  show ?case
  proof (cases i)
    case 0
    with Cons.prems show ?thesis by simp
  next
    case (Suc k)
    have "unat (of_nat (Suc k) :: u64) = Suc k"
      using Cons.prems(1,4) Suc by (intro unat_of_nat_small [where b = 4]) auto
    then have "(of_nat (Suc k) :: u64) \<noteq> 0" by (metis nat.distinct(1) unat_0)
    then have "(m(a \<mapsto> b)) (a + 1 + of_nat k) = None"
      using Cons.prems(3) Suc by (simp add: ac_simps)
    moreover have "all_mapped (m(a \<mapsto> b)) (a + 1) k"
      using Cons.prems(2) Suc by (intro all_mapped_upd) (simp add: all_mapped_Suc)
    ultimately have "flat_try_store (m(a \<mapsto> b)) (a + 1) bs
        = (False, flat_store (m(a \<mapsto> b)) (a + 1) (take k bs))"
      using Cons.prems(1,4) Suc by - (rule Cons.IH, auto simp del: fun_upd_apply)
    then show ?thesis using Cons.prems Suc by (auto simp: all_mapped_Suc)
  qed
qed simp

subsection \<open>Widths\<close>

lemma from_le_bytes_bound: "bit (from_le_bytes bs) k \<Longrightarrow> k < 8 * length bs"
proof (induction bs arbitrary: k)
  case (Cons b bs)
  then show ?case
    by (cases "k < 8") (force simp: bit_simps dest: bit_imp_le_length)+
qed simp

lemma ucast_from_le:
  "length bs = 1 \<Longrightarrow> ucast (ucast (from_le_bytes bs) :: u8) = from_le_bytes bs"
  "length bs = 2 \<Longrightarrow> ucast (ucast (from_le_bytes bs) :: u16) = from_le_bytes bs"
  "length bs = 4 \<Longrightarrow> ucast (ucast (from_le_bytes bs) :: u32) = from_le_bytes bs"
  by (rule u64_eqI, use from_le_bytes_bound [of bs] in \<open>force simp: bit_simps\<close>)+

lemma to_le_bytes_narrow:
  assumes "n * 8 \<le> LENGTH('a)"
  shows "to_le_bytes n (ucast (ucast v :: 'a::len word)) = to_le_bytes n v"
proof -
  have "ucast (drop_bit (i * 8) (ucast (ucast v :: 'a word) :: u64)) = (ucast (drop_bit (i * 8) v) :: u8)"
    if "i < n" for i
    using that assms by (intro bit_word_eqI) (auto simp: bit_simps dest: bit_imp_le_length)
  then show ?thesis unfolding to_le_bytes_def by (intro map_cong refl) simp
qed

lemmas to_le_bytes_ucast =
  to_le_bytes_narrow [where n = 1 and 'a = 8, simplified]
  to_le_bytes_narrow [where n = 2 and 'a = 16, simplified]
  to_le_bytes_narrow [where n = 4 and 'a = 32, simplified]

lemma length_flat_bytes [simp]: "length (flat_bytes m a n) = n"
  by (simp add: flat_bytes_def)

lemma length_to_le_bytes [simp]: "length (to_le_bytes n v) = n"
  by (simp add: to_le_bytes_def)

lemma nbytes_pow: "\<exists>j. nbytes w = 2 ^ j" "nbytes w \<le> 8"
  by (cases w; simp add: exI [of _ 0] exI [of _ 1] exI [of _ 2] exI [of _ 3]; presburger)+

subsection \<open>One request\<close>

context byte_mem
begin

lemma serve_load:
  "serve (cache_ops ops) (Load w a) c = answer (\<lambda>v.
     case w of W8 \<Rightarrow> ucast (ucast v :: u8) | W16 \<Rightarrow> ucast (ucast v :: u16) | W32 \<Rightarrow> ucast (ucast v :: u32) | W64 \<Rightarrow> v)
     (read_n ops a (nbytes w) c)"
  by (cases w) (auto simp: cache_ops_def answer_def sbind_def sreturn_def split: sum.splits prod.splits)

lemma serve_store:
  "serve (cache_ops ops) (Store w a v) c = answer (\<lambda>_. 0)
     (write_n ops a (case w of W8 \<Rightarrow> ucast (ucast v :: u8) | W16 \<Rightarrow> ucast (ucast v :: u16)
        | W32 \<Rightarrow> ucast (ucast v :: u32) | W64 \<Rightarrow> v) (nbytes w) c)"
  by (cases w) (auto simp: cache_ops_def)

lemma serve_cache:
  assumes wf: "cwf c"
  shows "case serve (cache_ops ops) r c of (x, c') \<Rightarrow> cwf c' \<and> flat_serve r (cview c) = (x, cview c')"
proof (cases r)
  case (Load w a)
  obtain j where n: "nbytes w = 2 ^ j" "nbytes w \<le> 8" using nbytes_pow by blast
  let ?f = "\<lambda>v :: u64. case w of W8 \<Rightarrow> ucast (ucast v :: u8) | W16 \<Rightarrow> ucast (ucast v :: u16)
      | W32 \<Rightarrow> ucast (ucast v :: u32) | W64 \<Rightarrow> v"
  show ?thesis
  proof (cases "all_mapped (cview c) a (nbytes w)")
    case True
    have "?f (from_le_bytes (flat_bytes (cview c) a (nbytes w))) = from_le_bytes (flat_bytes (cview c) a (nbytes w))"
      by (cases w) (simp_all add: ucast_from_le)
    with read_n_mapped [OF wf n True] show ?thesis
      using True by (auto simp: Load serve_load answer_def)
  next
    case False
    with read_n_unmapped [OF wf n False] show ?thesis
      by (auto simp: Load serve_load answer_def)
  qed
next
  case (Store w a v)
  obtain j where n: "nbytes w = 2 ^ j" "nbytes w \<le> 8" using nbytes_pow by blast
  let ?v = "case w of W8 \<Rightarrow> ucast (ucast v :: u8) | W16 \<Rightarrow> ucast (ucast v :: u16)
        | W32 \<Rightarrow> ucast (ucast v :: u32) | W64 \<Rightarrow> v"
  have v: "to_le_bytes (nbytes w) ?v = to_le_bytes (nbytes w) v"
    by (cases w) (simp_all add: to_le_bytes_ucast)
  show ?thesis
  proof (cases "all_mapped (cview c) a (nbytes w)")
    case True
    from write_n_mapped [OF wf n True, of ?v] obtain c' where
      "write_n ops a ?v (nbytes w) c = (Inr (), c')" "cwf c'"
      "cview c' = flat_store (cview c) a (to_le_bytes (nbytes w) v)" by (auto simp: v)
    then show ?thesis
      using True flat_try_store_mapped [of "cview c" a "to_le_bytes (nbytes w) v"]
      unfolding Store serve_store by (simp add: answer_def)
  next
    case False
    from write_n_unmapped [OF wf n False, of ?v] obtain e c' i where
      "write_n ops a ?v (nbytes w) c = (Inl e, c')" "cwf c'" "i < nbytes w"
      "all_mapped (cview c) a i" "cview c (a + of_nat i) = None"
      "cview c' = flat_store (cview c) a (take i (to_le_bytes (nbytes w) v))" by (auto simp: v)
    then show ?thesis
      using n(2) flat_try_store_unmapped [of i "to_le_bytes (nbytes w) v" "cview c" a]
      unfolding Store serve_store by (simp add: answer_def)
  qed
qed

lemma serve_all_cache:
  assumes "cwf c" "serve_all (cache_ops ops) rs c = (xs, c')"
  shows "cwf c' \<and> flat_serve_all rs (cview c) = (xs, cview c')"
  using assms
proof (induction rs arbitrary: c xs)
  case (Cons r rs)
  from Cons.prems(2) obtain x c1 xs' where
    "serve (cache_ops ops) r c = (x, c1)" "serve_all (cache_ops ops) rs c1 = (xs', c')" "xs = x # xs'"
    by (auto split: prod.splits)
  with Cons.IH [of c1 xs'] serve_cache [OF Cons.prems(1), of r] show ?case by simp
qed simp

end

lemma serve_all_hier:
  "hier_wf c \<Longrightarrow> serve_all hier_ops rs c = (xs, c') \<Longrightarrow>
   hier_wf c' \<and> flat_serve_all rs (hier_peek_byte_raw c) = (xs, hier_peek_byte_raw c')"
  using l2_mem.serve_all_cache [of c rs xs c']
  by (simp add: hier_ops_def hier_wf_def hier_peek_byte_raw_def)

text \<open>C1. The cache hierarchy is transparent. Starting from the caches and RAM the machine
  boots with, every sequence of loads and stores, of any width, at any address and alignment,
  mapped or not, gives through the three write-back caches exactly the results that flat byte
  memory gives, and the bytes seen afterwards are those of the flat memory; a failing store
  leaves the same prefix written.\<close>

theorem hierarchy_transparent:
  "case serve_all hier_ops rs hierarchy_new of (xs, c') \<Rightarrow>
     hier_wf c' \<and> flat_serve_all rs (ram_peek_byte (ram_new RAM_BASE RAM_SIZE_DEFAULT))
       = (xs, hier_peek_byte_raw c')"
proof (cases "serve_all hier_ops rs hierarchy_new")
  case (Pair xs c')
  with serve_all_hier [OF hierarchy_new_wf Pair] show ?thesis
    by (simp only: hierarchy_new_view prod.case)
qed

end
