(* ===== verification/Devices.thy ===== *)
theory Devices
  imports Memory
begin

text \<open>
  The memory-mapped devices (\<open>crates/virtual-machine/src/devices/\<close>): CLINT, UART, PLIC,
  keyboard and framebuffer, each as a record with its methods and its \<open>MemoryAccess\<close>
  implementation. Addresses are offsets in the device, the base is subtracted by the bus. The
  lemmas state each device's contract: the timer and software interrupt lines, the UART's
  data-ready bit, the PLIC's choice among pending interrupts, the keyboard's bounded queue and
  the framebuffer's double buffering.
\<close>

subsection \<open>CLINT\<close>

record clint =
  mtime :: u64
  mtimecmp :: u64
  msip :: u32

definition clint_new :: clint where
  "clint_new = \<lparr>mtime = 0, mtimecmp = - 1, msip = 0\<rparr>"

definition timer_irq_pending :: "clint \<Rightarrow> bool" where
  "timer_irq_pending d \<longleftrightarrow> mtime d \<ge> mtimecmp d"

definition software_irq_pending :: "clint \<Rightarrow> bool" where
  "software_irq_pending d \<longleftrightarrow> msip d \<noteq> 0"

definition clint_tick :: "clint \<Rightarrow> clint" where
  "clint_tick d = d\<lparr>mtime := mtime d + 1\<rparr>"

abbreviation (input) MSIP_BASE :: u64 where "MSIP_BASE \<equiv> 0"
abbreviation (input) MTIMECMP_BASE :: u64 where "MTIMECMP_BASE \<equiv> 0x4000"
abbreviation (input) MTIME_BASE :: u64 where "MTIME_BASE \<equiv> 0xBFF8"

definition clint_read_word :: "u64 \<Rightarrow> (clint, u32) action" where
  "clint_read_word addr d =
     (if addr = MTIME_BASE then (Inr (ucast (mtime d)), d)
      else if addr = MTIME_BASE + 4 then (Inr (ucast (drop_bit 32 (mtime d))), d)
      else if addr = MTIMECMP_BASE then (Inr (ucast (mtimecmp d)), d)
      else if addr = MTIMECMP_BASE + 4 then (Inr (ucast (drop_bit 32 (mtimecmp d))), d)
      else if addr = MSIP_BASE then (Inr (msip d), d)
      else (Inl (LoadAccessFault addr), d))"

definition clint_write_word :: "u64 \<Rightarrow> u32 \<Rightarrow> (clint, unit) action" where
  "clint_write_word addr v d =
     (if addr = MTIME_BASE
      then (Inr (), d\<lparr>mtime := (mtime d AND 0xFFFFFFFF00000000) OR ucast v\<rparr>)
      else if addr = MTIME_BASE + 4
      then (Inr (), d\<lparr>mtime := (mtime d AND 0xFFFFFFFF) OR push_bit 32 (ucast v)\<rparr>)
      else if addr = MTIMECMP_BASE
      then (Inr (), d\<lparr>mtimecmp := (mtimecmp d AND 0xFFFFFFFF00000000) OR ucast v\<rparr>)
      else if addr = MTIMECMP_BASE + 4
      then (Inr (), d\<lparr>mtimecmp := (mtimecmp d AND 0xFFFFFFFF) OR push_bit 32 (ucast v)\<rparr>)
      else if addr = MSIP_BASE then (Inr (), d\<lparr>msip := v AND 1\<rparr>)
      else (Inl (StoreAccessFault addr), d))"

definition clint_ops :: "clint mem_ops" where
  "clint_ops =
     (let rb = (\<lambda>addr. sfail (LoadAccessFault addr)); wb = (\<lambda>addr _. sfail (StoreAccessFault addr)) in
      \<lparr>read_byte = rb, read_halfword = default_read_halfword rb,
       read_word = clint_read_word, read_doubleword = default_read_doubleword clint_read_word,
       write_byte = wb, write_halfword = default_write_halfword wb,
       write_word = clint_write_word, write_doubleword = default_write_doubleword clint_write_word\<rparr>)"

subsection \<open>UART\<close>

record uart =
  ier :: u8
  iir :: u8
  fcr :: u8
  lcr :: u8
  mcr :: u8
  lsr :: u8
  msr :: u8
  scr :: u8
  rx_buf :: "u8 list"
  tx_out :: "u8 list"

abbreviation (input) UART_RX_IRQ_SOURCE :: u32 where "UART_RX_IRQ_SOURCE \<equiv> 10"

definition uart_new :: uart where
  "uart_new = \<lparr>ier = 0, iir = 1, fcr = 0, lcr = 0, mcr = 0, lsr = 0x60, msr = 0, scr = 0,
     rx_buf = [], tx_out = []\<rparr>"

definition uart_receive :: "u8 \<Rightarrow> uart \<Rightarrow> uart" where
  "uart_receive b d = d\<lparr>rx_buf := rx_buf d @ [b], lsr := lsr d OR 1\<rparr>"

definition rx_irq_pending :: "uart \<Rightarrow> bool" where
  "rx_irq_pending d \<longleftrightarrow> ier d AND 1 \<noteq> 0 \<and> rx_buf d \<noteq> []"

definition drain_output :: "uart \<Rightarrow> u8 list \<times> uart" where
  "drain_output d = (tx_out d, d\<lparr>tx_out := []\<rparr>)"

definition uart_peek_byte :: "uart \<Rightarrow> u64 \<Rightarrow> u8 option" where
  "uart_peek_byte d offset =
     (let r = offset mod 8 in
      if r = 0 then (case rx_buf d of [] \<Rightarrow> None | b # _ \<Rightarrow> Some b)
      else if r = 1 then Some (ier d) else if r = 2 then Some (iir d)
      else if r = 3 then Some (lcr d) else if r = 4 then Some (mcr d)
      else if r = 5 then Some (lsr d) else if r = 6 then Some (msr d)
      else if r = 7 then Some (scr d) else None)"

definition uart_read_byte :: "u64 \<Rightarrow> (uart, u8) action" where
  "uart_read_byte addr d =
     (let r = addr mod 8 in
      if r = 0 then
        (case rx_buf d of
           b # rest \<Rightarrow> (Inr b, (if rest = [] then d\<lparr>rx_buf := rest, lsr := lsr d AND NOT 1\<rparr>
                              else d\<lparr>rx_buf := rest\<rparr>))
         | [] \<Rightarrow> (Inr 0, d))
      else if r = 1 then (Inr (ier d), d) else if r = 2 then (Inr (iir d), d)
      else if r = 3 then (Inr (lcr d), d) else if r = 4 then (Inr (mcr d), d)
      else if r = 5 then (Inr (lsr d), d) else if r = 6 then (Inr (msr d), d)
      else if r = 7 then (Inr (scr d), d) else (Inl (BusError addr), d))"

definition uart_write_byte :: "u64 \<Rightarrow> u8 \<Rightarrow> (uart, unit) action" where
  "uart_write_byte addr v d =
     (let r = addr mod 8 in
      if r = 0 then (Inr (), d\<lparr>tx_out := tx_out d @ [v], lsr := lsr d OR 0x60\<rparr>)
      else if r = 1 then (Inr (), d\<lparr>ier := v\<rparr>) else if r = 2 then (Inr (), d\<lparr>fcr := v\<rparr>)
      else if r = 3 then (Inr (), d\<lparr>lcr := v\<rparr>) else if r = 4 then (Inr (), d\<lparr>mcr := v\<rparr>)
      else if r = 7 then (Inr (), d\<lparr>scr := v\<rparr>) else (Inl (BusError addr), d))"

definition uart_ops :: "uart mem_ops" where
  "uart_ops = byte_ops uart_read_byte uart_write_byte"

subsection \<open>PLIC\<close>

abbreviation (input) MAX_SOURCES :: nat where "MAX_SOURCES \<equiv> 32"

text \<open>\<open>pending\<close>, \<open>enable\<close> and \<open>threshold\<close> are arrays of length one in the source
  (\<open>MAX_SOURCES.div_ceil(32)\<close> and \<open>MAX_CONTEXTS\<close> are \<open>1\<close>).\<close>

record plic =
  priority :: "u32 list"
  pending :: "u32 list"
  enable :: "u32 list"
  threshold :: "u32 list"

definition plic_new :: plic where
  "plic_new = \<lparr>priority = replicate 32 0, pending = [0], enable = [0], threshold = [0]\<rparr>"

definition set_irq :: "u32 \<Rightarrow> plic \<Rightarrow> plic" where
  "set_irq source d =
     (if source > 0 \<and> source \<le> 32 then
        let idx = (unat source - 1) div 32; b = unat ((source - 1) mod 32) in
        d\<lparr>pending := (pending d)[idx := pending d ! idx OR push_bit b 1]\<rparr>
      else d)"

definition clear_irq :: "u32 \<Rightarrow> plic \<Rightarrow> plic" where
  "clear_irq source d =
     (if source > 0 \<and> source \<le> 32 then
        let idx = (unat source - 1) div 32; b = unat ((source - 1) mod 32) in
        d\<lparr>pending := (pending d)[idx := pending d ! idx AND NOT (push_bit b 1)]\<rparr>
      else d)"

definition is_pending :: "plic \<Rightarrow> u32 \<Rightarrow> bool" where
  "is_pending d ident =
     (let idx = (unat ident - 1) div 32; b = unat ((ident - 1) mod 32) in
      pending d ! idx AND push_bit b 1 \<noteq> 0)"

definition is_enabled :: "plic \<Rightarrow> nat \<Rightarrow> u32 \<Rightarrow> bool" where
  "is_enabled d hart ident =
     (let base = hart * (MAX_SOURCES div 32); idx = base + (unat ident - 1) div 32;
          b = unat ((ident - 1) mod 32)
      in enable d ! idx AND push_bit b 1 \<noteq> 0)"

text \<open>One iteration of the search loop; the state is \<open>(best_id, best_prio)\<close>.\<close>

definition next_irq_step ::
  "plic \<Rightarrow> nat \<Rightarrow> nat \<Rightarrow> u32 option \<times> u32 \<Rightarrow> u32 option \<times> u32" where
  "next_irq_step d hart ident best =
     (let prio = priority d ! (ident - 1) in
      if prio > threshold d ! hart \<and> prio > snd best
         \<and> is_pending d (of_nat ident) \<and> is_enabled d hart (of_nat ident)
      then (Some (of_nat ident), prio) else best)"

definition next_irq :: "plic \<Rightarrow> nat \<Rightarrow> u32 option" where
  "next_irq d hart =
     (if hart \<ge> 1 then None else fst (fold (next_irq_step d hart) [1..<33] (None, 0)))"

definition plic_read_word :: "u64 \<Rightarrow> (plic, u32) action" where
  "plic_read_word addr d =
     (if addr \<le> 0x7C then
        (let i = unat (addr div 4) in
         if i < MAX_SOURCES then (Inr (priority d ! i), d) else (Inl (LoadAccessFault addr), d))
      else if addr \<ge> 0x1000 \<and> addr \<le> 0x107C then
        (let i = unat ((addr - 0x1000) div 4) in
         if i < length (pending d) then (Inr (pending d ! i), d) else (Inl (LoadAccessFault addr), d))
      else if addr \<ge> 0x2000 \<and> addr \<le> 0x207C then
        (let i = unat ((addr - 0x2000) div 4) in
         if i < MAX_SOURCES div 32 then (Inr (enable d ! i), d) else (Inl (LoadAccessFault addr), d))
      else if addr = 0x200000 then (Inr (threshold d ! 0), d)
      else if addr = 0x200004 then
        (case next_irq d 0 of Some i \<Rightarrow> (Inr i, clear_irq i d) | None \<Rightarrow> (Inr 0, d))
      else (Inl (LoadAccessFault addr), d))"

definition plic_write_word :: "u64 \<Rightarrow> u32 \<Rightarrow> (plic, unit) action" where
  "plic_write_word addr v d =
     (if addr \<le> 0x7C then
        (let i = unat (addr div 4) in
         if i < MAX_SOURCES then (Inr (), d\<lparr>priority := (priority d)[i := v]\<rparr>)
         else (Inl (StoreAccessFault addr), d))
      else if addr \<ge> 0x2000 \<and> addr \<le> 0x207C then
        (let i = unat ((addr - 0x2000) div 4) in
         if i < MAX_SOURCES div 32 then (Inr (), d\<lparr>enable := (enable d)[i := v]\<rparr>)
         else (Inl (StoreAccessFault addr), d))
      else if addr = 0x200000 then (Inr (), d\<lparr>threshold := (threshold d)[0 := v]\<rparr>)
      else if addr = 0x200004 then (Inr (), d)
      else (Inl (StoreAccessFault addr), d))"

definition plic_ops :: "plic mem_ops" where
  "plic_ops =
     (let rb = (\<lambda>addr. sfail (LoadAccessFault addr)); wb = (\<lambda>addr _. sfail (StoreAccessFault addr)) in
      \<lparr>read_byte = rb, read_halfword = default_read_halfword rb,
       read_word = plic_read_word, read_doubleword = default_read_doubleword plic_read_word,
       write_byte = wb, write_halfword = default_write_halfword wb,
       write_word = plic_write_word, write_doubleword = default_write_doubleword plic_write_word\<rparr>)"

subsection \<open>Keyboard\<close>

record keyboard =
  kbd_queue :: "u32 list"

abbreviation (input) KBD_TOTAL_BYTES :: u64 where "KBD_TOTAL_BYTES \<equiv> 4096"
abbreviation (input) KBD_EMPTY :: u32 where "KBD_EMPTY \<equiv> 0xFFFFFFFF"
abbreviation (input) KBD_PRESSED_BIT :: u32 where "KBD_PRESSED_BIT \<equiv> 0x10000"
abbreviation (input) KBD_QUEUE_CAP :: nat where "KBD_QUEUE_CAP \<equiv> 256"

definition keyboard_new :: keyboard where
  "keyboard_new = \<lparr>kbd_queue = []\<rparr>"

definition push_event :: "u16 \<Rightarrow> bool \<Rightarrow> keyboard \<Rightarrow> keyboard" where
  "push_event scancode pressed d =
     (if length (kbd_queue d) \<ge> KBD_QUEUE_CAP then d
      else let ev = (if pressed then ucast scancode OR KBD_PRESSED_BIT else ucast scancode) in
           d\<lparr>kbd_queue := kbd_queue d @ [ev]\<rparr>)"

definition kbd_pending :: "keyboard \<Rightarrow> nat" where
  "kbd_pending d = length (kbd_queue d)"

definition kbd_pop :: "keyboard \<Rightarrow> u32 \<times> keyboard" where
  "kbd_pop d = (case kbd_queue d of [] \<Rightarrow> (KBD_EMPTY, d) | e # es \<Rightarrow> (e, d\<lparr>kbd_queue := es\<rparr>))"

definition kbd_read_reg :: "u64 \<Rightarrow> keyboard \<Rightarrow> u32 \<times> keyboard" where
  "kbd_read_reg offset d =
     (if offset = 0 then (of_nat (length (kbd_queue d)), d)
      else if offset = 4 then kbd_pop d else (0, d))"

definition kbd_read_byte :: "u64 \<Rightarrow> (keyboard, u8) action" where
  "kbd_read_byte addr d =
     (if addr \<ge> KBD_TOTAL_BYTES then (Inl (BusError addr), d)
      else case kbd_read_reg (addr AND NOT 3) d of
             (v, d') \<Rightarrow> (Inr (ucast (drop_bit (unat (addr AND 3) * 8) v)), d'))"

definition kbd_read_word :: "u64 \<Rightarrow> (keyboard, u32) action" where
  "kbd_read_word addr d =
     (if addr + 4 > KBD_TOTAL_BYTES then (Inl (BusError addr), d)
      else case kbd_read_reg addr d of (v, d') \<Rightarrow> (Inr v, d'))"

definition kbd_write_byte :: "u64 \<Rightarrow> u8 \<Rightarrow> (keyboard, unit) action" where
  "kbd_write_byte addr v d =
     (if addr \<ge> KBD_TOTAL_BYTES then (Inl (BusError addr), d) else (Inr (), d))"

definition kbd_write_word :: "u64 \<Rightarrow> u32 \<Rightarrow> (keyboard, unit) action" where
  "kbd_write_word addr v d =
     (if addr + 4 > KBD_TOTAL_BYTES then (Inl (BusError addr), d) else (Inr (), d))"

definition kbd_ops :: "keyboard mem_ops" where
  "kbd_ops =
     \<lparr>read_byte = kbd_read_byte, read_halfword = default_read_halfword kbd_read_byte,
      read_word = kbd_read_word, read_doubleword = default_read_doubleword kbd_read_word,
      write_byte = kbd_write_byte, write_halfword = default_write_halfword kbd_write_byte,
      write_word = kbd_write_word, write_doubleword = default_write_doubleword kbd_write_word\<rparr>"

subsection \<open>Framebuffer\<close>

abbreviation (input) FB_BYTES :: nat where "FB_BYTES \<equiv> 307200"
abbreviation (input) FB_TOTAL_BYTES :: nat where "FB_TOTAL_BYTES \<equiv> 311296"

record framebuffer =
  fb_front :: "u8 list"
  fb_back :: "u8 list"
  double_buffered :: bool
  fill_count :: u64
  fb_version :: u64

definition framebuffer_new :: framebuffer where
  "framebuffer_new =
     \<lparr>fb_front = replicate FB_BYTES 0, fb_back = replicate FB_BYTES 0, double_buffered = False,
      fill_count = 0, fb_version = 0\<rparr>"

definition pixels :: "framebuffer \<Rightarrow> u8 list" where
  "pixels d = fb_front d"

definition plane_image :: "framebuffer \<Rightarrow> u8 list" where
  "plane_image d = fb_front d @ fb_back d"

definition load_plane_image :: "u8 list \<Rightarrow> framebuffer \<Rightarrow> framebuffer" where
  "load_plane_image bytes d =
     (let split = length bytes div 2 in d\<lparr>fb_front := take split bytes, fb_back := drop split bytes\<rparr>)"

definition strip_planes :: "framebuffer \<Rightarrow> framebuffer" where
  "strip_planes d = d\<lparr>fb_front := [], fb_back := []\<rparr>"

definition draw_buffer :: "framebuffer \<Rightarrow> u8 list" where
  "draw_buffer d = (if double_buffered d then fb_back d else fb_front d)"

definition set_draw_buffer :: "u8 list \<Rightarrow> framebuffer \<Rightarrow> framebuffer" where
  "set_draw_buffer b d = (if double_buffered d then d\<lparr>fb_back := b\<rparr> else d\<lparr>fb_front := b\<rparr>)"

definition bump_version :: "framebuffer \<Rightarrow> framebuffer" where
  "bump_version d = d\<lparr>fb_version := fb_version d + 1\<rparr>"

definition le_bytes32 :: "u32 \<Rightarrow> u8 list" where
  "le_bytes32 v = map (\<lambda>i. ucast (drop_bit (i * 8) v)) [0..<4]"

text \<open>\<open>chunks_exact_mut(4)\<close> leaves a trailing rest of fewer than four bytes alone.\<close>

definition fill :: "u32 \<Rightarrow> framebuffer \<Rightarrow> framebuffer" where
  "fill color d =
     (let buf = draw_buffer d; n = length buf div 4;
          d1 = set_draw_buffer (concat (replicate n (le_bytes32 color)) @ drop (4 * n) buf) d;
          d2 = d1\<lparr>fill_count := fill_count d1 + 1\<rparr>
      in if \<not> double_buffered d2 then bump_version d2 else d2)"

definition present :: "framebuffer \<Rightarrow> framebuffer" where
  "present d = (if double_buffered d then bump_version (d\<lparr>fb_front := fb_back d\<rparr>) else d)"

definition fb_read_byte :: "u64 \<Rightarrow> (framebuffer, u8) action" where
  "fb_read_byte addr d =
     (let a = unat addr in
      if a < FB_BYTES then (Inr (draw_buffer d ! a), d)
      else if a < FB_TOTAL_BYTES then (Inr 0, d)
      else (Inl (BusError addr), d))"

definition fb_write_byte :: "u64 \<Rightarrow> u8 \<Rightarrow> (framebuffer, unit) action" where
  "fb_write_byte addr v d =
     (let a = unat addr in
      if a < FB_BYTES then
        (let single = (\<not> double_buffered d); d1 = set_draw_buffer ((draw_buffer d)[a := v]) d
         in (Inr (), if single then bump_version d1 else d1))
      else if a < FB_TOTAL_BYTES then (Inr (), d)
      else (Inl (BusError addr), d))"

fun fb_write_dribble :: "u64 \<Rightarrow> nat \<Rightarrow> u8 list \<Rightarrow> (framebuffer, unit) action" where
  "fb_write_dribble addr i [] = sreturn ()"
| "fb_write_dribble addr i (b # bs) =
     sbind (fb_write_byte (addr + of_nat i) b) (\<lambda>_. fb_write_dribble addr (Suc i) bs)"

text \<open>The sum \<open>a + FB_BPP\<close> does not wrap for the offsets the bus passes (below
  \<open>FB_TOTAL_BYTES\<close>).\<close>

definition fb_write_word :: "u64 \<Rightarrow> u32 \<Rightarrow> (framebuffer, unit) action" where
  "fb_write_word addr v d =
     (let a = unat addr in
      if a = FB_BYTES then (Inr (), fill v d)
      else if a = FB_BYTES + 4 then (Inr (), present d)
      else if a = FB_BYTES + 8 then (Inr (), d\<lparr>double_buffered := (v \<noteq> 0)\<rparr>)
      else if a + 4 \<le> FB_BYTES then
        (let single = (\<not> double_buffered d); buf = draw_buffer d;
             d1 = set_draw_buffer (take a buf @ le_bytes32 v @ drop (a + 4) buf) d
         in (Inr (), if single then bump_version d1 else d1))
      else if a \<ge> FB_BYTES \<and> a < FB_TOTAL_BYTES then (Inr (), d)
      else fb_write_dribble addr 0 (le_bytes32 v) d)"

definition fb_ops :: "framebuffer mem_ops" where
  "fb_ops =
     (let rh = default_read_halfword fb_read_byte; rw = default_read_word rh;
          wh = default_write_halfword fb_write_byte
      in \<lparr>read_byte = fb_read_byte, read_halfword = rh, read_word = rw,
          read_doubleword = default_read_doubleword rw,
          write_byte = fb_write_byte, write_halfword = wh, write_word = fb_write_word,
          write_doubleword = default_write_doubleword fb_write_word\<rparr>)"

subsection \<open>Contracts of the devices\<close>

text \<open>The CLINT's 64-bit registers, through the two-word protocol.\<close>

lemma word_halves: "ucast (ucast v :: u32) OR push_bit 32 (ucast (ucast (drop_bit 32 v) :: u32)) = (v :: u64)"
  by (rule u64_eqI) (auto simp: bit_simps)

lemma set_halves:
  "((((x AND 0xFFFFFFFF00000000) OR ucast (ucast v :: u32)) AND 0xFFFFFFFF)
     OR push_bit 32 (ucast (ucast (drop_bit 32 v) :: u32))) = (v :: u64)"
  by (rule u64_eqI) (auto simp: bit_simps bitfield)

text \<open>The UART's data-ready bit.\<close>

definition uart_wf :: "uart \<Rightarrow> bool" where
  "uart_wf d \<longleftrightarrow> bit (lsr d) 0 = (rx_buf d \<noteq> [])"

lemma uart_wf_new: "uart_wf uart_new"
  by (simp add: uart_wf_def uart_new_def)

lemma uart_wf_receive: "uart_wf (uart_receive b d)"
  by (simp add: uart_wf_def uart_receive_def bit_simps)

lemma uart_wf_read: "uart_wf d \<Longrightarrow> uart_wf (snd (uart_read_byte a d))"
  by (auto simp: uart_wf_def uart_read_byte_def Let_def bit_simps split: list.splits)

lemma uart_wf_write: "uart_wf d \<Longrightarrow> uart_wf (snd (uart_write_byte a v d))"
  by (auto simp: uart_wf_def uart_write_byte_def Let_def bit_simps)

text \<open>The step of the PLIC search.\<close>

definition irq_candidate :: "plic \<Rightarrow> nat \<Rightarrow> bool" where
  "irq_candidate d i \<longleftrightarrow> priority d ! (i - 1) > threshold d ! 0
     \<and> is_pending d (of_nat i) \<and> is_enabled d 0 (of_nat i)"

lemma irq_search:
  assumes "fold (next_irq_step d 0) [1..<Suc n] (None, 0) = (b, p)"
  shows "case b of
      None \<Rightarrow> p = 0 \<and> (\<forall>i. 1 \<le> i \<and> i \<le> n \<longrightarrow> \<not> irq_candidate d i)
    | Some k \<Rightarrow> (\<exists>i. k = of_nat i \<and> 1 \<le> i \<and> i \<le> n \<and> irq_candidate d i \<and> p = priority d ! (i - 1)
        \<and> (\<forall>j. 1 \<le> j \<and> j \<le> n \<and> irq_candidate d j \<longrightarrow> priority d ! (j - 1) \<le> p
             \<and> (priority d ! (j - 1) = p \<longrightarrow> i \<le> j)))"
  using assms
proof (induction n arbitrary: b p)
  case (Suc n)
  obtain b0 p0 where f: "fold (next_irq_step d 0) [1..<Suc n] (None, 0) = (b0, p0)"
    by (cases "fold (next_irq_step d 0) [1..<Suc n] (None, 0)")
  then have step: "next_irq_step d 0 (Suc n) (b0, p0) = (b, p)"
    using Suc.prems by simp
  note IH = Suc.IH [OF f]
  have nz: "irq_candidate d i \<Longrightarrow> priority d ! (i - 1) > 0" for i
    by (auto simp: irq_candidate_def word_gt_0)
  show ?case
  proof (cases "irq_candidate d (Suc n) \<and> priority d ! n > p0")
    case True
    then have "b = Some (of_nat (Suc n))" "p = priority d ! n"
      using step by (auto simp: next_irq_step_def irq_candidate_def)
    with True IH show ?thesis
      by (auto simp: le_Suc_eq split: option.splits intro!: exI [of _ "Suc n"])
  next
    case False
    then have "b = b0" "p = p0"
      using step by (auto simp: next_irq_step_def irq_candidate_def split: if_splits)
    with False IH nz [of "Suc n"] show ?thesis
      by (auto simp: le_Suc_eq split: option.splits)
  qed
qed simp

lemma unat_of_nat_id: "i \<le> 32 \<Longrightarrow> unat (of_nat i :: u32) = i"
  by (simp add: unsigned_of_nat take_bit_nat_eq_self)

text \<open>C37. The PLIC offers the right interrupt: \<open>next_irq\<close> answers \<open>None\<close> exactly when no
  source is pending, enabled and above the threshold, and otherwise the identifier of such a
  source whose priority no other exceeds, the lowest identifier among equals.\<close>

theorem next_irq_correct:
  "case next_irq d 0 of
     None \<Rightarrow> \<forall>i. 1 \<le> i \<and> i \<le> 32 \<longrightarrow> \<not> irq_candidate d i
   | Some k \<Rightarrow> 1 \<le> unat k \<and> unat k \<le> 32 \<and> irq_candidate d (unat k)
       \<and> (\<forall>j. 1 \<le> j \<and> j \<le> 32 \<and> irq_candidate d j \<longrightarrow>
            priority d ! (j - 1) \<le> priority d ! (unat k - 1)
            \<and> (priority d ! (j - 1) = priority d ! (unat k - 1) \<longrightarrow> unat k \<le> j))"
proof -
  obtain b p where f: "fold (next_irq_step d 0) [1..<Suc 32] (None, 0) = (b, p)"
    by (cases "fold (next_irq_step d 0) [1..<Suc 32] (None, 0)")
  have n: "next_irq d 0 = b" using f by (simp add: next_irq_def)
  show ?thesis
    unfolding n using irq_search [OF f] by (auto simp: unat_of_nat_id split: option.splits)
qed

definition plic_example :: plic where
  "plic_example = \<lparr>priority = (replicate 32 0)[2 := 1, 9 := 3, 11 := 3], pending = [0xA04],
     enable = [0xFFFFFFFF], threshold = [0]\<rparr>"

theorem next_irq_correct_witness:
  "next_irq plic_example 0 = Some 10 \<and> irq_candidate plic_example 12
   \<and> priority plic_example ! 11 \<le> priority plic_example ! 9"
proof -
  have n: "next_irq plic_example 0 = Some 10" by code_simp
  have c: "irq_candidate plic_example 12" by code_simp
  have "irq_candidate plic_example 12 \<longrightarrow> priority plic_example ! (12 - 1) \<le> priority plic_example ! (10 - 1)"
    using next_irq_correct [of plic_example] unfolding n by (auto dest!: spec [of _ 12])
  with n c show ?thesis by simp
qed

text \<open>Traffic on the keyboard: host events and guest reads of the data register in any order.
  The run records the events the queue accepted and the ones the guest got.\<close>

datatype kbd_step = Host_Key u16 bool | Guest_Read

fun kbd_run :: "kbd_step list \<Rightarrow> keyboard \<Rightarrow> u32 list \<times> u32 list \<times> keyboard" where
  "kbd_run [] d = ([], [], d)"
| "kbd_run (Host_Key c p # rest) d =
     (let d1 = push_event c p d; acc = drop (kbd_pending d) (kbd_queue d1) in
      case kbd_run rest d1 of (a, g, d2) \<Rightarrow> (acc @ a, g, d2))"
| "kbd_run (Guest_Read # rest) d =
     (case kbd_read_word 4 d of
        (Inr v, d1) \<Rightarrow> (case kbd_run rest d1 of
                         (a, g, d2) \<Rightarrow> (a, if v = KBD_EMPTY then g else v # g, d2))
      | (Inl _, d1) \<Rightarrow> kbd_run rest d1)"

definition kbd_event_ok :: "u32 \<Rightarrow> bool" where
  "kbd_event_ok e \<longleftrightarrow> e < 0x20000"

definition kbd_wf :: "keyboard \<Rightarrow> bool" where
  "kbd_wf d \<longleftrightarrow> length (kbd_queue d) \<le> KBD_QUEUE_CAP \<and> list_all kbd_event_ok (kbd_queue d)"

lemma event_ok: "kbd_event_ok (ucast (c :: u16))" "kbd_event_ok (ucast (c :: u16) OR KBD_PRESSED_BIT)"
proof -
  have lt: "unat c < 0x10000" using unsigned_less [of c] by simp
  then have u: "unat (ucast c :: u32) = unat c" by (simp add: unsigned_ucast_eq take_bit_nat_eq_self)
  show "kbd_event_ok (ucast c)" using u lt by (simp add: kbd_event_ok_def word_less_nat_alt)
  have "ucast c OR KBD_PRESSED_BIT = ucast c + KBD_PRESSED_BIT"
  proof -
    have "ucast c AND (0x10000 :: u32) = 0"
    proof (rule u32_eqI)
      fix n :: nat assume "n < 32"
      have "bit (push_bit 16 1 :: u32) n = (n = 16)" unfolding bit_push_one by auto
      then have "bit (0x10000 :: u32) n = (n = 16)" by simp
      then show "bit (ucast c AND (0x10000 :: u32)) n = bit (0 :: u32) n"
        by (auto simp: bit_and_iff bit_ucast_iff dest: bit_imp_le_length)
    qed
    then show ?thesis by (rule disjunctive_add_eq_or [symmetric])
  qed
  moreover have "unat (ucast c + KBD_PRESSED_BIT :: u32) = unat c + 0x10000"
    using lt u by (subst unat_add_lem [THEN iffD1]) simp_all
  ultimately show "kbd_event_ok (ucast c OR KBD_PRESSED_BIT)"
    using lt by (simp add: kbd_event_ok_def word_less_nat_alt)
qed

lemma kbd_push:
  assumes "kbd_wf d"
  shows "kbd_wf (push_event c p d) \<and> (\<exists>es. kbd_queue (push_event c p d) = kbd_queue d @ es \<and> list_all kbd_event_ok es)"
  using assms event_ok by (auto simp: push_event_def kbd_wf_def Let_def)

text \<open>C38. The keyboard is a lossless bounded FIFO: whatever the order of host events and guest
  reads, the events accepted are exactly the events the guest got, in order, followed by the
  ones still queued; the queue never exceeds its capacity, and no event can be mistaken for the
  empty sentinel.\<close>

theorem keyboard_fifo:
  assumes "kbd_run steps keyboard_new = (accepted, got, d)"
  shows "accepted = got @ kbd_queue d \<and> length (kbd_queue d) \<le> KBD_QUEUE_CAP \<and> KBD_EMPTY \<notin> set accepted"
proof -
  have "kbd_wf d0 \<Longrightarrow> kbd_run steps d0 = (accepted, got, d) \<Longrightarrow>
      kbd_queue d0 @ accepted = got @ kbd_queue d \<and> kbd_wf d \<and> list_all kbd_event_ok accepted" for d0
  proof (induction steps arbitrary: d0 accepted got)
    case (Cons st rest)
    show ?case
    proof (cases st)
      case (Host_Key c p)
      from kbd_push [OF Cons.prems(1), of c p] obtain es where
        e: "kbd_queue (push_event c p d0) = kbd_queue d0 @ es" "kbd_wf (push_event c p d0)" "list_all kbd_event_ok es"
        by blast
      with Cons.IH [OF e(2)] Cons.prems(2) Host_Key show ?thesis
        by (auto simp: kbd_pending_def Let_def split: prod.splits)
    next
      case Guest_Read
      show ?thesis
      proof (cases "kbd_queue d0")
        case Nil
        then have "kbd_read_word 4 d0 = (Inr KBD_EMPTY, d0)"
          by (simp add: kbd_read_word_def kbd_read_reg_def kbd_pop_def)
        with Cons Guest_Read show ?thesis by (auto split: prod.splits)
      next
        case q: (Cons e es)
        then have r: "kbd_read_word 4 d0 = (Inr e, d0\<lparr>kbd_queue := es\<rparr>)"
          by (simp add: kbd_read_word_def kbd_read_reg_def kbd_pop_def)
        have "e \<noteq> KBD_EMPTY" and wf: "kbd_wf (d0\<lparr>kbd_queue := es\<rparr>)"
          using Cons.prems(1) q by (auto simp: kbd_wf_def kbd_event_ok_def)
        with Cons.IH [OF wf] Cons.prems(2) Guest_Read q r show ?thesis by (auto split: prod.splits)
      qed
    qed
  qed simp
  from this [of keyboard_new] assms
  have *: "accepted = got @ kbd_queue d" "kbd_wf d" "list_all kbd_event_ok accepted"
    by (auto simp: keyboard_new_def kbd_wf_def)
  moreover have "KBD_EMPTY \<notin> set accepted"
    using *(3) by (auto simp: list_all_iff kbd_event_ok_def dest!: bspec)
  ultimately show ?thesis unfolding kbd_wf_def by blast
qed

theorem keyboard_fifo_witness:
  "kbd_run [Host_Key 0x41 True, Guest_Read, Guest_Read, Host_Key 0x42 False] keyboard_new
     = ([0x10041, 0x42], [0x10041], \<lparr>kbd_queue = [0x42]\<rparr>)
   \<and> [0x10041, 0x42 :: u32] = [0x10041] @ [0x42]"
proof -
  have r: "kbd_run [Host_Key 0x41 True, Guest_Read, Guest_Read, Host_Key 0x42 False] keyboard_new
     = ([0x10041, 0x42], [0x10041], \<lparr>kbd_queue = [0x42]\<rparr>)"
    by (simp add: keyboard_new_def push_event_def kbd_read_word_def kbd_read_reg_def kbd_pop_def kbd_pending_def)
  have "[0x10041, 0x42 :: u32] = [0x10041] @ [0x42]" using keyboard_fifo [OF r] by simp
  with r show ?thesis by (rule conjI)
qed

text \<open>Guest writes to the framebuffer.\<close>

datatype fb_write = Fb_Byte u64 u8 | Fb_Word u64 u32

fun fb_step :: "fb_write \<Rightarrow> framebuffer \<Rightarrow> framebuffer" where
  "fb_step (Fb_Byte a v) d = snd (fb_write_byte a v d)"
| "fb_step (Fb_Word a v) d = snd (fb_write_word a v d)"

text \<open>What a write may do to the displayed pixels: nothing while the version stays, and the
  version moves by at most four.\<close>

definition fb_tracked :: "nat \<Rightarrow> framebuffer \<Rightarrow> framebuffer \<Rightarrow> bool" where
  "fb_tracked m d d' \<longleftrightarrow> (\<exists>k \<le> m. fb_version d' = fb_version d + of_nat k \<and> (k = 0 \<longrightarrow> pixels d' = pixels d))"

lemma fb_tracked_refl: "pixels d' = pixels d \<Longrightarrow> fb_version d' = fb_version d \<Longrightarrow> fb_tracked m d d'"
  by (auto simp: fb_tracked_def intro!: exI [of _ 0])

lemma fb_tracked_bump: "fb_version d' = fb_version d + 1 \<Longrightarrow> 1 \<le> m \<Longrightarrow> fb_tracked m d d'"
  by (auto simp: fb_tracked_def intro!: exI [of _ 1])

lemma fb_trackedI:
  "pixels d' = pixels d \<and> fb_version d' = fb_version d \<or> fb_version d' = fb_version d + 1 \<Longrightarrow>
   1 \<le> m \<Longrightarrow> fb_tracked m d d'"
  using fb_tracked_refl fb_tracked_bump by blast

lemma fb_tracked_mono: "fb_tracked m d d' \<Longrightarrow> m \<le> n \<Longrightarrow> fb_tracked n d d'"
  unfolding fb_tracked_def using order_trans by blast

lemma fb_tracked_trans:
  "fb_tracked m d d1 \<Longrightarrow> fb_tracked n d1 d2 \<Longrightarrow> fb_tracked (m + n) d d2"
  unfolding fb_tracked_def by (elim exE conjE) (rule_tac x = "k + ka" in exI, auto)

lemmas fb_defs = set_draw_buffer_def bump_version_def pixels_def

lemma fb_byte_tracked: "fb_tracked 1 d (snd (fb_write_byte a v d))"
  by (rule fb_trackedI) (auto simp: fb_defs fb_write_byte_def Let_def)

lemma fb_dribble_tracked: "fb_tracked (length bs) d (snd (fb_write_dribble a i bs d))"
proof (induction bs arbitrary: i d)
  case Nil
  then show ?case by (auto simp: sreturn_def intro!: fb_tracked_refl)
next
  case (Cons b bs)
  obtain r d1 where w: "fb_write_byte (a + of_nat i) b d = (r, d1)"
    by (cases "fb_write_byte (a + of_nat i) b d")
  have t: "fb_tracked 1 d d1" using fb_byte_tracked [of d "a + of_nat i" b] w by simp
  show ?case
  proof (cases r)
    case (Inl e)
    with w fb_tracked_mono [OF t, of "length (b # bs)"] show ?thesis by simp
  next
    case (Inr u)
    with w fb_tracked_trans [OF t Cons.IH [of d1 "Suc i"]] show ?thesis by simp
  qed
qed

lemma fb_word_tracked: "fb_tracked 4 d (snd (fb_write_word a v d))"
proof -
  have "fb_tracked 4 d (snd (fb_write_dribble a 0 (le_bytes32 v) d))"
    using fb_dribble_tracked [of "le_bytes32 v" d a 0] by (simp add: le_bytes32_def)
  moreover have "fb_tracked 4 d (snd (fb_write_word a v d))"
    if "snd (fb_write_word a v d) \<noteq> snd (fb_write_dribble a 0 (le_bytes32 v) d)"
    using that by (intro fb_trackedI)
      (auto simp: fb_write_word_def Let_def fill_def present_def fb_defs split: if_splits)
  ultimately show ?thesis by fastforce
qed

text \<open>The framebuffer's version counter never misses a change: a guest write (byte or word,
  to pixels or to the fill, present and mode registers) that leaves the counter unchanged leaves
  every displayed pixel unchanged. While double buffering is on, only a write to the present
  register can change what is displayed.\<close>

theorem framebuffer_version_tracks:
  "(fb_version (fb_step w d) = fb_version d \<longrightarrow> pixels (fb_step w d) = pixels d)
   \<and> (double_buffered d \<longrightarrow> (\<forall>v. w \<noteq> Fb_Word (of_nat (FB_BYTES + 4)) v) \<longrightarrow> pixels (fb_step w d) = pixels d)"
proof
  have "fb_tracked 4 d (fb_step w d)"
    using fb_tracked_mono [OF fb_byte_tracked, of 4] fb_word_tracked by (cases w) auto
  then obtain k where k: "k \<le> 4" "fb_version (fb_step w d) = fb_version d + of_nat k"
    "k = 0 \<longrightarrow> pixels (fb_step w d) = pixels d" by (auto simp: fb_tracked_def)
  have "unat (of_nat k :: u64) = k"
    using k(1) by (simp add: unsigned_of_nat take_bit_nat_eq_self)
  then show "fb_version (fb_step w d) = fb_version d \<longrightarrow> pixels (fb_step w d) = pixels d"
    using k by auto
next
  have byte: "double_buffered d1 \<Longrightarrow> double_buffered (snd (fb_write_byte a v d1))
      \<and> pixels (snd (fb_write_byte a v d1)) = pixels d1" for a v d1
    by (auto simp: fb_write_byte_def Let_def fb_defs)
  have drib: "double_buffered d1 \<Longrightarrow> pixels (snd (fb_write_dribble a i bs d1)) = pixels d1" for a i bs d1
  proof (induction bs arbitrary: i d1)
    case (Cons b bs)
    obtain r d2 where w: "fb_write_byte (a + of_nat i) b d1 = (r, d2)"
      by (cases "fb_write_byte (a + of_nat i) b d1")
    then have "double_buffered d2" "pixels d2 = pixels d1"
      using byte [OF Cons.prems, of "a + of_nat i" b] by simp_all
    with w Cons.IH [of d2] show ?case by (cases r) simp_all
  qed (simp add: sreturn_def)
  have "double_buffered d \<Longrightarrow> unat a \<noteq> FB_BYTES + 4 \<Longrightarrow> pixels (snd (fb_write_word a v d)) = pixels d" for a v
    using drib by (auto simp: fb_write_word_def Let_def fill_def fb_defs)
  moreover have "unat a \<noteq> FB_BYTES + 4" if "a \<noteq> of_nat (FB_BYTES + 4)" for a :: u64
    using that by (metis of_nat_unat ucast_id)
  ultimately show "double_buffered d \<longrightarrow> (\<forall>v. w \<noteq> Fb_Word (of_nat (FB_BYTES + 4)) v)
      \<longrightarrow> pixels (fb_step w d) = pixels d"
    using byte by (cases w) auto
qed

theorem framebuffer_version_tracks_witness:
  "pixels (fb_step (Fb_Word (of_nat FB_BYTES) 0xFF)
     \<lparr>fb_front = [1, 2], fb_back = [3, 4], double_buffered = True, fill_count = 0, fb_version = 7\<rparr>) = [1, 2]"
  using framebuffer_version_tracks [of "Fb_Word (of_nat FB_BYTES) 0xFF"
    "\<lparr>fb_front = [1, 2], fb_back = [3, 4], double_buffered = True, fill_count = 0, fb_version = 7\<rparr>"]
  by (simp add: pixels_def)

text \<open>Traffic on the UART: bytes from the host, and guest accesses to its registers.\<close>

datatype uart_step = Host_Rx u8 | Guest_Rd u64 | Guest_Wr u64 u8

fun uart_run :: "uart_step list \<Rightarrow> uart \<Rightarrow> u8 list \<times> u8 list \<times> uart" where
  "uart_run [] d = ([], [], d)"
| "uart_run (Host_Rx b # rest) d =
     (case uart_run rest (uart_receive b d) of (rx, g, d2) \<Rightarrow> (b # rx, g, d2))"
| "uart_run (Guest_Rd a # rest) d =
     (case uart_read_byte a d of (r, d1) \<Rightarrow>
        case uart_run rest d1 of (rx, g, d2) \<Rightarrow>
          (rx, (case r of Inr v \<Rightarrow> if a mod 8 = 0 \<and> rx_buf d \<noteq> [] then v # g else g | Inl _ \<Rightarrow> g), d2))"
| "uart_run (Guest_Wr a v # rest) d = uart_run rest (snd (uart_write_byte a v d))"

lemma uart_read_queue:
  "uart_read_byte a d = (r, d1) \<Longrightarrow> a mod 8 = 0 \<Longrightarrow> rx_buf d \<noteq> [] \<Longrightarrow>
     r = Inr (hd (rx_buf d)) \<and> rx_buf d1 = tl (rx_buf d)"
  "uart_read_byte a d = (r, d1) \<Longrightarrow> \<not> (a mod 8 = 0 \<and> rx_buf d \<noteq> []) \<Longrightarrow> rx_buf d1 = rx_buf d"
  by (auto simp: uart_read_byte_def Let_def split: list.splits if_splits)

lemma uart_write_queue: "rx_buf (snd (uart_write_byte a v d)) = rx_buf d"
  by (simp add: uart_write_byte_def Let_def)

text \<open>The UART loses and reorders nothing: after any interleaving of received bytes and
  guest register accesses, the bytes the guest read from the receive register, followed by those
  still buffered, are the received bytes in order, and the data-ready bit of the line status
  register is set exactly when the buffer is not empty.\<close>

theorem uart_fifo:
  assumes "uart_run steps uart_new = (rx, got, d)"
  shows "rx = got @ rx_buf d \<and> bit (lsr d) 0 = (rx_buf d \<noteq> [])"
proof -
  have "uart_wf d0 \<Longrightarrow> uart_run steps d0 = (rx, got, d) \<Longrightarrow>
      rx_buf d0 @ rx = got @ rx_buf d \<and> uart_wf d" for d0
  proof (induction steps arbitrary: d0 rx got)
    case (Cons st rest)
    show ?case
    proof (cases st)
      case (Host_Rx b)
      with Cons.IH [OF uart_wf_receive [of b d0]] Cons.prems(2) show ?thesis
        by (auto simp: uart_receive_def split: prod.splits)
    next
      case (Guest_Rd a)
      obtain r d1 where r: "uart_read_byte a d0 = (r, d1)" by (cases "uart_read_byte a d0")
      have wf: "uart_wf d1" using uart_wf_read [OF Cons.prems(1), of a] r by simp
      from uart_read_queue [OF r] Cons.IH [OF wf] Cons.prems(2) Guest_Rd r show ?thesis
        by (cases "a mod 8 = 0"; cases "rx_buf d0") (auto split: prod.splits sum.splits)
    next
      case (Guest_Wr a v)
      with Cons.IH [OF uart_wf_write [OF Cons.prems(1), of a v]] Cons.prems(2) show ?thesis
        by (simp add: uart_write_queue)
    qed
  qed simp
  from this [of uart_new] assms uart_wf_new show ?thesis
    by (simp add: uart_wf_def uart_new_def)
qed

theorem uart_fifo_witness:
  "\<exists>d. uart_run [Host_Rx 7, Host_Rx 8, Guest_Wr 0 65, Guest_Rd 0] uart_new = ([7, 8], [7], d)
     \<and> [7, 8] = [7] @ rx_buf d"
proof -
  let ?d = "uart_new\<lparr>rx_buf := [8], tx_out := [65], lsr := 0x61\<rparr>"
  have r: "uart_run [Host_Rx 7, Host_Rx 8, Guest_Wr 0 65, Guest_Rd 0] uart_new = ([7, 8], [7], ?d)"
    by (simp add: uart_new_def uart_receive_def uart_write_byte_def uart_read_byte_def)
  have "[7, 8] = [7] @ rx_buf ?d" using uart_fifo [OF r] by (rule conjunct1)
  with r show ?thesis by (intro exI [of _ ?d]) (rule conjI)
qed

text \<open>The 64-bit comparator of the CLINT, written and read as a doubleword through its two
  32-bit halves: a read returns the value written, and the timer interrupt is then pending
  exactly when the time has reached it.\<close>

theorem clint_mtimecmp_roundtrip:
  "\<exists>d'. write_doubleword clint_ops MTIMECMP_BASE v d = (Inr (), d')
     \<and> read_doubleword clint_ops MTIMECMP_BASE d' = (Inr v, d')
     \<and> mtime d' = mtime d \<and> (timer_irq_pending d' \<longleftrightarrow> v \<le> mtime d)"
proof -
  let ?d' = "d\<lparr>mtimecmp := v\<rparr>"
  have "write_doubleword clint_ops MTIMECMP_BASE v d = (Inr (), ?d')"
    by (simp add: clint_ops_def Let_def default_write_doubleword_def clint_write_word_def sbind_def set_halves)
  moreover have "read_doubleword clint_ops MTIMECMP_BASE ?d' = (Inr v, ?d')"
    by (simp add: clint_ops_def Let_def default_read_doubleword_def clint_read_word_def sbind_def
        sreturn_def word_halves)
  ultimately show ?thesis by (intro exI [of _ ?d']) (simp add: timer_irq_pending_def)
qed

end
