(* ===== verification/Bus.thy ===== *)
theory Bus
  imports Hierarchy Devices
begin

text \<open>
  The system bus (\<open>crates/virtual-machine/src/bus.rs\<close>): the routing of physical addresses to
  ROM, the devices and the cached RAM, the SYSCON power-off register, the access-latency
  accounting, and the snapshot and inspection functions. The bus implements \<open>MemoryAccess\<close>;
  its methods dispatch to the method of the device the address selects.
\<close>

subsection \<open>Memory map\<close>

abbreviation (input) ROM_BASE :: u64 where "ROM_BASE \<equiv> 0"
abbreviation (input) ROM_END :: u64 where "ROM_END \<equiv> 0x0FFFFFFF"
abbreviation (input) UART_BASE :: u64 where "UART_BASE \<equiv> 0x10000000"
abbreviation (input) UART_END :: u64 where "UART_END \<equiv> 0x10000FFF"
abbreviation (input) SYSCON_BASE :: u64 where "SYSCON_BASE \<equiv> 0x10010000"
abbreviation (input) SYSCON_END :: u64 where "SYSCON_END \<equiv> 0x10010FFF"
abbreviation (input) FB_BASE :: u64 where "FB_BASE \<equiv> 0x10020000"
abbreviation (input) FB_END :: u64 where "FB_END \<equiv> 0x1006BFFF"
abbreviation (input) KBD_BASE :: u64 where "KBD_BASE \<equiv> 0x10070000"
abbreviation (input) KBD_END :: u64 where "KBD_END \<equiv> 0x10070FFF"
abbreviation (input) CLINT_BASE :: u64 where "CLINT_BASE \<equiv> 0x02000000"
abbreviation (input) CLINT_END :: u64 where "CLINT_END \<equiv> 0x0200FFFF"
abbreviation (input) PLIC_BASE :: u64 where "PLIC_BASE \<equiv> 0x0C000000"
abbreviation (input) PLIC_END :: u64 where "PLIC_END \<equiv> 0x0CFFFFFF"

subsection \<open>State\<close>

record memory_latency_config =
  lat_enabled :: bool
  l1_hit :: u32
  l2_hit :: u32
  l3_hit :: u32
  lat_dram :: u32
  lat_uncached :: u32

definition latency_disabled :: memory_latency_config where
  "latency_disabled = \<lparr>lat_enabled = False, l1_hit = 1, l2_hit = 1, l3_hit = 1, lat_dram = 1,
     lat_uncached = 1\<rparr>"

definition latency_realistic :: memory_latency_config where
  "latency_realistic = \<lparr>lat_enabled = True, l1_hit = 4, l2_hit = 12, l3_hit = 40, lat_dram = 200,
     lat_uncached = 20\<rparr>"

record system_bus =
  bus_rom :: rom
  l1_cache :: hierarchy
  bus_uart :: uart
  bus_clint :: clint
  bus_plic :: plic
  bus_framebuffer :: framebuffer
  bus_keyboard :: keyboard
  syscon_exit :: "i64 option"
  memory_latency :: memory_latency_config
  access_latency_cycles :: u32

definition system_bus_new :: "u8 list \<Rightarrow> system_bus" where
  "system_bus_new rom_bytes =
     \<lparr>bus_rom = rom_new ROM_BASE rom_bytes, l1_cache = hierarchy_new, bus_uart = uart_new,
      bus_clint = clint_new, bus_plic = plic_new, bus_framebuffer = framebuffer_new,
      bus_keyboard = keyboard_new, syscon_exit = None, memory_latency = latency_disabled,
      access_latency_cycles = 0\<rparr>"

definition set_memory_latency_config :: "memory_latency_config \<Rightarrow> system_bus \<Rightarrow> system_bus" where
  "set_memory_latency_config cfg b = b\<lparr>memory_latency := cfg, access_latency_cycles := 0\<rparr>"

definition begin_timed_access :: "system_bus \<Rightarrow> system_bus" where
  "begin_timed_access b = b\<lparr>access_latency_cycles := 0\<rparr>"

definition timed_access_cycles :: "system_bus \<Rightarrow> u32" where
  "timed_access_cycles b = max (access_latency_cycles b) 1"

subsection \<open>Latency accounting\<close>

text \<open>\<open>saturating_add\<close> on words.\<close>

definition sat_add :: "'a::len word \<Rightarrow> 'a word \<Rightarrow> 'a word" where
  "sat_add x y = (if unat x + unat y < 2 ^ LENGTH('a) then x + y else - 1)"

definition cache_misses :: "cache_stats \<Rightarrow> u64" where
  "cache_misses s = sat_add (read_misses s) (write_misses s)"

type_synonym stats3 = "cache_stats \<times> cache_stats \<times> cache_stats"

definition get_cache_stats :: "system_bus \<Rightarrow> stats3" where
  "get_cache_stats b =
     (c_stats (l1_cache b), c_stats (c_next (l1_cache b)), c_stats (c_next (c_next (l1_cache b))))"

definition stats_before_access :: "u64 \<Rightarrow> system_bus \<Rightarrow> stats3 option" where
  "stats_before_access addr b =
     (if lat_enabled (memory_latency b) \<and> addr \<ge> RAM_BASE then Some (get_cache_stats b) else None)"

definition record_access_latency :: "u64 \<Rightarrow> stats3 option \<Rightarrow> system_bus \<Rightarrow> system_bus" where
  "record_access_latency addr before b =
     (if \<not> lat_enabled (memory_latency b) then b
      else
        let cycles =
          (if addr < RAM_BASE then lat_uncached (memory_latency b)
           else case before of
             Some (l1_before, l2_before, l3_before) \<Rightarrow>
               (case get_cache_stats b of (l1_after, l2_after, l3_after) \<Rightarrow>
                  if cache_misses l3_after > cache_misses l3_before then lat_dram (memory_latency b)
                  else if cache_misses l2_after > cache_misses l2_before then l3_hit (memory_latency b)
                  else if cache_misses l1_after > cache_misses l1_before then l2_hit (memory_latency b)
                  else l1_hit (memory_latency b))
           | None \<Rightarrow> 1)
        in b\<lparr>access_latency_cycles := sat_add (access_latency_cycles b) (max cycles 1)\<rparr>)"

subsection \<open>Routing\<close>

datatype device = Dev_Uart | Dev_Clint | Dev_Plic | Dev_Framebuffer | Dev_Keyboard | Dev_Rom | Dev_Ram

definition route :: "u64 \<Rightarrow> device \<times> u64" where
  "route addr =
     (if addr \<ge> UART_BASE \<and> addr \<le> UART_END then (Dev_Uart, addr - UART_BASE)
      else if addr \<ge> CLINT_BASE \<and> addr \<le> CLINT_END then (Dev_Clint, addr - CLINT_BASE)
      else if addr \<ge> PLIC_BASE \<and> addr \<le> PLIC_END then (Dev_Plic, addr - PLIC_BASE)
      else if addr \<ge> FB_BASE \<and> addr \<le> FB_END then (Dev_Framebuffer, addr - FB_BASE)
      else if addr \<ge> KBD_BASE \<and> addr \<le> KBD_END then (Dev_Keyboard, addr - KBD_BASE)
      else if addr \<ge> ROM_BASE \<and> addr \<le> ROM_END then (Dev_Rom, addr)
      else (Dev_Ram, addr))"

text \<open>Running a device method on its component of the bus.\<close>

definition lift_uart :: "(uart, 'a) action \<Rightarrow> (system_bus, 'a) action" where
  "lift_uart m b = (case m (bus_uart b) of (r, d) \<Rightarrow> (r, b\<lparr>bus_uart := d\<rparr>))"

definition lift_clint :: "(clint, 'a) action \<Rightarrow> (system_bus, 'a) action" where
  "lift_clint m b = (case m (bus_clint b) of (r, d) \<Rightarrow> (r, b\<lparr>bus_clint := d\<rparr>))"

definition lift_plic :: "(plic, 'a) action \<Rightarrow> (system_bus, 'a) action" where
  "lift_plic m b = (case m (bus_plic b) of (r, d) \<Rightarrow> (r, b\<lparr>bus_plic := d\<rparr>))"

definition lift_framebuffer :: "(framebuffer, 'a) action \<Rightarrow> (system_bus, 'a) action" where
  "lift_framebuffer m b = (case m (bus_framebuffer b) of (r, d) \<Rightarrow> (r, b\<lparr>bus_framebuffer := d\<rparr>))"

definition lift_keyboard :: "(keyboard, 'a) action \<Rightarrow> (system_bus, 'a) action" where
  "lift_keyboard m b = (case m (bus_keyboard b) of (r, d) \<Rightarrow> (r, b\<lparr>bus_keyboard := d\<rparr>))"

definition lift_rom :: "(rom, 'a) action \<Rightarrow> (system_bus, 'a) action" where
  "lift_rom m b = (case m (bus_rom b) of (r, d) \<Rightarrow> (r, b\<lparr>bus_rom := d\<rparr>))"

definition lift_ram :: "(hierarchy, 'a) action \<Rightarrow> (system_bus, 'a) action" where
  "lift_ram m b = (case m (l1_cache b) of (r, d) \<Rightarrow> (r, b\<lparr>l1_cache := d\<rparr>))"

text \<open>A method call on the routed device, with the latency recorded after it.\<close>

definition dispatch ::
  "(u64 \<Rightarrow> (uart, 'a) action) \<Rightarrow> (u64 \<Rightarrow> (clint, 'a) action) \<Rightarrow> (u64 \<Rightarrow> (plic, 'a) action) \<Rightarrow>
   (u64 \<Rightarrow> (framebuffer, 'a) action) \<Rightarrow> (u64 \<Rightarrow> (keyboard, 'a) action) \<Rightarrow> (u64 \<Rightarrow> (rom, 'a) action) \<Rightarrow>
   (u64 \<Rightarrow> (hierarchy, 'a) action) \<Rightarrow> u64 \<Rightarrow> (system_bus, 'a) action" where
  "dispatch fu fc fp ff fk fr fm addr b =
     (let before = stats_before_access addr b in
      case (case route addr of (dev, loc) \<Rightarrow>
              (case dev of
                 Dev_Uart \<Rightarrow> lift_uart (fu loc) b
               | Dev_Clint \<Rightarrow> lift_clint (fc loc) b
               | Dev_Plic \<Rightarrow> lift_plic (fp loc) b
               | Dev_Framebuffer \<Rightarrow> lift_framebuffer (ff loc) b
               | Dev_Keyboard \<Rightarrow> lift_keyboard (fk loc) b
               | Dev_Rom \<Rightarrow> lift_rom (fr loc) b
               | Dev_Ram \<Rightarrow> lift_ram (fm loc) b)) of
        (res, b1) \<Rightarrow> (res, record_access_latency addr before b1))"

definition in_syscon :: "u64 \<Rightarrow> bool" where
  "in_syscon addr \<longleftrightarrow> addr \<ge> SYSCON_BASE \<and> addr \<le> SYSCON_END"

definition bus_read_byte :: "u64 \<Rightarrow> (system_bus, u8) action" where
  "bus_read_byte = dispatch (read_byte uart_ops) (read_byte clint_ops) (read_byte plic_ops)
     (read_byte fb_ops) (read_byte kbd_ops) (read_byte rom_ops) (read_byte hier_ops)"

definition bus_read_halfword :: "u64 \<Rightarrow> (system_bus, u16) action" where
  "bus_read_halfword = dispatch (read_halfword uart_ops) (read_halfword clint_ops) (read_halfword plic_ops)
     (read_halfword fb_ops) (read_halfword kbd_ops) (read_halfword rom_ops) (read_halfword hier_ops)"

definition bus_read_word :: "u64 \<Rightarrow> (system_bus, u32) action" where
  "bus_read_word = dispatch (read_word uart_ops) (read_word clint_ops) (read_word plic_ops)
     (read_word fb_ops) (read_word kbd_ops) (read_word rom_ops) (read_word hier_ops)"

definition bus_read_doubleword :: "u64 \<Rightarrow> (system_bus, u64) action" where
  "bus_read_doubleword = dispatch (read_doubleword uart_ops) (read_doubleword clint_ops)
     (read_doubleword plic_ops) (read_doubleword fb_ops) (read_doubleword kbd_ops)
     (read_doubleword rom_ops) (read_doubleword hier_ops)"

definition bus_write_byte :: "u64 \<Rightarrow> u8 \<Rightarrow> (system_bus, unit) action" where
  "bus_write_byte addr v b =
     (if in_syscon addr then
        (Inr (), if addr = SYSCON_BASE then b\<lparr>syscon_exit := Some (ucast v)\<rparr> else b)
      else dispatch (\<lambda>a. write_byte uart_ops a v) (\<lambda>a. write_byte clint_ops a v)
        (\<lambda>a. write_byte plic_ops a v) (\<lambda>a. write_byte fb_ops a v) (\<lambda>a. write_byte kbd_ops a v)
        (\<lambda>a. write_byte rom_ops a v) (\<lambda>a. write_byte hier_ops a v) addr b)"

definition bus_write_halfword :: "u64 \<Rightarrow> u16 \<Rightarrow> (system_bus, unit) action" where
  "bus_write_halfword addr v b =
     (if in_syscon addr then
        (Inr (), if addr = SYSCON_BASE then b\<lparr>syscon_exit := Some (ucast v)\<rparr> else b)
      else dispatch (\<lambda>a. write_halfword uart_ops a v) (\<lambda>a. write_halfword clint_ops a v)
        (\<lambda>a. write_halfword plic_ops a v) (\<lambda>a. write_halfword fb_ops a v)
        (\<lambda>a. write_halfword kbd_ops a v) (\<lambda>a. write_halfword rom_ops a v)
        (\<lambda>a. write_halfword hier_ops a v) addr b)"

definition bus_write_word :: "u64 \<Rightarrow> u32 \<Rightarrow> (system_bus, unit) action" where
  "bus_write_word addr v b =
     (if in_syscon addr then
        (Inr (), if addr = SYSCON_BASE then b\<lparr>syscon_exit := Some (ucast v)\<rparr> else b)
      else dispatch (\<lambda>a. write_word uart_ops a v) (\<lambda>a. write_word clint_ops a v)
        (\<lambda>a. write_word plic_ops a v) (\<lambda>a. write_word fb_ops a v) (\<lambda>a. write_word kbd_ops a v)
        (\<lambda>a. write_word rom_ops a v) (\<lambda>a. write_word hier_ops a v) addr b)"

definition bus_write_doubleword :: "u64 \<Rightarrow> u64 \<Rightarrow> (system_bus, unit) action" where
  "bus_write_doubleword addr v b =
     (if in_syscon addr then (Inr (), b\<lparr>syscon_exit := Some v\<rparr>)
      else dispatch (\<lambda>a. write_doubleword uart_ops a v) (\<lambda>a. write_doubleword clint_ops a v)
        (\<lambda>a. write_doubleword plic_ops a v) (\<lambda>a. write_doubleword fb_ops a v)
        (\<lambda>a. write_doubleword kbd_ops a v) (\<lambda>a. write_doubleword rom_ops a v)
        (\<lambda>a. write_doubleword hier_ops a v) addr b)"

definition bus_ops :: "system_bus mem_ops" where
  "bus_ops =
     \<lparr>read_byte = bus_read_byte, read_halfword = bus_read_halfword,
      read_word = bus_read_word, read_doubleword = bus_read_doubleword,
      write_byte = bus_write_byte, write_halfword = bus_write_halfword,
      write_word = bus_write_word, write_doubleword = bus_write_doubleword\<rparr>"

definition keyboard_push :: "u16 \<Rightarrow> bool \<Rightarrow> system_bus \<Rightarrow> system_bus" where
  "keyboard_push scancode pressed b =
     b\<lparr>bus_keyboard := push_event scancode pressed (bus_keyboard b)\<rparr>"

definition take_syscon_exit :: "system_bus \<Rightarrow> i64 option \<times> system_bus" where
  "take_syscon_exit b = (syscon_exit b, b\<lparr>syscon_exit := None\<rparr>)"

subsection \<open>Snapshots and debug reads\<close>

record device_state =
  ds_uart :: uart
  ds_clint :: clint
  ds_plic :: plic
  ds_framebuffer :: framebuffer
  ds_keyboard :: keyboard
  ds_syscon_exit :: "i64 option"

definition fb_image :: "device_state \<Rightarrow> u8 list" where
  "fb_image s = plane_image (ds_framebuffer s)"

definition without_fb :: "device_state \<Rightarrow> device_state" where
  "without_fb s = s\<lparr>ds_framebuffer := strip_planes (ds_framebuffer s)\<rparr>"

definition load_fb_image :: "u8 list \<Rightarrow> device_state \<Rightarrow> device_state" where
  "load_fb_image bytes s = s\<lparr>ds_framebuffer := load_plane_image bytes (ds_framebuffer s)\<rparr>"

definition device_state_of :: "system_bus \<Rightarrow> device_state" where
  "device_state_of b =
     \<lparr>ds_uart = bus_uart b, ds_clint = bus_clint b, ds_plic = bus_plic b,
      ds_framebuffer = bus_framebuffer b, ds_keyboard = bus_keyboard b,
      ds_syscon_exit = syscon_exit b\<rparr>"

definition restore_device_state :: "device_state \<Rightarrow> system_bus \<Rightarrow> system_bus" where
  "restore_device_state s b =
     b\<lparr>bus_uart := ds_uart s, bus_clint := ds_clint s, bus_plic := ds_plic s,
       bus_framebuffer := ds_framebuffer s, bus_keyboard := ds_keyboard s,
       syscon_exit := ds_syscon_exit s\<rparr>"

definition ram_image :: "system_bus \<Rightarrow> u8 list" where
  "ram_image b =
     (let img3 = cache_write_image_into ram_write_image_into ram_base;
          img2 = cache_write_image_into img3 (\<lambda>c. ram_base (c_next c));
          img1 = cache_write_image_into img2 (\<lambda>c. ram_base (c_next (c_next c)))
      in img1 (l1_cache b) (replicate (ram_len (c_next (c_next (c_next (l1_cache b))))) 0))"

definition load_ram_image :: "u8 list \<Rightarrow> system_bus \<Rightarrow> system_bus" where
  "load_ram_image bytes b =
     b\<lparr>l1_cache := cache_load_image (cache_load_image (cache_load_image ram_load_image)) bytes (l1_cache b)\<rparr>"

definition cold_cache_reset :: "system_bus \<Rightarrow> system_bus" where
  "cold_cache_reset b =
     (let c1 = flush_and_invalidate (cache_ops (cache_ops ram_ops)) (l1_cache b);
          c2 = c1\<lparr>c_next := flush_and_invalidate (cache_ops ram_ops) (c_next c1)\<rparr>;
          c3 = c2\<lparr>c_next := (c_next c2)\<lparr>c_next := flush_and_invalidate ram_ops (c_next (c_next c2))\<rparr>\<rparr>
      in b\<lparr>l1_cache := c3\<rparr>)"

definition or_zero :: "u8 result \<Rightarrow> u8" where
  "or_zero r = (case r of Inr v \<Rightarrow> v | Inl _ \<Rightarrow> 0)"

definition opt_zero :: "u8 option \<Rightarrow> u8" where
  "opt_zero r = (case r of Some v \<Rightarrow> v | None \<Rightarrow> 0)"

definition get_pixel :: "framebuffer \<Rightarrow> u64 \<Rightarrow> u8" where
  "get_pixel d off = (if unat off < length (pixels d) then pixels d ! unat off else 0)"

definition peek_byte_at :: "u64 \<Rightarrow> system_bus \<Rightarrow> u8 \<times> system_bus" where
  "peek_byte_at a b =
     (if a \<ge> ROM_BASE \<and> a \<le> ROM_END then (or_zero (fst (rom_read_byte a (bus_rom b))), b)
      else if a \<ge> UART_BASE \<and> a \<le> UART_END then
        (case lift_uart (uart_read_byte (a - UART_BASE)) b of (r, b') \<Rightarrow> (or_zero r, b'))
      else if a \<ge> CLINT_BASE \<and> a \<le> CLINT_END then
        (case lift_clint (read_byte clint_ops (a - CLINT_BASE)) b of (r, b') \<Rightarrow> (or_zero r, b'))
      else if a \<ge> PLIC_BASE \<and> a \<le> PLIC_END then
        (case lift_plic (read_byte plic_ops (a - PLIC_BASE)) b of (r, b') \<Rightarrow> (or_zero r, b'))
      else if a \<ge> FB_BASE \<and> a \<le> FB_END then (get_pixel (bus_framebuffer b) (a - FB_BASE), b)
      else if a \<ge> KBD_BASE \<and> a \<le> KBD_END then (0, b)
      else (case lift_ram (read_byte hier_ops a) b of (r, b') \<Rightarrow> (or_zero r, b')))"

fun peek_bytes_from :: "u64 \<Rightarrow> nat \<Rightarrow> nat \<Rightarrow> system_bus \<Rightarrow> u8 list \<times> system_bus" where
  "peek_bytes_from addr i 0 b = ([], b)"
| "peek_bytes_from addr i (Suc k) b =
     (case peek_byte_at (addr + of_nat i) b of (v, b') \<Rightarrow>
        case peek_bytes_from addr (Suc i) k b' of (vs, b'') \<Rightarrow> (v # vs, b''))"

definition peek_bytes :: "u64 \<Rightarrow> nat \<Rightarrow> system_bus \<Rightarrow> u8 list \<times> system_bus" where
  "peek_bytes addr len = peek_bytes_from addr 0 len"

definition peek_byte_raw_at :: "system_bus \<Rightarrow> u64 \<Rightarrow> u8" where
  "peek_byte_raw_at b a =
     (if a \<ge> UART_BASE \<and> a \<le> UART_END then opt_zero (uart_peek_byte (bus_uart b) (a - UART_BASE))
      else if a \<ge> CLINT_BASE \<and> a \<le> CLINT_END then 0
      else if a \<ge> PLIC_BASE \<and> a \<le> PLIC_END then 0
      else if a \<ge> FB_BASE \<and> a \<le> FB_END then get_pixel (bus_framebuffer b) (a - FB_BASE)
      else if a \<ge> KBD_BASE \<and> a \<le> KBD_END then 0
      else if a \<ge> ROM_BASE \<and> a \<le> ROM_END then opt_zero (rom_peek_byte (bus_rom b) a)
      else opt_zero (hier_peek_byte_raw (l1_cache b) a))"

definition peek_bytes_raw :: "system_bus \<Rightarrow> u64 \<Rightarrow> nat \<Rightarrow> u8 list" where
  "peek_bytes_raw b addr len = map (\<lambda>i. peek_byte_raw_at b (addr + of_nat i)) [0..<len]"

subsection \<open>Isolation of the devices\<close>

text \<open>Two bus states that differ at most in the component a routed access may change and in the
  cycle count.\<close>

definition same_except :: "device \<Rightarrow> system_bus \<Rightarrow> system_bus \<Rightarrow> bool" where
  "same_except dev b b' \<longleftrightarrow>
     (dev \<noteq> Dev_Uart \<longrightarrow> bus_uart b' = bus_uart b) \<and> (dev \<noteq> Dev_Clint \<longrightarrow> bus_clint b' = bus_clint b)
     \<and> (dev \<noteq> Dev_Plic \<longrightarrow> bus_plic b' = bus_plic b)
     \<and> (dev \<noteq> Dev_Framebuffer \<longrightarrow> bus_framebuffer b' = bus_framebuffer b)
     \<and> (dev \<noteq> Dev_Keyboard \<longrightarrow> bus_keyboard b' = bus_keyboard b)
     \<and> (dev \<noteq> Dev_Ram \<longrightarrow> l1_cache b' = l1_cache b)
     \<and> bus_rom b' = bus_rom b \<and> memory_latency b' = memory_latency b"

lemmas lift_defs = lift_uart_def lift_clint_def lift_plic_def lift_framebuffer_def
  lift_keyboard_def lift_rom_def lift_ram_def

lemma record_access_latency_fields [simp]:
  "bus_rom (record_access_latency a s b) = bus_rom b" "bus_uart (record_access_latency a s b) = bus_uart b"
  "bus_clint (record_access_latency a s b) = bus_clint b" "bus_plic (record_access_latency a s b) = bus_plic b"
  "bus_framebuffer (record_access_latency a s b) = bus_framebuffer b"
  "bus_keyboard (record_access_latency a s b) = bus_keyboard b"
  "l1_cache (record_access_latency a s b) = l1_cache b"
  "syscon_exit (record_access_latency a s b) = syscon_exit b"
  "memory_latency (record_access_latency a s b) = memory_latency b"
  by (simp_all add: record_access_latency_def Let_def)

lemma dispatch_isolated:
  assumes "dispatch fu fc fp ff fk fr fm addr b = (r, b')"
    and rom: "\<And>a m. snd (fr a m) = m"
  shows "same_except (fst (route addr)) b b' \<and> syscon_exit b' = syscon_exit b"
proof -
  obtain dev loc where ro: "route addr = (dev, loc)" by (cases "route addr")
  show ?thesis
  proof (cases dev)
    case Dev_Rom
    then show ?thesis
      using assms(1) rom [of loc "bus_rom b"] ro
      by (auto simp: dispatch_def Let_def lift_defs same_except_def split: prod.splits)
  qed (use assms(1) ro in \<open>auto simp: dispatch_def Let_def lift_defs same_except_def split: prod.splits\<close>)
qed

lemma rom_state:
  "snd (rom_read_byte a m) = m" "snd (rom_read_halfword a m) = m"
  "snd (rom_read_word a m) = m" "snd (rom_read_doubleword a m) = m"
proof -
  have b: "snd (rom_read_byte a m) = m" for a m by (simp add: rom_read_byte_def split: option.splits)
  have bind: "snd (sbind f g m) = m" if "\<And>m. snd (f m) = m" "\<And>x m. snd (g x m) = m" for f :: "(rom, 'x) action" and g :: "'x \<Rightarrow> (rom, 'y) action" and m
    using that by (auto simp: sbind_def split: prod.splits sum.splits) (metis snd_conv)+
  have ret: "snd (sreturn x m) = m" for x :: 'z and m :: rom by (simp add: sreturn_def)
  have h: "snd (rom_read_halfword a m) = m" for a m
    unfolding rom_read_halfword_def by (intro bind b ret)
  have w: "snd (rom_read_word a m) = m" for a m
    unfolding rom_read_word_def by (intro bind b ret)
  show "snd (rom_read_byte a m) = m" "snd (rom_read_halfword a m) = m" "snd (rom_read_word a m) = m"
    by (rule b h w)+
  show "snd (rom_read_doubleword a m) = m"
    unfolding rom_read_doubleword_def by (intro bind w ret)
qed

lemma rom_ops_state:
  "snd (read_byte rom_ops a m) = m" "snd (read_halfword rom_ops a m) = m"
  "snd (read_word rom_ops a m) = m" "snd (read_doubleword rom_ops a m) = m"
  "snd (write_byte rom_ops a v8 m) = m" "snd (write_halfword rom_ops a v16 m) = m"
  "snd (write_word rom_ops a v32 m) = m" "snd (write_doubleword rom_ops a v64 m) = m"
  by (simp_all add: rom_ops_def rom_state sfail_def)

fun req_addr :: "request \<Rightarrow> u64" where
  "req_addr (Load w a) = a" | "req_addr (Store w a v) = a"

lemma snd_answer [simp]: "snd (answer f x) = snd x"
  by (auto simp: answer_def split: prod.splits sum.splits)

lemmas bus_method_defs = bus_ops_def bus_read_byte_def bus_read_halfword_def bus_read_word_def
  bus_read_doubleword_def bus_write_byte_def bus_write_halfword_def bus_write_word_def
  bus_write_doubleword_def

lemma dispatch_isolated':
  assumes "\<And>a m. snd (fr a m) = m"
  shows "same_except (fst (route addr)) b (snd (dispatch fu fc fp ff fk fr fm addr b))
    \<and> syscon_exit (snd (dispatch fu fc fp ff fk fr fm addr b)) = syscon_exit b"
  using dispatch_isolated [of fu fc fp ff fk fr fm addr b] assms
  by (metis surjective_pairing)

lemma serve_isolated:
  "same_except (fst (route (req_addr r))) b (snd (serve bus_ops r b))
   \<and> (syscon_exit (snd (serve bus_ops r b)) \<noteq> syscon_exit b \<longrightarrow> (\<exists>w a v. r = Store w a v \<and> in_syscon a))"
proof (cases r)
  case (Load w a)
  then show ?thesis
    by (cases w) (simp_all add: bus_method_defs dispatch_isolated' rom_ops_state)
next
  case (Store w a v)
  show ?thesis
  proof (cases "in_syscon a")
    case True
    then show ?thesis using Store by (cases w) (auto simp: bus_method_defs same_except_def)
  next
    case False
    then show ?thesis
      using Store by (cases w) (simp_all add: bus_method_defs dispatch_isolated' rom_ops_state)
  qed
qed

subsection \<open>The memory map\<close>

text \<open>The memory map of \<open>_VM_SPECIFICATION.md\<close>, section 2, written out from that table: first and
  last address of each window. The windows of the CLINT and the PLIC lie inside that of the ROM and
  go before it; everything outside the table is the RAM's business.\<close>

definition memory_map :: "(u64 \<times> u64 \<times> device) list" where
  "memory_map =
     [(0x02000000, 0x0200FFFF, Dev_Clint), (0x0C000000, 0x0CFFFFFF, Dev_Plic),
      (0x10000000, 0x10000FFF, Dev_Uart), (0x10020000, 0x1006BFFF, Dev_Framebuffer),
      (0x10070000, 0x10070FFF, Dev_Keyboard), (0x00000000, 0x0FFFFFFF, Dev_Rom)]"

definition device_at :: "u64 \<Rightarrow> device \<times> u64" where
  "device_at a = (case find (\<lambda>(lo, hi, d). lo \<le> a \<and> a \<le> hi) memory_map of
     Some (lo, hi, d) \<Rightarrow> (d, a - lo)
   | None \<Rightarrow> (Dev_Ram, a))"

text \<open>Serving a request, with its address already local, on one component of the bus.\<close>

definition device_serve :: "device \<Rightarrow> request \<Rightarrow> system_bus \<Rightarrow> u64 option \<times> system_bus" where
  "device_serve d r b = (case d of
     Dev_Uart \<Rightarrow> (case serve uart_ops r (bus_uart b) of (x, s) \<Rightarrow> (x, b\<lparr>bus_uart := s\<rparr>))
   | Dev_Clint \<Rightarrow> (case serve clint_ops r (bus_clint b) of (x, s) \<Rightarrow> (x, b\<lparr>bus_clint := s\<rparr>))
   | Dev_Plic \<Rightarrow> (case serve plic_ops r (bus_plic b) of (x, s) \<Rightarrow> (x, b\<lparr>bus_plic := s\<rparr>))
   | Dev_Framebuffer \<Rightarrow> (case serve fb_ops r (bus_framebuffer b) of (x, s) \<Rightarrow> (x, b\<lparr>bus_framebuffer := s\<rparr>))
   | Dev_Keyboard \<Rightarrow> (case serve kbd_ops r (bus_keyboard b) of (x, s) \<Rightarrow> (x, b\<lparr>bus_keyboard := s\<rparr>))
   | Dev_Rom \<Rightarrow> (fst (serve rom_ops r (bus_rom b)), b)
   | Dev_Ram \<Rightarrow> (case serve hier_ops r (l1_cache b) of (x, s) \<Rightarrow> (x, b\<lparr>l1_cache := s\<rparr>)))"

fun at_offset :: "u64 \<Rightarrow> request \<Rightarrow> request" where
  "at_offset off (Load w a) = Load w off"
| "at_offset off (Store w a v) = Store w off v"

text \<open>A store to the SYSCON page never reaches a device. It latches its value as the exit code when
  it is a doubleword, or goes to the first address of the page; other stores to the page vanish.\<close>

fun syscon_store :: "request \<Rightarrow> system_bus \<Rightarrow> system_bus option" where
  "syscon_store (Load w a) b = None"
| "syscon_store (Store w a v) b =
     (if 0x10010000 \<le> a \<and> a \<le> 0x10010FFF then
        Some (if a = 0x10010000 \<or> w = W64 then b\<lparr>syscon_exit := Some (take_bit (8 * nbytes w) v)\<rparr> else b)
      else None)"

lemma route_device_at: "route a = device_at a"
proof (cases "0x10000000 \<le> a")
  case True
  then have "\<not> a \<le> 0x0200FFFF" "\<not> a \<le> 0x0CFFFFFF" "\<not> a \<le> 0x0FFFFFFF"
    by (simp_all add: word_le_nat_alt)
  then show ?thesis by (simp add: route_def device_at_def memory_map_def)
next
  case False
  then have "\<not> 0x10000000 \<le> a" "\<not> 0x10020000 \<le> a" "\<not> 0x10070000 \<le> a"
    by (simp_all add: word_le_nat_alt)
  then show ?thesis by (simp add: route_def device_at_def memory_map_def)
qed

lemma latency_update: "\<exists>n. record_access_latency a before b = b\<lparr>access_latency_cycles := n\<rparr>"
proof (cases "lat_enabled (memory_latency b)")
  case False
  then have "record_access_latency a before b = b\<lparr>access_latency_cycles := access_latency_cycles b\<rparr>"
    by (simp add: record_access_latency_def)
  then show ?thesis by blast
qed (auto simp: record_access_latency_def Let_def)

text \<open>What a dispatched method does to the component its address selects.\<close>

lemma fst_answer: "fst (answer f (fst x, y)) = fst (answer f x)"
  by (cases x) (auto simp: answer_def split: sum.splits)

lemma answer_dispatch_at:
  assumes d: "device_at addr = (d, off)" and m: "m = (case d of
      Dev_Uart \<Rightarrow> lift_uart (fu off) b | Dev_Clint \<Rightarrow> lift_clint (fc off) b | Dev_Plic \<Rightarrow> lift_plic (fp off) b
    | Dev_Framebuffer \<Rightarrow> lift_framebuffer (ff off) b | Dev_Keyboard \<Rightarrow> lift_keyboard (fk off) b
    | Dev_Rom \<Rightarrow> lift_rom (fr off) b | Dev_Ram \<Rightarrow> lift_ram (fm off) b)"
  shows "\<exists>n. answer f (dispatch fu fc fp ff fk fr fm addr b) = (fst (answer f m), (snd m)\<lparr>access_latency_cycles := n\<rparr>)"
proof -
  obtain n where n: "record_access_latency addr (stats_before_access addr b) (snd m) = (snd m)\<lparr>access_latency_cycles := n\<rparr>"
    using latency_update by blast
  have "dispatch fu fc fp ff fk fr fm addr b = (fst m, (snd m)\<lparr>access_latency_cycles := n\<rparr>)"
    using d n by (simp add: dispatch_def route_device_at m [symmetric] split_beta)
  then show ?thesis by (intro exI [of _ n] prod_eqI) (simp_all add: fst_answer)
qed

lemma answer_dispatch:
  "device_at addr = (Dev_Uart, off) \<Longrightarrow> \<exists>n. answer f (dispatch fu fc fp ff fk fr fm addr b)
     = (fst (answer f (fu off (bus_uart b))), b\<lparr>bus_uart := snd (fu off (bus_uart b)), access_latency_cycles := n\<rparr>)"
  "device_at addr = (Dev_Clint, off) \<Longrightarrow> \<exists>n. answer f (dispatch fu fc fp ff fk fr fm addr b)
     = (fst (answer f (fc off (bus_clint b))), b\<lparr>bus_clint := snd (fc off (bus_clint b)), access_latency_cycles := n\<rparr>)"
  "device_at addr = (Dev_Plic, off) \<Longrightarrow> \<exists>n. answer f (dispatch fu fc fp ff fk fr fm addr b)
     = (fst (answer f (fp off (bus_plic b))), b\<lparr>bus_plic := snd (fp off (bus_plic b)), access_latency_cycles := n\<rparr>)"
  "device_at addr = (Dev_Framebuffer, off) \<Longrightarrow> \<exists>n. answer f (dispatch fu fc fp ff fk fr fm addr b)
     = (fst (answer f (ff off (bus_framebuffer b))), b\<lparr>bus_framebuffer := snd (ff off (bus_framebuffer b)), access_latency_cycles := n\<rparr>)"
  "device_at addr = (Dev_Keyboard, off) \<Longrightarrow> \<exists>n. answer f (dispatch fu fc fp ff fk fr fm addr b)
     = (fst (answer f (fk off (bus_keyboard b))), b\<lparr>bus_keyboard := snd (fk off (bus_keyboard b)), access_latency_cycles := n\<rparr>)"
  "device_at addr = (Dev_Rom, off) \<Longrightarrow> snd (fr off (bus_rom b)) = bus_rom b \<Longrightarrow> \<exists>n. answer f (dispatch fu fc fp ff fk fr fm addr b)
     = (fst (answer f (fr off (bus_rom b))), b\<lparr>access_latency_cycles := n\<rparr>)"
  "device_at addr = (Dev_Ram, off) \<Longrightarrow> \<exists>n. answer f (dispatch fu fc fp ff fk fr fm addr b)
     = (fst (answer f (fm off (l1_cache b))), b\<lparr>l1_cache := snd (fm off (l1_cache b)), access_latency_cycles := n\<rparr>)"
  using answer_dispatch_at [of addr Dev_Uart off _ fu b fc fp ff fk fr fm f]
    answer_dispatch_at [of addr Dev_Clint off _ fu b fc fp ff fk fr fm f]
    answer_dispatch_at [of addr Dev_Plic off _ fu b fc fp ff fk fr fm f]
    answer_dispatch_at [of addr Dev_Framebuffer off _ fu b fc fp ff fk fr fm f]
    answer_dispatch_at [of addr Dev_Keyboard off _ fu b fc fp ff fk fr fm f]
    answer_dispatch_at [of addr Dev_Rom off _ fu b fc fp ff fk fr fm f]
    answer_dispatch_at [of addr Dev_Ram off _ fu b fc fp ff fk fr fm f]
  by (simp_all add: lift_defs split_beta fst_answer)

text \<open>The memory access as the memory map describes it.\<close>

definition mapped_access :: "request \<Rightarrow> system_bus \<Rightarrow> u32 \<Rightarrow> u64 option \<times> system_bus" where
  "mapped_access r b n =
     (case syscon_store r b of
        Some b' \<Rightarrow> (Some 0, b')
      | None \<Rightarrow>
          (case device_at (req_addr r) of (d, off) \<Rightarrow>
             (case device_serve d (at_offset off r) b of (x, b') \<Rightarrow> (x, b'\<lparr>access_latency_cycles := n\<rparr>))))"

lemma serve_mapped: "\<exists>n. serve bus_ops r b = mapped_access r b n"
proof (cases "syscon_store r b")
  case (Some b')
  then obtain w a v where r: "r = Store w a v" "in_syscon a"
    by (cases r) (auto simp: in_syscon_def split: if_splits)
  have "take_bit 8 v = ucast (ucast v :: u8)" "take_bit 16 v = ucast (ucast v :: u16)"
      "take_bit 32 v = ucast (ucast v :: u32)" "take_bit 64 v = v"
    by (rule u64_eqI; auto simp: bit_simps)+
  with Some r show ?thesis
    by (cases w) (auto simp: bus_method_defs answer_def mapped_access_def split: if_splits)
next
  case None
  obtain d off where d: "device_at (req_addr r) = (d, off)" by (metis surj_pair)
  show ?thesis
  proof (cases r)
    case (Load w a)
    with None d show ?thesis
      by (cases w; cases d)
        (simp_all add: bus_method_defs mapped_access_def device_serve_def split_beta answer_dispatch rom_ops_state)
  next
    case (Store w a v)
    with None have "\<not> in_syscon a" by (auto simp: in_syscon_def split: if_splits)
    with Store None d show ?thesis
      by (cases w; cases d)
        (simp_all add: bus_method_defs mapped_access_def device_serve_def split_beta del: syscon_store.simps,
         (rule answer_dispatch; simp add: rom_ops_state)+)
  qed
qed

text \<open>C32. A memory access does what the memory map says, to one component only. A store to the
  SYSCON page latches the exit code (or vanishes) and changes nothing else. Every other access is
  answered by the device whose window in the map holds the address, at the offset in that window,
  by the ROM in the rest of the low 256 MiB and by the RAM everywhere else; it changes that
  component and the cycle count and leaves every other device, the exit code and the latency
  settings alone. The ROM is never changed.\<close>

theorem bus_isolation:
  "(\<exists>n. serve bus_ops r b = mapped_access r b n)
   \<and> same_except (fst (device_at (req_addr r))) b (snd (serve bus_ops r b))
   \<and> (syscon_store r b = None \<longrightarrow> syscon_exit (snd (serve bus_ops r b)) = syscon_exit b)"
proof (intro conjI impI serve_mapped)
  show "same_except (fst (device_at (req_addr r))) b (snd (serve bus_ops r b))"
    using serve_isolated [of r b] by (simp add: route_device_at)
  assume "syscon_store r b = None"
  then have "\<not> (\<exists>w a v. r = Store w a v \<and> in_syscon a)"
    by (cases r) (auto simp: in_syscon_def split: if_splits)
  with serve_isolated [of r b] show "syscon_exit (snd (serve bus_ops r b)) = syscon_exit b" by blast
qed

theorem bus_isolation_witness:
  "serve bus_ops (Store W64 0x10010000 3) (system_bus_new [])
     = (Some 0, (system_bus_new [])\<lparr>syscon_exit := Some 3\<rparr>)
   \<and> syscon_exit (snd (serve bus_ops (Store W8 0x10000000 65) (system_bus_new []))) = None"
proof -
  let ?b = "system_bus_new []"
  have s: "syscon_store (Store W64 0x10010000 3) ?b = Some (?b\<lparr>syscon_exit := Some 3\<rparr>)" by simp
  from bus_isolation [of "Store W64 0x10010000 3" ?b] have
    "serve bus_ops (Store W64 0x10010000 3) ?b = (Some 0, ?b\<lparr>syscon_exit := Some 3\<rparr>)"
    unfolding mapped_access_def s by simp
  moreover have "syscon_store (Store W8 0x10000000 65) ?b = None" by simp
  with bus_isolation [of "Store W8 0x10000000 65" ?b]
  have "syscon_exit (snd (serve bus_ops (Store W8 0x10000000 65) ?b)) = syscon_exit ?b" by blast
  ultimately show ?thesis by (simp add: system_bus_new_def)
qed

subsection \<open>RAM behind the bus\<close>

definition ram_addr :: "u64 \<Rightarrow> bool" where
  "ram_addr a \<longleftrightarrow> fst (route a) = Dev_Ram \<and> \<not> in_syscon a"

lemma route_ram: "fst (route a) = Dev_Ram \<Longrightarrow> route a = (Dev_Ram, a)"
  by (auto simp: route_def split: if_splits)

lemma ram_range: "RAM_BASE \<le> a \<Longrightarrow> ram_addr a"
  by (auto simp: ram_addr_def route_def in_syscon_def word_le_nat_alt)

lemma dispatch_ram:
  assumes "fst (route a) = Dev_Ram" "fm a (l1_cache b) = (r, c)"
  shows "\<exists>b'. dispatch fu fc fp ff fk fr fm a b = (r, b') \<and> l1_cache b' = c"
  using assms route_ram [OF assms(1)]
  by (auto simp: dispatch_def Let_def lift_ram_def)

lemma answer_dispatch_ram:
  assumes "ram_addr a" "answer f (fm a (l1_cache b)) = (x, c)"
  shows "\<exists>b'. answer f (dispatch fu fc fp ff fk fr fm a b) = (x, b') \<and> l1_cache b' = c"
proof -
  obtain q c1 where q: "fm a (l1_cache b) = (q, c1)" by fastforce
  with assms(2) have "c1 = c" "fst (answer f (q, c)) = x" by (cases q; auto simp: answer_def)+
  moreover from assms(1) have "fst (route a) = Dev_Ram" by (simp add: ram_addr_def)
  then obtain b' where "dispatch fu fc fp ff fk fr fm a b = (q, b')" "l1_cache b' = c1"
    using dispatch_ram [of a fm b q c1 fu fc fp ff fk fr] q by blast
  ultimately show ?thesis by (cases q) (auto simp: answer_def)
qed

lemma serve_ram:
  assumes "ram_addr (req_addr r)" "serve hier_ops r (l1_cache b) = (x, c)"
  shows "\<exists>b'. serve bus_ops r b = (x, b') \<and> l1_cache b' = c"
proof (cases r)
  case (Load w a)
  then show ?thesis using assms by (cases w) (simp_all add: bus_method_defs answer_dispatch_ram)
next
  case (Store w a v)
  then have "\<not> in_syscon a" using assms(1) by (simp add: ram_addr_def)
  then show ?thesis
    using Store assms by (cases w) (simp_all add: bus_method_defs answer_dispatch_ram)
qed

text \<open>C25. For RAM traffic the bus is flat memory: any sequence of loads and stores at RAM
  addresses, issued on the bus of a booted machine, is answered as flat byte memory answers it,
  and the debug view of RAM afterwards is the flat memory's.\<close>

theorem bus_ram_transparent:
  assumes "list_all (\<lambda>r. ram_addr (req_addr r)) rs"
    and "serve_all bus_ops rs (system_bus_new rom_bytes) = (xs, b')"
  shows "flat_serve_all rs (ram_peek_byte (ram_new RAM_BASE RAM_SIZE_DEFAULT))
      = (xs, hier_peek_byte_raw (l1_cache b'))"
proof -
  have run: "list_all (\<lambda>r. ram_addr (req_addr r)) rs \<Longrightarrow> serve_all bus_ops rs b = (xs, b') \<Longrightarrow>
      serve_all hier_ops rs (l1_cache b) = (xs, l1_cache b')" for b
  proof (induction rs arbitrary: b xs)
    case (Cons r rs)
    obtain x c where h: "serve hier_ops r (l1_cache b) = (x, c)" by fastforce
    with serve_ram [OF _ h] Cons.prems(1) obtain b1 where
      b1: "serve bus_ops r b = (x, b1)" "l1_cache b1 = c" by auto
    obtain ys where ys: "serve_all bus_ops rs b1 = (ys, b')" "xs = x # ys"
      using Cons.prems(2) b1 by (auto split: prod.splits)
    from Cons.IH [OF _ ys(1)] Cons.prems(1) b1(2) have "serve_all hier_ops rs c = (ys, l1_cache b')" by simp
    with h ys(2) show ?case by simp
  qed simp
  have "serve_all hier_ops rs hierarchy_new = (xs, l1_cache b')"
    using run [OF assms] by (simp add: system_bus_new_def)
  from serve_all_hier [OF hierarchy_new_wf this] show ?thesis by (simp only: hierarchy_new_view)
qed

lemma ram_new_peek:
  assumes "RAM_BASE \<le> a" "a < 0x88000000"
  shows "ram_peek_byte (ram_new RAM_BASE RAM_SIZE_DEFAULT) a = Some 0"
proof -
  let ?m = "ram_new RAM_BASE RAM_SIZE_DEFAULT"
  have "ram_contains ?m a" using assms by (simp add: ram_contains_def ram_new_def)
  then obtain i where "ram_index ?m a = Some i" by (simp add: ram_index_def)
  with ram_index_less [OF ram_new_wf this] show ?thesis
    by (simp add: ram_peek_byte_def ram_new_def)
qed

theorem bus_ram_transparent_witness:
  "fst (serve_all bus_ops [Store W32 0x80000011 0xDEADBEEF, Load W16 0x80000012] (system_bus_new []))
   = [Some 0, Some 0xADBE]"
proof -
  let ?rs = "[Store W32 0x80000011 0xDEADBEEF, Load W16 0x80000012]"
  let ?m = "ram_peek_byte (ram_new RAM_BASE RAM_SIZE_DEFAULT)"
  have "list_all (\<lambda>r. ram_addr (req_addr r)) ?rs"
    by (simp add: ram_range)
  from bus_ram_transparent [OF this prod.collapse [symmetric], of "[]"]
  have "fst (serve_all bus_ops ?rs (system_bus_new [])) = fst (flat_serve_all ?rs ?m)" by simp
  also have "\<dots> = [Some 0, Some 0xADBE]"
  proof -
    have b: "to_le_bytes 4 0xDEADBEEF = [0xEF, 0xBE, 0xAD, 0xDE]" by code_simp
    have "?m 0x80000011 = Some 0" "?m 0x80000012 = Some 0" "?m 0x80000013 = Some 0" "?m 0x80000014 = Some 0"
      by (rule ram_new_peek; simp)+
    moreover have "fst (flat_serve_all ?rs m) = [Some 0, Some 0xADBE]"
      if "m 0x80000011 = Some 0" "m 0x80000012 = Some 0" "m 0x80000013 = Some 0" "m 0x80000014 = Some 0" for m
    proof -
      define m' where "m' = m(0x80000011 \<mapsto> 0xEF, 0x80000012 \<mapsto> 0xBE, 0x80000013 \<mapsto> 0xAD, 0x80000014 \<mapsto> 0xDE)"
      have "flat_try_store m 0x80000011 [0xEF, 0xBE, 0xAD, 0xDE] = (True, m')"
        using that by (simp add: m'_def)
      then have s: "flat_serve (Store W32 0x80000011 0xDEADBEEF) m = (Some 0, m')" by (simp add: b)
      have m': "m' 0x80000012 = Some 0xBE" "m' (0x80000012 + 1) = Some 0xAD" by (simp_all add: m'_def)
      have "all_mapped m' 0x80000012 2"
        using m' unfolding numeral_2_eq_2 by (simp only: all_mapped_Suc) (simp add: all_mapped_def)
      moreover have "flat_bytes m' 0x80000012 2 = [0xBE, 0xAD]"
        using m' unfolding numeral_2_eq_2 by (simp add: flat_bytes_def)
      ultimately have "flat_serve (Load W16 0x80000012) m' = (Some 0xADBE, m')" by simp
      with s show ?thesis by simp
    qed
    ultimately show ?thesis by blast
  qed
  finally show ?thesis .
qed

end
