(* ===== verification/Mmu.thy ===== *)
theory Mmu
  imports Registers Memory
begin

text \<open>
  Sv39 address translation (\<open>crates/virtual-machine/src/cpu/mmu.rs\<close>): the permission and
  physical-address computation on a leaf entry, the direct-mapped TLB, and the page-table walk
  with accessed/dirty maintenance, over any memory given by its methods. The state of a
  translation is the TLB paired with the memory.
\<close>

record translation_context =
  tc_satp :: u64
  tc_priv_mode :: privilege_mode
  tc_mstatus :: u64
  tc_pmpcfg0 :: u64
  tc_pmpaddr0 :: u64

definition without_pmp :: "u64 \<Rightarrow> privilege_mode \<Rightarrow> u64 \<Rightarrow> translation_context" where
  "without_pmp satp p mstatus =
     \<lparr>tc_satp = satp, tc_priv_mode = p, tc_mstatus = mstatus, tc_pmpcfg0 = 0, tc_pmpaddr0 = 0\<rparr>"

datatype access_kind = Acc_Load | Acc_Store | Acc_Execute

definition is_write :: "access_kind \<Rightarrow> bool" where
  "is_write k \<longleftrightarrow> k = Acc_Store"

definition is_execute :: "access_kind \<Rightarrow> bool" where
  "is_execute k \<longleftrightarrow> k = Acc_Execute"

fun access_fault :: "access_kind \<Rightarrow> u64 \<Rightarrow> vm_error" where
  "access_fault Acc_Load v = LoadAccessFault v"
| "access_fault Acc_Store v = StoreAccessFault v"
| "access_fault Acc_Execute v = InstructionAccessFault v"

fun page_fault :: "access_kind \<Rightarrow> u64 \<Rightarrow> vm_error" where
  "page_fault Acc_Load v = LoadPageFault v"
| "page_fault Acc_Store v = StorePageFault v"
| "page_fault Acc_Execute v = InstructionPageFault v"

definition is_sv39_canonical :: "u64 \<Rightarrow> bool" where
  "is_sv39_canonical vaddr \<longleftrightarrow> (let upper = drop_bit 39 vaddr in upper = 0 \<or> upper = 0x1FFFFFF)"

subsection \<open>The TLB\<close>

record tlb_entry =
  te_valid :: bool
  te_vpn :: u64
  te_pte :: u64
  te_level :: nat

record tlb =
  tlb_satp :: u64
  tlb_entries :: "tlb_entry list"

abbreviation (input) TLB_ENTRIES :: nat where "TLB_ENTRIES \<equiv> 256"

definition tlb_new :: tlb where
  "tlb_new = \<lparr>tlb_satp = 0,
     tlb_entries = replicate TLB_ENTRIES \<lparr>te_valid = False, te_vpn = 0, te_pte = 0, te_level = 0\<rparr>\<rparr>"

definition tlb_flush :: "tlb \<Rightarrow> tlb" where
  "tlb_flush t = t\<lparr>tlb_entries := map (\<lambda>e. e\<lparr>te_valid := False\<rparr>) (tlb_entries t)\<rparr>"

definition sync_satp :: "u64 \<Rightarrow> tlb \<Rightarrow> tlb" where
  "sync_satp satp t = (if tlb_satp t \<noteq> satp then tlb_flush (t\<lparr>tlb_satp := satp\<rparr>) else t)"

definition tlb_index :: "u64 \<Rightarrow> nat" where
  "tlb_index vpn = unat (vpn AND (of_nat TLB_ENTRIES - 1))"

definition tlb_lookup :: "tlb \<Rightarrow> u64 \<Rightarrow> (u64 \<times> nat) option" where
  "tlb_lookup t vpn =
     (let e = tlb_entries t ! tlb_index vpn in
      if te_valid e \<and> te_vpn e = vpn then Some (te_pte e, te_level e) else None)"

definition tlb_insert :: "u64 \<Rightarrow> u64 \<Rightarrow> nat \<Rightarrow> tlb \<Rightarrow> tlb" where
  "tlb_insert vpn pte level t =
     t\<lparr>tlb_entries := (tlb_entries t)[tlb_index vpn :=
         \<lparr>te_valid = True, te_vpn = vpn, te_pte = pte, te_level = level\<rparr>]\<rparr>"

subsection \<open>Leaf entries\<close>

text \<open>The single-entry PMP test, which the source writes out twice.\<close>

definition pmp_check :: "translation_context \<Rightarrow> access_kind \<Rightarrow> u64 \<Rightarrow> u64 \<Rightarrow> u64 result" where
  "pmp_check ctx access vaddr phys_addr =
     (if tc_pmpcfg0 ctx \<noteq> 0 then
        let allow_r = tc_pmpcfg0 ctx AND 1 \<noteq> 0; allow_w = tc_pmpcfg0 ctx AND 2 \<noteq> 0;
            allow_x = tc_pmpcfg0 ctx AND 4 \<noteq> 0;
            pmp_match = (tc_pmpaddr0 ctx = - 1 \<or> phys_addr \<le> tc_pmpaddr0 ctx)
        in if pmp_match then
             (if is_execute access \<and> \<not> allow_x then Inl (access_fault access vaddr)
              else if is_write access \<and> \<not> allow_w then Inl (access_fault access vaddr)
              else if access = Acc_Load \<and> \<not> allow_r then Inl (access_fault access vaddr)
              else Inr phys_addr)
           else Inl (access_fault access vaddr)
      else Inr phys_addr)"

definition leaf_phys :: "u64 \<Rightarrow> u64 \<Rightarrow> nat \<Rightarrow> u64" where
  "leaf_phys pte vaddr level =
     (let lower_ppn_bits = level * 9; offset_bits = 12 + lower_ppn_bits;
          page_ppn = drop_bit 10 pte AND 0x00000FFFFFFFFFFF;
          super_offset = vaddr AND (push_bit offset_bits 1 - 1)
      in push_bit offset_bits (drop_bit lower_ppn_bits page_ppn) OR super_offset)"

definition finalize_leaf ::
  "u64 \<Rightarrow> u64 \<Rightarrow> nat \<Rightarrow> translation_context \<Rightarrow> access_kind \<Rightarrow> u64 result" where
  "finalize_leaf pte vaddr level ctx access =
     (let sum = drop_bit 18 (tc_mstatus ctx) AND 1; mxr = drop_bit 19 (tc_mstatus ctx) AND 1;
          r = drop_bit 1 pte AND 1; w = drop_bit 2 pte AND 1; x = drop_bit 3 pte AND 1;
          u_bit = drop_bit 4 pte AND 1; fault = Inl (page_fault access vaddr)
      in if r = 0 \<and> w = 1 then fault
         else if is_execute access \<and> x = 0 then fault
         else if is_write access \<and> w = 0 then fault
         else if access = Acc_Load \<and> r = 0 \<and> (mxr = 0 \<or> x = 0) then fault
         else if tc_priv_mode ctx = User \<and> u_bit = 0 then fault
         else if tc_priv_mode ctx = Supervisor \<and> u_bit = 1 \<and> sum = 0 then fault
         else if level > 0 \<and> drop_bit 10 pte AND (push_bit (level * 9) 1 - 1) \<noteq> 0 then fault
         else pmp_check ctx access vaddr (leaf_phys pte vaddr level))"

subsection \<open>The walk\<close>

definition on_mem :: "('m, 'a) action \<Rightarrow> (tlb \<times> 'm, 'a) action" where
  "on_mem m s = (case m (snd s) of (r, m') \<Rightarrow> (r, (fst s, m')))"

fun walk ::
  "'m mem_ops \<Rightarrow> translation_context \<Rightarrow> access_kind \<Rightarrow> u64 \<Rightarrow> nat \<Rightarrow> u64 \<Rightarrow> (tlb \<times> 'm, u64) action" where
  "walk ops ctx access vaddr 0 current_ppn = sfail (page_fault access vaddr)"
| "walk ops ctx access vaddr (Suc level) current_ppn =
     (let vpn_shift = 12 + level * 9; vpn = drop_bit vpn_shift vaddr AND 0x1FF;
          pte_addr = push_bit 12 current_ppn OR (vpn * 8)
      in sbind (smap_err (\<lambda>_. page_fault access vaddr) (on_mem (read_doubleword ops pte_addr))) (\<lambda>pte.
         if pte AND 1 = 0 then sfail (page_fault access vaddr)
         else if drop_bit 54 pte \<noteq> 0 then sfail (page_fault access vaddr)
         else
           let r = drop_bit 1 pte AND 1; w = drop_bit 2 pte AND 1; x = drop_bit 3 pte AND 1 in
           if r = 1 \<or> x = 1 then
             (case finalize_leaf pte vaddr level ctx access of
                Inl e \<Rightarrow> sfail e
              | Inr phys_addr \<Rightarrow>
                  let a_pte = pte OR push_bit 6 1;
                      new_pte = (if is_write access then a_pte OR push_bit 7 1 else a_pte)
                  in sbind (if new_pte \<noteq> pte
                            then smap_err (\<lambda>_. page_fault access vaddr)
                                   (on_mem (write_doubleword ops pte_addr new_pte))
                            else sreturn ())
                       (\<lambda>_ s. (Inr phys_addr, (tlb_insert (drop_bit 12 vaddr) new_pte level (fst s), snd s))))
           else if w = 1 then sfail (page_fault access vaddr)
           else walk ops ctx access vaddr level (drop_bit 10 pte AND 0x00000FFFFFFFFFFF)))"

definition translate_with_pmp ::
  "'m mem_ops \<Rightarrow> u64 \<Rightarrow> translation_context \<Rightarrow> access_kind \<Rightarrow> (tlb \<times> 'm, u64) action" where
  "translate_with_pmp ops vaddr ctx access s =
     (let mode = drop_bit 60 (tc_satp ctx) AND 0xF; ppn = tc_satp ctx AND 0x0FFFFFFFFFFF in
      if tc_priv_mode ctx = Machine then (Inr vaddr, s)
      else if mode = 0 then (pmp_check ctx access vaddr vaddr, s)
      else if mode \<noteq> 8 then (Inl (page_fault access vaddr), s)
      else if \<not> is_sv39_canonical vaddr then (Inl (page_fault access vaddr), s)
      else
        let s1 = (sync_satp (tc_satp ctx) (fst s), snd s); vpn_page = drop_bit 12 vaddr in
        case tlb_lookup (fst s1) vpn_page of
          Some (pte, level) \<Rightarrow>
            (if \<not> (is_write access \<and> drop_bit 7 pte AND 1 = 0)
             then (finalize_leaf pte vaddr level ctx access, s1)
             else walk ops ctx access vaddr 3 ppn s1)
        | None \<Rightarrow> walk ops ctx access vaddr 3 ppn s1)"

definition translate ::
  "'m mem_ops \<Rightarrow> u64 \<Rightarrow> u64 \<Rightarrow> privilege_mode \<Rightarrow> u64 \<Rightarrow> bool \<Rightarrow> bool \<Rightarrow> ('m, u64) action" where
  "translate ops vaddr satp p mstatus w x m =
     (let access = (if x then Acc_Execute else if w then Acc_Store else Acc_Load) in
      case translate_with_pmp ops vaddr (without_pmp satp p mstatus) access (tlb_new, m) of
        (r, (_, m')) \<Rightarrow> (r, m'))"

end
