(* ===== verification/Mmu_Correct.thy ===== *)
theory Mmu_Correct
  imports Mmu Hierarchy
begin

text \<open>
  Correctness of address translation: what a successful translation guarantees, the kind of
  every failure, and that the TLB is transparent. The reference is a pure walk of the page
  tables (\<open>leaf_of\<close>, \<open>spec_translate\<close>); the memory under the walk is any level that
  satisfies the contract \<open>dword_mem\<close>, which the cache hierarchy provides.
\<close>

subsection \<open>A leaf entry\<close>

lemma low_masks [bitfield]:
  "bit (0x00000FFFFFFFFFFF :: int) n = (n < 44)" "bit (0x00000FFFFFFFFFFF :: nat) n = (n < 44)"
proof -
  have "(0x00000FFFFFFFFFFF :: int) = mask 44" "(0x00000FFFFFFFFFFF :: nat) = mask 44"
    by (simp_all add: mask_eq_exp_minus_1)
  then show "bit (0x00000FFFFFFFFFFF :: int) n = (n < 44)" "bit (0x00000FFFFFFFFFFF :: nat) n = (n < 44)"
    by (simp_all only: bit_mask_iff) simp_all
qed

lemma push_minus_one: "push_bit n 1 - 1 = (mask n :: u64)"
  by (simp add: mask_eq_exp_minus_1)

lemma bit_leaf_phys:
  assumes "level < 3" "n < 64"
  shows "bit (leaf_phys pte vaddr level) n =
    (if n < 12 + level * 9 then bit vaddr n else n < 56 \<and> bit pte (n - 2))"
proof -
  have "bit (leaf_phys pte vaddr level) n =
    (12 + level * 9 \<le> n \<and> (bit pte (n - 2)) \<and> n - 12 < 44 \<or> n < 12 + level * 9 \<and> bit vaddr n)"
    unfolding leaf_phys_def Let_def push_minus_one
    using assms by (auto simp: bit_or_iff bit_push_bit_iff bit_and_iff bit_drop_bit_eq bitfield
        bit_mask_iff add.commute)
  then show ?thesis using assms by auto
qed

lemma pmp_check_Inr:
  "pmp_check ctx access vaddr pa = Inr pa' \<Longrightarrow> pa' = pa"
  by (auto simp: pmp_check_def Let_def split: if_splits)

lemma pmp_check_Inl:
  "pmp_check ctx access vaddr pa = Inl e \<Longrightarrow> e = access_fault access vaddr"
  by (auto simp: pmp_check_def Let_def split: if_splits)

lemma finalize_leaf_Inr:
  assumes "finalize_leaf pte vaddr level ctx access = Inr pa"
  shows "pa = leaf_phys pte vaddr level"
    "access = Acc_Store \<Longrightarrow> bit pte 2" "access = Acc_Execute \<Longrightarrow> bit pte 3"
    "access = Acc_Load \<Longrightarrow> bit pte 1 \<or> bit (tc_mstatus ctx) 19 \<and> bit pte 3"
    "tc_priv_mode ctx = User \<Longrightarrow> bit pte 4"
    "tc_priv_mode ctx = Supervisor \<Longrightarrow> bit pte 4 \<Longrightarrow> bit (tc_mstatus ctx) 18"
    "pmp_check ctx access vaddr pa = Inr pa"
  using assms pmp_check_Inr [of ctx access vaddr "leaf_phys pte vaddr level" pa]
  unfolding finalize_leaf_def Let_def drop_and_one
  by (auto simp: is_write_def is_execute_def split: if_splits)

lemma finalize_leaf_Inl:
  assumes "finalize_leaf pte vaddr level ctx access = Inl e"
  shows "e = page_fault access vaddr \<or> e = access_fault access vaddr"
  using assms pmp_check_Inl unfolding finalize_leaf_def Let_def by (auto split: if_splits)

text \<open>C29. A successful leaf check grants only what the entry permits: stores need the W bit,
  fetches the X bit, loads R (or X under MXR), user mode needs the U bit, supervisor mode is
  kept off user pages unless SUM is set, PMP allows the access, and the physical address is the
  entry's page number with the virtual address' offset (of 12, 21 or 30 bits).\<close>

theorem finalize_leaf_safe:
  assumes "finalize_leaf pte vaddr level ctx access = Inr pa" and "level < 3"
  shows "(access = Acc_Store \<longrightarrow> bit pte 2) \<and> (access = Acc_Execute \<longrightarrow> bit pte 3)
    \<and> (access = Acc_Load \<longrightarrow> bit pte 1 \<or> bit (tc_mstatus ctx) 19 \<and> bit pte 3)
    \<and> (tc_priv_mode ctx = User \<longrightarrow> bit pte 4)
    \<and> (tc_priv_mode ctx = Supervisor \<longrightarrow> bit pte 4 \<longrightarrow> bit (tc_mstatus ctx) 18)
    \<and> pmp_check ctx access vaddr pa = Inr pa
    \<and> (\<forall>n < 64. bit pa n = (if n < 12 + level * 9 then bit vaddr n else n < 56 \<and> bit pte (n - 2)))"
  using finalize_leaf_Inr [OF assms(1)] bit_leaf_phys [OF assms(2)] by auto

theorem finalize_leaf_safe_witness:
  "finalize_leaf 0x200000DF 0x1234 0 (without_pmp 0 User 0) Acc_Store = Inr 0x80000234
   \<and> bit (0x200000DF :: u64) 4"
proof -
  have f: "finalize_leaf 0x200000DF 0x1234 0 (without_pmp 0 User 0) Acc_Store = Inr 0x80000234"
    by (simp add: finalize_leaf_def leaf_phys_def pmp_check_def without_pmp_def is_write_def is_execute_def)
  show ?thesis using f finalize_leaf_safe [OF f] by (simp add: without_pmp_def)
qed

subsection \<open>The accessed and dirty bits do not matter\<close>

definition ad_eq :: "u64 \<Rightarrow> u64 \<Rightarrow> bool" where
  "ad_eq p q \<longleftrightarrow> (\<forall>n. n \<noteq> 6 \<and> n \<noteq> 7 \<longrightarrow> bit p n = bit q n)"

lemma ad_eq_refl [simp]: "ad_eq p p"
  by (simp add: ad_eq_def)

lemma ad_eq_sym: "ad_eq p q \<Longrightarrow> ad_eq q p"
  by (simp add: ad_eq_def)

lemma ad_eq_trans: "ad_eq p q \<Longrightarrow> ad_eq q r \<Longrightarrow> ad_eq p r"
  by (simp add: ad_eq_def)

lemma ad_eq_drop: "ad_eq p q \<Longrightarrow> 8 \<le> k \<Longrightarrow> drop_bit k p = drop_bit k q"
  by (rule u64_eqI) (simp add: ad_eq_def bit_drop_bit_eq)

lemma ad_eq_bit: "ad_eq p q \<Longrightarrow> k \<noteq> 6 \<Longrightarrow> k \<noteq> 7 \<Longrightarrow> drop_bit k p AND 1 = drop_bit k q AND 1"
  by (simp add: drop_and_one ad_eq_def)

lemma ad_eq_low: "ad_eq p q \<Longrightarrow> p AND 1 = q AND 1"
  using ad_eq_bit [of p q 0] by simp

lemma ad_eq_leaf:
  assumes "ad_eq p q"
  shows "finalize_leaf p vaddr level ctx access = finalize_leaf q vaddr level ctx access"
proof -
  have "drop_bit 10 p = drop_bit 10 q" by (rule ad_eq_drop [OF assms]) simp
  moreover have "drop_bit 1 p AND 1 = drop_bit 1 q AND 1" "drop_bit 2 p AND 1 = drop_bit 2 q AND 1"
    "drop_bit 3 p AND 1 = drop_bit 3 q AND 1" "drop_bit 4 p AND 1 = drop_bit 4 q AND 1"
    by (rule ad_eq_bit [OF assms]; simp)+
  ultimately show ?thesis by (simp only: finalize_leaf_def leaf_phys_def Let_def)
qed

lemma ad_eq_set:
  "ad_eq p (p OR push_bit 6 1)" "ad_eq p ((p OR push_bit 6 1) OR push_bit 7 1)"
  unfolding ad_eq_def bit_or_iff bit_push_one by auto

subsection \<open>The reference walk\<close>

fun leaf_of :: "(u64 \<Rightarrow> u64 option) \<Rightarrow> u64 \<Rightarrow> nat \<Rightarrow> u64 \<Rightarrow> (u64 \<times> u64 \<times> nat) option" where
  "leaf_of dv vaddr 0 ppn = None"
| "leaf_of dv vaddr (Suc level) ppn =
     (let pte_addr = push_bit 12 ppn OR ((drop_bit (12 + level * 9) vaddr AND 0x1FF) * 8) in
      case dv pte_addr of
        None \<Rightarrow> None
      | Some pte \<Rightarrow>
          if \<not> bit pte 0 \<or> drop_bit 54 pte \<noteq> 0 then None
          else if bit pte 1 \<or> bit pte 3 then Some (pte_addr, pte, level)
          else if bit pte 2 then None
          else leaf_of dv vaddr level (drop_bit 10 pte AND 0x00000FFFFFFFFFFF))"

text \<open>The translation of an address by a fresh walk. The test of canonical addresses is an argument:
  the architecture's is \<open>sv39_canonical\<close>.\<close>

definition spec_translate ::
  "(u64 \<Rightarrow> bool) \<Rightarrow> (u64 \<Rightarrow> u64 option) \<Rightarrow> u64 \<Rightarrow> translation_context \<Rightarrow> access_kind \<Rightarrow> u64 result" where
  "spec_translate canonical dv vaddr ctx access =
     (let mode = drop_bit 60 (tc_satp ctx) AND 0xF in
      if tc_priv_mode ctx = Machine then Inr vaddr
      else if mode = 0 then pmp_check ctx access vaddr vaddr
      else if mode \<noteq> 8 \<or> \<not> canonical vaddr then Inl (page_fault access vaddr)
      else case leaf_of dv vaddr 3 (tc_satp ctx AND 0x0FFFFFFFFFFF) of
             None \<Rightarrow> Inl (page_fault access vaddr)
           | Some (_, pte, level) \<Rightarrow> finalize_leaf pte vaddr level ctx access)"

text \<open>Two memories that hold the same words up to accessed and dirty bits.\<close>

definition mem_ad_eq :: "(u64 \<Rightarrow> u64 option) \<Rightarrow> (u64 \<Rightarrow> u64 option) \<Rightarrow> bool" where
  "mem_ad_eq dv dv' \<longleftrightarrow> (\<forall>a. rel_option ad_eq (dv a) (dv' a))"

lemma mem_ad_eq_refl [simp]: "mem_ad_eq dv dv"
  by (simp add: mem_ad_eq_def option.rel_refl)

lemma mem_ad_eq_upd: "dv a = Some p \<Longrightarrow> ad_eq p q \<Longrightarrow> mem_ad_eq dv (dv(a \<mapsto> q))"
  by (simp add: mem_ad_eq_def option.rel_refl)

lemma leaf_of_ad_eq:
  assumes "mem_ad_eq dv dv'"
  shows "rel_option (\<lambda>(a, p, l) (a', p', l'). a = a' \<and> ad_eq p p' \<and> l = l')
    (leaf_of dv vaddr n ppn) (leaf_of dv' vaddr n ppn)"
proof (induction n arbitrary: ppn)
  case (Suc n)
  let ?a = "push_bit 12 ppn OR ((drop_bit (12 + n * 9) vaddr AND 0x1FF) * 8)"
  have rel: "rel_option ad_eq (dv ?a) (dv' ?a)" using assms by (simp add: mem_ad_eq_def)
  show ?case
  proof (cases "dv ?a")
    case None
    with rel show ?thesis by (simp add: Let_def)
  next
    case (Some p)
    with rel obtain q where q: "dv' ?a = Some q" "ad_eq p q" by (auto simp: option_rel_Some1)
    have "bit q 0 = bit p 0" "bit q 1 = bit p 1" "bit q 2 = bit p 2" "bit q 3 = bit p 3"
      using q(2) by (simp_all add: ad_eq_def)
    moreover have "drop_bit 54 q = drop_bit 54 p" "drop_bit 10 q = drop_bit 10 p"
      using ad_eq_drop [OF q(2), of 54] ad_eq_drop [OF q(2), of 10] by simp_all
    ultimately show ?thesis using Some q Suc by (simp add: Let_def del: bit_0)
  qed
qed simp

lemma leaf_of_level: "leaf_of dv vaddr n ppn = Some (a, p, l) \<Longrightarrow> l < n"
  by (induction n arbitrary: ppn) (auto simp: Let_def less_Suc_eq split: option.splits if_splits)

text \<open>The walk reads the virtual address only above the page offset.\<close>

lemma leaf_of_vpn:
  "drop_bit 12 v = drop_bit 12 w \<Longrightarrow> leaf_of dv v n ppn = leaf_of dv w n ppn"
proof (induction n arbitrary: ppn)
  case (Suc n)
  have "drop_bit (12 + n * 9) x = drop_bit (n * 9) (drop_bit 12 x)" for x :: u64
    by (simp add: drop_bit_drop_bit add.commute)
  then have "drop_bit (12 + n * 9) v = drop_bit (12 + n * 9) w" using Suc.prems by metis
  with Suc show ?case by (simp add: Let_def cong: option.case_cong if_cong)
qed simp

subsection \<open>Memory by doublewords\<close>

locale dword_mem =
  fixes ops :: "'m mem_ops"
    and dv :: "'m \<Rightarrow> u64 \<Rightarrow> u64 option"
    and minv :: "'m \<Rightarrow> bool"
  assumes drd_mapped: "minv m \<Longrightarrow> a AND 7 = 0 \<Longrightarrow> dv m a = Some v \<Longrightarrow>
      \<exists>m'. read_doubleword ops a m = (Inr v, m') \<and> minv m' \<and> dv m' = dv m"
    and drd_unmapped: "minv m \<Longrightarrow> a AND 7 = 0 \<Longrightarrow> dv m a = None \<Longrightarrow>
      \<exists>e m'. read_doubleword ops a m = (Inl e, m') \<and> minv m' \<and> dv m' = dv m"
    and dwr_mapped: "minv m \<Longrightarrow> a AND 7 = 0 \<Longrightarrow> dv m a \<noteq> None \<Longrightarrow>
      \<exists>m'. write_doubleword ops a v m = (Inr (), m') \<and> minv m' \<and> dv m' = (dv m)(a \<mapsto> v)"

lemma pte_addr_aligned:
  "(push_bit 12 ppn OR ((drop_bit k vaddr AND 0x1FF) * 8)) AND 7 = (0 :: u64)"
proof -
  have "(drop_bit k vaddr AND 0x1FF) * 8 = push_bit 3 (drop_bit k vaddr AND 0x1FF)"
    by (simp add: push_bit_eq_mult)
  then have "\<not> bit (push_bit 12 ppn OR ((drop_bit k vaddr AND 0x1FF) * 8)) n" if "n < 3" for n
    using that by (simp only: bit_or_iff bit_push_bit_iff) simp
  then show ?thesis by (intro u64_eqI) (auto simp: bit_and_iff bitfield)
qed

text \<open>A TLB is coherent with a memory when every valid entry is what the walk for its page
  would find, up to accessed and dirty bits.\<close>

definition tlb_coherent :: "tlb \<Rightarrow> (u64 \<Rightarrow> u64 option) \<Rightarrow> bool" where
  "tlb_coherent t dv \<longleftrightarrow> length (tlb_entries t) = TLB_ENTRIES
     \<and> (\<forall>vaddr pte level. tlb_lookup t (drop_bit 12 vaddr) = Some (pte, level) \<longrightarrow>
          (\<exists>a p. leaf_of dv vaddr 3 (tlb_satp t AND 0x0FFFFFFFFFFF) = Some (a, p, level) \<and> ad_eq pte p))"

lemma tlb_index_less: "tlb_index vpn < TLB_ENTRIES"
proof -
  have "unat (vpn AND (255 :: u64)) \<le> unat (255 :: u64)"
    using word_and_le1 [of vpn 255] by (simp only: word_le_nat_alt)
  then show ?thesis by (simp add: tlb_index_def)
qed

lemma tlb_lookup_insert:
  "length (tlb_entries t) = TLB_ENTRIES \<Longrightarrow>
   tlb_lookup (tlb_insert vpn pte level t) v =
     (if v = vpn then Some (pte, level) else if tlb_index v = tlb_index vpn then None else tlb_lookup t v)"
  using tlb_index_less [of vpn] by (auto simp: tlb_lookup_def tlb_insert_def Let_def nth_list_update)

lemma tlb_lookup_flush: "length (tlb_entries t) = TLB_ENTRIES \<Longrightarrow> tlb_lookup (tlb_flush t) v = None"
  using tlb_index_less [of v] by (simp add: tlb_lookup_def tlb_flush_def Let_def)

lemma tlb_coherent_flush:
  "length (tlb_entries t) = TLB_ENTRIES \<Longrightarrow> tlb_coherent (tlb_flush t) dv"
  by (simp add: tlb_coherent_def tlb_lookup_flush) (simp add: tlb_flush_def)

lemma tlb_coherent_new: "tlb_coherent tlb_new dv"
proof -
  have "tlb_lookup tlb_new v = None" for v
    using tlb_index_less [of v] by (simp add: tlb_lookup_def tlb_new_def)
  then show ?thesis by (simp add: tlb_coherent_def) (simp add: tlb_new_def)
qed

lemma tlb_coherent_sync: "tlb_coherent t dv \<Longrightarrow> tlb_coherent (sync_satp satp t) dv"
  by (cases "tlb_satp t = satp")
    (auto simp: sync_satp_def intro!: tlb_coherent_flush, simp add: tlb_coherent_def)

lemma tlb_satp_sync [simp]: "tlb_satp (sync_satp satp t) = satp"
  by (simp add: sync_satp_def tlb_flush_def)

lemma tlb_coherent_ad_eq:
  assumes "tlb_coherent t dv" "mem_ad_eq dv dv'"
  shows "tlb_coherent t dv'"
proof -
  have "\<exists>a p. leaf_of dv' vaddr 3 ppn = Some (a, p, level) \<and> ad_eq pte p"
    if "leaf_of dv vaddr 3 ppn = Some (a, p, level)" "ad_eq pte p" for vaddr ppn a p level pte
    using leaf_of_ad_eq [OF assms(2), of vaddr 3 ppn] that
    by (auto simp: option_rel_Some1 intro: ad_eq_trans)
  then show ?thesis using assms(1) unfolding tlb_coherent_def by blast
qed

lemma tlb_coherent_insert:
  assumes "tlb_coherent t dv" "leaf_of dv vaddr 3 (tlb_satp t AND 0x0FFFFFFFFFFF) = Some (a, p, level)" "ad_eq pte p"
  shows "tlb_coherent (tlb_insert (drop_bit 12 vaddr) pte level t) dv"
proof -
  let ?t = "tlb_insert (drop_bit 12 vaddr) pte level t"
  have len: "length (tlb_entries t) = TLB_ENTRIES" using assms(1) by (simp add: tlb_coherent_def)
  have st: "tlb_satp ?t = tlb_satp t" "length (tlb_entries ?t) = TLB_ENTRIES"
    using len by (simp_all add: tlb_insert_def)
  have "\<exists>a p. leaf_of dv v 3 (tlb_satp t AND 0x0FFFFFFFFFFF) = Some (a, p, l) \<and> ad_eq q p"
    if "tlb_lookup ?t (drop_bit 12 v) = Some (q, l)" for v q l
  proof (cases "drop_bit 12 v = drop_bit 12 vaddr")
    case True
    with that have "q = pte" "l = level" by (simp_all add: tlb_lookup_insert [OF len])
    then show ?thesis using assms(2,3) leaf_of_vpn [OF True] by metis
  next
    case False
    with that have "tlb_lookup t (drop_bit 12 v) = Some (q, l)"
      by (simp add: tlb_lookup_insert [OF len] split: if_splits)
    then show ?thesis using assms(1) by (simp add: tlb_coherent_def)
  qed
  with st show ?thesis by (simp add: tlb_coherent_def)
qed

subsection \<open>The walk and the TLB refine the reference\<close>

text \<open>One level of the walk, with its tests read as bits of the entry.\<close>

lemma walk_Suc:
  fixes ops :: "'m mem_ops"
  defines "addr \<equiv> \<lambda>level vaddr ppn. push_bit 12 ppn OR ((drop_bit (12 + level * 9) vaddr AND 0x1FF) * 8)"
  shows "walk ops ctx access vaddr (Suc level) ppn (t, m) =
    (case read_doubleword ops (addr level vaddr ppn) m of
       (Inl e, m1) \<Rightarrow> (Inl (page_fault access vaddr), (t, m1))
     | (Inr pte, m1) \<Rightarrow>
         if \<not> bit pte 0 \<or> drop_bit 54 pte \<noteq> 0 then (Inl (page_fault access vaddr), (t, m1))
         else if bit pte 1 \<or> bit pte 3 then
           (case finalize_leaf pte vaddr level ctx access of
              Inl e \<Rightarrow> (Inl e, (t, m1))
            | Inr phys \<Rightarrow>
               (let new_pte = (if is_write access then (pte OR push_bit 6 1) OR push_bit 7 1 else pte OR push_bit 6 1)
                in sbind (if new_pte \<noteq> pte
                     then smap_err (\<lambda>_. page_fault access vaddr) (on_mem (write_doubleword ops (addr level vaddr ppn) new_pte))
                     else sreturn ())
                   (\<lambda>_ s. (Inr phys, (tlb_insert (drop_bit 12 vaddr) new_pte level (fst s), snd s))) (t, m1)))
         else if bit pte 2 then (Inl (page_fault access vaddr), (t, m1))
         else walk ops ctx access vaddr level (drop_bit 10 pte AND 0x00000FFFFFFFFFFF) (t, m1))"
proof (cases "read_doubleword ops (addr level vaddr ppn) m")
  case (Pair r m1)
  show ?thesis
  proof (cases r)
    case (Inl e)
    with Pair show ?thesis by (simp add: addr_def Let_def on_mem_def)
  next
    case (Inr pte)
    have V: "(pte AND 1 = 0) = (\<not> bit pte 0)" by (simp add: and_one_eq)
    have b: "(drop_bit k pte AND 1 = 1) = bit pte k" for k by (simp only: drop_and_one) simp
    have "on_mem (read_doubleword ops (addr level vaddr ppn)) (t, m) = (Inr pte, (t, m1))"
      using Pair Inr by (simp add: on_mem_def)
    then have "smap_err (\<lambda>_. page_fault access vaddr) (on_mem (read_doubleword ops (addr level vaddr ppn))) (t, m)
        = (Inr pte, (t, m1))" by simp
    then have sb: "sbind (smap_err (\<lambda>_. page_fault access vaddr) (on_mem (read_doubleword ops (addr level vaddr ppn)))) F (t, m)
        = F pte (t, m1)" for F :: "u64 \<Rightarrow> (tlb \<times> 'm, u64) action" by (rule sbind_Inr)
    have dist: "(if c then f else g) s = (if c then f s else g s)" for c and f g :: "(tlb \<times> 'm, u64) action" and s
      by simp
    show ?thesis
      unfolding Pair Inr prod.case sum.case unfolding addr_def walk.simps Let_def sb [unfolded addr_def]
      unfolding V b dist by (cases "finalize_leaf pte vaddr level ctx access") (simp_all add: sfail_def del: bit_0)
  qed
qed

declare walk.simps(2) [simp del]

context dword_mem
begin

text \<open>What a step of translation leaves behind.\<close>

definition settled :: "tlb \<Rightarrow> 'm \<Rightarrow> tlb \<Rightarrow> 'm \<Rightarrow> bool" where
  "settled t m t' m' \<longleftrightarrow> minv m' \<and> mem_ad_eq (dv m) (dv m') \<and> tlb_coherent t' (dv m') \<and> tlb_satp t' = tlb_satp t"

lemma leaf_step:
  fixes access :: access_kind
  assumes inv: "minv m" and al: "pa AND 7 = 0" and pa: "dv m pa = Some pte"
    and co: "tlb_coherent t (dv m)"
    and lf: "leaf_of (dv m) vaddr 3 (tlb_satp t AND 0x0FFFFFFFFFFF) = Some (pa, pte, level)"
  defines "new_pte \<equiv> (if is_write access then (pte OR push_bit 6 1) OR push_bit 7 1 else pte OR push_bit 6 1)"
  shows "\<exists>t' m'. sbind (if new_pte \<noteq> pte
        then smap_err (\<lambda>_. page_fault access vaddr) (on_mem (write_doubleword ops pa new_pte)) else sreturn ())
      (\<lambda>_ s. (Inr phys, (tlb_insert (drop_bit 12 vaddr) new_pte level (fst s), snd s))) (t, m)
      = (Inr phys, (t', m')) \<and> settled t m t' m'"
proof -
  have ad: "ad_eq pte new_pte" unfolding new_pte_def using ad_eq_set [of pte] by simp
  have satp: "tlb_satp (tlb_insert v p l t) = tlb_satp t" for v p l by (simp add: tlb_insert_def)
  show ?thesis
  proof (cases "new_pte = pte")
    case True
    then show ?thesis
      using inv tlb_coherent_insert [OF co lf, of pte] by (auto simp: sreturn_def settled_def satp)
  next
    case False
    from dwr_mapped [OF inv al, of new_pte] pa obtain m' where
      m': "write_doubleword ops pa new_pte m = (Inr (), m')" "minv m'" "dv m' = (dv m)(pa \<mapsto> new_pte)"
      by auto
    have eq: "mem_ad_eq (dv m) (dv m')" unfolding m'(3) by (rule mem_ad_eq_upd, rule pa, rule ad)
    from leaf_of_ad_eq [OF eq, of vaddr 3 "tlb_satp t AND 0x0FFFFFFFFFFF"] lf obtain p' where
      "leaf_of (dv m') vaddr 3 (tlb_satp t AND 0x0FFFFFFFFFFF) = Some (pa, p', level)" "ad_eq pte p'"
      by (auto simp: option_rel_Some1)
    then have "tlb_coherent (tlb_insert (drop_bit 12 vaddr) new_pte level t) (dv m')"
      using tlb_coherent_ad_eq [OF co eq] ad by (blast intro: tlb_coherent_insert ad_eq_trans ad_eq_sym)
    with m' eq False show ?thesis
      by (auto simp: on_mem_def smap_err_def settled_def satp)
  qed
qed

lemma walk_refines:
  assumes "minv m" "tlb_coherent t (dv m)"
    and "leaf_of (dv m) vaddr 3 (tlb_satp t AND 0x0FFFFFFFFFFF) = leaf_of (dv m) vaddr n ppn"
  shows "\<exists>t' m'. walk ops ctx access vaddr n ppn (t, m) =
      (case leaf_of (dv m) vaddr n ppn of
         None \<Rightarrow> Inl (page_fault access vaddr)
       | Some (_, pte, level) \<Rightarrow> finalize_leaf pte vaddr level ctx access, (t', m')) \<and> settled t m t' m'"
  using assms
proof (induction n arbitrary: ppn m)
  case 0
  then show ?case by (simp add: sfail_def settled_def)
next
  case (Suc n)
  let ?a = "push_bit 12 ppn OR ((drop_bit (12 + n * 9) vaddr AND 0x1FF) * 8)"
  have al: "?a AND 7 = 0" by (rule pte_addr_aligned)
  show ?case
  proof (cases "dv m ?a")
    case None
    from drd_unmapped [OF Suc.prems(1) al None] obtain e m' where
      "read_doubleword ops ?a m = (Inl e, m')" "minv m'" "dv m' = dv m" by blast
    with None Suc.prems(2) show ?thesis by (auto simp: walk_Suc Let_def settled_def)
  next
    case (Some pte)
    from drd_mapped [OF Suc.prems(1) al Some] obtain m1 where
      r: "read_doubleword ops ?a m = (Inr pte, m1)" and m1: "minv m1" "dv m1 = dv m" by blast
    have st: "settled t m1 t' m' \<Longrightarrow> settled t m t' m'" for t' m' by (simp add: settled_def m1)
    have co1: "tlb_coherent t (dv m1)" using Suc.prems(2) m1(2) by simp
    consider (bad) "\<not> bit pte 0 \<or> drop_bit 54 pte \<noteq> 0"
      | (leaf) "bit pte 0" "drop_bit 54 pte = 0" "bit pte 1 \<or> bit pte 3"
      | (res) "bit pte 0" "drop_bit 54 pte = 0" "\<not> (bit pte 1 \<or> bit pte 3)" "bit pte 2"
      | (down) "bit pte 0" "drop_bit 54 pte = 0" "\<not> (bit pte 1 \<or> bit pte 3)" "\<not> bit pte 2" by blast
    then show ?thesis
    proof cases
      case leaf
      then have lf: "leaf_of (dv m) vaddr (Suc n) ppn = Some (?a, pte, n)" using Some by (simp add: Let_def)
      show ?thesis
      proof (cases "finalize_leaf pte vaddr n ctx access")
        case (Inl e)
        then show ?thesis
          unfolding lf using leaf r m1 co1 Suc.prems(2)
          by (auto simp: walk_Suc settled_def simp del: bit_0)
      next
        case (Inr phys)
        have lf1: "leaf_of (dv m1) vaddr 3 (tlb_satp t AND 0x0FFFFFFFFFFF) = Some (?a, pte, n)"
          using Suc.prems(3) lf m1(2) by simp
        have "dv m1 ?a = Some pte" using Some m1(2) by simp
        from leaf_step [OF m1(1) al this co1 lf1, of access phys] show ?thesis
          unfolding lf using leaf r Inr st
          by (auto simp: walk_Suc Let_def simp del: bit_0)
      qed
    next
      case down
      let ?ppn = "drop_bit 10 pte AND 0x00000FFFFFFFFFFF"
      have lf: "leaf_of (dv m) vaddr (Suc n) ppn = leaf_of (dv m) vaddr n ?ppn"
        using Some down by (simp add: Let_def)
      have "leaf_of (dv m1) vaddr 3 (tlb_satp t AND 0x0FFFFFFFFFFF) = leaf_of (dv m1) vaddr n ?ppn"
        using Suc.prems(3) lf m1(2) by simp
      from Suc.IH [OF m1(1) co1 this] show ?thesis
        unfolding lf using down r st m1(2)
        by (auto simp: walk_Suc simp del: bit_0)
    qed (use Some r m1 Suc.prems(2) in
        \<open>auto simp: walk_Suc Let_def settled_def simp del: bit_0\<close>)
  qed
qed

lemma translate_refines:
  assumes inv: "minv m" and co: "tlb_coherent t (dv m)"
  shows "\<exists>t' m'. translate_with_pmp ops vaddr ctx access (t, m) =
      (spec_translate is_sv39_canonical (dv m) vaddr ctx access, (t', m'))
    \<and> minv m' \<and> mem_ad_eq (dv m) (dv m') \<and> tlb_coherent t' (dv m')"
proof -
  let ?t = "sync_satp (tc_satp ctx) t" and ?ppn = "tc_satp ctx AND 0x0FFFFFFFFFFF"
  let ?sv39 = "drop_bit 60 (tc_satp ctx) AND 0xF = 8 \<and> tc_priv_mode ctx \<noteq> Machine \<and> is_sv39_canonical vaddr"
  note cs = tlb_coherent_sync [OF co, of "tc_satp ctx"]
  have w: "\<exists>t' m'. walk ops ctx access vaddr 3 ?ppn (?t, m) =
      (spec_translate is_sv39_canonical (dv m) vaddr ctx access, (t', m'))
    \<and> minv m' \<and> mem_ad_eq (dv m) (dv m') \<and> tlb_coherent t' (dv m')" if ?sv39
    using walk_refines [OF inv cs, of vaddr 3 ?ppn ctx access] that
    by (auto simp: spec_translate_def settled_def)
  show ?thesis
  proof (cases "?sv39")
    case False
    then show ?thesis
      using inv co by (auto simp: translate_with_pmp_def spec_translate_def Let_def)
  next
    case True
    show ?thesis
    proof (cases "tlb_lookup ?t (drop_bit 12 vaddr)")
      case None
      with True w show ?thesis by (auto simp: translate_with_pmp_def Let_def)
    next
      case (Some pl)
      obtain pte level where pl: "pl = (pte, level)" by (cases pl)
      with Some cs obtain a p where
        "leaf_of (dv m) vaddr 3 ?ppn = Some (a, p, level)" "ad_eq pte p"
        unfolding tlb_coherent_def tlb_satp_sync by blast
      then have "spec_translate is_sv39_canonical (dv m) vaddr ctx access = finalize_leaf pte vaddr level ctx access"
        using True ad_eq_leaf [of pte p] by (simp add: spec_translate_def)
      with True w Some pl inv cs show ?thesis by (auto simp: translate_with_pmp_def Let_def)
    qed
  qed
qed

end

subsection \<open>The cache hierarchy as a memory of doublewords\<close>

lemma bit_from_le_bytes:
  "bit (from_le_bytes bs) k = (k < 64 \<and> k div 8 < length bs \<and> bit (bs ! (k div 8)) (k mod 8))"
proof (induction bs arbitrary: k)
  case (Cons b bs)
  show ?case
  proof (cases "k < 8")
    case True
    then show ?thesis by (simp add: bit_or_iff bit_push_bit_iff bit_ucast_iff)
  next
    case False
    then have k: "k div 8 = Suc ((k - 8) div 8)" "(k - 8) mod 8 = k mod 8"
      by (simp_all add: le_div_geq le_mod_geq)
    have "\<not> bit b k" using False bit_imp_le_length [of b k] by auto
    with False Cons [of "k - 8"] show ?thesis
      unfolding k(1) by (simp add: bit_or_iff bit_push_bit_iff bit_ucast_iff k(2)) (metis less_imp_diff_less)
  qed
qed simp

lemma from_le_to_le: "from_le_bytes (to_le_bytes 8 v) = v"
proof (rule u64_eqI)
  fix n :: nat assume n: "n < 64"
  then have "n div 8 < 8" "n mod 8 < 8" by auto
  then have "bit (to_le_bytes 8 v ! (n div 8)) (n mod 8) = bit v (n div 8 * 8 + n mod 8)"
    by (simp add: to_le_bytes_def bit_simps)
  with n show "bit (from_le_bytes (to_le_bytes 8 v)) n = bit v n"
    using \<open>n div 8 < 8\<close> by (simp add: bit_from_le_bytes)
qed

lemma and_7_eq_0: "((w :: u64) AND 7 = 0) = (8 dvd unat w)"
proof -
  have m: "(7 :: u64) = mask 3" by (simp add: mask_eq_exp_minus_1)
  have "(w AND 7 = 0) = (unat (w AND mask 3) = 0)" unfolding m by (simp add: unat_eq_0)
  also have "\<dots> = (unat w mod 8 = 0)" unfolding unat_and_mask by simp
  finally show ?thesis by (simp add: dvd_eq_mod_eq_0)
qed

lemma aligned_unat_add:
  assumes "(x :: u64) AND 7 = 0" "i < 8"
  shows "unat (x + of_nat i) = unat x + i"
proof -
  have d: "8 dvd unat x" using assms(1) by (simp add: and_7_eq_0)
  have "unat x < 2 ^ 64" using unsigned_less [of x] by simp
  with d have "unat x + 8 \<le> 2 ^ 64" by (auto elim!: dvdE)
  moreover have "unat (of_nat i :: u64) = i" using assms(2) by (intro unat_of_nat_small [where b = 3]) simp_all
  ultimately show ?thesis using assms(2) by (subst unat_add_lem [THEN iffD1]) simp_all
qed

lemma aligned_disjoint:
  assumes "(x :: u64) AND 7 = 0" "a AND 7 = 0" "x \<noteq> a" "i < 8" "k < 8"
  shows "x + of_nat i \<noteq> a + of_nat k"
proof
  assume "x + of_nat i = a + of_nat k"
  then have "unat x + i = unat a + k"
    using aligned_unat_add [OF assms(1,4)] aligned_unat_add [OF assms(2,5)] by simp
  moreover have "8 dvd unat x" "8 dvd unat a" using assms(1,2) by (simp_all add: and_7_eq_0)
  ultimately have "unat x = unat a" using assms(4,5) by (auto elim!: dvdE)
  with assms(3) show False by (simp add: word_unat_eq_iff)
qed

definition hier_dview :: "hierarchy \<Rightarrow> u64 \<Rightarrow> u64 option" where
  "hier_dview c a =
     (if a AND 7 = 0 \<and> all_mapped (hier_peek_byte_raw c) a 8
      then Some (from_le_bytes (flat_bytes (hier_peek_byte_raw c) a 8)) else None)"

lemma dview_store:
  assumes al: "a AND 7 = 0" and m: "all_mapped (hier_peek_byte_raw c) a 8"
    and s: "hier_peek_byte_raw c' = flat_store (hier_peek_byte_raw c) a (to_le_bytes 8 v)"
  shows "hier_dview c' = (hier_dview c)(a \<mapsto> v)"
proof
  fix x
  note st = flat_store_nth [of "to_le_bytes 8 v", simplified]
  show "hier_dview c' x = ((hier_dview c)(a \<mapsto> v)) x"
  proof (cases "x = a")
    case True
    have "flat_bytes (hier_peek_byte_raw c') a 8 = to_le_bytes 8 v"
      by (rule nth_equalityI) (simp_all add: flat_bytes_def s st(1))
    moreover have "all_mapped (hier_peek_byte_raw c') a 8" by (simp add: all_mapped_def s st(1))
    ultimately show ?thesis using True al by (simp add: hier_dview_def from_le_to_le)
  next
    case False
    have "hier_peek_byte_raw c' (x + of_nat i) = hier_peek_byte_raw c (x + of_nat i)"
      if "x AND 7 = 0" "i < 8" for i
      unfolding s using aligned_disjoint [OF that(1) al False that(2)] by (intro st(2)) simp
    then have "x AND 7 = 0 \<Longrightarrow> all_mapped (hier_peek_byte_raw c') x 8 = all_mapped (hier_peek_byte_raw c) x 8"
      "x AND 7 = 0 \<Longrightarrow> flat_bytes (hier_peek_byte_raw c') x 8 = flat_bytes (hier_peek_byte_raw c) x 8"
      unfolding all_mapped_def flat_bytes_def by (auto intro!: map_cong)
    then show ?thesis using False by (auto simp: hier_dview_def)
  qed
qed

lemma hier_dword_methods:
  "read_doubleword hier_ops a = read_n (cache_ops (cache_ops ram_ops)) a 8"
  "write_doubleword hier_ops a v = write_n (cache_ops (cache_ops ram_ops)) a v 8"
proof -
  have "read_doubleword (cache_ops ops) a = read_n ops a 8" "write_doubleword (cache_ops ops) a v = write_n ops a v 8"
    for ops :: "'x mem_ops" by (simp_all add: cache_ops_def)
  then show "read_doubleword hier_ops a = read_n (cache_ops (cache_ops ram_ops)) a 8"
    "write_doubleword hier_ops a v = write_n (cache_ops (cache_ops ram_ops)) a v 8"
    by (simp_all add: hier_ops_def)
qed

lemma hier_dview_cong: "hier_peek_byte_raw c' = hier_peek_byte_raw c \<Longrightarrow> hier_dview c' = hier_dview c"
  by (rule ext) (simp only: hier_dview_def)

interpretation hier_dwords: dword_mem hier_ops hier_dview hier_wf
proof unfold_locales
  fix c a v
  assume wf: "hier_wf c" and "a AND 7 = 0" and "hier_dview c a = Some v"
  then have "all_mapped (hier_peek_byte_raw c) a 8" "v = from_le_bytes (flat_bytes (hier_peek_byte_raw c) a 8)"
    by (auto simp: hier_dview_def split: if_splits)
  with l2_mem.read_n_mapped [of c 8 3 a] wf obtain c' where
    "read_doubleword hier_ops a c = (Inr v, c')" "hier_wf c'" "hier_peek_byte_raw c' = hier_peek_byte_raw c"
    by (auto simp: hier_dword_methods hier_wf_def hier_peek_byte_raw_def)
  with hier_dview_cong
  show "\<exists>m'. read_doubleword hier_ops a c = (Inr v, m') \<and> hier_wf m' \<and> hier_dview m' = hier_dview c"
    by blast
next
  fix c a
  assume wf: "hier_wf c" and "a AND 7 = 0" and "hier_dview c a = None"
  then have "\<not> all_mapped (hier_peek_byte_raw c) a 8"
    by (auto simp: hier_dview_def split: if_splits)
  with l2_mem.read_n_unmapped [of c 8 3 a] wf obtain e c' where
    "read_doubleword hier_ops a c = (Inl e, c')" "hier_wf c'" "hier_peek_byte_raw c' = hier_peek_byte_raw c"
    by (auto simp: hier_dword_methods hier_wf_def hier_peek_byte_raw_def)
  with hier_dview_cong
  show "\<exists>e m'. read_doubleword hier_ops a c = (Inl e, m') \<and> hier_wf m' \<and> hier_dview m' = hier_dview c"
    by blast
next
  fix c a v
  assume wf: "hier_wf c" and al: "a AND 7 = 0" and "hier_dview c a \<noteq> None"
  then have m: "all_mapped (hier_peek_byte_raw c) a 8"
    by (auto simp: hier_dview_def split: if_splits)
  with l2_mem.write_n_mapped [of c 8 3 a v] wf obtain c' where
    "write_doubleword hier_ops a v c = (Inr (), c')" "hier_wf c'"
    "hier_peek_byte_raw c' = flat_store (hier_peek_byte_raw c) a (to_le_bytes 8 v)"
    by (auto simp: hier_dword_methods hier_wf_def hier_peek_byte_raw_def)
  with dview_store [OF al m] show
    "\<exists>m'. write_doubleword hier_ops a v c = (Inr (), m') \<and> hier_wf m' \<and> hier_dview m' = (hier_dview c)(a \<mapsto> v)"
    by blast
qed

subsection \<open>Canonical addresses\<close>

text \<open>The architecture and \<open>_VM_SPECIFICATION.md\<close>, section 2.1.6: bits 63 to 39 of a virtual address
  all equal bit 38. The code only asks whether they are equal to each other; it differs on the
  addresses whose upper bits are all the complement of bit 38.\<close>

definition sv39_canonical :: "u64 \<Rightarrow> bool" where
  "sv39_canonical v \<longleftrightarrow> (\<forall>n \<in> {39..<64}. bit v n = bit v 38)"

definition sign_mismatch :: "u64 \<Rightarrow> bool" where
  "sign_mismatch v \<longleftrightarrow> (\<forall>n \<in> {39..<64}. bit v n \<noteq> bit v 38)"

definition sv39_active :: "translation_context \<Rightarrow> bool" where
  "sv39_active ctx \<longleftrightarrow> tc_priv_mode ctx \<noteq> Machine \<and> drop_bit 60 (tc_satp ctx) AND 0xF = 8"

lemma is_sv39_canonical_bits:
  "is_sv39_canonical v \<longleftrightarrow> (\<forall>n \<in> {39..<64}. \<not> bit v n) \<or> (\<forall>n \<in> {39..<64}. bit v n)"
proof -
  have ones: "bit (0x1FFFFFF :: u64) k = (k < 25)" if "k < 64" for k
    using bit_mask_iff [of 25 k, where 'a = "64 word"] that by (simp add: mask_eq_exp_minus_1)
  have upper: "drop_bit 39 v = x \<longleftrightarrow> (\<forall>k < 25. bit v (39 + k) = bit x k)"
    if "\<And>k. 25 \<le> k \<Longrightarrow> k < 64 \<Longrightarrow> \<not> bit x k" for x :: u64
  proof
    assume "drop_bit 39 v = x"
    then show "\<forall>k < 25. bit v (39 + k) = bit x k" by (auto simp: bit_drop_bit_eq)
  next
    assume *: "\<forall>k < 25. bit v (39 + k) = bit x k"
    show "drop_bit 39 v = x"
    proof (rule u64_eqI)
      fix k :: nat assume "k < 64"
      with * that [of k] show "bit (drop_bit 39 v) k = bit x k"
        by (cases "k < 25") (auto simp: bit_drop_bit_eq dest: bit_imp_le_length)
    qed
  qed
  have all: "(\<forall>n \<in> {39..<64}. P n) \<longleftrightarrow> (\<forall>k < 25. P (39 + k))" for P :: "nat \<Rightarrow> bool"
  proof
    assume "\<forall>k < 25. P (39 + k)"
    moreover have "n - 39 < 25" "39 + (n - 39) = n" if "n \<in> {39..<64}" for n :: nat using that by auto
    ultimately show "\<forall>n \<in> {39..<64}. P n" by metis
  qed simp
  have "drop_bit 39 v = 0x1FFFFFF \<longleftrightarrow> (\<forall>k < 25. bit v (39 + k))"
    using upper [of "0x1FFFFFF"] ones by auto
  moreover have "drop_bit 39 v = 0 \<longleftrightarrow> (\<forall>k < 25. \<not> bit v (39 + k))"
    using upper [of 0] by simp
  ultimately show ?thesis unfolding is_sv39_canonical_def Let_def all by blast
qed

lemma canonical_cases: "is_sv39_canonical v \<longleftrightarrow> sv39_canonical v \<or> sign_mismatch v"
  unfolding is_sv39_canonical_bits sv39_canonical_def sign_mismatch_def
  by (cases "bit v 38") auto

text \<open>The code's test is too lenient: it accepts the first address above the lower half.\<close>

lemma canonical_check_too_lenient: "is_sv39_canonical 0x4000000000" "\<not> sv39_canonical 0x4000000000"
proof -
  have b: "bit (0x4000000000 :: u64) n = (n = 38)" for n
    using bit_push_one [of 38 n, where 'a = 64] by simp
  show "\<not> sv39_canonical 0x4000000000"
    unfolding sv39_canonical_def b by (auto intro!: bexI [of _ 39])
  show "is_sv39_canonical 0x4000000000"
    by (simp add: is_sv39_canonical_def)
qed

lemma spec_translate_canonical:
  assumes "sv39_active ctx \<longrightarrow> \<not> sign_mismatch vaddr"
  shows "spec_translate is_sv39_canonical dv vaddr ctx access = spec_translate sv39_canonical dv vaddr ctx access"
  using assms by (auto simp: spec_translate_def Let_def sv39_active_def canonical_cases)

text \<open>C6. Translation implements Sv39 whatever the TLB holds: with a TLB coherent with the page
  tables in memory, the result of \<open>translate_with_pmp\<close> (address or fault) is that of a fresh
  walk of the page tables by the architecture's rules, faults on non-canonical addresses
  included; the only change to memory is accessed and dirty bits, and the TLB stays coherent. An
  empty or flushed TLB is coherent with any memory. While Sv39 is active, the addresses whose bits 63 to 39
  are all the complement of bit 38 are excluded: the architecture faults on them, the code, whose
  test is too lenient (\<open>canonical_check_too_lenient\<close>), walks the tables.\<close>

theorem translation_refines_page_tables:
  assumes "hier_wf c" and "tlb_coherent t (hier_dview c)"
    and "sv39_active ctx \<longrightarrow> \<not> sign_mismatch vaddr"
  shows "\<exists>t' c'. translate_with_pmp hier_ops vaddr ctx access (t, c)
      = (spec_translate sv39_canonical (hier_dview c) vaddr ctx access, (t', c'))
    \<and> hier_wf c' \<and> mem_ad_eq (hier_dview c) (hier_dview c') \<and> tlb_coherent t' (hier_dview c')"
  using hier_dwords.translate_refines [OF assms(1,2), of vaddr ctx access]
  unfolding spec_translate_canonical [OF assms(3)] .

lemma not_sign_mismatch_low: "\<not> sign_mismatch 0x1000"
proof -
  have b: "bit (0x1000 :: u64) n = (n = 12)" for n
    using bit_push_one [of 12 n, where 'a = 64] by simp
  show ?thesis unfolding sign_mismatch_def b by (auto intro!: bexI [of _ 39])
qed

theorem translation_refines_page_tables_witness:
  "\<exists>t' c'. translate_with_pmp hier_ops 0x1000 (without_pmp 0x8000000000080000 User 0) Acc_Load (tlb_new, hierarchy_new)
      = (spec_translate sv39_canonical (hier_dview hierarchy_new) 0x1000 (without_pmp 0x8000000000080000 User 0) Acc_Load, (t', c'))
    \<and> hier_wf c'"
  using translation_refines_page_tables [OF hierarchy_new_wf tlb_coherent_new,
      of "without_pmp 0x8000000000080000 User 0" "0x1000" Acc_Load] not_sign_mismatch_low by blast

end
