(* ===== verification/Isa_Types.thy ===== *)
theory Isa_Types
  imports Prelude
begin

text \<open>
  The data types of the instruction-set model (\<open>crates/riscv-model/src/lib.rs\<close>): instruction
  identities, formats, operands, errors and the \<open>InstructionSpec\<close> record.

  The enumeration \<open>InstructionId\<close> is declared in the source by one macro with 160 names. Each name
  belongs to exactly one of the five specification tables, and here the enumeration is the sum of
  five enumerations, one per table, so that \<open>InstructionId::Add\<close> is \<open>Rr Add\<close> and
  \<open>InstructionId::Lui\<close> is \<open>Upper Lui\<close>. The constructors keep the names and the order of the source.
\<close>

subsection \<open>Registers\<close>

datatype int_reg = IntReg (reg_number: u8)

definition int_reg_new :: "u8 \<Rightarrow> int_reg option" where
  "int_reg_new n = (if n < 32 then Some (IntReg n) else None)"

datatype register_file = RF_Integer | RF_FloatingPoint

record register_use =
  ru_source1 :: "register_file option"
  ru_source2 :: "register_file option"
  ru_source3 :: "register_file option"
  ru_destination :: "register_file option"

definition RegisterUse_NONE :: register_use where
  "RegisterUse_NONE = \<lparr>ru_source1 = None, ru_source2 = None, ru_source3 = None, ru_destination = None\<rparr>"

subsection \<open>Classification\<close>

datatype (plugins only: code) extension =
    Ext_Rv64I | Ext_M | Ext_A | Ext_F | Ext_D | Ext_Zicsr | Ext_Zifencei | Ext_Privileged

datatype (plugins only: code) privilege_requirement =
    Priv_Any | Priv_Supervisor | Priv_Machine | Priv_EncodedByOperand | Priv_RuntimeControlled

datatype (plugins only: code) support_status = Implemented | Partial

datatype (plugins only: code) instruction_format =
    Fmt_UpperImmediate | Fmt_RegisterRegister | Fmt_RegisterRegisterWord | Fmt_Immediate
  | Fmt_ImmediateWord | Fmt_ShiftImmediate | Fmt_ShiftImmediateWord | Fmt_Load | Fmt_Store
  | Fmt_Branch | Fmt_Jump | Fmt_JumpRegister | Fmt_Fence | Fmt_FenceI | Fmt_System
  | Fmt_CsrRegister | Fmt_CsrImmediate | Fmt_Atomic | Fmt_FloatingLoad | Fmt_FloatingStore
  | Fmt_FloatingOp | Fmt_FloatingFused

datatype (plugins only: code) operand_kind =
    Opd_IntegerRegister | Opd_Immediate | Opd_Csr | Opd_FenceSet | Opd_FloatingRegister
  | Opd_RoundingMode

datatype (plugins only: code) immediate_kind =
    Imm_Upper20 | Imm_Signed12 | Imm_Shift5 | Imm_Shift6 | Imm_Branch13 | Imm_Jump21 | Imm_Csr12
  | Imm_Fence12

datatype (plugins only: code) latency_class =
    Lat_Integer | Lat_Multiply | Lat_Divide | Lat_Atomic | Lat_FloatingPoint

datatype (plugins only: code) memory_access_class = Mem_None | Mem_Load | Mem_Store | Mem_Atomic

datatype (plugins only: code) control_flow_class =
    Flow_Sequential | Flow_Branch | Flow_DirectJump | Flow_IndirectJump | Flow_Environment
  | Flow_TrapReturn

subsection \<open>Instruction identities\<close>

datatype (plugins only: code) upper_id =
    Lui | Auipc

datatype (plugins only: code) rr_id =
    Add | Sub | Sll | Slt | Sltu | Xor | Srl | Sra | Or | And | Mul | Mulh | Mulhsu | Mulhu |
    Div | Divu | Rem | Remu | Addw | Subw | Sllw | Srlw | Sraw | Mulw | Divw | Divuw | Remw |
    Remuw

datatype (plugins only: code) base_id =
    Jal | Jalr | Beq | Bne | Blt | Bge | Bltu | Bgeu | Lb | Lh | Lw | Ld | Lbu | Lhu | Lwu |
    Sb | Sh | Sw | Sd | Addi | Slli | Slti | Sltiu | Xori | Srli | Srai | Ori | Andi | Addiw |
    Slliw | Srliw | Sraiw | Fence | FenceI | Ecall | Ebreak | Mret | Sret | SfenceVma | Wfi |
    Csrrw | Csrrs | Csrrc | Csrrwi | Csrrsi | Csrrci

datatype (plugins only: code) atomic_id =
    LrW | LrD | ScW | ScD | AmoswapW | AmoswapD | AmoaddW | AmoaddD | AmoxorW | AmoxorD |
    AmoorW | AmoorD | AmoandW | AmoandD | AmominW | AmominD | AmomaxW | AmomaxD | AmominuW |
    AmominuD | AmomaxuW | AmomaxuD

datatype (plugins only: code) fp_id =
    Flw | Fld | Fsw | Fsd | FaddS | FaddD | FsubS | FsubD | FmulS | FmulD | FdivS | FdivD |
    FsqrtS | FsqrtD | FsgnjS | FsgnjD | FsgnjnS | FsgnjnD | FsgnjxS | FsgnjxD | FminS | FminD |
    FmaxS | FmaxD | FleS | FleD | FltS | FltD | FeqS | FeqD | FcvtWS | FcvtWuS | FcvtLS |
    FcvtLuS | FcvtWD | FcvtWuD | FcvtLD | FcvtLuD | FcvtSW | FcvtSWu | FcvtSL | FcvtSLu |
    FcvtDW | FcvtDWu | FcvtDL | FcvtDLu | FcvtSD | FcvtDS | FmvXW | FmvXD | FclassS | FclassD |
    FmvWX | FmvDX | FmaddS | FmaddD | FmsubS | FmsubD | FnmsubS | FnmsubD | FnmaddS | FnmaddD

datatype (plugins only: code) instruction_id =
    Upper upper_id | Rr rr_id | Base base_id | Atomic atomic_id | Fp fp_id

subsection \<open>Specifications, decoded instructions and errors\<close>

record instruction_spec =
  spec_id :: instruction_id
  spec_mask :: u32
  spec_match_bits :: u32
  spec_format :: instruction_format
  spec_operands :: "operand_kind list"
  spec_immediate :: "immediate_kind option"
  spec_extension :: extension
  spec_privilege :: privilege_requirement
  spec_register_use :: register_use
  spec_latency :: latency_class
  spec_memory_access :: memory_access_class
  spec_control_flow :: control_flow_class

datatype (plugins only: code) decoded_operands =
    Ops_UpperImmediate int_reg i32
  | Ops_RegisterRegister int_reg int_reg int_reg
  | Ops_Immediate int_reg int_reg i32
  | Ops_Store int_reg int_reg i32
  | Ops_Branch int_reg int_reg i32
  | Ops_Jump int_reg i32
  | Ops_Fence u8 u8 u8
  | Ops_Csr int_reg u8 u16
  | Ops_Atomic int_reg int_reg int_reg bool bool
  | Ops_Floating u8 u8 u8 u8 u8 i32
  | Ops_None

record decoded_instruction =
  di_id :: instruction_id
  di_operands :: decoded_operands

datatype (plugins only: code) encoding_error =
    UnsupportedInstruction instruction_id
  | ImmediateOutOfRange instruction_id i32 i32 i32
  | MisalignedImmediate instruction_id i32 u8
  | FieldOutOfRange instruction_id string u32 u32

datatype (plugins only: code) decode_error = UnsupportedEncoding u32

end
