(* ===== verification/Isa_Model.thy ===== *)
theory Isa_Model
  imports Isa_Types
begin

text \<open>
  The instruction-set model (\<open>crates/riscv-model/src/lib.rs\<close>): the classification functions of
  \<open>InstructionId\<close>, the five specification tables, and the encoders and decoders that walk them.
  The rows of a table are the rows of the macro call in the source; the function in front of the
  rows is the body of the macro.
\<close>

subsection \<open>Classification of an identity\<close>

definition id_extension :: "instruction_id \<Rightarrow> extension" where
  "id_extension i =
    (if i \<in> set [
        Upper Lui, Upper Auipc, Base Jal, Base Jalr, Base Beq, Base Bne, Base Blt, Base Bge,
        Base Bltu, Base Bgeu, Base Lb, Base Lh, Base Lw, Base Ld, Base Lbu, Base Lhu, Base Lwu,
        Base Sb, Base Sh, Base Sw, Base Sd, Base Addi, Base Slli, Base Slti, Base Sltiu,
        Base Xori, Base Srli, Base Srai, Base Ori, Base Andi, Base Addiw, Base Slliw,
        Base Srliw, Base Sraiw, Rr Add, Rr Sub, Rr Sll, Rr Slt, Rr Sltu, Rr Xor, Rr Srl, Rr Sra,
        Rr Or, Rr And, Rr Addw, Rr Subw, Rr Sllw, Rr Srlw, Rr Sraw, Base Fence, Base Ecall,
        Base Ebreak]
     then Ext_Rv64I
     else if i \<in> set [
        Rr Mul, Rr Mulh, Rr Mulhsu, Rr Mulhu, Rr Div, Rr Divu, Rr Rem, Rr Remu, Rr Mulw,
        Rr Divw, Rr Divuw, Rr Remw, Rr Remuw]
     then Ext_M
     else if i \<in> set [
        Atomic LrW, Atomic LrD, Atomic ScW, Atomic ScD, Atomic AmoswapW, Atomic AmoswapD,
        Atomic AmoaddW, Atomic AmoaddD, Atomic AmoxorW, Atomic AmoxorD, Atomic AmoorW,
        Atomic AmoorD, Atomic AmoandW, Atomic AmoandD, Atomic AmominW, Atomic AmominD,
        Atomic AmomaxW, Atomic AmomaxD, Atomic AmominuW, Atomic AmominuD, Atomic AmomaxuW,
        Atomic AmomaxuD]
     then Ext_A
     else if i \<in> set [
        Fp Flw, Fp Fsw, Fp FaddS, Fp FsubS, Fp FmulS, Fp FdivS, Fp FsqrtS, Fp FsgnjS,
        Fp FsgnjnS, Fp FsgnjxS, Fp FminS, Fp FmaxS, Fp FleS, Fp FltS, Fp FeqS, Fp FcvtWS,
        Fp FcvtWuS, Fp FcvtLS, Fp FcvtLuS, Fp FcvtSW, Fp FcvtSWu, Fp FcvtSL, Fp FcvtSLu,
        Fp FmvXW, Fp FclassS, Fp FmvWX, Fp FmaddS, Fp FmsubS, Fp FnmsubS, Fp FnmaddS]
     then Ext_F
     else if i \<in> set [
        Fp Fld, Fp Fsd, Fp FaddD, Fp FsubD, Fp FmulD, Fp FdivD, Fp FsqrtD, Fp FsgnjD,
        Fp FsgnjnD, Fp FsgnjxD, Fp FminD, Fp FmaxD, Fp FleD, Fp FltD, Fp FeqD, Fp FcvtWD,
        Fp FcvtWuD, Fp FcvtLD, Fp FcvtLuD, Fp FcvtDW, Fp FcvtDWu, Fp FcvtDL, Fp FcvtDLu,
        Fp FcvtSD, Fp FcvtDS, Fp FmvXD, Fp FclassD, Fp FmvDX, Fp FmaddD, Fp FmsubD, Fp FnmsubD,
        Fp FnmaddD]
     then Ext_D
     else if i \<in> set [
        Base Csrrw, Base Csrrs, Base Csrrc, Base Csrrwi, Base Csrrsi, Base Csrrci]
     then Ext_Zicsr
     else if i \<in> set [
        Base FenceI]
     then Ext_Zifencei
     else Ext_Privileged)"

definition id_privilege_requirement :: "instruction_id \<Rightarrow> privilege_requirement" where
  "id_privilege_requirement i =
    (if i = Base Mret then Priv_Machine
     else if i \<in> set [Base Sret, Base SfenceVma] then Priv_Supervisor
     else if i \<in> set [Base Csrrw, Base Csrrs, Base Csrrc, Base Csrrwi, Base Csrrsi, Base Csrrci]
     then Priv_EncodedByOperand
     else if i = Base Wfi then Priv_RuntimeControlled
     else Priv_Any)"

definition is_trap_return :: "instruction_id \<Rightarrow> bool" where
  "is_trap_return i = (i \<in> set [Base Mret, Base Sret])"

record instruction_parity =
  par_id :: instruction_id
  par_extension :: extension
  par_privilege :: privilege_requirement
  par_assembler :: support_status
  par_decoder :: support_status
  par_pipeline :: support_status
  par_metadata :: support_status
  par_operand_validation :: support_status

definition parity_of :: "instruction_id \<Rightarrow> instruction_parity" where
  "parity_of i =
     (let assembler = (if i = Base SfenceVma then Partial else Implemented)
      in \<lparr>par_id = i, par_extension = id_extension i, par_privilege = id_privilege_requirement i,
          par_assembler = assembler, par_decoder = assembler,
          par_pipeline = (if i \<in> set [Base Mret, Base SfenceVma, Base Wfi] then Partial else Implemented),
          par_metadata = Implemented,
          par_operand_validation = (if i = Base SfenceVma then Partial else Implemented)\<rparr>)"

abbreviation (input) int_rd :: register_use where
  "int_rd \<equiv> RegisterUse_NONE\<lparr>ru_destination := Some RF_Integer\<rparr>"

abbreviation (input) int_rs1_rd :: register_use where
  "int_rs1_rd \<equiv> RegisterUse_NONE\<lparr>ru_source1 := Some RF_Integer, ru_destination := Some RF_Integer\<rparr>"

abbreviation (input) int_rs1_rs2_rd :: register_use where
  "int_rs1_rs2_rd \<equiv> RegisterUse_NONE\<lparr>ru_source1 := Some RF_Integer, ru_source2 := Some RF_Integer,
     ru_destination := Some RF_Integer\<rparr>"

abbreviation (input) fp_rs1_rs2_rd :: register_use where
  "fp_rs1_rs2_rd \<equiv> RegisterUse_NONE\<lparr>ru_source1 := Some RF_FloatingPoint,
     ru_source2 := Some RF_FloatingPoint, ru_destination := Some RF_FloatingPoint\<rparr>"

definition id_register_use :: "instruction_id \<Rightarrow> register_use" where
  "id_register_use i =
    (if i \<in> set [
        Upper Lui, Upper Auipc, Base Jal, Base Csrrwi, Base Csrrsi, Base Csrrci]
     then int_rd
     else if i \<in> set [
        Base Jalr, Base Lb, Base Lh, Base Lw, Base Ld, Base Lbu, Base Lhu, Base Lwu, Base Addi,
        Base Slli, Base Slti, Base Sltiu, Base Xori, Base Srli, Base Srai, Base Ori, Base Andi,
        Base Addiw, Base Slliw, Base Srliw, Base Sraiw, Base Csrrw, Base Csrrs, Base Csrrc,
        Atomic LrW, Atomic LrD]
     then int_rs1_rd
     else if i \<in> set [
        Base Beq, Base Bne, Base Blt, Base Bge, Base Bltu, Base Bgeu, Base Sb, Base Sh, Base Sw,
        Base Sd]
     then RegisterUse_NONE\<lparr>ru_source1 := Some RF_Integer, ru_source2 := Some RF_Integer\<rparr>
     else if i \<in> set [
        Rr Add, Rr Sub, Rr Sll, Rr Slt, Rr Sltu, Rr Xor, Rr Srl, Rr Sra, Rr Or, Rr And, Rr Mul,
        Rr Mulh, Rr Mulhsu, Rr Mulhu, Rr Div, Rr Divu, Rr Rem, Rr Remu, Rr Addw, Rr Subw,
        Rr Sllw, Rr Srlw, Rr Sraw, Rr Mulw, Rr Divw, Rr Divuw, Rr Remw, Rr Remuw, Atomic ScW,
        Atomic ScD, Atomic AmoswapW, Atomic AmoswapD, Atomic AmoaddW, Atomic AmoaddD,
        Atomic AmoxorW, Atomic AmoxorD, Atomic AmoorW, Atomic AmoorD, Atomic AmoandW,
        Atomic AmoandD, Atomic AmominW, Atomic AmominD, Atomic AmomaxW, Atomic AmomaxD,
        Atomic AmominuW, Atomic AmominuD, Atomic AmomaxuW, Atomic AmomaxuD]
     then int_rs1_rs2_rd
     else if i \<in> set [
        Base Fence, Base FenceI, Base Ecall, Base Ebreak, Base Mret, Base Sret, Base SfenceVma,
        Base Wfi]
     then RegisterUse_NONE
     else if i \<in> set [
        Fp Flw, Fp Fld, Fp FcvtSW, Fp FcvtSWu, Fp FcvtSL, Fp FcvtSLu, Fp FcvtDW, Fp FcvtDWu,
        Fp FcvtDL, Fp FcvtDLu, Fp FmvWX, Fp FmvDX]
     then RegisterUse_NONE\<lparr>ru_source1 := Some RF_Integer, ru_destination := Some RF_FloatingPoint\<rparr>
     else if i \<in> set [
        Fp Fsw, Fp Fsd]
     then RegisterUse_NONE\<lparr>ru_source1 := Some RF_Integer, ru_source2 := Some RF_FloatingPoint\<rparr>
     else if i \<in> set [
        Fp FaddS, Fp FaddD, Fp FsubS, Fp FsubD, Fp FmulS, Fp FmulD, Fp FdivS, Fp FdivD,
        Fp FsgnjS, Fp FsgnjD, Fp FsgnjnS, Fp FsgnjnD, Fp FsgnjxS, Fp FsgnjxD, Fp FminS,
        Fp FminD, Fp FmaxS, Fp FmaxD]
     then fp_rs1_rs2_rd
     else if i \<in> set [
        Fp FsqrtS, Fp FsqrtD, Fp FcvtSD, Fp FcvtDS]
     then RegisterUse_NONE\<lparr>ru_source1 := Some RF_FloatingPoint, ru_destination := Some RF_FloatingPoint\<rparr>
     else if i \<in> set [
        Fp FleS, Fp FleD, Fp FltS, Fp FltD, Fp FeqS, Fp FeqD, Fp FcvtWS, Fp FcvtWuS, Fp FcvtLS,
        Fp FcvtLuS, Fp FcvtWD, Fp FcvtWuD, Fp FcvtLD, Fp FcvtLuD, Fp FmvXW, Fp FmvXD,
        Fp FclassS, Fp FclassD]
     then RegisterUse_NONE\<lparr>ru_source1 := Some RF_FloatingPoint, ru_destination := Some RF_Integer\<rparr>
     else RegisterUse_NONE\<lparr>ru_source1 := Some RF_FloatingPoint, ru_source2 := Some RF_FloatingPoint, ru_source3 := Some RF_FloatingPoint, ru_destination := Some RF_FloatingPoint\<rparr>)"

definition id_is_load :: "instruction_id \<Rightarrow> bool" where
  "id_is_load i = (i \<in> set [
     Base Lb, Base Lh, Base Lw, Base Ld, Base Lbu, Base Lhu, Base Lwu, Fp Flw, Fp Fld])"

definition id_is_atomic :: "instruction_id \<Rightarrow> bool" where
  "id_is_atomic i = (i \<in> set [
     Atomic LrW, Atomic LrD, Atomic ScW, Atomic ScD, Atomic AmoswapW, Atomic AmoswapD,
     Atomic AmoaddW, Atomic AmoaddD, Atomic AmoxorW, Atomic AmoxorD, Atomic AmoorW,
     Atomic AmoorD, Atomic AmoandW, Atomic AmoandD, Atomic AmominW, Atomic AmominD,
     Atomic AmomaxW, Atomic AmomaxD, Atomic AmominuW, Atomic AmominuD, Atomic AmomaxuW,
     Atomic AmomaxuD])"

subsection \<open>The specification tables\<close>

abbreviation (input) UPPER_IMMEDIATE_OPERANDS :: "operand_kind list" where
  "UPPER_IMMEDIATE_OPERANDS \<equiv> [Opd_IntegerRegister, Opd_Immediate]"

definition upper_immediate_spec :: "upper_id \<times> u32 \<Rightarrow> instruction_spec" where
  "upper_immediate_spec = (\<lambda>(i, opcode).
     \<lparr>spec_id = Upper i, spec_mask = 0x7F, spec_match_bits = opcode,
      spec_format = Fmt_UpperImmediate, spec_operands = UPPER_IMMEDIATE_OPERANDS,
      spec_immediate = Some Imm_Upper20, spec_extension = Ext_Rv64I, spec_privilege = Priv_Any,
      spec_register_use = \<lparr>ru_source1 = None, ru_source2 = None, ru_source3 = None,
        ru_destination = Some RF_Integer\<rparr>,
      spec_latency = Lat_Integer, spec_memory_access = Mem_None,
      spec_control_flow = Flow_Sequential\<rparr>)"

definition UPPER_IMMEDIATE_SPECS :: "instruction_spec list" where
  "UPPER_IMMEDIATE_SPECS = map upper_immediate_spec [
     (Lui, 0x37),
     (Auipc, 0x17)]"

abbreviation (input) REGISTER_REGISTER_OPERANDS :: "operand_kind list" where
  "REGISTER_REGISTER_OPERANDS \<equiv> [Opd_IntegerRegister, Opd_IntegerRegister, Opd_IntegerRegister]"

definition register_register_spec ::
  "rr_id \<times> instruction_format \<times> extension \<times> u32 \<times> u32 \<times> u32 \<times> latency_class \<Rightarrow> instruction_spec" where
  "register_register_spec = (\<lambda>(i, format, ext, opcode, funct3, funct7, latency).
     \<lparr>spec_id = Rr i, spec_mask = 0xFE00707F,
      spec_match_bits = push_bit 25 funct7 OR push_bit 12 funct3 OR opcode,
      spec_format = format, spec_operands = REGISTER_REGISTER_OPERANDS,
      spec_immediate = None, spec_extension = ext, spec_privilege = Priv_Any,
      spec_register_use = \<lparr>ru_source1 = Some RF_Integer, ru_source2 = Some RF_Integer,
        ru_source3 = None, ru_destination = Some RF_Integer\<rparr>,
      spec_latency = latency, spec_memory_access = Mem_None,
      spec_control_flow = Flow_Sequential\<rparr>)"

definition REGISTER_REGISTER_SPECS :: "instruction_spec list" where
  "REGISTER_REGISTER_SPECS = map register_register_spec [
     (Add, Fmt_RegisterRegister, Ext_Rv64I, 0x33, 0, 0x0, Lat_Integer),
     (Sub, Fmt_RegisterRegister, Ext_Rv64I, 0x33, 0, 0x20, Lat_Integer),
     (Sll, Fmt_RegisterRegister, Ext_Rv64I, 0x33, 1, 0x0, Lat_Integer),
     (Slt, Fmt_RegisterRegister, Ext_Rv64I, 0x33, 2, 0x0, Lat_Integer),
     (Sltu, Fmt_RegisterRegister, Ext_Rv64I, 0x33, 3, 0x0, Lat_Integer),
     (Xor, Fmt_RegisterRegister, Ext_Rv64I, 0x33, 4, 0x0, Lat_Integer),
     (Srl, Fmt_RegisterRegister, Ext_Rv64I, 0x33, 5, 0x0, Lat_Integer),
     (Sra, Fmt_RegisterRegister, Ext_Rv64I, 0x33, 5, 0x20, Lat_Integer),
     (Or, Fmt_RegisterRegister, Ext_Rv64I, 0x33, 6, 0x0, Lat_Integer),
     (And, Fmt_RegisterRegister, Ext_Rv64I, 0x33, 7, 0x0, Lat_Integer),
     (Addw, Fmt_RegisterRegisterWord, Ext_Rv64I, 0x3B, 0, 0x0, Lat_Integer),
     (Subw, Fmt_RegisterRegisterWord, Ext_Rv64I, 0x3B, 0, 0x20, Lat_Integer),
     (Sllw, Fmt_RegisterRegisterWord, Ext_Rv64I, 0x3B, 1, 0x0, Lat_Integer),
     (Srlw, Fmt_RegisterRegisterWord, Ext_Rv64I, 0x3B, 5, 0x0, Lat_Integer),
     (Sraw, Fmt_RegisterRegisterWord, Ext_Rv64I, 0x3B, 5, 0x20, Lat_Integer),
     (Mul, Fmt_RegisterRegister, Ext_M, 0x33, 0, 0x1, Lat_Multiply),
     (Mulh, Fmt_RegisterRegister, Ext_M, 0x33, 1, 0x1, Lat_Multiply),
     (Mulhsu, Fmt_RegisterRegister, Ext_M, 0x33, 2, 0x1, Lat_Multiply),
     (Mulhu, Fmt_RegisterRegister, Ext_M, 0x33, 3, 0x1, Lat_Multiply),
     (Div, Fmt_RegisterRegister, Ext_M, 0x33, 4, 0x1, Lat_Divide),
     (Divu, Fmt_RegisterRegister, Ext_M, 0x33, 5, 0x1, Lat_Divide),
     (Rem, Fmt_RegisterRegister, Ext_M, 0x33, 6, 0x1, Lat_Divide),
     (Remu, Fmt_RegisterRegister, Ext_M, 0x33, 7, 0x1, Lat_Divide),
     (Mulw, Fmt_RegisterRegisterWord, Ext_M, 0x3B, 0, 0x1, Lat_Multiply),
     (Divw, Fmt_RegisterRegisterWord, Ext_M, 0x3B, 4, 0x1, Lat_Divide),
     (Divuw, Fmt_RegisterRegisterWord, Ext_M, 0x3B, 5, 0x1, Lat_Divide),
     (Remw, Fmt_RegisterRegisterWord, Ext_M, 0x3B, 6, 0x1, Lat_Divide),
     (Remuw, Fmt_RegisterRegisterWord, Ext_M, 0x3B, 7, 0x1, Lat_Divide)]"

abbreviation (input) IMMEDIATE_OPERANDS :: "operand_kind list" where
  "IMMEDIATE_OPERANDS \<equiv> [Opd_IntegerRegister, Opd_IntegerRegister, Opd_Immediate]"

abbreviation (input) STORE_BRANCH_OPERANDS :: "operand_kind list" where
  "STORE_BRANCH_OPERANDS \<equiv> [Opd_IntegerRegister, Opd_IntegerRegister, Opd_Immediate]"

abbreviation (input) JUMP_OPERANDS :: "operand_kind list" where
  "JUMP_OPERANDS \<equiv> [Opd_IntegerRegister, Opd_Immediate]"

abbreviation (input) FENCE_OPERANDS :: "operand_kind list" where
  "FENCE_OPERANDS \<equiv> [Opd_FenceSet, Opd_FenceSet]"

abbreviation (input) CSR_REGISTER_OPERANDS :: "operand_kind list" where
  "CSR_REGISTER_OPERANDS \<equiv> [Opd_IntegerRegister, Opd_Csr, Opd_IntegerRegister]"

abbreviation (input) CSR_IMMEDIATE_OPERANDS :: "operand_kind list" where
  "CSR_IMMEDIATE_OPERANDS \<equiv> [Opd_IntegerRegister, Opd_Csr, Opd_Immediate]"

abbreviation (input) NO_OPERANDS :: "operand_kind list" where
  "NO_OPERANDS \<equiv> []"

definition base_integer_spec ::
  "base_id \<times> instruction_format \<times> u32 \<times> u32 \<times> operand_kind list \<times> immediate_kind option \<times>
   memory_access_class \<times> control_flow_class \<Rightarrow> instruction_spec" where
  "base_integer_spec = (\<lambda>(i, format, msk, match_bits, operands, immediate, memory, control).
     \<lparr>spec_id = Base i, spec_mask = msk, spec_match_bits = match_bits,
      spec_format = format, spec_operands = operands, spec_immediate = immediate,
      spec_extension = id_extension (Base i), spec_privilege = id_privilege_requirement (Base i),
      spec_register_use = id_register_use (Base i), spec_latency = Lat_Integer,
      spec_memory_access = memory, spec_control_flow = control\<rparr>)"

definition BASE_INTEGER_SPECS :: "instruction_spec list" where
  "BASE_INTEGER_SPECS = map base_integer_spec [
     (Jal, Fmt_Jump, 0x7F, 0x6F, JUMP_OPERANDS, Some Imm_Jump21, Mem_None, Flow_DirectJump),
     (Jalr, Fmt_JumpRegister, 0x707F, 0x67, IMMEDIATE_OPERANDS, Some Imm_Signed12, Mem_None, Flow_IndirectJump),
     (Beq, Fmt_Branch, 0x707F, 0x63, STORE_BRANCH_OPERANDS, Some Imm_Branch13, Mem_None, Flow_Branch),
     (Bne, Fmt_Branch, 0x707F, 0x1063, STORE_BRANCH_OPERANDS, Some Imm_Branch13, Mem_None, Flow_Branch),
     (Blt, Fmt_Branch, 0x707F, 0x4063, STORE_BRANCH_OPERANDS, Some Imm_Branch13, Mem_None, Flow_Branch),
     (Bge, Fmt_Branch, 0x707F, 0x5063, STORE_BRANCH_OPERANDS, Some Imm_Branch13, Mem_None, Flow_Branch),
     (Bltu, Fmt_Branch, 0x707F, 0x6063, STORE_BRANCH_OPERANDS, Some Imm_Branch13, Mem_None, Flow_Branch),
     (Bgeu, Fmt_Branch, 0x707F, 0x7063, STORE_BRANCH_OPERANDS, Some Imm_Branch13, Mem_None, Flow_Branch),
     (Lb, Fmt_Load, 0x707F, 0x3, IMMEDIATE_OPERANDS, Some Imm_Signed12, Mem_Load, Flow_Sequential),
     (Lh, Fmt_Load, 0x707F, 0x1003, IMMEDIATE_OPERANDS, Some Imm_Signed12, Mem_Load, Flow_Sequential),
     (Lw, Fmt_Load, 0x707F, 0x2003, IMMEDIATE_OPERANDS, Some Imm_Signed12, Mem_Load, Flow_Sequential),
     (Ld, Fmt_Load, 0x707F, 0x3003, IMMEDIATE_OPERANDS, Some Imm_Signed12, Mem_Load, Flow_Sequential),
     (Lbu, Fmt_Load, 0x707F, 0x4003, IMMEDIATE_OPERANDS, Some Imm_Signed12, Mem_Load, Flow_Sequential),
     (Lhu, Fmt_Load, 0x707F, 0x5003, IMMEDIATE_OPERANDS, Some Imm_Signed12, Mem_Load, Flow_Sequential),
     (Lwu, Fmt_Load, 0x707F, 0x6003, IMMEDIATE_OPERANDS, Some Imm_Signed12, Mem_Load, Flow_Sequential),
     (Sb, Fmt_Store, 0x707F, 0x23, STORE_BRANCH_OPERANDS, Some Imm_Signed12, Mem_Store, Flow_Sequential),
     (Sh, Fmt_Store, 0x707F, 0x1023, STORE_BRANCH_OPERANDS, Some Imm_Signed12, Mem_Store, Flow_Sequential),
     (Sw, Fmt_Store, 0x707F, 0x2023, STORE_BRANCH_OPERANDS, Some Imm_Signed12, Mem_Store, Flow_Sequential),
     (Sd, Fmt_Store, 0x707F, 0x3023, STORE_BRANCH_OPERANDS, Some Imm_Signed12, Mem_Store, Flow_Sequential),
     (Addi, Fmt_Immediate, 0x707F, 0x13, IMMEDIATE_OPERANDS, Some Imm_Signed12, Mem_None, Flow_Sequential),
     (Slti, Fmt_Immediate, 0x707F, 0x2013, IMMEDIATE_OPERANDS, Some Imm_Signed12, Mem_None, Flow_Sequential),
     (Sltiu, Fmt_Immediate, 0x707F, 0x3013, IMMEDIATE_OPERANDS, Some Imm_Signed12, Mem_None, Flow_Sequential),
     (Xori, Fmt_Immediate, 0x707F, 0x4013, IMMEDIATE_OPERANDS, Some Imm_Signed12, Mem_None, Flow_Sequential),
     (Ori, Fmt_Immediate, 0x707F, 0x6013, IMMEDIATE_OPERANDS, Some Imm_Signed12, Mem_None, Flow_Sequential),
     (Andi, Fmt_Immediate, 0x707F, 0x7013, IMMEDIATE_OPERANDS, Some Imm_Signed12, Mem_None, Flow_Sequential),
     (Slli, Fmt_ShiftImmediate, 0xFC00707F, 0x1013, IMMEDIATE_OPERANDS, Some Imm_Shift6, Mem_None, Flow_Sequential),
     (Srli, Fmt_ShiftImmediate, 0xFC00707F, 0x5013, IMMEDIATE_OPERANDS, Some Imm_Shift6, Mem_None, Flow_Sequential),
     (Srai, Fmt_ShiftImmediate, 0xFC00707F, 0x40005013, IMMEDIATE_OPERANDS, Some Imm_Shift6, Mem_None, Flow_Sequential),
     (Addiw, Fmt_ImmediateWord, 0x707F, 0x1B, IMMEDIATE_OPERANDS, Some Imm_Signed12, Mem_None, Flow_Sequential),
     (Slliw, Fmt_ShiftImmediateWord, 0xFE00707F, 0x101B, IMMEDIATE_OPERANDS, Some Imm_Shift5, Mem_None, Flow_Sequential),
     (Srliw, Fmt_ShiftImmediateWord, 0xFE00707F, 0x501B, IMMEDIATE_OPERANDS, Some Imm_Shift5, Mem_None, Flow_Sequential),
     (Sraiw, Fmt_ShiftImmediateWord, 0xFE00707F, 0x4000501B, IMMEDIATE_OPERANDS, Some Imm_Shift5, Mem_None, Flow_Sequential),
     (Fence, Fmt_Fence, 0xFFFFF, 0xF, FENCE_OPERANDS, Some Imm_Fence12, Mem_None, Flow_Sequential),
     (FenceI, Fmt_FenceI, 0xFFFFFFFF, 0x100F, NO_OPERANDS, None, Mem_None, Flow_Sequential),
     (Ecall, Fmt_System, 0xFFFFFFFF, 0x73, NO_OPERANDS, None, Mem_None, Flow_Environment),
     (Ebreak, Fmt_System, 0xFFFFFFFF, 0x100073, NO_OPERANDS, None, Mem_None, Flow_Environment),
     (Mret, Fmt_System, 0xFFFFFFFF, 0x30200073, NO_OPERANDS, None, Mem_None, Flow_TrapReturn),
     (Sret, Fmt_System, 0xFFFFFFFF, 0x10200073, NO_OPERANDS, None, Mem_None, Flow_TrapReturn),
     (SfenceVma, Fmt_System, 0xFFFFFFFF, 0x12000073, NO_OPERANDS, None, Mem_None, Flow_Sequential),
     (Wfi, Fmt_System, 0xFFFFFFFF, 0x10500073, NO_OPERANDS, None, Mem_None, Flow_Sequential),
     (Csrrw, Fmt_CsrRegister, 0x707F, 0x1073, CSR_REGISTER_OPERANDS, Some Imm_Csr12, Mem_None, Flow_Sequential),
     (Csrrs, Fmt_CsrRegister, 0x707F, 0x2073, CSR_REGISTER_OPERANDS, Some Imm_Csr12, Mem_None, Flow_Sequential),
     (Csrrc, Fmt_CsrRegister, 0x707F, 0x3073, CSR_REGISTER_OPERANDS, Some Imm_Csr12, Mem_None, Flow_Sequential),
     (Csrrwi, Fmt_CsrImmediate, 0x707F, 0x5073, CSR_IMMEDIATE_OPERANDS, Some Imm_Csr12, Mem_None, Flow_Sequential),
     (Csrrsi, Fmt_CsrImmediate, 0x707F, 0x6073, CSR_IMMEDIATE_OPERANDS, Some Imm_Csr12, Mem_None, Flow_Sequential),
     (Csrrci, Fmt_CsrImmediate, 0x707F, 0x7073, CSR_IMMEDIATE_OPERANDS, Some Imm_Csr12, Mem_None, Flow_Sequential)]"

definition atomic_spec :: "atomic_id \<times> u32 \<times> u32 \<Rightarrow> instruction_spec" where
  "atomic_spec = (\<lambda>(i, msk, match_bits).
     \<lparr>spec_id = Atomic i, spec_mask = msk, spec_match_bits = match_bits,
      spec_format = Fmt_Atomic, spec_operands = REGISTER_REGISTER_OPERANDS, spec_immediate = None,
      spec_extension = Ext_A, spec_privilege = Priv_Any,
      spec_register_use = id_register_use (Atomic i), spec_latency = Lat_Atomic,
      spec_memory_access = Mem_Atomic, spec_control_flow = Flow_Sequential\<rparr>)"

definition ATOMIC_SPECS :: "instruction_spec list" where
  "ATOMIC_SPECS = map atomic_spec [
     (LrW, 0xF9F0707F, 0x1000202F),
     (LrD, 0xF9F0707F, 0x1000302F),
     (ScW, 0xF800707F, 0x1800202F),
     (ScD, 0xF800707F, 0x1800302F),
     (AmoaddW, 0xF800707F, 0x202F),
     (AmoaddD, 0xF800707F, 0x302F),
     (AmoswapW, 0xF800707F, 0x800202F),
     (AmoswapD, 0xF800707F, 0x800302F),
     (AmoxorW, 0xF800707F, 0x2000202F),
     (AmoxorD, 0xF800707F, 0x2000302F),
     (AmoorW, 0xF800707F, 0x4000202F),
     (AmoorD, 0xF800707F, 0x4000302F),
     (AmoandW, 0xF800707F, 0x6000202F),
     (AmoandD, 0xF800707F, 0x6000302F),
     (AmominW, 0xF800707F, 0x8000202F),
     (AmominD, 0xF800707F, 0x8000302F),
     (AmomaxW, 0xF800707F, 0xA000202F),
     (AmomaxD, 0xF800707F, 0xA000302F),
     (AmominuW, 0xF800707F, 0xC000202F),
     (AmominuD, 0xF800707F, 0xC000302F),
     (AmomaxuW, 0xF800707F, 0xE000202F),
     (AmomaxuD, 0xF800707F, 0xE000302F)]"

abbreviation (input) FLOAT_LOAD_OPERANDS :: "operand_kind list" where
  "FLOAT_LOAD_OPERANDS \<equiv> [Opd_FloatingRegister, Opd_IntegerRegister, Opd_Immediate]"

abbreviation (input) FLOAT_STORE_OPERANDS :: "operand_kind list" where
  "FLOAT_STORE_OPERANDS \<equiv> [Opd_FloatingRegister, Opd_IntegerRegister, Opd_Immediate]"

abbreviation (input) FLOAT_BINARY_OPERANDS :: "operand_kind list" where
  "FLOAT_BINARY_OPERANDS \<equiv> [Opd_FloatingRegister, Opd_FloatingRegister, Opd_FloatingRegister, Opd_RoundingMode]"

abbreviation (input) FLOAT_UNARY_OPERANDS :: "operand_kind list" where
  "FLOAT_UNARY_OPERANDS \<equiv> [Opd_FloatingRegister, Opd_FloatingRegister, Opd_RoundingMode]"

abbreviation (input) FLOAT_TO_INT_OPERANDS :: "operand_kind list" where
  "FLOAT_TO_INT_OPERANDS \<equiv> [Opd_IntegerRegister, Opd_FloatingRegister, Opd_RoundingMode]"

abbreviation (input) INT_TO_FLOAT_OPERANDS :: "operand_kind list" where
  "INT_TO_FLOAT_OPERANDS \<equiv> [Opd_FloatingRegister, Opd_IntegerRegister, Opd_RoundingMode]"

abbreviation (input) FLOAT_FUSED_OPERANDS :: "operand_kind list" where
  "FLOAT_FUSED_OPERANDS \<equiv> [Opd_FloatingRegister, Opd_FloatingRegister, Opd_FloatingRegister, Opd_FloatingRegister, Opd_RoundingMode]"

definition floating_spec ::
  "fp_id \<times> instruction_format \<times> u32 \<times> u32 \<times> operand_kind list \<times> immediate_kind option \<times>
   memory_access_class \<Rightarrow> instruction_spec" where
  "floating_spec = (\<lambda>(i, format, msk, match_bits, operands, immediate, memory).
     \<lparr>spec_id = Fp i, spec_mask = msk, spec_match_bits = match_bits,
      spec_format = format, spec_operands = operands, spec_immediate = immediate,
      spec_extension = id_extension (Fp i), spec_privilege = Priv_Any,
      spec_register_use = id_register_use (Fp i), spec_latency = Lat_FloatingPoint,
      spec_memory_access = memory, spec_control_flow = Flow_Sequential\<rparr>)"

definition FLOATING_SPECS :: "instruction_spec list" where
  "FLOATING_SPECS = map floating_spec [
     (Flw, Fmt_FloatingLoad, 0x707F, 0x2007, FLOAT_LOAD_OPERANDS, Some Imm_Signed12, Mem_Load),
     (Fld, Fmt_FloatingLoad, 0x707F, 0x3007, FLOAT_LOAD_OPERANDS, Some Imm_Signed12, Mem_Load),
     (Fsw, Fmt_FloatingStore, 0x707F, 0x2027, FLOAT_STORE_OPERANDS, Some Imm_Signed12, Mem_Store),
     (Fsd, Fmt_FloatingStore, 0x707F, 0x3027, FLOAT_STORE_OPERANDS, Some Imm_Signed12, Mem_Store),
     (FaddS, Fmt_FloatingOp, 0xFE00007F, 0x53, FLOAT_BINARY_OPERANDS, None, Mem_None),
     (FaddD, Fmt_FloatingOp, 0xFE00007F, 0x2000053, FLOAT_BINARY_OPERANDS, None, Mem_None),
     (FsubS, Fmt_FloatingOp, 0xFE00007F, 0x8000053, FLOAT_BINARY_OPERANDS, None, Mem_None),
     (FsubD, Fmt_FloatingOp, 0xFE00007F, 0xA000053, FLOAT_BINARY_OPERANDS, None, Mem_None),
     (FmulS, Fmt_FloatingOp, 0xFE00007F, 0x10000053, FLOAT_BINARY_OPERANDS, None, Mem_None),
     (FmulD, Fmt_FloatingOp, 0xFE00007F, 0x12000053, FLOAT_BINARY_OPERANDS, None, Mem_None),
     (FdivS, Fmt_FloatingOp, 0xFE00007F, 0x18000053, FLOAT_BINARY_OPERANDS, None, Mem_None),
     (FdivD, Fmt_FloatingOp, 0xFE00007F, 0x1A000053, FLOAT_BINARY_OPERANDS, None, Mem_None),
     (FsgnjS, Fmt_FloatingOp, 0xFE00707F, 0x20000053, FLOAT_BINARY_OPERANDS, None, Mem_None),
     (FsgnjD, Fmt_FloatingOp, 0xFE00707F, 0x22000053, FLOAT_BINARY_OPERANDS, None, Mem_None),
     (FsgnjnS, Fmt_FloatingOp, 0xFE00707F, 0x20001053, FLOAT_BINARY_OPERANDS, None, Mem_None),
     (FsgnjnD, Fmt_FloatingOp, 0xFE00707F, 0x22001053, FLOAT_BINARY_OPERANDS, None, Mem_None),
     (FsgnjxS, Fmt_FloatingOp, 0xFE00707F, 0x20002053, FLOAT_BINARY_OPERANDS, None, Mem_None),
     (FsgnjxD, Fmt_FloatingOp, 0xFE00707F, 0x22002053, FLOAT_BINARY_OPERANDS, None, Mem_None),
     (FminS, Fmt_FloatingOp, 0xFE00707F, 0x28000053, FLOAT_BINARY_OPERANDS, None, Mem_None),
     (FminD, Fmt_FloatingOp, 0xFE00707F, 0x2A000053, FLOAT_BINARY_OPERANDS, None, Mem_None),
     (FmaxS, Fmt_FloatingOp, 0xFE00707F, 0x28001053, FLOAT_BINARY_OPERANDS, None, Mem_None),
     (FmaxD, Fmt_FloatingOp, 0xFE00707F, 0x2A001053, FLOAT_BINARY_OPERANDS, None, Mem_None),
     (FsqrtS, Fmt_FloatingOp, 0xFFF0007F, 0x58000053, FLOAT_UNARY_OPERANDS, None, Mem_None),
     (FsqrtD, Fmt_FloatingOp, 0xFFF0007F, 0x5A000053, FLOAT_UNARY_OPERANDS, None, Mem_None),
     (FleS, Fmt_FloatingOp, 0xFE00707F, 0xA0000053, FLOAT_TO_INT_OPERANDS, None, Mem_None),
     (FleD, Fmt_FloatingOp, 0xFE00707F, 0xA2000053, FLOAT_TO_INT_OPERANDS, None, Mem_None),
     (FltS, Fmt_FloatingOp, 0xFE00707F, 0xA0001053, FLOAT_TO_INT_OPERANDS, None, Mem_None),
     (FltD, Fmt_FloatingOp, 0xFE00707F, 0xA2001053, FLOAT_TO_INT_OPERANDS, None, Mem_None),
     (FeqS, Fmt_FloatingOp, 0xFE00707F, 0xA0002053, FLOAT_TO_INT_OPERANDS, None, Mem_None),
     (FeqD, Fmt_FloatingOp, 0xFE00707F, 0xA2002053, FLOAT_TO_INT_OPERANDS, None, Mem_None),
     (FcvtWS, Fmt_FloatingOp, 0xFFF0007F, 0xC0000053, FLOAT_TO_INT_OPERANDS, None, Mem_None),
     (FcvtWuS, Fmt_FloatingOp, 0xFFF0007F, 0xC0100053, FLOAT_TO_INT_OPERANDS, None, Mem_None),
     (FcvtLS, Fmt_FloatingOp, 0xFFF0007F, 0xC0200053, FLOAT_TO_INT_OPERANDS, None, Mem_None),
     (FcvtLuS, Fmt_FloatingOp, 0xFFF0007F, 0xC0300053, FLOAT_TO_INT_OPERANDS, None, Mem_None),
     (FcvtWD, Fmt_FloatingOp, 0xFFF0007F, 0xC2000053, FLOAT_TO_INT_OPERANDS, None, Mem_None),
     (FcvtWuD, Fmt_FloatingOp, 0xFFF0007F, 0xC2100053, FLOAT_TO_INT_OPERANDS, None, Mem_None),
     (FcvtLD, Fmt_FloatingOp, 0xFFF0007F, 0xC2200053, FLOAT_TO_INT_OPERANDS, None, Mem_None),
     (FcvtLuD, Fmt_FloatingOp, 0xFFF0007F, 0xC2300053, FLOAT_TO_INT_OPERANDS, None, Mem_None),
     (FcvtSW, Fmt_FloatingOp, 0xFFF0007F, 0xD0000053, INT_TO_FLOAT_OPERANDS, None, Mem_None),
     (FcvtSWu, Fmt_FloatingOp, 0xFFF0007F, 0xD0100053, INT_TO_FLOAT_OPERANDS, None, Mem_None),
     (FcvtSL, Fmt_FloatingOp, 0xFFF0007F, 0xD0200053, INT_TO_FLOAT_OPERANDS, None, Mem_None),
     (FcvtSLu, Fmt_FloatingOp, 0xFFF0007F, 0xD0300053, INT_TO_FLOAT_OPERANDS, None, Mem_None),
     (FcvtDW, Fmt_FloatingOp, 0xFFF0007F, 0xD2000053, INT_TO_FLOAT_OPERANDS, None, Mem_None),
     (FcvtDWu, Fmt_FloatingOp, 0xFFF0007F, 0xD2100053, INT_TO_FLOAT_OPERANDS, None, Mem_None),
     (FcvtDL, Fmt_FloatingOp, 0xFFF0007F, 0xD2200053, INT_TO_FLOAT_OPERANDS, None, Mem_None),
     (FcvtDLu, Fmt_FloatingOp, 0xFFF0007F, 0xD2300053, INT_TO_FLOAT_OPERANDS, None, Mem_None),
     (FcvtSD, Fmt_FloatingOp, 0xFFF0007F, 0x40100053, FLOAT_UNARY_OPERANDS, None, Mem_None),
     (FcvtDS, Fmt_FloatingOp, 0xFFF0007F, 0x4A000053, FLOAT_UNARY_OPERANDS, None, Mem_None),
     (FmvXW, Fmt_FloatingOp, 0xFFF0707F, 0xE0000053, FLOAT_TO_INT_OPERANDS, None, Mem_None),
     (FmvXD, Fmt_FloatingOp, 0xFFF0707F, 0xE2000053, FLOAT_TO_INT_OPERANDS, None, Mem_None),
     (FclassS, Fmt_FloatingOp, 0xFFF0707F, 0xE0001053, FLOAT_TO_INT_OPERANDS, None, Mem_None),
     (FclassD, Fmt_FloatingOp, 0xFFF0707F, 0xE2001053, FLOAT_TO_INT_OPERANDS, None, Mem_None),
     (FmvWX, Fmt_FloatingOp, 0xFFF0707F, 0xF0000053, INT_TO_FLOAT_OPERANDS, None, Mem_None),
     (FmvDX, Fmt_FloatingOp, 0xFFF0707F, 0xF2000053, INT_TO_FLOAT_OPERANDS, None, Mem_None),
     (FmaddS, Fmt_FloatingFused, 0x600007F, 0x43, FLOAT_FUSED_OPERANDS, None, Mem_None),
     (FmaddD, Fmt_FloatingFused, 0x600007F, 0x2000043, FLOAT_FUSED_OPERANDS, None, Mem_None),
     (FmsubS, Fmt_FloatingFused, 0x600007F, 0x47, FLOAT_FUSED_OPERANDS, None, Mem_None),
     (FmsubD, Fmt_FloatingFused, 0x600007F, 0x2000047, FLOAT_FUSED_OPERANDS, None, Mem_None),
     (FnmsubS, Fmt_FloatingFused, 0x600007F, 0x4B, FLOAT_FUSED_OPERANDS, None, Mem_None),
     (FnmsubD, Fmt_FloatingFused, 0x600007F, 0x200004B, FLOAT_FUSED_OPERANDS, None, Mem_None),
     (FnmaddS, Fmt_FloatingFused, 0x600007F, 0x4F, FLOAT_FUSED_OPERANDS, None, Mem_None),
     (FnmaddD, Fmt_FloatingFused, 0x600007F, 0x200004F, FLOAT_FUSED_OPERANDS, None, Mem_None)]"

definition instruction_specs :: "instruction_spec list" where
  "instruction_specs = UPPER_IMMEDIATE_SPECS @ REGISTER_REGISTER_SPECS @ BASE_INTEGER_SPECS @
     ATOMIC_SPECS @ FLOATING_SPECS"

definition instruction_spec_of :: "instruction_id \<Rightarrow> instruction_spec option" where
  "instruction_spec_of i = find (\<lambda>spec. spec_id spec = i) instruction_specs"

subsection \<open>Encoders and decoders\<close>

text \<open>The table of a family holds at most one row per identity, and a word matches a row when its
  bits under the mask are the match bits.\<close>

abbreviation (input) matches :: "u32 \<Rightarrow> instruction_spec \<Rightarrow> bool" where
  "matches word spec \<equiv> word AND spec_mask spec = spec_match_bits spec"

definition reg_field :: "nat \<Rightarrow> u32 \<Rightarrow> u8" where
  "reg_field n word = ucast (drop_bit n word AND 0x1F)"

definition sign_extend :: "u32 \<Rightarrow> nat \<Rightarrow> i32" where
  "sign_extend v bits = (let shift = 32 - bits in signed_drop_bit shift (push_bit shift v))"

definition encode_upper_immediate :: "instruction_id \<Rightarrow> int_reg \<Rightarrow> i32 \<Rightarrow> encoding_error + u32" where
  "encode_upper_immediate i rd immediate =
     (case find (\<lambda>spec. spec_id spec = i) UPPER_IMMEDIATE_SPECS of
        None \<Rightarrow> Inl (UnsupportedInstruction i)
      | Some spec \<Rightarrow>
          Inr ((immediate AND 0xFFFFF000) OR push_bit 7 (ucast (reg_number rd)) OR spec_match_bits spec))"

definition decode_upper_immediate :: "u32 \<Rightarrow> decode_error + decoded_instruction" where
  "decode_upper_immediate word =
     (case find (matches word) UPPER_IMMEDIATE_SPECS of
        None \<Rightarrow> Inl (UnsupportedEncoding word)
      | Some spec \<Rightarrow>
          Inr \<lparr>di_id = spec_id spec,
               di_operands = Ops_UpperImmediate (IntReg (reg_field 7 word)) (word AND 0xFFFFF000)\<rparr>)"

definition encode_register_register ::
  "instruction_id \<Rightarrow> int_reg \<Rightarrow> int_reg \<Rightarrow> int_reg \<Rightarrow> encoding_error + u32" where
  "encode_register_register i rd rs1 rs2 =
     (case find (\<lambda>spec. spec_id spec = i) REGISTER_REGISTER_SPECS of
        None \<Rightarrow> Inl (UnsupportedInstruction i)
      | Some spec \<Rightarrow>
          Inr (spec_match_bits spec OR push_bit 20 (ucast (reg_number rs2))
               OR push_bit 15 (ucast (reg_number rs1)) OR push_bit 7 (ucast (reg_number rd))))"

definition decode_register_register :: "u32 \<Rightarrow> decode_error + decoded_instruction" where
  "decode_register_register word =
     (case find (matches word) REGISTER_REGISTER_SPECS of
        None \<Rightarrow> Inl (UnsupportedEncoding word)
      | Some spec \<Rightarrow>
          Inr \<lparr>di_id = spec_id spec,
               di_operands = Ops_RegisterRegister (IntReg (reg_field 7 word))
                 (IntReg (reg_field 15 word)) (IntReg (reg_field 20 word))\<rparr>)"

definition register_register_instruction ::
  "instruction_format \<Rightarrow> u8 \<Rightarrow> u8 \<Rightarrow> instruction_id option" where
  "register_register_instruction format funct3 funct7 =
     map_option spec_id (find (\<lambda>spec. spec_format spec = format
        \<and> drop_bit 12 (spec_match_bits spec) AND 0x7 = ucast funct3
        \<and> drop_bit 25 (spec_match_bits spec) AND 0x7F = ucast funct7) REGISTER_REGISTER_SPECS)"

definition validate_immediate :: "instruction_id \<Rightarrow> i32 \<Rightarrow> i32 \<Rightarrow> i32 \<Rightarrow> encoding_error option" where
  "validate_immediate i v minimum maximum =
     (if sint minimum \<le> sint v \<and> sint v \<le> sint maximum then None
      else Some (ImmediateOutOfRange i v minimum maximum))"

text \<open>\<open>validate_immediate\<close> returns the error, if any; \<open>or_error\<close> is the \<open>?\<close> after it.\<close>

definition or_error :: "encoding_error option \<Rightarrow> encoding_error + 'a \<Rightarrow> encoding_error + 'a" where
  "or_error check r = (case check of None \<Rightarrow> r | Some e \<Rightarrow> Inl e)"

definition encode_base_integer :: "instruction_id \<Rightarrow> decoded_operands \<Rightarrow> encoding_error + u32" where
  "encode_base_integer i operands =
     (case find (\<lambda>spec. spec_id spec = i) BASE_INTEGER_SPECS of
        None \<Rightarrow> Inl (UnsupportedInstruction i)
      | Some spec \<Rightarrow>
        (case operands of
           Ops_Immediate rd rs1 immediate \<Rightarrow>
             (if spec_format spec \<in> set [Fmt_Immediate, Fmt_ImmediateWord, Fmt_Load, Fmt_JumpRegister]
              then or_error (validate_immediate i immediate (- 2048) 2047)
                (Inr (spec_match_bits spec OR push_bit 20 (immediate AND 0xFFF)
                      OR push_bit 15 (ucast (reg_number rs1)) OR push_bit 7 (ucast (reg_number rd))))
              else if spec_format spec \<in> set [Fmt_ShiftImmediate, Fmt_ShiftImmediateWord]
              then or_error (validate_immediate i immediate 0
                     (if spec_format spec = Fmt_ShiftImmediate then 63 else 31))
                (Inr (spec_match_bits spec OR push_bit 20 immediate
                      OR push_bit 15 (ucast (reg_number rs1)) OR push_bit 7 (ucast (reg_number rd))))
              else Inl (UnsupportedInstruction i))
         | Ops_Store rs1 rs2 immediate \<Rightarrow>
             (if spec_format spec = Fmt_Store
              then or_error (validate_immediate i immediate (- 2048) 2047)
                (let imm = immediate AND 0xFFF
                 in Inr (spec_match_bits spec OR push_bit 25 (drop_bit 5 imm)
                      OR push_bit 20 (ucast (reg_number rs2)) OR push_bit 15 (ucast (reg_number rs1))
                      OR push_bit 7 (imm AND 0x1F)))
              else Inl (UnsupportedInstruction i))
         | Ops_Branch rs1 rs2 offset \<Rightarrow>
             (if spec_format spec = Fmt_Branch
              then or_error (validate_immediate i offset (- 4096) 4094)
                (if offset AND 1 \<noteq> 0 then Inl (MisalignedImmediate i offset 2)
                 else Inr (spec_match_bits spec OR push_bit 19 (offset AND 0x1000)
                      OR push_bit 20 (offset AND 0x07E0) OR push_bit 20 (ucast (reg_number rs2))
                      OR push_bit 15 (ucast (reg_number rs1)) OR push_bit 7 (offset AND 0x001E)
                      OR drop_bit 4 (offset AND 0x0800)))
              else Inl (UnsupportedInstruction i))
         | Ops_Jump rd offset \<Rightarrow>
             (if spec_format spec = Fmt_Jump
              then or_error (validate_immediate i offset (- 1048576) 1048574)
                (if offset AND 1 \<noteq> 0 then Inl (MisalignedImmediate i offset 2)
                 else Inr (spec_match_bits spec OR push_bit 11 (offset AND 0x100000)
                      OR push_bit 20 (offset AND 0x7FE) OR push_bit 9 (offset AND 0x800)
                      OR (offset AND 0xFF000) OR push_bit 7 (ucast (reg_number rd))))
              else Inl (UnsupportedInstruction i))
         | Ops_Fence fm predecessor successor \<Rightarrow>
             (if spec_format spec = Fmt_Fence
              then (case find (\<lambda>(field, v). v > 0xF)
                           [(''fm'', fm), (''predecessor'', predecessor), (''successor'', successor)] of
                      Some (field, v) \<Rightarrow> Inl (FieldOutOfRange i field (ucast v) 0xF)
                    | None \<Rightarrow> Inr (spec_match_bits spec OR push_bit 28 (ucast fm)
                        OR push_bit 24 (ucast predecessor) OR push_bit 20 (ucast successor)))
              else Inl (UnsupportedInstruction i))
         | Ops_Csr rd source csr \<Rightarrow>
             (if spec_format spec \<in> set [Fmt_CsrRegister, Fmt_CsrImmediate]
              then (if csr > 0xFFF then Inl (FieldOutOfRange i ''csr'' (ucast csr) 0xFFF)
                    else if source > 31 then Inl (FieldOutOfRange i ''source'' (ucast source) 31)
                    else Inr (spec_match_bits spec OR push_bit 20 (ucast csr)
                        OR push_bit 15 (ucast source) OR push_bit 7 (ucast (reg_number rd))))
              else Inl (UnsupportedInstruction i))
         | Ops_None \<Rightarrow>
             (if spec_format spec \<in> set [Fmt_FenceI, Fmt_System] then Inr (spec_match_bits spec)
              else Inl (UnsupportedInstruction i))
         | _ \<Rightarrow> Inl (UnsupportedInstruction i)))"

definition base_integer_operands :: "instruction_format \<Rightarrow> u32 \<Rightarrow> decoded_operands option" where
  "base_integer_operands format word =
     (let rd = IntReg (reg_field 7 word); rs1 = IntReg (reg_field 15 word);
          rs2 = IntReg (reg_field 20 word)
      in if format \<in> set [Fmt_Immediate, Fmt_ImmediateWord, Fmt_Load, Fmt_JumpRegister]
         then Some (Ops_Immediate rd rs1 (sign_extend (drop_bit 20 word) 12))
         else if format = Fmt_ShiftImmediate
         then Some (Ops_Immediate rd rs1 (drop_bit 20 word AND 0x3F))
         else if format = Fmt_ShiftImmediateWord
         then Some (Ops_Immediate rd rs1 (drop_bit 20 word AND 0x1F))
         else if format = Fmt_Store
         then (let immediate = push_bit 5 (drop_bit 25 word) OR (drop_bit 7 word AND 0x1F)
               in Some (Ops_Store rs1 rs2 (sign_extend immediate 12)))
         else if format = Fmt_Branch
         then (let immediate = push_bit 12 (drop_bit 31 word) OR push_bit 11 (drop_bit 7 word AND 1)
                     OR push_bit 5 (drop_bit 25 word AND 0x3F) OR push_bit 1 (drop_bit 8 word AND 0xF)
               in Some (Ops_Branch rs1 rs2 (sign_extend immediate 13)))
         else if format = Fmt_Jump
         then (let immediate = push_bit 20 (drop_bit 31 word) OR push_bit 12 (drop_bit 12 word AND 0xFF)
                     OR push_bit 11 (drop_bit 20 word AND 1) OR push_bit 1 (drop_bit 21 word AND 0x3FF)
               in Some (Ops_Jump rd (sign_extend immediate 21)))
         else if format = Fmt_Fence
         then Some (Ops_Fence (ucast (drop_bit 28 word AND 0xF)) (ucast (drop_bit 24 word AND 0xF))
                (ucast (drop_bit 20 word AND 0xF)))
         else if format \<in> set [Fmt_CsrRegister, Fmt_CsrImmediate]
         then Some (Ops_Csr rd (reg_number rs1) (ucast (drop_bit 20 word AND 0xFFF)))
         else if format \<in> set [Fmt_FenceI, Fmt_System] then Some Ops_None
         else None)"

definition decode_base_integer :: "u32 \<Rightarrow> decode_error + decoded_instruction" where
  "decode_base_integer word =
     (case find (matches word) BASE_INTEGER_SPECS of
        None \<Rightarrow> Inl (UnsupportedEncoding word)
      | Some spec \<Rightarrow>
          (case base_integer_operands (spec_format spec) word of
             None \<Rightarrow> Inl (UnsupportedEncoding word)
           | Some operands \<Rightarrow> Inr \<lparr>di_id = spec_id spec, di_operands = operands\<rparr>))"

definition encode_atomic ::
  "instruction_id \<Rightarrow> int_reg \<Rightarrow> int_reg \<Rightarrow> int_reg \<Rightarrow> bool \<Rightarrow> bool \<Rightarrow> encoding_error + u32" where
  "encode_atomic i rd rs1 rs2 acquire release =
     (case find (\<lambda>spec. spec_id spec = i) ATOMIC_SPECS of
        None \<Rightarrow> Inl (UnsupportedInstruction i)
      | Some spec \<Rightarrow>
          (if i \<in> set [Atomic LrW, Atomic LrD] \<and> reg_number rs2 \<noteq> 0
           then Inl (FieldOutOfRange i ''rs2'' (ucast (reg_number rs2)) 0)
           else Inr (spec_match_bits spec OR push_bit 26 (of_bool acquire)
                  OR push_bit 25 (of_bool release) OR push_bit 20 (ucast (reg_number rs2))
                  OR push_bit 15 (ucast (reg_number rs1)) OR push_bit 7 (ucast (reg_number rd)))))"

definition decode_atomic :: "u32 \<Rightarrow> decode_error + decoded_instruction" where
  "decode_atomic word =
     (case find (matches word) ATOMIC_SPECS of
        None \<Rightarrow> Inl (UnsupportedEncoding word)
      | Some spec \<Rightarrow>
          Inr \<lparr>di_id = spec_id spec,
               di_operands = Ops_Atomic (IntReg (reg_field 7 word)) (IntReg (reg_field 15 word))
                 (IntReg (reg_field 20 word)) (word AND push_bit 26 1 \<noteq> 0) (word AND push_bit 25 1 \<noteq> 0)\<rparr>)"

definition valid_rounding_mode :: "u8 \<Rightarrow> bool" where
  "valid_rounding_mode rm = (rm \<le> 4 \<or> rm = 7)"

definition encode_floating ::
  "instruction_id \<Rightarrow> u8 \<Rightarrow> u8 \<Rightarrow> u8 \<Rightarrow> u8 \<Rightarrow> u8 \<Rightarrow> i32 \<Rightarrow> encoding_error + u32" where
  "encode_floating i rd rs1 rs2 rs3 rounding_mode immediate =
     (case find (\<lambda>spec. spec_id spec = i) FLOATING_SPECS of
        None \<Rightarrow> Inl (UnsupportedInstruction i)
      | Some spec \<Rightarrow>
        (case find (\<lambda>(field, v). v > 31) [(''rd'', rd), (''rs1'', rs1), (''rs2'', rs2), (''rs3'', rs3)] of
           Some (field, v) \<Rightarrow> Inl (FieldOutOfRange i field (ucast v) 31)
         | None \<Rightarrow>
           (if spec_format spec = Fmt_FloatingLoad
            then or_error (validate_immediate i immediate (- 2048) 2047)
              (Inr (spec_match_bits spec OR push_bit 20 (immediate AND 0xFFF)
                    OR push_bit 15 (ucast rs1) OR push_bit 7 (ucast rd)))
            else if spec_format spec = Fmt_FloatingStore
            then or_error (validate_immediate i immediate (- 2048) 2047)
              (let imm = immediate AND 0xFFF
               in Inr (spec_match_bits spec OR push_bit 25 (drop_bit 5 imm)
                    OR push_bit 20 (ucast rs2) OR push_bit 15 (ucast rs1) OR push_bit 7 (imm AND 0x1F)))
            else if spec_format spec \<in> set [Fmt_FloatingOp, Fmt_FloatingFused]
            then (let fixed_rounding_mode = (spec_mask spec AND 0x7000 \<noteq> 0);
                      expected = (ucast (drop_bit 12 (spec_match_bits spec) AND 0x7) :: u8)
                  in if fixed_rounding_mode \<and> rounding_mode \<noteq> expected
                     then Inl (FieldOutOfRange i ''rounding_mode'' (ucast rounding_mode) (ucast expected))
                     else if \<not> fixed_rounding_mode \<and> \<not> valid_rounding_mode rounding_mode
                     then Inl (FieldOutOfRange i ''rounding_mode'' (ucast rounding_mode) 7)
                     else Inr (spec_match_bits spec OR push_bit 15 (ucast rs1) OR push_bit 7 (ucast rd)
                       OR (if fixed_rounding_mode then 0 else push_bit 12 (ucast rounding_mode))
                       OR (if spec_mask spec AND 0x01F00000 = 0 then push_bit 20 (ucast rs2) else 0)
                       OR (if spec_format spec = Fmt_FloatingFused then push_bit 27 (ucast rs3) else 0)))
            else Inl (UnsupportedInstruction i))))"

definition decode_floating :: "u32 \<Rightarrow> decode_error + decoded_instruction" where
  "decode_floating word =
     (case find (matches word) FLOATING_SPECS of
        None \<Rightarrow> Inl (UnsupportedEncoding word)
      | Some spec \<Rightarrow>
        (let rounding_mode = ucast (drop_bit 12 word AND 0x7)
         in if spec_mask spec AND 0x7000 = 0 \<and> \<not> valid_rounding_mode rounding_mode
            then Inl (UnsupportedEncoding word)
            else
              let immediate =
                    (if spec_format spec = Fmt_FloatingLoad then sign_extend (drop_bit 20 word) 12
                     else if spec_format spec = Fmt_FloatingStore
                     then sign_extend (push_bit 5 (drop_bit 25 word) OR (drop_bit 7 word AND 0x1F)) 12
                     else 0)
              in Inr \<lparr>di_id = spec_id spec,
                   di_operands = Ops_Floating (reg_field 7 word) (reg_field 15 word) (reg_field 20 word)
                     (reg_field 27 word) rounding_mode immediate\<rparr>))"

definition floating_default_rounding_mode :: "instruction_id \<Rightarrow> u8 option" where
  "floating_default_rounding_mode i =
     map_option (\<lambda>spec. if spec_mask spec AND 0x7000 = 0 then 0
                        else ucast (drop_bit 12 (spec_match_bits spec) AND 0x7))
       (find (\<lambda>spec. spec_id spec = i) FLOATING_SPECS)"

definition or_else :: "decode_error + 'a \<Rightarrow> decode_error + 'a \<Rightarrow> decode_error + 'a" where
  "or_else r alternative = (case r of Inl _ \<Rightarrow> alternative | Inr a \<Rightarrow> Inr a)"

definition decode_instruction :: "u32 \<Rightarrow> decode_error + decoded_instruction" where
  "decode_instruction word =
     or_else (or_else (or_else (or_else (decode_upper_immediate word) (decode_register_register word))
       (decode_base_integer word)) (decode_atomic word)) (decode_floating word)"

end
