(* ===== verification/Isa_Tables.thy ===== *)
theory Isa_Tables
  imports Isa_Model
begin

text \<open>
  What the encoders and decoders rely on in the specification tables. The locale
  \<open>spec_table\<close> states it as laws of a table: identities occur once, no word matches two rows,
  the match bits lie under the mask, and every row fixes its opcode, one of a given list. Its
  lemmas determine the two searches the code makes in a table, by identity and by word. The
  interpretations discharge the laws for the five tables of the source.
\<close>

subsection \<open>The laws of a table\<close>

definition spec_key :: "instruction_spec \<Rightarrow> u32 \<times> u32" where
  "spec_key s = (spec_mask s, spec_match_bits s)"

definition clash :: "u32 \<times> u32 \<Rightarrow> u32 \<times> u32 \<Rightarrow> bool" where
  "clash a b = ((snd a XOR snd b) AND fst a AND fst b \<noteq> 0)"

definition key_ok :: "u32 list \<Rightarrow> u32 \<times> u32 \<Rightarrow> bool" where
  "key_ok opcodes k =
     (snd k AND fst k = snd k \<and> fst k AND 0x7F = 0x7F \<and> snd k AND 0x7F \<in> set opcodes)"

lemma clash_sym: "clash a b = clash b a"
  by (simp add: clash_def xor.commute and.left_commute and.commute)

lemma clash_excludes:
  assumes "clash (spec_key s) (spec_key t)" "w AND spec_mask s = spec_match_bits s"
  shows "w AND spec_mask t \<noteq> spec_match_bits t"
proof
  assume t: "w AND spec_mask t = spec_match_bits t"
  have "(spec_match_bits s XOR spec_match_bits t) AND spec_mask s AND spec_mask t = 0"
    unfolding assms(2) [symmetric] t [symmetric]
    by (rule bit_word_eqI) (auto simp: bit_and_iff bit_xor_iff)
  with assms(1) show False by (simp add: clash_def spec_key_def)
qed

lemma sorted_wrt_sym:
  assumes "sorted_wrt R xs" "\<And>a b. R a b = R b a" "i < length xs" "j < length xs" "i \<noteq> j"
  shows "R (xs ! i) (xs ! j)"
  using assms by (metis linorder_neqE_nat sorted_wrt_iff_nth_less)

text \<open>Two rows clash when they differ in the match bits under a selector both masks contain; a signature collects the
  match bits under a list of selectors, so that a table is checked by comparing integers.\<close>

definition signature :: "u32 list \<Rightarrow> u32 \<times> u32 \<Rightarrow> int list" where
  "signature selectors k = map (\<lambda>c. if fst k AND c = c then uint (snd k AND c) else - 1) selectors"

fun differ :: "int list \<Rightarrow> int list \<Rightarrow> bool" where
  "differ (x # xs) (y # ys) = (x \<noteq> y \<and> 0 \<le> x \<and> 0 \<le> y \<or> differ xs ys)"
| "differ _ _ = False"

lemma differ_clash: "differ (signature selectors a) (signature selectors b) \<Longrightarrow> clash a b"
proof (induction selectors)
  case (Cons c cs)
  show ?case
  proof (cases "fst a AND c = c \<and> fst b AND c = c \<and> snd a AND c \<noteq> snd b AND c")
    case True
    then have sub: "fst a AND c = c" "fst b AND c = c" by simp_all
    from True have differ_at: "\<not> (\<forall>n. bit (snd a AND c) n = bit (snd b AND c) n)"
      using bit_word_eqI [of "snd a AND c" "snd b AND c"] by blast
    from differ_at obtain n where n: "bit c n" "bit (snd a) n \<noteq> bit (snd b) n" by (auto simp: bit_and_iff)
    have "bit (fst a AND c) n" "bit (fst b AND c) n" unfolding sub by (rule n(1))+
    then have "bit (fst a) n" "bit (fst b) n" by (simp_all add: bit_and_iff)
    with n have "bit ((snd a XOR snd b) AND fst a AND fst b) n" by (simp add: bit_and_iff bit_xor_iff)
    then show ?thesis by (auto simp: clash_def)
  next
    case False
    with Cons show ?thesis by (auto simp: signature_def split: if_splits)
  qed
qed (simp add: signature_def)

lemma exclusive_by_signature:
  "sorted_wrt differ (map (signature selectors) ks) \<Longrightarrow> sorted_wrt clash ks"
  by (auto simp: sorted_wrt_map intro: differ_clash elim: sorted_wrt_mono_rel [rotated])

locale spec_table =
  fixes T :: "instruction_spec list" and opcodes :: "u32 list"
  assumes distinct_ids: "distinct (map spec_id T)"
    and exclusive: "sorted_wrt clash (map spec_key T)"
    and keys_ok: "list_all (key_ok opcodes) (map spec_key T)"
begin

lemma find_id: "s \<in> set T \<Longrightarrow> find (\<lambda>t. spec_id t = spec_id s) T = Some s"
  by (rule find_unique) (use distinct_ids in \<open>auto simp: distinct_map dest: inj_onD\<close>)

lemma find_id_SomeD: "find (\<lambda>t. spec_id t = i) T = Some s \<Longrightarrow> s \<in> set T \<and> spec_id s = i"
  by (auto dest: find_SomeD)

lemma at_most_one:
  assumes "s \<in> set T" "t \<in> set T" "w AND spec_mask s = spec_match_bits s"
    "w AND spec_mask t = spec_match_bits t"
  shows "t = s"
proof (rule ccontr)
  assume "t \<noteq> s"
  with assms(1,2) obtain i j where "i < length T" "j < length T" "i \<noteq> j" "s = T ! i" "t = T ! j"
    by (metis in_set_conv_nth)
  then have "clash (spec_key s) (spec_key t)"
    using sorted_wrt_sym [OF exclusive clash_sym, of i j] by simp
  with assms(3,4) show False using clash_excludes by blast
qed

lemma find_match:
  assumes "s \<in> set T" "w AND spec_mask s = spec_match_bits s"
  shows "find (\<lambda>t. w AND spec_mask t = spec_match_bits t) T = Some s"
  by (rule find_unique, rule assms(1), rule assms(2)) (rule at_most_one [OF assms(1) _ assms(2)])

lemma find_match_SomeD:
  "find (\<lambda>t. w AND spec_mask t = spec_match_bits t) T = Some s \<Longrightarrow>
     s \<in> set T \<and> w AND spec_mask s = spec_match_bits s"
  by (auto dest: find_SomeD)

lemma match_under_mask: "s \<in> set T \<Longrightarrow> bit (spec_match_bits s) n \<Longrightarrow> bit (spec_mask s) n"
proof -
  assume "s \<in> set T" "bit (spec_match_bits s) n"
  moreover then have "spec_match_bits s AND spec_mask s = spec_match_bits s"
    using keys_ok by (auto simp: list_all_iff key_ok_def spec_key_def)
  ultimately show ?thesis by (metis bit_and_iff)
qed

lemma opcode_of_match:
  assumes "s \<in> set T" "w AND spec_mask s = spec_match_bits s"
  shows "w AND 0x7F \<in> set opcodes"
proof -
  have k: "spec_mask s AND 0x7F = 0x7F" "spec_match_bits s AND 0x7F \<in> set opcodes"
    using assms(1) keys_ok by (auto simp: list_all_iff key_ok_def spec_key_def)
  have "w AND 0x7F = (w AND spec_mask s) AND 0x7F"
    by (simp add: and.assoc k(1))
  with assms(2) k(2) show ?thesis by simp
qed

lemma no_match:
  "w AND 0x7F \<notin> set opcodes \<Longrightarrow> find (\<lambda>t. w AND spec_mask t = spec_match_bits t) T = None"
  using opcode_of_match by (auto simp: find_None_iff)

end

subsection \<open>The five tables satisfy them\<close>

lemmas table_rows =
  UPPER_IMMEDIATE_SPECS_def REGISTER_REGISTER_SPECS_def BASE_INTEGER_SPECS_def ATOMIC_SPECS_def
  FLOATING_SPECS_def upper_immediate_spec_def register_register_spec_def base_integer_spec_def
  atomic_spec_def floating_spec_def spec_key_def list.map prod.case instruction_spec.simps

abbreviation (input) upper_opcodes :: "u32 list" where "upper_opcodes \<equiv> [0x37, 0x17]"
abbreviation (input) rr_opcodes :: "u32 list" where "rr_opcodes \<equiv> [0x33, 0x3B]"
abbreviation (input) base_opcodes :: "u32 list" where
  "base_opcodes \<equiv> [0x6F, 0x67, 0x63, 0x03, 0x23, 0x13, 0x1B, 0x0F, 0x73]"
abbreviation (input) atomic_opcodes :: "u32 list" where "atomic_opcodes \<equiv> [0x2F]"
abbreviation (input) fp_opcodes :: "u32 list" where
  "fp_opcodes \<equiv> [0x07, 0x27, 0x53, 0x43, 0x47, 0x4B, 0x4F]"

interpretation upper_table: spec_table UPPER_IMMEDIATE_SPECS upper_opcodes
  by (unfold_locales; ((rule exclusive_by_signature [of "[0x7F]"])?, simp only: table_rows, code_simp))

interpretation rr_table: spec_table REGISTER_REGISTER_SPECS rr_opcodes
  by (unfold_locales; ((rule exclusive_by_signature [of "[0xFE00707F]"])?, simp only: table_rows, code_simp))

interpretation base_table: spec_table BASE_INTEGER_SPECS base_opcodes
  by (unfold_locales; ((rule exclusive_by_signature [of "[0x7F, 0x707F, 0xFC00707F, 0xFFF0707F, 0xFFFFFFFF]"])?, simp only: table_rows, code_simp))

interpretation atomic_table: spec_table ATOMIC_SPECS atomic_opcodes
  by (unfold_locales; ((rule exclusive_by_signature [of "[0xF800707F]"])?, simp only: table_rows, code_simp))

interpretation fp_table: spec_table FLOATING_SPECS fp_opcodes
  by (unfold_locales; ((rule exclusive_by_signature [of "[0x7F, 0x0600007F, 0xFE00007F, 0xFFF0007F, 0xFE00707F, 0x707F, 0xFFF0707F]"])?, simp only: table_rows, code_simp))

subsection \<open>The mask of a row is determined by its format\<close>

definition base_mask :: "instruction_format \<Rightarrow> u32 option" where
  "base_mask format =
     (if format \<in> set [Fmt_Immediate, Fmt_ImmediateWord, Fmt_Load, Fmt_JumpRegister, Fmt_Store,
        Fmt_Branch, Fmt_CsrRegister, Fmt_CsrImmediate] then Some 0x707F
      else if format = Fmt_ShiftImmediate then Some 0xFC00707F
      else if format = Fmt_ShiftImmediateWord then Some 0xFE00707F
      else if format = Fmt_Jump then Some 0x7F
      else if format = Fmt_Fence then Some 0xFFFFF
      else if format \<in> set [Fmt_FenceI, Fmt_System] then Some 0xFFFFFFFF
      else None)"

lemma base_masks: "s \<in> set BASE_INTEGER_SPECS \<Longrightarrow> base_mask (spec_format s) = Some (spec_mask s)"
proof -
  have "list_all (\<lambda>(f, m). base_mask f = Some m)
      (map (\<lambda>s. (spec_format s, spec_mask s)) BASE_INTEGER_SPECS)"
    by (simp only: table_rows, code_simp)
  moreover assume "s \<in> set BASE_INTEGER_SPECS"
  ultimately show ?thesis by (auto simp: list_all_iff)
qed

lemma rr_masks: "s \<in> set REGISTER_REGISTER_SPECS \<Longrightarrow> spec_mask s = 0xFE00707F"
  by (auto simp: REGISTER_REGISTER_SPECS_def register_register_spec_def)

lemma upper_masks: "s \<in> set UPPER_IMMEDIATE_SPECS \<Longrightarrow> spec_mask s = 0x7F"
  by (auto simp: UPPER_IMMEDIATE_SPECS_def upper_immediate_spec_def)

end
