(* ===== verification/Isa_Bits.thy ===== *)
theory Isa_Bits
  imports Isa_Tables
begin

text \<open>
  The bits of instruction words: register fields, sign extension, the masks of the tables as
  sets of bit positions. With these rules an encoder and a decoder are compared bit by bit.
\<close>

subsection \<open>Fields\<close>

lemma bit_reg_field [bitfield]: "bit (reg_field k w) n = (n < 5 \<and> bit w (k + n))"
  by (auto simp: reg_field_def bit_simps bitfield dest: bit_imp_le_length)

definition reg_ok :: "int_reg \<Rightarrow> bool" where
  "reg_ok r = (reg_number r < 32)"

lemma unat_less_bits: "unat (r :: 'a::len word) < 2 ^ k \<Longrightarrow> bit r n \<Longrightarrow> n < k"
proof -
  assume r: "unat r < 2 ^ k" and n: "bit r n"
  have "2 ^ n \<le> unat r" using n by (rule bit_imp_exp_le_unat)
  with r have "(2::nat) ^ n < 2 ^ k" by linarith
  then show "n < k" by (simp add: power_strict_increasing_iff)
qed

lemma reg_bits: "r < 32 \<Longrightarrow> bit (r :: u8) n \<Longrightarrow> n < 5"
  using unat_less_bits [of r 5 n] by (simp add: word_less_nat_alt)

lemma u8_less_16_bits: "r \<le> 15 \<Longrightarrow> bit (r :: u8) n \<Longrightarrow> n < 4"
  using unat_less_bits [of r 4 n] by (simp add: word_le_nat_alt)

lemma u16_less_4096_bits: "r \<le> 0xFFF \<Longrightarrow> bit (r :: u16) n \<Longrightarrow> n < 12"
  using unat_less_bits [of r 12 n] by (simp add: word_le_nat_alt)

lemma reg_field_less: "reg_field k w < 32"
proof -
  have "reg_field k w AND mask 5 = reg_field k w"
    by (rule bit_word_eqI) (auto simp: bit_simps bitfield)
  then have "reg_field k w = take_bit 5 (reg_field k w)" by (simp add: take_bit_eq_mask)
  then have "unat (reg_field k w) = take_bit 5 (unat (reg_field k w))"
    by (metis unsigned_take_bit_eq)
  then have "unat (reg_field k w) < 2 ^ 5" by (metis take_bit_nat_less_exp)
  then show ?thesis by (simp add: word_less_nat_alt)
qed

subsection \<open>Sign extension\<close>

lemma bit_sign_extend:
  assumes "0 < b" "b \<le> 32"
  shows "bit (sign_extend v b) n = (n < 32 \<and> bit v (min n (b - 1)))"
proof -
  have *: "bit (push_bit (32 - b) v) (if 32 - (32 - b) \<le> n \<and> n < 32 then 31 else 32 - b + n) =
    bit v (min n (b - 1))" if "n < 32"
    using assms that by (auto simp: bit_push_bit_iff min_def dest: bit_imp_le_length)
  show ?thesis
    using assms * by (auto simp: sign_extend_def Let_def bit_signed_drop_bit_iff dest: bit_imp_le_length)
qed

lemma sint_range_bits:
  assumes "- (2 ^ k) \<le> sint (w :: i32)" "sint w < 2 ^ k" "k \<le> n" "n < 32"
  shows "bit w n = bit w k"
proof -
  have "signed_take_bit k (sint w) = sint w"
    using assms(1,2) by (simp add: signed_take_bit_int_eq_self)
  then have "bit (sint w) n = bit (sint w) k"
    using assms(3) bit_signed_take_bit_iff [of k "sint w" n] bit_signed_take_bit_iff [of k "sint w" k]
    by (simp add: min_def)
  with assms(3,4) show ?thesis by (simp add: bit_sint_iff)
qed

lemma bits_sint_range:
  assumes "\<And>n. k \<le> n \<Longrightarrow> n < 32 \<Longrightarrow> bit w n = bit w k" "k < 32"
  shows "- (2 ^ k) \<le> sint (w :: i32)" "sint w < 2 ^ k"
proof -
  have "signed_take_bit k (sint w) = sint w"
  proof (rule bit_eqI)
    fix n
    show "bit (signed_take_bit k (sint w)) n = bit (sint w) n"
      using assms(1) [of n] assms(1) [of 31] assms(2)
      by (cases "n < 32") (auto simp: bit_signed_take_bit_iff bit_sint_iff min_def dest: bit_imp_le_length)
  qed
  then show "- (2 ^ k) \<le> sint w" "sint w < 2 ^ k"
    by (metis signed_take_bit_int_greater_eq_minus_exp, metis signed_take_bit_int_less_exp)
qed

subsection \<open>Masks as sets of positions\<close>

text \<open>A word literal written as a union of intervals of bits.\<close>

abbreviation (input) bits_between :: "nat \<Rightarrow> nat \<Rightarrow> u32" where
  "bits_between lo hi \<equiv> push_bit lo (mask (hi - lo))"

lemma bit_between: "lo \<le> hi \<Longrightarrow> hi \<le> 32 \<Longrightarrow> bit (bits_between lo hi) n = (lo \<le> n \<and> n < hi)"
  by (auto simp: bit_push_bit_iff bit_mask_iff)

lemma literal_bits:
  "bit (0x7F :: u32) n = (n < 7)"
  "bit (0x707F :: u32) n = (n < 7 \<or> (12 \<le> n \<and> n < 15))"
  "bit (0xFE00707F :: u32) n = (n < 7 \<or> (12 \<le> n \<and> n < 15) \<or> (25 \<le> n \<and> n < 32))"
  "bit (0xFC00707F :: u32) n = (n < 7 \<or> (12 \<le> n \<and> n < 15) \<or> (26 \<le> n \<and> n < 32))"
  "bit (0xFFFFF :: u32) n = (n < 20)"
  "bit (0xFFFFFFFF :: u32) n = (n < 32)"
  "bit (0xFFFFF000 :: u32) n = (12 \<le> n \<and> n < 32)"
  "bit (0x1000 :: u32) n = (n = 12)"
  "bit (0x7E0 :: u32) n = (5 \<le> n \<and> n < 11)"
  "bit (0x1E :: u32) n = (1 \<le> n \<and> n < 5)"
  "bit (0x800 :: u32) n = (n = 11)"
  "bit (0x100000 :: u32) n = (n = 20)"
  "bit (0x7FE :: u32) n = (1 \<le> n \<and> n < 11)"
  "bit (0xFF000 :: u32) n = (12 \<le> n \<and> n < 20)"
  "bit (0x7000 :: u32) n = (12 \<le> n \<and> n < 15)"
  "bit (0x1F00000 :: u32) n = (20 \<le> n \<and> n < 25)"
  "bit (0x1F :: u32) n = (n < 5)"
  "bit (0x3F :: u32) n = (n < 6)"
  "bit (0xFFF :: u32) n = (n < 12)"
  "bit (0xFF :: u32) n = (n < 8)"
  "bit (0x3FF :: u32) n = (n < 10)"
  "bit (0xF :: u32) n = (n < 4)"
  "bit (0x7 :: u32) n = (n < 3)"
proof -
  have lits:
    "(0x7F :: u32) = bits_between 0 7"
    "(0x707F :: u32) = bits_between 0 7 OR bits_between 12 15"
    "(0xFE00707F :: u32) = bits_between 0 7 OR bits_between 12 15 OR bits_between 25 32"
    "(0xFC00707F :: u32) = bits_between 0 7 OR bits_between 12 15 OR bits_between 26 32"
    "(0xFFFFF :: u32) = bits_between 0 20" "(0xFFFFFFFF :: u32) = bits_between 0 32"
    "(0xFFFFF000 :: u32) = bits_between 12 32" "(0x1000 :: u32) = bits_between 12 13"
    "(0x7E0 :: u32) = bits_between 5 11" "(0x1E :: u32) = bits_between 1 5"
    "(0x800 :: u32) = bits_between 11 12" "(0x100000 :: u32) = bits_between 20 21"
    "(0x7FE :: u32) = bits_between 1 11" "(0xFF000 :: u32) = bits_between 12 20"
    "(0x7000 :: u32) = bits_between 12 15" "(0x1F00000 :: u32) = bits_between 20 25"
    "(0x1F :: u32) = bits_between 0 5" "(0x3F :: u32) = bits_between 0 6"
    "(0xFFF :: u32) = bits_between 0 12" "(0xFF :: u32) = bits_between 0 8"
    "(0x3FF :: u32) = bits_between 0 10" "(0xF :: u32) = bits_between 0 4"
    "(0x7 :: u32) = bits_between 0 3"
    by (simp_all add: mask_eq_exp_minus_1)
  show
    "bit (0x7F :: u32) n = (n < 7)"
    "bit (0x707F :: u32) n = (n < 7 \<or> (12 \<le> n \<and> n < 15))"
    "bit (0xFE00707F :: u32) n = (n < 7 \<or> (12 \<le> n \<and> n < 15) \<or> (25 \<le> n \<and> n < 32))"
    "bit (0xFC00707F :: u32) n = (n < 7 \<or> (12 \<le> n \<and> n < 15) \<or> (26 \<le> n \<and> n < 32))"
    "bit (0xFFFFF :: u32) n = (n < 20)"
    "bit (0xFFFFFFFF :: u32) n = (n < 32)"
    "bit (0xFFFFF000 :: u32) n = (12 \<le> n \<and> n < 32)"
    "bit (0x1000 :: u32) n = (n = 12)"
    "bit (0x7E0 :: u32) n = (5 \<le> n \<and> n < 11)"
    "bit (0x1E :: u32) n = (1 \<le> n \<and> n < 5)"
    "bit (0x800 :: u32) n = (n = 11)"
    "bit (0x100000 :: u32) n = (n = 20)"
    "bit (0x7FE :: u32) n = (1 \<le> n \<and> n < 11)"
    "bit (0xFF000 :: u32) n = (12 \<le> n \<and> n < 20)"
    "bit (0x7000 :: u32) n = (12 \<le> n \<and> n < 15)"
    "bit (0x1F00000 :: u32) n = (20 \<le> n \<and> n < 25)"
    "bit (0x1F :: u32) n = (n < 5)"
    "bit (0x3F :: u32) n = (n < 6)"
    "bit (0xFFF :: u32) n = (n < 12)"
    "bit (0xFF :: u32) n = (n < 8)"
    "bit (0x3FF :: u32) n = (n < 10)"
    "bit (0xF :: u32) n = (n < 4)"
    "bit (0x7 :: u32) n = (n < 3)"
    by (simp_all only: lits bit_or_iff bit_push_bit_iff bit_mask_iff possible_bit_word) auto
qed

text \<open>Used with \<open>simp only:\<close>, so that literals are read as sets of positions.\<close>

lemmas word_bits =
  bit_and_iff bit_or_iff bit_push_bit_iff bit_drop_bit_eq o_apply bit_ucast_iff possible_bit_word
  bit_reg_field literal_bits

end
