(* ===== verification/Isa_Formats.thy ===== *)
theory Isa_Formats
  imports Isa_Bits
begin

text \<open>
  Encoding and decoding, format by format: for a row of a table with the mask of the format, the
  word an encoder builds matches the row and gives every operand back when its fields are read
  (\<open>.._word\<close>), and a word that matches the row is the word built from its own fields
  (\<open>.._rebuild\<close>).
\<close>

subsection \<open>Reading a field back\<close>

lemma reg_field_eqI: "x < 32 \<Longrightarrow> (\<And>n. n < 5 \<Longrightarrow> bit w (k + n) = bit x n) \<Longrightarrow> reg_field k w = x"
  by (rule bit_word_eqI) (auto simp: bit_reg_field dest: reg_bits)

lemma matches_iff:
  "(w AND m = b) \<longleftrightarrow> (\<forall>n < 32. (bit w n \<and> bit m n) = bit (b :: u32) n)"
  by (auto simp: bit_and_iff [symmetric] intro: u32_eqI)

lemma reg_okD: "reg_ok r \<Longrightarrow> bit (reg_number r) n \<Longrightarrow> n < 5"
  by (simp add: reg_ok_def reg_bits)

lemma reg_eqI: "reg_ok r \<Longrightarrow> (\<And>n. n < 5 \<Longrightarrow> bit w (k + n) = bit (reg_number r) n) \<Longrightarrow> IntReg (reg_field k w) = r"
  by (cases r) (auto simp: reg_ok_def intro!: reg_field_eqI)

lemma u32_blast:
  assumes "bit v 0 = bit w 0" "bit v 1 = bit w 1" "bit v 2 = bit w 2" "bit v 3 = bit w 3"
    "bit v 4 = bit w 4" "bit v 5 = bit w 5" "bit v 6 = bit w 6" "bit v 7 = bit w 7"
    "bit v 8 = bit w 8" "bit v 9 = bit w 9" "bit v 10 = bit w 10" "bit v 11 = bit w 11"
    "bit v 12 = bit w 12" "bit v 13 = bit w 13" "bit v 14 = bit w 14" "bit v 15 = bit w 15"
    "bit v 16 = bit w 16" "bit v 17 = bit w 17" "bit v 18 = bit w 18" "bit v 19 = bit w 19"
    "bit v 20 = bit w 20" "bit v 21 = bit w 21" "bit v 22 = bit w 22" "bit v 23 = bit w 23"
    "bit v 24 = bit w 24" "bit v 25 = bit w 25" "bit v 26 = bit w 26" "bit v 27 = bit w 27"
    "bit v 28 = bit w 28" "bit v 29 = bit w 29" "bit v 30 = bit w 30" "bit v 31 = bit w 31"
  shows "v = (w :: u32)"
proof (rule u32_eqI)
  fix n :: nat assume "n < 32"
  then have "n = 31 \<or> n = 30 \<or> n = 29 \<or> n = 28 \<or> n = 27 \<or> n = 26 \<or> n = 25 \<or> n = 24 \<or>
        n = 23 \<or> n = 22 \<or> n = 21 \<or> n = 20 \<or> n = 19 \<or> n = 18 \<or> n = 17 \<or> n = 16 \<or>
        n = 15 \<or> n = 14 \<or> n = 13 \<or> n = 12 \<or> n = 11 \<or> n = 10 \<or> n = 9 \<or> n = 8 \<or>
        n = 7 \<or> n = 6 \<or> n = 5 \<or> n = 4 \<or> n = 3 \<or> n = 2 \<or> n = 1 \<or> n = 0"
    by presburger
  then show "bit v n = bit w n"
    by (elim disjE) (simp_all only: assms)
qed

text \<open>The same facts about operands and match bits as rewrite rules.\<close>

lemma reg_ok_bits: "reg_ok r \<Longrightarrow> 5 \<le> n \<Longrightarrow> \<not> bit (reg_number r) n"
  using reg_okD by fastforce

subsection \<open>Register-register instructions\<close>

lemma rr_word:
  assumes s: "s \<in> set REGISTER_REGISTER_SPECS" and "reg_ok rd" "reg_ok rs1" "reg_ok rs2"
    and w: "w = spec_match_bits s OR push_bit 20 (ucast (reg_number rs2))
               OR push_bit 15 (ucast (reg_number rs1)) OR push_bit 7 (ucast (reg_number rd))"
  shows "w AND spec_mask s = spec_match_bits s"
    "IntReg (reg_field 7 w) = rd" "IntReg (reg_field 15 w) = rs1" "IntReg (reg_field 20 w) = rs2"
proof -
  note ok = reg_okD [OF assms(2)] reg_okD [OF assms(3)] reg_okD [OF assms(4)]
  have m: "bit (spec_match_bits s) n \<Longrightarrow> n < 7 \<or> (12 \<le> n \<and> n < 15) \<or> (25 \<le> n \<and> n < 32)" for n
    using rr_table.match_under_mask [OF s, of n] by (simp only: rr_masks [OF s] literal_bits)
  show "w AND spec_mask s = spec_match_bits s"
    unfolding matches_iff rr_masks [OF s] w by (simp only: word_bits) (auto dest: ok m)
  show "IntReg (reg_field 7 w) = rd"
    by (rule reg_eqI [OF assms(2)]) (simp only: w word_bits, auto dest: ok m)
  show "IntReg (reg_field 15 w) = rs1"
    by (rule reg_eqI [OF assms(3)]) (simp only: w word_bits, auto dest: ok m)
  show "IntReg (reg_field 20 w) = rs2"
    by (rule reg_eqI [OF assms(4)]) (simp only: w word_bits, auto dest: ok m)
qed

lemma rr_rebuild:
  assumes s: "s \<in> set REGISTER_REGISTER_SPECS" and w: "w AND spec_mask s = spec_match_bits s"
  shows "spec_match_bits s OR push_bit 20 (ucast (reg_field 20 w)) OR push_bit 15 (ucast (reg_field 15 w))
           OR push_bit 7 (ucast (reg_field 7 w)) = w"
  unfolding w [symmetric] rr_masks [OF s]
  by (rule u32_eqI) (simp only: word_bits le_add_diff_inverse cong: conj_cong, auto)

subsection \<open>Immediate fields\<close>

lemma sign_extend_eqI:
  assumes "0 < b" "b \<le> 32" "\<And>n. b - 1 \<le> n \<Longrightarrow> n < 32 \<Longrightarrow> bit imm n = bit imm (b - 1)"
    "\<And>n. n < b \<Longrightarrow> bit v n = bit imm n"
  shows "sign_extend v b = imm"
proof (rule u32_eqI)
  fix n :: nat assume "n < 32"
  with assms(1,2) assms(3) [of n] assms(4) [of n] assms(4) [of "b - 1"]
  show "bit (sign_extend v b) n = bit imm n"
    by (auto simp: bit_sign_extend min_def not_le)
qed

lemma sign_extend_range:
  assumes "0 < b" "b \<le> 32"
  shows "- (2 ^ (b - 1)) \<le> sint (sign_extend v b)" "sint (sign_extend v b) < 2 ^ (b - 1)"
proof -
  have *: "bit (sign_extend v b) n = bit (sign_extend v b) (b - 1)" if "b - 1 \<le> n" "n < 32" for n
    using assms that by (simp add: bit_sign_extend min_def)
  show "- (2 ^ (b - 1)) \<le> sint (sign_extend v b)"
    by (rule bits_sint_range(1), rule *) (use assms in auto)
  show "sint (sign_extend v b) < 2 ^ (b - 1)"
    by (rule bits_sint_range(2), rule *) (use assms in auto)
qed

lemma sint_nonneg_bits:
  assumes "0 \<le> sint (w :: i32)" "sint w < 2 ^ k" "bit w n"
  shows "n < k"
proof -
  have n: "n < 32" using assms(3) bit_imp_le_length [of w n] by simp
  then have "bit (sint w) n" using assms(3) by (simp add: bit_sint_iff)
  moreover have "take_bit k (sint w) = sint w" using assms(1,2) by (simp add: take_bit_int_eq_self)
  ultimately show ?thesis by (metis bit_take_bit_iff)
qed

lemma bits_sint_nonneg:
  assumes "\<And>n. bit w n \<Longrightarrow> n < k" "k < 32"
  shows "0 \<le> sint (w :: i32)" "sint w < 2 ^ k"
proof -
  have "take_bit k (sint w) = sint w"
  proof (rule bit_eqI)
    fix n
    have "\<not> bit w 31" using assms(1) [of 31] assms(2) by auto
    then show "bit (take_bit k (sint w)) n = bit (sint w) n"
      using assms(1) [of n] by (auto simp: bit_take_bit_iff bit_sint_iff split: if_splits)
  qed
  then show "0 \<le> sint w" "sint w < 2 ^ k"
    by (metis take_bit_nonnegative, metis take_bit_int_less_exp)
qed

subsection \<open>Base integer instructions, format by format\<close>

definition imm_formats :: "instruction_format list" where
  "imm_formats = [Fmt_Immediate, Fmt_ImmediateWord, Fmt_Load, Fmt_JumpRegister]"

text \<open>The match bits of the row lie under its mask; the tables give this for each of their rows.\<close>

definition row_ok :: "instruction_spec \<Rightarrow> bool" where
  "row_ok s = (\<forall>n. bit (spec_match_bits s) n \<longrightarrow> bit (spec_mask s) n)"

lemma row_okI:
  "s \<in> set BASE_INTEGER_SPECS \<Longrightarrow> row_ok s" "s \<in> set FLOATING_SPECS \<Longrightarrow> row_ok s"
  by (auto simp: row_ok_def dest: base_table.match_under_mask fp_table.match_under_mask)

lemma mask_bits_707F:
  assumes "row_ok s" "spec_mask s = 0x707F" "bit (spec_match_bits s) n"
  shows "n < 7 \<or> (12 \<le> n \<and> n < 15)"
proof -
  have "bit (spec_mask s) n" using assms(1,3) by (simp add: row_ok_def)
  then show ?thesis by (simp only: assms(2) literal_bits)
qed

lemma imm_word:
  assumes s: "row_ok s" and k: "spec_mask s = 0x707F" and "reg_ok rd" "reg_ok rs1"
    and r: "- 2048 \<le> sint imm" "sint imm \<le> 2047"
    and w: "w = spec_match_bits s OR push_bit 20 (imm AND 0xFFF)
               OR push_bit 15 (ucast (reg_number rs1)) OR push_bit 7 (ucast (reg_number rd))"
  shows "w AND spec_mask s = spec_match_bits s"
    "IntReg (reg_field 7 w) = rd" "IntReg (reg_field 15 w) = rs1"
    "sign_extend (drop_bit 20 w) 12 = imm"
proof -
  note ok = reg_okD [OF assms(3)] reg_okD [OF assms(4)] mask_bits_707F [OF s k]
  show "w AND spec_mask s = spec_match_bits s"
    unfolding matches_iff k w by (simp only: word_bits) (auto dest: ok)
  show "IntReg (reg_field 7 w) = rd"
    by (rule reg_eqI [OF assms(3)]) (simp only: w word_bits, auto dest: ok)
  show "IntReg (reg_field 15 w) = rs1"
    by (rule reg_eqI [OF assms(4)]) (simp only: w word_bits, auto dest: ok)
  show "sign_extend (drop_bit 20 w) 12 = imm"
  proof (rule sign_extend_eqI)
    show "bit imm n = bit imm (12 - 1)" if "12 - 1 \<le> n" "n < 32" for n
      using r that sint_range_bits [of 11 imm n] by simp
    show "bit (drop_bit 20 w) n = bit imm n" if "n < 12" for n
      using that by (simp only: w word_bits, auto dest: ok)
  qed simp_all
qed

lemma imm_rebuild:
  assumes k: "spec_mask s = 0x707F" and w: "w AND spec_mask s = spec_match_bits s"
  shows "spec_match_bits s OR push_bit 20 (sign_extend (drop_bit 20 w) 12 AND 0xFFF)
           OR push_bit 15 (ucast (reg_field 15 w)) OR push_bit 7 (ucast (reg_field 7 w)) = w"
  unfolding w [symmetric] k
proof (rule u32_eqI)
  fix n :: nat assume "n < 32"
  then show "bit ((w AND 0x707F) OR push_bit 20 (sign_extend (drop_bit 20 w) 12 AND 0xFFF)
    OR push_bit 15 (ucast (reg_field 15 w)) OR push_bit 7 (ucast (reg_field 7 w))) n = bit w n"
    by (cases "20 \<le> n")
      (simp only: word_bits bit_sign_extend le_add_diff_inverse cong: conj_cong, auto simp: min_def)+
qed

lemma shift_word:
  assumes s: "s \<in> set BASE_INTEGER_SPECS"
    and k: "spec_mask s = 0xFC00707F \<and> hi = 6 \<or> spec_mask s = 0xFE00707F \<and> hi = 5"
    and "reg_ok rd" "reg_ok rs1" and r: "0 \<le> sint imm" "sint imm < 2 ^ hi"
    and w: "w = spec_match_bits s OR push_bit 20 imm
               OR push_bit 15 (ucast (reg_number rs1)) OR push_bit 7 (ucast (reg_number rd))"
  shows "w AND spec_mask s = spec_match_bits s"
    "IntReg (reg_field 7 w) = rd" "IntReg (reg_field 15 w) = rs1"
    "drop_bit 20 w AND mask hi = imm"
proof -
  note ok = reg_okD [OF assms(3)] reg_okD [OF assms(4)] sint_nonneg_bits [OF r]
  have h: "hi \<le> 6" and kk: "bit (spec_mask s) n = (n < 7 \<or> (12 \<le> n \<and> n < 15) \<or> (20 + hi \<le> n \<and> n < 32))" for n
    using k by (auto simp only: literal_bits)
  have m: "bit (spec_match_bits s) n \<Longrightarrow> n < 7 \<or> (12 \<le> n \<and> n < 15) \<or> (20 + hi \<le> n \<and> n < 32)" for n
    using base_table.match_under_mask [OF s, of n] by (simp only: kk)
  show "w AND spec_mask s = spec_match_bits s"
    unfolding matches_iff kk w using h by (simp only: word_bits) (auto dest: ok m)
  show "IntReg (reg_field 7 w) = rd"
    by (rule reg_eqI [OF assms(3)]) (simp only: w word_bits, auto dest: ok m)
  show "IntReg (reg_field 15 w) = rs1"
    by (rule reg_eqI [OF assms(4)]) (simp only: w word_bits, auto dest: ok m)
  show "drop_bit 20 w AND mask hi = imm"
    by (rule u32_eqI) (use h in \<open>simp only: w word_bits bit_mask_iff, auto dest: ok m\<close>)
qed

lemma match_707F_bits:
  "row_ok s \<Longrightarrow> spec_mask s = 0x707F \<Longrightarrow> \<not> (n < 7 \<or> (12 \<le> n \<and> n < 15)) \<Longrightarrow>
     \<not> bit (spec_match_bits s) n"
  using mask_bits_707F by blast

lemma shift_rebuild:
  assumes k: "spec_mask s = 0xFC00707F \<and> hi = 6 \<or> spec_mask s = 0xFE00707F \<and> hi = 5"
    and w: "w AND spec_mask s = spec_match_bits s"
  shows "spec_match_bits s OR push_bit 20 (drop_bit 20 w AND mask hi)
           OR push_bit 15 (ucast (reg_field 15 w)) OR push_bit 7 (ucast (reg_field 7 w)) = w"
proof (rule u32_eqI)
  fix n :: nat assume "n < 32"
  have "hi \<le> 6" and kk: "bit (spec_mask s) n = (n < 7 \<or> (12 \<le> n \<and> n < 15) \<or> (20 + hi \<le> n \<and> n < 32))"
    using k by (auto simp only: literal_bits)
  with \<open>n < 32\<close> show "bit (spec_match_bits s OR push_bit 20 (drop_bit 20 w AND mask hi)
      OR push_bit 15 (ucast (reg_field 15 w)) OR push_bit 7 (ucast (reg_field 7 w))) n = bit w n"
    unfolding w [symmetric]
    by (cases "20 \<le> n") (simp only: word_bits kk bit_mask_iff le_add_diff_inverse cong: conj_cong, auto)+
qed

lemma store_word:
  assumes s: "row_ok s" and k: "spec_mask s = 0x707F" and "reg_ok rs2" "reg_ok rs1"
    and r: "- 2048 \<le> sint imm" "sint imm \<le> 2047"
    and w: "w = spec_match_bits s OR push_bit 25 (drop_bit 5 (imm AND 0xFFF))
              OR push_bit 20 (ucast (reg_number rs2)) OR push_bit 15 (ucast (reg_number rs1))
              OR push_bit 7 ((imm AND 0xFFF) AND 0x1F)"
  shows "w AND spec_mask s = spec_match_bits s"
    "IntReg (reg_field 15 w) = rs1" "IntReg (reg_field 20 w) = rs2"
    "sign_extend (push_bit 5 (drop_bit 25 w) OR (drop_bit 7 w AND 0x1F)) 12 = imm"
proof -
  note ok = reg_okD [OF assms(3)] reg_okD [OF assms(4)] mask_bits_707F [OF s k]
  show "w AND spec_mask s = spec_match_bits s"
    unfolding matches_iff k w by (simp only: word_bits) (auto dest: ok)
  show "IntReg (reg_field 15 w) = rs1"
    by (rule reg_eqI [OF assms(4)]) (simp only: w word_bits, auto dest: ok)
  show "IntReg (reg_field 20 w) = rs2"
    by (rule reg_eqI [OF assms(3)]) (simp only: w word_bits, auto dest: ok)
  show "sign_extend (push_bit 5 (drop_bit 25 w) OR (drop_bit 7 w AND 0x1F)) 12 = imm"
  proof (rule sign_extend_eqI)
    show "bit imm n = bit imm (12 - 1)" if "12 - 1 \<le> n" "n < 32" for n
      using r that sint_range_bits [of 11 imm n] by simp
    show "bit (push_bit 5 (drop_bit 25 w) OR (drop_bit 7 w AND 0x1F)) n = bit imm n" if "n < 12" for n
      using that by (cases "5 \<le> n") (simp only: w word_bits, auto dest: ok)+
  qed simp_all
qed

lemma store_rebuild:
  assumes k: "spec_mask s = 0x707F" and w: "w AND spec_mask s = spec_match_bits s"
    and imm: "imm = sign_extend (push_bit 5 (drop_bit 25 w) OR (drop_bit 7 w AND 0x1F)) 12"
  shows "spec_match_bits s OR push_bit 25 (drop_bit 5 (imm AND 0xFFF))
           OR push_bit 20 (ucast (reg_field 20 w)) OR push_bit 15 (ucast (reg_field 15 w))
           OR push_bit 7 ((imm AND 0xFFF) AND 0x1F) = w"
proof -
  have i: "bit imm m = (if m < 5 then bit w (7 + m) else bit w (20 + m))" if "m < 12" for m
    using that by (cases "5 \<le> m") (simp only: imm bit_sign_extend word_bits, auto simp: min_def)+
  show ?thesis
    unfolding w [symmetric] k
    by (rule u32_blast; simp add: bit_simps bit_reg_field i)
qed

lemma branch_word:
  assumes s: "row_ok s" and k: "spec_mask s = 0x707F" and "reg_ok rs2" "reg_ok rs1"
    and r: "- 4096 \<le> sint imm" "sint imm \<le> 4094" "imm AND 1 = 0"
    and w: "w = spec_match_bits s OR push_bit 19 (imm AND 0x1000)
              OR push_bit 20 (imm AND 0x07E0) OR push_bit 20 (ucast (reg_number rs2))
              OR push_bit 15 (ucast (reg_number rs1)) OR push_bit 7 (imm AND 0x001E)
              OR drop_bit 4 (imm AND 0x0800)"
  shows "w AND spec_mask s = spec_match_bits s"
    "IntReg (reg_field 15 w) = rs1" "IntReg (reg_field 20 w) = rs2"
    "sign_extend (push_bit 12 (drop_bit 31 w) OR push_bit 11 (drop_bit 7 w AND 1)
       OR push_bit 5 (drop_bit 25 w AND 0x3F) OR push_bit 1 (drop_bit 8 w AND 0xF)) 13 = imm"
proof -
  note ok = reg_okD [OF assms(3)] reg_okD [OF assms(4)] mask_bits_707F [OF s k]
  have z: "\<not> bit imm 0" using r(3) by (simp add: and_one_eq)
  have top: "bit imm n = bit imm 12" if "12 \<le> n" "n < 32" for n
    using r(1,2) that sint_range_bits [of 12 imm n] by simp
  show "w AND spec_mask s = spec_match_bits s"
    unfolding matches_iff k w by (simp only: word_bits) (auto dest: ok)
  show "IntReg (reg_field 15 w) = rs1"
    by (rule reg_eqI [OF assms(4)]) (simp only: w word_bits, auto dest: ok)
  show "IntReg (reg_field 20 w) = rs2"
    by (rule reg_eqI [OF assms(3)]) (simp only: w word_bits, auto dest: ok)
  show "sign_extend (push_bit 12 (drop_bit 31 w) OR push_bit 11 (drop_bit 7 w AND 1)
       OR push_bit 5 (drop_bit 25 w AND 0x3F) OR push_bit 1 (drop_bit 8 w AND 0xF)) 13 = imm"
  proof (rule sign_extend_eqI)
    show "bit imm n = bit imm (13 - 1)" if "13 - 1 \<le> n" "n < 32" for n
      using top [of n] that by simp
    show "bit (push_bit 12 (drop_bit 31 w) OR push_bit 11 (drop_bit 7 w AND 1)
       OR push_bit 5 (drop_bit 25 w AND 0x3F) OR push_bit 1 (drop_bit 8 w AND 0xF)) n = bit imm n"
      if "n < 13" for n
    proof -
      have "n = 12 \<or> n = 11 \<or> n = 10 \<or> n = 9 \<or> n = 8 \<or> n = 7 \<or> n = 6 \<or> n = 5 \<or>
        n = 4 \<or> n = 3 \<or> n = 2 \<or> n = 1 \<or> n = 0" using that by presburger
      then show ?thesis
        by (elim disjE; simp only: w word_bits drop_and_one bit_push_of_bool)
          (simp_all add: z reg_ok_bits [OF assms(3)] reg_ok_bits [OF assms(4)] match_707F_bits [OF s k])
    qed
  qed simp_all
qed

lemma branch_imm_bits:
  assumes "imm = sign_extend (push_bit 12 (drop_bit 31 w) OR push_bit 11 (drop_bit 7 w AND 1)
       OR push_bit 5 (drop_bit 25 w AND 0x3F) OR push_bit 1 (drop_bit 8 w AND 0xF)) 13"
  shows "n < 13 \<Longrightarrow> bit imm n = (if n = 12 then bit w 31 else if n = 11 then bit w 7
    else if 5 \<le> n then bit w (20 + n) else 1 \<le> n \<and> bit w (7 + n))"
  by (simp only: assms bit_sign_extend word_bits drop_and_one bit_push_of_bool)
    (auto simp: min_def dest: bit_imp_le_length)

lemma branch_rebuild:
  assumes k: "spec_mask s = 0x707F" and w: "w AND spec_mask s = spec_match_bits s"
    and imm: "imm = sign_extend (push_bit 12 (drop_bit 31 w) OR push_bit 11 (drop_bit 7 w AND 1)
       OR push_bit 5 (drop_bit 25 w AND 0x3F) OR push_bit 1 (drop_bit 8 w AND 0xF)) 13"
  shows "spec_match_bits s OR push_bit 19 (imm AND 0x1000)
           OR push_bit 20 (imm AND 0x07E0) OR push_bit 20 (ucast (reg_field 20 w))
           OR push_bit 15 (ucast (reg_field 15 w)) OR push_bit 7 (imm AND 0x001E)
           OR drop_bit 4 (imm AND 0x0800) = w"
  unfolding w [symmetric] k
  by (rule u32_blast; simp add: bit_simps bit_reg_field branch_imm_bits [OF imm])

lemma jump_imm_bits:
  assumes "imm = sign_extend (push_bit 20 (drop_bit 31 w) OR push_bit 12 (drop_bit 12 w AND 0xFF)
       OR push_bit 11 (drop_bit 20 w AND 1) OR push_bit 1 (drop_bit 21 w AND 0x3FF)) 21"
  shows "n < 21 \<Longrightarrow> bit imm n = (if n = 20 then bit w 31 else if 12 \<le> n then bit w n
    else if n = 11 then bit w 20 else 1 \<le> n \<and> bit w (20 + n))"
  by (simp only: assms bit_sign_extend word_bits drop_and_one bit_push_of_bool)
    (auto simp: min_def bit_1_iff dest: bit_imp_le_length)

lemma jump_word:
  assumes s: "s \<in> set BASE_INTEGER_SPECS" and k: "spec_mask s = 0x7F" and "reg_ok rd"
    and r: "- 1048576 \<le> sint imm" "sint imm \<le> 1048574" "imm AND 1 = 0"
    and w: "w = spec_match_bits s OR push_bit 11 (imm AND 0x100000)
              OR push_bit 20 (imm AND 0x7FE) OR push_bit 9 (imm AND 0x800)
              OR (imm AND 0xFF000) OR push_bit 7 (ucast (reg_number rd))"
  shows "w AND spec_mask s = spec_match_bits s" "IntReg (reg_field 7 w) = rd"
    "sign_extend (push_bit 20 (drop_bit 31 w) OR push_bit 12 (drop_bit 12 w AND 0xFF)
       OR push_bit 11 (drop_bit 20 w AND 1) OR push_bit 1 (drop_bit 21 w AND 0x3FF)) 21 = imm"
proof -
  have z: "\<not> bit imm 0" using r(3) by (simp add: and_one_eq)
  have m: "bit (spec_match_bits s) n \<Longrightarrow> n < 7" for n
    using base_table.match_under_mask [OF s, of n] by (simp only: k literal_bits)
  then have m': "7 \<le> n \<Longrightarrow> \<not> bit (spec_match_bits s) n" for n by fastforce
  note ok = reg_okD [OF assms(3)] m
  show "w AND spec_mask s = spec_match_bits s"
    unfolding matches_iff k w by (simp only: word_bits) (auto dest: ok)
  show "IntReg (reg_field 7 w) = rd"
    by (rule reg_eqI [OF assms(3)]) (simp only: w word_bits, auto dest: ok)
  show "sign_extend (push_bit 20 (drop_bit 31 w) OR push_bit 12 (drop_bit 12 w AND 0xFF)
       OR push_bit 11 (drop_bit 20 w AND 1) OR push_bit 1 (drop_bit 21 w AND 0x3FF)) 21 = imm"
  proof (rule sign_extend_eqI)
    show "bit imm n = bit imm (21 - 1)" if "21 - 1 \<le> n" "n < 32" for n
      using r(1,2) that sint_range_bits [of 20 imm n] by simp
    show "bit (push_bit 20 (drop_bit 31 w) OR push_bit 12 (drop_bit 12 w AND 0xFF)
       OR push_bit 11 (drop_bit 20 w AND 1) OR push_bit 1 (drop_bit 21 w AND 0x3FF)) n = bit imm n"
      if "n < 21" for n
    proof -
      have "n = 20 \<or> n = 19 \<or> n = 18 \<or> n = 17 \<or> n = 16 \<or> n = 15 \<or> n = 14 \<or> n = 13 \<or>
        n = 12 \<or> n = 11 \<or> n = 10 \<or> n = 9 \<or> n = 8 \<or> n = 7 \<or> n = 6 \<or> n = 5 \<or>
        n = 4 \<or> n = 3 \<or> n = 2 \<or> n = 1 \<or> n = 0"
        using that by presburger
      then show ?thesis
        by (elim disjE; simp only: w word_bits drop_and_one bit_push_of_bool)
          (simp_all add: z reg_ok_bits [OF assms(3)] m')
    qed
  qed simp_all
qed

lemma jump_rebuild:
  assumes k: "spec_mask s = 0x7F" and w: "w AND spec_mask s = spec_match_bits s"
    and imm: "imm = sign_extend (push_bit 20 (drop_bit 31 w) OR push_bit 12 (drop_bit 12 w AND 0xFF)
       OR push_bit 11 (drop_bit 20 w AND 1) OR push_bit 1 (drop_bit 21 w AND 0x3FF)) 21"
  shows "spec_match_bits s OR push_bit 11 (imm AND 0x100000)
           OR push_bit 20 (imm AND 0x7FE) OR push_bit 9 (imm AND 0x800)
           OR (imm AND 0xFF000) OR push_bit 7 (ucast (reg_field 7 w)) = w"
  unfolding w [symmetric] k
  by (rule u32_blast; simp add: bit_simps bit_reg_field jump_imm_bits [OF imm])

lemma fence_word:
  assumes s: "s \<in> set BASE_INTEGER_SPECS" and k: "spec_mask s = 0xFFFFF"
    and r: "fm \<le> (15 :: u8)" "pr \<le> (15 :: u8)" "su \<le> (15 :: u8)"
    and w: "w = spec_match_bits s OR push_bit 28 (ucast fm) OR push_bit 24 (ucast pr) OR push_bit 20 (ucast su)"
  shows "w AND spec_mask s = spec_match_bits s" "ucast (drop_bit 28 w AND 0xF) = fm"
    "ucast (drop_bit 24 w AND 0xF) = pr" "ucast (drop_bit 20 w AND 0xF) = su"
proof -
  have m: "bit (spec_match_bits s) n \<Longrightarrow> n < 20" for n
    using base_table.match_under_mask [OF s, of n] by (simp only: k literal_bits)
  note ok = u8_less_16_bits [OF r(1)] u8_less_16_bits [OF r(2)] u8_less_16_bits [OF r(3)] m
  show "w AND spec_mask s = spec_match_bits s"
    unfolding matches_iff k w by (simp only: word_bits) (auto dest: ok)
  show "ucast (drop_bit 28 w AND 0xF) = fm" "ucast (drop_bit 24 w AND 0xF) = pr"
    "ucast (drop_bit 20 w AND 0xF) = su"
    by (rule bit_word_eqI; simp only: w word_bits; auto dest: ok)+
qed

lemma fence_rebuild:
  assumes k: "spec_mask s = 0xFFFFF" and w: "w AND spec_mask s = spec_match_bits s"
  shows "spec_match_bits s OR push_bit 28 (ucast (ucast (drop_bit 28 w AND 0xF) :: u8))
    OR push_bit 24 (ucast (ucast (drop_bit 24 w AND 0xF) :: u8))
    OR push_bit 20 (ucast (ucast (drop_bit 20 w AND 0xF) :: u8)) = w"
  unfolding w [symmetric] k by (rule u32_blast; simp add: bit_simps)

lemma csr_word:
  assumes s: "row_ok s" and k: "spec_mask s = 0x707F" and "reg_ok rd"
    and r: "source < (32 :: u8)" "csr \<le> (0xFFF :: u16)"
    and w: "w = spec_match_bits s OR push_bit 20 (ucast csr) OR push_bit 15 (ucast source)
              OR push_bit 7 (ucast (reg_number rd))"
  shows "w AND spec_mask s = spec_match_bits s" "IntReg (reg_field 7 w) = rd"
    "reg_field 15 w = source" "ucast (drop_bit 20 w AND 0xFFF) = csr"
proof -
  note ok = reg_okD [OF assms(3)] reg_bits [OF r(1)] u16_less_4096_bits [OF r(2)] mask_bits_707F [OF s k]
  show "w AND spec_mask s = spec_match_bits s"
    unfolding matches_iff k w by (simp only: word_bits) (auto dest: ok)
  show "IntReg (reg_field 7 w) = rd"
    by (rule reg_eqI [OF assms(3)]) (simp only: w word_bits, auto dest: ok)
  show "reg_field 15 w = source"
    by (rule reg_field_eqI [OF r(1)]) (simp only: w word_bits, auto dest: ok)
  show "ucast (drop_bit 20 w AND 0xFFF) = csr"
    by (rule bit_word_eqI; simp only: w word_bits; auto dest: ok)
qed

lemma csr_rebuild:
  assumes k: "spec_mask s = 0x707F" and w: "w AND spec_mask s = spec_match_bits s"
  shows "spec_match_bits s OR push_bit 20 (ucast (ucast (drop_bit 20 w AND 0xFFF) :: u16))
    OR push_bit 15 (ucast (reg_field 15 w)) OR push_bit 7 (ucast (reg_field 7 w)) = w"
  unfolding w [symmetric] k by (rule u32_blast; simp add: bit_simps bit_reg_field)

subsection \<open>Upper immediates and atomics\<close>

lemma upper_word:
  assumes s: "s \<in> set UPPER_IMMEDIATE_SPECS" and "reg_ok rd"
    and w: "w = (imm AND 0xFFFFF000) OR push_bit 7 (ucast (reg_number rd)) OR spec_match_bits s"
  shows "w AND spec_mask s = spec_match_bits s" "IntReg (reg_field 7 w) = rd"
    "w AND 0xFFFFF000 = imm AND 0xFFFFF000"
proof -
  have m: "bit (spec_match_bits s) n \<Longrightarrow> n < 7" for n
    using upper_table.match_under_mask [OF s, of n] by (simp only: upper_masks [OF s] literal_bits)
  note ok = reg_okD [OF assms(2)] m
  show "w AND spec_mask s = spec_match_bits s"
    unfolding matches_iff upper_masks [OF s] w by (simp only: word_bits) (auto dest: ok)
  show "IntReg (reg_field 7 w) = rd"
    by (rule reg_eqI [OF assms(2)]) (simp only: w word_bits, auto dest: ok)
  show "w AND 0xFFFFF000 = imm AND 0xFFFFF000"
    by (rule u32_eqI) (simp only: w word_bits, auto dest: ok)
qed

lemma upper_rebuild:
  assumes s: "s \<in> set UPPER_IMMEDIATE_SPECS" and w: "w AND spec_mask s = spec_match_bits s"
  shows "((w AND 0xFFFFF000) AND 0xFFFFF000) OR push_bit 7 (ucast (reg_field 7 w)) OR spec_match_bits s = w"
  unfolding w [symmetric] upper_masks [OF s]
  by (rule u32_blast; simp add: bit_simps bit_reg_field)

lemma atomic_masks:
  assumes "s \<in> set ATOMIC_SPECS"
  shows "spec_mask s = (if spec_id s \<in> set [Atomic LrW, Atomic LrD] then 0xF9F0707F else 0xF800707F)"
proof -
  have "list_all (\<lambda>(i, m). m = (if i \<in> set [Atomic LrW, Atomic LrD] then 0xF9F0707F else 0xF800707F))
      (map (\<lambda>s. (spec_id s, spec_mask s)) ATOMIC_SPECS)"
    by (simp only: table_rows, code_simp)
  with assms show ?thesis by (auto simp: list_all_iff)
qed

lemma atomic_mask_bits:
  "bit (0xF800707F :: u32) n = (n < 7 \<or> (12 \<le> n \<and> n < 15) \<or> (27 \<le> n \<and> n < 32))"
  "bit (0xF9F0707F :: u32) n = (n < 7 \<or> (12 \<le> n \<and> n < 15) \<or> (20 \<le> n \<and> n < 25) \<or> (27 \<le> n \<and> n < 32))"
proof -
  have l: "(0xF800707F :: u32) = 0x707F OR push_bit 27 (mask 5)"
    "(0xF9F0707F :: u32) = 0x707F OR 0x1F00000 OR push_bit 27 (mask 5)"
    by (simp_all add: mask_eq_exp_minus_1)
  show "bit (0xF800707F :: u32) n = (n < 7 \<or> (12 \<le> n \<and> n < 15) \<or> (27 \<le> n \<and> n < 32))"
    "bit (0xF9F0707F :: u32) n = (n < 7 \<or> (12 \<le> n \<and> n < 15) \<or> (20 \<le> n \<and> n < 25) \<or> (27 \<le> n \<and> n < 32))"
    by (simp_all only: l word_bits bit_mask_iff) auto
qed

lemma atomic_match_rs2:
  assumes "s \<in> set ATOMIC_SPECS" "spec_id s \<in> set [Atomic LrW, Atomic LrD]" "n < 5"
  shows "\<not> bit (spec_match_bits s) (20 + n)"
proof -
  have "list_all (\<lambda>(i, b). i \<in> set [Atomic LrW, Atomic LrD] \<longrightarrow> b AND 0x1F00000 = 0)
      (map (\<lambda>s. (spec_id s, spec_match_bits s)) ATOMIC_SPECS)"
    by (simp only: table_rows, code_simp)
  with assms(1,2) have "spec_match_bits s AND 0x1F00000 = 0" by (auto simp: list_all_iff)
  then have "\<not> bit (spec_match_bits s AND 0x1F00000) (20 + n)" by simp
  then show ?thesis using assms(3) by (simp only: bit_and_iff literal_bits) simp
qed

lemma atomic_word:
  assumes s: "s \<in> set ATOMIC_SPECS" and "reg_ok rd" "reg_ok rs1" "reg_ok rs2"
    and lr: "spec_id s \<in> set [Atomic LrW, Atomic LrD] \<longrightarrow> reg_number rs2 = 0"
    and w: "w = spec_match_bits s OR push_bit 26 (of_bool aq) OR push_bit 25 (of_bool rl)
              OR push_bit 20 (ucast (reg_number rs2)) OR push_bit 15 (ucast (reg_number rs1))
              OR push_bit 7 (ucast (reg_number rd))"
  shows "w AND spec_mask s = spec_match_bits s" "IntReg (reg_field 7 w) = rd"
    "IntReg (reg_field 15 w) = rs1" "IntReg (reg_field 20 w) = rs2"
    "bit w 26 = aq" "bit w 25 = rl"
proof -
  let ?lr = "spec_id s \<in> set [Atomic LrW, Atomic LrD]"
  have k: "bit (spec_mask s) n = (n < 7 \<or> (12 \<le> n \<and> n < 15) \<or> (?lr \<and> 20 \<le> n \<and> n < 25) \<or> (27 \<le> n \<and> n < 32))" for n
    unfolding atomic_masks [OF s] by (auto simp only: atomic_mask_bits split: if_splits)
  have m: "bit (spec_match_bits s) n \<Longrightarrow>
      n < 7 \<or> (12 \<le> n \<and> n < 15) \<or> (20 \<le> n \<and> n < 25 \<and> ?lr) \<or> (27 \<le> n \<and> n < 32)" for n
    using atomic_table.match_under_mask [OF s, of n] by (auto simp only: k)
  note ok = reg_okD [OF assms(2)] reg_okD [OF assms(3)] reg_okD [OF assms(4)] m
  have mz: "\<not> bit (spec_match_bits s) (20 + n)" if "n < 5" for n
    using atomic_match_rs2 [OF s _ that] m [of "20 + n"] that by auto
  have of0: "bit (of_bool b :: u32) n = (b \<and> n = 0)" for b n by (auto simp: bit_simps)
  show "w AND spec_mask s = spec_match_bits s"
    unfolding matches_iff k w by (simp only: word_bits of0) (use lr in \<open>auto dest: ok\<close>)
  show "IntReg (reg_field 7 w) = rd"
    by (rule reg_eqI [OF assms(2)]) (simp only: w word_bits of0, auto dest: ok)
  show "IntReg (reg_field 15 w) = rs1"
    by (rule reg_eqI [OF assms(3)]) (simp only: w word_bits of0, auto dest: ok)
  show "IntReg (reg_field 20 w) = rs2"
    by (rule reg_eqI [OF assms(4)]) (simp only: w word_bits of0, auto dest: ok simp: mz)
  show "bit w 26 = aq" "bit w 25 = rl"
    by (simp_all only: w word_bits of0) (auto dest: ok)
qed

lemma atomic_rebuild:
  assumes s: "s \<in> set ATOMIC_SPECS" and w: "w AND spec_mask s = spec_match_bits s"
  shows "spec_match_bits s OR push_bit 26 (of_bool (bit w 26)) OR push_bit 25 (of_bool (bit w 25))
    OR push_bit 20 (ucast (reg_field 20 w)) OR push_bit 15 (ucast (reg_field 15 w))
    OR push_bit 7 (ucast (reg_field 7 w)) = w"
  unfolding w [symmetric] atomic_masks [OF s]
  by (cases "spec_id s \<in> set [Atomic LrW, Atomic LrD]"; rule u32_blast;
      simp add: bit_simps bit_reg_field)

subsection \<open>Floating-point operations\<close>

definition fp_masks :: "instruction_format \<Rightarrow> u32 list" where
  "fp_masks format =
     (if format \<in> set [Fmt_FloatingLoad, Fmt_FloatingStore] then [0x707F]
      else if format = Fmt_FloatingOp then [0xFE00007F, 0xFE00707F, 0xFFF0007F, 0xFFF0707F]
      else if format = Fmt_FloatingFused then [0x0600007F] else [])"

lemma fp_masks_of: "s \<in> set FLOATING_SPECS \<Longrightarrow> spec_mask s \<in> set (fp_masks (spec_format s))"
proof -
  have "list_all (\<lambda>(f, m). m \<in> set (fp_masks f)) (map (\<lambda>s. (spec_format s, spec_mask s)) FLOATING_SPECS)"
    by (simp only: table_rows, code_simp)
  moreover assume "s \<in> set FLOATING_SPECS"
  ultimately show ?thesis by (auto simp: list_all_iff)
qed

lemma fp_formats:
  "s \<in> set FLOATING_SPECS \<Longrightarrow>
     spec_format s \<in> {Fmt_FloatingLoad, Fmt_FloatingStore, Fmt_FloatingOp, Fmt_FloatingFused}"
  using fp_masks_of [of s] by (auto simp: fp_masks_def split: if_splits)

text \<open>The operand fields an operation leaves free: the rounding mode and the second source.\<close>

definition rm_fixed :: "instruction_spec \<Rightarrow> bool" where
  "rm_fixed s = (spec_mask s AND 0x7000 \<noteq> 0)"

definition rs2_free :: "instruction_spec \<Rightarrow> bool" where
  "rs2_free s = (spec_mask s AND 0x01F00000 = 0)"

lemma fp_op_mask_bits:
  assumes "s \<in> set FLOATING_SPECS" "spec_format s = Fmt_FloatingOp \<or> spec_format s = Fmt_FloatingFused"
  shows "bit (spec_mask s) n = (n < 7 \<or> (rm_fixed s \<and> 12 \<le> n \<and> n < 15) \<or> (\<not> rs2_free s \<and> 20 \<le> n \<and> n < 25)
    \<or> (25 \<le> n \<and> n < 27) \<or> (spec_format s \<noteq> Fmt_FloatingFused \<and> 27 \<le> n \<and> n < 32))"
proof -
  have l: "(0xFE00007F :: u32) = mask 7 OR push_bit 25 (mask 7)"
    "(0xFFF0007F :: u32) = mask 7 OR push_bit 20 (mask 12)"
    "(0xFFF0707F :: u32) = mask 7 OR push_bit 12 (mask 3) OR push_bit 20 (mask 12)"
    "(0x0600007F :: u32) = mask 7 OR push_bit 25 (mask 2)"
    by (simp_all add: mask_eq_exp_minus_1)
  have b: "bit (0xFE00007F :: u32) n = (n < 7 \<or> (25 \<le> n \<and> n < 32))"
    "bit (0xFFF0007F :: u32) n = (n < 7 \<or> (20 \<le> n \<and> n < 32))"
    "bit (0xFFF0707F :: u32) n = (n < 7 \<or> (12 \<le> n \<and> n < 15) \<or> (20 \<le> n \<and> n < 32))"
    "bit (0x0600007F :: u32) n = (n < 7 \<or> (25 \<le> n \<and> n < 27))"
    by (simp_all only: l bit_or_iff bit_push_bit_iff bit_mask_iff possible_bit_word) auto
  consider "spec_format s = Fmt_FloatingOp" "spec_mask s = 0xFE00007F"
    | "spec_format s = Fmt_FloatingOp" "spec_mask s = 0xFE00707F"
    | "spec_format s = Fmt_FloatingOp" "spec_mask s = 0xFFF0007F"
    | "spec_format s = Fmt_FloatingOp" "spec_mask s = 0xFFF0707F"
    | "spec_format s = Fmt_FloatingFused" "spec_mask s = 0x0600007F"
    using fp_masks_of [OF assms(1)] assms(2) by (auto simp: fp_masks_def)
  then show ?thesis
  proof cases
    case 1
    then have "\<not> rm_fixed s" "rs2_free s" by (simp_all add: rm_fixed_def rs2_free_def)
    then show ?thesis by (simp only: 1 b) auto
  next
    case 2
    then have "rm_fixed s" "rs2_free s" by (simp_all add: rm_fixed_def rs2_free_def)
    then show ?thesis by (simp only: 2 literal_bits) auto
  next
    case 3
    then have "\<not> rm_fixed s" "\<not> rs2_free s" by (simp_all add: rm_fixed_def rs2_free_def)
    then show ?thesis by (simp only: 3 b) auto
  next
    case 4
    then have "rm_fixed s" "\<not> rs2_free s" by (simp_all add: rm_fixed_def rs2_free_def)
    then show ?thesis by (simp only: 4 b) auto
  next
    case 5
    then have "\<not> rm_fixed s" "rs2_free s" by (simp_all add: rm_fixed_def rs2_free_def)
    then show ?thesis by (simp only: 5 b) auto
  qed
qed

lemma fp_op_word:
  fixes rm :: u8
  assumes s: "s \<in> set FLOATING_SPECS" "spec_format s = Fmt_FloatingOp \<or> spec_format s = Fmt_FloatingFused"
    and r: "rd < 32" "rs1 < 32" "rs2 < 32" "rs3 < 32"
    and rm: "rm_fixed s \<longrightarrow> rm = ucast (drop_bit 12 (spec_match_bits s) AND 0x7)" "rm \<le> 7"
    and w: "w = spec_match_bits s OR push_bit 15 (ucast rs1) OR push_bit 7 (ucast rd)
       OR (if rm_fixed s then 0 else push_bit 12 (ucast rm))
       OR (if rs2_free s then push_bit 20 (ucast rs2) else 0)
       OR (if spec_format s = Fmt_FloatingFused then push_bit 27 (ucast rs3) else 0)"
  shows "w AND spec_mask s = spec_match_bits s" "reg_field 7 w = rd" "reg_field 15 w = rs1"
    "rs2_free s \<longrightarrow> reg_field 20 w = rs2" "spec_format s = Fmt_FloatingFused \<longrightarrow> reg_field 27 w = rs3"
    "ucast (drop_bit 12 w AND 0x7) = rm"
proof -
  note k = fp_op_mask_bits [OF s]
  have m: "bit (spec_match_bits s) n \<Longrightarrow> n < 7 \<or> (rm_fixed s \<and> 12 \<le> n \<and> n < 15) \<or> (\<not> rs2_free s \<and> 20 \<le> n \<and> n < 25)
    \<or> (25 \<le> n \<and> n < 27) \<or> (spec_format s \<noteq> Fmt_FloatingFused \<and> 27 \<le> n \<and> n < 32)" for n
    using row_okI(2) [OF s(1)] k [of n] by (simp add: row_ok_def)
  have rmb: "bit rm n \<Longrightarrow> n < 3" for n
    using unat_less_bits [of rm 3 n] rm(2) by (simp add: word_le_nat_alt)
  have m3: "bit (spec_match_bits s) n \<Longrightarrow> n < 32" for n using bit_imp_le_length [of _ n] by fastforce
  note ok = reg_bits [OF r(1)] reg_bits [OF r(2)] reg_bits [OF r(3)] reg_bits [OF r(4)] rmb m
  have z: "\<not> bit (0 :: u32) n" for n by simp
  note wb = word_bits if_distrib [of "\<lambda>x :: u32. bit x n" for n] z
  show "w AND spec_mask s = spec_match_bits s"
    unfolding matches_iff k w by (simp only: wb if_distribR split: if_split) (auto dest: ok)
  show "reg_field 7 w = rd"
    by (rule reg_field_eqI [OF r(1)]) (simp only: w wb, auto dest: ok split: if_splits)
  show "reg_field 15 w = rs1"
    by (rule reg_field_eqI [OF r(2)]) (simp only: w wb, auto dest: ok split: if_splits)
  show "rs2_free s \<longrightarrow> reg_field 20 w = rs2"
    by (intro impI, rule reg_field_eqI [OF r(3)]) (simp only: w wb, auto dest: ok split: if_splits)
  show "spec_format s = Fmt_FloatingFused \<longrightarrow> reg_field 27 w = rs3"
    by (intro impI, rule reg_field_eqI [OF r(4)]) (simp only: w wb, auto dest: ok split: if_splits)
  show "ucast (drop_bit 12 w AND 0x7) = rm"
  proof (rule bit_word_eqI)
    fix n :: nat assume "n < LENGTH(8)"
    have f: "rm_fixed s \<Longrightarrow> bit rm n = (n < 3 \<and> bit (spec_match_bits s) (12 + n))"
      using rm(1) by (auto simp only: word_bits) simp
    show "bit (ucast (drop_bit 12 w AND 0x7) :: u8) n = bit rm n"
      by (simp only: w wb) (auto dest: ok simp: f split: if_splits)
  qed
qed

lemma fp_op_rebuild:
  assumes s: "s \<in> set FLOATING_SPECS" "spec_format s = Fmt_FloatingOp \<or> spec_format s = Fmt_FloatingFused"
    and w: "w AND spec_mask s = spec_match_bits s"
  shows "spec_match_bits s OR push_bit 15 (ucast (reg_field 15 w)) OR push_bit 7 (ucast (reg_field 7 w))
       OR (if rm_fixed s then 0 else push_bit 12 (ucast (ucast (drop_bit 12 w AND 0x7) :: u8)))
       OR (if rs2_free s then push_bit 20 (ucast (reg_field 20 w)) else 0)
       OR (if spec_format s = Fmt_FloatingFused then push_bit 27 (ucast (reg_field 27 w)) else 0) = w"
  unfolding w [symmetric]
  by (rule u32_blast; simp add: bit_simps bit_reg_field fp_op_mask_bits [OF s])

end
