(* ===== verification/Isa_Codec.thy ===== *)
theory Isa_Codec
  imports Isa_Formats
begin

text \<open>
  Encoders and decoders of the instruction-set model are inverse to each other: an encoded
  instruction decodes to the same identity and operands, and a word that decodes is what the
  encoder makes of the decoded instruction. The decoder therefore accepts exactly the words the
  encoders produce, and each of them in one way only.
\<close>

subsection \<open>The decoder of the family that owns the opcode decides\<close>

lemma decode_none:
  "w AND 0x7F \<notin> set upper_opcodes \<Longrightarrow> decode_upper_immediate w = Inl (UnsupportedEncoding w)"
  "w AND 0x7F \<notin> set rr_opcodes \<Longrightarrow> decode_register_register w = Inl (UnsupportedEncoding w)"
  "w AND 0x7F \<notin> set base_opcodes \<Longrightarrow> decode_base_integer w = Inl (UnsupportedEncoding w)"
  "w AND 0x7F \<notin> set atomic_opcodes \<Longrightarrow> decode_atomic w = Inl (UnsupportedEncoding w)"
  "w AND 0x7F \<notin> set fp_opcodes \<Longrightarrow> decode_floating w = Inl (UnsupportedEncoding w)"
  unfolding decode_upper_immediate_def decode_register_register_def decode_base_integer_def
    decode_atomic_def decode_floating_def
  by (simp_all only: upper_table.no_match rr_table.no_match base_table.no_match
      atomic_table.no_match fp_table.no_match option.case not_False_eq_True)

lemma or_else_simps [simp]: "or_else (Inl e) r = r" "or_else (Inr a) r = Inr a"
  by (simp_all add: or_else_def)

lemma decode_family:
  "w AND 0x7F \<in> set upper_opcodes \<Longrightarrow> decode_upper_immediate w = Inr d \<Longrightarrow> decode_instruction w = Inr d"
  "w AND 0x7F \<in> set rr_opcodes \<Longrightarrow> decode_register_register w = Inr d \<Longrightarrow> decode_instruction w = Inr d"
  "w AND 0x7F \<in> set base_opcodes \<Longrightarrow> decode_base_integer w = Inr d \<Longrightarrow> decode_instruction w = Inr d"
  "w AND 0x7F \<in> set atomic_opcodes \<Longrightarrow> decode_atomic w = Inr d \<Longrightarrow> decode_instruction w = Inr d"
  "w AND 0x7F \<in> set fp_opcodes \<Longrightarrow> decode_floating w = Inr d \<Longrightarrow> decode_instruction w = Inr d"
proof -
  define opc where "opc = w AND 0x7F"
  note none = decode_none [of w, folded opc_def]
  have "opc \<in> set rr_opcodes \<Longrightarrow> opc \<notin> set upper_opcodes"
    "opc \<in> set base_opcodes \<Longrightarrow> opc \<notin> set upper_opcodes \<and> opc \<notin> set rr_opcodes"
    "opc \<in> set atomic_opcodes \<Longrightarrow> opc \<notin> set upper_opcodes \<and> opc \<notin> set rr_opcodes \<and> opc \<notin> set base_opcodes"
    "opc \<in> set fp_opcodes \<Longrightarrow> opc \<notin> set upper_opcodes \<and> opc \<notin> set rr_opcodes \<and> opc \<notin> set base_opcodes
       \<and> opc \<notin> set atomic_opcodes"
    by auto
  with none show
    "w AND 0x7F \<in> set upper_opcodes \<Longrightarrow> decode_upper_immediate w = Inr d \<Longrightarrow> decode_instruction w = Inr d"
    "w AND 0x7F \<in> set rr_opcodes \<Longrightarrow> decode_register_register w = Inr d \<Longrightarrow> decode_instruction w = Inr d"
    "w AND 0x7F \<in> set base_opcodes \<Longrightarrow> decode_base_integer w = Inr d \<Longrightarrow> decode_instruction w = Inr d"
    "w AND 0x7F \<in> set atomic_opcodes \<Longrightarrow> decode_atomic w = Inr d \<Longrightarrow> decode_instruction w = Inr d"
    "w AND 0x7F \<in> set fp_opcodes \<Longrightarrow> decode_floating w = Inr d \<Longrightarrow> decode_instruction w = Inr d"
    unfolding opc_def [symmetric] decode_instruction_def by (simp_all del: set_simps)
qed

lemma decode_instruction_cases:
  assumes "decode_instruction w = Inr d"
  obtains "decode_upper_immediate w = Inr d" | "decode_register_register w = Inr d"
    | "decode_base_integer w = Inr d" | "decode_atomic w = Inr d" | "decode_floating w = Inr d"
  using assms unfolding decode_instruction_def
  by (cases "decode_upper_immediate w"; cases "decode_register_register w"; cases "decode_base_integer w";
      cases "decode_atomic w"; cases "decode_floating w"; simp)

subsection \<open>Decoding, then encoding\<close>

text \<open>The encoder that takes the operands of a decoded instruction.\<close>

definition encode_decoded :: "decoded_instruction \<Rightarrow> encoding_error + u32" where
  "encode_decoded d =
     (case di_operands d of
        Ops_UpperImmediate rd imm \<Rightarrow> encode_upper_immediate (di_id d) rd imm
      | Ops_RegisterRegister rd rs1 rs2 \<Rightarrow> encode_register_register (di_id d) rd rs1 rs2
      | Ops_Atomic rd rs1 rs2 aq rl \<Rightarrow> encode_atomic (di_id d) rd rs1 rs2 aq rl
      | Ops_Floating rd rs1 rs2 rs3 rm imm \<Rightarrow> encode_floating (di_id d) rd rs1 rs2 rs3 rm imm
      | ops \<Rightarrow> encode_base_integer (di_id d) ops)"

lemma upper_decode_encode: "decode_upper_immediate w = Inr d \<Longrightarrow> encode_decoded d = Inr w"
  unfolding decode_upper_immediate_def
  by (auto split: option.splits dest!: upper_table.find_match_SomeD
      simp: encode_decoded_def encode_upper_immediate_def upper_table.find_id
        upper_rebuild [simplified])

lemma rr_decode_encode: "decode_register_register w = Inr d \<Longrightarrow> encode_decoded d = Inr w"
  unfolding decode_register_register_def
  by (auto split: option.splits dest!: rr_table.find_match_SomeD
      simp: encode_decoded_def encode_register_register_def rr_table.find_id rr_rebuild)

lemma validate_signed:
  "validate_immediate i (sign_extend v 12) (- 2048) 2047 = None"
  using sign_extend_range [of 12 v] by (simp add: validate_immediate_def)

lemma even_sintI: "\<not> bit (imm :: i32) 0 \<Longrightarrow> even (sint imm)"
  using bit_sint_iff [of imm 0] by (simp add: bit_0)

lemma branch_imm_ok:
  fixes w :: u32
  defines "imm \<equiv> sign_extend (push_bit 12 (drop_bit 31 w) OR push_bit 11 (drop_bit 7 w AND 1)
       OR push_bit 5 (drop_bit 25 w AND 0x3F) OR push_bit 1 (drop_bit 8 w AND 0xF)) 13"
  shows "imm AND 1 = 0" "validate_immediate i imm (- 4096) 4094 = None"
proof -
  have z: "\<not> bit imm 0" using branch_imm_bits [of imm w 0] by (simp add: imm_def)
  then show "imm AND 1 = 0" by (simp add: and_one_eq)
  have "- 4096 \<le> sint imm" "sint imm < 4096"
    using sign_extend_range [of 13] by (simp_all add: imm_def)
  moreover have "even (sint imm)" using even_sintI [OF z] .
  ultimately show "validate_immediate i imm (- 4096) 4094 = None"
    by (auto simp: validate_immediate_def elim!: evenE)
qed

lemma jump_imm_ok:
  fixes w :: u32
  defines "imm \<equiv> sign_extend (push_bit 20 (drop_bit 31 w) OR push_bit 12 (drop_bit 12 w AND 0xFF)
       OR push_bit 11 (drop_bit 20 w AND 1) OR push_bit 1 (drop_bit 21 w AND 0x3FF)) 21"
  shows "imm AND 1 = 0" "validate_immediate i imm (- 1048576) 1048574 = None"
proof -
  have z: "\<not> bit imm 0" using jump_imm_bits [of imm w 0] by (simp add: imm_def)
  then show "imm AND 1 = 0" by (simp add: and_one_eq)
  have "- 1048576 \<le> sint imm" "sint imm < 1048576"
    using sign_extend_range [of 21] by (simp_all add: imm_def)
  moreover have "even (sint imm)" using even_sintI [OF z] .
  ultimately show "validate_immediate i imm (- 1048576) 1048574 = None"
    by (auto simp: validate_immediate_def elim!: evenE)
qed

lemma shift_imm_ok:
  "validate_immediate i (drop_bit 20 w AND 0x3F) 0 63 = None"
  "validate_immediate i (drop_bit 20 w AND 0x1F) 0 31 = None"
proof -
  have "bit (drop_bit 20 w AND 0x3F) n \<Longrightarrow> n < 6" "bit (drop_bit 20 w AND 0x1F) n \<Longrightarrow> n < 5" for n
    by (simp_all only: bit_and_iff literal_bits)
  from bits_sint_nonneg [of "drop_bit 20 w AND 0x3F" 6, OF this(1)]
    bits_sint_nonneg [of "drop_bit 20 w AND 0x1F" 5, OF this(2)]
  show "validate_immediate i (drop_bit 20 w AND 0x3F) 0 63 = None"
    "validate_immediate i (drop_bit 20 w AND 0x1F) 0 31 = None"
    by (simp_all add: validate_immediate_def)
qed

lemma unat_less_of_bits:
  fixes r :: "'a::len word"
  assumes "\<And>n. bit r n \<Longrightarrow> n < k"
  shows "unat r < 2 ^ k"
proof -
  have "take_bit k r = r" by (rule bit_word_eqI) (auto simp: bit_take_bit_iff dest: assms)
  then have "take_bit k (unat r) = unat r" by (metis unsigned_take_bit_eq)
  then show ?thesis by (metis take_bit_nat_less_exp)
qed

lemma low_fields_ok:
  "\<not> (15 :: u8) < ucast (drop_bit k (w :: u32) AND 0xF)"
  "\<not> (0xFFF :: u16) < ucast (drop_bit k (w :: u32) AND 0xFFF)"
  "\<not> 31 < reg_field k w"
proof -
  have "unat (ucast (drop_bit k w AND 0xF) :: u8) < 2 ^ 4"
    by (rule unat_less_of_bits) (simp only: word_bits)
  moreover have "unat (ucast (drop_bit k w AND 0xFFF) :: u16) < 2 ^ 12"
    by (rule unat_less_of_bits) (simp only: word_bits)
  ultimately show "\<not> (15 :: u8) < ucast (drop_bit k w AND 0xF)"
    "\<not> (0xFFF :: u16) < ucast (drop_bit k w AND 0xFFF)"
    by (simp_all add: word_less_nat_alt)
  show "\<not> 31 < reg_field k w"
    using reg_field_less [of k w] by (simp add: word_less_nat_alt)
qed

lemma full_mask: "(w :: u32) AND 0xFFFFFFFF = w"
  by (rule u32_eqI) (simp only: word_bits, simp)

text \<open>Each format: the operands read from a matching word encode to the word.\<close>

lemma encode_fields:
  assumes s: "s \<in> set BASE_INTEGER_SPECS" and w: "w AND spec_mask s = spec_match_bits s"
  shows
    "spec_format s \<in> set [Fmt_Immediate, Fmt_ImmediateWord, Fmt_Load, Fmt_JumpRegister] \<Longrightarrow>
       encode_base_integer (spec_id s) (Ops_Immediate (IntReg (reg_field 7 w)) (IntReg (reg_field 15 w))
         (sign_extend (drop_bit 20 w) 12)) = Inr w"
    "spec_format s = Fmt_ShiftImmediate \<Longrightarrow>
       encode_base_integer (spec_id s) (Ops_Immediate (IntReg (reg_field 7 w)) (IntReg (reg_field 15 w))
         (drop_bit 20 w AND 0x3F)) = Inr w"
    "spec_format s = Fmt_ShiftImmediateWord \<Longrightarrow>
       encode_base_integer (spec_id s) (Ops_Immediate (IntReg (reg_field 7 w)) (IntReg (reg_field 15 w))
         (drop_bit 20 w AND 0x1F)) = Inr w"
    "spec_format s = Fmt_Store \<Longrightarrow>
       encode_base_integer (spec_id s) (Ops_Store (IntReg (reg_field 15 w)) (IntReg (reg_field 20 w))
         (sign_extend (push_bit 5 (drop_bit 25 w) OR (drop_bit 7 w AND 0x1F)) 12)) = Inr w"
    "spec_format s = Fmt_Branch \<Longrightarrow>
       encode_base_integer (spec_id s) (Ops_Branch (IntReg (reg_field 15 w)) (IntReg (reg_field 20 w))
         (sign_extend (push_bit 12 (drop_bit 31 w) OR push_bit 11 (drop_bit 7 w AND 1)
            OR push_bit 5 (drop_bit 25 w AND 0x3F) OR push_bit 1 (drop_bit 8 w AND 0xF)) 13)) = Inr w"
    "spec_format s = Fmt_Jump \<Longrightarrow>
       encode_base_integer (spec_id s) (Ops_Jump (IntReg (reg_field 7 w))
         (sign_extend (push_bit 20 (drop_bit 31 w) OR push_bit 12 (drop_bit 12 w AND 0xFF)
            OR push_bit 11 (drop_bit 20 w AND 1) OR push_bit 1 (drop_bit 21 w AND 0x3FF)) 21)) = Inr w"
    "spec_format s = Fmt_Fence \<Longrightarrow>
       encode_base_integer (spec_id s) (Ops_Fence (ucast (drop_bit 28 w AND 0xF))
         (ucast (drop_bit 24 w AND 0xF)) (ucast (drop_bit 20 w AND 0xF))) = Inr w"
    "spec_format s \<in> set [Fmt_CsrRegister, Fmt_CsrImmediate] \<Longrightarrow>
       encode_base_integer (spec_id s) (Ops_Csr (IntReg (reg_field 7 w)) (reg_field 15 w)
         (ucast (drop_bit 20 w AND 0xFFF))) = Inr w"
    "spec_format s \<in> set [Fmt_FenceI, Fmt_System] \<Longrightarrow> encode_base_integer (spec_id s) Ops_None = Inr w"
proof -
  have k: "base_mask (spec_format s) = Some (spec_mask s)" by (rule base_masks [OF s])
  have i: "encode_base_integer (spec_id s) (Ops_Immediate rd rs1 imm) =
      (if spec_format s \<in> set [Fmt_Immediate, Fmt_ImmediateWord, Fmt_Load, Fmt_JumpRegister]
       then or_error (validate_immediate (spec_id s) imm (- 2048) 2047)
         (Inr (spec_match_bits s OR push_bit 20 (imm AND 0xFFF)
           OR push_bit 15 (ucast (reg_number rs1)) OR push_bit 7 (ucast (reg_number rd))))
       else if spec_format s \<in> set [Fmt_ShiftImmediate, Fmt_ShiftImmediateWord]
       then or_error (validate_immediate (spec_id s) imm 0 (if spec_format s = Fmt_ShiftImmediate then 63 else 31))
         (Inr (spec_match_bits s OR push_bit 20 imm
           OR push_bit 15 (ucast (reg_number rs1)) OR push_bit 7 (ucast (reg_number rd))))
       else Inl (UnsupportedInstruction (spec_id s)))" for rd rs1 imm
    by (simp add: encode_base_integer_def base_table.find_id [OF s])
  note e = or_error_def validate_signed shift_imm_ok base_mask_def
  show "encode_base_integer (spec_id s) (Ops_Immediate (IntReg (reg_field 7 w)) (IntReg (reg_field 15 w))
         (sign_extend (drop_bit 20 w) 12)) = Inr w"
    if "spec_format s \<in> set [Fmt_Immediate, Fmt_ImmediateWord, Fmt_Load, Fmt_JumpRegister]"
    unfolding i using that k imm_rebuild [OF _ w] by (auto simp: e)
  show "encode_base_integer (spec_id s) (Ops_Immediate (IntReg (reg_field 7 w)) (IntReg (reg_field 15 w))
         (drop_bit 20 w AND 0x3F)) = Inr w" if "spec_format s = Fmt_ShiftImmediate"
    unfolding i using that k shift_rebuild [OF _ w, of 6] by (simp add: e mask_eq_exp_minus_1)
  show "encode_base_integer (spec_id s) (Ops_Immediate (IntReg (reg_field 7 w)) (IntReg (reg_field 15 w))
         (drop_bit 20 w AND 0x1F)) = Inr w" if "spec_format s = Fmt_ShiftImmediateWord"
    unfolding i using that k shift_rebuild [OF _ w, of 5] by (simp add: e mask_eq_exp_minus_1)
  note e = e encode_base_integer_def base_table.find_id [OF s] branch_imm_ok jump_imm_ok low_fields_ok Let_def
  show "encode_base_integer (spec_id s) (Ops_Store (IntReg (reg_field 15 w)) (IntReg (reg_field 20 w))
         (sign_extend (push_bit 5 (drop_bit 25 w) OR (drop_bit 7 w AND 0x1F)) 12)) = Inr w"
    if "spec_format s = Fmt_Store"
    using that k store_rebuild [OF _ w refl] by (simp add: e)
  show "encode_base_integer (spec_id s) (Ops_Branch (IntReg (reg_field 15 w)) (IntReg (reg_field 20 w))
         (sign_extend (push_bit 12 (drop_bit 31 w) OR push_bit 11 (drop_bit 7 w AND 1)
            OR push_bit 5 (drop_bit 25 w AND 0x3F) OR push_bit 1 (drop_bit 8 w AND 0xF)) 13)) = Inr w"
    if "spec_format s = Fmt_Branch"
    using that k branch_rebuild [OF _ w refl] branch_imm_ok [where w = w] by (simp add: e)
  show "encode_base_integer (spec_id s) (Ops_Jump (IntReg (reg_field 7 w))
         (sign_extend (push_bit 20 (drop_bit 31 w) OR push_bit 12 (drop_bit 12 w AND 0xFF)
            OR push_bit 11 (drop_bit 20 w AND 1) OR push_bit 1 (drop_bit 21 w AND 0x3FF)) 21)) = Inr w"
    if "spec_format s = Fmt_Jump"
    using that k jump_rebuild [OF _ w refl] jump_imm_ok [where w = w] by (simp add: e)
  show "encode_base_integer (spec_id s) (Ops_Fence (ucast (drop_bit 28 w AND 0xF))
         (ucast (drop_bit 24 w AND 0xF)) (ucast (drop_bit 20 w AND 0xF))) = Inr w"
    if "spec_format s = Fmt_Fence"
    using that k fence_rebuild [OF _ w] by (simp add: e)
  show "encode_base_integer (spec_id s) (Ops_Csr (IntReg (reg_field 7 w)) (reg_field 15 w)
         (ucast (drop_bit 20 w AND 0xFFF))) = Inr w"
    if "spec_format s \<in> set [Fmt_CsrRegister, Fmt_CsrImmediate]"
    using that k csr_rebuild [OF _ w] by (auto simp: e)
  show "encode_base_integer (spec_id s) Ops_None = Inr w"
    if "spec_format s \<in> set [Fmt_FenceI, Fmt_System]"
    using that k w full_mask [of w] by (auto simp: e)
qed

lemma base_decode_encode:
  assumes "decode_base_integer w = Inr d"
  shows "encode_decoded d = Inr w"
proof -
  from assms obtain s ops where s: "s \<in> set BASE_INTEGER_SPECS" and w: "w AND spec_mask s = spec_match_bits s"
    and ops: "base_integer_operands (spec_format s) w = Some ops"
    and d: "d = \<lparr>di_id = spec_id s, di_operands = ops\<rparr>"
    unfolding decode_base_integer_def
    by (auto split: option.splits dest!: base_table.find_match_SomeD)
  show ?thesis
    using ops encode_fields [OF s w] unfolding d encode_decoded_def base_integer_operands_def Let_def
    by (elim if_eqE; simp; fail)
qed

lemma atomic_decode_encode:
  assumes "decode_atomic w = Inr d"
  shows "encode_decoded d = Inr w"
proof -
  from assms obtain s where s: "s \<in> set ATOMIC_SPECS" and w: "w AND spec_mask s = spec_match_bits s"
    and d: "d = \<lparr>di_id = spec_id s, di_operands = Ops_Atomic (IntReg (reg_field 7 w))
      (IntReg (reg_field 15 w)) (IntReg (reg_field 20 w)) (bit w 26) (bit w 25)\<rparr>"
    unfolding decode_atomic_def
    by (auto split: option.splits dest!: atomic_table.find_match_SomeD simp: and_push_one_eq_0 simp del: push_bit_of_1)
  have "reg_field 20 w = 0" if "spec_id s \<in> set [Atomic LrW, Atomic LrD]"
  proof (rule bit_word_eqI)
    fix n :: nat
    have "bit w (20 + n) \<Longrightarrow> n < 5 \<Longrightarrow> bit (spec_match_bits s) (20 + n)"
      unfolding w [symmetric] using that atomic_masks [OF s]
      by (simp only: if_True bit_and_iff atomic_mask_bits) simp
    then show "bit (reg_field 20 w) n = bit 0 n"
      using atomic_match_rs2 [OF s that, of n] by (auto simp: bit_reg_field)
  qed
  then show ?thesis
    using atomic_rebuild [OF s w]
    by (auto simp: d encode_decoded_def encode_atomic_def atomic_table.find_id [OF s])
qed

lemma floating_decode_encode:
  assumes "decode_floating w = Inr d"
  shows "encode_decoded d = Inr w"
proof -
  define rm where "rm = (ucast (drop_bit 12 w AND 0x7) :: u8)"
  define imm where "imm f = (if f = Fmt_FloatingLoad then sign_extend (drop_bit 20 w) 12
      else if f = Fmt_FloatingStore then sign_extend (push_bit 5 (drop_bit 25 w) OR (drop_bit 7 w AND 0x1F)) 12
      else 0)" for f
  from assms obtain s where s: "s \<in> set FLOATING_SPECS" and w: "w AND spec_mask s = spec_match_bits s"
    and rm: "rm_fixed s \<or> valid_rounding_mode rm"
    and d: "d = \<lparr>di_id = spec_id s, di_operands = Ops_Floating (reg_field 7 w) (reg_field 15 w)
      (reg_field 20 w) (reg_field 27 w) rm (imm (spec_format s))\<rparr>"
    unfolding decode_floating_def Let_def rm_def [symmetric] imm_def [symmetric] rm_fixed_def
    by (auto split: option.splits if_splits dest!: fp_table.find_match_SomeD)
  have e: "encode_decoded d = encode_floating (spec_id s) (reg_field 7 w) (reg_field 15 w)
      (reg_field 20 w) (reg_field 27 w) rm (imm (spec_format s))"
    by (simp add: d encode_decoded_def)
  have f: "encode_decoded d =
      (if spec_format s = Fmt_FloatingLoad then Inr (spec_match_bits s OR push_bit 20 (imm (spec_format s) AND 0xFFF)
          OR push_bit 15 (ucast (reg_field 15 w)) OR push_bit 7 (ucast (reg_field 7 w)))
       else if spec_format s = Fmt_FloatingStore then Inr (spec_match_bits s OR push_bit 25 (drop_bit 5 (imm (spec_format s) AND 0xFFF))
          OR push_bit 20 (ucast (reg_field 20 w)) OR push_bit 15 (ucast (reg_field 15 w))
          OR push_bit 7 ((imm (spec_format s) AND 0xFFF) AND 0x1F))
       else if rm_fixed s \<and> rm \<noteq> ucast (drop_bit 12 (spec_match_bits s) AND 0x7) then Inl (FieldOutOfRange (spec_id s)
          ''rounding_mode'' (ucast rm) (ucast (ucast (drop_bit 12 (spec_match_bits s) AND 0x7) :: u8)))
       else Inr (spec_match_bits s OR push_bit 15 (ucast (reg_field 15 w)) OR push_bit 7 (ucast (reg_field 7 w))
         OR (if rm_fixed s then 0 else push_bit 12 (ucast rm))
         OR (if rs2_free s then push_bit 20 (ucast (reg_field 20 w)) else 0)
         OR (if spec_format s = Fmt_FloatingFused then push_bit 27 (ucast (reg_field 27 w)) else 0)))"
    using fp_formats [OF s] rm unfolding e encode_floating_def fp_table.find_id [OF s] rm_fixed_def rs2_free_def
    by (auto simp: low_fields_ok imm_def validate_signed or_error_def Let_def)
  have fixed: "rm = ucast (drop_bit 12 (spec_match_bits s) AND 0x7)"
    if "rm_fixed s" "spec_format s = Fmt_FloatingOp \<or> spec_format s = Fmt_FloatingFused"
    unfolding rm_def w [symmetric]
    by (rule bit_word_eqI) (use that in \<open>auto simp: bit_simps fp_op_mask_bits [OF s that(2)] bitfield\<close>)
  consider "spec_format s = Fmt_FloatingLoad" | "spec_format s = Fmt_FloatingStore"
    | "spec_format s = Fmt_FloatingOp \<or> spec_format s = Fmt_FloatingFused"
    using fp_formats [OF s] by auto
  then show ?thesis
  proof cases
    case 1
    then have "spec_mask s = 0x707F" using fp_masks_of [OF s] by (simp add: fp_masks_def)
    from imm_rebuild [OF this w] 1 show ?thesis unfolding f imm_def by simp
  next
    case 2
    then have "spec_mask s = 0x707F" using fp_masks_of [OF s] by (simp add: fp_masks_def)
    from store_rebuild [OF this w refl] 2 show ?thesis unfolding f imm_def by simp
  next
    case 3
    with fixed have "\<not> (rm_fixed s \<and> rm \<noteq> ucast (drop_bit 12 (spec_match_bits s) AND 0x7))" by blast
    with 3 fp_op_rebuild [OF s 3 w] show ?thesis unfolding f rm_def [symmetric] by auto
  qed
qed

subsection \<open>Encoding, then decoding\<close>

lemma decode_matching:
  "s \<in> set UPPER_IMMEDIATE_SPECS \<Longrightarrow> w AND spec_mask s = spec_match_bits s \<Longrightarrow>
     decode_instruction w = Inr \<lparr>di_id = spec_id s,
       di_operands = Ops_UpperImmediate (IntReg (reg_field 7 w)) (w AND 0xFFFFF000)\<rparr>"
  "s \<in> set REGISTER_REGISTER_SPECS \<Longrightarrow> w AND spec_mask s = spec_match_bits s \<Longrightarrow>
     decode_instruction w = Inr \<lparr>di_id = spec_id s, di_operands = Ops_RegisterRegister
       (IntReg (reg_field 7 w)) (IntReg (reg_field 15 w)) (IntReg (reg_field 20 w))\<rparr>"
  "s \<in> set BASE_INTEGER_SPECS \<Longrightarrow> w AND spec_mask s = spec_match_bits s \<Longrightarrow>
     base_integer_operands (spec_format s) w = Some ops \<Longrightarrow>
     decode_instruction w = Inr \<lparr>di_id = spec_id s, di_operands = ops\<rparr>"
  "s \<in> set ATOMIC_SPECS \<Longrightarrow> w AND spec_mask s = spec_match_bits s \<Longrightarrow>
     decode_instruction w = Inr \<lparr>di_id = spec_id s, di_operands = Ops_Atomic (IntReg (reg_field 7 w))
       (IntReg (reg_field 15 w)) (IntReg (reg_field 20 w)) (bit w 26) (bit w 25)\<rparr>"
proof -
  show "decode_instruction w = Inr \<lparr>di_id = spec_id s,
      di_operands = Ops_UpperImmediate (IntReg (reg_field 7 w)) (w AND 0xFFFFF000)\<rparr>"
    if "s \<in> set UPPER_IMMEDIATE_SPECS" "w AND spec_mask s = spec_match_bits s"
    using decode_family(1) [OF upper_table.opcode_of_match [OF that]] upper_table.find_match [OF that]
    by (simp add: decode_upper_immediate_def)
  show "decode_instruction w = Inr \<lparr>di_id = spec_id s, di_operands = Ops_RegisterRegister
      (IntReg (reg_field 7 w)) (IntReg (reg_field 15 w)) (IntReg (reg_field 20 w))\<rparr>"
    if "s \<in> set REGISTER_REGISTER_SPECS" "w AND spec_mask s = spec_match_bits s"
    using decode_family(2) [OF rr_table.opcode_of_match [OF that]] rr_table.find_match [OF that]
    by (simp add: decode_register_register_def)
  show "decode_instruction w = Inr \<lparr>di_id = spec_id s, di_operands = ops\<rparr>"
    if "s \<in> set BASE_INTEGER_SPECS" "w AND spec_mask s = spec_match_bits s"
      "base_integer_operands (spec_format s) w = Some ops"
    using decode_family(3) [OF base_table.opcode_of_match [OF that(1,2)]]
      base_table.find_match [OF that(1,2)] that(3)
    by (simp add: decode_base_integer_def)
  show "decode_instruction w = Inr \<lparr>di_id = spec_id s, di_operands = Ops_Atomic (IntReg (reg_field 7 w))
      (IntReg (reg_field 15 w)) (IntReg (reg_field 20 w)) (bit w 26) (bit w 25)\<rparr>"
    if "s \<in> set ATOMIC_SPECS" "w AND spec_mask s = spec_match_bits s"
    using decode_family(4) [OF atomic_table.opcode_of_match [OF that]] atomic_table.find_match [OF that]
    by (simp add: decode_atomic_def and_push_one_eq_0 del: push_bit_of_1)
qed

lemma upper_encode_decode:
  assumes "encode_upper_immediate i rd imm = Inr w" "reg_ok rd"
  shows "decode_instruction w = Inr \<lparr>di_id = i, di_operands = Ops_UpperImmediate rd (imm AND 0xFFFFF000)\<rparr>"
proof -
  from assms(1) obtain s where s: "s \<in> set UPPER_IMMEDIATE_SPECS" "spec_id s = i"
    and w: "w = (imm AND 0xFFFFF000) OR push_bit 7 (ucast (reg_number rd)) OR spec_match_bits s"
    by (auto simp: encode_upper_immediate_def split: option.splits dest: upper_table.find_id_SomeD)
  note f = upper_word [OF s(1) assms(2) w]
  show ?thesis using decode_matching(1) [OF s(1) f(1)] unfolding f(2,3) s(2) .
qed

lemma rr_encode_decode:
  assumes "encode_register_register i rd rs1 rs2 = Inr w" "reg_ok rd" "reg_ok rs1" "reg_ok rs2"
  shows "decode_instruction w = Inr \<lparr>di_id = i, di_operands = Ops_RegisterRegister rd rs1 rs2\<rparr>"
proof -
  from assms(1) obtain s where s: "s \<in> set REGISTER_REGISTER_SPECS" "spec_id s = i"
    and w: "w = spec_match_bits s OR push_bit 20 (ucast (reg_number rs2))
               OR push_bit 15 (ucast (reg_number rs1)) OR push_bit 7 (ucast (reg_number rd))"
    by (auto simp: encode_register_register_def split: option.splits dest: rr_table.find_id_SomeD)
  note f = rr_word [OF s(1) assms(2-4) w]
  show ?thesis using decode_matching(2) [OF s(1) f(1)] unfolding f(2-4) s(2) .
qed

lemma atomic_encode_decode:
  assumes "encode_atomic i rd rs1 rs2 aq rl = Inr w" "reg_ok rd" "reg_ok rs1" "reg_ok rs2"
  shows "decode_instruction w = Inr \<lparr>di_id = i, di_operands = Ops_Atomic rd rs1 rs2 aq rl\<rparr>"
proof -
  from assms(1) obtain s where s: "s \<in> set ATOMIC_SPECS" "spec_id s = i"
    and lr: "spec_id s \<in> set [Atomic LrW, Atomic LrD] \<longrightarrow> reg_number rs2 = 0"
    and w: "w = spec_match_bits s OR push_bit 26 (of_bool aq) OR push_bit 25 (of_bool rl)
      OR push_bit 20 (ucast (reg_number rs2)) OR push_bit 15 (ucast (reg_number rs1))
      OR push_bit 7 (ucast (reg_number rd))"
    by (auto simp: encode_atomic_def split: option.splits if_splits dest!: atomic_table.find_id_SomeD)
  note f = atomic_word [OF s(1) assms(2-4) lr w]
  show ?thesis using decode_matching(4) [OF s(1) f(1)] unfolding f(2-6) s(2) .
qed

text \<open>Registers come from \<open>IntReg::new\<close>, which admits numbers below 32 only.\<close>

fun operands_ok :: "decoded_operands \<Rightarrow> bool" where
  "operands_ok (Ops_UpperImmediate rd imm) = reg_ok rd"
| "operands_ok (Ops_RegisterRegister rd rs1 rs2) = (reg_ok rd \<and> reg_ok rs1 \<and> reg_ok rs2)"
| "operands_ok (Ops_Immediate rd rs1 imm) = (reg_ok rd \<and> reg_ok rs1)"
| "operands_ok (Ops_Store rs1 rs2 imm) = (reg_ok rs1 \<and> reg_ok rs2)"
| "operands_ok (Ops_Branch rs1 rs2 offset) = (reg_ok rs1 \<and> reg_ok rs2)"
| "operands_ok (Ops_Jump rd offset) = reg_ok rd"
| "operands_ok (Ops_Csr rd source csr) = reg_ok rd"
| "operands_ok (Ops_Atomic rd rs1 rs2 aq rl) = (reg_ok rd \<and> reg_ok rs1 \<and> reg_ok rs2)"
| "operands_ok _ = True"

lemma validate_None: "validate_immediate i v lo hi = None \<longleftrightarrow> sint lo \<le> sint v \<and> sint v \<le> sint hi"
  by (simp add: validate_immediate_def)

lemma or_error_Inr: "or_error c r = Inr w \<longleftrightarrow> c = None \<and> r = Inr w"
  by (simp add: or_error_def split: option.splits)

lemma imm_encode_decode:
  assumes "encode_base_integer i (Ops_Immediate rd rs1 imm) = Inr w" "reg_ok rd" "reg_ok rs1"
  shows "decode_instruction w = Inr \<lparr>di_id = i, di_operands = Ops_Immediate rd rs1 imm\<rparr>"
proof -
  from assms(1) obtain s where "find (\<lambda>s. spec_id s = i) BASE_INTEGER_SPECS = Some s"
    by (auto simp: encode_base_integer_def split: option.splits)
  then have s: "s \<in> set BASE_INTEGER_SPECS" "spec_id s = i" by (auto dest: base_table.find_id_SomeD)
  note e = assms(1) [folded s(2), unfolded encode_base_integer_def base_table.find_id [OF s(1)]
    option.case decoded_operands.case]
  have k: "base_mask (spec_format s) = Some (spec_mask s)" by (rule base_masks [OF s(1)])
  show ?thesis
  proof (cases "spec_format s \<in> set [Fmt_Immediate, Fmt_ImmediateWord, Fmt_Load, Fmt_JumpRegister]")
    case True
    with k have m: "spec_mask s = 0x707F" by (auto simp: base_mask_def)
    from e True have w: "w = spec_match_bits s OR push_bit 20 (imm AND 0xFFF)
        OR push_bit 15 (ucast (reg_number rs1)) OR push_bit 7 (ucast (reg_number rd))"
      and r: "- 2048 \<le> sint imm" "sint imm \<le> 2047"
      by (auto simp: or_error_Inr validate_None)
    note f = imm_word [OF row_okI(1) [OF s(1)] m assms(2,3) r w]
    have "base_integer_operands (spec_format s) w = Some (Ops_Immediate rd rs1 imm)"
      using True unfolding base_integer_operands_def Let_def f(2-4) by simp
    with decode_matching(3) [OF s(1) f(1)] s(2) show ?thesis by simp
  next
    case False
    with e obtain hi where h: "spec_format s = Fmt_ShiftImmediate \<and> hi = 6
        \<or> spec_format s = Fmt_ShiftImmediateWord \<and> hi = (5 :: nat)"
      by (auto split: if_splits)
    with k have m: "spec_mask s = 0xFC00707F \<and> hi = 6 \<or> spec_mask s = 0xFE00707F \<and> hi = 5"
      by (auto simp: base_mask_def)
    from e h have w: "w = spec_match_bits s OR push_bit 20 imm
        OR push_bit 15 (ucast (reg_number rs1)) OR push_bit 7 (ucast (reg_number rd))"
      and r: "0 \<le> sint imm" "sint imm < 2 ^ hi"
      by (auto simp: or_error_Inr validate_None)
    note f = shift_word [OF s(1) m assms(2,3) r w]
    have "base_integer_operands (spec_format s) w = Some (Ops_Immediate rd rs1 imm)"
      using h f(4) unfolding base_integer_operands_def Let_def f(2,3)
      by (auto simp: mask_eq_exp_minus_1)
    with decode_matching(3) [OF s(1) f(1)] s(2) show ?thesis by simp
  qed
qed

lemma base_encode_decode:
  assumes "encode_base_integer i ops = Inr w" "operands_ok ops"
  shows "decode_instruction w = Inr \<lparr>di_id = i, di_operands = ops\<rparr>"
proof -
  from assms(1) obtain s where "find (\<lambda>s. spec_id s = i) BASE_INTEGER_SPECS = Some s"
    by (auto simp: encode_base_integer_def split: option.splits)
  then have s: "s \<in> set BASE_INTEGER_SPECS" "spec_id s = i" by (auto dest: base_table.find_id_SomeD)
  note e = assms(1) [folded s(2), unfolded encode_base_integer_def base_table.find_id [OF s(1)] option.case]
  have k: "base_mask (spec_format s) = Some (spec_mask s)" by (rule base_masks [OF s(1)])
  note row = row_okI(1) [OF s(1)]
  have "w AND spec_mask s = spec_match_bits s \<and> base_integer_operands (spec_format s) w = Some ops"
    if "\<And>rd rs1 imm. ops \<noteq> Ops_Immediate rd rs1 imm"
  proof (cases ops)
    case (Ops_Store rs1 rs2 imm)
    with e assms(2) k have m: "spec_mask s = 0x707F" "spec_format s = Fmt_Store" "reg_ok rs2" "reg_ok rs1"
      and r: "- 2048 \<le> sint imm" "sint imm \<le> 2047"
      and w: "w = spec_match_bits s OR push_bit 25 (drop_bit 5 (imm AND 0xFFF))
              OR push_bit 20 (ucast (reg_number rs2)) OR push_bit 15 (ucast (reg_number rs1))
              OR push_bit 7 ((imm AND 0xFFF) AND 0x1F)"
      by (auto simp: or_error_Inr validate_None base_mask_def Let_def split: if_splits)
    note f = store_word [OF row m(1,3,4) r w]
    with m(2) show ?thesis unfolding Ops_Store base_integer_operands_def Let_def f(2-4) by simp
  next
    case (Ops_Branch rs1 rs2 imm)
    with e assms(2) k have m: "spec_mask s = 0x707F" "spec_format s = Fmt_Branch" "reg_ok rs2" "reg_ok rs1"
      and r: "- 4096 \<le> sint imm" "sint imm \<le> 4094" "imm AND 1 = 0"
      and w: "w = spec_match_bits s OR push_bit 19 (imm AND 0x1000)
              OR push_bit 20 (imm AND 0x07E0) OR push_bit 20 (ucast (reg_number rs2))
              OR push_bit 15 (ucast (reg_number rs1)) OR push_bit 7 (imm AND 0x001E)
              OR drop_bit 4 (imm AND 0x0800)"
      by (auto simp: or_error_Inr validate_None base_mask_def Let_def split: if_splits)
    note f = branch_word [OF row m(1,3,4) r w]
    with m(2) show ?thesis unfolding Ops_Branch base_integer_operands_def Let_def f(2-4) by simp
  next
    case (Ops_Jump rd imm)
    with e assms(2) k have m: "spec_mask s = 0x7F" "spec_format s = Fmt_Jump" "reg_ok rd"
      and r: "- 1048576 \<le> sint imm" "sint imm \<le> 1048574" "imm AND 1 = 0"
      and w: "w = spec_match_bits s OR push_bit 11 (imm AND 0x100000)
              OR push_bit 20 (imm AND 0x7FE) OR push_bit 9 (imm AND 0x800)
              OR (imm AND 0xFF000) OR push_bit 7 (ucast (reg_number rd))"
      by (auto simp: or_error_Inr validate_None base_mask_def Let_def split: if_splits)
    note f = jump_word [OF s(1) m(1,3) r w]
    with m(2) show ?thesis unfolding Ops_Jump base_integer_operands_def Let_def f(2,3) by simp
  next
    case (Ops_Fence fm pr su)
    with e k have m: "spec_mask s = 0xFFFFF" "spec_format s = Fmt_Fence"
      and r: "fm \<le> 15" "pr \<le> 15" "su \<le> 15"
      and w: "w = spec_match_bits s OR push_bit 28 (ucast fm) OR push_bit 24 (ucast pr) OR push_bit 20 (ucast su)"
      by (auto simp: base_mask_def not_less split: if_splits)
    note f = fence_word [OF s(1) m(1) r w]
    with m(2) show ?thesis unfolding Ops_Fence base_integer_operands_def Let_def f(2-4) by simp
  next
    case (Ops_Csr rd source csr)
    with e assms(2) k have m: "spec_mask s = 0x707F" "spec_format s \<in> set [Fmt_CsrRegister, Fmt_CsrImmediate]" "reg_ok rd"
      and r: "source < 32" "csr \<le> 0xFFF"
      and w: "w = spec_match_bits s OR push_bit 20 (ucast csr) OR push_bit 15 (ucast source)
              OR push_bit 7 (ucast (reg_number rd))"
      by (auto simp: base_mask_def not_less word_le_nat_alt word_less_nat_alt split: if_splits)
    note f = csr_word [OF row m(1,3) r w]
    with m(2) show ?thesis unfolding Ops_Csr base_integer_operands_def Let_def f(2-4) by auto
  next
    case Ops_None
    with e k have m: "spec_mask s = 0xFFFFFFFF" "spec_format s \<in> set [Fmt_FenceI, Fmt_System]"
      and w: "w = spec_match_bits s"
      by (auto simp: base_mask_def split: if_splits)
    then show ?thesis unfolding Ops_None base_integer_operands_def Let_def m(1) full_mask by auto
  qed (use e that in auto)
  with imm_encode_decode [of i _ _ _ w] assms decode_matching(3) [OF s(1)] s(2) show ?thesis
    by (cases ops) auto
qed

text \<open>The operands an encoding keeps: an upper immediate loses its low twelve bits, and a
  floating-point instruction has only the fields of its format.\<close>

definition canonical_floating ::
  "instruction_spec \<Rightarrow> u8 \<Rightarrow> u8 \<Rightarrow> u8 \<Rightarrow> u8 \<Rightarrow> u8 \<Rightarrow> i32 \<Rightarrow> decoded_operands" where
  "canonical_floating s rd rs1 rs2 rs3 rm imm =
     (if spec_format s = Fmt_FloatingLoad then Ops_Floating rd rs1 0 0 0 imm
      else if spec_format s = Fmt_FloatingStore then Ops_Floating 0 rs1 rs2 0 0 imm
      else Ops_Floating rd rs1 (if rs2_free s then rs2 else 0)
        (if spec_format s = Fmt_FloatingFused then rs3 else 0) rm 0)"

definition canonical_operands :: "decoded_instruction \<Rightarrow> decoded_operands" where
  "canonical_operands d =
     (case di_operands d of
        Ops_UpperImmediate rd imm \<Rightarrow> Ops_UpperImmediate rd (imm AND 0xFFFFF000)
      | Ops_Floating rd rs1 rs2 rs3 rm imm \<Rightarrow>
          (case find (\<lambda>spec. spec_id spec = di_id d) FLOATING_SPECS of
             None \<Rightarrow> di_operands d
           | Some s \<Rightarrow> canonical_floating s rd rs1 rs2 rs3 rm imm)
      | ops \<Rightarrow> ops)"

lemma small_rm:
  "valid_rounding_mode rm \<Longrightarrow> rm \<le> 7" "(ucast (drop_bit k (w :: u32) AND 0x7) :: u8) \<le> 7"
proof -
  show "valid_rounding_mode rm \<Longrightarrow> rm \<le> 7" by (auto simp: valid_rounding_mode_def word_le_nat_alt)
  have "unat (ucast (drop_bit k w AND 0x7) :: u8) < 2 ^ 3"
    by (rule unat_less_of_bits) (simp only: word_bits)
  then show "(ucast (drop_bit k w AND 0x7) :: u8) \<le> 7" by (simp add: word_le_nat_alt)
qed

lemma decode_matching_floating:
  assumes "s \<in> set FLOATING_SPECS" "w AND spec_mask s = spec_match_bits s"
    "rm_fixed s \<or> valid_rounding_mode (ucast (drop_bit 12 w AND 0x7))"
  shows "\<exists>imm. decode_instruction w = Inr \<lparr>di_id = spec_id s, di_operands = Ops_Floating (reg_field 7 w)
      (reg_field 15 w) (reg_field 20 w) (reg_field 27 w) (ucast (drop_bit 12 w AND 0x7)) imm\<rparr>
    \<and> (spec_format s = Fmt_FloatingLoad \<longrightarrow> imm = sign_extend (drop_bit 20 w) 12)
    \<and> (spec_format s = Fmt_FloatingStore \<longrightarrow>
        imm = sign_extend (push_bit 5 (drop_bit 25 w) OR (drop_bit 7 w AND 0x1F)) 12)"
  using decode_family(5) [OF fp_table.opcode_of_match [OF assms(1,2)]] fp_table.find_match [OF assms(1,2)] assms(3)
  unfolding decode_floating_def rm_fixed_def Let_def by (intro exI conjI) auto

lemma floating_encode_decode:
  assumes "encode_floating i rd rs1 rs2 rs3 rm imm = Inr w"
  shows "\<exists>ops. decode_instruction w = Inr \<lparr>di_id = i, di_operands = ops\<rparr> \<and>
    canonical_operands \<lparr>di_id = i, di_operands = ops\<rparr> =
    canonical_operands \<lparr>di_id = i, di_operands = Ops_Floating rd rs1 rs2 rs3 rm imm\<rparr>"
proof -
  from assms obtain s where "find (\<lambda>s. spec_id s = i) FLOATING_SPECS = Some s"
    by (auto simp: encode_floating_def split: option.splits)
  then have s: "s \<in> set FLOATING_SPECS" "spec_id s = i" by (auto dest: fp_table.find_id_SomeD)
  note e = assms [folded s(2), unfolded encode_floating_def fp_table.find_id [OF s(1)] option.case]
  from e have r: "rd < 32" "rs1 < 32" "rs2 < 32" "rs3 < 32"
    by (auto simp: not_less word_le_nat_alt word_less_nat_alt split: if_splits)
  then have nf: "find (\<lambda>(field, v). v > 31) [(''rd'', rd), (''rs1'', rs1), (''rs2'', rs2), (''rs3'', rs3)] = None"
    by (simp add: word_less_nat_alt not_less)
  note e = e [unfolded nf option.case]
  note row = row_okI(2) [OF s(1)]
  have can: "canonical_operands \<lparr>di_id = i, di_operands = Ops_Floating a b c d m v\<rparr> = canonical_floating s a b c d m v"
    for a b c d m v
    unfolding canonical_operands_def s(2) [symmetric] by (simp add: fp_table.find_id [OF s(1)])
  consider "spec_format s = Fmt_FloatingLoad" | "spec_format s = Fmt_FloatingStore"
    | "spec_format s = Fmt_FloatingOp \<or> spec_format s = Fmt_FloatingFused"
    using fp_formats [OF s(1)] by auto
  then show ?thesis
  proof cases
    case 1
    then have m: "spec_mask s = 0x707F" using fp_masks_of [OF s(1)] by (simp add: fp_masks_def)
    from e 1 have w: "w = spec_match_bits s OR push_bit 20 (imm AND 0xFFF)
        OR push_bit 15 (ucast rs1) OR push_bit 7 (ucast rd)"
      and i: "- 2048 \<le> sint imm" "sint imm \<le> 2047"
      by (auto simp: or_error_Inr validate_None)
    note f = imm_word [OF row m _ _ i, of "IntReg rd" "IntReg rs1", simplified reg_ok_def int_reg.sel, OF r(1,2) w]
    from m have "rm_fixed s" by (simp add: rm_fixed_def)
    with decode_matching_floating [OF s(1) f(1)] 1 f(2-4) s(2) show ?thesis
      by (auto simp: can canonical_floating_def)
  next
    case 2
    then have m: "spec_mask s = 0x707F" using fp_masks_of [OF s(1)] by (simp add: fp_masks_def)
    from e 2 have w: "w = spec_match_bits s OR push_bit 25 (drop_bit 5 (imm AND 0xFFF))
        OR push_bit 20 (ucast rs2) OR push_bit 15 (ucast rs1) OR push_bit 7 ((imm AND 0xFFF) AND 0x1F)"
      and i: "- 2048 \<le> sint imm" "sint imm \<le> 2047"
      by (auto simp: or_error_Inr validate_None Let_def)
    note f = store_word [OF row m _ _ i, of "IntReg rs2" "IntReg rs1", simplified reg_ok_def int_reg.sel, OF r(3,2) w]
    from m have "rm_fixed s" by (simp add: rm_fixed_def)
    with decode_matching_floating [OF s(1) f(1)] 2 f(2-4) s(2) show ?thesis
      by (auto simp: can canonical_floating_def)
  next
    case 3
    with e have w: "w = spec_match_bits s OR push_bit 15 (ucast rs1) OR push_bit 7 (ucast rd)
        OR (if rm_fixed s then 0 else push_bit 12 (ucast rm))
        OR (if rs2_free s then push_bit 20 (ucast rs2) else 0)
        OR (if spec_format s = Fmt_FloatingFused then push_bit 27 (ucast rs3) else 0)"
      and x: "rm_fixed s \<longrightarrow> rm = ucast (drop_bit 12 (spec_match_bits s) AND 0x7)"
        "rm_fixed s \<or> valid_rounding_mode rm"
      by (auto simp: rm_fixed_def rs2_free_def Let_def split: if_splits)
    from x have "rm \<le> 7" using small_rm by blast
    note f = fp_op_word [OF s(1) 3 r x(1) this w]
    from decode_matching_floating [OF s(1) f(1)] x(2) f(6) s(2) obtain v where
      "decode_instruction w = Inr \<lparr>di_id = i, di_operands =
         Ops_Floating rd rs1 (reg_field 20 w) (reg_field 27 w) rm v\<rparr>"
      unfolding f(2,3,6) by auto
    with 3 f(4,5) show ?thesis by (auto simp: can canonical_floating_def)
  qed
qed

subsection \<open>The round trips\<close>

text \<open>C13. Decoding loses nothing: whenever a 32-bit word decodes, the encoder of the family applied
  to the decoded identity and operands gives the word back, for all 160 instructions.\<close>

theorem decode_then_encode:
  assumes "decode_instruction w = Inr d"
  shows "encode_decoded d = Inr w"
  using assms
  by (rule decode_instruction_cases)
    (blast intro: upper_decode_encode rr_decode_encode base_decode_encode atomic_decode_encode
      floating_decode_encode)+

theorem decode_then_encode_witness:
  "decode_instruction 0xFFF10093 = Inr \<lparr>di_id = Base Addi, di_operands = Ops_Immediate (IntReg 1) (IntReg 2) (- 1)\<rparr>
   \<and> encode_decoded \<lparr>di_id = Base Addi, di_operands = Ops_Immediate (IntReg 1) (IntReg 2) (- 1)\<rparr> = Inr 0xFFF10093"
proof -
  have d: "decode_instruction 0xFFF10093 = Inr \<lparr>di_id = Base Addi, di_operands = Ops_Immediate (IntReg 1) (IntReg 2) (- 1)\<rparr>"
    by code_simp
  from d decode_then_encode [OF d] show ?thesis by (rule conjI)
qed

lemma encode_decode_canonical:
  assumes "encode_decoded d = Inr w" "operands_ok (di_operands d)"
  shows "\<exists>d'. decode_instruction w = Inr d' \<and> di_id d' = di_id d \<and>
    canonical_operands d' = canonical_operands d"
proof (cases "di_operands d")
  case (Ops_UpperImmediate rd imm)
  with assms upper_encode_decode [of "di_id d" rd imm w] show ?thesis
    by (auto simp: encode_decoded_def canonical_operands_def and.assoc)
next
  case (Ops_RegisterRegister rd rs1 rs2)
  with assms rr_encode_decode [of "di_id d" rd rs1 rs2 w] show ?thesis
    by (auto simp: encode_decoded_def canonical_operands_def)
next
  case (Ops_Atomic rd rs1 rs2 aq rl)
  with assms atomic_encode_decode [of "di_id d" rd rs1 rs2 aq rl w] show ?thesis
    by (auto simp: encode_decoded_def canonical_operands_def)
next
  case (Ops_Floating rd rs1 rs2 rs3 rm imm)
  then have "canonical_operands \<lparr>di_id = di_id d, di_operands = Ops_Floating rd rs1 rs2 rs3 rm imm\<rparr>
      = canonical_operands d"
    by (simp add: canonical_operands_def split: option.splits)
  with Ops_Floating show ?thesis
    using assms floating_encode_decode [of "di_id d" rd rs1 rs2 rs3 rm imm w]
    by (auto simp: encode_decoded_def)
qed (use assms base_encode_decode [of "di_id d" "di_operands d" w] in
    \<open>auto simp: encode_decoded_def canonical_operands_def\<close>)

text \<open>C12. Encoding is faithful: an instruction that encodes is decoded to the same identity, with
  the same operands up to what the format has no room for (the low bits of an upper immediate,
  unused floating-point fields).\<close>

theorem encode_then_decode:
  assumes "encode_decoded d = Inr w" "operands_ok (di_operands d)"
  shows "\<exists>d'. decode_instruction w = Inr d' \<and> di_id d' = di_id d \<and>
    canonical_operands d' = canonical_operands d"
  by (rule encode_decode_canonical [OF assms])

theorem encode_then_decode_witness:
  "\<exists>d'. decode_instruction 0x003120AF = Inr d' \<and> di_id d' = Atomic AmoaddW \<and>
     canonical_operands d' = Ops_Atomic (IntReg 1) (IntReg 2) (IntReg 3) False False"
proof -
  define d where "d = \<lparr>di_id = Atomic AmoaddW, di_operands = Ops_Atomic (IntReg 1) (IntReg 2) (IntReg 3) False False\<rparr>"
  have "encode_decoded d = Inr 0x003120AF" unfolding d_def by code_simp
  moreover have "operands_ok (di_operands d)" unfolding d_def by code_simp
  ultimately show ?thesis
    using encode_then_decode [of d "0x003120AF"] by (auto simp: d_def canonical_operands_def)
qed

text \<open>C36. The specification tables are unambiguous: no 32-bit word matches two of the 160 rows, so
  the order in which the decoder tries the tables and their rows does not matter.\<close>

theorem specs_unambiguous:
  assumes "s \<in> set instruction_specs" "t \<in> set instruction_specs"
    "w AND spec_mask s = spec_match_bits s" "w AND spec_mask t = spec_match_bits t"
  shows "s = t"
proof -
  let ?tables = "[(UPPER_IMMEDIATE_SPECS, upper_opcodes), (REGISTER_REGISTER_SPECS, rr_opcodes),
    (BASE_INTEGER_SPECS, base_opcodes), (ATOMIC_SPECS, atomic_opcodes), (FLOATING_SPECS, fp_opcodes)]"
  have tab: "spec_table T ops" if "(T, ops) \<in> set ?tables" for T ops
    using that upper_table.spec_table_axioms rr_table.spec_table_axioms base_table.spec_table_axioms
      atomic_table.spec_table_axioms fp_table.spec_table_axioms by auto
  have one: "\<exists>T ops. (T, ops) \<in> set ?tables \<and> u \<in> set T" if "u \<in> set instruction_specs" for u
    using that unfolding instruction_specs_def by auto
  from one [OF assms(1)] one [OF assms(2)] obtain T1 o1 T2 o2 where
    t: "(T1, o1) \<in> set ?tables" "s \<in> set T1" "(T2, o2) \<in> set ?tables" "t \<in> set T2" by blast
  define opc where "opc = w AND 0x7F"
  have "opc \<in> set o1" "opc \<in> set o2"
    unfolding opc_def using spec_table.opcode_of_match [OF tab] t assms(3,4) by blast+
  with t(1,3) have "T1 = T2" by auto
  with spec_table.at_most_one [OF tab [OF t(1)]] t assms(3,4) show ?thesis by blast
qed

theorem specs_unambiguous_witness:
  "{t \<in> set instruction_specs. 0x12345037 AND spec_mask t = spec_match_bits t}
   = {upper_immediate_spec (Lui, 0x37)}"
proof -
  let ?s = "upper_immediate_spec (Lui, 0x37)"
  have s: "?s \<in> set instruction_specs" by (simp add: instruction_specs_def UPPER_IMMEDIATE_SPECS_def)
  have m: "0x12345037 AND spec_mask ?s = spec_match_bits ?s" by (simp add: upper_immediate_spec_def)
  from s m specs_unambiguous [OF s _ m] show ?thesis by blast
qed

end
