(* ===== verification/Word_Arith.thy ===== *)
theory Word_Arith
  imports Prelude
begin

text \<open>
  Signed readings of machine words: when a word built from an integer reads back as that integer,
  and how casts, truncation and arithmetic shifts act on the signed value.
\<close>

lemma sint_word_of_int_i32:
  assumes "-(2 ^ 31) \<le> k" "k < 2 ^ 31"
  shows "sint (word_of_int k :: i32) = k"
  using signed_take_bit_int_eq_self [of 31 k] assms by (simp add: signed_of_int)

lemma sint_word_of_int_i64:
  assumes "-(2 ^ 63) \<le> k" "k < 2 ^ 63"
  shows "sint (word_of_int k :: i64) = k"
  using signed_take_bit_int_eq_self [of 63 k] assms by (simp add: signed_of_int)

lemma ucast_i64_i32_sint: "(ucast (x :: i64) :: i32) = word_of_int (sint x)"
  by (simp add: bit_eq_iff bit_simps)

end
