(* ===== verification/Isa_Names.thy ===== *)
theory Isa_Names
  imports Isa_Model Word_Arith
begin

text \<open>
  The names of the instruction-set model (\<open>crates/riscv-model/src/lib.rs\<close>): register names and
  their parser, instruction mnemonics, and the split of a PC-relative offset into the
  immediates of an \<open>auipc\<close> and a following instruction. Strings are lists of characters with
  code points below 256.
\<close>

subsection \<open>Register names\<close>

definition INTEGER_REGISTER_NAMES :: "string list" where
  "INTEGER_REGISTER_NAMES = [
     ''zero'', ''ra'', ''sp'', ''gp'', ''tp'', ''t0'', ''t1'', ''t2'', ''s0'', ''s1'', ''a0'',
     ''a1'', ''a2'', ''a3'', ''a4'', ''a5'', ''a6'', ''a7'', ''s2'', ''s3'', ''s4'', ''s5'',
     ''s6'', ''s7'', ''s8'', ''s9'', ''s10'', ''s11'', ''t3'', ''t4'', ''t5'', ''t6'']"

definition FLOAT_REGISTER_NAMES :: "string list" where
  "FLOAT_REGISTER_NAMES = [
     ''ft0'', ''ft1'', ''ft2'', ''ft3'', ''ft4'', ''ft5'', ''ft6'', ''ft7'', ''fs0'', ''fs1'',
     ''fa0'', ''fa1'', ''fa2'', ''fa3'', ''fa4'', ''fa5'', ''fa6'', ''fa7'', ''fs2'', ''fs3'',
     ''fs4'', ''fs5'', ''fs6'', ''fs7'', ''fs8'', ''fs9'', ''fs10'', ''fs11'', ''ft8'', ''ft9'',
     ''ft10'', ''ft11'']"

text \<open>\<open>str::trim\<close> and \<open>str::parse::<usize>\<close>: an optional plus sign, at least one digit and
  nothing else, and no overflow of 64 bits.\<close>

definition is_whitespace :: "char \<Rightarrow> bool" where
  "is_whitespace c = (let n = (of_char c :: nat) in (9 \<le> n \<and> n \<le> 13) \<or> n = 32 \<or> n = 0x85 \<or> n = 0xA0)"

definition trim :: "string \<Rightarrow> string" where
  "trim s = rev (dropWhile is_whitespace (rev (dropWhile is_whitespace s)))"

definition digit :: "char \<Rightarrow> nat option" where
  "digit c = (let n = (of_char c :: nat) in if 48 \<le> n \<and> n \<le> 57 then Some (n - 48) else None)"

fun parse_digits :: "nat \<Rightarrow> string \<Rightarrow> nat option" where
  "parse_digits acc [] = Some acc"
| "parse_digits acc (c # cs) =
     (case digit c of
        None \<Rightarrow> None
      | Some d \<Rightarrow> if acc * 10 + d < 2 ^ 64 then parse_digits (acc * 10 + d) cs else None)"

definition parse_usize :: "string \<Rightarrow> nat option" where
  "parse_usize s =
     (let t = (case s of c # cs \<Rightarrow> if c = CHR ''+'' then cs else s | [] \<Rightarrow> [])
      in if t = [] then None else parse_digits 0 t)"

definition strip_prefix :: "char \<Rightarrow> string \<Rightarrow> string option" where
  "strip_prefix p s = (case s of c # cs \<Rightarrow> if c = p then Some cs else None | [] \<Rightarrow> None)"

definition parse_numbered_register :: "string \<Rightarrow> char \<Rightarrow> nat option" where
  "parse_numbered_register name prefix =
     (case strip_prefix prefix name of
        None \<Rightarrow> None
      | Some rest \<Rightarrow>
          (case parse_usize rest of
             None \<Rightarrow> None
           | Some number \<Rightarrow> if number < 32 then Some number else None))"

fun index_of :: "'a \<Rightarrow> 'a list \<Rightarrow> nat option" where
  "index_of x [] = None"
| "index_of x (y # ys) = (if y = x then Some 0 else map_option Suc (index_of x ys))"

definition or_else_option :: "'a option \<Rightarrow> 'a option \<Rightarrow> 'a option" where
  "or_else_option a b = (case a of None \<Rightarrow> b | Some x \<Rightarrow> Some x)"

definition int_reg_parse :: "string \<Rightarrow> int_reg option" where
  "int_reg_parse name0 =
     (let name = trim name0
      in if name = ''fp'' then Some (IntReg 8)
         else map_option (\<lambda>n. IntReg (of_nat n))
           (or_else_option (parse_numbered_register name (CHR ''x'')) (index_of name INTEGER_REGISTER_NAMES)))"

definition abi_name :: "int_reg \<Rightarrow> string" where
  "abi_name r = INTEGER_REGISTER_NAMES ! unat (reg_number r)"

datatype fp_reg = FpReg (fp_number: u8)

definition fp_reg_new :: "u8 \<Rightarrow> fp_reg option" where
  "fp_reg_new n = (if n < 32 then Some (FpReg n) else None)"

definition fp_reg_parse :: "string \<Rightarrow> fp_reg option" where
  "fp_reg_parse name0 =
     (let name = trim name0
      in map_option (\<lambda>n. FpReg (of_nat n))
           (or_else_option (parse_numbered_register name (CHR ''f'')) (index_of name FLOAT_REGISTER_NAMES)))"

definition fp_abi_name :: "fp_reg \<Rightarrow> string" where
  "fp_abi_name r = FLOAT_REGISTER_NAMES ! unat (fp_number r)"

definition integer_register_name :: "nat \<Rightarrow> string option" where
  "integer_register_name r = (if r < 32 then Some (INTEGER_REGISTER_NAMES ! r) else None)"

definition float_register_name :: "nat \<Rightarrow> string option" where
  "float_register_name r = (if r < 32 then Some (FLOAT_REGISTER_NAMES ! r) else None)"

definition is_register_name :: "string \<Rightarrow> bool" where
  "is_register_name name = (int_reg_parse name \<noteq> None \<or> fp_reg_parse name \<noteq> None)"

subsection \<open>Profiles\<close>

definition extension_bit :: "extension \<Rightarrow> u16" where
  "extension_bit e = (case e of
     Ext_Rv64I \<Rightarrow> push_bit 0 1 | Ext_M \<Rightarrow> push_bit 1 1 | Ext_A \<Rightarrow> push_bit 2 1 | Ext_F \<Rightarrow> push_bit 3 1
   | Ext_D \<Rightarrow> push_bit 4 1 | Ext_Zicsr \<Rightarrow> push_bit 5 1 | Ext_Zifencei \<Rightarrow> push_bit 6 1
   | Ext_Privileged \<Rightarrow> push_bit 7 1)"

datatype isa_profile = IsaProfile (profile_bits: u16)

definition IsaProfile_RV64I :: isa_profile where
  "IsaProfile_RV64I = IsaProfile (extension_bit Ext_Rv64I)"

definition IsaProfile_FULL_STACK :: isa_profile where
  "IsaProfile_FULL_STACK = IsaProfile (extension_bit Ext_Rv64I OR extension_bit Ext_M OR extension_bit Ext_A
     OR extension_bit Ext_F OR extension_bit Ext_D OR extension_bit Ext_Zicsr
     OR extension_bit Ext_Zifencei OR extension_bit Ext_Privileged)"

definition with_extension :: "isa_profile \<Rightarrow> extension \<Rightarrow> isa_profile" where
  "with_extension p e = IsaProfile (profile_bits p OR extension_bit e)"

definition supports_extension :: "isa_profile \<Rightarrow> extension \<Rightarrow> bool" where
  "supports_extension p e = (profile_bits p AND extension_bit e \<noteq> 0)"

definition supports_instruction :: "isa_profile \<Rightarrow> instruction_id \<Rightarrow> bool" where
  "supports_instruction p i = supports_extension p (id_extension i)"

subsection \<open>Mnemonics\<close>

primrec upper_mnemonic :: "upper_id \<Rightarrow> string" where
  "upper_mnemonic Lui = ''lui''"
| "upper_mnemonic Auipc = ''auipc''"

primrec rr_mnemonic :: "rr_id \<Rightarrow> string" where
  "rr_mnemonic Add = ''add''"
| "rr_mnemonic Sub = ''sub''"
| "rr_mnemonic Sll = ''sll''"
| "rr_mnemonic Slt = ''slt''"
| "rr_mnemonic Sltu = ''sltu''"
| "rr_mnemonic Xor = ''xor''"
| "rr_mnemonic Srl = ''srl''"
| "rr_mnemonic Sra = ''sra''"
| "rr_mnemonic Or = ''or''"
| "rr_mnemonic And = ''and''"
| "rr_mnemonic Mul = ''mul''"
| "rr_mnemonic Mulh = ''mulh''"
| "rr_mnemonic Mulhsu = ''mulhsu''"
| "rr_mnemonic Mulhu = ''mulhu''"
| "rr_mnemonic Div = ''div''"
| "rr_mnemonic Divu = ''divu''"
| "rr_mnemonic Rem = ''rem''"
| "rr_mnemonic Remu = ''remu''"
| "rr_mnemonic Addw = ''addw''"
| "rr_mnemonic Subw = ''subw''"
| "rr_mnemonic Sllw = ''sllw''"
| "rr_mnemonic Srlw = ''srlw''"
| "rr_mnemonic Sraw = ''sraw''"
| "rr_mnemonic Mulw = ''mulw''"
| "rr_mnemonic Divw = ''divw''"
| "rr_mnemonic Divuw = ''divuw''"
| "rr_mnemonic Remw = ''remw''"
| "rr_mnemonic Remuw = ''remuw''"

primrec base_mnemonic :: "base_id \<Rightarrow> string" where
  "base_mnemonic Jal = ''jal''"
| "base_mnemonic Jalr = ''jalr''"
| "base_mnemonic Beq = ''beq''"
| "base_mnemonic Bne = ''bne''"
| "base_mnemonic Blt = ''blt''"
| "base_mnemonic Bge = ''bge''"
| "base_mnemonic Bltu = ''bltu''"
| "base_mnemonic Bgeu = ''bgeu''"
| "base_mnemonic Lb = ''lb''"
| "base_mnemonic Lh = ''lh''"
| "base_mnemonic Lw = ''lw''"
| "base_mnemonic Ld = ''ld''"
| "base_mnemonic Lbu = ''lbu''"
| "base_mnemonic Lhu = ''lhu''"
| "base_mnemonic Lwu = ''lwu''"
| "base_mnemonic Sb = ''sb''"
| "base_mnemonic Sh = ''sh''"
| "base_mnemonic Sw = ''sw''"
| "base_mnemonic Sd = ''sd''"
| "base_mnemonic Addi = ''addi''"
| "base_mnemonic Slli = ''slli''"
| "base_mnemonic Slti = ''slti''"
| "base_mnemonic Sltiu = ''sltiu''"
| "base_mnemonic Xori = ''xori''"
| "base_mnemonic Srli = ''srli''"
| "base_mnemonic Srai = ''srai''"
| "base_mnemonic Ori = ''ori''"
| "base_mnemonic Andi = ''andi''"
| "base_mnemonic Addiw = ''addiw''"
| "base_mnemonic Slliw = ''slliw''"
| "base_mnemonic Srliw = ''srliw''"
| "base_mnemonic Sraiw = ''sraiw''"
| "base_mnemonic Fence = ''fence''"
| "base_mnemonic FenceI = ''fence.i''"
| "base_mnemonic Ecall = ''ecall''"
| "base_mnemonic Ebreak = ''ebreak''"
| "base_mnemonic Mret = ''mret''"
| "base_mnemonic Sret = ''sret''"
| "base_mnemonic SfenceVma = ''sfence.vma''"
| "base_mnemonic Wfi = ''wfi''"
| "base_mnemonic Csrrw = ''csrrw''"
| "base_mnemonic Csrrs = ''csrrs''"
| "base_mnemonic Csrrc = ''csrrc''"
| "base_mnemonic Csrrwi = ''csrrwi''"
| "base_mnemonic Csrrsi = ''csrrsi''"
| "base_mnemonic Csrrci = ''csrrci''"

primrec atomic_mnemonic :: "atomic_id \<Rightarrow> string" where
  "atomic_mnemonic LrW = ''lr.w''"
| "atomic_mnemonic LrD = ''lr.d''"
| "atomic_mnemonic ScW = ''sc.w''"
| "atomic_mnemonic ScD = ''sc.d''"
| "atomic_mnemonic AmoswapW = ''amoswap.w''"
| "atomic_mnemonic AmoswapD = ''amoswap.d''"
| "atomic_mnemonic AmoaddW = ''amoadd.w''"
| "atomic_mnemonic AmoaddD = ''amoadd.d''"
| "atomic_mnemonic AmoxorW = ''amoxor.w''"
| "atomic_mnemonic AmoxorD = ''amoxor.d''"
| "atomic_mnemonic AmoorW = ''amoor.w''"
| "atomic_mnemonic AmoorD = ''amoor.d''"
| "atomic_mnemonic AmoandW = ''amoand.w''"
| "atomic_mnemonic AmoandD = ''amoand.d''"
| "atomic_mnemonic AmominW = ''amomin.w''"
| "atomic_mnemonic AmominD = ''amomin.d''"
| "atomic_mnemonic AmomaxW = ''amomax.w''"
| "atomic_mnemonic AmomaxD = ''amomax.d''"
| "atomic_mnemonic AmominuW = ''amominu.w''"
| "atomic_mnemonic AmominuD = ''amominu.d''"
| "atomic_mnemonic AmomaxuW = ''amomaxu.w''"
| "atomic_mnemonic AmomaxuD = ''amomaxu.d''"

primrec fp_mnemonic :: "fp_id \<Rightarrow> string" where
  "fp_mnemonic Flw = ''flw''"
| "fp_mnemonic Fld = ''fld''"
| "fp_mnemonic Fsw = ''fsw''"
| "fp_mnemonic Fsd = ''fsd''"
| "fp_mnemonic FaddS = ''fadd.s''"
| "fp_mnemonic FaddD = ''fadd.d''"
| "fp_mnemonic FsubS = ''fsub.s''"
| "fp_mnemonic FsubD = ''fsub.d''"
| "fp_mnemonic FmulS = ''fmul.s''"
| "fp_mnemonic FmulD = ''fmul.d''"
| "fp_mnemonic FdivS = ''fdiv.s''"
| "fp_mnemonic FdivD = ''fdiv.d''"
| "fp_mnemonic FsqrtS = ''fsqrt.s''"
| "fp_mnemonic FsqrtD = ''fsqrt.d''"
| "fp_mnemonic FsgnjS = ''fsgnj.s''"
| "fp_mnemonic FsgnjD = ''fsgnj.d''"
| "fp_mnemonic FsgnjnS = ''fsgnjn.s''"
| "fp_mnemonic FsgnjnD = ''fsgnjn.d''"
| "fp_mnemonic FsgnjxS = ''fsgnjx.s''"
| "fp_mnemonic FsgnjxD = ''fsgnjx.d''"
| "fp_mnemonic FminS = ''fmin.s''"
| "fp_mnemonic FminD = ''fmin.d''"
| "fp_mnemonic FmaxS = ''fmax.s''"
| "fp_mnemonic FmaxD = ''fmax.d''"
| "fp_mnemonic FleS = ''fle.s''"
| "fp_mnemonic FleD = ''fle.d''"
| "fp_mnemonic FltS = ''flt.s''"
| "fp_mnemonic FltD = ''flt.d''"
| "fp_mnemonic FeqS = ''feq.s''"
| "fp_mnemonic FeqD = ''feq.d''"
| "fp_mnemonic FcvtWS = ''fcvt.w.s''"
| "fp_mnemonic FcvtWuS = ''fcvt.wu.s''"
| "fp_mnemonic FcvtLS = ''fcvt.l.s''"
| "fp_mnemonic FcvtLuS = ''fcvt.lu.s''"
| "fp_mnemonic FcvtWD = ''fcvt.w.d''"
| "fp_mnemonic FcvtWuD = ''fcvt.wu.d''"
| "fp_mnemonic FcvtLD = ''fcvt.l.d''"
| "fp_mnemonic FcvtLuD = ''fcvt.lu.d''"
| "fp_mnemonic FcvtSW = ''fcvt.s.w''"
| "fp_mnemonic FcvtSWu = ''fcvt.s.wu''"
| "fp_mnemonic FcvtSL = ''fcvt.s.l''"
| "fp_mnemonic FcvtSLu = ''fcvt.s.lu''"
| "fp_mnemonic FcvtDW = ''fcvt.d.w''"
| "fp_mnemonic FcvtDWu = ''fcvt.d.wu''"
| "fp_mnemonic FcvtDL = ''fcvt.d.l''"
| "fp_mnemonic FcvtDLu = ''fcvt.d.lu''"
| "fp_mnemonic FcvtSD = ''fcvt.s.d''"
| "fp_mnemonic FcvtDS = ''fcvt.d.s''"
| "fp_mnemonic FmvXW = ''fmv.x.w''"
| "fp_mnemonic FmvXD = ''fmv.x.d''"
| "fp_mnemonic FclassS = ''fclass.s''"
| "fp_mnemonic FclassD = ''fclass.d''"
| "fp_mnemonic FmvWX = ''fmv.w.x''"
| "fp_mnemonic FmvDX = ''fmv.d.x''"
| "fp_mnemonic FmaddS = ''fmadd.s''"
| "fp_mnemonic FmaddD = ''fmadd.d''"
| "fp_mnemonic FmsubS = ''fmsub.s''"
| "fp_mnemonic FmsubD = ''fmsub.d''"
| "fp_mnemonic FnmsubS = ''fnmsub.s''"
| "fp_mnemonic FnmsubD = ''fnmsub.d''"
| "fp_mnemonic FnmaddS = ''fnmadd.s''"
| "fp_mnemonic FnmaddD = ''fnmadd.d''"

primrec mnemonic :: "instruction_id \<Rightarrow> string" where
  "mnemonic (Upper i) = upper_mnemonic i"
| "mnemonic (Rr i) = rr_mnemonic i"
| "mnemonic (Base i) = base_mnemonic i"
| "mnemonic (Atomic i) = atomic_mnemonic i"
| "mnemonic (Fp i) = fp_mnemonic i"

definition ALL_IDS :: "instruction_id list" where
  "ALL_IDS = [
     Upper Lui, Upper Auipc, Base Jal, Base Jalr, Base Beq, Base Bne, Base Blt, Base Bge,
     Base Bltu, Base Bgeu, Base Lb, Base Lh, Base Lw, Base Ld, Base Lbu, Base Lhu, Base Lwu,
     Base Sb, Base Sh, Base Sw, Base Sd, Base Addi, Base Slli, Base Slti, Base Sltiu, Base Xori,
     Base Srli, Base Srai, Base Ori, Base Andi, Base Addiw, Base Slliw, Base Srliw, Base Sraiw,
     Rr Add, Rr Sub, Rr Sll, Rr Slt, Rr Sltu, Rr Xor, Rr Srl, Rr Sra, Rr Or, Rr And, Rr Mul,
     Rr Mulh, Rr Mulhsu, Rr Mulhu, Rr Div, Rr Divu, Rr Rem, Rr Remu, Rr Addw, Rr Subw, Rr Sllw,
     Rr Srlw, Rr Sraw, Rr Mulw, Rr Divw, Rr Divuw, Rr Remw, Rr Remuw, Base Fence, Base FenceI,
     Base Ecall, Base Ebreak, Base Mret, Base Sret, Base SfenceVma, Base Wfi, Base Csrrw,
     Base Csrrs, Base Csrrc, Base Csrrwi, Base Csrrsi, Base Csrrci, Fp Flw, Fp Fld, Fp Fsw,
     Fp Fsd, Fp FaddS, Fp FaddD, Fp FsubS, Fp FsubD, Fp FmulS, Fp FmulD, Fp FdivS, Fp FdivD,
     Fp FsqrtS, Fp FsqrtD, Fp FsgnjS, Fp FsgnjD, Fp FsgnjnS, Fp FsgnjnD, Fp FsgnjxS, Fp FsgnjxD,
     Fp FminS, Fp FminD, Fp FmaxS, Fp FmaxD, Fp FleS, Fp FleD, Fp FltS, Fp FltD, Fp FeqS,
     Fp FeqD, Fp FcvtWS, Fp FcvtWuS, Fp FcvtLS, Fp FcvtLuS, Fp FcvtWD, Fp FcvtWuD, Fp FcvtLD,
     Fp FcvtLuD, Fp FcvtSW, Fp FcvtSWu, Fp FcvtSL, Fp FcvtSLu, Fp FcvtDW, Fp FcvtDWu, Fp FcvtDL,
     Fp FcvtDLu, Fp FcvtSD, Fp FcvtDS, Fp FmvXW, Fp FmvXD, Fp FclassS, Fp FclassD, Fp FmvWX,
     Fp FmvDX, Fp FmaddS, Fp FmaddD, Fp FmsubS, Fp FmsubD, Fp FnmsubS, Fp FnmsubD, Fp FnmaddS,
     Fp FnmaddD, Atomic LrW, Atomic LrD, Atomic ScW, Atomic ScD, Atomic AmoswapW,
     Atomic AmoswapD, Atomic AmoaddW, Atomic AmoaddD, Atomic AmoxorW, Atomic AmoxorD,
     Atomic AmoorW, Atomic AmoorD, Atomic AmoandW, Atomic AmoandD, Atomic AmominW,
     Atomic AmominD, Atomic AmomaxW, Atomic AmomaxD, Atomic AmominuW, Atomic AmominuD,
     Atomic AmomaxuW, Atomic AmomaxuD]"

subsection \<open>PC-relative offsets\<close>

text \<open>\<open>pcrel_split\<close> on an \<open>i64\<close> offset; the results are \<open>i32\<close>.\<close>

definition pcrel_split :: "i64 \<Rightarrow> i32 \<times> i32" where
  "pcrel_split offset =
     (let low = (ucast (offset AND 0xFFF) :: i32) - (if offset AND 0x800 = 0 then 0 else 0x1000);
          high = (ucast (signed_drop_bit 12 (offset - scast low)) :: i32)
      in (high, low))"

subsection \<open>Register names parse back\<close>

lemma int_names_parse:
  "list_all (\<lambda>n. int_reg_parse (abi_name (IntReg (of_nat n))) = Some (IntReg (of_nat n))
      \<and> fp_reg_parse (abi_name (IntReg (of_nat n))) = None) [0..<32]"
  by code_simp

lemma fp_names_parse:
  "list_all (\<lambda>n. fp_reg_parse (fp_abi_name (FpReg (of_nat n))) = Some (FpReg (of_nat n))
      \<and> int_reg_parse (fp_abi_name (FpReg (of_nat n))) = None) [0..<32]"
  by code_simp

lemma all_below_32:
  assumes "list_all (\<lambda>k. P (of_nat k :: u8)) [0..<32]" "n < 32"
  shows "P n"
proof -
  from assms(2) have "unat n \<in> set [0..<32]" by (simp add: word_less_nat_alt)
  with assms(1) have "P (of_nat (unat n))" unfolding list_all_iff by (rule bspec)
  then show ?thesis by simp
qed

text \<open>The printed name of a register parses back to it, in its own file only.\<close>

theorem register_names_round_trip:
  assumes "n < 32"
  shows "int_reg_parse (abi_name (IntReg n)) = Some (IntReg n)
    \<and> fp_reg_parse (fp_abi_name (FpReg n)) = Some (FpReg n)
    \<and> fp_reg_parse (abi_name (IntReg n)) = None
    \<and> int_reg_parse (fp_abi_name (FpReg n)) = None"
  using all_below_32 [OF int_names_parse assms] all_below_32 [OF fp_names_parse assms] by blast

theorem register_names_round_trip_witness:
  "int_reg_parse (abi_name (IntReg 10)) = Some (IntReg 10)
    \<and> fp_reg_parse (fp_abi_name (FpReg 10)) = Some (FpReg 10)
    \<and> fp_reg_parse (abi_name (IntReg 10)) = None
    \<and> int_reg_parse (fp_abi_name (FpReg 10)) = None"
  by (rule register_names_round_trip) simp

lemma ALL_IDS_complete: "i \<in> set ALL_IDS"
proof (cases i)
  case (Upper x) then show ?thesis by (cases x) (simp_all add: ALL_IDS_def)
next
  case (Rr x) then show ?thesis by (cases x) (simp_all add: ALL_IDS_def)
next
  case (Base x) then show ?thesis by (cases x) (simp_all add: ALL_IDS_def)
next
  case (Atomic x) then show ?thesis by (cases x) (simp_all add: ALL_IDS_def)
next
  case (Fp x) then show ?thesis by (cases x) (simp_all add: ALL_IDS_def)
qed

lemma distinct_by_key:
  assumes "\<And>k. distinct (filter (\<lambda>x. f x = k) xs)"
  shows "distinct xs"
  using assms
proof (induction xs)
  case (Cons x xs)
  have "distinct (filter (\<lambda>y. f y = k) xs)" for k
    using Cons.prems [of k] by (auto split: if_splits)
  moreover have "x \<notin> set xs" using Cons.prems [of "f x"] by auto
  ultimately show ?case using Cons.IH by simp
qed simp

lemma mnemonics_distinct: "distinct (map mnemonic ALL_IDS)"
proof (rule distinct_by_key [where f = size])
  fix k :: nat
  have short: "list_all (\<lambda>s. size s < 11) (map mnemonic ALL_IDS)" by code_simp
  have "list_all (\<lambda>n. distinct (filter (\<lambda>s. size s = n) (map mnemonic ALL_IDS))) [0..<11]" by code_simp
  then have "distinct (filter (\<lambda>s. size s = k) (map mnemonic ALL_IDS))" if "k < 11"
    unfolding list_all_iff by (rule bspec) (use that in simp)
  moreover have "filter (\<lambda>s. size s = k) (map mnemonic ALL_IDS) = []" if "\<not> k < 11"
    unfolding filter_empty_conv using short that unfolding list_all_iff by blast
  ultimately show "distinct (filter (\<lambda>s. size s = k) (map mnemonic ALL_IDS))" by fastforce
qed

text \<open>A mnemonic names one instruction.\<close>

theorem mnemonic_injective:
  "inj mnemonic \<and> set ALL_IDS = UNIV \<and> distinct ALL_IDS"
proof -
  have "set ALL_IDS = UNIV" using ALL_IDS_complete by blast
  then show ?thesis using mnemonics_distinct by (simp add: distinct_map)
qed

lemma pcrel_low:
  fixes offset :: i64
  defines "l \<equiv> sint offset mod 4096"
  shows "(ucast (offset AND 0xFFF) :: i32) - (if offset AND 0x800 = 0 then 0 else 0x1000)
    = word_of_int (if l < 2048 then l else l - 4096)"
proof -
  have u: "take_bit 12 (uint offset) = l"
    by (simp add: l_def take_bit_eq_mod uint_sint mod_mod_cancel)
  have "offset AND 0xFFF = take_bit 12 offset"
    by (simp add: take_bit_eq_mask mask_eq_exp_minus_1)
  then have "uint (offset AND 0xFFF) = l" using u by (simp add: unsigned_take_bit_eq)
  then have lo: "(ucast (offset AND 0xFFF) :: i32) = word_of_int l"
    by (metis of_int_uint ucast_eq)
  have "offset AND 0x800 = 0 \<longleftrightarrow> \<not> bit offset 11"
    using and_exp_eq_0_iff_not_bit [of offset 11] by simp
  also have "\<dots> \<longleftrightarrow> \<not> bit (take_bit 12 (uint offset)) 11"
    by (simp add: bit_take_bit_iff bit_uint_iff)
  also have "\<dots> \<longleftrightarrow> l < 2048"
  proof -
    have "0 \<le> l" "l < 4096" by (simp_all add: l_def)
    moreover from this have "l div 2048 = (if l < 2048 then 0 else 1)"
      by (simp add: div_pos_pos_trivial int_div_pos_eq [of l 2048 1 "l - 2048"])
    ultimately show ?thesis unfolding u by (simp add: bit_iff_odd)
  qed
  finally show ?thesis unfolding lo by (simp add: of_int_diff)
qed

text \<open>The split of an offset in the reach of an \<open>auipc\<close> pair.\<close>

theorem pcrel_split_exact:
  assumes "- (2 ^ 31) - 2048 \<le> sint offset" "sint offset < 2 ^ 31 - 2048"
  shows "case pcrel_split offset of (high, low) \<Rightarrow>
    sint high * 4096 + sint low = sint offset \<and> -2048 \<le> sint low \<and> sint low < 2048
    \<and> -(2 ^ 19) \<le> sint high \<and> sint high < 2 ^ 19"
proof -
  define l where "l = (let m = sint offset mod 4096 in if m < 2048 then m else m - 4096)"
  define h where "h = (sint offset - l) div 4096"
  have l: "-2048 \<le> l" "l < 2048" "h * 4096 + l = sint offset"
  proof -
    define q m where "q = sint offset div 4096" and "m = sint offset mod 4096"
    have s: "sint offset = 4096 * q + m" "0 \<le> m" "m < 4096" by (simp_all add: q_def m_def)
    have "l = (if m < 2048 then m else m - 4096)" by (simp add: l_def m_def)
    with s have "-2048 \<le> l \<and> l < 2048 \<and> sint offset - l = 4096 * (if m < 2048 then q else q + 1)"
      by simp
    then show "-2048 \<le> l" "l < 2048" "h * 4096 + l = sint offset" by (auto simp: h_def)
  qed
  have h: "-(2 ^ 19) \<le> h" "h < 2 ^ 19" using l assms by simp_all
  have low: "sint (word_of_int l :: i32) = l"
    by (rule sint_word_of_int_i32) (use l in simp_all)
  then have "offset - scast (word_of_int l :: i32) = word_of_int (sint offset - l)"
    by (simp add: scast_eq)
  moreover have "sint (word_of_int (sint offset - l) :: i64) = sint offset - l"
    by (rule sint_word_of_int_i64) (use l assms in simp_all)
  ultimately have "sint (signed_drop_bit 12 (offset - scast (word_of_int l :: i32))) = h"
    by (simp add: sint_signed_drop_bit_eq drop_bit_eq_div h_def)
  then have hi: "(ucast (signed_drop_bit 12 (offset - scast (word_of_int l :: i32))) :: i32) = word_of_int h"
    by (simp add: ucast_i64_i32_sint)
  have "sint (word_of_int h :: i32) = h"
    by (rule sint_word_of_int_i32) (use h in simp_all)
  with low l h show ?thesis
    unfolding pcrel_split_def pcrel_low Let_def l_def [unfolded Let_def, symmetric] hi by simp
qed

theorem pcrel_split_exact_witness:
  "sint (0x12345FFF :: i64) = 0x12345FFF
   \<and> pcrel_split 0x12345FFF = (0x12346, -1)
   \<and> sint (0x12346 :: i32) * 4096 + sint (-1 :: i32) = sint (0x12345FFF :: i64)"
proof -
  have s: "sint (0x12345FFF :: i64) = 0x12345FFF" by simp
  have p: "pcrel_split 0x12345FFF = (0x12346, -1)" by code_simp
  show ?thesis using pcrel_split_exact [of "0x12345FFF"] unfolding s p by simp
qed

end
