(* ===== verification/Decoder.thy ===== *)
theory Decoder
  imports Vm_Error Isa_Codec Isa_Names
begin

text \<open>
  The decoder of the virtual machine (\<open>cpu/decoder.rs\<close>): the instruction form the pipeline
  executes, its identity and mnemonic, and the decoding of a 32-bit word into it. The VM's form
  keeps selector fields of the word (\<open>funct3\<close>, \<open>funct7\<close>, ...) and recomputes the identity from
  them; the theorems relate it to the shared instruction-set model, from which the assembler
  encodes. Constructors carry the prefix \<open>D_\<close>, registers are \<open>usize\<close> indices.
\<close>

subsection \<open>Decoded instructions\<close>

datatype f_mac_op = Fmadd | Fmsub | Fnmsub | Fnmadd

datatype (plugins only: code) decoded_insn =
    D_Lui nat i64
  | D_Auipc nat i64
  | D_Jal nat i64
  | D_Jalr nat nat i64
  | D_Branch u8 nat nat i64
  | D_Load u8 nat nat i64
  | D_Store u8 nat nat i64
  | D_AluImm u8 u8 nat nat i64
  | D_AluImm32 u8 u8 nat nat i64
  | D_Alu u8 u8 nat nat nat
  | D_Alu32 u8 u8 nat nat nat
  | D_Fence u8 u8 u8
  | D_FenceI
  | D_Ecall
  | D_Ebreak
  | D_Mret
  | D_Sret
  | D_SfenceVma
  | D_Wfi
  | D_Csr u8 nat nat u16
  | D_FLoad u8 nat nat i64
  | D_FStore u8 nat nat i64
  | D_FOp u8 u8 u8 nat nat nat
  | D_FMac f_mac_op u8 u8 nat nat nat nat
  | D_Atomic u8 bool bool u8 nat nat nat

text \<open>\<open>Result::ok\<close> followed by the projection of the identity.\<close>

definition decoded_id :: "decode_error + decoded_instruction \<Rightarrow> instruction_id option" where
  "decoded_id r = (case r of Inl _ \<Rightarrow> None | Inr d \<Rightarrow> Some (di_id d))"

text \<open>\<open>u32::try_from\<close> of a \<open>usize\<close>.\<close>

definition u32_try_from :: "nat \<Rightarrow> u32 option" where
  "u32_try_from n = (if n < 2 ^ 32 then Some (of_nat n) else None)"

definition fmac_opcode :: "f_mac_op \<Rightarrow> u32" where
  "fmac_opcode op = (case op of Fmadd \<Rightarrow> 0x43 | Fmsub \<Rightarrow> 0x47 | Fnmsub \<Rightarrow> 0x4B | Fnmadd \<Rightarrow> 0x4F)"

definition insn_id :: "decoded_insn \<Rightarrow> instruction_id option" where
  "insn_id insn = (case insn of
     D_Lui _ _ \<Rightarrow> Some (Upper Lui)
   | D_Auipc _ _ \<Rightarrow> Some (Upper Auipc)
   | D_Jal _ _ \<Rightarrow> Some (Base Jal)
   | D_Jalr _ _ _ \<Rightarrow> Some (Base Jalr)
   | D_Branch funct3 _ _ _ \<Rightarrow> decoded_id (decode_base_integer (push_bit 12 (ucast funct3) OR 0x63))
   | D_Load funct3 _ _ _ \<Rightarrow> decoded_id (decode_base_integer (push_bit 12 (ucast funct3) OR 0x03))
   | D_Store funct3 _ _ _ \<Rightarrow> decoded_id (decode_base_integer (push_bit 12 (ucast funct3) OR 0x23))
   | D_AluImm funct3 funct7 _ _ _ \<Rightarrow>
       decoded_id (decode_base_integer (push_bit 25 (ucast funct7) OR push_bit 12 (ucast funct3) OR 0x13))
   | D_AluImm32 funct3 funct7 _ _ _ \<Rightarrow>
       decoded_id (decode_base_integer (push_bit 25 (ucast funct7) OR push_bit 12 (ucast funct3) OR 0x1B))
   | D_Alu funct3 funct7 _ _ _ \<Rightarrow> register_register_instruction Fmt_RegisterRegister funct3 funct7
   | D_Alu32 funct3 funct7 _ _ _ \<Rightarrow> register_register_instruction Fmt_RegisterRegisterWord funct3 funct7
   | D_Fence _ _ _ \<Rightarrow> Some (Base Fence)
   | D_FenceI \<Rightarrow> Some (Base FenceI)
   | D_Ecall \<Rightarrow> Some (Base base_id.Ecall)
   | D_Ebreak \<Rightarrow> Some (Base base_id.Ebreak)
   | D_Mret \<Rightarrow> Some (Base base_id.Mret)
   | D_Sret \<Rightarrow> Some (Base base_id.Sret)
   | D_SfenceVma \<Rightarrow> Some (Base SfenceVma)
   | D_Wfi \<Rightarrow> Some (Base Wfi)
   | D_Csr funct3 _ _ _ \<Rightarrow> decoded_id (decode_base_integer (push_bit 12 (ucast funct3) OR 0x73))
   | D_FLoad funct3 _ _ _ \<Rightarrow> decoded_id (decode_floating (push_bit 12 (ucast funct3) OR 0x07))
   | D_FStore funct3 _ _ _ \<Rightarrow> decoded_id (decode_floating (push_bit 12 (ucast funct3) OR 0x27))
   | D_FOp funct5 fmt rm _ _ rs2 \<Rightarrow>
       (case u32_try_from rs2 of
          None \<Rightarrow> None
        | Some r2 \<Rightarrow> decoded_id (decode_floating (push_bit 27 (ucast funct5) OR push_bit 25 (ucast fmt)
            OR push_bit 20 r2 OR push_bit 12 (ucast rm) OR 0x53)))
   | D_FMac op fmt _ _ _ _ _ \<Rightarrow> decoded_id (decode_floating (push_bit 25 (ucast fmt) OR fmac_opcode op))
   | D_Atomic funct5 _ _ funct3 _ _ rs2 \<Rightarrow>
       (case u32_try_from rs2 of
          None \<Rightarrow> None
        | Some r2 \<Rightarrow> decoded_id (decode_atomic (push_bit 27 (ucast funct5) OR push_bit 20 r2
            OR push_bit 12 (ucast funct3) OR 0x2F))))"

subsection \<open>Field extraction\<close>

definition field :: "u32 \<Rightarrow> nat \<Rightarrow> nat \<Rightarrow> u32" where
  "field word hi lo =
     (let width = hi - lo + 1
      in if 32 \<le> width then word else drop_bit lo word AND (push_bit width 1 - 1))"

definition funct3 :: "u32 \<Rightarrow> u8" where
  "funct3 word = ucast (field word 14 12)"

definition funct7 :: "u32 \<Rightarrow> u8" where
  "funct7 word = ucast (field word 31 25)"

subsection \<open>Decoding\<close>

abbreviation (input) usize_of :: "int_reg \<Rightarrow> nat" where
  "usize_of r \<equiv> unat (reg_number r)"

abbreviation (input) illegal :: "u32 \<Rightarrow> decoded_insn result" where
  "illegal word \<equiv> Inl (IllegalInstruction word)"

text \<open>The four blocks of \<open>decode\<close> after a successful family decoder; the match on identity and
  operands is grouped by operand shape.\<close>

definition insn_of_upper :: "u32 \<Rightarrow> decoded_instruction \<Rightarrow> decoded_insn result" where
  "insn_of_upper word d = (case di_operands d of
     Ops_UpperImmediate rd immediate \<Rightarrow>
       (if di_id d = Upper Lui then Inr (D_Lui (usize_of rd) (scast immediate))
        else if di_id d = Upper Auipc then Inr (D_Auipc (usize_of rd) (scast immediate))
        else illegal word)
   | _ \<Rightarrow> illegal word)"

definition insn_of_rr :: "u32 \<Rightarrow> decoded_instruction \<Rightarrow> decoded_insn result" where
  "insn_of_rr word d = (case di_operands d of
     Ops_RegisterRegister rd rs1 rs2 \<Rightarrow>
       (case instruction_spec_of (di_id d) of
          None \<Rightarrow> illegal word
        | Some spec \<Rightarrow>
          (if spec_format spec = Fmt_RegisterRegister
           then Inr (D_Alu (funct3 word) (funct7 word) (usize_of rd) (usize_of rs1) (usize_of rs2))
           else if spec_format spec = Fmt_RegisterRegisterWord
           then Inr (D_Alu32 (funct3 word) (funct7 word) (usize_of rd) (usize_of rs1) (usize_of rs2))
           else illegal word))
   | _ \<Rightarrow> illegal word)"

definition insn_of_base :: "u32 \<Rightarrow> decoded_instruction \<Rightarrow> decoded_insn result" where
  "insn_of_base word d = (let i = di_id d in case di_operands d of
     Ops_Jump rd offset \<Rightarrow>
       (if i = Base Jal then Inr (D_Jal (usize_of rd) (scast offset)) else illegal word)
   | Ops_Immediate rd rs1 immediate \<Rightarrow>
       (if i = Base Jalr then Inr (D_Jalr (usize_of rd) (usize_of rs1) (scast immediate))
        else if i \<in> set (map Base [Lb, Lh, Lw, Ld, Lbu, Lhu, Lwu])
        then Inr (D_Load (funct3 word) (usize_of rd) (usize_of rs1) (scast immediate))
        else if i \<in> set (map Base [Addi, Slti, Sltiu, Xori, Ori, Andi, Slli, Srli, Srai])
        then Inr (D_AluImm (funct3 word) (funct7 word) (usize_of rd) (usize_of rs1) (scast immediate))
        else if i \<in> set (map Base [Addiw, Slliw, Srliw, Sraiw])
        then Inr (D_AluImm32 (funct3 word) (funct7 word) (usize_of rd) (usize_of rs1) (scast immediate))
        else illegal word)
   | Ops_Branch rs1 rs2 offset \<Rightarrow>
       (if i \<in> set (map Base [Beq, Bne, Blt, Bge, Bltu, Bgeu])
        then Inr (D_Branch (funct3 word) (usize_of rs1) (usize_of rs2) (scast offset)) else illegal word)
   | Ops_Store rs1 rs2 immediate \<Rightarrow>
       (if i \<in> set (map Base [Sb, Sh, Sw, Sd])
        then Inr (D_Store (funct3 word) (usize_of rs1) (usize_of rs2) (scast immediate)) else illegal word)
   | Ops_Fence fm predecessor successor \<Rightarrow>
       (if i = Base Fence then Inr (D_Fence fm predecessor successor) else illegal word)
   | Ops_None \<Rightarrow>
       (if i = Base FenceI then Inr D_FenceI
        else if i = Base base_id.Ecall then Inr D_Ecall
        else if i = Base base_id.Ebreak then Inr D_Ebreak
        else if i = Base base_id.Mret then Inr D_Mret
        else if i = Base base_id.Sret then Inr D_Sret
        else if i = Base SfenceVma then Inr D_SfenceVma
        else if i = Base Wfi then Inr D_Wfi
        else illegal word)
   | Ops_Csr rd source csr \<Rightarrow>
       (if i \<in> set (map Base [Csrrw, Csrrs, Csrrc, Csrrwi, Csrrsi, Csrrci])
        then Inr (D_Csr (funct3 word) (usize_of rd) (unat source) csr) else illegal word)
   | _ \<Rightarrow> illegal word)"

definition insn_of_atomic :: "u32 \<Rightarrow> decoded_instruction \<Rightarrow> decoded_insn result" where
  "insn_of_atomic word d = (case di_operands d of
     Ops_Atomic rd rs1 rs2 acquire release \<Rightarrow>
       Inr (D_Atomic (ucast (field word 31 27)) acquire release (funct3 word) (usize_of rd)
         (usize_of rs1) (usize_of rs2))
   | _ \<Rightarrow> illegal word)"

definition fmac_op_of :: "instruction_id \<Rightarrow> f_mac_op option" where
  "fmac_op_of i =
     (if i \<in> {Fp FmaddS, Fp FmaddD} then Some Fmadd
      else if i \<in> {Fp FmsubS, Fp FmsubD} then Some Fmsub
      else if i \<in> {Fp FnmsubS, Fp FnmsubD} then Some Fnmsub
      else if i \<in> {Fp FnmaddS, Fp FnmaddD} then Some Fnmadd
      else None)"

definition insn_of_floating :: "u32 \<Rightarrow> decoded_instruction \<Rightarrow> decoded_insn result" where
  "insn_of_floating word d = (case di_operands d of
     Ops_Floating rd rs1 rs2 rs3 rounding_mode immediate \<Rightarrow>
       (case instruction_spec_of (di_id d) of
          None \<Rightarrow> illegal word
        | Some spec \<Rightarrow>
          (if spec_format spec = Fmt_FloatingLoad
           then Inr (D_FLoad (funct3 word) (unat rd) (unat rs1) (scast immediate))
           else if spec_format spec = Fmt_FloatingStore
           then Inr (D_FStore (funct3 word) (unat rs1) (unat rs2) (scast immediate))
           else if spec_format spec = Fmt_FloatingOp
           then Inr (D_FOp (ucast (field word 31 27)) (ucast (field word 26 25)) rounding_mode
                  (unat rd) (unat rs1) (unat rs2))
           else if spec_format spec = Fmt_FloatingFused
           then (case fmac_op_of (di_id d) of
                   None \<Rightarrow> illegal word
                 | Some op \<Rightarrow> Inr (D_FMac op (ucast (field word 26 25)) rounding_mode (unat rd) (unat rs1)
                     (unat rs2) (unat rs3)))
           else illegal word))
   | _ \<Rightarrow> illegal word)"

definition decode :: "u32 \<Rightarrow> decoded_insn result" where
  "decode word = (case decode_upper_immediate word of Inr d \<Rightarrow> insn_of_upper word d | Inl _ \<Rightarrow>
     (case decode_register_register word of Inr d \<Rightarrow> insn_of_rr word d | Inl _ \<Rightarrow>
       (case decode_base_integer word of Inr d \<Rightarrow> insn_of_base word d | Inl _ \<Rightarrow>
         (case decode_atomic word of Inr d \<Rightarrow> insn_of_atomic word d | Inl _ \<Rightarrow>
           (case decode_floating word of Inr d \<Rightarrow> insn_of_floating word d | Inl _ \<Rightarrow>
             illegal word)))))"

end
