(* ===== verification/Decoder_Correct.thy ===== *)
theory Decoder_Correct
  imports Decoder
begin

text \<open>
  The decoder of the virtual machine refines the shared instruction-set model: it accepts the
  same words, the identity it recomputes from the selector fields is the identity of the table
  row that matched, and its operands are those of the shared decoder.
\<close>

subsection \<open>Selector fields\<close>

lemma field_eq:
  assumes "lo \<le> hi" "hi < 32" "hi - lo < 31"
  shows "field w hi lo = drop_bit lo w AND mask (hi - lo + 1)"
  using assms by (simp add: field_def mask_eq_exp_minus_1 push_bit_eq_mult)

lemma bit_selectors:
  "bit (funct3 w) n = (n < 3 \<and> bit w (12 + n))"
  "bit (funct7 w) n = (n < 7 \<and> bit w (25 + n))"
  "bit (ucast (field w 31 27) :: u8) n = (n < 5 \<and> bit w (27 + n))"
  "bit (ucast (field w 26 25) :: u8) n = (n < 2 \<and> bit w (25 + n))"
  unfolding funct3_def funct7_def
  by (auto simp: field_eq bit_simps dest: bit_imp_le_length)

lemma selector_ranges:
  "funct3 w < 8" "funct7 w < 128" "(ucast (field w 31 27) :: u8) < 32" "(ucast (field w 26 25) :: u8) < 4"
proof -
  have "unat (funct3 w) < 2 ^ 3" "unat (funct7 w) < 2 ^ 7"
    "unat (ucast (field w 31 27) :: u8) < 2 ^ 5" "unat (ucast (field w 26 25) :: u8) < 2 ^ 2"
    by (rule unat_less_of_bits, simp only: bit_selectors)+
  then show "funct3 w < 8" "funct7 w < 128" "(ucast (field w 31 27) :: u8) < 32"
    "(ucast (field w 26 25) :: u8) < 4"
    by (simp_all add: word_less_nat_alt)
qed

text \<open>The words \<open>instruction_id\<close> rebuilds agree with the instruction word on the bits of the
  masks.\<close>

lemma rebuilt_words:
  assumes "w AND 0x7F = opc"
  shows "(push_bit 12 (ucast (funct3 w)) OR opc) AND 0x707F = w AND 0x707F"
    and "(push_bit 25 (ucast (funct7 w)) OR push_bit 12 (ucast (funct3 w)) OR opc) AND 0xFE00707F = w AND 0xFE00707F"
    and "(push_bit 27 (ucast (ucast (field w 31 27) :: u8)) OR push_bit 20 (ucast (reg_field 20 w))
       OR push_bit 12 (ucast (funct3 w)) OR opc) AND 0xF9F0707F = w AND 0xF9F0707F"
    and "(push_bit 27 (ucast (ucast (field w 31 27) :: u8)) OR push_bit 25 (ucast (ucast (field w 26 25) :: u8))
       OR push_bit 20 (ucast (reg_field 20 w)) OR push_bit 12 (ucast (ucast (drop_bit 12 w AND 0x7) :: u8)) OR opc)
       AND 0xFFF0707F = w AND 0xFFF0707F"
    and "(push_bit 25 (ucast (ucast (field w 26 25) :: u8)) OR opc) AND 0x0600007F = w AND 0x0600007F"
  unfolding assms [symmetric]
  by (rule u32_blast; simp add: bit_simps bit_selectors bit_reg_field field_eq)+

lemma agree_on_mask:
  fixes w w' m K :: u32
  assumes "w' AND K = w AND K" "m AND K = m"
  shows "w' AND m = w AND m"
proof -
  have "x AND m = (x AND K) AND m" for x
    using assms(2) by (simp add: and.assoc and.commute [of K])
  with assms(1) show ?thesis by metis
qed

lemma opcode_of_row:
  assumes "w AND spec_mask s = spec_match_bits s" "spec_mask s AND 0x7F = 0x7F"
  shows "w AND 0x7F = spec_match_bits s AND 0x7F"
  using assms by (metis and.assoc)

subsection \<open>The identity of a matching word\<close>

lemma decoded_id_base:
  assumes "s \<in> set BASE_INTEGER_SPECS" "w AND spec_mask s = spec_match_bits s"
  shows "decoded_id (decode_base_integer w) = Some (spec_id s)"
proof -
  have "base_integer_operands (spec_format s) w \<noteq> None"
    using base_masks [OF assms(1)] by (auto simp: base_integer_operands_def base_mask_def Let_def split: if_splits)
  then show ?thesis
    using base_table.find_match [OF assms] by (auto simp: decode_base_integer_def decoded_id_def)
qed

lemma decoded_id_atomic:
  assumes "s \<in> set ATOMIC_SPECS" "w AND spec_mask s = spec_match_bits s"
  shows "decoded_id (decode_atomic w) = Some (spec_id s)"
  using atomic_table.find_match [OF assms] by (simp add: decode_atomic_def decoded_id_def)

lemma decoded_id_floating:
  assumes "s \<in> set FLOATING_SPECS" "w AND spec_mask s = spec_match_bits s"
    "rm_fixed s \<or> valid_rounding_mode (ucast (drop_bit 12 w AND 0x7))"
  shows "decoded_id (decode_floating w) = Some (spec_id s)"
  using fp_table.find_match [OF assms(1,2)] assms(3)
  by (auto simp: decode_floating_def decoded_id_def rm_fixed_def Let_def)

text \<open>The rows of a table by format: opcode and identities.\<close>

definition base_row_ok :: "instruction_id \<times> instruction_format \<times> u32 \<Rightarrow> bool" where
  "base_row_ok = (\<lambda>(i, f, opc).
     if f = Fmt_Branch then i \<in> set (map Base [Beq, Bne, Blt, Bge, Bltu, Bgeu]) \<and> opc = 0x63
     else if f = Fmt_Load then i \<in> set (map Base [Lb, Lh, Lw, Ld, Lbu, Lhu, Lwu]) \<and> opc = 0x03
     else if f = Fmt_Store then i \<in> set (map Base [Sb, Sh, Sw, Sd]) \<and> opc = 0x23
     else if f = Fmt_Immediate \<or> f = Fmt_ShiftImmediate
     then i \<in> set (map Base [Addi, Slti, Sltiu, Xori, Ori, Andi, Slli, Srli, Srai]) \<and> opc = 0x13
     else if f = Fmt_ImmediateWord \<or> f = Fmt_ShiftImmediateWord
     then i \<in> set (map Base [Addiw, Slliw, Srliw, Sraiw]) \<and> opc = 0x1B
     else if f = Fmt_CsrRegister \<or> f = Fmt_CsrImmediate
     then i \<in> set (map Base [Csrrw, Csrrs, Csrrc, Csrrwi, Csrrsi, Csrrci]) \<and> opc = 0x73
     else if f = Fmt_JumpRegister then i = Base Jalr
     else if f = Fmt_Jump then i = Base Jal
     else if f = Fmt_Fence then i = Base Fence
     else i \<in> set (map Base [FenceI, base_id.Ecall, base_id.Ebreak, base_id.Mret, base_id.Sret, SfenceVma, Wfi]))"

lemma base_rows: "s \<in> set BASE_INTEGER_SPECS \<Longrightarrow> base_row_ok (spec_id s, spec_format s, spec_match_bits s AND 0x7F)"
proof -
  have "list_all base_row_ok
      (map (\<lambda>s. (spec_id s, spec_format s, spec_match_bits s AND 0x7F)) BASE_INTEGER_SPECS)"
    by (simp only: table_rows, code_simp)
  moreover assume "s \<in> set BASE_INTEGER_SPECS"
  ultimately show ?thesis by (auto simp: list_all_iff)
qed

definition fp_row_ok :: "instruction_id \<times> instruction_format \<times> u32 \<Rightarrow> bool" where
  "fp_row_ok = (\<lambda>(i, f, opc).
     if f = Fmt_FloatingLoad then opc = 0x07
     else if f = Fmt_FloatingStore then opc = 0x27
     else if f = Fmt_FloatingOp then opc = 0x53
     else map_option fmac_opcode (fmac_op_of i) = Some opc)"

lemma fp_rows: "s \<in> set FLOATING_SPECS \<Longrightarrow> fp_row_ok (spec_id s, spec_format s, spec_match_bits s AND 0x7F)"
proof -
  have "list_all fp_row_ok
      (map (\<lambda>s. (spec_id s, spec_format s, spec_match_bits s AND 0x7F)) FLOATING_SPECS)"
    by (simp only: table_rows, code_simp)
  moreover assume "s \<in> set FLOATING_SPECS"
  ultimately show ?thesis by (auto simp: list_all_iff)
qed

text \<open>The search over all tables finds the row of an identity.\<close>

definition table_no :: "instruction_id \<Rightarrow> nat" where
  "table_no i = (case i of Upper _ \<Rightarrow> 0 | Rr _ \<Rightarrow> 1 | Base _ \<Rightarrow> 2 | Atomic _ \<Rightarrow> 3 | Fp _ \<Rightarrow> 4)"

lemma table_ids:
  "list_all (\<lambda>s. table_no (spec_id s) = 0) UPPER_IMMEDIATE_SPECS"
  "list_all (\<lambda>s. table_no (spec_id s) = 1) REGISTER_REGISTER_SPECS"
  "list_all (\<lambda>s. table_no (spec_id s) = 2) BASE_INTEGER_SPECS"
  "list_all (\<lambda>s. table_no (spec_id s) = 3) ATOMIC_SPECS"
  "list_all (\<lambda>s. table_no (spec_id s) = 4) FLOATING_SPECS"
  by (simp_all add: table_rows table_no_def)

lemma find_other_table:
  "list_all (\<lambda>s. table_no (spec_id s) = n) T \<Longrightarrow> table_no i \<noteq> n \<Longrightarrow> find (\<lambda>s. spec_id s = i) T = None"
  by (auto simp: find_None_iff list_all_iff)

lemma find_append: "find p (us @ vs) = (case find p us of Some u \<Rightarrow> Some u | None \<Rightarrow> find p vs)"
  by (induction us) auto

lemma instruction_spec_of_row:
  "s \<in> set REGISTER_REGISTER_SPECS \<Longrightarrow> instruction_spec_of (spec_id s) = Some s"
  "s \<in> set FLOATING_SPECS \<Longrightarrow> instruction_spec_of (spec_id s) = Some s"
proof -
  note other = find_other_table [OF table_ids(1)] find_other_table [OF table_ids(2)]
    find_other_table [OF table_ids(3)] find_other_table [OF table_ids(4)]
  show "instruction_spec_of (spec_id s) = Some s" if "s \<in> set REGISTER_REGISTER_SPECS"
  proof -
    have "table_no (spec_id s) = 1" using that table_ids(2) by (auto simp: list_all_iff)
    with that show ?thesis
      by (simp add: instruction_spec_of_def instruction_specs_def find_append other rr_table.find_id)
  qed
  show "instruction_spec_of (spec_id s) = Some s" if "s \<in> set FLOATING_SPECS"
  proof -
    have "table_no (spec_id s) = 4" using that table_ids(5) by (auto simp: list_all_iff)
    with that show ?thesis
      by (simp add: instruction_spec_of_def instruction_specs_def find_append other fp_table.find_id)
  qed
qed

lemma rr_selectors:
  assumes s: "s \<in> set REGISTER_REGISTER_SPECS" and w: "w AND spec_mask s = spec_match_bits s"
  shows "drop_bit 12 (spec_match_bits s) AND 0x7 = ucast (funct3 w)"
    and "drop_bit 25 (spec_match_bits s) AND 0x7F = ucast (funct7 w)"
  unfolding w [symmetric] rr_masks [OF s]
  by (rule u32_blast; simp add: bit_simps bit_selectors)+

lemma rr_formats:
  assumes "s \<in> set REGISTER_REGISTER_SPECS"
  shows "spec_format s \<in> {Fmt_RegisterRegister, Fmt_RegisterRegisterWord}
    \<and> spec_match_bits s AND 0x7F = (if spec_format s = Fmt_RegisterRegister then 0x33 else 0x3B)"
proof -
  have "list_all (\<lambda>(f, b). f \<in> set [Fmt_RegisterRegister, Fmt_RegisterRegisterWord] \<and>
      b AND 0x7F = (if f = Fmt_RegisterRegister then 0x33 else 0x3B))
      (map (\<lambda>s. (spec_format s, spec_match_bits s)) REGISTER_REGISTER_SPECS)"
    by (simp only: table_rows, code_simp)
  with assms show ?thesis by (auto simp: list_all_iff)
qed

lemma rr_match_from_selectors:
  assumes s: "s \<in> set REGISTER_REGISTER_SPECS" "t \<in> set REGISTER_REGISTER_SPECS"
    and "spec_format t = spec_format s"
    "drop_bit 12 (spec_match_bits t) AND 0x7 = drop_bit 12 (spec_match_bits s) AND 0x7"
    "drop_bit 25 (spec_match_bits t) AND 0x7F = drop_bit 25 (spec_match_bits s) AND 0x7F"
  shows "spec_match_bits t = spec_match_bits s"
proof (rule u32_eqI)
  fix n :: nat assume "n < 32"
  have opc: "spec_match_bits t AND 0x7F = spec_match_bits s AND 0x7F"
    using rr_formats [OF s(1)] rr_formats [OF s(2)] assms(3) by simp
  have u: "bit (spec_match_bits r) n \<Longrightarrow> n < 7 \<or> (12 \<le> n \<and> n < 15) \<or> 25 \<le> n"
    if "r \<in> set REGISTER_REGISTER_SPECS" for r
    using rr_table.match_under_mask [OF that, of n] by (auto simp only: rr_masks [OF that] literal_bits)
  consider "n < 7" | "12 \<le> n" "n < 15" | "25 \<le> n" | "\<not> (n < 7 \<or> (12 \<le> n \<and> n < 15) \<or> 25 \<le> n)"
    by blast
  then show "bit (spec_match_bits t) n = bit (spec_match_bits s) n"
  proof cases
    case 1 with arg_cong [OF opc, of "\<lambda>v. bit v n"] show ?thesis
      by (simp only: word_bits) simp
  next
    case 2 with arg_cong [OF assms(4), of "\<lambda>v. bit v (n - 12)"] show ?thesis
      by (simp only: word_bits) (simp add: less_diff_conv2)
  next
    case 3 with \<open>n < 32\<close> arg_cong [OF assms(5), of "\<lambda>v. bit v (n - 25)"] show ?thesis
      by (simp only: word_bits) (simp add: less_diff_conv2)
  next
    case 4 with u s show ?thesis by blast
  qed
qed

lemma rr_identity:
  assumes s: "s \<in> set REGISTER_REGISTER_SPECS" and w: "w AND spec_mask s = spec_match_bits s"
  shows "register_register_instruction (spec_format s) (funct3 w) (funct7 w) = Some (spec_id s)"
proof -
  have "find (\<lambda>t. spec_format t = spec_format s
      \<and> drop_bit 12 (spec_match_bits t) AND 0x7 = ucast (funct3 w)
      \<and> drop_bit 25 (spec_match_bits t) AND 0x7F = ucast (funct7 w)) REGISTER_REGISTER_SPECS = Some s"
  proof (rule find_unique [OF s])
    show "spec_format s = spec_format s \<and> drop_bit 12 (spec_match_bits s) AND 0x7 = ucast (funct3 w)
      \<and> drop_bit 25 (spec_match_bits s) AND 0x7F = ucast (funct7 w)"
      using rr_selectors [OF s w] by blast
    fix t assume t: "t \<in> set REGISTER_REGISTER_SPECS" "spec_format t = spec_format s \<and>
      drop_bit 12 (spec_match_bits t) AND 0x7 = ucast (funct3 w) \<and>
      drop_bit 25 (spec_match_bits t) AND 0x7F = ucast (funct7 w)"
    then have "spec_match_bits t = spec_match_bits s"
      using rr_match_from_selectors [OF s t(1)] rr_selectors [OF s w] by presburger
    then have "w AND spec_mask t = spec_match_bits t" using w rr_masks s t(1) by metis
    with w show "t = s" using rr_table.at_most_one [OF s t(1)] by blast
  qed
  then show ?thesis by (simp add: register_register_instruction_def)
qed

subsection \<open>The operands in the shared form\<close>

definition insn_operands :: "decoded_insn \<Rightarrow> decoded_operands" where
  "insn_operands insn = (let r = (\<lambda>n. IntReg (of_nat n)) in case insn of
     D_Lui rd imm \<Rightarrow> Ops_UpperImmediate (r rd) (ucast imm)
   | D_Auipc rd imm \<Rightarrow> Ops_UpperImmediate (r rd) (ucast imm)
   | D_Jal rd imm \<Rightarrow> Ops_Jump (r rd) (ucast imm)
   | D_Jalr rd rs1 imm \<Rightarrow> Ops_Immediate (r rd) (r rs1) (ucast imm)
   | D_Branch _ rs1 rs2 imm \<Rightarrow> Ops_Branch (r rs1) (r rs2) (ucast imm)
   | D_Load _ rd rs1 imm \<Rightarrow> Ops_Immediate (r rd) (r rs1) (ucast imm)
   | D_Store _ rs1 rs2 imm \<Rightarrow> Ops_Store (r rs1) (r rs2) (ucast imm)
   | D_AluImm _ _ rd rs1 imm \<Rightarrow> Ops_Immediate (r rd) (r rs1) (ucast imm)
   | D_AluImm32 _ _ rd rs1 imm \<Rightarrow> Ops_Immediate (r rd) (r rs1) (ucast imm)
   | D_Alu _ _ rd rs1 rs2 \<Rightarrow> Ops_RegisterRegister (r rd) (r rs1) (r rs2)
   | D_Alu32 _ _ rd rs1 rs2 \<Rightarrow> Ops_RegisterRegister (r rd) (r rs1) (r rs2)
   | D_Fence fm pred succ \<Rightarrow> Ops_Fence fm pred succ
   | D_Csr _ rd source csr \<Rightarrow> Ops_Csr (r rd) (of_nat source) csr
   | D_FLoad _ rd rs1 imm \<Rightarrow> Ops_Floating (of_nat rd) (of_nat rs1) 0 0 0 (ucast imm)
   | D_FStore _ rs1 rs2 imm \<Rightarrow> Ops_Floating 0 (of_nat rs1) (of_nat rs2) 0 0 (ucast imm)
   | D_FOp _ _ rm rd rs1 rs2 \<Rightarrow> Ops_Floating (of_nat rd) (of_nat rs1) (of_nat rs2) 0 rm 0
   | D_FMac _ _ rm rd rs1 rs2 rs3 \<Rightarrow>
       Ops_Floating (of_nat rd) (of_nat rs1) (of_nat rs2) (of_nat rs3) rm 0
   | D_Atomic _ aq rl _ rd rs1 rs2 \<Rightarrow> Ops_Atomic (r rd) (r rs1) (r rs2) aq rl
   | _ \<Rightarrow> Ops_None)"

text \<open>A decoded instruction of the VM stands for one of the shared model.\<close>

definition represents :: "decoded_insn \<Rightarrow> decoded_instruction \<Rightarrow> bool" where
  "represents insn d \<longleftrightarrow> insn_id insn = Some (di_id d) \<and>
     canonical_operands \<lparr>di_id = di_id d, di_operands = insn_operands insn\<rparr> = canonical_operands d"

lemma ucast_scast_i32 [simp]: "(ucast (scast (v :: i32) :: i64) :: i32) = v"
  by (simp add: bit_eq_iff bit_simps)

lemma upper_represents:
  assumes "decode_upper_immediate w = Inr d"
  shows "\<exists>insn. insn_of_upper w d = Inr insn \<and> represents insn d"
proof -
  from assms obtain s where "s \<in> set UPPER_IMMEDIATE_SPECS" and d: "d = \<lparr>di_id = spec_id s,
      di_operands = Ops_UpperImmediate (IntReg (reg_field 7 w)) (w AND 0xFFFFF000)\<rparr>"
    by (auto simp: decode_upper_immediate_def split: option.splits dest!: upper_table.find_match_SomeD)
  moreover from this(1) have "spec_id s = Upper Lui \<or> spec_id s = Upper Auipc"
    by (auto simp: UPPER_IMMEDIATE_SPECS_def upper_immediate_spec_def)
  ultimately show ?thesis
    by (auto simp: insn_of_upper_def represents_def insn_id_def insn_operands_def)
qed

lemma rr_represents:
  assumes "decode_register_register w = Inr d"
  shows "\<exists>insn. insn_of_rr w d = Inr insn \<and> represents insn d"
proof -
  from assms obtain s where s: "s \<in> set REGISTER_REGISTER_SPECS" "w AND spec_mask s = spec_match_bits s"
    and d: "d = \<lparr>di_id = spec_id s, di_operands = Ops_RegisterRegister (IntReg (reg_field 7 w))
      (IntReg (reg_field 15 w)) (IntReg (reg_field 20 w))\<rparr>"
    by (auto simp: decode_register_register_def split: option.splits dest!: rr_table.find_match_SomeD)
  with rr_identity [OF s] rr_formats [OF s(1)] instruction_spec_of_row(1) [OF s(1)] show ?thesis
    by (auto simp: insn_of_rr_def represents_def insn_id_def insn_operands_def)
qed

lemma base_mask_keeps_opcode:
  assumes "s \<in> set BASE_INTEGER_SPECS"
  shows "spec_mask s AND 0x7F = 0x7F"
  using assms base_table.keys_ok by (auto simp: list_all_iff key_ok_def spec_key_def)

lemma base_rebuilt_id:
  assumes s: "s \<in> set BASE_INTEGER_SPECS" and w: "w AND spec_mask s = spec_match_bits s"
    and opc: "spec_match_bits s AND 0x7F = opc"
  shows "spec_mask s = 0x707F \<Longrightarrow>
      decoded_id (decode_base_integer (push_bit 12 (ucast (funct3 w)) OR opc)) = Some (spec_id s)"
    and "spec_mask s \<in> {0x707F, 0xFC00707F, 0xFE00707F} \<Longrightarrow>
      decoded_id (decode_base_integer (push_bit 25 (ucast (funct7 w)) OR push_bit 12 (ucast (funct3 w)) OR opc))
        = Some (spec_id s)"
proof -
  have o: "w AND 0x7F = opc"
    using opcode_of_row [OF w base_mask_keeps_opcode [OF s]] opc by simp
  show "decoded_id (decode_base_integer (push_bit 12 (ucast (funct3 w)) OR opc)) = Some (spec_id s)"
    if "spec_mask s = 0x707F"
    by (rule decoded_id_base [OF s]) (simp only: that rebuilt_words(1) [OF o] w [unfolded that])
  show "decoded_id (decode_base_integer (push_bit 25 (ucast (funct7 w)) OR push_bit 12 (ucast (funct3 w)) OR opc))
        = Some (spec_id s)" if "spec_mask s \<in> {0x707F, 0xFC00707F, 0xFE00707F}"
  proof (rule decoded_id_base [OF s])
    from that have "spec_mask s AND 0xFE00707F = spec_mask s" by auto
    from agree_on_mask [OF rebuilt_words(2) [OF o] this] w
    show "(push_bit 25 (ucast (funct7 w)) OR push_bit 12 (ucast (funct3 w)) OR opc) AND spec_mask s
      = spec_match_bits s" by (simp only:)
  qed
qed

lemma base_represents:
  assumes "decode_base_integer w = Inr d"
  shows "\<exists>insn. insn_of_base w d = Inr insn \<and> represents insn d"
proof -
  from assms obtain s ops where s: "s \<in> set BASE_INTEGER_SPECS" "w AND spec_mask s = spec_match_bits s"
    and o: "base_integer_operands (spec_format s) w = Some ops"
    and d: "d = \<lparr>di_id = spec_id s, di_operands = ops\<rparr>"
    by (auto simp: decode_base_integer_def split: option.splits dest!: base_table.find_match_SomeD)
  note id = base_rebuilt_id [OF s]
  note row = base_rows [OF s(1), unfolded base_row_ok_def prod.case]
  note mask = base_masks [OF s(1), unfolded base_mask_def]
  note r = d insn_of_base_def represents_def insn_id_def insn_operands_def canonical_operands_def Let_def
  consider "spec_format s = Fmt_Branch" | "spec_format s = Fmt_Load" | "spec_format s = Fmt_Store"
    | "spec_format s \<in> set [Fmt_Immediate, Fmt_ShiftImmediate]"
    | "spec_format s \<in> set [Fmt_ImmediateWord, Fmt_ShiftImmediateWord]"
    | "spec_format s \<in> set [Fmt_CsrRegister, Fmt_CsrImmediate]"
    | "spec_format s \<in> set [Fmt_JumpRegister, Fmt_Jump, Fmt_Fence, Fmt_FenceI, Fmt_System]"
    using mask by (auto split: if_splits)
  then show ?thesis
  proof cases
    case 1
    then have "spec_id s \<in> set (map Base [Beq, Bne, Blt, Bge, Bltu, Bgeu])" "spec_match_bits s AND 0x7F = 0x63"
      "spec_mask s = 0x707F" using row mask by simp_all
    with 1 o id(1) [OF this(2,3)] show ?thesis by (auto simp: r base_integer_operands_def)
  next
    case 2
    then have "spec_id s \<in> set (map Base [Lb, Lh, Lw, Ld, Lbu, Lhu, Lwu])" "spec_match_bits s AND 0x7F = 0x03"
      "spec_mask s = 0x707F" using row mask by simp_all
    with 2 o id(1) [OF this(2,3)] show ?thesis by (auto simp: r base_integer_operands_def)
  next
    case 3
    then have "spec_id s \<in> set (map Base [Sb, Sh, Sw, Sd])" "spec_match_bits s AND 0x7F = 0x23"
      "spec_mask s = 0x707F" using row mask by simp_all
    with 3 o id(1) [OF this(2,3)] show ?thesis by (auto simp: r base_integer_operands_def)
  next
    case 4
    then have "spec_id s \<in> set (map Base [Addi, Slti, Sltiu, Xori, Ori, Andi, Slli, Srli, Srai])"
      "spec_match_bits s AND 0x7F = 0x13" "spec_mask s \<in> {0x707F, 0xFC00707F, 0xFE00707F}"
      using row mask by auto
    moreover from this(1) have "(spec_id s = Base Jalr) = False"
      "(spec_id s \<in> set (map Base [Lb, Lh, Lw, Ld, Lbu, Lhu, Lwu])) = False" by auto
    moreover note e = id(2) [OF calculation(2,3)]
    moreover from 4 o obtain imm where ops:
      "ops = Ops_Immediate (IntReg (reg_field 7 w)) (IntReg (reg_field 15 w)) imm"
      by (auto simp: base_integer_operands_def Let_def split: if_splits)
    ultimately have "insn_of_base w d = Inr (D_AluImm (funct3 w) (funct7 w) (unat (reg_field 7 w))
        (unat (reg_field 15 w)) (scast imm))"
      by (simp only: d ops insn_of_base_def Let_def decoded_instruction.simps decoded_operands.case
          int_reg.sel if_True if_False)
    moreover have "represents (D_AluImm (funct3 w) (funct7 w) (unat (reg_field 7 w))
        (unat (reg_field 15 w)) (scast imm)) d"
      using e by (simp add: d ops represents_def insn_id_def insn_operands_def)
    ultimately show ?thesis by blast
  next
    case 5
    then have "spec_id s \<in> set (map Base [Addiw, Slliw, Srliw, Sraiw])"
      "spec_match_bits s AND 0x7F = 0x1B" "spec_mask s \<in> {0x707F, 0xFC00707F, 0xFE00707F}"
      using row mask by auto
    moreover from this(1) have "(spec_id s = Base Jalr) = False"
      "(spec_id s \<in> set (map Base [Lb, Lh, Lw, Ld, Lbu, Lhu, Lwu])) = False"
      "(spec_id s \<in> set (map Base [Addi, Slti, Sltiu, Xori, Ori, Andi, Slli, Srli, Srai])) = False" by auto
    moreover note e = id(2) [OF calculation(2,3)]
    moreover from 5 o obtain imm where ops:
      "ops = Ops_Immediate (IntReg (reg_field 7 w)) (IntReg (reg_field 15 w)) imm"
      by (auto simp: base_integer_operands_def Let_def split: if_splits)
    ultimately have "insn_of_base w d = Inr (D_AluImm32 (funct3 w) (funct7 w) (unat (reg_field 7 w))
        (unat (reg_field 15 w)) (scast imm))"
      by (simp only: d ops insn_of_base_def Let_def decoded_instruction.simps decoded_operands.case
          int_reg.sel if_True if_False)
    moreover have "represents (D_AluImm32 (funct3 w) (funct7 w) (unat (reg_field 7 w))
        (unat (reg_field 15 w)) (scast imm)) d"
      using e by (simp add: d ops represents_def insn_id_def insn_operands_def)
    ultimately show ?thesis by blast
  next
    case 6
    then have "spec_id s \<in> set (map Base [Csrrw, Csrrs, Csrrc, Csrrwi, Csrrsi, Csrrci])"
      "spec_match_bits s AND 0x7F = 0x73" "spec_mask s = 0x707F" using row mask by auto
    with 6 o id(1) [OF this(2,3)] show ?thesis by (auto simp: r base_integer_operands_def)
  next
    case 7
    with row o show ?thesis by (auto simp: r base_integer_operands_def)
  qed
qed

lemma u32_try_from_reg: "u32_try_from (unat (reg_field k w)) = Some (ucast (reg_field k w))"
  using reg_field_less [of k w] by (simp add: u32_try_from_def word_less_nat_alt)

lemma atomic_represents:
  assumes "decode_atomic w = Inr d"
  shows "\<exists>insn. insn_of_atomic w d = Inr insn \<and> represents insn d"
proof -
  from assms obtain s where s: "s \<in> set ATOMIC_SPECS" and w: "w AND spec_mask s = spec_match_bits s"
    and d: "d = \<lparr>di_id = spec_id s, di_operands = Ops_Atomic (IntReg (reg_field 7 w)) (IntReg (reg_field 15 w))
      (IntReg (reg_field 20 w)) (w AND push_bit 26 1 \<noteq> 0) (w AND push_bit 25 1 \<noteq> 0)\<rparr>"
    by (auto simp: decode_atomic_def split: option.splits dest!: atomic_table.find_match_SomeD)
  have o: "w AND 0x7F = 0x2F" using atomic_table.opcode_of_match [OF s w] by simp
  have m: "spec_mask s AND 0xF9F0707F = spec_mask s" unfolding atomic_masks [OF s] by simp
  from agree_on_mask [OF rebuilt_words(3) [OF o] m] w
  have "decoded_id (decode_atomic (push_bit 27 (ucast (ucast (field w 31 27) :: u8))
      OR push_bit 20 (ucast (reg_field 20 w)) OR push_bit 12 (ucast (funct3 w)) OR 0x2F)) = Some (spec_id s)"
    by (intro decoded_id_atomic [OF s]) (simp only:)
  then show ?thesis
    by (simp add: d insn_of_atomic_def represents_def insn_id_def insn_operands_def u32_try_from_reg)
qed

lemma bit_rm: "bit (ucast (drop_bit 12 (w :: u32) AND 0x7) :: u8) n = (n < 3 \<and> bit w (12 + n))"
  by (simp only: word_bits) auto

lemma rebuilt_rm:
  "(ucast (drop_bit 12 (push_bit 27 (ucast (ucast (field w 31 27) :: u8))
     OR push_bit 25 (ucast (ucast (field w 26 25) :: u8)) OR push_bit 20 (ucast (reg_field 20 w))
     OR push_bit 12 (ucast (ucast (drop_bit 12 w AND 0x7) :: u8)) OR (0x53 :: u32)) AND 0x7) :: u8)
   = ucast (drop_bit 12 w AND 0x7)"
proof (rule bit_word_eqI)
  have o: "\<not> bit (0x53 :: u32) (12 + n)" for n
    using unat_less_bits [of "0x53 :: u32" 7 "12 + n"] by auto
  fix n assume "n < LENGTH(8)"
  show "bit (ucast (drop_bit 12 (push_bit 27 (ucast (ucast (field w 31 27) :: u8))
     OR push_bit 25 (ucast (ucast (field w 26 25) :: u8)) OR push_bit 20 (ucast (reg_field 20 w))
     OR push_bit 12 (ucast (ucast (drop_bit 12 w AND 0x7) :: u8)) OR (0x53 :: u32)) AND 0x7) :: u8) n
   = bit (ucast (drop_bit 12 w AND 0x7) :: u8) n"
    by (simp only: word_bits o) auto
qed

lemma floating_rebuilt_id:
  assumes s: "s \<in> set FLOATING_SPECS" and w: "w AND spec_mask s = spec_match_bits s"
    and rm: "rm_fixed s \<or> valid_rounding_mode (ucast (drop_bit 12 w AND 0x7))"
  shows "spec_format s = Fmt_FloatingLoad \<Longrightarrow>
      decoded_id (decode_floating (push_bit 12 (ucast (funct3 w)) OR 0x07)) = Some (spec_id s)"
    and "spec_format s = Fmt_FloatingStore \<Longrightarrow>
      decoded_id (decode_floating (push_bit 12 (ucast (funct3 w)) OR 0x27)) = Some (spec_id s)"
    and "spec_format s = Fmt_FloatingOp \<Longrightarrow>
      decoded_id (decode_floating (push_bit 27 (ucast (ucast (field w 31 27) :: u8))
        OR push_bit 25 (ucast (ucast (field w 26 25) :: u8)) OR push_bit 20 (ucast (reg_field 20 w))
        OR push_bit 12 (ucast (ucast (drop_bit 12 w AND 0x7) :: u8)) OR 0x53)) = Some (spec_id s)"
    and "spec_format s = Fmt_FloatingFused \<Longrightarrow> fmac_op_of (spec_id s) = Some op \<Longrightarrow>
      decoded_id (decode_floating (push_bit 25 (ucast (ucast (field w 26 25) :: u8)) OR fmac_opcode op))
        = Some (spec_id s)"
proof -
  have "spec_mask s AND 0x7F = 0x7F"
    using s fp_table.keys_ok by (auto simp: list_all_iff key_ok_def spec_key_def)
  note o = opcode_of_row [OF w this]
  note row = fp_rows [OF s, unfolded fp_row_ok_def prod.case]
  note mask = fp_masks_of [OF s, unfolded fp_masks_def]
  have fl: "decoded_id (decode_floating (push_bit 12 (ucast (funct3 w)) OR opc)) = Some (spec_id s)"
    if "spec_mask s = 0x707F" "w AND 0x7F = opc" for opc
    by (rule decoded_id_floating [OF s])
      (simp_all only: that(1) rebuilt_words(1) [OF that(2)] w [unfolded that(1)] rm_fixed_def, simp)
  show "spec_format s = Fmt_FloatingLoad \<Longrightarrow>
      decoded_id (decode_floating (push_bit 12 (ucast (funct3 w)) OR 0x07)) = Some (spec_id s)"
    "spec_format s = Fmt_FloatingStore \<Longrightarrow>
      decoded_id (decode_floating (push_bit 12 (ucast (funct3 w)) OR 0x27)) = Some (spec_id s)"
    using row mask o by (intro fl; simp)+
  show "decoded_id (decode_floating (push_bit 27 (ucast (ucast (field w 31 27) :: u8))
        OR push_bit 25 (ucast (ucast (field w 26 25) :: u8)) OR push_bit 20 (ucast (reg_field 20 w))
        OR push_bit 12 (ucast (ucast (drop_bit 12 w AND 0x7) :: u8)) OR 0x53)) = Some (spec_id s)"
    if f: "spec_format s = Fmt_FloatingOp"
  proof (rule decoded_id_floating [OF s])
    have o: "w AND 0x7F = 0x53" using o row f by simp
    have m: "spec_mask s AND 0xFFF0707F = spec_mask s" using mask f by auto
    from agree_on_mask [OF rebuilt_words(4) [OF o] m] w
    show "(push_bit 27 (ucast (ucast (field w 31 27) :: u8))
        OR push_bit 25 (ucast (ucast (field w 26 25) :: u8)) OR push_bit 20 (ucast (reg_field 20 w))
        OR push_bit 12 (ucast (ucast (drop_bit 12 w AND 0x7) :: u8)) OR 0x53) AND spec_mask s = spec_match_bits s"
      by (simp only:)
  qed (use rm in \<open>simp only: rebuilt_rm\<close>)
  show "decoded_id (decode_floating (push_bit 25 (ucast (ucast (field w 26 25) :: u8)) OR fmac_opcode op))
        = Some (spec_id s)" if f: "spec_format s = Fmt_FloatingFused" "fmac_op_of (spec_id s) = Some op"
  proof (rule decoded_id_floating [OF s])
    have o: "w AND 0x7F = fmac_opcode op" using o row f by simp
    have m: "spec_mask s = 0x0600007F" using mask f by simp
    show "(push_bit 25 (ucast (ucast (field w 26 25) :: u8)) OR fmac_opcode op) AND spec_mask s = spec_match_bits s"
      using rebuilt_words(5) [OF o] w by (simp only: m)
    have "(ucast (drop_bit 12 (push_bit 25 (ucast (ucast (field w 26 25) :: u8)) OR fmac_opcode op) AND 0x7) :: u8) = 0"
    proof (rule bit_word_eqI)
      have oo: "\<not> bit (fmac_opcode op) (12 + n)" for n
        using unat_less_bits [of "fmac_opcode op" 7 "12 + n"] by (auto simp: fmac_opcode_def split: f_mac_op.splits)
      fix n assume "n < LENGTH(8)"
      show "bit (ucast (drop_bit 12 (push_bit 25 (ucast (ucast (field w 26 25) :: u8)) OR fmac_opcode op) AND 0x7) :: u8) n
        = bit (0 :: u8) n"
        by (simp only: word_bits oo) auto
    qed
    then show "rm_fixed s \<or> valid_rounding_mode
        (ucast (drop_bit 12 (push_bit 25 (ucast (ucast (field w 26 25) :: u8)) OR fmac_opcode op) AND 0x7))"
      by (simp only: valid_rounding_mode_def) simp
  qed
qed

lemma floating_represents:
  assumes "decode_floating w = Inr d"
  shows "\<exists>insn. insn_of_floating w d = Inr insn \<and> represents insn d"
proof -
  from assms obtain s imm where s: "s \<in> set FLOATING_SPECS" and w: "w AND spec_mask s = spec_match_bits s"
    and rm: "rm_fixed s \<or> valid_rounding_mode (ucast (drop_bit 12 w AND 0x7))"
    and d: "d = \<lparr>di_id = spec_id s, di_operands = Ops_Floating (reg_field 7 w) (reg_field 15 w) (reg_field 20 w)
         (reg_field 27 w) (ucast (drop_bit 12 w AND 0x7)) imm\<rparr>"
    by (auto simp: decode_floating_def rm_fixed_def Let_def split: option.splits if_splits
        dest!: fp_table.find_match_SomeD)
  note id = floating_rebuilt_id [OF s w rm]
  note row = fp_rows [OF s, unfolded fp_row_ok_def prod.case]
  note find = instruction_spec_of_row(2) [OF s] fp_table.find_id [OF s]
  note r = d insn_of_floating_def represents_def insn_id_def insn_operands_def canonical_operands_def
    canonical_floating_def find u32_try_from_reg
  show ?thesis
  proof (cases "spec_format s = Fmt_FloatingFused")
    case True
    with row obtain op where "fmac_op_of (spec_id s) = Some op" by auto
    with True id(4) [OF True this] show ?thesis by (simp add: r)
  next
    case False
    with fp_formats [OF s] consider "spec_format s = Fmt_FloatingLoad" | "spec_format s = Fmt_FloatingStore"
      | "spec_format s = Fmt_FloatingOp" by auto
    then show ?thesis by cases (simp_all add: r id(1-3))
  qed
qed

lemma decode_represents:
  "case decode_instruction w of
     Inl _ \<Rightarrow> decode w = Inl (IllegalInstruction w)
   | Inr d \<Rightarrow> \<exists>insn. decode w = Inr insn \<and> represents insn d"
proof -
  note rep = upper_represents [of w] rr_represents [of w] base_represents [of w] atomic_represents [of w]
    floating_represents [of w]
  show ?thesis
    unfolding decode_instruction_def decode_def
    by (cases "decode_upper_immediate w"; cases "decode_register_register w"; cases "decode_base_integer w";
        cases "decode_atomic w"; cases "decode_floating w"; simp add: rep)
qed

text \<open>C22. The decoder of the virtual machine accepts exactly the words of the shared instruction-set
  model and represents the same instruction; every other word is an illegal instruction.\<close>

theorem decode_refines_model:
  "case decode_instruction w of
     Inl _ \<Rightarrow> decode w = Inl (IllegalInstruction w)
   | Inr d \<Rightarrow> \<exists>insn. decode w = Inr insn \<and> represents insn d"
  by (rule decode_represents)

subsection \<open>Bounds of decoded fields\<close>

definition imm_in :: "nat \<Rightarrow> i64 \<Rightarrow> bool" where
  "imm_in k imm \<longleftrightarrow> - (2 ^ k) \<le> sint imm \<and> sint imm < 2 ^ k"

text \<open>A shift amount below the register width.\<close>

definition shamt_in :: "int \<Rightarrow> i64 \<Rightarrow> bool" where
  "shamt_in n imm \<longleftrightarrow> 0 \<le> sint imm \<and> sint imm < n"

text \<open>The fields fit their widths.\<close>

definition fields_wf :: "decoded_insn \<Rightarrow> bool" where
  "fields_wf insn = (case insn of
     D_Lui rd imm \<Rightarrow> rd < 32 \<and> imm_in 31 imm \<and> imm AND 0xFFF = 0
   | D_Auipc rd imm \<Rightarrow> rd < 32 \<and> imm_in 31 imm \<and> imm AND 0xFFF = 0
   | D_Jal rd imm \<Rightarrow> rd < 32 \<and> imm_in 20 imm \<and> \<not> bit imm 0
   | D_Jalr rd rs1 imm \<Rightarrow> rd < 32 \<and> rs1 < 32 \<and> imm_in 11 imm
   | D_Branch f3 rs1 rs2 imm \<Rightarrow> f3 < 8 \<and> rs1 < 32 \<and> rs2 < 32 \<and> imm_in 12 imm \<and> \<not> bit imm 0
   | D_Load f3 rd rs1 imm \<Rightarrow> f3 < 8 \<and> rd < 32 \<and> rs1 < 32 \<and> imm_in 11 imm
   | D_Store f3 rs1 rs2 imm \<Rightarrow> f3 < 8 \<and> rs1 < 32 \<and> rs2 < 32 \<and> imm_in 11 imm
   | D_AluImm f3 f7 rd rs1 imm \<Rightarrow> f3 < 8 \<and> f7 < 128 \<and> rd < 32 \<and> rs1 < 32 \<and> imm_in 11 imm
   | D_AluImm32 f3 f7 rd rs1 imm \<Rightarrow> f3 < 8 \<and> f7 < 128 \<and> rd < 32 \<and> rs1 < 32 \<and> imm_in 11 imm
   | D_Alu f3 f7 rd rs1 rs2 \<Rightarrow> f3 < 8 \<and> f7 < 128 \<and> rd < 32 \<and> rs1 < 32 \<and> rs2 < 32
   | D_Alu32 f3 f7 rd rs1 rs2 \<Rightarrow> f3 < 8 \<and> f7 < 128 \<and> rd < 32 \<and> rs1 < 32 \<and> rs2 < 32
   | D_Fence fm pred succ \<Rightarrow> fm < 16 \<and> pred < 16 \<and> succ < 16
   | D_Csr f3 rd source csr \<Rightarrow> f3 < 8 \<and> rd < 32 \<and> source < 32 \<and> csr < 0x1000
   | D_FLoad f3 rd rs1 imm \<Rightarrow> f3 < 8 \<and> rd < 32 \<and> rs1 < 32 \<and> imm_in 11 imm
   | D_FStore f3 rs1 rs2 imm \<Rightarrow> f3 < 8 \<and> rs1 < 32 \<and> rs2 < 32 \<and> imm_in 11 imm
   | D_FOp f5 fmt rm rd rs1 rs2 \<Rightarrow> f5 < 32 \<and> fmt < 4 \<and> rm < 8 \<and> rd < 32 \<and> rs1 < 32 \<and> rs2 < 32
   | D_FMac _ fmt rm rd rs1 rs2 rs3 \<Rightarrow> fmt < 4 \<and> rm < 8 \<and> rd < 32 \<and> rs1 < 32 \<and> rs2 < 32 \<and> rs3 < 32
   | D_Atomic f5 _ _ f3 rd rs1 rs2 \<Rightarrow> f5 < 32 \<and> f3 < 8 \<and> rd < 32 \<and> rs1 < 32 \<and> rs2 < 32
   | _ \<Rightarrow> True)"

text \<open>The selectors take only the values of existing instructions, and the immediate of an \<open>OP-IMM\<close>
  with selector 1 or 5 is a shift amount.\<close>

definition selectors_wf :: "decoded_insn \<Rightarrow> bool" where
  "selectors_wf insn = (case insn of
     D_Branch f3 _ _ _ \<Rightarrow> f3 \<in> set [0, 1, 4, 5, 6, 7]
   | D_Load f3 _ _ _ \<Rightarrow> f3 < 7
   | D_Store f3 _ _ _ \<Rightarrow> f3 < 4
   | D_AluImm f3 _ _ _ imm \<Rightarrow> f3 \<in> set [1, 5] \<longrightarrow> shamt_in 64 imm
   | D_AluImm32 f3 _ _ _ imm \<Rightarrow> f3 \<in> set [0, 1, 5] \<and> (f3 \<noteq> 0 \<longrightarrow> shamt_in 32 imm)
   | D_Csr f3 _ _ _ \<Rightarrow> f3 \<in> set [1, 2, 3, 5, 6, 7]
   | D_FLoad f3 _ _ _ \<Rightarrow> f3 \<in> set [2, 3]
   | D_FStore f3 _ _ _ \<Rightarrow> f3 \<in> set [2, 3]
   | D_FOp _ fmt _ _ _ _ \<Rightarrow> fmt < 2
   | D_FMac _ fmt _ _ _ _ _ \<Rightarrow> fmt < 2
   | D_Atomic _ _ _ f3 _ _ _ \<Rightarrow> f3 \<in> set [2, 3]
   | _ \<Rightarrow> True)"

definition insn_wf :: "decoded_insn \<Rightarrow> bool" where
  "insn_wf insn \<longleftrightarrow> fields_wf insn \<and> selectors_wf insn"

text \<open>The selectors of the rows, and what they say of a matching word.\<close>

lemma row_selectors:
  assumes "w AND m = b"
  shows "m AND 0x7000 = 0x7000 \<Longrightarrow> funct3 w = funct3 b"
    and "m AND 0x06000000 = 0x06000000 \<Longrightarrow> (ucast (field w 26 25) :: u8) = ucast (field b 26 25)"
proof -
  have sub: "bit w n = bit b n" if "m AND push_bit k (mask j) = push_bit k (mask j)" "k \<le> n" "n < k + j" "n < 32"
    for k j n
  proof -
    have "bit (m AND push_bit k (mask j)) n" unfolding that(1) using that(2-4) by (auto simp: bit_simps)
    then have "bit m n" by (simp add: bit_and_iff)
    then show ?thesis using assms by (auto simp: bit_simps)
  qed
  show "funct3 w = funct3 b" if "m AND 0x7000 = 0x7000"
    by (rule bit_word_eqI) (use sub [of 12 3] that in \<open>auto simp: bit_selectors mask_eq_exp_minus_1\<close>)
  show "(ucast (field w 26 25) :: u8) = ucast (field b 26 25)" if "m AND 0x06000000 = 0x06000000"
    by (rule bit_word_eqI) (use sub [of 25 2] that in \<open>auto simp: bit_selectors mask_eq_exp_minus_1\<close>)
qed

definition base_selector_ok :: "instruction_id \<times> instruction_format \<times> u32 \<times> u8 \<Rightarrow> bool" where
  "base_selector_ok = (\<lambda>(i, f, m, f3).
     if i = Base Jal then True
     else m AND 0x7000 = 0x7000 \<and>
       (if i \<in> set (map Base [Beq, Bne, Blt, Bge, Bltu, Bgeu]) then f3 \<in> set [0, 1, 4, 5, 6, 7]
        else if i \<in> set (map Base [Lb, Lh, Lw, Ld, Lbu, Lhu, Lwu]) then f3 < 7
        else if i \<in> set (map Base [Sb, Sh, Sw, Sd]) then f3 < 4
        else if i \<in> set (map Base [Addi, Slti, Sltiu, Xori, Ori, Andi])
        then f3 \<notin> set [1, 5] \<and> f = Fmt_Immediate
        else if i \<in> set (map Base [Slli, Srli, Srai]) then f3 \<in> set [1, 5] \<and> f = Fmt_ShiftImmediate
        else if i = Base Addiw then f3 = 0 \<and> f = Fmt_ImmediateWord
        else if i \<in> set (map Base [Slliw, Srliw, Sraiw]) then f3 \<in> set [1, 5] \<and> f = Fmt_ShiftImmediateWord
        else if i \<in> set (map Base [Csrrw, Csrrs, Csrrc, Csrrwi, Csrrsi, Csrrci])
        then f3 \<in> set [1, 2, 3, 5, 6, 7]
        else True))"

lemma base_selectors:
  assumes "decode_base_integer w = Inr d"
  obtains s :: instruction_spec where "base_selector_ok (di_id d, spec_format s, spec_mask s, funct3 w)"
    "base_integer_operands (spec_format s) w = Some (di_operands d)"
proof -
  from assms obtain s ops where s: "s \<in> set BASE_INTEGER_SPECS" "w AND spec_mask s = spec_match_bits s"
    "base_integer_operands (spec_format s) w = Some ops" "d = \<lparr>di_id = spec_id s, di_operands = ops\<rparr>"
    by (auto simp: decode_base_integer_def split: option.splits dest!: base_table.find_match_SomeD)
  have "list_all base_selector_ok
      (map (\<lambda>s. (spec_id s, spec_format s, spec_mask s, funct3 (spec_match_bits s))) BASE_INTEGER_SPECS)"
    by (simp only: table_rows, code_simp)
  with s(1) have row: "base_selector_ok (spec_id s, spec_format s, spec_mask s, funct3 (spec_match_bits s))"
    unfolding list_all_iff set_map by blast
  have "base_selector_ok (spec_id s, spec_format s, spec_mask s, funct3 w)"
  proof (cases "spec_mask s AND 0x7000 = 0x7000")
    case True
    show ?thesis using row unfolding row_selectors(1) [OF s(2) True] .
  next
    case False
    with row have "spec_id s = Base Jal"
      unfolding base_selector_ok_def prod.case by (simp only: simp_thms split: if_split_asm)
    then show ?thesis unfolding base_selector_ok_def prod.case by (simp only: simp_thms if_True)
  qed
  with s show thesis by (intro that [of s]) simp_all
qed

lemma atomic_selector:
  assumes "decode_atomic w = Inr d"
  shows "funct3 w \<in> set [2, 3]"
proof -
  from assms obtain s where s: "s \<in> set ATOMIC_SPECS" "w AND spec_mask s = spec_match_bits s"
    by (auto simp: decode_atomic_def split: option.splits dest!: atomic_table.find_match_SomeD)
  have "list_all (\<lambda>(m, f3). m AND 0x7000 = 0x7000 \<and> f3 \<in> set [2, 3])
      (map (\<lambda>s. (spec_mask s, funct3 (spec_match_bits s))) ATOMIC_SPECS)"
    by (simp only: table_rows, code_simp)
  with s row_selectors(1) [OF s(2)] show ?thesis by (auto simp: list_all_iff)
qed

lemma floating_selectors:
  assumes "decode_floating w = Inr d" "instruction_spec_of (di_id d) = Some s"
  shows "spec_format s \<in> set [Fmt_FloatingLoad, Fmt_FloatingStore] \<Longrightarrow> funct3 w \<in> set [2, 3]"
    and "spec_format s \<in> set [Fmt_FloatingOp, Fmt_FloatingFused] \<Longrightarrow> (ucast (field w 26 25) :: u8) < 2"
proof -
  from assms(1) obtain t where t: "t \<in> set FLOATING_SPECS" "w AND spec_mask t = spec_match_bits t" "di_id d = spec_id t"
    by (auto simp: decode_floating_def Let_def split: option.splits if_splits dest!: fp_table.find_match_SomeD)
  with instruction_spec_of_row(2) assms(2) have st: "s = t" by simp
  have "list_all (\<lambda>(f, m, f3, fmt).
      (if f \<in> set [Fmt_FloatingLoad, Fmt_FloatingStore] then m AND 0x7000 = 0x7000 \<and> f3 \<in> set [2, 3]
       else m AND 0x06000000 = 0x06000000 \<and> fmt < (2 :: u8)))
      (map (\<lambda>s. (spec_format s, spec_mask s, funct3 (spec_match_bits s), ucast (field (spec_match_bits s) 26 25)))
        FLOATING_SPECS)"
    by (simp only: table_rows, code_simp)
  with t(1) have row: "if spec_format t \<in> set [Fmt_FloatingLoad, Fmt_FloatingStore]
      then spec_mask t AND 0x7000 = 0x7000 \<and> funct3 (spec_match_bits t) \<in> set [2, 3]
      else spec_mask t AND 0x06000000 = 0x06000000 \<and> (ucast (field (spec_match_bits t) 26 25) :: u8) < 2"
    by (auto simp: list_all_iff)
  note sel = row_selectors [OF t(2)]
  show "funct3 w \<in> set [2, 3]" if "spec_format s \<in> set [Fmt_FloatingLoad, Fmt_FloatingStore]"
    using that row sel(1) unfolding st by simp
  show "(ucast (field w 26 25) :: u8) < 2" if "spec_format s \<in> set [Fmt_FloatingOp, Fmt_FloatingFused]"
    using that row sel(2) unfolding st by auto
qed

text \<open>What the operands of the shared decoder satisfy.\<close>

definition ops_in_range :: "decoded_operands \<Rightarrow> bool" where
  "ops_in_range ops = (case ops of
     Ops_UpperImmediate rd imm \<Rightarrow> reg_ok rd \<and> imm AND 0xFFF = 0
   | Ops_RegisterRegister rd rs1 rs2 \<Rightarrow> reg_ok rd \<and> reg_ok rs1 \<and> reg_ok rs2
   | Ops_Immediate rd rs1 imm \<Rightarrow> reg_ok rd \<and> reg_ok rs1 \<and> - 2048 \<le> sint imm \<and> sint imm < 2048
   | Ops_Store rs1 rs2 imm \<Rightarrow> reg_ok rs1 \<and> reg_ok rs2 \<and> - 2048 \<le> sint imm \<and> sint imm < 2048
   | Ops_Branch rs1 rs2 imm \<Rightarrow> reg_ok rs1 \<and> reg_ok rs2 \<and> - 4096 \<le> sint imm \<and> sint imm < 4096 \<and> \<not> bit imm 0
   | Ops_Jump rd imm \<Rightarrow> reg_ok rd \<and> - 1048576 \<le> sint imm \<and> sint imm < 1048576 \<and> \<not> bit imm 0
   | Ops_Fence fm pred succ \<Rightarrow> fm < 16 \<and> pred < 16 \<and> succ < 16
   | Ops_Csr rd source csr \<Rightarrow> reg_ok rd \<and> source < 32 \<and> csr < 0x1000
   | Ops_Atomic rd rs1 rs2 _ _ \<Rightarrow> reg_ok rd \<and> reg_ok rs1 \<and> reg_ok rs2
   | Ops_Floating rd rs1 rs2 rs3 rm imm \<Rightarrow> rd < 32 \<and> rs1 < 32 \<and> rs2 < 32 \<and> rs3 < 32 \<and> rm < 8
       \<and> - 2048 \<le> sint imm \<and> sint imm < 2048
   | Ops_None \<Rightarrow> True)"

lemma sint_scast_i32 [simp]: "sint (scast (v :: i32) :: i64) = sint v"
  by (simp add: signed_scast_eq bit_eq_iff bit_simps min_def) 

lemma and_FFF_eq_0: "(w :: 'a::len word) AND 0xFFF = 0 \<longleftrightarrow> (\<forall>n < 12. \<not> bit w n)"
proof -
  have "(0xFFF :: 'a word) = mask 12" by (simp add: mask_eq_exp_minus_1)
  then show ?thesis by (simp only: bit_eq_iff bit_and_iff bit_mask_iff) (auto dest: bit_imp_le_length)
qed

lemma scast_i32_low_bits:
  "(scast (v :: i32) :: i64) AND 0xFFF = 0 \<longleftrightarrow> v AND 0xFFF = 0" "bit (scast (v :: i32) :: i64) 0 = bit v 0"
  unfolding and_FFF_eq_0 by (auto simp: bit_simps min_def)

lemma imm_in_scast:
  "imm_in 31 (scast (v :: i32))"
  "imm_in k (scast (v :: i32)) \<longleftrightarrow> - (2 ^ k) \<le> sint v \<and> sint v < 2 ^ k"
  using sint_range_size [of v] by (simp_all add: imm_in_def word_size)

lemma reg_field_small [simp]: "unat (reg_field k w) < 32" "reg_ok (IntReg (reg_field k w))" "reg_field k w < 32"
  using reg_field_less [of k w] by (simp_all add: word_less_nat_alt reg_ok_def)

lemma sign_extend_12: "- 2048 \<le> sint (sign_extend v 12)" "sint (sign_extend v 12) < 2048"
  using sign_extend_range [of 12 v] by simp_all

lemma low_field_bounds:
  "(ucast (drop_bit k (w :: u32) AND 0xF) :: u8) < 16" "(ucast (drop_bit k (w :: u32) AND 0xFFF) :: u16) < 0x1000"
  "(ucast (drop_bit k (w :: u32) AND 0x7) :: u8) < 8"
  using low_fields_ok(1,2) [of k w] small_rm(2) [of k w] by (simp_all add: not_less word_le_nat_alt word_less_nat_alt)

lemma base_ops_in_range:
  assumes "base_integer_operands f w = Some ops"
  shows "ops_in_range ops"
proof -
  have b: "- 4096 \<le> sint (sign_extend v 13)" "sint (sign_extend v 13) < 4096"
    "- 1048576 \<le> sint (sign_extend v 21)" "sint (sign_extend v 21) < 1048576" for v
    using sign_extend_range [of 13 v] sign_extend_range [of 21 v] by simp_all
  have s: "- 2048 \<le> sint (drop_bit 20 w AND 0x3F)" "sint (drop_bit 20 w AND 0x3F) < 2048"
    "- 2048 \<le> sint (drop_bit 20 w AND 0x1F)" "sint (drop_bit 20 w AND 0x1F) < 2048"
    using shift_imm_ok [of undefined w] by (simp_all add: validate_None)
  have z: "\<not> bit (sign_extend (push_bit 12 (drop_bit 31 w) OR push_bit 11 (drop_bit 7 w AND 1)
       OR push_bit 5 (drop_bit 25 w AND 0x3F) OR push_bit 1 (drop_bit 8 w AND 0xF)) 13) 0"
    "\<not> bit (sign_extend (push_bit 20 (drop_bit 31 w) OR push_bit 12 (drop_bit 12 w AND 0xFF)
       OR push_bit 11 (drop_bit 20 w AND 1) OR push_bit 1 (drop_bit 21 w AND 0x3FF)) 21) 0"
    using branch_imm_bits [of _ w 0] jump_imm_bits [of _ w 0] by simp_all
  from assms show ?thesis
    unfolding base_integer_operands_def Let_def
    by (elim if_eqE) (use z in \<open>simp_all add: ops_in_range_def sign_extend_12 b s low_field_bounds\<close>)
qed

lemma decode_ops_in_range:
  "decode_upper_immediate w = Inr d \<Longrightarrow> ops_in_range (di_operands d)"
  "decode_register_register w = Inr d \<Longrightarrow> ops_in_range (di_operands d)"
  "decode_base_integer w = Inr d \<Longrightarrow> ops_in_range (di_operands d)"
  "decode_atomic w = Inr d \<Longrightarrow> ops_in_range (di_operands d)"
  "decode_floating w = Inr d \<Longrightarrow> ops_in_range (di_operands d)"
proof -
  have "(w AND 0xFFFFF000) AND 0xFFF = 0" unfolding and_FFF_eq_0 by (simp only: word_bits) simp
  then show "decode_upper_immediate w = Inr d \<Longrightarrow> ops_in_range (di_operands d)"
    by (auto simp: decode_upper_immediate_def ops_in_range_def simp del: word_bw_assocs split: option.splits)
  show "decode_register_register w = Inr d \<Longrightarrow> ops_in_range (di_operands d)"
    by (auto simp: decode_register_register_def ops_in_range_def split: option.splits)
  show "decode_base_integer w = Inr d \<Longrightarrow> ops_in_range (di_operands d)"
    by (auto simp: decode_base_integer_def split: option.splits intro: base_ops_in_range)
  show "decode_atomic w = Inr d \<Longrightarrow> ops_in_range (di_operands d)"
    by (auto simp: decode_atomic_def ops_in_range_def split: option.splits)
  show "decode_floating w = Inr d \<Longrightarrow> ops_in_range (di_operands d)"
    by (auto simp: decode_floating_def ops_in_range_def Let_def sign_extend_12 low_field_bounds
        split: option.splits if_splits)
qed

lemma shift_amounts:
  "shamt_in 64 (scast (drop_bit 20 (w :: i32) AND 0x3F :: i32))"
  "shamt_in 32 (scast (drop_bit 20 (w :: i32) AND 0x1F :: i32))"
proof -
  have "sint (drop_bit 20 w AND m) = uint (drop_bit 20 w AND m) \<and> uint (drop_bit 20 w AND m) \<le> uint m"
    if "m < 0x80000000" for m :: i32
  proof -
    have le: "drop_bit 20 w AND m \<le> m" by (rule word_and_le1)
    with that have "uint (drop_bit 20 w AND m) < 2 ^ 31" by (simp add: word_less_def word_le_def)
    then show ?thesis using le by (auto simp: sint_uint signed_take_bit_int_eq_self_iff word_le_def intro: order_trans [of _ 0])
  qed
  from this [of "0x3F"] this [of "0x1F"]
  show "shamt_in 64 (scast (drop_bit 20 w AND 0x3F))" "shamt_in 32 (scast (drop_bit 20 w AND 0x1F))"
    unfolding shamt_in_def by simp_all
qed

lemma base_selectorD:
  assumes "base_selector_ok (i, f, m, f3)"
  shows "i \<in> set (map Base [Beq, Bne, Blt, Bge, Bltu, Bgeu]) \<Longrightarrow> f3 \<in> set [0, 1, 4, 5, 6, 7]"
    and "i \<in> set (map Base [Lb, Lh, Lw, Ld, Lbu, Lhu, Lwu]) \<Longrightarrow> f3 < 7"
    and "i \<in> set (map Base [Sb, Sh, Sw, Sd]) \<Longrightarrow> f3 < 4"
    and "i \<in> set (map Base [Csrrw, Csrrs, Csrrc, Csrrwi, Csrrsi, Csrrci]) \<Longrightarrow> f3 \<in> set [1, 2, 3, 5, 6, 7]"
    and "i \<in> set (map Base [Addi, Slti, Sltiu, Xori, Ori, Andi, Slli, Srli, Srai]) \<Longrightarrow>
      f = (if f3 \<in> set [1, 5] then Fmt_ShiftImmediate else Fmt_Immediate)"
    and "i \<in> set (map Base [Addiw, Slliw, Srliw, Sraiw]) \<Longrightarrow> f3 \<in> set [0, 1, 5]
      \<and> f = (if f3 = 0 then Fmt_ImmediateWord else Fmt_ShiftImmediateWord)"
  using assms unfolding base_selector_ok_def prod.case
  by (auto split: if_split_asm)

lemma insn_of_fields_wf:
  assumes "ops_in_range (di_operands d)"
  shows "insn_of_upper w d = Inr insn \<Longrightarrow> fields_wf insn"
    and "insn_of_rr w d = Inr insn \<Longrightarrow> fields_wf insn"
    and "insn_of_base w d = Inr insn \<Longrightarrow> fields_wf insn"
    and "insn_of_atomic w d = Inr insn \<Longrightarrow> fields_wf insn"
    and "insn_of_floating w d = Inr insn \<Longrightarrow> fields_wf insn"
proof -
  have i32_range: "- 2147483648 \<le> sint (v :: i32)" "sint (v :: i32) < 2147483648" for v
    using sint_range_size [of v] by (simp_all add: word_size)
  note defs = ops_in_range_def fields_wf_def imm_in_scast scast_i32_low_bits selector_ranges reg_ok_def
    word_less_nat_alt Let_def
  show "insn_of_upper w d = Inr insn \<Longrightarrow> fields_wf insn"
    using assms i32_range by (auto simp: insn_of_upper_def defs split: decoded_operands.splits if_splits)
  show "insn_of_rr w d = Inr insn \<Longrightarrow> fields_wf insn"
    using assms selector_ranges
    by (auto simp: insn_of_rr_def defs split: decoded_operands.splits if_splits option.splits)
  show "insn_of_atomic w d = Inr insn \<Longrightarrow> fields_wf insn"
    using assms selector_ranges
    by (auto simp: insn_of_atomic_def defs split: decoded_operands.splits)
  show "insn_of_floating w d = Inr insn \<Longrightarrow> fields_wf insn"
    using assms selector_ranges
    by (auto simp: insn_of_floating_def defs split: decoded_operands.splits if_splits option.splits)
  show "fields_wf insn" if "insn_of_base w d = Inr insn"
    using that assms selector_ranges [of w] unfolding insn_of_base_def Let_def
    by (cases "di_operands d"; simp only: decoded_operands.case sum.distinct; elim if_eqE;
        simp only: sum.inject sum.distinct) (auto simp: defs)
qed

lemma insn_of_base_selector:
  "insn_of_base w d = Inr (D_Branch f3 rs1 rs2 imm) \<Longrightarrow>
     f3 = funct3 w \<and> di_id d \<in> set (map Base [Beq, Bne, Blt, Bge, Bltu, Bgeu])"
  "insn_of_base w d = Inr (D_Load f3 rd rs1 imm) \<Longrightarrow>
     f3 = funct3 w \<and> di_id d \<in> set (map Base [Lb, Lh, Lw, Ld, Lbu, Lhu, Lwu])"
  "insn_of_base w d = Inr (D_Store f3 rs1 rs2 imm) \<Longrightarrow>
     f3 = funct3 w \<and> di_id d \<in> set (map Base [Sb, Sh, Sw, Sd])"
  "insn_of_base w d = Inr (D_Csr f3 rd src csr) \<Longrightarrow>
     f3 = funct3 w \<and> di_id d \<in> set (map Base [Csrrw, Csrrs, Csrrc, Csrrwi, Csrrsi, Csrrci])"
  "insn_of_base w d = Inr (D_AluImm f3 f7 rd rs1 imm) \<Longrightarrow>
     f3 = funct3 w \<and> di_id d \<in> set (map Base [Addi, Slti, Sltiu, Xori, Ori, Andi, Slli, Srli, Srai])
     \<and> (\<exists>r1 r2 v. di_operands d = Ops_Immediate r1 r2 v \<and> imm = scast v)"
  "insn_of_base w d = Inr (D_AluImm32 f3 f7 rd rs1 imm) \<Longrightarrow>
     f3 = funct3 w \<and> di_id d \<in> set (map Base [Addiw, Slliw, Srliw, Sraiw])
     \<and> (\<exists>r1 r2 v. di_operands d = Ops_Immediate r1 r2 v \<and> imm = scast v)"
  by (cases "di_operands d"; simp only: insn_of_base_def Let_def decoded_operands.case sum.distinct;
      elim if_eqE; simp only: sum.inject sum.distinct decoded_insn.inject decoded_insn.distinct; blast)+

lemma insn_of_base_kinds:
  "insn_of_base w d = Inr insn \<Longrightarrow> case insn of
     D_FLoad _ _ _ _ \<Rightarrow> False | D_FStore _ _ _ _ \<Rightarrow> False | D_FOp _ _ _ _ _ _ \<Rightarrow> False
   | D_FMac _ _ _ _ _ _ _ \<Rightarrow> False | D_Atomic _ _ _ _ _ _ _ \<Rightarrow> False | _ \<Rightarrow> True"
  by (cases "di_operands d"; simp only: insn_of_base_def Let_def decoded_operands.case sum.distinct;
      elim if_eqE; simp only: sum.inject sum.distinct; drule sym; simp only: decoded_insn.case)

lemma insn_of_base_selectors_wf:
  assumes "decode_base_integer w = Inr d" "insn_of_base w d = Inr insn"
  shows "selectors_wf insn"
proof -
  obtain s :: instruction_spec where sel: "base_selector_ok (di_id d, spec_format s, spec_mask s, funct3 w)"
    and ops: "base_integer_operands (spec_format s) w = Some (di_operands d)"
    using base_selectors [OF assms(1)] by blast
  note D = base_selectorD [OF sel]
  have sh: "di_operands d = Ops_Immediate rd rs1 v \<Longrightarrow> spec_format s = Fmt_ShiftImmediate \<Longrightarrow> shamt_in 64 (scast v)"
    "di_operands d = Ops_Immediate rd rs1 v \<Longrightarrow> spec_format s = Fmt_ShiftImmediateWord \<Longrightarrow> shamt_in 32 (scast v)"
    for rd rs1 v
    using ops by (auto simp: base_integer_operands_def Let_def shift_amounts)
  show ?thesis
  proof (cases insn)
    case (D_Branch f3 a b c)
    with insn_of_base_selector(1) D(1) assms(2) show ?thesis unfolding selectors_wf_def by simp
  next
    case (D_Load f3 a b c)
    with insn_of_base_selector(2) D(2) assms(2) show ?thesis unfolding selectors_wf_def by simp
  next
    case (D_Store f3 a b c)
    with insn_of_base_selector(3) D(3) assms(2) show ?thesis unfolding selectors_wf_def by simp
  next
    case (D_Csr f3 a b c)
    with insn_of_base_selector(4) D(4) assms(2) show ?thesis unfolding selectors_wf_def by simp
  next
    case (D_AluImm f3 f7 a b imm)
    note i = insn_of_base_selector(5) [OF assms(2) [unfolded D_AluImm]]
    from i D(5) sh(1) have "f3 \<in> set [1, 5] \<longrightarrow> shamt_in 64 imm" by metis
    with D_AluImm show ?thesis unfolding selectors_wf_def by simp
  next
    case (D_AluImm32 f3 f7 a b imm)
    note i = insn_of_base_selector(6) [OF assms(2) [unfolded D_AluImm32]]
    from i D(6) have "f3 \<in> set [0, 1, 5]" by blast
    moreover from i D(6) sh(2) have "f3 \<noteq> 0 \<longrightarrow> shamt_in 32 imm" by metis
    ultimately show ?thesis using D_AluImm32 unfolding selectors_wf_def by simp
  qed (use insn_of_base_kinds [OF assms(2)] in \<open>simp_all add: selectors_wf_def\<close>)
qed

lemma insn_of_selectors_wf:
  "insn_of_upper w d = Inr insn \<Longrightarrow> selectors_wf insn"
  "insn_of_rr w d = Inr insn \<Longrightarrow> selectors_wf insn"
  "decode_atomic w = Inr d \<Longrightarrow> insn_of_atomic w d = Inr insn \<Longrightarrow> selectors_wf insn"
  "decode_floating w = Inr d \<Longrightarrow> insn_of_floating w d = Inr insn \<Longrightarrow> selectors_wf insn"
proof -
  show "insn_of_upper w d = Inr insn \<Longrightarrow> selectors_wf insn"
    by (auto simp: insn_of_upper_def selectors_wf_def split: decoded_operands.splits if_splits)
  show "insn_of_rr w d = Inr insn \<Longrightarrow> selectors_wf insn"
    by (auto simp: insn_of_rr_def selectors_wf_def split: decoded_operands.splits if_splits option.splits)
  show "decode_atomic w = Inr d \<Longrightarrow> insn_of_atomic w d = Inr insn \<Longrightarrow> selectors_wf insn"
    using atomic_selector [of w d]
    by (auto simp: insn_of_atomic_def selectors_wf_def split: decoded_operands.splits)
  show "decode_floating w = Inr d \<Longrightarrow> insn_of_floating w d = Inr insn \<Longrightarrow> selectors_wf insn"
    using floating_selectors [of w d]
    by (auto simp: insn_of_floating_def selectors_wf_def split: decoded_operands.splits if_splits option.splits)
qed



end
