(* ===== verification/Alu.thy ===== *)
theory Alu
  imports Word_Arith "HOL-Library.Signed_Division"
begin

text \<open>
  The integer half of \<open>cpu/alu.rs\<close>: RV64I and M-extension operations on \<open>u64\<close> bit patterns. A
  cast \<open>as i64\<close> keeps the word, \<open>as u32\<close> and \<open>as i32\<close> truncate, \<open>as i32 as i64 as u64\<close> extends
  the sign; \<open>i128\<close> and \<open>u128\<close> products are words of 128 bits.
\<close>

subsection \<open>Base integer operations\<close>

definition alu_add :: "u64 \<Rightarrow> u64 \<Rightarrow> u64" where "alu_add a b = a + b"
definition alu_sub :: "u64 \<Rightarrow> u64 \<Rightarrow> u64" where "alu_sub a b = a - b"
definition alu_sll :: "u64 \<Rightarrow> u64 \<Rightarrow> u64" where "alu_sll a b = push_bit (unat (b AND 63)) a"
definition alu_srl :: "u64 \<Rightarrow> u64 \<Rightarrow> u64" where "alu_srl a b = drop_bit (unat (b AND 63)) a"
definition alu_sra :: "u64 \<Rightarrow> u64 \<Rightarrow> u64" where "alu_sra a b = signed_drop_bit (unat (b AND 63)) a"
definition alu_and :: "u64 \<Rightarrow> u64 \<Rightarrow> u64" where "alu_and a b = a AND b"
definition alu_or :: "u64 \<Rightarrow> u64 \<Rightarrow> u64" where "alu_or a b = a OR b"
definition alu_xor :: "u64 \<Rightarrow> u64 \<Rightarrow> u64" where "alu_xor a b = a XOR b"
definition alu_slt :: "u64 \<Rightarrow> u64 \<Rightarrow> u64" where "alu_slt a b = of_bool (sint a < sint b)"
definition alu_sltu :: "u64 \<Rightarrow> u64 \<Rightarrow> u64" where "alu_sltu a b = of_bool (a < b)"

text \<open>32-bit operations; the result is sign-extended.\<close>

abbreviation (input) sext32 :: "u32 \<Rightarrow> u64" where "sext32 v \<equiv> scast v"

definition alu_addw :: "u64 \<Rightarrow> u64 \<Rightarrow> u64" where "alu_addw a b = sext32 (ucast a + ucast b)"
definition alu_subw :: "u64 \<Rightarrow> u64 \<Rightarrow> u64" where "alu_subw a b = sext32 (ucast a - ucast b)"
definition alu_sllw :: "u64 \<Rightarrow> u64 \<Rightarrow> u64" where
  "alu_sllw a b = sext32 (push_bit (unat (b AND 31)) (ucast a))"
definition alu_srlw :: "u64 \<Rightarrow> u64 \<Rightarrow> u64" where
  "alu_srlw a b = sext32 (drop_bit (unat (b AND 31)) (ucast a))"
definition alu_sraw :: "u64 \<Rightarrow> u64 \<Rightarrow> u64" where
  "alu_sraw a b = sext32 (signed_drop_bit (unat (b AND 31)) (ucast a))"

subsection \<open>Multiplication and division\<close>

definition alu_mul :: "u64 \<Rightarrow> u64 \<Rightarrow> u64" where "alu_mul a b = a * b"

definition alu_mulh :: "u64 \<Rightarrow> u64 \<Rightarrow> u64" where
  "alu_mulh a b = ucast (signed_drop_bit 64 (scast a * scast b :: 128 word))"

definition alu_mulhu :: "u64 \<Rightarrow> u64 \<Rightarrow> u64" where
  "alu_mulhu a b = ucast (drop_bit 64 (ucast a * ucast b :: 128 word))"

definition alu_mulhsu :: "u64 \<Rightarrow> u64 \<Rightarrow> u64" where
  "alu_mulhsu a b = ucast (signed_drop_bit 64 (scast a * ucast b :: 128 word))"

text \<open>\<open>wrapping_div\<close> and \<open>wrapping_rem\<close> of a signed type truncate towards zero.\<close>

definition wrapping_div :: "'a::len word \<Rightarrow> 'a word \<Rightarrow> 'a word" where
  "wrapping_div a b = word_of_int (sint a sdiv sint b)"

definition wrapping_rem :: "'a::len word \<Rightarrow> 'a word \<Rightarrow> 'a word" where
  "wrapping_rem a b = word_of_int (sint a smod sint b)"

abbreviation (input) u64_MAX :: u64 where "u64_MAX \<equiv> 0xFFFFFFFFFFFFFFFF"
abbreviation (input) i64_MIN :: u64 where "i64_MIN \<equiv> 0x8000000000000000"
abbreviation (input) i32_MIN :: u32 where "i32_MIN \<equiv> 0x80000000"

definition alu_div :: "u64 \<Rightarrow> u64 \<Rightarrow> u64" where
  "alu_div a b =
     (if b = 0 then u64_MAX
      else if a = i64_MIN \<and> b = - 1 then i64_MIN
      else wrapping_div a b)"

definition alu_divu :: "u64 \<Rightarrow> u64 \<Rightarrow> u64" where
  "alu_divu a b = (if b = 0 then u64_MAX else a div b)"

definition alu_rem :: "u64 \<Rightarrow> u64 \<Rightarrow> u64" where
  "alu_rem a b =
     (if b = 0 then a
      else if a = i64_MIN \<and> b = - 1 then 0
      else wrapping_rem a b)"

definition alu_remu :: "u64 \<Rightarrow> u64 \<Rightarrow> u64" where
  "alu_remu a b = (if b = 0 then a else a mod b)"

definition alu_mulw :: "u64 \<Rightarrow> u64 \<Rightarrow> u64" where "alu_mulw a b = sext32 (ucast a * ucast b)"

definition alu_divw :: "u64 \<Rightarrow> u64 \<Rightarrow> u64" where
  "alu_divw a b =
     (let dividend = (ucast a :: i32); divisor = (ucast b :: i32)
      in if divisor = 0 then u64_MAX
         else if dividend = i32_MIN \<and> divisor = - 1 then sext32 i32_MIN
         else sext32 (wrapping_div dividend divisor))"

definition alu_divuw :: "u64 \<Rightarrow> u64 \<Rightarrow> u64" where
  "alu_divuw a b =
     (let dividend = (ucast a :: u32); divisor = (ucast b :: u32)
      in if divisor = 0 then u64_MAX else sext32 (dividend div divisor))"

definition alu_remw :: "u64 \<Rightarrow> u64 \<Rightarrow> u64" where
  "alu_remw a b =
     (let dividend = (ucast a :: i32); divisor = (ucast b :: i32)
      in if divisor = 0 then sext32 dividend
         else if dividend = i32_MIN \<and> divisor = - 1 then 0
         else sext32 (wrapping_rem dividend divisor))"

definition alu_remuw :: "u64 \<Rightarrow> u64 \<Rightarrow> u64" where
  "alu_remuw a b =
     (let dividend = (ucast a :: u32); divisor = (ucast b :: u32)
      in if divisor = 0 then sext32 dividend else sext32 (dividend mod divisor))"

subsection \<open>The high half of a product\<close>

text \<open>A 128-bit word built from a value in range splits into its high and low half.\<close>

lemma high_low_unsigned:
  assumes "0 \<le> p" "p < 2 ^ 128"
  shows "uint (ucast (drop_bit 64 (word_of_int p :: 128 word)) :: u64) * 2 ^ 64 + uint (word_of_int p :: u64) = p"
proof -
  have "uint (word_of_int p :: 128 word) = p" using assms by (simp add: uint_word_of_int)
  then have "uint (drop_bit 64 (word_of_int p :: 128 word)) = p div 2 ^ 64"
    using assms by (simp only: unsigned_drop_bit_eq) (simp add: drop_bit_eq_div take_bit_int_eq_self)
  moreover have "p div 2 ^ 64 < 2 ^ 64" using assms by simp
  ultimately have "uint (ucast (drop_bit 64 (word_of_int p :: 128 word)) :: u64) = p div 2 ^ 64"
    using assms by (simp add: unsigned_ucast_eq take_bit_int_eq_self)
  then show ?thesis by (simp add: uint_word_of_int)
qed

lemma high_low_signed:
  assumes "-(2 ^ 127) \<le> p" "p < 2 ^ 127"
  shows "sint (ucast (signed_drop_bit 64 (word_of_int p :: 128 word)) :: u64) * 2 ^ 64 + uint (word_of_int p :: u64) = p"
proof -
  have "sint (word_of_int p :: 128 word) = p"
    using signed_take_bit_int_eq_self [of 127 p] assms by (simp add: signed_of_int)
  then have s: "sint (signed_drop_bit 64 (word_of_int p :: 128 word)) = p div 2 ^ 64"
    by (simp add: sint_signed_drop_bit_eq drop_bit_eq_div)
  have b: "-(2 ^ 63) \<le> p div 2 ^ 64" "p div 2 ^ 64 < 2 ^ 63" using assms by simp_all
  have "(ucast (signed_drop_bit 64 (word_of_int p :: 128 word)) :: u64)
      = word_of_int (sint (signed_drop_bit 64 (word_of_int p :: 128 word)))"
    by (simp add: bit_eq_iff bit_simps)
  then have "sint (ucast (signed_drop_bit 64 (word_of_int p :: 128 word)) :: u64) = p div 2 ^ 64"
    unfolding s using sint_word_of_int_i64 [OF b] by simp
  then show ?thesis by (simp add: uint_word_of_int)
qed

lemma product_bounds:
  fixes a b :: u64
  shows "0 \<le> uint a * uint b" "uint a * uint b < 2 ^ 128"
    "-(2 ^ 127) \<le> sint a * sint b" "sint a * sint b < 2 ^ 127"
    "-(2 ^ 127) \<le> sint a * uint b" "sint a * uint b < 2 ^ 127"
proof -
  have u: "0 \<le> uint a" "uint a < 2 ^ 64" "0 \<le> uint b" "uint b < 2 ^ 64"
    using uint_bounded [of a] uint_bounded [of b] by simp_all
  have s: "\<bar>sint a\<bar> \<le> 2 ^ 63" "\<bar>sint b\<bar> \<le> 2 ^ 63"
    using sint_range_size [of a] sint_range_size [of b] by (simp_all add: word_size abs_le_iff)
  show "0 \<le> uint a * uint b" using u by simp
  have "uint a * uint b \<le> (2 ^ 64 - 1) * (2 ^ 64 - 1)" using u by (intro mult_mono) simp_all
  then show "uint a * uint b < 2 ^ 128" by simp
  have "\<bar>sint a * sint b\<bar> \<le> 2 ^ 63 * 2 ^ 63" unfolding abs_mult using s by (intro mult_mono) simp_all
  then show "-(2 ^ 127) \<le> sint a * sint b" "sint a * sint b < 2 ^ 127" by (simp_all add: abs_le_iff)
  have "\<bar>sint a * uint b\<bar> \<le> 2 ^ 63 * (2 ^ 64 - 1)" unfolding abs_mult using s u by (intro mult_mono) simp_all
  then show "-(2 ^ 127) \<le> sint a * uint b" "sint a * uint b < 2 ^ 127" by (simp_all add: abs_le_iff)
qed

lemma products_as_int:
  "(ucast (a :: u64) * ucast (b :: u64) :: 128 word) = word_of_int (uint a * uint b)"
  "(scast a * scast b :: 128 word) = word_of_int (sint a * sint b)"
  "(scast a * ucast b :: 128 word) = word_of_int (sint a * uint b)"
  "a * b = word_of_int (uint a * uint b)" "a * b = word_of_int (sint a * sint b)"
  "a * b = word_of_int (sint a * uint b)"
  by simp_all

text \<open>C40. The high-half multiplications and \<open>mul\<close> together give the exact product, for each
  combination of signed and unsigned operands.\<close>

theorem mul_high_exact:
  "uint (alu_mulhu a b) * 2 ^ 64 + uint (alu_mul a b) = uint a * uint b
   \<and> sint (alu_mulh a b) * 2 ^ 64 + uint (alu_mul a b) = sint a * sint b
   \<and> sint (alu_mulhsu a b) * 2 ^ 64 + uint (alu_mul a b) = sint a * uint b"
proof (intro conjI)
  show "uint (alu_mulhu a b) * 2 ^ 64 + uint (alu_mul a b) = uint a * uint b"
    unfolding alu_mulhu_def alu_mul_def products_as_int(1,4)
    by (rule high_low_unsigned) (rule product_bounds)+
  show "sint (alu_mulh a b) * 2 ^ 64 + uint (alu_mul a b) = sint a * sint b"
    unfolding alu_mulh_def alu_mul_def products_as_int(2,5)
    by (rule high_low_signed) (rule product_bounds)+
  show "sint (alu_mulhsu a b) * 2 ^ 64 + uint (alu_mul a b) = sint a * uint b"
    unfolding alu_mulhsu_def alu_mul_def products_as_int(3,6)
    by (rule high_low_signed) (rule product_bounds)+
qed

subsection \<open>Division\<close>

lemma wrapping_div_rem: "wrapping_div a b * b + wrapping_rem a b = a"
proof -
  have "wrapping_div a b * b + wrapping_rem a b = word_of_int (sint a sdiv sint b * sint b + sint a smod sint b)"
    by (simp add: wrapping_div_def wrapping_rem_def)
  also have "\<dots> = a" by (simp add: sdiv_mult_smod_eq)
  finally show ?thesis .
qed

lemma sint_wrapping_rem:
  assumes "b \<noteq> 0"
  shows "sint (wrapping_rem a b) = sint a smod sint b" "\<bar>sint a smod sint b\<bar> < \<bar>sint b\<bar>"
    "sint a smod sint b = 0 \<or> sgn (sint a smod sint b) = sgn (sint a)"
proof -
  from assms have b: "sint b \<noteq> 0" by (metis sint_0 signed_word_eqI)
  then show r: "\<bar>sint a smod sint b\<bar> < \<bar>sint b\<bar>"
    using smod_int_range [where a = "sint a" and b = "sint b"] by (simp add: abs_if split: if_splits)
  show "sint a smod sint b = 0 \<or> sgn (sint a smod sint b) = sgn (sint a)"
  proof -
    have "0 \<le> \<bar>sint a\<bar> mod \<bar>sint b\<bar>" using b by simp
    then consider "\<bar>sint a\<bar> mod \<bar>sint b\<bar> = 0" | "sgn (\<bar>sint a\<bar> mod \<bar>sint b\<bar>) = 1"
      by (metis antisym_conv2 sgn_pos)
    then show ?thesis by cases (simp_all add: smod_int_alt_def sgn_mult)
  qed
  show "sint (wrapping_rem a b) = sint a smod sint b"
    unfolding wrapping_rem_def signed_of_int
    using r sint_range_size [of b] by (simp add: word_size signed_take_bit_int_eq_self_iff abs_if split: if_splits)
qed

lemma udiv_mult_urem: "(a :: 'a::len word) div b * b + a mod b = a"
  by (metis div_mult_mod_eq)

lemma low_sext32 [simp]: "(ucast (scast (v :: u32) :: u64) :: u32) = v"
  by (simp add: bit_eq_iff bit_simps)

lemma sint_minus_one [simp]: "sint (- 1 :: 'a::len word) = - 1"
  by simp

text \<open>C39. The division identity of each quotient and remainder pair, with the results RISC-V
  prescribes for a zero divisor and for signed overflow; a remainder is smaller than the divisor
  and has the sign of the dividend, and the 32-bit forms are sign-extended.\<close>

theorem division_identity:
  "alu_div a b * b + alu_rem a b = a
   \<and> alu_divu a b * b + alu_remu a b = a
   \<and> (b = 0 \<or> \<bar>sint (alu_rem a b)\<bar> < \<bar>sint b\<bar>
        \<and> (alu_rem a b = 0 \<or> sgn (sint (alu_rem a b)) = sgn (sint a)))
   \<and> (b = 0 \<or> alu_remu a b < b)
   \<and> ucast (alu_divw a b) * ucast b + ucast (alu_remw a b) = (ucast a :: u32)
   \<and> ucast (alu_divuw a b) * ucast b + ucast (alu_remuw a b) = (ucast a :: u32)
   \<and> alu_divw a b = scast (ucast (alu_divw a b) :: u32)
   \<and> alu_divuw a b = scast (ucast (alu_divuw a b) :: u32)
   \<and> alu_remw a b = scast (ucast (alu_remw a b) :: u32)
   \<and> alu_remuw a b = scast (ucast (alu_remuw a b) :: u32)
   \<and> alu_div a 0 = - 1 \<and> alu_divu a 0 = - 1 \<and> alu_divw a 0 = - 1 \<and> alu_divuw a 0 = - 1"
proof (intro conjI)
  show "alu_div a b * b + alu_rem a b = a"
    by (auto simp: alu_div_def alu_rem_def wrapping_div_rem)
  show "alu_divu a b * b + alu_remu a b = a"
    by (simp add: alu_divu_def alu_remu_def udiv_mult_urem)
  show "b = 0 \<or> \<bar>sint (alu_rem a b)\<bar> < \<bar>sint b\<bar>
        \<and> (alu_rem a b = 0 \<or> sgn (sint (alu_rem a b)) = sgn (sint a))"
    using sint_wrapping_rem [of b a] by (auto simp: alu_rem_def wrapping_rem_def)
  show "b = 0 \<or> alu_remu a b < b"
    by (auto simp: alu_remu_def word_neq_0_conv word_mod_less_divisor)
  show "ucast (alu_divw a b) * ucast b + ucast (alu_remw a b) = (ucast a :: u32)"
    by (auto simp: alu_divw_def alu_remw_def wrapping_div_rem Let_def)
  show "ucast (alu_divuw a b) * ucast b + ucast (alu_remuw a b) = (ucast a :: u32)"
    by (simp add: alu_divuw_def alu_remuw_def udiv_mult_urem Let_def)
qed (simp_all add: alu_div_def alu_divu_def alu_divw_def alu_divuw_def alu_remw_def alu_remuw_def Let_def)

end
