(* ===== verification/Interrupts.thy ===== *)
theory Interrupts
  imports Traps Bus
begin

text \<open>
  The architecturally visible state (\<open>cpu/architectural.rs\<close>) and the interrupt logic
  (\<open>cpu/interrupts.rs\<close>): sampling the device lines into \<open>mip\<close>, and the choice of the interrupt
  to take.
\<close>

subsection \<open>Architectural state\<close>

record architectural_state =
  arch_registers :: registers
  arch_csrs :: csr_file
  reservation :: "u64 option"

abbreviation (input) M_TRAP_ADDR :: u64 where "M_TRAP_ADDR \<equiv> 0x100"

definition architectural_new :: "u64 \<Rightarrow> u64 \<Rightarrow> architectural_state" where
  "architectural_new start_pc stack_ptr =
     \<lparr>arch_registers = write_x 2 stack_ptr (registers_new\<lparr>reg_pc := start_pc\<rparr>),
      arch_csrs = csr_file_new\<lparr>mtvec := M_TRAP_ADDR, mscratch := stack_ptr - 4096\<rparr>,
      reservation = None\<rparr>"

definition set_pc :: "u64 \<Rightarrow> architectural_state \<Rightarrow> architectural_state" where
  "set_pc pc st = st\<lparr>arch_registers := (arch_registers st)\<lparr>reg_pc := pc\<rparr>\<rparr>"

abbreviation (input) arch_pc :: "architectural_state \<Rightarrow> u64" where
  "arch_pc st \<equiv> reg_pc (arch_registers st)"
abbreviation (input) privilege :: "architectural_state \<Rightarrow> privilege_mode" where
  "privilege st \<equiv> priv_mode (arch_registers st)"

subsection \<open>Sampling the interrupt lines\<close>

abbreviation (input) UART_RX_IRQ_SOURCE :: u32 where "UART_RX_IRQ_SOURCE \<equiv> 10"

definition sample_timer :: "clint \<Rightarrow> csr_file \<Rightarrow> csr_file" where
  "sample_timer d c =
     (if timer_irq_pending d
      then (if drop_bit 5 (mideleg c) AND 1 = 1
            then c\<lparr>mip := (mip c OR push_bit 5 1) AND NOT (push_bit 7 1)\<rparr>
            else c\<lparr>mip := mip c OR push_bit 7 1\<rparr>)
      else c\<lparr>mip := (mip c AND NOT (push_bit 7 1)) AND NOT (push_bit 5 1)\<rparr>)"

definition sample_software :: "clint \<Rightarrow> csr_file \<Rightarrow> csr_file" where
  "sample_software d c =
     (if software_irq_pending d then c\<lparr>mip := mip c OR push_bit 3 1\<rparr>
      else c\<lparr>mip := mip c AND NOT (push_bit 3 1)\<rparr>)"

definition sample_external :: "plic \<Rightarrow> csr_file \<Rightarrow> csr_file" where
  "sample_external d c =
     (if next_irq d 0 \<noteq> None
      then (if drop_bit 9 (mideleg c) AND 1 = 1 then c\<lparr>mip := mip c OR push_bit 9 1\<rparr>
            else c\<lparr>mip := mip c OR push_bit 11 1\<rparr>)
      else c\<lparr>mip := (mip c AND NOT (push_bit 11 1)) AND NOT (push_bit 9 1)\<rparr>)"

definition sample_inputs :: "architectural_state \<Rightarrow> system_bus \<Rightarrow> architectural_state \<times> system_bus" where
  "sample_inputs st b =
     (let clint' = clint_tick (bus_clint b);
          c1 = sample_software clint' (sample_timer clint' (arch_csrs st));
          plic' = (if rx_irq_pending (bus_uart b) then set_irq UART_RX_IRQ_SOURCE (bus_plic b) else bus_plic b)
      in (st\<lparr>arch_csrs := sample_external plic' c1\<rparr>, b\<lparr>bus_clint := clint', bus_plic := plic'\<rparr>))"

subsection \<open>Choosing an interrupt\<close>

definition trailing_zeros :: "u64 \<Rightarrow> nat" where
  "trailing_zeros w = (case find (\<lambda>n. bit w n) [0..<64] of Some n \<Rightarrow> n | None \<Rightarrow> 64)"

definition prioritized :: "u64 \<Rightarrow> nat list \<Rightarrow> u64" where
  "prioritized pend priorities =
     (case find (\<lambda>cause. pend AND push_bit cause 1 \<noteq> 0) priorities of
        Some cause \<Rightarrow> of_nat cause
      | None \<Rightarrow> of_nat (trailing_zeros pend))"

definition pending_interrupt :: "architectural_state \<Rightarrow> (u64 \<times> u64 \<times> u64) option" where
  "pending_interrupt st =
     (let c = arch_csrs st; pend = mip c AND mie c
      in if pend = 0 then None
         else let in_machine = (privilege st = Machine); in_supervisor = (privilege st = Supervisor);
                  machine_enabled = (drop_bit 3 (mstatus c) AND 1 = 1);
                  supervisor_enabled = (drop_bit 1 (mstatus c) AND 1 = 1);
                  machine_pending = pend AND NOT (mideleg c);
                  supervisor_pending = pend AND mideleg c
              in if machine_pending \<noteq> 0 \<and> (\<not> in_machine \<or> machine_enabled)
                 then Some (push_bit 63 1 OR prioritized machine_pending [11, 3, 7], 0, arch_pc st)
                 else if supervisor_pending \<noteq> 0 \<and> \<not> in_machine \<and> (\<not> in_supervisor \<or> supervisor_enabled)
                 then Some (push_bit 63 1 OR prioritized supervisor_pending [9, 1, 5], 0, arch_pc st)
                 else None)"

subsection \<open>The specification of the choice\<close>

text \<open>Interrupt \<open>n\<close> can be taken: it is pending and enabled, and the mode it is delivered to is
  above the current one, or is the current one with interrupts enabled.\<close>

definition takeable :: "architectural_state \<Rightarrow> nat \<Rightarrow> bool" where
  "takeable st n \<longleftrightarrow> (let c = arch_csrs st in
     bit (mip c) n \<and> bit (mie c) n \<and>
     (if bit (mideleg c) n then privilege st \<noteq> Machine \<and> (privilege st \<noteq> Supervisor \<or> bit (mstatus c) 1)
      else privilege st \<noteq> Machine \<or> bit (mstatus c) 3))"

text \<open>The rank of an interrupt: machine level before supervisor level, external before software
  before timer, then by number.\<close>

definition irq_rank :: "bool \<Rightarrow> nat \<Rightarrow> nat" where
  "irq_rank delegated n =
     (if delegated then 100 + (if n = 9 then 0 else if n = 1 then 1 else if n = 5 then 2 else 3 + n)
      else if n = 11 then 0 else if n = 3 then 1 else if n = 7 then 2 else 3 + n)"

lemma and_push_iff: "((w :: u64) AND push_bit n 1 \<noteq> 0) = (n < 64 \<and> bit w n)"
  using and_push_one_eq_0 [of w n] by auto

lemma nonzero_bit: "(w :: u64) \<noteq> 0 \<longleftrightarrow> (\<exists>n < 64. bit w n)"
proof -
  have "w = 0" if "\<not> (\<exists>n < 64. bit w n)"
    by (rule u64_eqI) (use that in simp)
  then show ?thesis by auto
qed

lemma trailing_zeros_spec:
  assumes "w \<noteq> 0"
  shows "bit w (trailing_zeros w)" "trailing_zeros w < 64" "bit w m \<Longrightarrow> trailing_zeros w \<le> m"
proof -
  from assms obtain n where "n \<in> set [0..<64]" "bit w n" by (auto simp: nonzero_bit)
  then obtain k where k: "find (\<lambda>n. bit w n) [0..<64] = Some k"
    by (metis (no_types, lifting) find_None_iff option.exhaust)
  then obtain i where i: "i < 64" "bit w i" "k = i" "\<forall>j < i. \<not> bit w j"
    unfolding find_Some_iff by auto
  with k show "bit w (trailing_zeros w)" "trailing_zeros w < 64" by (simp_all add: trailing_zeros_def)
  show "bit w m \<Longrightarrow> trailing_zeros w \<le> m"
    using k i by (metis linorder_not_le option.case(2) trailing_zeros_def)
qed

text \<open>The choice within a level: a pending interrupt of least rank.\<close>

lemma prioritized_spec:
  assumes "w \<noteq> 0"
  shows "\<exists>n < 64. prioritized w [11, 3, 7] = of_nat n \<and> bit w n \<and> (\<forall>m. bit w m \<longrightarrow> irq_rank False n \<le> irq_rank False m)"
    and "\<exists>n < 64. prioritized w [9, 1, 5] = of_nat n \<and> bit w n \<and> (\<forall>m. bit w m \<longrightarrow> irq_rank True n \<le> irq_rank True m)"
proof -
  note t = trailing_zeros_spec [OF assms]
  show "\<exists>n < 64. prioritized w [11, 3, 7] = of_nat n \<and> bit w n \<and> (\<forall>m. bit w m \<longrightarrow> irq_rank False n \<le> irq_rank False m)"
  proof -
    consider "bit w 11" | "\<not> bit w 11" "bit w 3" | "\<not> bit w 11" "\<not> bit w 3" "bit w 7"
      | "\<not> bit w 11" "\<not> bit w 3" "\<not> bit w 7" by blast
    then show ?thesis
    proof cases
      case 4
      then have "prioritized w [11, 3, 7] = of_nat (trailing_zeros w)"
        unfolding prioritized_def and_push_iff by simp
      with t 4 show ?thesis
        by (intro exI [of _ "trailing_zeros w"]) (auto simp: irq_rank_def dest: t(3))
    next
      case 1 then show ?thesis unfolding prioritized_def and_push_iff
        by (intro exI [of _ 11]) (auto simp: irq_rank_def)
    next
      case 2 then show ?thesis unfolding prioritized_def and_push_iff
        by (intro exI [of _ 3]) (auto simp: irq_rank_def)
    next
      case 3 then show ?thesis unfolding prioritized_def and_push_iff
        by (intro exI [of _ 7]) (auto simp: irq_rank_def)
    qed
  qed
  show "\<exists>n < 64. prioritized w [9, 1, 5] = of_nat n \<and> bit w n \<and> (\<forall>m. bit w m \<longrightarrow> irq_rank True n \<le> irq_rank True m)"
  proof -
    consider "bit w 9" | "\<not> bit w 9" "bit w 1" | "\<not> bit w 9" "\<not> bit w 1" "bit w 5"
      | "\<not> bit w 9" "\<not> bit w 1" "\<not> bit w 5" by blast
    then show ?thesis
    proof cases
      case 4
      then have "prioritized w [9, 1, 5] = of_nat (trailing_zeros w)"
        unfolding prioritized_def and_push_iff by simp
      with t 4 show ?thesis
        by (intro exI [of _ "trailing_zeros w"]) (auto simp: irq_rank_def dest: t(3))
    next
      case 1 then show ?thesis unfolding prioritized_def and_push_iff
        by (intro exI [of _ 9]) (auto simp: irq_rank_def)
    next
      case 2 then show ?thesis unfolding prioritized_def and_push_iff
        by (intro exI [of _ 1]) (auto simp: irq_rank_def)
    next
      case 3 then show ?thesis unfolding prioritized_def and_push_iff
        by (intro exI [of _ 5]) (auto simp: irq_rank_def)
    qed
  qed
qed

lemma pending_interrupt_spec:
  "case pending_interrupt st of
     None \<Rightarrow> \<not> (\<exists>n. takeable st n)
   | Some (cause, tval, pc) \<Rightarrow>
       (\<exists>n < 64. takeable st n \<and> cause = push_bit 63 1 OR of_nat n \<and> tval = 0 \<and> pc = arch_pc st
          \<and> \<not> (\<exists>m. takeable st m \<and>
                irq_rank (bit (mideleg (arch_csrs st)) m) m < irq_rank (bit (mideleg (arch_csrs st)) n) n))"
proof -
  let ?c = "arch_csrs st"
  let ?pend = "mip ?c AND mie ?c"
  let ?m_ok = "privilege st \<noteq> Machine \<or> bit (mstatus ?c) 3"
  let ?s_ok = "privilege st \<noteq> Machine \<and> (privilege st \<noteq> Supervisor \<or> bit (mstatus ?c) 1)"
  have bits: "bit (?pend AND NOT (mideleg ?c)) n \<longleftrightarrow> n < 64 \<and> bit (mip ?c) n \<and> bit (mie ?c) n \<and> \<not> bit (mideleg ?c) n"
    "bit (?pend AND mideleg ?c) n \<longleftrightarrow> n < 64 \<and> bit (mip ?c) n \<and> bit (mie ?c) n \<and> bit (mideleg ?c) n" for n
    by (auto simp: bit_simps dest: bit_imp_le_length)
  have small: "takeable st n \<Longrightarrow> n < 64" for n
    by (auto simp: takeable_def Let_def dest: bit_imp_le_length)
  have t: "takeable st n \<longleftrightarrow> (bit (?pend AND NOT (mideleg ?c)) n \<and> ?m_ok) \<or> (bit (?pend AND mideleg ?c) n \<and> ?s_ok)" for n
    unfolding bits using small [of n] by (auto simp: takeable_def Let_def)
  have sel: "pending_interrupt st =
      (if ?pend AND NOT (mideleg ?c) \<noteq> 0 \<and> ?m_ok
       then Some (push_bit 63 1 OR prioritized (?pend AND NOT (mideleg ?c)) [11, 3, 7], 0, arch_pc st)
       else if ?pend AND mideleg ?c \<noteq> 0 \<and> ?s_ok
       then Some (push_bit 63 1 OR prioritized (?pend AND mideleg ?c) [9, 1, 5], 0, arch_pc st)
       else None)"
    unfolding pending_interrupt_def Let_def drop_and_one of_bool_word_eq_one by auto
  consider (m) "?pend AND NOT (mideleg ?c) \<noteq> 0" "?m_ok"
    | (s) "\<not> (?pend AND NOT (mideleg ?c) \<noteq> 0 \<and> ?m_ok)" "?pend AND mideleg ?c \<noteq> 0" "?s_ok"
    | (n) "\<not> (?pend AND NOT (mideleg ?c) \<noteq> 0 \<and> ?m_ok)" "\<not> (?pend AND mideleg ?c \<noteq> 0 \<and> ?s_ok)" by blast
  then show ?thesis
  proof cases
    case m
    from prioritized_spec(1) [OF m(1)] obtain n where n: "n < 64"
      "prioritized (?pend AND NOT (mideleg ?c)) [11, 3, 7] = of_nat n" "bit (?pend AND NOT (mideleg ?c)) n"
      "\<And>k. bit (?pend AND NOT (mideleg ?c)) k \<Longrightarrow> irq_rank False n \<le> irq_rank False k" by blast
    have "irq_rank (bit (mideleg ?c) n) n \<le> irq_rank (bit (mideleg ?c) k) k" if "takeable st k" for k
      using n(3) n(4) [of k] that n(1) unfolding t bits by (auto simp: irq_rank_def split: if_splits)
    with m n show ?thesis unfolding sel by (auto simp: t not_less intro!: exI [of _ n])
  next
    case s
    from prioritized_spec(2) [OF s(2)] obtain n where n: "n < 64"
      "prioritized (?pend AND mideleg ?c) [9, 1, 5] = of_nat n" "bit (?pend AND mideleg ?c) n"
      "\<And>k. bit (?pend AND mideleg ?c) k \<Longrightarrow> irq_rank True n \<le> irq_rank True k" by blast
    have "irq_rank (bit (mideleg ?c) n) n \<le> irq_rank (bit (mideleg ?c) k) k" if "takeable st k" for k
      using n(3) n(4) [of k] that s(1) unfolding t bits nonzero_bit by auto
    with s n show ?thesis unfolding sel by (auto simp: t not_less intro!: exI [of _ n])
  next
    case n
    then show ?thesis unfolding sel by (auto simp: t nonzero_bit bits)
  qed
qed

text \<open>C31. The interrupt the code selects is a takeable one of least rank, reported with the program
  counter to resume; none is selected exactly when none is takeable. The rank is the order of the
  RISC-V privileged architecture and of the code: the interrupts kept in machine mode before the
  delegated ones, and within a level external, software, timer. (\<open>_VM_SPECIFICATION.md\<close>, section
  5.3, describes another order, the highest number first, which would put the timer before the
  software interrupt and machine mode's timer before a pending software interrupt.)\<close>

theorem pending_interrupt_selects:
  "case pending_interrupt st of
     None \<Rightarrow> \<not> (\<exists>n. takeable st n)
   | Some (cause, tval, pc) \<Rightarrow>
       (\<exists>n < 64. takeable st n \<and> cause = push_bit 63 1 OR of_nat n \<and> tval = 0 \<and> pc = arch_pc st
          \<and> \<not> (\<exists>m. takeable st m \<and>
                irq_rank (bit (mideleg (arch_csrs st)) m) m < irq_rank (bit (mideleg (arch_csrs st)) n) n))"
  by (rule pending_interrupt_spec)

lemma interrupt_cause:
  assumes "n < 64"
  shows "is_interrupt (push_bit 63 1 OR of_nat n)" "unat (cause_index (push_bit 63 1 OR of_nat n)) mod 64 = n"
    "cause_index (push_bit 63 1 OR of_nat n) = of_nat n"
proof -
  have b: "bit (of_nat n :: u64) k \<Longrightarrow> k < 6" for k
  proof -
    assume "bit (of_nat n :: u64) k"
    then have "2 ^ k \<le> unat (of_nat n :: u64)" by (rule bit_imp_exp_le_unat)
    then have "(2 :: nat) ^ k < 2 ^ 6" using assms by (simp add: unat_of_nat)
    then show "k < 6" by (rule power_less_imp_less_exp [rotated]) simp
  qed
  show "is_interrupt (push_bit 63 1 OR of_nat n)"
    unfolding is_interrupt_bit by (simp only: bit_or_iff bit_push_one) simp
  show i: "cause_index (push_bit 63 1 OR of_nat n) = of_nat n"
    unfolding cause_index_def
    by (rule u64_eqI) (simp only: bit_fields, auto dest: b)
  from i show "unat (cause_index (push_bit 63 1 OR of_nat n)) mod 64 = n"
    using assms by (simp add: unat_of_nat)
qed

lemma delegates_interrupt:
  assumes "n < 64"
  shows "delegates r c (push_bit 63 1 OR of_nat n) \<longleftrightarrow> priv_mode r \<noteq> Machine \<and> bit (mideleg c) n"
  unfolding delegates_def interrupt_cause(2) [OF assms] drop_and_one of_bool_word_eq_one
  using interrupt_cause(1) [OF assms] by (auto split: privilege_mode.split)

lemma take_trap_S_effect:
  assumes "delegates r c cause" "take_trap r c cause tval pc = (h, r', c')"
  shows "priv_mode r' = Supervisor" "mip c' = mip c" "mie c' = mie c" "mideleg c' = mideleg c"
    "\<not> bit (mstatus c') 1"
  by (rule take_trap_S [OF assms(1), of tval pc], use assms(2) in simp)+

lemma take_trap_M_effect:
  assumes "\<not> delegates r c cause" "take_trap r c cause tval pc = (h, r', c')"
  shows "priv_mode r' = Machine" "\<not> bit (mstatus c') 3"
  by (rule take_trap_M [OF assms(1), of tval pc], use assms(2) in simp)+

lemma not_takeable_None: "(\<And>n. \<not> takeable st n) \<Longrightarrow> pending_interrupt st = None"
  using pending_interrupt_spec [of st] by (auto split: option.splits)

lemma interrupt_not_preempted:
  assumes "pending_interrupt st = Some (cause, tval, pc)"
    and "take_trap (arch_registers st) (arch_csrs st) cause tval pc = (h, r', c')"
  shows "pending_interrupt (st\<lparr>arch_registers := r'\<lparr>reg_pc := h\<rparr>, arch_csrs := c'\<rparr>) = None"
proof -
  let ?c = "arch_csrs st"
  from pending_interrupt_spec [of st] assms(1) obtain n where n: "n < 64" "takeable st n"
    "cause = push_bit 63 1 OR of_nat n"
    and least: "\<And>m. takeable st m \<Longrightarrow> irq_rank (bit (mideleg ?c) n) n \<le> irq_rank (bit (mideleg ?c) m) m"
    by (auto simp: not_less)
  show ?thesis
  proof (rule not_takeable_None)
    fix m
    show "\<not> takeable (st\<lparr>arch_registers := r'\<lparr>reg_pc := h\<rparr>, arch_csrs := c'\<rparr>) m"
    proof (cases "delegates (arch_registers st) ?c cause")
      case True
      then have d: "privilege st \<noteq> Machine" "bit (mideleg ?c) n"
        using delegates_interrupt [OF n(1)] n(3) by auto
      note s = take_trap_S_effect [OF True assms(2)]
      have "\<not> takeable st m" if "\<not> bit (mideleg ?c) m" "m < 64"
        using least [of m] that d by (auto simp: irq_rank_def split: if_splits)
      moreover have "bit (mip ?c) m \<Longrightarrow> m < 64" using bit_high_64 [of m "mip ?c"] by (cases "m < 64") auto
      ultimately show ?thesis using s d by (auto simp: takeable_def Let_def)
    next
      case False
      from take_trap_M_effect [OF this assms(2)] show ?thesis by (auto simp: takeable_def Let_def)
    qed
  qed
qed

text \<open>Where an interrupt is handled: the base of the trap vector, or with vectored mode the entry
  of its number.\<close>

definition interrupt_entry :: "u64 \<Rightarrow> nat \<Rightarrow> u64" where
  "interrupt_entry tvec n = (tvec AND NOT 3) + (if tvec AND 3 = 1 then 4 * of_nat n else 0)"

definition entered_handler :: "architectural_state \<Rightarrow> nat \<Rightarrow> u64 \<times> registers \<times> csr_file \<Rightarrow> bool" where
  "entered_handler st n t \<longleftrightarrow> (case t of (h, r', c') \<Rightarrow> let c = arch_csrs st in
     (if bit (mideleg c) n
      then priv_mode r' = Supervisor \<and> h = interrupt_entry (stvec c) n
        \<and> scause c' = push_bit 63 1 OR of_nat n \<and> sepc c' = arch_pc st AND NOT 3 \<and> stval c' = 0
      else priv_mode r' = Machine \<and> h = interrupt_entry (mtvec c) n
        \<and> mcause c' = push_bit 63 1 OR of_nat n \<and> mepc c' = arch_pc st AND NOT 3 \<and> mtval c' = 0))"

lemma vector_base_interrupt:
  assumes "n < 64"
  shows "vector_base tvec (push_bit 63 1 OR of_nat n) = interrupt_entry tvec n"
proof -
  have "cause_index (push_bit 63 1 OR of_nat n) = of_nat n"
    by (rule interrupt_cause(3) [OF assms])
  with interrupt_cause(1) [OF assms] show ?thesis
    by (simp add: vector_base_def interrupt_entry_def Let_def)
qed

lemma take_trap_interrupt:
  assumes n: "n < 64" "takeable st n" and cause: "cause = push_bit 63 1 OR of_nat n"
    and t: "take_trap (arch_registers st) (arch_csrs st) cause 0 (arch_pc st) = (h, r', c')"
  shows "entered_handler st n (h, r', c')"
proof -
  note v = vector_base_interrupt [OF n(1), folded cause]
    and d = delegates_interrupt [OF n(1), of "arch_registers st" "arch_csrs st", folded cause]
  show ?thesis
  proof (cases "bit (mideleg (arch_csrs st)) n")
    case True
    with n(2) have "delegates (arch_registers st) (arch_csrs st) cause"
      unfolding d by (simp add: takeable_def Let_def)
    then obtain m where "h = vector_base (stvec (arch_csrs st)) cause"
      "r' = (arch_registers st)\<lparr>priv_mode := Supervisor\<rparr>"
      "c' = (arch_csrs st)\<lparr>sepc := arch_pc st AND NOT 3, scause := cause, stval := 0, mstatus := m\<rparr>"
      using take_trap_S [of "arch_registers st" "arch_csrs st" cause 0 "arch_pc st"] t by (metis prod.inject)
    with True show ?thesis
      unfolding entered_handler_def Let_def cause [symmetric] v by simp
  next
    case False
    then have "\<not> delegates (arch_registers st) (arch_csrs st) cause" unfolding d by simp
    then obtain m where "h = vector_base (mtvec (arch_csrs st)) cause"
      "r' = (arch_registers st)\<lparr>priv_mode := Machine\<rparr>"
      "c' = (arch_csrs st)\<lparr>mepc := arch_pc st AND NOT 3, mcause := cause, mtval := 0, mstatus := m\<rparr>"
      using take_trap_M [of "arch_registers st" "arch_csrs st" cause 0 "arch_pc st"] t by (metis prod.inject)
    with False show ?thesis
      unfolding entered_handler_def Let_def cause [symmetric] v by simp
  qed
qed


definition irq_example :: architectural_state where
  "irq_example = (architectural_new 0x80000000 0x88000000)\<lparr>
     arch_csrs := csr_file_new\<lparr>mtvec := 0x100, mstatus := 8, mie := 0x888, mip := 0x88\<rparr>\<rparr>"


end
