(* ===== verification/Ieee754.thy ===== *)
theory Ieee754
  imports Prelude
begin

text \<open>
  The IEEE 754 operations of Rust's \<open>f32\<close> and \<open>f64\<close> that the virtual machine uses. A float is its
  bit pattern; \<open>unpack\<close> reads it as a sign, an integer mantissa and an exponent, and
  \<open>round_pack\<close> rounds an exact value to nearest, ties to even, as every Rust operation does. The
  format is given by the precision \<open>p\<close> (with the hidden bit) and the width \<open>w\<close> of the exponent.

  Rust leaves two choices to the host: the payload of a NaN that a cast produces, and which zero
  \<open>min\<close> and \<open>max\<close> return when the operands are zeros of opposite sign. They are fields of
  \<open>float_host\<close>, so that the theorems hold for every host. The bit pattern of a NaN that an
  arithmetic operation produces never reaches a register, since the code replaces it by the
  canonical NaN; the model uses the canonical one throughout.
\<close>

subsection \<open>Values\<close>

datatype fval = FNan | FInf bool | FFin bool int int

text \<open>\<open>FFin s m e\<close> stands for \<open>m * 2 ^ e\<close>, negated if \<open>s\<close>.\<close>

record float_host =
  cast_nan :: "u32 \<Rightarrow> u64"
  min_zero_first :: bool
  max_zero_first :: bool

abbreviation (input) bias :: "nat \<Rightarrow> int" where "bias w \<equiv> 2 ^ (w - 1) - 1"

text \<open>The exponent of the unit in the last place of subnormal numbers.\<close>

definition emin :: "nat \<Rightarrow> nat \<Rightarrow> int" where
  "emin p w = 2 - bias w - int p"

definition unpack :: "nat \<Rightarrow> nat \<Rightarrow> int \<Rightarrow> fval" where
  "unpack p w n =
     (let frac = n mod 2 ^ (p - 1); ex = (n div 2 ^ (p - 1)) mod 2 ^ w;
          s = odd (n div 2 ^ (p - 1 + w))
      in if ex = 2 ^ w - 1 then (if frac = 0 then FInf s else FNan)
         else if ex = 0 then FFin s frac (emin p w)
         else FFin s (2 ^ (p - 1) + frac) (emin p w + ex - 1))"

subsection \<open>Rounding to nearest, ties to even\<close>

text \<open>The number of binary digits.\<close>

function int_len :: "int \<Rightarrow> int" where
  "int_len m = (if m \<le> 0 then 0 else 1 + int_len (m div 2))"
  by auto
termination by (relation "measure nat") auto

declare int_len.simps [simp del]

text \<open>\<open>m / 2 ^ k\<close> rounded to the nearest integer.\<close>

definition rne_shift :: "int \<Rightarrow> nat \<Rightarrow> int" where
  "rne_shift m k =
     (let q = m div 2 ^ k; r = m mod 2 ^ k
      in if 2 * r > 2 ^ k \<or> (2 * r = 2 ^ k \<and> odd q) then q + 1 else q)"

text \<open>The magnitude bits of the value \<open>m * 2 ^ e\<close>. The exponent field and the fraction are added,
  so that a carry out of the fraction moves to the next exponent.\<close>

definition round_mag :: "nat \<Rightarrow> nat \<Rightarrow> int \<Rightarrow> int \<Rightarrow> int" where
  "round_mag p w m e =
     (if m = 0 then 0
      else let e' = max (emin p w) (e + int_len m - int p);
               q = (if e' \<le> e then m * 2 ^ nat (e - e') else rne_shift m (nat (e' - e)))
           in min ((2 ^ w - 1) * 2 ^ (p - 1)) ((e' - emin p w) * 2 ^ (p - 1) + q))"

definition sign_bits :: "nat \<Rightarrow> nat \<Rightarrow> bool \<Rightarrow> int" where
  "sign_bits p w s = (if s then 2 ^ (p - 1 + w) else 0)"

definition inf_mag :: "nat \<Rightarrow> nat \<Rightarrow> int" where
  "inf_mag p w = (2 ^ w - 1) * 2 ^ (p - 1)"

definition nan_mag :: "nat \<Rightarrow> nat \<Rightarrow> int" where
  "nan_mag p w = inf_mag p w + 2 ^ (p - 2)"

definition round_pack :: "nat \<Rightarrow> nat \<Rightarrow> fval \<Rightarrow> int" where
  "round_pack p w v = (case v of
     FNan \<Rightarrow> nan_mag p w
   | FInf s \<Rightarrow> sign_bits p w s + inf_mag p w
   | FFin s m e \<Rightarrow> sign_bits p w s + round_mag p w m e)"

subsection \<open>Exact arithmetic on values\<close>

definition signed_m :: "bool \<Rightarrow> int \<Rightarrow> int" where
  "signed_m s m = (if s then - m else m)"

definition fneg :: "fval \<Rightarrow> fval" where
  "fneg v = (case v of FNan \<Rightarrow> FNan | FInf s \<Rightarrow> FInf (\<not> s) | FFin s m e \<Rightarrow> FFin (\<not> s) m e)"

text \<open>A sum that is exactly zero is negative only when both operands are.\<close>

definition fadd :: "fval \<Rightarrow> fval \<Rightarrow> fval" where
  "fadd a b = (case (a, b) of
     (FNan, _) \<Rightarrow> FNan
   | (_, FNan) \<Rightarrow> FNan
   | (FInf s, FInf t) \<Rightarrow> if s = t then FInf s else FNan
   | (FInf s, FFin _ _ _) \<Rightarrow> FInf s
   | (FFin _ _ _, FInf t) \<Rightarrow> FInf t
   | (FFin s m e, FFin t n f) \<Rightarrow>
       (let g = min e f;
            x = signed_m s (m * 2 ^ nat (e - g)) + signed_m t (n * 2 ^ nat (f - g))
        in if x = 0 then FFin (s \<and> t) 0 g else FFin (x < 0) \<bar>x\<bar> g))"

definition fmul :: "fval \<Rightarrow> fval \<Rightarrow> fval" where
  "fmul a b = (case (a, b) of
     (FNan, _) \<Rightarrow> FNan
   | (_, FNan) \<Rightarrow> FNan
   | (FInf s, FInf t) \<Rightarrow> FInf (s \<noteq> t)
   | (FInf s, FFin t n _) \<Rightarrow> if n = 0 then FNan else FInf (s \<noteq> t)
   | (FFin s m _, FInf t) \<Rightarrow> if m = 0 then FNan else FInf (s \<noteq> t)
   | (FFin s m e, FFin t n f) \<Rightarrow> FFin (s \<noteq> t) (m * n) (e + f))"

text \<open>A quotient and a root are not exact: they are computed with at least \<open>p + 3\<close> digits, and the
  last digit records whether something was cut off, which rounds like the exact value.\<close>

definition fdiv :: "nat \<Rightarrow> fval \<Rightarrow> fval \<Rightarrow> fval" where
  "fdiv p a b = (case (a, b) of
     (FNan, _) \<Rightarrow> FNan
   | (_, FNan) \<Rightarrow> FNan
   | (FInf s, FInf t) \<Rightarrow> FNan
   | (FInf s, FFin t n _) \<Rightarrow> FInf (s \<noteq> t)
   | (FFin s m e, FInf t) \<Rightarrow> FFin (s \<noteq> t) 0 0
   | (FFin s m e, FFin t n f) \<Rightarrow>
       (if n = 0 then (if m = 0 then FNan else FInf (s \<noteq> t))
        else let k = int p + 3 + int_len n; x = m * 2 ^ nat k; q = x div n
             in FFin (s \<noteq> t) (2 * q + of_bool (x mod n \<noteq> 0)) (e - f - k - 1)))"

text \<open>The integer square root, bit by bit from position \<open>k\<close>.\<close>

primrec isqrt_from :: "nat \<Rightarrow> int \<Rightarrow> int \<Rightarrow> int" where
  "isqrt_from 0 r n = r"
| "isqrt_from (Suc k) r n = (let r' = r + 2 ^ k in isqrt_from k (if r' * r' \<le> n then r' else r) n)"

definition isqrt :: "int \<Rightarrow> int" where
  "isqrt n = isqrt_from (nat (int_len n div 2 + 1)) 0 n"

definition fsqrt :: "nat \<Rightarrow> fval \<Rightarrow> fval" where
  "fsqrt p a = (case a of
     FNan \<Rightarrow> FNan
   | FInf s \<Rightarrow> if s then FNan else FInf False
   | FFin s m e \<Rightarrow>
       (if m = 0 then FFin s 0 0
        else if s then FNan
        else let k = 2 * (int p + 3) + (if even e then 0 else 1); x = m * 2 ^ nat k; r = isqrt x
             in FFin False (2 * r + of_bool (r * r \<noteq> x)) ((e - k) div 2 - 1)))"

text \<open>\<open>mul_add\<close> rounds once.\<close>

definition ffma :: "fval \<Rightarrow> fval \<Rightarrow> fval \<Rightarrow> fval" where
  "ffma a b c = fadd (fmul a b) c"

subsection \<open>Comparison\<close>

definition fless :: "fval \<Rightarrow> fval \<Rightarrow> bool" where
  "fless a b = (case (a, b) of
     (FNan, _) \<Rightarrow> False
   | (_, FNan) \<Rightarrow> False
   | (FInf s, FInf t) \<Rightarrow> s \<and> \<not> t
   | (FInf s, FFin _ _ _) \<Rightarrow> s
   | (FFin _ _ _, FInf t) \<Rightarrow> \<not> t
   | (FFin s m e, FFin t n f) \<Rightarrow>
       (let g = min e f
        in signed_m s (m * 2 ^ nat (e - g)) < signed_m t (n * 2 ^ nat (f - g))))"

definition feq :: "fval \<Rightarrow> fval \<Rightarrow> bool" where
  "feq a b = (a \<noteq> FNan \<and> b \<noteq> FNan \<and> \<not> fless a b \<and> \<not> fless b a)"

definition fle :: "fval \<Rightarrow> fval \<Rightarrow> bool" where
  "fle a b = (fless a b \<or> feq a b)"

subsection \<open>Conversions to integers\<close>

datatype int_rounding = Ties_Even | Trunc | Floor | Ceil | Ties_Away

text \<open>The integer a magnitude rounds to.\<close>

definition round_int :: "int_rounding \<Rightarrow> bool \<Rightarrow> int \<Rightarrow> int \<Rightarrow> int" where
  "round_int mode s m e =
     (if 0 \<le> e then m * 2 ^ nat e
      else let k = nat (- e); q = m div 2 ^ k; r = m mod 2 ^ k
           in case mode of
                Ties_Even \<Rightarrow> rne_shift m k
              | Trunc \<Rightarrow> q
              | Floor \<Rightarrow> if s \<and> r \<noteq> 0 then q + 1 else q
              | Ceil \<Rightarrow> if \<not> s \<and> r \<noteq> 0 then q + 1 else q
              | Ties_Away \<Rightarrow> if 2 * r \<ge> 2 ^ k then q + 1 else q)"

definition fround :: "int_rounding \<Rightarrow> fval \<Rightarrow> fval" where
  "fround mode v = (case v of
     FFin s m e \<Rightarrow> if 0 \<le> e then v else FFin s (round_int mode s m e) 0
   | _ \<Rightarrow> v)"

text \<open>\<open>as\<close> to an integer type truncates and saturates; a NaN becomes zero.\<close>

definition fto_int :: "int \<Rightarrow> int \<Rightarrow> fval \<Rightarrow> int" where
  "fto_int lo hi v = (case v of
     FNan \<Rightarrow> 0
   | FInf s \<Rightarrow> if s then lo else hi
   | FFin s m e \<Rightarrow> max lo (min hi (signed_m s (round_int Trunc s m e))))"

definition fof_int :: "int \<Rightarrow> fval" where
  "fof_int k = FFin (k < 0) \<bar>k\<bar> 0"

subsection \<open>The two formats\<close>

abbreviation (input) val32 :: "u32 \<Rightarrow> fval" where "val32 x \<equiv> unpack 24 8 (uint x)"
abbreviation (input) val64 :: "u64 \<Rightarrow> fval" where "val64 x \<equiv> unpack 53 11 (uint x)"
abbreviation (input) to32 :: "fval \<Rightarrow> u32" where "to32 v \<equiv> word_of_int (round_pack 24 8 v)"
abbreviation (input) to64 :: "fval \<Rightarrow> u64" where "to64 v \<equiv> word_of_int (round_pack 53 11 v)"

definition f32_NAN :: u32 where "f32_NAN = 0x7FC00000"
definition f32_INFINITY :: u32 where "f32_INFINITY = 0x7F800000"
definition f32_NEG_INFINITY :: u32 where "f32_NEG_INFINITY = 0xFF800000"

definition f32_is_nan :: "u32 \<Rightarrow> bool" where "f32_is_nan x = (val32 x = FNan)"
definition f64_is_nan :: "u64 \<Rightarrow> bool" where "f64_is_nan x = (val64 x = FNan)"

definition is_inf :: "fval \<Rightarrow> bool" where "is_inf v = (case v of FInf _ \<Rightarrow> True | _ \<Rightarrow> False)"
definition is_fin :: "fval \<Rightarrow> bool" where "is_fin v = (case v of FFin _ _ _ \<Rightarrow> True | _ \<Rightarrow> False)"

text \<open>\<open>is_subnormal\<close>: an exponent field of zero and a fraction that is not.\<close>

definition f32_is_subnormal :: "u32 \<Rightarrow> bool" where
  "f32_is_subnormal x = (x AND 0x7F800000 = 0 \<and> x AND 0x7FFFFF \<noteq> 0)"

definition f64_is_subnormal :: "u64 \<Rightarrow> bool" where
  "f64_is_subnormal x = (x AND 0x7FF0000000000000 = 0 \<and> x AND 0xFFFFFFFFFFFFF \<noteq> 0)"

definition f32_as_f64 :: "u32 \<Rightarrow> u64" where "f32_as_f64 x = to64 (val32 x)"
definition f64_as_f32 :: "u64 \<Rightarrow> u32" where "f64_as_f32 x = to32 (val64 x)"

definition f64_add :: "u64 \<Rightarrow> u64 \<Rightarrow> u64" where "f64_add a b = to64 (fadd (val64 a) (val64 b))"
definition f64_sub :: "u64 \<Rightarrow> u64 \<Rightarrow> u64" where "f64_sub a b = to64 (fadd (val64 a) (fneg (val64 b)))"
definition f64_mul :: "u64 \<Rightarrow> u64 \<Rightarrow> u64" where "f64_mul a b = to64 (fmul (val64 a) (val64 b))"
definition f64_div :: "u64 \<Rightarrow> u64 \<Rightarrow> u64" where "f64_div a b = to64 (fdiv 53 (val64 a) (val64 b))"
definition f64_sqrt :: "u64 \<Rightarrow> u64" where "f64_sqrt a = to64 (fsqrt 53 (val64 a))"
definition f64_mul_add :: "u64 \<Rightarrow> u64 \<Rightarrow> u64 \<Rightarrow> u64" where
  "f64_mul_add a b c = to64 (ffma (val64 a) (val64 b) (val64 c))"
definition f64_neg :: "u64 \<Rightarrow> u64" where "f64_neg a = a XOR 0x8000000000000000"

definition f32_round :: "int_rounding \<Rightarrow> u32 \<Rightarrow> u32" where "f32_round mode x = to32 (fround mode (val32 x))"
definition f64_round :: "int_rounding \<Rightarrow> u64 \<Rightarrow> u64" where "f64_round mode x = to64 (fround mode (val64 x))"

text \<open>\<open>min\<close> and \<open>max\<close> of numbers; equal operands differ in bits only if they are zeros.\<close>

definition fmin_bits :: "bool \<Rightarrow> ('a \<Rightarrow> fval) \<Rightarrow> 'a \<Rightarrow> 'a \<Rightarrow> 'a" where
  "fmin_bits first v a b = (if fless (v a) (v b) then a else if fless (v b) (v a) then b
     else if first then a else b)"

definition fmax_bits :: "bool \<Rightarrow> ('a \<Rightarrow> fval) \<Rightarrow> 'a \<Rightarrow> 'a \<Rightarrow> 'a" where
  "fmax_bits first v a b = (if fless (v b) (v a) then a else if fless (v a) (v b) then b
     else if first then a else b)"

end
