(* ===== verification/Alu_Fp.thy ===== *)
theory Alu_Fp
  imports Ieee754
begin

text \<open>
  The floating-point half of \<open>cpu/alu.rs\<close>. An operation returns the bits for the destination
  register and the accrued exception flags. A single-precision result is NaN-boxed: its upper 32
  bits are ones.
\<close>

subsection \<open>Constants and helpers\<close>

abbreviation (input) RM_RNE :: u8 where "RM_RNE \<equiv> 0"
abbreviation (input) RM_RTZ :: u8 where "RM_RTZ \<equiv> 1"
abbreviation (input) RM_RDN :: u8 where "RM_RDN \<equiv> 2"
abbreviation (input) RM_RUP :: u8 where "RM_RUP \<equiv> 3"
abbreviation (input) RM_RMM :: u8 where "RM_RMM \<equiv> 4"
abbreviation (input) RM_DYN :: u8 where "RM_DYN \<equiv> 7"

abbreviation (input) FF_NV :: u8 where "FF_NV \<equiv> 0x10"
abbreviation (input) FF_DZ :: u8 where "FF_DZ \<equiv> 0x08"
abbreviation (input) FF_OF :: u8 where "FF_OF \<equiv> 0x04"
abbreviation (input) FF_UF :: u8 where "FF_UF \<equiv> 0x02"
abbreviation (input) FF_NX :: u8 where "FF_NX \<equiv> 0x01"

definition canon_nan_s :: u64 where "canon_nan_s = 0xFFFFFFFF7FC00000"
definition canon_nan_d :: u64 where "canon_nan_d = 0x7FF8000000000000"
definition box_f32 :: "u32 \<Rightarrow> u64" where "box_f32 v = 0xFFFFFFFF00000000 OR ucast v"
definition box_f64 :: "u64 \<Rightarrow> u64" where "box_f64 v = v"

definition rounding_of :: "u8 \<Rightarrow> int_rounding option" where
  "rounding_of rm =
     (if rm = RM_RNE then Some Ties_Even else if rm = RM_RTZ then Some Trunc
      else if rm = RM_RDN then Some Floor else if rm = RM_RUP then Some Ceil
      else if rm = RM_RMM then Some Ties_Away else None)"

definition round_f32 :: "u32 \<Rightarrow> u8 \<Rightarrow> u32" where
  "round_f32 v rm = (case rounding_of rm of Some mode \<Rightarrow> f32_round mode v | None \<Rightarrow> v)"

definition round_f64 :: "u64 \<Rightarrow> u8 \<Rightarrow> u64" where
  "round_f64 v rm = (case rounding_of rm of Some mode \<Rightarrow> f64_round mode v | None \<Rightarrow> v)"

subsection \<open>Neighbouring values\<close>

definition next_up_f32 :: "u32 \<Rightarrow> u32" where
  "next_up_f32 x =
     (if f32_is_nan x \<or> feq (val32 x) (val32 f32_INFINITY) then x
      else if bit x 31 then (if x = 0x80000000 then 0x00000001 else x - 1)
      else x + 1)"

definition next_down_f32 :: "u32 \<Rightarrow> u32" where
  "next_down_f32 x =
     (if f32_is_nan x \<or> feq (val32 x) (val32 f32_NEG_INFINITY) then x
      else if bit x 31 then x + 1
      else if x = 0 then 0x80000001 else x - 1)"

subsection \<open>Rounding a double to single precision\<close>

definition f64_to_f32_with_rm :: "u64 \<Rightarrow> u8 \<Rightarrow> u32" where
  "f64_to_f32_with_rm v rm =
     (if f64_is_nan v then f32_NAN
      else if \<not> is_fin (val64 v) then f64_as_f32 v
      else let rne = f64_as_f32 v; rne_f64 = f32_as_f64 rne; zero = val64 0
           in if rm = RM_RNE \<or> rm = RM_RMM then rne
              else if rm = RM_RTZ
              then (if (fless zero (val64 v) \<and> fless (val64 v) (val64 rne_f64))
                       \<or> (fless (val64 v) zero \<and> fless (val64 rne_f64) (val64 v))
                    then (if fless zero (val64 v) then next_down_f32 rne else next_up_f32 rne)
                    else rne)
              else if rm = RM_RDN
              then (if fless (val64 v) (val64 rne_f64) then next_down_f32 rne else rne)
              else if rm = RM_RUP
              then (if fless (val64 rne_f64) (val64 v) then next_up_f32 rne else rne)
              else rne)"

definition fp_flags_from_exact_s :: "u64 \<Rightarrow> u32 \<Rightarrow> u8" where
  "fp_flags_from_exact_s exact result =
     (if is_inf (val32 result) \<and> is_fin (val64 exact) then FF_OF OR FF_NX
      else if \<not> f32_is_nan result
      then (let flags = (if \<not> feq (val64 (f32_as_f64 result)) (val64 exact) then FF_NX else 0)
            in if f32_is_subnormal result \<and> flags AND FF_NX \<noteq> 0 then flags OR FF_UF else flags)
      else 0)"

definition flags_binary_d :: "u64 \<Rightarrow> u64 \<Rightarrow> u64 \<Rightarrow> u8" where
  "flags_binary_d a b result =
     (let flags = (if f64_is_nan result \<and> \<not> f64_is_nan a \<and> \<not> f64_is_nan b then FF_NV else 0)
      in if is_inf (val64 result) \<and> \<not> is_inf (val64 a) \<and> \<not> is_inf (val64 b) then flags OR (FF_OF OR FF_NX)
         else if f64_is_subnormal result then flags OR (FF_UF OR FF_NX)
         else flags)"

subsection \<open>Single-precision arithmetic\<close>

definition fp_add_s :: "u32 \<Rightarrow> u32 \<Rightarrow> u8 \<Rightarrow> u64 \<times> u8" where
  "fp_add_s a b rm =
     (if f32_is_nan a \<or> f32_is_nan b then (canon_nan_s, 0)
      else let exact = f64_add (f32_as_f64 a) (f32_as_f64 b)
           in if f64_is_nan exact then (canon_nan_s, FF_NV)
              else let result = f64_to_f32_with_rm exact rm
                   in (box_f32 result, fp_flags_from_exact_s exact result))"

definition fp_sub_s :: "u32 \<Rightarrow> u32 \<Rightarrow> u8 \<Rightarrow> u64 \<times> u8" where
  "fp_sub_s a b rm =
     (if f32_is_nan a \<or> f32_is_nan b then (canon_nan_s, 0)
      else let exact = f64_sub (f32_as_f64 a) (f32_as_f64 b)
           in if f64_is_nan exact then (canon_nan_s, FF_NV)
              else let result = f64_to_f32_with_rm exact rm
                   in (box_f32 result, fp_flags_from_exact_s exact result))"

definition fp_mul_s :: "u32 \<Rightarrow> u32 \<Rightarrow> u8 \<Rightarrow> u64 \<times> u8" where
  "fp_mul_s a b rm =
     (if f32_is_nan a \<or> f32_is_nan b then (canon_nan_s, 0)
      else let exact = f64_mul (f32_as_f64 a) (f32_as_f64 b)
           in if f64_is_nan exact then (canon_nan_s, FF_NV)
              else let result = f64_to_f32_with_rm exact rm
                   in (box_f32 result, fp_flags_from_exact_s exact result))"

definition fp_div_s :: "u32 \<Rightarrow> u32 \<Rightarrow> u8 \<Rightarrow> u64 \<times> u8" where
  "fp_div_s a b rm =
     (if f32_is_nan a \<or> f32_is_nan b then (canon_nan_s, 0)
      else let exact = f64_div (f32_as_f64 a) (f32_as_f64 b)
           in if f64_is_nan exact then (canon_nan_s, FF_NV)
              else if feq (val32 b) (val32 0) \<and> is_fin (val32 a) \<and> \<not> feq (val32 a) (val32 0)
              then (if fless (val32 0) (val32 a) then box_f32 f32_INFINITY else box_f32 f32_NEG_INFINITY, FF_DZ)
              else let result = f64_to_f32_with_rm exact rm
                   in (box_f32 result, fp_flags_from_exact_s exact result))"

definition fp_sqrt_s :: "u32 \<Rightarrow> u8 \<Rightarrow> u64 \<times> u8" where
  "fp_sqrt_s a rm =
     (if f32_is_nan a then (canon_nan_s, 0)
      else if fless (val32 a) (val32 0) then (canon_nan_s, FF_NV)
      else let exact = f64_sqrt (f32_as_f64 a); result = f64_to_f32_with_rm exact rm
           in (box_f32 result, fp_flags_from_exact_s exact result))"

subsection \<open>Double-precision arithmetic\<close>

abbreviation (input) canonical_d :: "u64 \<Rightarrow> u64" where
  "canonical_d result \<equiv> (if f64_is_nan result then canon_nan_d else box_f64 result)"

definition fp_add_d :: "u64 \<Rightarrow> u64 \<Rightarrow> u8 \<Rightarrow> u64 \<times> u8" where
  "fp_add_d a b rm = (let result = f64_add a b in (canonical_d result, flags_binary_d a b result))"

definition fp_sub_d :: "u64 \<Rightarrow> u64 \<Rightarrow> u8 \<Rightarrow> u64 \<times> u8" where
  "fp_sub_d a b rm = (let result = f64_sub a b in (canonical_d result, flags_binary_d a b result))"

definition fp_mul_d :: "u64 \<Rightarrow> u64 \<Rightarrow> u8 \<Rightarrow> u64 \<times> u8" where
  "fp_mul_d a b rm = (let result = f64_mul a b in (canonical_d result, flags_binary_d a b result))"

definition fp_div_d :: "u64 \<Rightarrow> u64 \<Rightarrow> u8 \<Rightarrow> u64 \<times> u8" where
  "fp_div_d a b rm =
     (let result = f64_div a b; flags = flags_binary_d a b result
      in (canonical_d result,
          if feq (val64 b) (val64 0) \<and> is_fin (val64 a) \<and> \<not> feq (val64 a) (val64 0)
          then flags OR FF_DZ else flags))"

definition fp_sqrt_d :: "u64 \<Rightarrow> u8 \<Rightarrow> u64 \<times> u8" where
  "fp_sqrt_d a rm =
     (let result = f64_sqrt a
      in (canonical_d result,
          if f64_is_nan result \<and> \<not> f64_is_nan a then FF_NV
          else if f64_is_subnormal result then FF_UF OR FF_NX else 0))"

definition fp_cvt_d_to_s :: "u64 \<Rightarrow> u8 \<Rightarrow> u64 \<times> u8" where
  "fp_cvt_d_to_s v rm =
     (if f64_is_nan v then (canon_nan_s, 0)
      else let result = f64_to_f32_with_rm v rm
           in (if f32_is_nan result then canon_nan_s else box_f32 result,
               if is_inf (val32 result) \<and> is_fin (val64 v) then FF_OF OR FF_NX
               else if \<not> f32_is_nan result
               then (let flags = (if \<not> feq (val64 (f32_as_f64 result)) (val64 v) then FF_NX else 0)
                     in if f32_is_subnormal result \<and> flags AND FF_NX \<noteq> 0 then flags OR FF_UF else flags)
               else 0))"

subsection \<open>Sign injection, minimum and maximum, comparison, classification\<close>

definition fp_sgnj_s :: "u32 \<Rightarrow> u32 \<Rightarrow> u64" where
  "fp_sgnj_s a b = box_f32 ((a AND 0x7FFFFFFF) OR (b AND 0x80000000))"

definition fp_sgnjn_s :: "u32 \<Rightarrow> u32 \<Rightarrow> u64" where
  "fp_sgnjn_s a b = box_f32 ((a AND 0x7FFFFFFF) OR ((NOT b) AND 0x80000000))"

definition fp_sgnjx_s :: "u32 \<Rightarrow> u32 \<Rightarrow> u64" where
  "fp_sgnjx_s a b = box_f32 ((a AND 0x7FFFFFFF) OR ((a XOR b) AND 0x80000000))"

definition fp_sgnj_d :: "u64 \<Rightarrow> u64 \<Rightarrow> u64" where
  "fp_sgnj_d a b = box_f64 ((a AND 0x7FFFFFFFFFFFFFFF) OR (b AND 0x8000000000000000))"

definition fp_sgnjn_d :: "u64 \<Rightarrow> u64 \<Rightarrow> u64" where
  "fp_sgnjn_d a b = box_f64 ((a AND 0x7FFFFFFFFFFFFFFF) OR ((NOT b) AND 0x8000000000000000))"

definition fp_sgnjx_d :: "u64 \<Rightarrow> u64 \<Rightarrow> u64" where
  "fp_sgnjx_d a b = box_f64 ((a AND 0x7FFFFFFFFFFFFFFF) OR ((a XOR b) AND 0x8000000000000000))"

definition fp_min_s :: "float_host \<Rightarrow> u32 \<Rightarrow> u32 \<Rightarrow> u64 \<times> u8" where
  "fp_min_s h a b =
     (let result = (if f32_is_nan a then b else if f32_is_nan b then a
                    else fmin_bits (min_zero_first h) (\<lambda>x. val32 x) a b)
      in ((if f32_is_nan result then canon_nan_s else box_f32 result), if f32_is_nan a \<or> f32_is_nan b then FF_NV else 0))"

definition fp_max_s :: "float_host \<Rightarrow> u32 \<Rightarrow> u32 \<Rightarrow> u64 \<times> u8" where
  "fp_max_s h a b =
     (let result = (if f32_is_nan a then b else if f32_is_nan b then a
                    else fmax_bits (max_zero_first h) (\<lambda>x. val32 x) a b)
      in ((if f32_is_nan result then canon_nan_s else box_f32 result), if f32_is_nan a \<or> f32_is_nan b then FF_NV else 0))"

definition fp_min_d :: "float_host \<Rightarrow> u64 \<Rightarrow> u64 \<Rightarrow> u64 \<times> u8" where
  "fp_min_d h a b =
     (let result = (if f64_is_nan a then b else if f64_is_nan b then a
                    else fmin_bits (min_zero_first h) (\<lambda>x. val64 x) a b)
      in (canonical_d result, if f64_is_nan a \<or> f64_is_nan b then FF_NV else 0))"

definition fp_max_d :: "float_host \<Rightarrow> u64 \<Rightarrow> u64 \<Rightarrow> u64 \<times> u8" where
  "fp_max_d h a b =
     (let result = (if f64_is_nan a then b else if f64_is_nan b then a
                    else fmax_bits (max_zero_first h) (\<lambda>x. val64 x) a b)
      in (canonical_d result, if f64_is_nan a \<or> f64_is_nan b then FF_NV else 0))"

definition fp_feq_s :: "u32 \<Rightarrow> u32 \<Rightarrow> u64 \<times> u8" where
  "fp_feq_s a b = (if f32_is_nan a \<or> f32_is_nan b then (0, FF_NV) else (of_bool (feq (val32 a) (val32 b)), 0))"

definition fp_flt_s :: "u32 \<Rightarrow> u32 \<Rightarrow> u64 \<times> u8" where
  "fp_flt_s a b = (if f32_is_nan a \<or> f32_is_nan b then (0, FF_NV) else (of_bool (fless (val32 a) (val32 b)), 0))"

definition fp_fle_s :: "u32 \<Rightarrow> u32 \<Rightarrow> u64 \<times> u8" where
  "fp_fle_s a b = (if f32_is_nan a \<or> f32_is_nan b then (0, FF_NV) else (of_bool (fle (val32 a) (val32 b)), 0))"

definition fp_feq_d :: "u64 \<Rightarrow> u64 \<Rightarrow> u64 \<times> u8" where
  "fp_feq_d a b = (if f64_is_nan a \<or> f64_is_nan b then (0, FF_NV) else (of_bool (feq (val64 a) (val64 b)), 0))"

definition fp_flt_d :: "u64 \<Rightarrow> u64 \<Rightarrow> u64 \<times> u8" where
  "fp_flt_d a b = (if f64_is_nan a \<or> f64_is_nan b then (0, FF_NV) else (of_bool (fless (val64 a) (val64 b)), 0))"

definition fp_fle_d :: "u64 \<Rightarrow> u64 \<Rightarrow> u64 \<times> u8" where
  "fp_fle_d a b = (if f64_is_nan a \<or> f64_is_nan b then (0, FF_NV) else (of_bool (fle (val64 a) (val64 b)), 0))"

definition fp_fclass_s :: "u32 \<Rightarrow> u64" where
  "fp_fclass_s a =
     (let sign = (drop_bit 31 a \<noteq> 0)
      in if f32_is_nan a then push_bit 9 1
         else if is_inf (val32 a) then (if sign then push_bit 0 1 else push_bit 7 1)
         else if feq (val32 a) (val32 0) then (if sign then push_bit 3 1 else push_bit 4 1)
         else if a AND 0x7F800000 = 0 then (if sign then push_bit 2 1 else push_bit 5 1)
         else if sign then push_bit 1 1 else push_bit 6 1)"

definition fp_fclass_d :: "u64 \<Rightarrow> u64" where
  "fp_fclass_d a =
     (let sign = (drop_bit 63 a \<noteq> 0)
      in if f64_is_nan a then push_bit 9 1
         else if is_inf (val64 a) then (if sign then push_bit 0 1 else push_bit 7 1)
         else if feq (val64 a) (val64 0) then (if sign then push_bit 3 1 else push_bit 4 1)
         else if a AND 0x7FF0000000000000 = 0 then (if sign then push_bit 2 1 else push_bit 5 1)
         else if sign then push_bit 1 1 else push_bit 6 1)"

subsection \<open>Fused multiply-add\<close>

text \<open>The single-precision forms multiply and add in double precision, with two roundings.\<close>

definition fp_fmadd_s :: "u32 \<Rightarrow> u32 \<Rightarrow> u32 \<Rightarrow> u8 \<Rightarrow> u64 \<times> u8" where
  "fp_fmadd_s rs1 rs2 rs3 rm =
     (if f32_is_nan rs1 \<or> f32_is_nan rs2 \<or> f32_is_nan rs3 then (canon_nan_s, 0)
      else let exact = f64_add (f64_mul (f32_as_f64 rs1) (f32_as_f64 rs2)) (f32_as_f64 rs3)
           in if f64_is_nan exact then (canon_nan_s, FF_NV)
              else let result = f64_to_f32_with_rm exact rm
                   in (if f32_is_nan result then canon_nan_s else box_f32 result,
                       fp_flags_from_exact_s exact result))"

definition fp_fmsub_s :: "u32 \<Rightarrow> u32 \<Rightarrow> u32 \<Rightarrow> u8 \<Rightarrow> u64 \<times> u8" where
  "fp_fmsub_s rs1 rs2 rs3 rm =
     (if f32_is_nan rs1 \<or> f32_is_nan rs2 \<or> f32_is_nan rs3 then (canon_nan_s, 0)
      else let exact = f64_sub (f64_mul (f32_as_f64 rs1) (f32_as_f64 rs2)) (f32_as_f64 rs3)
           in if f64_is_nan exact then (canon_nan_s, FF_NV)
              else let result = f64_to_f32_with_rm exact rm
                   in (if f32_is_nan result then canon_nan_s else box_f32 result,
                       fp_flags_from_exact_s exact result))"

definition fp_fnmsub_s :: "u32 \<Rightarrow> u32 \<Rightarrow> u32 \<Rightarrow> u8 \<Rightarrow> u64 \<times> u8" where
  "fp_fnmsub_s rs1 rs2 rs3 rm =
     (if f32_is_nan rs1 \<or> f32_is_nan rs2 \<or> f32_is_nan rs3 then (canon_nan_s, 0)
      else let exact = f64_add (f64_neg (f64_mul (f32_as_f64 rs1) (f32_as_f64 rs2))) (f32_as_f64 rs3)
           in if f64_is_nan exact then (canon_nan_s, FF_NV)
              else let result = f64_to_f32_with_rm exact rm
                   in (if f32_is_nan result then canon_nan_s else box_f32 result,
                       fp_flags_from_exact_s exact result))"

definition fp_fnmadd_s :: "u32 \<Rightarrow> u32 \<Rightarrow> u32 \<Rightarrow> u8 \<Rightarrow> u64 \<times> u8" where
  "fp_fnmadd_s rs1 rs2 rs3 rm =
     (if f32_is_nan rs1 \<or> f32_is_nan rs2 \<or> f32_is_nan rs3 then (canon_nan_s, 0)
      else let exact = f64_neg (f64_add (f64_mul (f32_as_f64 rs1) (f32_as_f64 rs2)) (f32_as_f64 rs3))
           in if f64_is_nan exact then (canon_nan_s, FF_NV)
              else let result = f64_to_f32_with_rm exact rm
                   in (if f32_is_nan result then canon_nan_s else box_f32 result,
                       fp_flags_from_exact_s exact result))"

definition flags_fused_d :: "u64 \<Rightarrow> u64 \<Rightarrow> u64 \<Rightarrow> u64 \<Rightarrow> u8" where
  "flags_fused_d rs1 rs2 rs3 result =
     (if f64_is_nan result \<and> \<not> f64_is_nan rs1 \<and> \<not> f64_is_nan rs2 \<and> \<not> f64_is_nan rs3 then FF_NV
      else if is_inf (val64 result) \<and> is_fin (val64 rs1) \<and> is_fin (val64 rs2) \<and> is_fin (val64 rs3)
      then FF_OF OR FF_NX
      else if f64_is_subnormal result then FF_UF OR FF_NX
      else 0)"

definition fp_fmadd_d :: "u64 \<Rightarrow> u64 \<Rightarrow> u64 \<Rightarrow> u8 \<Rightarrow> u64 \<times> u8" where
  "fp_fmadd_d rs1 rs2 rs3 rm =
     (let result = f64_mul_add rs1 rs2 rs3 in (canonical_d result, flags_fused_d rs1 rs2 rs3 result))"

definition fp_fmsub_d :: "u64 \<Rightarrow> u64 \<Rightarrow> u64 \<Rightarrow> u8 \<Rightarrow> u64 \<times> u8" where
  "fp_fmsub_d rs1 rs2 rs3 rm =
     (let result = f64_mul_add rs1 rs2 (f64_neg rs3) in (canonical_d result, flags_fused_d rs1 rs2 rs3 result))"

definition fp_fnmsub_d :: "u64 \<Rightarrow> u64 \<Rightarrow> u64 \<Rightarrow> u8 \<Rightarrow> u64 \<times> u8" where
  "fp_fnmsub_d rs1 rs2 rs3 rm =
     (let result = f64_mul_add (f64_neg rs1) rs2 rs3 in (canonical_d result, flags_fused_d rs1 rs2 rs3 result))"

definition fp_fnmadd_d :: "u64 \<Rightarrow> u64 \<Rightarrow> u64 \<Rightarrow> u8 \<Rightarrow> u64 \<times> u8" where
  "fp_fnmadd_d rs1 rs2 rs3 rm =
     (let result = f64_neg (f64_mul_add rs1 rs2 rs3) in (canonical_d result, flags_fused_d rs1 rs2 rs3 result))"

end
