(* ===== verification/Execute.thy ===== *)
theory Execute
  imports Registers Csr Decoder Alu Alu_Fp
begin

text \<open>
  The execute stage (\<open>cpu/pipeline/execute.rs\<close>): from a decoded instruction, its operands and the
  CSR file to a result that the memory and write-back stages carry out. Nothing is written here.
  Constructors of \<open>ExecResult\<close> carry the prefix \<open>R_\<close>; \<open>h\<close> is the host of the floating-point unit.
\<close>

subsection \<open>Operands\<close>

text \<open>The register file with up to two forwarded values in front of each half.\<close>

record execute_operands =
  op_registers :: registers
  op_rs1 :: "nat \<times> u64"
  op_rs2 :: "nat \<times> u64"
  op_frs1 :: "nat \<times> u64"
  op_frs2 :: "nat \<times> u64"

definition op_read_x :: "execute_operands \<Rightarrow> nat \<Rightarrow> u64" where
  "op_read_x ops reg =
     (if reg = 0 then 0
      else if reg = fst (op_rs1 ops) then snd (op_rs1 ops)
      else if reg = fst (op_rs2 ops) then snd (op_rs2 ops)
      else read_x (op_registers ops) reg)"

definition op_read_f_bits :: "execute_operands \<Rightarrow> nat \<Rightarrow> u64" where
  "op_read_f_bits ops reg =
     (if reg = fst (op_frs1 ops) then snd (op_frs1 ops)
      else if reg = fst (op_frs2 ops) then snd (op_frs2 ops)
      else read_f_bits (op_registers ops) reg)"

definition op_read_f32 :: "execute_operands \<Rightarrow> nat \<Rightarrow> u32" where
  "op_read_f32 ops reg =
     (let bits = op_read_f_bits ops reg
      in if bits AND 0xFFFFFFFF00000000 \<noteq> 0xFFFFFFFF00000000 then f32_NAN else ucast bits)"

definition op_read_f64 :: "execute_operands \<Rightarrow> nat \<Rightarrow> u64" where
  "op_read_f64 ops reg = op_read_f_bits ops reg"

subsection \<open>Results\<close>

datatype (plugins only: code) exec_result =
    R_WriteInt nat u64 u64
  | R_WriteFp nat u64 u64
  | R_WriteIntFlags nat u64 u8 u64
  | R_WriteFpFlags nat u64 u8 u64
  | R_Jump u64
  | R_Load nat u64 u8 u64
  | R_Store u64 u64 u8 u64
  | R_FLoad nat u64 u8 u64
  | R_FStore u64 u64 u8 u64
  | R_Atomic u8 bool bool u8 nat u64 u64 u64
  | R_Csr u8 nat nat u16 u64 u64 u64
  | R_Fence u64
  | R_FenceI u64
  | R_Ecall
  | R_Ebreak
  | R_Mret
  | R_Sret
  | R_SfenceVma
  | R_Wfi u64

subsection \<open>Integer instructions\<close>

definition branch_taken :: "instruction_id option \<Rightarrow> u64 \<Rightarrow> u64 \<Rightarrow> bool option" where
  "branch_taken i lhs rhs = (case i of Some (Base b) \<Rightarrow>
       (case b of Beq \<Rightarrow> Some (lhs = rhs) | Bne \<Rightarrow> Some (lhs \<noteq> rhs)
        | Blt \<Rightarrow> Some (sint lhs < sint rhs) | Bge \<Rightarrow> Some (sint lhs \<ge> sint rhs)
        | Bltu \<Rightarrow> Some (lhs < rhs) | Bgeu \<Rightarrow> Some (lhs \<ge> rhs) | _ \<Rightarrow> None)
     | _ \<Rightarrow> None)"

definition alu_imm_op :: "instruction_id option \<Rightarrow> u64 \<Rightarrow> i64 \<Rightarrow> u64 option" where
  "alu_imm_op i v imm = (case i of Some (Base b) \<Rightarrow>
       (case b of Addi \<Rightarrow> Some (alu_add v imm) | Slli \<Rightarrow> Some (alu_sll v (imm AND 63))
        | Slti \<Rightarrow> Some (alu_slt v imm) | Sltiu \<Rightarrow> Some (alu_sltu v imm) | Xori \<Rightarrow> Some (alu_xor v imm)
        | Srli \<Rightarrow> Some (alu_srl v (imm AND 63)) | Srai \<Rightarrow> Some (alu_sra v (imm AND 63))
        | Ori \<Rightarrow> Some (alu_or v imm) | Andi \<Rightarrow> Some (alu_and v imm) | _ \<Rightarrow> None)
     | _ \<Rightarrow> None)"

definition alu_imm32_op :: "instruction_id option \<Rightarrow> u64 \<Rightarrow> i64 \<Rightarrow> u64 option" where
  "alu_imm32_op i v imm = (case i of Some (Base b) \<Rightarrow>
       (case b of Addiw \<Rightarrow> Some (alu_addw v imm) | Slliw \<Rightarrow> Some (alu_sllw v (imm AND 31))
        | Srliw \<Rightarrow> Some (alu_srlw v (imm AND 31)) | Sraiw \<Rightarrow> Some (alu_sraw v (imm AND 31)) | _ \<Rightarrow> None)
     | _ \<Rightarrow> None)"

definition alu_op :: "instruction_id option \<Rightarrow> (u64 \<Rightarrow> u64 \<Rightarrow> u64) option" where
  "alu_op i = (case i of Some (Rr r) \<Rightarrow>
       (case r of Add \<Rightarrow> Some alu_add | Sub \<Rightarrow> Some alu_sub | Sll \<Rightarrow> Some alu_sll | Slt \<Rightarrow> Some alu_slt
        | Sltu \<Rightarrow> Some alu_sltu | Xor \<Rightarrow> Some alu_xor | Srl \<Rightarrow> Some alu_srl | Sra \<Rightarrow> Some alu_sra
        | Or \<Rightarrow> Some alu_or | And \<Rightarrow> Some alu_and | Mul \<Rightarrow> Some alu_mul | Mulh \<Rightarrow> Some alu_mulh
        | Mulhsu \<Rightarrow> Some alu_mulhsu | Mulhu \<Rightarrow> Some alu_mulhu | Div \<Rightarrow> Some alu_div
        | Divu \<Rightarrow> Some alu_divu | Rem \<Rightarrow> Some alu_rem | Remu \<Rightarrow> Some alu_remu | _ \<Rightarrow> None)
     | _ \<Rightarrow> None)"

definition alu32_op :: "instruction_id option \<Rightarrow> (u64 \<Rightarrow> u64 \<Rightarrow> u64) option" where
  "alu32_op i = (case i of Some (Rr r) \<Rightarrow>
       (case r of Addw \<Rightarrow> Some alu_addw | Subw \<Rightarrow> Some alu_subw | Sllw \<Rightarrow> Some alu_sllw
        | Srlw \<Rightarrow> Some alu_srlw | Sraw \<Rightarrow> Some alu_sraw | Mulw \<Rightarrow> Some alu_mulw | Divw \<Rightarrow> Some alu_divw
        | Divuw \<Rightarrow> Some alu_divuw | Remw \<Rightarrow> Some alu_remw | Remuw \<Rightarrow> Some alu_remuw | _ \<Rightarrow> None)
     | _ \<Rightarrow> None)"

definition exec_alu_imm ::
  "instruction_id option \<Rightarrow> u8 \<Rightarrow> nat \<Rightarrow> nat \<Rightarrow> i64 \<Rightarrow> execute_operands \<Rightarrow> u64 \<Rightarrow> exec_result result" where
  "exec_alu_imm i f3 rd rs1 imm regs pc = (case alu_imm_op i (op_read_x regs rs1) imm of
     None \<Rightarrow> Inl (IllegalInstruction (ucast f3))
   | Some v \<Rightarrow> Inr (R_WriteInt rd v (pc + 4)))"

definition exec_alu_imm32 ::
  "instruction_id option \<Rightarrow> u8 \<Rightarrow> nat \<Rightarrow> nat \<Rightarrow> i64 \<Rightarrow> execute_operands \<Rightarrow> u64 \<Rightarrow> exec_result result" where
  "exec_alu_imm32 i f3 rd rs1 imm regs pc = (case alu_imm32_op i (op_read_x regs rs1) imm of
     None \<Rightarrow> Inl (IllegalInstruction (ucast f3))
   | Some v \<Rightarrow> Inr (R_WriteInt rd v (pc + 4)))"

definition exec_alu ::
  "instruction_id option \<Rightarrow> u8 \<Rightarrow> nat \<Rightarrow> nat \<Rightarrow> nat \<Rightarrow> execute_operands \<Rightarrow> u64 \<Rightarrow> exec_result result" where
  "exec_alu i f3 rd rs1 rs2 regs pc = (case alu_op i of
     None \<Rightarrow> Inl (IllegalInstruction (ucast f3))
   | Some f \<Rightarrow> Inr (R_WriteInt rd (f (op_read_x regs rs1) (op_read_x regs rs2)) (pc + 4)))"

definition exec_alu32 ::
  "instruction_id option \<Rightarrow> u8 \<Rightarrow> nat \<Rightarrow> nat \<Rightarrow> nat \<Rightarrow> execute_operands \<Rightarrow> u64 \<Rightarrow> exec_result result" where
  "exec_alu32 i f3 rd rs1 rs2 regs pc = (case alu32_op i of
     None \<Rightarrow> Inl (IllegalInstruction (ucast f3))
   | Some f \<Rightarrow> Inr (R_WriteInt rd (f (op_read_x regs rs1) (op_read_x regs rs2)) (pc + 4)))"

subsection \<open>Conversions to integers\<close>

text \<open>Float constants by their bit patterns: \<open>2^31\<close>, \<open>-2^31\<close>, \<open>2^32\<close>, \<open>2^63\<close>, \<open>-2^63\<close>, \<open>2^64\<close>.
  \<open>i32::MAX as f32\<close>, \<open>u32::MAX as f32\<close>, \<open>i64::MAX as f32\<close> and \<open>i64::MAX as f64\<close> round up to the power
  of two.\<close>

abbreviation (input) as_i32 :: "fval \<Rightarrow> u64" where
  "as_i32 v \<equiv> scast (word_of_int (fto_int (- (2 ^ 31)) (2 ^ 31 - 1) v) :: u32)"
abbreviation (input) as_u32 :: "fval \<Rightarrow> u64" where
  "as_u32 v \<equiv> ucast (word_of_int (fto_int 0 (2 ^ 32 - 1) v) :: u32)"
abbreviation (input) as_i64 :: "fval \<Rightarrow> u64" where
  "as_i64 v \<equiv> word_of_int (fto_int (- (2 ^ 63)) (2 ^ 63 - 1) v)"
abbreviation (input) as_u64 :: "fval \<Rightarrow> u64" where
  "as_u64 v \<equiv> word_of_int (fto_int 0 (2 ^ 64 - 1) v)"

abbreviation (input) nx_unless :: "bool \<Rightarrow> u8" where
  "nx_unless exact \<equiv> (if \<not> exact then FF_NX else 0)"

definition sat_f32_to_i32 :: "u32 \<Rightarrow> u8 \<Rightarrow> u64 \<times> u8" where
  "sat_f32_to_i32 v rm =
     (if f32_is_nan v then (0x7FFFFFFF, FF_NV)
      else let rounded = round_f32 v rm
           in if fle (val32 0x4F000000) (val32 rounded) then (0x7FFFFFFF, FF_NV)
              else if fless (val32 rounded) (val32 0xCF000000) then (0xFFFFFFFF80000000, FF_NV)
              else (as_i32 (val32 rounded), nx_unless (feq (val32 v) (val32 rounded))))"

definition sat_f32_to_u32 :: "u32 \<Rightarrow> u8 \<Rightarrow> u64 \<times> u8" where
  "sat_f32_to_u32 v rm =
     (if f32_is_nan v then (0xFFFFFFFF, FF_NV)
      else if fless (val32 v) (val32 0) then (0, FF_NV)
      else let rounded = round_f32 v rm
           in if fle (val32 0x4F800000) (val32 rounded) then (0xFFFFFFFF, FF_NV)
              else (as_u32 (val32 rounded), nx_unless (feq (val32 v) (val32 rounded))))"

definition sat_f32_to_i64 :: "u32 \<Rightarrow> u8 \<Rightarrow> u64 \<times> u8" where
  "sat_f32_to_i64 v rm =
     (if f32_is_nan v then (0x7FFFFFFFFFFFFFFF, FF_NV)
      else if fle (val32 0x5F000000) (val32 v) then (0x7FFFFFFFFFFFFFFF, FF_NV)
      else if fless (val32 v) (val32 0xDF000000) then (0x8000000000000000, FF_NV)
      else let rounded = round_f32 v rm
           in (as_i64 (val32 rounded), nx_unless (feq (val32 v) (val32 rounded))))"

definition sat_f32_to_u64 :: "u32 \<Rightarrow> u8 \<Rightarrow> u64 \<times> u8" where
  "sat_f32_to_u64 v rm =
     (if f32_is_nan v then (0xFFFFFFFFFFFFFFFF, FF_NV)
      else if fless (val32 v) (val32 0) then (0, FF_NV)
      else if fle (val32 0x5F800000) (val32 v) then (0xFFFFFFFFFFFFFFFF, FF_NV)
      else let rounded = round_f32 v rm
           in (as_u64 (val32 rounded), nx_unless (feq (val32 v) (val32 rounded))))"

definition sat_f64_to_i32 :: "u64 \<Rightarrow> u8 \<Rightarrow> u64 \<times> u8" where
  "sat_f64_to_i32 v rm =
     (if f64_is_nan v then (0x7FFFFFFF, FF_NV)
      else let rounded = round_f64 v rm
           in if fle (val64 0x41E0000000000000) (val64 rounded) \<or> is_inf (val64 rounded) then (0x7FFFFFFF, FF_NV)
              else if fless (val64 rounded) (val64 0xC1E0000000000000) then (0xFFFFFFFF80000000, FF_NV)
              else (as_i32 (val64 rounded), nx_unless (feq (val64 v) (val64 rounded))))"

definition sat_f64_to_u32 :: "u64 \<Rightarrow> u8 \<Rightarrow> u64 \<times> u8" where
  "sat_f64_to_u32 v rm =
     (if f64_is_nan v then (0xFFFFFFFF, FF_NV)
      else if fless (val64 v) (val64 0) then (0, FF_NV)
      else let rounded = round_f64 v rm
           in if fle (val64 0x41F0000000000000) (val64 rounded) \<or> is_inf (val64 rounded) then (0xFFFFFFFF, FF_NV)
              else (as_u32 (val64 rounded), nx_unless (feq (val64 v) (val64 rounded))))"

definition sat_f64_to_i64 :: "u64 \<Rightarrow> u8 \<Rightarrow> u64 \<times> u8" where
  "sat_f64_to_i64 v rm =
     (if f64_is_nan v then (0x7FFFFFFFFFFFFFFF, FF_NV)
      else let rounded = round_f64 v rm
           in if fle (val64 0x43E0000000000000) (val64 rounded) \<or> is_inf (val64 rounded)
              then (0x7FFFFFFFFFFFFFFF, FF_NV)
              else if fless (val64 rounded) (val64 0xC3E0000000000000) then (0x8000000000000000, FF_NV)
              else (as_i64 (val64 rounded), nx_unless (feq (val64 v) (val64 rounded))))"

definition sat_f64_to_u64 :: "u64 \<Rightarrow> u8 \<Rightarrow> u64 \<times> u8" where
  "sat_f64_to_u64 v rm =
     (if f64_is_nan v then (0xFFFFFFFFFFFFFFFF, FF_NV)
      else if fless (val64 v) (val64 0) then (0, FF_NV)
      else let rounded = round_f64 v rm
           in if fle (val64 0x43F0000000000000) (val64 rounded) \<or> is_inf (val64 rounded)
              then (0xFFFFFFFFFFFFFFFF, FF_NV)
              else (as_u64 (val64 rounded), nx_unless (feq (val64 v) (val64 rounded))))"

subsection \<open>Floating-point instructions\<close>

abbreviation (input) fp_ids :: "fp_id list \<Rightarrow> instruction_id option set" where
  "fp_ids is \<equiv> set (map (\<lambda>i. Some (Fp i)) is)"

text \<open>The operations by instruction group; \<open>None\<close> is the illegal format or selector.\<close>

definition fp_arith ::
  "u8 \<Rightarrow> (u32 \<Rightarrow> u32 \<Rightarrow> u8 \<Rightarrow> u64 \<times> u8) \<Rightarrow> (u64 \<Rightarrow> u64 \<Rightarrow> u8 \<Rightarrow> u64 \<times> u8) \<Rightarrow> execute_operands \<Rightarrow>
   nat \<Rightarrow> nat \<Rightarrow> u8 \<Rightarrow> (u64 \<times> u8) option" where
  "fp_arith fmt single double regs rs1 rs2 rm =
     (if fmt = 0 then Some (single (op_read_f32 regs rs1) (op_read_f32 regs rs2) rm)
      else if fmt = 1 then Some (double (op_read_f64 regs rs1) (op_read_f64 regs rs2) rm)
      else None)"

definition select :: "u8 \<Rightarrow> 'a list \<Rightarrow> 'a option" where
  "select n xs = (if unat n < length xs then Some (xs ! unat n) else None)"

definition fp_sgnj_op :: "u8 \<Rightarrow> u8 \<Rightarrow> execute_operands \<Rightarrow> nat \<Rightarrow> nat \<Rightarrow> u64 option" where
  "fp_sgnj_op fmt rm regs rs1 rs2 =
     (if fmt = 0 then map_option (\<lambda>f. f (op_read_f32 regs rs1) (op_read_f32 regs rs2))
        (select rm [fp_sgnj_s, fp_sgnjn_s, fp_sgnjx_s])
      else if fmt = 1 then map_option (\<lambda>f. f (op_read_f64 regs rs1) (op_read_f64 regs rs2))
        (select rm [fp_sgnj_d, fp_sgnjn_d, fp_sgnjx_d])
      else None)"

definition fp_minmax_op :: "float_host \<Rightarrow> u8 \<Rightarrow> u8 \<Rightarrow> execute_operands \<Rightarrow> nat \<Rightarrow> nat \<Rightarrow> (u64 \<times> u8) option" where
  "fp_minmax_op h fmt rm regs rs1 rs2 =
     (if fmt = 0 then map_option (\<lambda>f. f (op_read_f32 regs rs1) (op_read_f32 regs rs2))
        (select rm [fp_min_s h, fp_max_s h])
      else if fmt = 1 then map_option (\<lambda>f. f (op_read_f64 regs rs1) (op_read_f64 regs rs2))
        (select rm [fp_min_d h, fp_max_d h])
      else None)"

definition fp_cmp_op :: "u8 \<Rightarrow> u8 \<Rightarrow> execute_operands \<Rightarrow> nat \<Rightarrow> nat \<Rightarrow> (u64 \<times> u8) option" where
  "fp_cmp_op fmt rm regs rs1 rs2 =
     (if fmt = 0 then map_option (\<lambda>f. f (op_read_f32 regs rs1) (op_read_f32 regs rs2))
        (select rm [fp_fle_s, fp_flt_s, fp_feq_s])
      else if fmt = 1 then map_option (\<lambda>f. f (op_read_f64 regs rs1) (op_read_f64 regs rs2))
        (select rm [fp_fle_d, fp_flt_d, fp_feq_d])
      else None)"

text \<open>\<open>FCVT\<close> to an integer; the error is the illegal-instruction argument.\<close>

definition fp_to_int_op :: "u8 \<Rightarrow> u8 \<Rightarrow> u8 \<Rightarrow> execute_operands \<Rightarrow> nat \<Rightarrow> nat \<Rightarrow> u32 + u64 \<times> u8" where
  "fp_to_int_op f5 fmt rm regs rs1 rs2 =
     (if fmt = 0
      then (let v = op_read_f32 regs rs1
            in if rs2 = 0 then Inr (sat_f32_to_i32 v rm) else if rs2 = 1 then Inr (sat_f32_to_u32 v rm)
               else if rs2 = 2 then Inr (sat_f32_to_i64 v rm) else if rs2 = 3 then Inr (sat_f32_to_u64 v rm)
               else Inl (of_nat rs2))
      else if fmt = 1
      then (let v = op_read_f64 regs rs1
            in if rs2 = 0 then Inr (sat_f64_to_i32 v rm) else if rs2 = 1 then Inr (sat_f64_to_u32 v rm)
               else if rs2 = 2 then Inr (sat_f64_to_i64 v rm) else if rs2 = 3 then Inr (sat_f64_to_u64 v rm)
               else Inl (of_nat rs2))
      else Inl (ucast f5))"

text \<open>\<open>as f64\<close> of the integer the source register holds.\<close>

definition int_as_f64 :: "u64 \<Rightarrow> nat \<Rightarrow> u64 option" where
  "int_as_f64 src rs2 =
     (if rs2 = 0 then Some (to64 (fof_int (sint (ucast src :: i32))))
      else if rs2 = 1 then Some (to64 (fof_int (uint (ucast src :: u32))))
      else if rs2 = 2 then Some (to64 (fof_int (sint src)))
      else if rs2 = 3 then Some (to64 (fof_int (uint src)))
      else None)"

definition int_to_fp_op :: "u8 \<Rightarrow> u8 \<Rightarrow> u8 \<Rightarrow> u64 \<Rightarrow> nat \<Rightarrow> u32 + u64 \<times> u8" where
  "int_to_fp_op f5 fmt rm src rs2 =
     (if fmt = 0
      then (case int_as_f64 src rs2 of
              None \<Rightarrow> Inl (of_nat rs2)
            | Some exact \<Rightarrow>
                (let result = f64_to_f32_with_rm exact rm
                 in Inr (0xFFFFFFFF00000000 OR ucast result, fp_flags_from_exact_s exact result)))
      else if fmt = 1
      then (case int_as_f64 src rs2 of
              None \<Rightarrow> Inl (of_nat rs2)
            | Some result \<Rightarrow>
                Inr (result,
                  if rs2 = 2 then of_bool (as_i64 (val64 result) \<noteq> src)
                  else if rs2 = 3 then of_bool (as_u64 (val64 result) \<noteq> src) else 0))
      else Inl (ucast f5))"

text \<open>\<open>f32 as f64\<close>; the bits of a NaN are the host's.\<close>

definition fcvt_d_s :: "float_host \<Rightarrow> u32 \<Rightarrow> u64" where
  "fcvt_d_s h v = (if f32_is_nan v then cast_nan h v else f32_as_f64 v)"

definition exec_fp_op ::
  "float_host \<Rightarrow> instruction_id option \<Rightarrow> u8 \<Rightarrow> u8 \<Rightarrow> u8 \<Rightarrow> nat \<Rightarrow> nat \<Rightarrow> nat \<Rightarrow> execute_operands \<Rightarrow>
   csr_file \<Rightarrow> u64 \<Rightarrow> exec_result result" where
  "exec_fp_op h i f5 fmt rm0 rd rs1 rs2 regs csrs pc =
     (let rm = (if rm0 = RM_DYN then rounding_mode csrs else rm0);
          next_pc = pc + 4;
          err = Inl (IllegalInstruction (ucast f5));
          fp_flags = (\<lambda>r. case r of None \<Rightarrow> err | Some (bits, ff) \<Rightarrow> Inr (R_WriteFpFlags rd bits ff next_pc))
      in if i \<in> fp_ids [FaddS, FaddD] then fp_flags (fp_arith fmt fp_add_s fp_add_d regs rs1 rs2 rm)
         else if i \<in> fp_ids [FsubS, FsubD] then fp_flags (fp_arith fmt fp_sub_s fp_sub_d regs rs1 rs2 rm)
         else if i \<in> fp_ids [FmulS, FmulD] then fp_flags (fp_arith fmt fp_mul_s fp_mul_d regs rs1 rs2 rm)
         else if i \<in> fp_ids [FdivS, FdivD] then fp_flags (fp_arith fmt fp_div_s fp_div_d regs rs1 rs2 rm)
         else if i \<in> fp_ids [FsqrtS, FsqrtD]
         then fp_flags (fp_arith fmt (\<lambda>a _. fp_sqrt_s a) (\<lambda>a _. fp_sqrt_d a) regs rs1 rs2 rm)
         else if i \<in> fp_ids [FsgnjS, FsgnjD, FsgnjnS, FsgnjnD, FsgnjxS, FsgnjxD]
         then (case fp_sgnj_op fmt rm regs rs1 rs2 of None \<Rightarrow> err | Some bits \<Rightarrow> Inr (R_WriteFp rd bits next_pc))
         else if i \<in> fp_ids [FminS, FminD, FmaxS, FmaxD] then fp_flags (fp_minmax_op h fmt rm regs rs1 rs2)
         else if i \<in> fp_ids [FleS, FleD, FltS, FltD, FeqS, FeqD]
         then (case fp_cmp_op fmt rm regs rs1 rs2 of
                 None \<Rightarrow> err | Some (v, ff) \<Rightarrow> Inr (R_WriteIntFlags rd v ff next_pc))
         else if i \<in> fp_ids [FcvtWS, FcvtWuS, FcvtLS, FcvtLuS, FcvtWD, FcvtWuD, FcvtLD, FcvtLuD]
         then (case fp_to_int_op f5 fmt rm regs rs1 rs2 of
                 Inl e \<Rightarrow> Inl (IllegalInstruction e)
               | Inr (v, ff) \<Rightarrow> Inr (R_WriteIntFlags rd v ff next_pc))
         else if i \<in> fp_ids [FcvtSW, FcvtSWu, FcvtSL, FcvtSLu, FcvtDW, FcvtDWu, FcvtDL, FcvtDLu]
         then (case int_to_fp_op f5 fmt rm (op_read_x regs rs1) rs2 of
                 Inl e \<Rightarrow> Inl (IllegalInstruction e)
               | Inr (bits, ff) \<Rightarrow> Inr (R_WriteFpFlags rd bits ff next_pc))
         else if i = Some (Fp FcvtSD)
         then (if fmt \<noteq> 0 then err
               else let (bits, ff) = fp_cvt_d_to_s (op_read_f64 regs rs1) rm
                    in Inr (R_WriteFpFlags rd bits ff next_pc))
         else if i = Some (Fp FcvtDS)
         then (if fmt \<noteq> 1 then err
               else Inr (R_WriteFpFlags rd (fcvt_d_s h (op_read_f32 regs rs1)) 0 next_pc))
         else if i \<in> fp_ids [FmvXW, FmvXD, FclassS, FclassD]
         then (if rm = 0
               then (if fmt = 0 then Inr (R_WriteInt rd (scast (ucast (op_read_f_bits regs rs1) :: u32)) next_pc)
                     else if fmt = 1 then Inr (R_WriteInt rd (op_read_f_bits regs rs1) next_pc)
                     else err)
               else if rm = 1
               then (if fmt = 0 then Inr (R_WriteInt rd (fp_fclass_s (op_read_f32 regs rs1)) next_pc)
                     else if fmt = 1 then Inr (R_WriteInt rd (fp_fclass_d (op_read_f64 regs rs1)) next_pc)
                     else err)
               else err)
         else if i \<in> fp_ids [FmvWX, FmvDX]
         then (let src = op_read_x regs rs1
               in if fmt = 0 then Inr (R_WriteFp rd (0xFFFFFFFF00000000 OR (src AND 0xFFFFFFFF)) next_pc)
                  else if fmt = 1 then Inr (R_WriteFp rd src next_pc)
                  else err)
         else err)"

definition fmac_s_op :: "instruction_id option \<Rightarrow> (u32 \<Rightarrow> u32 \<Rightarrow> u32 \<Rightarrow> u8 \<Rightarrow> u64 \<times> u8) option" where
  "fmac_s_op i =
     (if i = Some (Fp FmaddS) then Some fp_fmadd_s else if i = Some (Fp FmsubS) then Some fp_fmsub_s
      else if i = Some (Fp FnmsubS) then Some fp_fnmsub_s else if i = Some (Fp FnmaddS) then Some fp_fnmadd_s
      else None)"

definition fmac_d_op :: "instruction_id option \<Rightarrow> (u64 \<Rightarrow> u64 \<Rightarrow> u64 \<Rightarrow> u8 \<Rightarrow> u64 \<times> u8) option" where
  "fmac_d_op i =
     (if i = Some (Fp FmaddD) then Some fp_fmadd_d else if i = Some (Fp FmsubD) then Some fp_fmsub_d
      else if i = Some (Fp FnmsubD) then Some fp_fnmsub_d else if i = Some (Fp FnmaddD) then Some fp_fnmadd_d
      else None)"

definition exec_fmac ::
  "instruction_id option \<Rightarrow> u8 \<Rightarrow> u8 \<Rightarrow> nat \<Rightarrow> nat \<Rightarrow> nat \<Rightarrow> nat \<Rightarrow> execute_operands \<Rightarrow> csr_file \<Rightarrow> u64 \<Rightarrow>
   exec_result result" where
  "exec_fmac i fmt rm0 rd rs1 rs2 rs3 regs csrs pc =
     (let rm = (if rm0 = RM_DYN then rounding_mode csrs else rm0); next_pc = pc + 4
      in case (if fmt = 0
               then map_option (\<lambda>f. f (op_read_f32 regs rs1) (op_read_f32 regs rs2) (op_read_f32 regs rs3) rm)
                      (fmac_s_op i)
               else if fmt = 1
               then map_option (\<lambda>f. f (op_read_f64 regs rs1) (op_read_f64 regs rs2) (op_read_f64 regs rs3) rm)
                      (fmac_d_op i)
               else None) of
           None \<Rightarrow> Inl (IllegalInstruction (ucast fmt))
         | Some (bits, ff) \<Rightarrow> Inr (R_WriteFpFlags rd bits ff next_pc))"

subsection \<open>CSR instructions\<close>

definition exec_csr ::
  "instruction_id option \<Rightarrow> u8 \<Rightarrow> nat \<Rightarrow> nat \<Rightarrow> u16 \<Rightarrow> execute_operands \<Rightarrow> csr_file \<Rightarrow> u64 \<Rightarrow> exec_result result" where
  "exec_csr i f3 rd rs1_uimm csr regs csrs pc =
     (let required_priv = drop_bit 8 (ucast csr) AND (0x3 :: u64)
      in if priv_num (priv_mode (op_registers regs)) < required_priv then Inl (IllegalInstruction (ucast csr))
         else let is_write =
                    (if i \<in> {Some (Base Csrrw), Some (Base Csrrwi)} then True
                     else if i \<in> {Some (Base Csrrs), Some (Base Csrrc), Some (Base Csrrsi), Some (Base Csrrci)}
                     then rs1_uimm \<noteq> 0
                     else False)
              in if is_write \<and> drop_bit 10 (ucast csr) AND (0x3 :: u64) = 0x3
                 then Inl (IllegalInstruction (ucast csr))
                 else case (if i \<in> {Some (Base Csrrw), Some (Base Csrrs), Some (Base Csrrc)}
                            then Some (op_read_x regs rs1_uimm)
                            else if i \<in> {Some (Base Csrrwi), Some (Base Csrrsi), Some (Base Csrrci)}
                            then Some (of_nat rs1_uimm) else None) of
                        None \<Rightarrow> Inl (IllegalInstruction (ucast f3))
                      | Some operand \<Rightarrow>
                          (let old_val = (case csr_read csrs csr of Inl _ \<Rightarrow> 0 | Inr v \<Rightarrow> v)
                           in Inr (R_Csr f3 rd rs1_uimm csr operand old_val (pc + 4))))"

subsection \<open>The stage\<close>

definition execute ::
  "float_host \<Rightarrow> decoded_insn \<Rightarrow> execute_operands \<Rightarrow> csr_file \<Rightarrow> u64 \<Rightarrow> exec_result result" where
  "execute h insn regs csrs pc = (let i = insn_id insn in case insn of
     D_Lui rd imm \<Rightarrow> Inr (R_WriteInt rd imm (pc + 4))
   | D_Auipc rd imm \<Rightarrow> Inr (R_WriteInt rd (pc + imm) (pc + 4))
   | D_Jal rd imm \<Rightarrow> Inr (R_WriteInt rd (pc + 4) (pc + imm))
   | D_Jalr rd rs1 imm \<Rightarrow> Inr (R_WriteInt rd (pc + 4) ((op_read_x regs rs1 + imm) AND NOT 1))
   | D_Branch f3 rs1 rs2 imm \<Rightarrow>
       (case branch_taken i (op_read_x regs rs1) (op_read_x regs rs2) of
          None \<Rightarrow> Inl (IllegalInstruction 0)
        | Some taken \<Rightarrow> Inr (R_Jump (if taken then pc + imm else pc + 4)))
   | D_Load f3 rd rs1 imm \<Rightarrow> Inr (R_Load rd (op_read_x regs rs1 + imm) f3 (pc + 4))
   | D_Store f3 rs1 rs2 imm \<Rightarrow> Inr (R_Store (op_read_x regs rs1 + imm) (op_read_x regs rs2) f3 (pc + 4))
   | D_AluImm f3 f7 rd rs1 imm \<Rightarrow> exec_alu_imm i f3 rd rs1 imm regs pc
   | D_AluImm32 f3 f7 rd rs1 imm \<Rightarrow> exec_alu_imm32 i f3 rd rs1 imm regs pc
   | D_Alu f3 f7 rd rs1 rs2 \<Rightarrow> exec_alu i f3 rd rs1 rs2 regs pc
   | D_Alu32 f3 f7 rd rs1 rs2 \<Rightarrow> exec_alu32 i f3 rd rs1 rs2 regs pc
   | D_Fence _ _ _ \<Rightarrow> Inr (R_Fence (pc + 4))
   | D_FenceI \<Rightarrow> Inr (R_FenceI (pc + 4))
   | D_Ecall \<Rightarrow> Inr R_Ecall
   | D_Ebreak \<Rightarrow> Inr R_Ebreak
   | D_Mret \<Rightarrow> Inr R_Mret
   | D_Sret \<Rightarrow> Inr R_Sret
   | D_SfenceVma \<Rightarrow> Inr R_SfenceVma
   | D_Wfi \<Rightarrow> Inr (R_Wfi (pc + 4))
   | D_Csr f3 rd rs1_uimm csr \<Rightarrow> exec_csr i f3 rd rs1_uimm csr regs csrs pc
   | D_FLoad f3 rd rs1 imm \<Rightarrow> Inr (R_FLoad rd (op_read_x regs rs1 + imm) f3 (pc + 4))
   | D_FStore f3 rs1 rs2 imm \<Rightarrow> Inr (R_FStore (op_read_x regs rs1 + imm) (op_read_f_bits regs rs2) f3 (pc + 4))
   | D_FOp f5 fmt rm rd rs1 rs2 \<Rightarrow> exec_fp_op h i f5 fmt rm rd rs1 rs2 regs csrs pc
   | D_FMac _ fmt rm rd rs1 rs2 rs3 \<Rightarrow> exec_fmac i fmt rm rd rs1 rs2 rs3 regs csrs pc
   | D_Atomic f5 aq rl f3 rd rs1 rs2 \<Rightarrow>
       Inr (R_Atomic f5 aq rl f3 rd (op_read_x regs rs1) (op_read_x regs rs2) (pc + 4)))"

end
