(* ===== verification/Stages.thy ===== *)
theory Stages
  imports Execute Mmu
begin

text \<open>
  The stages of the pipeline that touch the machine: fetch (\<open>cpu/pipeline/fetch.rs\<close>), memory
  (\<open>cpu/pipeline/memory.rs\<close>) and write-back (\<open>cpu/pipeline/writeback.rs\<close>), over any memory given by
  its methods. The state of a fetch is the TLB with the memory, that of the memory stage has the
  load reservation as well. Constructors of \<open>MemResult\<close> carry the prefix \<open>M_\<close>.
\<close>

subsection \<open>Fetch\<close>

definition fetch_with_pmp :: "'m mem_ops \<Rightarrow> u64 \<Rightarrow> translation_context \<Rightarrow> (tlb \<times> 'm, u32) action" where
  "fetch_with_pmp ops pc ctx =
     (if pc AND 0x3 \<noteq> 0 then sfail (InstructionAccessFault pc)
      else sbind (translate_with_pmp ops pc ctx Acc_Execute)
             (\<lambda>phys_addr. smap_err (\<lambda>_. InstructionAccessFault pc) (on_mem (read_word ops phys_addr))))"

definition fetch :: "'m mem_ops \<Rightarrow> u64 \<Rightarrow> u64 \<Rightarrow> privilege_mode \<Rightarrow> u64 \<Rightarrow> ('m, u32) action" where
  "fetch ops pc satp_v p mstatus_v m =
     (case fetch_with_pmp ops pc (without_pmp satp_v p mstatus_v) (tlb_new, m) of (r, (_, m')) \<Rightarrow> (r, m'))"

subsection \<open>Results of the memory stage\<close>

datatype (plugins only: code) mem_result =
    M_WriteInt nat u64 u64
  | M_WriteFp nat u64 u64
  | M_WriteIntFlags nat u64 u8 u64
  | M_WriteFpFlags nat u64 u8 u64
  | M_Jump u64
  | M_Csr u8 nat nat u16 u64 u64 u64
  | M_Fence u64
  | M_FenceI u64
  | M_Ecall
  | M_Ebreak
  | M_Mret
  | M_Sret
  | M_SfenceVma
  | M_Wfi u64

record memory_write =
  physical_address :: u64
  mw_size :: u8
  mw_value :: u64

definition memory_write_of :: "u64 \<Rightarrow> u64 \<Rightarrow> u8 \<Rightarrow> memory_write" where
  "memory_write_of addr v f3 =
     (let size = (push_bit (unat f3) 1 :: u8)
      in \<lparr>physical_address = addr, mw_size = size,
          mw_value = (if size = 1 then v AND 0xFF else if size = 2 then v AND 0xFFFF
                      else if size = 4 then v AND 0xFFFFFFFF else v)\<rparr>)"

subsection \<open>Loads and stores\<close>

abbreviation (input) or_load_fault :: "u64 \<Rightarrow> ('m, 'a) action \<Rightarrow> ('m, 'a) action" where
  "or_load_fault addr \<equiv> smap_err (\<lambda>_. LoadAccessFault addr)"
abbreviation (input) or_store_fault :: "u64 \<Rightarrow> ('m, 'a) action \<Rightarrow> ('m, 'a) action" where
  "or_store_fault addr \<equiv> smap_err (\<lambda>_. StoreAccessFault addr)"

definition load_int :: "'m mem_ops \<Rightarrow> u64 \<Rightarrow> u8 \<Rightarrow> ('m, u64) action" where
  "load_int ops addr f3 =
     (if f3 = 0 then sbind (or_load_fault addr (read_byte ops addr)) (\<lambda>b. sreturn (scast b))
      else if f3 = 1 then sbind (or_load_fault addr (read_halfword ops addr)) (\<lambda>h. sreturn (scast h))
      else if f3 = 2 then sbind (or_load_fault addr (read_word ops addr)) (\<lambda>w. sreturn (scast w))
      else if f3 = 3 then or_load_fault addr (read_doubleword ops addr)
      else if f3 = 4 then sbind (or_load_fault addr (read_byte ops addr)) (\<lambda>b. sreturn (ucast b))
      else if f3 = 5 then sbind (or_load_fault addr (read_halfword ops addr)) (\<lambda>h. sreturn (ucast h))
      else if f3 = 6 then sbind (or_load_fault addr (read_word ops addr)) (\<lambda>w. sreturn (ucast w))
      else sfail (LoadAccessFault addr))"

definition store_int :: "'m mem_ops \<Rightarrow> u64 \<Rightarrow> u64 \<Rightarrow> u8 \<Rightarrow> ('m, unit) action" where
  "store_int ops addr v f3 =
     (if f3 = 0 then or_store_fault addr (write_byte ops addr (ucast v))
      else if f3 = 1 then or_store_fault addr (write_halfword ops addr (ucast v))
      else if f3 = 2 then or_store_fault addr (write_word ops addr (ucast v))
      else if f3 = 3 then or_store_fault addr (write_doubleword ops addr v)
      else sfail (StoreAccessFault addr))"

definition load_fp :: "'m mem_ops \<Rightarrow> u64 \<Rightarrow> u8 \<Rightarrow> ('m, u64) action" where
  "load_fp ops addr f3 =
     (if f3 = 2 then sbind (or_load_fault addr (read_word ops addr)) (\<lambda>w. sreturn (0xFFFFFFFF00000000 OR ucast w))
      else if f3 = 3 then or_load_fault addr (read_doubleword ops addr)
      else sfail (LoadAccessFault addr))"

definition store_fp :: "'m mem_ops \<Rightarrow> u64 \<Rightarrow> u64 \<Rightarrow> u8 \<Rightarrow> ('m, unit) action" where
  "store_fp ops addr bits f3 =
     (if f3 = 2 then or_store_fault addr (write_word ops addr (ucast bits))
      else if f3 = 3 then or_store_fault addr (write_doubleword ops addr bits)
      else sfail (StoreAccessFault addr))"

subsection \<open>Atomics\<close>

definition amo_w :: "u8 \<Rightarrow> u32 \<Rightarrow> u32 \<Rightarrow> u32 option" where
  "amo_w f5 old v =
     (if f5 = 0x00 then Some (old + v)
      else if f5 = 0x01 then Some v
      else if f5 = 0x04 then Some (old XOR v)
      else if f5 = 0x08 then Some (old OR v)
      else if f5 = 0x0C then Some (old AND v)
      else if f5 = 0x10 then Some (if sint old \<le> sint v then old else v)
      else if f5 = 0x14 then Some (if sint old \<le> sint v then v else old)
      else if f5 = 0x18 then Some (min old v)
      else if f5 = 0x1C then Some (max old v)
      else None)"

definition amo_d :: "u8 \<Rightarrow> u64 \<Rightarrow> u64 \<Rightarrow> u64 option" where
  "amo_d f5 old v =
     (if f5 = 0x00 then Some (old + v)
      else if f5 = 0x01 then Some v
      else if f5 = 0x04 then Some (old XOR v)
      else if f5 = 0x08 then Some (old OR v)
      else if f5 = 0x0C then Some (old AND v)
      else if f5 = 0x10 then Some (if sint old \<le> sint v then old else v)
      else if f5 = 0x14 then Some (if sint old \<le> sint v then v else old)
      else if f5 = 0x18 then Some (min old v)
      else if f5 = 0x1C then Some (max old v)
      else None)"

definition amo_op :: "'m mem_ops \<Rightarrow> u8 \<Rightarrow> u8 \<Rightarrow> u64 \<Rightarrow> u64 \<Rightarrow> ('m, u64 \<times> u64) action" where
  "amo_op ops f5 f3 addr v =
     (if f3 = 2
      then sbind (or_load_fault addr (read_word ops addr)) (\<lambda>old.
             case amo_w f5 old (ucast v) of
               None \<Rightarrow> sfail (IllegalInstruction (ucast f5))
             | Some new \<Rightarrow>
                 sbind (or_store_fault addr (write_word ops addr new)) (\<lambda>_. sreturn (scast old, ucast new)))
      else sbind (or_load_fault addr (read_doubleword ops addr)) (\<lambda>old.
             case amo_d f5 old v of
               None \<Rightarrow> sfail (IllegalInstruction (ucast f5))
             | Some new \<Rightarrow>
                 sbind (or_store_fault addr (write_doubleword ops addr new)) (\<lambda>_. sreturn (old, new))))"

text \<open>The state of an atomic is the reservation with the memory.\<close>

definition on_snd :: "('m, 'a) action \<Rightarrow> ('r \<times> 'm, 'a) action" where
  "on_snd m s = (case m (snd s) of (r, m') \<Rightarrow> (r, (fst s, m')))"

definition set_reservation :: "u64 option \<Rightarrow> (u64 option \<times> 'm, unit) action" where
  "set_reservation r s = (Inr (), (r, snd s))"

definition handle_atomic ::
  "'m mem_ops \<Rightarrow> u8 \<Rightarrow> u8 \<Rightarrow> nat \<Rightarrow> u64 \<Rightarrow> u64 \<Rightarrow> (u64 option \<times> 'm, u64 \<times> memory_write option) action" where
  "handle_atomic ops f5 f3 rd addr v s =
     (let is_word = (f3 = 2); align = (if is_word then 4 else 8 :: u64)
      in if addr mod align \<noteq> 0 then sfail (StoreAccessFault addr) s
         else if f5 = 0x02
         then sbind (set_reservation (Some addr)) (\<lambda>_.
                on_snd (if is_word
                        then sbind (or_load_fault addr (read_word ops addr)) (\<lambda>w. sreturn (scast w, None))
                        else sbind (or_load_fault addr (read_doubleword ops addr)) (\<lambda>d. sreturn (d, None)))) s
         else if f5 = 0x03
         then (if fst s = Some addr
               then sbind (set_reservation None) (\<lambda>_.
                      on_snd (sbind (if is_word then or_store_fault addr (write_word ops addr (ucast v))
                                     else or_store_fault addr (write_doubleword ops addr v))
                        (\<lambda>_. sreturn (0, Some (memory_write_of addr v f3))))) s
               else sreturn (1, None) s)
         else on_snd (sbind (amo_op ops f5 f3 addr v)
                (\<lambda>(old, new). sreturn (old, Some (memory_write_of addr new f3)))) s)"

subsection \<open>The memory stage\<close>

text \<open>The reservation, the TLB and the memory.\<close>

type_synonym 'm mem_state = "u64 option \<times> tlb \<times> 'm"

definition on_tlb :: "(tlb \<times> 'm, 'a) action \<Rightarrow> ('m mem_state, 'a) action" where
  "on_tlb m = on_snd m"

definition on_bus :: "('m, 'a) action \<Rightarrow> ('m mem_state, 'a) action" where
  "on_bus m = on_snd (on_mem m)"

definition on_reserved :: "(u64 option \<times> 'm, 'a) action \<Rightarrow> ('m mem_state, 'a) action" where
  "on_reserved m s = (case s of (r, t, b) \<Rightarrow> case m (r, b) of (x, (r', b')) \<Rightarrow> (x, (r', t, b')))"

definition memory_stage_with_trace ::
  "'m mem_ops \<Rightarrow> translation_context \<Rightarrow> exec_result \<Rightarrow>
   ('m mem_state, mem_result \<times> memory_write option) action" where
  "memory_stage_with_trace ops ctx result = (case result of
     R_WriteInt rd v next_pc \<Rightarrow> sreturn (M_WriteInt rd v next_pc, None)
   | R_WriteFp rd bits next_pc \<Rightarrow> sreturn (M_WriteFp rd bits next_pc, None)
   | R_WriteIntFlags rd v ff next_pc \<Rightarrow> sreturn (M_WriteIntFlags rd v ff next_pc, None)
   | R_WriteFpFlags rd bits ff next_pc \<Rightarrow> sreturn (M_WriteFpFlags rd bits ff next_pc, None)
   | R_Jump next_pc \<Rightarrow> sreturn (M_Jump next_pc, None)
   | R_Csr f3 rd rs1_uimm csr operand old_val next_pc \<Rightarrow>
       sreturn (M_Csr f3 rd rs1_uimm csr operand old_val next_pc, None)
   | R_Fence next_pc \<Rightarrow> sreturn (M_Fence next_pc, None)
   | R_FenceI next_pc \<Rightarrow> sreturn (M_FenceI next_pc, None)
   | R_Ecall \<Rightarrow> sreturn (M_Ecall, None)
   | R_Ebreak \<Rightarrow> sreturn (M_Ebreak, None)
   | R_Mret \<Rightarrow> sreturn (M_Mret, None)
   | R_Sret \<Rightarrow> sreturn (M_Sret, None)
   | R_SfenceVma \<Rightarrow> sreturn (M_SfenceVma, None)
   | R_Wfi next_pc \<Rightarrow> sreturn (M_Wfi next_pc, None)
   | R_Load rd addr f3 next_pc \<Rightarrow>
       sbind (on_tlb (translate_with_pmp ops addr ctx Acc_Load)) (\<lambda>phys.
       sbind (on_bus (load_int ops phys f3)) (\<lambda>v. sreturn (M_WriteInt rd v next_pc, None)))
   | R_Store addr v f3 next_pc \<Rightarrow>
       sbind (on_tlb (translate_with_pmp ops addr ctx Acc_Store)) (\<lambda>phys.
       sbind (on_bus (store_int ops phys v f3)) (\<lambda>_.
         sreturn (M_Jump next_pc, Some (memory_write_of phys v f3))))
   | R_FLoad rd addr f3 next_pc \<Rightarrow>
       sbind (on_tlb (translate_with_pmp ops addr ctx Acc_Load)) (\<lambda>phys.
       sbind (on_bus (load_fp ops phys f3)) (\<lambda>bits. sreturn (M_WriteFp rd bits next_pc, None)))
   | R_FStore addr bits f3 next_pc \<Rightarrow>
       sbind (on_tlb (translate_with_pmp ops addr ctx Acc_Store)) (\<lambda>phys.
       sbind (on_bus (store_fp ops phys bits f3)) (\<lambda>_.
         sreturn (M_Jump next_pc, Some (memory_write_of phys bits f3))))
   | R_Atomic f5 aq rl f3 rd addr v next_pc \<Rightarrow>
       sbind (on_tlb (translate_with_pmp ops addr ctx Acc_Store)) (\<lambda>phys.
       sbind (on_reserved (handle_atomic ops f5 f3 rd phys v)) (\<lambda>(res, mw).
         sreturn (M_WriteInt rd res next_pc, mw))))"

definition memory_stage_with_pmp ::
  "'m mem_ops \<Rightarrow> translation_context \<Rightarrow> exec_result \<Rightarrow> ('m mem_state, mem_result) action" where
  "memory_stage_with_pmp ops ctx result =
     sbind (memory_stage_with_trace ops ctx result) (\<lambda>(r, _). sreturn r)"

definition memory_stage ::
  "'m mem_ops \<Rightarrow> exec_result \<Rightarrow> u64 \<Rightarrow> privilege_mode \<Rightarrow> u64 \<Rightarrow> (u64 option \<times> 'm, mem_result) action" where
  "memory_stage ops result satp_v p mstatus_v s =
     (case memory_stage_with_pmp ops (without_pmp satp_v p mstatus_v) result (fst s, tlb_new, snd s) of
        (r, (rv, _, m)) \<Rightarrow> (r, (rv, m)))"

subsection \<open>Write-back\<close>

text \<open>The state is the register file with the CSR file.\<close>

definition csr_update :: "u8 \<Rightarrow> u64 \<Rightarrow> u64 \<Rightarrow> nat \<Rightarrow> (u64 \<times> bool) option" where
  "csr_update f3 old operand rs1_uimm =
     (if f3 = 1 then Some (operand, True)
      else if f3 = 2 then Some (old OR operand, rs1_uimm \<noteq> 0)
      else if f3 = 3 then Some (old AND NOT operand, rs1_uimm \<noteq> 0)
      else if f3 = 5 then Some (operand, True)
      else if f3 = 6 then Some (old OR operand, rs1_uimm \<noteq> 0)
      else if f3 = 7 then Some (old AND NOT operand, rs1_uimm \<noteq> 0)
      else None)"

definition writeback :: "mem_result \<Rightarrow> (registers \<times> csr_file, u64) action" where
  "writeback result s = (case s of (regs, csrs) \<Rightarrow> (case result of
     M_WriteInt rd v next_pc \<Rightarrow> (Inr next_pc, (write_x rd v regs, csrs))
   | M_WriteFp rd bits next_pc \<Rightarrow> (Inr next_pc, (write_f_bits rd bits regs, csrs))
   | M_WriteIntFlags rd v ff next_pc \<Rightarrow> (Inr next_pc, (write_x rd v regs, accumulate_fflags ff csrs))
   | M_WriteFpFlags rd bits ff next_pc \<Rightarrow> (Inr next_pc, (write_f_bits rd bits regs, accumulate_fflags ff csrs))
   | M_Jump next_pc \<Rightarrow> (Inr next_pc, s)
   | M_Fence next_pc \<Rightarrow> (Inr next_pc, s)
   | M_FenceI next_pc \<Rightarrow> (Inr next_pc, s)
   | M_Csr f3 rd rs1_uimm csr operand _ next_pc \<Rightarrow>
       (case csr_read csrs csr of
          Inl e \<Rightarrow> (Inl e, s)
        | Inr old \<Rightarrow>
          (case csr_update f3 old operand rs1_uimm of
             None \<Rightarrow> (Inl (IllegalInstruction (ucast f3)), s)
           | Some (new_val, do_write) \<Rightarrow>
             (case (if do_write then csr_write csrs csr new_val else Inr csrs) of
                Inl e \<Rightarrow> (Inl e, s)
              | Inr csrs' \<Rightarrow> (Inr next_pc, (write_x rd old regs, csrs')))))
   | M_Ecall \<Rightarrow> (Inl vm_error.Ecall, s)
   | M_Ebreak \<Rightarrow> (Inl vm_error.Ebreak, s)
   | M_Mret \<Rightarrow> (Inl vm_error.Mret, s)
   | M_Sret \<Rightarrow> (Inl vm_error.Sret, s)
   | M_SfenceVma \<Rightarrow> (Inr (reg_pc regs + 4), s)
   | M_Wfi next_pc \<Rightarrow> (Inr next_pc, s)))"

end
