(* ===== verification/Retirement.thy ===== *)
theory Retirement
  imports Interrupts Stages
begin

text \<open>
  Retirement events (\<open>cpu/retirement.rs\<close>): what changed in the architectural state between two
  instruction boundaries, as lists of register and CSR writes.
\<close>

subsection \<open>Events\<close>

record register_write =
  rw_index :: u8
  rw_value :: u64

record csr_write_record =
  cw_address :: u16
  cw_value :: u64

record privilege_transition =
  pt_from :: privilege_mode
  pt_to :: privilege_mode

datatype trap_stage =
  TS_Interrupt | TS_Fetch | TS_Decode | TS_Execute | TS_Memory | TS_Writeback

record trap_record =
  tr_cause :: u64
  tr_value :: u64
  tr_stage :: trap_stage

definition tr_is_interrupt :: "trap_record \<Rightarrow> bool" where
  "tr_is_interrupt t = (drop_bit 63 (tr_cause t) \<noteq> 0)"

record retire_event =
  ev_version :: u16
  ev_sequence :: u64
  ev_pc :: u64
  ev_raw_instruction :: "u32 option"
  ev_instruction :: "instruction_id option"
  ev_retired :: bool
  ev_integer_writes :: "register_write list"
  ev_floating_writes :: "register_write list"
  ev_csr_writes :: "csr_write_record list"
  ev_memory_write :: "memory_write option"
  ev_privilege_transition :: "privilege_transition option"
  ev_trap :: "trap_record option"
  ev_next_pc :: u64

abbreviation (input) RETIRE_EVENT_VERSION :: u16 where "RETIRE_EVENT_VERSION \<equiv> 1"

subsection \<open>Capturing a state and comparing with it\<close>

record event_state =
  es_integer_registers :: "u64 list"
  es_floating_registers :: "u64 list"
  es_csrs :: csr_snapshot
  es_privilege :: privilege_mode

definition capture :: "architectural_state \<Rightarrow> event_state" where
  "capture st =
     \<lparr>es_integer_registers = map (read_x (arch_registers st)) [0..<32],
      es_floating_registers = map (read_f_bits (arch_registers st)) [0..<32],
      es_csrs = csr_snapshot_of (arch_csrs st), es_privilege = privilege st\<rparr>"

definition changed_registers :: "u64 list \<Rightarrow> (nat \<Rightarrow> u64) \<Rightarrow> register_write list" where
  "changed_registers before after =
     List.map_filter (\<lambda>index. let v = after index
        in if before ! index \<noteq> v then Some \<lparr>rw_index = of_nat index, rw_value = v\<rparr> else None) [0..<32]"

text \<open>The compared CSRs, by address.\<close>

definition csr_view :: "csr_snapshot \<Rightarrow> (u16 \<times> u64) list" where
  "csr_view s =
     [(0x001, ucast (sn_fflags s)), (0x002, ucast (sn_frm s)), (0x300, sn_mstatus s), (0x301, sn_misa s),
      (0x302, sn_medeleg s), (0x303, sn_mideleg s), (0x304, sn_mie s), (0x305, sn_mtvec s),
      (0x340, sn_mscratch s), (0x341, sn_mepc s), (0x342, sn_mcause s), (0x343, sn_mtval s),
      (0x344, sn_mip s), (0x3A0, sn_pmpcfg0 s), (0x3B0, sn_pmpaddr0 s), (0x105, sn_stvec s),
      (0x140, sn_sscratch s), (0x141, sn_sepc s), (0x142, sn_scause s), (0x143, sn_stval s),
      (0x180, sn_satp s)]"

definition changed_csrs :: "csr_snapshot \<Rightarrow> csr_snapshot \<Rightarrow> csr_write_record list" where
  "changed_csrs before after =
     List.map_filter (\<lambda>((address, old), (_, v)). if old \<noteq> v then Some \<lparr>cw_address = address, cw_value = v\<rparr> else None)
       (zip (csr_view before) (csr_view after))"

definition effects ::
  "event_state \<Rightarrow> architectural_state \<Rightarrow>
   register_write list \<times> register_write list \<times> csr_write_record list \<times> privilege_transition option" where
  "effects es st =
     (changed_registers (es_integer_registers es) (read_x (arch_registers st)),
      changed_registers (es_floating_registers es) (read_f_bits (arch_registers st)),
      changed_csrs (es_csrs es) (csr_snapshot_of (arch_csrs st)),
      if es_privilege es \<noteq> privilege st
      then Some \<lparr>pt_from = es_privilege es, pt_to = privilege st\<rparr> else None)"

end
