(* ===== verification/Hazard.thy ===== *)
theory Hazard
  imports Stages
begin

text \<open>
  The pipeline registers (\<open>cpu/pipeline/registers.rs\<close>) and the hazard unit
  (\<open>cpu/hazard_unit.rs\<close>): the operands an instruction reads and writes, load-use detection and
  forwarding into the execute stage.
\<close>

subsection \<open>The registers an instruction uses\<close>

abbreviation (input) use_of :: "decoded_insn \<Rightarrow> register_use option" where
  "use_of insn \<equiv> map_option id_register_use (insn_id insn)"

definition insn_rd :: "decoded_insn \<Rightarrow> nat" where
  "insn_rd insn =
     (if (case use_of insn of None \<Rightarrow> True | Some u \<Rightarrow> ru_destination u = None) then 0
      else case insn of
        D_Lui rd _ \<Rightarrow> rd | D_Auipc rd _ \<Rightarrow> rd | D_Jal rd _ \<Rightarrow> rd | D_Jalr rd _ _ \<Rightarrow> rd
      | D_Load _ rd _ _ \<Rightarrow> rd | D_AluImm _ _ rd _ _ \<Rightarrow> rd | D_AluImm32 _ _ rd _ _ \<Rightarrow> rd
      | D_Alu _ _ rd _ _ \<Rightarrow> rd | D_Alu32 _ _ rd _ _ \<Rightarrow> rd | D_Csr _ rd _ _ \<Rightarrow> rd
      | D_FLoad _ rd _ _ \<Rightarrow> rd | D_FOp _ _ _ rd _ _ \<Rightarrow> rd | D_FMac _ _ _ rd _ _ _ \<Rightarrow> rd
      | D_Atomic _ _ _ _ rd _ _ \<Rightarrow> rd | _ \<Rightarrow> 0)"

definition insn_rs1 :: "decoded_insn \<Rightarrow> nat" where
  "insn_rs1 insn =
     (if (case use_of insn of None \<Rightarrow> True | Some u \<Rightarrow> ru_source1 u \<noteq> Some RF_Integer) then 0
      else case insn of
        D_Jalr _ rs1 _ \<Rightarrow> rs1 | D_Branch _ rs1 _ _ \<Rightarrow> rs1 | D_Load _ _ rs1 _ \<Rightarrow> rs1
      | D_Store _ rs1 _ _ \<Rightarrow> rs1 | D_AluImm _ _ _ rs1 _ \<Rightarrow> rs1 | D_AluImm32 _ _ _ rs1 _ \<Rightarrow> rs1
      | D_Alu _ _ _ rs1 _ \<Rightarrow> rs1 | D_Alu32 _ _ _ rs1 _ \<Rightarrow> rs1 | D_FLoad _ _ rs1 _ \<Rightarrow> rs1
      | D_FStore _ rs1 _ _ \<Rightarrow> rs1 | D_FOp _ _ _ _ rs1 _ \<Rightarrow> rs1 | D_Atomic _ _ _ _ _ rs1 _ \<Rightarrow> rs1
      | D_Csr _ _ rs1_uimm _ \<Rightarrow> rs1_uimm | _ \<Rightarrow> 0)"

definition insn_rs2 :: "decoded_insn \<Rightarrow> nat" where
  "insn_rs2 insn =
     (if (case use_of insn of None \<Rightarrow> True | Some u \<Rightarrow> ru_source2 u \<noteq> Some RF_Integer) then 0
      else case insn of
        D_Branch _ _ rs2 _ \<Rightarrow> rs2 | D_Store _ _ rs2 _ \<Rightarrow> rs2 | D_Alu _ _ _ _ rs2 \<Rightarrow> rs2
      | D_Alu32 _ _ _ _ rs2 \<Rightarrow> rs2 | D_Atomic _ _ _ _ _ _ rs2 \<Rightarrow> rs2 | _ \<Rightarrow> 0)"

definition insn_frs1 :: "decoded_insn \<Rightarrow> nat" where
  "insn_frs1 insn =
     (if (case use_of insn of None \<Rightarrow> True | Some u \<Rightarrow> ru_source1 u \<noteq> Some RF_FloatingPoint) then 0
      else case insn of D_FOp _ _ _ _ rs1 _ \<Rightarrow> rs1 | D_FMac _ _ _ _ rs1 _ _ \<Rightarrow> rs1 | _ \<Rightarrow> 0)"

definition insn_frs2 :: "decoded_insn \<Rightarrow> nat" where
  "insn_frs2 insn =
     (if (case use_of insn of None \<Rightarrow> True | Some u \<Rightarrow> ru_source2 u \<noteq> Some RF_FloatingPoint) then 0
      else case insn of D_FStore _ _ rs2 _ \<Rightarrow> rs2 | D_FOp _ _ _ _ _ rs2 \<Rightarrow> rs2
      | D_FMac _ _ _ _ _ rs2 _ \<Rightarrow> rs2 | _ \<Rightarrow> 0)"

definition insn_is_load :: "decoded_insn \<Rightarrow> bool" where
  "insn_is_load insn = (case insn_id insn of None \<Rightarrow> False | Some i \<Rightarrow> id_is_load i)"

definition insn_is_atomic :: "decoded_insn \<Rightarrow> bool" where
  "insn_is_atomic insn = (case insn_id insn of None \<Rightarrow> False | Some i \<Rightarrow> id_is_atomic i)"

definition insn_is_fp_dest :: "decoded_insn \<Rightarrow> bool" where
  "insn_is_fp_dest insn =
     (case use_of insn of None \<Rightarrow> False | Some u \<Rightarrow> ru_destination u = Some RF_FloatingPoint)"

subsection \<open>Pipeline registers\<close>

record if_id_reg =
  ifid_pc :: u64
  ifid_raw :: u32
  ifid_rs1 :: nat
  ifid_rs2 :: nat
  ifid_predicted_taken :: bool
  ifid_predicted_target :: u64

record id_ex_reg =
  idex_pc :: u64
  idex_insn :: decoded_insn
  idex_mnemonic :: string
  idex_rs1 :: nat
  idex_rs2 :: nat
  idex_rs1_val :: u64
  idex_rs2_val :: u64
  idex_frs1 :: nat
  idex_frs2 :: nat
  idex_frs1_val :: u64
  idex_frs2_val :: u64
  idex_rd :: nat
  idex_is_fp_dest :: bool
  idex_is_load :: bool
  idex_is_fp_load :: bool
  idex_predicted_taken :: bool
  idex_predicted_target :: u64

record ex_mem_reg =
  exmem_pc :: u64
  exmem_mnemonic :: string
  exmem_exec_result :: exec_result
  exmem_rd :: nat
  exmem_is_fp_dest :: bool
  exmem_fwd_val :: u64
  exmem_is_load :: bool
  exmem_actual_next_pc :: u64
  exmem_actual_taken :: bool
  exmem_predicted_taken :: bool
  exmem_predicted_target :: u64

record mem_wb_reg =
  memwb_pc :: u64
  memwb_mnemonic :: string
  memwb_rd :: nat
  memwb_is_fp_dest :: bool
  memwb_fwd_val :: u64
  memwb_mem_result :: mem_result

subsection \<open>Load-use hazards\<close>

definition load_use_hazard :: "id_ex_reg \<Rightarrow> nat \<Rightarrow> nat \<Rightarrow> bool" where
  "load_use_hazard id_ex if_id_rs1 if_id_rs2 =
     (if \<not> (idex_is_load id_ex \<or> idex_is_fp_load id_ex) then False
      else if idex_rd id_ex = 0 \<and> \<not> idex_is_fp_load id_ex then False
      else idex_rd id_ex = if_id_rs1 \<or> idex_rd id_ex = if_id_rs2)"

subsection \<open>Forwarding\<close>

record forwarded_values =
  fv_rs1 :: u64
  fv_rs2 :: u64
  fv_frs1 :: u64
  fv_frs2 :: u64

text \<open>One producer, of destination \<open>rd\<close> in the integer or the floating-point file.\<close>

definition forward_from :: "nat \<Rightarrow> bool \<Rightarrow> u64 \<Rightarrow> id_ex_reg \<Rightarrow> forwarded_values \<Rightarrow> forwarded_values" where
  "forward_from rd is_fp_dest fwd_val id_ex v =
     (if \<not> is_fp_dest
      then (if rd \<noteq> 0
            then v\<lparr>fv_rs1 := (if rd = idex_rs1 id_ex then fwd_val else fv_rs1 v),
                   fv_rs2 := (if rd = idex_rs2 id_ex then fwd_val else fv_rs2 v)\<rparr>
            else v)
      else v\<lparr>fv_frs1 := (if rd = idex_frs1 id_ex then fwd_val else fv_frs1 v),
             fv_frs2 := (if rd = idex_frs2 id_ex then fwd_val else fv_frs2 v)\<rparr>)"

definition compute_forwarding ::
  "ex_mem_reg option \<Rightarrow> mem_wb_reg option \<Rightarrow> id_ex_reg \<Rightarrow> forwarded_values" where
  "compute_forwarding ex_mem mem_wb id_ex =
     (let v0 = \<lparr>fv_rs1 = idex_rs1_val id_ex, fv_rs2 = idex_rs2_val id_ex,
                fv_frs1 = idex_frs1_val id_ex, fv_frs2 = idex_frs2_val id_ex\<rparr>;
          v1 = (case mem_wb of None \<Rightarrow> v0
                | Some mw \<Rightarrow> forward_from (memwb_rd mw) (memwb_is_fp_dest mw) (memwb_fwd_val mw) id_ex v0)
      in case ex_mem of
           None \<Rightarrow> v1
         | Some em \<Rightarrow>
             (if \<not> exmem_is_load em
              then forward_from (exmem_rd em) (exmem_is_fp_dest em) (exmem_fwd_val em) id_ex v1
              else v1))"

end
