(* ===== verification/Functional.thy ===== *)
theory Functional
  imports Retirement Hazard
begin

text \<open>
  The functional core (\<open>cpu/functional.rs\<close>): one instruction per step, on the same stages as the
  pipeline. It is the reference execution model of the repository.
\<close>

subsection \<open>State\<close>

record functional_core =
  fc_architectural :: architectural_state
  fc_tlb :: tlb
  fc_next_sequence :: u64

definition functional_new :: "u64 \<Rightarrow> u64 \<Rightarrow> functional_core" where
  "functional_new start_pc stack_ptr =
     \<lparr>fc_architectural = architectural_new start_pc stack_ptr, fc_tlb = tlb_new, fc_next_sequence = 0\<rparr>"

definition fc_reset_pc :: "u64 \<Rightarrow> functional_core \<Rightarrow> functional_core" where
  "fc_reset_pc pc f = f\<lparr>fc_architectural := set_pc pc (fc_architectural f), fc_tlb := tlb_flush (fc_tlb f)\<rparr>"

definition fc_set_boot_entry :: "u64 \<Rightarrow> functional_core \<Rightarrow> functional_core" where
  "fc_set_boot_entry entry f = f\<lparr>fc_architectural := (fc_architectural f)\<lparr>
     arch_registers := write_x 10 entry (arch_registers (fc_architectural f))\<rparr>\<rparr>"

definition fc_translation_context :: "architectural_state \<Rightarrow> translation_context" where
  "fc_translation_context st =
     (let c = arch_csrs st
      in \<lparr>tc_satp = satp c, tc_priv_mode = privilege st, tc_mstatus = mstatus c,
          tc_pmpcfg0 = pmpcfg0 c, tc_pmpaddr0 = pmpaddr0 c\<rparr>)"

subsection \<open>Events\<close>

definition fc_event ::
  "event_state \<Rightarrow> u64 \<Rightarrow> u32 option \<Rightarrow> instruction_id option \<Rightarrow> bool \<Rightarrow> memory_write option \<Rightarrow>
   trap_record option \<Rightarrow> functional_core \<Rightarrow> retire_event \<times> functional_core" where
  "fc_event before pc raw i retired mw trap f =
     (let (iw, fw, cw, pt) = effects before (fc_architectural f)
      in (\<lparr>ev_version = RETIRE_EVENT_VERSION, ev_sequence = fc_next_sequence f, ev_pc = pc,
           ev_raw_instruction = raw, ev_instruction = i, ev_retired = retired, ev_integer_writes = iw,
           ev_floating_writes = fw, ev_csr_writes = cw, ev_memory_write = mw,
           ev_privilege_transition = pt, ev_trap = trap, ev_next_pc = arch_pc (fc_architectural f)\<rparr>,
          f\<lparr>fc_next_sequence := fc_next_sequence f + 1\<rparr>))"

definition fc_retire ::
  "event_state \<Rightarrow> u64 \<Rightarrow> u32 \<Rightarrow> instruction_id option \<Rightarrow> memory_write option \<Rightarrow> functional_core \<Rightarrow>
   retire_event result \<times> functional_core" where
  "fc_retire before pc raw i mw f =
     (let f1 = f\<lparr>fc_architectural := (fc_architectural f)\<lparr>
                  arch_csrs := increment_instret (arch_csrs (fc_architectural f))\<rparr>\<rparr>
      in map_prod Inr id (fc_event before pc (Some raw) i True mw None f1))"

definition fc_take_trap ::
  "event_state \<Rightarrow> u64 \<Rightarrow> u32 option \<Rightarrow> instruction_id option \<Rightarrow> u64 \<Rightarrow> u64 \<Rightarrow> trap_stage \<Rightarrow> functional_core \<Rightarrow>
   retire_event \<times> functional_core" where
  "fc_take_trap before pc raw i cause v stage f =
     (let st = fc_architectural f;
          (next_pc, regs', csrs') = take_trap (arch_registers st) (arch_csrs st) cause v pc;
          st1 = set_pc next_pc (st\<lparr>arch_registers := regs', arch_csrs := csrs'\<rparr>)
      in fc_event before pc raw i False None (Some \<lparr>tr_cause = cause, tr_value = v, tr_stage = stage\<rparr>)
           (f\<lparr>fc_architectural := st1\<rparr>))"

definition fc_trap_error ::
  "event_state \<Rightarrow> u64 \<Rightarrow> u32 option \<Rightarrow> instruction_id option \<Rightarrow> vm_error \<Rightarrow> trap_stage \<Rightarrow> functional_core \<Rightarrow>
   retire_event result \<times> functional_core" where
  "fc_trap_error before pc raw i e stage f =
     (case error_to_trap_cause e of
        None \<Rightarrow> (Inl e, f)
      | Some (cause, v) \<Rightarrow> map_prod Inr id (fc_take_trap before pc raw i cause v stage f))"

subsection \<open>One step\<close>

definition ecall_cause :: "privilege_mode \<Rightarrow> u64" where
  "ecall_cause p = (case p of User \<Rightarrow> CAUSE_ECALL_U | Supervisor \<Rightarrow> CAUSE_ECALL_S | Machine \<Rightarrow> CAUSE_ECALL_M)"

definition functional_operands :: "registers \<Rightarrow> decoded_insn \<Rightarrow> execute_operands" where
  "functional_operands r insn =
     \<lparr>op_registers = r, op_rs1 = (insn_rs1 insn, read_x r (insn_rs1 insn)),
      op_rs2 = (insn_rs2 insn, read_x r (insn_rs2 insn)),
      op_frs1 = (insn_frs1 insn, read_f_bits r (insn_frs1 insn)),
      op_frs2 = (insn_frs2 insn, read_f_bits r (insn_frs2 insn))\<rparr>"

text \<open>The write-back of a memory result, with the privileged returns and traps.\<close>

definition fc_commit ::
  "event_state \<Rightarrow> u64 \<Rightarrow> u32 \<Rightarrow> instruction_id option \<Rightarrow> mem_result \<Rightarrow> memory_write option \<Rightarrow> functional_core \<Rightarrow>
   retire_event result \<times> functional_core" where
  "fc_commit before pc raw i mr mw f0 =
     (let f1 = (if mr = M_SfenceVma then f0\<lparr>fc_tlb := tlb_flush (fc_tlb f0)\<rparr> else f0);
          st = fc_architectural f1
      in case writeback mr (arch_registers st, arch_csrs st) of
           (r, (regs', csrs')) \<Rightarrow>
             (let st1 = st\<lparr>arch_registers := regs', arch_csrs := csrs'\<rparr>;
                  f2 = f1\<lparr>fc_architectural := st1\<rparr>
              in case r of
                   Inr next_pc \<Rightarrow> fc_retire before pc raw i mw (f2\<lparr>fc_architectural := set_pc next_pc st1\<rparr>)
                 | Inl e \<Rightarrow>
                    (if e = vm_error.Ecall
                     then map_prod Inr id
                       (fc_take_trap before pc (Some raw) i (ecall_cause (privilege st1)) 0 TS_Writeback f2)
                     else if e = vm_error.Ebreak
                     then map_prod Inr id (fc_take_trap before pc (Some raw) i CAUSE_EBREAK 0 TS_Writeback f2)
                     else if e = vm_error.Mret
                     then (case handle_mret regs' csrs' of (next_pc, regs2, csrs2) \<Rightarrow>
                             fc_retire before pc raw i mw (f2\<lparr>fc_architectural :=
                               set_pc next_pc (st1\<lparr>arch_registers := regs2, arch_csrs := csrs2\<rparr>)\<rparr>))
                     else if e = vm_error.Sret
                     then (case handle_sret regs' csrs' of (res, regs2, csrs2) \<Rightarrow>
                             (let st2 = st1\<lparr>arch_registers := regs2, arch_csrs := csrs2\<rparr>
                              in case res of
                                   Inr next_pc \<Rightarrow>
                                     fc_retire before pc raw i mw (f2\<lparr>fc_architectural := set_pc next_pc st2\<rparr>)
                                 | Inl e2 \<Rightarrow>
                                     fc_trap_error before pc (Some raw) i e2 TS_Writeback
                                       (f2\<lparr>fc_architectural := st2\<rparr>)))
                     else fc_trap_error before pc (Some raw) i e TS_Writeback f2)))"

definition fc_step ::
  "float_host \<Rightarrow> functional_core \<times> system_bus \<Rightarrow> retire_event result \<times> functional_core \<times> system_bus" where
  "fc_step h s = (case s of (f, b) \<Rightarrow>
     (let st0 = fc_architectural f;
          (st1, b1) = sample_inputs (st0\<lparr>arch_csrs := increment_cycle (arch_csrs st0)\<rparr>) b;
          f1 = f\<lparr>fc_architectural := st1\<rparr>;
          before = capture st1;
          pc = arch_pc st1
      in case pending_interrupt st1 of
           Some (cause, v, trap_pc) \<Rightarrow>
             (case fc_take_trap before trap_pc None None cause v TS_Interrupt f1 of (ev, f2) \<Rightarrow> (Inr ev, f2, b1))
         | None \<Rightarrow>
             (let ctx = fc_translation_context st1
              in case fetch_with_pmp bus_ops pc ctx (fc_tlb f1, b1) of
                   (Inl e, (t2, b2)) \<Rightarrow>
                     (case fc_trap_error before pc None None e TS_Fetch (f1\<lparr>fc_tlb := t2\<rparr>) of (ev, f2) \<Rightarrow> (ev, f2, b2))
                 | (Inr raw, (t2, b2)) \<Rightarrow>
                     (let f2 = f1\<lparr>fc_tlb := t2\<rparr>
                      in case decode raw of
                           Inl e \<Rightarrow>
                             (case fc_trap_error before pc (Some raw) None e TS_Decode f2 of (ev, f3) \<Rightarrow> (ev, f3, b2))
                         | Inr insn \<Rightarrow>
                             (let i = insn_id insn
                              in case execute h insn (functional_operands (arch_registers st1) insn) (arch_csrs st1) pc of
                                   Inl e \<Rightarrow>
                                     (case fc_trap_error before pc (Some raw) i e TS_Execute f2 of (ev, f3) \<Rightarrow> (ev, f3, b2))
                                 | Inr executed \<Rightarrow>
                                     (case memory_stage_with_trace bus_ops ctx executed (reservation st1, t2, b2) of
                                        (r, (rv, t3, b3)) \<Rightarrow>
                                          (let f3 = f2\<lparr>fc_architectural := st1\<lparr>reservation := rv\<rparr>, fc_tlb := t3\<rparr>
                                           in case r of
                                                Inl e \<Rightarrow>
                                                  (case fc_trap_error before pc (Some raw) i e TS_Memory f3 of
                                                     (ev, f4) \<Rightarrow> (ev, f4, b3))
                                              | Inr (mr, mw) \<Rightarrow>
                                                  (case fc_commit before pc raw i mr mw f3 of
                                                     (ev, f4) \<Rightarrow> (ev, f4, b3)))))))))"

end
