(* ===== verification/Mem_Client.thy ===== *)
theory Mem_Client
  imports Stages Traps Mmu_Correct
begin

text \<open>
  What every client of the memory interface keeps, whatever the memory is. Translation, fetch and
  the memory stage reach the memory only through the eight methods of \<open>MemoryAccess\<close>, so a
  reflexive and transitive relation between the memory before and after each method also relates
  the memory before and after each of them; and they turn every error of a method into an error
  that the trap logic accepts. The locale states the two contracts once; the bus provides them.
\<close>

subsection \<open>Actions with a state relation and an error set\<close>

definition keeps :: "('s \<Rightarrow> 's \<Rightarrow> bool) \<Rightarrow> (vm_error \<Rightarrow> bool) \<Rightarrow> ('s, 'a) action \<Rightarrow> bool" where
  "keeps R E m \<longleftrightarrow> (\<forall>s. R s (snd (m s)) \<and> (\<forall>e. fst (m s) = Inl e \<longrightarrow> E e))"

definition trappable :: "vm_error \<Rightarrow> bool" where
  "trappable e \<longleftrightarrow> error_to_trap_cause e \<noteq> None"

lemma trappable_errors [simp]:
  "trappable (IllegalInstruction w)" "trappable (InstructionAccessFault a)" "trappable (LoadAccessFault a)"
  "trappable (StoreAccessFault a)" "trappable (access_fault k a)" "trappable (page_fault k a)"
  by (cases k; simp add: trappable_def)+

lemma pmp_check_trappable: "pmp_check ctx k vaddr pa = Inl e \<Longrightarrow> trappable e"
  by (auto dest: pmp_check_Inl)

lemma finalize_leaf_trappable: "finalize_leaf pte vaddr l ctx k = Inl e \<Longrightarrow> trappable e"
  by (auto dest: finalize_leaf_Inl)

lemma keepsD:
  assumes "keeps R E m" "m s = (r, s')"
  shows "R s s'" "r = Inl e \<Longrightarrow> E e"
  using assms by (auto simp: keeps_def) (metis fst_conv snd_conv)+

lemma keeps_mono: "keeps R E m \<Longrightarrow> (\<And>e. E e \<Longrightarrow> F e) \<Longrightarrow> keeps R F m"
  by (auto simp: keeps_def)

lemma keeps_sreturn: "(\<And>s. R s s) \<Longrightarrow> keeps R E (sreturn x)"
  by (simp add: keeps_def sreturn_def)

lemma keeps_sfail: "(\<And>s. R s s) \<Longrightarrow> E e \<Longrightarrow> keeps R E (sfail e)"
  by (simp add: keeps_def sfail_def)

lemma keeps_sbind:
  assumes "\<And>a b c. R a b \<Longrightarrow> R b c \<Longrightarrow> R a c" "keeps R E m" "\<And>x. keeps R E (f x)"
  shows "keeps R E (sbind m f)"
  unfolding keeps_def
proof
  fix s
  obtain r s1 where m: "m s = (r, s1)" by fastforce
  note m' = keepsD [OF assms(2) m]
  show "R s (snd (sbind m f s)) \<and> (\<forall>e. fst (sbind m f s) = Inl e \<longrightarrow> E e)"
  proof (cases r)
    case (Inl e)
    with m m' show ?thesis by (simp add: sbind_def)
  next
    case (Inr x)
    have "R s1 (snd (f x s1))" "fst (f x s1) = Inl e \<Longrightarrow> E e" for e
      using assms(3) [of x] by (auto simp: keeps_def)
    with Inr m m'(1) assms(1) show ?thesis by (auto simp: sbind_def)
  qed
qed

lemma keeps_smap_err:
  "keeps R (\<lambda>_. True) m \<Longrightarrow> (\<And>e. E (g e)) \<Longrightarrow> keeps R E (smap_err g m)"
  by (auto simp: keeps_def smap_err_def split: prod.splits sum.splits) (metis snd_conv)+

subsection \<open>The memory part of a larger state\<close>

abbreviation (input) of_snd :: "('m \<Rightarrow> 'm \<Rightarrow> bool) \<Rightarrow> 'x \<times> 'm \<Rightarrow> 'x \<times> 'm \<Rightarrow> bool" where
  "of_snd R s s' \<equiv> R (snd s) (snd s')"

lemma keeps_on_mem: "keeps R E m \<Longrightarrow> keeps (of_snd R) E (on_mem m)"
  by (auto simp: keeps_def on_mem_def split: prod.splits) (metis fst_conv snd_conv)+

lemma keeps_on_snd: "keeps R E m \<Longrightarrow> keeps (of_snd R) E (on_snd m)"
  by (auto simp: keeps_def on_snd_def split: prod.splits) (metis fst_conv snd_conv)+

lemma keeps_on_reserved:
  assumes "keeps (of_snd R) E m"
  shows "keeps (of_snd (of_snd R)) E (on_reserved m)"
  unfolding keeps_def
proof (clarify, rule conjI)
  fix r t b
  obtain x r' b' where m: "m (r, b) = (x, (r', b'))" by (metis surj_pair)
  from keepsD [OF assms m]
  show "R (snd (snd (r, t, b))) (snd (snd (snd (on_reserved m (r, t, b)))))"
    and "\<forall>e. fst (on_reserved m (r, t, b)) = Inl e \<longrightarrow> E e"
    using m by (auto simp: on_reserved_def)
qed

subsection \<open>The contract of a memory and its clients\<close>

locale memory_client =
  fixes ops :: "'m mem_ops" and R :: "'m \<Rightarrow> 'm \<Rightarrow> bool"
  assumes refl: "R m m"
    and trans: "R m m' \<Longrightarrow> R m' m'' \<Longrightarrow> R m m''"
    and reads: "R m (snd (read_byte ops a m))" "R m (snd (read_halfword ops a m))"
      "R m (snd (read_word ops a m))" "R m (snd (read_doubleword ops a m))"
    and writes: "R m (snd (write_byte ops a v8 m))" "R m (snd (write_halfword ops a v16 m))"
      "R m (snd (write_word ops a v32 m))" "R m (snd (write_doubleword ops a v64 m))"
begin

lemma methods:
  "keeps R (\<lambda>_. True) (read_byte ops a)" "keeps R (\<lambda>_. True) (read_halfword ops a)"
  "keeps R (\<lambda>_. True) (read_word ops a)" "keeps R (\<lambda>_. True) (read_doubleword ops a)"
  "keeps R (\<lambda>_. True) (write_byte ops a v8)" "keeps R (\<lambda>_. True) (write_halfword ops a v16)"
  "keeps R (\<lambda>_. True) (write_word ops a v32)" "keeps R (\<lambda>_. True) (write_doubleword ops a v64)"
  by (simp_all add: keeps_def reads writes)

lemma bind_mem: "keeps R E m \<Longrightarrow> (\<And>x. keeps R E (f x)) \<Longrightarrow> keeps R E (sbind m f)"
  by (rule keeps_sbind) (blast intro: trans)+

lemma bind_snd:
  "keeps (of_snd R) E m \<Longrightarrow> (\<And>x. keeps (of_snd R) E (f x)) \<Longrightarrow> keeps (of_snd R) E (sbind m f)"
  by (rule keeps_sbind) (blast intro: trans)+

lemma bind_state:
  "keeps (of_snd (of_snd R)) E m \<Longrightarrow> (\<And>x. keeps (of_snd (of_snd R)) E (f x)) \<Longrightarrow>
   keeps (of_snd (of_snd R)) E (sbind m f)"
  by (rule keeps_sbind) (blast intro: trans)+

lemmas basic = keeps_sreturn keeps_sfail refl
lemmas guarded = keeps_smap_err methods

lemma walk_keeps: "keeps (of_snd R) trappable (walk ops ctx k vaddr n ppn)"
proof (induction n arbitrary: ppn)
  case 0
  show ?case by (simp add: basic)
next
  case (Suc n)
  have insert: "keeps (of_snd R) trappable (\<lambda>s. (Inr pa, (tlb_insert vpn pte level (fst s), snd s)))"
    for pa :: u64 and vpn pte level
    by (simp add: keeps_def refl)
  have leaf: "keeps (of_snd R) trappable (case finalize_leaf pte vaddr n ctx k of Inl e \<Rightarrow> sfail e
      | Inr pa \<Rightarrow> sbind (if b then smap_err (\<lambda>_. page_fault k vaddr) (on_mem (write_doubleword ops a v)) else sreturn ())
          (\<lambda>_ s. (Inr pa, (tlb_insert vpn v n (fst s), snd s))))" for pte b a v vpn
    by (cases "finalize_leaf pte vaddr n ctx k")
      (auto intro!: bind_snd insert guarded basic keeps_on_mem dest: finalize_leaf_trappable)
  show ?case
    by (simp only: walk.simps Let_def)
      (intro bind_snd keeps_smap_err keeps_on_mem methods trappable_errors,
       simp add: leaf Suc.IH basic)
qed

lemma translate_keeps: "keeps (of_snd R) trappable (translate_with_pmp ops vaddr ctx k)"
  unfolding keeps_def
proof (intro allI)
  fix s :: "tlb \<times> 'm"
  let ?s1 = "(sync_satp (tc_satp ctx) (fst s), snd s)"
  have w: "R (snd s) (snd (snd (walk ops ctx k vaddr 3 ppn ?s1)))"
    "fst (walk ops ctx k vaddr 3 ppn ?s1) = Inl e \<Longrightarrow> trappable e" for ppn e
    using walk_keeps [of ctx k vaddr 3 ppn] by (auto simp: keeps_def dest: spec [of _ ?s1])
  show "of_snd R s (snd (translate_with_pmp ops vaddr ctx k s)) \<and>
      (\<forall>e. fst (translate_with_pmp ops vaddr ctx k s) = Inl e \<longrightarrow> trappable e)"
    using w by (auto simp: translate_with_pmp_def Let_def refl split: option.split
        dest: pmp_check_trappable finalize_leaf_trappable)
qed

lemma fetch_keeps: "keeps (of_snd R) trappable (fetch_with_pmp ops pc ctx)"
  unfolding fetch_with_pmp_def
  by (auto intro!: bind_snd translate_keeps guarded keeps_on_mem basic)

lemma access_keeps:
  "keeps R trappable (load_int ops a f3)" "keeps R trappable (store_int ops a v f3)"
  "keeps R trappable (load_fp ops a f3)" "keeps R trappable (store_fp ops a v f3)"
  unfolding load_int_def store_int_def load_fp_def store_fp_def
  by (auto intro!: bind_mem guarded basic)

lemma amo_keeps: "keeps R trappable (amo_op ops f5 f3 a v)"
  unfolding amo_op_def
  by (auto intro!: bind_mem guarded basic split: option.split)

lemma atomic_keeps: "keeps (of_snd R) trappable (handle_atomic ops f5 f3 rd a v)"
proof -
  have r: "keeps (of_snd R) trappable (set_reservation x)" for x :: "u64 option"
    by (simp add: keeps_def set_reservation_def refl)
  let ?lr = "sbind (set_reservation (Some a)) (\<lambda>_. on_snd (if f3 = 2
      then sbind (smap_err (\<lambda>_. LoadAccessFault a) (read_word ops a)) (\<lambda>x. sreturn (scast x, None))
      else sbind (smap_err (\<lambda>_. LoadAccessFault a) (read_doubleword ops a)) (\<lambda>d. sreturn (d, None))))
      :: (u64 option \<times> 'm, u64 \<times> memory_write option) action"
  let ?sc = "sbind (set_reservation None) (\<lambda>_. on_snd (sbind
      (if f3 = 2 then smap_err (\<lambda>_. StoreAccessFault a) (write_word ops a (ucast v))
       else smap_err (\<lambda>_. StoreAccessFault a) (write_doubleword ops a v))
      (\<lambda>_. sreturn (0, Some (memory_write_of a v f3)))))
      :: (u64 option \<times> 'm, u64 \<times> memory_write option) action"
  let ?amo = "on_snd (sbind (amo_op ops f5 f3 a v) (\<lambda>(old, new). sreturn (old, Some (memory_write_of a new f3))))
      :: (u64 option \<times> 'm, u64 \<times> memory_write option) action"
  have "keeps (of_snd R) trappable ?lr" "keeps (of_snd R) trappable ?sc"
    by (auto intro!: bind_snd r keeps_on_snd bind_mem guarded basic)
  moreover have "keeps (of_snd R) trappable ?amo"
    by (auto intro!: keeps_on_snd bind_mem amo_keeps basic)
  ultimately show ?thesis
    by (auto simp: keeps_def handle_atomic_def Let_def sreturn_def sfail_def refl)
qed

lemma memory_stage_keeps:
  "keeps (of_snd (of_snd R)) trappable (memory_stage_with_trace ops ctx result)"
proof -
  have tr: "keeps (of_snd (of_snd R)) trappable (on_tlb (translate_with_pmp ops a ctx k))" for a k
    unfolding on_tlb_def by (rule keeps_on_snd [OF translate_keeps])
  have bus: "keeps (of_snd (of_snd R)) trappable (on_bus m)" if "keeps R trappable m" for m :: "('m, 'z) action"
    unfolding on_bus_def by (intro keeps_on_snd keeps_on_mem that)
  show ?thesis
    by (cases result)
      (auto simp: memory_stage_with_trace_def
        intro!: bind_state tr bus access_keeps keeps_on_reserved atomic_keeps basic)
qed

end

subsection \<open>The size of the TLB\<close>

text \<open>The TLB is an array: no client changes its length.\<close>

abbreviation (input) tlb_same :: "tlb \<times> 'm \<Rightarrow> tlb \<times> 'm \<Rightarrow> bool" where
  "tlb_same s s' \<equiv> length (tlb_entries (fst s')) = length (tlb_entries (fst s))"

abbreviation (input) always :: "vm_error \<Rightarrow> bool" where
  "always \<equiv> (\<lambda>_. True)"

lemma tlb_same_bind:
  "keeps tlb_same always m \<Longrightarrow> (\<And>x. keeps tlb_same always (f x)) \<Longrightarrow> keeps tlb_same always (sbind m f)"
  by (rule keeps_sbind) simp_all

lemma tlb_same_basic:
  "keeps tlb_same always (sreturn x)" "keeps tlb_same always (sfail e)" "keeps tlb_same always (on_mem m)"
  by (simp_all add: keeps_def sreturn_def sfail_def on_mem_def case_prod_unfold)

lemma walk_tlb_same: "keeps tlb_same always (walk ops ctx k vaddr n ppn)"
proof (induction n arbitrary: ppn)
  case 0
  show ?case by (simp add: tlb_same_basic)
next
  case (Suc n)
  have insert: "keeps tlb_same always (\<lambda>s. (Inr pa, (tlb_insert vpn pte level (fst s), snd s)))"
    for pa :: u64 and vpn pte level
    by (simp add: keeps_def tlb_insert_def)
  have leaf: "keeps tlb_same always (case finalize_leaf pte vaddr n ctx k of Inl e \<Rightarrow> sfail e
      | Inr pa \<Rightarrow> sbind (if b then smap_err (\<lambda>_. page_fault k vaddr) (on_mem (write_doubleword ops a v)) else sreturn ())
          (\<lambda>_ s. (Inr pa, (tlb_insert vpn v n (fst s), snd s))))" for pte b a v vpn
    by (auto intro!: tlb_same_bind insert keeps_smap_err tlb_same_basic split: sum.split)
  show ?case
    by (simp only: walk.simps Let_def)
      (intro tlb_same_bind keeps_smap_err tlb_same_basic TrueI, simp add: leaf Suc.IH tlb_same_basic)
qed

lemma translate_tlb_same:
  fixes ops :: "'m mem_ops"
  shows "keeps tlb_same always (translate_with_pmp ops vaddr ctx k)"
  unfolding keeps_def
proof (intro allI)
  fix s :: "tlb \<times> 'm"
  have sync: "length (tlb_entries (sync_satp x t)) = length (tlb_entries t)" for x t
    by (simp add: sync_satp_def tlb_flush_def)
  let ?s1 = "(sync_satp (tc_satp ctx) (fst s), snd s)"
  have "tlb_same ?s1 (snd (walk ops ctx k vaddr 3 ppn ?s1))" for ppn
    using walk_tlb_same [of ops ctx k vaddr 3 ppn] by (simp only: keeps_def)
  then show "tlb_same s (snd (translate_with_pmp ops vaddr ctx k s)) \<and>
      (\<forall>e. fst (translate_with_pmp ops vaddr ctx k s) = Inl e \<longrightarrow> True)"
    by (auto simp: translate_with_pmp_def Let_def sync split: option.split)
qed

lemma fetch_tlb_same: "keeps tlb_same always (fetch_with_pmp ops pc ctx)"
  unfolding fetch_with_pmp_def
  by (auto intro!: tlb_same_bind translate_tlb_same keeps_smap_err tlb_same_basic)

lemma memory_stage_tlb_same:
  fixes ops :: "'m mem_ops"
  shows "keeps (\<lambda>s s'. tlb_same (snd s) (snd s')) always (memory_stage_with_trace ops ctx result)"
proof -
  let ?R = "\<lambda>s s'. tlb_same (snd s) (snd s')"
  have bind: "keeps ?R always m \<Longrightarrow> (\<And>x. keeps ?R always (f x)) \<Longrightarrow> keeps ?R always (sbind m f)"
    for m :: "('m mem_state, 'x) action" and f :: "'x \<Rightarrow> ('m mem_state, 'y) action"
    by (rule keeps_sbind) simp_all
  have ret: "keeps ?R always (sreturn x :: ('m mem_state, 'z) action)" for x
    by (simp add: keeps_sreturn)
  have tr: "keeps ?R always (on_tlb (translate_with_pmp ops a ctx k))" for a k
    unfolding on_tlb_def by (rule keeps_on_snd [OF translate_tlb_same])
  have bus: "keeps ?R always (on_bus m)" "keeps ?R always (on_reserved n)"
    for m :: "('m, 'z) action" and n :: "(u64 option \<times> 'm, 'w) action"
    by (auto simp: keeps_def on_bus_def on_snd_def on_mem_def on_reserved_def case_prod_unfold)
  show ?thesis
    by (cases result) (auto simp: memory_stage_with_trace_def intro!: bind tr bus ret)
qed

end
