(* ===== verification/Bus_Client.thy ===== *)
theory Bus_Client
  imports Mem_Client Bus
begin

text \<open>
  The system bus as a provider of the contract of \<open>Mem_Client\<close>: every method of the bus keeps the
  invariants of the caches, RAM and devices, never changes the ROM or the latency settings. The
  devices provide the same contract for their own invariant, their wider methods through the
  default bodies of the trait.
\<close>

subsection \<open>Methods that keep a relation\<close>

definition ops_keep :: "('m \<Rightarrow> 'm \<Rightarrow> bool) \<Rightarrow> 'm mem_ops \<Rightarrow> bool" where
  "ops_keep R ops \<longleftrightarrow>
     (\<forall>a. keeps R (\<lambda>_. True) (read_byte ops a)) \<and> (\<forall>a. keeps R (\<lambda>_. True) (read_halfword ops a))
     \<and> (\<forall>a. keeps R (\<lambda>_. True) (read_word ops a)) \<and> (\<forall>a. keeps R (\<lambda>_. True) (read_doubleword ops a))
     \<and> (\<forall>a v. keeps R (\<lambda>_. True) (write_byte ops a v)) \<and> (\<forall>a v. keeps R (\<lambda>_. True) (write_halfword ops a v))
     \<and> (\<forall>a v. keeps R (\<lambda>_. True) (write_word ops a v)) \<and> (\<forall>a v. keeps R (\<lambda>_. True) (write_doubleword ops a v))"

text \<open>The relation of an invariant.\<close>

definition stays :: "('s \<Rightarrow> bool) \<Rightarrow> 's \<Rightarrow> 's \<Rightarrow> bool" where
  "stays P s s' \<longleftrightarrow> (P s \<longrightarrow> P s')"

lemma stays_refl [simp]: "stays P s s"
  by (simp add: stays_def)

lemma keeps_stays_bind:
  "keeps (stays P) (\<lambda>_. True) m \<Longrightarrow> (\<And>x. keeps (stays P) (\<lambda>_. True) (f x)) \<Longrightarrow>
   keeps (stays P) (\<lambda>_. True) (sbind m f)"
  by (rule keeps_sbind) (auto simp: stays_def)

lemma keeps_stays_basic [simp]:
  "keeps (stays P) (\<lambda>_. True) (sreturn x)" "keeps (stays P) (\<lambda>_. True) (sfail e)"
  by (simp_all add: keeps_sreturn keeps_sfail)

lemma keeps_staysI: "(\<And>s. P s \<Longrightarrow> P (snd (m s))) \<Longrightarrow> keeps (stays P) (\<lambda>_. True) m"
  by (simp add: keeps_def stays_def)

text \<open>The default bodies of the trait.\<close>

lemma keeps_default_reads:
  "(\<And>a. keeps (stays P) (\<lambda>_. True) (rb a)) \<Longrightarrow> keeps (stays P) (\<lambda>_. True) (default_read_halfword rb a)"
  "(\<And>a. keeps (stays P) (\<lambda>_. True) (rh a)) \<Longrightarrow> keeps (stays P) (\<lambda>_. True) (default_read_word rh a)"
  "(\<And>a. keeps (stays P) (\<lambda>_. True) (rw a)) \<Longrightarrow> keeps (stays P) (\<lambda>_. True) (default_read_doubleword rw a)"
  unfolding default_read_halfword_def default_read_word_def default_read_doubleword_def
  by (simp_all add: keeps_stays_bind)

lemma keeps_default_writes:
  "(\<And>a v. keeps (stays P) (\<lambda>_. True) (wb a v)) \<Longrightarrow> keeps (stays P) (\<lambda>_. True) (default_write_halfword wb a v16)"
  "(\<And>a v. keeps (stays P) (\<lambda>_. True) (wh a v)) \<Longrightarrow> keeps (stays P) (\<lambda>_. True) (default_write_word wh a v32)"
  "(\<And>a v. keeps (stays P) (\<lambda>_. True) (ww a v)) \<Longrightarrow> keeps (stays P) (\<lambda>_. True) (default_write_doubleword ww a v64)"
  unfolding default_write_halfword_def default_write_word_def default_write_doubleword_def
  by (simp_all add: keeps_stays_bind)

lemmas keeps_defaults = keeps_default_reads keeps_default_writes

subsection \<open>The devices\<close>

definition plic_wf :: "plic \<Rightarrow> bool" where
  "plic_wf d \<longleftrightarrow> length (priority d) = 32 \<and> length (pending d) = 1 \<and> length (enable d) = 1
     \<and> length (threshold d) = 1"

definition fb_wf :: "framebuffer \<Rightarrow> bool" where
  "fb_wf d \<longleftrightarrow> length (fb_front d) = FB_BYTES \<and> length (fb_back d) = FB_BYTES"

lemma uart_keeps: "ops_keep (stays uart_wf) uart_ops"
proof -
  have b: "keeps (stays uart_wf) (\<lambda>_. True) (uart_read_byte a)"
    "keeps (stays uart_wf) (\<lambda>_. True) (uart_write_byte a v)" for a v
    by (simp_all add: keeps_staysI uart_wf_read uart_wf_write)
  show ?thesis
    unfolding ops_keep_def uart_ops_def byte_ops_def Let_def by (simp add: b keeps_defaults)
qed

lemma clint_keeps: "ops_keep (\<lambda>_ _. True) clint_ops"
  by (simp add: ops_keep_def keeps_def)

lemma plic_wf_set_irq [simp]: "plic_wf (set_irq n d) = plic_wf d" "plic_wf (clear_irq n d) = plic_wf d"
  by (simp_all add: plic_wf_def set_irq_def clear_irq_def Let_def)

lemma plic_keeps: "ops_keep (stays plic_wf) plic_ops"
proof -
  have w: "keeps (stays plic_wf) (\<lambda>_. True) (plic_read_word a)"
    "keeps (stays plic_wf) (\<lambda>_. True) (plic_write_word a v)" for a v
    by (rule keeps_staysI, auto simp: plic_read_word_def Let_def split: option.split)
      (rule keeps_staysI, auto simp: plic_write_word_def Let_def plic_wf_def)
  show ?thesis
    unfolding ops_keep_def plic_ops_def Let_def by (simp add: w keeps_defaults)
qed

lemma kbd_keeps: "ops_keep (stays kbd_wf) kbd_ops"
proof -
  have reg: "kbd_wf d \<Longrightarrow> kbd_wf (snd (kbd_read_reg a d))" for a d
    by (auto simp: kbd_read_reg_def kbd_pop_def kbd_wf_def split: list.split)
  have r: "keeps (stays kbd_wf) (\<lambda>_. True) (kbd_read_byte a)"
    "keeps (stays kbd_wf) (\<lambda>_. True) (kbd_read_word a)" for a
    by (rule keeps_staysI, use reg in \<open>auto simp: kbd_read_byte_def split: prod.split\<close>, metis snd_conv)
      (rule keeps_staysI, use reg in \<open>auto simp: kbd_read_word_def split: prod.split\<close>, metis snd_conv)
  have w: "keeps (stays kbd_wf) (\<lambda>_. True) (kbd_write_byte a v8)"
    "keeps (stays kbd_wf) (\<lambda>_. True) (kbd_write_word a v32)" for a v8 v32
    by (rule keeps_staysI, simp add: kbd_write_byte_def) (rule keeps_staysI, simp add: kbd_write_word_def)
  show ?thesis
    unfolding ops_keep_def kbd_ops_def by (simp add: r w keeps_defaults)
qed

lemma length_draw_buffer [simp]: "fb_wf d \<Longrightarrow> length (draw_buffer d) = FB_BYTES"
  by (simp add: draw_buffer_def fb_wf_def)

lemma fb_wf_set_draw: "fb_wf d \<Longrightarrow> length b = FB_BYTES \<Longrightarrow> fb_wf (set_draw_buffer b d)"
  by (simp add: set_draw_buffer_def fb_wf_def)

lemma fb_wf_other [simp]:
  "fb_wf (bump_version d) = fb_wf d" "fb_wf (d\<lparr>fill_count := n\<rparr>) = fb_wf d"
  "fb_wf (d\<lparr>double_buffered := x\<rparr>) = fb_wf d" "fb_wf d \<Longrightarrow> fb_wf (present d)"
  by (simp_all add: bump_version_def fb_wf_def present_def)

lemma length_fill_bytes: "length (concat (replicate n (le_bytes32 c))) = 4 * n"
  by (induction n) (simp_all add: le_bytes32_def)

lemma fb_wf_fill: "fb_wf d \<Longrightarrow> fb_wf (fill c d)"
  by (auto simp: fill_def Let_def length_fill_bytes intro: fb_wf_set_draw)

lemma fb_keeps: "ops_keep (stays fb_wf) fb_ops"
proof -
  have b: "keeps (stays fb_wf) (\<lambda>_. True) (fb_read_byte a)"
    "keeps (stays fb_wf) (\<lambda>_. True) (fb_write_byte a v)" for a v
    by (rule keeps_staysI, simp add: fb_read_byte_def Let_def)
      (rule keeps_staysI, auto simp: fb_write_byte_def Let_def intro: fb_wf_set_draw)
  have dr: "keeps (stays fb_wf) (\<lambda>_. True) (fb_write_dribble a i bs)" for a i bs
    by (induction bs arbitrary: i) (simp_all add: keeps_stays_bind b)
  have w: "keeps (stays fb_wf) (\<lambda>_. True) (fb_write_word a v)" for a v
  proof (rule keeps_staysI)
    fix d assume d: "fb_wf d"
    have "fb_wf (snd (fb_write_dribble a 0 (le_bytes32 v) d))"
      using dr [of a 0 "le_bytes32 v"] d by (simp add: keeps_def stays_def)
    moreover have "length (le_bytes32 v) = 4" by (simp add: le_bytes32_def)
    ultimately show "fb_wf (snd (fb_write_word a v d))"
      using d by (auto simp: fb_write_word_def Let_def fb_wf_fill intro!: fb_wf_set_draw)
  qed
  show ?thesis
    unfolding ops_keep_def fb_ops_def Let_def by (simp add: b w keeps_defaults)
qed

subsection \<open>The caches\<close>

lemma serve_hier_wf: "hier_wf c \<Longrightarrow> hier_wf (snd (serve hier_ops r c))"
  using serve_all_hier [of c "[r]" "[fst (serve hier_ops r c)]" "snd (serve hier_ops r c)"]
  by (simp add: case_prod_unfold)

lemma narrow_of_wide:
  "ucast (ucast (v :: u8) :: u64) = v" "ucast (ucast (w :: u16) :: u64) = w" "ucast (ucast (x :: u32) :: u64) = x"
  by (rule bit_word_eqI, auto simp: bit_simps)+

lemma hier_keeps: "ops_keep (stays hier_wf) hier_ops"
proof -
  have "hier_wf c \<Longrightarrow> hier_wf (snd (read_byte hier_ops a c))" "hier_wf c \<Longrightarrow> hier_wf (snd (read_halfword hier_ops a c))"
    "hier_wf c \<Longrightarrow> hier_wf (snd (read_word hier_ops a c))" "hier_wf c \<Longrightarrow> hier_wf (snd (read_doubleword hier_ops a c))" for a c
    using serve_hier_wf [of c "Load W8 a"] serve_hier_wf [of c "Load W16 a"] serve_hier_wf [of c "Load W32 a"]
      serve_hier_wf [of c "Load W64 a"] by simp_all
  moreover have "hier_wf c \<Longrightarrow> hier_wf (snd (write_byte hier_ops a v8 c))"
    "hier_wf c \<Longrightarrow> hier_wf (snd (write_halfword hier_ops a v16 c))"
    "hier_wf c \<Longrightarrow> hier_wf (snd (write_word hier_ops a v32 c))"
    "hier_wf c \<Longrightarrow> hier_wf (snd (write_doubleword hier_ops a v64 c))" for a c v8 v16 v32 v64
    using serve_hier_wf [of c "Store W8 a (ucast v8)"] serve_hier_wf [of c "Store W16 a (ucast v16)"]
      serve_hier_wf [of c "Store W32 a (ucast v32)"] serve_hier_wf [of c "Store W64 a v64"]
    by (simp_all add: narrow_of_wide)
  ultimately show ?thesis by (simp add: ops_keep_def keeps_staysI)
qed

subsection \<open>The bus\<close>

definition bus_wf :: "system_bus \<Rightarrow> bool" where
  "bus_wf b \<longleftrightarrow> hier_wf (l1_cache b) \<and> uart_wf (bus_uart b) \<and> plic_wf (bus_plic b)
     \<and> fb_wf (bus_framebuffer b) \<and> kbd_wf (bus_keyboard b)"

definition bus_rel :: "system_bus \<Rightarrow> system_bus \<Rightarrow> bool" where
  "bus_rel b b' \<longleftrightarrow> (bus_wf b \<longrightarrow> bus_wf b') \<and> bus_rom b' = bus_rom b \<and> memory_latency b' = memory_latency b"

lemma bus_wf_new: "bus_wf (system_bus_new rom_bytes)"
  by (simp add: bus_wf_def system_bus_new_def hierarchy_new_wf uart_wf_new plic_wf_def plic_new_def
      fb_wf_def framebuffer_new_def kbd_wf_def keyboard_new_def)

lemma bus_rel_latency: "bus_rel b b1 \<Longrightarrow> bus_rel b (record_access_latency a st b1)"
  by (simp add: bus_rel_def bus_wf_def)

lemma dispatch_keeps:
  assumes "\<And>a. keeps (stays uart_wf) (\<lambda>_. True) (fu a)" "\<And>a. keeps (stays plic_wf) (\<lambda>_. True) (fp a)"
    "\<And>a. keeps (stays fb_wf) (\<lambda>_. True) (ff a)" "\<And>a. keeps (stays kbd_wf) (\<lambda>_. True) (fk a)"
    "\<And>a m. snd (fr a m) = m" "\<And>a. keeps (stays hier_wf) (\<lambda>_. True) (fm a)"
  shows "bus_rel b (snd (dispatch fu fc fp ff fk fr fm addr b))"
proof -
  obtain dev loc where ro: "route addr = (dev, loc)" by (cases "route addr")
  have "bus_rel b (snd (lift_uart (fu loc) b))" "bus_rel b (snd (lift_clint (fc loc) b))"
    "bus_rel b (snd (lift_plic (fp loc) b))" "bus_rel b (snd (lift_framebuffer (ff loc) b))"
    "bus_rel b (snd (lift_keyboard (fk loc) b))" "bus_rel b (snd (lift_rom (fr loc) b))"
    "bus_rel b (snd (lift_ram (fm loc) b))"
    using assms(1-4,6) [of loc] assms(5) [of loc "bus_rom b"]
    by (auto simp: lift_defs bus_rel_def bus_wf_def keeps_def stays_def case_prod_unfold)
  then show ?thesis
    using ro by (cases dev) (simp_all add: dispatch_def Let_def case_prod_unfold bus_rel_latency)
qed

lemma bus_rel_syscon: "bus_rel b (if x then b\<lparr>syscon_exit := e\<rparr> else b)" "bus_rel b (b\<lparr>syscon_exit := e\<rparr>)"
  by (simp_all add: bus_rel_def bus_wf_def)

lemmas device_keeps = uart_keeps clint_keeps plic_keeps fb_keeps kbd_keeps hier_keeps

lemma bus_methods:
  "bus_rel b (snd (read_byte bus_ops a b))" "bus_rel b (snd (read_halfword bus_ops a b))"
  "bus_rel b (snd (read_word bus_ops a b))" "bus_rel b (snd (read_doubleword bus_ops a b))"
  "bus_rel b (snd (write_byte bus_ops a v8 b))" "bus_rel b (snd (write_halfword bus_ops a v16 b))"
  "bus_rel b (snd (write_word bus_ops a v32 b))" "bus_rel b (snd (write_doubleword bus_ops a v64 b))"
  using device_keeps
  by (auto simp: bus_method_defs bus_rel_syscon rom_ops_state ops_keep_def intro!: dispatch_keeps)

interpretation bus_client: memory_client bus_ops bus_rel
  by unfold_locales (use bus_methods in \<open>auto simp: bus_rel_def\<close>)

end
