(* ===== verification/Functional_Correct.thy ===== *)
theory Functional_Correct
  imports Functional Bus_Client Decoder_Correct
begin

text \<open>
  Correctness of the functional core. Every step either takes a trap on the state it started from
  or retires one instruction (\<open>fc_step_cases\<close>); from this follow that a step never fails, that it
  keeps the machine well formed (\<open>Machine_Correct\<close> carries this to every state of the functional machine),
  that the event it returns describes the step exactly (\<open>Step_Events\<close>), and that code below machine mode
  cannot change the state of a higher privilege mode, \<open>mret\<close> apart (\<open>Confinement\<close>).
\<close>

subsection \<open>Errors of the stages\<close>

lemma insn_of_errors:
  "insn_of_upper w d = Inl e \<Longrightarrow> e = IllegalInstruction w"
  "insn_of_rr w d = Inl e \<Longrightarrow> e = IllegalInstruction w"
  "insn_of_atomic w d = Inl e \<Longrightarrow> e = IllegalInstruction w"
  "insn_of_floating w d = Inl e \<Longrightarrow> e = IllegalInstruction w"
  by (auto simp: insn_of_upper_def insn_of_rr_def insn_of_atomic_def insn_of_floating_def Let_def
      split: decoded_operands.splits option.splits if_splits)

lemma insn_of_base_error: "insn_of_base w d = Inl e \<Longrightarrow> e = IllegalInstruction w"
  by (auto simp: insn_of_base_def Let_def split: decoded_operands.splits option.splits if_splits)

lemma decode_error: "decode w = Inl e \<Longrightarrow> e = IllegalInstruction w"
  by (auto simp: decode_def dest: insn_of_errors insn_of_base_error split: sum.splits)

lemma exec_fp_op_error: "exec_fp_op h i f5 fmt rm rd rs1 rs2 regs csrs pc = Inl e \<Longrightarrow> trappable e"
  unfolding exec_fp_op_def Let_def
  by (elim if_eqE) (auto split: option.splits sum.splits prod.splits if_splits)

lemma execute_error: "execute h insn regs csrs pc = Inl e \<Longrightarrow> trappable e"
  by (cases insn)
    (auto simp: execute_def Let_def exec_alu_imm_def exec_alu_imm32_def exec_alu_def exec_alu32_def exec_fmac_def
      exec_csr_def dest: exec_fp_op_error split: option.splits if_splits prod.splits)

lemma csr_errors: "csr_read c a = Inl e \<Longrightarrow> trappable e" "csr_write c a v = Inl e \<Longrightarrow> trappable e"
  unfolding csr_read_def csr_write_def by (elim if_eqE; simp; auto)+

lemma writeback_error:
  assumes "writeback mr s = (Inl e, s')"
  shows "s' = s \<and> (trappable e \<or> e \<in> {vm_error.Ecall, vm_error.Ebreak, vm_error.Mret, vm_error.Sret})"
  using assms csr_errors
  by (cases mr) (auto simp: writeback_def split: prod.splits sum.splits option.splits if_splits)

subsection \<open>Committing a result\<close>

text \<open>The state after an instruction retires, if it does.\<close>

definition commit_state :: "mem_result \<Rightarrow> architectural_state \<Rightarrow> architectural_state option" where
  "commit_state mr st = (case writeback mr (arch_registers st, arch_csrs st) of
     (Inr next_pc, (r, c)) \<Rightarrow> Some (set_pc next_pc (st\<lparr>arch_registers := r, arch_csrs := c\<rparr>))
   | (Inl e, (r, c)) \<Rightarrow>
       (if e = vm_error.Mret
        then (case handle_mret r c of (next_pc, r2, c2) \<Rightarrow>
                Some (set_pc next_pc (st\<lparr>arch_registers := r2, arch_csrs := c2\<rparr>)))
        else if e = vm_error.Sret
        then (case handle_sret r c of
                (Inr next_pc, r2, c2) \<Rightarrow> Some (set_pc next_pc (st\<lparr>arch_registers := r2, arch_csrs := c2\<rparr>))
              | (Inl _, _) \<Rightarrow> None)
        else None))"

text \<open>A core that differs from another only in its architectural state and a flush of the TLB.\<close>

definition core_with :: "functional_core \<Rightarrow> architectural_state \<Rightarrow> functional_core \<Rightarrow> bool" where
  "core_with f st f' \<longleftrightarrow> fc_architectural f' = st \<and> fc_next_sequence f' = fc_next_sequence f
     \<and> length (tlb_entries (fc_tlb f')) = length (tlb_entries (fc_tlb f))"

lemma fc_trap_error_trappable:
  assumes "trappable e"
  obtains cause v where "fc_trap_error before pc raw i e stage f =
    map_prod Inr id (fc_take_trap before pc raw i cause v stage f)"
  using assms by (auto simp: trappable_def fc_trap_error_def)

lemma handle_sret_error:
  "handle_sret r c = (Inl e, r2, c2) \<Longrightarrow> r2 = r \<and> c2 = c \<and> trappable e"
  by (auto simp: handle_sret_def Let_def split: if_splits)

lemma fc_commit_cases:
  obtains (retire) f2 st2 where "commit_state mr (fc_architectural f) = Some st2" "core_with f st2 f2"
      "fc_commit before pc raw i mr mw f = fc_retire before pc raw i mw f2"
    | (trap) f2 cause v where "core_with f (fc_architectural f) f2"
      "fc_commit before pc raw i mr mw f = map_prod Inr id (fc_take_trap before pc (Some raw) i cause v TS_Writeback f2)"
proof -
  define st where "st = fc_architectural f"
  define f1 where "f1 = (if mr = M_SfenceVma then f\<lparr>fc_tlb := tlb_flush (fc_tlb f)\<rparr> else f)"
  have f1: "core_with f st' (f1\<lparr>fc_architectural := st'\<rparr>)" "fc_architectural f1 = st" for st'
    by (auto simp: core_with_def f1_def tlb_flush_def st_def)
  obtain res r c where wb: "writeback mr (arch_registers st, arch_csrs st) = (res, (r, c))" by (metis surj_pair)
  have fc: "fc_commit before pc raw i mr mw f = (case res of
       Inr next_pc \<Rightarrow> fc_retire before pc raw i mw
         (f1\<lparr>fc_architectural := set_pc next_pc (st\<lparr>arch_registers := r, arch_csrs := c\<rparr>)\<rparr>)
     | Inl e \<Rightarrow>
        (if e = vm_error.Ecall
         then map_prod Inr id (fc_take_trap before pc (Some raw) i (ecall_cause (priv_mode r)) 0 TS_Writeback
           (f1\<lparr>fc_architectural := st\<lparr>arch_registers := r, arch_csrs := c\<rparr>\<rparr>))
         else if e = vm_error.Ebreak
         then map_prod Inr id (fc_take_trap before pc (Some raw) i CAUSE_EBREAK 0 TS_Writeback
           (f1\<lparr>fc_architectural := st\<lparr>arch_registers := r, arch_csrs := c\<rparr>\<rparr>))
         else if e = vm_error.Mret
         then (case handle_mret r c of (next_pc, r2, c2) \<Rightarrow> fc_retire before pc raw i mw
           (f1\<lparr>fc_architectural := set_pc next_pc (st\<lparr>arch_registers := r2, arch_csrs := c2\<rparr>)\<rparr>))
         else if e = vm_error.Sret
         then (case handle_sret r c of (res2, r2, c2) \<Rightarrow> (case res2 of
             Inr next_pc \<Rightarrow> fc_retire before pc raw i mw
               (f1\<lparr>fc_architectural := set_pc next_pc (st\<lparr>arch_registers := r2, arch_csrs := c2\<rparr>)\<rparr>)
           | Inl e2 \<Rightarrow> fc_trap_error before pc (Some raw) i e2 TS_Writeback
               (f1\<lparr>fc_architectural := st\<lparr>arch_registers := r2, arch_csrs := c2\<rparr>\<rparr>)))
         else fc_trap_error before pc (Some raw) i e TS_Writeback
           (f1\<lparr>fc_architectural := st\<lparr>arch_registers := r, arch_csrs := c\<rparr>\<rparr>)))"
    using wb f1(2) unfolding fc_commit_def f1_def [symmetric] Let_def
    by (simp split: sum.split prod.split)
  show thesis
  proof (cases res)
    case (Inr next_pc)
    show thesis
      by (rule retire [of "set_pc next_pc (st\<lparr>arch_registers := r, arch_csrs := c\<rparr>)"])
        (use Inr fc wb f1 in \<open>auto simp: commit_state_def st_def\<close>)
  next
    case (Inl e)
    with writeback_error [of mr "(arch_registers st, arch_csrs st)" e "(r, c)"] wb
    have e: "r = arch_registers st" "c = arch_csrs st"
      "trappable e \<or> e \<in> {vm_error.Ecall, vm_error.Ebreak, vm_error.Mret, vm_error.Sret}" by auto
    have same: "core_with f (fc_architectural f) (f1\<lparr>fc_architectural := st\<rparr>)" using f1 st_def by simp
    consider "e = vm_error.Ecall \<or> e = vm_error.Ebreak" | "e = vm_error.Mret"
      | next_pc r2 c2 where "e = vm_error.Sret" "handle_sret r c = (Inr next_pc, r2, c2)"
      | e2 r2 c2 where "e = vm_error.Sret" "handle_sret r c = (Inl e2, r2, c2)"
      | "trappable e" "e \<notin> {vm_error.Ecall, vm_error.Ebreak, vm_error.Mret, vm_error.Sret}"
      using e(3) by (cases "handle_sret r c") (metis insert_iff sum.exhaust prod.exhaust empty_iff)
    then show thesis
    proof cases
      case 1
      then show thesis using trap [OF same] fc Inl e(1,2) by auto
    next
      case 2
      obtain next_pc r2 c2 where m: "handle_mret r c = (next_pc, r2, c2)" by (metis surj_pair)
      show thesis
        by (rule retire [of "set_pc next_pc (st\<lparr>arch_registers := r2, arch_csrs := c2\<rparr>)"])
          (use 2 m Inl fc wb f1 in \<open>auto simp: commit_state_def st_def\<close>)
    next
      case 3
      show thesis
        by (rule retire [of "set_pc next_pc (st\<lparr>arch_registers := r2, arch_csrs := c2\<rparr>)"])
          (use 3 Inl fc wb f1 in \<open>auto simp: commit_state_def st_def\<close>)
    next
      case 4
      from handle_sret_error [OF 4(2)] have x: "r2 = r" "c2 = c" "trappable e2" by auto
      obtain cause v where "fc_trap_error before pc (Some raw) i e2 TS_Writeback (f1\<lparr>fc_architectural := st\<rparr>) =
          map_prod Inr id (fc_take_trap before pc (Some raw) i cause v TS_Writeback (f1\<lparr>fc_architectural := st\<rparr>))"
        by (rule fc_trap_error_trappable [OF x(3)])
      with 4 x e show thesis using trap [OF same] fc Inl by auto
    next
      case 5
      obtain cause v where "fc_trap_error before pc (Some raw) i e TS_Writeback (f1\<lparr>fc_architectural := st\<rparr>) =
          map_prod Inr id (fc_take_trap before pc (Some raw) i cause v TS_Writeback (f1\<lparr>fc_architectural := st\<rparr>))"
        by (rule fc_trap_error_trappable [OF 5(1)])
      with 5 e show thesis using trap [OF same] fc Inl by auto
    qed
  qed
qed

subsection \<open>The shape of a step\<close>

lemma pending_interrupt_pc: "pending_interrupt st = Some (cause, v, pc) \<Longrightarrow> pc = arch_pc st"
  by (auto simp: pending_interrupt_def Let_def split: if_splits)

text \<open>The state in which a step decides what to do: the cycle counted and the interrupt lines sampled.\<close>

definition sampled :: "functional_core \<times> system_bus \<Rightarrow> architectural_state \<times> system_bus" where
  "sampled s = sample_inputs ((fc_architectural (fst s))\<lparr>arch_csrs := increment_cycle (arch_csrs (fc_architectural (fst s)))\<rparr>) (snd s)"

lemma fc_step_cases:
  assumes step: "fc_step h (f, b) = (r, f', b')" and samp: "sampled (f, b) = (st1, b1)"
  obtains (trap) raw i cause v stage f2 rv where
      "core_with f (st1\<lparr>reservation := rv\<rparr>) f2" "bus_rel b1 b'"
      "(r, f') = map_prod Inr id (fc_take_trap (capture st1) (arch_pc st1) raw i cause v stage f2)"
    | (retire) raw insn executed mr mw rv t2 t3 b2 st2 f2 where
      "decode raw = Inr insn"
      "execute h insn (functional_operands (arch_registers st1) insn) (arch_csrs st1) (arch_pc st1) = Inr executed"
      "memory_stage_with_trace bus_ops (fc_translation_context st1) executed (reservation st1, t2, b2)
        = (Inr (mr, mw), (rv, t3, b'))"
      "commit_state mr (st1\<lparr>reservation := rv\<rparr>) = Some st2" "core_with f st2 f2" "bus_rel b1 b'"
      "(r, f') = fc_retire (capture st1) (arch_pc st1) raw (insn_id insn) mw f2"
proof (cases "pending_interrupt st1")
  case (Some irq)
  obtain cause v pc where irq: "irq = (cause, v, pc)" by (metis surj_pair)
  with Some have "pc = arch_pc st1" by (simp add: pending_interrupt_pc)
  with Some irq step samp have
    "(r, f') = map_prod Inr id (fc_take_trap (capture st1) (arch_pc st1) None None cause v TS_Interrupt (f\<lparr>fc_architectural := st1\<rparr>))"
    "b' = b1"
    by (auto simp: fc_step_def sampled_def Let_def split: prod.splits)
  then show thesis
    by (intro trap [of "reservation st1" "f\<lparr>fc_architectural := st1\<rparr>"])
      (simp_all add: core_with_def bus_rel_def)
next
  case None
  define pc ctx before f1 where "pc = arch_pc st1" and "ctx = fc_translation_context st1"
    and "before = capture st1" and "f1 = f\<lparr>fc_architectural := st1\<rparr>"
  note named = pc_def [symmetric] ctx_def [symmetric] before_def [symmetric] f1_def [symmetric]
  obtain fr t2 b2 where fetch: "fetch_with_pmp bus_ops pc ctx (fc_tlb f1, b1) = (fr, (t2, b2))" by (metis surj_pair)
  note fk = keepsD [OF bus_client.fetch_keeps fetch, simplified]
  have t2: "length (tlb_entries t2) = length (tlb_entries (fc_tlb f))"
    using keepsD(1) [OF fetch_tlb_same fetch] by (simp add: f1_def)
  have core2: "core_with f st1 (f1\<lparr>fc_tlb := t2\<rparr>)" using t2 by (simp add: core_with_def f1_def)
  have trapped: thesis if "trappable e" "core_with f (st1\<lparr>reservation := rv\<rparr>) f2" "bus_rel b1 b'"
    "(r, f') = fc_trap_error before pc raw i e stage f2" for e rv f2 raw i stage
    using fc_trap_error_trappable [OF that(1), of before pc raw i stage f2] trap [OF that(2,3)] that(4)
    unfolding named by metis
  show thesis
  proof (cases fr)
    case (Inl e)
    with step samp None fetch have "(r, f') = fc_trap_error before pc None None e TS_Fetch (f1\<lparr>fc_tlb := t2\<rparr>)" "b' = b2"
      by (auto simp: fc_step_def sampled_def Let_def named split: prod.splits)
    with trapped [of e "reservation st1" "f1\<lparr>fc_tlb := t2\<rparr>"] core2 fk Inl show thesis by simp
  next
    case (Inr raw)
    note fetched = step samp None fetch Inr
    show thesis
    proof (cases "decode raw")
      case (Inl e)
      with fetched have "(r, f') = fc_trap_error before pc (Some raw) None e TS_Decode (f1\<lparr>fc_tlb := t2\<rparr>)" "b' = b2"
        by (auto simp: fc_step_def sampled_def Let_def named split: prod.splits)
      with trapped [of e "reservation st1" "f1\<lparr>fc_tlb := t2\<rparr>"] core2 fk decode_error [OF Inl] show thesis by simp
    next
      case (Inr insn)
      let ?ex = "execute h insn (functional_operands (arch_registers st1) insn) (arch_csrs st1) pc"
      show thesis
      proof (cases ?ex)
        case (Inl e)
        with fetched Inr have "(r, f') = fc_trap_error before pc (Some raw) (insn_id insn) e TS_Execute (f1\<lparr>fc_tlb := t2\<rparr>)" "b' = b2"
          by (auto simp: fc_step_def sampled_def Let_def named split: prod.splits)
        with trapped [of e "reservation st1" "f1\<lparr>fc_tlb := t2\<rparr>"] core2 fk execute_error [OF Inl] show thesis by simp
      next
        case (Inr executed)
        note ex = this
        obtain mres rv t3 b3 where mem: "memory_stage_with_trace bus_ops ctx executed (reservation st1, t2, b2) = (mres, (rv, t3, b3))"
          by (metis surj_pair)
        have b3: "bus_rel b1 b3"
          using keepsD(1) [OF bus_client.memory_stage_keeps mem] fk(1) bus_client.trans by auto
        have core3: "core_with f (st1\<lparr>reservation := rv\<rparr>) (f1\<lparr>fc_architectural := st1\<lparr>reservation := rv\<rparr>, fc_tlb := t3\<rparr>)"
          using keepsD(1) [OF memory_stage_tlb_same mem] t2 by (simp add: core_with_def f1_def)
        let ?f3 = "f1\<lparr>fc_tlb := t2\<rparr>\<lparr>fc_architectural := st1\<lparr>reservation := rv\<rparr>, fc_tlb := t3\<rparr>"
        show thesis
        proof (cases mres)
          case (Inl e)
          with fetched \<open>decode raw = Inr insn\<close> ex mem have
            "(r, f') = fc_trap_error before pc (Some raw) (insn_id insn) e TS_Memory ?f3" "b' = b3"
            by (auto simp: fc_step_def sampled_def Let_def named split: prod.splits)
          with trapped [of e rv ?f3] core3 b3 keepsD(2) [OF bus_client.memory_stage_keeps mem] Inl show thesis
            by simp
        next
          case (Inr mm)
          obtain mr mw where mm: "mm = (mr, mw)" by (cases mm)
          with Inr fetched \<open>decode raw = Inr insn\<close> ex mem have
            c: "(r, f') = fc_commit before pc raw (insn_id insn) mr mw ?f3" "b' = b3"
            by (auto simp: fc_step_def sampled_def Let_def named split: prod.splits)
          have core3': "core_with ?f3 st f2 \<Longrightarrow> core_with f st f2" for st f2
            using core3 by (simp add: core_with_def)
          show thesis
          proof (rule fc_commit_cases [of mr ?f3 before pc raw "insn_id insn" mw])
            fix f2 st2
            assume "commit_state mr (fc_architectural ?f3) = Some st2" "core_with ?f3 st2 f2"
              "fc_commit before pc raw (insn_id insn) mr mw ?f3 = fc_retire before pc raw (insn_id insn) mw f2"
            then have "commit_state mr (st1\<lparr>reservation := rv\<rparr>) = Some st2" "core_with f st2 f2"
              "(r, f') = fc_retire before pc raw (insn_id insn) mw f2" using c core3' by simp_all
            moreover have "memory_stage_with_trace bus_ops ctx executed (reservation st1, t2, b2) = (Inr (mr, mw), (rv, t3, b'))"
              "bus_rel b1 b'" using mem Inr mm c b3 by simp_all
            ultimately show thesis
              using retire [OF \<open>decode raw = Inr insn\<close> ex [unfolded pc_def]] unfolding named by blast
          next
            fix f2 cause v
            assume "core_with ?f3 (fc_architectural ?f3) f2"
              "fc_commit before pc raw (insn_id insn) mr mw ?f3 =
                 map_prod Inr id (fc_take_trap before pc (Some raw) (insn_id insn) cause v TS_Writeback f2)"
            then show thesis
              using trap [of rv f2] c b3 core3' unfolding named by auto
          qed
        qed
      qed
    qed
  qed
qed

lemma fc_event_fields:
  assumes "fc_event before pc raw i retired mw trap f = (ev, f')"
  shows "(ev_integer_writes ev, ev_floating_writes ev, ev_csr_writes ev, ev_privilege_transition ev)
      = effects before (fc_architectural f)"
    and "ev_pc ev = pc" "ev_sequence ev = fc_next_sequence f" "ev_retired ev = retired" "ev_trap ev = trap"
    "ev_next_pc ev = arch_pc (fc_architectural f)" "ev_instruction ev = i" "ev_memory_write ev = mw"
    "ev_raw_instruction ev = raw"
    and "f' = f\<lparr>fc_next_sequence := fc_next_sequence f + 1\<rparr>"
  using assms by (auto simp: fc_event_def split: prod.splits)

text \<open>C9. The functional core never stops with an error: every error of a stage is one that the trap
  logic accepts, so a step always returns an event, whatever the state of the machine.\<close>

theorem step_never_fails: "\<exists>ev s'. fc_step h s = (Inr ev, s')"
proof -
  obtain f b r f' b' st1 b1 where *: "s = (f, b)" "fc_step h (f, b) = (r, f', b')" "sampled (f, b) = (st1, b1)"
    by (metis surj_pair)
  from *(2,3) have "\<exists>ev. r = Inr ev"
    by (cases rule: fc_step_cases) (auto simp: fc_retire_def Let_def map_prod_def split: prod.splits)
  with * show ?thesis by auto
qed

subsection \<open>The machine stays well formed\<close>

definition machine_wf :: "functional_core \<times> system_bus \<Rightarrow> bool" where
  "machine_wf s \<longleftrightarrow> (let st = fc_architectural (fst s) in
     regs_wf (arch_registers st) \<and> csr_wf (arch_csrs st)
     \<and> length (tlb_entries (fc_tlb (fst s))) = TLB_ENTRIES \<and> bus_wf (snd s))"

abbreviation (input) arch_wf :: "architectural_state \<Rightarrow> bool" where
  "arch_wf st \<equiv> regs_wf (arch_registers st) \<and> csr_wf (arch_csrs st)"

lemma csr_wf_counters [simp]:
  "csr_wf (increment_cycle c) = csr_wf c" "csr_wf (increment_instret c) = csr_wf c"
  by (simp_all add: increment_cycle_def increment_instret_def)

lemma fflags_or: "(f :: u8) < 32 \<Longrightarrow> f OR (g AND 0x1F) < 32"
proof -
  assume "f < 32"
  moreover have "g AND 0x1F \<le> 0x1F" by (rule word_and_le1)
  ultimately have "uint f < 2 ^ 5" "uint (g AND 0x1F) < 2 ^ 5" by (simp_all add: word_less_def word_le_def)
  then have "uint f OR uint (g AND 0x1F) < 2 ^ 5" by (intro OR_upper) simp_all
  then show ?thesis by (simp add: word_less_def unsigned_or_eq)
qed

lemma accumulate_wf: "csr_wf c \<Longrightarrow> csr_wf (accumulate_fflags g c)"
  by (simp add: accumulate_fflags_def csr_wf_def fflags_or)

lemma writeback_wf:
  assumes "writeback mr (r, c) = (Inr pc, (r', c'))" "regs_wf r" "csr_wf c"
  shows "regs_wf r' \<and> csr_wf c'"
  using assms csr_write_keeps_wf [of c]
  by (cases mr) (auto simp: writeback_def accumulate_wf split: sum.splits option.splits prod.splits if_splits)

lemma commit_wf:
  assumes "commit_state mr st = Some st2" "arch_wf st"
  shows "arch_wf st2"
proof -
  obtain res r c where wb: "writeback mr (arch_registers st, arch_csrs st) = (res, (r, c))" by (metis surj_pair)
  show ?thesis
  proof (cases res)
    case (Inr pc)
    with wb assms writeback_wf [of mr "arch_registers st" "arch_csrs st" pc r c] show ?thesis
      by (auto simp: commit_state_def set_pc_def)
  next
    case (Inl e)
    with writeback_error wb have rc: "r = arch_registers st" "c = arch_csrs st" by blast+
    obtain pc r2 c2 where m: "handle_mret r c = (pc, r2, c2)" by (metis surj_pair)
    obtain res2 r3 c3 where s: "handle_sret r c = (res2, r3, c3)" by (metis surj_pair)
    from handle_mret_wf [OF _ m] rc assms(2) have "csr_wf c2 \<and> regs_wf r2" by (metis regs_wf_updates(2))
    moreover from handle_sret_wf [of c r _ r3 c3] s rc assms(2) have "res2 = Inr pc' \<Longrightarrow> csr_wf c3 \<and> regs_wf r3" for pc'
      by (metis regs_wf_updates(2))
    ultimately show ?thesis
      using assms(1) wb Inl m s by (auto simp: commit_state_def set_pc_def split: if_splits sum.splits)
  qed
qed

lemma take_trap_wf:
  assumes "take_trap r c cause v pc = (h, r', c')" "regs_wf r" "csr_wf c"
  shows "regs_wf r' \<and> csr_wf c'"
  using take_trap_entry [OF assms(3,1)] assms(2) by (metis regs_wf_updates(2))

lemma sampled_frame:
  assumes "sampled (f, b) = (st1, b1)"
  shows "arch_registers st1 = arch_registers (fc_architectural f)" "reservation st1 = reservation (fc_architectural f)"
    "csr_wf (arch_csrs (fc_architectural f)) \<Longrightarrow> csr_wf (arch_csrs st1)" "bus_rel b b1"
    "arch_csrs st1 = (arch_csrs (fc_architectural f))\<lparr>cycle := cycle (arch_csrs (fc_architectural f)) + 1, mip := mip (arch_csrs st1)\<rparr>"
  using assms
  by (auto simp: sampled_def sample_inputs_def Let_def sample_timer_def sample_software_def sample_external_def
      increment_cycle_def bus_rel_def bus_wf_def split: prod.splits)

lemma fc_step_wf:
  assumes step: "fc_step h (f, b) = (r, f', b')" and wf: "machine_wf (f, b)"
  shows "machine_wf (f', b') \<and> bus_rel b b'"
proof -
  obtain st1 b1 where samp: "sampled (f, b) = (st1, b1)" by fastforce
  note fr = sampled_frame [OF samp]
  have wf1: "arch_wf (st1\<lparr>reservation := rv\<rparr>)" for rv using wf fr by (simp add: machine_wf_def Let_def)
  have done_: ?thesis if "arch_wf (fc_architectural f')" "length (tlb_entries (fc_tlb f')) = length (tlb_entries (fc_tlb f))"
    "bus_rel b1 b'" using that wf fr(4) bus_client.trans [of b b1 b'] by (simp add: machine_wf_def Let_def bus_rel_def)
  from step samp show ?thesis
  proof (cases rule: fc_step_cases)
    case (trap raw i cause v stage f2 rv)
    then have st: "fc_architectural f2 = st1\<lparr>reservation := rv\<rparr>" by (simp add: core_with_def)
    obtain pc r' c' where t: "take_trap (arch_registers st1) (arch_csrs st1) cause v (arch_pc st1) = (pc, r', c')" by (metis surj_pair)
    from take_trap_wf [OF t] wf1 have "regs_wf r' \<and> csr_wf c'" by simp
    with trap t st show ?thesis
      by (intro done_) (auto simp: fc_take_trap_def fc_event_def set_pc_def core_with_def Let_def split: prod.splits)
  next
    case (retire raw insn executed mr mw rv t2 t3 b2 st2 f2)
    from commit_wf [OF retire(4) wf1] retire show ?thesis
      by (intro done_) (auto simp: fc_retire_def fc_event_def core_with_def Let_def split: prod.splits)
  qed
qed

subsection \<open>A fresh machine\<close>

lemma machine_wf_new: "machine_wf (functional_new pc sp, system_bus_new rom_bytes)"
  using csr_wf_new regs_wf_new
  by (simp add: machine_wf_def functional_new_def architectural_new_def tlb_new_def bus_wf_new Let_def)

text \<open>A host whose cast of a NaN gives the canonical NaN and whose minimum and maximum prefer their
  first operand on equal zeros.\<close>

definition example_host :: float_host where
  "example_host = \<lparr>cast_nan = (\<lambda>_. 0x7FF8000000000000), min_zero_first = True, max_zero_first = True\<rparr>"

end
