(* ===== verification/Step_Events.thy ===== *)
theory Step_Events
  imports Functional_Correct
begin

text \<open>
  What a step reports. The event returned by a step carries exactly the difference between the state
  sampled at its start and the state it leaves: replaying the listed writes on the old registers and
  CSRs gives the new ones. It names the trap of the step with the stage that raised it.
\<close>

subsection \<open>Replaying an event\<close>

definition replay_regs :: "register_write list \<Rightarrow> (nat \<Rightarrow> u64) \<Rightarrow> nat \<Rightarrow> u64" where
  "replay_regs ws m = fold (\<lambda>w m. m(unat (rw_index w) := rw_value w)) ws m"

definition replay_csrs :: "csr_write_record list \<Rightarrow> (u16 \<times> u64) list \<Rightarrow> (u16 \<times> u64) list" where
  "replay_csrs ws view =
     map (\<lambda>(a, v). (a, case find (\<lambda>w. cw_address w = a) ws of Some w \<Rightarrow> cw_value w | None \<Rightarrow> v)) view"

lemma replay_changed:
  assumes "\<forall>i \<in> set is. i < 256"
  shows "replay_regs (List.map_filter (\<lambda>i. let v = new i
      in if old i \<noteq> v then Some \<lparr>rw_index = of_nat i, rw_value = v\<rparr> else None) is) m k
    = (if k \<in> set is \<and> old k \<noteq> new k then new k else m k)"
  using assms
proof (induction "is" arbitrary: m)
  case (Cons i "is")
  have "unat (of_nat i :: u8) = i" using Cons.prems by (simp add: unat_of_nat)
  with Cons show ?case by (auto simp: replay_regs_def Let_def)
qed (simp add: replay_regs_def)

lemma map_filter_eqI: "(\<And>x. x \<in> set xs \<Longrightarrow> f x = g x) \<Longrightarrow> List.map_filter f xs = List.map_filter g xs"
  by (induction xs) (simp_all split: option.split)

lemma replay_changed_registers:
  "map (replay_regs (changed_registers (map old [0..<32]) new) old) [0..<32] = map new [0..<32]"
proof -
  have "changed_registers (map old [0..<32]) new = List.map_filter (\<lambda>i. let v = new i
      in if old i \<noteq> v then Some \<lparr>rw_index = of_nat i, rw_value = v\<rparr> else None) [0..<32]"
    unfolding changed_registers_def by (rule map_filter_eqI) simp
  then show ?thesis by (simp add: replay_changed)
qed

lemma find_changed:
  assumes "map fst xs = map fst ys" "distinct (map fst xs)"
  shows "find (\<lambda>w. cw_address w = a) (List.map_filter (\<lambda>((address, old), (_, v)).
      if old \<noteq> v then Some \<lparr>cw_address = address, cw_value = v\<rparr> else None) (zip xs ys))
    = (case (map_of xs a, map_of ys a) of
         (Some old, Some v) \<Rightarrow> if old \<noteq> v then Some \<lparr>cw_address = a, cw_value = v\<rparr> else None
       | _ \<Rightarrow> None)"
  using map_eq_imp_length_eq [OF assms(1)] assms
proof (induction xs ys rule: list_induct2)
  case (Cons x xs y ys)
  have "map_of xs (fst x) = None" using Cons.prems(2) by (simp add: map_of_eq_None_iff)
  with Cons show ?case by (cases x; cases y) auto
qed simp

lemma replay_changed_csrs: "replay_csrs (changed_csrs s s') (csr_view s) = csr_view s'"
proof -
  have d: "distinct (map fst (csr_view s))" and k: "map fst (csr_view s) = map fst (csr_view s')" for s s'
    by (simp_all add: csr_view_def)
  have "(a, case find (\<lambda>w. cw_address w = a) (changed_csrs s s') of Some w \<Rightarrow> cw_value w | None \<Rightarrow> v)
      = (a, the (map_of (csr_view s') a))" if "(a, v) \<in> set (csr_view s)" for a v
  proof -
    have "map_of (csr_view s) a = Some v" using that d by simp
    moreover from that k [of s s'] have "a \<in> set (map fst (csr_view s'))" by (metis fst_conv image_eqI list.set_map)
    then obtain v' where "map_of (csr_view s') a = Some v'" by (metis map_of_eq_None_iff not_None_eq list.set_map)
    ultimately show ?thesis
      using find_changed [OF k [of s s'] d [of s], of a] by (simp add: changed_csrs_def)
  qed
  then have "replay_csrs (changed_csrs s s') (csr_view s) = map (\<lambda>a. (a, the (map_of (csr_view s') a))) (map fst (csr_view s))"
    unfolding replay_csrs_def by (auto simp: case_prod_unfold)
  also have "\<dots> = map (\<lambda>a. (a, the (map_of (csr_view s') a))) (map fst (csr_view s'))" by (simp only: k [of s s'])
  also have "\<dots> = map (\<lambda>x. x) (csr_view s')"
    unfolding map_map o_def by (rule map_cong) (use d [of s'] in auto)
  finally show ?thesis by simp
qed

lemma effects_replay:
  assumes "effects (capture st) st' = (iw, fw, cw, pt)"
  shows "map (replay_regs iw (read_x (arch_registers st))) [0..<32] = map (read_x (arch_registers st')) [0..<32]"
    "map (replay_regs fw (read_f_bits (arch_registers st))) [0..<32] = map (read_f_bits (arch_registers st')) [0..<32]"
    "replay_csrs cw (csr_view (csr_snapshot_of (arch_csrs st))) = csr_view (csr_snapshot_of (arch_csrs st'))"
    "privilege st' = (case pt of None \<Rightarrow> privilege st | Some t \<Rightarrow> pt_to t)"
proof -
  from assms have e: "iw = changed_registers (map (read_x (arch_registers st)) [0..<32]) (read_x (arch_registers st'))"
    "fw = changed_registers (map (read_f_bits (arch_registers st)) [0..<32]) (read_f_bits (arch_registers st'))"
    "cw = changed_csrs (csr_snapshot_of (arch_csrs st)) (csr_snapshot_of (arch_csrs st'))"
    "pt = (if privilege st \<noteq> privilege st' then Some \<lparr>pt_from = privilege st, pt_to = privilege st'\<rparr> else None)"
    by (auto simp: effects_def capture_def)
  show "map (replay_regs iw (read_x (arch_registers st))) [0..<32] = map (read_x (arch_registers st')) [0..<32]"
    "map (replay_regs fw (read_f_bits (arch_registers st))) [0..<32] = map (read_f_bits (arch_registers st')) [0..<32]"
    "replay_csrs cw (csr_view (csr_snapshot_of (arch_csrs st))) = csr_view (csr_snapshot_of (arch_csrs st'))"
    unfolding e by (rule replay_changed_registers replay_changed_csrs)+
  show "privilege st' = (case pt of None \<Rightarrow> privilege st | Some t \<Rightarrow> pt_to t)"
    unfolding e by simp
qed

text \<open>The retirement counter is not in the compared view; no instruction writes it.\<close>

lemma writeback_instret:
  assumes "writeback mr (r, c) = (res, (r', c'))"
  shows "instret c' = instret c"
proof -
  have "csr_write c a v = Inr c1 \<Longrightarrow> instret c1 = instret c" for a v c1
    unfolding csr_write_def by (elim if_eqE) (auto simp: Let_def split: if_splits)
  then show ?thesis
    using assms by (cases mr) (auto simp: writeback_def accumulate_fflags_def
        split: sum.splits option.splits prod.splits if_splits)
qed

lemma return_instret:
  "handle_mret r c = (pc, r', c') \<Longrightarrow> instret c' = instret c"
  "handle_sret r c = (res, r', c') \<Longrightarrow> instret c' = instret c"
  by (auto simp: handle_mret_def handle_sret_def Let_def split: if_splits)

lemma commit_instret: "commit_state mr st = Some st2 \<Longrightarrow> instret (arch_csrs st2) = instret (arch_csrs st)"
  by (auto simp: commit_state_def set_pc_def dest!: writeback_instret return_instret
      split: prod.splits sum.splits if_splits)

lemma take_trap_instret: "take_trap r c cause v pc = (h, r', c') \<Longrightarrow> instret c' = instret c"
  by (auto simp: take_trap_def Let_def split: if_splits)

text \<open>No spurious writes: each register or CSR is listed at most once, and with a value it did not have.\<close>

definition genuine_regs :: "register_write list \<Rightarrow> (nat \<Rightarrow> u64) \<Rightarrow> bool" where
  "genuine_regs ws old \<longleftrightarrow> distinct (map rw_index ws)
     \<and> (\<forall>w \<in> set ws. unat (rw_index w) < 32 \<and> old (unat (rw_index w)) \<noteq> rw_value w)"

definition genuine_csrs :: "csr_write_record list \<Rightarrow> (u16 \<times> u64) list \<Rightarrow> bool" where
  "genuine_csrs ws view \<longleftrightarrow> distinct (map cw_address ws)
     \<and> (\<forall>w \<in> set ws. \<exists>v. map_of view (cw_address w) = Some v \<and> v \<noteq> cw_value w)"

lemma genuine_Cons:
  "genuine_regs (w # ws) old \<longleftrightarrow> rw_index w \<notin> rw_index ` set ws \<and> unat (rw_index w) < 32
    \<and> old (unat (rw_index w)) \<noteq> rw_value w \<and> genuine_regs ws old"
  by (auto simp: genuine_regs_def)

lemma genuine_changed:
  assumes "distinct is" "\<forall>i \<in> set is. i < 32"
  shows "genuine_regs (List.map_filter (\<lambda>i. let v = new i
      in if old i \<noteq> v then Some \<lparr>rw_index = of_nat i, rw_value = v\<rparr> else None) is) old
    \<and> rw_index ` set (List.map_filter (\<lambda>i. let v = new i
      in if old i \<noteq> v then Some \<lparr>rw_index = of_nat i, rw_value = v\<rparr> else None) is) \<subseteq> (of_nat :: nat \<Rightarrow> u8) ` set is"
    (is "genuine_regs (?ws is) old \<and> rw_index ` set (?ws is) \<subseteq> _")
  using assms
proof (induction "is")
  case (Cons i "is")
  have ih: "genuine_regs (?ws is) old" "rw_index ` set (?ws is) \<subseteq> (of_nat :: nat \<Rightarrow> u8) ` set is"
    using Cons by simp_all
  have small: "unat (of_nat j :: u8) = j" if "j \<in> set (i # is)" for j
  proof -
    from Cons.prems(2) that have "j < 32" by blast
    then show ?thesis by (simp add: unat_of_nat)
  qed
  show ?case
  proof (cases "old i = new i")
    case True
    then have "?ws (i # is) = ?ws is" by simp
    with ih show ?thesis by auto
  next
    case False
    have "of_nat i \<notin> (of_nat :: nat \<Rightarrow> u8) ` set is"
    proof
      assume "of_nat i \<in> (of_nat :: nat \<Rightarrow> u8) ` set is"
      then obtain j where j: "j \<in> set is" "(of_nat i :: u8) = of_nat j" by blast
      have "i = unat (of_nat i :: u8)" by (rule small [symmetric]) simp
      also have "\<dots> = unat (of_nat j :: u8)" by (simp only: j(2))
      also have "\<dots> = j" by (rule small) (use j(1) in simp)
      finally have "i = j" .
      with j Cons.prems(1) show False by simp
    qed
    with ih(2) have new: "of_nat i \<notin> rw_index ` set (?ws is)" by blast
    have ws: "?ws (i # is) = \<lparr>rw_index = of_nat i, rw_value = new i\<rparr> # ?ws is" using False by simp
    have "i < 32" using Cons.prems(2) by simp
    with small [of i] new ih False show ?thesis
      unfolding ws genuine_Cons by (simp del: List.map_filter_simps) blast
  qed
qed (simp add: genuine_regs_def)

lemma genuine_changed_registers: "genuine_regs (changed_registers (map old [0..<32]) new) old"
proof -
  have "changed_registers (map old [0..<32]) new = List.map_filter (\<lambda>i. let v = new i
      in if old i \<noteq> v then Some \<lparr>rw_index = of_nat i, rw_value = v\<rparr> else None) [0..<32]"
    unfolding changed_registers_def by (rule map_filter_eqI) simp
  then show ?thesis using genuine_changed [of "[0..<32]"] by simp
qed

lemma genuine_changed_pairs:
  assumes "map fst xs = map fst ys" "distinct (map fst xs)"
  shows "genuine_csrs (List.map_filter (\<lambda>((address, old), (_, v)).
      if old \<noteq> v then Some \<lparr>cw_address = address, cw_value = v\<rparr> else None) (zip xs ys)) xs
    \<and> cw_address ` set (List.map_filter (\<lambda>((address, old), (_, v)).
      if old \<noteq> v then Some \<lparr>cw_address = address, cw_value = v\<rparr> else None) (zip xs ys)) \<subseteq> fst ` set xs"
  using map_eq_imp_length_eq [OF assms(1)] assms
proof (induction xs ys rule: list_induct2)
  case (Cons x xs y ys)
  have "fst x \<notin> fst ` set xs" using Cons.prems(2) by simp
  with Cons show ?case by (cases x; cases y) (auto simp: genuine_csrs_def image_iff)
qed (simp add: genuine_csrs_def)

lemma genuine_changed_csrs: "genuine_csrs (changed_csrs s s') (csr_view s)"
proof -
  have "map fst (csr_view s) = map fst (csr_view s')" "distinct (map fst (csr_view s))"
    by (simp_all add: csr_view_def)
  from genuine_changed_pairs [OF this] show ?thesis unfolding changed_csrs_def by blast
qed

lemma effects_genuine:
  assumes "effects (capture st) st' = (iw, fw, cw, pt)"
  shows "genuine_regs iw (read_x (arch_registers st))" "genuine_regs fw (read_f_bits (arch_registers st))"
    "genuine_csrs cw (csr_view (csr_snapshot_of (arch_csrs st)))"
    "pt = (if privilege st = privilege st' then None else Some \<lparr>pt_from = privilege st, pt_to = privilege st'\<rparr>)"
  using assms
  by (auto simp: effects_def capture_def intro: genuine_changed_registers genuine_changed_csrs)

subsection \<open>What a step should report\<close>

text \<open>The first stage that fails, with its cause and value: the trap a step is to take from a given state.
  A step that takes one reports no memory write.\<close>

definition trap_of :: "trap_stage \<Rightarrow> vm_error \<Rightarrow> (trap_stage \<times> u64 \<times> u64) option" where
  "trap_of stage e = map_option (\<lambda>(cause, v). (stage, cause, v)) (error_to_trap_cause e)"

definition commit_trap :: "mem_result \<Rightarrow> architectural_state \<Rightarrow> (trap_stage \<times> u64 \<times> u64) option" where
  "commit_trap mr st = (case writeback mr (arch_registers st, arch_csrs st) of
     (Inr _, _) \<Rightarrow> None
   | (Inl e, (r, c)) \<Rightarrow>
       (if e = vm_error.Ecall then Some (TS_Writeback, ecall_cause (priv_mode r), 0)
        else if e = vm_error.Ebreak then Some (TS_Writeback, CAUSE_EBREAK, 0)
        else if e = vm_error.Mret then None
        else if e = vm_error.Sret then (case handle_sret r c of (Inl e2, _) \<Rightarrow> trap_of TS_Writeback e2 | _ \<Rightarrow> None)
        else trap_of TS_Writeback e))"

type_synonym report = "u32 option \<times> instruction_id option \<times> memory_write option \<times> (trap_stage \<times> u64 \<times> u64) option"

definition report_of :: "retire_event \<Rightarrow> report" where
  "report_of ev = (ev_raw_instruction ev, ev_instruction ev, ev_memory_write ev,
     map_option (\<lambda>t. (tr_stage t, tr_cause t, tr_value t)) (ev_trap ev))"

definition commit_report ::
  "u32 \<Rightarrow> instruction_id option \<Rightarrow> mem_result \<Rightarrow> memory_write option \<Rightarrow> architectural_state \<Rightarrow> report" where
  "commit_report raw i mr mw st = (case commit_trap mr st of
     None \<Rightarrow> (Some raw, i, mw, None)
   | Some t \<Rightarrow> (Some raw, i, None, Some t))"

definition step_report :: "float_host \<Rightarrow> architectural_state \<Rightarrow> tlb \<Rightarrow> system_bus \<Rightarrow> report" where
  "step_report h st t b = (case pending_interrupt st of
     Some (cause, v, _) \<Rightarrow> (None, None, None, Some (TS_Interrupt, cause, v))
   | None \<Rightarrow> (case fetch_with_pmp bus_ops (arch_pc st) (fc_translation_context st) (t, b) of
       (Inl e, _) \<Rightarrow> (None, None, None, trap_of TS_Fetch e)
     | (Inr raw, (t2, b2)) \<Rightarrow> (case decode raw of
         Inl e \<Rightarrow> (Some raw, None, None, trap_of TS_Decode e)
       | Inr insn \<Rightarrow> (case execute h insn (functional_operands (arch_registers st) insn) (arch_csrs st) (arch_pc st) of
           Inl e \<Rightarrow> (Some raw, insn_id insn, None, trap_of TS_Execute e)
         | Inr executed \<Rightarrow> (case memory_stage_with_trace bus_ops (fc_translation_context st) executed (reservation st, t2, b2) of
             (Inl e, _) \<Rightarrow> (Some raw, insn_id insn, None, trap_of TS_Memory e)
           | (Inr (mr, mw), _) \<Rightarrow> commit_report raw (insn_id insn) mr mw st)))))"

lemma report_event:
  "fc_event before pc raw i retired mw trap f = (ev, f')
    \<Longrightarrow> report_of ev = (raw, i, mw, map_option (\<lambda>t. (tr_stage t, tr_cause t, tr_value t)) trap)"
  by (auto simp: report_of_def fc_event_def split: prod.splits)

lemma report_retire: "fc_retire before pc raw i mw f = (Inr ev, f') \<Longrightarrow> report_of ev = (Some raw, i, mw, None)"
  by (auto simp: fc_retire_def Let_def map_prod_def dest!: report_event split: prod.splits)

lemma report_take_trap:
  "fc_take_trap before pc raw i cause v stage f = (ev, f') \<Longrightarrow> report_of ev = (raw, i, None, Some (stage, cause, v))"
  by (auto simp: fc_take_trap_def Let_def dest!: report_event split: prod.splits)

lemma report_trap_error:
  assumes "fc_trap_error before pc raw i e stage f = (Inr ev, f')"
  shows "report_of ev = (raw, i, None, trap_of stage e) \<and> trap_of stage e \<noteq> None"
proof -
  obtain cause v where e: "error_to_trap_cause e = Some (cause, v)"
    using assms by (auto simp: fc_trap_error_def split: option.splits)
  with assms have "fc_take_trap before pc raw i cause v stage f = (ev, f')"
    by (auto simp: fc_trap_error_def map_prod_def split: prod.splits)
  from report_take_trap [OF this] e show ?thesis by (simp add: trap_of_def)
qed

lemma report_commit:
  assumes "fc_commit before pc raw i mr mw f = (Inr ev, f')"
  shows "report_of ev = commit_report raw i mr mw (fc_architectural f)"
proof -
  define st where "st = fc_architectural f"
  define f1 where "f1 = (if mr = M_SfenceVma then f\<lparr>fc_tlb := tlb_flush (fc_tlb f)\<rparr> else f)"
  have f1: "fc_architectural f1 = st" by (simp add: f1_def st_def)
  have trapped: "fc_take_trap before pc (Some raw) i cause v TS_Writeback g = (ev, f')"
    if "map_prod Inr id (fc_take_trap before pc (Some raw) i cause v TS_Writeback g) = (Inr ev, f')" for cause v g
    using that by (cases "fc_take_trap before pc (Some raw) i cause v TS_Writeback g") simp
  obtain res r c where wb: "writeback mr (arch_registers st, arch_csrs st) = (res, (r, c))" by (metis surj_pair)
  note fc = assms [unfolded fc_commit_def Let_def, folded f1_def, unfolded f1 wb prod.case]
  show ?thesis
  proof (cases res)
    case (Inr next_pc)
    with fc wb show ?thesis
      by (auto simp: commit_report_def commit_trap_def st_def [symmetric] dest: report_retire)
  next
    case (Inl e)
    consider "e = vm_error.Ecall" | "e = vm_error.Ebreak" | "e = vm_error.Mret" | "e = vm_error.Sret"
      | "e \<notin> {vm_error.Ecall, vm_error.Ebreak, vm_error.Mret, vm_error.Sret}" by blast
    then show ?thesis
    proof cases
      case 1
      with fc wb Inl show ?thesis
        by (auto simp: commit_report_def commit_trap_def st_def [symmetric] dest!: trapped report_take_trap)
    next
      case 2
      with fc wb Inl show ?thesis
        by (auto simp: commit_report_def commit_trap_def st_def [symmetric] dest!: trapped report_take_trap)
    next
      case 3
      with fc wb Inl show ?thesis
        by (auto simp: commit_report_def commit_trap_def st_def [symmetric] dest!: report_retire split: prod.splits)
    next
      case 4
      with fc wb Inl show ?thesis
        by (auto simp: commit_report_def commit_trap_def st_def [symmetric]
            dest!: report_retire report_trap_error split: prod.splits sum.splits)
    next
      case 5
      with fc wb Inl show ?thesis
        by (auto simp: commit_report_def commit_trap_def st_def [symmetric] dest!: report_trap_error)
    qed
  qed
qed

lemma report_step:
  assumes step: "fc_step h (f, b) = (Inr ev, f', b')" and samp: "sampled (f, b) = (st1, b1)"
  shows "report_of ev = step_report h st1 (fc_tlb f) b1"
proof (cases "pending_interrupt st1")
  case (Some irq)
  with step samp show ?thesis
    by (cases irq) (auto simp: fc_step_def sampled_def step_report_def Let_def dest: report_take_trap split: prod.splits)
next
  case None
  obtain fr t2 b2 where fetch: "fetch_with_pmp bus_ops (arch_pc st1) (fc_translation_context st1) (fc_tlb f, b1) = (fr, (t2, b2))"
    by (metis surj_pair)
  note unfold = fc_step_def sampled_def step_report_def Let_def
  show ?thesis
  proof (cases fr)
    case (Inl e)
    with step samp None fetch show ?thesis
      by (auto simp: unfold dest: report_trap_error split: prod.splits)
  next
    case (Inr raw)
    note fetched = step samp None fetch Inr
    show ?thesis
    proof (cases "decode raw")
      case (Inl e)
      with fetched show ?thesis by (auto simp: unfold dest: report_trap_error split: prod.splits)
    next
      case (Inr insn)
      note decoded = fetched Inr
      show ?thesis
      proof (cases "execute h insn (functional_operands (arch_registers st1) insn) (arch_csrs st1) (arch_pc st1)")
        case (Inl e)
        with decoded show ?thesis by (auto simp: unfold dest: report_trap_error split: prod.splits)
      next
        case (Inr executed)
        obtain mres rv t3 b3 where mem: "memory_stage_with_trace bus_ops (fc_translation_context st1) executed
            (reservation st1, t2, b2) = (mres, (rv, t3, b3))" by (metis surj_pair)
        have same: "commit_report raw i mr mw (st1\<lparr>reservation := rv\<rparr>) = commit_report raw i mr mw st1" for i mr mw
          by (simp add: commit_report_def commit_trap_def)
        show ?thesis
        proof (cases mres)
          case (Inl e)
          with decoded Inr mem show ?thesis by (auto simp: unfold dest: report_trap_error split: prod.splits)
        next
          case (Inr mm)
          with decoded \<open>execute _ _ _ _ _ = Inr executed\<close> mem show ?thesis
            by (cases mm) (auto simp: unfold same dest!: report_commit split: prod.splits)
        qed
      qed
    qed
  qed
qed

subsection \<open>The event describes the step\<close>

definition describes :: "retire_event \<Rightarrow> architectural_state \<Rightarrow> architectural_state \<Rightarrow> bool" where
  "describes ev st st' \<longleftrightarrow>
     map (replay_regs (ev_integer_writes ev) (read_x (arch_registers st))) [0..<32]
       = map (read_x (arch_registers st')) [0..<32]
     \<and> genuine_regs (ev_integer_writes ev) (read_x (arch_registers st))
     \<and> map (replay_regs (ev_floating_writes ev) (read_f_bits (arch_registers st))) [0..<32]
       = map (read_f_bits (arch_registers st')) [0..<32]
     \<and> genuine_regs (ev_floating_writes ev) (read_f_bits (arch_registers st))
     \<and> replay_csrs (ev_csr_writes ev) (csr_view (csr_snapshot_of (arch_csrs st)))
       = csr_view (csr_snapshot_of (arch_csrs st'))
     \<and> genuine_csrs (ev_csr_writes ev) (csr_view (csr_snapshot_of (arch_csrs st)))
     \<and> ev_privilege_transition ev = (if privilege st = privilege st' then None
         else Some \<lparr>pt_from = privilege st, pt_to = privilege st'\<rparr>)
     \<and> ev_pc ev = arch_pc st \<and> ev_next_pc ev = arch_pc st'
     \<and> instret (arch_csrs st') = instret (arch_csrs st) + of_bool (ev_retired ev)
     \<and> ev_retired ev = (ev_trap ev = None)
     \<and> (case ev_trap ev of
          None \<Rightarrow> True
        | Some t \<Rightarrow> (case take_trap (arch_registers st) (arch_csrs st) (tr_cause t) (tr_value t) (arch_pc st) of
            (handler, r, c) \<Rightarrow> arch_registers st' = r\<lparr>reg_pc := handler\<rparr> \<and> arch_csrs st' = c))"

text \<open>C21. The event of a step describes it exactly. Replaying the event's register and CSR writes on the
  state sampled at the start of the step gives the state after it; every listed write is a real
  change and no location is listed twice; the privilege transition and the two program counters are those
  of the step. A trap is recorded just when a stage fails, with the first stage that does, its cause
  and its value, and the state after it is that of \<open>take_trap\<close> with them. An instruction is counted
  as retired just when no trap is recorded, the instruction word, its identity and its memory write are those the
  stages produced, and events are numbered consecutively.\<close>

theorem event_describes_step:
  assumes step: "fc_step h (f, b) = (Inr ev, f', b')" and samp: "sampled (f, b) = (st1, b1)"
  shows "describes ev st1 (fc_architectural f') \<and> report_of ev = step_report h st1 (fc_tlb f) b1
    \<and> ev_sequence ev = fc_next_sequence f \<and> fc_next_sequence f' = fc_next_sequence f + 1"
  using step samp
proof (cases rule: fc_step_cases)
  case (trap raw i cause v stage f2 rv)
  then have st: "fc_architectural f2 = st1\<lparr>reservation := rv\<rparr>" "fc_next_sequence f2 = fc_next_sequence f"
    by (simp_all add: core_with_def)
  obtain pc r' c' where t: "take_trap (arch_registers st1) (arch_csrs st1) cause v (arch_pc st1) = (pc, r', c')"
    by (metis surj_pair)
  define f3 where "f3 = f2\<lparr>fc_architectural := set_pc pc (st1\<lparr>reservation := rv, arch_registers := r', arch_csrs := c'\<rparr>)\<rparr>"
  have e: "fc_event (capture st1) (arch_pc st1) raw i False None (Some \<lparr>tr_cause = cause, tr_value = v, tr_stage = stage\<rparr>) f3 = (ev, f')"
    using trap(3) t st by (auto simp: fc_take_trap_def f3_def Let_def map_prod_def split: prod.splits)
  note fields = fc_event_fields [OF e]
  note effects = effects_replay [OF fields(1) [symmetric]] effects_genuine [OF fields(1) [symmetric]]
  have "instret (arch_csrs (fc_architectural f3)) = instret (arch_csrs st1)"
    "arch_registers (fc_architectural f3) = r'\<lparr>reg_pc := pc\<rparr>" "arch_csrs (fc_architectural f3) = c'"
    using take_trap_instret [OF t] by (simp_all add: f3_def set_pc_def)
  with fields effects(1-3,5-8) t st report_step [OF step samp] show ?thesis
    by (simp add: describes_def f3_def)
next
  case (retire raw insn executed mr mw rv t2 t3 b2 st2 f2)
  define f3 where "f3 = f2\<lparr>fc_architectural := st2\<lparr>arch_csrs := increment_instret (arch_csrs st2)\<rparr>\<rparr>"
  have e: "fc_event (capture st1) (arch_pc st1) (Some raw) (insn_id insn) True mw None f3 = (ev, f')"
    using retire(5,7) by (auto simp: fc_retire_def f3_def core_with_def Let_def map_prod_def split: prod.splits)
  note fields = fc_event_fields [OF e]
  note effects = effects_replay [OF fields(1) [symmetric]] effects_genuine [OF fields(1) [symmetric]]
  have "instret (arch_csrs (fc_architectural f3)) = instret (arch_csrs st1) + 1"
    using commit_instret [OF retire(4)] by (simp add: f3_def increment_instret_def)
  with fields effects(1-3,5-8) retire(5) report_step [OF step samp] show ?thesis
    by (simp add: describes_def f3_def core_with_def)
qed

subsection \<open>A step in user mode\<close>

text \<open>A machine whose ROM starts with \<open>addi x1, x0, 5\<close>, in user mode at address 0.\<close>

definition example_core :: functional_core where
  "example_core = (let f = functional_new 0 0x1000; st = fc_architectural f
     in f\<lparr>fc_architectural := st\<lparr>arch_registers := (arch_registers st)\<lparr>priv_mode := User\<rparr>\<rparr>\<rparr>)"

definition example_bus :: system_bus where
  "example_bus = system_bus_new [0x93, 0x00, 0x50, 0x00]"

lemma example_fetch:
  assumes "bus_rom b = rom_new 0 [0x93, 0x00, 0x50, 0x00]" "\<not> lat_enabled (memory_latency b)"
  shows "bus_read_word 0 b = (Inr 0x00500093, b)"
proof -
  have "rom_read_word 0 (rom_new 0 [0x93, 0x00, 0x50, 0x00]) = (Inr 0x00500093, rom_new 0 [0x93, 0x00, 0x50, 0x00])"
    by code_simp
  then show ?thesis using assms
    by (simp add: bus_read_word_def dispatch_def route_def lift_rom_def rom_ops_def record_access_latency_def Let_def)
qed

lemma example_sampled:
  assumes "sampled (example_core, example_bus) = (st1, b1)"
  shows "bus_rom b1 = rom_new 0 [0x93, 0x00, 0x50, 0x00]" "\<not> lat_enabled (memory_latency b1)"
   "arch_registers st1 = arch_registers (fc_architectural example_core)" "satp (arch_csrs st1) = 0" "pmpcfg0 (arch_csrs st1) = 0"
   "mie (arch_csrs st1) = 0" "reservation st1 = None"
  using assms
  by (auto simp: sampled_def sample_inputs_def example_bus_def system_bus_new_def latency_disabled_def Let_def
      example_core_def functional_new_def architectural_new_def sample_timer_def sample_software_def
      sample_external_def increment_cycle_def csr_file_new_def)

lemma example_step:
  assumes "sampled (example_core, example_bus) = (st1, b1)"
  shows "\<exists>ev f'. fc_step h (example_core, example_bus) = (Inr ev, f', b1) \<and> ev_retired ev \<and> ev_instruction ev = Some (Base Addi)"
proof -
  note s = example_sampled [OF assms]
  have pc: "arch_pc st1 = 0" "privilege st1 = User" by (simp_all add: s(3) example_core_def functional_new_def architectural_new_def write_x_def registers_new_def Let_def)
  have n: "pending_interrupt st1 = None" by (simp add: pending_interrupt_def s(6))
  have f: "fetch_with_pmp bus_ops 0 (fc_translation_context st1) (fc_tlb example_core, b1) = (Inr 0x00500093, (fc_tlb example_core, b1))"
    by (simp add: fetch_with_pmp_def translate_with_pmp_def fc_translation_context_def pc s(4,5) pmp_check_def Let_def on_mem_def
        smap_err_def bus_ops_def example_fetch [OF s(1,2)] sbind_def)
  have d: "decode 0x00500093 = Inr (D_AluImm 0 0 (Suc 0) 0 5)" by code_simp
  have i: "insn_id (D_AluImm 0 0 (Suc 0) 0 5) = Some (Base Addi)" by code_simp
  have a: "alu_imm_op (Some (Base Addi)) 0 5 = Some 5" by code_simp
  have e: "execute h (D_AluImm 0 0 (Suc 0) 0 5) ops c 0 = Inr (R_WriteInt (Suc 0) 5 4)" for ops c
    by (simp add: execute_def exec_alu_imm_def i [simplified] a Let_def op_read_x_def)
  show ?thesis using assms n f d pc
    by (simp add: fc_step_def sampled_def Let_def e i memory_stage_with_trace_def sreturn_def fc_commit_def writeback_def
      fc_retire_def fc_event_def split: prod.splits)
qed

theorem event_describes_step_witness:
  "\<exists>ev f' b' st1 b1. fc_step example_host (example_core, example_bus) = (Inr ev, f', b')
     \<and> sampled (example_core, example_bus) = (st1, b1) \<and> ev_retired ev
     \<and> describes ev st1 (fc_architectural f')
     \<and> report_of ev = step_report example_host st1 (fc_tlb example_core) b1 \<and> ev_sequence ev = 0"
proof -
  obtain st1 b1 where s: "sampled (example_core, example_bus) = (st1, b1)" by (metis surj_pair)
  from example_step [OF s] obtain ev f' where
    e: "fc_step example_host (example_core, example_bus) = (Inr ev, f', b1)" "ev_retired ev" by blast
  have "fc_next_sequence example_core = 0" by (simp add: example_core_def functional_new_def Let_def)
  with event_describes_step [OF e(1) s] e s show ?thesis by auto
qed

end
