(* ===== verification/Decode_Shape.thy ===== *)
theory Decode_Shape
  imports Decoder_Correct Hazard
begin

text \<open>
  The instructions the decoder can produce, by constructor: which identities go with it and which
  fields of the word its registers come from. The hazard unit looks registers up through the
  identity, the execute stage through the constructor; the lemmas here say that the two agree.
\<close>

subsection \<open>Identities and register fields of a decoded instruction\<close>

abbreviation (input) fld :: "nat \<Rightarrow> u32 \<Rightarrow> nat" where
  "fld k w \<equiv> unat (reg_field k w)"

definition shape :: "decoded_insn \<Rightarrow> instruction_id \<Rightarrow> u32 \<Rightarrow> bool" where
  "shape insn i w = (case insn of
     D_Lui rd _ \<Rightarrow> i = Upper Lui \<and> rd = fld 7 w
   | D_Auipc rd _ \<Rightarrow> i = Upper Auipc \<and> rd = fld 7 w
   | D_Jal rd _ \<Rightarrow> i = Base Jal \<and> rd = fld 7 w
   | D_Jalr rd rs1 _ \<Rightarrow> i = Base Jalr \<and> rd = fld 7 w \<and> rs1 = fld 15 w
   | D_Branch _ rs1 rs2 _ \<Rightarrow>
       i \<in> set (map Base [Beq, Bne, Blt, Bge, Bltu, Bgeu]) \<and> rs1 = fld 15 w \<and> rs2 = fld 20 w
   | D_Load _ rd rs1 _ \<Rightarrow> i \<in> set (map Base [Lb, Lh, Lw, Ld, Lbu, Lhu, Lwu]) \<and> rd = fld 7 w \<and> rs1 = fld 15 w
   | D_Store _ rs1 rs2 _ \<Rightarrow> i \<in> set (map Base [Sb, Sh, Sw, Sd]) \<and> rs1 = fld 15 w \<and> rs2 = fld 20 w
   | D_AluImm _ _ rd rs1 _ \<Rightarrow>
       i \<in> set (map Base [Addi, Slti, Sltiu, Xori, Ori, Andi, Slli, Srli, Srai]) \<and> rd = fld 7 w \<and> rs1 = fld 15 w
   | D_AluImm32 _ _ rd rs1 _ \<Rightarrow> i \<in> set (map Base [Addiw, Slliw, Srliw, Sraiw]) \<and> rd = fld 7 w \<and> rs1 = fld 15 w
   | D_Alu _ _ rd rs1 rs2 \<Rightarrow> (\<exists>r. i = Rr r) \<and> rd = fld 7 w \<and> rs1 = fld 15 w \<and> rs2 = fld 20 w
   | D_Alu32 _ _ rd rs1 rs2 \<Rightarrow> (\<exists>r. i = Rr r) \<and> rd = fld 7 w \<and> rs1 = fld 15 w \<and> rs2 = fld 20 w
   | D_Csr _ rd u _ \<Rightarrow>
       i \<in> set (map Base [Csrrw, Csrrs, Csrrc, Csrrwi, Csrrsi, Csrrci]) \<and> rd = fld 7 w \<and> u = fld 15 w
   | D_FLoad _ rd rs1 _ \<Rightarrow> i \<in> set (map Fp [Flw, Fld]) \<and> rd = fld 7 w \<and> rs1 = fld 15 w
   | D_FStore _ rs1 rs2 _ \<Rightarrow> i \<in> set (map Fp [Fsw, Fsd]) \<and> rs1 = fld 15 w \<and> rs2 = fld 20 w
   | D_FOp _ _ _ rd rs1 rs2 \<Rightarrow> (\<exists>f. i = Fp f \<and> f \<notin> {Flw, Fld, Fsw, Fsd}) \<and> rd = fld 7 w \<and> rs1 = fld 15 w \<and> rs2 = fld 20 w
   | D_FMac _ _ _ rd rs1 rs2 _ \<Rightarrow> (\<exists>f. i = Fp f \<and> f \<notin> {Flw, Fld, Fsw, Fsd}) \<and> rd = fld 7 w \<and> rs1 = fld 15 w \<and> rs2 = fld 20 w
   | D_Atomic _ _ _ _ rd rs1 rs2 \<Rightarrow>
       (\<exists>a. i = Atomic a \<and> (a \<in> {LrW, LrD} \<longrightarrow> rs2 = 0)) \<and> rd = fld 7 w \<and> rs1 = fld 15 w \<and> rs2 = fld 20 w
   | _ \<Rightarrow> (\<exists>b. i = Base b \<and> b \<in> {Fence, FenceI, base_id.Ecall, base_id.Ebreak, base_id.Mret, base_id.Sret, SfenceVma, Wfi}))"

lemma upper_shape:
  assumes "decode_upper_immediate w = Inr d" "insn_of_upper w d = Inr insn"
  shows "shape insn (di_id d) w"
  using assms by (auto simp: decode_upper_immediate_def insn_of_upper_def shape_def split: option.splits if_splits)

lemma rr_shape:
  assumes "decode_register_register w = Inr d" "insn_of_rr w d = Inr insn"
  shows "shape insn (di_id d) w"
proof -
  from assms(1) obtain s where s: "s \<in> set REGISTER_REGISTER_SPECS"
    and d: "d = \<lparr>di_id = spec_id s, di_operands = Ops_RegisterRegister (IntReg (reg_field 7 w))
      (IntReg (reg_field 15 w)) (IntReg (reg_field 20 w))\<rparr>"
    by (auto simp: decode_register_register_def split: option.splits dest!: rr_table.find_match_SomeD)
  from s have "\<exists>r. spec_id s = Rr r" by (auto simp: REGISTER_REGISTER_SPECS_def register_register_spec_def)
  with assms(2) show ?thesis by (auto simp: d insn_of_rr_def shape_def split: option.splits if_splits)
qed

lemma base_shape:
  assumes "decode_base_integer w = Inr d" "insn_of_base w d = Inr insn"
  shows "shape insn (di_id d) w"
proof -
  from assms(1) obtain s ops where "s \<in> set BASE_INTEGER_SPECS" and o: "base_integer_operands (spec_format s) w = Some ops"
    and d: "d = \<lparr>di_id = spec_id s, di_operands = ops\<rparr>"
    by (auto simp: decode_base_integer_def split: option.splits dest!: base_table.find_match_SomeD)
  from o have "case ops of Ops_Jump rd _ \<Rightarrow> rd = IntReg (reg_field 7 w)
     | Ops_Immediate rd rs1 _ \<Rightarrow> rd = IntReg (reg_field 7 w) \<and> rs1 = IntReg (reg_field 15 w)
     | Ops_Branch rs1 rs2 _ \<Rightarrow> rs1 = IntReg (reg_field 15 w) \<and> rs2 = IntReg (reg_field 20 w)
     | Ops_Store rs1 rs2 _ \<Rightarrow> rs1 = IntReg (reg_field 15 w) \<and> rs2 = IntReg (reg_field 20 w)
     | Ops_Csr rd u _ \<Rightarrow> rd = IntReg (reg_field 7 w) \<and> u = reg_field 15 w
     | _ \<Rightarrow> True"
    by (auto simp: base_integer_operands_def Let_def split: if_splits)
  with assms(2) show ?thesis
    by (cases ops) (auto simp: d insn_of_base_def shape_def Let_def split: if_splits)
qed

lemma atomic_shape:
  assumes "decode_atomic w = Inr d" "insn_of_atomic w d = Inr insn"
  shows "shape insn (di_id d) w"
proof -
  from assms(1) obtain s where s: "s \<in> set ATOMIC_SPECS" and w: "w AND spec_mask s = spec_match_bits s"
    and d: "d = \<lparr>di_id = spec_id s, di_operands = Ops_Atomic (IntReg (reg_field 7 w)) (IntReg (reg_field 15 w))
      (IntReg (reg_field 20 w)) (w AND push_bit 26 1 \<noteq> 0) (w AND push_bit 25 1 \<noteq> 0)\<rparr>"
    by (auto simp: decode_atomic_def split: option.splits dest!: atomic_table.find_match_SomeD)
  from s have "\<exists>a. spec_id s = Atomic a" by (auto simp: ATOMIC_SPECS_def atomic_spec_def)
  moreover have "reg_field 20 w = 0" if "spec_id s \<in> {Atomic LrW, Atomic LrD}"
  proof -
    from that s have "spec_mask s AND 0x01F00000 = 0x01F00000" "spec_match_bits s AND 0x01F00000 = 0"
      by (auto simp: ATOMIC_SPECS_def atomic_spec_def)
    with w have "w AND 0x01F00000 = 0" by (metis and.assoc and.commute)
    then have "drop_bit 20 (w AND 0x01F00000) = 0" by simp
    then show ?thesis by (simp add: reg_field_def drop_bit_and)
  qed
  ultimately show ?thesis using assms(2) by (auto simp: d insn_of_atomic_def shape_def)
qed

lemma floating_shape:
  assumes "decode_floating w = Inr d" "insn_of_floating w d = Inr insn"
  shows "shape insn (di_id d) w"
proof -
  from assms(1) obtain s imm where s: "s \<in> set FLOATING_SPECS"
    and d: "d = \<lparr>di_id = spec_id s, di_operands = Ops_Floating (reg_field 7 w) (reg_field 15 w) (reg_field 20 w)
         (reg_field 27 w) (ucast (drop_bit 12 w AND 0x7)) imm\<rparr>"
    by (auto simp: decode_floating_def Let_def split: option.splits if_splits dest!: fp_table.find_match_SomeD)
  from s have "\<exists>f. spec_id s = Fp f \<and> (f \<in> {Flw, Fld} \<longleftrightarrow> spec_format s = Fmt_FloatingLoad)
      \<and> (f \<in> {Fsw, Fsd} \<longleftrightarrow> spec_format s = Fmt_FloatingStore)"
    by (auto simp: FLOATING_SPECS_def floating_spec_def)
  with assms(2) instruction_spec_of_row(2) [OF s] show ?thesis
    by (auto simp: d insn_of_floating_def shape_def split: option.splits if_splits)
qed

lemma decode_shape:
  assumes "decode w = Inr insn"
  obtains i where "insn_id insn = Some i" "shape insn i w"
proof -
  have pick: thesis if "\<exists>insn'. x = Inr insn' \<and> represents insn' d" "x = Inr insn" "shape insn (di_id d) w" for x d
    using that \<open>\<And>i. insn_id insn = Some i \<Longrightarrow> shape insn i w \<Longrightarrow> thesis\<close> by (auto simp: represents_def)
  from assms show thesis
    unfolding decode_def
    by (auto split: sum.splits intro: pick [OF upper_represents _ upper_shape] pick [OF rr_represents _ rr_shape]
        pick [OF base_represents _ base_shape] pick [OF atomic_represents _ atomic_shape]
        pick [OF floating_represents _ floating_shape])
qed

subsection \<open>The hazard unit's view\<close>

text \<open>The integer registers the execute stage reads for an instruction.\<close>

definition int_reads :: "decoded_insn \<Rightarrow> nat list" where
  "int_reads insn = (case insn of
     D_Jalr _ rs1 _ \<Rightarrow> [rs1] | D_Branch _ rs1 rs2 _ \<Rightarrow> [rs1, rs2] | D_Load _ _ rs1 _ \<Rightarrow> [rs1]
   | D_Store _ rs1 rs2 _ \<Rightarrow> [rs1, rs2] | D_AluImm _ _ _ rs1 _ \<Rightarrow> [rs1] | D_AluImm32 _ _ _ rs1 _ \<Rightarrow> [rs1]
   | D_Alu _ _ _ rs1 rs2 \<Rightarrow> [rs1, rs2] | D_Alu32 _ _ _ rs1 rs2 \<Rightarrow> [rs1, rs2]
   | D_Atomic _ _ _ _ _ rs1 rs2 \<Rightarrow> [rs1, rs2] | _ \<Rightarrow> [])"

lemma rr_use: "id_register_use (Rr r) = int_rs1_rs2_rd"
  by (cases r) (simp_all add: id_register_use_def)

lemma atomic_use: "id_register_use (Atomic a) = (if a \<in> {LrW, LrD} then int_rs1_rd else int_rs1_rs2_rd)"
  by (cases a) (simp_all add: id_register_use_def)

lemma base_uses:
  "i \<in> set (map Base [Jalr, Lb, Lh, Lw, Ld, Lbu, Lhu, Lwu, Addi, Slti, Sltiu, Xori, Ori, Andi, Slli, Srli, Srai,
     Addiw, Slliw, Srliw, Sraiw]) \<Longrightarrow> id_register_use i = int_rs1_rd"
  "i \<in> set (map Base [Beq, Bne, Blt, Bge, Bltu, Bgeu, Sb, Sh, Sw, Sd]) \<Longrightarrow>
     id_register_use i = RegisterUse_NONE\<lparr>ru_source1 := Some RF_Integer, ru_source2 := Some RF_Integer\<rparr>"
proof -
  have "list_all (\<lambda>i. id_register_use i = int_rs1_rd) (map Base [Jalr, Lb, Lh, Lw, Ld, Lbu, Lhu, Lwu, Addi, Slti, Sltiu,
      Xori, Ori, Andi, Slli, Srli, Srai, Addiw, Slliw, Srliw, Sraiw])" by code_simp
  then show "i \<in> set (map Base [Jalr, Lb, Lh, Lw, Ld, Lbu, Lhu, Lwu, Addi, Slti, Sltiu, Xori, Ori, Andi, Slli, Srli, Srai,
     Addiw, Slliw, Srliw, Sraiw]) \<Longrightarrow> id_register_use i = int_rs1_rd" unfolding list_all_iff by blast
  have "list_all (\<lambda>i. id_register_use i = RegisterUse_NONE\<lparr>ru_source1 := Some RF_Integer, ru_source2 := Some RF_Integer\<rparr>)
      (map Base [Beq, Bne, Blt, Bge, Bltu, Bgeu, Sb, Sh, Sw, Sd])" by code_simp
  then show "i \<in> set (map Base [Beq, Bne, Blt, Bge, Bltu, Bgeu, Sb, Sh, Sw, Sd]) \<Longrightarrow>
     id_register_use i = RegisterUse_NONE\<lparr>ru_source1 := Some RF_Integer, ru_source2 := Some RF_Integer\<rparr>"
    unfolding list_all_iff by blast
qed

lemmas register_uses = rr_use atomic_use base_uses

lemma declared_sources:
  assumes "insn_id insn = Some i"
  shows "insn_rs1 insn = (if ru_source1 (id_register_use i) \<noteq> Some RF_Integer then 0
      else case insn of
        D_Jalr _ rs1 _ \<Rightarrow> rs1 | D_Branch _ rs1 _ _ \<Rightarrow> rs1 | D_Load _ _ rs1 _ \<Rightarrow> rs1
      | D_Store _ rs1 _ _ \<Rightarrow> rs1 | D_AluImm _ _ _ rs1 _ \<Rightarrow> rs1 | D_AluImm32 _ _ _ rs1 _ \<Rightarrow> rs1
      | D_Alu _ _ _ rs1 _ \<Rightarrow> rs1 | D_Alu32 _ _ _ rs1 _ \<Rightarrow> rs1 | D_FLoad _ _ rs1 _ \<Rightarrow> rs1
      | D_FStore _ rs1 _ _ \<Rightarrow> rs1 | D_FOp _ _ _ _ rs1 _ \<Rightarrow> rs1 | D_Atomic _ _ _ _ _ rs1 _ \<Rightarrow> rs1
      | D_Csr _ _ rs1_uimm _ \<Rightarrow> rs1_uimm | _ \<Rightarrow> 0)"
    and "insn_rs2 insn = (if ru_source2 (id_register_use i) \<noteq> Some RF_Integer then 0
      else case insn of
        D_Branch _ _ rs2 _ \<Rightarrow> rs2 | D_Store _ _ rs2 _ \<Rightarrow> rs2 | D_Alu _ _ _ _ rs2 \<Rightarrow> rs2
      | D_Alu32 _ _ _ _ rs2 \<Rightarrow> rs2 | D_Atomic _ _ _ _ _ _ rs2 \<Rightarrow> rs2 | _ \<Rightarrow> 0)"
  using assms by (simp_all add: insn_rs1_def insn_rs2_def)

lemma reads_declared:
  assumes "decode w = Inr insn" "r \<in> set (int_reads insn)"
  shows "r = 0 \<or> r = insn_rs1 insn \<or> r = insn_rs2 insn"
proof -
  from decode_shape [OF assms(1)] obtain i where i: "insn_id insn = Some i" and sh: "shape insn i w" .
  show ?thesis
    unfolding declared_sources [OF i] using assms(2) sh
    by (cases insn) (auto simp: int_reads_def shape_def rr_use atomic_use base_uses split: if_splits)
qed

lemma sources_in_word:
  assumes "decode w = Inr insn"
  shows "insn_rs1 insn = 0 \<or> insn_rs1 insn = fld 15 w" "insn_rs2 insn = 0 \<or> insn_rs2 insn = fld 20 w"
proof -
  from decode_shape [OF assms] obtain i where i: "insn_id insn = Some i" and sh: "shape insn i w" .
  show "insn_rs1 insn = 0 \<or> insn_rs1 insn = fld 15 w"
    unfolding declared_sources [OF i] using sh by (cases insn) (simp_all add: shape_def)
  show "insn_rs2 insn = 0 \<or> insn_rs2 insn = fld 20 w"
    unfolding declared_sources [OF i] using sh by (cases insn) (simp_all add: shape_def)
qed

subsection \<open>Results of the arithmetic units\<close>

text \<open>A result that only writes the register \<open>rd\<close>, with or without exception flags.\<close>

definition writes_only :: "nat \<Rightarrow> exec_result \<Rightarrow> bool" where
  "writes_only rd r = (case r of R_WriteInt d _ _ \<Rightarrow> d = rd | R_WriteFp d _ _ \<Rightarrow> d = rd | R_WriteIntFlags d _ _ _ \<Rightarrow> d = rd
     | R_WriteFpFlags d _ _ _ \<Rightarrow> d = rd | _ \<Rightarrow> False)"

definition writing :: "nat \<Rightarrow> exec_result result \<Rightarrow> bool" where
  "writing rd x = (case x of Inl _ \<Rightarrow> True | Inr r \<Rightarrow> writes_only rd r)"

lemma writing_basic:
  "writing rd (Inl e)" "writing rd (Inr (R_WriteInt rd v n))" "writing rd (Inr (R_WriteFp rd v n))"
  "writing rd (Inr (R_WriteIntFlags rd v g n))" "writing rd (Inr (R_WriteFpFlags rd v g n))"
  by (simp_all add: writing_def writes_only_def)

lemma writing_cases:
  "writing rd a \<Longrightarrow> writing rd b \<Longrightarrow> writing rd (if c then a else b)"
  "writing rd a \<Longrightarrow> (\<And>x. writing rd (f x)) \<Longrightarrow> writing rd (case opt of None \<Rightarrow> a | Some x \<Rightarrow> f x)"
  "(\<And>x. writing rd (g x)) \<Longrightarrow> (\<And>x. writing rd (f x)) \<Longrightarrow> writing rd (case s of Inl x \<Rightarrow> g x | Inr x \<Rightarrow> f x)"
  "(\<And>x y. writing rd (k x y)) \<Longrightarrow> writing rd (case q of (x, y) \<Rightarrow> k x y)"
  by (auto split: option.splits sum.splits prod.splits)

lemma exec_writing:
  "writing rd (exec_fp_op h i f5 fmt rm rd rs1 rs2 regs csrs pc)"
  "writing rd (exec_alu_imm i f3 rd rs1 imm regs pc)" "writing rd (exec_alu_imm32 i f3 rd rs1 imm regs pc)"
  "writing rd (exec_alu i f3 rd rs1 rs2 regs pc)" "writing rd (exec_alu32 i f3 rd rs1 rs2 regs pc)"
  "writing rd (exec_fmac i fmt rm rd rs1 rs2 rs3 regs csrs pc)"
  unfolding exec_fp_op_def exec_alu_imm_def exec_alu_imm32_def exec_alu_def exec_alu32_def exec_fmac_def Let_def
  by (intro writing_cases writing_basic)+

lemma exec_writes_only:
  "exec_fp_op h i f5 fmt rm rd rs1 rs2 regs csrs pc = Inr r \<Longrightarrow> writes_only rd r"
  "exec_alu_imm i f3 rd rs1 imm regs pc = Inr r \<Longrightarrow> writes_only rd r"
  "exec_alu_imm32 i f3 rd rs1 imm regs pc = Inr r \<Longrightarrow> writes_only rd r"
  "exec_alu i f3 rd rs1 rs2 regs pc = Inr r \<Longrightarrow> writes_only rd r"
  "exec_alu32 i f3 rd rs1 rs2 regs pc = Inr r \<Longrightarrow> writes_only rd r"
  "exec_fmac i fmt rm rd rs1 rs2 rs3 regs csrs pc = Inr r \<Longrightarrow> writes_only rd r"
  by (metis exec_writing writing_def sum.case(2))+

end
