(* ===== verification/Confinement.thy ===== *)
theory Confinement
  imports Step_Events Decode_Shape
begin

text \<open>
  Privilege separation on the functional core. A CSR instruction reaches the CSR file only with the
  privilege its address asks for, so an instruction that retires below machine mode leaves the
  state of the modes above it alone. \<open>mret\<close> is the exception: neither the decoder nor the execute
  stage nor \<open>handle_mret\<close> looks at the current mode, and the last lemma exhibits a user-mode
  \<open>mret\<close> that leaves the machine in machine mode.
\<close>

subsection \<open>Where the privileged results come from\<close>

definition csr_level :: "u16 \<Rightarrow> u64" where
  "csr_level a = drop_bit 8 (ucast a) AND 3"

lemma exec_csr_level:
  "exec_csr i f3 rd u a ops c pc = Inr r \<Longrightarrow> \<exists>operand old npc. r = R_Csr f3 rd u a operand old npc
     \<and> csr_level a \<le> priv_num (priv_mode (op_registers ops))"
  by (auto simp: exec_csr_def csr_level_def Let_def split: if_splits option.splits)

lemma execute_csr:
  assumes "execute h insn ops c pc = Inr (R_Csr f3 rd u a operand old npc)"
  shows "csr_level a \<le> priv_num (priv_mode (op_registers ops))"
  using assms
  by (cases insn) (auto simp: execute_def Let_def writes_only_def dest!: exec_csr_level exec_writes_only split: option.splits if_splits)

lemma execute_mret:
  assumes "execute h insn ops c pc = Inr R_Mret"
  shows "insn = D_Mret"
  using assms
  by (cases insn) (auto simp: execute_def Let_def writes_only_def dest!: exec_csr_level exec_writes_only split: option.splits if_splits)

lemma memory_stage_origin:
  assumes "memory_stage_with_trace ops ctx r s = (Inr (mr, mw), s')"
  shows "mr = M_Csr f3 rd u a operand old npc \<Longrightarrow> r = R_Csr f3 rd u a operand old npc"
    and "mr = M_Mret \<Longrightarrow> r = R_Mret"
  using assms
  by (cases r; auto simp: memory_stage_with_trace_def sreturn_def sbind_eq_Inr)+

subsection \<open>What a write below machine mode can change\<close>

definition user_only :: "csr_file \<Rightarrow> csr_file \<Rightarrow> bool" where
  "user_only c c' \<longleftrightarrow> (\<exists>ff rm n. c' = c\<lparr>fflags := ff, frm := rm, instret := n\<rparr>)"

text \<open>Two words that differ at most in the bits of a mask.\<close>

definition same_outside :: "u64 \<Rightarrow> u64 \<Rightarrow> u64 \<Rightarrow> bool" where
  "same_outside m x y \<longleftrightarrow> (\<forall>n. bit m n \<or> bit x n = bit y n)"

text \<open>Every machine-level register of the CSR file is listed: those of which the supervisor owns no
  part are equal, of \<open>mie\<close> only the supervisor's enables, of \<open>mip\<close> only \<open>SSIP\<close> and of \<open>mstatus\<close>
  only the fields of \<open>sstatus\<close> (and \<open>MPRV\<close>, which \<open>sret\<close> clears) may differ.\<close>

definition below_machine :: "csr_file \<Rightarrow> csr_file \<Rightarrow> bool" where
  "below_machine c c' \<longleftrightarrow> medeleg c' = medeleg c \<and> mideleg c' = mideleg c \<and> mtvec c' = mtvec c
     \<and> mscratch c' = mscratch c \<and> mepc c' = mepc c \<and> mcause c' = mcause c \<and> mtval c' = mtval c
     \<and> pmpcfg0 c' = pmpcfg0 c \<and> pmpaddr0 c' = pmpaddr0 c \<and> misa c' = misa c
     \<and> cycle c' = cycle c
     \<and> same_outside (push_bit 1 1) (mip c) (mip c')
     \<and> same_outside S_IRQ_MASK (mie c) (mie c')
     \<and> same_outside (SSTATUS_MASK OR push_bit 17 1) (mstatus c) (mstatus c')"

lemma same_outside_refl [simp]: "same_outside m x x"
  by (simp add: same_outside_def)

lemma same_outside_masked [simp]: "same_outside m x ((x AND NOT m) OR (v AND m))"
  by (auto simp: same_outside_def bit_simps dest: bit_imp_le_length)

lemma same_outside_mono: "same_outside m x y \<Longrightarrow> same_outside (m OR k) x y"
  by (auto simp: same_outside_def bit_simps)

lemma below_machine_refl [simp]: "below_machine c c" "below_machine c (accumulate_fflags g c)"
  by (simp_all add: below_machine_def accumulate_fflags_def)

lemma below_machine_instret [simp]: "below_machine c (increment_instret c') = below_machine c c'"
  by (simp add: below_machine_def increment_instret_def)

lemma user_only_simps [simp]: "user_only c c" "user_only c (accumulate_fflags g c)"
    "user_only c (c\<lparr>fflags := ff\<rparr>)" "user_only c (c\<lparr>frm := rm\<rparr>)" "user_only c (c\<lparr>fflags := ff, frm := rm\<rparr>)"
  unfolding user_only_def accumulate_fflags_def
  by (rule exI [of _ "fflags c"] exI [of _ "fflags c OR (g AND 0x1F)"] exI [of _ ff],
      rule exI [of _ "frm c"] exI [of _ rm], rule exI [of _ "instret c"], simp)+

lemma user_only_instret [simp]: "user_only c c' \<Longrightarrow> user_only c (increment_instret c')"
  by (force simp: user_only_def increment_instret_def)

lemma csr_write_user:
  assumes "csr_write c a v = Inr c'" "csr_level a = 0"
  shows "user_only c c'"
  using assms unfolding csr_write_def
  by (elim if_eqE) (auto simp: csr_level_def Let_def)

lemma csr_write_below:
  assumes "csr_write c a v = Inr c'" "csr_level a \<le> 1"
  shows "below_machine c c'"
proof -
  define st where "st = (mstatus c AND NOT SSTATUS_MASK) OR (v AND SSTATUS_MASK)"
  define ie where "ie = (mie c AND NOT S_IRQ_MASK) OR (v AND S_IRQ_MASK)"
  define ip where "ip = (mip c AND NOT (push_bit 1 1)) OR (v AND push_bit 1 1)"
  have "same_outside (SSTATUS_MASK OR push_bit 17 1) (mstatus c) st" "same_outside S_IRQ_MASK (mie c) ie"
    "same_outside (push_bit 1 1) (mip c) ip"
    unfolding st_def ie_def ip_def by (rule same_outside_mono, rule same_outside_masked) (rule same_outside_masked)+
  then show ?thesis
    using assms unfolding csr_write_def st_def [symmetric] ie_def [symmetric] ip_def [symmetric]
    by (elim if_eqE) (auto simp: csr_level_def below_machine_def Let_def word_le_nat_alt split: if_splits)
qed

lemma writeback_confined:
  assumes "writeback mr (r, c) = (Inr pc, (r', c'))"
    and "\<And>f3 rd u a operand old npc. mr = M_Csr f3 rd u a operand old npc \<Longrightarrow> csr_level a \<le> level"
  shows "priv_mode r' = priv_mode r" "level = 0 \<Longrightarrow> user_only c c'" "level \<le> 1 \<Longrightarrow> below_machine c c'"
  using assms csr_write_user csr_write_below
  by (cases mr; force simp: writeback_def split: sum.splits option.splits prod.splits if_splits)+

subsection \<open>Confinement of a step\<close>

lemma sret_confined:
  assumes "handle_sret r c = (Inr pc, r', c')"
  shows "priv_num (priv_mode r') \<le> priv_num (priv_mode r)" "priv_mode r \<noteq> User" "below_machine c c'"
proof -
  note e = handle_sret_effect [OF assms]
  then show "priv_mode r \<noteq> User" by simp
  from e show "priv_num (priv_mode r') \<le> priv_num (priv_mode r)"
    by (cases "priv_mode r"; cases "priv_mode r'") (simp_all add: word_le_nat_alt)
  have "bit (SSTATUS_MASK OR push_bit 17 1) n" if "n \<in> {1, 5, 8, 17}" for n
    using that by (auto simp: SSTATUS_MASK_value)
  with e have "same_outside (SSTATUS_MASK OR push_bit 17 1) (mstatus c) (mstatus c')"
    unfolding same_outside_def by metis
  moreover from e obtain m where "c' = c\<lparr>mstatus := m\<rparr>" by blast
  ultimately show "below_machine c c'" by (simp add: below_machine_def)
qed

definition confined :: "architectural_state \<Rightarrow> architectural_state \<Rightarrow> bool" where
  "confined st st' \<longleftrightarrow> priv_num (privilege st') \<le> priv_num (privilege st)
     \<and> (privilege st = User \<longrightarrow> user_only (arch_csrs st) (arch_csrs st'))
     \<and> (privilege st \<noteq> Machine \<longrightarrow> below_machine (arch_csrs st) (arch_csrs st'))"

lemma commit_confined:
  assumes commit: "commit_state mr st = Some st2" and mret: "mr \<noteq> M_Mret"
    and level: "\<And>f3 rd u a operand old npc. mr = M_Csr f3 rd u a operand old npc \<Longrightarrow> csr_level a \<le> priv_num (privilege st)"
  shows "confined st st2"
proof -
  obtain res r c where wb: "writeback mr (arch_registers st, arch_csrs st) = (res, (r, c))" by (metis surj_pair)
  show ?thesis
  proof (cases res)
    case (Inr pc)
    note w = writeback_confined [OF wb [unfolded Inr] level]
    have "priv_num (privilege st) = 0 \<longleftrightarrow> privilege st = User" "priv_num (privilege st) \<le> 1 \<longleftrightarrow> privilege st \<noteq> Machine"
      by (cases "privilege st"; simp add: word_le_nat_alt)+
    with w Inr wb commit show ?thesis by (auto simp: commit_state_def confined_def set_pc_def)
  next
    case (Inl e)
    with writeback_error wb have rc: "r = arch_registers st" "c = arch_csrs st" by blast+
    have "\<not> trappable vm_error.Mret" by (simp add: trappable_def)
    with wb Inl mret have "e \<noteq> vm_error.Mret"
      by (cases mr) (auto simp: writeback_def dest: csr_errors split: sum.splits option.splits prod.splits if_splits)
    with commit wb Inl obtain pc r2 c2 where s: "handle_sret r c = (Inr pc, r2, c2)"
      "st2 = set_pc pc (st\<lparr>arch_registers := r2, arch_csrs := c2\<rparr>)"
      by (auto simp: commit_state_def split: if_splits prod.splits sum.splits)
    from sret_confined [OF s(1)] s(2) rc show ?thesis by (simp add: confined_def set_pc_def)
  qed
qed

text \<open>C5. Code below machine mode is confined. An instruction other than \<open>mret\<close> that retires in user mode
  changes no CSR except the floating-point status and the retirement counter; one that retires in
  supervisor mode changes no machine-level CSR, not even \<open>mip\<close>, beyond the supervisor's part of
  \<open>mstatus\<close> and \<open>mie\<close> and the bit \<open>SSIP\<close> of \<open>mip\<close> (and it may clear \<open>MPRV\<close>); and neither leaves the machine in a higher mode. The only other way to
  higher privilege is a trap.\<close>

theorem privilege_confinement:
  assumes step: "fc_step h (f, b) = (Inr ev, f', b')" and samp: "sampled (f, b) = (st1, b1)"
    and retired: "ev_retired ev" and not_mret: "ev_instruction ev \<noteq> Some (Base base_id.Mret)"
  shows "confined st1 (fc_architectural f')"
  using step samp
proof (cases rule: fc_step_cases)
  case (trap raw i cause v stage f2 rv)
  with retired show ?thesis
    by (auto simp: fc_take_trap_def Let_def map_prod_def dest: fc_event_fields(4) split: prod.splits)
next
  case (retire raw insn executed mr mw rv t2 t3 b2 st2 f2)
  define f3 where "f3 = f2\<lparr>fc_architectural := st2\<lparr>arch_csrs := increment_instret (arch_csrs st2)\<rparr>\<rparr>"
  have e: "fc_event (capture st1) (arch_pc st1) (Some raw) (insn_id insn) True mw None f3 = (ev, f')"
    using retire(5,7) by (auto simp: fc_retire_def f3_def core_with_def Let_def map_prod_def split: prod.splits)
  note origin = memory_stage_origin [OF retire(3)]
  have "mr \<noteq> M_Mret"
  proof
    assume "mr = M_Mret"
    with origin(2) execute_mret retire(2) have "insn = D_Mret" by blast
    with fc_event_fields(7) [OF e] not_mret show False by (simp add: insn_id_def)
  qed
  moreover have "csr_level a \<le> priv_num (privilege st1)" if "mr = M_Csr f3 rd u a operand old npc" for f3 rd u a operand old npc
    using execute_csr retire(2) origin(1) [OF that] by (fastforce simp: functional_operands_def)
  ultimately have "confined (st1\<lparr>reservation := rv\<rparr>) st2"
    by (intro commit_confined [OF retire(4)]) simp_all
  with fc_event_fields(10) [OF e] show ?thesis by (auto simp: confined_def f3_def)
qed

theorem privilege_confinement_witness:
  "\<exists>ev f' b' st1 b1. fc_step example_host (example_core, example_bus) = (Inr ev, f', b')
     \<and> sampled (example_core, example_bus) = (st1, b1) \<and> ev_retired ev
     \<and> privilege st1 = User \<and> confined st1 (fc_architectural f')"
proof -
  obtain st1 b1 where s: "sampled (example_core, example_bus) = (st1, b1)" by (metis surj_pair)
  from example_step [OF s] obtain ev f' where
    e: "fc_step example_host (example_core, example_bus) = (Inr ev, f', b1)" "ev_retired ev"
      "ev_instruction ev = Some (Base Addi)" by blast
  have "privilege st1 = User"
    by (simp add: example_sampled(3) [OF s] example_core_def functional_new_def architectural_new_def write_x_def Let_def)
  moreover have "confined st1 (fc_architectural f')"
    by (rule privilege_confinement [OF e(1) s e(2)]) (simp add: e(3))
  ultimately show ?thesis using e s by blast
qed

text \<open>The exception: \<open>mret\<close> is accepted in user mode. With \<open>MPP\<close> naming machine mode the step
  commits in machine mode.\<close>

lemma user_mode_mret_escalates:
  assumes "privilege st = User" "bit (mstatus (arch_csrs st)) 12"
  shows "decode 0x30200073 = Inr D_Mret" "execute h D_Mret ops c pc = Inr R_Mret"
    "\<exists>st2. commit_state M_Mret st = Some st2 \<and> privilege st2 = Machine"
proof -
  show "decode 0x30200073 = Inr D_Mret" by code_simp
  show "execute h D_Mret ops c pc = Inr R_Mret" by (simp add: execute_def)
  show "\<exists>st2. commit_state M_Mret st = Some st2 \<and> privilege st2 = Machine"
    using assms(2) unfolding handle_mret_def mpp_mode_bits Let_def commit_state_def writeback_def set_pc_def
    by (simp only: bit_status_mret mem_result.case prod.case sum.case) simp
qed

end
