(* ===== verification/Disasm.thy ===== *)
theory Disasm
  imports Decoder_Correct
begin

text \<open>
  The disassembler of \<open>cpu/decoder.rs\<close>: \<open>DecodedInsn::mnemonic\<close>, the register names and the
  \<open>Display\<close> implementation, with the formatting the sources use of the standard library
  (\<open>{}\<close> on signed and unsigned integers, \<open>{:#x}\<close>, \<open>{:<10}\<close>). The theorem shows that what is printed
  for a decoded word starts with the mnemonic of the table row the word encodes; the fused
  multiply-adds are the exception and print \<open>fmac??\<close>.
\<close>

subsection \<open>Formatting\<close>

definition digit_char :: "nat \<Rightarrow> char" where
  "digit_char d = ''0123456789abcdef'' ! d"

fun show_base :: "nat \<Rightarrow> nat \<Rightarrow> string" where
  "show_base base n =
     (if n < base \<or> base < 2 then [digit_char n] else show_base base (n div base) @ [digit_char (n mod base)])"

declare show_base.simps [simp del]

definition show_dec :: "nat \<Rightarrow> string" where
  "show_dec n = show_base 10 n"

definition show_int :: "int \<Rightarrow> string" where
  "show_int k = (if k < 0 then ''-'' @ show_dec (nat (- k)) else show_dec (nat k))"

definition show_hex :: "nat \<Rightarrow> string" where
  "show_hex n = ''0x'' @ show_base 16 n"

text \<open>\<open>{:<10}\<close>.\<close>

definition pad10 :: "string \<Rightarrow> string" where
  "pad10 s = s @ replicate (10 - length s) (CHR '' '')"

subsection \<open>Mnemonics\<close>

definition fallback_mnemonic :: "decoded_insn \<Rightarrow> string" where
  "fallback_mnemonic insn = (case insn of
     D_Lui _ _ \<Rightarrow> ''lui''
   | D_Auipc _ _ \<Rightarrow> ''auipc''
   | D_Jal _ _ \<Rightarrow> ''jal''
   | D_Jalr _ _ _ \<Rightarrow> ''jalr''
   | D_Branch f3 _ _ _ \<Rightarrow>
       (if f3 = 0 then ''beq'' else if f3 = 1 then ''bne'' else if f3 = 4 then ''blt''
        else if f3 = 5 then ''bge'' else if f3 = 6 then ''bltu'' else if f3 = 7 then ''bgeu'' else ''b??'')
   | D_Load f3 _ _ _ \<Rightarrow>
       (if f3 = 0 then ''lb'' else if f3 = 1 then ''lh'' else if f3 = 2 then ''lw''
        else if f3 = 3 then ''ld'' else if f3 = 4 then ''lbu'' else if f3 = 5 then ''lhu''
        else if f3 = 6 then ''lwu'' else ''l??'')
   | D_Store f3 _ _ _ \<Rightarrow>
       (if f3 = 0 then ''sb'' else if f3 = 1 then ''sh'' else if f3 = 2 then ''sw''
        else if f3 = 3 then ''sd'' else ''s??'')
   | D_AluImm f3 f7 _ _ _ \<Rightarrow>
       (if f3 = 0 then ''addi'' else if f3 = 1 then ''slli'' else if f3 = 2 then ''slti''
        else if f3 = 3 then ''sltiu'' else if f3 = 4 then ''xori''
        else if f3 = 5 then (if f7 AND 0x20 \<noteq> 0 then ''srai'' else ''srli'')
        else if f3 = 6 then ''ori'' else if f3 = 7 then ''andi'' else ''imm??'')
   | D_AluImm32 f3 f7 _ _ _ \<Rightarrow>
       (if f3 = 0 then ''addiw'' else if f3 = 1 then ''slliw''
        else if f3 = 5 then (if f7 AND 0x20 \<noteq> 0 then ''sraiw'' else ''srliw'') else ''immw??'')
   | D_Alu _ _ _ _ _ \<Rightarrow> (case insn_id insn of Some i \<Rightarrow> mnemonic i | None \<Rightarrow> ''alu??'')
   | D_Alu32 _ _ _ _ _ \<Rightarrow> (case insn_id insn of Some i \<Rightarrow> mnemonic i | None \<Rightarrow> ''alu32??'')
   | D_Fence _ _ _ \<Rightarrow> ''fence''
   | D_FenceI \<Rightarrow> ''fence.i''
   | D_Ecall \<Rightarrow> ''ecall''
   | D_Ebreak \<Rightarrow> ''ebreak''
   | D_Mret \<Rightarrow> ''mret''
   | D_Sret \<Rightarrow> ''sret''
   | D_SfenceVma \<Rightarrow> ''sfence.vma''
   | D_Wfi \<Rightarrow> ''wfi''
   | D_Csr f3 _ _ _ \<Rightarrow>
       (if f3 = 1 then ''csrrw'' else if f3 = 2 then ''csrrs'' else if f3 = 3 then ''csrrc''
        else if f3 = 5 then ''csrrwi'' else if f3 = 6 then ''csrrsi'' else if f3 = 7 then ''csrrci'' else ''csr??'')
   | D_FLoad f3 _ _ _ \<Rightarrow> (if f3 = 2 then ''flw'' else ''fld'')
   | D_FStore f3 _ _ _ \<Rightarrow> (if f3 = 2 then ''fsw'' else ''fsd'')
   | D_FOp _ _ _ _ _ _ \<Rightarrow> ''f.op''
   | D_FMac op _ _ _ _ _ _ \<Rightarrow>
       (case op of Fmadd \<Rightarrow> ''fmadd'' | Fmsub \<Rightarrow> ''fmsub'' | Fnmsub \<Rightarrow> ''fnmsub'' | Fnmadd \<Rightarrow> ''fnmadd'')
   | D_Atomic f5 _ _ _ _ _ _ \<Rightarrow>
       (if f5 = 2 then ''lr.w'' else if f5 = 3 then ''sc.w'' else if f5 = 1 then ''amoswap''
        else if f5 = 0 then ''amoadd'' else if f5 = 4 then ''amoxor'' else if f5 = 8 then ''amoor''
        else if f5 = 12 then ''amoand'' else if f5 = 16 then ''amomin'' else if f5 = 20 then ''amomax''
        else if f5 = 24 then ''amominu'' else if f5 = 28 then ''amomaxu'' else ''amo??''))"

definition insn_mnemonic :: "decoded_insn \<Rightarrow> string" where
  "insn_mnemonic insn = (case insn_id insn of Some i \<Rightarrow> mnemonic i | None \<Rightarrow> fallback_mnemonic insn)"

definition reg_name :: "nat \<Rightarrow> string" where
  "reg_name r = (case integer_register_name r of Some s \<Rightarrow> s | None \<Rightarrow> ''??'')"

definition freg_name :: "nat \<Rightarrow> string" where
  "freg_name r = (case float_register_name r of Some s \<Rightarrow> s | None \<Rightarrow> ''f??'')"

subsection \<open>Display\<close>

text \<open>A mnemonic with its operands, as \<open>write!\<close> joins them.\<close>

definition line :: "string \<Rightarrow> string list \<Rightarrow> string" where
  "line m ops = pad10 m @ '' '' @ concat (case ops of [] \<Rightarrow> [] | x # xs \<Rightarrow> x # map (\<lambda>y. '', '' @ y) xs)"

definition mem_operand :: "i64 \<Rightarrow> nat \<Rightarrow> string" where
  "mem_operand imm rs1 = show_int (sint imm) @ ''('' @ reg_name rs1 @ '')''"

definition fmac_display_mnemonic :: "string \<Rightarrow> u8 \<Rightarrow> string" where
  "fmac_display_mnemonic m fmt =
     (if m = ''fmadd'' then (if fmt = 1 then ''fmadd.d'' else ''fmadd.s'')
      else if m = ''fmsub'' then (if fmt = 1 then ''fmsub.d'' else ''fmsub.s'')
      else if m = ''fnmsub'' then (if fmt = 1 then ''fnmsub.d'' else ''fnmsub.s'')
      else if m = ''fnmadd'' then (if fmt = 1 then ''fnmadd.d'' else ''fnmadd.s'')
      else ''fmac??'')"

definition display_insn :: "decoded_insn \<Rightarrow> string" where
  "display_insn insn = (let m = insn_mnemonic insn in case insn of
     D_Lui rd imm \<Rightarrow> line ''lui'' [reg_name rd, show_hex (unat (drop_bit 12 imm))]
   | D_Auipc rd imm \<Rightarrow> line ''auipc'' [reg_name rd, show_hex (unat (drop_bit 12 imm))]
   | D_Jal rd imm \<Rightarrow> line ''jal'' [reg_name rd, show_int (sint imm)]
   | D_Jalr rd rs1 imm \<Rightarrow> line ''jalr'' [reg_name rd, mem_operand imm rs1]
   | D_Branch _ rs1 rs2 imm \<Rightarrow> line m [reg_name rs1, reg_name rs2, show_int (sint imm)]
   | D_Load _ rd rs1 imm \<Rightarrow> line m [reg_name rd, mem_operand imm rs1]
   | D_Store _ rs1 rs2 imm \<Rightarrow> line m [reg_name rs2, mem_operand imm rs1]
   | D_AluImm f3 _ rd rs1 imm \<Rightarrow>
       (let shift = (if f3 = 1 \<or> f3 = 5 then imm AND 0x3F else imm)
        in line m [reg_name rd, reg_name rs1, show_int (sint shift)])
   | D_AluImm32 f3 _ rd rs1 imm \<Rightarrow>
       (let shift = (if f3 = 1 \<or> f3 = 5 then imm AND 0x1F else imm)
        in line m [reg_name rd, reg_name rs1, show_int (sint shift)])
   | D_Alu _ _ rd rs1 rs2 \<Rightarrow> line m [reg_name rd, reg_name rs1, reg_name rs2]
   | D_Alu32 _ _ rd rs1 rs2 \<Rightarrow> line m [reg_name rd, reg_name rs1, reg_name rs2]
   | D_Fence _ pred succ \<Rightarrow> line ''fence'' [show_dec (unat pred), show_dec (unat succ)]
   | D_FenceI \<Rightarrow> ''fence.i''
   | D_Ecall \<Rightarrow> ''ecall''
   | D_Ebreak \<Rightarrow> ''ebreak''
   | D_Mret \<Rightarrow> ''mret''
   | D_Sret \<Rightarrow> ''sret''
   | D_SfenceVma \<Rightarrow> ''sfence.vma''
   | D_Wfi \<Rightarrow> ''wfi''
   | D_Csr _ rd rs1_uimm csr \<Rightarrow>
       (if m = ''csrrwi'' \<or> m = ''csrrsi'' \<or> m = ''csrrci''
        then line m [reg_name rd, show_hex (unat csr), show_dec rs1_uimm]
        else line m [reg_name rd, show_hex (unat csr), reg_name rs1_uimm])
   | D_FLoad _ rd rs1 imm \<Rightarrow> line m [freg_name rd, mem_operand imm rs1]
   | D_FStore _ rs1 rs2 imm \<Rightarrow> line m [freg_name rs2, mem_operand imm rs1]
   | D_FOp _ _ _ rd rs1 rs2 \<Rightarrow> line m [freg_name rd, freg_name rs1, freg_name rs2]
   | D_FMac _ fmt _ rd rs1 rs2 rs3 \<Rightarrow>
       line (fmac_display_mnemonic m fmt) [freg_name rd, freg_name rs1, freg_name rs2, freg_name rs3]
   | D_Atomic _ _ _ _ rd rs1 rs2 \<Rightarrow> line m [reg_name rd, reg_name rs2, ''('' @ reg_name rs1 @ '')''])"

subsection \<open>What is printed\<close>

lemma line_starts: "\<exists>rest. line m ops = m @ rest"
  by (simp add: line_def pad10_def)

lemma mnemonic_not_bare: "mnemonic i \<notin> {''fmadd'', ''fmsub'', ''fnmsub'', ''fnmadd''}"
proof (cases i)
  case (Upper u) then show ?thesis by (cases u) simp_all
next
  case (Rr u) then show ?thesis by (cases u) simp_all
next
  case (Base u) then show ?thesis by (cases u) simp_all
next
  case (Atomic u) then show ?thesis by (cases u) simp_all
next
  case (Fp u) then show ?thesis by (cases u) simp_all
qed

definition is_fmac :: "decoded_insn \<Rightarrow> bool" where
  "is_fmac insn = (case insn of D_FMac _ _ _ _ _ _ _ \<Rightarrow> True | _ \<Rightarrow> False)"

lemma display_mnemonic:
  assumes "insn_id insn = Some i"
  shows "\<exists>rest. display_insn insn = (if is_fmac insn then ''fmac??'' else mnemonic i) @ rest"
proof -
  have m: "insn_mnemonic insn = mnemonic i" using assms by (simp add: insn_mnemonic_def)
  have f: "fmac_display_mnemonic (mnemonic i) fmt = ''fmac??''" for fmt
    using mnemonic_not_bare [of i] by (simp add: fmac_display_mnemonic_def)
  have l: "\<exists>rest. line ''lui'' ops = ''lui'' @ rest" "\<exists>rest. line ''auipc'' ops = ''auipc'' @ rest"
    "\<exists>rest. line ''jal'' ops = ''jal'' @ rest" "\<exists>rest. line ''jalr'' ops = ''jalr'' @ rest"
    "\<exists>rest. line ''fence'' ops = ''fence'' @ rest" "\<exists>rest. line ''fmac??'' ops = ''fmac??'' @ rest" for ops
    by (rule line_starts)+
  show ?thesis
    unfolding display_insn_def Let_def m using assms line_starts [of "mnemonic i"] l
    by (cases insn) (auto simp: insn_id_def is_fmac_def f Let_def)
qed

text \<open>The disassembly of a word starts with the mnemonic of the table row the word encodes, for
  every word the decoder accepts, except that every fused multiply-add prints \<open>fmac??\<close>: the
  formatter compares the full mnemonic with the bare operation names.\<close>

theorem display_starts_with_mnemonic:
  "case decode_instruction w of
     Inl _ \<Rightarrow> decode w = Inl (IllegalInstruction w)
   | Inr d \<Rightarrow> (\<exists>insn. decode w = Inr insn \<and>
       (let m = (if is_fmac insn then ''fmac??'' else mnemonic (di_id d))
        in take (length m) (display_insn insn) = m))"
proof (cases "decode_instruction w")
  case (Inl e)
  then show ?thesis using decode_represents [of w] by simp
next
  case (Inr d)
  with decode_represents [of w] obtain insn where
    "decode w = Inr insn" "insn_id insn = Some (di_id d)" by (auto simp: represents_def)
  with display_mnemonic [of insn "di_id d"] Inr show ?thesis by (fastforce simp: Let_def)
qed

end
