(* ===== verification/Predictor.thy ===== *)
theory Predictor
  imports Prelude
begin

text \<open>
  The branch predictor (\<open>cpu/predictor.rs\<close>): 256 two-bit saturating counters indexed by bits 2 to 9
  of the program counter, a branch target buffer and hit statistics. A prediction is only a guess
  of the next fetch address; what it has to guarantee is that the counters stay in range and that a
  target it names has been seen.
\<close>

subsection \<open>State and operations\<close>

abbreviation (input) PHT_SIZE :: nat where "PHT_SIZE \<equiv> 256"

record predictor_stats =
  bp_total :: u64
  bp_correct :: u64
  bp_mispredicted :: u64

record branch_predictor =
  pht :: "u8 list"
  btb :: "u64 \<rightharpoonup> u64"
  bp_stats :: predictor_stats

definition predictor_new :: branch_predictor where
  "predictor_new = \<lparr>pht = replicate PHT_SIZE 1, btb = Map.empty,
     bp_stats = \<lparr>bp_total = 0, bp_correct = 0, bp_mispredicted = 0\<rparr>\<rparr>"

definition pht_idx :: "u64 \<Rightarrow> nat" where
  "pht_idx pc = unat (drop_bit 2 pc AND of_nat (PHT_SIZE - 1))"

definition predict :: "branch_predictor \<Rightarrow> u64 \<Rightarrow> bool \<times> u64" where
  "predict p pc = (pht p ! pht_idx pc \<ge> 2, case btb p pc of Some target \<Rightarrow> target | None \<Rightarrow> pc + 4)"

definition predictor_update :: "u64 \<Rightarrow> bool \<Rightarrow> u64 \<Rightarrow> bool \<Rightarrow> branch_predictor \<Rightarrow> branch_predictor" where
  "predictor_update pc was_taken actual_target predicted_taken p =
     (let idx = pht_idx pc; counter = pht p ! idx;
          p1 = (if was_taken
                then p\<lparr>pht := (if counter < 3 then (pht p)[idx := counter + 1] else pht p),
                       btb := (btb p)(pc \<mapsto> actual_target)\<rparr>
                else if counter > 0 then p\<lparr>pht := (pht p)[idx := counter - 1]\<rparr> else p);
          s = bp_stats p1;
          s1 = s\<lparr>bp_total := bp_total s + 1\<rparr>
      in p1\<lparr>bp_stats := (if was_taken = predicted_taken then s1\<lparr>bp_correct := bp_correct s1 + 1\<rparr>
                         else s1\<lparr>bp_mispredicted := bp_mispredicted s1 + 1\<rparr>)\<rparr>)"

definition predictor_clear :: "branch_predictor \<Rightarrow> branch_predictor" where
  "predictor_clear p = p\<lparr>pht := replicate PHT_SIZE 1, btb := Map.empty\<rparr>"

subsection \<open>The table stays in range\<close>

definition predictor_wf :: "branch_predictor \<Rightarrow> bool" where
  "predictor_wf p \<longleftrightarrow> length (pht p) = PHT_SIZE \<and> (\<forall>k \<in> set (pht p). k \<le> 3)"

lemma pht_idx_bound [simp]: "pht_idx pc < PHT_SIZE"
proof -
  have "drop_bit 2 pc AND of_nat (PHT_SIZE - 1) \<le> (of_nat (PHT_SIZE - 1) :: u64)" by (rule word_and_le1)
  then show ?thesis by (simp add: pht_idx_def word_le_nat_alt)
qed

lemma predictor_new_wf [simp]: "predictor_wf predictor_new"
  by (simp add: predictor_wf_def predictor_new_def word_le_nat_alt)

lemma predictor_clear_wf [simp]: "predictor_wf (predictor_clear p)"
  by (simp add: predictor_wf_def predictor_clear_def word_le_nat_alt)

lemma counter_step:
  fixes k :: u8
  shows "k < 3 \<Longrightarrow> k + 1 \<le> 3" "k > 0 \<Longrightarrow> k \<le> 3 \<Longrightarrow> k - 1 \<le> 3"
    "k < 3 \<Longrightarrow> unat (k + 1) = unat k + 1" "k > 0 \<Longrightarrow> unat (k - 1) = unat k - 1"
proof -
  show a: "k < 3 \<Longrightarrow> unat (k + 1) = unat k + 1" by (simp add: word_less_nat_alt unat_word_ariths)
  then show "k < 3 \<Longrightarrow> k + 1 \<le> 3" by (simp add: word_less_nat_alt word_le_nat_alt)
  show b: "k > 0 \<Longrightarrow> unat (k - 1) = unat k - 1" by (metis unat_minus_one word_less_nat_alt unat_0 neq0_conv unat_eq_zero)
  then show "k > 0 \<Longrightarrow> k \<le> 3 \<Longrightarrow> k - 1 \<le> 3" by (simp add: word_le_nat_alt)
qed

lemma predictor_update_wf:
  assumes "predictor_wf p"
  shows "predictor_wf (predictor_update pc t a q p)"
proof -
  have "pht p ! pht_idx pc \<le> 3" using assms by (simp add: predictor_wf_def)
  then have "\<forall>k \<in> set (pht (predictor_update pc t a q p)). k \<le> 3"
    using assms counter_step
    by (auto simp: predictor_update_def predictor_wf_def Let_def dest!: set_update_subset_insert [THEN subsetD])
  with assms show ?thesis by (auto simp: predictor_update_def predictor_wf_def Let_def)
qed

subsection \<open>Learning\<close>

lemma update_at:
  assumes "predictor_wf p"
  shows "pht (predictor_update pc t a q p) ! pht_idx pc' =
    (if pht_idx pc' = pht_idx pc
     then if t then if pht p ! pht_idx pc < 3 then pht p ! pht_idx pc + 1 else pht p ! pht_idx pc
          else if pht p ! pht_idx pc > 0 then pht p ! pht_idx pc - 1 else pht p ! pht_idx pc
     else pht p ! pht_idx pc')"
  using assms by (auto simp: predictor_update_def predictor_wf_def Let_def)

text \<open>A branch that has gone the same way twice in a row is predicted to go that way, whatever the
  counters held before, and to the target it last took.\<close>

theorem predictor_learns:
  assumes "predictor_wf p"
  shows "predict (predictor_update pc True target q2 (predictor_update pc True target0 q1 p)) pc = (True, target)
    \<and> \<not> fst (predict (predictor_update pc False target q2 (predictor_update pc False target0 q1 p)) pc)"
proof -
  have k: "unat (pht p ! pht_idx pc) \<le> 3"
    using assms by (simp add: predictor_wf_def word_le_nat_alt)
  note at = update_at [OF predictor_update_wf [OF assms]] update_at [OF assms]
  have "predict (predictor_update pc True target q2 (predictor_update pc True target0 q1 p)) pc = (True, target)"
    unfolding predict_def at using k
    by (auto simp: counter_step word_less_nat_alt word_le_nat_alt predictor_update_def Let_def)
  moreover have "\<not> fst (predict (predictor_update pc False target q2 (predictor_update pc False target0 q1 p)) pc)"
    unfolding predict_def at using k
    by (auto simp: counter_step word_less_nat_alt word_le_nat_alt)
  ultimately show ?thesis by simp
qed

theorem predictor_learns_witness:
  "predictor_wf predictor_new
   \<and> predict (predictor_update 0x40 True 0x80 True (predictor_update 0x40 True 0x60 False predictor_new)) 0x40 = (True, 0x80)"
  using predictor_learns [OF predictor_new_wf, of "0x40" "0x80" True "0x60" False] by simp

end
