(* ===== verification/Pipeline.thy ===== *)
theory Pipeline
  imports Functional Disasm Predictor
begin

text \<open>
  The five-stage pipelined core (\<open>cpu/pipeline.rs\<close>, wrapped unchanged by \<open>cpu.rs\<close>). A tick runs the
  stages from write-back to fetch, so that each one sees what the older instructions did in the same
  cycle. A stage returns a \<open>Result\<close>, as in the source, although every error it meets becomes a trap.
  Counters wrap at 64 bits. Fields of \<open>Pipeline\<close> carry the prefix \<open>p_\<close>, its private methods \<open>pl_\<close>.
\<close>

subsection \<open>State\<close>

datatype tick_outcome = Tick_Continue | Tick_Halted i64 | Tick_EcallSquash

record pipeline_stats =
  ps_cycles :: u64
  ps_insns_retired :: u64
  ps_stall_cycles :: u64
  ps_memory_stall_cycles :: u64
  ps_flush_cycles :: u64
  ps_branches_seen :: u64
  ps_branches_mispredicted :: u64

type_synonym stage_entry = "(u64 \<times> string) option"

record cpu_pipeline_feed =
  feed_stages :: "stage_entry list"
  feed_stalled :: bool
  feed_flushed :: bool

record pipeline =
  p_architectural :: architectural_state
  p_fetch_pc :: u64
  p_if_id :: "if_id_reg option"
  p_id_ex :: "id_ex_reg option"
  p_ex_mem :: "ex_mem_reg option"
  p_mem_wb :: "mem_wb_reg option"
  p_pending_mem_wb :: "mem_wb_reg option"
  p_memory_wait_cycles :: u32
  p_mret_in_flight :: bool
  p_predictor :: branch_predictor
  p_tlb :: tlb
  p_stats :: pipeline_stats
  p_last_cycle :: cpu_pipeline_feed

definition pipeline_stats_zero :: pipeline_stats where
  "pipeline_stats_zero = \<lparr>ps_cycles = 0, ps_insns_retired = 0, ps_stall_cycles = 0, ps_memory_stall_cycles = 0,
     ps_flush_cycles = 0, ps_branches_seen = 0, ps_branches_mispredicted = 0\<rparr>"

definition pipeline_new :: "u64 \<Rightarrow> u64 \<Rightarrow> pipeline" where
  "pipeline_new start_pc stack_ptr =
     \<lparr>p_architectural = architectural_new start_pc stack_ptr, p_fetch_pc = start_pc,
      p_if_id = None, p_id_ex = None, p_ex_mem = None, p_mem_wb = None, p_pending_mem_wb = None,
      p_memory_wait_cycles = 0, p_mret_in_flight = False, p_predictor = predictor_new, p_tlb = tlb_new,
      p_stats = pipeline_stats_zero,
      p_last_cycle = \<lparr>feed_stages = replicate 5 None, feed_stalled = False, feed_flushed = False\<rparr>\<rparr>"

abbreviation (input) p_registers :: "pipeline \<Rightarrow> registers" where
  "p_registers p \<equiv> arch_registers (p_architectural p)"
abbreviation (input) p_csrs :: "pipeline \<Rightarrow> csr_file" where
  "p_csrs p \<equiv> arch_csrs (p_architectural p)"

definition with_registers :: "(registers \<Rightarrow> registers) \<Rightarrow> pipeline \<Rightarrow> pipeline" where
  "with_registers f p = p\<lparr>p_architectural := (p_architectural p)\<lparr>arch_registers := f (p_registers p)\<rparr>\<rparr>"

definition with_csrs :: "(csr_file \<Rightarrow> csr_file) \<Rightarrow> pipeline \<Rightarrow> pipeline" where
  "with_csrs f p = p\<lparr>p_architectural := (p_architectural p)\<lparr>arch_csrs := f (p_csrs p)\<rparr>\<rparr>"

definition with_stats :: "(pipeline_stats \<Rightarrow> pipeline_stats) \<Rightarrow> pipeline \<Rightarrow> pipeline" where
  "with_stats f p = p\<lparr>p_stats := f (p_stats p)\<rparr>"

subsection \<open>Set-up and inspection\<close>

definition pl_set_return_addr :: "u64 \<Rightarrow> pipeline \<Rightarrow> pipeline" where
  "pl_set_return_addr ra = with_registers (write_x 1 ra)"

definition pl_reset_pc :: "u64 \<Rightarrow> pipeline \<Rightarrow> pipeline" where
  "pl_reset_pc pc p =
     p\<lparr>p_architectural := set_pc pc (p_architectural p), p_fetch_pc := pc,
       p_if_id := None, p_id_ex := None, p_ex_mem := None, p_mem_wb := None, p_pending_mem_wb := None,
       p_memory_wait_cycles := 0, p_tlb := tlb_flush (p_tlb p)\<rparr>"

definition pl_set_boot_entry :: "u64 \<Rightarrow> pipeline \<Rightarrow> pipeline" where
  "pl_set_boot_entry entry = with_registers (write_x 10 entry)"

definition pl_write_csr_mtvec :: "u64 \<Rightarrow> pipeline \<Rightarrow> pipeline" where
  "pl_write_csr_mtvec v = with_csrs (\<lambda>c. c\<lparr>mtvec := v\<rparr>)"

definition pl_peek_reg :: "pipeline \<Rightarrow> nat \<Rightarrow> u64" where
  "pl_peek_reg p r = read_x (p_registers p) r"

definition pl_peek_fp_reg :: "pipeline \<Rightarrow> nat \<Rightarrow> u64" where
  "pl_peek_fp_reg p r = read_f_bits (p_registers p) r"

definition pl_peek_pc :: "pipeline \<Rightarrow> u64" where
  "pl_peek_pc p = arch_pc (p_architectural p)"

definition pl_peek_all_xregs :: "pipeline \<Rightarrow> u64 list" where
  "pl_peek_all_xregs p = map (read_x (p_registers p)) [0..<32]"

definition pl_peek_all_fregs :: "pipeline \<Rightarrow> u64 list" where
  "pl_peek_all_fregs p = map (read_f_bits (p_registers p)) [0..<32]"

definition pl_peek_csrs :: "pipeline \<Rightarrow> csr_snapshot" where
  "pl_peek_csrs p = csr_snapshot_of (p_csrs p)"

subsection \<open>Flushes, traps and returns\<close>

definition pl_flush_pipeline :: "pipeline \<Rightarrow> pipeline" where
  "pl_flush_pipeline p =
     p\<lparr>p_if_id := None, p_id_ex := None, p_ex_mem := None, p_mem_wb := None, p_pending_mem_wb := None,
       p_memory_wait_cycles := 0\<rparr>"

text \<open>Storing what a function of \<open>traps\<close> returns, with the redirection of the fetch.\<close>

definition pl_redirect :: "u64 \<Rightarrow> registers \<Rightarrow> csr_file \<Rightarrow> pipeline \<Rightarrow> pipeline" where
  "pl_redirect pc regs' csrs' p =
     p\<lparr>p_fetch_pc := pc,
       p_architectural := set_pc pc ((p_architectural p)\<lparr>arch_registers := regs', arch_csrs := csrs'\<rparr>)\<rparr>"

definition pl_take_trap :: "u64 \<Rightarrow> u64 \<Rightarrow> u64 \<Rightarrow> pipeline \<Rightarrow> pipeline" where
  "pl_take_trap cause v pc p =
     (case take_trap (p_registers p) (p_csrs p) cause v pc of (new_pc, regs', csrs') \<Rightarrow>
        pl_redirect new_pc regs' csrs' p)"

definition pl_flush_and_trap :: "vm_error \<Rightarrow> u64 \<Rightarrow> pipeline \<Rightarrow> pipeline" where
  "pl_flush_and_trap e pc p =
     (case error_to_trap_cause e of
        Some (cause, v) \<Rightarrow> pl_take_trap cause v pc (pl_flush_pipeline p)
      | None \<Rightarrow> pl_flush_pipeline p)"

definition pl_count_retired :: "pipeline \<Rightarrow> pipeline" where
  "pl_count_retired p =
     with_stats (\<lambda>s. s\<lparr>ps_insns_retired := ps_insns_retired s + 1\<rparr>) (with_csrs increment_instret p)"

definition pl_handle_mret :: "pipeline \<Rightarrow> pipeline" where
  "pl_handle_mret p =
     (case handle_mret (p_registers p) (p_csrs p) of (new_pc, regs', csrs') \<Rightarrow>
        pl_count_retired ((pl_flush_pipeline (pl_redirect new_pc regs' csrs' p))\<lparr>p_mret_in_flight := False\<rparr>))"

definition pl_handle_sret :: "pipeline \<Rightarrow> pipeline" where
  "pl_handle_sret p =
     (case handle_sret (p_registers p) (p_csrs p) of (res, regs', csrs') \<Rightarrow>
        (case res of
           Inr new_pc \<Rightarrow>
             pl_count_retired ((pl_flush_pipeline (pl_redirect new_pc regs' csrs' p))\<lparr>p_mret_in_flight := False\<rparr>)
         | Inl e \<Rightarrow>
             (let p1 = pl_flush_pipeline (p\<lparr>p_architectural :=
                         (p_architectural p)\<lparr>arch_registers := regs', arch_csrs := csrs'\<rparr>\<rparr>)
              in case error_to_trap_cause e of
                   Some (cause, v) \<Rightarrow> pl_take_trap cause v (arch_pc (p_architectural p1)) p1
                 | None \<Rightarrow> p1)))"

definition pl_handle_ecall :: "(pipeline, tick_outcome) action" where
  "pl_handle_ecall p =
     (Inr Tick_EcallSquash,
      pl_flush_pipeline (pl_take_trap (ecall_cause (privilege (p_architectural p))) 0
        (arch_pc (p_architectural p)) p))"

subsection \<open>Forwarding values\<close>

definition ex_forwarding_info :: "exec_result \<Rightarrow> id_ex_reg \<Rightarrow> nat \<times> bool \<times> u64" where
  "ex_forwarding_info result id_ex = (case result of
     R_WriteInt rd v _ \<Rightarrow> (rd, False, v)
   | R_WriteFp rd bits _ \<Rightarrow> (rd, True, bits)
   | R_WriteIntFlags rd v _ _ \<Rightarrow> (rd, False, v)
   | R_WriteFpFlags rd bits _ _ \<Rightarrow> (rd, True, bits)
   | R_Jump _ \<Rightarrow> (0, False, 0)
   | R_Load rd _ _ _ \<Rightarrow> (rd, False, 0)
   | R_FLoad rd _ _ _ \<Rightarrow> (rd, True, 0)
   | R_Atomic _ _ _ _ rd _ _ _ \<Rightarrow> (rd, False, 0)
   | R_Csr _ rd _ _ _ old_val _ \<Rightarrow> (rd, False, old_val)
   | _ \<Rightarrow> (idex_rd id_ex, idex_is_fp_dest id_ex, 0))"

definition mem_forwarding_info :: "mem_result \<Rightarrow> ex_mem_reg \<Rightarrow> nat \<times> bool \<times> u64" where
  "mem_forwarding_info result ex_mem = (case result of
     M_WriteInt rd v _ \<Rightarrow> (rd, False, v)
   | M_WriteFp rd bits _ \<Rightarrow> (rd, True, bits)
   | M_WriteIntFlags rd v _ _ \<Rightarrow> (rd, False, v)
   | M_WriteFpFlags rd bits _ _ \<Rightarrow> (rd, True, bits)
   | M_Jump _ \<Rightarrow> (0, False, 0)
   | M_Csr _ rd _ _ _ old_val _ \<Rightarrow> (rd, False, old_val)
   | _ \<Rightarrow> (exmem_rd ex_mem, exmem_is_fp_dest ex_mem, exmem_fwd_val ex_mem))"

subsection \<open>Control flow\<close>

definition resolve_control_flow :: "exec_result \<Rightarrow> u64 \<Rightarrow> u64 \<times> bool \<times> bool" where
  "resolve_control_flow result pc =
     (let sequential = (\<lambda>next_pc. let taken = (next_pc \<noteq> pc + 4) in (next_pc, taken, taken))
      in case result of
        R_WriteInt _ _ next_pc \<Rightarrow> sequential next_pc
      | R_WriteFp _ _ next_pc \<Rightarrow> sequential next_pc
      | R_WriteIntFlags _ _ _ next_pc \<Rightarrow> sequential next_pc
      | R_WriteFpFlags _ _ _ next_pc \<Rightarrow> sequential next_pc
      | R_Load _ _ _ next_pc \<Rightarrow> sequential next_pc
      | R_Store _ _ _ next_pc \<Rightarrow> sequential next_pc
      | R_FLoad _ _ _ next_pc \<Rightarrow> sequential next_pc
      | R_FStore _ _ _ next_pc \<Rightarrow> sequential next_pc
      | R_Csr _ _ _ _ _ _ next_pc \<Rightarrow> sequential next_pc
      | R_Fence next_pc \<Rightarrow> sequential next_pc
      | R_FenceI next_pc \<Rightarrow> sequential next_pc
      | R_Jump next_pc \<Rightarrow> (next_pc, True, True)
      | R_Atomic _ _ _ _ _ _ _ next_pc \<Rightarrow> (next_pc, next_pc \<noteq> pc + 4, False)
      | _ \<Rightarrow> (pc + 4, False, False))"

subsection \<open>The stages\<close>

definition stage_if :: "(pipeline \<times> system_bus, if_id_reg option) action" where
  "stage_if s = (case s of (p, b) \<Rightarrow>
     (let pc = p_fetch_pc p
      in case fetch_with_pmp bus_ops pc (fc_translation_context (p_architectural p)) (p_tlb p, b) of
           (Inl e, (t', b')) \<Rightarrow> (Inr None, (pl_flush_and_trap e pc (p\<lparr>p_tlb := t'\<rparr>), b'))
         | (Inr raw, (t', b')) \<Rightarrow>
             (case predict (p_predictor p) pc of (predicted_taken, predicted_target) \<Rightarrow>
                (Inr (Some \<lparr>ifid_pc = pc, ifid_raw = raw,
                            ifid_rs1 = unat (drop_bit 15 raw AND 0x1F), ifid_rs2 = unat (drop_bit 20 raw AND 0x1F),
                            ifid_predicted_taken = predicted_taken, ifid_predicted_target = predicted_target\<rparr>),
                 (p\<lparr>p_tlb := t', p_fetch_pc := (if predicted_taken then predicted_target else pc + 4)\<rparr>, b')))))"

definition stage_id :: "if_id_reg option \<Rightarrow> (pipeline, id_ex_reg option) action" where
  "stage_id if_id p = (case if_id of
     None \<Rightarrow> (Inr None, p)
   | Some r \<Rightarrow>
       (case decode (ifid_raw r) of
          Inl e \<Rightarrow> (Inr None, pl_flush_and_trap e (ifid_pc r) p)
        | Inr insn \<Rightarrow>
            (let regs = p_registers p;
                 is_fp_dest = insn_is_fp_dest insn; is_load = insn_is_load insn;
                 p1 = (if (case insn_id insn of None \<Rightarrow> False | Some i \<Rightarrow> is_trap_return i)
                       then p\<lparr>p_mret_in_flight := True\<rparr> else p)
             in (Inr (Some \<lparr>idex_pc = ifid_pc r, idex_insn = insn, idex_mnemonic = insn_mnemonic insn,
                   idex_rs1 = insn_rs1 insn, idex_rs2 = insn_rs2 insn,
                   idex_rs1_val = read_x regs (insn_rs1 insn), idex_rs2_val = read_x regs (insn_rs2 insn),
                   idex_frs1 = insn_frs1 insn, idex_frs2 = insn_frs2 insn,
                   idex_frs1_val = read_f_bits regs (insn_frs1 insn), idex_frs2_val = read_f_bits regs (insn_frs2 insn),
                   idex_rd = insn_rd insn, idex_is_fp_dest = is_fp_dest, idex_is_load = is_load,
                   idex_is_fp_load = (is_load \<and> is_fp_dest),
                   idex_predicted_taken = ifid_predicted_taken r, idex_predicted_target = ifid_predicted_target r\<rparr>),
                 p1))))"

text \<open>The operands of the execute stage: the register file with the forwarded values in front.\<close>

definition ex_operands :: "registers \<Rightarrow> id_ex_reg \<Rightarrow> forwarded_values \<Rightarrow> execute_operands" where
  "ex_operands regs id_ex fwd =
     \<lparr>op_registers = regs, op_rs1 = (idex_rs1 id_ex, fv_rs1 fwd), op_rs2 = (idex_rs2 id_ex, fv_rs2 fwd),
      op_frs1 = (idex_frs1 id_ex, fv_frs1 fwd), op_frs2 = (idex_frs2 id_ex, fv_frs2 fwd)\<rparr>"

definition stage_ex ::
  "float_host \<Rightarrow> id_ex_reg option \<Rightarrow> ex_mem_reg option \<Rightarrow> mem_wb_reg option \<Rightarrow>
   (pipeline, ex_mem_reg option \<times> bool \<times> u64) action" where
  "stage_ex h id_ex old_ex_mem old_mem_wb p = (case id_ex of
     None \<Rightarrow> (Inr (None, False, 0), p)
   | Some e \<Rightarrow>
       (case execute h (idex_insn e) (ex_operands (p_registers p) e (compute_forwarding old_ex_mem old_mem_wb e))
               (p_csrs p) (idex_pc e) of
          Inl err \<Rightarrow> (Inr (None, False, 0), pl_flush_and_trap err (idex_pc e) p)
        | Inr exec_result \<Rightarrow>
            (let (actual_next_pc, actual_taken, is_branch) = resolve_control_flow exec_result (idex_pc e);
                 (rd, is_fp_dest, fwd_val) = ex_forwarding_info exec_result e;
                 p1 = (if is_branch
                       then (with_stats (\<lambda>s. s\<lparr>ps_branches_seen := ps_branches_seen s + 1\<rparr>) p)\<lparr>p_predictor :=
                              predictor_update (idex_pc e) actual_taken actual_next_pc (idex_predicted_taken e)
                                (p_predictor p)\<rparr>
                       else p);
                 mispredict = (is_branch \<and> (actual_taken \<noteq> idex_predicted_taken e
                                 \<or> (actual_taken \<and> actual_next_pc \<noteq> idex_predicted_target e)));
                 p2 = (if mispredict
                       then with_stats (\<lambda>s. s\<lparr>ps_branches_mispredicted := ps_branches_mispredicted s + 1\<rparr>) p1
                       else p1)
             in (Inr (Some \<lparr>exmem_pc = idex_pc e, exmem_mnemonic = idex_mnemonic e,
                            exmem_exec_result = exec_result, exmem_rd = rd, exmem_is_fp_dest = is_fp_dest,
                            exmem_fwd_val = fwd_val,
                            exmem_is_load = (idex_is_load e \<or> insn_is_atomic (idex_insn e)),
                            exmem_actual_next_pc = actual_next_pc, exmem_actual_taken = actual_taken,
                            exmem_predicted_taken = idex_predicted_taken e,
                            exmem_predicted_target = idex_predicted_target e\<rparr>, mispredict, actual_next_pc),
                 p2))))"

definition stage_mem :: "ex_mem_reg option \<Rightarrow> (pipeline \<times> system_bus, mem_wb_reg option) action" where
  "stage_mem ex_mem s = (case s of (p, b) \<Rightarrow> (case ex_mem of
     None \<Rightarrow> (Inr None, s)
   | Some em \<Rightarrow>
       (let st = p_architectural p
        in case memory_stage_with_pmp bus_ops (fc_translation_context st) (exmem_exec_result em)
                  (reservation st, p_tlb p, b) of
             (r, (rv, t', b')) \<Rightarrow>
               (let p1 = p\<lparr>p_architectural := st\<lparr>reservation := rv\<rparr>, p_tlb := t'\<rparr>
                in case r of
                     Inl e \<Rightarrow> (Inr None, (pl_flush_and_trap e (exmem_pc em) p1, b'))
                   | Inr mem_result \<Rightarrow>
                       (case mem_forwarding_info mem_result em of (fwd_rd, is_fp_dest, fwd_val) \<Rightarrow>
                          (Inr (Some \<lparr>memwb_pc = exmem_pc em, memwb_mnemonic = exmem_mnemonic em, memwb_rd = fwd_rd,
                                     memwb_is_fp_dest = is_fp_dest, memwb_fwd_val = fwd_val,
                                     memwb_mem_result = mem_result\<rparr>), (p1, b')))))))"

definition stage_wb :: "mem_wb_reg option \<Rightarrow> (pipeline, tick_outcome) action" where
  "stage_wb mem_wb p0 = (case mem_wb of
     None \<Rightarrow> (Inr Tick_Continue, p0)
   | Some mw \<Rightarrow>
       (let p1 = (if memwb_mem_result mw = M_SfenceVma
                  then p0\<lparr>p_predictor := predictor_clear (p_predictor p0), p_tlb := tlb_flush (p_tlb p0)\<rparr> else p0)
        in case writeback (memwb_mem_result mw) (p_registers p1, p_csrs p1) of
             (r, (regs', csrs')) \<Rightarrow>
               (let p2 = p1\<lparr>p_architectural := (p_architectural p1)\<lparr>arch_registers := regs', arch_csrs := csrs'\<rparr>\<rparr>;
                    pc = arch_pc (p_architectural p2)
                in case r of
                     Inr next_pc \<Rightarrow>
                       (Inr Tick_Continue,
                        pl_count_retired (p2\<lparr>p_architectural := set_pc next_pc (p_architectural p2)\<rparr>))
                   | Inl e \<Rightarrow>
                       (if e = vm_error.Ecall then pl_handle_ecall p2
                        else if e = vm_error.Ebreak
                        then (Inr Tick_Continue, pl_take_trap CAUSE_EBREAK 0 pc (pl_flush_pipeline p2))
                        else if e = vm_error.Mret then (Inr Tick_EcallSquash, pl_handle_mret p2)
                        else if e = vm_error.Sret then (Inr Tick_EcallSquash, pl_handle_sret p2)
                        else (Inr Tick_Continue, pl_flush_and_trap e pc p2)))))"

subsection \<open>One clock cycle\<close>

definition if_id_entry :: "if_id_reg option \<Rightarrow> stage_entry" where
  "if_id_entry r = map_option (\<lambda>r. (ifid_pc r,
     case decode (ifid_raw r) of Inr i \<Rightarrow> insn_mnemonic i | Inl _ \<Rightarrow> ''???'')) r"

definition id_ex_entry :: "id_ex_reg option \<Rightarrow> stage_entry" where
  "id_ex_entry r = map_option (\<lambda>r. (idex_pc r, idex_mnemonic r)) r"

definition ex_mem_entry :: "ex_mem_reg option \<Rightarrow> stage_entry" where
  "ex_mem_entry r = map_option (\<lambda>r. (exmem_pc r, exmem_mnemonic r)) r"

definition mem_wb_entry :: "mem_wb_reg option \<Rightarrow> stage_entry" where
  "mem_wb_entry r = map_option (\<lambda>r. (memwb_pc r, memwb_mnemonic r)) r"

text \<open>The pipeline registers taken out at the start of a cycle, and the feed entries of their stages
  behind an entry for fetch.\<close>

record taken_regs =
  old_if_id :: "if_id_reg option"
  old_id_ex :: "id_ex_reg option"
  old_ex_mem :: "ex_mem_reg option"
  old_mem_wb :: "mem_wb_reg option"

definition cycle_feed :: "stage_entry \<Rightarrow> taken_regs \<Rightarrow> bool \<Rightarrow> bool \<Rightarrow> pipeline \<Rightarrow> pipeline" where
  "cycle_feed fetch_entry old is_stalled is_flushed p =
     p\<lparr>p_last_cycle := \<lparr>feed_stages = [fetch_entry, if_id_entry (old_if_id old), id_ex_entry (old_id_ex old),
         ex_mem_entry (old_ex_mem old), mem_wb_entry (old_mem_wb old)],
       feed_stalled = is_stalled, feed_flushed = is_flushed\<rparr>\<rparr>"

definition sat_sub :: "'a::len word \<Rightarrow> 'a word \<Rightarrow> 'a word" where
  "sat_sub x y = (if y \<le> x then x - y else 0)"

text \<open>A cycle spent waiting for the memory.\<close>

definition tick_memory_wait :: "taken_regs \<Rightarrow> pipeline \<Rightarrow> pipeline" where
  "tick_memory_wait old p =
     (let wait = p_memory_wait_cycles p - 1;
          p1 = p\<lparr>p_memory_wait_cycles := wait, p_if_id := old_if_id old, p_id_ex := old_id_ex old,
                 p_ex_mem := old_ex_mem old\<rparr>;
          p2 = (if wait = 0 then p1\<lparr>p_mem_wb := p_pending_mem_wb p1, p_pending_mem_wb := None\<rparr> else p1)
      in cycle_feed (if_id_entry (old_if_id old)) old True False
           (with_stats (\<lambda>s. s\<lparr>ps_stall_cycles := ps_stall_cycles s + 1,
              ps_memory_stall_cycles := ps_memory_stall_cycles s + 1\<rparr>) p2))"

text \<open>The cycle in which a memory access turns out to be slow: its result is held back and the
  operands of the blocked instruction are read again.\<close>

definition refresh_operands :: "registers \<Rightarrow> id_ex_reg \<Rightarrow> id_ex_reg" where
  "refresh_operands regs e =
     e\<lparr>idex_rs1_val := read_x regs (idex_rs1 e), idex_rs2_val := read_x regs (idex_rs2 e),
       idex_frs1_val := read_f_bits regs (idex_frs1 e), idex_frs2_val := read_f_bits regs (idex_frs2 e)\<rparr>"

definition tick_memory_stall :: "taken_regs \<Rightarrow> mem_wb_reg option \<Rightarrow> u32 \<Rightarrow> pipeline \<Rightarrow> pipeline" where
  "tick_memory_stall old new_mem_wb penalty p =
     cycle_feed (if_id_entry (old_if_id old)) old True False
       (p\<lparr>p_pending_mem_wb := new_mem_wb, p_memory_wait_cycles := penalty, p_if_id := old_if_id old,
          p_id_ex := map_option (refresh_operands (p_registers p)) (old_id_ex old)\<rparr>)"

text \<open>Execute, decode and fetch. Decode is skipped on a mispredicted branch or a load-use hazard; fetch
  repeats the held instruction on a hazard or while a trap return is in flight.\<close>

definition hazard_stall :: "taken_regs \<Rightarrow> bool" where
  "hazard_stall old = (case (old_id_ex old, old_if_id old) of
     (Some id_ex, Some if_id) \<Rightarrow> load_use_hazard id_ex (ifid_rs1 if_id) (ifid_rs2 if_id)
   | _ \<Rightarrow> False)"

definition decode_slot :: "taken_regs \<Rightarrow> bool \<Rightarrow> (pipeline, id_ex_reg option) action" where
  "decode_slot old is_flush p =
     (if is_flush \<or> hazard_stall old then (Inr None, p) else stage_id (old_if_id old) p)"

definition fetch_slot ::
  "taken_regs \<Rightarrow> bool \<Rightarrow> u64 \<Rightarrow> (pipeline \<times> system_bus, if_id_reg option) action" where
  "fetch_slot old is_flush redirect_pc s = (case s of (p, b) \<Rightarrow>
     (if hazard_stall old \<or> p_mret_in_flight p then (Inr (old_if_id old), s)
      else if is_flush then (Inr None, (p\<lparr>p_fetch_pc := redirect_pc\<rparr>, b))
      else stage_if s))"

definition install ::
  "taken_regs \<Rightarrow> bool \<Rightarrow> mem_wb_reg option \<Rightarrow> ex_mem_reg option \<Rightarrow> id_ex_reg option \<Rightarrow> if_id_reg option \<Rightarrow>
   pipeline \<Rightarrow> pipeline" where
  "install old is_flush new_mem_wb new_ex_mem new_id_ex new_if_id p =
     (let stall = hazard_stall old;
          p1 = p\<lparr>p_mem_wb := new_mem_wb, p_ex_mem := new_ex_mem, p_id_ex := new_id_ex, p_if_id := new_if_id\<rparr>;
          p2 = (if stall then with_stats (\<lambda>s. s\<lparr>ps_stall_cycles := ps_stall_cycles s + 1\<rparr>) p1 else p1);
          p3 = (if is_flush then with_stats (\<lambda>s. s\<lparr>ps_flush_cycles := ps_flush_cycles s + 2\<rparr>) p2 else p2);
          entry = (if stall then if_id_entry (old_if_id old) else if is_flush then None
                   else if_id_entry (p_if_id p3))
      in cycle_feed entry old stall is_flush p3)"

definition tick_front ::
  "float_host \<Rightarrow> taken_regs \<Rightarrow> mem_wb_reg option \<Rightarrow> (pipeline \<times> system_bus, tick_outcome) action" where
  "tick_front h old new_mem_wb s = (case s of (p, b) \<Rightarrow>
     (case stage_ex h (old_id_ex old) (old_ex_mem old) (old_mem_wb old) p of
        (Inl e, p1) \<Rightarrow> (Inl e, (p1, b))
      | (Inr (new_ex_mem, is_flush, redirect_pc), p1) \<Rightarrow>
          (case decode_slot old is_flush p1 of
             (Inl e, p2) \<Rightarrow> (Inl e, (p2, b))
           | (Inr new_id_ex, p2) \<Rightarrow>
               (case fetch_slot old is_flush redirect_pc (p2, b) of
                  (Inl e, s3) \<Rightarrow> (Inl e, s3)
                | (Inr new_if_id, (p3, b3)) \<Rightarrow>
                    (Inr Tick_Continue, (install old is_flush new_mem_wb new_ex_mem new_id_ex new_if_id p3, b3))))))"

text \<open>What follows write-back: a wait cycle, an interrupt, or the memory stage and the front end.\<close>

definition tick_after_wb :: "float_host \<Rightarrow> taken_regs \<Rightarrow> (pipeline \<times> system_bus, tick_outcome) action" where
  "tick_after_wb h old s = (case s of (p, b) \<Rightarrow>
     (if p_memory_wait_cycles p > 0 then (Inr Tick_Continue, (tick_memory_wait old p, b))
      else case pending_interrupt (p_architectural p) of
        Some (irq_cause, irq_tval, irq_pc) \<Rightarrow>
          (Inr Tick_Continue, (cycle_feed None old False True (pl_take_trap irq_cause irq_tval irq_pc p), b))
      | None \<Rightarrow>
          (case stage_mem (old_ex_mem old) (p, begin_timed_access b) of
             (Inl e, s1) \<Rightarrow> (Inl e, s1)
           | (Inr new_mem_wb, (p1, b1)) \<Rightarrow>
               (let penalty = sat_sub (timed_access_cycles b1) 1
                in if new_mem_wb \<noteq> None \<and> penalty > 0
                   then (Inr Tick_Continue, (tick_memory_stall old new_mem_wb penalty p1, b1))
                   else tick_front h old new_mem_wb (p1, b1)))))"

definition taken_of :: "pipeline \<Rightarrow> taken_regs" where
  "taken_of p = \<lparr>old_if_id = p_if_id p, old_id_ex = p_id_ex p, old_ex_mem = p_ex_mem p, old_mem_wb = p_mem_wb p\<rparr>"

definition tick :: "float_host \<Rightarrow> (pipeline \<times> system_bus, tick_outcome) action" where
  "tick h s = (case s of (p0, b0) \<Rightarrow>
     (let p1 = with_csrs increment_cycle (with_stats (\<lambda>s. s\<lparr>ps_cycles := ps_cycles s + 1\<rparr>) p0);
          (st, b1) = sample_inputs (p_architectural p1) b0;
          old = taken_of p1;
          p2 = p1\<lparr>p_architectural := st, p_mem_wb := None, p_ex_mem := None, p_id_ex := None, p_if_id := None\<rparr>
      in case stage_wb (old_mem_wb old) p2 of
           (Inl e, p3) \<Rightarrow> (Inl e, (p3, b1))
         | (Inr outcome, p3) \<Rightarrow>
             (case outcome of
                Tick_Halted code \<Rightarrow> (Inr (Tick_Halted code), (p3, b1))
              | Tick_EcallSquash \<Rightarrow> (Inr Tick_Continue, (pl_flush_pipeline p3, b1))
              | Tick_Continue \<Rightarrow> tick_after_wb h old (p3, b1))))"

end
