(* ===== verification/Forwarding.thy ===== *)
theory Forwarding
  imports Pipeline_Correct
begin

text \<open>
  The operands of the execute stage. An invariant of the pipeline registers says that the operands
  captured by decode are the current register values, that each later register describes the value
  its instruction will write, and that no instruction sits right behind a load whose result it
  needs. It holds after reset and after every tick; with it, the forwarded operands are those of
  sequential execution.
\<close>

subsection \<open>What an instruction in flight will write\<close>

text \<open>The integer register a result goes to, 0 for none, and its value if known at that point.\<close>

definition exec_target :: "exec_result \<Rightarrow> nat" where
  "exec_target r = (case r of R_WriteInt rd _ _ \<Rightarrow> rd | R_WriteIntFlags rd _ _ _ \<Rightarrow> rd | R_Load rd _ _ _ \<Rightarrow> rd
     | R_Atomic _ _ _ _ rd _ _ _ \<Rightarrow> rd | R_Csr _ rd _ _ _ _ _ \<Rightarrow> rd | _ \<Rightarrow> 0)"

definition exec_value :: "exec_result \<Rightarrow> u64" where
  "exec_value r = (case r of R_WriteInt _ v _ \<Rightarrow> v | R_WriteIntFlags _ v _ _ \<Rightarrow> v | R_Csr _ _ _ _ _ old _ \<Rightarrow> old | _ \<Rightarrow> 0)"

definition mem_target :: "mem_result \<Rightarrow> nat" where
  "mem_target r = (case r of M_WriteInt rd _ _ \<Rightarrow> rd | M_WriteIntFlags rd _ _ _ \<Rightarrow> rd | M_Csr _ rd _ _ _ _ _ \<Rightarrow> rd | _ \<Rightarrow> 0)"

definition mem_value :: "mem_result \<Rightarrow> u64" where
  "mem_value r = (case r of M_WriteInt _ v _ \<Rightarrow> v | M_WriteIntFlags _ v _ _ \<Rightarrow> v | M_Csr _ _ _ _ _ old _ \<Rightarrow> old | _ \<Rightarrow> 0)"

text \<open>The floating-point register a result goes to, and its value if known at that point.\<close>

definition exec_ftarget :: "exec_result \<Rightarrow> nat option" where
  "exec_ftarget r = (case r of R_WriteFp rd _ _ \<Rightarrow> Some rd | R_WriteFpFlags rd _ _ _ \<Rightarrow> Some rd
     | R_FLoad rd _ _ _ \<Rightarrow> Some rd | _ \<Rightarrow> None)"

definition exec_fvalue :: "exec_result \<Rightarrow> u64" where
  "exec_fvalue r = (case r of R_WriteFp _ v _ \<Rightarrow> v | R_WriteFpFlags _ v _ _ \<Rightarrow> v | _ \<Rightarrow> 0)"

definition mem_ftarget :: "mem_result \<Rightarrow> nat option" where
  "mem_ftarget r = (case r of M_WriteFp rd _ _ \<Rightarrow> Some rd | M_WriteFpFlags rd _ _ _ \<Rightarrow> Some rd | _ \<Rightarrow> None)"

definition mem_fvalue :: "mem_result \<Rightarrow> u64" where
  "mem_fvalue r = (case r of M_WriteFp _ v _ \<Rightarrow> v | M_WriteFpFlags _ v _ _ \<Rightarrow> v | _ \<Rightarrow> 0)"

definition reads_memory :: "exec_result \<Rightarrow> bool" where
  "reads_memory r = (case r of R_Load _ _ _ _ \<Rightarrow> True | R_FLoad _ _ _ _ \<Rightarrow> True | R_Atomic _ _ _ _ _ _ _ _ \<Rightarrow> True | _ \<Rightarrow> False)"

text \<open>A CSR result is settled when the CSR still has the value read in the execute stage.\<close>

definition settled :: "mem_result \<Rightarrow> csr_file \<Rightarrow> bool" where
  "settled r c = (case r of M_Csr _ _ _ a _ old _ \<Rightarrow> csr_read c a = Inr old | _ \<Rightarrow> True)"

subsection \<open>The invariant\<close>

text \<open>Decode has latched the current values of the registers the hazard unit looks up, integer and
  floating point, and what it knows of the destination.\<close>

definition id_ok :: "registers \<Rightarrow> id_ex_reg \<Rightarrow> bool" where
  "id_ok r e \<longleftrightarrow> (\<exists>w. decode w = Inr (idex_insn e)) \<and> idex_rs1 e = insn_rs1 (idex_insn e) \<and> idex_rs2 e = insn_rs2 (idex_insn e)
     \<and> idex_rs1_val e = read_x r (idex_rs1 e) \<and> idex_rs2_val e = read_x r (idex_rs2 e)
     \<and> idex_frs1 e = insn_frs1 (idex_insn e) \<and> idex_frs2 e = insn_frs2 (idex_insn e)
     \<and> idex_frs1_val e = read_f_bits r (idex_frs1 e) \<and> idex_frs2_val e = read_f_bits r (idex_frs2 e)
     \<and> idex_rd e = insn_rd (idex_insn e) \<and> idex_is_fp_dest e = insn_is_fp_dest (idex_insn e)
     \<and> idex_is_load e = insn_is_load (idex_insn e)
     \<and> idex_is_fp_load e = (insn_is_load (idex_insn e) \<and> insn_is_fp_dest (idex_insn e))"

text \<open>The registers behind execute and memory name the register file and the register their instruction
  will write, and carry the value unless it comes from memory.\<close>

definition ex_ok :: "ex_mem_reg \<Rightarrow> bool" where
  "ex_ok m \<longleftrightarrow>
     (case exec_ftarget (exmem_exec_result m) of
        Some rd \<Rightarrow> exmem_is_fp_dest m \<and> exmem_rd m = rd
          \<and> (reads_memory (exmem_exec_result m) \<or> exmem_fwd_val m = exec_fvalue (exmem_exec_result m))
      | None \<Rightarrow> \<not> exmem_is_fp_dest m \<and> exmem_rd m = exec_target (exmem_exec_result m)
          \<and> (reads_memory (exmem_exec_result m) \<or> exmem_fwd_val m = exec_value (exmem_exec_result m)))
     \<and> exec_target (exmem_exec_result m) < 32 \<and> exmem_is_load m = reads_memory (exmem_exec_result m)"

definition mem_ok :: "mem_wb_reg \<Rightarrow> bool" where
  "mem_ok m \<longleftrightarrow>
     (case mem_ftarget (memwb_mem_result m) of
        Some rd \<Rightarrow> memwb_is_fp_dest m \<and> memwb_rd m = rd \<and> memwb_fwd_val m = mem_fvalue (memwb_mem_result m)
      | None \<Rightarrow> \<not> memwb_is_fp_dest m \<and> memwb_rd m = mem_target (memwb_mem_result m)
          \<and> (mem_target (memwb_mem_result m) = 0 \<or> memwb_fwd_val m = mem_value (memwb_mem_result m)))
     \<and> mem_target (memwb_mem_result m) < 32"

lemma ex_ok_integer:
  assumes "ex_ok m"
  shows "if exmem_is_fp_dest m then exec_target (exmem_exec_result m) = 0
       else exmem_rd m = exec_target (exmem_exec_result m)
         \<and> (reads_memory (exmem_exec_result m) \<or> exmem_fwd_val m = exec_value (exmem_exec_result m))"
    and "exec_target (exmem_exec_result m) < 32" "exmem_is_load m = reads_memory (exmem_exec_result m)"
  using assms
  by (cases "exmem_exec_result m"; simp add: ex_ok_def exec_ftarget_def exec_target_def)+

lemma mem_ok_integer:
  assumes "mem_ok m"
  shows "if memwb_is_fp_dest m then mem_target (memwb_mem_result m) = 0
       else memwb_rd m = mem_target (memwb_mem_result m) \<and>
         (mem_target (memwb_mem_result m) = 0 \<or> memwb_fwd_val m = mem_value (memwb_mem_result m))"
    and "mem_target (memwb_mem_result m) < 32"
  using assms
  by (cases "memwb_mem_result m"; simp add: mem_ok_def mem_ftarget_def mem_target_def)+

definition if_ok :: "if_id_reg \<Rightarrow> bool" where
  "if_ok f \<longleftrightarrow> ifid_rs1 f = fld 15 (ifid_raw f) \<and> ifid_rs2 f = fld 20 (ifid_raw f)"

text \<open>The floating-point registers an instruction may read, but for the third source of the fused
  multiply-adds, which the hazard unit does not know.\<close>

definition fp_reads :: "decoded_insn \<Rightarrow> nat list" where
  "fp_reads insn = (case insn of D_FStore _ _ rs2 _ \<Rightarrow> [rs2] | D_FOp _ _ _ _ rs1 rs2 \<Rightarrow> [rs1, rs2]
     | D_FMac _ _ _ _ rs1 rs2 _ \<Rightarrow> [rs1, rs2] | _ \<Rightarrow> [])"

definition not_waiting :: "ex_mem_reg \<Rightarrow> id_ex_reg \<Rightarrow> bool" where
  "not_waiting m e \<longleftrightarrow> (\<forall>rd a k n. exmem_exec_result m = R_Load rd a k n \<longrightarrow> rd \<noteq> 0 \<longrightarrow> rd \<noteq> idex_rs1 e \<and> rd \<noteq> idex_rs2 e)
     \<and> (\<forall>rd a k n. exmem_exec_result m = R_FLoad rd a k n \<longrightarrow> rd \<notin> set (fp_reads (idex_insn e)))"

definition pipe_ok :: "pipeline \<Rightarrow> bool" where
  "pipe_ok p \<longleftrightarrow> regs_wf (p_registers p)
     \<and> pred_option (id_ok (p_registers p)) (p_id_ex p) \<and> pred_option ex_ok (p_ex_mem p)
     \<and> pred_option mem_ok (p_mem_wb p) \<and> pred_option mem_ok (p_pending_mem_wb p) \<and> pred_option if_ok (p_if_id p)
     \<and> pred_option (\<lambda>m. pred_option (not_waiting m) (p_id_ex p)) (p_ex_mem p)
     \<and> (p_memory_wait_cycles p > 0 \<longrightarrow> p_mem_wb p = None \<and> p_ex_mem p = None)"

subsection \<open>Forwarding from the invariant\<close>

lemma read_after_target:
  assumes "writeback mr (r, c) = (Inr pc, (r', c'))" "settled mr c" "regs_wf r" "mem_target mr < 32"
  shows "read_x r' n = (if n \<noteq> 0 \<and> n = mem_target mr then mem_value mr else read_x r n)" "regs_wf r'"
  using assms
  by (cases mr; auto simp: writeback_def settled_def mem_target_def mem_value_def read_x_write_x
      split: sum.splits option.splits prod.splits if_splits)+

lemma memory_stage_target:
  assumes "memory_stage_with_trace ops ctx er s = (Inr (mr, w), s')"
  shows "mem_target mr = exec_target er" "\<not> reads_memory er \<Longrightarrow> mem_value mr = exec_value er"
  using assms
  by (cases er; auto simp: memory_stage_with_trace_def sreturn_def sbind_eq_Inr mem_target_def exec_target_def
      mem_value_def exec_value_def reads_memory_def)+

lemma forward_from_reads:
  "fv_rs1 (forward_from rd fp v e x) = (if \<not> fp \<and> rd \<noteq> 0 \<and> rd = idex_rs1 e then v else fv_rs1 x)"
  "fv_rs2 (forward_from rd fp v e x) = (if \<not> fp \<and> rd \<noteq> 0 \<and> rd = idex_rs2 e then v else fv_rs2 x)"
  by (simp_all add: forward_from_def)

text \<open>The two older instructions run to completion: write-back of a result, and the memory stage of an
  instruction that is not an atomic.\<close>

fun completes :: "mem_result option \<Rightarrow> registers \<times> csr_file \<Rightarrow> registers \<times> csr_file \<Rightarrow> bool" where
  "completes None s s' = (s' = s)"
| "completes (Some mr) s s' = (settled mr (snd s) \<and> (\<exists>pc. writeback mr s = (Inr pc, s')))"

definition is_atomic_result :: "exec_result \<Rightarrow> bool" where
  "is_atomic_result r = (case r of R_Atomic _ _ _ _ _ _ _ _ \<Rightarrow> True | _ \<Rightarrow> False)"

fun memory_result :: "ex_mem_reg option \<Rightarrow> mem_result option \<Rightarrow> bool" where
  "memory_result None x = (x = None)"
| "memory_result (Some m) x = (\<not> is_atomic_result (exmem_exec_result m) \<and>
     (\<exists>ctx s mr w s'. x = Some mr \<and> memory_stage_with_trace bus_ops ctx (exmem_exec_result m) s = (Inr (mr, w), s')))"

definition read_through :: "ex_mem_reg option \<Rightarrow> mem_wb_reg option \<Rightarrow> id_ex_reg \<Rightarrow> nat \<Rightarrow> u64 \<Rightarrow> u64" where
  "read_through em mw e n v0 =
     (let v1 = (case mw of Some m \<Rightarrow> if \<not> memwb_is_fp_dest m \<and> memwb_rd m \<noteq> 0 \<and> memwb_rd m = n then memwb_fwd_val m else v0
               | None \<Rightarrow> v0)
      in case em of
           Some m \<Rightarrow> if \<not> exmem_is_load m \<and> \<not> exmem_is_fp_dest m \<and> exmem_rd m \<noteq> 0 \<and> exmem_rd m = n then exmem_fwd_val m else v1
         | None \<Rightarrow> v1)"

lemma forwarding_reads:
  "fv_rs1 (compute_forwarding em mw e) = read_through em mw e (idex_rs1 e) (idex_rs1_val e)"
  "fv_rs2 (compute_forwarding em mw e) = read_through em mw e (idex_rs2 e) (idex_rs2_val e)"
  by (cases mw; cases em; simp add: compute_forwarding_def read_through_def forward_from_reads Let_def)+

lemma read_through_write_back:
  assumes "regs_wf r" "pred_option mem_ok mw" "completes (map_option memwb_mem_result mw) (r, c) (r1, c1)"
  shows "read_through None mw e n (read_x r n) = read_x r1 n" "regs_wf r1"
proof -
  have "read_through None mw e n (read_x r n) = read_x r1 n \<and> regs_wf r1"
  proof (cases mw)
    case (Some m)
    with assms(2,3) obtain pc where w: "writeback (memwb_mem_result m) (r, c) = (Inr pc, (r1, c1))"
      and ok: "settled (memwb_mem_result m) c" "mem_ok m" by auto
    note mo = mem_ok_integer [OF ok(2)]
    note t = read_after_target [OF w ok(1) assms(1) mo(2)]
    with Some mo(1) show ?thesis by (auto simp: read_through_def split: if_splits)
  qed (use assms in \<open>simp add: read_through_def\<close>)
  then show "read_through None mw e n (read_x r n) = read_x r1 n" "regs_wf r1" by simp_all
qed

lemma read_through_memory:
  assumes "regs_wf r1" "pred_option ex_ok em" "memory_result em mr" "completes mr (r1, c1) (r2, c2)"
    and "\<And>m rd a k nx. em = Some m \<Longrightarrow> exmem_exec_result m = R_Load rd a k nx \<Longrightarrow> rd \<noteq> 0 \<Longrightarrow> rd \<noteq> n"
    and "read_through None mw e n v = read_x r1 n"
  shows "read_through em mw e n v = read_x r2 n"
proof (cases em)
  case None
  with assms show ?thesis by simp
next
  case (Some m)
  let ?er = "exmem_exec_result m"
  from assms(3) Some obtain x ctx s w s' where x: "mr = Some x" "\<not> is_atomic_result ?er"
    and st: "memory_stage_with_trace bus_ops ctx ?er s = (Inr (x, w), s')" by auto
  note t = memory_stage_target [OF st]
  from assms(4) x have c: "settled x c1" "\<exists>pc. writeback x (r1, c1) = (Inr pc, (r2, c2))" by auto
  have ok: "ex_ok m" using assms(2) Some by simp
  note eo = ex_ok_integer [OF ok]
  from eo(2) have lt: "mem_target x < 32" by (simp add: t)
  from c(2) read_after_target(1) [OF _ c(1) assms(1) lt]
  have r2: "read_x r2 n = (if n \<noteq> 0 \<and> n = exec_target ?er then mem_value x else read_x r1 n)" by (auto simp: t)
  show ?thesis
  proof (cases "reads_memory ?er")
    case True
    then have "exec_target ?er = 0 \<or> exec_target ?er \<noteq> n"
      using x(2) assms(5) [OF Some] by (cases ?er) (auto simp: reads_memory_def exec_target_def is_atomic_result_def)
    with True eo(3) r2 assms(6) Some show ?thesis by (auto simp: read_through_def)
  next
    case False
    with eo r2 assms(6) Some t(2) show ?thesis by (auto simp: read_through_def split: if_splits)
  qed
qed

lemma forwarded_operands:
  assumes "regs_wf r" "id_ok r e" "pred_option mem_ok mw" "pred_option ex_ok em" "pred_option (\<lambda>m. not_waiting m e) em"
    and c1: "completes (map_option memwb_mem_result mw) (r, c) (r1, c1)"
    and "memory_result em mr" and "completes mr (r1, c1') (r2, c2)"
  shows "fv_rs1 (compute_forwarding em mw e) = read_x r2 (idex_rs1 e)"
    "fv_rs2 (compute_forwarding em mw e) = read_x r2 (idex_rs2 e)"
proof -
  have v: "idex_rs1_val e = read_x r (idex_rs1 e)" "idex_rs2_val e = read_x r (idex_rs2 e)"
    using assms(2) by (simp_all add: id_ok_def)
  note w = read_through_write_back [OF assms(1,3) c1]
  have nw: "rd \<noteq> idex_rs1 e \<and> rd \<noteq> idex_rs2 e"
    if "em = Some m" "exmem_exec_result m = R_Load rd a k nx" "rd \<noteq> 0" for m rd a k nx
    using assms(5) that by (auto simp: not_waiting_def)
  show "fv_rs1 (compute_forwarding em mw e) = read_x r2 (idex_rs1 e)"
    "fv_rs2 (compute_forwarding em mw e) = read_x r2 (idex_rs2 e)"
    unfolding forwarding_reads v
    by (rule read_through_memory [OF w(2) assms(4,7,8) _ w(1)], use nw in blast)+
qed

subsection \<open>Execution on forwarded operands\<close>

definition integer_insn :: "decoded_insn \<Rightarrow> bool" where
  "integer_insn insn = (case insn of D_Csr _ _ _ _ \<Rightarrow> False | D_FLoad _ _ _ _ \<Rightarrow> False | D_FStore _ _ _ _ \<Rightarrow> False
     | D_FOp _ _ _ _ _ _ \<Rightarrow> False | D_FMac _ _ _ _ _ _ _ \<Rightarrow> False | _ \<Rightarrow> True)"

lemma execute_reads:
  assumes "integer_insn insn" "\<And>n. n \<in> set (int_reads insn) \<Longrightarrow> op_read_x ops n = op_read_x ops' n"
  shows "execute h insn ops c pc = execute h insn ops' c pc"
  using assms
  by (cases insn) (simp_all add: integer_insn_def int_reads_def execute_def exec_alu_imm_def exec_alu_imm32_def
      exec_alu_def exec_alu32_def Let_def split: option.split)

lemma functional_reads: "op_read_x (functional_operands r insn) n = read_x r n"
  by (simp add: op_read_x_def functional_operands_def)

lemma execute_forwarded:
  assumes "regs_wf r" "id_ok r e" "pred_option mem_ok mw" "pred_option ex_ok em" "pred_option (\<lambda>m. not_waiting m e) em"
    and "completes (map_option memwb_mem_result mw) (r, c) (r1, c1)"
    and "memory_result em mr" and "completes mr (r1, c1') (r2, c2)" and int: "integer_insn (idex_insn e)"
  shows "execute h (idex_insn e) (ex_operands r1 e (compute_forwarding em mw e)) csrs pc =
    execute h (idex_insn e) (functional_operands r2 (idex_insn e)) csrs pc"
proof (rule execute_reads [OF int])
  note f = forwarded_operands [OF assms(1-8)]
  fix n
  assume "n \<in> set (int_reads (idex_insn e))"
  with assms(2) have "n = 0 \<or> n = idex_rs1 e \<or> n = idex_rs2 e"
    using reads_declared by (auto simp: id_ok_def)
  then show "op_read_x (ex_operands r1 e (compute_forwarding em mw e)) n = op_read_x (functional_operands r2 (idex_insn e)) n"
    unfolding functional_reads by (auto simp: op_read_x_def ex_operands_def f)
qed

end
