(* ===== verification/Pipeline_Invariant.thy ===== *)
theory Pipeline_Invariant
  imports Forwarding
begin

text \<open>
  The invariant \<open>pipe_ok\<close> holds in every state of the pipeline: it is established by reset and kept
  by every stage, with traps, stalls and flushes.
\<close>

subsection \<open>Frames of the stages\<close>

definition same_regs :: "pipeline \<Rightarrow> pipeline \<Rightarrow> bool" where
  "same_regs p p' \<longleftrightarrow> x_regs (p_registers p') = x_regs (p_registers p) \<and> f_regs (p_registers p') = f_regs (p_registers p)"

definition cleared :: "pipeline \<Rightarrow> bool" where
  "cleared p \<longleftrightarrow> p_if_id p = None \<and> p_id_ex p = None \<and> p_ex_mem p = None \<and> p_mem_wb p = None"

text \<open>What the stages leave alone after write-back.\<close>

definition frame :: "pipeline \<Rightarrow> pipeline \<Rightarrow> bool" where
  "frame p p' \<longleftrightarrow> same_regs p p' \<and> (cleared p \<longrightarrow> cleared p')
     \<and> (p_memory_wait_cycles p' = p_memory_wait_cycles p \<and> p_pending_mem_wb p' = p_pending_mem_wb p
        \<or> p_memory_wait_cycles p' = 0 \<and> p_pending_mem_wb p' = None)"

lemma frame_refl [simp]: "frame p p"
  by (simp add: frame_def same_regs_def)

lemma frame_trans: "frame p q \<Longrightarrow> frame q r \<Longrightarrow> frame p r"
  by (auto simp: frame_def same_regs_def)

lemma frame_updates [simp]:
  "frame p (q\<lparr>p_tlb := t\<rparr>) = frame p q" "frame p (q\<lparr>p_fetch_pc := a\<rparr>) = frame p q"
  "frame p (q\<lparr>p_mret_in_flight := m\<rparr>) = frame p q" "frame p (q\<lparr>p_predictor := bp\<rparr>) = frame p q"
  "frame p (with_stats g q) = frame p q" "frame p (if c then q else q') = (if c then frame p q else frame p q')"
  by (simp_all add: frame_def same_regs_def cleared_def with_stats_def)

lemma same_regs_id_ok: "same_regs p p' \<Longrightarrow> id_ok (p_registers p') e = id_ok (p_registers p) e"
  by (simp add: id_ok_def read_x_def read_f_bits_def same_regs_def)

lemma same_regs_wf: "same_regs p p' \<Longrightarrow> regs_wf (p_registers p') = regs_wf (p_registers p)"
  by (simp add: regs_wf_def same_regs_def)

lemma trap_regs: "take_trap r c cause v pc = (n, r', c') \<Longrightarrow> x_regs r' = x_regs r \<and> f_regs r' = f_regs r"
  by (auto simp: take_trap_def Let_def split: if_splits)

lemma return_regs:
  "handle_mret r c = (n, r', c') \<Longrightarrow> x_regs r' = x_regs r \<and> f_regs r' = f_regs r"
  "handle_sret r c = (res, r', c') \<Longrightarrow> x_regs r' = x_regs r \<and> f_regs r' = f_regs r"
  by (auto simp: handle_mret_def handle_sret_def Let_def split: if_splits)

lemma take_trap_frame: "frame p (pl_take_trap cause v pc p)"
  by (auto simp: frame_def same_regs_def cleared_def pl_take_trap_def pl_redirect_def set_pc_def
      dest: trap_regs split: prod.split)

lemma flush_frame: "frame p (pl_flush_pipeline p)"
  by (simp add: frame_def same_regs_def cleared_def pl_flush_pipeline_def)

lemma flush_and_trap_frame: "frame p (pl_flush_and_trap e pc p)"
  using frame_trans [OF flush_frame take_trap_frame] flush_frame
  by (auto simp: pl_flush_and_trap_def split: option.split)

lemma count_retired_frame: "frame p q \<Longrightarrow> frame p (pl_count_retired q)"
  by (simp add: frame_def same_regs_def cleared_def pl_count_retired_def with_stats_def with_csrs_def)

lemma fld_unat: "unat (drop_bit k w AND 0x1F) = fld k w"
proof -
  have "drop_bit k w AND 0x1F \<le> (0x1F :: u32)" by (rule word_and_le1)
  then have "unat (drop_bit k w AND 0x1F) < 256" by (simp add: word_le_nat_alt)
  then show ?thesis by (simp add: reg_field_def unsigned_ucast_eq take_bit_eq_mod)
qed

lemma stage_if_frame:
  assumes "stage_if (p, b) = (Inr f, (p', b'))"
  shows "frame p p'" "pred_option if_ok f"
  using assms frame_trans [OF _ flush_and_trap_frame, of p "p\<lparr>p_tlb := t\<rparr>" for t]
  by (auto simp: stage_if_def if_ok_def fld_unat Let_def split: prod.splits sum.splits)

lemma fetch_slot_frame:
  assumes "fetch_slot old fl rd (p, b) = (Inr f, (p', b'))" "pred_option if_ok (old_if_id old)"
  shows "frame p p'" "pred_option if_ok f"
  using assms stage_if_frame by (auto simp: fetch_slot_def split: if_splits)

lemma decode_slot_frame:
  assumes "decode_slot old fl p = (Inr e, p')"
  shows "frame p p'" "pred_option (id_ok (p_registers p')) e"
    and "e = Some x \<Longrightarrow> \<not> hazard_stall old \<and> (\<exists>f. old_if_id old = Some f \<and> decode (ifid_raw f) = Inr (idex_insn x))"
  using assms flush_and_trap_frame
  by (auto simp: decode_slot_def stage_id_def id_ok_def Let_def split: if_splits option.splits sum.splits)

subsection \<open>The execute stage\<close>

lemma decoded_loads:
  assumes "decode w = Inr insn"
  shows "insn_is_load insn = (case insn of D_Load _ _ _ _ \<Rightarrow> True | D_FLoad _ _ _ _ \<Rightarrow> True | _ \<Rightarrow> False)"
    "insn_is_atomic insn = (case insn of D_Atomic _ _ _ _ _ _ _ \<Rightarrow> True | _ \<Rightarrow> False)"
proof -
  from decode_shape [OF assms] obtain i where i: "insn_id insn = Some i" and sh: "shape insn i w" .
  have rr: "\<not> id_is_load (Rr r)" "\<not> id_is_load (Atomic a)" "\<not> id_is_load (Upper u)"
    "\<not> id_is_atomic (Rr r)" "\<not> id_is_atomic (Base b)" "\<not> id_is_atomic (Fp f)" "\<not> id_is_atomic (Upper u)" for r a u b f
    by (simp_all add: id_is_load_def id_is_atomic_def)
  have at: "id_is_atomic (Atomic a)" for a by (cases a) (simp_all add: id_is_atomic_def)
  show "insn_is_load insn = (case insn of D_Load _ _ _ _ \<Rightarrow> True | D_FLoad _ _ _ _ \<Rightarrow> True | _ \<Rightarrow> False)"
    using i sh by (cases insn) (auto simp: insn_is_load_def shape_def rr, auto simp: id_is_load_def)
  show "insn_is_atomic insn = (case insn of D_Atomic _ _ _ _ _ _ _ \<Rightarrow> True | _ \<Rightarrow> False)"
    using i sh by (cases insn) (auto simp: insn_is_atomic_def shape_def rr at)
qed

text \<open>Which instructions write a floating-point register.\<close>

lemma fp_destinations:
  "ru_destination (id_register_use (Base b)) \<noteq> Some RF_FloatingPoint"
  "ru_destination (id_register_use (Rr r)) \<noteq> Some RF_FloatingPoint"
  "ru_destination (id_register_use (Atomic a)) \<noteq> Some RF_FloatingPoint"
  "ru_destination (id_register_use (Upper u)) \<noteq> Some RF_FloatingPoint"
  "f \<in> {Fsw, Fsd} \<Longrightarrow> ru_destination (id_register_use (Fp f)) \<noteq> Some RF_FloatingPoint"
  "f \<in> {Flw, Fld} \<Longrightarrow> ru_destination (id_register_use (Fp f)) = Some RF_FloatingPoint"
  by (cases b; simp add: id_register_use_def RegisterUse_NONE_def)
    (simp_all add: rr_use atomic_use RegisterUse_NONE_def, cases u, auto simp: id_register_use_def RegisterUse_NONE_def)

lemma decoded_fp_dest:
  assumes "decode w = Inr insn"
  shows "case insn of D_FOp _ _ _ _ _ _ \<Rightarrow> True | D_FMac _ _ _ _ _ _ _ \<Rightarrow> True
      | D_FLoad _ rd _ _ \<Rightarrow> insn_is_fp_dest insn \<and> insn_rd insn = rd
      | _ \<Rightarrow> \<not> insn_is_fp_dest insn"
proof -
  from decode_shape [OF assms] obtain i where i: "insn_id insn = Some i" and sh: "shape insn i w" .
  show ?thesis
    using i sh
    by (cases insn) (auto simp: insn_is_fp_dest_def insn_rd_def shape_def fp_destinations)
qed

lemma fld_less: "fld k w < 32"
  using reg_field_less [of k w] by (simp add: word_less_nat_alt)

text \<open>What forwarding may assume of a result: its destination, its value and whether it waits for memory.\<close>

definition result_of :: "decoded_insn \<Rightarrow> exec_result \<Rightarrow> bool" where
  "result_of insn r \<longleftrightarrow> exec_target r < 32 \<and> reads_memory r = (insn_is_load insn \<or> insn_is_atomic insn)
     \<and> (let none = (insn_rd insn = 0 \<and> \<not> insn_is_fp_dest insn)
        in case r of R_Load rd _ _ _ \<Rightarrow> insn_is_load insn \<and> insn_rd insn = rd
        | R_FLoad rd _ _ _ \<Rightarrow> insn_is_load insn \<and> insn_is_fp_dest insn \<and> insn_rd insn = rd
        | R_Store _ _ _ _ \<Rightarrow> none | R_FStore _ _ _ _ \<Rightarrow> none | R_Fence _ \<Rightarrow> none
        | R_FenceI _ \<Rightarrow> none | R_Ecall \<Rightarrow> none | R_Ebreak \<Rightarrow> none
        | R_Mret \<Rightarrow> none | R_Sret \<Rightarrow> none | R_SfenceVma \<Rightarrow> none
        | R_Wfi _ \<Rightarrow> none | _ \<Rightarrow> True)"

lemma result_of_writes:
  assumes "writes_only rd r" "rd < 32" "\<not> insn_is_load insn" "\<not> insn_is_atomic insn"
  shows "result_of insn r"
  using assms by (cases r) (auto simp: writes_only_def result_of_def exec_target_def reads_memory_def Let_def)

lemma execute_result_of:
  assumes "decode w = Inr insn" "execute h insn ops c pc = Inr r"
  shows "result_of insn r"
proof -
  note l = decoded_loads [OF assms(1)] and fd = decoded_fp_dest [OF assms(1)]
  from decode_shape [OF assms(1)] obtain i where i: "insn_id insn = Some i" and sh: "shape insn i w" .
  have arith: ?thesis if "writes_only rd r" "rd = fld 7 w" "\<not> insn_is_load insn" "\<not> insn_is_atomic insn" for rd
    using result_of_writes that fld_less by blast
  have csr: ?thesis if "insn = D_Csr f3 rd u a" for f3 rd u a
  proof -
    from that sh have "rd = fld 7 w" by (simp add: shape_def)
    moreover from that assms(2) have "exec_csr (insn_id insn) f3 rd u a ops c pc = Inr r" by (simp add: execute_def)
    then obtain operand old n where "r = R_Csr f3 rd u a operand old n"
      unfolding exec_csr_def Let_def by (elim if_eqE) (auto split: option.splits)
    ultimately show ?thesis using that l fld_less [of 7 w] by (simp add: result_of_def exec_target_def reads_memory_def Let_def)
  qed
  note d = result_of_def exec_target_def reads_memory_def execute_def Let_def shape_def insn_rd_def
  show ?thesis
  proof (cases insn)
    case (D_Load f3 rd rs1 imm)
    with sh have "ru_destination (id_register_use i) = Some RF_Integer" by (auto simp: shape_def base_uses)
    with D_Load i have "insn_rd insn = rd" by (simp add: insn_rd_def)
    moreover have "rd = fld 7 w" "r = R_Load rd (op_read_x ops rs1 + imm) f3 (pc + 4)"
      using sh assms(2) D_Load by (simp_all add: shape_def execute_def)
    ultimately show ?thesis
      using l fld_less [of 7 w] D_Load by (simp add: result_of_def exec_target_def reads_memory_def Let_def)
  next
    case (D_AluImm f3 f7 rd rs1 imm)
    with assms(2) l sh show ?thesis
      by (intro arith [of rd] exec_writes_only(2) [of "insn_id insn" f3 rd rs1 imm ops pc]) (simp_all add: execute_def shape_def)
  next
    case (D_AluImm32 f3 f7 rd rs1 imm)
    with assms(2) l sh show ?thesis
      by (intro arith [of rd] exec_writes_only(3) [of "insn_id insn" f3 rd rs1 imm ops pc]) (simp_all add: execute_def shape_def)
  next
    case (D_Alu f3 f7 rd rs1 rs2)
    with assms(2) l sh show ?thesis
      by (intro arith [of rd] exec_writes_only(4) [of "insn_id insn" f3 rd rs1 rs2 ops pc]) (simp_all add: execute_def shape_def)
  next
    case (D_Alu32 f3 f7 rd rs1 rs2)
    with assms(2) l sh show ?thesis
      by (intro arith [of rd] exec_writes_only(5) [of "insn_id insn" f3 rd rs1 rs2 ops pc]) (simp_all add: execute_def shape_def)
  next
    case (D_FOp f5 fmt rm rd rs1 rs2)
    with assms(2) l sh show ?thesis
      by (intro arith [of rd] exec_writes_only(1) [of h "insn_id insn" f5 fmt rm rd rs1 rs2 ops c pc]) (simp_all add: execute_def shape_def)
  next
    case (D_FMac m fmt rm rd rs1 rs2 rs3)
    with assms(2) l sh show ?thesis
      by (intro arith [of rd] exec_writes_only(6) [of "insn_id insn" fmt rm rd rs1 rs2 rs3 ops c pc]) (simp_all add: execute_def shape_def)
  next
    case (D_Branch f3 rs1 rs2 imm)
    with assms(2) l fd show ?thesis by (auto simp: d split: option.splits)
  next
    case (D_Csr f3 rd u a)
    then show ?thesis by (rule csr)
  next
    case (D_FLoad f3 rd rs1 imm)
    with assms(2) l fd show ?thesis by (auto simp: result_of_def exec_target_def reads_memory_def execute_def)
  qed (use assms(2) l fd sh fld_less in \<open>simp_all add: d, auto simp: d\<close>)
qed

lemma result_of_info:
  assumes "result_of insn r" "idex_rd e = insn_rd insn" "idex_is_fp_dest e = insn_is_fp_dest insn"
    "ex_forwarding_info r e = (rd, fp, v)"
  shows "case exec_ftarget r of Some t \<Rightarrow> fp \<and> rd = t \<and> (reads_memory r \<or> v = exec_fvalue r)
    | None \<Rightarrow> \<not> fp \<and> rd = exec_target r \<and> (reads_memory r \<or> v = exec_value r)"
  using assms
  by (cases r) (auto simp: result_of_def ex_forwarding_info_def exec_target_def reads_memory_def exec_value_def
      exec_ftarget_def exec_fvalue_def Let_def)

lemma stage_ex_frame:
  assumes ex: "stage_ex h e em mw p = (Inr (nex, fl, rd), p')" and ok: "pred_option (id_ok r) e"
  shows "frame p p'" "pred_option ex_ok nex"
    and "nex = Some m \<Longrightarrow> exmem_exec_result m = R_Load d a k n \<Longrightarrow> \<exists>x. e = Some x \<and> idex_is_load x \<and> idex_rd x = d"
    and "nex = Some m \<Longrightarrow> exmem_exec_result m = R_FLoad d a k n \<Longrightarrow> \<exists>x. e = Some x \<and> idex_is_fp_load x \<and> idex_rd x = d"
proof -
  have "frame p p' \<and> pred_option ex_ok nex \<and> (\<forall>m d a k n. nex = Some m \<longrightarrow>
      (exmem_exec_result m = R_Load d a k n \<longrightarrow> (\<exists>x. e = Some x \<and> idex_is_load x \<and> idex_rd x = d)) \<and>
      (exmem_exec_result m = R_FLoad d a k n \<longrightarrow> (\<exists>x. e = Some x \<and> idex_is_fp_load x \<and> idex_rd x = d)))"
  proof (cases e)
    case None
    with ex show ?thesis by (simp add: stage_ex_def)
  next
    case (Some x)
    with ok have idok: "id_ok r x" by simp
    then obtain w where w: "decode w = Inr (idex_insn x)" by (auto simp: id_ok_def)
    define res where "res = execute h (idex_insn x) (ex_operands (p_registers p) x (compute_forwarding em mw x)) (p_csrs p) (idex_pc x)"
    show ?thesis
    proof (cases res)
      case (Inl err)
      with ex Some flush_and_trap_frame show ?thesis by (auto simp: stage_ex_def res_def)
    next
      case (Inr er)
      note ro = execute_result_of [OF w Inr [unfolded res_def]]
      obtain d fp v where info: "ex_forwarding_info er x = (d, fp, v)" by (metis surj_pair)
      have rd: "idex_rd x = insn_rd (idex_insn x)" "idex_is_load x = insn_is_load (idex_insn x)"
        "idex_is_fp_dest x = insn_is_fp_dest (idex_insn x)"
        "idex_is_fp_load x = (insn_is_load (idex_insn x) \<and> insn_is_fp_dest (idex_insn x))"
        using idok by (simp_all add: id_ok_def)
      note i = result_of_info [OF ro rd(1,3) info]
      obtain npc tk br where cf: "resolve_control_flow er (idex_pc x) = (npc, tk, br)" by (metis surj_pair)
      note eqs = stage_ex_def Some res_def [symmetric] Inr info cf Let_def
      from ex have f: "frame p p'" by (simp add: eqs) (elim conjE, hypsubst, simp)
      from ex obtain m where m: "nex = Some m" "exmem_exec_result m = er" "exmem_rd m = d" "exmem_is_fp_dest m = fp"
        "exmem_fwd_val m = v" "exmem_is_load m = (idex_is_load x \<or> insn_is_atomic (idex_insn x))"
        by (simp add: eqs) (elim conjE, hypsubst, simp)
      have "exec_target er < 32" "reads_memory er = (insn_is_load (idex_insn x) \<or> insn_is_atomic (idex_insn x))"
        using ro by (simp_all add: result_of_def)
      with i have "ex_ok m" by (auto simp: ex_ok_def m rd split: option.splits)
      moreover have "idex_is_load x \<and> idex_rd x = d'" if "er = R_Load d' a k n" for d' a k n
        using ro that by (simp add: result_of_def rd)
      moreover have "idex_is_fp_load x \<and> idex_rd x = d'" if "er = R_FLoad d' a k n" for d' a k n
        using ro that by (simp add: result_of_def rd)
      ultimately show ?thesis using f m Some by auto
    qed
  qed
  then show "frame p p'" "pred_option ex_ok nex"
    "nex = Some m \<Longrightarrow> exmem_exec_result m = R_Load d a k n \<Longrightarrow> \<exists>x. e = Some x \<and> idex_is_load x \<and> idex_rd x = d"
    "nex = Some m \<Longrightarrow> exmem_exec_result m = R_FLoad d a k n \<Longrightarrow> \<exists>x. e = Some x \<and> idex_is_fp_load x \<and> idex_rd x = d"
    by blast+
qed

subsection \<open>The memory stage and write-back\<close>

lemma memory_stage_ftarget:
  assumes "memory_stage_with_trace ops ctx er s = (Inr (mr, w), s')"
  shows "mem_ftarget mr = exec_ftarget er"
  using assms
  by (cases er; auto simp: memory_stage_with_trace_def sreturn_def sbind_eq_Inr mem_ftarget_def exec_ftarget_def)

lemma stage_mem_frame:
  assumes "stage_mem em (p, b) = (Inr nmw, (p', b'))" "pred_option ex_ok em"
  shows "frame p p' \<and> pred_option mem_ok nmw"
proof (cases em)
  case None
  with assms show ?thesis by (simp add: stage_mem_def)
next
  case (Some m)
  define st where "st = p_architectural p"
  obtain r rv t b1 where mem: "memory_stage_with_pmp bus_ops (fc_translation_context st) (exmem_exec_result m)
      (reservation st, p_tlb p, b) = (r, (rv, t, b1))" by (metis surj_pair)
  define p1 where "p1 = p\<lparr>p_architectural := st\<lparr>reservation := rv\<rparr>, p_tlb := t\<rparr>"
  have f1: "frame p p1" by (simp add: frame_def same_regs_def cleared_def p1_def st_def)
  show ?thesis
  proof (cases r)
    case (Inl e)
    with assms(1) Some mem frame_trans [OF f1 flush_and_trap_frame] show ?thesis
      by (auto simp: stage_mem_def st_def p1_def Let_def)
  next
    case (Inr mr)
    then obtain w where st: "memory_stage_with_trace bus_ops (fc_translation_context st) (exmem_exec_result m)
      (reservation st, p_tlb p, b) = (Inr (mr, w), (rv, t, b1))"
      using mem by (auto simp: memory_stage_with_pmp_def sbind_eq_Inr sreturn_def split: prod.splits)
    obtain d fp v where info: "mem_forwarding_info mr m = (d, fp, v)" by (metis surj_pair)
    from assms(1) Some mem Inr info obtain mw where mw: "nmw = Some mw" "memwb_mem_result mw = mr" "memwb_rd mw = d"
      "memwb_is_fp_dest mw = fp" "memwb_fwd_val mw = v" "p' = p1"
      by (auto simp: stage_mem_def st_def p1_def Let_def)
    have ok: "ex_ok m" using assms(2) Some by simp
    have "mem_ok mw"
      using ok memory_stage_target(1) [OF st] memory_stage_ftarget [OF st] info
      by (cases mr) (auto simp: mem_ok_def ex_ok_def mw mem_forwarding_info_def mem_target_def mem_value_def
          mem_ftarget_def mem_fvalue_def split: option.splits)
    with f1 mw show ?thesis by simp
  qed
qed

text \<open>Write-back changes registers, but neither their number nor what the later stages hold.\<close>

definition wb_frame :: "pipeline \<Rightarrow> pipeline \<Rightarrow> bool" where
  "wb_frame p p' \<longleftrightarrow> regs_wf (p_registers p') = regs_wf (p_registers p) \<and> (cleared p \<longrightarrow> cleared p')
     \<and> (p_memory_wait_cycles p' = p_memory_wait_cycles p \<and> p_pending_mem_wb p' = p_pending_mem_wb p
        \<or> p_memory_wait_cycles p' = 0 \<and> p_pending_mem_wb p' = None)"

lemma wb_frame_frame: "wb_frame p q \<Longrightarrow> frame q r \<Longrightarrow> wb_frame p r"
  using same_regs_wf [of q r] by (auto simp: wb_frame_def frame_def)

lemma pipeline_writeback_wf: "writeback mr (r, c) = (res, (r', c')) \<Longrightarrow> regs_wf r' = regs_wf r"
  by (cases mr) (auto simp: writeback_def split: sum.splits option.splits prod.splits if_splits)

lemma handle_mret_frame: "frame p (pl_handle_mret p)"
  by (auto simp: pl_handle_mret_def frame_def same_regs_def cleared_def pl_defs set_pc_def dest: return_regs split: prod.split)

lemma handle_sret_frame: "frame p (pl_handle_sret p)"
proof -
  obtain res r c where h: "handle_sret (p_registers p) (p_csrs p) = (res, r, c)" by (metis surj_pair)
  define q where "q = pl_flush_pipeline (p\<lparr>p_architectural := (p_architectural p)\<lparr>arch_registers := r, arch_csrs := c\<rparr>\<rparr>)"
  have q: "frame p q"
    using return_regs(2) [OF h] by (simp add: q_def frame_def same_regs_def cleared_def pl_flush_pipeline_def)
  then have t: "frame p (pl_take_trap cause v pc q)" for cause v pc by (rule frame_trans [OF _ take_trap_frame])
  show ?thesis
  proof (cases res)
    case (Inl e)
    with q t show ?thesis
      by (auto simp: pl_handle_sret_def h q_def [symmetric] Let_def split: option.split)
  next
    case (Inr n)
    with return_regs(2) [OF h] show ?thesis
      by (simp add: pl_handle_sret_def h frame_def same_regs_def cleared_def pl_defs set_pc_def)
  qed
qed

lemma stage_wb_frame:
  assumes "stage_wb mw p = (Inr out, p')"
  shows "wb_frame p p'"
proof (cases mw)
  case None
  with assms show ?thesis by (simp add: stage_wb_def wb_frame_def)
next
  case (Some m)
  define p1 where "p1 = (if memwb_mem_result m = M_SfenceVma
    then p\<lparr>p_predictor := predictor_clear (p_predictor p), p_tlb := tlb_flush (p_tlb p)\<rparr> else p)"
  obtain res r c where wb: "writeback (memwb_mem_result m) (p_registers p1, p_csrs p1) = (res, (r, c))" by (metis surj_pair)
  define p2 where "p2 = p1\<lparr>p_architectural := (p_architectural p1)\<lparr>arch_registers := r, arch_csrs := c\<rparr>\<rparr>"
  have w: "wb_frame p p2"
    using pipeline_writeback_wf [OF wb] by (auto simp: wb_frame_def p2_def p1_def cleared_def)
  note fr = wb_frame_frame [OF w]
  note eqs = stage_wb_def Some p1_def [symmetric] wb Let_def pl_handle_ecall_def
  show ?thesis
  proof (cases res)
    case (Inr n)
    have "frame p2 (p2\<lparr>p_architectural := set_pc n (p_architectural p2)\<rparr>)"
      by (simp add: frame_def same_regs_def cleared_def set_pc_def)
    from fr [OF count_retired_frame [OF this]] assms Inr show ?thesis by (auto simp: eqs p2_def)
  next
    case (Inl e)
    with assms show ?thesis
      using fr [OF frame_trans [OF take_trap_frame flush_frame]] fr [OF frame_trans [OF flush_frame take_trap_frame]]
        fr [OF handle_mret_frame] fr [OF handle_sret_frame] fr [OF flush_and_trap_frame]
      by (auto simp: eqs p2_def [symmetric] split: if_splits)
  qed
qed

subsection \<open>A tick keeps the invariant\<close>

lemma pipe_ok_cleared:
  "regs_wf (p_registers q) \<Longrightarrow> cleared q \<Longrightarrow> pred_option mem_ok (p_pending_mem_wb q) \<Longrightarrow> pipe_ok q"
  by (simp add: pipe_ok_def cleared_def)

lemma pipe_ok_feed [simp]: "pipe_ok (cycle_feed x old a b p) = pipe_ok p" "pipe_ok (with_stats g p) = pipe_ok p"
  by (simp_all add: pipe_ok_def cycle_feed_def with_stats_def)

lemma frame_pending:
  "frame p q \<Longrightarrow> pred_option mem_ok (p_pending_mem_wb p) \<Longrightarrow> pred_option mem_ok (p_pending_mem_wb q)"
  by (auto simp: frame_def)

lemma wb_start_frame:
  assumes "wb_start (p, b) = (p2, b1)"
  shows "same_regs p p2" "cleared p2" "p_memory_wait_cycles p2 = p_memory_wait_cycles p"
    "p_pending_mem_wb p2 = p_pending_mem_wb p"
  using assms
  by (auto simp: wb_start_def same_regs_def cleared_def with_csrs_def with_stats_def sample_inputs_def Let_def)

lemma refresh_ok: "id_ok r e \<Longrightarrow> id_ok r' (refresh_operands r' e)"
  by (simp add: id_ok_def refresh_operands_def)

lemma fp_reads_in_word:
  assumes "decode w = Inr insn" "n \<in> set (fp_reads insn)"
  shows "n = fld 15 w \<or> n = fld 20 w"
proof -
  from decode_shape [OF assms(1)] obtain i where "shape insn i w" .
  with assms(2) show ?thesis by (cases insn) (auto simp: fp_reads_def shape_def)
qed

lemma hazard_cleared:
  assumes load: "\<forall>d a k n. exmem_exec_result m = R_Load d a k n \<longrightarrow> (\<exists>x. p_id_ex p = Some x \<and> idex_is_load x \<and> idex_rd x = d)"
    and fload: "\<forall>d a k n. exmem_exec_result m = R_FLoad d a k n \<longrightarrow> (\<exists>x. p_id_ex p = Some x \<and> idex_is_fp_load x \<and> idex_rd x = d)"
    and "\<not> hazard_stall (taken_of p)" "p_if_id p = Some f" "if_ok f" "decode (ifid_raw f) = Inr (idex_insn e)" "id_ok r e"
  shows "exmem_exec_result m = R_Load d a k n \<Longrightarrow> d \<noteq> 0 \<Longrightarrow> d \<noteq> idex_rs1 e \<and> d \<noteq> idex_rs2 e"
    and "exmem_exec_result m = R_FLoad d a k n \<Longrightarrow> d \<notin> set (fp_reads (idex_insn e))"
proof -
  note a = assms(3-7)
  have far: "d \<noteq> fld 15 (ifid_raw f) \<and> d \<noteq> fld 20 (ifid_raw f)"
    if "p_id_ex p = Some x" "idex_rd x = d" "idex_is_load x \<and> d \<noteq> 0 \<or> idex_is_fp_load x" for x d
    using a(1-3) that by (auto simp: hazard_stall_def taken_of_def load_use_hazard_def if_ok_def split: if_splits)
  show "d \<noteq> idex_rs1 e \<and> d \<noteq> idex_rs2 e" if l: "exmem_exec_result m = R_Load d a k n" "d \<noteq> 0"
  proof -
    from load l far have "d \<noteq> fld 15 (ifid_raw f) \<and> d \<noteq> fld 20 (ifid_raw f)" by blast
    then show ?thesis using sources_in_word [OF a(4)] a(5) l(2) by (auto simp: id_ok_def)
  qed
  show "d \<notin> set (fp_reads (idex_insn e))" if l: "exmem_exec_result m = R_FLoad d a k n"
    using fload l far fp_reads_in_word [OF a(4)] by blast
qed

lemma front_pipe_ok:
  assumes ok: "pipe_ok p" and p1: "regs_wf (p_registers p1)" "cleared p1" "p_memory_wait_cycles p1 = 0"
      "pred_option mem_ok (p_pending_mem_wb p1)" and nmw: "pred_option mem_ok nmw"
    and t: "tick_front h (taken_of p) nmw (p1, b) = (Inr Tick_Continue, (p', b'))"
  shows "pipe_ok p'"
proof -
  have old: "pred_option (id_ok (p_registers p)) (p_id_ex p)" "pred_option if_ok (p_if_id p)"
    using ok by (simp_all add: pipe_ok_def)
  obtain nex fl rd q1 nid q2 nif q3 b3 where
    ex: "stage_ex h (p_id_ex p) (p_ex_mem p) (p_mem_wb p) p1 = (Inr (nex, fl, rd), q1)"
    and id: "decode_slot (taken_of p) fl q1 = (Inr nid, q2)" and f: "fetch_slot (taken_of p) fl rd (q2, b) = (Inr nif, (q3, b3))"
    and p': "p' = install (taken_of p) fl nmw nex nid nif q3"
    by (rule tick_front_cases [of h "taken_of p" p1 b nmw]) (use t in \<open>auto simp: taken_of_def\<close>)
  note x = stage_ex_frame [OF ex old(1)]
  note d = decode_slot_frame [OF id]
  have if_old: "pred_option if_ok (old_if_id (taken_of p))" using old(2) by (simp add: taken_of_def)
  note g = fetch_slot_frame [OF f if_old]
  have fr: "frame p1 q3" using frame_trans [OF frame_trans [OF x(1) d(1)] g(1)] .
  have "id_ok (p_registers q3) e = id_ok (p_registers q2) e" for e
    using g(1) by (intro same_regs_id_ok) (simp add: frame_def)
  with d(2) have nid: "pred_option (id_ok (p_registers q3)) nid" by (simp add: pred_option_def)
  have "not_waiting m e" if "nex = Some m" "nid = Some e" for m e
  proof -
    from d(3) [OF that(2)] obtain ff where ff: "\<not> hazard_stall (taken_of p)" "p_if_id p = Some ff"
      "decode (ifid_raw ff) = Inr (idex_insn e)" by (auto simp: taken_of_def)
    with old(2) have fok: "if_ok ff" by simp
    have eok: "id_ok (p_registers q3) e" using nid that(2) by simp
    have l: "\<forall>d a k n. exmem_exec_result m = R_Load d a k n \<longrightarrow> (\<exists>x. p_id_ex p = Some x \<and> idex_is_load x \<and> idex_rd x = d)"
      "\<forall>d a k n. exmem_exec_result m = R_FLoad d a k n \<longrightarrow> (\<exists>x. p_id_ex p = Some x \<and> idex_is_fp_load x \<and> idex_rd x = d)"
      using x(3,4) that(1) by blast+
    show ?thesis
      using hazard_cleared [of m p ff e, OF l ff(1,2) fok ff(3) eok] unfolding not_waiting_def by blast
  qed
  moreover have "p_memory_wait_cycles q3 = 0" "regs_wf (p_registers q3)"
    using fr p1 same_regs_wf [of p1 q3] by (auto simp: frame_def)
  moreover note frame_pending [OF fr p1(4)] nid x(2) g(2) nmw
  ultimately have "pipe_ok (q3\<lparr>p_mem_wb := nmw, p_ex_mem := nex, p_id_ex := nid, p_if_id := nif\<rparr>)"
    by (cases nex; cases nid) (simp_all add: pipe_ok_def)
  then show ?thesis unfolding p' install_def Let_def by simp
qed

lemma wait_pipe_ok:
  assumes ok: "pipe_ok p" and p2: "same_regs p p2" "cleared p2" "p_pending_mem_wb p2 = p_pending_mem_wb p"
    and none: "p_ex_mem p = None"
  shows "pipe_ok (tick_memory_wait (taken_of p) p2)"
proof -
  define w where "w = p_memory_wait_cycles p2 - 1"
  let ?q = "p2\<lparr>p_memory_wait_cycles := w, p_if_id := p_if_id p, p_id_ex := p_id_ex p, p_ex_mem := None\<rparr>"
  have "pred_option (id_ok (p_registers p2)) (p_id_ex p)"
    using ok same_regs_id_ok [OF p2(1)] by (cases "p_id_ex p") (simp_all add: pipe_ok_def)
  then have "pipe_ok ?q" "w = 0 \<Longrightarrow> pipe_ok (?q\<lparr>p_mem_wb := p_pending_mem_wb p2, p_pending_mem_wb := None\<rparr>)"
    using ok p2 same_regs_wf [OF p2(1)] by (auto simp: pipe_ok_def cleared_def)
  then show ?thesis
    using none by (simp add: tick_memory_wait_def taken_of_def w_def [symmetric] Let_def)
qed

lemma tick_pipe_ok:
  assumes ok: "pipe_ok p" and t: "tick h (p, b) = (Inr Tick_Continue, (p', b'))"
  shows "pipe_ok p'"
proof -
  obtain p2 b1 where s: "wb_start (p, b) = (p2, b1)" by (metis surj_pair)
  note s2 = wb_start_frame [OF s]
  have wf: "regs_wf (p_registers p)" and pend: "pred_option mem_ok (p_pending_mem_wb p)" and em: "pred_option ex_ok (p_ex_mem p)"
    using ok by (simp_all add: pipe_ok_def)
  have wb: "regs_wf (p_registers p3) \<and> cleared p3 \<and> pred_option mem_ok (p_pending_mem_wb p3)"
    if "stage_wb (p_mem_wb p) p2 = (Inr out, p3)" for out p3
    using stage_wb_frame [OF that] s2 wf pend same_regs_wf [OF s2(1)] by (auto simp: wb_frame_def)
  from s show ?thesis
  proof (cases rule: tick_cases [where h = h])
    case (squash p3)
    with wb [OF squash(1)] t show ?thesis
      by (auto intro!: pipe_ok_cleared simp: pl_flush_pipeline_def cleared_def)
  next
    case (go p3)
    note w3 = wb [OF go(1)]
    show ?thesis
    proof (rule tick_after_wb_cases [of p3 h "taken_of p" b1])
      assume w: "p_memory_wait_cycles p3 > 0"
        "tick_after_wb h (taken_of p) (p3, b1) = (Inr Tick_Continue, (tick_memory_wait (taken_of p) p3, b1))"
      then have "p_memory_wait_cycles p > 0" using stage_wb_frame [OF go(1)] s2(3) by (auto simp: wb_frame_def)
      with ok have none: "p_mem_wb p = None" "p_ex_mem p = None" by (simp_all add: pipe_ok_def)
      with go(1) have "p3 = p2" by (simp add: stage_wb_def)
      with wait_pipe_ok [OF ok s2(1,2,4) none(2)] w t go(2) show ?thesis by simp
    next
      fix cause v pc
      assume "tick_after_wb h (taken_of p) (p3, b1) =
         (Inr Tick_Continue, (cycle_feed None (taken_of p) False True (pl_take_trap cause v pc p3), b1))"
      then have "p' = cycle_feed None (taken_of p) False True (pl_take_trap cause v pc p3)" using t go(2) by simp
      moreover have "pipe_ok (pl_take_trap cause v pc p3)"
        using take_trap_frame [of p3 cause v pc] w3 frame_pending same_regs_wf
        by (intro pipe_ok_cleared) (auto simp: frame_def)
      ultimately show ?thesis by simp
    next
      fix nmw penalty q c
      assume m: "stage_mem (old_ex_mem (taken_of p)) (p3, begin_timed_access b1) = (Inr (Some nmw), (q, c))"
        and "tick_after_wb h (taken_of p) (p3, b1) = (Inr Tick_Continue, (tick_memory_stall (taken_of p) (Some nmw) penalty q, c))"
      then have p': "p' = tick_memory_stall (taken_of p) (Some nmw) penalty q" using t go(2) by simp
      have "frame p3 q \<and> mem_ok nmw" using stage_mem_frame [OF m] em by (simp add: taken_of_def)
      then have "regs_wf (p_registers q)" "cleared q" "mem_ok nmw" using w3 same_regs_wf [of p3 q] by (auto simp: frame_def)
      moreover have "pred_option (id_ok (p_registers q)) (map_option (refresh_operands (p_registers q)) (p_id_ex p))"
        using ok refresh_ok by (cases "p_id_ex p") (auto simp: pipe_ok_def)
      ultimately have "pipe_ok (q\<lparr>p_pending_mem_wb := Some nmw, p_memory_wait_cycles := penalty, p_if_id := p_if_id p,
          p_id_ex := map_option (refresh_operands (p_registers q)) (p_id_ex p)\<rparr>)"
        using ok by (simp add: pipe_ok_def cleared_def)
      then show ?thesis unfolding p' tick_memory_stall_def by (simp add: taken_of_def)
    next
      fix nmw q c
      assume w: "p_memory_wait_cycles p3 = 0"
        and m: "stage_mem (old_ex_mem (taken_of p)) (p3, begin_timed_access b1) = (Inr nmw, (q, c))"
        and f: "tick_after_wb h (taken_of p) (p3, b1) = tick_front h (taken_of p) nmw (q, c)"
      have fr: "frame p3 q" "pred_option mem_ok nmw" using stage_mem_frame [OF m] em by (simp_all add: taken_of_def)
      then have "regs_wf (p_registers q)" "cleared q" "p_memory_wait_cycles q = 0" "pred_option mem_ok (p_pending_mem_wb q)"
        using w w3 same_regs_wf [of p3 q] frame_pending [OF fr(1)] by (auto simp: frame_def)
      from front_pipe_ok [OF ok this fr(2)] f t go(2) show ?thesis by simp
    qed
  qed
qed

subsection \<open>Reachable pipelines\<close>

text \<open>The machine starts from \<open>Pipeline::new\<close>, possibly redirected to the ROM stub with the boot entry in
  \<open>a0\<close>, and ticks; between ticks the host may change the bus (devices, RAM) in any way.\<close>

inductive p_reachable :: "float_host \<Rightarrow> pipeline \<times> system_bus \<Rightarrow> bool" for h where
  start: "p_reachable h (pipeline_new pc sp, b)"
| kernel: "p_reachable h (p, b) \<Longrightarrow> p_reachable h (pl_set_boot_entry entry (pl_reset_pc pc p), b)"
| host: "p_reachable h (p, b) \<Longrightarrow> p_reachable h (p, b')"
| cycle: "p_reachable h (p, b) \<Longrightarrow> tick h (p, b) = (r, s) \<Longrightarrow> p_reachable h s"

lemma reachable_pipe_ok: "p_reachable h s \<Longrightarrow> pipe_ok (fst s)"
proof (induction rule: p_reachable.induct)
  case (start pc sp b)
  show ?case
    by (simp add: pipe_ok_def pipeline_new_def architectural_new_def regs_wf_new)
next
  case (kernel p b entry pc)
  then show ?case
    by (simp add: pipe_ok_def pl_set_boot_entry_def pl_reset_pc_def with_registers_def set_pc_def)
next
  case (cycle p b r s)
  obtain p' b' where "tick h (p, b) = (Inr Tick_Continue, (p', b'))" using tick_result by blast
  with cycle tick_pipe_ok [of p h b p' b'] show ?case by auto
qed simp

text \<open>C10. The invariant of the pipeline registers holds in every reachable state, through stalls, branch
  flushes, traps and interrupts. The operands latched for the execute stage, integer and floating point,
  are the current values of the registers the hazard unit names; the later registers name the register
  file, the destination and (unless it comes from memory) the value their instruction will write; and no
  instruction sits directly behind a load, integer or floating point, whose result it needs. Left out,
  because the code leaves them out: the third source of the fused multiply-adds, and waiting for the
  result of an atomic.\<close>

theorem pipeline_registers_ok:
  assumes "p_reachable h (p, b)"
  shows "pipe_ok p"
  using reachable_pipe_ok [OF assms] by simp

theorem pipeline_registers_ok_witness:
  "\<exists>p b. tick example_host (pipeline_new 0 0x1000, system_bus_new [0x13]) = (Inr Tick_Continue, p, b) \<and> pipe_ok p"
proof -
  obtain p b where t: "tick example_host (pipeline_new 0 0x1000, system_bus_new [0x13]) = (Inr Tick_Continue, p, b)"
    using tick_result by blast
  have "p_reachable example_host (p, b)" by (rule p_reachable.cycle [OF p_reachable.start t])
  from pipeline_registers_ok [OF this] t show ?thesis by blast
qed

subsection \<open>Execution in program order\<close>

text \<open>C2. Forwarding gives sequential semantics, under side conditions the code needs. In a state satisfying the
  invariant, an instruction in the execute stage that reads no CSR and no floating-point register computes
  from its forwarded operands exactly what the functional core computes from the register file left by
  the two older instructions, once both have gone through memory and write-back without a fault. The
  older instruction in the memory stage is not an atomic: its result is not forwarded and the
  hazard unit does not wait for it (\<open>use_after_atomic_is_stale\<close> below). If an older instruction reads a CSR,
  the CSR still has at its write-back the value read in its execute stage.\<close>

theorem execute_in_program_order:
  assumes "pipe_ok p" "p_id_ex p = Some e" "integer_insn (idex_insn e)"
    and "completes (map_option memwb_mem_result (p_mem_wb p)) (p_registers p, c0) (r1, c1)"
    and "memory_result (p_ex_mem p) mr" "completes mr (r1, c1') (r2, c2)"
  shows "execute h (idex_insn e) (ex_operands r1 e (compute_forwarding (p_ex_mem p) (p_mem_wb p) e)) c (idex_pc e)
    = execute h (idex_insn e) (functional_operands r2 (idex_insn e)) c (idex_pc e)"
proof -
  have "regs_wf (p_registers p)" "id_ok (p_registers p) e" "pred_option mem_ok (p_mem_wb p)" "pred_option ex_ok (p_ex_mem p)"
    "pred_option (\<lambda>m. not_waiting m e) (p_ex_mem p)"
    using assms(1,2) by (simp_all add: pipe_ok_def)
  from execute_forwarded [OF this assms(4-6,3)] show ?thesis .
qed

text \<open>The sequence \<open>addi x1, x0, 5; addi x2, x1, 3\<close> with the first instruction in the memory stage.\<close>

definition example_ex_mem :: ex_mem_reg where
  "example_ex_mem = \<lparr>exmem_pc = 0, exmem_mnemonic = ''addi'', exmem_exec_result = R_WriteInt 1 5 4, exmem_rd = 1,
     exmem_is_fp_dest = False, exmem_fwd_val = 5, exmem_is_load = False, exmem_actual_next_pc = 4,
     exmem_actual_taken = False, exmem_predicted_taken = False, exmem_predicted_target = 4\<rparr>"

definition example_id_ex :: id_ex_reg where
  "example_id_ex = \<lparr>idex_pc = 4, idex_insn = D_AluImm 0 0 2 1 3, idex_mnemonic = ''addi'', idex_rs1 = 1, idex_rs2 = 0,
     idex_rs1_val = 0, idex_rs2_val = 0, idex_frs1 = 0, idex_frs2 = 0, idex_frs1_val = CANONICAL_NAN_BOXED, idex_frs2_val = CANONICAL_NAN_BOXED,
     idex_rd = 2, idex_is_fp_dest = False, idex_is_load = False, idex_is_fp_load = False,
     idex_predicted_taken = False, idex_predicted_target = 8\<rparr>"

definition example_pipeline :: pipeline where
  "example_pipeline = (pipeline_new 8 0x1000)\<lparr>p_ex_mem := Some example_ex_mem, p_id_ex := Some example_id_ex\<rparr>"

lemma example_pipe_ok: "pipe_ok example_pipeline"
proof -
  have "decode 0x00308113 = Inr (D_AluImm 0 0 2 1 3)" "insn_rs1 (D_AluImm 0 0 2 1 3) = 1" "insn_rs2 (D_AluImm 0 0 2 1 3) = 0"
    "insn_rd (D_AluImm 0 0 2 1 3) = 2" "\<not> insn_is_load (D_AluImm 0 0 2 1 3)"
    "read_x (p_registers (pipeline_new 8 0x1000)) 1 = 0" "\<not> insn_is_fp_dest (D_AluImm 0 0 2 1 3)"
    "insn_frs1 (D_AluImm 0 0 2 1 3) = 0" "insn_frs2 (D_AluImm 0 0 2 1 3) = 0"
    "read_f_bits (p_registers (pipeline_new 8 0x1000)) 0 = CANONICAL_NAN_BOXED" by code_simp+
  then have "id_ok (p_registers (pipeline_new 8 0x1000)) example_id_ex"
    by (auto simp: id_ok_def example_id_ex_def)
  then show ?thesis
    by (simp add: pipe_ok_def example_pipeline_def example_ex_mem_def ex_ok_def exec_target_def exec_value_def exec_ftarget_def
        reads_memory_def not_waiting_def) (simp add: pipeline_new_def architectural_new_def regs_wf_new)
qed

theorem execute_in_program_order_witness:
  "execute example_host (D_AluImm 0 0 2 1 3)
     (ex_operands (p_registers example_pipeline) example_id_ex
       (compute_forwarding (Some example_ex_mem) None example_id_ex)) csr_file_new 4
   = execute example_host (D_AluImm 0 0 2 1 3)
     (functional_operands (write_x 1 5 (p_registers example_pipeline)) (D_AluImm 0 0 2 1 3)) csr_file_new 4"
proof -
  have mw: "p_mem_wb example_pipeline = None" and em: "p_ex_mem example_pipeline = Some example_ex_mem"
    and id: "p_id_ex example_pipeline = Some example_id_ex"
    by (simp_all add: example_pipeline_def pipeline_new_def)
  have i: "idex_insn example_id_ex = D_AluImm 0 0 2 1 3" "idex_pc example_id_ex = 4"
    by (simp_all add: example_id_ex_def)
  have m: "memory_result (Some example_ex_mem) (Some (M_WriteInt 1 5 4))"
    by (auto simp: example_ex_mem_def is_atomic_result_def memory_stage_with_trace_def sreturn_def)
  have w: "completes (Some (M_WriteInt 1 5 4)) (r, c) (write_x 1 5 r, c)" for r c
    by (simp add: settled_def writeback_def)
  have "integer_insn (idex_insn example_id_ex)" by (simp add: i integer_insn_def)
  moreover have "completes (map_option memwb_mem_result (p_mem_wb example_pipeline)) (p_registers example_pipeline, csr_file_new)
      (p_registers example_pipeline, csr_file_new)" by (simp add: mw)
  moreover have "memory_result (p_ex_mem example_pipeline) (Some (M_WriteInt 1 5 4))" unfolding em by (rule m)
  ultimately show ?thesis
    using execute_in_program_order [OF example_pipe_ok id _ _ _ w, of csr_file_new _ csr_file_new example_host]
    by (simp add: i em mw)
qed

subsection \<open>Where it fails: atomics\<close>

text \<open>An instruction that uses the result of the atomic right before it is neither stalled nor given the
  result: it reads the old register value.\<close>

lemma use_after_atomic_is_stale:
  assumes "exmem_exec_result m = R_Atomic f5 aq rl f3 rd a v n" "ex_ok m" "rd = idex_rs1 e" "id_ok r e"
  shows "fv_rs1 (compute_forwarding (Some m) None e) = read_x r rd"
    and "idex_insn x = D_Atomic f5' aq' rl' f3' rd rs1 rs2 \<Longrightarrow> id_ok r x \<Longrightarrow> idex_is_fp_load x = False \<Longrightarrow>
      \<not> load_use_hazard x rd rs"
proof -
  show "fv_rs1 (compute_forwarding (Some m) None e) = read_x r rd"
    using assms by (simp add: forwarding_reads read_through_def ex_ok_def reads_memory_def id_ok_def)
  show "\<not> load_use_hazard x rd rs"
    if "idex_insn x = D_Atomic f5' aq' rl' f3' rd rs1 rs2" "id_ok r x" "idex_is_fp_load x = False"
    using that decoded_loads by (auto simp: id_ok_def load_use_hazard_def)
qed

end
