(* ===== verification/Elf.thy ===== *)
theory Elf
  imports Cache Vm_Error
begin

text \<open>
  The ELF-64 parser (\<open>elf_parser.rs\<close>). \<open>usize\<close> is 64 bits wide. A slice \<open>bytes.get(a..b)\<close> is \<open>None\<close>
  unless \<open>a \<le> b \<le> bytes.len()\<close>.
\<close>

subsection \<open>The parser\<close>

record elf_load_segment =
  seg_offset :: u64
  seg_vaddr :: u64
  seg_file_size :: u64
  seg_mem_size :: u64

record parsed_elf =
  entry_point :: u64
  load_segments :: "elf_load_segment list"

definition checked_add :: "u64 \<Rightarrow> u64 \<Rightarrow> u64 option" where
  "checked_add x y = (if x \<le> x + y then Some (x + y) else None)"

definition get_slice :: "'a list \<Rightarrow> u64 \<Rightarrow> u64 \<Rightarrow> 'a list option" where
  "get_slice bytes a b =
     (if a \<le> b \<and> unat b \<le> length bytes then Some (take (unat (b - a)) (drop (unat a) bytes)) else None)"

definition ok_or :: "'a option \<Rightarrow> string \<Rightarrow> 'a result" where
  "ok_or x msg = (case x of Some a \<Rightarrow> Inr a | None \<Rightarrow> Inl (Other msg))"

definition rbind :: "'a result \<Rightarrow> ('a \<Rightarrow> 'b result) \<Rightarrow> 'b result" where
  "rbind x f = (case x of Inl e \<Rightarrow> Inl e | Inr a \<Rightarrow> f a)"

definition read_le :: "u8 list \<Rightarrow> u64 \<Rightarrow> u64 \<Rightarrow> u64 result" where
  "read_le bytes offset width =
     rbind (ok_or (checked_add offset width) ''ELF read overflow'') (\<lambda>limit.
     rbind (ok_or (get_slice bytes offset limit) ''ELF read out of bounds'') (\<lambda>slice.
     Inr (from_le_bytes slice)))"

definition read_u16 :: "u8 list \<Rightarrow> u64 \<Rightarrow> u16 result" where
  "read_u16 bytes offset = rbind (read_le bytes offset 2) (\<lambda>v. Inr (ucast v))"

definition read_u32 :: "u8 list \<Rightarrow> u64 \<Rightarrow> u32 result" where
  "read_u32 bytes offset = rbind (read_le bytes offset 4) (\<lambda>v. Inr (ucast v))"

definition read_u64 :: "u8 list \<Rightarrow> u64 \<Rightarrow> u64 result" where
  "read_u64 bytes offset = read_le bytes offset 8"

abbreviation (input) ELF_MAGIC :: "u8 list" where "ELF_MAGIC \<equiv> [0x7F, 0x45, 0x4C, 0x46]"
abbreviation (input) PT_LOAD :: u32 where "PT_LOAD \<equiv> 1"

text \<open>One program header: \<open>None\<close> when it is not loadable.\<close>

definition parse_program_header :: "u8 list \<Rightarrow> u64 \<Rightarrow> u64 \<Rightarrow> u64 \<Rightarrow> elf_load_segment option result" where
  "parse_program_header bytes phoff phentsize i =
     rbind (ok_or (checked_add phoff (i * phentsize)) ''ELF program header overflow'') (\<lambda>base.
     rbind (ok_or (checked_add base phentsize) ''ELF program header slice overflow'') (\<lambda>limit.
     rbind (ok_or (get_slice bytes base limit) ''ELF program header outside file'') (\<lambda>header.
     rbind (read_u32 header 0) (\<lambda>p_type.
     if p_type \<noteq> PT_LOAD then Inr None
     else rbind (read_u64 header 8) (\<lambda>offset. rbind (read_u64 header 16) (\<lambda>vaddr.
          rbind (read_u64 header 32) (\<lambda>file_size. rbind (read_u64 header 40) (\<lambda>mem_size.
          Inr (Some \<lparr>seg_offset = offset, seg_vaddr = vaddr, seg_file_size = file_size, seg_mem_size = mem_size\<rparr>)))))))))"

fun parse_headers :: "u8 list \<Rightarrow> u64 \<Rightarrow> u64 \<Rightarrow> nat list \<Rightarrow> elf_load_segment list result" where
  "parse_headers bytes phoff phentsize [] = Inr []"
| "parse_headers bytes phoff phentsize (i # is) =
     rbind (parse_program_header bytes phoff phentsize (of_nat i)) (\<lambda>s.
     rbind (parse_headers bytes phoff phentsize is) (\<lambda>rest.
     Inr (case s of None \<Rightarrow> rest | Some seg \<Rightarrow> seg # rest)))"

definition parse :: "u8 list \<Rightarrow> parsed_elf result" where
  "parse bytes =
     (if length bytes < 64 then Inl (Other ''ELF image is too small'')
      else if take 4 bytes \<noteq> ELF_MAGIC then Inl (Other ''ELF magic header missing'')
      else if bytes ! 4 \<noteq> 2 then Inl (Other ''ELF image is not 64-bit'')
      else if bytes ! 5 \<noteq> 1 then Inl (Other ''ELF image is not little-endian'')
      else
        rbind (read_u64 bytes 24) (\<lambda>entry. rbind (read_u64 bytes 32) (\<lambda>phoff.
        rbind (read_u16 bytes 54) (\<lambda>phentsize. rbind (read_u16 bytes 56) (\<lambda>phnum.
        if (ucast phentsize :: u64) < 56 then Inl (Other ''ELF program header size is invalid'')
        else rbind (parse_headers bytes phoff (ucast phentsize) [0..<unat phnum]) (\<lambda>segments.
             if segments = [] then Inl (Other ''ELF contains no PT_LOAD segments'')
             else Inr \<lparr>entry_point = entry, load_segments = segments\<rparr>))))))"

definition align_up :: "u64 \<Rightarrow> u64 \<Rightarrow> u64" where
  "align_up v alignment = (let a = max alignment 1 in (v + a - 1) AND NOT (a - 1))"

subsection \<open>What the parser accepts\<close>

text \<open>Reading the file by position: a little-endian field, the program headers and their segments.\<close>

definition le_at :: "u8 list \<Rightarrow> nat \<Rightarrow> nat \<Rightarrow> u64" where
  "le_at bytes off n = from_le_bytes (take n (drop off bytes))"

definition segment_at :: "u8 list \<Rightarrow> nat \<Rightarrow> elf_load_segment" where
  "segment_at bytes ph = \<lparr>seg_offset = le_at bytes (ph + 8) 8, seg_vaddr = le_at bytes (ph + 16) 8,
     seg_file_size = le_at bytes (ph + 32) 8, seg_mem_size = le_at bytes (ph + 40) 8\<rparr>"

definition loadable_at :: "u8 list \<Rightarrow> nat \<Rightarrow> bool" where
  "loadable_at bytes ph \<longleftrightarrow> (ucast (le_at bytes ph 4) :: u32) = PT_LOAD"

lemma rbind_Inr [simp]: "rbind (Inr a) f = f a" "rbind (Inl e) f = Inl e"
  by (simp_all add: rbind_def)

lemma rbind_eq_Inr: "rbind x f = Inr b \<longleftrightarrow> (\<exists>a. x = Inr a \<and> f a = Inr b)"
  by (auto simp: rbind_def split: sum.splits)

lemma ok_or_eq_Inr [simp]: "ok_or x m = Inr a \<longleftrightarrow> x = Some a"
  by (auto simp: ok_or_def split: option.splits)

lemma unat_checked: "unat x + unat y < 2 ^ 64 \<Longrightarrow> unat (x + y :: u64) = unat x + unat y"
  by (simp add: unat_word_ariths)

lemma u64_bound: "unat (x :: u64) < 2 ^ 64"
  using unsigned_less [where ?'a = nat and w = x] by simp

lemma no_carry: "x \<le> x + y \<longleftrightarrow> unat x + unat y < 2 ^ 64" for x y :: u64
proof (cases "unat x + unat y < 2 ^ 64")
  case False
  then have "unat (x + y) = unat x + unat y - 2 ^ 64"
    using u64_bound [of x] u64_bound [of y] by (simp add: unat_word_ariths mod_if)
  with False u64_bound [of y] show ?thesis by (auto simp: word_le_nat_alt)
qed (simp add: unat_checked word_le_nat_alt)

lemma checked_add_eq: "checked_add x y = (if unat x + unat y < 2 ^ 64 then Some (x + y) else None)"
  unfolding checked_add_def no_carry ..

lemma checked_add_eq_Some: "checked_add x y = Some z \<longleftrightarrow> unat x + unat y < 2 ^ 64 \<and> z = x + y"
  by (auto simp: checked_add_eq)

lemma get_slice_sum:
  assumes "unat x + unat y < 2 ^ 64"
  shows "get_slice bytes x (x + y) = (if unat x + unat y \<le> length bytes then Some (take (unat y) (drop (unat x) bytes)) else None)"
proof -
  have "x \<le> x + y" using unat_checked [OF assms] by (simp add: word_le_nat_alt)
  then show ?thesis by (simp add: get_slice_def unat_checked [OF assms])
qed

lemma read_le_inside:
  assumes "unat off + unat n \<le> length bytes" "length bytes < 2 ^ 64"
  shows "read_le bytes off n = Inr (le_at bytes (unat off) (unat n))"
proof -
  have "unat off + unat n < 2 ^ 64" using assms by simp
  with assms show ?thesis by (simp add: read_le_def checked_add_eq ok_or_def get_slice_sum le_at_def)
qed

lemma header_fields:
  assumes "length header = n" "header = take n (drop ph bytes)" "56 \<le> n" "n < 2 ^ 64"
  shows "read_u32 header 0 = Inr (ucast (le_at bytes ph 4))" "read_u64 header 8 = Inr (le_at bytes (ph + 8) 8)"
    "read_u64 header 16 = Inr (le_at bytes (ph + 16) 8)" "read_u64 header 32 = Inr (le_at bytes (ph + 32) 8)"
    "read_u64 header 40 = Inr (le_at bytes (ph + 40) 8)"
proof -
  have r: "read_le header off k = Inr (le_at bytes (ph + unat off) (unat k))" if "unat off + unat k \<le> 56" for off k
  proof -
    have "take (unat k) (drop (unat off) header) = take (unat k) (drop (ph + unat off) bytes)"
      using that assms(2,3) by (simp add: drop_take min_def add.commute)
    with read_le_inside [of off k header] that assms show ?thesis by (simp add: le_at_def)
  qed
  show "read_u32 header 0 = Inr (ucast (le_at bytes ph 4))" using r [of 0 4] by (simp add: read_u32_def)
  show "read_u64 header 8 = Inr (le_at bytes (ph + 8) 8)" "read_u64 header 16 = Inr (le_at bytes (ph + 16) 8)"
    "read_u64 header 32 = Inr (le_at bytes (ph + 32) 8)" "read_u64 header 40 = Inr (le_at bytes (ph + 40) 8)"
    using r [of 8 8] r [of 16 8] r [of 32 8] r [of 40 8] by (simp_all add: read_u64_def)
qed

text \<open>The position of a program header, without wrap-around.\<close>

definition ph_pos :: "u64 \<Rightarrow> u64 \<Rightarrow> nat \<Rightarrow> nat" where
  "ph_pos phoff phentsize i = unat phoff + i * unat phentsize"

lemma parse_program_header_eq:
  assumes len: "length bytes < 2 ^ 64" and size: "56 \<le> unat phentsize" "unat phentsize < 2 ^ 16" and i: "i < 2 ^ 16"
  shows "parse_program_header bytes phoff phentsize (of_nat i) = Inr s \<longleftrightarrow>
    ph_pos phoff phentsize i + unat phentsize \<le> length bytes
    \<and> s = (if loadable_at bytes (ph_pos phoff phentsize i) then Some (segment_at bytes (ph_pos phoff phentsize i)) else None)"
proof -
  have "i * unat phentsize < 2 ^ 16 * 2 ^ 16" using i size(2) by (intro mult_strict_mono) auto
  then have m: "unat (of_nat i * phentsize) = i * unat phentsize"
    using i by (simp add: unat_word_ariths unat_of_nat)
  define base where "base = phoff + of_nat i * phentsize"
  show ?thesis
  proof (cases "ph_pos phoff phentsize i + unat phentsize \<le> length bytes")
    case True
    have small: "unat phoff + unat (of_nat i * phentsize) < 2 ^ 64" using True len size by (simp add: ph_pos_def m)
    have b: "unat base = ph_pos phoff phentsize i" unfolding base_def unat_checked [OF small] by (simp add: ph_pos_def m)
    then have small2: "unat base + unat phentsize < 2 ^ 64" using True len by simp
    let ?h = "take (unat phentsize) (drop (unat base) bytes)"
    have "get_slice bytes base (base + phentsize) = Some ?h" using True by (simp add: get_slice_sum [OF small2] b)
    moreover have "length ?h = unat phentsize" using True by (simp add: b)
    note h = header_fields [OF this refl size(1)]
    ultimately show ?thesis
      using True small small2 size(2)
      by (simp add: parse_program_header_def checked_add_eq ok_or_def base_def [symmetric] h b loadable_at_def segment_at_def)
        blast
  next
    case False
    have "parse_program_header bytes phoff phentsize (of_nat i) \<noteq> Inr s"
    proof
      assume "parse_program_header bytes phoff phentsize (of_nat i) = Inr s"
      then obtain h where "unat phoff + unat (of_nat i * phentsize) < 2 ^ 64" "unat base + unat phentsize < 2 ^ 64"
        "get_slice bytes base (base + phentsize) = Some h"
        by (auto simp: parse_program_header_def rbind_eq_Inr checked_add_eq_Some base_def)
      with False show False
        by (simp add: get_slice_sum unat_checked base_def m ph_pos_def split: if_splits)
    qed
    with False show ?thesis by simp
  qed
qed

lemma parse_headers_eq:
  assumes "length bytes < 2 ^ 64" "56 \<le> unat phentsize" "unat phentsize < 2 ^ 16" "\<forall>i \<in> set is. i < 2 ^ 16"
  shows "parse_headers bytes phoff phentsize is = Inr segs \<longleftrightarrow>
    (\<forall>i \<in> set is. ph_pos phoff phentsize i + unat phentsize \<le> length bytes)
    \<and> segs = map (segment_at bytes) (filter (loadable_at bytes) (map (ph_pos phoff phentsize) is))"
  using assms(4)
proof (induction "is" arbitrary: segs)
  case (Cons i "is")
  then show ?case
    by (auto simp: rbind_eq_Inr parse_program_header_eq [OF assms(1-3)] split: if_splits)
qed auto

definition elf_phentsize :: "u8 list \<Rightarrow> u64" where
  "elf_phentsize bytes = ucast (ucast (le_at bytes 54 2) :: u16)"

definition elf_phnum :: "u8 list \<Rightarrow> nat" where
  "elf_phnum bytes = unat (ucast (le_at bytes 56 2) :: u16)"

definition elf_headers :: "u8 list \<Rightarrow> nat list" where
  "elf_headers bytes = map (ph_pos (le_at bytes 32 8) (elf_phentsize bytes)) [0..<elf_phnum bytes]"

definition elf_valid :: "u8 list \<Rightarrow> bool" where
  "elf_valid bytes \<longleftrightarrow> 64 \<le> length bytes \<and> take 4 bytes = ELF_MAGIC \<and> bytes ! 4 = 2 \<and> bytes ! 5 = 1
     \<and> 56 \<le> unat (elf_phentsize bytes) \<and> (\<forall>ph \<in> set (elf_headers bytes). ph + unat (elf_phentsize bytes) \<le> length bytes)"

lemma u16_as_u64: "unat (ucast (x :: u16) :: u64) = unat x" "unat (x :: u16) < 2 ^ 16"
proof -
  show "unat x < 2 ^ 16" using unsigned_less [where ?'a = nat and w = x] by simp
  then show "unat (ucast x :: u64) = unat x" by (simp add: unsigned_ucast_eq take_bit_eq_mod)
qed

lemma parse_eq:
  assumes "length bytes < 2 ^ 64"
  shows "parse bytes = Inr elf \<longleftrightarrow> elf_valid bytes \<and> load_segments elf \<noteq> []
    \<and> elf = \<lparr>entry_point = le_at bytes 24 8, load_segments = map (segment_at bytes) (filter (loadable_at bytes) (elf_headers bytes))\<rparr>"
proof (cases "64 \<le> length bytes")
  case True
  with assms have r: "read_u64 bytes 24 = Inr (le_at bytes 24 8)" "read_u64 bytes 32 = Inr (le_at bytes 32 8)"
    "read_u16 bytes 54 = Inr (ucast (le_at bytes 54 2))" "read_u16 bytes 56 = Inr (ucast (le_at bytes 56 2))"
    using read_le_inside [of 24 8 bytes] read_le_inside [of 32 8 bytes] read_le_inside [of 54 2 bytes] read_le_inside [of 56 2 bytes]
    by (simp_all add: read_u64_def read_u16_def)
  have sz: "unat (elf_phentsize bytes) < 2 ^ 16" "\<forall>i \<in> set [0..<elf_phnum bytes]. i < 2 ^ 16"
    using u16_as_u64(2) [of "ucast (le_at bytes 56 2)"] u16_as_u64(2) [of "ucast (le_at bytes 54 2)"]
    by (auto simp: elf_phentsize_def elf_phnum_def u16_as_u64(1))
  have lt: "elf_phentsize bytes < 56 \<longleftrightarrow> \<not> 56 \<le> unat (elf_phentsize bytes)"
    by (simp add: word_less_nat_alt not_le)
  show ?thesis
  proof (cases "56 \<le> unat (elf_phentsize bytes)")
    case True
    note e = lt parse_headers_eq [OF assms True sz]
    show ?thesis
      using \<open>64 \<le> length bytes\<close> True unfolding parse_def r rbind_Inr elf_phnum_def [symmetric] elf_phentsize_def [symmetric]
      by (auto simp: rbind_eq_Inr e elf_valid_def elf_headers_def)
  next
    case False
    then show ?thesis
      unfolding parse_def r rbind_Inr elf_phnum_def [symmetric] elf_phentsize_def [symmetric]
      by (simp add: lt elf_valid_def)
  qed
next
  case False
  then show ?thesis by (simp add: parse_def elf_valid_def)
qed

text \<open>C28. The ELF parser accepts a file exactly when it has the 64-bit little-endian header, program
  headers of at least 56 bytes that all lie inside the file, and at least one loadable segment; it
  then returns the entry point and the loadable segments in file order, each with the fields of its
  header. No index can run past the file: every other input is an error.\<close>

theorem parse_accepts_exactly:
  assumes "length bytes < 2 ^ 64"
  shows "parse bytes = Inr elf \<longleftrightarrow> elf_valid bytes \<and> load_segments elf \<noteq> []
    \<and> elf = \<lparr>entry_point = le_at bytes 24 8, load_segments = map (segment_at bytes) (filter (loadable_at bytes) (elf_headers bytes))\<rparr>"
  by (rule parse_eq [OF assms])

text \<open>A file with one segment of four bytes at address 0x10000 and a page of zeros behind it.\<close>

definition example_elf :: "u8 list" where
  "example_elf = ELF_MAGIC @ [2, 1, 1] @ replicate 9 0
     @ [2, 0, 0xF3, 0] @ to_le_bytes 4 1 @ to_le_bytes 8 0x10000 @ to_le_bytes 8 64 @ to_le_bytes 8 0
     @ to_le_bytes 4 0 @ to_le_bytes 2 64 @ to_le_bytes 2 56 @ to_le_bytes 2 1 @ replicate 6 0
     @ to_le_bytes 4 1 @ to_le_bytes 4 5 @ to_le_bytes 8 120 @ to_le_bytes 8 0x10000 @ to_le_bytes 8 0x10000
     @ to_le_bytes 8 4 @ to_le_bytes 8 8 @ to_le_bytes 8 0x1000 @ [0x93, 0x00, 0x50, 0x00]"

lemma parse_example: "parse example_elf = Inr \<lparr>entry_point = 0x10000, load_segments =
    [\<lparr>seg_offset = 120, seg_vaddr = 0x10000, seg_file_size = 4, seg_mem_size = 8\<rparr>]\<rparr>"
  by code_simp

theorem parse_accepts_exactly_witness: "elf_valid example_elf \<and> length example_elf = 124"
proof -
  have l: "length example_elf = 124" by code_simp
  then have "length example_elf < 2 ^ 64" by simp
  from parse_accepts_exactly [OF this] parse_example l show ?thesis by blast
qed

end
