(* ===== verification/Cache_Flush.thy ===== *)
theory Cache_Flush
  imports Hierarchy Bus
begin

text \<open>
  Flushing. \<open>flush_and_invalidate\<close> writes every dirty line of a level to the next one and empties the
  level; the bus does so from L1 down to L3 after it has loaded an image, so that RAM holds what the
  caches did. The contents seen by the machine do not change.
\<close>

subsection \<open>One level\<close>

text \<open>Same geometry, and the same lines except that some may have become invalid.\<close>

definition drained :: "'n cache \<Rightarrow> 'n cache \<Rightarrow> bool" where
  "drained c c' \<longleftrightarrow> block_bits c' = block_bits c \<and> set_bits c' = set_bits c \<and> length (c_sets c') = length (c_sets c)
     \<and> (\<forall>si. nways c' si = nways c si)
     \<and> (\<forall>si < length (c_sets c). \<forall>wi < nways c si. cl_valid (get_line c' si wi) \<longrightarrow> cl_valid (get_line c si wi))"

lemma drained_refl [simp]: "drained c c"
  by (simp add: drained_def)

lemma drained_trans: "drained a b \<Longrightarrow> drained b c \<Longrightarrow> drained a c"
  by (auto simp: drained_def)

text \<open>A cold level: no line is valid and the counters are those of a new cache.\<close>

definition cold :: "'n cache \<Rightarrow> bool" where
  "cold c \<longleftrightarrow> (\<forall>s \<in> set (c_sets c). \<forall>l \<in> set (ways s). \<not> cl_valid l)
     \<and> c_stats c = cache_stats_default \<and> access_tick c = 0"

lemma coldI:
  assumes "\<And>si wi. si < length (c_sets c) \<Longrightarrow> wi < nways c si \<Longrightarrow> \<not> cl_valid (get_line c si wi)"
    and "c_stats c = cache_stats_default" "access_tick c = 0"
  shows "cold c"
  unfolding cold_def
proof (intro conjI ballI assms(2,3))
  fix s l assume "s \<in> set (c_sets c)" "l \<in> set (ways s)"
  then obtain si wi where "si < length (c_sets c)" "wi < length (ways s)" "s = c_sets c ! si" "l = ways s ! wi"
    by (auto simp: in_set_conv_nth)
  with assms(1) [of si wi] show "\<not> cl_valid l" by (simp add: nways_def get_line_def)
qed

lemma cold_next [simp]: "cold (c\<lparr>c_next := n\<rparr>) = cold c"
  by (simp add: cold_def)

context byte_mem
begin

lemma flush_bytes_write: "write_bytes ops B i bs n = (Inr (), n') \<Longrightarrow> flush_bytes ops B i bs n = n'"
proof (induction bs arbitrary: i n)
  case (Cons b bs)
  then obtain n1 where "write_byte ops (B + of_nat i) b n = (Inr (), n1)" "write_bytes ops B (Suc i) bs n1 = (Inr (), n')"
    by (auto simp: sbind_eq_Inr)
  with Cons.IH show ?case by simp
qed (simp add: sreturn_def)

lemma next_same_view:
  assumes "cwf c" "minv n'" "view n' = view (c_next c)"
  shows "cwf (c\<lparr>c_next := n'\<rparr>)" "cview (c\<lparr>c_next := n'\<rparr>) = cview c"
proof -
  show wf: "cwf (c\<lparr>c_next := n'\<rparr>)"
    using assms by (simp add: cache_wf_def cache_geom_def unique_tags_def line_ok_def)
  show "cview (c\<lparr>c_next := n'\<rparr>) = cview c"
  proof
    fix a
    from assms(1) show "cview (c\<lparr>c_next := n'\<rparr>) a = cview c a"
    proof (cases rule: peek_cases [where a = a])
      case (hit wi)
      with peek_hit [OF cache_wfD(1,3) [OF wf], of wi a view] show ?thesis by simp
    next
      case miss
      with peek_miss [of "c\<lparr>c_next := n'\<rparr>" a view] assms(3) show ?thesis by simp
    qed
  qed
qed

lemma flush_write_back:
  assumes wf: "cwf c" and i: "si < 2 ^ set_bits c" "wi < nways c si"
  defines "l \<equiv> get_line c si wi"
  shows "\<exists>n'. (if cl_valid l \<and> cl_dirty l
       then c\<lparr>c_next := flush_bytes ops (line_base_address c (cl_tag l) (of_nat si)) 0 (cl_data l) (c_next c)\<rparr> else c)
       = c\<lparr>c_next := n'\<rparr>
    \<and> cwf (c\<lparr>c_next := n'\<rparr>) \<and> cview (c\<lparr>c_next := n'\<rparr>) = cview c
    \<and> (\<forall>a. holds c si l a \<longrightarrow> view n' a = Some (cl_data l ! off_of c a))"
proof (cases "cl_valid l \<and> cl_dirty l")
  case True
  have "line_ok view c si l" unfolding l_def by (rule cache_wfD(4) [OF wf i])
  with True obtain a0 where a0: "holds c si l a0" by (auto simp: line_ok_def)
  then have s: "set_of c a0 = si" by (simp add: holds_def)
  then have ix: "index_of c a0 = of_nat si" by (auto simp: set_of_def)
  from evict_line [OF wf, of wi a0, unfolded s ix, OF i(2), folded l_def] True obtain n' where
    e: "lift_next (write_bytes ops (line_base_address c (cl_tag l) (of_nat si)) 0 (cl_data l)) c = (Inr (), c\<lparr>c_next := n'\<rparr>)"
    and k: "cwf (c\<lparr>c_next := n'\<rparr>)" "cview (c\<lparr>c_next := n'\<rparr>) = cview c"
      "\<forall>a. holds c si l a \<longrightarrow> view n' a = Some (cl_data l ! off_of c a)"
    by auto
  obtain r n'' where w: "write_bytes ops (line_base_address c (cl_tag l) (of_nat si)) 0 (cl_data l) (c_next c) = (r, n'')"
    by (metis surj_pair)
  with e have "r = Inr ()" "n'' = n'" by (auto simp: lift_next_def dest: arg_cong [where f = c_next])
  with flush_bytes_write w have "flush_bytes ops (line_base_address c (cl_tag l) (of_nat si)) 0 (cl_data l) (c_next c) = n'"
    by blast
  with True k show ?thesis by (intro exI [of _ n']) simp
next
  case False
  have "line_ok view c si l" unfolding l_def by (rule cache_wfD(4) [OF wf i])
  with False have "holds c si l a \<longrightarrow> view (c_next c) a = Some (cl_data l ! off_of c a)" for a
    by (auto simp: line_ok_def holds_def)
  with False wf show ?thesis by (intro exI [of _ "c_next c"]) auto
qed

lemma flush_line_ok:
  assumes wf: "cwf c" and i: "si < 2 ^ set_bits c" "wi < nways c si"
  shows "cwf (flush_line ops si wi c)" "cview (flush_line ops si wi c) = cview c" "drained c (flush_line ops si wi c)"
    "\<not> cl_valid (get_line (flush_line ops si wi c) si wi)"
proof -
  let ?l = "get_line c si wi" and ?l' = "clear_line (get_line c si wi)"
  obtain n' where n': "flush_line ops si wi c = upd_line si wi clear_line (c\<lparr>c_next := n'\<rparr>)"
    and wf1: "cwf (c\<lparr>c_next := n'\<rparr>)" and v1: "cview (c\<lparr>c_next := n'\<rparr>) = cview c"
    and sync: "\<And>a. holds c si ?l a \<Longrightarrow> view n' a = Some (cl_data ?l ! off_of c a)"
    using flush_write_back [OF wf i] by (auto simp: flush_line_def Let_def)
  let ?c = "c\<lparr>c_next := n'\<rparr>"
  have len: "si < length (c_sets c)" using i(1) cache_wfD(1) [OF wf] by (simp add: cache_geom_def)
  have eq: "flush_line ops si wi c = upd_line si wi (\<lambda>_. ?l') ?c"
    by (simp add: n' upd_line_def get_line_def)
  have no: "\<not> holds ?c si ?l' a" for a by (simp add: holds_def clear_line_def)
  have d: "length (cl_data ?l') = 2 ^ block_bits ?c"
    using i cache_wfD(1) [OF wf] by (simp add: cache_geom_def clear_line_def)
  have ok: "line_ok view ?c si ?l'" by (simp add: line_ok_def holds_def clear_line_def)
  have r: "cwf (upd_line si wi (\<lambda>_. ?l') ?c)" "cview (upd_line si wi (\<lambda>_. ?l') ?c) a = cview ?c a" for a
    using replace_line [OF wf1 _ _ d ok, of wi] i no sync by simp_all
  from r(1) show "cwf (flush_line ops si wi c)" by (simp only: eq)
  from r(2) v1 show "cview (flush_line ops si wi c) = cview c" by (auto simp: eq fun_eq_iff)
  have g: "get_line (flush_line ops si wi c) sj wj = (if sj = si \<and> wj = wi then ?l' else get_line c sj wj)" for sj wj
    using get_line_upd [of si ?c wi "\<lambda>_. ?l'" sj wj] len i(2) by (simp add: eq)
  show "drained c (flush_line ops si wi c)"
    by (auto simp: drained_def g clear_line_def) (simp_all add: eq)
  show "\<not> cl_valid (get_line (flush_line ops si wi c) si wi)" by (simp add: g clear_line_def)
qed

lemma flush_ways_ok:
  assumes "cwf c" "si < 2 ^ set_bits c" "n \<le> nways c si"
  defines "c' \<equiv> fold (\<lambda>wi. flush_line ops si wi) [0..<n] c"
  shows "cwf c' \<and> cview c' = cview c \<and> drained c c' \<and> (\<forall>wi < n. \<not> cl_valid (get_line c' si wi))"
  using assms(3) unfolding c'_def
proof (induction n)
  case (Suc n)
  let ?c = "fold (\<lambda>wi. flush_line ops si wi) [0..<n] c"
  from Suc have ih: "cwf ?c" "cview ?c = cview c" "drained c ?c" "\<forall>wi < n. \<not> cl_valid (get_line ?c si wi)" by simp_all
  have i: "si < 2 ^ set_bits ?c" "n < nways ?c si" using ih(3) assms(2) Suc.prems by (simp_all add: drained_def)
  note f = flush_line_ok [OF ih(1) i]
  have len: "si < length (c_sets ?c)" using i(1) cache_wfD(1) [OF ih(1)] by (simp add: cache_geom_def)
  have "\<not> cl_valid (get_line (flush_line ops si n ?c) si wi)" if "wi < Suc n" for wi
  proof (cases "wi = n")
    case False
    with that ih(4) have "\<not> cl_valid (get_line ?c si wi)" by simp
    with f(3) len i(2) that show ?thesis by (auto simp: drained_def)
  qed (simp add: f(4))
  with f ih drained_trans [OF ih(3) f(3)] show ?case by simp
qed (use assms in simp)

lemma flush_sets_ok:
  assumes "cwf c" "n \<le> length (c_sets c)"
  defines "c' \<equiv> fold (\<lambda>si c. fold (\<lambda>wi. flush_line ops si wi) [0..<length (ways (c_sets c ! si))] c) [0..<n] c"
  shows "cwf c' \<and> cview c' = cview c \<and> drained c c' \<and> (\<forall>si < n. \<forall>wi < nways c si. \<not> cl_valid (get_line c' si wi))"
  using assms(2) unfolding c'_def
proof (induction n)
  case (Suc n)
  let ?f = "\<lambda>si c. fold (\<lambda>wi. flush_line ops si wi) [0..<length (ways (c_sets c ! si))] c"
  let ?c = "fold ?f [0..<n] c"
  from Suc have ih: "cwf ?c" "cview ?c = cview c" "drained c ?c"
    "\<forall>si < n. \<forall>wi < nways c si. \<not> cl_valid (get_line ?c si wi)" by simp_all
  have n: "n < 2 ^ set_bits ?c"
    using ih(3) Suc.prems cache_wfD(1) [OF assms(1)] by (simp add: drained_def cache_geom_def)
  have w: "cwf (?f n ?c)" "cview (?f n ?c) = cview ?c" "drained ?c (?f n ?c)"
    "\<forall>wi < nways ?c n. \<not> cl_valid (get_line (?f n ?c) n wi)"
    using flush_ways_ok [OF ih(1) n order.refl] by (simp_all add: nways_def)
  have nw: "nways ?c si = nways c si" "length (c_sets ?c) = length (c_sets c)" for si
    using ih(3) by (simp_all add: drained_def)
  have "\<not> cl_valid (get_line (?f n ?c) si wi)" if "si < Suc n" "wi < nways c si" for si wi
  proof (cases "si = n")
    case False
    with that ih(4) have "\<not> cl_valid (get_line ?c si wi)" by simp
    with w(3) that Suc.prems show ?thesis by (auto simp: drained_def nw)
  qed (use w(4) that nw in simp)
  with w ih drained_trans [OF ih(3) w(3)] show ?case by simp
qed (use assms in simp)

lemma flush_and_invalidate_ok:
  assumes "cwf c"
  defines "c' \<equiv> flush_and_invalidate ops c"
  shows "cwf c'" "cview c' = cview c" "view (c_next c') = cview c" "minv (c_next c')" "cold c'"
proof -
  define c1 where "c1 = fold (\<lambda>si c. fold (\<lambda>wi. flush_line ops si wi) [0..<length (ways (c_sets c ! si))] c)
    [0..<length (c_sets c)] c"
  have f: "cwf c1" "cview c1 = cview c" "drained c c1"
    "\<forall>si < length (c_sets c). \<forall>wi < nways c si. \<not> cl_valid (get_line c1 si wi)"
    using flush_sets_ok [OF assms(1) order.refl] by (simp_all add: c1_def)
  have c': "c' = c1\<lparr>c_stats := cache_stats_default, access_tick := 0\<rparr>"
    by (simp add: c'_def flush_and_invalidate_def c1_def Let_def)
  have sl: "same_lines c1 c'" by (simp add: c' same_lines_def)
  show wf': "cwf c'" by (rule same_lines_wf [OF f(1) sl])
  show v: "cview c' = cview c" using same_lines_peek [OF f(1) sl] f(2) by simp
  show "minv (c_next c')" by (rule cache_wfD(2) [OF wf'])
  show "cold c'"
    by (rule coldI) (use f(3,4) in \<open>simp_all add: c' drained_def nways_def get_line_def\<close>)
  have "view (c_next c1) a = cview c1 a" for a
  proof -
    have "set_of c1 a < length (c_sets c)"
      using f(3) cache_wfD(1) [OF assms(1)] set_of_less [of c1 a] by (simp add: drained_def cache_geom_def)
    then have "\<not> holds c1 (set_of c1 a) (get_line c1 (set_of c1 a) wi) a" if "wi < nways c1 (set_of c1 a)" for wi
      using f(3,4) that by (simp add: drained_def holds_def)
    from peek_miss [OF this] show ?thesis by simp
  qed
  then show "view (c_next c') = cview c" using f(2) by (auto simp: c' fun_eq_iff)
qed

end

subsection \<open>The hierarchy\<close>

lemma cold_cache_reset_ok:
  assumes "hier_wf (l1_cache b)"
  defines "c \<equiv> l1_cache (cold_cache_reset b)"
  shows "hier_wf c" "hier_peek_byte_raw c = hier_peek_byte_raw (l1_cache b)"
    "ram_peek_byte (c_next (c_next (c_next c))) = hier_peek_byte_raw (l1_cache b)"
    "cold c" "cold (c_next c)" "cold (c_next (c_next c))"
proof -
  define c1 where "c1 = flush_and_invalidate (cache_ops (cache_ops ram_ops)) (l1_cache b)"
  define n2 where "n2 = flush_and_invalidate (cache_ops ram_ops) (c_next c1)"
  define n3 where "n3 = flush_and_invalidate ram_ops (c_next n2)"
  have c: "c = c1\<lparr>c_next := n2\<lparr>c_next := n3\<rparr>\<rparr>"
    by (simp add: c_def cold_cache_reset_def c1_def n2_def n3_def Let_def)
  note f1 = l2_mem.flush_and_invalidate_ok [OF assms(1) [unfolded hier_wf_def], folded c1_def]
  note f2 = l3_mem.flush_and_invalidate_ok [OF f1(4), folded n2_def]
  note f3 = ram_mem.flush_and_invalidate_ok [OF f2(4), folded n3_def]
  note s2 = l3_mem.next_same_view [OF f2(1) f3(1), unfolded f3(2), OF refl]
  note s1 = l2_mem.next_same_view [OF f1(1) s2(1), unfolded s2(2) f2(2), OF refl]
  show "hier_wf c" "hier_peek_byte_raw c = hier_peek_byte_raw (l1_cache b)"
    unfolding hier_wf_def hier_peek_byte_raw_def c using s1 f1(2) by simp_all
  show "ram_peek_byte (c_next (c_next (c_next c))) = hier_peek_byte_raw (l1_cache b)"
    unfolding hier_peek_byte_raw_def c using f1(3) f2(3) f3(3) by simp
  show "cold c" "cold (c_next c)" "cold (c_next (c_next c))"
    unfolding c using f1(5) f2(5) f3(5) by simp_all
qed

end
