(* ===== verification/Virtual_Machine.thy ===== *)
theory Virtual_Machine
  imports Pipeline Elf Cache_Flush
begin

text \<open>
  The machine (\<open>virtual_machine.rs\<close>): loading an ELF image into RAM through the caches, the two
  machines built on the pipelined and on the functional core, running them for a number of steps,
  checkpoints, and the debugger's view of memory. \<open>Pipeline::run\<close> of \<open>cpu/pipeline.rs\<close> is here too.

  The firmware in ROM is assembled by another crate at start: \<open>rom_image\<close> is an argument. The same
  holds for the ELF bytes that the assembler's \<open>to_elf\<close> produces for \<open>VirtualMachine::new\<close> and
  \<open>new_kernel\<close>. A Rust \<open>String\<close> is the list of its UTF-8 bytes.
\<close>

subsection \<open>Lossy UTF-8\<close>

text \<open>\<open>String::from_utf8_lossy\<close>: the longest valid prefixes are kept, and each maximal ill-formed
  sequence becomes U+FFFD.\<close>

definition utf8_char_width :: "u8 \<Rightarrow> nat" where
  "utf8_char_width b =
     (if b < 0x80 then 1 else if b < 0xC2 then 0 else if b < 0xE0 then 2 else if b < 0xF0 then 3
      else if b < 0xF5 then 4 else 0)"

definition safe_get :: "u8 list \<Rightarrow> nat \<Rightarrow> u8" where
  "safe_get bs i = (if i < length bs then bs ! i else 0)"

definition utf8_cont :: "u8 \<Rightarrow> bool" where
  "utf8_cont b \<longleftrightarrow> b AND 192 = 128"

definition utf8_second :: "u8 \<Rightarrow> u8 \<Rightarrow> bool" where
  "utf8_second b n \<longleftrightarrow>
     (b = 0xE0 \<and> 0xA0 \<le> n \<and> n \<le> 0xBF) \<or> (0xE1 \<le> b \<and> b \<le> 0xEC \<and> 0x80 \<le> n \<and> n \<le> 0xBF)
     \<or> (b = 0xED \<and> 0x80 \<le> n \<and> n \<le> 0x9F) \<or> (0xEE \<le> b \<and> b \<le> 0xEF \<and> 0x80 \<le> n \<and> n \<le> 0xBF)
     \<or> (b = 0xF0 \<and> 0x90 \<le> n \<and> n \<le> 0xBF) \<or> (0xF1 \<le> b \<and> b \<le> 0xF3 \<and> 0x80 \<le> n \<and> n \<le> 0xBF)
     \<or> (b = 0xF4 \<and> 0x80 \<le> n \<and> n \<le> 0x8F)"

text \<open>Whether the sequence that starts with \<open>b\<close> is well formed, and how many of the following bytes
  it takes.\<close>

definition utf8_sequence :: "u8 \<Rightarrow> u8 list \<Rightarrow> bool \<times> nat" where
  "utf8_sequence b bs =
     (case utf8_char_width b of
        Suc 0 \<Rightarrow> (True, 0)
      | Suc (Suc 0) \<Rightarrow> if utf8_cont (safe_get bs 0) then (True, 1) else (False, 0)
      | Suc (Suc (Suc 0)) \<Rightarrow>
          if \<not> utf8_second b (safe_get bs 0) then (False, 0)
          else if \<not> utf8_cont (safe_get bs 1) then (False, 1) else (True, 2)
      | Suc (Suc (Suc (Suc 0))) \<Rightarrow>
          if \<not> utf8_second b (safe_get bs 0) then (False, 0)
          else if \<not> utf8_cont (safe_get bs 1) then (False, 1)
          else if \<not> utf8_cont (safe_get bs 2) then (False, 2) else (True, 3)
      | _ \<Rightarrow> (False, 0))"

function from_utf8_lossy :: "u8 list \<Rightarrow> u8 list" where
  "from_utf8_lossy [] = []"
| "from_utf8_lossy (b # bs) =
     (case utf8_sequence b bs of (ok, k) \<Rightarrow>
        (if ok then b # take k bs else [0xEF, 0xBF, 0xBD]) @ from_utf8_lossy (drop k bs))"
  by pat_completeness auto

termination
  by (relation "measure length") auto

subsection \<open>Outcomes\<close>

datatype step_outcome = Step_Continue | Step_Halted i64

datatype run_outcome = Run_Halted i64 | Run_TimedOut | Run_Fault vm_error

record run_result =
  run_steps_taken :: u64
  run_uart_output :: "u8 list"
  run_termination :: run_outcome

record virtual_machine =
  vm_cpu :: pipeline
  vm_bus :: system_bus

record functional_machine =
  fm_core :: functional_core
  fm_bus :: system_bus

datatype functional_step_outcome = Fm_Continue retire_event | Fm_Halted i64 retire_event

subsection \<open>Loading an ELF image\<close>

record loaded_elf =
  le_bus :: system_bus
  start_pc :: u64
  stack_ptr :: u64

abbreviation (input) ELF_LOAD_BASE :: u64 where "ELF_LOAD_BASE \<equiv> 0x00010000"
abbreviation (input) HEAP_PTR_ADDR :: u64 where "HEAP_PTR_ADDR \<equiv> RAM_BASE + 32 * 1024 * 1024 - 8"

text \<open>The loops that write to the bus; \<open>?\<close> leaves the function, and the bus is dropped then.\<close>

fun bus_write_data :: "u64 \<Rightarrow> nat \<Rightarrow> u8 list \<Rightarrow> (system_bus, unit) action" where
  "bus_write_data base i [] = sreturn ()"
| "bus_write_data base i (byte # bs) =
     sbind (bus_write_byte (base + of_nat i) byte) (\<lambda>_. bus_write_data base (Suc i) bs)"

fun bus_zero_fill :: "u64 \<Rightarrow> nat \<Rightarrow> (system_bus, unit) action" where
  "bus_zero_fill addr 0 = sreturn ()"
| "bus_zero_fill addr (Suc n) = sbind (bus_write_byte addr 0) (\<lambda>_. bus_zero_fill (addr + 1) n)"

definition range_len :: "u64 \<Rightarrow> u64 \<Rightarrow> nat" where
  "range_len lo hi = (if lo < hi then unat (hi - lo) else 0)"

definition image_base_of :: "elf_load_segment list \<Rightarrow> u64" where
  "image_base_of segs = (case segs of [] \<Rightarrow> RAM_BASE | s # ss \<Rightarrow> fold min (map seg_vaddr ss) (seg_vaddr s))"

definition mapped_vaddr :: "u64 \<Rightarrow> elf_load_segment \<Rightarrow> u64" where
  "mapped_vaddr image_base seg = RAM_BASE + (seg_vaddr seg - image_base)"

definition load_segment ::
  "u8 list \<Rightarrow> u64 \<Rightarrow> elf_load_segment \<Rightarrow> (system_bus \<times> u64, unit) action" where
  "load_segment bytes image_base seg s = (case s of (b, highest) \<Rightarrow>
     if seg_mem_size seg < seg_file_size seg then
       (Inl (Other (''ELF PT_LOAD segment at '' @ show_hex (unat (seg_vaddr seg)) @ '' has file size ''
          @ show_dec (unat (seg_file_size seg)) @ '' larger than memory size '' @ show_dec (unat (seg_mem_size seg)))), s)
     else
       let addr = mapped_vaddr image_base seg;
           s1 = (b, max highest (addr + seg_mem_size seg))
       in case checked_add (seg_offset seg) (seg_file_size seg) of
            None \<Rightarrow> (Inl (Other ''ELF segment file range overflow''), s1)
          | Some file_end \<Rightarrow>
              (case get_slice bytes (seg_offset seg) file_end of
                 None \<Rightarrow> (Inl (Other ''ELF PT_LOAD range outside file''), s1)
               | Some data \<Rightarrow>
                   (case sbind (bus_write_data addr 0 data) (\<lambda>_.
                           if seg_mem_size seg > seg_file_size seg
                           then bus_zero_fill (addr + seg_file_size seg)
                                  (range_len (addr + seg_file_size seg) (addr + seg_mem_size seg))
                           else sreturn ()) b of
                      (r, b') \<Rightarrow> (r, (b', snd s1)))))"

fun load_segments_loop ::
  "u8 list \<Rightarrow> u64 \<Rightarrow> elf_load_segment list \<Rightarrow> (system_bus \<times> u64, unit) action" where
  "load_segments_loop bytes image_base [] = sreturn ()"
| "load_segments_loop bytes image_base (seg # segs) =
     sbind (load_segment bytes image_base seg) (\<lambda>_. load_segments_loop bytes image_base segs)"

definition load_elf :: "u8 list \<Rightarrow> u8 list \<Rightarrow> loaded_elf result" where
  "load_elf rom_image bytes =
     rbind (parse bytes) (\<lambda>elf.
       let image_base = image_base_of (load_segments elf) in
       case load_segments_loop bytes image_base (load_segments elf) (system_bus_new rom_image, RAM_BASE) of
         (Inl e, _) \<Rightarrow> Inl e
       | (Inr _, (b, highest)) \<Rightarrow>
           (case bus_write_doubleword HEAP_PTR_ADDR (align_up highest 0x1000) b of
              (Inl e, _) \<Rightarrow> Inl e
            | (Inr _, b') \<Rightarrow>
                Inr \<lparr>le_bus = cold_cache_reset b',
                     start_pc = RAM_BASE + (entry_point elf - image_base),
                     stack_ptr = RAM_BASE + of_nat RAM_SIZE_DEFAULT - 16\<rparr>))"

subsection \<open>Constructors\<close>

definition vm_from_elf :: "u8 list \<Rightarrow> u8 list \<Rightarrow> virtual_machine result" where
  "vm_from_elf rom_image bytes =
     rbind (load_elf rom_image bytes) (\<lambda>loaded.
       Inr \<lparr>vm_cpu = pipeline_new (start_pc loaded) (stack_ptr loaded), vm_bus = le_bus loaded\<rparr>)"

text \<open>\<open>new_kernel\<close> on the ELF bytes the assembler gives it; the panic is \<open>Inl\<close>.\<close>

definition vm_new_kernel :: "u8 list \<Rightarrow> u8 list \<Rightarrow> virtual_machine result" where
  "vm_new_kernel rom_image elf =
     rbind (vm_from_elf rom_image elf) (\<lambda>vm.
       let entry = pl_peek_pc (vm_cpu vm) in
       Inr (vm\<lparr>vm_cpu := pl_set_boot_entry entry (pl_reset_pc ROM_BASE (vm_cpu vm))\<rparr>))"

definition fm_from_elf :: "u8 list \<Rightarrow> u8 list \<Rightarrow> functional_machine result" where
  "fm_from_elf rom_image bytes =
     rbind (load_elf rom_image bytes) (\<lambda>loaded.
       Inr \<lparr>fm_core = functional_new (start_pc loaded) (stack_ptr loaded), fm_bus = le_bus loaded\<rparr>)"

definition fm_new_kernel :: "u8 list \<Rightarrow> u8 list \<Rightarrow> functional_machine result" where
  "fm_new_kernel rom_image elf =
     rbind (fm_from_elf rom_image elf) (\<lambda>m.
       let entry = arch_pc (fc_architectural (fm_core m)) in
       Inr (m\<lparr>fm_core := fc_set_boot_entry entry (fc_reset_pc ROM_BASE (fm_core m))\<rparr>))"

subsection \<open>Stepping and running\<close>

definition vm_step :: "float_host \<Rightarrow> (virtual_machine, step_outcome) action" where
  "vm_step h vm = (case tick h (vm_cpu vm, vm_bus vm) of
     (Inl e, (p, b)) \<Rightarrow> (Inl e, \<lparr>vm_cpu = p, vm_bus = b\<rparr>)
   | (Inr (Tick_Halted code), (p, b)) \<Rightarrow> (Inr (Step_Halted code), \<lparr>vm_cpu = p, vm_bus = b\<rparr>)
   | (Inr _, (p, b)) \<Rightarrow>
       (case take_syscon_exit b of
          (Some code, b') \<Rightarrow> (Inr (Step_Halted code), \<lparr>vm_cpu = p, vm_bus = b'\<rparr>)
        | (None, b') \<Rightarrow> (Inr Step_Continue, \<lparr>vm_cpu = p, vm_bus = b'\<rparr>)))"

text \<open>\<open>for steps in 1..=max_steps\<close>: \<open>n\<close> iterations are left and \<open>k\<close> is the current value of \<open>steps\<close>.\<close>

fun run_steps_from ::
  "u64 \<Rightarrow> ('s, step_outcome) action \<Rightarrow> nat \<Rightarrow> u64 \<Rightarrow> 's \<Rightarrow> (u64 \<times> run_outcome) \<times> 's" where
  "run_steps_from max_steps step 0 k s = ((max_steps, Run_TimedOut), s)"
| "run_steps_from max_steps step (Suc n) k s =
     (case step s of
        (Inr Step_Continue, s') \<Rightarrow> run_steps_from max_steps step n (k + 1) s'
      | (Inr (Step_Halted code), s') \<Rightarrow> ((k, Run_Halted code), s')
      | (Inl e, s') \<Rightarrow> ((k, Run_Fault e), s'))"

definition run_steps ::
  "u64 \<Rightarrow> ('s, step_outcome) action \<Rightarrow> 's \<Rightarrow> (u64 \<times> run_outcome) \<times> 's" where
  "run_steps max_steps step = run_steps_from max_steps step (unat max_steps) 1"

definition bus_drain_output :: "system_bus \<Rightarrow> u8 list \<times> system_bus" where
  "bus_drain_output b = (case drain_output (bus_uart b) of (out, d) \<Rightarrow> (out, b\<lparr>bus_uart := d\<rparr>))"

definition vm_run :: "float_host \<Rightarrow> u64 \<Rightarrow> virtual_machine \<Rightarrow> run_result \<times> virtual_machine" where
  "vm_run h max_steps vm =
     (case run_steps max_steps (vm_step h) vm of ((steps, termination), vm1) \<Rightarrow>
        case bus_drain_output (vm_bus vm1) of (out, b) \<Rightarrow>
          (\<lparr>run_steps_taken = steps, run_uart_output = from_utf8_lossy out, run_termination = termination\<rparr>,
           vm1\<lparr>vm_bus := b\<rparr>))"

definition fm_step :: "float_host \<Rightarrow> (functional_machine, functional_step_outcome) action" where
  "fm_step h m = (case fc_step h (fm_core m, fm_bus m) of
     (Inl e, (f, b)) \<Rightarrow> (Inl e, \<lparr>fm_core = f, fm_bus = b\<rparr>)
   | (Inr event, (f, b)) \<Rightarrow>
       (case take_syscon_exit b of
          (Some code, b') \<Rightarrow> (Inr (Fm_Halted code event), \<lparr>fm_core = f, fm_bus = b'\<rparr>)
        | (None, b') \<Rightarrow> (Inr (Fm_Continue event), \<lparr>fm_core = f, fm_bus = b'\<rparr>)))"

definition fm_run_result :: "u64 \<Rightarrow> run_outcome \<Rightarrow> functional_machine \<Rightarrow> run_result \<times> functional_machine" where
  "fm_run_result steps termination m =
     (case bus_drain_output (fm_bus m) of (out, b) \<Rightarrow>
        (\<lparr>run_steps_taken = steps, run_uart_output = from_utf8_lossy out, run_termination = termination\<rparr>,
         m\<lparr>fm_bus := b\<rparr>))"

fun fm_run_from :: "float_host \<Rightarrow> u64 \<Rightarrow> nat \<Rightarrow> u64 \<Rightarrow> functional_machine \<Rightarrow> run_result \<times> functional_machine" where
  "fm_run_from h max_steps 0 k m = fm_run_result max_steps Run_TimedOut m"
| "fm_run_from h max_steps (Suc n) k m =
     (case fm_step h m of
        (Inr (Fm_Continue _), m') \<Rightarrow> fm_run_from h max_steps n (k + 1) m'
      | (Inr (Fm_Halted code _), m') \<Rightarrow> fm_run_result k (Run_Halted code) m'
      | (Inl e, m') \<Rightarrow> fm_run_result k (Run_Fault e) m')"

definition fm_run :: "float_host \<Rightarrow> u64 \<Rightarrow> functional_machine \<Rightarrow> run_result \<times> functional_machine" where
  "fm_run h max_steps = fm_run_from h max_steps (unat max_steps) 1"

text \<open>\<open>Pipeline::run\<close>: the loop of the core itself, where an error ends the run as exit code -1.\<close>

fun pl_run_loop :: "float_host \<Rightarrow> nat \<Rightarrow> pipeline \<times> system_bus \<Rightarrow> tick_outcome \<times> pipeline \<times> system_bus" where
  "pl_run_loop h 0 s = (Tick_Continue, s)"
| "pl_run_loop h (Suc n) s =
     (case tick h s of
        (Inl _, s') \<Rightarrow> (Tick_Halted (- 1), s')
      | (Inr (Tick_Halted code), s') \<Rightarrow> (Tick_Halted code, s')
      | (Inr _, (p, b)) \<Rightarrow>
          (case take_syscon_exit b of
             (Some code, b') \<Rightarrow> (Tick_Halted code, p, b')
           | (None, b') \<Rightarrow> pl_run_loop h n (p, b')))"

definition pl_run ::
  "float_host \<Rightarrow> u64 \<Rightarrow> pipeline \<times> system_bus \<Rightarrow> (tick_outcome \<times> u8 list) \<times> pipeline \<times> system_bus" where
  "pl_run h max_cycles s =
     (case pl_run_loop h (unat max_cycles) s of (outcome, p, b) \<Rightarrow>
        case bus_drain_output b of (out, b') \<Rightarrow> ((outcome, from_utf8_lossy out), p, b'))"

subsection \<open>Devices, checkpoints and inspection\<close>

definition vm_set_memory_latency_config :: "memory_latency_config \<Rightarrow> virtual_machine \<Rightarrow> virtual_machine" where
  "vm_set_memory_latency_config cfg vm = vm\<lparr>vm_bus := set_memory_latency_config cfg (vm_bus vm)\<rparr>"

definition vm_uart_receive :: "u8 \<Rightarrow> virtual_machine \<Rightarrow> virtual_machine" where
  "vm_uart_receive byte vm = vm\<lparr>vm_bus := (vm_bus vm)\<lparr>bus_uart := uart_receive byte (bus_uart (vm_bus vm))\<rparr>\<rparr>"

definition vm_uart_output :: "virtual_machine \<Rightarrow> u8 list \<times> virtual_machine" where
  "vm_uart_output vm = (case bus_drain_output (vm_bus vm) of (out, b) \<Rightarrow> (out, vm\<lparr>vm_bus := b\<rparr>))"

definition vm_keyboard_push :: "u16 \<Rightarrow> bool \<Rightarrow> virtual_machine \<Rightarrow> virtual_machine" where
  "vm_keyboard_push scancode pressed vm = vm\<lparr>vm_bus := keyboard_push scancode pressed (vm_bus vm)\<rparr>"

definition vm_write_csr_mtvec :: "u64 \<Rightarrow> virtual_machine \<Rightarrow> virtual_machine" where
  "vm_write_csr_mtvec v vm = vm\<lparr>vm_cpu := pl_write_csr_mtvec v (vm_cpu vm)\<rparr>"

definition vm_write_ram :: "u64 \<Rightarrow> u8 list \<Rightarrow> (virtual_machine, unit) action" where
  "vm_write_ram addr data vm =
     (case bus_write_data addr 0 data (vm_bus vm) of
        (Inl e, b) \<Rightarrow> (Inl e, vm\<lparr>vm_bus := b\<rparr>)
      | (Inr _, b) \<Rightarrow> (Inr (), vm\<lparr>vm_bus := cold_cache_reset b\<rparr>))"

record vm_snapshot =
  snap_cpu :: pipeline
  snap_devices :: device_state
  snap_ram :: "u8 list"

definition snap_fb_image :: "vm_snapshot \<Rightarrow> u8 list" where
  "snap_fb_image s = fb_image (snap_devices s)"

definition without_bulk :: "vm_snapshot \<Rightarrow> vm_snapshot" where
  "without_bulk s = \<lparr>snap_cpu = snap_cpu s, snap_devices = without_fb (snap_devices s), snap_ram = []\<rparr>"

definition with_bulk :: "u8 list \<Rightarrow> u8 list \<Rightarrow> vm_snapshot \<Rightarrow> vm_snapshot" where
  "with_bulk ram fb s = \<lparr>snap_cpu = snap_cpu s, snap_devices = load_fb_image fb (snap_devices s), snap_ram = ram\<rparr>"

definition vm_take_snapshot :: "virtual_machine \<Rightarrow> vm_snapshot" where
  "vm_take_snapshot vm =
     \<lparr>snap_cpu = vm_cpu vm, snap_devices = device_state_of (vm_bus vm), snap_ram = ram_image (vm_bus vm)\<rparr>"

definition vm_restore :: "vm_snapshot \<Rightarrow> virtual_machine \<Rightarrow> virtual_machine" where
  "vm_restore snap vm =
     \<lparr>vm_cpu = snap_cpu snap,
      vm_bus = load_ram_image (snap_ram snap) (restore_device_state (snap_devices snap) (vm_bus vm))\<rparr>"

text \<open>The debugger's translation, without permission checks or updates of the table.\<close>

fun debug_walk :: "system_bus \<Rightarrow> u64 \<Rightarrow> nat \<Rightarrow> u64 \<Rightarrow> u64 option" where
  "debug_walk b vaddr 0 table = None"
| "debug_walk b vaddr (Suc level) table =
     (let shift = 12 + 9 * level;
          vpn = drop_bit shift vaddr AND 0x1FF;
          pte = from_le_bytes (peek_bytes_raw b (table + vpn * 8) 8);
          ppn = drop_bit 10 pte AND (push_bit 44 1 - 1)
      in if pte AND 1 = 0 then None
         else if drop_bit 1 pte AND 1 \<noteq> 0 \<or> drop_bit 3 pte AND 1 \<noteq> 0 then
           (if ppn AND (push_bit (9 * level) 1 - 1) \<noteq> 0 then None
            else Some (push_bit 12 ppn OR (vaddr AND (push_bit shift 1 - 1))))
         else if drop_bit 2 pte AND 1 \<noteq> 0 then None
         else debug_walk b vaddr level (push_bit 12 ppn))"

definition debug_walk_sv39 :: "system_bus \<Rightarrow> u64 \<Rightarrow> u64 \<Rightarrow> u64 option" where
  "debug_walk_sv39 b satp_val vaddr =
     (let upper = drop_bit 39 vaddr in
      if upper \<noteq> 0 \<and> upper \<noteq> 0x1FFFFFF then None
      else debug_walk b vaddr 3 (push_bit 12 (satp_val AND (push_bit 44 1 - 1))))"

definition debug_translate :: "virtual_machine \<Rightarrow> u64 \<Rightarrow> u64 option" where
  "debug_translate vm vaddr =
     (let satp_val = sn_satp (pl_peek_csrs (vm_cpu vm));
          mode = drop_bit 60 satp_val AND 0xF
      in if priv_mode (p_registers (vm_cpu vm)) = Machine \<or> mode = 0 then Some vaddr
         else if mode \<noteq> 8 then None
         else debug_walk_sv39 (vm_bus vm) satp_val vaddr)"

function peek_bytes_virtual :: "virtual_machine \<Rightarrow> u64 \<Rightarrow> nat \<Rightarrow> u8 list" where
  "peek_bytes_virtual vm va remaining =
     (if remaining = 0 then []
      else let chunk = min (unat (0x1000 - (va AND 0xFFF))) remaining in
        (case debug_translate vm va of
           Some pa \<Rightarrow> peek_bytes_raw (vm_bus vm) pa chunk
         | None \<Rightarrow> replicate chunk 0)
        @ peek_bytes_virtual vm (va + of_nat chunk) (remaining - chunk))"
  by pat_completeness auto

termination
proof (relation "measure (\<lambda>(vm, va, remaining). remaining)")
  fix va :: u64 and remaining :: nat
  have "va AND 0xFFF \<noteq> 0x1000"
    using bit_eq_iff [of "va AND 0xFFF" "0x1000"] by (auto simp: bit_simps dest!: spec [of _ 12])
  then have "unat (0x1000 - (va AND 0xFFF)) \<noteq> 0" by (simp add: unat_eq_0)
  then show "((vm, va + of_nat c, remaining - c), vm, va, remaining) \<in> measure (\<lambda>(vm, va, remaining). remaining)"
    if "remaining \<noteq> 0" "c = min (unat (0x1000 - (va AND 0xFFF))) remaining" for c and vm :: virtual_machine
    using that by auto
qed simp

end
