(* ===== verification/Machine_Correct.thy ===== *)
theory Machine_Correct
  imports Virtual_Machine Pipeline_Correct Functional_Correct
begin

text \<open>
  Running and loading. A run ends at the first step that meets the power-off register or after the
  given number of steps, and never with a fault. An ELF image whose segments fit in RAM loads, and
  RAM then holds exactly the segments, zero filled, and the heap pointer. Every state of the machine
  built on the functional core is well formed.
\<close>

subsection \<open>Runs\<close>

fun continues :: "('s, step_outcome) action \<Rightarrow> nat \<Rightarrow> 's \<Rightarrow> 's option" where
  "continues step 0 s = Some s"
| "continues step (Suc n) s =
     (case step s of (Inr Step_Continue, s') \<Rightarrow> continues step n s' | _ \<Rightarrow> None)"

text \<open>What a run of at most \<open>n\<close> steps that counts from \<open>k\<close> reports.\<close>

definition run_reports ::
  "('s, step_outcome) action \<Rightarrow> u64 \<Rightarrow> nat \<Rightarrow> u64 \<Rightarrow> 's \<Rightarrow> (u64 \<times> run_outcome) \<times> 's \<Rightarrow> bool" where
  "run_reports step mx n k s = (\<lambda>((steps, out), s').
     (case out of
        Run_TimedOut \<Rightarrow> steps = mx \<and> continues step n s = Some s'
      | Run_Halted c \<Rightarrow> \<exists>j s1. j < n \<and> steps = k + of_nat j \<and> continues step j s = Some s1 \<and> step s1 = (Inr (Step_Halted c), s')
      | Run_Fault e \<Rightarrow> \<exists>j s1. j < n \<and> steps = k + of_nat j \<and> continues step j s = Some s1 \<and> step s1 = (Inl e, s')))"

lemma run_reports_Suc:
  assumes "step s = (Inr Step_Continue, s1)" "run_reports step mx n (k + 1) s1 r"
  shows "run_reports step mx (Suc n) k s r"
proof -
  have *: "\<exists>j t. j < Suc n \<and> steps = k + of_nat j \<and> continues step j s = Some t \<and> Q t"
    if "\<exists>j t. j < n \<and> steps = k + 1 + of_nat j \<and> continues step j s1 = Some t \<and> Q t" for Q steps
  proof -
    from that obtain j t where "j < n" "steps = k + 1 + of_nat j" "continues step j s1 = Some t" "Q t" by blast
    then show ?thesis using assms(1) by (intro exI [of _ "Suc j"] exI [of _ t]) (simp add: add.assoc)
  qed
  obtain steps out s' where r: "r = ((steps, out), s')" by (metis surj_pair)
  show ?thesis
    using assms * unfolding run_reports_def r by (cases out) simp_all
qed

lemma run_steps_from_reports: "run_reports step mx n k s (run_steps_from mx step n k s)"
proof (induction n arbitrary: k s)
  case (Suc n)
  obtain r s1 where st: "step s = (r, s1)" by (cases "step s")
  show ?case
  proof (cases "r = Inr Step_Continue")
    case True
    with run_reports_Suc [OF _ Suc.IH] st show ?thesis by simp
  next
    case False
    then consider c where "r = Inr (Step_Halted c)" | e where "r = Inl e"
      by (metis step_outcome.exhaust sum.exhaust_sel)
    then show ?thesis using st by cases (auto simp: run_reports_def intro!: exI [of _ 0])
  qed
qed (simp add: run_reports_def)

lemma vm_step_cases:
  obtains p b where "tick h (vm_cpu vm, vm_bus vm) = (Inr Tick_Continue, p, b)"
    "vm_step h vm = (case syscon_exit b of None \<Rightarrow> Inr Step_Continue | Some c \<Rightarrow> Inr (Step_Halted c),
       \<lparr>vm_cpu = p, vm_bus = b\<lparr>syscon_exit := None\<rparr>\<rparr>)"
proof -
  obtain p b where t: "tick h (vm_cpu vm, vm_bus vm) = (Inr Tick_Continue, p, b)"
    using tick_result by (metis surj_pair)
  then have "vm_step h vm = (case syscon_exit b of None \<Rightarrow> Inr Step_Continue | Some c \<Rightarrow> Inr (Step_Halted c),
       \<lparr>vm_cpu = p, vm_bus = b\<lparr>syscon_exit := None\<rparr>\<rparr>)"
    by (simp add: vm_step_def take_syscon_exit_def split: option.splits)
  with t that show thesis by blast
qed

text \<open>C11. A run of the virtual machine always comes back, with at most the requested number of
  steps, and never with a fault: either it took all the steps and each of them continued, or it took
  \<open>j + 1\<close> steps, the first \<open>j\<close> continued, and the last one left an exit code in the power-off register,
  which is the code reported.\<close>

theorem run_ends_at_power_off:
  "case vm_run h mx vm of (r, vm') \<Rightarrow>
     (case run_termination r of
        Run_TimedOut \<Rightarrow> run_steps_taken r = mx \<and> continues (vm_step h) (unat mx) vm \<noteq> None
      | Run_Halted c \<Rightarrow>
          (\<exists>j vm1 p b. j < unat mx \<and> unat (run_steps_taken r) = Suc j \<and> continues (vm_step h) j vm = Some vm1
             \<and> tick h (vm_cpu vm1, vm_bus vm1) = (Inr Tick_Continue, p, b) \<and> syscon_exit b = Some c)
      | Run_Fault e \<Rightarrow> False)"
proof -
  obtain steps out vm1 where run: "run_steps mx (vm_step h) vm = ((steps, out), vm1)" by (metis surj_pair)
  with run_steps_from_reports [of "vm_step h" mx "unat mx" 1 vm]
  have rep: "run_reports (vm_step h) mx (unat mx) 1 vm ((steps, out), vm1)" by (simp add: run_steps_def)
  have no_fault: "fst (vm_step h s) \<noteq> Inl e" for s e
    by (rule vm_step_cases [of h s]) (simp split: option.splits)
  obtain r vm' where r: "vm_run h mx vm = (r, vm')" "run_termination r = out" "run_steps_taken r = steps"
    using run by (cases "bus_drain_output (vm_bus vm1)") (simp add: vm_run_def)
  show ?thesis
  proof (cases out)
    case (Run_Halted c)
    with rep obtain j s1 where j: "j < unat mx" "steps = 1 + of_nat j" "continues (vm_step h) j vm = Some s1"
      "vm_step h s1 = (Inr (Step_Halted c), vm1)"
      by (auto simp: run_reports_def)
    obtain p b where "tick h (vm_cpu s1, vm_bus s1) = (Inr Tick_Continue, p, b)" "syscon_exit b = Some c"
      by (rule vm_step_cases [of h s1]) (use j(4) in \<open>auto split: option.splits\<close>)
    moreover have "unat steps = Suc j"
    proof -
      have "Suc j < 2 ^ 64" using j(1) u64_bound [of mx] by simp
      then show ?thesis using j(2) by (simp only: of_nat_Suc [symmetric] unat_of_nat) simp
    qed
    ultimately show ?thesis using j r Run_Halted by auto
  next
    case (Run_Fault e)
    with rep obtain s1 where "vm_step h s1 = (Inl e, vm1)" by (auto simp: run_reports_def)
    with no_fault [of s1 e] show ?thesis by simp
  qed (use rep r in \<open>auto simp: run_reports_def\<close>)
qed

subsection \<open>Writing to RAM through the bus\<close>

text \<open>What a sequence of successful RAM writes does: the bytes seen change to \<open>m\<close>, and nothing else does.\<close>

definition ram_becomes :: "(u64 \<Rightarrow> u8 option) \<Rightarrow> system_bus \<Rightarrow> system_bus \<Rightarrow> bool" where
  "ram_becomes m b b' \<longleftrightarrow> hier_wf (l1_cache b') \<and> hier_peek_byte_raw (l1_cache b') = m
     \<and> same_except Dev_Ram b b' \<and> syscon_exit b' = syscon_exit b"

abbreviation (input) bus_view :: "system_bus \<Rightarrow> u64 \<Rightarrow> u8 option" where
  "bus_view b \<equiv> hier_peek_byte_raw (l1_cache b)"

lemma ram_becomes_refl: "hier_wf (l1_cache b) \<Longrightarrow> ram_becomes (bus_view b) b b"
  by (simp add: ram_becomes_def same_except_def)

lemma ram_becomes_trans: "ram_becomes m1 b b1 \<Longrightarrow> ram_becomes m2 b1 b2 \<Longrightarrow> ram_becomes m2 b b2"
  by (simp add: ram_becomes_def same_except_def)

lemma store_isolated:
  "\<not> in_syscon a \<Longrightarrow> same_except (fst (route a)) b (snd (serve bus_ops (Store w a v) b))
     \<and> syscon_exit (snd (serve bus_ops (Store w a v) b)) = syscon_exit b"
  by (cases w) (simp_all add: bus_method_defs dispatch_isolated' rom_ops_state)

lemma bus_store_ram:
  assumes "hier_wf (l1_cache b)" "RAM_BASE \<le> a" "all_mapped (bus_view b) a (nbytes w)"
  obtains b' where "serve bus_ops (Store w a v) b = (Some 0, b')"
    "ram_becomes (flat_store (bus_view b) a (to_le_bytes (nbytes w) v)) b b'"
proof -
  obtain x c where h: "serve hier_ops (Store w a v) (l1_cache b) = (x, c)" by fastforce
  have "serve_all hier_ops [Store w a v] (l1_cache b) = ([x], c)" using h by simp
  from serve_all_hier [OF assms(1) this]
  have k: "hier_wf c" "flat_serve (Store w a v) (bus_view b) = (x, hier_peek_byte_raw c)"
    by (auto split: prod.splits)
  have "flat_serve (Store w a v) (bus_view b) = (Some 0, flat_store (bus_view b) a (to_le_bytes (nbytes w) v))"
    using flat_try_store_mapped [of "bus_view b" a "to_le_bytes (nbytes w) v"] assms(3) by simp
  with k have x: "x = Some 0" "hier_peek_byte_raw c = flat_store (bus_view b) a (to_le_bytes (nbytes w) v)" by simp_all
  obtain b' where b': "serve bus_ops (Store w a v) b = (x, b')" "l1_cache b' = c"
    using serve_ram [OF _ h] ram_range [OF assms(2)] by auto
  have ra: "fst (route a) = Dev_Ram" "\<not> in_syscon a" using ram_range [OF assms(2)] by (simp_all add: ram_addr_def)
  have "same_except Dev_Ram b b' \<and> syscon_exit b' = syscon_exit b"
    using store_isolated [OF ra(2), of b w v] b'(1) ra(1) by simp
  with that b' x k(1) show thesis by (simp add: ram_becomes_def)
qed

lemma answer_Some: "answer (\<lambda>_. 0) x = (Some 0, b') \<Longrightarrow> x = (Inr (), b')" for x :: "unit result \<times> 's"
  by (auto simp: answer_def split: prod.splits sum.splits)

lemma bus_write_byte_ram:
  assumes "hier_wf (l1_cache b)" "RAM_BASE \<le> a" "bus_view b a \<noteq> None"
  obtains b' where "bus_write_byte a v b = (Inr (), b')" "ram_becomes ((bus_view b)(a \<mapsto> v)) b b'"
proof -
  have "all_mapped (bus_view b) a (nbytes W8)" using assms(3) by (simp add: all_mapped_def)
  then obtain b' where b': "serve bus_ops (Store W8 a (ucast v)) b = (Some 0, b')"
    "ram_becomes (flat_store (bus_view b) a (to_le_bytes (nbytes W8) (ucast v))) b b'"
    using bus_store_ram [OF assms(1,2)] by blast
  then have "bus_write_byte a v b = (Inr (), b')"
    by (simp add: bus_ops_def answer_Some)
  moreover have "to_le_bytes 1 (ucast v) = [v]" by (simp add: to_le_bytes_def)
  ultimately show thesis using that b'(2) by simp
qed

text \<open>Stores of consecutive bytes above the RAM base that do not run past the end of the address space.\<close>

lemma upper_add: "RAM_BASE \<le> a \<Longrightarrow> unat a + n < 2 ^ 64 \<Longrightarrow> RAM_BASE \<le> a + of_nat n" for a :: u64
  by (simp add: word_le_nat_alt unat_word_ariths unat_of_nat)

lemma bus_write_data_ram:
  assumes "hier_wf (l1_cache b)" "RAM_BASE \<le> a" "unat a + (i + length bs) < 2 ^ 64"
    "all_mapped (bus_view b) (a + of_nat i) (length bs)"
  shows "\<exists>b'. bus_write_data a i bs b = (Inr (), b') \<and> ram_becomes (flat_store (bus_view b) (a + of_nat i) bs) b b'"
  using assms
proof (induction bs arbitrary: b i)
  case Nil
  then show ?case by (auto simp: sreturn_def ram_becomes_refl)
next
  case (Cons x bs)
  let ?a = "a + of_nat i"
  have m: "bus_view b ?a \<noteq> None" "all_mapped (bus_view b) (?a + 1) (length bs)"
    using Cons.prems(4) by (simp_all add: all_mapped_Suc)
  have "RAM_BASE \<le> ?a" using upper_add [of a i] Cons.prems by simp
  from bus_write_byte_ram [OF Cons.prems(1) this m(1), of x] obtain b1 where
    b1: "bus_write_byte ?a x b = (Inr (), b1)" "ram_becomes ((bus_view b)(?a \<mapsto> x)) b b1" by blast
  then have v1: "bus_view b1 = (bus_view b)(?a \<mapsto> x)" "hier_wf (l1_cache b1)" by (simp_all add: ram_becomes_def)
  have n: "a + of_nat (Suc i) = ?a + 1" by (simp add: ac_simps)
  have "unat a + (Suc i + length bs) < 2 ^ 64" using Cons.prems(3) by simp
  from Cons.IH [OF v1(2) Cons.prems(2) this, unfolded n v1(1), OF all_mapped_upd [OF m(2)]]
  obtain b2 where "bus_write_data a (Suc i) bs b1 = (Inr (), b2)"
    "ram_becomes (flat_store ((bus_view b)(?a \<mapsto> x)) (?a + 1) bs) b1 b2" by blast
  with b1 ram_becomes_trans [OF b1(2)] show ?case by (auto simp: sbind_def simp del: fun_upd_apply)
qed

lemma bus_zero_fill_data: "bus_zero_fill (a + of_nat i) n = bus_write_data a i (replicate n 0)"
proof (induction n arbitrary: i)
  case (Suc n)
  from Suc [of "Suc i"] show ?case by (simp add: ac_simps)
qed simp

lemma bus_write_data_append:
  "bus_write_data a i (xs @ ys) = sbind (bus_write_data a i xs) (\<lambda>_. bus_write_data a (i + length xs) ys)"
  by (induction xs arbitrary: i) (auto simp: sbind_def sreturn_def fun_eq_iff split: prod.splits sum.splits)

lemma flat_store_mapped: "m x \<noteq> None \<Longrightarrow> flat_store m a bs x \<noteq> None"
  by (induction bs arbitrary: m a) auto

subsection \<open>Loading\<close>

text \<open>The bytes a segment contributes, and when it fits: no more bytes in the file than in memory,
  all of them inside the file, and the segment inside RAM once moved there.\<close>

definition segment_image :: "u8 list \<Rightarrow> elf_load_segment \<Rightarrow> u8 list" where
  "segment_image bytes seg = take (unat (seg_file_size seg)) (drop (unat (seg_offset seg)) bytes)
     @ replicate (unat (seg_mem_size seg) - unat (seg_file_size seg)) 0"

definition segment_fits :: "u8 list \<Rightarrow> u64 \<Rightarrow> elf_load_segment \<Rightarrow> bool" where
  "segment_fits bytes image_base seg \<longleftrightarrow> seg_file_size seg \<le> seg_mem_size seg
     \<and> unat (seg_offset seg) + unat (seg_file_size seg) \<le> length bytes
     \<and> unat (seg_vaddr seg - image_base) + unat (seg_mem_size seg) \<le> RAM_SIZE_DEFAULT"

definition ram_mapped :: "(u64 \<Rightarrow> u8 option) \<Rightarrow> bool" where
  "ram_mapped m \<longleftrightarrow> (\<forall>a. RAM_BASE \<le> a \<and> a < 0x88000000 \<longrightarrow> m a \<noteq> None)"

lemma ram_mapped_store: "ram_mapped m \<Longrightarrow> ram_mapped (flat_store m a bs)"
  by (simp add: ram_mapped_def flat_store_mapped)

lemma ram_mapped_range:
  assumes "ram_mapped m" "RAM_BASE \<le> a" "unat a + n \<le> 0x88000000"
  shows "all_mapped m a n"
  unfolding all_mapped_def
proof (intro allI impI)
  fix j assume "j < n"
  then have "unat (a + of_nat j) = unat a + j" using assms(3) by (simp add: unat_word_ariths unat_of_nat)
  with assms \<open>j < n\<close> show "m (a + of_nat j) \<noteq> None" by (simp add: ram_mapped_def word_le_nat_alt word_less_nat_alt)
qed

lemma segment_lengths:
  assumes "segment_fits bytes base seg"
  shows "length (take (unat (seg_file_size seg)) (drop (unat (seg_offset seg)) bytes)) = unat (seg_file_size seg)"
    "length (segment_image bytes seg) = unat (seg_mem_size seg)"
proof -
  have "unat (seg_offset seg) + unat (seg_file_size seg) \<le> length bytes" "unat (seg_file_size seg) \<le> unat (seg_mem_size seg)"
    using assms by (simp_all add: segment_fits_def word_le_nat_alt)
  then show "length (take (unat (seg_file_size seg)) (drop (unat (seg_offset seg)) bytes)) = unat (seg_file_size seg)"
    "length (segment_image bytes seg) = unat (seg_mem_size seg)"
    by (simp_all add: segment_image_def)
qed

lemma segment_position:
  assumes "segment_fits bytes base seg"
  defines "addr \<equiv> mapped_vaddr base seg"
  shows "RAM_BASE \<le> addr" "unat addr = 0x80000000 + unat (seg_vaddr seg - base)"
    "unat addr + length (segment_image bytes seg) \<le> 0x88000000"
proof -
  show a: "unat addr = 0x80000000 + unat (seg_vaddr seg - base)"
    using assms(1) unfolding addr_def mapped_vaddr_def segment_fits_def
    by (subst unat_checked) simp_all
  then show "RAM_BASE \<le> addr" by (simp add: word_le_nat_alt)
  show "unat addr + length (segment_image bytes seg) \<le> 0x88000000"
    using assms(1) by (simp add: a segment_lengths [OF assms(1)] segment_fits_def)
qed

lemma load_segment_writes:
  assumes "segment_fits bytes base seg" "length bytes < 2 ^ 64"
  defines "addr \<equiv> mapped_vaddr base seg"
  shows "load_segment bytes base seg (b, hi) =
    (case bus_write_data addr 0 (segment_image bytes seg) b of (r, b') \<Rightarrow> (r, (b', max hi (addr + seg_mem_size seg))))"
proof -
  let ?f = "seg_file_size seg" and ?m = "seg_mem_size seg"
  have le: "?f \<le> ?m" "unat ?f \<le> unat ?m" using assms(1) by (simp_all add: segment_fits_def word_le_nat_alt)
  have ca: "checked_add (seg_offset seg) ?f = Some (seg_offset seg + ?f)"
    using assms(1,2) by (simp add: checked_add_eq segment_fits_def)
  have gs: "get_slice bytes (seg_offset seg) (seg_offset seg + ?f) = Some (take (unat ?f) (drop (unat (seg_offset seg)) bytes))"
    using assms(1,2) by (subst get_slice_sum) (simp_all add: segment_fits_def)
  note len = segment_lengths(1) [OF assms(1)]
  note pos = segment_position [OF assms(1), folded addr_def]
  have uf: "unat (addr + ?f) = unat addr + unat ?f" "unat (addr + ?m) = unat addr + unat ?m"
    using pos(2) assms(1) le(2) by (simp_all add: unat_checked segment_fits_def)
  have rl: "(if ?m > ?f then bus_zero_fill (addr + ?f) (range_len (addr + ?f) (addr + ?m)) else sreturn ())
     = bus_write_data addr (unat ?f) (replicate (unat ?m - unat ?f) 0)"
  proof (cases "?m > ?f")
    case True
    then have "range_len (addr + ?f) (addr + ?m) = unat ?m - unat ?f"
      using le by (simp add: range_len_def word_less_nat_alt uf unat_sub word_le_nat_alt)
    with True bus_zero_fill_data [of addr "unat ?f"] show ?thesis by simp
  next
    case False
    with le have "?m = ?f" by simp
    then show ?thesis by simp
  qed
  show ?thesis
    using leD [OF le(1)] by (simp add: load_segment_def Let_def ca gs rl segment_image_def bus_write_data_append len addr_def [symmetric] del: length_take length_drop)
qed

text \<open>The contents of RAM after the segments have been stored, and the highest address they reach.\<close>

definition store_segments :: "u8 list \<Rightarrow> u64 \<Rightarrow> elf_load_segment list \<Rightarrow> (u64 \<Rightarrow> u8 option) \<Rightarrow> u64 \<Rightarrow> u8 option" where
  "store_segments bytes base segs m = fold (\<lambda>seg m. flat_store m (mapped_vaddr base seg) (segment_image bytes seg)) segs m"

definition highest_mapped :: "u64 \<Rightarrow> elf_load_segment list \<Rightarrow> u64 \<Rightarrow> u64" where
  "highest_mapped base segs hi = fold (\<lambda>seg hi. max hi (mapped_vaddr base seg + seg_mem_size seg)) segs hi"

lemma load_segments_ok:
  assumes "\<forall>seg \<in> set segs. segment_fits bytes base seg" "length bytes < 2 ^ 64"
    and "hier_wf (l1_cache b)" "ram_mapped (bus_view b)"
  shows "\<exists>b'. load_segments_loop bytes base segs (b, hi) = (Inr (), (b', highest_mapped base segs hi))
    \<and> ram_becomes (store_segments bytes base segs (bus_view b)) b b'"
  using assms(1,3,4)
proof (induction segs arbitrary: b hi)
  case Nil
  then show ?case by (auto simp: sreturn_def highest_mapped_def store_segments_def ram_becomes_refl)
next
  case (Cons seg segs)
  let ?a = "mapped_vaddr base seg" and ?d = "segment_image bytes seg"
  have fits: "segment_fits bytes base seg" using Cons.prems(1) by simp
  note pos = segment_position [OF fits]
  have "unat ?a + (0 + length ?d) < 2 ^ 64" "all_mapped (bus_view b) (?a + of_nat 0) (length ?d)"
    using pos ram_mapped_range [OF Cons.prems(3) pos(1,3)] by simp_all
  from bus_write_data_ram [OF Cons.prems(2) pos(1) this] obtain b1 where
    b1: "bus_write_data ?a 0 ?d b = (Inr (), b1)" "ram_becomes (flat_store (bus_view b) ?a ?d) b b1" by auto
  then have k: "hier_wf (l1_cache b1)" "bus_view b1 = flat_store (bus_view b) ?a ?d" "ram_mapped (bus_view b1)"
    using ram_mapped_store [OF Cons.prems(3)] by (simp_all add: ram_becomes_def)
  from Cons.IH [OF _ k(1,3), of "max hi (?a + seg_mem_size seg)"] Cons.prems(1) obtain b2 where
    "load_segments_loop bytes base segs (b1, max hi (?a + seg_mem_size seg))
       = (Inr (), (b2, highest_mapped base segs (max hi (?a + seg_mem_size seg))))"
    "ram_becomes (store_segments bytes base segs (bus_view b1)) b1 b2" by auto
  with b1 k(2) ram_becomes_trans [OF b1(2)] load_segment_writes [OF fits assms(2), of b hi] show ?case
    by (auto simp: highest_mapped_def store_segments_def)
qed

lemma store_segments_mapped: "ram_mapped m \<Longrightarrow> ram_mapped (store_segments bytes base segs m)"
  by (induction segs arbitrary: m) (simp_all add: store_segments_def ram_mapped_store)

text \<open>RAM after loading: zeros, then the segments in order, then the heap pointer.\<close>

definition loaded_ram :: "u8 list \<Rightarrow> elf_load_segment list \<Rightarrow> u64 \<Rightarrow> u8 option" where
  "loaded_ram bytes segs =
     (let base = image_base_of segs in
      flat_store (store_segments bytes base segs (ram_peek_byte (ram_new RAM_BASE RAM_SIZE_DEFAULT)))
        HEAP_PTR_ADDR (to_le_bytes 8 (align_up (highest_mapped base segs RAM_BASE) 0x1000)))"

lemma load_elf_ok:
  assumes len: "length bytes < 2 ^ 64" and elf: "parse bytes = Inr elf"
    and fits: "\<forall>seg \<in> set (load_segments elf). segment_fits bytes (image_base_of (load_segments elf)) seg"
  shows "\<exists>b. load_elf rom_image bytes = Inr \<lparr>le_bus = b,
        start_pc = RAM_BASE + (entry_point elf - image_base_of (load_segments elf)), stack_ptr = 0x87FFFFF0\<rparr>
     \<and> hier_wf (l1_cache b) \<and> bus_view b = loaded_ram bytes (load_segments elf)
     \<and> ram_peek_byte (c_next (c_next (c_next (l1_cache b)))) = loaded_ram bytes (load_segments elf)
     \<and> cold (l1_cache b) \<and> cold (c_next (l1_cache b)) \<and> cold (c_next (c_next (l1_cache b)))
     \<and> same_except Dev_Ram (system_bus_new rom_image) b \<and> syscon_exit b = None"
proof -
  let ?segs = "load_segments elf" and ?base = "image_base_of (load_segments elf)"
  let ?b0 = "system_bus_new rom_image" and ?m0 = "ram_peek_byte (ram_new RAM_BASE RAM_SIZE_DEFAULT)"
  let ?hp = "align_up (highest_mapped ?base ?segs RAM_BASE) 0x1000"
  have v0: "hier_wf (l1_cache ?b0)" "bus_view ?b0 = ?m0" "ram_mapped (bus_view ?b0)"
    using hierarchy_new_wf ram_new_peek by (simp_all add: system_bus_new_def hierarchy_new_view ram_mapped_def)
  from load_segments_ok [OF fits len v0(1,3), of RAM_BASE] obtain b1 where
    l: "load_segments_loop bytes ?base ?segs (?b0, RAM_BASE) = (Inr (), (b1, highest_mapped ?base ?segs RAM_BASE))"
    and r1: "ram_becomes (store_segments bytes ?base ?segs ?m0) ?b0 b1" unfolding v0(2) by blast
  then have k: "hier_wf (l1_cache b1)" "bus_view b1 = store_segments bytes ?base ?segs ?m0" by (simp_all add: ram_becomes_def)
  have hp: "RAM_BASE \<le> HEAP_PTR_ADDR" "unat HEAP_PTR_ADDR + nbytes W64 \<le> 0x88000000" by simp_all
  from store_segments_mapped [OF v0(3), of bytes ?base ?segs] have "all_mapped (bus_view b1) HEAP_PTR_ADDR (nbytes W64)"
    unfolding k(2) v0(2) by (rule ram_mapped_range [OF _ hp])
  from bus_store_ram [OF k(1) hp(1) this, of ?hp] obtain b2 where
    s: "serve bus_ops (Store W64 HEAP_PTR_ADDR ?hp) b1 = (Some 0, b2)"
    and r2: "ram_becomes (flat_store (bus_view b1) HEAP_PTR_ADDR (to_le_bytes 8 ?hp)) b1 b2" by auto
  from s have w: "bus_write_doubleword HEAP_PTR_ADDR ?hp b1 = (Inr (), b2)"
    by (simp add: bus_ops_def answer_Some)
  have r: "ram_becomes (loaded_ram bytes ?segs) ?b0 b2"
    using ram_becomes_trans [OF r1 r2] by (simp add: loaded_ram_def Let_def k(2))
  then have wf2: "hier_wf (l1_cache b2)" by (simp add: ram_becomes_def)
  note c = cold_cache_reset_ok [OF wf2]
  have "same_except Dev_Ram ?b0 (cold_cache_reset b2)" "syscon_exit (cold_cache_reset b2) = None"
    using r by (simp_all add: ram_becomes_def same_except_def cold_cache_reset_def Let_def system_bus_new_def)
  with c r show ?thesis
    by (intro exI [of _ "cold_cache_reset b2"]) (simp add: load_elf_def elf l w [simplified] Let_def ram_becomes_def)
qed

text \<open>C4. Loading an ELF image. When the file parses and each loadable segment fits - its bytes lie in
  the file, it has no more bytes than memory, and it ends inside the 128 MiB of RAM once the lowest
  segment is moved to the RAM base - loading succeeds: RAM holds zeros, the segments in order with
  their zero fill, and the page-aligned heap pointer, both as the machine sees it and in RAM itself;
  all three cache levels are cold (no line valid, the counters at zero); the devices, the ROM and the power-off register are those of a fresh bus; and
  execution starts at the relocated entry point with the stack at the end of RAM.\<close>

theorem load_elf_correct:
  assumes "length bytes < 2 ^ 64" and "parse bytes = Inr elf"
    and "\<forall>seg \<in> set (load_segments elf). segment_fits bytes (image_base_of (load_segments elf)) seg"
  shows "\<exists>b. load_elf rom_image bytes = Inr \<lparr>le_bus = b,
        start_pc = RAM_BASE + (entry_point elf - image_base_of (load_segments elf)), stack_ptr = 0x87FFFFF0\<rparr>
     \<and> hier_wf (l1_cache b) \<and> hier_peek_byte_raw (l1_cache b) = loaded_ram bytes (load_segments elf)
     \<and> ram_peek_byte (c_next (c_next (c_next (l1_cache b)))) = loaded_ram bytes (load_segments elf)
     \<and> cold (l1_cache b) \<and> cold (c_next (l1_cache b)) \<and> cold (c_next (c_next (l1_cache b)))
     \<and> same_except Dev_Ram (system_bus_new rom_image) b \<and> syscon_exit b = None"
  by (rule load_elf_ok [OF assms])

theorem load_elf_correct_witness:
  "\<exists>b. load_elf [] example_elf = Inr \<lparr>le_bus = b, start_pc = RAM_BASE, stack_ptr = 0x87FFFFF0\<rparr>
     \<and> hier_peek_byte_raw (l1_cache b) RAM_BASE = Some 0x93"
proof -
  let ?seg = "\<lparr>seg_offset = 120, seg_vaddr = 0x10000, seg_file_size = 4, seg_mem_size = 8\<rparr>"
  have len: "length example_elf = 124" by code_simp
  then have small: "length example_elf < 2 ^ 64" by simp
  have base: "image_base_of [?seg] = 0x10000" by (simp add: image_base_of_def)
  have fits: "segment_fits example_elf 0x10000 ?seg" by (simp add: segment_fits_def len)
  have img: "segment_image example_elf ?seg = [0x93, 0x00, 0x50, 0x00, 0, 0, 0, 0]" by code_simp
  have "[0..<8] = [0, 1, 2, 3, 4, 5, 6, 7]" by code_simp
  then have "loaded_ram example_elf [?seg] RAM_BASE = Some 0x93"
    by (simp add: loaded_ram_def base store_segments_def mapped_vaddr_def img to_le_bytes_def)
  then show ?thesis
    using load_elf_correct [OF small parse_example, of "[]"] fits base by auto
qed

subsection \<open>Reachable machines\<close>

text \<open>Everything done to the bus between steps keeps it well formed: storing an image, whether or not
  every store succeeds, emptying the caches, and loading an ELF image of any shape.\<close>

lemma bus_write_data_rel: "bus_rel b (snd (bus_write_data a i bs b))"
proof (induction bs arbitrary: i b)
  case (Cons v bs)
  obtain r b1 where w: "bus_write_byte (a + of_nat i) v b = (r, b1)" by (metis surj_pair)
  with bus_methods(5) [of b "a + of_nat i" v] have "bus_rel b b1" by (simp add: bus_ops_def)
  with w Cons [of b1 "Suc i"] show ?case
    by (auto simp: sbind_def intro: bus_client.trans split: sum.split)
qed (simp add: sreturn_def bus_rel_def)

lemma load_segment_rel: "bus_rel b (fst (snd (load_segment bytes base seg (b, hi))))"
proof -
  let ?z = "\<lambda>_. if seg_mem_size seg > seg_file_size seg
      then bus_zero_fill (mapped_vaddr base seg + seg_file_size seg)
        (range_len (mapped_vaddr base seg + seg_file_size seg) (mapped_vaddr base seg + seg_mem_size seg))
      else sreturn ()"
  have z: "bus_rel b (snd (?z u b))" for b u
    using bus_write_data_rel [of b "mapped_vaddr base seg + seg_file_size seg" 0] bus_zero_fill_data [of _ 0]
    by (simp add: sreturn_def bus_rel_def)
  have "bus_rel b (snd (sbind (bus_write_data (mapped_vaddr base seg) 0 data) ?z b))" for data
  proof -
    obtain r b1 where w: "bus_write_data (mapped_vaddr base seg) 0 data b = (r, b1)" by (metis surj_pair)
    with bus_write_data_rel [of b "mapped_vaddr base seg" 0 data] have "bus_rel b b1" by simp
    with w z [of b1] show ?thesis by (auto simp: sbind_def intro: bus_client.trans split: sum.split)
  qed
  moreover have "bus_rel b b" by (simp add: bus_rel_def)
  ultimately show ?thesis
    unfolding load_segment_def Let_def case_prod_unfold
    by (cases "seg_file_size seg < seg_mem_size seg") (auto split: option.split)
qed

lemma load_segments_rel: "bus_rel b (fst (snd (load_segments_loop bytes base segs (b, hi))))"
proof (induction segs arbitrary: b hi)
  case (Cons seg segs)
  obtain r b1 hi1 where w: "load_segment bytes base seg (b, hi) = (r, (b1, hi1))" by (metis surj_pair)
  with load_segment_rel [of b bytes base seg hi] have "bus_rel b b1" by simp
  with w Cons [of b1 hi1] show ?case by (auto simp: sbind_def intro: bus_client.trans split: sum.split)
qed (simp add: sreturn_def bus_rel_def)

lemma cold_cache_reset_rel: "bus_rel b (cold_cache_reset b)"
  using cold_cache_reset_ok(1) [of b] by (simp add: bus_rel_def bus_wf_def cold_cache_reset_def Let_def)

lemma load_elf_rel:
  assumes "load_elf rom_image bytes = Inr le"
  shows "bus_rel (system_bus_new rom_image) (le_bus le)"
proof -
  obtain elf where elf: "parse bytes = Inr elf" using assms by (cases "parse bytes") (auto simp: load_elf_def rbind_def)
  let ?base = "image_base_of (load_segments elf)"
  obtain r1 b1 hi where l: "load_segments_loop bytes ?base (load_segments elf) (system_bus_new rom_image, RAM_BASE) = (r1, (b1, hi))"
    by (metis surj_pair)
  obtain r2 b2 where w: "bus_write_doubleword HEAP_PTR_ADDR (align_up hi 0x1000) b1 = (r2, b2)" by (metis surj_pair)
  have "bus_rel (system_bus_new rom_image) b1" using load_segments_rel [of "system_bus_new rom_image" bytes ?base] l
    by (metis fst_conv snd_conv)
  moreover have "bus_rel b1 b2" using bus_methods(8) [of b1 HEAP_PTR_ADDR "align_up hi 0x1000"] w by (simp add: bus_ops_def)
  moreover have "le_bus le = cold_cache_reset b2"
    using assms elf l w by (auto simp: load_elf_def Let_def rbind_def split: sum.splits)
  ultimately show ?thesis using cold_cache_reset_rel bus_client.trans by metis
qed

text \<open>The states of the machine built on the functional core: started on an empty bus, on an ELF image or
  on a kernel image, stepped or run for a while, with its core reset to another address or given a
  boot entry, and with what a host can do to its bus in between: storing bytes anywhere in the address
  space, emptying the caches, setting the memory latency, pushing keys and serial input, draining the
  serial output and taking the power-off request.\<close>

inductive reachable :: "float_host \<Rightarrow> u8 list \<Rightarrow> functional_machine \<Rightarrow> bool"
  for h :: float_host and rom_image :: "u8 list" where
  boot: "reachable h rom_image \<lparr>fm_core = functional_new start stack, fm_bus = system_bus_new rom_image\<rparr>"
| image: "fm_from_elf rom_image bytes = Inr m \<Longrightarrow> reachable h rom_image m"
| kernel: "fm_new_kernel rom_image bytes = Inr m \<Longrightarrow> reachable h rom_image m"
| step: "reachable h rom_image m \<Longrightarrow> fm_step h m = (r, m') \<Longrightarrow> reachable h rom_image m'"
| run: "reachable h rom_image m \<Longrightarrow> fm_run h n m = (res, m') \<Longrightarrow> reachable h rom_image m'"
| reset: "reachable h rom_image m \<Longrightarrow> reachable h rom_image (m\<lparr>fm_core := fc_reset_pc pc (fm_core m)\<rparr>)"
| boot_entry: "reachable h rom_image m \<Longrightarrow> reachable h rom_image (m\<lparr>fm_core := fc_set_boot_entry entry (fm_core m)\<rparr>)"
| store: "reachable h rom_image m \<Longrightarrow> bus_write_data addr 0 data (fm_bus m) = (w, b) \<Longrightarrow> reachable h rom_image (m\<lparr>fm_bus := b\<rparr>)"
| empty_caches: "reachable h rom_image m \<Longrightarrow> reachable h rom_image (m\<lparr>fm_bus := cold_cache_reset (fm_bus m)\<rparr>)"
| latency: "reachable h rom_image m \<Longrightarrow> reachable h rom_image (m\<lparr>fm_bus := set_memory_latency_config cfg (fm_bus m)\<rparr>)"
| key: "reachable h rom_image m \<Longrightarrow> reachable h rom_image (m\<lparr>fm_bus := keyboard_push code pressed (fm_bus m)\<rparr>)"
| serial: "reachable h rom_image m \<Longrightarrow>
    reachable h rom_image (m\<lparr>fm_bus := (fm_bus m)\<lparr>bus_uart := uart_receive byte (bus_uart (fm_bus m))\<rparr>\<rparr>)"
| drain: "reachable h rom_image m \<Longrightarrow> reachable h rom_image (m\<lparr>fm_bus := snd (bus_drain_output (fm_bus m))\<rparr>)"
| power: "reachable h rom_image m \<Longrightarrow> reachable h rom_image (m\<lparr>fm_bus := snd (take_syscon_exit (fm_bus m))\<rparr>)"

definition sound_machine :: "u8 list \<Rightarrow> functional_machine \<Rightarrow> bool" where
  "sound_machine rom_image m \<longleftrightarrow> machine_wf (fm_core m, fm_bus m) \<and> bus_rom (fm_bus m) = rom_new ROM_BASE rom_image"

lemma sound_boot:
  assumes "bus_rel (system_bus_new rom_image) b"
  shows "sound_machine rom_image \<lparr>fm_core = functional_new start stack, fm_bus = b\<rparr>"
  using machine_wf_new [of start stack rom_image] assms
  by (simp add: sound_machine_def machine_wf_def bus_rel_def Let_def) (simp add: system_bus_new_def)

lemma sound_bus:
  assumes "sound_machine rom_image m" "bus_rel (fm_bus m) b"
  shows "sound_machine rom_image (m\<lparr>fm_bus := b\<rparr>)"
  using assms by (simp add: sound_machine_def machine_wf_def bus_rel_def Let_def)

lemma sound_core:
  assumes "sound_machine rom_image m"
  shows "sound_machine rom_image (m\<lparr>fm_core := fc_reset_pc pc (fm_core m)\<rparr>)"
    "sound_machine rom_image (m\<lparr>fm_core := fc_set_boot_entry entry (fm_core m)\<rparr>)"
  using assms
  by (simp_all add: sound_machine_def machine_wf_def Let_def fc_reset_pc_def fc_set_boot_entry_def set_pc_def tlb_flush_def)

lemma bus_rel_host:
  "bus_rel b (keyboard_push code pressed b)" "bus_rel b (b\<lparr>bus_uart := uart_receive byte (bus_uart b)\<rparr>)"
  "bus_rel b (snd (bus_drain_output b))" "bus_rel b (snd (take_syscon_exit b))"
proof -
  show "bus_rel b (keyboard_push code pressed b)"
    using kbd_push [of "bus_keyboard b"] by (simp add: bus_rel_def bus_wf_def keyboard_push_def)
  show "bus_rel b (b\<lparr>bus_uart := uart_receive byte (bus_uart b)\<rparr>)"
    by (simp add: bus_rel_def bus_wf_def uart_wf_receive)
  show "bus_rel b (snd (bus_drain_output b))"
    by (simp add: bus_rel_def bus_wf_def uart_wf_def bus_drain_output_def drain_output_def)
  show "bus_rel b (snd (take_syscon_exit b))"
    by (simp add: bus_rel_def bus_wf_def take_syscon_exit_def)
qed

lemma sound_step:
  assumes "sound_machine rom_image m" "fm_step h m = (r, m')"
  shows "sound_machine rom_image m'"
proof -
  obtain r1 f b where s: "fc_step h (fm_core m, fm_bus m) = (r1, f, b)" by (metis surj_pair)
  have "sound_machine rom_image \<lparr>fm_core = f, fm_bus = b\<rparr>"
    using fc_step_wf [OF s] assms(1) by (simp add: sound_machine_def bus_rel_def)
  moreover from sound_bus [OF this] bus_rel_host(4) [of b]
  have "sound_machine rom_image \<lparr>fm_core = f, fm_bus = snd (take_syscon_exit b)\<rparr>" by simp
  ultimately show ?thesis
    using assms(2) s by (auto simp: fm_step_def split: sum.splits prod.splits option.splits)
qed

lemma sound_run_result:
  "sound_machine rom_image m \<Longrightarrow> sound_machine rom_image (snd (fm_run_result k t m))"
  using sound_bus [OF _ bus_rel_host(3)] by (simp add: fm_run_result_def case_prod_unfold)

lemma sound_run: "sound_machine rom_image m \<Longrightarrow> sound_machine rom_image (snd (fm_run_from h mx n k m))"
proof (induction n arbitrary: k m)
  case (Suc n)
  obtain r m' where s: "fm_step h m = (r, m')" by (metis surj_pair)
  note sound_step [OF Suc.prems s]
  with Suc.IH s show ?case
    by (auto simp: sound_run_result split: sum.split functional_step_outcome.split)
qed (simp add: sound_run_result)

text \<open>C23. Type safety of the whole machine: in every state of the functional machine - started on an
  empty bus, on any ELF image that loads, or as a kernel, then stepped, run, reset, and given any
  host input or bus store - the register files have their thirty-two entries, the CSR file is well formed, the TLB
  has its size, the three cache levels are consistent with RAM, the interrupt controller and the
  framebuffer keep their arrays, the keyboard queue stays within its capacity, and the ROM holds what
  the machine was given.\<close>

theorem reachable_machines_wf:
  assumes "reachable h rom_image m"
  shows "machine_wf (fm_core m, fm_bus m) \<and> bus_rom (fm_bus m) = rom_new ROM_BASE rom_image"
proof -
  have "sound_machine rom_image m" using assms
  proof (induction rule: reachable.induct)
    case (boot start stack)
    show ?case by (rule sound_boot) (simp add: bus_rel_def)
  next
    case (image bytes m)
    then show ?case using load_elf_rel by (auto simp: fm_from_elf_def rbind_def intro!: sound_boot split: sum.splits)
  next
    case (kernel bytes m)
    then obtain le where le: "load_elf rom_image bytes = Inr le"
      "m = \<lparr>fm_core = fc_set_boot_entry (arch_pc (fc_architectural (functional_new (start_pc le) (stack_ptr le))))
         (fc_reset_pc ROM_BASE (functional_new (start_pc le) (stack_ptr le))), fm_bus = le_bus le\<rparr>"
      by (auto simp: fm_new_kernel_def fm_from_elf_def rbind_def Let_def split: sum.splits)
    from sound_core(2) [OF sound_core(1) [OF sound_boot [OF load_elf_rel [OF le(1)]]]] show ?case
      unfolding le(2) by simp
  next
    case (latency m cfg)
    then show ?case by (simp add: sound_machine_def machine_wf_def bus_wf_def set_memory_latency_config_def Let_def)
  next
    case (run m n res m')
    then show ?case using sound_run [of rom_image m h n "unat n" 1] by (simp add: fm_run_def)
  next
    case (store m addr data w b)
    then show ?case using bus_write_data_rel [of "fm_bus m" addr 0 data] by (simp add: sound_bus)
  qed (simp_all add: sound_bus sound_core bus_rel_host cold_cache_reset_rel sound_step)
  then show ?thesis by (simp add: sound_machine_def)
qed

theorem reachable_machines_wf_witness:
  "\<exists>m. fm_from_elf [] example_elf = Inr m
     \<and> machine_wf (fm_core m, keyboard_push 30 True (fm_bus m))
     \<and> bus_rom (keyboard_push 30 True (fm_bus m)) = rom_new ROM_BASE []"
proof -
  let ?seg = "\<lparr>seg_offset = 120, seg_vaddr = 0x10000, seg_file_size = 4, seg_mem_size = 8\<rparr>"
  have len: "length example_elf = 124" by code_simp
  have "segment_fits example_elf 0x10000 ?seg" by (simp add: segment_fits_def len)
  with load_elf_ok [OF _ parse_example, of "[]"] obtain le where "load_elf [] example_elf = Inr le"
    by (auto simp: len image_base_of_def)
  then obtain m where m: "fm_from_elf [] example_elf = Inr m" by (simp add: fm_from_elf_def rbind_def)
  have "reachable example_host [] (m\<lparr>fm_bus := keyboard_push 30 True (fm_bus m)\<rparr>)"
    by (intro reachable.key reachable.image [OF m])
  from reachable_machines_wf [OF this] m show ?thesis by auto
qed

end
