(* ===== verification/Cache_Image.thy ===== *)
theory Cache_Image
  imports Hierarchy Bus
begin

text \<open>
  RAM images. The image that \<open>SystemBus::ram_image\<close> takes without disturbing the caches - the bytes of
  RAM with the dirty lines of L3, L2 and L1 laid over them - is the memory the machine sees, and
  \<open>load_ram_image\<close> gives that memory back with the caches empty.
\<close>

subsection \<open>Images\<close>

text \<open>The byte list \<open>buf\<close> is the memory \<open>m\<close>, which starts at \<open>base\<close> and has no other bytes.\<close>

definition depicts :: "u64 \<Rightarrow> u8 list \<Rightarrow> (u64 \<Rightarrow> u8 option) \<Rightarrow> bool" where
  "depicts base buf m \<longleftrightarrow>
     (\<forall>a. m a = (if base \<le> a \<and> unat (a - base) < length buf then Some (buf ! unat (a - base)) else None))"

lemma ram_depicts:
  assumes "ram_wf m"
  shows "depicts (ram_base m) (ram_data m) (ram_peek_byte m)"
proof -
  have "ram_contains m a \<longleftrightarrow> ram_base m \<le> a \<and> unat (a - ram_base m) < length (ram_data m)" for a
    using assms by (cases "ram_base m \<le> a")
      (auto simp: ram_contains_nat ram_wf_def unat_sub word_le_nat_alt)
  then show ?thesis by (simp add: depicts_def ram_peek_byte_def ram_index_def)
qed

lemma line_bytes:
  assumes "cache_geom c"
  shows "unat (base_of c a) = 2 ^ block_bits c * (unat a div 2 ^ block_bits c)" "off_of c a = unat a mod 2 ^ block_bits c"
proof -
  show off: "off_of c a = unat a mod 2 ^ block_bits c" by (simp add: off_of_def unat_and_mask)
  have s: "unat (of_nat (off_of c a) :: u64) = off_of c a"
    using assms by (intro unat_of_nat_small [OF off_of_less]) (simp add: cache_geom_def)
  have "base_of c a = a - of_nat (off_of c a)" using base_plus_off [of c a] by (simp add: eq_diff_eq)
  moreover have "(of_nat (off_of c a) :: u64) \<le> a" unfolding word_le_nat_alt s by (simp add: off)
  ultimately have "unat (base_of c a) = unat a - off_of c a" by (simp add: unat_sub s)
  then show "unat (base_of c a) = 2 ^ block_bits c * (unat a div 2 ^ block_bits c)"
    by (simp add: off minus_mod_eq_mult_div)
qed

text \<open>A block that contains a byte of an aligned region lies in the region.\<close>

lemma block_inside:
  assumes "K dvd R" "K dvd n" "R \<le> A" "A < R + n" "0 < K"
  shows "R \<le> K * (A div K)" "K * (A div K) + K \<le> R + (n :: nat)"
proof -
  from assms(1,2) obtain r q where rq: "R = K * r" "n = K * q" by (auto elim!: dvdE)
  with assms(3,5) have "r \<le> A div K" by (metis div_le_mono nonzero_mult_div_cancel_left less_numeral_extra(3))
  then show "R \<le> K * (A div K)" by (simp add: rq)
  have "A < K * (r + q)" using assms(4) by (simp add: rq algebra_simps)
  then have "A div K < r + q" using assms(5) by (simp add: less_mult_imp_div_less mult.commute)
  then have "Suc (A div K) \<le> r + q" by simp
  then have "K * Suc (A div K) \<le> K * (r + q)" by (rule mult_le_mono2)
  then show "K * (A div K) + K \<le> R + n" by (simp add: rq algebra_simps)
qed

definition dirty_holds :: "'n cache \<Rightarrow> u64 \<Rightarrow> nat \<times> cache_line \<Rightarrow> bool" where
  "dirty_holds c a x \<longleftrightarrow> (case x of (si, l) \<Rightarrow> cl_dirty l \<and> holds c si l a)"

lemma overlay_line_nth:
  assumes geom: "cache_geom c" and ok: "line_ok view c si l" and len: "length (cl_data l) = 2 ^ block_bits c"
    and al: "64 dvd unat base" "64 dvd length buf" and a: "base \<le> a" "unat (a - base) < length buf"
  shows "overlay_line c base si l buf ! unat (a - base)
    = (if dirty_holds c a (si, l) then cl_data l ! off_of c a else buf ! unat (a - base))"
    "length (overlay_line c base si l buf) = length buf"
proof -
  show "length (overlay_line c base si l buf) = length buf"
    by (auto simp: overlay_line_def Let_def)
  show "overlay_line c base si l buf ! unat (a - base)
    = (if dirty_holds c a (si, l) then cl_data l ! off_of c a else buf ! unat (a - base))"
  proof (cases "cl_valid l \<and> cl_dirty l")
    case True
    let ?K = "2 ^ block_bits c :: nat" and ?R = "unat base" and ?A = "unat a"
    from True ok obtain a0 where a0: "holds c si l a0" by (auto simp: line_ok_def)
    then have si: "of_nat si = index_of c a0" "cl_tag l = tag_of c a0" by (auto simp: holds_def set_of_def)
    define addr where "addr = line_base_address c (cl_tag l) (of_nat si)"
    have g: "block_bits c + set_bits c < 64" "block_bits c \<le> 6" using geom by (simp_all add: cache_geom_def)
    have addr: "addr = base_of c a0" unfolding addr_def si by (rule line_base_of [OF g(1)])
    have ai: "unat (a - base) = ?A - ?R" "?R \<le> ?A" using a(1) by (simp_all add: unat_sub word_le_nat_alt)
    have K: "?K dvd 64" using le_imp_power_dvd [OF g(2), of 2] by simp
    have h: "holds c si l a \<longleftrightarrow> unat addr = ?K * (?A div ?K)"
    proof -
      have "holds c si l a \<longleftrightarrow> tag_of c a = tag_of c a0 \<and> set_of c a = set_of c a0"
        using a0 by (auto simp: holds_def)
      also have "\<dots> \<longleftrightarrow> base_of c a = addr" unfolding same_line_iff [OF g(1)] addr ..
      also have "\<dots> \<longleftrightarrow> unat addr = unat (base_of c a)" by (auto simp only: word_unat_eq_iff)
      finally show ?thesis by (simp only: line_bytes(1) [OF geom])
    qed
    have dv: "?K dvd unat addr" by (simp add: addr line_bytes(1) [OF geom])
    show ?thesis
    proof (cases "holds c si l a")
      case True
      note B = h [THEN iffD1, OF True]
      have "?R \<le> unat addr" "unat addr + ?K \<le> ?R + length buf"
        unfolding B using block_inside [OF dvd_trans [OF K al(1)] dvd_trans [OF K al(2)] ai(2)] ai a(2) by simp_all
      then have o: "addr \<ge> base" "unat (addr - base) = unat addr - ?R" "unat (addr - base) + ?K \<le> length buf"
        by (simp_all add: word_le_nat_alt unat_sub)
      have "?A = unat addr + off_of c a" by (simp add: B line_bytes(2) [OF geom])
      then have "unat (a - base) = unat (addr - base) + off_of c a" using \<open>?R \<le> unat addr\<close> by (simp add: ai o(2))
      then show ?thesis
        using True \<open>cl_valid l \<and> cl_dirty l\<close> o off_of_less [of c a]
        by (simp add: overlay_line_def Let_def addr_def [symmetric] len nth_append dirty_holds_def)
    next
      case False
      have out: "?A < unat addr \<or> unat addr + ?K \<le> ?A"
      proof (rule ccontr)
        assume "\<not> (?A < unat addr \<or> unat addr + ?K \<le> ?A)"
        moreover from dv obtain q where "unat addr = ?K * q" by (auto elim!: dvdE)
        ultimately have "?A div ?K = q" by (intro div_nat_eqI) (simp_all add: mult.commute)
        with \<open>unat addr = ?K * q\<close> h False show False by simp
      qed
      show ?thesis
      proof (cases "addr \<ge> base \<and> unat (addr - base) + length (cl_data l) \<le> length buf")
        case True
        then have "unat (addr - base) = unat addr - ?R" "?R \<le> unat addr" by (simp_all add: unat_sub word_le_nat_alt)
        with out True False ai a(2) \<open>cl_valid l \<and> cl_dirty l\<close> show ?thesis
          by (auto simp: overlay_line_def Let_def addr_def [symmetric] len nth_append dirty_holds_def)
      next
        case False
        with \<open>\<not> holds c si l a\<close> \<open>cl_valid l \<and> cl_dirty l\<close> show ?thesis
          by (auto simp: overlay_line_def Let_def addr_def [symmetric] dirty_holds_def)
      qed
    qed
  next
    case False
    then show ?thesis by (auto simp: overlay_line_def dirty_holds_def holds_def)
  qed
qed

subsection \<open>One level\<close>

definition all_lines :: "'n cache \<Rightarrow> (nat \<times> cache_line) list" where
  "all_lines c = concat (map (\<lambda>si. map (Pair si) (ways (c_sets c ! si))) [0..<length (c_sets c)])"

lemma fold_nested:
  "fold (\<lambda>i. fold (f i) (g i)) xs s = fold (\<lambda>(i, x). f i x) (concat (map (\<lambda>i. map (Pair i) (g i)) xs)) s"
proof -
  have "fold (\<lambda>(i, x). f i x) (map (Pair i) ys) s = fold (f i) ys s" for i ys s
    by (induction ys arbitrary: s) simp_all
  then show ?thesis by (induction xs arbitrary: s) simp_all
qed

lemma all_lines_iff:
  assumes "cache_geom c"
  shows "(si, l) \<in> set (all_lines c) \<longleftrightarrow> si < 2 ^ set_bits c \<and> (\<exists>wi < nways c si. l = get_line c si wi)"
proof -
  have "length (c_sets c) = 2 ^ set_bits c" using assms by (simp add: cache_geom_def)
  then have "(si, l) \<in> set (all_lines c) \<longleftrightarrow> si < 2 ^ set_bits c \<and> l \<in> set (ways (c_sets c ! si))"
    by (auto simp: all_lines_def)
  then show ?thesis by (auto simp: in_set_conv_nth nways_def get_line_def)
qed

lemma overlay_lines_nth:
  assumes wf: "cache_wf view minv c" and al: "64 dvd unat base" "64 dvd length buf"
    and a: "base \<le> a" "unat (a - base) < length buf" and xs: "set xs \<subseteq> set (all_lines c)"
    and one: "\<And>si l. (si, l) \<in> set xs \<Longrightarrow> dirty_holds c a (si, l) \<Longrightarrow> cl_data l ! off_of c a = v"
  defines "f \<equiv> \<lambda>(si, l). overlay_line c base si l"
  shows "fold f xs buf ! unat (a - base) = (if \<exists>x \<in> set xs. dirty_holds c a x then v else buf ! unat (a - base))
    \<and> length (fold f xs buf) = length buf"
  using xs one
proof (induction xs rule: rev_induct)
  case (snoc x xs)
  obtain si l where x: "x = (si, l)" by (cases x)
  let ?buf = "fold f xs buf"
  have sub: "set xs \<subseteq> set (all_lines c)" using snoc.prems(1) by simp
  have one': "cl_data l ! off_of c a = v" if "(si, l) \<in> set xs" "dirty_holds c a (si, l)" for si l
    using snoc.prems(2) [of si l] that by simp
  note ih = snoc.IH [OF sub one', THEN conjunct1] snoc.IH [OF sub one', THEN conjunct2]
  note g = cache_wfD(1) [OF wf]
  from snoc.prems(1) x all_lines_iff [OF g] obtain wi where
    l: "si < 2 ^ set_bits c" "wi < nways c si" "l = get_line c si wi" by auto
  have ok: "line_ok view c si l" "length (cl_data l) = 2 ^ block_bits c"
    using cache_wfD(4) [OF wf l(1,2)] g l by (auto simp: cache_geom_def)
  note n = overlay_line_nth [OF g ok al(1) _ a(1), of ?buf]
  have "cl_data l ! off_of c a = v" if "dirty_holds c a (si, l)" using snoc.prems(2) [of si l] x that by simp
  with n ih al(2) a(2) show ?case by (auto simp: f_def x)
qed simp

lemma cache_image_depicts:
  assumes wf: "cache_wf view minv c" and al: "64 dvd unat base" "64 dvd length (img (c_next c) buf)"
    and base: "base_fn (c_next c) = base" and d: "depicts base (img (c_next c) buf) (view (c_next c))"
  defines "out \<equiv> cache_write_image_into img base_fn c buf"
  shows "depicts base out (cache_peek_byte_raw view c) \<and> length out = length (img (c_next c) buf)"
proof -
  let ?buf = "img (c_next c) buf" and ?f = "\<lambda>(si, l). overlay_line c base si l"
  note g = cache_wfD(1) [OF wf]
  have out: "out = fold ?f (all_lines c) ?buf"
    by (simp add: out_def cache_write_image_into_def base fold_nested all_lines_def)
  have len: "length out = length ?buf"
    unfolding out by (rule fold_invariant [where P = "\<lambda>b. length b = length ?buf" and Q = "\<lambda>_. True"])
      (auto simp: overlay_line_def Let_def)
  have "cache_peek_byte_raw view c a
      = (if base \<le> a \<and> unat (a - base) < length out then Some (out ! unat (a - base)) else None)" for a
  proof (cases "base \<le> a \<and> unat (a - base) < length ?buf")
    case True
    then have in_next: "view (c_next c) a = Some (?buf ! unat (a - base))" using d by (simp add: depicts_def)
    have uniq: "cl_data l ! off_of c a = the (cache_peek_byte_raw view c a)"
      if "(si, l) \<in> set (all_lines c)" "dirty_holds c a (si, l)" for si l
    proof -
      from that all_lines_iff [OF g] obtain wi where l: "wi < nways c si" "l = get_line c si wi" by auto
      from that have h: "holds c si l a" by (simp add: dirty_holds_def)
      then have "si = set_of c a" by (simp add: holds_def)
      with peek_hit [OF g cache_wfD(3) [OF wf], of wi a view] l h show ?thesis by simp
    qed
    have v: "out ! unat (a - base) = (if \<exists>x \<in> set (all_lines c). dirty_holds c a x
        then the (cache_peek_byte_raw view c a) else ?buf ! unat (a - base))"
      unfolding out using overlay_lines_nth [OF wf al _ _ subset_refl uniq] True by auto
    from wf show ?thesis
    proof (cases rule: peek_cases [where a = a])
      case (hit wi)
      let ?l = "get_line c (set_of c a) wi"
      have mem: "(set_of c a, ?l) \<in> set (all_lines c)" using hit(1) set_of_less all_lines_iff [OF g] by blast
      have "out ! unat (a - base) = cl_data ?l ! off_of c a"
      proof (cases "cl_dirty ?l")
        case True
        with hit mem have "\<exists>x \<in> set (all_lines c). dirty_holds c a x" by (force simp: dirty_holds_def)
        with v hit(3) show ?thesis by simp
      next
        case False
        then have clean: "view (c_next c) a = Some (cl_data ?l ! off_of c a)"
          using cache_wfD(4) [OF wf set_of_less hit(1)] hit(2) by (simp add: line_ok_def)
        with in_next v hit(3) show ?thesis by simp
      qed
      with hit(3) True len show ?thesis by simp
    next
      case miss
      then have "\<not> (\<exists>x \<in> set (all_lines c). dirty_holds c a x)"
        using all_lines_iff [OF g] by (auto simp: dirty_holds_def holds_def)
      with v miss(2) in_next True len show ?thesis by simp
    qed
  next
    case False
    then have none: "view (c_next c) a = None" using d by (auto simp: depicts_def)
    from wf have "cache_peek_byte_raw view c a = None"
    proof (cases rule: peek_cases [where a = a])
      case (hit wi)
      with cache_wfD(4) [OF wf set_of_less hit(1)] none show ?thesis by (fastforce simp: line_ok_def)
    qed (use none in simp)
    with False len show ?thesis by auto
  qed
  with len show ?thesis by (simp add: depicts_def)
qed

subsection \<open>The hierarchy\<close>

abbreviation (input) bus_ram :: "system_bus \<Rightarrow> ram" where
  "bus_ram b \<equiv> c_next (c_next (c_next (l1_cache b)))"

lemma ram_image_depicts:
  assumes "hier_wf (l1_cache b)"
  shows "depicts (ram_base (bus_ram b)) (ram_image b) (hier_peek_byte_raw (l1_cache b))
    \<and> length (ram_image b) = length (ram_data (bus_ram b))"
proof -
  let ?c1 = "l1_cache b"
  let ?m = "bus_ram b"
  note w1 = assms [unfolded hier_wf_def]
  note w2 = cache_wfD(2) [OF w1]
  note w3 = cache_wfD(2) [OF w2]
  note wr = cache_wfD(2) [OF w3]
  have al: "64 dvd unat (ram_base ?m)" "64 dvd length (ram_data ?m)"
    using wr by (simp_all add: ram_wf_def and_63_eq_0)
  define i3 where "i3 = cache_write_image_into ram_write_image_into ram_base"
  define i2 where "i2 = cache_write_image_into i3 (\<lambda>c. ram_base (c_next c))"
  let ?buf = "replicate (ram_len ?m) (0 :: u8)"
  have d3: "depicts (ram_base ?m) (i3 (c_next (c_next ?c1)) ?buf) (cache_peek_byte_raw ram_peek_byte (c_next (c_next ?c1)))
      \<and> length (i3 (c_next (c_next ?c1)) ?buf) = length (ram_data ?m)"
    unfolding i3_def
    using cache_image_depicts [OF w3 al(1), of ram_write_image_into ?buf ram_base] al(2) ram_depicts [OF wr]
    by (simp add: ram_write_image_into_def)
  have d2: "depicts (ram_base ?m) (i2 (c_next ?c1) ?buf)
        (cache_peek_byte_raw (cache_peek_byte_raw ram_peek_byte) (c_next ?c1))
      \<and> length (i2 (c_next ?c1) ?buf) = length (ram_data ?m)"
    unfolding i2_def
    using cache_image_depicts [OF w2 al(1), of i3 ?buf "\<lambda>c. ram_base (c_next c)"] al(2) d3 by simp
  show ?thesis
    using cache_image_depicts [OF w1 al(1), of i2 ?buf "\<lambda>c. ram_base (c_next (c_next c))"] al(2) d2
    by (simp add: ram_image_def Let_def i3_def i2_def hier_peek_byte_raw_def)
qed

lemma next_load_image [simp]: "c_next (cache_load_image load bytes c) = load bytes (c_next c)"
  by (simp add: cache_load_image_def)

lemma cache_load_image_ok:
  assumes "cache_geom c" "minv (load bytes (c_next c))"
  shows "cache_wf view minv (cache_load_image load bytes c)"
    "cache_peek_byte_raw view (cache_load_image load bytes c) = view (load bytes (c_next c))"
proof -
  let ?c = "cache_load_image load bytes c"
  have len: "length (c_sets c) = 2 ^ set_bits c" using assms(1) by (simp add: cache_geom_def)
  have f: "block_bits ?c = block_bits c" "set_bits ?c = set_bits c" "c_params ?c = c_params c"
    "c_next ?c = load bytes (c_next c)" "length (c_sets ?c) = length (c_sets c)"
    by (simp_all add: cache_load_image_def)
  have nw: "nways ?c si = nways c si" if "si < 2 ^ set_bits c" for si
    using that len by (simp add: nways_def cache_load_image_def)
  have line: "get_line ?c si wi = clear_line (get_line c si wi)" if "si < 2 ^ set_bits c" "wi < nways c si" for si wi
    using that len by (simp add: get_line_def nways_def cache_load_image_def)
  have no: "\<not> cl_valid (get_line ?c si wi)" if "si < 2 ^ set_bits c" "wi < nways c si" for si wi
    using line [OF that] by (simp add: clear_line_def)
  have "cache_geom ?c" using assms(1) by (simp add: cache_geom_def f nw line clear_line_def)
  then show "cache_wf view minv ?c"
    using assms(2) no by (simp add: cache_wf_def unique_tags_def line_ok_def holds_def f nw)
  have "\<not> holds ?c (set_of ?c a) (get_line ?c (set_of ?c a) wi) a" if "wi < nways ?c (set_of ?c a)" for a wi
    using that set_of_less [of ?c a] no nw by (simp add: holds_def f)
  then show "cache_peek_byte_raw view ?c = view (load bytes (c_next c))"
    using peek_miss [of ?c _ view] by (simp add: fun_eq_iff f)
qed

lemma load_ram_image_ok:
  assumes "hier_wf (l1_cache b)" "length bytes = length (ram_data (bus_ram b))" "depicts (ram_base (bus_ram b)) bytes m"
  shows "hier_wf (l1_cache (load_ram_image bytes b))" "hier_peek_byte_raw (l1_cache (load_ram_image bytes b)) = m"
    "bus_ram (load_ram_image bytes b) = (bus_ram b)\<lparr>ram_data := bytes\<rparr>"
proof -
  let ?c1 = "l1_cache b"
  note w1 = assms(1) [unfolded hier_wf_def]
  note w2 = cache_wfD(2) [OF w1]
  note w3 = cache_wfD(2) [OF w2]
  have wr: "ram_wf (ram_load_image bytes (bus_ram b))"
    using cache_wfD(2) [OF w3] assms(2) by (simp add: ram_wf_def ram_load_image_def)
  note l3 = cache_load_image_ok [OF cache_wfD(1) [OF w3], where load = ram_load_image and minv = ram_wf, OF wr]
  note l2 = cache_load_image_ok [OF cache_wfD(1) [OF w2], where load = "cache_load_image ram_load_image"
      and minv = "cache_wf ram_peek_byte ram_wf", OF l3(1)]
  note l1 = cache_load_image_ok [OF cache_wfD(1) [OF w1], where load = "cache_load_image (cache_load_image ram_load_image)"
      and minv = "cache_wf (cache_peek_byte_raw ram_peek_byte) (cache_wf ram_peek_byte ram_wf)", OF l2(1)]
  show "hier_wf (l1_cache (load_ram_image bytes b))"
    using l1(1) by (simp add: hier_wf_def load_ram_image_def)
  have "ram_peek_byte (ram_load_image bytes (bus_ram b)) = m"
    using ram_depicts [OF wr] assms(3) by (simp add: depicts_def fun_eq_iff ram_load_image_def)
  then show "hier_peek_byte_raw (l1_cache (load_ram_image bytes b)) = m"
    unfolding hier_peek_byte_raw_def load_ram_image_def by (simp add: l1(2) l2(2) l3(2))
  show "bus_ram (load_ram_image bytes b) = (bus_ram b)\<lparr>ram_data := bytes\<rparr>"
    by (simp add: load_ram_image_def ram_load_image_def)
qed

end
