(* ===== verification/Snapshot.thy ===== *)
theory Snapshot
  imports Virtual_Machine Cache_Image Bus_Client
begin

text \<open>
  Checkpoints (\<open>VmSnapshot\<close>, \<open>snapshot\<close> and \<open>restore\<close> of \<open>virtual_machine.rs\<close>): going back to a
  snapshot gives back the core, the devices and the memory, also when the bulk images were detached
  and attached again in between.
\<close>

lemma bus_wf_hier: "bus_wf b \<Longrightarrow> hier_wf (l1_cache b)" "bus_wf b \<Longrightarrow> fb_wf (bus_framebuffer b)"
  by (simp_all add: bus_wf_def)

lemma reattach_bulk:
  assumes "fb_wf (ds_framebuffer (snap_devices s))"
  shows "with_bulk (snap_ram s) (snap_fb_image s) (without_bulk s) = s"
  using assms
  by (cases s) (simp add: with_bulk_def without_bulk_def snap_fb_image_def fb_image_def without_fb_def
      load_fb_image_def plane_image_def strip_planes_def load_plane_image_def fb_wf_def Let_def)

lemma restore_device_state_fields [simp]:
  "l1_cache (restore_device_state d b) = l1_cache b" "bus_rom (restore_device_state d b) = bus_rom b"
  "device_state_of (restore_device_state d b) = d"
  by (simp_all add: restore_device_state_def device_state_of_def)

lemma load_ram_image_fields [simp]:
  "device_state_of (load_ram_image bytes b) = device_state_of b" "bus_rom (load_ram_image bytes b) = bus_rom b"
  by (simp_all add: load_ram_image_def device_state_of_def)

lemma ram_length: "hier_wf (l1_cache b) \<Longrightarrow> length (ram_data (bus_ram b)) = unat (ram_size (bus_ram b))"
  by (simp add: hier_wf_def cache_wf_def ram_wf_def)

text \<open>C8. Time travel. Taking a snapshot of a machine and restoring it later, on a machine whose memory
  has changed in any way, gives back the core, every device and every byte of memory as the machine saw
  it when the snapshot was taken - also the bytes that were only in dirty cache lines - and keeps the
  machine well formed. Detaching the RAM and framebuffer images and attaching them again loses nothing.\<close>

theorem restore_snapshot:
  assumes "bus_wf (vm_bus vm)" and "bus_wf (vm_bus later)"
    and "ram_base (bus_ram (vm_bus later)) = ram_base (bus_ram (vm_bus vm))"
    and "ram_size (bus_ram (vm_bus later)) = ram_size (bus_ram (vm_bus vm))"
  defines "s \<equiv> vm_take_snapshot vm"
  defines "r \<equiv> vm_restore s later"
  shows "vm_cpu r = vm_cpu vm \<and> device_state_of (vm_bus r) = device_state_of (vm_bus vm)
    \<and> hier_peek_byte_raw (l1_cache (vm_bus r)) = hier_peek_byte_raw (l1_cache (vm_bus vm))
    \<and> hier_wf (l1_cache (vm_bus r)) \<and> with_bulk (snap_ram s) (snap_fb_image s) (without_bulk s) = s"
proof -
  note wf = bus_wf_hier(1) [OF assms(1)] bus_wf_hier(1) [OF assms(2)]
  let ?b = "restore_device_state (snap_devices s) (vm_bus later)"
  note d = ram_image_depicts [OF wf(1)]
  have len: "length (ram_image (vm_bus vm)) = length (ram_data (bus_ram ?b))"
    using d assms(4) by (simp add: ram_length wf)
  have dep: "depicts (ram_base (bus_ram ?b)) (ram_image (vm_bus vm)) (hier_peek_byte_raw (l1_cache (vm_bus vm)))"
    using d assms(3) by simp
  have "hier_wf (l1_cache ?b)" using wf(2) by simp
  note l = load_ram_image_ok [OF this len dep]
  have "with_bulk (snap_ram s) (snap_fb_image s) (without_bulk s) = s"
    by (rule reattach_bulk) (simp add: s_def vm_take_snapshot_def device_state_of_def bus_wf_hier(2) [OF assms(1)])
  with l show ?thesis
    by (simp add: r_def vm_restore_def s_def vm_take_snapshot_def)
qed

text \<open>A machine with a byte waiting in its UART goes back to before the byte arrived.\<close>

theorem restore_snapshot_witness:
  "bus_uart (vm_bus (vm_restore (vm_take_snapshot \<lparr>vm_cpu = pipeline_new 0 0, vm_bus = system_bus_new []\<rparr>)
     (vm_uart_receive 7 \<lparr>vm_cpu = pipeline_new 4 0, vm_bus = system_bus_new []\<rparr>))) = uart_new"
proof -
  let ?vm = "\<lparr>vm_cpu = pipeline_new 0 0, vm_bus = system_bus_new []\<rparr>"
  let ?later = "vm_uart_receive 7 \<lparr>vm_cpu = pipeline_new 4 0, vm_bus = system_bus_new []\<rparr>"
  have wf: "bus_wf (vm_bus ?vm)" "bus_wf (vm_bus ?later)"
    using bus_wf_new [of "[]"] by (simp_all add: bus_wf_def vm_uart_receive_def uart_wf_receive)
  have same: "l1_cache (vm_bus ?later) = l1_cache (vm_bus ?vm)" by (simp add: vm_uart_receive_def)
  have "device_state_of (vm_bus (vm_restore (vm_take_snapshot ?vm) ?later)) = device_state_of (vm_bus ?vm)"
    using restore_snapshot [OF wf] same by simp
  from arg_cong [OF this, of ds_uart] show ?thesis by (simp add: device_state_of_def system_bus_new_def)
qed

end
