(* ===== verification/Asm_Instructions.thy ===== *)
theory Asm_Instructions
  imports Disasm
begin

text \<open>
  The instructions of the assembler (\<open>crates/asm-to-binary\<close>: \<open>real.rs\<close>, \<open>macros.rs\<close>, \<open>riscv/rv64i.rs\<close>,
  \<open>rv64m.rs\<close>, \<open>rv64a.rs\<close>, \<open>rv64fd.rs\<close>, \<open>rv64zicsr.rs\<close>). The sources generate one struct per instruction
  from a macro per shape; here each shape is a constructor of \<open>real_instruction\<close> whose first argument
  is the identity the macro is applied to. \<open>instr_new_ok\<close> collects what the constructors assert.
  Encoding panics when a descriptor refuses the operands: \<open>None\<close>.
\<close>

datatype real_instruction =
    RI_Reg rr_id u8 u8 u8
  | RI_Imm base_id u8 u8 i32
  | RI_Load base_id u8 u8 i32
  | RI_Shift base_id u8 u8 u8
  | RI_Store base_id u8 u8 i32
  | RI_Branch base_id u8 u8 i32
  | RI_Upper upper_id u8 i32
  | RI_Jal u8 i32
  | RI_Jalr u8 u8 i32
  | RI_System base_id
  | RI_Fence u8 u8 u8
  | RI_CsrReg base_id u8 u16 u8
  | RI_CsrImm base_id u8 u16 u8
  | RI_Amo atomic_id u8 u8 u8 bool bool
  | RI_Lr bool u8 u8 bool bool
  | RI_Sc bool u8 u8 u8 bool bool
  | RI_FLoad fp_id u8 u8 i32
  | RI_FStore fp_id u8 u8 i32
  | RI_FAlu fp_id u8 u8 u8 u8
  | RI_FSqrt fp_id u8 u8 u8
  | RI_FCmp fp_id u8 u8 u8
  | RI_FClass fp_id u8 u8
  | RI_FMv fp_id u8 u8
  | RI_FCvtF2I fp_id u8 u8 u8
  | RI_FCvtI2F fp_id u8 u8 u8
  | RI_FCvtF2F fp_id u8 u8 u8
  | RI_FMac fp_id u8 u8 u8 u8 u8

subsection \<open>What the constructors accept\<close>

text \<open>The instructions each macro is applied to.\<close>

abbreviation (input) i_imm_ids :: "base_id list" where
  "i_imm_ids \<equiv> [Addi, Slti, Sltiu, Xori, Ori, Andi, Addiw]"
abbreviation (input) i_load_ids :: "base_id list" where "i_load_ids \<equiv> [Lb, Lh, Lw, Ld, Lbu, Lhu, Lwu]"
abbreviation (input) shift_ids :: "base_id list" where "shift_ids \<equiv> [Slli, Srli, Srai]"
abbreviation (input) shiftw_ids :: "base_id list" where "shiftw_ids \<equiv> [Slliw, Srliw, Sraiw]"
abbreviation (input) s_ids :: "base_id list" where "s_ids \<equiv> [Sb, Sh, Sw, Sd]"
abbreviation (input) b_ids :: "base_id list" where "b_ids \<equiv> [Beq, Bne, Blt, Bge, Bltu, Bgeu]"
abbreviation (input) system_ids :: "base_id list" where
  "system_ids \<equiv> [base_id.Ecall, base_id.Ebreak, base_id.Mret, base_id.Sret, SfenceVma, Wfi, FenceI]"
abbreviation (input) csr_reg_ids :: "base_id list" where "csr_reg_ids \<equiv> [Csrrw, Csrrs, Csrrc]"
abbreviation (input) csr_imm_ids :: "base_id list" where "csr_imm_ids \<equiv> [Csrrwi, Csrrsi, Csrrci]"
abbreviation (input) amo_ids :: "atomic_id list" where
  "amo_ids \<equiv> [AmoaddW, AmoswapW, AmoxorW, AmoandW, AmoorW, AmominW, AmomaxW, AmominuW, AmomaxuW,
     AmoaddD, AmoswapD, AmoxorD, AmoandD, AmoorD, AmominD, AmomaxD, AmominuD, AmomaxuD]"
abbreviation (input) fp_alu_rm_ids :: "fp_id list" where
  "fp_alu_rm_ids \<equiv> [FaddS, FsubS, FmulS, FdivS, FaddD, FsubD, FmulD, FdivD]"
abbreviation (input) fp_alu_fixed_ids :: "fp_id list" where
  "fp_alu_fixed_ids \<equiv> [FsgnjS, FsgnjnS, FsgnjxS, FminS, FmaxS, FsgnjD, FsgnjnD, FsgnjxD, FminD, FmaxD]"
abbreviation (input) fcmp_ids :: "fp_id list" where "fcmp_ids \<equiv> [FleS, FltS, FeqS, FleD, FltD, FeqD]"
abbreviation (input) fmv_ids :: "fp_id list" where "fmv_ids \<equiv> [FmvXW, FmvWX, FmvXD, FmvDX]"
abbreviation (input) fcvt_f2i_ids :: "fp_id list" where
  "fcvt_f2i_ids \<equiv> [FcvtWS, FcvtWuS, FcvtLS, FcvtLuS, FcvtWD, FcvtWuD, FcvtLD, FcvtLuD]"
abbreviation (input) fcvt_i2f_ids :: "fp_id list" where
  "fcvt_i2f_ids \<equiv> [FcvtSW, FcvtSWu, FcvtSL, FcvtSLu, FcvtDW, FcvtDWu, FcvtDL, FcvtDLu]"
abbreviation (input) fmac_ids :: "fp_id list" where
  "fmac_ids \<equiv> [FmaddS, FmaddD, FmsubS, FmsubD, FnmsubS, FnmsubD, FnmaddS, FnmaddD]"

definition imm12_ok :: "i32 \<Rightarrow> bool" where
  "imm12_ok imm \<longleftrightarrow> - 2048 \<le> sint imm \<and> sint imm \<le> 2047"

text \<open>\<open>with_rm\<close> may replace the default rounding mode of an arithmetic instruction; on an instruction
  whose rounding field is fixed another mode makes the encoder panic.\<close>

fun instr_new_ok :: "real_instruction \<Rightarrow> bool" where
  "instr_new_ok (RI_Reg i rd rs1 rs2) \<longleftrightarrow> rd < 32 \<and> rs1 < 32 \<and> rs2 < 32"
| "instr_new_ok (RI_Imm i rd rs1 imm) \<longleftrightarrow> i \<in> set i_imm_ids \<and> rd < 32 \<and> rs1 < 32 \<and> imm12_ok imm"
| "instr_new_ok (RI_Load i rd base offset) \<longleftrightarrow> i \<in> set i_load_ids \<and> rd < 32 \<and> base < 32 \<and> imm12_ok offset"
| "instr_new_ok (RI_Shift i rd rs1 shamt) \<longleftrightarrow> rd < 32 \<and> rs1 < 32
     \<and> (i \<in> set shift_ids \<and> shamt \<le> 63 \<or> i \<in> set shiftw_ids \<and> shamt \<le> 31)"
| "instr_new_ok (RI_Store i base src offset) \<longleftrightarrow> i \<in> set s_ids \<and> base < 32 \<and> src < 32 \<and> imm12_ok offset"
| "instr_new_ok (RI_Branch i rs1 rs2 offset) \<longleftrightarrow> i \<in> set b_ids \<and> rs1 < 32 \<and> rs2 < 32
     \<and> offset AND 1 = 0 \<and> - 4096 \<le> sint offset \<and> sint offset \<le> 4094"
| "instr_new_ok (RI_Upper i rd imm) \<longleftrightarrow> rd < 32"
| "instr_new_ok (RI_Jal rd offset) \<longleftrightarrow> rd < 32 \<and> offset AND 1 = 0 \<and> - 1048576 \<le> sint offset \<and> sint offset \<le> 1048574"
| "instr_new_ok (RI_Jalr rd rs1 imm) \<longleftrightarrow> rd < 32 \<and> rs1 < 32 \<and> imm12_ok imm"
| "instr_new_ok (RI_System i) \<longleftrightarrow> i \<in> set system_ids"
| "instr_new_ok (RI_Fence fm pred succ) \<longleftrightarrow> fm = 0 \<and> pred \<le> 0xF \<and> succ \<le> 0xF"
| "instr_new_ok (RI_CsrReg i rd csr rs1) \<longleftrightarrow> i \<in> set csr_reg_ids \<and> rd < 32 \<and> rs1 < 32 \<and> csr \<le> 0xFFF"
| "instr_new_ok (RI_CsrImm i rd csr uimm) \<longleftrightarrow> i \<in> set csr_imm_ids \<and> rd < 32 \<and> csr \<le> 0xFFF \<and> uimm < 32"
| "instr_new_ok (RI_Amo i rd addr src aq rl) \<longleftrightarrow> i \<in> set amo_ids \<and> rd < 32 \<and> addr < 32 \<and> src < 32"
| "instr_new_ok (RI_Lr double rd addr aq rl) \<longleftrightarrow> rd < 32 \<and> addr < 32"
| "instr_new_ok (RI_Sc double rd addr src aq rl) \<longleftrightarrow> rd < 32 \<and> addr < 32 \<and> src < 32"
| "instr_new_ok (RI_FLoad i rd base offset) \<longleftrightarrow> i \<in> set [Flw, Fld] \<and> rd < 32 \<and> base < 32 \<and> imm12_ok offset"
| "instr_new_ok (RI_FStore i base src offset) \<longleftrightarrow> i \<in> set [Fsw, Fsd] \<and> base < 32 \<and> src < 32 \<and> imm12_ok offset"
| "instr_new_ok (RI_FAlu i rd rs1 rs2 rm) \<longleftrightarrow> rd < 32 \<and> rs1 < 32 \<and> rs2 < 32
     \<and> (i \<in> set fp_alu_rm_ids \<and> valid_rounding_mode rm
        \<or> i \<in> set fp_alu_fixed_ids \<and> Some rm = floating_default_rounding_mode (Fp i))"
| "instr_new_ok (RI_FSqrt i rd rs1 rm) \<longleftrightarrow> i \<in> set [FsqrtS, FsqrtD] \<and> rd < 32 \<and> rs1 < 32 \<and> valid_rounding_mode rm"
| "instr_new_ok (RI_FCmp i rd rs1 rs2) \<longleftrightarrow> i \<in> set fcmp_ids \<and> rd < 32 \<and> rs1 < 32 \<and> rs2 < 32"
| "instr_new_ok (RI_FClass i rd rs1) \<longleftrightarrow> i \<in> set [FclassS, FclassD] \<and> rd < 32 \<and> rs1 < 32"
| "instr_new_ok (RI_FMv i rd rs) \<longleftrightarrow> i \<in> set fmv_ids \<and> rd < 32 \<and> rs < 32"
| "instr_new_ok (RI_FCvtF2I i rd rs1 rm) \<longleftrightarrow> i \<in> set fcvt_f2i_ids \<and> rd < 32 \<and> rs1 < 32 \<and> valid_rounding_mode rm"
| "instr_new_ok (RI_FCvtI2F i rd rs1 rm) \<longleftrightarrow> i \<in> set fcvt_i2f_ids \<and> rd < 32 \<and> rs1 < 32 \<and> valid_rounding_mode rm"
| "instr_new_ok (RI_FCvtF2F i rd rs1 rm) \<longleftrightarrow> i \<in> set [FcvtSD, FcvtDS] \<and> rd < 32 \<and> rs1 < 32 \<and> valid_rounding_mode rm"
| "instr_new_ok (RI_FMac i rd rs1 rs2 rs3 rm) \<longleftrightarrow> i \<in> set fmac_ids \<and> rd < 32 \<and> rs1 < 32 \<and> rs2 < 32 \<and> rs3 < 32
     \<and> valid_rounding_mode rm"

subsection \<open>Encoding\<close>

definition int_reg_new :: "u8 \<Rightarrow> int_reg option" where
  "int_reg_new n = (if n < 32 then Some (IntReg n) else None)"

definition unwrap_word :: "encoding_error + u32 \<Rightarrow> u32 option" where
  "unwrap_word r = (case r of Inr w \<Rightarrow> Some w | Inl _ \<Rightarrow> None)"

definition encode_immediate :: "base_id \<Rightarrow> u8 \<Rightarrow> u8 \<Rightarrow> i32 \<Rightarrow> u32 option" where
  "encode_immediate i rd rs1 immediate =
     Option.bind (int_reg_new rd) (\<lambda>rd. Option.bind (int_reg_new rs1) (\<lambda>rs1.
       unwrap_word (encode_base_integer (Base i) (Ops_Immediate rd rs1 immediate))))"

definition encode_fixed :: "base_id \<Rightarrow> u32 option" where
  "encode_fixed i = unwrap_word (encode_base_integer (Base i) Ops_None)"

definition encode_fp :: "fp_id \<Rightarrow> u8 \<Rightarrow> u8 \<Rightarrow> u8 \<Rightarrow> u8 \<Rightarrow> u8 \<Rightarrow> i32 \<Rightarrow> u32 option" where
  "encode_fp i rd rs1 rs2 rs3 rm immediate = unwrap_word (encode_floating (Fp i) rd rs1 rs2 rs3 rm immediate)"

definition encode_amo :: "atomic_id \<Rightarrow> u8 \<Rightarrow> u8 \<Rightarrow> u8 \<Rightarrow> bool \<Rightarrow> bool \<Rightarrow> u32 option" where
  "encode_amo i rd addr src aq rl =
     Option.bind (int_reg_new rd) (\<lambda>rd. Option.bind (int_reg_new addr) (\<lambda>rs1. Option.bind (int_reg_new src) (\<lambda>rs2.
       unwrap_word (encode_atomic (Atomic i) rd rs1 rs2 aq rl))))"

definition lr_id :: "bool \<Rightarrow> atomic_id" where
  "lr_id double = (if double then LrD else LrW)"

definition sc_id :: "bool \<Rightarrow> atomic_id" where
  "sc_id double = (if double then ScD else ScW)"

fun encode_real :: "real_instruction \<Rightarrow> u32 option" where
  "encode_real (RI_Reg i rd rs1 rs2) =
     Option.bind (int_reg_new rd) (\<lambda>rd. Option.bind (int_reg_new rs1) (\<lambda>rs1. Option.bind (int_reg_new rs2) (\<lambda>rs2.
       unwrap_word (encode_register_register (Rr i) rd rs1 rs2))))"
| "encode_real (RI_Imm i rd rs1 imm) = encode_immediate i rd rs1 imm"
| "encode_real (RI_Load i rd base offset) = encode_immediate i rd base offset"
| "encode_real (RI_Shift i rd rs1 shamt) = encode_immediate i rd rs1 (ucast shamt)"
| "encode_real (RI_Store i base src offset) =
     Option.bind (int_reg_new base) (\<lambda>rs1. Option.bind (int_reg_new src) (\<lambda>rs2.
       unwrap_word (encode_base_integer (Base i) (Ops_Store rs1 rs2 offset))))"
| "encode_real (RI_Branch i rs1 rs2 offset) =
     Option.bind (int_reg_new rs1) (\<lambda>rs1. Option.bind (int_reg_new rs2) (\<lambda>rs2.
       unwrap_word (encode_base_integer (Base i) (Ops_Branch rs1 rs2 offset))))"
| "encode_real (RI_Upper i rd imm) =
     Option.bind (int_reg_new rd) (\<lambda>rd. unwrap_word (encode_upper_immediate (Upper i) rd imm))"
| "encode_real (RI_Jal rd offset) =
     Option.bind (int_reg_new rd) (\<lambda>rd. unwrap_word (encode_base_integer (Base Jal) (Ops_Jump rd offset)))"
| "encode_real (RI_Jalr rd rs1 imm) = encode_immediate Jalr rd rs1 imm"
| "encode_real (RI_System i) = encode_fixed i"
| "encode_real (RI_Fence fm pred succ) = unwrap_word (encode_base_integer (Base Fence) (Ops_Fence fm pred succ))"
| "encode_real (RI_CsrReg i rd csr rs1) =
     Option.bind (int_reg_new rd) (\<lambda>rd. unwrap_word (encode_base_integer (Base i) (Ops_Csr rd rs1 csr)))"
| "encode_real (RI_CsrImm i rd csr uimm) =
     Option.bind (int_reg_new rd) (\<lambda>rd. unwrap_word (encode_base_integer (Base i) (Ops_Csr rd uimm csr)))"
| "encode_real (RI_Amo i rd addr src aq rl) = encode_amo i rd addr src aq rl"
| "encode_real (RI_Lr double rd addr aq rl) = encode_amo (lr_id double) rd addr 0 aq rl"
| "encode_real (RI_Sc double rd addr src aq rl) = encode_amo (sc_id double) rd addr src aq rl"
| "encode_real (RI_FLoad i rd base offset) = encode_fp i rd base 0 0 0 offset"
| "encode_real (RI_FStore i base src offset) = encode_fp i 0 base src 0 0 offset"
| "encode_real (RI_FAlu i rd rs1 rs2 rm) = encode_fp i rd rs1 rs2 0 rm 0"
| "encode_real (RI_FSqrt i rd rs1 rm) = encode_fp i rd rs1 0 0 rm 0"
| "encode_real (RI_FCmp i rd rs1 rs2) =
     Option.bind (floating_default_rounding_mode (Fp i)) (\<lambda>rm. encode_fp i rd rs1 rs2 0 rm 0)"
| "encode_real (RI_FClass i rd rs1) = encode_fp i rd rs1 0 0 1 0"
| "encode_real (RI_FMv i rd rs) = encode_fp i rd rs 0 0 0 0"
| "encode_real (RI_FCvtF2I i rd rs1 rm) = encode_fp i rd rs1 0 0 rm 0"
| "encode_real (RI_FCvtI2F i rd rs1 rm) = encode_fp i rd rs1 0 0 rm 0"
| "encode_real (RI_FCvtF2F i rd rs1 rm) = encode_fp i rd rs1 0 0 rm 0"
| "encode_real (RI_FMac i rd rs1 rs2 rs3 rm) = encode_fp i rd rs1 rs2 rs3 rm 0"

subsection \<open>What an instruction means to the machine\<close>

text \<open>The identity and operands the instruction-set model gives the word of an instruction.\<close>

fun real_decoded :: "real_instruction \<Rightarrow> decoded_instruction" where
  "real_decoded (RI_Reg i rd rs1 rs2) = \<lparr>di_id = Rr i, di_operands = Ops_RegisterRegister (IntReg rd) (IntReg rs1) (IntReg rs2)\<rparr>"
| "real_decoded (RI_Imm i rd rs1 imm) = \<lparr>di_id = Base i, di_operands = Ops_Immediate (IntReg rd) (IntReg rs1) imm\<rparr>"
| "real_decoded (RI_Load i rd base offset) = \<lparr>di_id = Base i, di_operands = Ops_Immediate (IntReg rd) (IntReg base) offset\<rparr>"
| "real_decoded (RI_Shift i rd rs1 shamt) = \<lparr>di_id = Base i, di_operands = Ops_Immediate (IntReg rd) (IntReg rs1) (ucast shamt)\<rparr>"
| "real_decoded (RI_Store i base src offset) = \<lparr>di_id = Base i, di_operands = Ops_Store (IntReg base) (IntReg src) offset\<rparr>"
| "real_decoded (RI_Branch i rs1 rs2 offset) = \<lparr>di_id = Base i, di_operands = Ops_Branch (IntReg rs1) (IntReg rs2) offset\<rparr>"
| "real_decoded (RI_Upper i rd imm) = \<lparr>di_id = Upper i, di_operands = Ops_UpperImmediate (IntReg rd) imm\<rparr>"
| "real_decoded (RI_Jal rd offset) = \<lparr>di_id = Base Jal, di_operands = Ops_Jump (IntReg rd) offset\<rparr>"
| "real_decoded (RI_Jalr rd rs1 imm) = \<lparr>di_id = Base Jalr, di_operands = Ops_Immediate (IntReg rd) (IntReg rs1) imm\<rparr>"
| "real_decoded (RI_System i) = \<lparr>di_id = Base i, di_operands = Ops_None\<rparr>"
| "real_decoded (RI_Fence fm pred succ) = \<lparr>di_id = Base Fence, di_operands = Ops_Fence fm pred succ\<rparr>"
| "real_decoded (RI_CsrReg i rd csr rs1) = \<lparr>di_id = Base i, di_operands = Ops_Csr (IntReg rd) rs1 csr\<rparr>"
| "real_decoded (RI_CsrImm i rd csr uimm) = \<lparr>di_id = Base i, di_operands = Ops_Csr (IntReg rd) uimm csr\<rparr>"
| "real_decoded (RI_Amo i rd addr src aq rl) = \<lparr>di_id = Atomic i, di_operands = Ops_Atomic (IntReg rd) (IntReg addr) (IntReg src) aq rl\<rparr>"
| "real_decoded (RI_Lr double rd addr aq rl) = \<lparr>di_id = Atomic (lr_id double), di_operands = Ops_Atomic (IntReg rd) (IntReg addr) (IntReg 0) aq rl\<rparr>"
| "real_decoded (RI_Sc double rd addr src aq rl) = \<lparr>di_id = Atomic (sc_id double), di_operands = Ops_Atomic (IntReg rd) (IntReg addr) (IntReg src) aq rl\<rparr>"
| "real_decoded (RI_FLoad i rd base offset) = \<lparr>di_id = Fp i, di_operands = Ops_Floating rd base 0 0 0 offset\<rparr>"
| "real_decoded (RI_FStore i base src offset) = \<lparr>di_id = Fp i, di_operands = Ops_Floating 0 base src 0 0 offset\<rparr>"
| "real_decoded (RI_FAlu i rd rs1 rs2 rm) = \<lparr>di_id = Fp i, di_operands = Ops_Floating rd rs1 rs2 0 rm 0\<rparr>"
| "real_decoded (RI_FSqrt i rd rs1 rm) = \<lparr>di_id = Fp i, di_operands = Ops_Floating rd rs1 0 0 rm 0\<rparr>"
| "real_decoded (RI_FCmp i rd rs1 rs2) = \<lparr>di_id = Fp i, di_operands =
     Ops_Floating rd rs1 rs2 0 (the (floating_default_rounding_mode (Fp i))) 0\<rparr>"
| "real_decoded (RI_FClass i rd rs1) = \<lparr>di_id = Fp i, di_operands = Ops_Floating rd rs1 0 0 1 0\<rparr>"
| "real_decoded (RI_FMv i rd rs) = \<lparr>di_id = Fp i, di_operands = Ops_Floating rd rs 0 0 0 0\<rparr>"
| "real_decoded (RI_FCvtF2I i rd rs1 rm) = \<lparr>di_id = Fp i, di_operands = Ops_Floating rd rs1 0 0 rm 0\<rparr>"
| "real_decoded (RI_FCvtI2F i rd rs1 rm) = \<lparr>di_id = Fp i, di_operands = Ops_Floating rd rs1 0 0 rm 0\<rparr>"
| "real_decoded (RI_FCvtF2F i rd rs1 rm) = \<lparr>di_id = Fp i, di_operands = Ops_Floating rd rs1 0 0 rm 0\<rparr>"
| "real_decoded (RI_FMac i rd rs1 rs2 rs3 rm) = \<lparr>di_id = Fp i, di_operands = Ops_Floating rd rs1 rs2 rs3 rm 0\<rparr>"

subsection \<open>Constructed instructions encode\<close>

definition base_format :: "base_id \<Rightarrow> instruction_format option" where
  "base_format i = map_option spec_format (find (\<lambda>spec. spec_id spec = Base i) BASE_INTEGER_SPECS)"

lemma base_formats:
  "list_all (\<lambda>i. base_format i \<in> Some ` set [Fmt_Immediate, Fmt_ImmediateWord, Fmt_Load, Fmt_JumpRegister])
     (Jalr # i_imm_ids @ i_load_ids)"
  "list_all (\<lambda>i. base_format i = Some Fmt_ShiftImmediate) shift_ids"
  "list_all (\<lambda>i. base_format i = Some Fmt_ShiftImmediateWord) shiftw_ids"
  "list_all (\<lambda>i. base_format i = Some Fmt_Store) s_ids"
  "list_all (\<lambda>i. base_format i = Some Fmt_Branch) b_ids"
  "base_format Jal = Some Fmt_Jump" "base_format Fence = Some Fmt_Fence"
  "list_all (\<lambda>i. base_format i \<in> Some ` set [Fmt_FenceI, Fmt_System]) system_ids"
  "list_all (\<lambda>i. base_format i \<in> Some ` set [Fmt_CsrRegister, Fmt_CsrImmediate]) (csr_reg_ids @ csr_imm_ids)"
  by code_simp+

lemma find_base_format:
  assumes "base_format i = Some f"
  obtains spec where "find (\<lambda>spec. spec_id spec = Base i) BASE_INTEGER_SPECS = Some spec" "spec_format spec = f"
  using assms by (auto simp: base_format_def)

lemma encode_base_ok:
  "base_format i \<in> Some ` set [Fmt_Immediate, Fmt_ImmediateWord, Fmt_Load, Fmt_JumpRegister] \<Longrightarrow> imm12_ok imm
     \<Longrightarrow> \<exists>w. encode_base_integer (Base i) (Ops_Immediate rd rs1 imm) = Inr w"
  "base_format i = Some Fmt_ShiftImmediate \<Longrightarrow> 0 \<le> sint imm \<Longrightarrow> sint imm \<le> 63
     \<Longrightarrow> \<exists>w. encode_base_integer (Base i) (Ops_Immediate rd rs1 imm) = Inr w"
  "base_format i = Some Fmt_ShiftImmediateWord \<Longrightarrow> 0 \<le> sint imm \<Longrightarrow> sint imm \<le> 31
     \<Longrightarrow> \<exists>w. encode_base_integer (Base i) (Ops_Immediate rd rs1 imm) = Inr w"
  "base_format i = Some Fmt_Store \<Longrightarrow> imm12_ok imm \<Longrightarrow> \<exists>w. encode_base_integer (Base i) (Ops_Store rs1 rs2 imm) = Inr w"
  "base_format i = Some Fmt_Branch \<Longrightarrow> off AND 1 = 0 \<Longrightarrow> - 4096 \<le> sint off \<Longrightarrow> sint off \<le> 4094
     \<Longrightarrow> \<exists>w. encode_base_integer (Base i) (Ops_Branch rs1 rs2 off) = Inr w"
  "base_format i = Some Fmt_Jump \<Longrightarrow> off AND 1 = 0 \<Longrightarrow> - 1048576 \<le> sint off \<Longrightarrow> sint off \<le> 1048574
     \<Longrightarrow> \<exists>w. encode_base_integer (Base i) (Ops_Jump rd off) = Inr w"
  "base_format i = Some Fmt_Fence \<Longrightarrow> fm \<le> 0xF \<Longrightarrow> pred \<le> 0xF \<Longrightarrow> succ \<le> 0xF
     \<Longrightarrow> \<exists>w. encode_base_integer (Base i) (Ops_Fence fm pred succ) = Inr w"
  "base_format i \<in> Some ` set [Fmt_CsrRegister, Fmt_CsrImmediate] \<Longrightarrow> csr \<le> 0xFFF \<Longrightarrow> source < 32
     \<Longrightarrow> \<exists>w. encode_base_integer (Base i) (Ops_Csr rd source csr) = Inr w"
  "base_format i \<in> Some ` set [Fmt_FenceI, Fmt_System] \<Longrightarrow> \<exists>w. encode_base_integer (Base i) Ops_None = Inr w"
  by (auto simp: encode_base_integer_def base_format_def or_error_def validate_immediate_def imm12_ok_def Let_def
      not_less word_less_nat_alt word_le_nat_alt)

definition fp_format :: "fp_id \<Rightarrow> (instruction_format \<times> u8 option) option" where
  "fp_format i = map_option (\<lambda>s. (spec_format s,
       if spec_mask s AND 0x7000 \<noteq> 0 then Some (ucast (drop_bit 12 (spec_match_bits s) AND 0x7)) else None))
     (find (\<lambda>spec. spec_id spec = Fp i) FLOATING_SPECS)"

lemma fp_real_formats:
  "list_all (\<lambda>i. fp_format i \<in> {Some (Fmt_FloatingOp, None), Some (Fmt_FloatingFused, None)})
     (fp_alu_rm_ids @ [FsqrtS, FsqrtD, FcvtSD, FcvtDS] @ fcvt_f2i_ids @ fcvt_i2f_ids @ fmac_ids)"
  "list_all (\<lambda>i. \<exists>rm \<in> {0, 1, 2}. fp_format i = Some (Fmt_FloatingOp, Some rm)
       \<and> floating_default_rounding_mode (Fp i) = Some rm) (fp_alu_fixed_ids @ fcmp_ids)"
  "list_all (\<lambda>i. fp_format i = Some (Fmt_FloatingOp, Some 1)) [FclassS, FclassD]"
  "list_all (\<lambda>i. fp_format i = Some (Fmt_FloatingOp, Some 0)) fmv_ids"
  "list_all (\<lambda>i. fp_format i \<in> {Some (Fmt_FloatingLoad, None), Some (Fmt_FloatingLoad, Some 2), Some (Fmt_FloatingLoad, Some 3)}) [Flw, Fld]"
  "list_all (\<lambda>i. fp_format i \<in> {Some (Fmt_FloatingStore, None), Some (Fmt_FloatingStore, Some 2), Some (Fmt_FloatingStore, Some 3)}) [Fsw, Fsd]"
  by code_simp+

lemma fp_format_spec:
  assumes "fp_format i = Some (f, fixed)"
  obtains s where "find (\<lambda>spec. spec_id spec = Fp i) FLOATING_SPECS = Some s" "spec_format s = f"
    "(spec_mask s AND 0x7000 \<noteq> 0) = (fixed \<noteq> None)"
    "\<forall>m. fixed = Some m \<longrightarrow> ucast (drop_bit 12 (spec_match_bits s) AND 0x7) = m"
  using assms by (auto simp: fp_format_def split: if_splits)

lemma encode_fp_ok:
  assumes "rd < 32" "rs1 < 32" "rs2 < 32" "rs3 < 32" "fp_format i = Some (f, fixed)"
    and "f \<in> {Fmt_FloatingOp, Fmt_FloatingFused} \<Longrightarrow> case fixed of None \<Rightarrow> valid_rounding_mode rm | Some m \<Rightarrow> rm = m"
    and "f \<in> {Fmt_FloatingLoad, Fmt_FloatingStore} \<Longrightarrow> imm12_ok imm"
    and "f \<in> {Fmt_FloatingOp, Fmt_FloatingFused, Fmt_FloatingLoad, Fmt_FloatingStore}"
  shows "\<exists>w. encode_floating (Fp i) rd rs1 rs2 rs3 rm imm = Inr w"
proof -
  have r: "find (\<lambda>(field, v). v > 31) [(''rd'', rd), (''rs1'', rs1), (''rs2'', rs2), (''rs3'', rs3)] = None"
    using assms(1-4) by (simp add: word_less_nat_alt not_less)
  from fp_format_spec [OF assms(5)] obtain s where
    s: "find (\<lambda>spec. spec_id spec = Fp i) FLOATING_SPECS = Some s" "spec_format s = f"
    "(spec_mask s AND 0x7000 \<noteq> 0) = (fixed \<noteq> None)" "\<forall>m. fixed = Some m \<longrightarrow> ucast (drop_bit 12 (spec_match_bits s) AND 0x7) = m"
    by blast
  have e: "or_error (validate_immediate (Fp i) imm (- 2048) 2047) x = x" if "imm12_ok imm" for x :: "encoding_error + u32"
    using that by (simp add: or_error_def validate_immediate_def imm12_ok_def)
  show ?thesis unfolding encode_floating_def s(1) r option.case s(2,3) Let_def
    using assms(6-8) s(4) by (cases fixed) (auto simp: e)
qed

lemma encode_fp_variants:
  assumes "rd < 32" "rs1 < 32" "rs2 < 32" "rs3 < 32"
  shows "fp_format i \<in> {Some (Fmt_FloatingOp, None), Some (Fmt_FloatingFused, None)} \<Longrightarrow> valid_rounding_mode rm
      \<Longrightarrow> \<exists>w. encode_floating (Fp i) rd rs1 rs2 rs3 rm imm = Inr w"
    and "fp_format i = Some (Fmt_FloatingOp, Some rm) \<Longrightarrow> \<exists>w. encode_floating (Fp i) rd rs1 rs2 rs3 rm imm = Inr w"
    and "map_option fst (fp_format i) \<in> {Some Fmt_FloatingLoad, Some Fmt_FloatingStore} \<Longrightarrow> imm12_ok imm
      \<Longrightarrow> \<exists>w. encode_floating (Fp i) rd rs1 rs2 rs3 rm imm = Inr w"
  using encode_fp_ok [OF assms, of i] by (auto split: option.splits)

lemma rr_ids:
  "map spec_id REGISTER_REGISTER_SPECS = map Rr [Add, Sub, Sll, Slt, Sltu, Xor, Srl, Sra, Or, And, Addw, Subw, Sllw, Srlw,
     Sraw, Mul, Mulh, Mulhsu, Mulhu, Div, Divu, Rem, Remu, Mulw, Divw, Divuw, Remw, Remuw]"
  by (simp add: REGISTER_REGISTER_SPECS_def register_register_spec_def)

lemma rr_id_listed: "Rr i \<in> spec_id ` set REGISTER_REGISTER_SPECS"
  unfolding set_map [symmetric] rr_ids by (cases i) simp_all

lemma upper_rr_ok:
  "\<exists>w. encode_upper_immediate (Upper i) rd imm = Inr w"
  "\<exists>w. encode_register_register (Rr j) r0 r1 r2 = Inr w"
proof -
  have "find (\<lambda>spec. spec_id spec = Upper i) UPPER_IMMEDIATE_SPECS \<noteq> None"
    by (cases i) (simp_all add: UPPER_IMMEDIATE_SPECS_def upper_immediate_spec_def)
  then show "\<exists>w. encode_upper_immediate (Upper i) rd imm = Inr w" by (auto simp: encode_upper_immediate_def)
  have "find (\<lambda>spec. spec_id spec = Rr j) REGISTER_REGISTER_SPECS \<noteq> None"
    using rr_id_listed [of j] by (auto simp: find_None_iff)
  then show "\<exists>w. encode_register_register (Rr j) r0 r1 r2 = Inr w" by (auto simp: encode_register_register_def)
qed

lemma atomic_encode_ok:
  assumes "i \<in> set [LrW, LrD] \<Longrightarrow> reg_number r2 = 0"
  shows "\<exists>w. encode_atomic (Atomic i) r0 r1 r2 aq rl = Inr w"
proof -
  have "find (\<lambda>spec. spec_id spec = Atomic i) ATOMIC_SPECS \<noteq> None"
    by (cases i) (simp_all add: ATOMIC_SPECS_def atomic_spec_def)
  with assms show ?thesis by (auto simp: encode_atomic_def)
qed

lemmas base_format_sets = base_formats(1-5,8,9) [unfolded list_all_iff]
lemmas fp_format_sets = fp_real_formats [unfolded list_all_iff]

lemma shamt_sint: "sint (ucast (shamt :: u8) :: i32) = uint shamt"
proof -
  have "uint (ucast shamt :: i32) = uint shamt" by (simp add: uint_up_ucast is_up)
  moreover from this uint_lt2p [of shamt] have "uint (ucast shamt :: i32) < 2 ^ 31" by simp
  ultimately show ?thesis
    using order_trans [OF _ unsigned_greater_eq, of "- 2147483648 :: int" shamt]
    by (simp add: sint_uint signed_take_bit_int_eq_self_iff)
qed

definition encodes :: "real_instruction \<Rightarrow> bool" where
  "encodes i \<longleftrightarrow> (\<exists>w. encode_real i = Some w \<and> encode_decoded (real_decoded i) = Inr w
     \<and> operands_ok (di_operands (real_decoded i)))"

lemmas encodes_defs = encodes_def int_reg_new_def unwrap_word_def encode_decoded_def reg_ok_def encode_immediate_def
  encode_fixed_def encode_amo_def encode_fp_def

definition is_fp_real :: "real_instruction \<Rightarrow> bool" where
  "is_fp_real i = (case i of RI_FLoad _ _ _ _ \<Rightarrow> True | RI_FStore _ _ _ _ \<Rightarrow> True | RI_FAlu _ _ _ _ _ \<Rightarrow> True
     | RI_FSqrt _ _ _ _ \<Rightarrow> True | RI_FCmp _ _ _ _ \<Rightarrow> True | RI_FClass _ _ _ \<Rightarrow> True | RI_FMv _ _ _ \<Rightarrow> True
     | RI_FCvtF2I _ _ _ _ \<Rightarrow> True | RI_FCvtI2F _ _ _ _ \<Rightarrow> True | RI_FCvtF2F _ _ _ _ \<Rightarrow> True
     | RI_FMac _ _ _ _ _ _ \<Rightarrow> True | _ \<Rightarrow> False)"

lemma encodes_integer:
  assumes "instr_new_ok i" "\<not> is_fp_real i"
  shows "encodes i"
proof (cases i)
  case (RI_Reg i rd rs1 rs2)
  with assms(1) upper_rr_ok(2) [of i "IntReg rd" "IntReg rs1" "IntReg rs2"] show ?thesis by (auto simp: encodes_defs)
next
  case (RI_Imm i rd rs1 imm)
  with assms(1) have i: "i \<in> set (Jalr # i_imm_ids @ i_load_ids)" "imm12_ok imm" "rd < 32" "rs1 < 32" by auto
  from encode_base_ok(1) [OF bspec [OF base_format_sets(1) i(1)] i(2), of "IntReg rd" "IntReg rs1"] RI_Imm i show ?thesis by (auto simp: encodes_defs)
next
  case (RI_Load i rd rs1 imm)
  with assms(1) have i: "i \<in> set (Jalr # i_imm_ids @ i_load_ids)" "imm12_ok imm" "rd < 32" "rs1 < 32" by auto
  from encode_base_ok(1) [OF bspec [OF base_format_sets(1) i(1)] i(2), of "IntReg rd" "IntReg rs1"] RI_Load i show ?thesis by (auto simp: encodes_defs)
next
  case (RI_Shift i rd rs1 shamt)
  with assms(1) have r: "rd < 32" "rs1 < 32" and i: "i \<in> set shift_ids \<and> shamt \<le> 63 \<or> i \<in> set shiftw_ids \<and> shamt \<le> 31" by auto
  have "\<exists>w. encode_base_integer (Base i) (Ops_Immediate (IntReg rd) (IntReg rs1) (ucast shamt)) = Inr w"
  proof (cases "i \<in> set shift_ids \<and> shamt \<le> 63")
    case True
    then show ?thesis by (intro encode_base_ok(2) bspec [OF base_format_sets(2)]) (auto simp: shamt_sint word_le_def)
  next
    case False
    with i have "i \<in> set shiftw_ids" "shamt \<le> 31" by blast+
    then show ?thesis by (intro encode_base_ok(3) bspec [OF base_format_sets(3)]) (simp_all add: shamt_sint word_le_def)
  qed
  with RI_Shift r show ?thesis by (auto simp: encodes_defs)
next
  case (RI_Store i rs1 rs2 imm)
  with assms(1) have i: "i \<in> set s_ids" "imm12_ok imm" "rs1 < 32" "rs2 < 32" by auto
  from encode_base_ok(4) [OF bspec [OF base_format_sets(4) i(1)] i(2), of "IntReg rs1" "IntReg rs2"] RI_Store i show ?thesis by (auto simp: encodes_defs)
next
  case (RI_Branch i rs1 rs2 off)
  with assms(1) have i: "i \<in> set b_ids" "off AND 1 = 0" "- 4096 \<le> sint off" "sint off \<le> 4094" "rs1 < 32" "rs2 < 32" by auto
  from encode_base_ok(5) [OF bspec [OF base_format_sets(5) i(1)] i(2) i(3) i(4), of "IntReg rs1" "IntReg rs2"] RI_Branch i show ?thesis by (auto simp: encodes_defs)
next
  case (RI_Upper i rd imm)
  with assms(1) upper_rr_ok(1) [of i "IntReg rd" imm] show ?thesis by (auto simp: encodes_defs)
next
  case (RI_Jal rd off)
  with assms(1) encode_base_ok(6) [OF base_formats(6), of off "IntReg rd"] show ?thesis by (auto simp: encodes_defs)
next
  case (RI_Jalr rd rs1 imm)
  with assms(1) have r: "imm12_ok imm" "rd < 32" "rs1 < 32" by auto
  have "Jalr \<in> set (Jalr # i_imm_ids @ i_load_ids)" by simp
  from encode_base_ok(1) [OF bspec [OF base_format_sets(1) this] r(1), of "IntReg rd" "IntReg rs1"] RI_Jalr r show ?thesis by (auto simp: encodes_defs)
next
  case (RI_System i)
  with assms(1) have i: "i \<in> set system_ids" by auto
  from encode_base_ok(9) [OF bspec [OF base_format_sets(6) i(1)] ] RI_System i show ?thesis by (auto simp: encodes_defs)
next
  case (RI_Fence fm pred succ)
  with assms(1) encode_base_ok(7) [OF base_formats(7), of fm pred succ] show ?thesis by (auto simp: encodes_defs)
next
  case (RI_CsrReg i rd csr rs1)
  with assms(1) have i: "i \<in> set (csr_reg_ids @ csr_imm_ids)" "csr \<le> 0xFFF" "rs1 < 32" "rd < 32" by auto
  from encode_base_ok(8) [OF bspec [OF base_format_sets(7) i(1)] i(2) i(3), of "IntReg rd"] RI_CsrReg i show ?thesis by (auto simp: encodes_defs)
next
  case (RI_CsrImm i rd csr uimm)
  with assms(1) have i: "i \<in> set (csr_reg_ids @ csr_imm_ids)" "csr \<le> 0xFFF" "uimm < 32" "rd < 32" by auto
  from encode_base_ok(8) [OF bspec [OF base_format_sets(7) i(1)] i(2) i(3), of "IntReg rd"] RI_CsrImm i show ?thesis by (auto simp: encodes_defs)
next
  case (RI_Amo i rd addr src aq rl)
  with assms(1) atomic_encode_ok [of i "IntReg src" "IntReg rd" "IntReg addr" aq rl] show ?thesis by (auto simp: encodes_defs)
next
  case (RI_Lr double rd addr aq rl)
  with assms(1) atomic_encode_ok [of "lr_id double" "IntReg 0" "IntReg rd" "IntReg addr" aq rl] show ?thesis by (auto simp: encodes_defs)
next
  case (RI_Sc double rd addr src aq rl)
  with assms(1) atomic_encode_ok [of "sc_id double" "IntReg src" "IntReg rd" "IntReg addr" aq rl] show ?thesis
    by (auto simp: encodes_defs sc_id_def)
qed (use assms(2) in \<open>simp_all add: is_fp_real_def\<close>)

lemma encodes_floating:
  assumes "instr_new_ok i" " is_fp_real i"
  shows "encodes i"
proof (cases i)
  case (RI_FLoad i rd base off)
  with assms(1) have r: "i \<in> set ([Flw, Fld])" "rd < 32" "base < 32" "imm12_ok off" by auto
  have "\<exists>w. encode_floating (Fp i) rd base 0 0 0 off = Inr w"
    using r bspec [OF fp_format_sets(5) r(1)] by (intro encode_fp_variants(3)) auto
  with RI_FLoad show ?thesis by (auto simp: encodes_defs)
next
  case (RI_FStore i base src off)
  with assms(1) have r: "i \<in> set ([Fsw, Fsd])" "base < 32" "src < 32" "imm12_ok off" by auto
  have "\<exists>w. encode_floating (Fp i) 0 base src 0 0 off = Inr w"
    using r bspec [OF fp_format_sets(6) r(1)] by (intro encode_fp_variants(3)) auto
  with RI_FStore show ?thesis by (auto simp: encodes_defs)
next
  case (RI_FAlu i rd rs1 rs2 rm)
  with assms(1) have r: "rd < 32" "rs1 < 32" "rs2 < 32" "i \<in> set fp_alu_rm_ids \<and> valid_rounding_mode rm
      \<or> i \<in> set fp_alu_fixed_ids \<and> Some rm = floating_default_rounding_mode (Fp i)" by auto
  have "\<exists>w. encode_floating (Fp i) rd rs1 rs2 0 rm 0 = Inr w"
  proof (cases "i \<in> set fp_alu_rm_ids \<and> valid_rounding_mode rm")
    case True
    then have "i \<in> set (fp_alu_rm_ids @ [FsqrtS, FsqrtD, FcvtSD, FcvtDS] @ fcvt_f2i_ids @ fcvt_i2f_ids @ fmac_ids)" by auto
    from bspec [OF fp_format_sets(1) this] True r(1-3) show ?thesis by (intro encode_fp_variants(1)) simp_all
  next
    case False
    with r(4) have i: "i \<in> set (fp_alu_fixed_ids @ fcmp_ids)" "Some rm = floating_default_rounding_mode (Fp i)" by auto
    from bspec [OF fp_format_sets(2) i(1)] i(2) have "fp_format i = Some (Fmt_FloatingOp, Some rm)" by auto
    then show ?thesis using r(1-3) by (intro encode_fp_variants(2)) simp_all
  qed
  with RI_FAlu show ?thesis by (auto simp: encodes_defs)
next
  case (RI_FSqrt i rd rs1 rm)
  with assms(1) have r: "i \<in> set (fp_alu_rm_ids @ [FsqrtS, FsqrtD, FcvtSD, FcvtDS] @ fcvt_f2i_ids @ fcvt_i2f_ids @ fmac_ids)" "rd < 32" "rs1 < 32" "valid_rounding_mode rm" by auto
  have "\<exists>w. encode_floating (Fp i) rd rs1 0 0 rm 0 = Inr w"
    using r bspec [OF fp_format_sets(1) r(1)] by (intro encode_fp_variants(1)) auto
  with RI_FSqrt show ?thesis by (auto simp: encodes_defs)
next
  case (RI_FCmp i rd rs1 rs2)
  with assms(1) have r: "i \<in> set (fp_alu_fixed_ids @ fcmp_ids)" "rd < 32" "rs1 < 32" "rs2 < 32" by auto
  from bspec [OF fp_format_sets(2) r(1)] obtain rm where m: "fp_format i = Some (Fmt_FloatingOp, Some rm)"
    "floating_default_rounding_mode (Fp i) = Some rm" by blast
  have "\<exists>w. encode_floating (Fp i) rd rs1 rs2 0 rm 0 = Inr w"
    using r by (intro encode_fp_variants(2) [OF _ _ _ _ m(1)]) simp_all
  with RI_FCmp m show ?thesis by (auto simp: encodes_defs)
next
  case (RI_FClass i rd rs1)
  with assms(1) have r: "i \<in> set [FclassS, FclassD]" "rd < 32" "rs1 < 32" by auto
  have "\<exists>w. encode_floating (Fp i) rd rs1 0 0 1 0 = Inr w"
    using r by (intro encode_fp_variants(2) [OF _ _ _ _ bspec [OF fp_format_sets(3) r(1)]]) simp_all
  with RI_FClass show ?thesis by (auto simp: encodes_defs)
next
  case (RI_FMv i rd rs1)
  with assms(1) have r: "i \<in> set fmv_ids" "rd < 32" "rs1 < 32" by auto
  have "\<exists>w. encode_floating (Fp i) rd rs1 0 0 0 0 = Inr w"
    using r by (intro encode_fp_variants(2) [OF _ _ _ _ bspec [OF fp_format_sets(4) r(1)]]) simp_all
  with RI_FMv show ?thesis by (auto simp: encodes_defs)
next
  case (RI_FCvtF2I i rd rs1 rm)
  with assms(1) have r: "i \<in> set (fp_alu_rm_ids @ [FsqrtS, FsqrtD, FcvtSD, FcvtDS] @ fcvt_f2i_ids @ fcvt_i2f_ids @ fmac_ids)" "rd < 32" "rs1 < 32" "valid_rounding_mode rm" by auto
  have "\<exists>w. encode_floating (Fp i) rd rs1 0 0 rm 0 = Inr w"
    using r bspec [OF fp_format_sets(1) r(1)] by (intro encode_fp_variants(1)) auto
  with RI_FCvtF2I show ?thesis by (auto simp: encodes_defs)
next
  case (RI_FCvtI2F i rd rs1 rm)
  with assms(1) have r: "i \<in> set (fp_alu_rm_ids @ [FsqrtS, FsqrtD, FcvtSD, FcvtDS] @ fcvt_f2i_ids @ fcvt_i2f_ids @ fmac_ids)" "rd < 32" "rs1 < 32" "valid_rounding_mode rm" by auto
  have "\<exists>w. encode_floating (Fp i) rd rs1 0 0 rm 0 = Inr w"
    using r bspec [OF fp_format_sets(1) r(1)] by (intro encode_fp_variants(1)) auto
  with RI_FCvtI2F show ?thesis by (auto simp: encodes_defs)
next
  case (RI_FCvtF2F i rd rs1 rm)
  with assms(1) have r: "i \<in> set (fp_alu_rm_ids @ [FsqrtS, FsqrtD, FcvtSD, FcvtDS] @ fcvt_f2i_ids @ fcvt_i2f_ids @ fmac_ids)" "rd < 32" "rs1 < 32" "valid_rounding_mode rm" by auto
  have "\<exists>w. encode_floating (Fp i) rd rs1 0 0 rm 0 = Inr w"
    using r bspec [OF fp_format_sets(1) r(1)] by (intro encode_fp_variants(1)) auto
  with RI_FCvtF2F show ?thesis by (auto simp: encodes_defs)
next
  case (RI_FMac i rd rs1 rs2 rs3 rm)
  with assms(1) have r: "i \<in> set (fp_alu_rm_ids @ [FsqrtS, FsqrtD, FcvtSD, FcvtDS] @ fcvt_f2i_ids @ fcvt_i2f_ids @ fmac_ids)" "rd < 32" "rs1 < 32" "rs2 < 32" "rs3 < 32" "valid_rounding_mode rm" by auto
  have "\<exists>w. encode_floating (Fp i) rd rs1 rs2 rs3 rm 0 = Inr w"
    using r bspec [OF fp_format_sets(1) r(1)] by (intro encode_fp_variants(1)) auto
  with RI_FMac show ?thesis by (auto simp: encodes_defs)
qed (use assms(2) in \<open>simp_all add: is_fp_real_def\<close>)

lemma encode_real_ok: "instr_new_ok i \<Longrightarrow> encodes i"
  using encodes_integer encodes_floating by blast

lemma encode_real_decodes:
  assumes "instr_new_ok i"
  shows "\<exists>w insn. encode_real i = Some w \<and> decode w = Inr insn \<and> represents insn (real_decoded i)"
proof -
  from encode_real_ok [OF assms] obtain w where w: "encode_real i = Some w"
    "encode_decoded (real_decoded i) = Inr w" "operands_ok (di_operands (real_decoded i))" by (auto simp: encodes_def)
  from encode_decode_canonical [OF w(2,3)] obtain d where d: "decode_instruction w = Inr d"
    "di_id d = di_id (real_decoded i)" "canonical_operands d = canonical_operands (real_decoded i)" by blast
  from decode_represents [of w] d(1) obtain insn where "decode w = Inr insn" "represents insn d" by auto
  with w(1) d(2,3) show ?thesis by (auto simp: represents_def)
qed

text \<open>C17. every instruction the constructors admit is encoded without a panic, and the virtual machine's
  decoder reads the word back as that instruction with those operands.\<close>

theorem assembled_instruction_decodes:
  assumes "instr_new_ok i"
  shows "\<exists>w insn. encode_real i = Some w \<and> decode w = Inr insn \<and> insn_id insn = Some (di_id (real_decoded i))
    \<and> canonical_operands \<lparr>di_id = di_id (real_decoded i), di_operands = insn_operands insn\<rparr>
      = canonical_operands (real_decoded i)"
  using encode_real_decodes [OF assms] unfolding represents_def by blast

theorem assembled_instruction_decodes_witness:
  "instr_new_ok (RI_Branch Bne 10 11 (- 8))
   \<and> (\<exists>insn. decode 0xFEB51CE3 = Inr insn \<and> insn_id insn = Some (Base Bne)
      \<and> insn_operands insn = Ops_Branch (IntReg 10) (IntReg 11) (- 8))"
proof -
  have ok: "instr_new_ok (RI_Branch Bne 10 11 (- 8))" by code_simp
  have "encode_real (RI_Branch Bne 10 11 (- 8)) = Some 0xFEB51CE3" by code_simp
  with assembled_instruction_decodes [OF ok] obtain insn where "decode 0xFEB51CE3 = Inr insn"
    "insn_id insn = Some (Base Bne)"
    "canonical_operands \<lparr>di_id = Base Bne, di_operands = insn_operands insn\<rparr>
       = Ops_Branch (IntReg 10) (IntReg 11) (- 8)" by (auto simp: canonical_operands_def)
  moreover from this(3) have "insn_operands insn = Ops_Branch (IntReg 10) (IntReg 11) (- 8)"
    by (auto simp: canonical_operands_def canonical_floating_def split: decoded_operands.splits option.splits if_splits)
  ultimately show ?thesis using ok by blast
qed

end
