(* ===== verification/Asm_Layout.thy ===== *)
theory Asm_Layout
  imports Asm_Instructions Cache
begin

text \<open>
  Sections, symbol table, tokens and the layout pass of the assembler
  (\<open>crates/asm-to-binary/src/assembler\<close>: \<open>section.rs\<close>, \<open>symbol_table.rs\<close>, \<open>token.rs\<close>, \<open>layout.rs\<close>).
  A \<open>String\<close> is the list of its UTF-8 bytes. A \<open>HashMap\<close> is a map; \<open>entry(k).or_insert(v)\<close> is a look-up
  with a default followed by an update. \<open>usize\<close> values that come from the source text are \<open>u64\<close>; a
  vector's length is a \<open>nat\<close>. An \<open>AssemblerError\<close> carries its message; a panic of an instruction
  constructor or encoder is a failure of its own.
\<close>

datatype asm_failure = AssemblerError string | Asm_Panic

type_synonym 'a asm = "asm_failure + 'a"

definition abind :: "'a asm \<Rightarrow> ('a \<Rightarrow> 'b asm) \<Rightarrow> 'b asm" where
  "abind x f = (case x of Inl e \<Rightarrow> Inl e | Inr a \<Rightarrow> f a)"

definition unwrap_asm :: "'a option \<Rightarrow> 'a asm" where
  "unwrap_asm x = (case x of None \<Rightarrow> Inl Asm_Panic | Some a \<Rightarrow> Inr a)"

lemma abind_simps [simp]: "abind (Inr a) f = f a" "abind (Inl e) f = Inl e"
  by (simp_all add: abind_def)

lemma abind_eq_Inr: "abind x f = Inr b \<longleftrightarrow> (\<exists>a. x = Inr a \<and> f a = Inr b)"
  by (auto simp: abind_def split: sum.splits)

lemma unwrap_asm_eq_Inr: "unwrap_asm x = Inr a \<longleftrightarrow> x = Some a"
  by (auto simp: unwrap_asm_def split: option.splits)

subsection \<open>Sections\<close>

datatype section_kind = Sec_Text | Sec_Data | Sec_RoData | Sec_Bss | Sec_Custom string

fun section_name :: "section_kind \<Rightarrow> string" where
  "section_name Sec_Text = ''.text''"
| "section_name Sec_Data = ''.data''"
| "section_name Sec_RoData = ''.rodata''"
| "section_name Sec_Bss = ''.bss''"
| "section_name (Sec_Custom s) = s"

definition is_executable_kind :: "section_kind \<Rightarrow> bool" where
  "is_executable_kind k \<longleftrightarrow> k = Sec_Text"

record section_data =
  sd_kind :: "section_kind option"
  sd_bytes :: "u8 list"
  sd_symbols :: "(string \<times> u64) list"
  sd_globals :: "string list"

definition section_data_new :: "section_kind \<Rightarrow> section_data" where
  "section_data_new k = \<lparr>sd_kind = Some k, sd_bytes = [], sd_symbols = [], sd_globals = []\<rparr>"

definition current_offset :: "section_data \<Rightarrow> u64" where
  "current_offset s = of_nat (length (sd_bytes s))"

definition push_bytes :: "u8 list \<Rightarrow> section_data \<Rightarrow> section_data" where
  "push_bytes bs s = s\<lparr>sd_bytes := sd_bytes s @ bs\<rparr>"

definition push_u8 :: "u8 \<Rightarrow> section_data \<Rightarrow> section_data" where
  "push_u8 b = push_bytes [b]"

definition push_u32_le :: "u32 \<Rightarrow> section_data \<Rightarrow> section_data" where
  "push_u32_le w = push_bytes (to_le_bytes 4 (ucast w))"

definition push_u64_le :: "u64 \<Rightarrow> section_data \<Rightarrow> section_data" where
  "push_u64_le w = push_bytes (to_le_bytes 8 w)"

definition align_to :: "nat \<Rightarrow> section_data \<Rightarrow> section_data" where
  "align_to alignment s =
     (if alignment \<le> 1 then s
      else let rem = length (sd_bytes s) mod alignment
           in if rem \<noteq> 0 then push_bytes (replicate (alignment - rem) 0) s else s)"

definition define_label :: "string \<Rightarrow> section_data \<Rightarrow> section_data" where
  "define_label name s = s\<lparr>sd_symbols := sd_symbols s @ [(name, current_offset s)]\<rparr>"

definition export_global :: "string \<Rightarrow> section_data \<Rightarrow> section_data" where
  "export_global name s = (if name \<in> set (sd_globals s) then s else s\<lparr>sd_globals := sd_globals s @ [name]\<rparr>)"

subsection \<open>Symbol table\<close>

record symbol_table =
  st_symbols :: "string \<rightharpoonup> u64"
  st_globals :: "string list"

definition symbol_table_new :: symbol_table where
  "symbol_table_new = \<lparr>st_symbols = Map.empty, st_globals = []\<rparr>"

definition sym_define :: "string \<Rightarrow> u64 \<Rightarrow> symbol_table \<Rightarrow> bool \<times> symbol_table" where
  "sym_define name address t =
     (if st_symbols t name \<noteq> None then (False, t)
      else (True, t\<lparr>st_symbols := (st_symbols t)(name \<mapsto> address)\<rparr>))"

definition sym_resolve :: "string \<Rightarrow> symbol_table \<Rightarrow> u64 option" where
  "sym_resolve name t = st_symbols t name"

definition mark_global :: "string \<Rightarrow> symbol_table \<Rightarrow> symbol_table" where
  "mark_global name t = (if name \<in> set (st_globals t) then t else t\<lparr>st_globals := st_globals t @ [name]\<rparr>)"

subsection \<open>Tokens\<close>

datatype branch_kind = Bk_Beq | Bk_Bne | Bk_Blt | Bk_Bge | Bk_Bltu | Bk_Bgeu

definition branch_kind_from_mnemonic :: "string \<Rightarrow> branch_kind option" where
  "branch_kind_from_mnemonic m =
     map_of [(''beq'', Bk_Beq), (''bne'', Bk_Bne), (''blt'', Bk_Blt), (''bge'', Bk_Bge),
             (''bltu'', Bk_Bltu), (''bgeu'', Bk_Bgeu)] m"

datatype asm_token =
    T_Real real_instruction
  | T_Branch branch_kind u8 u8 string
  | T_Jal u8 string
  | T_Call string
  | T_Tail string
  | T_La u8 string
  | T_Section section_kind
  | T_Label string
  | T_Globl string
  | T_Align u64
  | T_Balign u64
  | T_Space u64
  | T_DataU8 u8
  | T_DataU16 u16
  | T_DataU32 u32
  | T_DataU64 u64
  | T_DataAsciz string
  | T_Comment
  | T_Loc string u32

fun fixed_size :: "asm_token \<Rightarrow> u64 option" where
  "fixed_size (T_Real _) = Some 4"
| "fixed_size (T_Branch _ _ _ _) = Some 4"
| "fixed_size (T_Jal _ _) = Some 4"
| "fixed_size (T_Call _) = Some 8"
| "fixed_size (T_Tail _) = Some 8"
| "fixed_size (T_La _ _) = Some 8"
| "fixed_size (T_DataU8 _) = Some 1"
| "fixed_size (T_DataU16 _) = Some 2"
| "fixed_size (T_DataU32 _) = Some 4"
| "fixed_size (T_DataU64 _) = Some 8"
| "fixed_size (T_DataAsciz s) = Some (of_nat (length s) + 1)"
| "fixed_size (T_Space n) = Some n"
| "fixed_size (T_Align _) = None"
| "fixed_size (T_Balign _) = None"
| "fixed_size _ = Some 0"

subsection \<open>Layout pass\<close>

record layout =
  ly_symbols :: symbol_table
  ly_section_order :: "section_kind list"
  ly_section_sizes :: "section_kind \<rightharpoonup> u64"

text \<open>The locals of the loop in \<open>compute_layout\<close>.\<close>

record layout_state =
  ls_symbols :: symbol_table
  ls_order :: "section_kind list"
  ls_sizes :: "section_kind \<rightharpoonup> u64"
  ls_current :: section_kind
  ls_offset :: u64

definition layout_align_up :: "u64 \<Rightarrow> u64 \<Rightarrow> u64" where
  "layout_align_up offset alignment =
     (let alignment = max alignment 1 in (offset + alignment - 1) AND NOT (alignment - 1))"

definition push_section :: "section_kind \<Rightarrow> section_kind list \<Rightarrow> section_kind list" where
  "push_section k order = (if k \<in> set order then order else order @ [k])"

text \<open>\<open>1u64 << n\<close> takes the shift amount modulo the width in the release profile.\<close>

definition shl_one :: "u64 \<Rightarrow> u64" where
  "shl_one n = push_bit (unat n mod 64) 1"

definition qualified_name :: "string \<Rightarrow> section_kind \<Rightarrow> string" where
  "qualified_name name k = name @ ''@'' @ section_name k"

fun layout_token :: "asm_token \<Rightarrow> layout_state \<Rightarrow> layout_state asm" where
  "layout_token (T_Section kind) ls =
     (let sizes1 = (ls_sizes ls)(ls_current ls \<mapsto> ls_offset ls);
          sizes2 = (case sizes1 kind of None \<Rightarrow> sizes1(kind \<mapsto> 0) | Some _ \<Rightarrow> sizes1)
      in Inr (ls\<lparr>ls_sizes := sizes2, ls_order := push_section kind (ls_order ls),
                ls_offset := the (sizes2 kind), ls_current := kind\<rparr>))"
| "layout_token (T_Label name) ls =
     (let order = push_section (ls_current ls) (ls_order ls);
          (_, syms1) = sym_define (qualified_name name (ls_current ls)) (ls_offset ls) (ls_symbols ls)
      in case sym_define name (ls_offset ls) syms1 of
           (False, _) \<Rightarrow>
             Inl (AssemblerError (''duplicate label `'' @ name @ ''` in section `'' @ section_name (ls_current ls) @ ''`''))
         | (True, syms2) \<Rightarrow> Inr (ls\<lparr>ls_order := order, ls_symbols := syms2\<rparr>))"
| "layout_token (T_Globl name) ls = Inr (ls\<lparr>ls_symbols := mark_global name (ls_symbols ls)\<rparr>)"
| "layout_token (T_Align n) ls = Inr (ls\<lparr>ls_offset := layout_align_up (ls_offset ls) (shl_one n)\<rparr>)"
| "layout_token (T_Balign n) ls = Inr (ls\<lparr>ls_offset := layout_align_up (ls_offset ls) n\<rparr>)"
| "layout_token t ls =
     (case fixed_size t of
        Some sz \<Rightarrow> Inr (ls\<lparr>ls_order := push_section (ls_current ls) (ls_order ls), ls_offset := ls_offset ls + sz\<rparr>)
      | None \<Rightarrow> Inr ls)"

fun layout_tokens :: "asm_token list \<Rightarrow> layout_state \<Rightarrow> layout_state asm" where
  "layout_tokens [] ls = Inr ls"
| "layout_tokens (t # ts) ls = abind (layout_token t ls) (layout_tokens ts)"

definition is_custom :: "section_kind \<Rightarrow> bool" where
  "is_custom k = (case k of Sec_Custom _ \<Rightarrow> True | _ \<Rightarrow> False)"

definition canonical_section_order :: "section_kind list \<Rightarrow> section_kind list" where
  "canonical_section_order encountered =
     filter (\<lambda>k. k \<in> set encountered) [Sec_Text, Sec_RoData, Sec_Data]
     @ filter is_custom encountered
     @ (if Sec_Bss \<in> set encountered then [Sec_Bss] else [])"

definition layout_init :: layout_state where
  "layout_init = \<lparr>ls_symbols = symbol_table_new, ls_order = [], ls_sizes = Map.empty,
     ls_current = Sec_Text, ls_offset = 0\<rparr>"

definition compute_layout :: "asm_token list \<Rightarrow> layout asm" where
  "compute_layout tokens = abind (layout_tokens tokens layout_init) (\<lambda>ls.
     Inr \<lparr>ly_symbols = ls_symbols ls, ly_section_order = canonical_section_order (ls_order ls),
          ly_section_sizes = (ls_sizes ls)(ls_current ls \<mapsto> ls_offset ls)\<rparr>)"

end
