(* ===== verification/Asm_Encode.thy ===== *)
theory Asm_Encode
  imports Asm_Layout
begin

text \<open>
  The encode pass of the assembler (\<open>assembler/encode.rs\<close>) and the part of \<open>assembler/output.rs\<close> that
  describes its result. \<open>section_bases\<close>, a \<open>HashMap\<close> the code both looks up and iterates, is an
  association list in iteration order.
\<close>

subsection \<open>Output\<close>

datatype relocation_kind = Rk_CallPlt | Rk_Jal | Rk_La

record relocation_record =
  rr_section :: string
  rr_offset :: u64
  rr_symbol :: string
  rr_kind :: relocation_kind
  rr_addend :: i64

record line_entry =
  le_addr :: u64
  le_file_id :: u32
  le_line :: u32

record assembled_output =
  ao_sections :: "section_data list"
  ao_symbol_table :: "string \<rightharpoonup> u64"
  ao_global_symbols :: "string list"
  ao_relocations :: "relocation_record list"
  ao_line_table :: "line_entry list"
  ao_file_table :: "string list"

definition assembled_output_new :: assembled_output where
  "assembled_output_new = \<lparr>ao_sections = [], ao_symbol_table = Map.empty, ao_global_symbols = [],
     ao_relocations = [], ao_line_table = [], ao_file_table = []\<rparr>"

definition section_bytes :: "assembled_output \<Rightarrow> section_kind \<Rightarrow> u8 list" where
  "section_bytes out k =
     (case find (\<lambda>s. sd_kind s = Some k) (ao_sections out) of Some s \<Rightarrow> sd_bytes s | None \<Rightarrow> [])"

definition total_bytes :: "assembled_output \<Rightarrow> nat" where
  "total_bytes out = sum_list (map (\<lambda>s. length (sd_bytes s)) (ao_sections out))"

definition symbol_address :: "assembled_output \<Rightarrow> string \<Rightarrow> u64 option" where
  "symbol_address out name = ao_symbol_table out name"

fun position_of :: "('a \<Rightarrow> bool) \<Rightarrow> 'a list \<Rightarrow> nat option" where
  "position_of P [] = None"
| "position_of P (x # xs) = (if P x then Some 0 else map_option Suc (position_of P xs))"

definition intern_file :: "string \<Rightarrow> assembled_output \<Rightarrow> u32 \<times> assembled_output" where
  "intern_file file out =
     (case position_of (\<lambda>f. f = file) (ao_file_table out) of
        Some pos \<Rightarrow> (of_nat pos, out)
      | None \<Rightarrow> (of_nat (length (ao_file_table out)), out\<lparr>ao_file_table := ao_file_table out @ [file]\<rparr>))"

definition record_line :: "u64 \<Rightarrow> (u32 \<times> u32) option \<Rightarrow> assembled_output \<Rightarrow> assembled_output" where
  "record_line addr loc out =
     (case loc of None \<Rightarrow> out
      | Some (file_id, line_no) \<Rightarrow>
          out\<lparr>ao_line_table := ao_line_table out @ [\<lparr>le_addr = addr, le_file_id = file_id, le_line = line_no\<rparr>]\<rparr>)"

subsection \<open>Branches and jumps\<close>

definition resolve_section_local :: "string \<Rightarrow> section_kind \<Rightarrow> symbol_table \<Rightarrow> u64 option" where
  "resolve_section_local target k symbols =
     (case sym_resolve (qualified_name target k) symbols of
        Some a \<Rightarrow> Some a | None \<Rightarrow> sym_resolve target symbols)"

fun branch_id :: "branch_kind \<Rightarrow> base_id" where
  "branch_id Bk_Beq = Beq"
| "branch_id Bk_Bne = Bne"
| "branch_id Bk_Blt = Blt"
| "branch_id Bk_Bge = Bge"
| "branch_id Bk_Bltu = Bltu"
| "branch_id Bk_Bgeu = Bgeu"

text \<open>The constructor's assertions, then \<open>encode\<close>.\<close>

definition new_encode :: "real_instruction \<Rightarrow> u32 asm" where
  "new_encode i = (if instr_new_ok i then unwrap_asm (encode_real i) else Inl Asm_Panic)"

definition encode_branch :: "branch_kind \<Rightarrow> u8 \<Rightarrow> u8 \<Rightarrow> string \<Rightarrow> u64 \<Rightarrow> section_kind \<Rightarrow> symbol_table \<Rightarrow> u32 asm" where
  "encode_branch bk rs1 rs2 target site_local k symbols =
     (case resolve_section_local target k symbols of
        None \<Rightarrow> Inl (AssemblerError (''undefined label `'' @ target @ ''`''))
      | Some target_addr \<Rightarrow>
          (let offset = target_addr - site_local :: i64 in
           if offset AND 1 \<noteq> 0 then
             Inl (AssemblerError (''branch to `'' @ target @ ''` has odd offset '' @ show_int (sint offset)))
           else if \<not> (- 4096 \<le> sint offset \<and> sint offset \<le> 4094) then
             Inl (AssemblerError (''branch to `'' @ target @ ''` offset '' @ show_int (sint offset)
               @ '' out of B-type range [-4096, 4094]''))
           else new_encode (RI_Branch (branch_id bk) rs1 rs2 (ucast offset))))"

definition encode_jal :: "u8 \<Rightarrow> string \<Rightarrow> u64 \<Rightarrow> section_kind \<Rightarrow> symbol_table \<Rightarrow> u32 asm" where
  "encode_jal rd target site_local k symbols =
     (case resolve_section_local target k symbols of
        None \<Rightarrow> Inl (AssemblerError (''undefined label `'' @ target @ ''`''))
      | Some target_addr \<Rightarrow>
          (let offset = target_addr - site_local :: i64 in
           if offset AND 1 \<noteq> 0 then
             Inl (AssemblerError (''jump to `'' @ target @ ''` has odd offset '' @ show_int (sint offset)))
           else if \<not> (- 1048576 \<le> sint offset \<and> sint offset \<le> 1048574) then
             Inl (AssemblerError (''jump to `'' @ target @ ''` offset '' @ show_int (sint offset)
               @ '' out of J-type range''))
           else new_encode (RI_Jal rd (ucast offset))))"

subsection \<open>Two-instruction sequences\<close>

type_synonym bases = "(section_kind \<times> u64) list"

definition resolve_absolute_symbol :: "string \<Rightarrow> symbol_table \<Rightarrow> bases \<Rightarrow> u64 option" where
  "resolve_absolute_symbol symbol symbols section_bases =
     (case st_symbols symbols symbol of
        None \<Rightarrow> None
      | Some addr \<Rightarrow>
          (case find (\<lambda>(k, base). st_symbols symbols (qualified_name symbol k) \<noteq> None) section_bases of
             Some (k, base) \<Rightarrow> Some (base + the (st_symbols symbols (qualified_name symbol k)))
           | None \<Rightarrow> Some addr))"

definition pcrel_offsets :: "u64 \<Rightarrow> u64 \<Rightarrow> i32 \<times> i32" where
  "pcrel_offsets target_addr current_addr = pcrel_split (target_addr - current_addr)"

text \<open>A pair \<open>auipc hi\<close>, \<open>jalr lo\<close> or \<open>addi lo\<close>; \<open>push_pair\<close> is the two \<open>push_u32_le\<close> calls.\<close>

definition push_pair :: "real_instruction \<Rightarrow> real_instruction \<Rightarrow> section_data \<Rightarrow> section_data asm" where
  "push_pair i1 i2 sec = abind (new_encode i1) (\<lambda>w1. abind (new_encode i2) (\<lambda>w2.
     Inr (push_u32_le w2 (push_u32_le w1 sec))))"

text \<open>\<open>encode_call\<close> uses \<open>ra\<close> for both registers, \<open>encode_tail\<close> \<open>t1\<close> and \<open>x0\<close>.\<close>

definition encode_far_jump ::
  "u8 \<Rightarrow> u8 \<Rightarrow> section_data \<Rightarrow> string \<Rightarrow> u64 \<Rightarrow> symbol_table \<Rightarrow> bases \<Rightarrow> section_kind \<Rightarrow>
   (section_data \<times> relocation_record list) asm" where
  "encode_far_jump link tmp sec symbol current_addr symbols section_bases k =
     (case resolve_absolute_symbol symbol symbols section_bases of
        Some target_addr \<Rightarrow>
          (case pcrel_offsets target_addr current_addr of (hi20, lo12) \<Rightarrow>
             abind (push_pair (RI_Upper Auipc tmp (push_bit 12 hi20)) (RI_Jalr link tmp lo12) sec) (\<lambda>sec'.
             Inr (sec', [])))
      | None \<Rightarrow>
          abind (push_pair (RI_Upper Auipc tmp 0) (RI_Jalr link tmp 0) sec) (\<lambda>sec'.
          Inr (sec', [\<lparr>rr_section = section_name k, rr_offset = current_offset sec, rr_symbol = symbol,
                       rr_kind = Rk_CallPlt, rr_addend = 0\<rparr>])))"

definition encode_call ::
  "section_data \<Rightarrow> string \<Rightarrow> u64 \<Rightarrow> symbol_table \<Rightarrow> bases \<Rightarrow> section_kind \<Rightarrow>
   (section_data \<times> relocation_record list) asm" where
  "encode_call = encode_far_jump 1 1"

definition encode_tail ::
  "section_data \<Rightarrow> string \<Rightarrow> u64 \<Rightarrow> symbol_table \<Rightarrow> bases \<Rightarrow> section_kind \<Rightarrow>
   (section_data \<times> relocation_record list) asm" where
  "encode_tail = encode_far_jump 0 6"

definition encode_la ::
  "section_data \<Rightarrow> u8 \<Rightarrow> string \<Rightarrow> u64 \<Rightarrow> symbol_table \<Rightarrow> bases \<Rightarrow> section_kind \<Rightarrow>
   (section_data \<times> relocation_record list) asm" where
  "encode_la sec rd symbol current_addr symbols section_bases k =
     (let target_abs_addr = (case resolve_absolute_symbol symbol symbols section_bases of Some a \<Rightarrow> a | None \<Rightarrow> 0)
      in case pcrel_offsets target_abs_addr current_addr of (hi20, lo12) \<Rightarrow>
           abind (push_pair (RI_Upper Auipc rd (push_bit 12 hi20)) (RI_Imm Addi rd rd lo12) sec) (\<lambda>sec'.
           Inr (sec', [\<lparr>rr_section = section_name k, rr_offset = current_offset sec, rr_symbol = symbol,
                        rr_kind = Rk_La, rr_addend = 0\<rparr>])))"

subsection \<open>The pass\<close>

text \<open>The locals of the loop in \<open>encode\<close>.\<close>

record encode_state =
  es_out :: assembled_output
  es_sections :: "section_kind \<rightharpoonup> section_data"
  es_kind :: section_kind
  es_addr :: u64
  es_loc :: "(u32 \<times> u32) option"

text \<open>\<open>sections.entry(current_kind).or_insert_with(..)\<close>, and the update of the entry.\<close>

definition section_of :: "section_kind \<Rightarrow> encode_state \<Rightarrow> section_data" where
  "section_of k es = (case es_sections es k of Some s \<Rightarrow> s | None \<Rightarrow> section_data_new k)"

definition put_section :: "section_data \<Rightarrow> encode_state \<Rightarrow> encode_state" where
  "put_section sec es = es\<lparr>es_sections := (es_sections es)(es_kind es \<mapsto> sec)\<rparr>"

abbreviation (input) cur_section :: "encode_state \<Rightarrow> section_data" where
  "cur_section es \<equiv> section_of (es_kind es) es"

definition section_base :: "bases \<Rightarrow> section_kind \<Rightarrow> u64" where
  "section_base section_bases k = (case map_of section_bases k of Some b \<Rightarrow> b | None \<Rightarrow> 0)"

definition advance :: "section_data \<Rightarrow> u64 \<Rightarrow> encode_state \<Rightarrow> encode_state" where
  "advance sec n es = (put_section sec es)\<lparr>es_addr := es_addr es + n\<rparr>"

definition recorded :: "encode_state \<Rightarrow> encode_state" where
  "recorded es = es\<lparr>es_out := record_line (es_addr es) (es_loc es) (es_out es)\<rparr>"

definition add_relocations :: "relocation_record list \<Rightarrow> encode_state \<Rightarrow> encode_state" where
  "add_relocations rs es = es\<lparr>es_out := (es_out es)\<lparr>ao_relocations := ao_relocations (es_out es) @ rs\<rparr>\<rparr>"

definition push_word :: "u32 \<Rightarrow> encode_state \<Rightarrow> encode_state" where
  "push_word w es = advance (push_u32_le w (cur_section es)) 4 es"

definition encode_aligned :: "bases \<Rightarrow> u64 \<Rightarrow> encode_state \<Rightarrow> encode_state" where
  "encode_aligned section_bases alignment es =
     (let sec = align_to (unat alignment) (cur_section es)
      in (put_section sec es)\<lparr>es_addr := section_base section_bases (es_kind es) + current_offset sec\<rparr>)"

definition add_global :: "string \<Rightarrow> assembled_output \<Rightarrow> assembled_output" where
  "add_global name out =
     (if name \<in> set (ao_global_symbols out) then out
      else out\<lparr>ao_global_symbols := ao_global_symbols out @ [name]\<rparr>)"

definition as_bytes :: "string \<Rightarrow> u8 list" where
  "as_bytes s = map of_char s"

fun encode_token :: "layout \<Rightarrow> bases \<Rightarrow> asm_token \<Rightarrow> encode_state \<Rightarrow> encode_state asm" where
  "encode_token ly bs (T_Loc file line_no) es =
     (case intern_file file (es_out es) of (file_id, out) \<Rightarrow>
        Inr (es\<lparr>es_out := out, es_loc := Some (file_id, line_no)\<rparr>))"
| "encode_token ly bs (T_Section kind) es =
     (let es1 = es\<lparr>es_kind := kind\<rparr>; sec = cur_section es1
      in Inr ((put_section sec es1)\<lparr>es_addr := section_base bs kind + current_offset sec\<rparr>))"
| "encode_token ly bs (T_Label name) es = Inr (put_section (define_label name (cur_section es)) es)"
| "encode_token ly bs (T_Globl name) es =
     Inr ((put_section (export_global name (cur_section es)) es)\<lparr>es_out := add_global name (es_out es)\<rparr>)"
| "encode_token ly bs (T_Real inst) es =
     abind (unwrap_asm (encode_real inst)) (\<lambda>w. Inr (push_word w (recorded es)))"
| "encode_token ly bs (T_Branch kind rs1 rs2 target) es =
     abind (encode_branch kind rs1 rs2 target (es_addr es - section_base bs (es_kind es)) (es_kind es) (ly_symbols ly)) (\<lambda>w.
     Inr (push_word w (recorded es)))"
| "encode_token ly bs (T_Jal rd target) es =
     (case encode_jal rd target (es_addr es - section_base bs (es_kind es)) (es_kind es) (ly_symbols ly) of
        Inr w \<Rightarrow> Inr (push_word w (recorded es))
      | Inl Asm_Panic \<Rightarrow> Inl Asm_Panic
      | Inl (AssemblerError _) \<Rightarrow>
          abind (new_encode (RI_Jal rd 0)) (\<lambda>w.
          Inr (add_relocations [\<lparr>rr_section = section_name (es_kind es), rr_offset = current_offset (cur_section es),
                   rr_symbol = target, rr_kind = Rk_Jal, rr_addend = 0\<rparr>] (push_word w (recorded es)))))"
| "encode_token ly bs (T_Call symbol) es =
     abind (encode_call (cur_section es) symbol (es_addr es) (ly_symbols ly) bs (es_kind es)) (\<lambda>(sec, rs).
     Inr (add_relocations rs (advance sec 8 (recorded es))))"
| "encode_token ly bs (T_Tail symbol) es =
     abind (encode_tail (cur_section es) symbol (es_addr es) (ly_symbols ly) bs (es_kind es)) (\<lambda>(sec, rs).
     Inr (add_relocations rs (advance sec 8 (recorded es))))"
| "encode_token ly bs (T_La rd symbol) es =
     abind (encode_la (cur_section es) rd symbol (es_addr es) (ly_symbols ly) bs (es_kind es)) (\<lambda>(sec, rs).
     Inr (add_relocations rs (advance sec 8 (recorded es))))"
| "encode_token ly bs (T_Align n) es = Inr (encode_aligned bs (shl_one n) es)"
| "encode_token ly bs (T_Balign n) es = Inr (encode_aligned bs n es)"
| "encode_token ly bs (T_Space n) es = Inr (advance (push_bytes (replicate (unat n) 0) (cur_section es)) n es)"
| "encode_token ly bs (T_DataU8 b) es = Inr (advance (push_u8 b (cur_section es)) 1 es)"
| "encode_token ly bs (T_DataU16 h) es = Inr (advance (push_bytes (to_le_bytes 2 (ucast h)) (cur_section es)) 2 es)"
| "encode_token ly bs (T_DataU32 w) es = Inr (advance (push_u32_le w (cur_section es)) 4 es)"
| "encode_token ly bs (T_DataU64 d) es = Inr (advance (push_u64_le d (cur_section es)) 8 es)"
| "encode_token ly bs (T_DataAsciz s) es =
     Inr (advance (push_u8 0 (push_bytes (as_bytes s) (cur_section es))) (of_nat (length s) + 1) es)"
| "encode_token ly bs T_Comment es = Inr es"

fun encode_tokens :: "layout \<Rightarrow> bases \<Rightarrow> asm_token list \<Rightarrow> encode_state \<Rightarrow> encode_state asm" where
  "encode_tokens ly bs [] es = Inr es"
| "encode_tokens ly bs (t # ts) es = abind (encode_token ly bs t es) (encode_tokens ly bs ts)"

definition size_of :: "layout \<Rightarrow> section_kind \<Rightarrow> u64" where
  "size_of ly k = (case ly_section_sizes ly k of Some n \<Rightarrow> n | None \<Rightarrow> 0)"

fun assign_bases :: "layout \<Rightarrow> section_kind list \<Rightarrow> u64 \<Rightarrow> bases" where
  "assign_bases ly [] running = []"
| "assign_bases ly (k # ks) running = (k, running) # assign_bases ly ks (running + size_of ly k)"

definition section_bases :: "layout \<Rightarrow> bases" where
  "section_bases ly =
     assign_bases ly (filter (\<lambda>k. k \<noteq> Sec_Bss) (ly_section_order ly) @ filter (\<lambda>k. k = Sec_Bss) (ly_section_order ly)) 0"

definition encode_init :: "layout \<Rightarrow> encode_state" where
  "encode_init ly =
     \<lparr>es_out = assembled_output_new,
      es_sections = (\<lambda>k. if k \<in> set (ly_section_order ly) then Some (section_data_new k) else None),
      es_kind = Sec_Text, es_addr = section_base (section_bases ly) Sec_Text, es_loc = None\<rparr>"

text \<open>Flattening removes each section of the order from the map and gives its labels addresses.\<close>

fun flatten_sections ::
  "bases \<Rightarrow> section_kind list \<Rightarrow> (section_kind \<rightharpoonup> section_data) \<Rightarrow> assembled_output \<Rightarrow> assembled_output" where
  "flatten_sections bs [] sections out = out"
| "flatten_sections bs (k # ks) sections out =
     (case sections k of
        None \<Rightarrow> flatten_sections bs ks sections out
      | Some sec \<Rightarrow>
          flatten_sections bs ks (sections(k := None))
            (out\<lparr>ao_symbol_table := fold (\<lambda>(name, off) m. m(name \<mapsto> section_base bs k + off)) (sd_symbols sec) (ao_symbol_table out),
                 ao_sections := ao_sections out @ [sec]\<rparr>))"

definition encode :: "asm_token list \<Rightarrow> layout \<Rightarrow> assembled_output asm" where
  "encode tokens ly = abind (encode_tokens ly (section_bases ly) tokens (encode_init ly)) (\<lambda>es.
     Inr (fold add_global (st_globals (ly_symbols ly))
       (flatten_sections (section_bases ly) (ly_section_order ly) (es_sections es) (es_out es))))"

text \<open>\<open>Assembler::assemble\<close> after the parser.\<close>

definition assemble_tokens :: "asm_token list \<Rightarrow> assembled_output asm" where
  "assemble_tokens tokens = abind (compute_layout tokens) (encode tokens)"

end
