(* ===== verification/Asm_Positions.thy ===== *)
theory Asm_Positions
  imports Asm_Encode
begin

text \<open>
  The two passes of the assembler agree. \<open>positions\<close> counts, in natural numbers and without the passes,
  the section a token falls into and how many bytes each section holds before it; the encode pass emits
  exactly these bytes, and the layout pass computes the same numbers modulo the word size.
\<close>


subsection \<open>A reference for positions\<close>

fun next_kind :: "asm_token \<Rightarrow> section_kind \<Rightarrow> section_kind" where
  "next_kind (T_Section k) _ = k"
| "next_kind _ k = k"

definition pad_to :: "nat \<Rightarrow> nat \<Rightarrow> nat" where
  "pad_to a n = (if a \<le> 1 \<or> n mod a = 0 then 0 else a - n mod a)"

fun token_size :: "asm_token \<Rightarrow> nat \<Rightarrow> nat" where
  "token_size (T_Align n) len = pad_to (unat (shl_one n)) len"
| "token_size (T_Balign n) len = pad_to (unat n) len"
| "token_size (T_Space n) len = unat n"
| "token_size (T_DataAsciz s) len = length s + 1"
| "token_size (T_Real _) len = 4"
| "token_size (T_Branch _ _ _ _) len = 4"
| "token_size (T_Jal _ _) len = 4"
| "token_size (T_Call _) len = 8"
| "token_size (T_Tail _) len = 8"
| "token_size (T_La _ _) len = 8"
| "token_size (T_DataU8 _) len = 1"
| "token_size (T_DataU16 _) len = 2"
| "token_size (T_DataU32 _) len = 4"
| "token_size (T_DataU64 _) len = 8"
| "token_size _ len = 0"

fun token_labels :: "asm_token \<Rightarrow> nat \<Rightarrow> (string \<times> u64) list" where
  "token_labels (T_Label n) len = [(n, of_nat len)]"
| "token_labels _ len = []"

definition step_position :: "asm_token \<Rightarrow> section_kind \<times> (section_kind \<Rightarrow> nat) \<Rightarrow> section_kind \<times> (section_kind \<Rightarrow> nat)" where
  "step_position t p = (case p of (k, len) \<Rightarrow> (next_kind t k, len(k := len k + token_size t (len k))))"

definition positions :: "asm_token list \<Rightarrow> section_kind \<times> (section_kind \<Rightarrow> nat)" where
  "positions ts = fold step_position ts (Sec_Text, \<lambda>_. 0)"

subsection \<open>The encode pass\<close>

lemma section_of_put [simp]:
  "section_of k (put_section s es) = (if k = es_kind es then s else section_of k es)"
  "es_kind (put_section s es) = es_kind es" "es_addr (put_section s es) = es_addr es"
  by (simp_all add: section_of_def put_section_def)

lemma section_of_cong [simp]:
  "section_of k (es\<lparr>es_addr := a\<rparr>) = section_of k es" "section_of k (es\<lparr>es_out := ot\<rparr>) = section_of k es"
  "section_of k (es\<lparr>es_kind := kd\<rparr>) = section_of k es" "section_of k (es\<lparr>es_loc := lc\<rparr>) = section_of k es"
  by (simp_all add: section_of_def)

lemma wrapped_states [simp]:
  "section_of k (recorded es) = section_of k es" "es_kind (recorded es) = es_kind es" "es_addr (recorded es) = es_addr es"
  "section_of k (add_relocations rs es) = section_of k es" "es_kind (add_relocations rs es) = es_kind es"
  "es_addr (add_relocations rs es) = es_addr es"
  "section_of k (advance s n es) = (if k = es_kind es then s else section_of k es)" "es_kind (advance s n es) = es_kind es"
  "es_addr (advance s n es) = es_addr es + n"
  by (simp_all add: recorded_def add_relocations_def advance_def)

lemma put_fields [simp]:
  "sd_bytes (push_bytes bs s) = sd_bytes s @ bs" "sd_symbols (push_bytes bs s) = sd_symbols s" "sd_kind (push_bytes bs s) = sd_kind s"
  "sd_bytes (define_label n s) = sd_bytes s" "sd_symbols (define_label n s) = sd_symbols s @ [(n, current_offset s)]"
  "sd_kind (define_label n s) = sd_kind s"
  "sd_bytes (export_global n s) = sd_bytes s" "sd_symbols (export_global n s) = sd_symbols s" "sd_kind (export_global n s) = sd_kind s"
  by (simp_all add: push_bytes_def define_label_def export_global_def)

lemma align_to_push: "align_to a s = push_bytes (replicate (pad_to a (length (sd_bytes s))) 0) s"
  by (simp add: align_to_def pad_to_def Let_def push_bytes_def)

lemmas push_defs = push_u8_def push_u32_le_def push_u64_le_def push_word_def

text \<open>What one token does to the sections.\<close>

definition token_effect :: "asm_token \<Rightarrow> encode_state \<Rightarrow> encode_state \<Rightarrow> u8 list \<Rightarrow> bool" where
  "token_effect t es es' bs \<longleftrightarrow> es_kind es' = next_kind t (es_kind es)
     \<and> length bs = token_size t (length (sd_bytes (section_of (es_kind es) es)))
     \<and> (\<forall>k. sd_kind (section_of k es') = sd_kind (section_of k es)
         \<and> sd_bytes (section_of k es') = sd_bytes (section_of k es) @ (if k = es_kind es then bs else [])
         \<and> sd_symbols (section_of k es') = sd_symbols (section_of k es)
             @ (if k = es_kind es then token_labels t (length (sd_bytes (section_of k es))) else []))"

lemma push_pair_bytes:
  assumes "push_pair i1 i2 sec = Inr sec'"
  shows "\<exists>bs. length bs = 8 \<and> sec' = push_bytes bs sec"
proof -
  from assms obtain w1 w2 :: u32 where "sec' = push_bytes (to_le_bytes 4 (ucast w1) @ to_le_bytes 4 (ucast w2)) sec"
    by (auto simp: push_pair_def abind_eq_Inr push_defs push_bytes_def)
  moreover have "length (to_le_bytes 4 (ucast w1) @ to_le_bytes 4 (ucast w2)) = 8" by (simp add: to_le_bytes_def)
  ultimately show ?thesis by blast
qed

lemma pair_token_bytes:
  assumes "encode_far_jump l t sec symbol addr symbols bases k = Inr (sec', rs)
    \<or> encode_la sec rd symbol addr symbols bases k = Inr (sec', rs)"
  shows "\<exists>bs. length bs = 8 \<and> sec' = push_bytes bs sec"
  using assms
  by (auto simp: encode_far_jump_def encode_la_def abind_eq_Inr Let_def split: option.splits prod.splits
      dest!: push_pair_bytes)

lemma effect_push:
  assumes "es_kind es' = es_kind es" "\<And>k. next_kind t k = k" "\<And>n. token_labels t n = []"
    and "\<And>k. section_of k es' = (if k = es_kind es then push_bytes bs (section_of k es) else section_of k es)"
    and "length bs = token_size t (length (sd_bytes (section_of (es_kind es) es)))"
  shows "\<exists>bs. token_effect t es es' bs"
  using assms unfolding token_effect_def by (intro exI [of _ bs]) simp

lemma token_effectI:
  assumes e: "encode_token ly bases t es = Inr es'"
  shows "\<exists>bs. token_effect t es es' bs"
proof -
  have word: ?thesis if "es_kind es' = es_kind es" "\<And>k. next_kind t k = k" "\<And>n. token_labels t n = []"
    "\<And>k. section_of k es' = (if k = es_kind es then push_bytes (to_le_bytes 4 (ucast (w :: u32))) (section_of k es) else section_of k es)"
    "\<And>n. token_size t n = 4" for w
    by (rule effect_push [OF that(1-4)]) (simp add: that(5) to_le_bytes_def)
  have pair: ?thesis if "\<exists>bs. length bs = 8 \<and> sec = push_bytes bs (section_of (es_kind es) es)"
    "es' = add_relocations rs (advance sec 8 (recorded es))" "\<And>k. next_kind t k = k" "\<And>n. token_labels t n = []"
    "\<And>n. token_size t n = 8" for sec rs
    using that by (auto intro!: effect_push)
  show ?thesis
  proof (cases t)
    case (T_Real i)
    with e obtain w where "es' = push_word w (recorded es)" by (auto simp: abind_eq_Inr)
    with T_Real show ?thesis by (intro word [of w]) (simp_all add: push_defs)
  next
    case (T_Branch bk rs1 rs2 target)
    with e obtain w where "es' = push_word w (recorded es)" by (auto simp: abind_eq_Inr)
    with T_Branch show ?thesis by (intro word [of w]) (simp_all add: push_defs)
  next
    case (T_Jal rd target)
    with e obtain w rs where "es' = add_relocations rs (push_word w (recorded es)) \<or> es' = push_word w (recorded es)"
      by (auto simp: abind_eq_Inr split: sum.splits asm_failure.splits)
    with T_Jal show ?thesis by (intro word [of w]) (auto simp: push_defs)
  next
    case (T_Call s)
    with e obtain sec rs where *: "encode_far_jump 1 1 (section_of (es_kind es) es) s (es_addr es) (ly_symbols ly) bases (es_kind es) = Inr (sec, rs)"
      "es' = add_relocations rs (advance sec 8 (recorded es))" by (auto simp: abind_eq_Inr encode_call_def)
    with T_Call show ?thesis by (intro pair [OF pair_token_bytes [OF disjI1]]) auto
  next
    case (T_Tail s)
    with e obtain sec rs where *: "encode_far_jump 0 6 (section_of (es_kind es) es) s (es_addr es) (ly_symbols ly) bases (es_kind es) = Inr (sec, rs)"
      "es' = add_relocations rs (advance sec 8 (recorded es))" by (auto simp: abind_eq_Inr encode_tail_def)
    with T_Tail show ?thesis by (intro pair [OF pair_token_bytes [OF disjI1]]) auto
  next
    case (T_La rd s)
    with e obtain sec rs where *: "encode_la (section_of (es_kind es) es) rd s (es_addr es) (ly_symbols ly) bases (es_kind es) = Inr (sec, rs)"
      "es' = add_relocations rs (advance sec 8 (recorded es))" by (auto simp: abind_eq_Inr)
    with T_La show ?thesis by (intro pair [OF pair_token_bytes [OF disjI2]]) auto
  next
    case (T_Align n)
    with e show ?thesis
      by (intro effect_push [where bs = "replicate (pad_to (unat (shl_one n)) (length (sd_bytes (section_of (es_kind es) es)))) 0"])
        (auto simp: encode_aligned_def align_to_push Let_def)
  next
    case (T_Balign n)
    with e show ?thesis
      by (intro effect_push [where bs = "replicate (pad_to (unat n) (length (sd_bytes (section_of (es_kind es) es)))) 0"])
        (auto simp: encode_aligned_def align_to_push Let_def)
  next
    case (T_Space n)
    with e show ?thesis by (intro effect_push [where bs = "replicate (unat n) 0"]) auto
  next
    case (T_DataU8 b)
    with e show ?thesis by (intro effect_push [where bs = "[b]"]) (auto simp: push_defs)
  next
    case (T_DataU16 h)
    with e show ?thesis by (intro effect_push [where bs = "to_le_bytes 2 (ucast h)"]) (auto simp: to_le_bytes_def)
  next
    case (T_DataU32 w)
    with e show ?thesis by (intro word [of w]) (auto simp: push_defs)
  next
    case (T_DataU64 v)
    with e show ?thesis by (intro effect_push [where bs = "to_le_bytes 8 v"]) (auto simp: push_defs to_le_bytes_def)
  next
    case (T_DataAsciz s)
    with e show ?thesis
      by (intro effect_push [where bs = "as_bytes s @ [0]"]) (auto simp: push_defs push_bytes_def as_bytes_def)
  qed (use e in \<open>auto simp: token_effect_def current_offset_def Let_def split: prod.splits\<close>)
qed
subsection \<open>Alignment\<close>

definition alignment_ok :: "u64 \<Rightarrow> bool" where
  "alignment_ok n \<longleftrightarrow> n = 0 \<or> n \<in> (\<lambda>k. push_bit k 1) ` {..<64}"

lemma round_up_nat: "n + pad_to (2 ^ k) n = push_bit k (drop_bit k (n + (2 ^ k - 1)))"
proof -
  define q r where "q = n div 2 ^ k" and "r = n mod 2 ^ k"
  have n: "n = q * 2 ^ k + r" by (simp only: q_def r_def div_mult_mod_eq)
  have r: "r < 2 ^ k" by (simp add: r_def)
  show ?thesis
  proof (cases "r = 0")
    case True
    have "(q * 2 ^ k + m) div 2 ^ k = q" if "m < 2 ^ k" for m :: nat using that by simp
    from this [of "2 ^ k - 1"] have "(q * 2 ^ k + (2 ^ k - 1)) div 2 ^ k = q" by (simp only: diff_less zero_less_power)
    with True show ?thesis by (simp add: n pad_to_def push_bit_eq_mult drop_bit_eq_div)
  next
    case False
    have "(q * 2 ^ k + r + (2 ^ k - 1)) div 2 ^ k = q + 1"
      using False r by (intro div_nat_eqI) (simp_all add: algebra_simps)
    moreover have "1 < (2 :: nat) ^ k" using r False by linarith
    ultimately show ?thesis using r False by (simp add: n pad_to_def push_bit_eq_mult drop_bit_eq_div)
  qed
qed

lemma align_up_pads:
  assumes "alignment_ok a"
  shows "layout_align_up (of_nat n) a = of_nat (n + pad_to (unat a) n)"
proof (cases "a = 0")
  case True
  then show ?thesis by (simp add: layout_align_up_def pad_to_def)
next
  case False
  with assms obtain k where k: "a = push_bit k 1" "k < 64" by (auto simp: alignment_ok_def)
  have u: "unat a = 2 ^ k" unfolding k(1) unsigned_push_bit_eq using k(2)
    by (simp add: push_bit_eq_mult take_bit_nat_eq_self_iff power_strict_increasing)
  have "1 \<le> a" using False u by (simp add: word_le_nat_alt)
  then have "max a 1 = a" by (simp only: max.absorb1)
  moreover have "a - 1 = mask k" using k by (simp add: mask_eq_exp_minus_1 push_bit_eq_mult)
  moreover have "of_nat n + a - 1 = (of_nat (n + (2 ^ k - 1)) :: u64)"
  proof -
    have "of_nat (2 ^ k - 1) = (2 ^ k - 1 :: u64)" by (simp add: of_nat_diff)
    then show ?thesis by (simp only: of_nat_add) (simp add: k(1) push_bit_eq_mult)
  qed
  ultimately have "layout_align_up (of_nat n) a = of_nat (n + (2 ^ k - 1)) AND NOT (mask k)"
    by (simp add: layout_align_up_def Let_def del: of_nat_add)
  also have "\<dots> = of_nat (push_bit k (drop_bit k (n + (2 ^ k - 1))))"
    by (rule bit_word_eqI) (auto simp: bit_simps simp del: of_nat_add)
  also have "\<dots> = of_nat (n + pad_to (unat a) n)" by (simp only: round_up_nat u)
  finally show ?thesis .
qed

lemma shl_one_ok: "alignment_ok (shl_one n)"
  by (simp add: alignment_ok_def shl_one_def)

subsection \<open>The layout pass\<close>

definition lsize :: "layout_state \<Rightarrow> section_kind \<Rightarrow> u64" where
  "lsize ls k = (if k = ls_current ls then ls_offset ls else case ls_sizes ls k of Some n \<Rightarrow> n | None \<Rightarrow> 0)"

text \<open>\<open>SectionKind::from_str\<close> never makes a custom kind with a standard name.\<close>

definition kind_ok :: "section_kind \<Rightarrow> bool" where
  "kind_ok k = (case k of Sec_Custom s \<Rightarrow> s \<notin> set [''.text'', ''.data'', ''.rodata'', ''.bss''] | _ \<Rightarrow> True)"

lemma section_name_inject: "kind_ok j \<Longrightarrow> kind_ok k \<Longrightarrow> section_name j = section_name k \<Longrightarrow> j = k"
  by (cases j; cases k) (auto simp: kind_ok_def)

fun token_ok :: "asm_token \<Rightarrow> bool" where
  "token_ok (T_Balign n) = alignment_ok n"
| "token_ok (T_Label name) = (CHR ''@'' \<notin> set name)"
| "token_ok (T_Section k) = kind_ok k"
| "token_ok _ = True"

lemma layout_fixed:
  assumes "fixed_size t = Some n" "\<And>k. t \<noteq> T_Section k" "\<And>l. t \<noteq> T_Label l" "\<And>g. t \<noteq> T_Globl g"
  shows "layout_token t ls =
    Inr (ls\<lparr>ls_order := push_section (ls_current ls) (ls_order ls), ls_offset := ls_offset ls + n\<rparr>)"
  using assms by (cases t) auto

lemma layout_token_cases:
  assumes "layout_token t ls = Inr ls'"
  obtains (switch) k where "t = T_Section k" "ls_current ls' = k" "ls_symbols ls' = ls_symbols ls"
      "ls_order ls' = push_section k (ls_order ls)" "\<And>j. lsize ls' j = lsize ls j"
  | (label) name where "t = T_Label name" "st_symbols (ls_symbols ls) name = None"
      "ls_order ls' = push_section (ls_current ls) (ls_order ls)"
      "st_symbols (ls_symbols ls') = (if st_symbols (ls_symbols ls) (qualified_name name (ls_current ls)) = None
         then (st_symbols (ls_symbols ls))(qualified_name name (ls_current ls) \<mapsto> ls_offset ls)
         else st_symbols (ls_symbols ls))(name \<mapsto> ls_offset ls)"
      "ls_current ls' = ls_current ls" "\<And>j. lsize ls' j = lsize ls j"
  | (globl) name where "t = T_Globl name" "st_symbols (ls_symbols ls') = st_symbols (ls_symbols ls)" "ls_order ls' = ls_order ls"
      "ls_current ls' = ls_current ls" "\<And>j. lsize ls' j = lsize ls j"
  | (aligned) n a where "t = T_Align n \<and> a = shl_one n \<or> t = T_Balign n \<and> a = n"
      "ls' = ls\<lparr>ls_offset := layout_align_up (ls_offset ls) a\<rparr>"
  | (fixed) n where "fixed_size t = Some n" "\<And>k. t \<noteq> T_Section k" "\<And>l. t \<noteq> T_Label l" "\<And>g. t \<noteq> T_Globl g"
      "ls' = ls\<lparr>ls_order := push_section (ls_current ls) (ls_order ls), ls_offset := ls_offset ls + n\<rparr>"
proof -
  consider k where "t = T_Section k" | name where "t = T_Label name" | name where "t = T_Globl name"
    | n where "t = T_Align n" | n where "t = T_Balign n"
    | n where "fixed_size t = Some n" "\<And>k. t \<noteq> T_Section k" "\<And>l. t \<noteq> T_Label l" "\<And>g. t \<noteq> T_Globl g"
    by (cases t) auto
  then show ?thesis
  proof cases
    case (1 k)
    with assms show ?thesis by (intro switch [of k]) (auto simp: lsize_def Let_def split: option.splits)
  next
    case (2 name)
    with assms show ?thesis
      by (intro label [of name])
        (auto simp: lsize_def Let_def sym_define_def qualified_name_def split: prod.splits bool.splits if_splits)
  next
    case (3 name)
    with assms show ?thesis by (intro globl [of name]) (auto simp: lsize_def mark_global_def)
  next
    case (4 n)
    with assms show ?thesis by (intro aligned [of n "shl_one n"]) auto
  next
    case (5 n)
    with assms show ?thesis by (intro aligned [of n n]) auto
  next
    case (6 n)
    from layout_fixed [OF this] assms show ?thesis by (intro fixed [OF 6]) simp
  qed
qed

lemma fixed_token_size: "fixed_size t = Some n \<Longrightarrow> n = of_nat (token_size t len)"
  by (cases t) auto

lemma layout_sizes:
  assumes "layout_token t ls = Inr ls'" "token_ok t" "ls_offset ls = of_nat n"
  shows "ls_current ls' = next_kind t (ls_current ls)
    \<and> (\<forall>k. lsize ls' k = (if k = ls_current ls then of_nat (n + token_size t n) else lsize ls k))"
  using assms(1)
proof (cases rule: layout_token_cases)
  case (aligned m a)
  then have "alignment_ok a" "token_size t n = pad_to (unat a) n" "next_kind t k = k" for k using assms(2) shl_one_ok by auto
  with aligned(2) align_up_pads [of a n] assms(3) show ?thesis by (auto simp: lsize_def)
next
  case (fixed m)
  then have "next_kind t k = k" for k by (cases t) auto
  with fixed fixed_token_size [OF fixed(1), of n] assms(3) show ?thesis by (auto simp: lsize_def)
qed (use assms(3) in \<open>auto simp: lsize_def [of ls]\<close>)

lemma layout_order:
  assumes "layout_token t ls = Inr ls'"
  shows "set (ls_order ls) \<subseteq> set (ls_order ls')" "distinct (ls_order ls) \<Longrightarrow> distinct (ls_order ls')"
    "token_size t 0 \<noteq> 0 \<or> token_labels t n \<noteq> [] \<Longrightarrow> ls_current ls \<in> set (ls_order ls')"
proof -
  show "set (ls_order ls) \<subseteq> set (ls_order ls')" "distinct (ls_order ls) \<Longrightarrow> distinct (ls_order ls')"
    using assms by (cases rule: layout_token_cases; auto simp: push_section_def)+
  show "ls_current ls \<in> set (ls_order ls')" if "token_size t 0 \<noteq> 0 \<or> token_labels t n \<noteq> []"
    using assms that by (cases rule: layout_token_cases) (auto simp: push_section_def pad_to_def split: if_splits)
qed

subsection \<open>The passes in step\<close>

text \<open>After the same tokens the layout pass and the encode pass are in the same section, agree on the number
  of bytes of every section, and every section with content is in the section order.\<close>

definition sizes_agree :: "layout_state \<Rightarrow> encode_state \<Rightarrow> bool" where
  "sizes_agree ls es \<longleftrightarrow> ls_current ls = es_kind es \<and> distinct (ls_order ls)
     \<and> (\<forall>k. lsize ls k = of_nat (length (sd_bytes (section_of k es))) \<and> sd_kind (section_of k es) = Some k
         \<and> (sd_bytes (section_of k es) \<noteq> [] \<or> sd_symbols (section_of k es) \<noteq> [] \<longrightarrow> k \<in> set (ls_order ls)))"

lemma pad_empty: "pad_to a 0 = 0"
  by (simp add: pad_to_def)

lemma sizes_agree_step:
  assumes l: "layout_token t ls = Inr ls'" and e: "encode_token ly bases t es = Inr es'"
    and ok: "token_ok t" and a: "sizes_agree ls es"
  shows "sizes_agree ls' es'"
proof -
  let ?k = "es_kind es"
  let ?n = "length (sd_bytes (section_of ?k es))"
  from token_effectI [OF e] obtain bs where f: "token_effect t es es' bs" ..
  from a have cur: "ls_current ls = ?k" and off: "ls_offset ls = of_nat ?n"
    by (auto simp: sizes_agree_def lsize_def split: if_splits)
  note sz = layout_sizes [OF l ok off] and ord = layout_order [OF l]
  have "k \<in> set (ls_order ls')" if "sd_bytes (section_of k es') \<noteq> [] \<or> sd_symbols (section_of k es') \<noteq> []" for k
  proof (cases "sd_bytes (section_of k es) \<noteq> [] \<or> sd_symbols (section_of k es) \<noteq> []")
    case True
    with a ord(1) show ?thesis by (auto simp: sizes_agree_def)
  next
    case False
    with that f have "k = ?k" "bs \<noteq> [] \<or> token_labels t 0 \<noteq> []" by (auto simp: token_effect_def split: if_splits)
    with False f have "token_size t 0 \<noteq> 0 \<or> token_labels t 0 \<noteq> []" by (auto simp: token_effect_def)
    with ord(3) cur \<open>k = ?k\<close> show ?thesis by auto
  qed
  with a f sz cur ord(2) show ?thesis by (auto simp: sizes_agree_def token_effect_def)
qed

text \<open>The symbol table of the layout pass holds the labels the encode pass records, plain and qualified.\<close>

definition labelled :: "encode_state \<Rightarrow> string \<Rightarrow> section_kind \<Rightarrow> u64 \<Rightarrow> bool" where
  "labelled es n k off \<longleftrightarrow> (n, off) \<in> set (sd_symbols (section_of k es))"

definition labels_agree :: "(string \<rightharpoonup> u64) \<Rightarrow> encode_state \<Rightarrow> bool" where
  "labels_agree symbols es \<longleftrightarrow>
     (\<forall>n k off. labelled es n k off \<longrightarrow> CHR ''@'' \<notin> set n)
   \<and> (\<forall>n off. CHR ''@'' \<notin> set n \<longrightarrow> (symbols n = Some off \<longleftrightarrow> (\<exists>k. labelled es n k off)))
   \<and> (\<forall>n s off. CHR ''@'' \<notin> set n \<longrightarrow>
        (symbols (n @ ''@'' @ s) = Some off \<longleftrightarrow> (\<exists>k. section_name k = s \<and> labelled es n k off)))
   \<and> (\<forall>n k off k' off'. labelled es n k off \<and> labelled es n k' off' \<longrightarrow> k = k' \<and> off = off')"

lemma split_at_sign:
  assumes "n @ ''@'' @ s = m @ ''@'' @ r" "CHR ''@'' \<notin> set n" "CHR ''@'' \<notin> set m"
  shows "n = m \<and> s = r"
  using assms
proof (induction n arbitrary: m)
  case Nil
  then show ?case by (cases m) auto
next
  case (Cons c n)
  then show ?case by (cases m) auto
qed

lemma labels_agree_step:
  assumes l: "layout_token t ls = Inr ls'" and e: "encode_token ly bases t es = Inr es'"
    and ok: "token_ok t" and a: "sizes_agree ls es" and s: "labels_agree (st_symbols (ls_symbols ls)) es"
  shows "labels_agree (st_symbols (ls_symbols ls')) es'"
proof -
  let ?k = "es_kind es"
  let ?n = "length (sd_bytes (section_of ?k es))"
  from token_effectI [OF e] obtain bs where f: "token_effect t es es' bs" ..
  from a have cur: "ls_current ls = ?k" and off: "ls_offset ls = of_nat ?n"
    by (auto simp: sizes_agree_def lsize_def split: if_splits)
  have lab: "labelled es' n k z \<longleftrightarrow> labelled es n k z \<or> k = ?k \<and> (n, z) \<in> set (token_labels t ?n)" for n k z
    using f by (auto simp: labelled_def token_effect_def)
  from l show ?thesis
  proof (cases rule: layout_token_cases)
    case (label name)
    note at = ok [unfolded label(1) token_ok.simps]
    have lab: "labelled es' n k z \<longleftrightarrow> labelled es n k z \<or> k = ?k \<and> n = name \<and> z = of_nat ?n" for n k z
      using lab by (simp add: label(1))
    from s label(2) at have new: "\<not> labelled es name k z" for k z by (auto simp: labels_agree_def)
    then have q: "st_symbols (ls_symbols ls) (qualified_name name ?k) = None"
      using s at unfolding qualified_name_def labels_agree_def by (metis not_None_eq)
    have syms: "st_symbols (ls_symbols ls') = (st_symbols (ls_symbols ls))(name @ ''@'' @ section_name ?k \<mapsto> of_nat ?n, name \<mapsto> of_nat ?n)"
      using label(4) q cur off by (simp add: qualified_name_def)
    have plain: "CHR ''@'' \<notin> set n" if "labelled es n k z" for n k z
      using s that unfolding labels_agree_def by blast
    have unique: "k = k' \<and> z = z'" if "labelled es n k z" "labelled es n k' z'" for n k z k' z'
      using s that unfolding labels_agree_def by blast
    show ?thesis unfolding labels_agree_def lab syms
    proof (intro conjI allI impI)
      fix n z assume "CHR ''@'' \<notin> set n"
      with s new show "(((st_symbols (ls_symbols ls))(name @ ''@'' @ section_name ?k \<mapsto> of_nat ?n, name \<mapsto> of_nat ?n)) n = Some z)
          = (\<exists>k. labelled es n k z \<or> k = ?k \<and> n = name \<and> z = of_nat ?n)"
        by (auto simp: labels_agree_def)
    next
      fix n r z assume n: "CHR ''@'' \<notin> set n"
      show "(((st_symbols (ls_symbols ls))(name @ ''@'' @ section_name ?k \<mapsto> of_nat ?n, name \<mapsto> of_nat ?n)) (n @ ''@'' @ r) = Some z)
          = (\<exists>k. section_name k = r \<and> (labelled es n k z \<or> k = ?k \<and> n = name \<and> z = of_nat ?n))"
      proof (cases "n @ ''@'' @ r = name @ ''@'' @ section_name ?k")
        case True
        from split_at_sign [OF True n at] have "n = name" "r = section_name ?k" by auto
        with new at show ?thesis by auto
      next
        case False
        moreover have "n @ ''@'' @ r \<noteq> name" using at by auto
        moreover have "n \<noteq> name \<or> r \<noteq> section_name ?k" using False by auto
        ultimately show ?thesis using s n by (auto simp: labels_agree_def)
      qed
    qed (use plain unique new at in \<open>blast+\<close>)
  next
    case (aligned m al)
    then have "token_labels t ?n = []" by auto
    with lab s aligned(2) show ?thesis by (simp add: labels_agree_def)
  next
    case (fixed m)
    then have "token_labels t ?n = []" by (cases t) auto
    with lab s fixed(5) show ?thesis by (simp add: labels_agree_def)
  qed (use lab s in \<open>simp_all add: labels_agree_def\<close>)
qed

subsection \<open>Whole token lists\<close>

definition addr_agrees :: "bases \<Rightarrow> encode_state \<Rightarrow> bool" where
  "addr_agrees bases es \<longleftrightarrow> es_addr es = section_base bases (es_kind es) + current_offset (section_of (es_kind es) es)"

lemma addr_step:
  assumes "encode_token ly bases t es = Inr es'" "addr_agrees bases es"
  shows "addr_agrees bases es'"
proof -
  from token_effectI [OF assms(1)] obtain bs where f: "token_effect t es es' bs" ..
  consider k where "t = T_Section k" | n where "t = T_Align n \<or> t = T_Balign n"
    | "\<And>k. t \<noteq> T_Section k" "\<And>n. t \<noteq> T_Align n" "\<And>n. t \<noteq> T_Balign n" by blast
  then show ?thesis
  proof cases
    case 3
    then have "es_addr es' = es_addr es + of_nat (token_size t (length (sd_bytes (section_of (es_kind es) es))))"
      using assms(1)
      by (cases t) (auto simp: abind_eq_Inr push_word_def split: sum.splits asm_failure.splits prod.splits)
    moreover have "next_kind t (es_kind es) = es_kind es" using 3 by (cases t) auto
    ultimately show ?thesis using f assms(2) by (simp add: addr_agrees_def token_effect_def current_offset_def)
  qed (use assms(1) in \<open>auto simp: addr_agrees_def encode_aligned_def Let_def\<close>)
qed

definition passes_agree :: "bases \<Rightarrow> layout_state \<Rightarrow> encode_state \<Rightarrow> bool" where
  "passes_agree bases ls es \<longleftrightarrow> sizes_agree ls es \<and> labels_agree (st_symbols (ls_symbols ls)) es \<and> addr_agrees bases es"

lemma passes_agree_tokens:
  assumes "layout_tokens ts ls = Inr ls'" "encode_tokens ly bases ts es = Inr es'" "list_all token_ok ts" "passes_agree bases ls es"
  shows "passes_agree bases ls' es'"
  using assms
proof (induction ts arbitrary: ls es)
  case (Cons t ts)
  then obtain ls1 es1 where 1: "layout_token t ls = Inr ls1" "layout_tokens ts ls1 = Inr ls'"
    "encode_token ly bases t es = Inr es1" "encode_tokens ly bases ts es1 = Inr es'" by (auto simp: abind_eq_Inr)
  with Cons.prems have "passes_agree bases ls1 es1"
    by (auto simp: passes_agree_def intro: sizes_agree_step labels_agree_step addr_step)
  with Cons 1 show ?case by simp
qed simp

lemma encode_tokens_append:
  "encode_tokens ly bases (ts @ us) es = abind (encode_tokens ly bases ts es) (encode_tokens ly bases us)"
  by (induction ts arbitrary: es) (auto simp: abind_def split: sum.splits)

lemma layout_tokens_append: "layout_tokens (ts @ us) ls = abind (layout_tokens ts ls) (layout_tokens us)"
  by (induction ts arbitrary: ls) (auto simp: abind_def split: sum.splits)

lemma layout_tokens_prefix:
  assumes "layout_tokens (ts @ us) ls = Inr ls'"
  obtains ls1 where "layout_tokens ts ls = Inr ls1" "layout_tokens us ls1 = Inr ls'"
  using assms by (auto simp: layout_tokens_append abind_eq_Inr)

lemma encode_tokens_prefix:
  assumes "encode_tokens ly bases (ts @ us) es = Inr es'"
  obtains es1 where "encode_tokens ly bases ts es = Inr es1" "encode_tokens ly bases us es1 = Inr es'"
  using assms by (auto simp: encode_tokens_append abind_eq_Inr)

lemma encode_positions:
  assumes "encode_tokens ly bases ts es = Inr es'" "es_kind es = fst p" "\<And>k. length (sd_bytes (section_of k es)) = snd p k"
  shows "es_kind es' = fst (fold step_position ts p) \<and> (\<forall>k. length (sd_bytes (section_of k es')) = snd (fold step_position ts p) k)"
  using assms
proof (induction ts arbitrary: es p)
  case (Cons t ts)
  then obtain es1 where 1: "encode_token ly bases t es = Inr es1" "encode_tokens ly bases ts es1 = Inr es'"
    by (auto simp: abind_eq_Inr)
  from token_effectI [OF 1(1)] obtain bs where f: "token_effect t es es1 bs" ..
  have "es_kind es1 = fst (step_position t p)" "length (sd_bytes (section_of k es1)) = snd (step_position t p) k" for k
    using f Cons.prems(2,3) by (cases p; auto simp: token_effect_def step_position_def)+
  from Cons.IH [OF 1(2) this] show ?case by simp
qed simp

text \<open>Bytes already emitted and labels already recorded stay.\<close>

lemma encode_grows:
  assumes "encode_tokens ly bases ts es = Inr es'"
  shows "\<exists>bs. sd_bytes (section_of k es') = sd_bytes (section_of k es) @ bs"
    and "set (sd_symbols (section_of k es)) \<subseteq> set (sd_symbols (section_of k es'))"
proof -
  have "(\<exists>bs. sd_bytes (section_of k es') = sd_bytes (section_of k es) @ bs)
      \<and> set (sd_symbols (section_of k es)) \<subseteq> set (sd_symbols (section_of k es'))"
    using assms
  proof (induction ts arbitrary: es)
    case (Cons t ts)
    then obtain es1 where 1: "encode_token ly bases t es = Inr es1" "encode_tokens ly bases ts es1 = Inr es'"
      by (auto simp: abind_eq_Inr)
    from token_effectI [OF 1(1)] obtain bs where f: "token_effect t es es1 bs" ..
    with Cons.IH [OF 1(2)] show ?case by (auto simp: token_effect_def)
  qed simp
  then show "\<exists>bs. sd_bytes (section_of k es') = sd_bytes (section_of k es) @ bs"
    and "set (sd_symbols (section_of k es)) \<subseteq> set (sd_symbols (section_of k es'))" by blast+
qed

lemma layout_kinds_ok:
  assumes "layout_tokens ts ls = Inr ls'" "list_all token_ok ts" "\<forall>k \<in> insert (ls_current ls) (set (ls_order ls)). kind_ok k"
  shows "\<forall>k \<in> insert (ls_current ls') (set (ls_order ls')). kind_ok k"
  using assms
proof (induction ts arbitrary: ls)
  case (Cons t ts)
  then obtain ls1 where 1: "layout_token t ls = Inr ls1" "layout_tokens ts ls1 = Inr ls'" by (auto simp: abind_eq_Inr)
  from 1(1) have "\<forall>k \<in> insert (ls_current ls1) (set (ls_order ls1)). kind_ok k"
  proof (cases rule: layout_token_cases)
    case (switch k)
    from switch(1,2,4) Cons.prems(2,3) show ?thesis by (simp add: push_section_def)
  next
    case (label name)
    from label(3,5) Cons.prems(3) show ?thesis by (simp add: push_section_def)
  next
    case (globl name)
    from globl(3,4) Cons.prems(3) show ?thesis by simp
  next
    case (aligned n al)
    from aligned(2) Cons.prems(3) show ?thesis by simp
  next
    case (fixed n)
    from fixed(5) Cons.prems(3) show ?thesis by (simp add: push_section_def)
  qed
  with Cons.IH [OF 1(2)] Cons.prems(2) show ?case by simp
qed simp

end
