(* ===== verification/Asm_Elf.thy ===== *)
theory Asm_Elf
  imports Asm_Encode
begin

text \<open>
  The writers of \<open>assembler/output.rs\<close>: the executable ELF-64 image (\<open>to_elf\<close>), the flat binary, the
  boundary symbols a kernel build asks for, and the source line table. \<open>symbol_table\<close> is a \<open>HashMap\<close>;
  \<open>to_elf\<close> iterates it, so the writer takes the iteration order as an argument \<open>iter\<close>.
\<close>

subsection \<open>Constants\<close>

abbreviation (input) ELFMAG :: "u8 list" where "ELFMAG \<equiv> [0x7F, 0x45, 0x4C, 0x46]"
abbreviation (input) ELFCLASS64 :: u8 where "ELFCLASS64 \<equiv> 2"
abbreviation (input) ELFDATA2LSB :: u8 where "ELFDATA2LSB \<equiv> 1"
abbreviation (input) ET_EXEC :: u64 where "ET_EXEC \<equiv> 2"
abbreviation (input) EM_RISCV :: u64 where "EM_RISCV \<equiv> 243"
abbreviation (input) EV_CURRENT :: u64 where "EV_CURRENT \<equiv> 1"
abbreviation (input) ELF_PT_LOAD :: u64 where "ELF_PT_LOAD \<equiv> 1"
abbreviation (input) PF_RWX :: u64 where "PF_RWX \<equiv> 4 OR 2 OR 1"
abbreviation (input) SHT_PROGBITS :: u64 where "SHT_PROGBITS \<equiv> 1"
abbreviation (input) SHT_SYMTAB :: u64 where "SHT_SYMTAB \<equiv> 2"
abbreviation (input) SHT_STRTAB :: u64 where "SHT_STRTAB \<equiv> 3"
abbreviation (input) SHT_NOBITS :: u64 where "SHT_NOBITS \<equiv> 8"
abbreviation (input) SHF_WRITE :: u64 where "SHF_WRITE \<equiv> 1"
abbreviation (input) SHF_ALLOC :: u64 where "SHF_ALLOC \<equiv> 2"
abbreviation (input) SHF_EXECINSTR :: u64 where "SHF_EXECINSTR \<equiv> 4"
abbreviation (input) STB_LOCAL :: u8 where "STB_LOCAL \<equiv> 0"
abbreviation (input) STB_GLOBAL :: u8 where "STB_GLOBAL \<equiv> 1"
abbreviation (input) STT_NOTYPE :: u8 where "STT_NOTYPE \<equiv> 0"
abbreviation (input) SHN_ABS :: u64 where "SHN_ABS \<equiv> 0xFFF1"
abbreviation (input) ELF64_HDR_SIZE :: u64 where "ELF64_HDR_SIZE \<equiv> 64"
abbreviation (input) ELF64_PHDR_SIZE :: u64 where "ELF64_PHDR_SIZE \<equiv> 56"
abbreviation (input) ELF64_SHDR_SIZE :: u64 where "ELF64_SHDR_SIZE \<equiv> 64"
abbreviation (input) ELF64_SYM_SIZE :: nat where "ELF64_SYM_SIZE \<equiv> 24"
abbreviation (input) ELF_PAGE_SIZE :: u64 where "ELF_PAGE_SIZE \<equiv> 0x1000"

text \<open>\<open>push_u16_le\<close>, \<open>push_u32_le\<close> and \<open>push_u64_le\<close> on a buffer, with the cast that precedes the call.\<close>

abbreviation (input) le16 :: "u64 \<Rightarrow> u8 list" where "le16 v \<equiv> to_le_bytes 2 v"
abbreviation (input) le32 :: "u64 \<Rightarrow> u8 list" where "le32 v \<equiv> to_le_bytes 4 v"
abbreviation (input) le64 :: "u64 \<Rightarrow> u8 list" where "le64 v \<equiv> to_le_bytes 8 v"

subsection \<open>Sections in load order\<close>

record elf_sec =
  xs_sec :: section_data
  xs_load_addr :: u64
  xs_type :: u64
  xs_flags :: u64

definition is_bss :: "section_data \<Rightarrow> bool" where
  "is_bss s \<longleftrightarrow> sd_kind s = Some Sec_Bss"

text \<open>The two passes \<open>for pass_bss in [false, true]\<close> over the sections that have a kind.\<close>

definition load_order :: "assembled_output \<Rightarrow> section_data list" where
  "load_order out =
     filter (\<lambda>s. sd_kind s \<noteq> None \<and> \<not> is_bss s) (ao_sections out) @ filter is_bss (ao_sections out)"

definition sec_type :: "section_data \<Rightarrow> u64" where
  "sec_type s = (if is_bss s then SHT_NOBITS else SHT_PROGBITS)"

definition sec_flags :: "section_data \<Rightarrow> u64" where
  "sec_flags s =
     (if sd_kind s = Some Sec_Text then SHF_ALLOC OR SHF_EXECINSTR
      else if sd_kind s \<in> {Some Sec_Data, Some Sec_Bss} then SHF_ALLOC OR SHF_WRITE
      else SHF_ALLOC)"

fun place_sections :: "section_data list \<Rightarrow> u64 \<Rightarrow> elf_sec list \<times> u64" where
  "place_sections [] running_addr = ([], running_addr)"
| "place_sections (s # ss) running_addr =
     (case place_sections ss (running_addr + of_nat (length (sd_bytes s))) of (rest, final) \<Rightarrow>
        (\<lparr>xs_sec = s, xs_load_addr = running_addr, xs_type = sec_type s, xs_flags = sec_flags s\<rparr> # rest, final))"

fun find_map :: "('a \<Rightarrow> 'b option) \<Rightarrow> 'a list \<Rightarrow> 'b option" where
  "find_map f [] = None"
| "find_map f (x # xs) = (case f x of Some y \<Rightarrow> Some y | None \<Rightarrow> find_map f xs)"

definition entry_address :: "assembled_output \<Rightarrow> u64 \<Rightarrow> elf_sec list \<Rightarrow> string list \<Rightarrow> u64" where
  "entry_address out load_base elf_secs candidates =
     (case find_map (\<lambda>sym. map_option (\<lambda>a. load_base + a) (ao_symbol_table out sym)) candidates of
        Some e \<Rightarrow> e
      | None \<Rightarrow> (case elf_secs of [] \<Rightarrow> load_base | s # _ \<Rightarrow> xs_load_addr s))"

subsection \<open>String and symbol tables\<close>

text \<open>Each name is appended with its terminator; the result lists the offsets.\<close>

fun add_names :: "string list \<Rightarrow> u8 list \<Rightarrow> u64 list \<times> u8 list" where
  "add_names [] tab = ([], tab)"
| "add_names (n # ns) tab =
     (case add_names ns (tab @ as_bytes n @ [0]) of (idxs, final) \<Rightarrow> (of_nat (length tab) # idxs, final))"

definition sec_name :: "section_data \<Rightarrow> string" where
  "sec_name s = (case sd_kind s of Some k \<Rightarrow> section_name k | None \<Rightarrow> '''')"

definition in_sec :: "u64 \<Rightarrow> elf_sec \<Rightarrow> bool" where
  "in_sec addr es =
     (let start = xs_load_addr es; final = start + of_nat (length (sd_bytes (xs_sec es)))
      in if sd_bytes (xs_sec es) = [] then addr = start else start \<le> addr \<and> addr < final)"

definition section_index_for_addr :: "elf_sec list \<Rightarrow> u64 \<Rightarrow> u64 option" where
  "section_index_for_addr elf_secs addr = map_option (\<lambda>i. of_nat (1 + i)) (position_of (in_sec addr) elf_secs)"

fun add_symbols ::
  "assembled_output \<Rightarrow> u64 \<Rightarrow> elf_sec list \<Rightarrow> (string \<times> u64) list \<Rightarrow> u8 list \<Rightarrow> u8 list \<Rightarrow> u8 list \<times> u8 list" where
  "add_symbols out load_base elf_secs [] strtab entries = (strtab, entries)"
| "add_symbols out load_base elf_secs ((name, addr) # syms) strtab entries =
     (let st_bind = (if name \<in> set (ao_global_symbols out) then STB_GLOBAL else STB_LOCAL);
          st_info = push_bit 4 st_bind OR (STT_NOTYPE AND 0xF);
          shndx = (case section_index_for_addr elf_secs (load_base + addr) of Some i \<Rightarrow> i | None \<Rightarrow> SHN_ABS)
      in add_symbols out load_base elf_secs syms (strtab @ as_bytes name @ [0])
           (entries @ le32 (of_nat (length strtab)) @ [st_info, 0] @ le16 shndx @ le64 (load_base + addr) @ le64 0))"

subsection \<open>The executable image\<close>

fun file_offsets :: "elf_sec list \<Rightarrow> u64 \<Rightarrow> u64 list \<times> u64" where
  "file_offsets [] file_offset = ([], file_offset)"
| "file_offsets (es # ess) file_offset =
     (case file_offsets ess (if is_bss (xs_sec es) then file_offset
                             else file_offset + of_nat (length (sd_bytes (xs_sec es)))) of
        (rest, final) \<Rightarrow> (file_offset # rest, final))"

definition section_header ::
  "u64 \<Rightarrow> u64 \<Rightarrow> u64 \<Rightarrow> u64 \<Rightarrow> u64 \<Rightarrow> u64 \<Rightarrow> u64 \<Rightarrow> u64 \<Rightarrow> u64 \<Rightarrow> u64 \<Rightarrow> u8 list" where
  "section_header name typ flags addr offset sh_size link info align entsize =
     le32 name @ le32 typ @ le64 flags @ le64 addr @ le64 offset @ le64 sh_size @ le32 link @ le32 info
     @ le64 align @ le64 entsize"

definition elf_header :: "u64 \<Rightarrow> u64 \<Rightarrow> nat \<Rightarrow> nat \<Rightarrow> u8 list" where
  "elf_header entry shdrs_offset n_shdrs n_prog_secs =
     ELFMAG @ [ELFCLASS64, ELFDATA2LSB, 1, 0] @ replicate 8 0
     @ le16 ET_EXEC @ le16 EM_RISCV @ le32 EV_CURRENT @ le64 entry @ le64 ELF64_HDR_SIZE @ le64 shdrs_offset
     @ le32 0x0005 @ le16 ELF64_HDR_SIZE @ le16 ELF64_PHDR_SIZE @ le16 1 @ le16 ELF64_SHDR_SIZE
     @ le16 (of_nat n_shdrs) @ le16 (of_nat (1 + n_prog_secs))"

definition program_header :: "u64 \<Rightarrow> u64 \<Rightarrow> u64 \<Rightarrow> u64 \<Rightarrow> u8 list" where
  "program_header sec_data_start load_base filesz memsz =
     le32 ELF_PT_LOAD @ le32 PF_RWX @ le64 sec_data_start @ le64 load_base @ le64 load_base
     @ le64 filesz @ le64 memsz @ le64 ELF_PAGE_SIZE"

definition file_bytes :: "section_data list \<Rightarrow> u8 list" where
  "file_bytes secs = concat (map (\<lambda>s. if is_bss s then [] else sd_bytes s) secs)"

definition to_elf_with_candidates ::
  "(string \<times> u64) list \<Rightarrow> assembled_output \<Rightarrow> u64 \<Rightarrow> string list \<Rightarrow> u8 list" where
  "to_elf_with_candidates iter out load_base candidates =
     (let (elf_secs, running_addr) = place_sections (load_order out) load_base;
          entry = entry_address out load_base elf_secs candidates;
          (name_idxs, shstrtab0) = add_names (map (\<lambda>es. sec_name (xs_sec es)) elf_secs) [0];
          (fixed_idxs, shstrtab) = add_names [''.shstrtab'', ''.strtab'', ''.symtab''] shstrtab0;
          sorted_syms = sort_key snd iter;
          (strtab, sym_entries) = add_symbols out load_base elf_secs sorted_syms [0] (replicate ELF64_SYM_SIZE 0);
          n_prog_secs = length elf_secs;
          n_shdrs = 1 + n_prog_secs + 3;
          header_end = ELF64_HDR_SIZE + ELF64_PHDR_SIZE * 1;
          sec_data_start = (header_end + ELF_PAGE_SIZE - 1) AND NOT (ELF_PAGE_SIZE - 1);
          header_padding = sec_data_start - header_end;
          (sec_file_offsets, shstrtab_offset) = file_offsets elf_secs sec_data_start;
          sec_data_filesz = shstrtab_offset - sec_data_start;
          sec_data_memsz = running_addr - load_base;
          strtab_offset = shstrtab_offset + of_nat (length shstrtab);
          symtab_offset = strtab_offset + of_nat (length strtab);
          shdrs_offset = symtab_offset + of_nat (length sym_entries);
          n_local_syms = length (filter (\<lambda>(n, _). n \<notin> set (ao_global_symbols out)) sorted_syms) + 1
      in elf_header entry shdrs_offset n_shdrs n_prog_secs
         @ program_header sec_data_start load_base sec_data_filesz sec_data_memsz
         @ replicate (unat header_padding) 0
         @ file_bytes (map xs_sec elf_secs)
         @ shstrtab @ strtab @ sym_entries
         @ replicate 64 0
         @ concat (map (\<lambda>(es, idx, off). section_header idx (xs_type es) (xs_flags es) (xs_load_addr es) off
               (if is_bss (xs_sec es) then 0 else of_nat (length (sd_bytes (xs_sec es)))) 0 0 4 0)
             (zip elf_secs (zip name_idxs sec_file_offsets)))
         @ section_header (fixed_idxs ! 0) SHT_STRTAB 0 0 shstrtab_offset (of_nat (length shstrtab)) 0 0 1 0
         @ section_header (fixed_idxs ! 1) SHT_STRTAB 0 0 strtab_offset (of_nat (length strtab)) 0 0 1 0
         @ section_header (fixed_idxs ! 2) SHT_SYMTAB 0 0 symtab_offset (of_nat (length sym_entries))
             (of_nat (1 + n_prog_secs + 1)) (of_nat n_local_syms) 8 (of_nat ELF64_SYM_SIZE))"

definition to_elf :: "(string \<times> u64) list \<Rightarrow> assembled_output \<Rightarrow> u64 \<Rightarrow> u8 list" where
  "to_elf iter out load_base = to_elf_with_candidates iter out load_base [''_start'', ''main'']"

definition to_elf_with_entry :: "(string \<times> u64) list \<Rightarrow> assembled_output \<Rightarrow> u64 \<Rightarrow> string \<Rightarrow> u8 list" where
  "to_elf_with_entry iter out load_base entry_symbol =
     to_elf_with_candidates iter out load_base [entry_symbol, ''_start'', ''main'']"

definition to_flat_binary :: "assembled_output \<Rightarrow> u8 list" where
  "to_flat_binary out = concat (map sd_bytes (load_order out))"

subsection \<open>Boundary symbols\<close>

record link_layout =
  lk_load_base :: u64
  lk_emit_layout_symbols :: bool
  lk_stack_top :: u64
  lk_heap_size :: u64

definition hosted :: link_layout where
  "hosted = \<lparr>lk_load_base = 0x10000, lk_emit_layout_symbols = False, lk_stack_top = 0, lk_heap_size = 0\<rparr>"

definition freestanding_kernel :: link_layout where
  "freestanding_kernel = \<lparr>lk_load_base = 0x80200000, lk_emit_layout_symbols = True,
     lk_stack_top = 0x80600000, lk_heap_size = 4 * 1024 * 1024\<rparr>"

definition or_insert :: "string \<Rightarrow> u64 \<Rightarrow> (string \<rightharpoonup> u64) \<Rightarrow> (string \<rightharpoonup> u64)" where
  "or_insert k v m = (if m k = None then m(k \<mapsto> v) else m)"

definition insert_heap :: "link_layout \<Rightarrow> u64 \<Rightarrow> (string \<rightharpoonup> u64) \<Rightarrow> (string \<rightharpoonup> u64)" where
  "insert_heap lk final m =
     (let heap_start = (final + 15) AND NOT 15; m1 = m(''__heap_start'' \<mapsto> heap_start)
      in if lk_heap_size lk > 0 then m1(''__heap_end'' \<mapsto> heap_start + lk_heap_size lk) else m1)"

fun inject_section :: "link_layout \<Rightarrow> section_data \<Rightarrow> u64 \<times> (string \<rightharpoonup> u64) \<Rightarrow> u64 \<times> (string \<rightharpoonup> u64)" where
  "inject_section lk s (start, m) =
     (let final = start + of_nat (length (sd_bytes s)) in
      (final,
       case sd_kind s of
         Some Sec_Text \<Rightarrow> (or_insert ''__text_start'' start m)(''__text_end'' \<mapsto> final)
       | Some Sec_RoData \<Rightarrow> (or_insert ''__rodata_start'' start m)(''__rodata_end'' \<mapsto> final)
       | Some Sec_Data \<Rightarrow> (or_insert ''__data_start'' start m)(''__data_end'' \<mapsto> final)
       | Some Sec_Bss \<Rightarrow> insert_heap lk final ((or_insert ''__bss_start'' start m)(''__bss_end'' \<mapsto> final))
       | _ \<Rightarrow> m))"

definition inject_layout_symbols :: "link_layout \<Rightarrow> assembled_output \<Rightarrow> assembled_output" where
  "inject_layout_symbols lk out =
     (if \<not> lk_emit_layout_symbols lk then out
      else let (running, m) = fold (inject_section lk) (load_order out) (0, ao_symbol_table out);
               m1 = (if m ''__bss_start'' = None then insert_heap lk running m else m);
               m2 = (if lk_stack_top lk > 0
                     then m1(''__stack_top'' \<mapsto> (if lk_stack_top lk \<ge> lk_load_base lk
                                               then lk_stack_top lk - lk_load_base lk else 0))
                     else m1)
           in out\<lparr>ao_symbol_table := m2\<rparr>)"

definition mark_entry_global :: "string \<Rightarrow> assembled_output \<Rightarrow> assembled_output" where
  "mark_entry_global entry_symbol out =
     (if ao_symbol_table out entry_symbol \<noteq> None then add_global entry_symbol out else out)"

end
