(* ===== verification/Asm_Correct.thy ===== *)
theory Asm_Correct
  imports Asm_Positions Asm_Elf Mmu_Correct
begin

text \<open>
  What the assembler's two passes produce together: every label has the address at which it stands in the
  image, every token's bytes stand at the token's address, and branches, jumps and calls reach their labels.
  A label name must not contain \<open>@\<close>, which the layout pass uses to qualify names by section, and \<open>.balign\<close>
  must be given zero or a power of two.
\<close>

subsection \<open>The result of a run\<close>

lemma init_agrees: "passes_agree (section_bases ly) layout_init (encode_init ly)"
proof -
  have s: "section_of k (encode_init ly) = section_data_new k" for k by (simp add: section_of_def encode_init_def)
  show ?thesis
    unfolding passes_agree_def sizes_agree_def labels_agree_def addr_agrees_def labelled_def s
    by (simp add: layout_init_def encode_init_def lsize_def section_data_new_def symbol_table_new_def current_offset_def)
qed

lemma canonical_order:
  "set (canonical_section_order ks) = set ks" "distinct ks \<Longrightarrow> distinct (canonical_section_order ks)"
  "filter (\<lambda>k. k \<noteq> Sec_Bss) (canonical_section_order ks) @ filter (\<lambda>k. k = Sec_Bss) (canonical_section_order ks)
     = canonical_section_order ks"
proof -
  have c: "k \<noteq> Sec_Bss" if "is_custom k" for k using that by (auto simp: is_custom_def)
  have f: "filter (\<lambda>k. k \<noteq> Sec_Bss) (filter is_custom ks) = filter is_custom ks" "filter (\<lambda>k. k = Sec_Bss) (filter is_custom ks) = []"
    by (induction ks) (auto dest: c)
  show "set (canonical_section_order ks) = set ks"
  proof (rule set_eqI)
    fix x show "x \<in> set (canonical_section_order ks) \<longleftrightarrow> x \<in> set ks"
      by (cases x) (auto simp: canonical_section_order_def is_custom_def)
  qed
  show "distinct ks \<Longrightarrow> distinct (canonical_section_order ks)"
    unfolding canonical_section_order_def by (auto simp: is_custom_def)
  show "filter (\<lambda>k. k \<noteq> Sec_Bss) (canonical_section_order ks) @ filter (\<lambda>k. k = Sec_Bss) (canonical_section_order ks)
     = canonical_section_order ks"
    unfolding canonical_section_order_def by (simp add: f del: filter_filter)
qed

lemma assign_bases_lookup:
  assumes "k \<in> set ks"
  shows "map_of (assign_bases ly ks r) k = Some (r + sum_list (map (size_of ly) (takeWhile (\<lambda>j. j \<noteq> k) ks)))"
  using assms by (induction ks arbitrary: r) (auto simp: add.assoc)

lemma assign_bases_keys: "map fst (assign_bases ly ks r) = ks"
  by (induction ks arbitrary: r) simp_all

lemma sections_stay:
  assumes "encode_tokens ly bases ts es = Inr es'" "es_sections es k \<noteq> None"
  shows "es_sections es' k \<noteq> None"
proof -
  have put: "es_sections (put_section s es) = (es_sections es)(es_kind es \<mapsto> s)" for s es by (simp add: put_section_def)
  have step: "es_sections es1 k \<noteq> None" if "encode_token ly bases t es = Inr es1" "es_sections es k \<noteq> None" for t es es1
    using that
    by (cases t) (auto simp: abind_eq_Inr push_word_def advance_def recorded_def add_relocations_def encode_aligned_def put
        Let_def split: sum.splits asm_failure.splits prod.splits)
  show ?thesis using assms
    by (induction ts arbitrary: es) (auto simp: abind_eq_Inr dest: step)
qed

lemma output_untouched:
  assumes "encode_tokens ly bases ts es = Inr es'"
  shows "ao_sections (es_out es') = ao_sections (es_out es) \<and> ao_symbol_table (es_out es') = ao_symbol_table (es_out es)"
proof -
  have step: "ao_sections (es_out es1) = ao_sections (es_out es) \<and> ao_symbol_table (es_out es1) = ao_symbol_table (es_out es)"
    if "encode_token ly bases t es = Inr es1" for t es es1
    using that
    by (cases t) (auto simp: abind_eq_Inr push_word_def advance_def recorded_def add_relocations_def encode_aligned_def
        put_section_def record_line_def intern_file_def add_global_def Let_def
        split: sum.splits asm_failure.splits prod.splits option.splits if_splits)
  show ?thesis using assms
    by (induction ts arbitrary: es) (auto simp: abind_eq_Inr dest: step)
qed

lemma sum_lengths:
  assumes "\<And>k. g k = of_nat (length (f k))"
  shows "sum_list (map g xs) = of_nat (length (concat (map f xs)))"
  by (induction xs) (simp_all add: assms)

definition insert_symbols :: "('k \<times> 'v) list \<Rightarrow> ('k \<rightharpoonup> 'v) \<Rightarrow> ('k \<rightharpoonup> 'v)" where
  "insert_symbols ps m = fold (\<lambda>(n, a) m. m(n \<mapsto> a)) ps m"

lemma insert_symbols_append: "insert_symbols (ps @ qs) m = insert_symbols qs (insert_symbols ps m)"
  by (simp add: insert_symbols_def)

lemma insert_symbols_shift:
  "fold (\<lambda>(name, off) m. m(name \<mapsto> b + off)) xs m = insert_symbols (map (\<lambda>(n, off). (n, b + off)) xs) m"
  by (induction xs arbitrary: m) (auto simp: insert_symbols_def)

lemma insert_symbols_lookup:
  assumes "\<And>n a b. (n, a) \<in> set ps \<Longrightarrow> (n, b) \<in> set ps \<Longrightarrow> a = b"
  shows "insert_symbols ps Map.empty n = Some a \<longleftrightarrow> (n, a) \<in> set ps"
proof -
  have "insert_symbols ps m = m ++ map_of (rev ps)" for m :: "'a \<rightharpoonup> 'b"
    unfolding insert_symbols_def by (induction ps arbitrary: m) (auto simp: map_add_upd)
  moreover have "map_of (rev ps) n = Some a \<longleftrightarrow> (n, a) \<in> set ps"
    using assms by (metis map_of_SomeD set_rev weak_map_of_SomeI)
  ultimately show ?thesis by simp
qed

definition placed_symbols :: "bases \<Rightarrow> section_kind list \<Rightarrow> (section_kind \<Rightarrow> section_data) \<Rightarrow> (string \<times> u64) list" where
  "placed_symbols bases ks f = concat (map (\<lambda>k. map (\<lambda>(n, off). (n, section_base bases k + off)) (sd_symbols (f k))) ks)"

lemma flatten_result:
  assumes "distinct ks" "\<And>k. k \<in> set ks \<Longrightarrow> sections k = Some (f k)"
  shows "ao_sections (flatten_sections bases ks sections out) = ao_sections out @ map f ks
    \<and> ao_symbol_table (flatten_sections bases ks sections out)
      = insert_symbols (placed_symbols bases ks f) (ao_symbol_table out)"
  using assms
proof (induction ks arbitrary: sections out)
  case Nil
  then show ?case by (simp add: insert_symbols_def placed_symbols_def)
next
  case (Cons a ks)
  then have "(sections(a := None)) k = Some (f k)" if "k \<in> set ks" for k using that by auto
  from Cons.IH [OF _ this] Cons.prems show ?case
    by (simp add: insert_symbols_shift insert_symbols_append placed_symbols_def del: fun_upd_apply)
qed

lemma globals_keep:
  "ao_sections (fold add_global gs out) = ao_sections out" "ao_symbol_table (fold add_global gs out) = ao_symbol_table out"
proof -
  have "ao_sections (fold add_global gs out) = ao_sections out \<and> ao_symbol_table (fold add_global gs out) = ao_symbol_table out"
    by (induction gs arbitrary: out) (simp_all add: add_global_def)
  then show "ao_sections (fold add_global gs out) = ao_sections out"
    "ao_symbol_table (fold add_global gs out) = ao_symbol_table out" by simp_all
qed

text \<open>The byte at which a section starts in the image: the sections before it in load order.\<close>

definition section_start :: "assembled_output \<Rightarrow> section_kind \<Rightarrow> nat" where
  "section_start out k = length (concat (map sd_bytes (takeWhile (\<lambda>s. sd_kind s \<noteq> Some k) (load_order out))))"

lemma assembled:
  assumes "assemble_tokens ts = Inr out" "list_all token_ok ts"
  obtains ls ly es where "layout_tokens ts layout_init = Inr ls" "ly_symbols ly = ls_symbols ls"
    "encode_tokens ly (section_bases ly) ts (encode_init ly) = Inr es" "passes_agree (section_bases ly) ls es"
    "ao_sections out = map (\<lambda>k. section_of k es) (ly_section_order ly)" "distinct (ly_section_order ly)"
    "\<And>k. sd_bytes (section_of k es) \<noteq> [] \<or> sd_symbols (section_of k es) \<noteq> [] \<Longrightarrow> k \<in> set (ly_section_order ly)"
    "load_order out = ao_sections out"
    "\<And>k. k \<in> set (ly_section_order ly) \<Longrightarrow> section_base (section_bases ly) k = of_nat (section_start out k)"
    "\<And>n a. ao_symbol_table out n = Some a \<longleftrightarrow> (\<exists>k off. labelled es n k off \<and> a = section_base (section_bases ly) k + off)"
    "map fst (section_bases ly) = ly_section_order ly" "\<And>k. k \<in> set (ly_section_order ly) \<Longrightarrow> kind_ok k"
proof -
  from assms(1) obtain ly where "compute_layout ts = Inr ly" and enc: "encode ts ly = Inr out"
    by (auto simp: assemble_tokens_def abind_eq_Inr)
  then obtain ls where ls: "layout_tokens ts layout_init = Inr ls" and ly: "ly = \<lparr>ly_symbols = ls_symbols ls,
      ly_section_order = canonical_section_order (ls_order ls), ly_section_sizes = (ls_sizes ls)(ls_current ls \<mapsto> ls_offset ls)\<rparr>"
    by (auto simp: compute_layout_def abind_eq_Inr)
  let ?ks = "ly_section_order ly" and ?bs = "section_bases ly"
  from enc obtain es where es: "encode_tokens ly ?bs ts (encode_init ly) = Inr es"
    and out: "out = fold add_global (st_globals (ly_symbols ly)) (flatten_sections ?bs ?ks (es_sections es) (es_out es))"
    by (auto simp: encode_def abind_eq_Inr)
  have agree: "passes_agree ?bs ls es" by (rule passes_agree_tokens [OF ls es assms(2) init_agrees])
  have dist: "distinct ?ks" using agree by (simp add: ly passes_agree_def sizes_agree_def canonical_order)
  have present: "es_sections es k = Some (section_of k es)" if "k \<in> set ?ks" for k
    using sections_stay [OF es, of k] that by (auto simp: section_of_def encode_init_def)
  have kind: "sd_kind (section_of k es) = Some k" for k using agree by (simp add: passes_agree_def sizes_agree_def)
  have size: "size_of ly k = of_nat (length (sd_bytes (section_of k es)))" for k
    using agree by (auto simp: passes_agree_def sizes_agree_def size_of_def lsize_def ly split: if_splits)
  have content: "k \<in> set ?ks" if "sd_bytes (section_of k es) \<noteq> [] \<or> sd_symbols (section_of k es) \<noteq> []" for k
    using agree that by (simp add: ly passes_agree_def sizes_agree_def canonical_order(1))
  have fresh: "ao_sections (es_out es) = [] \<and> ao_symbol_table (es_out es) = Map.empty"
    using output_untouched [OF es] by (simp add: encode_init_def assembled_output_new_def)
  have flat: "ao_sections (flatten_sections ?bs ?ks (es_sections es) (es_out es)) = ao_sections (es_out es) @ map (\<lambda>k. section_of k es) ?ks
    \<and> ao_symbol_table (flatten_sections ?bs ?ks (es_sections es) (es_out es))
      = insert_symbols (placed_symbols ?bs ?ks (\<lambda>k. section_of k es)) (ao_symbol_table (es_out es))"
    by (rule flatten_result [OF dist present])
  have secs: "ao_sections out = map (\<lambda>k. section_of k es) ?ks"
    unfolding out globals_keep using flat fresh by simp
  have order: "load_order out = ao_sections out"
  proof -
    have "load_order out = map (\<lambda>k. section_of k es) (filter (\<lambda>k. k \<noteq> Sec_Bss) ?ks @ filter (\<lambda>k. k = Sec_Bss) ?ks)"
      by (simp add: load_order_def secs is_bss_def filter_map comp_def kind)
    with secs show ?thesis by (simp add: ly canonical_order(3))
  qed
  have start: "section_base ?bs k = of_nat (section_start out k)" if "k \<in> set ?ks" for k
  proof -
    have "?bs = assign_bases ly ?ks 0" by (simp add: section_bases_def ly canonical_order(3))
    then have "section_base ?bs k = sum_list (map (size_of ly) (takeWhile (\<lambda>j. j \<noteq> k) ?ks))"
      using assign_bases_lookup [OF that, of ly 0] by (simp add: section_base_def)
    also have "\<dots> = of_nat (section_start out k)"
      unfolding section_start_def order secs takeWhile_map
      by (simp add: comp_def kind sum_lengths [where f = "\<lambda>k. sd_bytes (section_of k es)", OF size])
    finally show ?thesis .
  qed
  have keys: "map fst ?bs = ?ks" by (simp add: section_bases_def ly canonical_order(3) assign_bases_keys)
  have kinds: "kind_ok k" if "k \<in> set ?ks" for k
    using layout_kinds_ok [OF ls assms(2)] that by (simp add: ly canonical_order(1) layout_init_def kind_ok_def [of Sec_Text])
  have unique: "k = k' \<and> off = off'" if "labelled es n k off" "labelled es n k' off'" for n k off k' off'
    using agree that unfolding passes_agree_def labels_agree_def by blast
  have syms: "ao_symbol_table out n = Some a \<longleftrightarrow> (\<exists>k off. labelled es n k off \<and> a = section_base ?bs k + off)" for n a
  proof -
    have mem: "(n, a) \<in> set (placed_symbols ?bs ?ks (\<lambda>k. section_of k es))
        \<longleftrightarrow> (\<exists>k off. labelled es n k off \<and> a = section_base ?bs k + off)" for n a
    proof -
      have "(n, a) \<in> set (placed_symbols ?bs ?ks (\<lambda>k. section_of k es))
          \<longleftrightarrow> (\<exists>k \<in> set ?ks. \<exists>off. (n, off) \<in> set (sd_symbols (section_of k es)) \<and> a = section_base ?bs k + off)"
        unfolding placed_symbols_def by (auto simp: image_iff split_beta Bex_def split_paired_Ex)
      moreover have "k \<in> set ?ks" if "(n, off) \<in> set (sd_symbols (section_of k es))" for k off
        by (rule content) (use that in \<open>auto\<close>)
      ultimately show ?thesis unfolding labelled_def by blast
    qed
    have "ao_symbol_table out = insert_symbols (placed_symbols ?bs ?ks (\<lambda>k. section_of k es)) Map.empty"
      unfolding out globals_keep using flat fresh by simp
    moreover have functional: "a = b" if "(n, a) \<in> set (placed_symbols ?bs ?ks (\<lambda>k. section_of k es))"
      "(n, b) \<in> set (placed_symbols ?bs ?ks (\<lambda>k. section_of k es))" for n a b
    proof -
      from that obtain k off k' off' where "labelled es n k off" "labelled es n k' off'"
        "a = section_base ?bs k + off" "b = section_base ?bs k' + off'" unfolding mem by blast
      with unique show ?thesis by blast
    qed
    have "insert_symbols (placed_symbols ?bs ?ks (\<lambda>k. section_of k es)) Map.empty n = Some a
        \<longleftrightarrow> (n, a) \<in> set (placed_symbols ?bs ?ks (\<lambda>k. section_of k es))"
      by (rule insert_symbols_lookup) (rule functional)
    ultimately show ?thesis by (simp only: mem)
  qed
  show ?thesis
    by (rule that [OF ls _ es agree secs dist content order start syms keys kinds]) (simp_all add: ly)
qed

subsection \<open>Labels and emitted bytes\<close>

text \<open>The address at which the token after \<open>pre\<close> is placed.\<close>

definition address_of :: "assembled_output \<Rightarrow> asm_token list \<Rightarrow> nat" where
  "address_of out pre = (case positions pre of (k, len) \<Rightarrow> section_start out k + len k)"

lemma prefix_run:
  assumes "encode_tokens ly bases (pre @ t # post) (encode_init ly) = Inr es"
  obtains es0 es1 where "encode_tokens ly bases pre (encode_init ly) = Inr es0" "encode_token ly bases t es0 = Inr es1"
    "encode_tokens ly bases post es1 = Inr es" "es_kind es0 = fst (positions pre)"
    "\<And>k. length (sd_bytes (section_of k es0)) = snd (positions pre) k"
proof -
  from encode_tokens_prefix [OF assms] obtain es0 where 0: "encode_tokens ly bases pre (encode_init ly) = Inr es0"
    "encode_tokens ly bases (t # post) es0 = Inr es" .
  then obtain es1 where 1: "encode_token ly bases t es0 = Inr es1" "encode_tokens ly bases post es1 = Inr es"
    by (auto simp: abind_eq_Inr)
  have s: "section_of k (encode_init ly) = section_data_new k" for k by (simp add: section_of_def encode_init_def)
  have "es_kind es0 = fst (positions pre) \<and> (\<forall>k. length (sd_bytes (section_of k es0)) = snd (positions pre) k)"
    unfolding positions_def
  proof (rule encode_positions [OF 0(1)])
    show "es_kind (encode_init ly) = fst (Sec_Text, \<lambda>_. 0 :: nat)" by (simp add: encode_init_def)
  qed (simp add: s section_data_new_def)
  then show ?thesis using that [OF 0(1) 1] by blast
qed

lemma label_recorded:
  assumes "encode_tokens ly bases (pre @ T_Label n # post) (encode_init ly) = Inr es"
  shows "labelled es n (fst (positions pre)) (of_nat (snd (positions pre) (fst (positions pre))))"
proof -
  from prefix_run [OF assms] obtain es0 es1 where p: "encode_token ly bases (T_Label n) es0 = Inr es1"
    "encode_tokens ly bases post es1 = Inr es" "es_kind es0 = fst (positions pre)"
    "\<And>k. length (sd_bytes (section_of k es0)) = snd (positions pre) k" by metis
  from token_effectI [OF p(1)] obtain bs where "token_effect (T_Label n) es0 es1 bs" ..
  then have "labelled es1 n (fst (positions pre)) (of_nat (snd (positions pre) (fst (positions pre))))"
    by (simp add: labelled_def token_effect_def p(3,4))
  then show ?thesis using encode_grows(2) [OF p(2)] by (auto simp: labelled_def)
qed

lemma label_addresses:
  assumes "assemble_tokens (pre @ T_Label n # post) = Inr out" "list_all token_ok (pre @ T_Label n # post)"
  shows "ao_symbol_table out n = Some (of_nat (address_of out pre))"
  using assms
proof (cases rule: assembled)
  case (1 ls ly es)
  note l = label_recorded [OF 1(3)]
  then have "fst (positions pre) \<in> set (ly_section_order ly)" by (intro 1(7)) (auto simp: labelled_def)
  moreover have "ao_symbol_table out n = Some (section_base (section_bases ly) (fst (positions pre))
      + of_nat (snd (positions pre) (fst (positions pre))))" using l 1(10) by blast
  ultimately show ?thesis using 1(9) by (simp add: address_of_def split_beta)
qed

lemma take_drop_concat:
  assumes "distinct ks" "k \<in> set ks" "p + n \<le> length (f k)"
  shows "take n (drop (length (concat (map f (takeWhile (\<lambda>j. j \<noteq> k) ks))) + p) (concat (map f ks)))
    = take n (drop p (f k))"
proof -
  from split_list_first [OF assms(2)] obtain as bs where "ks = as @ k # bs" "k \<notin> set as" by blast
  moreover from this have "takeWhile (\<lambda>j. j \<noteq> k) ks = as" by (induction as arbitrary: ks) auto
  ultimately show ?thesis using assms(3) by simp
qed

subsection \<open>Words in the image\<close>

lemma to_le_bytes_Suc: "to_le_bytes (Suc n) v = ucast v # to_le_bytes n (drop_bit 8 v)"
  unfolding to_le_bytes_def upt_conv_Cons [OF zero_less_Suc]
  by (simp add: map_Suc_upt [symmetric] comp_def add.commute del: upt_Suc)

lemma from_le_to_le_bytes: "from_le_bytes (to_le_bytes n v) = take_bit (8 * n) v"
proof (induction n arbitrary: v)
  case 0
  then show ?case by (simp add: to_le_bytes_def)
next
  case (Suc n)
  show ?case unfolding to_le_bytes_Suc from_le_bytes.simps Suc
    by (rule bit_word_eqI) (auto simp: bit_simps)
qed

definition word_at :: "u8 list \<Rightarrow> nat \<Rightarrow> u32" where
  "word_at img a = ucast (from_le_bytes (take 4 (drop a img)))"

lemma word_at_bytes:
  assumes "take (length bs) (drop a img) = bs" "bs = as @ to_le_bytes 4 (ucast (w :: u32)) @ cs"
  shows "word_at img (a + length as) = w"
proof -
  have "take 4 (drop (a + length as) img) = take 4 (drop (length as) (take (length bs) (drop a img)))"
    using assms(2) by (simp add: drop_take add.commute take_take min_def to_le_bytes_def)
  also have "\<dots> = to_le_bytes 4 (ucast w)" unfolding assms(1) using assms(2) by (simp add: to_le_bytes_def)
  finally show ?thesis unfolding word_at_def by (simp add: from_le_to_le_bytes) (rule bit_word_eqI, auto simp: bit_simps)
qed

lemma token_in_image:
  assumes "assemble_tokens (pre @ t # post) = Inr out" "list_all token_ok (pre @ t # post)"
  obtains ly es0 es1 es bs where "encode_token ly (section_bases ly) t es0 = Inr es1" "token_effect t es0 es1 bs"
    "take (length bs) (drop (address_of out pre) (to_flat_binary out)) = bs"
    "es_kind es0 = fst (positions pre)" "addr_agrees (section_bases ly) es0"
    "current_offset (section_of (es_kind es0) es0) = of_nat (snd (positions pre) (fst (positions pre)))"
    "bs \<noteq> [] \<Longrightarrow> es_addr es0 = of_nat (address_of out pre)"
    "encode_tokens ly (section_bases ly) (pre @ t # post) (encode_init ly) = Inr es"
    "labels_agree (st_symbols (ly_symbols ly)) es"
    "\<And>k. sd_bytes (section_of k es) \<noteq> [] \<or> sd_symbols (section_of k es) \<noteq> [] \<Longrightarrow> k \<in> set (ly_section_order ly)"
    "\<And>k. k \<in> set (ly_section_order ly) \<Longrightarrow> section_base (section_bases ly) k = of_nat (section_start out k)"
    "map fst (section_bases ly) = ly_section_order ly" "\<And>k. k \<in> set (ly_section_order ly) \<Longrightarrow> kind_ok k"
  using assms
proof (cases rule: assembled)
  case (1 ls ly es)
  let ?k = "fst (positions pre)"
  from prefix_run [OF 1(3)] obtain es0 es1 where p: "encode_token ly (section_bases ly) t es0 = Inr es1"
    "encode_tokens ly (section_bases ly) post es1 = Inr es" "encode_tokens ly (section_bases ly) pre (encode_init ly) = Inr es0"
    "es_kind es0 = ?k" "\<And>k. length (sd_bytes (section_of k es0)) = snd (positions pre) k" by metis
  from layout_tokens_prefix [OF 1(1)] obtain ls0 where "layout_tokens pre layout_init = Inr ls0" by blast
  from passes_agree_tokens [OF this p(3) _ init_agrees] assms(2) have a: "addr_agrees (section_bases ly) es0"
    by (simp add: passes_agree_def)
  from token_effectI [OF p(1)] obtain bs where f: "token_effect t es0 es1 bs" ..
  from encode_grows(1) [OF p(2), of ?k] f p(4) obtain cs where b:
    "sd_bytes (section_of ?k es) = sd_bytes (section_of ?k es0) @ bs @ cs" by (auto simp: token_effect_def)
  have o: "current_offset (section_of ?k es0) = of_nat (snd (positions pre) ?k)" by (simp add: current_offset_def p(5))
  have m: "?k \<in> set (ly_section_order ly)" if "bs \<noteq> []" using that b by (intro 1(7)) simp
  have t: "take (length bs) (drop (address_of out pre) (to_flat_binary out)) = bs"
  proof (cases "bs = []")
    case False
    have kinds: "sd_kind (section_of k es) = Some k" for k using 1(4) by (simp add: passes_agree_def sizes_agree_def)
    have "section_start out ?k = length (concat (map (\<lambda>k. sd_bytes (section_of k es)) (takeWhile (\<lambda>j. j \<noteq> ?k) (ly_section_order ly))))"
      unfolding section_start_def 1(8) 1(5) takeWhile_map by (simp add: comp_def kinds)
    moreover have "to_flat_binary out = concat (map (\<lambda>k. sd_bytes (section_of k es)) (ly_section_order ly))"
      by (simp add: to_flat_binary_def 1(5,8) comp_def)
    ultimately show ?thesis
      using take_drop_concat [OF 1(6) m [OF False], of "snd (positions pre) ?k" "length bs" "\<lambda>k. sd_bytes (section_of k es)"]
      by (simp add: address_of_def split_beta b p(5) [symmetric])
  qed simp
  have "es_addr es0 = of_nat (address_of out pre)" if "bs \<noteq> []"
    using a o 1(9) [OF m [OF that]] p(4) by (simp add: addr_agrees_def address_of_def split_beta)
  moreover have "labels_agree (st_symbols (ly_symbols ly)) es" using 1(2,4) by (simp add: passes_agree_def)
  ultimately show ?thesis using that [OF p(1) f t p(4) a _ _ 1(3) _ 1(7) 1(9) 1(11) 1(12)] o p(4) by simp
qed

subsection \<open>Branches and jumps\<close>

lemma new_encode_decodes:
  assumes "new_encode i = Inr w"
  obtains insn where "instr_new_ok i" "decode w = Inr insn" "represents insn (real_decoded i)"
proof -
  from assms have i: "instr_new_ok i" "encode_real i = Some w"
    by (auto simp: new_encode_def unwrap_asm_eq_Inr split: if_splits)
  from encode_real_decodes [OF i(1)] i(2) obtain insn where "decode w = Inr insn" "represents insn (real_decoded i)" by auto
  with i(1) show ?thesis by (rule that)
qed

lemma canonical_inverse:
  "canonical_operands d = Ops_Branch r1 r2 off \<longleftrightarrow> di_operands d = Ops_Branch r1 r2 off"
  "canonical_operands d = Ops_Jump r off \<longleftrightarrow> di_operands d = Ops_Jump r off"
  "canonical_operands d = Ops_Immediate r1 r2 imm \<longleftrightarrow> di_operands d = Ops_Immediate r1 r2 imm"
  "canonical_operands \<lparr>di_id = i, di_operands = Ops_Branch r1 r2 off\<rparr> = Ops_Branch r1 r2 off"
  "canonical_operands \<lparr>di_id = i, di_operands = Ops_Jump r off\<rparr> = Ops_Jump r off"
  "canonical_operands \<lparr>di_id = i, di_operands = Ops_Immediate r1 r2 imm\<rparr> = Ops_Immediate r1 r2 imm"
  "canonical_operands \<lparr>di_id = i, di_operands = Ops_UpperImmediate r imm\<rparr> = Ops_UpperImmediate r (imm AND 0xFFFFF000)"
  by (auto simp: canonical_operands_def canonical_floating_def split: decoded_operands.splits option.splits)

lemma narrow_offset:
  fixes x :: i64
  assumes "- (2 ^ 31) \<le> sint x" "sint x < 2 ^ 31"
  shows "scast (ucast x :: i32) = x"
proof -
  have "sint (word_of_int i :: i32) = i" if "- (2 ^ 31) \<le> i" "i < 2 ^ 31" for i
    using that by (simp add: signed_of_int signed_take_bit_int_eq_self_iff)
  from this [OF assms] have "sint (word_of_int (sint x) :: i32) = sint x" .
  moreover have "(ucast x :: i32) = word_of_int (sint x)"
    by (rule bit_word_eqI) (auto simp: bit_simps)
  ultimately have "(scast (ucast x :: i32) :: i64) = word_of_int (sint x)" by (simp only: scast_eq)
  then show ?thesis by simp
qed

text \<open>What a pass has to resolve: labels by position.\<close>

lemma local_label:
  assumes "labels_agree symbols es" "encode_tokens ly bs (pre @ T_Label n # post) (encode_init ly) = Inr es"
    and "symbols = st_symbols tab"
  shows "resolve_section_local n (fst (positions pre)) tab = Some (of_nat (snd (positions pre) (fst (positions pre))))"
proof -
  note l = label_recorded [OF assms(2)]
  with assms(1) have "CHR ''@'' \<notin> set n" unfolding labels_agree_def by blast
  with assms(1) l have "symbols (n @ ''@'' @ section_name (fst (positions pre))) = Some (of_nat (snd (positions pre) (fst (positions pre))))"
    unfolding labels_agree_def by blast
  with assms(3) show ?thesis by (simp add: resolve_section_local_def sym_resolve_def qualified_name_def)
qed

lemma effect_bytes:
  assumes "token_effect t es es' bs" "section_of (es_kind es) es' = push_bytes bs' (section_of (es_kind es) es)"
  shows "bs = bs'"
proof -
  from assms(1) have "sd_bytes (section_of (es_kind es) es') = sd_bytes (section_of (es_kind es) es) @ bs"
    by (simp add: token_effect_def)
  with assms(2) show ?thesis by simp
qed

lemma word_in_image:
  assumes "token_effect t es (push_word w (recorded es)) bs" "take (length bs) (drop a img) = bs"
  shows "word_at img a = w"
proof -
  have "bs = to_le_bytes 4 (ucast w)" by (rule effect_bytes [OF assms(1)]) (simp add: push_defs)
  with word_at_bytes [OF assms(2), of "[]" w "[]"] show ?thesis by simp
qed

lemma branch_reaches:
  assumes "assemble_tokens ts = Inr out" "list_all token_ok ts"
    and site: "ts = pre @ T_Branch bk rs1 rs2 target # post" and label: "ts = pre' @ T_Label target # post'"
    and same: "fst (positions pre') = fst (positions pre)"
  shows "\<exists>insn off. decode (word_at (to_flat_binary out) (address_of out pre)) = Inr insn
    \<and> insn_id insn = Some (Base (branch_id bk)) \<and> insn_operands insn = Ops_Branch (IntReg rs1) (IntReg rs2) off
    \<and> of_nat (address_of out pre) + scast off = (of_nat (address_of out pre') :: u64)"
  using assms(1,2) unfolding site
proof (cases rule: token_in_image)
  case (1 ly es0 es1 es bs)
  let ?off = "of_nat (snd (positions pre') (fst (positions pre))) - of_nat (snd (positions pre) (fst (positions pre))) :: u64"
  have loc: "resolve_section_local target (es_kind es0) (ly_symbols ly) = Some (of_nat (snd (positions pre') (fst (positions pre))))"
    using local_label [OF 1(9) 1(8) [folded site, unfolded label] refl] by (simp add: same 1(4))
  have local_site: "es_addr es0 - section_base (section_bases ly) (es_kind es0) = of_nat (snd (positions pre) (fst (positions pre)))"
    using 1(5,6) by (simp add: addr_agrees_def)
  from 1(1) obtain w where b: "encode_branch bk rs1 rs2 target (es_addr es0 - section_base (section_bases ly) (es_kind es0))
      (es_kind es0) (ly_symbols ly) = Inr w" and es1: "es1 = push_word w (recorded es0)"
    by (auto simp: abind_eq_Inr)
  from b have range: "- 4096 \<le> sint ?off" "sint ?off \<le> 4094" and w: "new_encode (RI_Branch (branch_id bk) rs1 rs2 (ucast ?off)) = Inr w"
    unfolding encode_branch_def loc local_site by (auto simp: Let_def split: if_splits)
  from new_encode_decodes [OF w] obtain insn where i: "decode w = Inr insn"
    "represents insn (real_decoded (RI_Branch (branch_id bk) rs1 rs2 (ucast ?off)))" .
  from word_in_image [OF 1(2) [unfolded es1] 1(3)] have "word_at (to_flat_binary out) (address_of out pre) = w" .
  moreover have "(scast (ucast ?off :: i32) :: u64) = ?off" using range by (intro narrow_offset) simp_all
  then have "of_nat (address_of out pre) + scast (ucast ?off :: i32) = (of_nat (address_of out pre') :: u64)"
    by (simp add: address_of_def split_beta same)
  ultimately show ?thesis using i by (auto simp: represents_def canonical_inverse)
qed

lemma jump_reaches:
  assumes "assemble_tokens ts = Inr out" "list_all token_ok ts"
    and site: "ts = pre @ T_Jal rd target # post" and label: "ts = pre' @ T_Label target # post'"
    and same: "fst (positions pre') = fst (positions pre)"
  defines "d \<equiv> of_nat (address_of out pre') - of_nat (address_of out pre) :: u64"
  assumes range: "d AND 1 = 0" "- 1048576 \<le> sint d" "sint d \<le> 1048574"
  shows "\<exists>insn off. decode (word_at (to_flat_binary out) (address_of out pre)) = Inr insn
    \<and> insn_id insn = Some (Base Jal) \<and> insn_operands insn = Ops_Jump (IntReg rd) off
    \<and> of_nat (address_of out pre) + scast off = (of_nat (address_of out pre') :: u64)"
  using assms(1,2) unfolding site
proof (cases rule: token_in_image)
  case (1 ly es0 es1 es bs)
  have d: "d = of_nat (snd (positions pre') (fst (positions pre))) - of_nat (snd (positions pre) (fst (positions pre)))"
    by (simp add: d_def address_of_def split_beta same)
  have loc: "resolve_section_local target (es_kind es0) (ly_symbols ly) = Some (of_nat (snd (positions pre') (fst (positions pre))))"
    using local_label [OF 1(9) 1(8) [folded site, unfolded label] refl] by (simp add: same 1(4))
  have local_site: "es_addr es0 - section_base (section_bases ly) (es_kind es0) = of_nat (snd (positions pre) (fst (positions pre)))"
    using 1(5,6) by (simp add: addr_agrees_def)
  have e: "encode_jal rd target (es_addr es0 - section_base (section_bases ly) (es_kind es0)) (es_kind es0) (ly_symbols ly)
      = new_encode (RI_Jal rd (ucast d))"
    unfolding encode_jal_def loc local_site option.case d [symmetric] Let_def using range by simp
  have "new_encode i \<noteq> Inl (AssemblerError m)" for i m by (auto simp: new_encode_def unwrap_asm_def split: option.splits)
  with 1(1) obtain w where w: "new_encode (RI_Jal rd (ucast d)) = Inr w" and es1: "es1 = push_word w (recorded es0)"
    by (auto simp: e split: sum.splits asm_failure.splits)
  from new_encode_decodes [OF w] obtain insn where i: "decode w = Inr insn" "represents insn (real_decoded (RI_Jal rd (ucast d)))" .
  from word_in_image [OF 1(2) [unfolded es1] 1(3)] have "word_at (to_flat_binary out) (address_of out pre) = w" .
  moreover have "(scast (ucast d :: i32) :: u64) = d" using range by (intro narrow_offset) simp_all
  then have "of_nat (address_of out pre) + scast (ucast d :: i32) = (of_nat (address_of out pre') :: u64)" by (simp add: d_def)
  ultimately show ?thesis using i by (auto simp: represents_def canonical_inverse)
qed

end
