(* ===== verification/Asm_Calls.thy ===== *)
theory Asm_Calls
  imports Asm_Correct
begin

text \<open>
  Calls: \<open>call\<close> and \<open>tail\<close> become \<open>auipc\<close> and \<open>jalr\<close> whose immediates add up to the distance of the label,
  and the machine's decoder reads exactly these two instructions.
\<close>

subsection \<open>Calls\<close>

lemma absolute_label:
  assumes "labels_agree (st_symbols tab) es" "labelled es n k off" "map_of bases k = Some b"
    and "kind_ok k" "\<And>j. j \<in> set (map fst bases) \<Longrightarrow> kind_ok j"
  shows "resolve_absolute_symbol n tab bases = Some (b + off)"
proof -
  from assms(1,2) have at: "CHR ''@'' \<notin> set n" unfolding labels_agree_def by blast
  have plain: "st_symbols tab n = Some off" using assms(1,2) at unfolding labels_agree_def by blast
  have q: "st_symbols tab (qualified_name n j) = Some z \<longleftrightarrow> (\<exists>i. section_name i = section_name j \<and> labelled es n i z)" for j z
    using assms(1) at unfolding labels_agree_def qualified_name_def by blast
  have only: "i = k \<and> z = off" if "labelled es n i z" for i z
    using assms(1,2) that unfolding labels_agree_def by blast
  have dom: "st_symbols tab (qualified_name n j) \<noteq> None \<longleftrightarrow> j = k" if "kind_ok j" for j
  proof
    assume "st_symbols tab (qualified_name n j) \<noteq> None"
    then obtain i z where "section_name i = section_name j" "labelled es n i z" using q by auto
    with only section_name_inject [OF assms(4) that] show "j = k" by auto
  next
    assume "j = k"
    with q [of k off] assms(2) show "st_symbols tab (qualified_name n j) \<noteq> None" by auto
  qed
  have "find (\<lambda>(j, base). st_symbols tab (qualified_name n j) \<noteq> None) bases = Some (k, b)"
    using assms(3,5)
  proof (induction bases)
    case (Cons p bases)
    obtain j c where p: "p = (j, c)" by (cases p)
    with Cons.prems(2) [of j] dom [of j] have d: "st_symbols tab (qualified_name n j) \<noteq> None \<longleftrightarrow> j = k" by simp
    have "find (\<lambda>(j, base). st_symbols tab (qualified_name n j) \<noteq> None) bases = Some (k, b)" if "j \<noteq> k"
      using Cons.IH Cons.prems that by (simp add: p)
    with Cons.prems(1) d show ?case by (auto simp: p split: if_splits)
  qed simp
  moreover have "st_symbols tab (qualified_name n k) = Some off" using q assms(2) by blast
  ultimately show ?thesis by (simp add: resolve_absolute_symbol_def plain)
qed

lemma decode_upper:
  assumes "encode_upper_immediate (Upper k) (IntReg rd) imm = Inr w" "rd < 32"
  shows "decode w = insn_of_upper w \<lparr>di_id = Upper k, di_operands = Ops_UpperImmediate (IntReg rd) (imm AND 0xFFFFF000)\<rparr>"
proof -
  from assms(1) obtain s where s: "s \<in> set UPPER_IMMEDIATE_SPECS" "spec_id s = Upper k"
    and w: "w = (imm AND 0xFFFFF000) OR push_bit 7 (ucast (reg_number (IntReg rd))) OR spec_match_bits s"
    by (auto simp: encode_upper_immediate_def split: option.splits dest: upper_table.find_id_SomeD)
  have "reg_ok (IntReg rd)" using assms(2) by (simp add: reg_ok_def)
  note f = upper_word [OF s(1) this w]
  from upper_table.find_match [OF s(1) f(1)] f(2,3) s(2)
  show ?thesis by (simp add: decode_def decode_upper_immediate_def)
qed

lemma decode_auipc:
  assumes "new_encode (RI_Upper Auipc rd imm) = Inr w"
  shows "decode w = Inr (D_Auipc (unat rd) (scast (imm AND 0xFFFFF000)))"
proof -
  from assms have "rd < 32" "encode_upper_immediate (Upper Auipc) (IntReg rd) imm = Inr w"
    by (auto simp: new_encode_def unwrap_asm_eq_Inr int_reg_new_def unwrap_word_def split: if_splits sum.splits)
  with decode_upper [of Auipc rd imm w] show ?thesis by (simp add: insn_of_upper_def)
qed

lemma decoder_identities:
  "decode_upper_immediate w = Inr d \<Longrightarrow> \<exists>i. di_id d = Upper i"
  "decode_register_register w = Inr d \<Longrightarrow> \<exists>i. di_id d = Rr i"
  "decode_base_integer w = Inr d \<Longrightarrow> \<exists>i. di_id d = Base i"
  "decode_atomic w = Inr d \<Longrightarrow> \<exists>i. di_id d = Atomic i"
  "decode_floating w = Inr d \<Longrightarrow> \<exists>i. di_id d = Fp i"
proof -
  have u: "\<exists>i. spec_id s = Upper i" if "s \<in> set UPPER_IMMEDIATE_SPECS" for s
    using that by (auto simp: UPPER_IMMEDIATE_SPECS_def upper_immediate_spec_def)
  have r: "\<exists>i. spec_id s = Rr i" if "s \<in> set REGISTER_REGISTER_SPECS" for s
    using that by (auto simp: REGISTER_REGISTER_SPECS_def register_register_spec_def)
  have b: "\<exists>i. spec_id s = Base i" if "s \<in> set BASE_INTEGER_SPECS" for s
    using that by (auto simp: BASE_INTEGER_SPECS_def base_integer_spec_def)
  have a: "\<exists>i. spec_id s = Atomic i" if "s \<in> set ATOMIC_SPECS" for s
    using that by (auto simp: ATOMIC_SPECS_def atomic_spec_def)
  have f: "\<exists>i. spec_id s = Fp i" if "s \<in> set FLOATING_SPECS" for s
    using that by (auto simp: FLOATING_SPECS_def floating_spec_def)
  show "decode_upper_immediate w = Inr d \<Longrightarrow> \<exists>i. di_id d = Upper i"
    using u by (auto simp: decode_upper_immediate_def split: option.splits dest!: find_SomeD)
  show "decode_register_register w = Inr d \<Longrightarrow> \<exists>i. di_id d = Rr i"
    using r by (auto simp: decode_register_register_def split: option.splits dest!: find_SomeD)
  show "decode_base_integer w = Inr d \<Longrightarrow> \<exists>i. di_id d = Base i"
    using b by (auto simp: decode_base_integer_def split: option.splits dest!: find_SomeD)
  show "decode_atomic w = Inr d \<Longrightarrow> \<exists>i. di_id d = Atomic i"
    using a by (auto simp: decode_atomic_def split: option.splits dest!: find_SomeD)
  show "decode_floating w = Inr d \<Longrightarrow> \<exists>i. di_id d = Fp i"
    using f by (auto simp: decode_floating_def Let_def split: option.splits if_splits dest!: find_SomeD)
qed

lemma base_decoded:
  assumes "decode_instruction w = Inr d" "di_id d = Base i"
  shows "decode w = insn_of_base w d"
proof -
  note ids = decoder_identities [of w]
  obtain e1 where u: "decode_upper_immediate w = Inl e1"
    using assms ids(1) by (cases "decode_upper_immediate w") (auto simp: decode_instruction_def or_else_def)
  obtain e2 where r: "decode_register_register w = Inl e2"
    using assms ids(2) u by (cases "decode_register_register w") (auto simp: decode_instruction_def or_else_def)
  have "decode_base_integer w = Inr d"
    using assms ids(4,5) u r by (cases "decode_base_integer w"; cases "decode_atomic w"; cases "decode_floating w")
      (auto simp: decode_instruction_def or_else_def)
  with u r show ?thesis by (simp add: decode_def)
qed

lemma decode_jalr:
  assumes "new_encode (RI_Jalr rd rs1 imm) = Inr w"
  shows "decode w = Inr (D_Jalr (unat rd) (unat rs1) (scast imm))"
proof -
  from assms have e: "encode_base_integer (Base Jalr) (Ops_Immediate (IntReg rd) (IntReg rs1) imm) = Inr w" "rd < 32" "rs1 < 32"
    by (auto simp: new_encode_def unwrap_asm_eq_Inr int_reg_new_def unwrap_word_def encode_immediate_def split: if_splits sum.splits)
  from imm_encode_decode [OF e(1)] e(2,3)
  have d: "decode_instruction w = Inr \<lparr>di_id = Base Jalr, di_operands = Ops_Immediate (IntReg rd) (IntReg rs1) imm\<rparr>"
    by (simp add: reg_ok_def)
  from base_decoded [OF d] show ?thesis by (simp add: insn_of_base_def)
qed

lemma pcrel_reaches:
  assumes "- (2 ^ 31) - 2048 \<le> sint d" "sint d < 2 ^ 31 - 2048" "pcrel_split d = (hi, lo)"
  shows "scast (push_bit 12 hi AND 0xFFFFF000 :: i32) + scast lo = (d :: i64)"
proof -
  from pcrel_split_exact [OF assms(1,2)] assms(3) have s: "sint hi * 4096 + sint lo = sint d" "- (2 ^ 19) \<le> sint hi" "sint hi < 2 ^ 19" by auto
  have m: "push_bit 12 hi AND 0xFFFFF000 = push_bit 12 hi"
  proof -
    have "(0xFFFFF000 :: u32) = NOT (mask 12)" by (simp add: mask_eq_exp_minus_1)
    moreover have "push_bit 12 hi AND NOT (mask 12) = push_bit 12 hi" by (rule bit_word_eqI) (auto simp: bit_simps)
    ultimately show ?thesis by (simp only:)
  qed
  have r: "sint (word_of_int i :: i32) = i" if "- (2 ^ 31) \<le> i" "i < 2 ^ 31" for i
    using that by (simp add: signed_of_int signed_take_bit_int_eq_self_iff)
  have p: "push_bit 12 hi = word_of_int (sint hi * 4096)" by (simp add: push_bit_eq_mult)
  have h: "sint (push_bit 12 hi) = sint hi * 4096" unfolding p by (rule r) (use s(2,3) in simp_all)
  have "scast x + scast y = (word_of_int (sint x + sint y) :: i64)" for x y :: i32 by (simp only: scast_eq of_int_add)
  from this [of "push_bit 12 hi" lo] show ?thesis unfolding m h s(1) by simp
qed

text \<open>The two words of a \<open>call\<close> or \<open>tail\<close> to a label of the same program.\<close>

lemma far_jump_words:
  assumes "encode_far_jump link tmp sec symbol addr tab bases k = Inr (sec', rs)"
    and "resolve_absolute_symbol symbol tab bases = Some (addr + d)" "- (2 ^ 31) - 2048 \<le> sint d" "sint d < 2 ^ 31 - 2048"
  obtains w1 w2 hi lo where "sec' = push_bytes (to_le_bytes 4 (ucast w1) @ to_le_bytes 4 (ucast w2)) sec"
    "decode w1 = Inr (D_Auipc (unat tmp) hi)" "decode w2 = Inr (D_Jalr (unat link) (unat tmp) lo)" "hi + lo = d"
proof -
  obtain h l where hl: "pcrel_split d = (h, l)" by (cases "pcrel_split d")
  from assms(1,2) hl obtain w1 w2 where w: "new_encode (RI_Upper Auipc tmp (push_bit 12 h)) = Inr w1"
    "new_encode (RI_Jalr link tmp l) = Inr w2" "sec' = push_u32_le w2 (push_u32_le w1 sec)"
    by (auto simp: encode_far_jump_def pcrel_offsets_def push_pair_def abind_eq_Inr)
  show ?thesis
    by (rule that [OF _ decode_auipc [OF w(1)] decode_jalr [OF w(2)] pcrel_reaches [OF assms(3,4) hl]])
      (simp add: w(3) push_u32_le_def push_bytes_def)
qed

lemma call_reaches:
  assumes "assemble_tokens ts = Inr out" "list_all token_ok ts"
    and site: "ts = pre @ t # post" and label: "ts = pre' @ T_Label target # post'"
    and t: "t = T_Call target \<and> link = (1 :: u8) \<and> tmp = (1 :: u8) \<or> t = T_Tail target \<and> link = 0 \<and> tmp = 6"
  defines "d \<equiv> of_nat (address_of out pre') - of_nat (address_of out pre) :: u64"
  assumes near: "- (2 ^ 31) - 2048 \<le> sint d" "sint d < 2 ^ 31 - 2048"
  shows "\<exists>hi lo. decode (word_at (to_flat_binary out) (address_of out pre)) = Inr (D_Auipc (unat tmp) hi)
    \<and> decode (word_at (to_flat_binary out) (address_of out pre + 4)) = Inr (D_Jalr (unat link) (unat tmp) lo)
    \<and> of_nat (address_of out pre) + hi + lo = (of_nat (address_of out pre') :: u64)"
  using assms(1,2) unfolding site
proof (cases rule: token_in_image)
  case (1 ly es0 es1 es bs)
  let ?j = "fst (positions pre')"
  note l = label_recorded [OF 1(8) [folded site, unfolded label]]
  then have j: "?j \<in> set (ly_section_order ly)" by (intro 1(10)) (auto simp: labelled_def)
  then obtain b where "map_of (section_bases ly) ?j = Some b" using 1(12) by (metis map_of_eq_None_iff not_None_eq set_map)
  from absolute_label [OF 1(9) l this 1(13) [OF j]] 1(13) have "resolve_absolute_symbol target (ly_symbols ly) (section_bases ly)
      = Some (b + of_nat (snd (positions pre') ?j))" by (simp add: 1(12))
  moreover have "b = of_nat (section_start out ?j)" using 1(11) [OF j] \<open>map_of (section_bases ly) ?j = Some b\<close>
    by (simp add: section_base_def)
  ultimately have res: "resolve_absolute_symbol target (ly_symbols ly) (section_bases ly) = Some (of_nat (address_of out pre'))"
    by (simp add: address_of_def split_beta)
  have "bs \<noteq> []" using 1(2) t by (auto simp: token_effect_def)
  with 1(7) have addr: "es_addr es0 = of_nat (address_of out pre)" by simp
  with res have res: "resolve_absolute_symbol target (ly_symbols ly) (section_bases ly) = Some (es_addr es0 + d)" by (simp add: d_def)
  from 1(1) t obtain sec rs where e: "encode_far_jump link tmp (section_of (es_kind es0) es0) target (es_addr es0) (ly_symbols ly)
      (section_bases ly) (es_kind es0) = Inr (sec, rs)" and es1: "es1 = add_relocations rs (advance sec 8 (recorded es0))"
    by (auto simp: abind_eq_Inr encode_call_def encode_tail_def)
  from far_jump_words [OF e res near] obtain w1 w2 hi lo where w: "sec = push_bytes (to_le_bytes 4 (ucast w1) @ to_le_bytes 4 (ucast w2))
      (section_of (es_kind es0) es0)" "decode w1 = Inr (D_Auipc (unat tmp) hi)" "decode w2 = Inr (D_Jalr (unat link) (unat tmp) lo)"
    "hi + lo = d" .
  have bs: "bs = to_le_bytes 4 (ucast w1) @ to_le_bytes 4 (ucast w2)"
    by (rule effect_bytes [OF 1(2)]) (simp add: es1 w(1))
  have "word_at (to_flat_binary out) (address_of out pre) = w1" using word_at_bytes [OF 1(3), of "[]"] bs by simp
  moreover have "word_at (to_flat_binary out) (address_of out pre + 4) = w2"
    using word_at_bytes [OF 1(3), of "to_le_bytes 4 (ucast w1)" w2 "[]"] bs by (simp add: to_le_bytes_def)
  ultimately show ?thesis using w(2-4) by (auto simp: d_def add.assoc)
qed

end
