(* ===== verification/Asm_Image.thy ===== *)
theory Asm_Image
  imports Asm_Calls Machine_Correct
begin

text \<open>
  From the token list to the running machine: the ELF file the writer emits is parsed by the loader as one
  segment, and loading it puts the image at the start of RAM with the program counter at the entry label.
  The last part states what the assembler guarantees for whole programs.
\<close>

subsection \<open>The file as the parser reads it\<close>

lemma place_sections_result:
  "map xs_sec (fst (place_sections secs r)) = secs"
  "snd (place_sections secs r) = r + of_nat (length (concat (map sd_bytes secs)))"
proof -
  have "map xs_sec (fst (place_sections secs r)) = secs \<and> snd (place_sections secs r) = r + of_nat (length (concat (map sd_bytes secs)))"
    by (induction secs arbitrary: r) (simp_all add: split_beta)
  then show "map xs_sec (fst (place_sections secs r)) = secs"
    "snd (place_sections secs r) = r + of_nat (length (concat (map sd_bytes secs)))" by simp_all
qed

lemma file_offsets_result: "snd (file_offsets ess start) = start + of_nat (length (file_bytes (map xs_sec ess)))"
  by (induction ess arbitrary: start) (simp_all add: file_bytes_def split_beta)

text \<open>The memory an image describes: the sections in load order, with zeros for \<open>.bss\<close>.\<close>

definition memory_image :: "assembled_output \<Rightarrow> u8 list" where
  "memory_image out =
     concat (map (\<lambda>s. if is_bss s then replicate (length (sd_bytes s)) 0 else sd_bytes s) (load_order out))"

lemma memory_image_split:
  "memory_image out = file_bytes (load_order out)
     @ replicate (length (to_flat_binary out) - length (file_bytes (load_order out))) 0"
  "length (file_bytes (load_order out)) \<le> length (to_flat_binary out)"
proof -
  let ?f = "\<lambda>s. if is_bss s then replicate (length (sd_bytes s)) 0 else sd_bytes s"
  have z: "concat (map ?f xs) = replicate (length (concat (map sd_bytes xs))) 0 \<and> file_bytes xs = []" if "\<forall>s \<in> set xs. is_bss s" for xs
    using that by (induction xs) (simp_all add: file_bytes_def replicate_add [symmetric])
  have n: "concat (map ?f xs) = concat (map sd_bytes xs) \<and> file_bytes xs = concat (map sd_bytes xs)" if "\<forall>s \<in> set xs. \<not> is_bss s" for xs
    using that by (induction xs) (simp_all add: file_bytes_def)
  let ?a = "filter (\<lambda>s. sd_kind s \<noteq> None \<and> \<not> is_bss s) (ao_sections out)" and ?b = "filter is_bss (ao_sections out)"
  have f: "file_bytes (?a @ ?b) = file_bytes ?a @ file_bytes ?b" by (simp add: file_bytes_def)
  show "memory_image out = file_bytes (load_order out)
     @ replicate (length (to_flat_binary out) - length (file_bytes (load_order out))) 0"
    "length (file_bytes (load_order out)) \<le> length (to_flat_binary out)"
    using n [of ?a] z [of ?b] unfolding memory_image_def to_flat_binary_def load_order_def f by simp_all
qed

lemma elf_parts:
  obtains so ns np rest where "to_elf_with_candidates iter out base cands =
     elf_header (entry_address out base (fst (place_sections (load_order out) base)) cands) so ns np
     @ program_header 0x1000 base (of_nat (length (file_bytes (load_order out)))) (of_nat (length (to_flat_binary out)))
     @ replicate 3976 0 @ file_bytes (load_order out) @ rest"
proof -
  note p = place_sections_result [of "load_order out" base]
  have "snd (file_offsets (fst (place_sections (load_order out) base)) 0x1000) - 0x1000 = of_nat (length (file_bytes (load_order out)))"
    by (simp add: file_offsets_result p)
  moreover have "snd (place_sections (load_order out) base) - base = of_nat (length (to_flat_binary out))"
    by (simp add: p to_flat_binary_def)
  moreover have "(ELF64_HDR_SIZE + ELF64_PHDR_SIZE * 1 + ELF_PAGE_SIZE - 1) AND NOT (ELF_PAGE_SIZE - 1) = 0x1000" by simp
  moreover have "unat (0x1000 - (ELF64_HDR_SIZE + ELF64_PHDR_SIZE * 1)) = 3976" by simp
  ultimately show ?thesis
    by (intro that) (simp only: to_elf_with_candidates_def Let_def split_beta p)
qed

lemma header_reads:
  assumes bytes_def: "bytes = elf_header entry so ns np @ program_header off base fsz msz @ tl_bytes"
  shows "take 4 bytes = [0x7F, 0x45, 0x4C, 0x46]" "bytes ! 4 = 2" "bytes ! 5 = 1" "length bytes = 120 + length tl_bytes"
    "le_at bytes 24 8 = entry" "le_at bytes 32 8 = 64" "le_at bytes 54 2 = 56" "le_at bytes 56 2 = 1"
    "le_at bytes 64 4 = 1" "le_at bytes 72 8 = off" "le_at bytes 80 8 = base" "le_at bytes 96 8 = fsz" "le_at bytes 104 8 = msz"
proof -
  note d = bytes_def elf_header_def program_header_def
  show "take 4 bytes = [0x7F, 0x45, 0x4C, 0x46]" "bytes ! 4 = 2" "bytes ! 5 = 1" "length bytes = 120 + length tl_bytes"
    by (simp_all add: d)
  show "le_at bytes 24 8 = entry" "le_at bytes 32 8 = 64" "le_at bytes 54 2 = 56" "le_at bytes 56 2 = 1"
    "le_at bytes 64 4 = 1" "le_at bytes 72 8 = off" "le_at bytes 80 8 = base" "le_at bytes 96 8 = fsz" "le_at bytes 104 8 = msz"
    by (simp_all add: d le_at_def from_le_to_le_bytes take_bit_word_eq_self)
qed

lemma parse_written:
  assumes "length (to_elf_with_candidates iter out base cands) < 2 ^ 64"
  shows "parse (to_elf_with_candidates iter out base cands)
    = Inr \<lparr>entry_point = entry_address out base (fst (place_sections (load_order out) base)) cands,
           load_segments = [\<lparr>seg_offset = 0x1000, seg_vaddr = base,
             seg_file_size = of_nat (length (file_bytes (load_order out))), seg_mem_size = of_nat (length (to_flat_binary out))\<rparr>]\<rparr>"
proof -
  from elf_parts obtain so ns np rest where e: "to_elf_with_candidates iter out base cands =
     elf_header (entry_address out base (fst (place_sections (load_order out) base)) cands) so ns np
     @ program_header 0x1000 base (of_nat (length (file_bytes (load_order out)))) (of_nat (length (to_flat_binary out)))
     @ replicate 3976 0 @ file_bytes (load_order out) @ rest" .
  note r = header_reads [OF e]
  have h: "elf_phentsize (to_elf_with_candidates iter out base cands) = 56" "elf_phnum (to_elf_with_candidates iter out base cands) = 1"
    by (simp_all add: elf_phentsize_def elf_phnum_def r)
  have hs: "elf_headers (to_elf_with_candidates iter out base cands) = [64]"
    by (simp add: elf_headers_def h r ph_pos_def)
  have "elf_valid (to_elf_with_candidates iter out base cands)"
    by (simp add: elf_valid_def r h hs)
  moreover have "loadable_at (to_elf_with_candidates iter out base cands) 64" by (simp add: loadable_at_def r)
  ultimately show ?thesis by (simp add: parse_eq [OF assms] hs segment_at_def r)
qed

lemma written_segment:
  assumes "length (to_elf_with_candidates iter out base cands) < 2 ^ 64" "length (to_flat_binary out) \<le> RAM_SIZE_DEFAULT"
  defines "seg \<equiv> \<lparr>seg_offset = 0x1000, seg_vaddr = base,
    seg_file_size = of_nat (length (file_bytes (load_order out))), seg_mem_size = of_nat (length (to_flat_binary out))\<rparr>"
  shows "segment_fits (to_elf_with_candidates iter out base cands) base seg"
    and "segment_image (to_elf_with_candidates iter out base cands) seg = memory_image out"
proof -
  from elf_parts obtain so ns np rest where e: "to_elf_with_candidates iter out base cands =
     elf_header (entry_address out base (fst (place_sections (load_order out) base)) cands) so ns np
     @ program_header 0x1000 base (of_nat (length (file_bytes (load_order out)))) (of_nat (length (to_flat_binary out)))
     @ replicate 3976 0 @ file_bytes (load_order out) @ rest" .
  have sz: "length (to_flat_binary out) < 2 ^ 64" "length (file_bytes (load_order out)) \<le> length (to_flat_binary out)"
    using assms(2) memory_image_split(2) [of out] by simp_all
  then have u: "unat (of_nat (length (to_flat_binary out)) :: u64) = length (to_flat_binary out)"
    "unat (of_nat (length (file_bytes (load_order out))) :: u64) = length (file_bytes (load_order out))"
    by (simp_all add: unat_of_nat)
  have len: "length (elf_header en so ns np) = 64" "length (program_header a b c d) = 56" for en a b c d
    by (simp_all add: elf_header_def program_header_def)
  have dr: "drop 0x1000 (to_elf_with_candidates iter out base cands) = file_bytes (load_order out) @ rest"
    unfolding e by (simp add: len)
  show "segment_fits (to_elf_with_candidates iter out base cands) base seg"
    using sz assms(2) by (simp add: segment_fits_def seg_def u word_le_nat_alt e len)
  show "segment_image (to_elf_with_candidates iter out base cands) seg = memory_image out"
    using dr by (simp add: segment_image_def seg_def u memory_image_split(1))
qed

text \<open>RAM after the store of a byte list.\<close>

lemma flat_store_other:
  assumes "\<And>j. j < length bs \<Longrightarrow> x \<noteq> a + of_nat j"
  shows "flat_store m a bs x = m x"
  using assms
proof (induction bs arbitrary: m a)
  case (Cons b bs)
  have "x \<noteq> a" using Cons.prems [of 0] by simp
  have "x \<noteq> a + 1 + of_nat j" if "j < length bs" for j
    using Cons.prems [of "Suc j"] that by (simp add: add.assoc)
  then have "flat_store (m(a \<mapsto> b)) (a + 1) bs x = (m(a \<mapsto> b)) x" by (rule Cons.IH)
  with \<open>x \<noteq> a\<close> show ?case by simp
qed simp

lemma flat_store_at:
  assumes "i < length bs" "length bs < 2 ^ 64"
  shows "flat_store m a bs (a + of_nat i) = Some (bs ! i)"
  using assms
proof (induction bs arbitrary: m a i)
  case (Cons b bs)
  show ?case
  proof (cases i)
    case 0
    have "a \<noteq> a + 1 + of_nat j" if "j < length bs" for j
    proof
      assume "a = a + 1 + of_nat j"
      then have "(of_nat (Suc j) :: u64) = 0" by (simp add: add.assoc)
      then have "2 ^ 64 dvd Suc j" by (simp only: word_of_nat_eq_0_iff) simp
      with that Cons.prems show False by (auto dest!: dvd_imp_le)
    qed
    then have "flat_store (m(a \<mapsto> b)) (a + 1) bs a = (m(a \<mapsto> b)) a" by (rule flat_store_other)
    with 0 show ?thesis by simp
  next
    case (Suc j)
    have "flat_store (m(a \<mapsto> b)) (a + 1) bs (a + 1 + of_nat j) = Some (bs ! j)"
      by (rule Cons.IH) (use Suc Cons.prems in simp_all)
    then show ?thesis by (simp add: Suc add.assoc)
  qed
qed simp

subsection \<open>From tokens to RAM\<close>

lemma program_loads:
  assumes len: "length (to_elf_with_candidates iter out base cands) < 2 ^ 64" and small: "length (to_flat_binary out) \<le> 0x1FFFFF8"
  shows "\<exists>b. load_elf rom_image (to_elf_with_candidates iter out base cands) = Inr \<lparr>le_bus = b,
      start_pc = RAM_BASE + (entry_address out base (fst (place_sections (load_order out) base)) cands - base),
      stack_ptr = 0x87FFFFF0\<rparr>
    \<and> (\<forall>i < length (to_flat_binary out). hier_peek_byte_raw (l1_cache b) (RAM_BASE + of_nat i) = Some (memory_image out ! i))"
proof -
  let ?f = "to_elf_with_candidates iter out base cands"
  let ?seg = "\<lparr>seg_offset = 0x1000, seg_vaddr = base,
    seg_file_size = of_nat (length (file_bytes (load_order out))), seg_mem_size = of_nat (length (to_flat_binary out))\<rparr>"
  have fit: "length (to_flat_binary out) \<le> RAM_SIZE_DEFAULT" using small by simp
  note seg = written_segment [OF len fit]
  have ib: "image_base_of [?seg] = base" by (simp add: image_base_of_def)
  from load_elf_ok [OF len parse_written [OF len], of rom_image] seg(1) obtain b where
    b: "load_elf rom_image ?f = Inr \<lparr>le_bus = b,
      start_pc = RAM_BASE + (entry_address out base (fst (place_sections (load_order out) base)) cands - base),
      stack_ptr = 0x87FFFFF0\<rparr>" and v: "bus_view b = loaded_ram ?f [?seg]" by (auto simp: ib)
  have l: "length (memory_image out) = length (to_flat_binary out)"
    using memory_image_split [of out] by simp
  have "hier_peek_byte_raw (l1_cache b) (RAM_BASE + of_nat i) = Some (memory_image out ! i)" if i: "i < length (to_flat_binary out)" for i
  proof -
    let ?m = "flat_store (ram_peek_byte (ram_new RAM_BASE RAM_SIZE_DEFAULT)) RAM_BASE (memory_image out)"
    have ram: "store_segments ?f base [?seg] (ram_peek_byte (ram_new RAM_BASE RAM_SIZE_DEFAULT)) = ?m"
      by (simp add: store_segments_def mapped_vaddr_def seg(2))
    have away: "RAM_BASE + of_nat i \<noteq> HEAP_PTR_ADDR + of_nat j" if "j < 8" for j
    proof
      assume "RAM_BASE + of_nat i = HEAP_PTR_ADDR + of_nat j"
      then have "(of_nat i :: u64) = of_nat (0x1FFFFF8 + j)" by (simp add: algebra_simps)
      moreover have "i < 2 ^ LENGTH(64)" "0x1FFFFF8 + j < 2 ^ LENGTH(64)" using i small that by simp_all
      ultimately have "i = 0x1FFFFF8 + j"
        unfolding word_of_nat_eq_iff by (simp only: take_bit_nat_eq_self)
      with i small show False by simp
    qed
    have "bus_view b (RAM_BASE + of_nat i) = ?m (RAM_BASE + of_nat i)"
      unfolding v loaded_ram_def Let_def ib ram by (rule flat_store_other) (use away in simp)
    also have "\<dots> = Some (memory_image out ! i)" using flat_store_at [of i "memory_image out"] i small l by simp
    finally show ?thesis .
  qed
  with b show ?thesis by blast
qed

lemma entry_at_label:
  assumes "ao_symbol_table out c = Some a"
  shows "entry_address out base secs (c # cs) = base + a"
  using assms by (simp add: entry_address_def)

subsection \<open>A sample program\<close>

text \<open>A program with data, an entry label, and a loop closed by a branch, a jump and a call.\<close>

definition sample_head :: "asm_token list" where
  "sample_head = [T_Section Sec_Data, T_Label ''buf'', T_DataU32 7, T_Section Sec_Text, T_Real (RI_Imm Addi 10 0 42)]"

definition sample_loop :: "asm_token list" where
  "sample_loop = [T_Real (RI_Imm Addi 10 10 (- 1)), T_Branch Bk_Bne 10 0 ''_start'', T_Jal 0 ''_start'', T_Call ''buf'']"

abbreviation "sample \<equiv> sample_head @ T_Label ''_start'' # sample_loop"

definition sample_bytes :: "u8 list" where
  "sample_bytes = concat (map (to_le_bytes 4) [0x02A00513, 0xFFF50513, 0xFE051EE3, 0xFF9FF06F, 0x00000097, 0x008080E7, 7])"

lemma sample_assembles:
  obtains out where "assemble_tokens sample = Inr out" "list_all token_ok sample"
    "to_flat_binary out = sample_bytes" "memory_image out = sample_bytes"
    "length (to_elf [] out 0x80000000) < 2 ^ 64"
    "address_of out sample_head = 4" "address_of out [T_Section Sec_Data] = 24"
    "address_of out (sample_head @ [T_Label ''_start'', sample_loop ! 0]) = 8"
    "address_of out (sample_head @ [T_Label ''_start'', sample_loop ! 0, sample_loop ! 1]) = 12"
    "address_of out (sample_head @ [T_Label ''_start'', sample_loop ! 0, sample_loop ! 1, sample_loop ! 2]) = 16"
proof -
  have "(case assemble_tokens sample of Inl _ \<Rightarrow> False
    | Inr out \<Rightarrow> to_flat_binary out = sample_bytes \<and> memory_image out = sample_bytes
      \<and> int (length (to_elf [] out 0x80000000)) < 2 ^ 64
      \<and> address_of out sample_head = 4 \<and> address_of out [T_Section Sec_Data] = 24
      \<and> address_of out (sample_head @ [T_Label ''_start'', sample_loop ! 0]) = 8
      \<and> address_of out (sample_head @ [T_Label ''_start'', sample_loop ! 0, sample_loop ! 1]) = 12
      \<and> address_of out (sample_head @ [T_Label ''_start'', sample_loop ! 0, sample_loop ! 1, sample_loop ! 2]) = 16)"
    by code_simp
  moreover have "list_all token_ok sample" by code_simp
  ultimately show ?thesis using that by (cases "assemble_tokens sample") simp_all
qed

lemma sample_sites:
  "sample = (sample_head @ [T_Label ''_start'', sample_loop ! 0]) @ T_Branch Bk_Bne 10 0 ''_start'' # drop 2 sample_loop"
  "sample = (sample_head @ [T_Label ''_start'', sample_loop ! 0, sample_loop ! 1]) @ T_Jal 0 ''_start'' # drop 3 sample_loop"
  "sample = (sample_head @ [T_Label ''_start'', sample_loop ! 0, sample_loop ! 1, sample_loop ! 2]) @ T_Call ''buf'' # []"
  "sample = sample_head @ T_Label ''_start'' # sample_loop"
  "sample = [T_Section Sec_Data] @ T_Label ''buf'' # drop 2 sample"
  by (simp_all add: sample_head_def sample_loop_def)

lemma sample_words:
  "word_at sample_bytes 8 = 0xFE051EE3" "word_at sample_bytes 12 = 0xFF9FF06F"
  "word_at sample_bytes 16 = 0x00000097" "word_at sample_bytes (16 + 4) = 0x008080E7"
  by code_simp+

subsection \<open>Guarantees\<close>

text \<open>C7. A program with a label \<open>_start\<close> whose tokens are well formed and whose image ends below the heap-pointer
  word (at most 0x1FFFFF8 bytes) is assembled into an ELF file that the virtual machine loads: execution
  starts at the label, and RAM holds the sections in load order, with zeros for \<open>.bss\<close>. This holds for every
  load base and for every order in which the symbol table is iterated. Well formed means here and below: every
  \<open>.balign\<close> argument is a power of two, no label contains \<open>@\<close>, and no custom section has a standard
  name (the parser never makes one). For an argument that is not a power of two the two passes disagree,
  a label with \<open>@\<close> can be mistaken for a section-qualified one, and a longer image is overwritten by the heap
  pointer.\<close>

theorem assembled_program_loads:
  assumes "assemble_tokens (pre @ T_Label ''_start'' # post) = Inr out" "list_all token_ok (pre @ T_Label ''_start'' # post)"
    and "length (to_elf iter out base) < 2 ^ 64" "length (to_flat_binary out) \<le> 0x1FFFFF8"
  shows "\<exists>b. load_elf rom_image (to_elf iter out base)
      = Inr \<lparr>le_bus = b, start_pc = RAM_BASE + of_nat (address_of out pre), stack_ptr = 0x87FFFFF0\<rparr>
    \<and> (\<forall>i < length (to_flat_binary out). hier_peek_byte_raw (l1_cache b) (RAM_BASE + of_nat i) = Some (memory_image out ! i))"
  using program_loads [OF assms(3) [unfolded to_elf_def] assms(4), of rom_image]
  by (simp add: to_elf_def entry_at_label [OF label_addresses [OF assms(1,2)]] algebra_simps)

theorem assembled_program_loads_witness:
  "\<exists>out b. assemble_tokens sample = Inr out
    \<and> load_elf [] (to_elf [] out 0x80000000) = Inr \<lparr>le_bus = b, start_pc = 0x80000004, stack_ptr = 0x87FFFFF0\<rparr>
    \<and> hier_peek_byte_raw (l1_cache b) 0x80000001 = Some 5"
proof -
  obtain out where o: "assemble_tokens sample = Inr out" "list_all token_ok sample" "length (to_elf [] out 0x80000000) < 2 ^ 64"
    "to_flat_binary out = sample_bytes" "memory_image out = sample_bytes" "address_of out sample_head = 4"
    by (rule sample_assembles)
  have n: "length sample_bytes = 28" "sample_bytes ! 1 = 5" by code_simp+
  from assembled_program_loads [OF o(1-3), of "[]"] obtain b where
    "load_elf [] (to_elf [] out 0x80000000) = Inr \<lparr>le_bus = b, start_pc = RAM_BASE + of_nat 4, stack_ptr = 0x87FFFFF0\<rparr>"
    "\<forall>i < 28. hier_peek_byte_raw (l1_cache b) (RAM_BASE + of_nat i) = Some (sample_bytes ! i)"
    unfolding o n by auto
  from this(1) this(2) [rule_format, of 1] o(1) n show ?thesis by auto
qed

text \<open>C14. In the output of the two passes, for a program of well-formed tokens, every label has the address of its
  position in the image: the bytes of the sections before its own in load order and the bytes its section holds so
  far, alignment padding included. \<open>.align n\<close> aligns to \<open>2 ^ n\<close> bytes in both passes (\<open>T_Align\<close> carries the
  exponent) and \<open>.balign n\<close> to \<open>n\<close> bytes; \<open>_RISCV_SPECIFICATIONS.md\<close> lists both as aligning to \<open>n\<close> bytes,
  although it also says the directives behave as in GAS, where \<open>.align\<close> takes the exponent on RISC-V.\<close>

theorem assembled_label_address:
  assumes "assemble_tokens (pre @ T_Label n # post) = Inr out" "list_all token_ok (pre @ T_Label n # post)"
  shows "ao_symbol_table out n = Some (of_nat (address_of out pre))"
  using assms by (rule label_addresses)

theorem assembled_label_address_witness:
  "\<exists>out. assemble_tokens sample = Inr out \<and> ao_symbol_table out ''_start'' = Some 4 \<and> length (to_flat_binary out) = 28"
proof -
  obtain out where o: "assemble_tokens sample = Inr out" "list_all token_ok sample" "to_flat_binary out = sample_bytes"
    "address_of out sample_head = 4" by (rule sample_assembles)
  have "length sample_bytes = 28" by code_simp
  with o assembled_label_address [OF o(1,2)] show ?thesis by auto
qed

text \<open>C16. Whenever a program of well-formed tokens assembles, a branch to a label of its own section stands in the
  image as the branch instruction with its registers, and its offset added to the branch's address is the
  label's address.\<close>

theorem branch_reaches_label:
  assumes "assemble_tokens ts = Inr out" "list_all token_ok ts"
    and "ts = pre @ T_Branch bk rs1 rs2 target # post" and "ts = pre' @ T_Label target # post'"
    and "fst (positions pre') = fst (positions pre)"
  shows "\<exists>insn off. decode (word_at (to_flat_binary out) (address_of out pre)) = Inr insn
    \<and> insn_id insn = Some (Base (branch_id bk)) \<and> insn_operands insn = Ops_Branch (IntReg rs1) (IntReg rs2) off
    \<and> of_nat (address_of out pre) + scast off = (of_nat (address_of out pre') :: u64)"
  using assms by (rule branch_reaches)

theorem branch_reaches_label_witness:
  "(\<exists>out. assemble_tokens sample = Inr out \<and> to_flat_binary out = sample_bytes)
    \<and> (\<exists>insn off. decode 0xFE051EE3 = Inr insn \<and> insn_operands insn = Ops_Branch (IntReg 10) (IntReg 0) off
      \<and> 8 + scast off = (4 :: u64))"
proof -
  obtain out where o: "assemble_tokens sample = Inr out" "list_all token_ok sample" "to_flat_binary out = sample_bytes"
    "address_of out sample_head = 4"
    "address_of out (sample_head @ [T_Label ''_start'', sample_loop ! 0]) = 8" by (rule sample_assembles)
  have "fst (positions sample_head) = fst (positions (sample_head @ [T_Label ''_start'', sample_loop ! 0]))" by code_simp
  from branch_reaches_label [OF o(1,2) sample_sites(1) sample_sites(4) this] show ?thesis
    unfolding o sample_words using o(1,3) by auto
qed

text \<open>C15. Whenever a program of well-formed tokens assembles, a call or a tail call to a label in any section, at a
  distance from \<open>- 2 ^ 31 - 2048\<close> to just below \<open>2 ^ 31 - 2048\<close> bytes, stands in the image as \<open>auipc\<close> and
  \<open>jalr\<close> over the scratch register, and together they add up to the label's address exactly.\<close>

theorem call_reaches_label:
  assumes "assemble_tokens ts = Inr out" "list_all token_ok ts"
    and "ts = pre @ t # post" and "ts = pre' @ T_Label target # post'"
    and "t = T_Call target \<and> link = (1 :: u8) \<and> tmp = (1 :: u8) \<or> t = T_Tail target \<and> link = 0 \<and> tmp = 6"
    and "- (2 ^ 31) - 2048 \<le> sint (of_nat (address_of out pre') - of_nat (address_of out pre) :: u64)"
    and "sint (of_nat (address_of out pre') - of_nat (address_of out pre) :: u64) < 2 ^ 31 - 2048"
  shows "\<exists>hi lo. decode (word_at (to_flat_binary out) (address_of out pre)) = Inr (D_Auipc (unat tmp) hi)
    \<and> decode (word_at (to_flat_binary out) (address_of out pre + 4)) = Inr (D_Jalr (unat link) (unat tmp) lo)
    \<and> of_nat (address_of out pre) + hi + lo = (of_nat (address_of out pre') :: u64)"
  using assms by (rule call_reaches)

theorem call_reaches_label_witness:
  "\<exists>hi lo. decode 0x00000097 = Inr (D_Auipc 1 hi) \<and> decode 0x008080E7 = Inr (D_Jalr 1 1 lo) \<and> 16 + hi + lo = 24"
proof -
  obtain out where o: "assemble_tokens sample = Inr out" "list_all token_ok sample" "to_flat_binary out = sample_bytes"
    "address_of out [T_Section Sec_Data] = 24"
    "address_of out (sample_head @ [T_Label ''_start'', sample_loop ! 0, sample_loop ! 1, sample_loop ! 2]) = 16"
    by (rule sample_assembles)
  have t: "T_Call ''buf'' = T_Call ''buf'' \<and> (1 :: u8) = 1 \<and> (1 :: u8) = 1
    \<or> T_Call ''buf'' = T_Tail ''buf'' \<and> (1 :: u8) = 0 \<and> (1 :: u8) = 6" by simp
  note c = call_reaches_label [OF o(1,2) sample_sites(3) sample_sites(5) t, unfolded o sample_words]
  have "- (2 ^ 31) - 2048 \<le> sint (of_nat 24 - of_nat 16 :: u64)" "sint (of_nat 24 - of_nat 16 :: u64) < 2 ^ 31 - 2048"
    by code_simp+
  from c [OF this] show ?thesis by simp
qed

end
