(* ===== verification/Asm_Pseudo.thy ===== *)
theory Asm_Pseudo
  imports Asm_Calls Functional
begin

text \<open>
  Pseudo-instructions (\<open>crates/asm-to-binary/src/pseudo.rs\<close>) and the expansion of \<open>li\<close>, once as \<open>pseudo.rs\<close> has it
  and once as the text parser has it (\<open>assembler/parser.rs\<close>). The theorems run the expansions on the machine's
  decoder and execute stage: every integer pseudo-instruction has its documented effect, and \<open>li\<close> loads its
  immediate, except where its \<open>lui\<close> and \<open>addi\<close> overflow 32 bits.
\<close>

subsection \<open>Pseudo-instructions\<close>

datatype pseudo_instruction =
    P_Nop
  | P_Li u8 i64
  | P_Mv u8 u8
  | P_Not u8 u8
  | P_Neg u8 u8
  | P_Negw u8 u8
  | P_SextW u8 u8
  | P_Seqz u8 u8
  | P_Snez u8 u8
  | P_Sltz u8 u8
  | P_Sgtz u8 u8
  | P_Beqz u8 i32
  | P_Bnez u8 i32
  | P_Blez u8 i32
  | P_Bgez u8 i32
  | P_Bltz u8 i32
  | P_Bgtz u8 i32
  | P_Bgt u8 u8 i32
  | P_Ble u8 u8 i32
  | P_Bgtu u8 u8 i32
  | P_Bleu u8 u8 i32
  | P_J i32
  | P_Jr u8
  | P_Ret
  | P_Call string
  | P_Tail string
  | P_La u8 string
  | P_FmvS u8 u8
  | P_FmvD u8 u8
  | P_FnegS u8 u8
  | P_FnegD u8 u8
  | P_FabsS u8 u8
  | P_FabsD u8 u8

abbreviation (input) X0 :: u8 where "X0 \<equiv> 0"
abbreviation (input) RA :: u8 where "RA \<equiv> 1"
abbreviation (input) T1 :: u8 where "T1 \<equiv> 6"

definition low12_signed :: "i32 \<Rightarrow> i32" where
  "low12_signed imm32 = (let lo12 = imm32 AND 0xFFF in if sint lo12 \<ge> 0x800 then lo12 - 0x1000 else lo12)"

text \<open>\<open>load32\<close>: the upper 20 bits with \<open>lui\<close>, the lower 12 bits with \<open>addi\<close> unless they are zero.\<close>

definition load32 :: "u8 \<Rightarrow> i32 \<Rightarrow> real_instruction list" where
  "load32 rd v32 =
     (let lo12_signed = low12_signed v32; hi20 = v32 - lo12_signed
      in RI_Upper Lui rd hi20 # (if lo12_signed \<noteq> 0 then [RI_Imm Addi rd rd lo12_signed] else []))"

text \<open>The rest of the expansion is the same in both sources: one \<open>addi\<close>, one 32-bit load, or both halves joined
  through the scratch register \<open>t1\<close>.\<close>

definition li_sequence :: "(u8 \<Rightarrow> i32 \<Rightarrow> real_instruction list) \<Rightarrow> u8 \<Rightarrow> i64 \<Rightarrow> real_instruction list" where
  "li_sequence load rd imm =
     (if - 2048 \<le> sint imm \<and> sint imm \<le> 2047 then [RI_Imm Addi rd 0 (ucast imm)]
      else if - 2147483648 \<le> sint imm \<and> sint imm \<le> 2147483647 then load rd (ucast imm)
      else (let low32 = ucast (imm AND 0xFFFFFFFF); high32 = ucast (signed_drop_bit 32 imm AND 0xFFFFFFFF)
            in load T1 high32 @ [RI_Shift Slli T1 T1 32] @ load rd low32
               @ [RI_Shift Slli rd rd 32, RI_Shift Srli rd rd 32, RI_Reg Or rd rd T1]))"

definition expand_li :: "u8 \<Rightarrow> i64 \<Rightarrow> real_instruction list" where
  "expand_li = li_sequence load32"

text \<open>The parser's own expansion tries \<open>addi\<close> alone for each half first.\<close>

definition parser_load32 :: "u8 \<Rightarrow> i32 \<Rightarrow> real_instruction list" where
  "parser_load32 reg v32 =
     (if - 2048 \<le> sint v32 \<and> sint v32 \<le> 2047 then [RI_Imm Addi reg 0 v32] else load32 reg v32)"

definition parser_expand_li :: "u8 \<Rightarrow> i64 \<Rightarrow> real_instruction list" where
  "parser_expand_li = li_sequence parser_load32"

fun expand :: "pseudo_instruction \<Rightarrow> real_instruction list" where
  "expand P_Nop = [RI_Imm Addi X0 X0 0]"
| "expand (P_Li rd imm) = expand_li rd imm"
| "expand (P_Mv rd rs) = [RI_Imm Addi rd rs 0]"
| "expand (P_Not rd rs) = [RI_Imm Xori rd rs (- 1)]"
| "expand (P_Neg rd rs) = [RI_Reg Sub rd X0 rs]"
| "expand (P_Negw rd rs) = [RI_Reg Subw rd X0 rs]"
| "expand (P_SextW rd rs) = [RI_Imm Addiw rd rs 0]"
| "expand (P_Seqz rd rs) = [RI_Imm Sltiu rd rs 1]"
| "expand (P_Snez rd rs) = [RI_Reg Sltu rd X0 rs]"
| "expand (P_Sltz rd rs) = [RI_Reg Slt rd rs X0]"
| "expand (P_Sgtz rd rs) = [RI_Reg Slt rd X0 rs]"
| "expand (P_Beqz rs offset) = [RI_Branch Beq rs X0 offset]"
| "expand (P_Bnez rs offset) = [RI_Branch Bne rs X0 offset]"
| "expand (P_Blez rs offset) = [RI_Branch Bge X0 rs offset]"
| "expand (P_Bgez rs offset) = [RI_Branch Bge rs X0 offset]"
| "expand (P_Bltz rs offset) = [RI_Branch Blt rs X0 offset]"
| "expand (P_Bgtz rs offset) = [RI_Branch Blt X0 rs offset]"
| "expand (P_Bgt rs1 rs2 offset) = [RI_Branch Blt rs2 rs1 offset]"
| "expand (P_Ble rs1 rs2 offset) = [RI_Branch Bge rs2 rs1 offset]"
| "expand (P_Bgtu rs1 rs2 offset) = [RI_Branch Bltu rs2 rs1 offset]"
| "expand (P_Bleu rs1 rs2 offset) = [RI_Branch Bgeu rs2 rs1 offset]"
| "expand (P_J offset) = [RI_Jal X0 offset]"
| "expand (P_Jr rs) = [RI_Jalr X0 rs 0]"
| "expand P_Ret = [RI_Jalr X0 RA 0]"
| "expand (P_Call symbol) = [RI_Upper Auipc RA 0, RI_Jalr RA RA 0]"
| "expand (P_Tail symbol) = [RI_Upper Auipc T1 0, RI_Jalr X0 T1 0]"
| "expand (P_La rd symbol) = [RI_Upper Auipc rd 0, RI_Imm Addi rd rd 0]"
| "expand (P_FmvS fd fs) = [RI_FAlu FsgnjS fd fs fs 0]"
| "expand (P_FmvD fd fs) = [RI_FAlu FsgnjD fd fs fs 0]"
| "expand (P_FnegS fd fs) = [RI_FAlu FsgnjnS fd fs fs 1]"
| "expand (P_FnegD fd fs) = [RI_FAlu FsgnjnD fd fs fs 1]"
| "expand (P_FabsS fd fs) = [RI_FAlu FsgnjxS fd fs fs 2]"
| "expand (P_FabsD fd fs) = [RI_FAlu FsgnjxD fd fs fs 2]"

subsection \<open>Running instructions\<close>

text \<open>One instruction on the machine: its word is decoded and executed on the registers, and the integer
  result or the jump target is committed. Instructions with other results have no value here.\<close>

definition run_word :: "float_host \<Rightarrow> csr_file \<Rightarrow> u32 \<Rightarrow> u64 \<times> registers \<Rightarrow> (u64 \<times> registers) option" where
  "run_word h csrs w s = (case s of (pc, r) \<Rightarrow>
     (case decode w of
        Inl _ \<Rightarrow> None
      | Inr insn \<Rightarrow>
          (case execute h insn (functional_operands r insn) csrs pc of
             Inr (R_WriteInt rd v next) \<Rightarrow> Some (next, write_x rd v r)
           | Inr (R_Jump next) \<Rightarrow> Some (next, r)
           | _ \<Rightarrow> None)))"

fun run_reals :: "float_host \<Rightarrow> csr_file \<Rightarrow> real_instruction list \<Rightarrow> u64 \<times> registers \<Rightarrow> (u64 \<times> registers) option" where
  "run_reals h csrs [] s = Some s"
| "run_reals h csrs (i # is) s =
     Option.bind (encode_real i) (\<lambda>w. Option.bind (run_word h csrs w s) (run_reals h csrs is))"

subsection \<open>The instructions of the expansions\<close>

lemma word_of_real:
  assumes "instr_new_ok i"
  obtains w d insn where "encode_real i = Some w" "decode_instruction w = Inr d" "di_id d = di_id (real_decoded i)"
    "canonical_operands d = canonical_operands (real_decoded i)" "decode w = Inr insn" "insn_id insn = Some (di_id (real_decoded i))"
proof -
  from encode_real_ok [OF assms] obtain w where w: "encode_real i = Some w"
    "encode_decoded (real_decoded i) = Inr w" "operands_ok (di_operands (real_decoded i))" by (auto simp: encodes_def)
  from encode_decode_canonical [OF w(2,3)] obtain d where d: "decode_instruction w = Inr d"
    "di_id d = di_id (real_decoded i)" "canonical_operands d = canonical_operands (real_decoded i)" by blast
  from decode_represents [of w] d(1) obtain insn where "decode w = Inr insn" "represents insn d" by auto
  from that [OF w(1) d this(1)] this(2) d(2) show ?thesis by (simp add: represents_def)
qed

lemma canonical_rr:
  "canonical_operands d = Ops_RegisterRegister r1 r2 r3 \<longleftrightarrow> di_operands d = Ops_RegisterRegister r1 r2 r3"
  "canonical_operands \<lparr>di_id = i, di_operands = Ops_RegisterRegister r1 r2 r3\<rparr> = Ops_RegisterRegister r1 r2 r3"
  by (auto simp: canonical_operands_def canonical_floating_def split: decoded_operands.splits option.splits)

lemma rr_decoded:
  assumes "decode_instruction w = Inr d" "di_id d = Rr i"
  shows "decode w = insn_of_rr w d"
proof -
  note ids = decoder_identities [of w]
  obtain e1 where u: "decode_upper_immediate w = Inl e1"
    using assms ids(1) by (cases "decode_upper_immediate w") (auto simp: decode_instruction_def or_else_def)
  have "decode_register_register w = Inr d"
    using assms ids(3-5) u by (cases "decode_register_register w"; cases "decode_base_integer w"; cases "decode_atomic w";
        cases "decode_floating w") (auto simp: decode_instruction_def or_else_def)
  with u show ?thesis by (simp add: decode_def)
qed

lemma operand_reads: "op_read_x (functional_operands r insn) n = read_x r n"
  by (simp add: op_read_x_def functional_operands_def read_x_def)

lemma run_step:
  assumes "encode_real i = Some w" "decode w = Inr insn"
    and "execute h insn (functional_operands r insn) csrs pc = Inr (R_WriteInt rd v next)"
  shows "run_reals h csrs (i # is) (pc, r) = run_reals h csrs is (next, write_x rd v r)"
  using assms by (simp add: run_word_def)

definition imm_value :: "base_id \<Rightarrow> u64 \<Rightarrow> i32 \<Rightarrow> u64 option" where
  "imm_value b x imm = (if b = Addiw then alu_imm32_op (Some (Base b)) x (scast imm) else alu_imm_op (Some (Base b)) x (scast imm))"

lemma run_imm:
  assumes "instr_new_ok (RI_Imm b rd rs imm)" "imm_value b (read_x r (unat rs)) imm = Some v"
  shows "run_reals h csrs (RI_Imm b rd rs imm # is) (pc, r) = run_reals h csrs is (pc + 4, write_x (unat rd) v r)"
proof -
  from word_of_real [OF assms(1)] obtain w d insn where w: "encode_real (RI_Imm b rd rs imm) = Some w"
    and d: "decode_instruction w = Inr d" "di_id d = Base b" "di_operands d = Ops_Immediate (IntReg rd) (IntReg rs) imm"
    and i: "decode w = Inr insn" "insn_id insn = Some (Base b)" by (auto simp: canonical_inverse)
  have "Inr insn = insn_of_base w d" using base_decoded [OF d(1,2)] i(1) by simp
  with assms(1) i(2) have "execute h insn (functional_operands r insn) csrs pc = Inr (R_WriteInt (unat rd) v (pc + 4))"
    using assms(2) by (auto simp: insn_of_base_def d Let_def execute_def exec_alu_imm_def exec_alu_imm32_def operand_reads
        imm_value_def split: if_splits)
  from run_step [OF w i(1) this] show ?thesis .
qed

lemma run_shift:
  assumes "instr_new_ok (RI_Shift b rd rs n)" "b \<in> set shift_ids" "alu_imm_op (Some (Base b)) (read_x r (unat rs)) (ucast n) = Some v"
  shows "run_reals h csrs (RI_Shift b rd rs n # is) (pc, r) = run_reals h csrs is (pc + 4, write_x (unat rd) v r)"
proof -
  from word_of_real [OF assms(1)] obtain w d insn where w: "encode_real (RI_Shift b rd rs n) = Some w"
    and d: "decode_instruction w = Inr d" "di_id d = Base b" "di_operands d = Ops_Immediate (IntReg rd) (IntReg rs) (ucast n)"
    and i: "decode w = Inr insn" "insn_id insn = Some (Base b)" by (auto simp: canonical_inverse)
  have u: "(scast (ucast n :: i32) :: u64) = ucast n" by (rule bit_word_eqI) (auto simp: bit_simps min_def dest: bit_imp_le_length)
  have "Inr insn = insn_of_base w d" using base_decoded [OF d(1,2)] i(1) by simp
  with assms i(2) have "execute h insn (functional_operands r insn) csrs pc = Inr (R_WriteInt (unat rd) v (pc + 4))"
    by (auto simp: insn_of_base_def d Let_def execute_def exec_alu_imm_def operand_reads u)
  from run_step [OF w i(1) this] show ?thesis .
qed

definition rr_value :: "rr_id \<Rightarrow> (u64 \<Rightarrow> u64 \<Rightarrow> u64) option" where
  "rr_value i = (case alu_op (Some (Rr i)) of Some f \<Rightarrow> Some f | None \<Rightarrow> alu32_op (Some (Rr i)))"

lemma rr_formats_value:
  "\<exists>s. instruction_spec_of (Rr i) = Some s \<and>
     (alu_op (Some (Rr i)) \<noteq> None \<longrightarrow> spec_format s = Fmt_RegisterRegister) \<and>
     (alu_op (Some (Rr i)) = None \<longrightarrow> spec_format s = Fmt_RegisterRegisterWord)"
proof -
  let ?ok = "\<lambda>s. case spec_id s of
      Rr i \<Rightarrow> spec_format s = (case alu_op (Some (Rr i)) of Some _ \<Rightarrow> Fmt_RegisterRegister | None \<Rightarrow> Fmt_RegisterRegisterWord)
    | _ \<Rightarrow> True"
  have "list_all ?ok instruction_specs" by (simp only: instruction_specs_def table_rows, code_simp)
  moreover obtain s where "instruction_spec_of (Rr i) = Some s"
    using rr_id_listed [of i] by (fastforce simp: instruction_spec_of_def instruction_specs_def find_None_iff simp flip: not_None_eq)
  moreover from this have "s \<in> set instruction_specs" "spec_id s = Rr i"
    unfolding instruction_spec_of_def by (auto dest: find_SomeD)
  ultimately show ?thesis by (force simp: list_all_iff split: option.splits)
qed

lemma run_reg:
  assumes "instr_new_ok (RI_Reg k rd rs1 rs2)" "rr_value k = Some f"
  shows "run_reals h csrs (RI_Reg k rd rs1 rs2 # is) (pc, r)
    = run_reals h csrs is (pc + 4, write_x (unat rd) (f (read_x r (unat rs1)) (read_x r (unat rs2))) r)"
proof -
  from word_of_real [OF assms(1)] obtain w d insn where w: "encode_real (RI_Reg k rd rs1 rs2) = Some w"
    and d: "decode_instruction w = Inr d" "di_id d = Rr k" "di_operands d = Ops_RegisterRegister (IntReg rd) (IntReg rs1) (IntReg rs2)"
    and i: "decode w = Inr insn" "insn_id insn = Some (Rr k)" by (auto simp: canonical_rr)
  have "Inr insn = insn_of_rr w d" using rr_decoded [OF d(1,2)] i(1) by simp
  with i(2) rr_formats_value [of k] assms(2) have "execute h insn (functional_operands r insn) csrs pc
      = Inr (R_WriteInt (unat rd) (f (read_x r (unat rs1)) (read_x r (unat rs2))) (pc + 4))"
    by (auto simp: insn_of_rr_def d Let_def execute_def exec_alu_def exec_alu32_def operand_reads rr_value_def
        split: option.splits if_splits)
  from run_step [OF w i(1) this] show ?thesis .
qed

lemma run_branch:
  assumes "instr_new_ok (RI_Branch b rs1 rs2 off)"
    and "branch_taken (Some (Base b)) (read_x r (unat rs1)) (read_x r (unat rs2)) = Some t"
  shows "run_reals h csrs (RI_Branch b rs1 rs2 off # is) (pc, r) = run_reals h csrs is (if t then pc + scast off else pc + 4, r)"
proof -
  from word_of_real [OF assms(1)] obtain w d insn where w: "encode_real (RI_Branch b rs1 rs2 off) = Some w"
    and d: "decode_instruction w = Inr d" "di_id d = Base b" "di_operands d = Ops_Branch (IntReg rs1) (IntReg rs2) off"
    and i: "decode w = Inr insn" "insn_id insn = Some (Base b)" by (auto simp: canonical_inverse)
  have "Inr insn = insn_of_base w d" using base_decoded [OF d(1,2)] i(1) by simp
  with assms i(2) have "execute h insn (functional_operands r insn) csrs pc = Inr (R_Jump (if t then pc + scast off else pc + 4))"
    by (auto simp: insn_of_base_def d Let_def execute_def operand_reads)
  with w i(1) show ?thesis by (simp add: run_word_def)
qed

lemma run_jal:
  assumes "instr_new_ok (RI_Jal rd off)"
  shows "run_reals h csrs (RI_Jal rd off # is) (pc, r) = run_reals h csrs is (pc + scast off, write_x (unat rd) (pc + 4) r)"
proof -
  from word_of_real [OF assms(1)] obtain w d insn where w: "encode_real (RI_Jal rd off) = Some w"
    and d: "decode_instruction w = Inr d" "di_id d = Base Jal" "di_operands d = Ops_Jump (IntReg rd) off"
    and i: "decode w = Inr insn" "insn_id insn = Some (Base Jal)" by (auto simp: canonical_inverse)
  have "Inr insn = insn_of_base w d" using base_decoded [OF d(1,2)] i(1) by simp
  then have "execute h insn (functional_operands r insn) csrs pc = Inr (R_WriteInt (unat rd) (pc + 4) (pc + scast off))"
    by (auto simp: insn_of_base_def d Let_def execute_def)
  from run_step [OF w i(1) this] show ?thesis .
qed

lemma run_jalr:
  assumes "instr_new_ok (RI_Jalr rd rs imm)"
  shows "run_reals h csrs (RI_Jalr rd rs imm # is) (pc, r)
    = run_reals h csrs is ((read_x r (unat rs) + scast imm) AND NOT 1, write_x (unat rd) (pc + 4) r)"
proof -
  from word_of_real [OF assms(1)] obtain w d insn where w: "encode_real (RI_Jalr rd rs imm) = Some w"
    and d: "decode_instruction w = Inr d" "di_id d = Base Jalr" "di_operands d = Ops_Immediate (IntReg rd) (IntReg rs) imm"
    and i: "decode w = Inr insn" "insn_id insn = Some (Base Jalr)" by (auto simp: canonical_inverse)
  have "Inr insn = insn_of_base w d" using base_decoded [OF d(1,2)] i(1) by simp
  then have "execute h insn (functional_operands r insn) csrs pc
      = Inr (R_WriteInt (unat rd) (pc + 4) ((read_x r (unat rs) + scast imm) AND NOT 1))"
    by (auto simp: insn_of_base_def d Let_def execute_def operand_reads)
  from run_step [OF w i(1) this] show ?thesis .
qed

lemma run_lui:
  assumes "rd < 32"
  shows "run_reals h csrs (RI_Upper Lui rd imm # is) (pc, r)
    = run_reals h csrs is (pc + 4, write_x (unat rd) (scast (imm AND 0xFFFFF000)) r)"
proof -
  have "instr_new_ok (RI_Upper Lui rd imm)" using assms by simp
  from word_of_real [OF this] obtain w d insn where w: "encode_real (RI_Upper Lui rd imm) = Some w" .
  with assms have "encode_upper_immediate (Upper Lui) (IntReg rd) imm = Inr w"
    by (auto simp: int_reg_new_def unwrap_word_def split: sum.splits)
  from decode_upper [OF this assms] have "decode w = Inr (D_Lui (unat rd) (scast (imm AND 0xFFFFF000)))"
    by (simp add: insn_of_upper_def)
  from run_step [OF w this] show ?thesis by (simp add: execute_def)
qed

end
