(* ===== verification/Asm_Immediates.thy ===== *)
theory Asm_Immediates
  imports Asm_Pseudo Functional_Correct
begin

text \<open>
  What the expansions of \<open>Asm_Pseudo\<close> do when the machine runs them. Both \<open>li\<close> expansions are built on a 32-bit
  load with the contract \<open>load32_sequence\<close>, from which the 64-bit case follows; the other integer
  pseudo-instructions are compared with their documented effects.
\<close>

declare run_reals.simps(2) [simp del]

subsection \<open>Steps of the functional core\<close>

text \<open>What \<open>run_word\<close> stands for: a step of the functional core that fetches the word and is not interrupted.\<close>

lemma retire_keeps:
  "fc_architectural (snd (fc_retire before pc raw i mw f)) = (fc_architectural f)\<lparr>arch_csrs := increment_instret (arch_csrs (fc_architectural f))\<rparr>"
  by (simp add: fc_retire_def fc_event_def Let_def split: prod.splits)

lemma step_runs_word:
  assumes "sampled (f, b) = (st1, b1)" "pending_interrupt st1 = None"
    and "fetch_with_pmp bus_ops (arch_pc st1) (fc_translation_context st1) (fc_tlb f, b1) = (Inr w, (t2, b2))"
    and "run_word h (arch_csrs st1) w (arch_pc st1, arch_registers st1) = Some (pc', r')"
  shows "\<exists>ev f'. fc_step h (f, b) = (ev, f', b2) \<and> arch_pc (fc_architectural f') = pc'
    \<and> x_regs (arch_registers (fc_architectural f')) = x_regs r'"
proof -
  from assms(4) obtain insn executed where i: "decode w = Inr insn"
    "execute h insn (functional_operands (arch_registers st1) insn) (arch_csrs st1) (arch_pc st1) = Inr executed"
    by (auto simp: run_word_def split: sum.splits)
  let ?f = "f\<lparr>fc_tlb := t2, fc_architectural := set_pc pc' (st1\<lparr>arch_registers := r'\<rparr>)\<rparr>"
  let ?r = "fc_retire (capture st1) (arch_pc st1) w (insn_id insn) None ?f"
  from assms(4) i consider (reg) rd v where "executed = R_WriteInt rd v pc'" "r' = write_x rd v (arch_registers st1)"
    | (jump) "executed = R_Jump pc'" "r' = arch_registers st1"
    by (cases executed) (auto simp: run_word_def)
  then have "fc_step h (f, b) = (fst ?r, snd ?r, b2)"
    by cases (use assms(1-3) i in \<open>simp_all add: fc_step_def sampled_def Let_def memory_stage_with_trace_def sreturn_def
      fc_commit_def writeback_def split_beta\<close>)
  then show ?thesis by (simp add: retire_keeps set_pc_def)
qed


subsection \<open>Loading immediates\<close>

lemma split_low12:
  fixes x :: int
  obtains q l where "x = 4096 * q + l" "- 2048 \<le> l" "l < 2048" "x mod 4096 = (if l < 0 then l + 4096 else l)"
proof -
  define q l where "q = (x + 2048) div 4096" and "l = (x + 2048) mod 4096 - 2048"
  have e: "x = 4096 * q + l" using mult_div_mod_eq [of 4096 "x + 2048"] unfolding q_def l_def by linarith
  have b: "- 2048 \<le> l" "l < 2048" by (simp_all add: l_def)
  have "x mod 4096 = l mod 4096" by (simp add: e)
  moreover have "l mod 4096 = (l + 4096) mod 4096" by simp
  moreover have "(l + 4096) mod 4096 = l + 4096" if "l < 0" by (rule mod_pos_pos_trivial) (use b that in linarith)+
  moreover have "l mod 4096 = l" if "\<not> l < 0" by (rule mod_pos_pos_trivial) (use b that in linarith)+
  ultimately have "x mod 4096 = (if l < 0 then l + 4096 else l)" by (cases "l < 0") (simp_all only: if_True if_False not_False_eq_True)
  with e b show ?thesis by (rule that)
qed

lemma load32_parts:
  fixes v :: i32
  defines "lo \<equiv> low12_signed v"
  shows "imm12_ok lo" "(v - lo) AND 0xFFFFF000 = v - lo"
    and "sint v < 2 ^ 31 - 2048 \<Longrightarrow> scast (v - lo) + scast lo = (scast v :: u64)"
    and "ucast (scast (v - lo) + scast lo :: u64) = v"
    and "2 ^ 31 - 2048 \<le> sint v \<Longrightarrow> scast (v - lo) + scast lo = (scast v - 2 ^ 32 :: u64)"
proof -
  have r: "sint (word_of_int i :: i32) = i" if "- (2 ^ 31) \<le> i" "i < 2 ^ 31" for i
    using that by (simp add: signed_of_int signed_take_bit_int_eq_self_iff)
  have v: "v = word_of_int (sint v)" by simp
  have "v AND 0xFFF = word_of_int (sint v mod 4096)"
  proof -
    have "(0xFFF :: u32) = mask 12" by (simp add: mask_eq_exp_minus_1)
    then have "v AND 0xFFF = take_bit 12 v" by (simp only: take_bit_eq_mask)
    also have "\<dots> = word_of_int (take_bit 12 (sint v))"
      by (rule bit_word_eqI) (auto simp: bit_simps)
    finally show ?thesis by (simp add: take_bit_eq_mod)
  qed
  then have m: "v AND 0xFFF = word_of_int (sint v mod 4096)" "sint (v AND 0xFFF) = sint v mod 4096"
    using r [of "sint v mod 4096"] by simp_all
  obtain q l where q: "sint v = 4096 * q + l" "- 2048 \<le> l" "l < 2048" "sint v mod 4096 = (if l < 0 then l + 4096 else l)"
    by (rule split_low12)
  have lo: "lo = word_of_int l"
  proof -
    have "word_of_int (l + 4096) - 0x1000 = (word_of_int l :: i32)" by (simp only: of_int_add of_int_numeral add_diff_cancel_right')
    then show ?thesis unfolding lo_def low12_signed_def Let_def m(2) unfolding m(1) q(4) using q(2,3) by simp
  qed
  have hi: "v - lo = word_of_int (4096 * q)"
  proof -
    have "v - lo = word_of_int (sint v) - word_of_int l" unfolding lo by simp
    also have "\<dots> = word_of_int (4096 * q)" unfolding q(1) by (simp only: of_int_diff [symmetric] add_diff_cancel_right')
    finally show ?thesis .
  qed
  have s: "sint lo = l" unfolding lo by (rule r) (use q(2,3) in simp_all)
  show "imm12_ok lo" unfolding imm12_ok_def s using q(2,3) by simp
  have "(0xFFFFF000 :: u32) = NOT (mask 12)" by (simp add: mask_eq_exp_minus_1)
  moreover have "v - lo = push_bit 12 (word_of_int q)" unfolding hi by (simp add: push_bit_eq_mult)
  moreover have "push_bit 12 x AND NOT (mask 12) = push_bit 12 x" for x :: i32
    by (rule bit_word_eqI) (auto simp: bit_simps)
  ultimately show "(v - lo) AND 0xFFFFF000 = v - lo" by (simp only:)
  have add: "scast x + scast y = (word_of_int (sint x + sint y) :: i64)" for x y :: i32 by (simp only: scast_eq of_int_add)
  show "scast (v - lo) + scast lo = (scast v :: u64)" if "sint v < 2 ^ 31 - 2048"
  proof -
    have "- (2 ^ 31) \<le> sint v" using sint_ge [of v] by simp
    then have "sint (v - lo) = 4096 * q" unfolding hi by (intro r) (use that q(1-3) in simp_all)
    then show ?thesis unfolding add s by (simp flip: q(1))
  qed
  show "scast (v - lo) + scast lo = (scast v - 2 ^ 32 :: u64)" if "2 ^ 31 - 2048 \<le> sint v"
  proof -
    have "sint v < 2 ^ 31" using sint_lt [of v] by simp
    with that q(1-3) have "2 ^ 31 - 4096 < 4096 * q" "4096 * q \<le> 2 ^ 31 + 2047" by simp_all
    then have "q = 2 ^ 19" by simp
    then have "sint (v - lo) = - (2 ^ 31)" unfolding hi by simp
    then have "scast (v - lo) + scast lo = (word_of_int (sint v - 2 ^ 32) :: u64)"
      unfolding add s q(1) \<open>q = 2 ^ 19\<close> by simp
    then show ?thesis by simp
  qed
  have "ucast (word_of_int k :: i64) = (word_of_int k :: i32)" for k by (rule bit_word_eqI) (auto simp: bit_simps)
  then have "ucast (scast (v - lo) + scast lo :: u64) = (word_of_int (sint (v - lo) + sint lo) :: i32)" unfolding add .
  also have "\<dots> = v - lo + lo" by (simp only: of_int_add) simp
  finally show "ucast (scast (v - lo) + scast lo :: u64) = v" by simp
qed

lemma write_x_write_x: "write_x n b (write_x n a r) = write_x n b r"
  by (simp add: write_x_def)

lemma read_x_write_x_same: "n < length (x_regs r) \<Longrightarrow> read_x (write_x n a r) n = (if n = 0 then 0 else a)"
  by (simp add: read_x_def write_x_def)

lemma read_x_write_x_other: "m \<noteq> n \<Longrightarrow> read_x (write_x n a r) m = read_x r m"
  by (simp add: read_x_def write_x_def)

lemma length_write_x [simp]: "length (x_regs (write_x n a r)) = length (x_regs r)"
  by (simp add: write_x_def)

lemma run_addi:
  assumes "rd < 32" "rs < 32" "imm12_ok imm"
  shows "run_reals h csrs (RI_Imm Addi rd rs imm # is) (pc, r)
    = run_reals h csrs is (pc + 4, write_x (unat rd) (read_x r (unat rs) + scast imm) r)"
  by (rule run_imm) (use assms in \<open>simp_all add: imm_value_def alu_imm_op_def alu_add_def\<close>)

lemma run_slli:
  assumes "rd < 32"
  shows "run_reals h csrs (RI_Shift Slli rd rd 32 # is) (pc, r)
    = run_reals h csrs is (pc + 4, write_x (unat rd) (push_bit 32 (read_x r (unat rd))) r)"
  by (rule run_shift) (use assms in \<open>simp_all add: alu_imm_op_def alu_sll_def\<close>)

lemma run_srli:
  assumes "rd < 32"
  shows "run_reals h csrs (RI_Shift Srli rd rd 32 # is) (pc, r)
    = run_reals h csrs is (pc + 4, write_x (unat rd) (drop_bit 32 (read_x r (unat rd))) r)"
  by (rule run_shift) (use assms in \<open>simp_all add: alu_imm_op_def alu_srl_def\<close>)

lemma run_or:
  assumes "rd < 32" "rs1 < 32" "rs2 < 32"
  shows "run_reals h csrs (RI_Reg Or rd rs1 rs2 # is) (pc, r)
    = run_reals h csrs is (pc + 4, write_x (unat rd) (read_x r (unat rs1) OR read_x r (unat rs2)) r)"
proof -
  have "rr_value Or = Some alu_or" by (simp add: rr_value_def alu_op_def)
  from run_reg [OF _ this, of rd rs1 rs2 h csrs "is" pc r] assms show ?thesis by (simp add: alu_or_def)
qed

definition load32_value :: "i32 \<Rightarrow> u64" where
  "load32_value v = scast (v - low12_signed v) + scast (low12_signed v)"

lemma run_load32:
  assumes "rd < 32" "length (x_regs r) = 32"
  shows "run_reals h csrs (load32 rd v @ is) (pc, r)
    = run_reals h csrs is (pc + 4 * of_nat (length (load32 rd v)), write_x (unat rd) (load32_value v) r)"
proof -
  have n: "unat rd < length (x_regs r)" using assms by (simp add: word_less_nat_alt)
  note lui = run_lui [OF assms(1), of h csrs "v - low12_signed v", unfolded load32_parts(2)]
  show ?thesis
  proof (cases "low12_signed v = 0")
    case True
    with lui show ?thesis by (simp add: load32_def load32_value_def)
  next
    case False
    with lui n show ?thesis
      by (cases "unat rd = 0") (simp_all add: load32_def Let_def load32_value_def run_addi assms load32_parts(1)
          read_x_write_x_same write_x_write_x add.assoc)
  qed
qed

lemma load32_exact: "sint v < 2 ^ 31 - 2048 \<Longrightarrow> load32_value v = scast v" "ucast (load32_value v) = v"
  using load32_parts(3,4) by (simp_all add: load32_value_def)

text \<open>What both expansions need of their 32-bit load: it loads some value with the right low half, the sign
  extension of its argument unless the \<open>addi\<close> carries out of 32 bits.\<close>

locale load32_sequence =
  fixes load :: "u8 \<Rightarrow> i32 \<Rightarrow> real_instruction list" and val_of :: "i32 \<Rightarrow> u64"
  assumes runs: "rd < 32 \<Longrightarrow> length (x_regs r) = 32 \<Longrightarrow> run_reals h csrs (load rd v @ is) (pc, r)
      = run_reals h csrs is (pc + 4 * of_nat (length (load rd v)), write_x (unat rd) (val_of v) r)"
    and exact: "sint v < 2 ^ 31 - 2048 \<Longrightarrow> val_of v = scast v"
    and low: "ucast (val_of v) = v"
begin

lemma li_runs:
  assumes "rd < 32" "length (x_regs r) = 32"
    and fits: "- (2 ^ 31) \<le> sint imm \<Longrightarrow> sint imm < 2 ^ 31 - 2048 \<or> sint imm \<ge> 2 ^ 31 \<and> rd \<noteq> 6"
    and wide: "sint imm < - (2 ^ 31) \<Longrightarrow> rd \<noteq> 6"
  shows "\<exists>v. run_reals h csrs (li_sequence load rd imm) (pc, r)
    = Some (pc + 4 * of_nat (length (li_sequence load rd imm)),
        write_x (unat rd) imm (if - (2 ^ 31) \<le> sint imm \<and> sint imm < 2 ^ 31 then r else write_x 6 v r))"
proof -
  have n: "unat rd < length (x_regs r)" using assms by (simp add: word_less_nat_alt)
  consider (small) "- 2048 \<le> sint imm" "sint imm \<le> 2047"
    | (mid) "- 2147483648 \<le> sint imm" "sint imm \<le> 2147483647" "\<not> (- 2048 \<le> sint imm \<and> sint imm \<le> 2047)"
    | (big) "\<not> (- 2147483648 \<le> sint imm \<and> sint imm \<le> 2147483647)" by linarith
  then show ?thesis
  proof cases
    case small
    have "scast (ucast imm :: i32) = imm" using small by (intro narrow_offset) simp_all
    moreover from this have "imm12_ok (ucast imm)" using small unfolding imm12_ok_def by (metis sint_scast_i32)
    ultimately show ?thesis using small assms(1) by (simp add: li_sequence_def run_addi read_x_def)
  next
    case mid
    then have s: "scast (ucast imm :: i32) = imm" by (intro narrow_offset) simp_all
    then have "sint (ucast imm :: i32) = sint imm" by (metis sint_scast_i32)
    with mid fits have "val_of (ucast imm) = imm" using exact [of "ucast imm"] s by simp
    moreover have "li_sequence load rd imm = load rd (ucast imm)" using mid by (auto simp: li_sequence_def)
    ultimately show ?thesis using mid runs [OF assms(1,2), of h csrs "ucast imm" "[]"] by simp
  next
    case big
    define l h' where "l = (ucast (imm AND 0xFFFFFFFF) :: i32)" and "h' = (ucast (signed_drop_bit 32 imm AND 0xFFFFFFFF) :: i32)"
    have rd: "rd \<noteq> 6" using big fits wide by force
    then have rd6: "unat rd \<noteq> 6" by (simp add: word_unat_eq_iff)
    let ?r1 = "write_x 6 (push_bit 32 (val_of h')) r"
    have t1: "run_reals h csrs (load T1 h' @ RI_Shift Slli T1 T1 32 # is) (pc, r)
        = run_reals h csrs is (pc + 4 * of_nat (length (load T1 h')) + 4, ?r1)" for "is"
      using runs [of T1 r h csrs h' "RI_Shift Slli T1 T1 32 # is" pc] assms(2)
      by (simp add: run_slli write_x_write_x read_x_write_x_same)
    have "run_reals h csrs (load rd l @ [RI_Shift Slli rd rd 32, RI_Shift Srli rd rd 32, RI_Reg Or rd rd T1]) (pc', r')
        = Some (pc' + 4 * of_nat (length (load rd l)) + 12,
            write_x (unat rd) (drop_bit 32 (push_bit 32 (val_of l)) OR read_x r' 6) r')" if "length (x_regs r') = 32" for pc' r'
      using runs [OF assms(1) that, of h csrs l "[RI_Shift Slli rd rd 32, RI_Shift Srli rd rd 32, RI_Reg Or rd rd T1]" pc'] n that assms rd6
      by (cases "unat rd = 0") (simp_all add: run_slli run_srli run_or write_x_write_x read_x_write_x_same
          read_x_write_x_other)
    moreover have "drop_bit 32 (push_bit 32 (val_of l)) OR push_bit 32 (val_of h') = imm"
    proof (rule bit_word_eqI)
      fix n assume n: "n < LENGTH(64)"
      have m: "(0xFFFFFFFF :: u64) = mask 32" by (simp add: mask_eq_exp_minus_1)
      have v: "bit (val_of x) k = bit x k" if "k < 32" for x k
        using arg_cong [OF low [of x], of "\<lambda>w. bit w k"] that by (simp add: bit_simps)
      have "bit l n = bit imm n" if "n < 32" using that by (simp add: l_def m bit_simps)
      moreover have "bit h' (n - 32) = bit imm n" if "32 \<le> n" using that n by (auto simp: h'_def m bit_simps)
      ultimately show "bit (drop_bit 32 (push_bit 32 (val_of l)) OR push_bit 32 (val_of h')) n = bit imm n"
        using v [of n l] v [of "n - 32" h'] n by (cases "n < 32") (auto simp: bit_simps)
    qed
    moreover have "li_sequence load rd imm = load T1 h' @ RI_Shift Slli T1 T1 32 # load rd l
        @ [RI_Shift Slli rd rd 32, RI_Shift Srli rd rd 32, RI_Reg Or rd rd T1]"
      using big by (auto simp: li_sequence_def l_def h'_def Let_def)
    ultimately show ?thesis using big assms(2) by (auto simp: t1 read_x_write_x_same algebra_simps)
  qed
qed

end

interpretation pseudo_li: load32_sequence load32 load32_value
  by unfold_locales (simp_all add: run_load32 load32_exact)

interpretation parser_li: load32_sequence parser_load32
  "\<lambda>v. if - 2048 \<le> sint v \<and> sint v \<le> 2047 then scast v else load32_value v"
proof unfold_locales
  fix rd :: u8 and r :: registers and h csrs v "is" pc
  assume "rd < 32" "length (x_regs r) = 32"
  then show "run_reals h csrs (parser_load32 rd v @ is) (pc, r)
    = run_reals h csrs is (pc + 4 * of_nat (length (parser_load32 rd v)),
        write_x (unat rd) (if - 2048 \<le> sint v \<and> sint v \<le> 2047 then scast v else load32_value v) r)"
    using run_load32 [of rd r h csrs v "is" pc]
    by (auto simp: parser_load32_def run_addi imm12_ok_def read_x_def)
qed (auto simp: load32_exact)

text \<open>Near the largest 32-bit value the upper part wraps to a negative word, and \<open>addi\<close> does not wrap it back.\<close>

lemma li_misses_top_immediates:
  assumes "rd < 32" "length (x_regs r) = 32" "2 ^ 31 - 2048 \<le> sint imm" "sint imm < 2 ^ 31"
  shows "run_reals h csrs (expand_li rd imm) (pc, r) = Some (pc + 4 * of_nat (length (expand_li rd imm)), write_x (unat rd) (imm - 2 ^ 32) r)"
proof -
  have s: "scast (ucast imm :: i32) = imm" using assms(3,4) by (intro narrow_offset) simp_all
  then have "sint (ucast imm :: i32) = sint imm" by (metis sint_scast_i32)
  with assms(3) s have "load32_value (ucast imm) = imm - 2 ^ 32" using load32_parts(5) [of "ucast imm"] by (simp add: load32_value_def)
  moreover have "expand_li rd imm = load32 rd (ucast imm)" using assms(3,4) by (auto simp: expand_li_def li_sequence_def)
  ultimately show ?thesis using run_load32 [OF assms(1,2), of h csrs "ucast imm" "[]"] by simp
qed

subsection \<open>What pseudo-instructions mean\<close>

text \<open>The effect each integer pseudo-instruction is documented to have on the program counter and the registers.
  \<open>li\<close> has a property of its own, \<open>call\<close>, \<open>tail\<close> and \<open>la\<close> name a symbol and expand to
  instructions with placeholder offsets here (the assembler's own expansion is in \<open>Asm_Calls\<close>), and the moves between
  floating-point registers are not run by \<open>run_word\<close>.\<close>

definition integer_pseudo :: "pseudo_instruction \<Rightarrow> bool" where
  "integer_pseudo p = (case p of
     P_Li _ _ \<Rightarrow> False | P_Call _ \<Rightarrow> False | P_Tail _ \<Rightarrow> False | P_La _ _ \<Rightarrow> False
   | P_FmvS _ _ \<Rightarrow> False | P_FmvD _ _ \<Rightarrow> False | P_FnegS _ _ \<Rightarrow> False | P_FnegD _ _ \<Rightarrow> False
   | P_FabsS _ _ \<Rightarrow> False | P_FabsD _ _ \<Rightarrow> False | _ \<Rightarrow> True)"

fun pseudo_effect :: "pseudo_instruction \<Rightarrow> u64 \<times> registers \<Rightarrow> (u64 \<times> registers) option" where
  "pseudo_effect P_Nop (pc, r) = Some (pc + 4, r)"
| "pseudo_effect (P_Mv rd rs) (pc, r) = Some (pc + 4, write_x (unat rd) (read_x r (unat rs)) r)"
| "pseudo_effect (P_Not rd rs) (pc, r) = Some (pc + 4, write_x (unat rd) (NOT (read_x r (unat rs))) r)"
| "pseudo_effect (P_Neg rd rs) (pc, r) = Some (pc + 4, write_x (unat rd) (- read_x r (unat rs)) r)"
| "pseudo_effect (P_Negw rd rs) (pc, r) = Some (pc + 4, write_x (unat rd) (scast (- ucast (read_x r (unat rs)) :: i32)) r)"
| "pseudo_effect (P_SextW rd rs) (pc, r) = Some (pc + 4, write_x (unat rd) (scast (ucast (read_x r (unat rs)) :: i32)) r)"
| "pseudo_effect (P_Seqz rd rs) (pc, r) = Some (pc + 4, write_x (unat rd) (of_bool (read_x r (unat rs) = 0)) r)"
| "pseudo_effect (P_Snez rd rs) (pc, r) = Some (pc + 4, write_x (unat rd) (of_bool (read_x r (unat rs) \<noteq> 0)) r)"
| "pseudo_effect (P_Sltz rd rs) (pc, r) = Some (pc + 4, write_x (unat rd) (of_bool (sint (read_x r (unat rs)) < 0)) r)"
| "pseudo_effect (P_Sgtz rd rs) (pc, r) = Some (pc + 4, write_x (unat rd) (of_bool (sint (read_x r (unat rs)) > 0)) r)"
| "pseudo_effect (P_Beqz rs off) (pc, r) = Some (if read_x r (unat rs) = 0 then pc + scast off else pc + 4, r)"
| "pseudo_effect (P_Bnez rs off) (pc, r) = Some (if read_x r (unat rs) \<noteq> 0 then pc + scast off else pc + 4, r)"
| "pseudo_effect (P_Blez rs off) (pc, r) = Some (if sint (read_x r (unat rs)) \<le> 0 then pc + scast off else pc + 4, r)"
| "pseudo_effect (P_Bgez rs off) (pc, r) = Some (if sint (read_x r (unat rs)) \<ge> 0 then pc + scast off else pc + 4, r)"
| "pseudo_effect (P_Bltz rs off) (pc, r) = Some (if sint (read_x r (unat rs)) < 0 then pc + scast off else pc + 4, r)"
| "pseudo_effect (P_Bgtz rs off) (pc, r) = Some (if sint (read_x r (unat rs)) > 0 then pc + scast off else pc + 4, r)"
| "pseudo_effect (P_Bgt rs1 rs2 off) (pc, r) =
     Some (if sint (read_x r (unat rs1)) > sint (read_x r (unat rs2)) then pc + scast off else pc + 4, r)"
| "pseudo_effect (P_Ble rs1 rs2 off) (pc, r) =
     Some (if sint (read_x r (unat rs1)) \<le> sint (read_x r (unat rs2)) then pc + scast off else pc + 4, r)"
| "pseudo_effect (P_Bgtu rs1 rs2 off) (pc, r) =
     Some (if read_x r (unat rs1) > read_x r (unat rs2) then pc + scast off else pc + 4, r)"
| "pseudo_effect (P_Bleu rs1 rs2 off) (pc, r) =
     Some (if read_x r (unat rs1) \<le> read_x r (unat rs2) then pc + scast off else pc + 4, r)"
| "pseudo_effect (P_J off) (pc, r) = Some (pc + scast off, r)"
| "pseudo_effect (P_Jr rs) (pc, r) = Some (read_x r (unat rs) AND NOT 1, r)"
| "pseudo_effect P_Ret (pc, r) = Some (read_x r 1 AND NOT 1, r)"
| "pseudo_effect p s = None"

lemma branch_takens:
  "branch_taken (Some (Base Beq)) a b = Some (a = b)" "branch_taken (Some (Base Bne)) a b = Some (a \<noteq> b)"
  "branch_taken (Some (Base Blt)) a b = Some (sint a < sint b)" "branch_taken (Some (Base Bge)) a b = Some (sint a \<ge> sint b)"
  "branch_taken (Some (Base Bltu)) a b = Some (a < b)" "branch_taken (Some (Base Bgeu)) a b = Some (a \<ge> b)"
  by (simp_all add: branch_taken_def)

lemma imm_values:
  "imm_value Addi x imm = Some (x + scast imm)" "imm_value Xori x imm = Some (x XOR scast imm)"
  "imm_value Sltiu x imm = Some (of_bool (x < scast imm))" "imm_value Addiw x imm = Some (sext32 (ucast x + ucast (scast imm :: i64)))"
  by (simp_all add: imm_value_def alu_imm_op_def alu_imm32_op_def alu_add_def alu_xor_def alu_sltu_def alu_addw_def)

lemma rr_values:
  "rr_value Sub = Some alu_sub" "rr_value Subw = Some alu_subw" "rr_value Sltu = Some alu_sltu" "rr_value Slt = Some alu_slt"
  by (simp_all add: rr_value_def alu_op_def alu32_op_def)

lemma read_x_0 [simp]: "read_x r 0 = 0" by (simp add: read_x_def)
lemma write_x_0 [simp]: "write_x 0 v r = r" by (simp add: write_x_def)

lemma expansion_effect:
  assumes "list_all instr_new_ok (expand p)" "pseudo_effect p (pc, r) = Some s"
  shows "run_reals h csrs (expand p) (pc, r) = Some s"
  using assms
  by (cases p) (auto simp: run_imm run_reg run_branch run_jal run_jalr branch_takens imm_values rr_values
    alu_sub_def alu_subw_def alu_sltu_def alu_slt_def word_gt_0_no word_neq_0_conv)

subsection \<open>Guarantees\<close>

text \<open>C19. Both expansions of \<open>li\<close>, run on the machine's decoder and execute stage, leave the immediate in the destination
  and change no other register, except the scratch register \<open>t1\<close> when the immediate needs 64 bits. Two cases are
  left out, and in them the expansion fails: the immediates of the last 2048 below \<open>2 ^ 31\<close>, and 64-bit
  immediates with \<open>t1\<close> as their destination.\<close>

theorem li_loads_immediate:
  assumes "rd < 32" "length (x_regs r) = 32" "expansion = expand_li \<or> expansion = parser_expand_li"
    and "- (2 ^ 31) \<le> sint imm \<and> sint imm < 2 ^ 31 - 2048 \<or> rd \<noteq> 6 \<and> (sint imm < - (2 ^ 31) \<or> 2 ^ 31 \<le> sint imm)"
  shows "\<exists>v. run_reals h csrs (expansion rd imm) (pc, r) = Some (pc + 4 * of_nat (length (expansion rd imm)),
    write_x (unat rd) imm (if - (2 ^ 31) \<le> sint imm \<and> sint imm < 2 ^ 31 then r else write_x 6 v r))"
proof -
  have c: "- (2 ^ 31) \<le> sint imm \<Longrightarrow> sint imm < 2 ^ 31 - 2048 \<or> sint imm \<ge> 2 ^ 31 \<and> rd \<noteq> 6"
    "sint imm < - (2 ^ 31) \<Longrightarrow> rd \<noteq> 6" using assms(4) by auto
  show ?thesis using assms(3) pseudo_li.li_runs [OF assms(1,2) c] parser_li.li_runs [OF assms(1,2) c]
    unfolding expand_li_def parser_expand_li_def by blast
qed

theorem li_loads_immediate_witness:
  "\<forall>h. \<exists>v. run_reals h csr_file_new (expand_li 10 0x123456789ABCDEF0) (0x80000000, registers_new)
    = Some (0x80000020, write_x 10 0x123456789ABCDEF0 (write_x 6 v registers_new))"
proof -
  have l: "length (expand_li 10 0x123456789ABCDEF0) = 8" by code_simp
  have s: "sint (0x123456789ABCDEF0 :: u64) = 0x123456789ABCDEF0" by simp
  have r: "length (x_regs registers_new) = 32" by (simp add: registers_new_def)
  show ?thesis
    using li_loads_immediate [of 10 registers_new expand_li "0x123456789ABCDEF0" _ csr_file_new "0x80000000", OF _ r]
    by (simp add: l s)
qed

text \<open>C20. The integer pseudo-instructions \<open>nop\<close>, \<open>mv\<close>, \<open>not\<close>, \<open>neg\<close>, \<open>negw\<close>, \<open>sext.w\<close>, \<open>seqz\<close>,
  \<open>snez\<close>, \<open>sltz\<close>, \<open>sgtz\<close>, the ten branches on comparisons, \<open>j\<close>, \<open>jr\<close> and \<open>ret\<close> each expand
  to instructions which, run on the machine's decoder and execute stage, have exactly the documented effect on the
  program counter and the registers, when their registers and offsets are ones the encoder accepts.\<close>

theorem pseudo_expansion_correct:
  assumes "integer_pseudo p" "list_all instr_new_ok (expand p)"
  shows "\<exists>s. pseudo_effect p (pc, r) = Some s \<and> run_reals h csrs (expand p) (pc, r) = Some s"
proof -
  obtain s where "pseudo_effect p (pc, r) = Some s" using assms(1) by (cases p) (auto simp: integer_pseudo_def)
  with expansion_effect [OF assms(2) this] show ?thesis by blast
qed

theorem pseudo_expansion_correct_witness:
  "\<forall>h. run_reals h csr_file_new (expand (P_Bgtz 5 (- 8))) (0x80000010, write_x 5 7 registers_new)
    = Some (0x80000008, write_x 5 7 registers_new)"
proof -
  have n: "list_all instr_new_ok (expand (P_Bgtz 5 (- 8)))" by code_simp
  have "read_x (write_x 5 7 registers_new) 5 = 7" by (simp add: read_x_write_x_same registers_new_def)
  then have "pseudo_effect (P_Bgtz 5 (- 8)) (0x80000010, write_x 5 7 registers_new) = Some (0x80000008, write_x 5 7 registers_new)"
    by simp
  moreover have "integer_pseudo (P_Bgtz 5 (- 8))" by (simp add: integer_pseudo_def)
  ultimately show ?thesis
    using pseudo_expansion_correct [OF _ n, of "0x80000010" "write_x 5 7 registers_new" _ csr_file_new] by simp
qed

end
