(* ===== verification/Asm_Text.thy ===== *)
theory Asm_Text
  imports Asm_Pseudo
begin

text \<open>
  Assembly text (\<open>crates/asm-to-binary\<close>: \<open>rv_instruction.rs\<close>, \<open>assembler/directive.rs\<close>, \<open>assembler/parser.rs\<close>,
  \<open>assembler/section.rs\<close>, \<open>Assembler::assemble\<close>). \<open>parse_asm_source\<close> splits text into lines, \<open>parse\<close> turns them into
  tokens. A failed assertion of an instruction constructor is \<open>Asm_Panic\<close>. The text is ASCII, so characters
  are bytes.
\<close>

subsection \<open>Strings\<close>

text \<open>\<open>str::find\<close> with a character class, as the part before the hit and the part from it on.\<close>

definition before :: "(char \<Rightarrow> bool) \<Rightarrow> string \<Rightarrow> string" where
  "before p = takeWhile (\<lambda>c. \<not> p c)"

definition from_hit :: "(char \<Rightarrow> bool) \<Rightarrow> string \<Rightarrow> string" where
  "from_hit p = dropWhile (\<lambda>c. \<not> p c)"

fun splitn :: "nat \<Rightarrow> (char \<Rightarrow> bool) \<Rightarrow> string \<Rightarrow> string list" where
  "splitn 0 p s = []"
| "splitn (Suc 0) p s = [s]"
| "splitn (Suc (Suc n)) p s =
     (case from_hit p s of [] \<Rightarrow> [s] | _ # rest \<Rightarrow> before p s # splitn (Suc n) p rest)"

definition trim_start :: "string \<Rightarrow> string" where
  "trim_start = dropWhile is_whitespace"

definition trim_end :: "string \<Rightarrow> string" where
  "trim_end s = rev (dropWhile is_whitespace (rev s))"

definition starts_with :: "string \<Rightarrow> string \<Rightarrow> bool" where
  "starts_with p s = (take (length p) s = p)"

definition strip_suffix_char :: "char \<Rightarrow> string \<Rightarrow> string option" where
  "strip_suffix_char c s = (if s \<noteq> [] \<and> last s = c then Some (butlast s) else None)"

definition first_word :: "string \<Rightarrow> string" where
  "first_word s = before is_whitespace (trim_start s)"

text \<open>\<open>str::replace\<close> of a two-character pattern by one character.\<close>

fun replace_pair :: "char \<Rightarrow> char \<Rightarrow> char \<Rightarrow> string \<Rightarrow> string" where
  "replace_pair a b r (x # y # s) = (if x = a \<and> y = b then r # replace_pair a b r s else x # replace_pair a b r (y # s))"
| "replace_pair a b r s = s"

text \<open>\<open>from_str_radix\<close> of the integer types: a sign, for unsigned types only plus, then at least one digit.\<close>

definition digit_value :: "int \<Rightarrow> char \<Rightarrow> int option" where
  "digit_value radix c = (let n = (of_char c :: int);
       d = (if 48 \<le> n \<and> n \<le> 57 then n - 48 else if 97 \<le> n \<and> n \<le> 122 then n - 87
            else if 65 \<le> n \<and> n \<le> 90 then n - 55 else radix)
     in if d < radix then Some d else None)"

fun digits_value :: "int \<Rightarrow> int \<Rightarrow> string \<Rightarrow> int option" where
  "digits_value radix acc [] = Some acc"
| "digits_value radix acc (c # cs) =
     (case digit_value radix c of None \<Rightarrow> None | Some d \<Rightarrow> digits_value radix (acc * radix + d) cs)"

definition parse_unsigned :: "int \<Rightarrow> nat \<Rightarrow> string \<Rightarrow> int option" where
  "parse_unsigned radix bits s =
     (let t = (case s of c # cs \<Rightarrow> if c = CHR ''+'' then cs else s | [] \<Rightarrow> [])
      in if t = [] then None
         else (case digits_value radix 0 t of
                 None \<Rightarrow> None
               | Some v \<Rightarrow> if v < 2 ^ bits then Some v else None))"

definition parse_i64 :: "int \<Rightarrow> string \<Rightarrow> i64 option" where
  "parse_i64 radix s =
     (let neg = (case s of c # _ \<Rightarrow> c = CHR ''-'' | [] \<Rightarrow> False);
          t = (case s of c # cs \<Rightarrow> if c = CHR ''+'' \<or> c = CHR ''-'' then cs else s | [] \<Rightarrow> [])
      in if t = [] then None
         else (case digits_value radix 0 t of
                 None \<Rightarrow> None
               | Some v \<Rightarrow>
                   (if neg then (if v \<le> 2 ^ 63 then Some (- of_int v) else None)
                    else if v < 2 ^ 63 then Some (of_int v) else None)))"

type_synonym constants = "string \<rightharpoonup> i64"

subsection \<open>Directives\<close>

datatype directive =
    Dir_Section string
  | Dir_Globl string
  | Dir_Align u64
  | Dir_Balign u64
  | Dir_Byte u8
  | Dir_Half u16
  | Dir_Word u32
  | Dir_Dword u64
  | Dir_Asciz string
  | Dir_Space u64
  | Dir_Equ string i64
  | Dir_Unknown string

text \<open>The body of a string literal up to the first quote that is not escaped.\<close>

fun find_closing_quote :: "bool \<Rightarrow> string \<Rightarrow> string option" where
  "find_closing_quote escaped [] = None"
| "find_closing_quote escaped (c # cs) =
     (if escaped then map_option ((#) c) (find_closing_quote False cs)
      else if c = CHR 0x5C then map_option ((#) c) (find_closing_quote True cs)
      else if c = CHR 0x22 then Some []
      else map_option ((#) c) (find_closing_quote False cs))"

definition parse_quoted_string :: "string \<Rightarrow> string option" where
  "parse_quoted_string s0 =
     (case trim s0 of
        [] \<Rightarrow> None
      | q # body \<Rightarrow>
          (if q \<noteq> CHR 0x22 then None
           else map_option (\<lambda>t. replace_pair (CHR 0x5C) (CHR 0x5C) (CHR 0x5C)
                  (replace_pair (CHR 0x5C) (CHR 0x22) (CHR 0x22)
                  (replace_pair (CHR 0x5C) (CHR ''r'') (CHR 0x0D)
                  (replace_pair (CHR 0x5C) (CHR ''t'') (CHR 0x09)
                  (replace_pair (CHR 0x5C) (CHR ''n'') (CHR 0x0A) t)))))
             (find_closing_quote False body)))"

definition parse_u64 :: "string \<Rightarrow> constants \<Rightarrow> int option" where
  "parse_u64 v constants =
     (case constants (trim v) of
        Some c \<Rightarrow> (if 0 \<le> sint c then Some (uint c) else None)
      | None \<Rightarrow> parse_unsigned 10 64 (trim v))"

definition try_into_bits :: "nat \<Rightarrow> int \<Rightarrow> int option" where
  "try_into_bits bits v = (if v < 2 ^ bits then Some v else None)"

definition is_ident_char :: "char \<Rightarrow> bool" where
  "is_ident_char c = (let n = (of_char c :: nat) in
     48 \<le> n \<and> n \<le> 57 \<or> 65 \<le> n \<and> n \<le> 90 \<or> 97 \<le> n \<and> n \<le> 122 \<or> c = CHR ''_'')"

definition parse_equ :: "string \<Rightarrow> directive option" where
  "parse_equ rest =
     (case splitn 2 (\<lambda>c. c = CHR '','') rest of
        name0 # parts \<Rightarrow>
          (let name = trim name0
           in if name = [] \<or> \<not> list_all is_ident_char name then None
              else (case parts of
                      [] \<Rightarrow> None
                    | v # _ \<Rightarrow> map_option (Dir_Equ name) (parse_i64 10 (trim v))))
      | [] \<Rightarrow> None)"

definition known_directives :: "string list" where
  "known_directives = [''.section'', ''.text'', ''.data'', ''.rodata'', ''.bss'', ''.globl'', ''.global'', ''.align'',
     ''.balign'', ''.byte'', ''.half'', ''.short'', ''.word'', ''.long'', ''.dword'', ''.quad'',
     ''.asciz'', ''.string'', ''.space'', ''.zero'', ''.equ'', ''.set'']"

definition parse_with_constants :: "string \<Rightarrow> constants \<Rightarrow> directive option" where
  "parse_with_constants raw constants =
     (let s = trim raw
      in if \<not> starts_with ''.'' s then None
         else
           (let m = before is_whitespace s; rest = trim (drop 1 (from_hit is_whitespace s))
            in if m = ''.section'' \<and> rest \<noteq> [] then Some (Dir_Section rest)
               else if m \<in> set [''.text'', ''.data'', ''.rodata'', ''.bss''] \<and> rest = [] then Some (Dir_Section m)
               else if m \<in> set [''.globl'', ''.global''] \<and> rest \<noteq> [] then Some (Dir_Globl rest)
               else if m = ''.align'' then map_option (Dir_Align \<circ> of_int) (parse_u64 rest constants)
               else if m = ''.balign'' then map_option (Dir_Balign \<circ> of_int) (parse_u64 rest constants)
               else if m = ''.byte'' then map_option (Dir_Byte \<circ> of_int) (Option.bind (parse_u64 rest constants) (try_into_bits 8))
               else if m \<in> set [''.half'', ''.short''] then map_option (Dir_Half \<circ> of_int) (Option.bind (parse_u64 rest constants) (try_into_bits 16))
               else if m \<in> set [''.word'', ''.long''] then map_option (Dir_Word \<circ> of_int) (Option.bind (parse_u64 rest constants) (try_into_bits 32))
               else if m \<in> set [''.dword'', ''.quad''] then map_option (Dir_Dword \<circ> of_int) (parse_u64 rest constants)
               else if m \<in> set [''.asciz'', ''.string''] then map_option Dir_Asciz (parse_quoted_string rest)
               else if m \<in> set [''.space'', ''.zero''] then map_option (Dir_Space \<circ> of_int) (parse_u64 rest constants)
               else if m \<in> set [''.equ'', ''.set''] then parse_equ rest
               else if m \<in> set known_directives then None
               else Some (Dir_Unknown s)))"

definition directive_parse :: "string \<Rightarrow> directive option" where
  "directive_parse raw = parse_with_constants raw Map.empty"

definition section_from_str :: "string \<Rightarrow> section_kind" where
  "section_from_str s0 =
     (let s = trim s0
      in if s = ''.text'' then Sec_Text else if s = ''.data'' then Sec_Data else if s = ''.rodata'' then Sec_RoData
         else if s = ''.bss'' then Sec_Bss else Sec_Custom s)"

definition push_directive :: "directive \<Rightarrow> asm_token list asm" where
  "push_directive dir = (case dir of
     Dir_Section name \<Rightarrow> Inr [T_Section (section_from_str name)]
   | Dir_Globl name \<Rightarrow> Inr [T_Globl name]
   | Dir_Align n \<Rightarrow> Inr [T_Align n]
   | Dir_Balign n \<Rightarrow> Inr [T_Balign n]
   | Dir_Byte b \<Rightarrow> Inr [T_DataU8 b]
   | Dir_Half h \<Rightarrow> Inr [T_DataU16 h]
   | Dir_Word w \<Rightarrow> Inr [T_DataU32 w]
   | Dir_Dword d \<Rightarrow> Inr [T_DataU64 d]
   | Dir_Asciz s \<Rightarrow> Inr [T_DataAsciz s]
   | Dir_Space n \<Rightarrow> Inr [T_Space n]
   | Dir_Equ _ _ \<Rightarrow> Inr []
   | Dir_Unknown raw \<Rightarrow> Inl (AssemblerError (''unknown directive: '' @ raw)))"

subsection \<open>Operands\<close>

abbreviation (input) comma :: "char \<Rightarrow> bool" where "comma \<equiv> \<lambda>c. c = CHR '',''"

definition parse_int_reg :: "string \<Rightarrow> u8 option" where
  "parse_int_reg name = map_option reg_number (int_reg_parse name)"

definition strip_hex_prefix :: "string \<Rightarrow> string option" where
  "strip_hex_prefix s = (if starts_with ''0x'' s \<or> starts_with ''0X'' s then Some (drop 2 s) else None)"

definition parse_imm_i64 :: "string \<Rightarrow> constants \<Rightarrow> i64 option" where
  "parse_imm_i64 s0 constants =
     (let s = trim s0
      in case constants s of
           Some v \<Rightarrow> Some v
         | None \<Rightarrow> (case strip_hex_prefix s of Some hex \<Rightarrow> parse_i64 16 hex | None \<Rightarrow> parse_i64 10 s))"

text \<open>\<open>try_into\<close> from \<open>i64\<close> to \<open>i32\<close>.\<close>

definition try_into_i32 :: "i64 \<Rightarrow> i32 option" where
  "try_into_i32 v = (if - (2 ^ 31) \<le> sint v \<and> sint v < 2 ^ 31 then Some (ucast v) else None)"

text \<open>\<open>find(',')\<close> and the two sides of the comma.\<close>

definition at_comma :: "string \<Rightarrow> (string \<times> string) option" where
  "at_comma operands = (case from_hit comma operands of
     [] \<Rightarrow> None | _ # rest \<Rightarrow> Some (trim (before comma operands), trim rest))"

definition parse_two_fields :: "string \<Rightarrow> (string \<times> string) option" where
  "parse_two_fields = at_comma"

definition parse_two_regs :: "string \<Rightarrow> (u8 \<times> u8) option" where
  "parse_two_regs operands =
     Option.bind (parse_two_fields operands) (\<lambda>(rd_str, rs_str).
     Option.bind (parse_int_reg rd_str) (\<lambda>rd. Option.bind (parse_int_reg rs_str) (\<lambda>rs. Some (rd, rs))))"

definition parse_r_i_imm :: "string \<Rightarrow> constants \<Rightarrow> (u8 \<times> u8 \<times> i32) option" where
  "parse_r_i_imm operands constants = (case splitn 3 comma operands of
     a # b # c # _ \<Rightarrow>
       Option.bind (parse_int_reg (trim a)) (\<lambda>rd. Option.bind (parse_int_reg (trim b)) (\<lambda>rs1.
       Option.bind (Option.bind (parse_imm_i64 (trim c) constants) try_into_i32) (\<lambda>imm. Some (rd, rs1, imm))))
   | _ \<Rightarrow> None)"

definition parse_mem_ref :: "string \<Rightarrow> constants \<Rightarrow> (u8 \<times> i32) option" where
  "parse_mem_ref s constants =
     (let close = from_hit (\<lambda>c. c = CHR '')'') s; opened = from_hit (\<lambda>c. c = CHR ''('') s;
          lparen = length (before (\<lambda>c. c = CHR ''('') s); rparen = length (before (\<lambda>c. c = CHR '')'') s)
      in if opened = [] \<or> close = [] \<or> rparen + 1 \<noteq> length s then None
         else Option.bind (Option.bind (parse_imm_i64 (trim (take lparen s)) constants) try_into_i32) (\<lambda>imm.
              Option.bind (parse_int_reg (trim (drop (lparen + 1) (take rparen s)))) (\<lambda>rs1. Some (rs1, imm))))"

definition parse_load_mem :: "string \<Rightarrow> constants \<Rightarrow> (u8 \<times> u8 \<times> i32) option" where
  "parse_load_mem operands constants =
     Option.bind (at_comma operands) (\<lambda>(a, b). Option.bind (parse_int_reg a) (\<lambda>rd.
     Option.bind (parse_mem_ref b constants) (\<lambda>(rs1, imm). Some (rd, rs1, imm))))"

definition parse_store_mem :: "string \<Rightarrow> constants \<Rightarrow> (u8 \<times> u8 \<times> i32) option" where
  "parse_store_mem operands constants =
     Option.bind (at_comma operands) (\<lambda>(a, b). Option.bind (parse_int_reg a) (\<lambda>rs2.
     Option.bind (parse_mem_ref b constants) (\<lambda>(rs1, imm). Some (rs2, rs1, imm))))"

definition split_mnemonic :: "string \<Rightarrow> string \<times> string" where
  "split_mnemonic s = (before is_whitespace s, trim_start (from_hit is_whitespace s))"

definition parse_branch :: "branch_kind \<Rightarrow> string \<Rightarrow> asm_token option" where
  "parse_branch kind operands = (case splitn 3 comma operands of
     [a, b, c] \<Rightarrow> Option.bind (parse_int_reg (trim a)) (\<lambda>rs1. Option.bind (parse_int_reg (trim b)) (\<lambda>rs2.
       Some (T_Branch kind rs1 rs2 (trim c))))
   | _ \<Rightarrow> None)"

definition parse_jal :: "string \<Rightarrow> asm_token option" where
  "parse_jal operands = (case splitn 2 comma operands of
     [a, b] \<Rightarrow> Option.bind (parse_int_reg (trim a)) (\<lambda>rd. Some (T_Jal rd (trim b)))
   | [a] \<Rightarrow> (if trim a = [] then None else Some (T_Jal 1 (trim a)))
   | _ \<Rightarrow> None)"

definition parse_la :: "string \<Rightarrow> asm_token option" where
  "parse_la operands = (case splitn 2 comma operands of
     [a, b] \<Rightarrow> Option.bind (parse_int_reg (trim a)) (\<lambda>rd. if trim b = [] then None else Some (T_La rd (trim b)))
   | _ \<Rightarrow> None)"

definition parse_branch_vs_zero :: "string \<Rightarrow> string \<Rightarrow> asm_token option" where
  "parse_branch_vs_zero m operands =
     Option.bind (at_comma operands) (\<lambda>(a, target). Option.bind (parse_int_reg a) (\<lambda>rs.
       if target = [] then None
       else if m = ''blez'' then Some (T_Branch Bk_Bge 0 rs target)
       else if m = ''bgez'' then Some (T_Branch Bk_Bge rs 0 target)
       else if m = ''bltz'' then Some (T_Branch Bk_Blt rs 0 target)
       else if m = ''bgtz'' then Some (T_Branch Bk_Blt 0 rs target)
       else None))"

definition parse_branch_zero :: "branch_kind \<Rightarrow> string \<Rightarrow> asm_token option" where
  "parse_branch_zero kind operands =
     Option.bind (at_comma operands) (\<lambda>(a, target). Option.bind (parse_int_reg a) (\<lambda>rs1.
       if target = [] then None else Some (T_Branch kind rs1 0 target)))"

definition csr_names :: "(string \<times> u16) list" where
  "csr_names = [(''mstatus'', 0x300), (''misa'', 0x301), (''medeleg'', 0x302), (''mideleg'', 0x303), (''mie'', 0x304),
     (''mtvec'', 0x305), (''mscratch'', 0x340), (''mepc'', 0x341), (''mcause'', 0x342), (''mtval'', 0x343),
     (''mip'', 0x344), (''pmpcfg0'', 0x3A0), (''pmpaddr0'', 0x3B0),
     (''sstatus'', 0x100), (''sie'', 0x104), (''stvec'', 0x105), (''sscratch'', 0x140), (''sepc'', 0x141),
     (''scause'', 0x142), (''stval'', 0x143), (''sip'', 0x144), (''satp'', 0x180)]"

definition parse_csr_name :: "string \<Rightarrow> constants \<Rightarrow> u16 option" where
  "parse_csr_name name constants =
     (let s = trim name
      in case map_of csr_names s of
           Some a \<Rightarrow> Some a
         | None \<Rightarrow>
             (case strip_hex_prefix s of
                Some hex \<Rightarrow> map_option of_int (parse_unsigned 16 16 hex)
              | None \<Rightarrow>
                  (case Option.bind (constants s) (\<lambda>v. if 0 \<le> sint v \<and> sint v < 2 ^ 16 then Some (ucast v) else None) of
                     Some a \<Rightarrow> Some a
                   | None \<Rightarrow> map_option of_int (parse_unsigned 10 16 s))))"

subsection \<open>Instruction lines\<close>

text \<open>A constructor: its assertions, then the token.\<close>

definition real_new :: "real_instruction \<Rightarrow> asm_token list asm" where
  "real_new i = (if instr_new_ok i then Inr [T_Real i] else Inl Asm_Panic)"

definition reals_new :: "real_instruction list \<Rightarrow> asm_token list asm" where
  "reals_new is = (if list_all instr_new_ok is then Inr (map T_Real is) else Inl Asm_Panic)"

definition malformed :: "string \<Rightarrow> string \<Rightarrow> 'a asm" where
  "malformed m l = Inl (AssemblerError (''malformed '' @ m @ '': '' @ l))"

definition or_malformed :: "string \<Rightarrow> string \<Rightarrow> asm_token option \<Rightarrow> asm_token list asm" where
  "or_malformed m l tok = (case tok of Some t \<Rightarrow> Inr [t] | None \<Rightarrow> malformed m l)"

definition parse_csrr :: "string \<Rightarrow> constants \<Rightarrow> real_instruction option" where
  "parse_csrr operands constants =
     Option.bind (at_comma operands) (\<lambda>(a, b). Option.bind (parse_int_reg a) (\<lambda>rd.
     Option.bind (parse_csr_name b constants) (\<lambda>csr. Some (RI_CsrReg Csrrs rd csr 0))))"

definition parse_csrw :: "string \<Rightarrow> constants \<Rightarrow> real_instruction option" where
  "parse_csrw operands constants =
     Option.bind (at_comma operands) (\<lambda>(a, b). Option.bind (parse_csr_name a constants) (\<lambda>csr.
     Option.bind (parse_int_reg b) (\<lambda>rs. Some (RI_CsrReg Csrrw 0 csr rs))))"

definition csr_rmw_ids :: "(string \<times> base_id) list" where
  "csr_rmw_ids = [(''csrrw'', Csrrw), (''csrrs'', Csrrs), (''csrrc'', Csrrc)]"

definition parse_csr_rmw :: "string \<Rightarrow> string \<Rightarrow> constants \<Rightarrow> real_instruction option" where
  "parse_csr_rmw m operands constants = (case splitn 3 comma operands of
     [a, b, c] \<Rightarrow> Option.bind (parse_int_reg (trim a)) (\<lambda>rd. Option.bind (parse_csr_name (trim b) constants) (\<lambda>csr.
       Option.bind (parse_int_reg (trim c)) (\<lambda>rs1. map_option (\<lambda>i. RI_CsrReg i rd csr rs1) (map_of csr_rmw_ids m))))
   | _ \<Rightarrow> None)"

definition r_type_ids :: "(string \<times> rr_id) list" where
  "r_type_ids = [(''add'', Add), (''sub'', Sub), (''and'', And), (''srl'', Srl), (''or'', Or), (''mulh'', Mulh),
     (''mulhsu'', Mulhsu), (''mulhu'', Mulhu), (''div'', Div), (''divu'', Divu), (''rem'', Rem), (''remu'', Remu),
     (''mul'', Mul), (''mulw'', Mulw), (''divw'', Divw), (''divuw'', Divuw), (''remw'', Remw), (''remuw'', Remuw)]"

definition parse_r_type :: "string \<Rightarrow> string \<Rightarrow> real_instruction option" where
  "parse_r_type m operands = (case splitn 3 comma operands of
     [a, b, c] \<Rightarrow> Option.bind (parse_int_reg (trim a)) (\<lambda>rd. Option.bind (parse_int_reg (trim b)) (\<lambda>rs1.
       Option.bind (parse_int_reg (trim c)) (\<lambda>rs2. map_option (\<lambda>i. RI_Reg i rd rs1 rs2) (map_of r_type_ids m))))
   | _ \<Rightarrow> None)"

definition store_ids :: "(string \<times> base_id) list" where
  "store_ids = [(''sb'', Sb), (''sw'', Sw), (''sd'', Sd)]"

definition load_ids :: "(string \<times> base_id) list" where
  "load_ids = [(''lb'', Lb), (''lbu'', Lbu), (''lw'', Lw), (''ld'', Ld)]"

definition imm_ids :: "(string \<times> base_id) list" where
  "imm_ids = [(''addi'', Addi), (''addiw'', Addiw), (''andi'', Andi), (''ori'', Ori)]"

definition shift_names :: "(string \<times> base_id) list" where
  "shift_names = [(''slli'', Slli), (''srli'', Srli), (''srai'', Srai)]"

definition no_operand :: "(string \<times> real_instruction) list" where
  "no_operand = [(''ecall'', RI_System base_id.Ecall), (''wfi'', RI_System Wfi), (''ret'', RI_Jalr 0 1 0),
     (''nop'', RI_Imm Addi 0 0 0), (''mret'', RI_System base_id.Mret), (''sret'', RI_System base_id.Sret)]"

definition or_new :: "string \<Rightarrow> string \<Rightarrow> real_instruction option \<Rightarrow> asm_token list asm" where
  "or_new m l i = (case i of Some r \<Rightarrow> real_new r | None \<Rightarrow> malformed m l)"

text \<open>The arms of the match on the mnemonic, in order.\<close>

definition dispatch_mnemonic :: "string \<Rightarrow> string \<Rightarrow> string \<Rightarrow> constants \<Rightarrow> asm_token list asm" where
  "dispatch_mnemonic l m rest constants =
     (if m = ''call'' then or_malformed m l (if trim rest = [] then None else Some (T_Call (trim rest)))
      else if m = ''tail'' then or_malformed m l (if trim rest = [] then None else Some (T_Tail (trim rest)))
      else if m = ''j'' then or_malformed m l (if trim rest = [] then None else Some (T_Jal 0 (trim rest)))
      else if m = ''jal'' then or_malformed m l (parse_jal rest)
      else if m = ''la'' then or_malformed m l (parse_la rest)
      else if m = ''jalr'' then or_new m l (map_option (\<lambda>(rd, rs1, imm). RI_Jalr rd rs1 imm) (parse_load_mem rest constants))
      else if m \<in> set (map fst no_operand) \<and> rest = [] then real_new (the (map_of no_operand m))
      else if m = ''sfence.vma'' then
        (if rest \<noteq> [] \<and> parse_two_regs rest \<noteq> Some (0, 0) then malformed m l else real_new (RI_System SfenceVma))
      else if m = ''li'' then
        (case Option.bind (parse_two_fields rest) (\<lambda>(a, b). Option.bind (parse_int_reg a) (\<lambda>rd.
                map_option (parser_expand_li rd) (parse_imm_i64 b constants))) of
           Some is \<Rightarrow> reals_new is | None \<Rightarrow> malformed m l)
      else if m = ''mv'' then or_new m l (map_option (\<lambda>(rd, rs). RI_Imm Addi rd rs 0) (parse_two_regs rest))
      else if m \<in> set (map fst store_ids) then
        or_new m l (map_option (\<lambda>(rs2, rs1, imm). RI_Store (the (map_of store_ids m)) rs1 rs2 imm) (parse_store_mem rest constants))
      else if m \<in> set (map fst load_ids) then
        or_new m l (map_option (\<lambda>(rd, rs1, imm). RI_Load (the (map_of load_ids m)) rd rs1 imm) (parse_load_mem rest constants))
      else if m \<in> set (map fst imm_ids) then
        or_new m l (map_option (\<lambda>(rd, rs1, imm). RI_Imm (the (map_of imm_ids m)) rd rs1 imm) (parse_r_i_imm rest constants))
      else if m \<in> set (map fst shift_names) then
        or_new m l (Option.bind (parse_r_i_imm rest constants) (\<lambda>(rd, rs1, shamt).
          if 0 \<le> sint shamt \<and> sint shamt \<le> 63 then Some (RI_Shift (the (map_of shift_names m)) rd rs1 (ucast shamt)) else None))
      else if m = ''csrr'' then or_new m l (parse_csrr rest constants)
      else if m = ''csrw'' then or_new m l (parse_csrw rest constants)
      else if m \<in> set (map fst csr_rmw_ids) then or_new m l (parse_csr_rmw m rest constants)
      else if m = ''ble'' \<or> m = ''bgt'' then
        (case parse_branch (if m = ''ble'' then Bk_Bge else Bk_Blt) rest of
           Some (T_Branch kind rs1 rs2 target) \<Rightarrow> Inr [T_Branch kind rs2 rs1 target]
         | _ \<Rightarrow> malformed m l)
      else if m \<in> set [''blez'', ''bgez'', ''bltz'', ''bgtz''] then or_malformed m l (parse_branch_vs_zero m rest)
      else if m = ''beqz'' then or_malformed m l (parse_branch_zero Bk_Beq rest)
      else if m = ''bnez'' then or_malformed m l (parse_branch_zero Bk_Bne rest)
      else (case parse_r_type m rest of
              Some i \<Rightarrow> real_new i
            | None \<Rightarrow> Inl (AssemblerError (''unknown or malformed instruction: '' @ l))))"

abbreviation (input) comment_start :: "char \<Rightarrow> bool" where "comment_start \<equiv> \<lambda>c. c = CHR '';'' \<or> c = CHR ''#''"

definition strip_comment :: "string \<Rightarrow> string" where
  "strip_comment s = (if from_hit comment_start s = [] then s else trim_end (before comment_start s))"

definition parse_instruction_line :: "string \<Rightarrow> constants \<Rightarrow> asm_token list asm" where
  "parse_instruction_line line0 constants =
     (let l = strip_comment line0
      in if l = [] then Inr []
         else (case split_mnemonic l of (m, rest) \<Rightarrow>
           (case branch_kind_from_mnemonic m of
              Some kind \<Rightarrow> or_malformed m l (parse_branch kind rest)
            | None \<Rightarrow> dispatch_mnemonic l m rest constants)))"

subsection \<open>Lines and programs\<close>

definition is_string_directive :: "string \<Rightarrow> bool" where
  "is_string_directive raw = list_ex (\<lambda>d. starts_with d (trim_start raw))
     [''.asciz '', ''.string '', ''.asciz'' @ [CHR 0x09], ''.string'' @ [CHR 0x09]]"

definition label_line :: "string \<Rightarrow> string option" where
  "label_line s = (case strip_suffix_char (CHR '':'') s of
     Some l \<Rightarrow> (if l \<noteq> [] \<and> \<not> list_ex is_whitespace l then Some l else None) | None \<Rightarrow> None)"

definition parse_directive_or_instruction :: "string \<Rightarrow> constants \<Rightarrow> asm_token list asm" where
  "parse_directive_or_instruction raw0 constants =
     (let trimmed = trim (if is_string_directive raw0 then raw0 else strip_comment raw0)
      in if trimmed = [] then Inr []
         else (case label_line trimmed of
                 Some l \<Rightarrow> Inr [T_Label l]
               | None \<Rightarrow>
                   (if starts_with ''.'' trimmed
                    then (case parse_with_constants trimmed constants of
                            Some dir \<Rightarrow> push_directive dir
                          | None \<Rightarrow> Inl (AssemblerError (''malformed directive: '' @ trimmed)))
                    else parse_instruction_line trimmed constants)))"

datatype rv_instruction =
    RV_Real real_instruction
  | RV_Pseudo pseudo_instruction
  | RV_Label string
  | RV_Comment string
  | RV_Directive string
  | RV_SourceLoc string u32

definition error_at :: "(string \<times> u32) option \<Rightarrow> 'a asm \<Rightarrow> 'a asm" where
  "error_at location r = (case r of
     Inl (AssemblerError m) \<Rightarrow> Inl (AssemblerError (case location of
        Some (file, n) \<Rightarrow> m @ '' at '' @ file @ '':'' @ show_int (uint n) | None \<Rightarrow> m))
   | _ \<Rightarrow> r)"

fun collect_constants :: "rv_instruction list \<Rightarrow> (string \<times> u32) option \<Rightarrow> constants \<Rightarrow> constants asm" where
  "collect_constants [] location constants = Inr constants"
| "collect_constants (RV_SourceLoc file n # ts) location constants = collect_constants ts (Some (file, n)) constants"
| "collect_constants (RV_Directive raw # ts) location constants =
     (let trimmed = trim (before comment_start raw)
      in if first_word trimmed \<notin> set [''.equ'', ''.set''] then collect_constants ts location constants
         else (case directive_parse trimmed of
                 Some (Dir_Equ name v) \<Rightarrow>
                   (if constants name \<noteq> None
                    then error_at location (Inl (AssemblerError (''duplicate assembler constant `'' @ name @ ''`'')))
                    else collect_constants ts location (constants(name \<mapsto> v)))
               | _ \<Rightarrow> error_at location (Inl (AssemblerError (''malformed constant directive: '' @ trimmed)))))"
| "collect_constants (_ # ts) location constants = collect_constants ts location constants"

fun parse_pseudo :: "pseudo_instruction \<Rightarrow> asm_token list asm" where
  "parse_pseudo (P_Call symbol) = Inr [T_Call symbol]"
| "parse_pseudo (P_Tail symbol) = Inr [T_Tail symbol]"
| "parse_pseudo (P_La rd symbol) = Inr [T_La rd symbol]"
| "parse_pseudo p = reals_new (expand p)"

fun parse_tokens :: "rv_instruction list \<Rightarrow> constants \<Rightarrow> (string \<times> u32) option \<Rightarrow> asm_token list asm" where
  "parse_tokens [] constants location = Inr []"
| "parse_tokens (t # ts) constants location =
     (let location' = (case t of RV_SourceLoc file n \<Rightarrow> Some (file, n) | _ \<Rightarrow> location)
      in abind (case t of
           RV_Real inst \<Rightarrow> Inr [T_Real inst]
         | RV_Pseudo p \<Rightarrow> parse_pseudo p
         | RV_Label name \<Rightarrow> Inr [T_Label name]
         | RV_Comment _ \<Rightarrow> Inr [T_Comment]
         | RV_SourceLoc file n \<Rightarrow> Inr [T_Loc file n]
         | RV_Directive raw \<Rightarrow> error_at location (parse_directive_or_instruction raw constants)) (\<lambda>new.
       abind (parse_tokens ts constants location') (\<lambda>out. Inr (new @ out))))"

definition parse_program :: "rv_instruction list \<Rightarrow> asm_token list asm" where
  "parse_program ts = abind (collect_constants ts None Map.empty) (\<lambda>constants. parse_tokens ts constants None)"

definition assemble :: "rv_instruction list \<Rightarrow> assembled_output asm" where
  "assemble ts = abind (parse_program ts) assemble_tokens"

text \<open>\<open>str::lines\<close>.\<close>

lemma from_hit_shorter [termination_simp]: "from_hit p s = c # rest \<Longrightarrow> length rest < length s"
  using length_dropWhile_le [of "\<lambda>c. \<not> p c" s] by (simp add: from_hit_def)

fun source_lines :: "string \<Rightarrow> string list" where
  "source_lines s = (case from_hit (\<lambda>c. c = CHR 0x0A) s of
     [] \<Rightarrow> (if s = [] then [] else [s])
   | _ # rest \<Rightarrow> (let l = before (\<lambda>c. c = CHR 0x0A) s
                     in (if l \<noteq> [] \<and> last l = CHR 0x0D then butlast l else l) # source_lines rest))"

fun parse_lines :: "string option \<Rightarrow> nat \<Rightarrow> string list \<Rightarrow> rv_instruction list" where
  "parse_lines file index [] = []"
| "parse_lines file index (raw # ls) =
     (let l = trim raw; rest = parse_lines file (index + 1) ls
      in if l = [] \<or> starts_with ''#'' l \<or> starts_with '';'' l then rest
         else (case label_line l of
                 Some name \<Rightarrow> RV_Label name # rest
               | None \<Rightarrow>
                   (if starts_with ''.'' l then RV_Directive l # rest
                    else (case file of Some f \<Rightarrow> [RV_SourceLoc f (of_nat (index + 1))] | None \<Rightarrow> [])
                      @ RV_Directive (CHR 0x09 # l) # rest)))"

definition parse_asm_source :: "string option \<Rightarrow> string \<Rightarrow> rv_instruction list" where
  "parse_asm_source file src = parse_lines file 0 (source_lines src)"

end
