(* ===== verification/Asm_Print.thy ===== *)
theory Asm_Print
  imports Asm_Text
begin

text \<open>
  The assembly text of instructions (\<open>to_asm\<close> in \<open>macros.rs\<close>, \<open>riscv/\<close> and \<open>pseudo.rs\<close>, \<open>RvInstruction\<close>'s \<open>Display\<close>) and
  its way back: the printed line of every instruction the text parser knows parses to that instruction.
\<close>

subsection \<open>Printing\<close>

text \<open>\<open>reg_name\<close> of \<open>utils.rs\<close>, and \<open>{:<6}\<close>.\<close>

definition asm_reg_name :: "u8 \<Rightarrow> bool \<Rightarrow> string" where
  "asm_reg_name register float =
     (case (if float then float_register_name (unat register) else integer_register_name (unat register)) of
        Some name \<Rightarrow> name
      | None \<Rightarrow> (if float then ''f'' else ''x'') @ show_dec (unat register))"

definition pad6 :: "string \<Rightarrow> string" where
  "pad6 s = s @ replicate (6 - length s) (CHR '' '')"

fun join_operands :: "string list \<Rightarrow> string" where
  "join_operands [] = ''''"
| "join_operands [a] = a"
| "join_operands (a # b # ops) = a @ '', '' @ join_operands (b # ops)"

definition fence_mask :: "u8 \<Rightarrow> string" where
  "fence_mask m =
     (let s = (if bit m 3 then ''i'' else '''') @ (if bit m 2 then ''o'' else '''')
            @ (if bit m 1 then ''r'' else '''') @ (if bit m 0 then ''w'' else '''')
      in if s = '''' then ''0'' else s)"

definition ordering_suffix :: "bool \<Rightarrow> bool \<Rightarrow> string" where
  "ordering_suffix aq rl = (if aq then (if rl then ''.aqrl'' else ''.aq'') else (if rl then ''.rl'' else ''''))"

abbreviation (input) xr :: "u8 \<Rightarrow> string" where "xr r \<equiv> asm_reg_name r False"
abbreviation (input) fr :: "u8 \<Rightarrow> string" where "fr r \<equiv> asm_reg_name r True"

definition instr_line :: "string \<Rightarrow> string list \<Rightarrow> string" where
  "instr_line m ops = m @ '' '' @ join_operands ops"

definition mem_ref :: "i32 \<Rightarrow> u8 \<Rightarrow> string" where
  "mem_ref offset base = show_int (sint offset) @ ''('' @ xr base @ '')''"

text \<open>One definition per format, in the order of the instructions, then the dispatch.\<close>

definition r_type_to_asm :: "rr_id \<Rightarrow> u8 \<Rightarrow> u8 \<Rightarrow> u8 \<Rightarrow> string" where
  "r_type_to_asm i rd rs1 rs2 = instr_line (pad6 (mnemonic (Rr i))) [xr rd, xr rs1, xr rs2]"

definition i_imm_to_asm :: "base_id \<Rightarrow> u8 \<Rightarrow> u8 \<Rightarrow> i32 \<Rightarrow> string" where
  "i_imm_to_asm i rd rs1 imm = instr_line (pad6 (mnemonic (Base i))) [xr rd, xr rs1, show_int (sint imm)]"

definition i_load_to_asm :: "base_id \<Rightarrow> u8 \<Rightarrow> u8 \<Rightarrow> i32 \<Rightarrow> string" where
  "i_load_to_asm i rd base offset = instr_line (pad6 (mnemonic (Base i))) [xr rd, mem_ref offset base]"

definition shift_to_asm :: "base_id \<Rightarrow> u8 \<Rightarrow> u8 \<Rightarrow> u8 \<Rightarrow> string" where
  "shift_to_asm i rd rs1 shamt =
     instr_line (if i \<in> set shift_ids then mnemonic (Base i) @ '' '' else mnemonic (Base i)) [xr rd, xr rs1, show_int (uint shamt)]"

definition s_type_to_asm :: "base_id \<Rightarrow> u8 \<Rightarrow> u8 \<Rightarrow> i32 \<Rightarrow> string" where
  "s_type_to_asm i base src offset = instr_line (pad6 (mnemonic (Base i))) [xr src, mem_ref offset base]"

definition b_type_to_asm :: "base_id \<Rightarrow> u8 \<Rightarrow> u8 \<Rightarrow> i32 \<Rightarrow> string" where
  "b_type_to_asm i rs1 rs2 offset = instr_line (pad6 (mnemonic (Base i))) [xr rs1, xr rs2, show_int (sint offset)]"

definition u_type_to_asm :: "upper_id \<Rightarrow> u8 \<Rightarrow> i32 \<Rightarrow> string" where
  "u_type_to_asm i rd imm = instr_line (pad6 (mnemonic (Upper i))) [xr rd, show_hex (unat (drop_bit 12 imm))]"

definition j_type_to_asm :: "u8 \<Rightarrow> i32 \<Rightarrow> string" where
  "j_type_to_asm rd offset = instr_line (pad6 (mnemonic (Base Jal))) [xr rd, show_int (sint offset)]"

definition jalr_to_asm :: "u8 \<Rightarrow> u8 \<Rightarrow> i32 \<Rightarrow> string" where
  "jalr_to_asm rd rs1 imm = instr_line (pad6 (mnemonic (Base Jalr))) [xr rd, mem_ref imm rs1]"

definition system_to_asm :: "base_id \<Rightarrow> string" where
  "system_to_asm i = (if i = SfenceVma then mnemonic (Base i) @ '' x0, x0'' else mnemonic (Base i))"

definition fence_to_asm :: "u8 \<Rightarrow> u8 \<Rightarrow> u8 \<Rightarrow> string" where
  "fence_to_asm fm pred succ =
     instr_line (mnemonic (Base Fence)) ([fence_mask pred, fence_mask succ] @ (if fm = 0 then [] else [''fm='' @ show_hex (unat fm)]))"

definition csr_reg_to_asm :: "base_id \<Rightarrow> u8 \<Rightarrow> u16 \<Rightarrow> u8 \<Rightarrow> string" where
  "csr_reg_to_asm i rd csr rs1 = instr_line (pad6 (mnemonic (Base i))) [xr rd, show_int (uint csr), xr rs1]"

definition csr_imm_to_asm :: "base_id \<Rightarrow> u8 \<Rightarrow> u16 \<Rightarrow> u8 \<Rightarrow> string" where
  "csr_imm_to_asm i rd csr uimm = instr_line (pad6 (mnemonic (Base i))) [xr rd, show_int (uint csr), show_int (uint uimm)]"

definition amo_to_asm :: "atomic_id \<Rightarrow> u8 \<Rightarrow> u8 \<Rightarrow> u8 \<Rightarrow> bool \<Rightarrow> bool \<Rightarrow> string" where
  "amo_to_asm i rd addr src aq rl = instr_line (mnemonic (Atomic i) @ ordering_suffix aq rl) [xr rd, xr src, ''('' @ xr addr @ '')'']"

definition lr_to_asm :: "bool \<Rightarrow> u8 \<Rightarrow> u8 \<Rightarrow> bool \<Rightarrow> bool \<Rightarrow> string" where
  "lr_to_asm double rd addr aq rl = instr_line (mnemonic (Atomic (lr_id double)) @ ordering_suffix aq rl) [xr rd, ''('' @ xr addr @ '')'']"

definition sc_to_asm :: "bool \<Rightarrow> u8 \<Rightarrow> u8 \<Rightarrow> u8 \<Rightarrow> bool \<Rightarrow> bool \<Rightarrow> string" where
  "sc_to_asm double rd addr src aq rl =
     instr_line (mnemonic (Atomic (sc_id double)) @ ordering_suffix aq rl) [xr rd, xr src, ''('' @ xr addr @ '')'']"

definition f_load_to_asm :: "fp_id \<Rightarrow> u8 \<Rightarrow> u8 \<Rightarrow> i32 \<Rightarrow> string" where
  "f_load_to_asm i rd base offset = instr_line (pad6 (mnemonic (Fp i))) [fr rd, mem_ref offset base]"

definition f_store_to_asm :: "fp_id \<Rightarrow> u8 \<Rightarrow> u8 \<Rightarrow> i32 \<Rightarrow> string" where
  "f_store_to_asm i base src offset = instr_line (pad6 (mnemonic (Fp i))) [fr src, mem_ref offset base]"

definition falu_to_asm :: "fp_id \<Rightarrow> u8 \<Rightarrow> u8 \<Rightarrow> u8 \<Rightarrow> string" where
  "falu_to_asm i rd rs1 rs2 = instr_line (mnemonic (Fp i)) [fr rd, fr rs1, fr rs2]"

definition fsqrt_to_asm :: "fp_id \<Rightarrow> u8 \<Rightarrow> u8 \<Rightarrow> string" where
  "fsqrt_to_asm i rd rs1 = instr_line (mnemonic (Fp i)) [fr rd, fr rs1]"

definition fcmp_to_asm :: "fp_id \<Rightarrow> u8 \<Rightarrow> u8 \<Rightarrow> u8 \<Rightarrow> string" where
  "fcmp_to_asm i rd rs1 rs2 = instr_line (mnemonic (Fp i)) [xr rd, fr rs1, fr rs2]"

definition fclass_to_asm :: "fp_id \<Rightarrow> u8 \<Rightarrow> u8 \<Rightarrow> string" where
  "fclass_to_asm i rd rs1 = instr_line (mnemonic (Fp i)) [xr rd, fr rs1]"

definition fmv_to_asm :: "fp_id \<Rightarrow> u8 \<Rightarrow> u8 \<Rightarrow> string" where
  "fmv_to_asm i rd rs =
     instr_line (pad6 (mnemonic (Fp i))) [asm_reg_name rd (i \<in> {FmvWX, FmvDX}), asm_reg_name rs (i \<in> {FmvXW, FmvXD})]"

definition fcvt_f2i_to_asm :: "fp_id \<Rightarrow> u8 \<Rightarrow> u8 \<Rightarrow> string" where
  "fcvt_f2i_to_asm i rd rs1 = instr_line (pad6 (mnemonic (Fp i))) [xr rd, fr rs1]"

definition fcvt_i2f_to_asm :: "fp_id \<Rightarrow> u8 \<Rightarrow> u8 \<Rightarrow> string" where
  "fcvt_i2f_to_asm i rd rs1 = instr_line (pad6 (mnemonic (Fp i))) [fr rd, xr rs1]"

definition fcvt_f2f_to_asm :: "fp_id \<Rightarrow> u8 \<Rightarrow> u8 \<Rightarrow> string" where
  "fcvt_f2f_to_asm i rd rs1 = instr_line (pad6 (mnemonic (Fp i))) [fr rd, fr rs1]"

definition fmac_to_asm :: "fp_id \<Rightarrow> u8 \<Rightarrow> u8 \<Rightarrow> u8 \<Rightarrow> u8 \<Rightarrow> string" where
  "fmac_to_asm i rd rs1 rs2 rs3 = instr_line (mnemonic (Fp i)) [fr rd, fr rs1, fr rs2, fr rs3]"

fun to_asm :: "real_instruction \<Rightarrow> string" where
  "to_asm (RI_Reg i rd rs1 rs2) = r_type_to_asm i rd rs1 rs2"
| "to_asm (RI_Imm i rd rs1 imm) = i_imm_to_asm i rd rs1 imm"
| "to_asm (RI_Load i rd base offset) = i_load_to_asm i rd base offset"
| "to_asm (RI_Shift i rd rs1 shamt) = shift_to_asm i rd rs1 shamt"
| "to_asm (RI_Store i base src offset) = s_type_to_asm i base src offset"
| "to_asm (RI_Branch i rs1 rs2 offset) = b_type_to_asm i rs1 rs2 offset"
| "to_asm (RI_Upper i rd imm) = u_type_to_asm i rd imm"
| "to_asm (RI_Jal rd offset) = j_type_to_asm rd offset"
| "to_asm (RI_Jalr rd rs1 imm) = jalr_to_asm rd rs1 imm"
| "to_asm (RI_System i) = system_to_asm i"
| "to_asm (RI_Fence fm pred succ) = fence_to_asm fm pred succ"
| "to_asm (RI_CsrReg i rd csr rs1) = csr_reg_to_asm i rd csr rs1"
| "to_asm (RI_CsrImm i rd csr uimm) = csr_imm_to_asm i rd csr uimm"
| "to_asm (RI_Amo i rd addr src aq rl) = amo_to_asm i rd addr src aq rl"
| "to_asm (RI_Lr double rd addr aq rl) = lr_to_asm double rd addr aq rl"
| "to_asm (RI_Sc double rd addr src aq rl) = sc_to_asm double rd addr src aq rl"
| "to_asm (RI_FLoad i rd base offset) = f_load_to_asm i rd base offset"
| "to_asm (RI_FStore i base src offset) = f_store_to_asm i base src offset"
| "to_asm (RI_FAlu i rd rs1 rs2 rm) = falu_to_asm i rd rs1 rs2"
| "to_asm (RI_FSqrt i rd rs1 rm) = fsqrt_to_asm i rd rs1"
| "to_asm (RI_FCmp i rd rs1 rs2) = fcmp_to_asm i rd rs1 rs2"
| "to_asm (RI_FClass i rd rs1) = fclass_to_asm i rd rs1"
| "to_asm (RI_FMv i rd rs) = fmv_to_asm i rd rs"
| "to_asm (RI_FCvtF2I i rd rs1 rm) = fcvt_f2i_to_asm i rd rs1"
| "to_asm (RI_FCvtI2F i rd rs1 rm) = fcvt_i2f_to_asm i rd rs1"
| "to_asm (RI_FCvtF2F i rd rs1 rm) = fcvt_f2f_to_asm i rd rs1"
| "to_asm (RI_FMac i rd rs1 rs2 rs3 rm) = fmac_to_asm i rd rs1 rs2 rs3"

lemmas to_asm_formats [simp] =
  r_type_to_asm_def i_imm_to_asm_def i_load_to_asm_def shift_to_asm_def s_type_to_asm_def b_type_to_asm_def
  u_type_to_asm_def j_type_to_asm_def jalr_to_asm_def system_to_asm_def fence_to_asm_def csr_reg_to_asm_def
  csr_imm_to_asm_def amo_to_asm_def lr_to_asm_def sc_to_asm_def f_load_to_asm_def f_store_to_asm_def falu_to_asm_def
  fsqrt_to_asm_def fcmp_to_asm_def fclass_to_asm_def fmv_to_asm_def fcvt_f2i_to_asm_def fcvt_i2f_to_asm_def
  fcvt_f2f_to_asm_def fmac_to_asm_def

definition pseudo_line :: "string \<Rightarrow> string list \<Rightarrow> string" where
  "pseudo_line m ops = instr_line (pad6 m) ops"

fun pseudo_to_asm :: "pseudo_instruction \<Rightarrow> string" where
  "pseudo_to_asm P_Nop = ''nop''"
| "pseudo_to_asm (P_Li rd imm) = pseudo_line ''li'' [xr rd, show_int (sint imm)]"
| "pseudo_to_asm (P_Mv rd rs) = pseudo_line ''mv'' [xr rd, xr rs]"
| "pseudo_to_asm (P_Not rd rs) = pseudo_line ''not'' [xr rd, xr rs]"
| "pseudo_to_asm (P_Neg rd rs) = pseudo_line ''neg'' [xr rd, xr rs]"
| "pseudo_to_asm (P_Negw rd rs) = pseudo_line ''negw'' [xr rd, xr rs]"
| "pseudo_to_asm (P_SextW rd rs) = pseudo_line ''sext.w'' [xr rd, xr rs]"
| "pseudo_to_asm (P_Seqz rd rs) = pseudo_line ''seqz'' [xr rd, xr rs]"
| "pseudo_to_asm (P_Snez rd rs) = pseudo_line ''snez'' [xr rd, xr rs]"
| "pseudo_to_asm (P_Sltz rd rs) = pseudo_line ''sltz'' [xr rd, xr rs]"
| "pseudo_to_asm (P_Sgtz rd rs) = pseudo_line ''sgtz'' [xr rd, xr rs]"
| "pseudo_to_asm (P_Beqz rs off) = pseudo_line ''beqz'' [xr rs, show_int (sint off)]"
| "pseudo_to_asm (P_Bnez rs off) = pseudo_line ''bnez'' [xr rs, show_int (sint off)]"
| "pseudo_to_asm (P_Blez rs off) = pseudo_line ''blez'' [xr rs, show_int (sint off)]"
| "pseudo_to_asm (P_Bgez rs off) = pseudo_line ''bgez'' [xr rs, show_int (sint off)]"
| "pseudo_to_asm (P_Bltz rs off) = pseudo_line ''bltz'' [xr rs, show_int (sint off)]"
| "pseudo_to_asm (P_Bgtz rs off) = pseudo_line ''bgtz'' [xr rs, show_int (sint off)]"
| "pseudo_to_asm (P_Bgt rs1 rs2 off) = pseudo_line ''bgt'' [xr rs1, xr rs2, show_int (sint off)]"
| "pseudo_to_asm (P_Ble rs1 rs2 off) = pseudo_line ''ble'' [xr rs1, xr rs2, show_int (sint off)]"
| "pseudo_to_asm (P_Bgtu rs1 rs2 off) = pseudo_line ''bgtu'' [xr rs1, xr rs2, show_int (sint off)]"
| "pseudo_to_asm (P_Bleu rs1 rs2 off) = pseudo_line ''bleu'' [xr rs1, xr rs2, show_int (sint off)]"
| "pseudo_to_asm (P_J off) = pseudo_line ''j'' [show_int (sint off)]"
| "pseudo_to_asm (P_Jr rs) = pseudo_line ''jr'' [xr rs]"
| "pseudo_to_asm P_Ret = ''ret''"
| "pseudo_to_asm (P_Call symbol) = pseudo_line ''call'' [symbol]"
| "pseudo_to_asm (P_Tail symbol) = pseudo_line ''tail'' [symbol]"
| "pseudo_to_asm (P_La rd symbol) = pseudo_line ''la'' [xr rd, symbol]"
| "pseudo_to_asm (P_FmvS fd fs) = pseudo_line ''fmv.s'' [fr fd, fr fs]"
| "pseudo_to_asm (P_FmvD fd fs) = pseudo_line ''fmv.d'' [fr fd, fr fs]"
| "pseudo_to_asm (P_FnegS fd fs) = pseudo_line ''fneg.s'' [fr fd, fr fs]"
| "pseudo_to_asm (P_FnegD fd fs) = pseudo_line ''fneg.d'' [fr fd, fr fs]"
| "pseudo_to_asm (P_FabsS fd fs) = pseudo_line ''fabs.s'' [fr fd, fr fs]"
| "pseudo_to_asm (P_FabsD fd fs) = pseudo_line ''fabs.d'' [fr fd, fr fs]"

text \<open>\<open>RvInstruction\<close>'s \<open>Display\<close>; line markers have no text.\<close>

fun rv_display :: "rv_instruction \<Rightarrow> string" where
  "rv_display (RV_Real r) = CHR 0x09 # to_asm r"
| "rv_display (RV_Pseudo p) = CHR 0x09 # pseudo_to_asm p"
| "rv_display (RV_Label l) = l @ '':''"
| "rv_display (RV_Comment c) = ''; '' @ c"
| "rv_display (RV_Directive d) = d"
| "rv_display (RV_SourceLoc _ _) = ''''"

fun is_code :: "rv_instruction \<Rightarrow> bool" where
  "is_code (RV_Real _) = True"
| "is_code (RV_Pseudo _) = True"
| "is_code _ = False"

end
