(* ===== verification/Asm_Round_Trip.thy ===== *)
theory Asm_Round_Trip
  imports Asm_Print
begin

text \<open>
  The round trip of assembly text: the line \<open>Display\<close> prints for an instruction whose mnemonic the text parser knows
  parses back to that instruction, a branch or \<open>jal\<close> to one whose target label is the printed number. The lemmas go bottom up: digits and numbers, register names, operands, memory references, the line.
\<close>

subsection \<open>Words\<close>

definition plain :: "char \<Rightarrow> bool" where
  "plain c = (\<not> is_whitespace c \<and> c \<notin> set '',;#():'')"

definition visible :: "string \<Rightarrow> bool" where
  "visible s = (s \<noteq> [] \<and> \<not> is_whitespace (hd s) \<and> \<not> is_whitespace (last s))"

lemma is_whitespace_blank [simp]: "is_whitespace (CHR '' '')" "is_whitespace (CHR 0x09)"
  by code_simp+

lemma trim_visible [simp]:
  assumes "visible s"
  shows "trim s = s"
proof -
  from assms have "dropWhile is_whitespace s = s" by (cases s) (auto simp: visible_def)
  moreover from assms have "dropWhile is_whitespace (rev s) = rev s"
    by (cases s rule: rev_cases) (auto simp: visible_def)
  ultimately show ?thesis by (simp add: trim_def)
qed

lemma trim_blank [simp]: "is_whitespace c \<Longrightarrow> trim (c # s) = trim s"
  by (simp add: trim_def)

lemma plain_word_visible: "s \<noteq> [] \<Longrightarrow> list_all plain s \<Longrightarrow> visible s"
  by (auto simp: visible_def list_all_iff plain_def)

lemma visible_append: "visible a \<Longrightarrow> visible b \<Longrightarrow> visible (a @ s @ b)"
  by (auto simp: visible_def)

lemma from_hit_append [simp]:
  "list_all (\<lambda>c. \<not> p c) a \<Longrightarrow> p c \<Longrightarrow> from_hit p (a @ c # s) = c # s"
  by (induction a) (auto simp: from_hit_def)

lemma before_append [simp]: "list_all (\<lambda>c. \<not> p c) a \<Longrightarrow> p c \<Longrightarrow> before p (a @ c # s) = a"
  by (induction a) (auto simp: before_def)

lemma from_hit_none [simp]: "list_all (\<lambda>c. \<not> p c) a \<Longrightarrow> from_hit p a = []"
  by (induction a) (auto simp: from_hit_def)

lemma before_none [simp]: "list_all (\<lambda>c. \<not> p c) a \<Longrightarrow> before p a = a"
  by (induction a) (auto simp: before_def)

lemma plain_not [intro]:
  "list_all plain s \<Longrightarrow> c \<in> set '',;#():'' \<Longrightarrow> list_all (\<lambda>x. x \<noteq> c) s"
  "list_all plain s \<Longrightarrow> list_all (\<lambda>x. \<not> comment_start x) s"
  "list_all plain s \<Longrightarrow> list_all (\<lambda>x. \<not> is_whitespace x) s"
  by (auto simp: list_all_iff plain_def)

subsection \<open>Numbers\<close>

lemma digit_char_value:
  "list_all (\<lambda>d. digit_value 10 (digit_char d) = Some (int d) \<and> plain (digit_char d)
      \<and> digit_char d \<notin> set ''-+xX.'' \<and> (\<exists>b\<in>set csr_names. hd (fst b) = digit_char d) = False) [0..<10]"
  by code_simp

lemma digit_char_below:
  assumes "d < 10"
  shows "digit_value 10 (digit_char d) = Some (int d)" "plain (digit_char d)" "digit_char d \<notin> set ''-+xX.''"
    "b \<in> set csr_names \<Longrightarrow> hd (fst b) \<noteq> digit_char d"
  using digit_char_value assms by (auto simp: list_all_iff)

lemma digits_value_append:
  "digits_value r acc (s @ t) = (case digits_value r acc s of None \<Rightarrow> None | Some v \<Rightarrow> digits_value r v t)"
  by (induction s arbitrary: acc) (auto split: option.splits)

lemma show_dec_digits: "c \<in> set (show_base 10 n) \<Longrightarrow> \<exists>d<10. c = digit_char d"
proof (induction n rule: less_induct)
  case (less n)
  then show ?case
    by (cases "n < 10")
      (auto simp: show_base.simps [of 10 n] intro: less.IH [of "n div 10"] exI [of _ n] exI [of _ "n mod 10"])
qed

lemma show_dec_nonempty [simp]: "show_base 10 n \<noteq> []"
  by (subst show_base.simps) simp

lemma show_dec_value: "digits_value 10 0 (show_base 10 n) = Some (int n)"
proof (induction n rule: less_induct)
  case (less n)
  show ?case
  proof (cases "n < 10")
    case True
    then show ?thesis by (subst show_base.simps) (simp add: digit_char_below)
  next
    case False
    then have "digits_value 10 0 (show_base 10 (n div 10)) = Some (int (n div 10))" by (intro less.IH) simp
    with False show ?thesis
      by (subst show_base.simps) (simp add: digits_value_append digit_char_below zdiv_int zmod_int)
  qed
qed

lemma show_int_plain: "list_all plain (show_int k)" "show_int k \<noteq> []" "CHR ''x'' \<notin> set (show_int k)"
    "CHR ''X'' \<notin> set (show_int k)"
proof -
  have "plain (CHR ''-'')" by code_simp
  then show "list_all plain (show_int k)"
    by (auto simp: show_int_def show_dec_def list_all_iff dest!: show_dec_digits intro: digit_char_below)
  show "show_int k \<noteq> []" by (simp add: show_int_def show_dec_def)
  have x: "CHR ''x'' \<notin> set (show_base 10 n)" "CHR ''X'' \<notin> set (show_base 10 n)" for n
    using digit_char_below(3) by (fastforce dest!: show_dec_digits)+
  from x show "CHR ''x'' \<notin> set (show_int k)" "CHR ''X'' \<notin> set (show_int k)"
    by (auto simp: show_int_def show_dec_def)
qed

lemma show_int_visible [simp]: "visible (show_int k)"
  by (rule plain_word_visible) (rule show_int_plain)+

lemma show_int_no_prefix [simp]: "strip_hex_prefix (show_int k) = None"
proof -
  have "c \<in> set s" if "starts_with p s" "c \<in> set p" for c p s
    using that by (metis in_set_takeD starts_with_def)
  from this [of "''0x''" "show_int k" "CHR ''x''"] this [of "''0X''" "show_int k" "CHR ''X''"]
  show ?thesis using show_int_plain(3,4) [of k] by (auto simp: strip_hex_prefix_def)
qed

lemma show_dec_head: "\<exists>d cs. d < 10 \<and> show_base 10 n = digit_char d # cs"
  using show_dec_digits [of "hd (show_base 10 n)" n] by (cases "show_base 10 n") auto

lemma parse_i64_show_int:
  assumes "- (2 ^ 63) \<le> k" "k < 2 ^ 63"
  shows "parse_i64 10 (show_int k) = Some (of_int k)"
proof (cases "k < 0")
  case True
  then have "show_int k = CHR ''-'' # show_base 10 (nat (- k))" by (simp add: show_int_def show_dec_def)
  with True assms show ?thesis by (simp add: parse_i64_def show_dec_value)
next
  case False
  obtain d cs where d: "d < 10" "show_base 10 (nat k) = digit_char d # cs" using show_dec_head by blast
  from False have "show_int k = show_base 10 (nat k)" by (simp add: show_int_def show_dec_def)
  with False assms d digit_char_below(3) [of d] show ?thesis
    using show_dec_value [of "nat k"] by (simp add: parse_i64_def)
qed

lemma parse_imm_show_int:
  assumes "constants (show_int (sint imm)) = None"
  shows "Option.bind (parse_imm_i64 (show_int (sint (imm :: i32))) constants) try_into_i32 = Some imm"
proof -
  have r: "- (2 ^ 31) \<le> sint imm" "sint imm < 2 ^ 31" using sint_greater_eq [of imm] sint_lt [of imm] by simp_all
  then have "parse_i64 10 (show_int (sint imm)) = Some (of_int (sint imm))" by (intro parse_i64_show_int) simp_all
  moreover have "sint (of_int (sint imm) :: i64) = sint imm"
    using r by (simp add: signed_take_bit_int_eq_self)
  moreover have "ucast (of_int (sint imm) :: i64) = imm"
    by (simp add: ucast_down_wi is_down)
  ultimately show ?thesis using assms r by (simp add: parse_imm_i64_def try_into_i32_def)
qed

lemma parse_csr_show_int:
  assumes "constants (show_int (uint csr)) = None"
  shows "parse_csr_name (show_int (uint (csr :: u16))) constants = Some csr"
proof -
  obtain d cs where d: "d < 10" "show_base 10 (nat (uint csr)) = digit_char d # cs" using show_dec_head by blast
  have s: "show_int (uint csr) = show_base 10 (nat (uint csr))"
    by (simp add: show_int_def show_dec_def not_less)
  have "b \<in> set csr_names \<Longrightarrow> fst b \<noteq> digit_char d # cs" for b
    using digit_char_below(4) [OF d(1), of b] by auto
  then have "map_of csr_names (show_int (uint csr)) = None"
    unfolding s d(2) map_of_eq_None_iff by (metis imageE)
  moreover have "parse_unsigned 10 16 (show_int (uint csr)) = Some (uint csr)"
    using d digit_char_below(3) [OF d(1)] show_dec_value [of "nat (uint csr)"] uint_lt2p [of csr]
    by (simp add: parse_unsigned_def s)
  ultimately show ?thesis using assms by (simp add: parse_csr_name_def)
qed

subsection \<open>Operands\<close>

lemma register_texts:
  "list_all (\<lambda>n. list_all plain (asm_reg_name (of_nat n) False) \<and> asm_reg_name (of_nat n) False \<noteq> []
      \<and> parse_int_reg (asm_reg_name (of_nat n) False) = Some (of_nat n)) [0..<32]"
  by code_simp

lemma register_text:
  assumes "r < 32"
  shows "list_all plain (asm_reg_name r False)" "visible (asm_reg_name r False)"
    "parse_int_reg (asm_reg_name r False) = Some r"
  using all_below_32 [OF register_texts assms] by (auto intro: plain_word_visible)

lemma plain_no_comma [simp]: "list_all plain s \<Longrightarrow> list_all (\<lambda>c. c \<noteq> CHR '','') s"
  by (rule plain_not) simp_all

lemma at_comma_operands [simp]:
  assumes "list_all plain a" "visible a" "visible b"
  shows "at_comma (join_operands [a, b]) = Some (a, b)"
  using assms by (simp add: at_comma_def)

lemma no_comma_blank [simp]: "list_all plain b \<Longrightarrow> list_all (\<lambda>c. c \<noteq> CHR '','') (CHR '' '' # b)"
  by simp

lemma splitn_operands [simp]:
  assumes "list_all plain a" "list_all plain b" "list_all plain c"
  shows "splitn 3 comma (join_operands [a, b, c]) = [a, CHR '' '' # b, CHR '' '' # c]"
proof -
  have "from_hit comma (CHR '' '' # b @ CHR '','' # s) = CHR '','' # s"
    "before comma (CHR '' '' # b @ CHR '','' # s) = CHR '' '' # b" for s
    using from_hit_append [of comma "CHR '' '' # b" "CHR '',''" s]
      before_append [of comma "CHR '' '' # b" "CHR '',''" s] assms by simp_all
  with assms show ?thesis by (simp add: numeral_3_eq_3)
qed

lemma paren_free:
  assumes "list_all plain s"
  shows "list_all (\<lambda>c. c \<noteq> CHR ''('') s" "list_all (\<lambda>c. c \<noteq> CHR '')'') s"
  using assms by (auto intro!: plain_not(1))

lemma mem_ref_parse:
  assumes "base < 32" "constants (show_int (sint offset)) = None"
  shows "parse_mem_ref (mem_ref offset base) constants = Some (base, offset)"
proof -
  let ?n = "show_int (sint offset)" and ?r = "asm_reg_name base False"
  note parts = show_int_plain(1) [of "sint offset"] register_text(1) [OF assms(1)]
  have opened: "before (\<lambda>c. c = CHR ''('') (mem_ref offset base) = ?n"
    "from_hit (\<lambda>c. c = CHR ''('') (mem_ref offset base) \<noteq> []"
    using paren_free [OF parts(1)] by (simp_all add: mem_ref_def)
  have closed: "before (\<lambda>c. c = CHR '')'') (mem_ref offset base) = ?n @ ''('' @ ?r"
    "from_hit (\<lambda>c. c = CHR '')'') (mem_ref offset base) \<noteq> []"
    using paren_free(2) [OF parts(1)] paren_free(2) [OF parts(2)]
      before_append [of "\<lambda>c. c = CHR '')''" "?n @ ''('' @ ?r" "CHR '')''" "[]"]
      from_hit_append [of "\<lambda>c. c = CHR '')''" "?n @ ''('' @ ?r" "CHR '')''" "[]"]
    by (simp_all add: mem_ref_def)
  have pieces: "take (length ?n) (mem_ref offset base) = ?n"
    "drop (length ?n + 1) (take (length (?n @ ''('' @ ?r)) (mem_ref offset base)) = ?r"
    "length (?n @ ''('' @ ?r) + 1 = length (mem_ref offset base)"
    by (simp_all add: mem_ref_def)
  show ?thesis
    using parse_imm_show_int [of constants offset, OF assms(2)] register_text(2,3) [OF assms(1)] opened(2) closed(2)
    unfolding parse_mem_ref_def Let_def opened(1) closed(1) pieces by simp
qed

lemma mem_ref_visible: "visible (mem_ref offset base)"
  using show_int_visible [of "sint offset"] by (auto simp: mem_ref_def visible_def is_whitespace_def)

subsection \<open>Lines\<close>

definition line_tail :: "string \<Rightarrow> bool" where
  "line_tail s = (visible s \<and> list_all (\<lambda>c. \<not> comment_start c) s \<and> last s \<noteq> CHR '':'')"

lemma line_tail_plain:
  assumes "s \<noteq> []" "list_all plain s"
  shows "line_tail s"
proof -
  from assms have "last s \<in> set s" by simp
  with assms(2) have "plain (last s)" by (auto simp: list_all_iff)
  then have "last s \<noteq> CHR '':''" by (auto simp: plain_def)
  with assms plain_not(2) [OF assms(2)] show ?thesis by (simp add: line_tail_def plain_word_visible)
qed

lemma line_tail_join:
  assumes "a \<noteq> []" "list_all plain a" "line_tail b"
  shows "line_tail (join_operands [a, b])"
  using assms plain_word_visible [OF assms(1,2)] plain_not(2) [OF assms(2)]
    visible_append [of a b "'', ''"]
  by (auto simp: line_tail_def visible_def)

lemma line_tail_join3:
  assumes "a \<noteq> []" "list_all plain a" "b \<noteq> []" "list_all plain b" "line_tail c"
  shows "line_tail (join_operands [a, b, c])"
  using line_tail_join [OF assms(1,2) line_tail_join [OF assms(3-5)]] by simp

lemma line_tail_mem_ref:
  assumes "base < 32"
  shows "line_tail (mem_ref offset base)"
  using mem_ref_visible [of offset base] plain_not(2) [OF show_int_plain(1) [of "sint offset"]]
    plain_not(2) [OF register_text(1) [OF assms]]
  by (auto simp: line_tail_def mem_ref_def)

lemma starts_with_dot: "starts_with (CHR ''.'' # p) s \<Longrightarrow> hd s = CHR ''.''"
  by (cases s) (auto simp: starts_with_def)

lemma text_line:
  assumes "line_tail l" "hd l \<noteq> CHR ''.''" "split_mnemonic l = (m, rest)"
  shows "parse_directive_or_instruction (CHR 0x09 # l) constants = (case branch_kind_from_mnemonic m of
      Some kind \<Rightarrow> or_malformed m l (parse_branch kind rest) | None \<Rightarrow> dispatch_mnemonic l m rest constants)"
proof -
  have l: "l \<noteq> []" "\<not> is_whitespace (hd l)" "visible l" "list_all (\<lambda>c. \<not> comment_start c) l" "last l \<noteq> CHR '':''"
    using assms(1) by (auto simp: line_tail_def visible_def)
  have "trim_start (CHR 0x09 # l) = l" using l(1,2) by (cases l) (auto simp: trim_start_def)
  then have directive: "\<not> is_string_directive (CHR 0x09 # l)"
    using assms(2) starts_with_dot by (fastforce simp: is_string_directive_def)
  have no_comment: "strip_comment (CHR 0x09 # l) = CHR 0x09 # l" "strip_comment l = l"
    using from_hit_none [of comment_start, OF l(4)] from_hit_none [of comment_start "CHR 0x09 # l"] l(4)
    by (simp_all add: strip_comment_def)
  have dot: "\<not> starts_with ''.'' l" using assms(2) starts_with_dot by blast
  have label: "label_line l = None" using l(5) by (simp add: label_line_def strip_suffix_char_def)
  show ?thesis
    using directive no_comment dot label l(1,3) assms(3)
    by (simp add: parse_directive_or_instruction_def parse_instruction_line_def)
qed

lemma text_operands:
  assumes m: "m \<noteq> []" "list_all plain m" "hd m \<noteq> CHR ''.''" and "line_tail ops"
  shows "parse_directive_or_instruction (CHR 0x09 # m @ replicate (Suc n) (CHR '' '') @ ops) constants
    = (case branch_kind_from_mnemonic m of
         Some kind \<Rightarrow> or_malformed m (m @ replicate (Suc n) (CHR '' '') @ ops) (parse_branch kind ops)
       | None \<Rightarrow> dispatch_mnemonic (m @ replicate (Suc n) (CHR '' '') @ ops) m ops constants)"
proof (rule text_line)
  have v: "visible m" using m by (auto intro: plain_word_visible)
  show "line_tail (m @ replicate (Suc n) (CHR '' '') @ ops)"
  proof -
    have tail: "visible ops" "list_all (\<lambda>c. \<not> comment_start c) ops" "last ops \<noteq> CHR '':''" "ops \<noteq> []"
      using assms(4) by (simp_all add: line_tail_def visible_def)
    have "list_all (\<lambda>c. \<not> comment_start c) (replicate (Suc n) (CHR '' ''))" by (induction n) simp_all
    with tail plain_not(2) [OF m(2)] visible_append [OF v tail(1), of "replicate (Suc n) (CHR '' '')"]
    show ?thesis by (simp add: line_tail_def del: replicate.simps)
  qed
  show "hd (m @ replicate (Suc n) (CHR '' '') @ ops) \<noteq> CHR ''.''" using m by simp
  have "trim_start (replicate (Suc n) (CHR '' '') @ ops) = ops"
    using assms(4) by (induction n) (cases ops; simp add: trim_start_def line_tail_def visible_def)+
  then show "split_mnemonic (m @ replicate (Suc n) (CHR '' '') @ ops) = (m, ops)"
    using plain_not(3) [OF m(2)] by (simp add: split_mnemonic_def)
qed

definition mnemonic_word :: "string \<Rightarrow> bool" where
  "mnemonic_word m = (m \<noteq> [] \<and> list_all plain m \<and> hd m \<noteq> CHR ''.'' \<and> branch_kind_from_mnemonic m = None)"

lemma operands_line:
  assumes "mnemonic_word m" "line_tail ops"
  shows "parse_directive_or_instruction (CHR 0x09 # m @ replicate (Suc n) (CHR '' '') @ ops) constants
    = dispatch_mnemonic (m @ replicate (Suc n) (CHR '' '') @ ops) m ops constants"
  using text_operands [of m ops n constants] assms by (simp add: mnemonic_word_def del: replicate.simps)

lemma bare_line:
  assumes "mnemonic_word m"
  shows "parse_directive_or_instruction (CHR 0x09 # m) constants = dispatch_mnemonic m m [] constants"
proof -
  have m: "m \<noteq> []" "list_all plain m" "hd m \<noteq> CHR ''.''" "branch_kind_from_mnemonic m = None"
    using assms by (auto simp: mnemonic_word_def)
  have "line_tail m" using m(1,2) by (rule line_tail_plain)
  moreover have "split_mnemonic m = (m, [])"
    using plain_not(3) [OF m(2)] by (simp add: split_mnemonic_def trim_start_def)
  ultimately show ?thesis using text_line [of m m "[]" constants] m(3,4) by simp
qed

lemma padded_line:
  assumes "mnemonic_word m" "line_tail (join_operands ops)"
  shows "\<exists>l. parse_directive_or_instruction (CHR 0x09 # instr_line (pad6 m) ops) constants
    = dispatch_mnemonic l m (join_operands ops) constants"
    "\<exists>l. parse_directive_or_instruction (CHR 0x09 # instr_line m ops) constants
    = dispatch_mnemonic l m (join_operands ops) constants"
    "\<exists>l. parse_directive_or_instruction (CHR 0x09 # instr_line (m @ '' '') ops) constants
    = dispatch_mnemonic l m (join_operands ops) constants"
proof -
  have shift: "replicate n x @ x # s = x # replicate n x @ s" for n and x :: char and s by (induction n) simp_all
  show "\<exists>l. parse_directive_or_instruction (CHR 0x09 # instr_line (pad6 m) ops) constants
    = dispatch_mnemonic l m (join_operands ops) constants"
    using operands_line [OF assms, of "6 - length m" constants]
    by (intro exI) (simp add: instr_line_def pad6_def shift)
  show "\<exists>l. parse_directive_or_instruction (CHR 0x09 # instr_line m ops) constants
    = dispatch_mnemonic l m (join_operands ops) constants"
    using operands_line [OF assms, of 0 constants] by (intro exI) (simp add: instr_line_def)
  show "\<exists>l. parse_directive_or_instruction (CHR 0x09 # instr_line (m @ '' '') ops) constants
    = dispatch_mnemonic l m (join_operands ops) constants"
    using operands_line [OF assms, of 1 constants] by (intro exI) (simp add: instr_line_def)
qed

subsection \<open>The round trip\<close>

fun parsable :: "real_instruction \<Rightarrow> bool" where
  "parsable (RI_Reg i _ _ _) \<longleftrightarrow> i \<in> set (map snd r_type_ids)"
| "parsable (RI_Imm i _ _ _) \<longleftrightarrow> i \<in> set (map snd imm_ids)"
| "parsable (RI_Load i _ _ _) \<longleftrightarrow> i \<in> set (map snd load_ids)"
| "parsable (RI_Store i _ _ _) \<longleftrightarrow> i \<in> set (map snd store_ids)"
| "parsable (RI_Shift i _ _ _) \<longleftrightarrow> i \<in> set (map snd shift_names)"
| "parsable (RI_Jalr _ _ _) \<longleftrightarrow> True"
| "parsable (RI_System i) \<longleftrightarrow> i \<in> {base_id.Ecall, base_id.Mret, base_id.Sret, Wfi, SfenceVma}"
| "parsable (RI_CsrReg i _ _ _) \<longleftrightarrow> i \<in> set (map snd csr_rmw_ids)"
| "parsable _ \<longleftrightarrow> False"

lemma parsable_mnemonics:
  "list_all (\<lambda>(m, i). mnemonic (Rr i) = m \<and> mnemonic_word m) r_type_ids"
  "list_all (\<lambda>(m, i). mnemonic (Base i) = m \<and> mnemonic_word m)
     (imm_ids @ load_ids @ store_ids @ shift_names @ csr_rmw_ids @ [(''jalr'', Jalr), (''ecall'', base_id.Ecall), (''mret'', base_id.Mret),
      (''sret'', base_id.Sret), (''wfi'', Wfi), (''sfence.vma'', SfenceVma)])"
  by code_simp+

lemma parsable_lookup:
  "list_all (\<lambda>(m, i). map_of r_type_ids m = Some i) r_type_ids"
  "list_all (\<lambda>(m, i). map_of imm_ids m = Some i) imm_ids"
  "list_all (\<lambda>(m, i). map_of load_ids m = Some i) load_ids"
  "list_all (\<lambda>(m, i). map_of store_ids m = Some i) store_ids"
  "list_all (\<lambda>(m, i). map_of shift_names m = Some i) shift_names"
  "list_all (\<lambda>(m, i). map_of csr_rmw_ids m = Some i) csr_rmw_ids"
  by code_simp+

text \<open>The arm of the match each group of mnemonics takes: its names are not those of an earlier arm.\<close>

definition single_arms :: "string list" where
  "single_arms = [''call'', ''tail'', ''j'', ''jal'', ''la'', ''jalr'', ''sfence.vma'', ''li'', ''mv'', ''csrr'', ''csrw'',
     ''ble'', ''bgt'', ''blez'', ''bgez'', ''bltz'', ''bgtz'', ''beqz'', ''bnez''] @ map fst no_operand"

lemma tables_disjoint:
  "list_all (\<lambda>m. m \<notin> set single_arms)
     (map fst (store_ids @ load_ids @ imm_ids @ shift_names @ csr_rmw_ids) @ map fst r_type_ids)"
  "list_all (\<lambda>m. m \<notin> set (map fst (store_ids))) (map fst load_ids)"
  "list_all (\<lambda>m. m \<notin> set (map fst (store_ids @ load_ids))) (map fst imm_ids)"
  "list_all (\<lambda>m. m \<notin> set (map fst (store_ids @ load_ids @ imm_ids))) (map fst shift_names)"
  "list_all (\<lambda>m. m \<notin> set (map fst (store_ids @ load_ids @ imm_ids @ shift_names))) (map fst csr_rmw_ids)"
  "list_all (\<lambda>m. m \<notin> set (map fst (store_ids @ load_ids @ imm_ids @ shift_names @ csr_rmw_ids))) (map fst r_type_ids)"
  by code_simp+

lemma not_single:
  assumes "m \<in> set (map fst (store_ids @ load_ids @ imm_ids @ shift_names @ csr_rmw_ids) @ map fst r_type_ids)"
  shows "m \<noteq> ''call''" "m \<noteq> ''tail''" "m \<noteq> ''j''" "m \<noteq> ''jal''" "m \<noteq> ''la''" "m \<noteq> ''jalr''" "m \<noteq> ''sfence.vma''"
    "m \<noteq> ''li''" "m \<noteq> ''mv''" "m \<noteq> ''csrr''" "m \<noteq> ''csrw''" "m \<noteq> ''ble''" "m \<noteq> ''bgt''"
    "m \<notin> set [''blez'', ''bgez'', ''bltz'', ''bgtz'']" "m \<noteq> ''beqz''" "m \<noteq> ''bnez''" "m \<notin> set (map fst no_operand)"
  using bspec [OF tables_disjoint(1) [unfolded list_all_iff] assms] unfolding single_arms_def by simp_all

lemma store_arm:
  assumes "m \<in> set (map fst store_ids)"
  shows "dispatch_mnemonic l m rest constants = or_new m l (map_option (\<lambda>(rs2, rs1, imm). RI_Store (the (map_of store_ids m)) rs1 rs2 imm) (parse_store_mem rest constants))"
proof -
  from assms have single: "m \<in> set (map fst (store_ids @ load_ids @ imm_ids @ shift_names @ csr_rmw_ids) @ map fst r_type_ids)"
    by simp
  show ?thesis
    unfolding dispatch_mnemonic_def by (simp only: not_single [OF single] assms if_False if_True simp_thms)
qed

lemma load_arm:
  assumes "m \<in> set (map fst load_ids)"
  shows "dispatch_mnemonic l m rest constants = or_new m l (map_option (\<lambda>(rd, rs1, imm). RI_Load (the (map_of load_ids m)) rd rs1 imm) (parse_load_mem rest constants))"
proof -
  from assms have single: "m \<in> set (map fst (store_ids @ load_ids @ imm_ids @ shift_names @ csr_rmw_ids) @ map fst r_type_ids)"
    by simp
  from assms have others: "m \<notin> set (map fst store_ids)"
    using bspec [OF tables_disjoint(2) [unfolded list_all_iff], of m]
    by (simp_all only: map_append set_append Un_iff de_Morgan_disj simp_thms not_False_eq_True)
  show ?thesis
    unfolding dispatch_mnemonic_def by (simp only: not_single [OF single] others assms if_False if_True simp_thms)
qed

lemma imm_arm:
  assumes "m \<in> set (map fst imm_ids)"
  shows "dispatch_mnemonic l m rest constants = or_new m l (map_option (\<lambda>(rd, rs1, imm). RI_Imm (the (map_of imm_ids m)) rd rs1 imm) (parse_r_i_imm rest constants))"
proof -
  from assms have single: "m \<in> set (map fst (store_ids @ load_ids @ imm_ids @ shift_names @ csr_rmw_ids) @ map fst r_type_ids)"
    by simp
  from assms have others: "m \<notin> set (map fst store_ids)" "m \<notin> set (map fst load_ids)"
    using bspec [OF tables_disjoint(3) [unfolded list_all_iff], of m]
    by (simp_all only: map_append set_append Un_iff de_Morgan_disj simp_thms not_False_eq_True)
  show ?thesis
    unfolding dispatch_mnemonic_def by (simp only: not_single [OF single] others assms if_False if_True simp_thms)
qed

lemma shift_arm:
  assumes "m \<in> set (map fst shift_names)"
  shows "dispatch_mnemonic l m rest constants = or_new m l (Option.bind (parse_r_i_imm rest constants) (\<lambda>(rd, rs1, shamt).
       if 0 \<le> sint shamt \<and> sint shamt \<le> 63 then Some (RI_Shift (the (map_of shift_names m)) rd rs1 (ucast shamt)) else None))"
proof -
  from assms have single: "m \<in> set (map fst (store_ids @ load_ids @ imm_ids @ shift_names @ csr_rmw_ids) @ map fst r_type_ids)"
    by simp
  from assms have others: "m \<notin> set (map fst store_ids)" "m \<notin> set (map fst load_ids)" "m \<notin> set (map fst imm_ids)"
    using bspec [OF tables_disjoint(4) [unfolded list_all_iff], of m]
    by (simp_all only: map_append set_append Un_iff de_Morgan_disj simp_thms not_False_eq_True)
  show ?thesis
    unfolding dispatch_mnemonic_def by (simp only: not_single [OF single] others assms if_False if_True simp_thms)
qed

lemma csr_arm:
  assumes "m \<in> set (map fst csr_rmw_ids)"
  shows "dispatch_mnemonic l m rest constants = or_new m l (parse_csr_rmw m rest constants)"
proof -
  from assms have single: "m \<in> set (map fst (store_ids @ load_ids @ imm_ids @ shift_names @ csr_rmw_ids) @ map fst r_type_ids)"
    by simp
  from assms have others: "m \<notin> set (map fst store_ids)" "m \<notin> set (map fst load_ids)" "m \<notin> set (map fst imm_ids)" "m \<notin> set (map fst shift_names)"
    using bspec [OF tables_disjoint(5) [unfolded list_all_iff], of m]
    by (simp_all only: map_append set_append Un_iff de_Morgan_disj simp_thms not_False_eq_True)
  show ?thesis
    unfolding dispatch_mnemonic_def by (simp only: not_single [OF single] others assms if_False if_True simp_thms)
qed

lemma r_type_arm:
  assumes "m \<in> set (map fst r_type_ids)"
  shows "dispatch_mnemonic l m rest constants = (case parse_r_type m rest of Some i \<Rightarrow> real_new i
        | None \<Rightarrow> Inl (AssemblerError (''unknown or malformed instruction: '' @ l)))"
proof -
  from assms have single: "m \<in> set (map fst (store_ids @ load_ids @ imm_ids @ shift_names @ csr_rmw_ids) @ map fst r_type_ids)"
    by simp
  from assms have others: "m \<notin> set (map fst store_ids)" "m \<notin> set (map fst load_ids)" "m \<notin> set (map fst imm_ids)" "m \<notin> set (map fst shift_names)" "m \<notin> set (map fst csr_rmw_ids)"
    using bspec [OF tables_disjoint(6) [unfolded list_all_iff], of m]
    by (simp_all only: map_append set_append Un_iff de_Morgan_disj simp_thms not_False_eq_True)
  show ?thesis
    unfolding dispatch_mnemonic_def by (simp only: not_single [OF single] others assms if_False if_True simp_thms)
qed

lemma jalr_arm:
  "dispatch_mnemonic l ''jalr'' rest constants =
     or_new ''jalr'' l (map_option (\<lambda>(rd, rs1, imm). RI_Jalr rd rs1 imm) (parse_load_mem rest constants))"
  unfolding dispatch_mnemonic_def by (simp cong: if_weak_cong)

lemma no_operand_lookup:
  "list_all (\<lambda>(m, i). m \<notin> set [''call'', ''tail'', ''j'', ''jal'', ''la'', ''jalr''] \<and> map_of no_operand m = Some i) no_operand"
  by code_simp

lemma no_operand_arm:
  assumes "(m, i) \<in> set no_operand"
  shows "dispatch_mnemonic l m [] constants = real_new i"
proof -
  have m: "m \<notin> set [''call'', ''tail'', ''j'', ''jal'', ''la'', ''jalr'']" "map_of no_operand m = Some i"
    using bspec [OF no_operand_lookup [unfolded list_all_iff] assms] by auto
  then have early: "m \<noteq> ''call''" "m \<noteq> ''tail''" "m \<noteq> ''j''" "m \<noteq> ''jal''" "m \<noteq> ''la''" "m \<noteq> ''jalr''"
    by simp_all
  from assms have member: "m \<in> set (map fst no_operand)" by force
  show ?thesis
    unfolding dispatch_mnemonic_def by (simp only: early member m(2) if_False if_True simp_thms option.sel)
qed

lemma x0_parses: "parse_int_reg ''x0'' = Some 0"
proof -
  have "trim ''x0'' = ''x0''" by code_simp
  moreover have "parse_numbered_register ''x0'' (CHR ''x'') = Some 0"
    by (simp add: parse_numbered_register_def strip_prefix_def parse_usize_def digit_def)
  ultimately show ?thesis by (simp add: parse_int_reg_def int_reg_parse_def or_else_option_def)
qed

lemma fence_arm: "dispatch_mnemonic l ''sfence.vma'' ''x0, x0'' constants = real_new (RI_System SfenceVma)"
proof -
  have fields: "at_comma ''x0, x0'' = Some (''x0'', ''x0'')" by code_simp
  have two: "parse_two_regs ''x0, x0'' = Some (0, 0)"
    unfolding parse_two_regs_def parse_two_fields_def fields by (simp add: x0_parses)
  have name: "''sfence.vma'' \<notin> set (map fst no_operand)" by code_simp
  show ?thesis unfolding dispatch_mnemonic_def by (simp add: two name cong: if_weak_cong)
qed

text \<open>Operands as the arms read them.\<close>

lemma three_registers:
  assumes "rd < 32" "rs1 < 32" "rs2 < 32" "(m, i) \<in> set r_type_ids"
  shows "parse_r_type m (join_operands [asm_reg_name rd False, asm_reg_name rs1 False, asm_reg_name rs2 False])
    = Some (RI_Reg i rd rs1 rs2)"
  using parsable_lookup(1) assms register_text [OF assms(1)] register_text [OF assms(2)] register_text [OF assms(3)]
  by (auto simp: parse_r_type_def list_all_iff simp del: join_operands.simps)

lemma registers_immediate:
  assumes "rd < 32" "rs1 < 32" "constants (show_int (sint imm)) = None"
  shows "parse_r_i_imm (join_operands [asm_reg_name rd False, asm_reg_name rs1 False, show_int (sint imm)]) constants
    = Some (rd, rs1, imm)"
  using register_text [OF assms(1)] register_text [OF assms(2)] show_int_plain [of "sint imm"]
    parse_imm_show_int [of constants imm, OF assms(3)]
  by (simp add: parse_r_i_imm_def del: join_operands.simps Option.bind_assoc)

lemma register_memory:
  assumes "r < 32" "base < 32" "constants (show_int (sint offset)) = None"
  shows "parse_load_mem (join_operands [asm_reg_name r False, mem_ref offset base]) constants = Some (r, base, offset)"
    "parse_store_mem (join_operands [asm_reg_name r False, mem_ref offset base]) constants = Some (r, base, offset)"
  using register_text [OF assms(1)] mem_ref_visible [of offset base] mem_ref_parse [of base constants offset, OF assms(2,3)]
  by (simp_all add: parse_load_mem_def parse_store_mem_def del: join_operands.simps)

lemma register_csr_register:
  assumes "rd < 32" "rs1 < 32" "constants (show_int (uint csr)) = None" "(m, i) \<in> set csr_rmw_ids"
  shows "parse_csr_rmw m (join_operands [asm_reg_name rd False, show_int (uint csr), asm_reg_name rs1 False]) constants
    = Some (RI_CsrReg i rd csr rs1)"
  using parsable_lookup(6) assms register_text [OF assms(1)] register_text [OF assms(2)]
    show_int_plain [of "uint csr"] parse_csr_show_int [of constants csr, OF assms(3)]
  by (auto simp: parse_csr_rmw_def list_all_iff simp del: join_operands.simps)

text \<open>One instruction class after the other.\<close>

lemma base_mnemonic:
  assumes "(m, i) \<in> set (imm_ids @ load_ids @ store_ids @ shift_names @ csr_rmw_ids @ [(''jalr'', Jalr), (''ecall'', base_id.Ecall),
    (''mret'', base_id.Mret), (''sret'', base_id.Sret), (''wfi'', Wfi), (''sfence.vma'', SfenceVma)])"
  shows "mnemonic (Base i) = m" "mnemonic_word m"
  using bspec [OF parsable_mnemonics(2) [unfolded list_all_iff] assms] by simp_all

lemma register_tail:
  assumes "r < 32"
  shows "asm_reg_name r False \<noteq> []" "list_all plain (asm_reg_name r False)" "line_tail (asm_reg_name r False)"
  using register_text(1,2) [OF assms] by (auto simp: visible_def intro: line_tail_plain)

lemma number_tail: "line_tail (show_int k)"
  by (rule line_tail_plain) (rule show_int_plain)+

lemma reg_round_trip:
  assumes "i \<in> set (map snd r_type_ids)" "rd < 32" "rs1 < 32" "rs2 < 32"
  shows "parse_directive_or_instruction (CHR 0x09 # to_asm (RI_Reg i rd rs1 rs2)) constants = real_new (RI_Reg i rd rs1 rs2)"
proof -
  let ?ops = "[asm_reg_name rd False, asm_reg_name rs1 False, asm_reg_name rs2 False]"
  from assms(1) obtain m where m: "(m, i) \<in> set r_type_ids" by auto
  then have word: "mnemonic (Rr i) = m" "mnemonic_word m" "m \<in> set (map fst r_type_ids)"
    using bspec [OF parsable_mnemonics(1) [unfolded list_all_iff] m] by force+
  have tail: "line_tail (join_operands ?ops)"
    by (intro line_tail_join3 register_tail assms)
  obtain l where "parse_directive_or_instruction (CHR 0x09 # instr_line (pad6 m) ?ops) constants
      = dispatch_mnemonic l m (join_operands ?ops) constants"
    using padded_line(1) [OF word(2) tail] by blast
  then show ?thesis
    using r_type_arm [OF word(3)] three_registers [OF assms(2-4) m] word(1) by (simp del: join_operands.simps)
qed

lemma imm_round_trip:
  assumes "i \<in> set (map snd imm_ids)" "rd < 32" "rs1 < 32" "constants (show_int (sint imm)) = None"
  shows "parse_directive_or_instruction (CHR 0x09 # to_asm (RI_Imm i rd rs1 imm)) constants = real_new (RI_Imm i rd rs1 imm)"
proof -
  let ?ops = "[asm_reg_name rd False, asm_reg_name rs1 False, show_int (sint imm)]"
  from assms(1) obtain m where m: "(m, i) \<in> set imm_ids" by auto
  then have word: "mnemonic (Base i) = m" "mnemonic_word m" "m \<in> set (map fst imm_ids)" "map_of imm_ids m = Some i"
    using base_mnemonic [of m i] bspec [OF parsable_lookup(2) [unfolded list_all_iff] m] by force+
  have tail: "line_tail (join_operands ?ops)"
    by (intro line_tail_join3 register_tail number_tail assms)
  obtain l where "parse_directive_or_instruction (CHR 0x09 # instr_line (pad6 m) ?ops) constants
      = dispatch_mnemonic l m (join_operands ?ops) constants"
    using padded_line(1) [OF word(2) tail] by blast
  then show ?thesis
    using imm_arm [OF word(3)] registers_immediate [of rd rs1 constants imm, OF assms(2-4)] word(1,4)
    by (simp add: or_new_def del: join_operands.simps)
qed

lemma shift_round_trip:
  assumes "i \<in> set (map snd shift_names)" "rd < 32" "rs1 < 32" "shamt \<le> 63" "constants (show_int (uint shamt)) = None"
  shows "parse_directive_or_instruction (CHR 0x09 # to_asm (RI_Shift i rd rs1 shamt)) constants = real_new (RI_Shift i rd rs1 shamt)"
proof -
  let ?ops = "[asm_reg_name rd False, asm_reg_name rs1 False, show_int (uint shamt)]"
  from assms(1) obtain m where m: "(m, i) \<in> set shift_names" by auto
  then have word: "mnemonic (Base i) = m" "mnemonic_word m" "m \<in> set (map fst shift_names)" "map_of shift_names m = Some i"
    using base_mnemonic [of m i] bspec [OF parsable_lookup(5) [unfolded list_all_iff] m] by force+
  have "i \<in> set shift_ids" using assms(1) by (auto simp: shift_names_def)
  then have printed: "to_asm (RI_Shift i rd rs1 shamt) = instr_line (m @ '' '') ?ops" using word(1) by simp
  have small: "0 \<le> uint shamt" "uint shamt \<le> 63" using assms(4) by (simp_all add: word_le_def)
  then have "take_bit 32 (uint shamt) = uint shamt" by (intro take_bit_int_eq_self) simp_all
  moreover from small have "signed_take_bit 31 (uint shamt) = uint shamt" by (intro signed_take_bit_int_eq_self order_trans [of "- (2 ^ 31)" 0 "uint shamt"]) simp_all
  ultimately have amount: "sint (ucast shamt :: i32) = uint shamt" "ucast (ucast shamt :: i32) = shamt" "uint shamt \<le> 63"
    using small by (simp_all add: sint_uint unsigned_ucast_eq take_bit_word_eq_self)
  have tail: "line_tail (join_operands ?ops)"
    by (intro line_tail_join3 register_tail number_tail assms)
  obtain l where "parse_directive_or_instruction (CHR 0x09 # instr_line (m @ '' '') ?ops) constants
      = dispatch_mnemonic l m (join_operands ?ops) constants"
    using padded_line(3) [OF word(2) tail] by blast
  then show ?thesis
    using shift_arm [OF word(3)] registers_immediate [of rd rs1 constants "ucast shamt :: i32"] assms(2,3,5) word(4) printed amount
    by (simp add: or_new_def del: join_operands.simps to_asm.simps)
qed

lemma mem_operands:
  assumes "r < 32" "base < 32"
  shows "line_tail (join_operands [asm_reg_name r False, mem_ref offset base])"
  by (rule line_tail_join) (rule register_tail line_tail_mem_ref assms)+

lemma load_round_trip:
  assumes "i \<in> set (map snd load_ids)" "rd < 32" "base < 32" "constants (show_int (sint offset)) = None"
  shows "parse_directive_or_instruction (CHR 0x09 # to_asm (RI_Load i rd base offset)) constants = real_new (RI_Load i rd base offset)"
proof -
  let ?ops = "[asm_reg_name rd False, mem_ref offset base]"
  from assms(1) obtain m where m: "(m, i) \<in> set load_ids" by auto
  then have word: "mnemonic (Base i) = m" "mnemonic_word m" "m \<in> set (map fst load_ids)" "map_of load_ids m = Some i"
    using base_mnemonic [of m i] bspec [OF parsable_lookup(3) [unfolded list_all_iff] m] by force+
  obtain l where "parse_directive_or_instruction (CHR 0x09 # instr_line (pad6 m) ?ops) constants
      = dispatch_mnemonic l m (join_operands ?ops) constants"
    using padded_line(1) [OF word(2) mem_operands [OF assms(2,3)]] by blast
  then show ?thesis
    using load_arm [OF word(3)] register_memory(1) [of rd base constants offset, OF assms(2-4)] word(1,4)
    by (simp add: or_new_def del: join_operands.simps)
qed

lemma store_round_trip:
  assumes "i \<in> set (map snd store_ids)" "base < 32" "src < 32" "constants (show_int (sint offset)) = None"
  shows "parse_directive_or_instruction (CHR 0x09 # to_asm (RI_Store i base src offset)) constants
    = real_new (RI_Store i base src offset)"
proof -
  let ?ops = "[asm_reg_name src False, mem_ref offset base]"
  from assms(1) obtain m where m: "(m, i) \<in> set store_ids" by auto
  then have word: "mnemonic (Base i) = m" "mnemonic_word m" "m \<in> set (map fst store_ids)" "map_of store_ids m = Some i"
    using base_mnemonic [of m i] bspec [OF parsable_lookup(4) [unfolded list_all_iff] m] by force+
  obtain l where "parse_directive_or_instruction (CHR 0x09 # instr_line (pad6 m) ?ops) constants
      = dispatch_mnemonic l m (join_operands ?ops) constants"
    using padded_line(1) [OF word(2) mem_operands [OF assms(3,2)]] by blast
  then show ?thesis
    using store_arm [OF word(3)] register_memory(2) [of src base constants offset, OF assms(3,2,4)] word(1,4)
    by (simp add: or_new_def del: join_operands.simps)
qed

lemma jalr_round_trip:
  assumes "rd < 32" "rs1 < 32" "constants (show_int (sint imm)) = None"
  shows "parse_directive_or_instruction (CHR 0x09 # to_asm (RI_Jalr rd rs1 imm)) constants = real_new (RI_Jalr rd rs1 imm)"
proof -
  let ?ops = "[asm_reg_name rd False, mem_ref imm rs1]"
  have word: "mnemonic (Base Jalr) = ''jalr''" "mnemonic_word ''jalr''" using base_mnemonic [of "''jalr''" Jalr] by simp_all
  obtain l where "parse_directive_or_instruction (CHR 0x09 # instr_line (pad6 ''jalr'') ?ops) constants
      = dispatch_mnemonic l ''jalr'' (join_operands ?ops) constants"
    using padded_line(1) [OF word(2) mem_operands [OF assms(1,2)]] by blast
  then show ?thesis
    using jalr_arm register_memory(1) [of rd rs1 constants imm, OF assms] word(1)
    by (simp add: or_new_def del: join_operands.simps)
qed

lemma csr_round_trip:
  assumes "i \<in> set (map snd csr_rmw_ids)" "rd < 32" "rs1 < 32" "constants (show_int (uint csr)) = None"
  shows "parse_directive_or_instruction (CHR 0x09 # to_asm (RI_CsrReg i rd csr rs1)) constants
    = real_new (RI_CsrReg i rd csr rs1)"
proof -
  let ?ops = "[asm_reg_name rd False, show_int (uint csr), asm_reg_name rs1 False]"
  from assms(1) obtain m where m: "(m, i) \<in> set csr_rmw_ids" by auto
  then have word: "mnemonic (Base i) = m" "mnemonic_word m" "m \<in> set (map fst csr_rmw_ids)"
    using base_mnemonic [of m i] by force+
  have tail: "line_tail (join_operands ?ops)"
    by (rule line_tail_join3) (rule register_tail show_int_plain assms)+
  obtain l where "parse_directive_or_instruction (CHR 0x09 # instr_line (pad6 m) ?ops) constants
      = dispatch_mnemonic l m (join_operands ?ops) constants"
    using padded_line(1) [OF word(2) tail] by blast
  then show ?thesis
    using csr_arm [OF word(3)] register_csr_register [of rd rs1 constants csr, OF assms(2-4) m] word(1)
    by (simp add: or_new_def del: join_operands.simps)
qed

lemma system_round_trip:
  assumes "parsable (RI_System i)"
  shows "parse_directive_or_instruction (CHR 0x09 # to_asm (RI_System i)) constants = real_new (RI_System i)"
proof (cases "i = SfenceVma")
  case True
  have word: "mnemonic (Base SfenceVma) = ''sfence.vma''" "mnemonic_word ''sfence.vma''"
    using base_mnemonic [of "''sfence.vma''" SfenceVma] by simp_all
  have tail: "line_tail (join_operands [''x0, x0''])" by code_simp
  obtain l where "parse_directive_or_instruction (CHR 0x09 # instr_line ''sfence.vma'' [''x0, x0'']) constants
      = dispatch_mnemonic l ''sfence.vma'' ''x0, x0'' constants"
    using padded_line(2) [OF word(2) tail] by auto
  with True word(1) show ?thesis by (simp add: instr_line_def fence_arm)
next
  case False
  with assms have i: "i \<in> {base_id.Ecall, base_id.Mret, base_id.Sret, Wfi}" by simp
  then have "(mnemonic (Base i), RI_System i) \<in> set no_operand" "mnemonic_word (mnemonic (Base i))"
    using base_mnemonic [of "''ecall''" base_id.Ecall] base_mnemonic [of "''mret''" base_id.Mret]
      base_mnemonic [of "''sret''" base_id.Sret] base_mnemonic [of "''wfi''" Wfi]
    by (auto simp: no_operand_def)
  with False show ?thesis by (simp add: bare_line no_operand_arm)
qed

text \<open>Branches and \<open>jal\<close>. The printed line has the offset as a number, and the parser reads it as the name of
  the target label.\<close>

definition branch_kinds :: "branch_kind list" where
  "branch_kinds = [Bk_Beq, Bk_Bne, Bk_Blt, Bk_Bge, Bk_Bltu, Bk_Bgeu]"

lemma branch_kind_names:
  "list_all (\<lambda>k. let m = mnemonic (Base (branch_id k)) in
     m \<noteq> [] \<and> list_all plain m \<and> hd m \<noteq> CHR ''.'' \<and> branch_kind_from_mnemonic m = Some k) branch_kinds"
  by code_simp

lemma branch_operands:
  assumes "rs1 < 32" "rs2 < 32"
  shows "parse_branch kind (join_operands [asm_reg_name rs1 False, asm_reg_name rs2 False, show_int k])
    = Some (T_Branch kind rs1 rs2 (show_int k))"
  using register_text [OF assms(1)] register_text [OF assms(2)] show_int_plain [of k]
  by (simp add: parse_branch_def del: join_operands.simps)

lemma branch_round_trip:
  assumes "rs1 < 32" "rs2 < 32"
  shows "parse_directive_or_instruction (CHR 0x09 # to_asm (RI_Branch (branch_id kind) rs1 rs2 offset)) constants
    = Inr [T_Branch kind rs1 rs2 (show_int (sint offset))]"
proof -
  let ?ops = "[asm_reg_name rs1 False, asm_reg_name rs2 False, show_int (sint offset)]"
  let ?m = "mnemonic (Base (branch_id kind))"
  have "kind \<in> set branch_kinds" by (cases kind) (simp_all add: branch_kinds_def)
  from bspec [OF branch_kind_names [unfolded list_all_iff] this]
  have m: "?m \<noteq> []" "list_all plain ?m" "hd ?m \<noteq> CHR ''.''" "branch_kind_from_mnemonic ?m = Some kind"
    by (simp_all add: Let_def list_all_iff)
  have tail: "line_tail (join_operands ?ops)"
    by (intro line_tail_join3 register_tail number_tail assms)
  have shift: "replicate n x @ x # s = x # replicate n x @ s" for n and x :: char and s by (induction n) simp_all
  show ?thesis
    using text_operands [OF m(1-3) tail, of "6 - length ?m" constants] branch_operands [OF assms] m(4)
    by (simp add: instr_line_def pad6_def shift or_malformed_def del: join_operands.simps)
qed

lemma jal_operands:
  assumes "rd < 32"
  shows "parse_jal (join_operands [asm_reg_name rd False, show_int k]) = Some (T_Jal rd (show_int k))"
proof -
  have "splitn 2 comma (join_operands [asm_reg_name rd False, show_int k]) = [asm_reg_name rd False, CHR '' '' # show_int k]"
    using register_text(1) [OF assms] by (simp add: numeral_2_eq_2)
  then show ?thesis using register_text [OF assms] by (simp add: parse_jal_def del: join_operands.simps)
qed

lemma jal_round_trip:
  assumes "rd < 32"
  shows "parse_directive_or_instruction (CHR 0x09 # to_asm (RI_Jal rd offset)) constants = Inr [T_Jal rd (show_int (sint offset))]"
proof -
  let ?ops = "[asm_reg_name rd False, show_int (sint offset)]"
  have word: "mnemonic (Base Jal) = ''jal''" "mnemonic_word ''jal''" by code_simp+
  have tail: "line_tail (join_operands ?ops)"
    by (rule line_tail_join) (rule register_tail number_tail assms)+
  obtain l where "parse_directive_or_instruction (CHR 0x09 # instr_line (pad6 ''jal'') ?ops) constants
      = dispatch_mnemonic l ''jal'' (join_operands ?ops) constants"
    using padded_line(1) [OF word(2) tail] by blast
  moreover have "dispatch_mnemonic l ''jal'' rest constants = or_malformed ''jal'' l (parse_jal rest)" for rest
    unfolding dispatch_mnemonic_def by (simp cong: if_weak_cong)
  ultimately show ?thesis using jal_operands [OF assms] word(1)
    by (simp add: or_malformed_def del: join_operands.simps)
qed

text \<open>The token an instruction's line reads back as, for every real instruction whose mnemonic the text parser has an
  arm for; the others have none.\<close>

definition text_token :: "real_instruction \<Rightarrow> asm_token option" where
  "text_token i = (case i of
     RI_Branch j rs1 rs2 offset \<Rightarrow>
       map_option (\<lambda>kind. T_Branch kind rs1 rs2 (show_int (sint offset))) (find (\<lambda>kind. branch_id kind = j) branch_kinds)
   | RI_Jal rd offset \<Rightarrow> Some (T_Jal rd (show_int (sint offset)))
   | _ \<Rightarrow> if parsable i then Some (T_Real i) else None)"

lemma real_round_trip:
  assumes "instr_new_ok i" "parsable i" "\<forall>k. constants (show_int k) = None"
  shows "parse_directive_or_instruction (rv_display (RV_Real i)) constants = Inr [T_Real i]"
proof -
  have "parse_directive_or_instruction (CHR 0x09 # to_asm i) constants = real_new i"
  proof (cases i)
    case (RI_Reg j rd rs1 rs2)
    with assms reg_round_trip show ?thesis by (simp del: to_asm.simps)
  next
    case (RI_Imm j rd rs1 imm)
    with assms imm_round_trip show ?thesis by (simp del: to_asm.simps)
  next
    case (RI_Load j rd base offset)
    with assms load_round_trip show ?thesis by (simp del: to_asm.simps)
  next
    case (RI_Shift j rd rs1 shamt)
    moreover from this assms have "shamt \<le> 63" by (auto simp: shift_names_def)
    ultimately show ?thesis using assms shift_round_trip by (simp del: to_asm.simps)
  next
    case (RI_Store j base src offset)
    with assms store_round_trip show ?thesis by (simp del: to_asm.simps)
  next
    case (RI_Jalr rd rs1 imm)
    with assms jalr_round_trip show ?thesis by (simp del: to_asm.simps)
  next
    case (RI_CsrReg j rd csr rs1)
    with assms csr_round_trip show ?thesis by (simp del: to_asm.simps)
  next
    case (RI_System j)
    with assms(2) system_round_trip show ?thesis by (simp only:)
  qed (use assms(2) in simp_all)
  with assms(1) show ?thesis by (simp add: real_new_def)
qed

text \<open>C18. An instruction printed and read again. The real instructions whose mnemonics the text parser knows are
  the eighteen register operations of its table (of the shifts and comparisons only \<open>srl\<close>), \<open>addi\<close>, \<open>addiw\<close>, \<open>andi\<close>, \<open>ori\<close>, the three 64-bit shifts by an
  immediate, the loads \<open>lb\<close>, \<open>lbu\<close>, \<open>lw\<close>, \<open>ld\<close>, the stores and CSR operations of its tables, \<open>jalr\<close>,
  \<open>ecall\<close>, \<open>wfi\<close>, \<open>mret\<close>, \<open>sret\<close> and \<open>sfence.vma x0, x0\<close>, which come back as the same instruction,
  and the six branches and \<open>jal\<close>, which come back as the token for the same instruction with the printed
  number as the name of its target label. A constant whose name is a numeral would replace a literal, so none may be
  defined.\<close>

theorem asm_text_round_trip:
  assumes "instr_new_ok i" "text_token i = Some t" "\<forall>k. constants (show_int k) = None"
  shows "parse_directive_or_instruction (rv_display (RV_Real i)) constants = Inr [t]"
proof (cases "parsable i")
  case True
  then have "text_token i = Some (T_Real i)" by (cases i) (simp_all add: text_token_def)
  with assms(2) real_round_trip [OF assms(1) True assms(3)] show ?thesis by simp
next
  case False
  then consider (branch) j rs1 rs2 offset kind where "i = RI_Branch j rs1 rs2 offset"
      "find (\<lambda>kind. branch_id kind = j) branch_kinds = Some kind" "t = T_Branch kind rs1 rs2 (show_int (sint offset))"
    | (jal) rd offset where "i = RI_Jal rd offset" "t = T_Jal rd (show_int (sint offset))"
    using assms(2) by (cases i) (auto simp: text_token_def simp del: parsable.simps)
  then show ?thesis
  proof cases
    case branch
    then have "j = branch_id kind" by (auto simp: find_Some_iff)
    with branch assms(1) branch_round_trip show ?thesis by (simp del: to_asm.simps)
  next
    case jal
    with assms(1) jal_round_trip show ?thesis by (simp del: to_asm.simps)
  qed
qed

theorem asm_text_round_trip_witness:
  "parse_directive_or_instruction (rv_display (RV_Real (RI_Load Lw 10 2 (- 16)))) Map.empty = Inr [T_Real (RI_Load Lw 10 2 (- 16))]"
proof (rule asm_text_round_trip)
  show "instr_new_ok (RI_Load Lw 10 2 (- 16))" by code_simp
  show "text_token (RI_Load Lw 10 2 (- 16)) = Some (T_Real (RI_Load Lw 10 2 (- 16)))" by code_simp
qed simp

end
