(* ===== verification/Spec2Isabelle.thy ===== *)
theory Spec2Isabelle
  imports Prelude Vm_Error Registers Csr Traps Memory Cache Hierarchy Devices Bus Mmu Mmu_Correct Isa_Codec Isa_Names
    Decoder_Correct Alu Interrupts Functional Confinement Disasm Pipeline_Invariant Machine_Correct Snapshot Asm_Image Asm_Immediates Asm_Round_Trip
begin

text \<open>
  Verification of the machine side of the Full-Stack repository: the RISC-V instruction-set model
  (\<open>crates/riscv-model\<close>), the virtual machine (\<open>crates/virtual-machine\<close>) and the assembler
  (\<open>crates/asm-to-binary\<close>). The three meet twice: assembler and decoder share the encoding tables of the
  model, and the machine loads the ELF file the assembler writes.

  \<^bold>\<open>How the program works.\<close> The assembler turns tokens into sections, symbols and an ELF file in two passes. The
  loader parses the file and stores its segments through the system bus, which routes addresses to RAM behind
  three levels of write-back cache, to ROM and to the devices. Two cores execute the image: \<open>FunctionalCore\<close>
  runs one instruction per step, \<open>Pipeline\<close> five stages with forwarding, stalls and a branch predictor. Both
  share the decoder, the execute, memory and write-back functions, the MMU and the trap logic.

  \<^bold>\<open>Conventions.\<close> \<open>u8\<close> to \<open>u64\<close> are words and wrap; indices into register files and buffers are \<open>nat\<close>. A Rust struct is
  a record, an enum a datatype with the source's constructors, a fallible function returns a sum with the error
  on the left, and an operation on \<open>&mut self\<close> returns the new state (an \<open>action\<close> of \<open>Vm_Error\<close> where it can also
  fail). A Rust string is a list of characters that stand for its bytes. A definition carries the name of the Rust
  function, with a prefix of its type where names collide (\<open>csr_read\<close>, \<open>ram_read_word\<close>, \<open>pl_flush_pipeline\<close>).

  \<^bold>\<open>Instruction-set model\<close> (\<open>riscv-model/src/lib.rs\<close>). \<open>Isa_Types\<close> and \<open>Isa_Model\<close>: identities, the specification tables,
  operand types, every encoder and decoder. \<open>Isa_Tables\<close> states what the codecs need of a table as the locale
  \<open>spec_table\<close> and interprets it for the five tables; \<open>Isa_Bits\<close>, \<open>Isa_Formats\<close> and \<open>Isa_Codec\<close> show that encoders and decoders
  are inverse and no word has two readings; \<open>Isa_Names\<close> has register names, mnemonics, profiles and the
  PC-relative split.

  \<^bold>\<open>State and memory.\<close> \<open>Vm_Error\<close> (\<open>error.rs\<close>), \<open>Registers\<close>, \<open>Csr\<close>, \<open>Traps\<close> (\<open>cpu/registers.rs\<close>, \<open>cpu/csr.rs\<close>, \<open>cpu/traps.rs\<close>);
  \<open>Memory\<close> (\<open>memory.rs\<close>, \<open>memory/ram.rs\<close>, \<open>memory/rom.rs\<close>), \<open>Cache\<close> (\<open>memory/cache.rs\<close>), \<open>Devices\<close> (\<open>devices/\<close>), \<open>Bus\<close> (\<open>bus.rs\<close>), \<open>Mmu\<close>
  (\<open>cpu/mmu.rs\<close>). The contract \<open>byte_mem\<close> says what a memory level promises; \<open>Cache_Address\<close>, \<open>Cache_Correct\<close> and \<open>Cache_Level\<close>
  show that a cache over a level that keeps it keeps it too, and \<open>Hierarchy\<close> applies this three times, so that the
  hierarchy behaves as flat RAM. \<open>Cache_Flush\<close> and \<open>Cache_Image\<close> treat the cold reset and the RAM images.
  \<open>Mmu_Correct\<close> relates translation to a pure walk of the page tables that follows the specification. \<open>Bus\<close> compares
  the routing with the memory map, \<open>Csr\<close> every register with its writable bits.

  \<^bold>\<open>Execution.\<close> \<open>Decoder\<close>, \<open>Decoder_Correct\<close>, \<open>Decode_Shape\<close>, \<open>Disasm\<close> (\<open>cpu/decoder.rs\<close>); \<open>Word_Arith\<close>, \<open>Alu\<close>, \<open>Ieee754\<close>, \<open>Alu_Fp\<close> (\<open>cpu/alu.rs\<close>;
  the arithmetic of \<open>f32\<close> and \<open>f64\<close> is written out on bit patterns); \<open>Execute\<close>, \<open>Stages\<close> (\<open>cpu/pipeline/\<close>); \<open>Interrupts\<close>
  (\<open>cpu/architectural.rs\<close>, \<open>cpu/interrupts.rs\<close>); \<open>Retirement\<close> (\<open>cpu/retirement.rs\<close>); \<open>Hazard\<close> (\<open>cpu/hazard_unit.rs\<close>, \<open>cpu/pipeline/registers.rs\<close>);
  \<open>Functional\<close> (\<open>cpu/functional.rs\<close>); \<open>Predictor\<close> and \<open>Pipeline\<close> (\<open>cpu/predictor.rs\<close>, \<open>cpu/pipeline.rs\<close>). \<open>Mem_Client\<close> is the contract
  between the cores and whatever memory they run on, \<open>Bus_Client\<close> its interpretation by the bus. On it rest
  \<open>Functional_Correct\<close> (no step fails, well-formedness), \<open>Step_Events\<close> (the events describe the step) and \<open>Confinement\<close>
  (privileges). \<open>Pipeline_Correct\<close>, \<open>Forwarding\<close> and \<open>Pipeline_Invariant\<close> carry the invariant of the pipeline registers,
  integer and floating point, that gives an integer instruction in the execute stage the operands of sequential
  execution.

  \<^bold>\<open>The machine.\<close> \<open>Elf\<close> (\<open>elf_parser.rs\<close>), \<open>Virtual_Machine\<close> (\<open>virtual_machine.rs\<close>), \<open>Machine_Correct\<close> (loading, running,
  the states of the functional machine), \<open>Snapshot\<close> (checkpoints).

  \<^bold>\<open>The assembler.\<close> \<open>Asm_Instructions\<close> (\<open>real.rs\<close>, \<open>macros.rs\<close>, \<open>riscv/\<close>): the instructions, the conditions their constructors
  check and their encoding. \<open>Asm_Layout\<close> (\<open>assembler/section.rs\<close>, \<open>symbol_table.rs\<close>, \<open>token.rs\<close>, \<open>layout.rs\<close>) and \<open>Asm_Encode\<close>
  (\<open>assembler/encode.rs\<close>): the two passes. \<open>Asm_Elf\<close> (\<open>assembler/output.rs\<close>, \<open>link_layout.rs\<close>): executables, flat images, boundary
  symbols. \<open>Asm_Positions\<close> counts bytes per section and shows that both passes agree with the count; \<open>Asm_Correct\<close>
  and \<open>Asm_Calls\<close> derive where labels lie and what branches, jumps and calls reach; \<open>Asm_Image\<close> carries a
  program through the ELF writer and the loader into RAM. \<open>Asm_Pseudo\<close> holds the expansions
  of the pseudo-instructions (\<open>pseudo.rs\<close> and the parser's own \<open>expand_li\<close>) and a runner of instruction lists on the
  decoder and the execute stage, with which \<open>Asm_Immediates\<close> shows what the expansions compute. \<open>Asm_Text\<close> is the way
  from source text to tokens (\<open>rv_instruction.rs\<close>, \<open>assembler/directive.rs\<close>, \<open>assembler/parser.rs\<close>), \<open>Asm_Print\<close> the
  way from instructions to text, and \<open>Asm_Round_Trip\<close> relates the two.

  \<^bold>\<open>Parameters, bounds and fuel.\<close> \<open>float_host\<close> is what the language leaves to the host in floating point (the sign and
  payload of produced NaNs); nothing is assumed about it. The firmware in ROM is an argument, as is the order
  \<open>iter\<close> in which the ELF writer meets the symbols of a hash map; the theorems hold for every such order. The run
  loops (\<open>fm_run\<close>, \<open>vm_run\<close>, \<open>pl_run\<close>) recurse over the number of steps the caller passes, as in the source, so they need no
  further fuel; every other loop is structural or has a measure. Lengths of files are assumed below \<open>2 ^ 64\<close>
  where they are cast to \<open>u64\<close>.

  \<^bold>\<open>What does not hold.\<close> A few properties fail in the code and are stated where they do hold: after an \<open>ebreak\<close> or a
  fault at write-back the pipeline goes on with younger instructions, results of atomics are not forwarded, and
  \<open>mret\<close> does not check the privilege mode; the assembler resolves branches to other sections wrongly and the
  two passes disagree for a \<open>.balign\<close> that is not a power of two. \<open>li\<close> loads the 2048
  immediates just below \<open>2 ^ 31\<close> wrongly (\<open>li_misses_top_immediates\<close>), and long ones into \<open>t1\<close>; source text with an immediate
  out of range panics in a constructor, which is \<open>Asm_Panic\<close> here, and the printed form of a branch or \<open>jal\<close> does not
  assemble again. The test for canonical addresses ignores bit 38. \<open>_VM_SPECIFICATION.md\<close> differs from the code
  in the previous mode a trap saves (4.3 and 5.1, against its own 5.2) and in the order of interrupts (5.3);
  \<open>_RISCV_SPECIFICATIONS.md\<close> differs in the unit of \<open>.align\<close>.

  \<^bold>\<open>Not modelled.\<close> The compiler from the high-level language to the IR and from the IR to assembly
  (\<open>crates/hll-to-ir\<close>, \<open>crates/ir-to-asm\<close>), which meet the modelled part only as assembly text. In the assembler:
  the object linker and relocatable objects, line-table queries and the listing of the output; text is ASCII, so that
  characters are bytes. In the machine: the cache and bus snapshots for the
  IDE, the unused \<open>Bus\<close> of \<open>memory.rs\<close> and error texts. The IDE, the command line, the operating-system sources
  and the build and benchmark tools are user interface, input and output, or not Rust.
\<close>

end
